(* ===== verification/Ssz_Prelude.thy ===== *)
theory Ssz_Prelude
  imports Main "HOL-Library.Word" "HOL-Library.Code_Target_Nat"
begin

text \<open>
  What every component of the development shares: the outcome type of the fallible
  operations (an error or a value), the C++ runtime structures the generators use
  (\<open>std::map\<close> ordered by key, \<open>std::vector\<close> writes that are undefined out of
  range), the two layout characters of generated text, and the generic lemmas about them.
\<close>

section \<open>Shared types and automation\<close>

type_synonym byte = "8 word"
type_synonym u16 = "16 word"
type_synonym u32 = "32 word"
type_synonym u64 = "64 word"

named_theorems res_simps \<open>evaluation of the outcome combinators\<close>
named_theorems map_simps \<open>laws of the ordered map of the C++ library\<close>

subsection \<open>Outcomes\<close>

text \<open>
  A generator operation returns \<open>bool\<close> and logs an error message before it returns
  \<open>false\<close>; here the message is the error value.  A recursion that never ends exhausts
  the stack, and a vector write out of range is undefined behaviour; both are errors of their own.  A file that
  cannot be written is the last one.
\<close>

datatype Error =
    CompilerError string
  | StackOverflow
  | OutOfBounds
  | SaveFailed string

type_synonym 'a res = "Error + 'a"

fun bind_res :: "'a res \<Rightarrow> ('a \<Rightarrow> 'b res) \<Rightarrow> 'b res" where
  "bind_res (Inl e) f = Inl e"
| "bind_res (Inr x) f = f x"

fun is_ok :: "'a res \<Rightarrow> bool" where
  "is_ok (Inl e) = False"
| "is_ok (Inr x) = True"

fun fold_res :: "('a \<Rightarrow> 's \<Rightarrow> 's res) \<Rightarrow> 'a list \<Rightarrow> 's \<Rightarrow> 's res" where
  "fold_res f [] s = Inr s"
| "fold_res f (x # xs) s = bind_res (f x s) (fold_res f xs)"

text \<open>Two outcomes that differ at most in the text of a logged message.\<close>

fun same_outcome :: "'a res \<Rightarrow> 'a res \<Rightarrow> bool" where
  "same_outcome (Inr x) (Inr y) = (x = y)"
| "same_outcome (Inl (CompilerError s)) (Inl (CompilerError t)) = True"
| "same_outcome (Inl e) (Inl e') = (e = e')"
| "same_outcome _ _ = False"

lemma bind_res_Inr_iff [res_simps]:
  "bind_res m f = Inr y \<longleftrightarrow> (\<exists>x. m = Inr x \<and> f x = Inr y)"
  by (cases m) auto

lemma bind_res_Inl_iff [res_simps]:
  "bind_res m f = Inl e \<longleftrightarrow> m = Inl e \<or> (\<exists>x. m = Inr x \<and> f x = Inl e)"
  by (cases m) auto

lemma fold_res_append [res_simps]:
  "fold_res f (xs @ ys) s = bind_res (fold_res f xs s) (fold_res f ys)"
proof (induction xs arbitrary: s)
  case Nil
  then show ?case by simp
next
  case (Cons x xs)
  then show ?case by (cases "f x s") auto
qed

lemma same_outcome_refl [simp]: "same_outcome r r"
proof (cases r)
  case (Inl e)
  then show ?thesis by (cases e) simp_all
qed simp

lemma same_outcome_Inr [simp]: "same_outcome (Inr x) r \<longleftrightarrow> r = Inr x"
  by (cases r) auto

lemma same_outcome_Inr2 [simp]: "same_outcome r (Inr x) \<longleftrightarrow> r = Inr x"
  by (cases r) auto

lemma same_outcome_bind:
  assumes "same_outcome m m'" and "\<And>x. m = Inr x \<Longrightarrow> same_outcome (f x) (f' x)"
  shows "same_outcome (bind_res m f) (bind_res m' f')"
proof (cases m)
  case (Inl e)
  with assms(1) show ?thesis by (cases e; cases m'; cases "projl m'") auto
next
  case (Inr x)
  with assms show ?thesis by simp
qed

lemma same_outcome_fold:
  assumes "\<And>x s. x \<in> set xs \<Longrightarrow> same_outcome (f x s) (f' x s)"
  shows "same_outcome (fold_res f xs s) (fold_res f' xs s)"
  using assms
proof (induction xs arbitrary: s)
  case Nil
  then show ?case by simp
next
  case (Cons x xs)
  then show ?case by (auto intro!: same_outcome_bind)
qed

text \<open>A left fold keeps any property that each step keeps.\<close>

lemma fold_res_invariant:
  assumes "fold_res f xs s = Inr s'" and "I s"
    and "\<And>x s t. x \<in> set xs \<Longrightarrow> I s \<Longrightarrow> f x s = Inr t \<Longrightarrow> I t"
  shows "I s'"
  using assms
proof (induction xs arbitrary: s)
  case Nil
  then show ?case by simp
next
  case (Cons x xs)
  from Cons.prems(1) obtain t where t: "f x s = Inr t" "fold_res f xs t = Inr s'"
    by (auto simp: bind_res_Inr_iff)
  show ?case
    by (rule Cons.IH [OF t(2)]) (use Cons.prems t in auto)
qed

subsection \<open>Vectors and ordered maps of the C++ library\<close>

text \<open>\<open>v[i] = f(v[i])\<close> on a \<open>std::vector\<close>: out of range it is undefined.\<close>

definition vec_modify :: "'a list \<Rightarrow> nat \<Rightarrow> ('a \<Rightarrow> 'a) \<Rightarrow> 'a list res" where
  "vec_modify v i f = (if i < length v then Inr (v[i := f (v ! i)]) else Inl OutOfBounds)"

lemma vec_modify_ok: "i < length v \<Longrightarrow> vec_modify v i f = Inr (v[i := f (v ! i)])"
  by (simp add: vec_modify_def)

lemma vec_modify_length: "vec_modify v i f = Inr v' \<Longrightarrow> length v' = length v"
  by (auto simp: vec_modify_def split: if_splits)

text \<open>
  A \<open>std::map\<close> is the list of its entries in key order: \<open>m[k] = v\<close> replaces the
  entry of \<open>k\<close> or inserts one where it belongs, and iteration follows the list.
\<close>

fun std_map_set :: "'k::linorder \<Rightarrow> 'v \<Rightarrow> ('k \<times> 'v) list \<Rightarrow> ('k \<times> 'v) list" where
  "std_map_set k v [] = [(k, v)]"
| "std_map_set k v ((k', v') # m) =
     (if k < k' then (k, v) # (k', v') # m
      else if k = k' then (k, v) # m
      else (k', v') # std_map_set k v m)"

definition std_map_ok :: "('k::linorder \<times> 'v) list \<Rightarrow> bool" where
  "std_map_ok m \<longleftrightarrow> sorted_wrt (<) (map fst m)"

lemma std_map_ok_Nil [map_simps]: "std_map_ok []"
  by (simp add: std_map_ok_def)

lemma std_map_ok_Cons [map_simps]:
  "std_map_ok ((k, v) # m) \<longleftrightarrow> (\<forall>k' \<in> fst ` set m. k < k') \<and> std_map_ok m"
  by (auto simp: std_map_ok_def)

lemma std_map_ok_distinct: "std_map_ok m \<Longrightarrow> distinct (map fst m)"
  by (simp add: std_map_ok_def strict_sorted_iff)

lemma keys_std_map_set [map_simps]: "fst ` set (std_map_set k v m) = insert k (fst ` set m)"
  by (induction k v m rule: std_map_set.induct) auto

lemma std_map_set_ok: "std_map_ok m \<Longrightarrow> std_map_ok (std_map_set k v m)"
proof (induction k v m rule: std_map_set.induct)
  case (2 k v k' v' m)
  then show ?case
    by (auto simp: std_map_ok_Cons keys_std_map_set)
qed (simp add: map_simps)

lemma map_of_std_map_set [map_simps]:
  "std_map_ok m \<Longrightarrow> map_of (std_map_set k v m) = (map_of m)(k \<mapsto> v)"
proof (induction k v m rule: std_map_set.induct)
  case (2 k v k' v' m)
  have "k < k' \<Longrightarrow> map_of m k' = map_of m k'" by simp
  with 2 show ?case by (auto simp: std_map_ok_Cons fun_upd_def fun_eq_iff)
qed simp

subsection \<open>Layout characters of generated text\<close>

abbreviation nl :: string where "nl \<equiv> [CHR 0x0A]"
abbreviation tab :: string where "tab \<equiv> [CHR 0x09]"
abbreviation dq :: string where "dq \<equiv> [CHR 0x22]"
abbreviation sq :: string where "sq \<equiv> [CHR 0x27]"
abbreviation sp2 :: string where "sp2 \<equiv> ''  ''"
abbreviation sp4 :: string where "sp4 \<equiv> ''    ''"
abbreviation sp6 :: string where "sp6 \<equiv> ''      ''"
abbreviation sp8 :: string where "sp8 \<equiv> ''        ''"
abbreviation sp12 :: string where "sp12 \<equiv> ''            ''"
abbreviation sp16 :: string where "sp16 \<equiv> ''                ''"
abbreviation sp20 :: string where "sp20 \<equiv> ''                    ''"

text \<open>\<open>c += indent + text + "\n"\<close>: one line of generated code.\<close>

definition line :: "string \<Rightarrow> string \<Rightarrow> string" where
  "line indent text = indent @ text @ nl"

subsection \<open>Words and numbers\<close>

lemma of_nat_sum_list_word: "(of_nat (sum_list xs) :: 'a::len word) = sum_list (map of_nat xs)"
  by (induction xs) auto

lemma unat_bound: "unat (w :: 'a::len word) < 2 ^ LENGTH('a)"
  by (rule unsigned_less)

lemma unat_of_nat_small:
  "n < 2 ^ LENGTH('a::len) \<Longrightarrow> unat (of_nat n :: 'a word) = n"
  by (simp add: unat_of_nat)

end
