(* ===== verification/Fb_Util.thy ===== *)
theory Fb_Util
  imports Ssz_Prelude
begin

text \<open>
  The helpers of \<open>include/flatbuffers/util.h\<close> and \<open>src/util.cpp\<close> that the generators
  and the schema parser rest on: character classes, decimal printing, the conversion of
  attribute strings to integers over the C library's \<open>strtoull\<close> and \<open>strtoll\<close>, and the
  case conversions of identifiers.  A \<open>std::string\<close> is a list of characters; a C string is
  one without the terminating NUL.
\<close>

section \<open>Characters and identifiers\<close>

unbundle bit_operations_syntax

subsection \<open>Character classes\<close>

text \<open>A plain \<open>char\<close> is signed: its value after the promotion to \<open>int\<close>.\<close>

definition schar :: "char \<Rightarrow> int" where
  "schar c = (let n = int (of_char c :: nat) in if n < 128 then n else n - 256)"

definition check_ascii_range :: "char \<Rightarrow> char \<Rightarrow> char \<Rightarrow> bool" where
  "check_ascii_range x a b \<longleftrightarrow>
     (word_of_int (schar x - schar a) :: u32) \<le> word_of_int (schar b - schar a)"

definition and_DF :: "char \<Rightarrow> char" where
  "and_DF c = char_of ((of_char c :: nat) AND 0xDF)"

definition is_alpha :: "char \<Rightarrow> bool" where
  "is_alpha c = check_ascii_range (and_DF c) (and_DF CHR ''a'') (and_DF CHR ''z'')"

definition is_alpha_char :: "char \<Rightarrow> char \<Rightarrow> bool" where
  "is_alpha_char c alpha \<longleftrightarrow> and_DF c = and_DF alpha"

definition is_digit :: "char \<Rightarrow> bool" where
  "is_digit c = check_ascii_range c CHR ''0'' CHR ''9''"

definition is_alnum :: "char \<Rightarrow> bool" where
  "is_alnum c \<longleftrightarrow> is_alpha c \<or> is_digit c"

text \<open>The C library's classes and conversions in the default locale.\<close>

definition isupper :: "char \<Rightarrow> bool" where
  "isupper c \<longleftrightarrow> (65::nat) \<le> of_char c \<and> of_char c \<le> (90::nat)"

definition islower :: "char \<Rightarrow> bool" where
  "islower c \<longleftrightarrow> (97::nat) \<le> of_char c \<and> of_char c \<le> (122::nat)"

definition isdigit :: "char \<Rightarrow> bool" where
  "isdigit c \<longleftrightarrow> (48::nat) \<le> of_char c \<and> of_char c \<le> (57::nat)"

definition isspace :: "char \<Rightarrow> bool" where
  "isspace c \<longleftrightarrow> of_char c = (32::nat) \<or> ((9::nat) \<le> of_char c \<and> of_char c \<le> (13::nat))"

definition CharToUpper :: "char \<Rightarrow> char" where
  "CharToUpper c = (if islower c then char_of ((of_char c :: nat) - 32) else c)"

definition CharToLower :: "char \<Rightarrow> char" where
  "CharToLower c = (if isupper c then char_of ((of_char c :: nat) + 32) else c)"

subsection \<open>Printing numbers\<close>

definition digit_char :: "nat \<Rightarrow> char" where
  "digit_char d = char_of (48 + d)"

fun NumToString :: "nat \<Rightarrow> string" where
  "NumToString n =
     (if n < 10 then [digit_char n] else NumToString (n div 10) @ [digit_char (n mod 10)])"

declare NumToString.simps [simp del]

subsection \<open>Reading numbers\<close>

text \<open>The contents of a \<open>std::string\<close> as a C string: up to the first NUL.\<close>

definition c_str :: "string \<Rightarrow> string" where
  "c_str s = takeWhile (\<lambda>c. c \<noteq> CHR 0x00) s"

definition digit_val :: "char \<Rightarrow> nat option" where
  "digit_val c =
     (if isdigit c then Some (of_char c - 48)
      else if islower c then Some (of_char c - 87)
      else if isupper c then Some (of_char c - 55)
      else None)"

definition is_base_digit :: "nat \<Rightarrow> char \<Rightarrow> bool" where
  "is_base_digit base c = (case digit_val c of None \<Rightarrow> False | Some d \<Rightarrow> d < base)"

definition digits_value :: "nat \<Rightarrow> string \<Rightarrow> nat" where
  "digits_value base ds = foldl (\<lambda>a c. a * base + the (digit_val c)) 0 ds"

fun strip_sign :: "string \<Rightarrow> bool \<times> string" where
  "strip_sign [] = (False, [])"
| "strip_sign (c # r) =
     (if c = CHR ''-'' then (True, r) else if c = CHR ''+'' then (False, r) else (False, c # r))"

fun strip_hex_prefix :: "string \<Rightarrow> string" where
  "strip_hex_prefix (z # x # h # r) =
     (if z = CHR ''0'' \<and> (x = CHR ''x'' \<or> x = CHR ''X'') \<and> is_base_digit 16 h
      then h # r else z # x # h # r)"
| "strip_hex_prefix s = s"

text \<open>
  \<open>strtoull\<close> and \<open>strtoll\<close> for base 10 and 16: the value, the text the end pointer points
  to (the whole input when nothing was converted) and whether \<open>errno\<close> is set.
\<close>

definition scan_number :: "nat \<Rightarrow> string \<Rightarrow> bool \<times> string \<times> string" where
  "scan_number base s =
     (let (neg, s2) = strip_sign (dropWhile isspace s);
          s3 = (if base = 16 then strip_hex_prefix s2 else s2)
      in (neg, takeWhile (is_base_digit base) s3, dropWhile (is_base_digit base) s3))"

definition strtoull :: "nat \<Rightarrow> string \<Rightarrow> u64 \<times> string \<times> bool" where
  "strtoull base s =
     (let (neg, ds, rest) = scan_number base s; n = digits_value base ds
      in if ds = [] then (0, s, False)
         else if 2 ^ 64 \<le> n then (-1, rest, True)
         else (if neg then - of_nat n else of_nat n, rest, False))"

definition strtoll :: "nat \<Rightarrow> string \<Rightarrow> int \<times> string \<times> bool" where
  "strtoll base s =
     (let (neg, ds, rest) = scan_number base s; n = digits_value base ds
      in if ds = [] then (0, s, False)
         else if neg \<and> 2 ^ 63 < n then (- (2 ^ 63), rest, True)
         else if \<not> neg \<and> 2 ^ 63 \<le> n then (2 ^ 63 - 1, rest, True)
         else (if neg then - int n else int n, rest, False))"

text \<open>The base that \<open>StringToIntegerImpl\<close> detects when it is called with base 0.\<close>

definition detect_base :: "string \<Rightarrow> nat" where
  "detect_base str =
     (case dropWhile (\<lambda>c. \<not> is_digit c) str of
        z # x # r \<Rightarrow> (if z = CHR ''0'' \<and> is_alpha_char x CHR ''X'' then 16 else 10)
      | _ \<Rightarrow> 10)"

definition StringToIntegerImpl_u64 :: "string \<Rightarrow> nat \<Rightarrow> bool \<Rightarrow> bool \<times> u64" where
  "StringToIntegerImpl_u64 str base0 check_errno =
     (let base = (if base0 = 0 then detect_base str else base0);
          (val, endptr, errno) = strtoull base str
      in if endptr \<noteq> [] \<or> endptr = str then (False, 0)
         else if check_errno \<and> errno then (False, val)
         else (True, val))"

definition StringToIntegerImpl_i64 :: "string \<Rightarrow> nat \<Rightarrow> bool \<Rightarrow> bool \<times> int" where
  "StringToIntegerImpl_i64 str base0 check_errno =
     (let base = (if base0 = 0 then detect_base str else base0);
          (val, endptr, errno) = strtoll base str
      in if endptr \<noteq> [] \<or> endptr = str then (False, 0)
         else if check_errno \<and> errno then (False, val)
         else (True, val))"

definition StringToUInt :: "string \<Rightarrow> u64" where
  "StringToUInt s = (let (ok, val) = StringToIntegerImpl_u64 s 10 True in if ok then val else 0)"

text \<open>\<open>StringToNumber<uint16_t>\<close>: the conversion that the parser uses for field ids.\<close>

definition StringToNumber_u16 :: "string \<Rightarrow> bool \<times> u16" where
  "StringToNumber_u16 s =
     (let (ok, i64) = StringToIntegerImpl_i64 s 0 False
      in if ok then
           (if i64 > 65535 then (False, 65535)
            else if i64 < 0 then (False, 65535)
            else (True, of_int i64))
         else (False, 0))"


subsection \<open>Case conversion\<close>

datatype Case =
    kUnknown | kUpperCamel | kLowerCamel | kSnake | kScreamingSnake
  | kAllUpper | kAllLower | kDasher | kKeep | kSnake2

text \<open>The loop of \<open>ToCamelCase\<close> after its first character: an underscore with a character
  behind it is dropped and that character raised; a trailing underscore stays.\<close>

fun camel_rest :: "string \<Rightarrow> string" where
  "camel_rest [] = []"
| "camel_rest [c] = [c]"
| "camel_rest (c # d # r) =
     (if c = CHR ''_'' then CharToUpper d # camel_rest r else c # camel_rest (d # r))"

definition ToCamelCase :: "string \<Rightarrow> bool \<Rightarrow> string" where
  "ToCamelCase input is_upper =
     (case input of
        [] \<Rightarrow> []
      | c # r \<Rightarrow>
          if c = CHR ''_'' then
            c # (case r of
                   [] \<Rightarrow> []
                 | d # r' \<Rightarrow> if is_alpha d then CharToUpper d # camel_rest r' else camel_rest r)
          else (if is_upper then CharToUpper c else CharToLower c) # camel_rest r)"

text \<open>\<open>p\<close> is the previous input character, \<open>f\<close> the case of the letters that start words
  and \<open>g\<close> the case of the others.\<close>

fun snake_rest :: "(char \<Rightarrow> char) \<Rightarrow> (char \<Rightarrow> char) \<Rightarrow> char \<Rightarrow> string \<Rightarrow> string" where
  "snake_rest f g p [] = []"
| "snake_rest f g p (c # r) =
     (if c = CHR ''_'' then ''_''
      else if \<not> islower c then
        (if islower p \<or> (isdigit p \<and> \<not> isdigit c) then ''_'' else []) @ [f c]
      else [g c]) @ snake_rest f g c r"

definition ToSnakeCase_util :: "string \<Rightarrow> bool \<Rightarrow> string" where
  "ToSnakeCase_util input screaming =
     (case input of
        [] \<Rightarrow> []
      | c # r \<Rightarrow>
          if screaming then CharToUpper c # snake_rest CharToUpper CharToUpper c r
          else CharToLower c # snake_rest CharToLower id c r)"

definition CamelToSnake :: "string \<Rightarrow> string" where
  "CamelToSnake input =
     (case input of [] \<Rightarrow> [] | c # r \<Rightarrow> CharToLower c # snake_rest CharToLower id c r)"

definition DasherToSnake :: "string \<Rightarrow> string" where
  "DasherToSnake input = concat (map (\<lambda>c. if c = CHR ''-'' then ''_'' else [c]) input)"

fun dasher_from :: "nat \<Rightarrow> char \<Rightarrow> string \<Rightarrow> string" where
  "dasher_from i p [] = []"
| "dasher_from i p (c # r) =
     (if c = CHR ''_'' then
        (if i > 0 \<and> p \<noteq> CHR ''/'' \<and> \<not> (r \<noteq> [] \<and> isdigit (hd r)) then ''-'' else [])
      else [c]) @ dasher_from (Suc i) c r"

definition ToDasher :: "string \<Rightarrow> string" where
  "ToDasher input = dasher_from 0 CHR 0x00 input"

fun snake2_from :: "string \<Rightarrow> string" where
  "snake2_from [] = []"
| "snake2_from [c] = [c]"
| "snake2_from (c # d # r) =
     (if c = CHR ''_'' \<and> isdigit d then []
      else c # (if isdigit c \<and> islower d then ''_'' else [])) @ snake2_from (d # r)"

definition SnakeToSnake2 :: "string \<Rightarrow> string" where
  "SnakeToSnake2 s = (if length s \<le> 1 then s else snake2_from s)"

definition ToAll :: "string \<Rightarrow> (char \<Rightarrow> char) \<Rightarrow> string" where
  "ToAll input transform = map transform input"

text \<open>\<open>ConvertCase\<close> once its input is in snake case.\<close>

definition convert_snake :: "string \<Rightarrow> Case \<Rightarrow> string" where
  "convert_snake input output_case =
     (case output_case of
        kKeep \<Rightarrow> input
      | kUpperCamel \<Rightarrow> ToCamelCase input True
      | kLowerCamel \<Rightarrow> ToCamelCase input False
      | kSnake \<Rightarrow> input
      | kScreamingSnake \<Rightarrow> ToSnakeCase_util input True
      | kAllUpper \<Rightarrow> ToAll input CharToUpper
      | kAllLower \<Rightarrow> ToAll input CharToLower
      | kDasher \<Rightarrow> ToDasher input
      | kSnake2 \<Rightarrow> SnakeToSnake2 input
      | kUnknown \<Rightarrow> input)"

definition ConvertCase :: "string \<Rightarrow> Case \<Rightarrow> Case \<Rightarrow> string" where
  "ConvertCase input output_case input_case =
     (if output_case = kKeep then input
      else case input_case of
        kLowerCamel \<Rightarrow> convert_snake (CamelToSnake input) output_case
      | kUpperCamel \<Rightarrow> convert_snake (CamelToSnake input) output_case
      | kDasher \<Rightarrow> convert_snake (DasherToSnake input) output_case
      | _ \<Rightarrow> convert_snake input output_case)"

section \<open>Facts about printing and reading numbers\<close>

lemma isdigit_digit_char [simp]: "d < 10 \<Longrightarrow> isdigit (digit_char d)"
  by (simp add: isdigit_def digit_char_def)

lemma digit_val_digit_char [simp]: "d < 10 \<Longrightarrow> digit_val (digit_char d) = Some d"
  by (simp add: digit_val_def isdigit_def digit_char_def)

lemma NumToString_isdigit: "c \<in> set (NumToString n) \<Longrightarrow> isdigit c"
proof (induction n rule: NumToString.induct)
  case (1 n)
  then show ?case
    by (subst (asm) (2) NumToString.simps) (auto split: if_splits)
qed

lemma NumToString_nonempty [simp]: "NumToString n \<noteq> []" "[] \<noteq> NumToString n"
  by (subst NumToString.simps, simp)+

lemma digits_value_snoc:
  "digits_value b (ds @ [c]) = digits_value b ds * b + the (digit_val c)"
  by (simp add: digits_value_def)

lemma digits_value_NumToString [simp]: "digits_value 10 (NumToString n) = n"
proof (induction n rule: NumToString.induct)
  case (1 n)
  show ?case
  proof (cases "n < 10")
    case True
    then show ?thesis by (subst NumToString.simps) (simp add: digits_value_def)
  next
    case False
    with "1" show ?thesis
      by (subst NumToString.simps) (simp add: digits_value_snoc)
  qed
qed

lemma NumToString_inject [simp]: "NumToString m = NumToString n \<longleftrightarrow> m = n"
  by (metis digits_value_NumToString)

lemma isdigit_not_sign:
  "isdigit c \<Longrightarrow> c \<noteq> CHR ''-'' \<and> c \<noteq> CHR ''+'' \<and> \<not> isspace c \<and> is_base_digit 10 c"
  by (auto simp: isdigit_def isspace_def is_base_digit_def digit_val_def)

lemma isdigit_is_digit: "isdigit c \<Longrightarrow> is_digit c"
proof -
  assume c: "isdigit c"
  define k :: nat where "k = of_char c - 48"
  with c have k: "of_char c = 48 + k" "k \<le> 9" by (auto simp: isdigit_def)
  then show "is_digit c"
    by (simp add: is_digit_def check_ascii_range_def schar_def word_le_nat_alt unat_of_nat Let_def)
qed

lemma scan_NumToString: "scan_number 10 (NumToString n) = (False, NumToString n, [])"
proof -
  obtain c r where s: "NumToString n = c # r"
    using NumToString_nonempty(1) list.exhaust by blast
  have all: "\<forall>x \<in> set (NumToString n). isdigit x" using NumToString_isdigit by blast
  then have c: "isdigit c" using s by simp
  have "takeWhile (is_base_digit 10) (NumToString n) = NumToString n"
    using all isdigit_not_sign by (simp add: takeWhile_eq_all_conv)
  moreover have "dropWhile (is_base_digit 10) (NumToString n) = []"
    using all isdigit_not_sign by (simp add: dropWhile_eq_Nil_conv)
  ultimately show ?thesis
    using isdigit_not_sign [OF c] by (simp add: scan_number_def s)
qed

lemma StringToUInt_NumToString: "n < 2 ^ 64 \<Longrightarrow> StringToUInt (NumToString n) = of_nat n"
  by (simp add: StringToUInt_def StringToIntegerImpl_u64_def strtoull_def scan_NumToString)


text \<open>
  A field id is read twice: by the parser, which detects hexadecimal, and by the generators,
  which read decimal only.  Where the text is decimal the two readings agree.
\<close>

lemma id_readers_agree:
  assumes "StringToNumber_u16 s = (True, k)" and "detect_base s = 10"
  shows "StringToUInt s = of_nat (unat k)"
proof -
  obtain neg ds rest where scan: "scan_number 10 s = (neg, ds, rest)"
    by (metis prod_cases3)
  let ?n = "digits_value 10 ds"
  let ?v = "if neg then - int ?n else int ?n"
  from assms(1) have ok: "fst (StringToIntegerImpl_i64 s 0 False)"
    by (auto simp: StringToNumber_u16_def Let_def split: if_splits prod.splits)
  with scan assms(2) have ds: "ds \<noteq> []" "rest = []" "s \<noteq> []"
    by (auto simp: StringToIntegerImpl_i64_def strtoll_def Let_def split: if_splits)
  from assms scan ds have v: "0 \<le> ?v" "?v \<le> 65535" "k = of_int ?v"
    by (auto simp: StringToNumber_u16_def StringToIntegerImpl_i64_def strtoll_def Let_def
        split: if_splits)
  have small: "?n < 2 ^ 16" using v by (auto split: if_splits)
  have k: "unat k = ?n"
    using v small by (auto simp: unat_of_nat split: if_splits)
  have "StringToUInt s = of_nat ?n"
    using scan ds small v
    by (auto simp: StringToUInt_def StringToIntegerImpl_u64_def strtoull_def Let_def
        split: if_splits)
  then show ?thesis by (simp only: k)
qed

lemma isdigit_cases:
  assumes "isdigit x"
  obtains d where "d < 10" "x = digit_char d"
proof
  show "of_char x - 48 < (10::nat)" "x = digit_char (of_char x - 48)"
    using assms by (auto simp: isdigit_def digit_char_def)
qed

lemma isdigit_not_X: "isdigit x \<Longrightarrow> \<not> is_alpha_char x CHR ''X''"
proof (erule isdigit_cases)
  fix d :: nat
  assume "d < 10" and x: "x = digit_char d"
  then have "d = 0 \<or> d = 1 \<or> d = 2 \<or> d = 3 \<or> d = 4 \<or> d = 5 \<or> d = 6 \<or> d = 7 \<or> d = 8 \<or> d = 9"
    by arith
  then show "\<not> is_alpha_char x CHR ''X''"
    unfolding x by (elim disjE) (simp_all add: is_alpha_char_def and_DF_def digit_char_def)
qed

lemma detect_base_NumToString: "detect_base (NumToString n) = 10"
proof -
  obtain c r where s: "NumToString n = c # r"
    using NumToString_nonempty(1) list.exhaust by blast
  have all: "\<forall>x \<in> set (NumToString n). isdigit x" using NumToString_isdigit by blast
  then have c: "is_digit c" using s isdigit_is_digit by simp
  have "\<not> is_alpha_char x CHR ''X''" if "isdigit x" for x
    using that by (rule isdigit_not_X)
  with all s c show ?thesis by (auto simp: detect_base_def split: list.splits)
qed

end
