(* ===== verification/Fb_Idl.thy ===== *)
theory Fb_Idl
  imports Fb_Util
begin

text \<open>
  The schema as the generators see it (\<open>include/flatbuffers/idl.h\<close>), and the two parts of the
  parser (\<open>src/idl_parser.cpp\<close>) that decide what a schema may contain: the check of a field's
  type in \<open>ParseField\<close> and the check of manual field ids in \<open>ParseDecl\<close>.

  Definitions live in stores, and a pointer is an address into a store: \<open>struct_store\<close> holds
  the \<open>StructDef\<close> objects, \<open>field_store\<close> the \<open>FieldDef\<close> objects.  The order of a
  \<open>std::map\<close> keyed by pointers is the order of the addresses.
\<close>

section \<open>Schema data\<close>

datatype BaseType =
    BASE_TYPE_NONE | BASE_TYPE_UTYPE | BASE_TYPE_BOOL | BASE_TYPE_CHAR | BASE_TYPE_UCHAR
  | BASE_TYPE_SHORT | BASE_TYPE_USHORT | BASE_TYPE_INT | BASE_TYPE_UINT | BASE_TYPE_LONG
  | BASE_TYPE_ULONG | BASE_TYPE_FLOAT | BASE_TYPE_DOUBLE | BASE_TYPE_STRING | BASE_TYPE_VECTOR
  | BASE_TYPE_STRUCT | BASE_TYPE_UNION | BASE_TYPE_ARRAY | BASE_TYPE_VECTOR64

text \<open>The enum value of a base type; the \<open>Is\<close>-functions compare these.\<close>

fun base_code :: "BaseType \<Rightarrow> nat" where
  "base_code BASE_TYPE_NONE = 0"
| "base_code BASE_TYPE_UTYPE = 1"
| "base_code BASE_TYPE_BOOL = 2"
| "base_code BASE_TYPE_CHAR = 3"
| "base_code BASE_TYPE_UCHAR = 4"
| "base_code BASE_TYPE_SHORT = 5"
| "base_code BASE_TYPE_USHORT = 6"
| "base_code BASE_TYPE_INT = 7"
| "base_code BASE_TYPE_UINT = 8"
| "base_code BASE_TYPE_LONG = 9"
| "base_code BASE_TYPE_ULONG = 10"
| "base_code BASE_TYPE_FLOAT = 11"
| "base_code BASE_TYPE_DOUBLE = 12"
| "base_code BASE_TYPE_STRING = 13"
| "base_code BASE_TYPE_VECTOR = 14"
| "base_code BASE_TYPE_STRUCT = 15"
| "base_code BASE_TYPE_UNION = 16"
| "base_code BASE_TYPE_ARRAY = 17"
| "base_code BASE_TYPE_VECTOR64 = 18"

definition IsScalar :: "BaseType \<Rightarrow> bool" where
  "IsScalar t \<longleftrightarrow> base_code t \<ge> base_code BASE_TYPE_UTYPE \<and> base_code t \<le> base_code BASE_TYPE_DOUBLE"

definition IsInteger :: "BaseType \<Rightarrow> bool" where
  "IsInteger t \<longleftrightarrow> base_code t \<ge> base_code BASE_TYPE_UTYPE \<and> base_code t \<le> base_code BASE_TYPE_ULONG"

type_synonym StructPtr = nat
type_synonym FieldPtr = nat
type_synonym EnumPtr = nat

record Type =
  base_type :: BaseType
  element :: BaseType
  type_struct :: "StructPtr option"
  type_enum :: "EnumPtr option"
  fixed_length :: u16

definition VectorType :: "Type \<Rightarrow> Type" where
  "VectorType t =
     \<lparr>base_type = element t, element = BASE_TYPE_NONE, type_struct = type_struct t,
      type_enum = type_enum t, fixed_length = fixed_length t\<rparr>"

record Value =
  vtype :: Type
  v_constant :: string
  voffset :: u16

text \<open>
  A symbol table keeps its entries in insertion order and looks a name up in a dictionary that
  keeps the first entry added under it.
\<close>

type_synonym 'a SymbolTable = "(string \<times> 'a) list"

definition Lookup :: "'a SymbolTable \<Rightarrow> string \<Rightarrow> 'a option" where
  "Lookup table name = map_of table name"

definition symtab_Add :: "'a SymbolTable \<Rightarrow> string \<Rightarrow> 'a \<Rightarrow> bool \<times> 'a SymbolTable" where
  "symtab_Add table name e = (Lookup table name \<noteq> None, table @ [(name, e)])"

record FieldDef =
  fd_name :: string
  fd_attributes :: "Value SymbolTable"
  fd_value :: Value
  fd_deprecated :: bool

record StructDef =
  sd_name :: string
  sd_attributes :: "Value SymbolTable"
  sd_fields :: "FieldPtr list"
  sd_fixed :: bool
  sd_predecl :: bool
  sd_generated :: bool
  sd_namespace :: "string list"

record Parser =
  struct_store :: "StructDef list"
  field_store :: "FieldDef list"
  structs_vec :: "StructPtr list"

definition struct_at :: "Parser \<Rightarrow> StructPtr \<Rightarrow> StructDef" where
  "struct_at P s = struct_store P ! s"

definition field_at :: "Parser \<Rightarrow> FieldPtr \<Rightarrow> FieldDef" where
  "field_at P f = field_store P ! f"

abbreviation field_type :: "FieldDef \<Rightarrow> Type" where
  "field_type f \<equiv> vtype (fd_value f)"

definition IsStruct :: "Parser \<Rightarrow> Type \<Rightarrow> bool" where
  "IsStruct P t \<longleftrightarrow>
     base_type t = BASE_TYPE_STRUCT \<and>
     (case type_struct t of None \<Rightarrow> False | Some s \<Rightarrow> sd_fixed (struct_at P s))"

definition IsIncompleteStruct :: "Parser \<Rightarrow> Type \<Rightarrow> bool" where
  "IsIncompleteStruct P t \<longleftrightarrow>
     base_type t = BASE_TYPE_STRUCT \<and>
     (case type_struct t of None \<Rightarrow> False | Some s \<Rightarrow> sd_predecl (struct_at P s))"

definition IsArray :: "Type \<Rightarrow> bool" where
  "IsArray t \<longleftrightarrow> base_type t = BASE_TYPE_ARRAY"

lemma Lookup_Nil [simp]: "Lookup [] n = None"
  by (simp add: Lookup_def)

lemma Lookup_Cons [simp]: "Lookup ((k, v) # t) n = (if n = k then Some v else Lookup t n)"
  by (simp add: Lookup_def)

lemma VectorType_simps [simp]:
  "base_type (VectorType t) = element t" "type_struct (VectorType t) = type_struct t"
  "fixed_length (VectorType t) = fixed_length t" "element (VectorType t) = BASE_TYPE_NONE"
  by (simp_all add: VectorType_def)

text \<open>Adding a name again leaves the entry that lookups see.\<close>

lemma Lookup_symtab_Add:
  "Lookup (snd (symtab_Add t k v)) n =
     (if n = k \<and> Lookup t k = None then Some v else Lookup t n)"
  by (auto simp: symtab_Add_def Lookup_def map_add_def split: option.splits)

section \<open>What the parser accepts\<close>

subsection \<open>The type of a field\<close>

definition check_field_type :: "Parser \<Rightarrow> bool \<Rightarrow> Type \<Rightarrow> unit res" where
  "check_field_type P fixed t =
     (if fixed \<and> (IsIncompleteStruct P t \<or> (IsArray t \<and> IsIncompleteStruct P (VectorType t))) then
        Inl (CompilerError (''Incomplete type in struct is not allowed, type name: '' @
          (case type_struct t of None \<Rightarrow> [] | Some s \<Rightarrow> sd_name (struct_at P s))))
      else if fixed \<and>
          \<not> (IsScalar (base_type t) \<or> IsStruct P t \<or>
             (IsArray t \<and> (IsScalar (element t) \<or> IsStruct P (VectorType t)))) then
        Inl (CompilerError ''structs may contain only scalar or struct fields'')
      else if \<not> fixed \<and> IsArray t then
        Inl (CompilerError ''fixed-length array in table must be wrapped in struct'')
      else Inr ())"

subsection \<open>Manual field ids\<close>

text \<open>\<open>atoi\<close>: the longest decimal prefix, as an \<open>int\<close>.\<close>

definition atoi :: "string \<Rightarrow> int" where
  "atoi s = sint (word_of_int (fst (strtoll 10 s)) :: u32)"

definition id_constant :: "FieldDef \<Rightarrow> string" where
  "id_constant f = (case Lookup (fd_attributes f) ''id'' of None \<Rightarrow> [] | Some v \<Rightarrow> v_constant v)"

definition FieldIndexToOffset :: "u16 \<Rightarrow> u16" where
  "FieldIndexToOffset field_id = 4 + field_id * 2"

text \<open>The body of the loop over the sorted fields: position \<open>i\<close>, field \<open>p\<close>.\<close>

definition check_field_id :: "bool \<Rightarrow> u16 \<Rightarrow> FieldDef \<Rightarrow> FieldDef res" where
  "check_field_id is_ssz_progressive i field =
     (let id_str = id_constant field; (done, idv) = StringToNumber_u16 (c_str id_str)
      in if \<not> done then
           Inl (CompilerError (''field id'' @ [CHR 0x27] @ ''s must be non-negative number, field: '' @
             fd_name field @ '', id: '' @ id_str))
         else if is_ssz_progressive \<and> idv > 255 then
           Inl (CompilerError (''ssz_progressive field id must be <= 255, field: '' @
             fd_name field @ '', id: '' @ id_str))
         else if \<not> is_ssz_progressive \<and> i \<noteq> idv then
           Inl (CompilerError (''field id'' @ [CHR 0x27] @ ''s must be consecutive from 0, id '' @
             NumToString (unat i) @ '' missing or set twice, field: '' @ fd_name field @
             '', id: '' @ id_str))
         else Inr (field\<lparr>fd_value := (fd_value field)\<lparr>voffset := FieldIndexToOffset i\<rparr>\<rparr>))"

fun check_ids_from :: "bool \<Rightarrow> nat \<Rightarrow> FieldPtr list \<Rightarrow> FieldDef list \<Rightarrow> FieldDef list res" where
  "check_ids_from prog i [] store = Inr store"
| "check_ids_from prog i (p # ps) store =
     bind_res (check_field_id prog (of_nat i) (store ! p))
       (\<lambda>f. check_ids_from prog (Suc i) ps (store[p := f]))"

text \<open>
  The part of \<open>ParseDecl\<close> that runs after the fields of a declaration have been read: with
  manual ids the fields are sorted by id, checked, and given dense vtable offsets.  The source
  sorts with \<open>std::sort\<close>, which leaves the order of fields with equal ids open; the model takes
  the order of declaration.
\<close>

definition check_manual_ids :: "bool \<Rightarrow> StructDef \<Rightarrow> FieldDef list \<Rightarrow> (StructDef \<times> FieldDef list) res" where
  "check_manual_ids require_explicit_ids sd store =
     (let fields = sd_fields sd;
          num_id_fields = length (filter (\<lambda>p. Lookup (fd_attributes (store ! p)) ''id'' \<noteq> None) fields)
      in if sd_fixed sd \<or> fields = [] then Inr (sd, store)
         else if num_id_fields = 0 \<and> \<not> require_explicit_ids then Inr (sd, store)
         else if num_id_fields \<noteq> length fields then
           Inl (CompilerError
             (if require_explicit_ids
              then ''all fields must have an '' @ [CHR 0x27] @ ''id'' @ [CHR 0x27] @
                   '' attribute when --require-explicit-ids is used''
              else ''either all fields or no fields must have an '' @ [CHR 0x27] @ ''id'' @
                   [CHR 0x27] @ '' attribute''))
         else
           (let sorted = sort_key (\<lambda>p. atoi (c_str (id_constant (store ! p)))) fields;
                prog = (Lookup (sd_attributes sd) ''ssz_progressive'' \<noteq> None)
            in bind_res (check_ids_from prog 0 sorted store)
                 (\<lambda>store'. Inr (sd\<lparr>sd_fields := sorted\<rparr>, store'))))"

end
