(* ===== verification/Ssz_Info.thy ===== *)
theory Ssz_Info
  imports Fb_Idl
begin

text \<open>
  What a back end knows of a schema after its analysis: \<open>SszType\<close>, \<open>SszFieldInfo\<close> and
  \<open>SszContainerInfo\<close>.  The eight \<open>idl_gen_ssz_*.cpp\<close> files declare the three types with the
  same members; the model declares them once, from the Go back end.
\<close>

section \<open>Analysis results\<close>

datatype SszType =
    SszBool | SszUint8 | SszUint16 | SszUint32 | SszUint64 | SszUint128 | SszUint256
  | SszContainer | SszVector | SszList | SszBitlist | SszBitvector | SszUnion
  | SszProgressiveContainer | SszProgressiveList

text \<open>
  A field's info owns the info of its element type through a \<open>unique_ptr\<close>, so it is a
  recursive datatype; \<open>fixed_size\<close> is 0 where the type has a variable size.
\<close>

datatype SszFieldInfo = SszFieldInfo
  (ssz_type: SszType)
  (fixed_size: u32)
  (info_limit: u64)
  (bitsize: u32)
  (is_dynamic: bool)
  (info_struct: "StructPtr option")
  (elem_info: "SszFieldInfo option")

text \<open>The default constructor.\<close>

definition new_info :: SszFieldInfo where
  "new_info = SszFieldInfo SszUint8 0 0 0 False None None"

text \<open>Assignment to one member.\<close>

fun set_ssz_type :: "SszType \<Rightarrow> SszFieldInfo \<Rightarrow> SszFieldInfo" where
  "set_ssz_type x (SszFieldInfo t n l b d s e) = SszFieldInfo x n l b d s e"

fun set_fixed_size :: "u32 \<Rightarrow> SszFieldInfo \<Rightarrow> SszFieldInfo" where
  "set_fixed_size x (SszFieldInfo t n l b d s e) = SszFieldInfo t x l b d s e"

fun set_limit :: "u64 \<Rightarrow> SszFieldInfo \<Rightarrow> SszFieldInfo" where
  "set_limit x (SszFieldInfo t n l b d s e) = SszFieldInfo t n x b d s e"

fun set_bitsize :: "u32 \<Rightarrow> SszFieldInfo \<Rightarrow> SszFieldInfo" where
  "set_bitsize x (SszFieldInfo t n l b d s e) = SszFieldInfo t n l x d s e"

fun set_dynamic :: "bool \<Rightarrow> SszFieldInfo \<Rightarrow> SszFieldInfo" where
  "set_dynamic x (SszFieldInfo t n l b d s e) = SszFieldInfo t n l b x s e"

fun set_struct :: "StructPtr option \<Rightarrow> SszFieldInfo \<Rightarrow> SszFieldInfo" where
  "set_struct x (SszFieldInfo t n l b d s e) = SszFieldInfo t n l b d x e"

fun set_elem :: "SszFieldInfo \<Rightarrow> SszFieldInfo \<Rightarrow> SszFieldInfo" where
  "set_elem x (SszFieldInfo t n l b d s e) = SszFieldInfo t n l b d s (Some x)"

text \<open>Assignments in the order the code makes them.\<close>

definition assign :: "(SszFieldInfo \<Rightarrow> SszFieldInfo) list \<Rightarrow> SszFieldInfo \<Rightarrow> SszFieldInfo" where
  "assign fs info = fold (\<lambda>f. f) fs info"

lemma assign_simps [simp]:
  "assign [] i = i" "assign (f # fs) i = assign fs (f i)"
  by (simp_all add: assign_def)

lemma set_member_simps [simp]:
  "ssz_type (set_ssz_type x i) = x" "fixed_size (set_ssz_type x i) = fixed_size i"
  "info_limit (set_ssz_type x i) = info_limit i" "bitsize (set_ssz_type x i) = bitsize i"
  "is_dynamic (set_ssz_type x i) = is_dynamic i" "info_struct (set_ssz_type x i) = info_struct i"
  "elem_info (set_ssz_type x i) = elem_info i"
  "ssz_type (set_fixed_size n i) = ssz_type i" "fixed_size (set_fixed_size n i) = n"
  "info_limit (set_fixed_size n i) = info_limit i" "bitsize (set_fixed_size n i) = bitsize i"
  "is_dynamic (set_fixed_size n i) = is_dynamic i" "info_struct (set_fixed_size n i) = info_struct i"
  "elem_info (set_fixed_size n i) = elem_info i"
  "ssz_type (set_limit l i) = ssz_type i" "fixed_size (set_limit l i) = fixed_size i"
  "info_limit (set_limit l i) = l" "bitsize (set_limit l i) = bitsize i"
  "is_dynamic (set_limit l i) = is_dynamic i" "info_struct (set_limit l i) = info_struct i"
  "elem_info (set_limit l i) = elem_info i"
  "ssz_type (set_bitsize b i) = ssz_type i" "fixed_size (set_bitsize b i) = fixed_size i"
  "info_limit (set_bitsize b i) = info_limit i" "bitsize (set_bitsize b i) = b"
  "is_dynamic (set_bitsize b i) = is_dynamic i" "info_struct (set_bitsize b i) = info_struct i"
  "elem_info (set_bitsize b i) = elem_info i"
  "ssz_type (set_dynamic d i) = ssz_type i" "fixed_size (set_dynamic d i) = fixed_size i"
  "info_limit (set_dynamic d i) = info_limit i" "bitsize (set_dynamic d i) = bitsize i"
  "is_dynamic (set_dynamic d i) = d" "info_struct (set_dynamic d i) = info_struct i"
  "elem_info (set_dynamic d i) = elem_info i"
  "ssz_type (set_struct s i) = ssz_type i" "fixed_size (set_struct s i) = fixed_size i"
  "info_limit (set_struct s i) = info_limit i" "bitsize (set_struct s i) = bitsize i"
  "is_dynamic (set_struct s i) = is_dynamic i" "info_struct (set_struct s i) = s"
  "elem_info (set_struct s i) = elem_info i"
  "ssz_type (set_elem e i) = ssz_type i" "fixed_size (set_elem e i) = fixed_size i"
  "info_limit (set_elem e i) = info_limit i" "bitsize (set_elem e i) = bitsize i"
  "is_dynamic (set_elem e i) = is_dynamic i" "info_struct (set_elem e i) = info_struct i"
  "elem_info (set_elem e i) = Some e"
  by (cases i, simp)+

lemma new_info_simps [simp]:
  "ssz_type new_info = SszUint8" "fixed_size new_info = 0" "info_limit new_info = 0"
  "bitsize new_info = 0" "is_dynamic new_info = False" "info_struct new_info = None"
  "elem_info new_info = None"
  by (simp_all add: new_info_def)

record SszContainerInfo =
  static_size :: u32
  is_fixed :: bool
  is_progressive :: bool
  max_ssz_index :: u32
  active_fields_bitvector :: "byte list"
  field_ssz_indices :: "(FieldPtr \<times> u32) list"
  all_fields :: "FieldPtr list"
  dynamic_fields :: "FieldPtr list"
  field_infos :: "FieldPtr \<rightharpoonup> SszFieldInfo"

definition new_container :: SszContainerInfo where
  "new_container =
     \<lparr>static_size = 0, is_fixed = True, is_progressive = False, max_ssz_index = 0,
      active_fields_bitvector = [], field_ssz_indices = [], all_fields = [],
      dynamic_fields = [], field_infos = Map.empty\<rparr>"

text \<open>\<open>std::map::emplace\<close> leaves an existing entry as it is.\<close>

definition emplace :: "FieldPtr \<Rightarrow> SszFieldInfo \<Rightarrow> (FieldPtr \<rightharpoonup> SszFieldInfo) \<Rightarrow> (FieldPtr \<rightharpoonup> SszFieldInfo)" where
  "emplace p info m = (if m p = None then m(p \<mapsto> info) else m)"

text \<open>\<open>max_str.find(',')\<close> and the two substrings around the comma.\<close>

definition split_comma :: "string \<Rightarrow> (string \<times> string) option" where
  "split_comma s =
     (if CHR '','' \<in> set s
      then Some (takeWhile (\<lambda>c. c \<noteq> CHR '','') s, tl (dropWhile (\<lambda>c. c \<noteq> CHR '','') s))
      else None)"

abbreviation attr_uint :: "Value \<Rightarrow> u64" where
  "attr_uint v \<equiv> StringToUInt (c_str (v_constant v))"

text \<open>The message prefix \<open>"field '" + field.name + "': "\<close>.\<close>

definition field_msg :: "FieldDef \<Rightarrow> string \<Rightarrow> Error" where
  "field_msg field msg =
     CompilerError (''field '' @ [CHR 0x27] @ fd_name field @ [CHR 0x27] @ '': '' @ msg)"

end
