(* ===== verification/Go_Analysis.thy ===== *)
theory Go_Analysis
  imports Ssz_Info
begin

text \<open>
  The schema analysis of the Go back end (\<open>src/idl_gen_ssz_go.cpp\<close>): the SSZ type, size and
  limits of every field and the layout of every container.  In the code \<open>AnalyzeContainer\<close> and
  the \<open>Resolve\<close> functions call each other along the struct pointers of the schema.  Here each
  function takes the analysis of a nested container as an argument and
  \<open>go_AnalyzeContainer\<close> ties the knot; its first argument is the depth of the C++ stack in
  nested containers, and a recursion that needs more is a stack overflow.
\<close>

section \<open>Schema analysis of the Go back end\<close>

type_synonym analyzer = "StructPtr \<Rightarrow> SszContainerInfo res"

text \<open>The case \<open>BASE_TYPE_STRUCT\<close> of the two resolvers.\<close>

definition go_resolve_struct :: "analyzer \<Rightarrow> Type \<Rightarrow> SszFieldInfo \<Rightarrow> SszFieldInfo res" where
  "go_resolve_struct analyze type info =
     bind_res (case type_struct type of None \<Rightarrow> Inl OutOfBounds | Some s \<Rightarrow> analyze s)
       (\<lambda>nested. Inr (assign
          [set_ssz_type SszContainer,
           set_struct (type_struct type),
           set_fixed_size (if is_fixed nested then static_size nested else 0),
           set_dynamic (\<not> is_fixed nested)] info))"

definition go_ResolveElemType ::
  "analyzer \<Rightarrow> FieldDef \<Rightarrow> Type \<Rightarrow> SszFieldInfo \<Rightarrow> SszFieldInfo res" where
  "go_ResolveElemType analyze field elem_type info =
     (case base_type elem_type of
        BASE_TYPE_BOOL \<Rightarrow> Inr (assign [set_ssz_type SszBool, set_fixed_size 1] info)
      | BASE_TYPE_UCHAR \<Rightarrow> Inr (assign [set_ssz_type SszUint8, set_fixed_size 1] info)
      | BASE_TYPE_CHAR \<Rightarrow> Inr (assign [set_ssz_type SszUint8, set_fixed_size 1] info)
      | BASE_TYPE_USHORT \<Rightarrow> Inr (assign [set_ssz_type SszUint16, set_fixed_size 2] info)
      | BASE_TYPE_SHORT \<Rightarrow> Inr (assign [set_ssz_type SszUint16, set_fixed_size 2] info)
      | BASE_TYPE_UINT \<Rightarrow> Inr (assign [set_ssz_type SszUint32, set_fixed_size 4] info)
      | BASE_TYPE_INT \<Rightarrow> Inr (assign [set_ssz_type SszUint32, set_fixed_size 4] info)
      | BASE_TYPE_ULONG \<Rightarrow> Inr (assign [set_ssz_type SszUint64, set_fixed_size 8] info)
      | BASE_TYPE_LONG \<Rightarrow> Inr (assign [set_ssz_type SszUint64, set_fixed_size 8] info)
      | BASE_TYPE_STRING \<Rightarrow>
          Inr (assign
            [set_ssz_type SszList, set_fixed_size 0, set_dynamic True,
             set_elem (assign [set_ssz_type SszUint8, set_fixed_size 1] new_info)] info)
      | BASE_TYPE_STRUCT \<Rightarrow> go_resolve_struct analyze elem_type info
      | _ \<Rightarrow> Inl (field_msg field ''unsupported element type for SSZ vector/list''))"

definition go_ResolveVectorType ::
  "analyzer \<Rightarrow> FieldDef \<Rightarrow> Type \<Rightarrow> Value SymbolTable \<Rightarrow> SszFieldInfo \<Rightarrow> SszFieldInfo res" where
  "go_ResolveVectorType analyze field type attrs info =
     (let elem_type = VectorType type in
      if Lookup attrs ''ssz_progressive_bitlist'' \<noteq> None then
        Inr (assign [set_ssz_type SszBitlist, set_limit 0, set_fixed_size 0, set_dynamic True] info)
      else if Lookup attrs ''ssz_bitlist'' \<noteq> None then
        (case Lookup attrs ''ssz_max'' of
           None \<Rightarrow> Inl (field_msg field ''ssz_bitlist requires ssz_max attribute'')
         | Some max_attr \<Rightarrow>
             Inr (assign
               [set_ssz_type SszBitlist, set_limit (attr_uint max_attr),
                set_fixed_size 0, set_dynamic True] info))
      else if Lookup attrs ''ssz_progressive_list'' \<noteq> None then
        bind_res (go_ResolveElemType analyze field elem_type new_info)
          (\<lambda>elem. Inr (assign
             [set_ssz_type SszProgressiveList, set_fixed_size 0, set_dynamic True,
              set_elem elem] info))
      else
        (case Lookup attrs ''ssz_max'' of
           None \<Rightarrow> Inl (field_msg field ''vector type requires ssz_max attribute'')
         | Some max_attr \<Rightarrow>
             (let max_str = v_constant max_attr;
                  (outer_max, inner_max) =
                    (case split_comma max_str of
                       Some (outer_str, inner_str) \<Rightarrow> (StringToUInt (c_str outer_str), StringToUInt (c_str inner_str))
                     | None \<Rightarrow> (StringToUInt (c_str max_str), 0))
              in bind_res (go_ResolveElemType analyze field elem_type new_info)
                   (\<lambda>elem. Inr (assign
                      [set_ssz_type SszList, set_limit outer_max, set_fixed_size 0, set_dynamic True,
                       set_elem (if ssz_type elem = SszList \<and> inner_max > 0
                                 then set_limit inner_max elem else elem)] info)))))"

definition go_ResolveArrayType ::
  "analyzer \<Rightarrow> FieldDef \<Rightarrow> Type \<Rightarrow> Value SymbolTable \<Rightarrow> SszFieldInfo \<Rightarrow> SszFieldInfo res" where
  "go_ResolveArrayType analyze field type attrs info =
     (let elem_type = VectorType type; array_len = fixed_length type in
      if Lookup attrs ''ssz_bitvector'' \<noteq> None then
        (let bits = (case Lookup attrs ''ssz_bitsize'' of
                       Some bitsize_attr \<Rightarrow> ucast (attr_uint bitsize_attr)
                     | None \<Rightarrow> ucast array_len * 8)
         in Inr (assign
              [set_ssz_type SszBitvector, set_bitsize bits,
               set_fixed_size ((bits + 7) div 8), set_dynamic False] info))
      else
        bind_res (go_ResolveElemType analyze field elem_type new_info)
          (\<lambda>elem. Inr (assign
             [set_ssz_type SszVector, set_elem elem,
              set_fixed_size (ucast array_len * fixed_size elem), set_dynamic False,
              set_limit (ucast array_len)] info)))"

definition go_ResolveSszFieldInfo :: "analyzer \<Rightarrow> FieldDef \<Rightarrow> SszFieldInfo \<Rightarrow> SszFieldInfo res" where
  "go_ResolveSszFieldInfo analyze field info =
     (let type = field_type field; attrs = fd_attributes field in
      case base_type type of
        BASE_TYPE_BOOL \<Rightarrow> Inr (assign [set_ssz_type SszBool, set_fixed_size 1, set_dynamic False] info)
      | BASE_TYPE_UCHAR \<Rightarrow> Inr (assign [set_ssz_type SszUint8, set_fixed_size 1, set_dynamic False] info)
      | BASE_TYPE_CHAR \<Rightarrow> Inr (assign [set_ssz_type SszUint8, set_fixed_size 1, set_dynamic False] info)
      | BASE_TYPE_USHORT \<Rightarrow> Inr (assign [set_ssz_type SszUint16, set_fixed_size 2, set_dynamic False] info)
      | BASE_TYPE_SHORT \<Rightarrow> Inr (assign [set_ssz_type SszUint16, set_fixed_size 2, set_dynamic False] info)
      | BASE_TYPE_UINT \<Rightarrow> Inr (assign [set_ssz_type SszUint32, set_fixed_size 4, set_dynamic False] info)
      | BASE_TYPE_INT \<Rightarrow> Inr (assign [set_ssz_type SszUint32, set_fixed_size 4, set_dynamic False] info)
      | BASE_TYPE_ULONG \<Rightarrow> Inr (assign [set_ssz_type SszUint64, set_fixed_size 8, set_dynamic False] info)
      | BASE_TYPE_LONG \<Rightarrow> Inr (assign [set_ssz_type SszUint64, set_fixed_size 8, set_dynamic False] info)
      | BASE_TYPE_STRING \<Rightarrow>
          (case Lookup attrs ''ssz_max'' of
             None \<Rightarrow> Inl (field_msg field ''string type requires ssz_max attribute'')
           | Some max_attr \<Rightarrow>
               Inr (assign
                 [set_ssz_type SszList, set_limit (attr_uint max_attr), set_fixed_size 0,
                  set_dynamic True,
                  set_elem (assign [set_ssz_type SszUint8, set_fixed_size 1] new_info)] info))
      | BASE_TYPE_VECTOR \<Rightarrow> go_ResolveVectorType analyze field type attrs info
      | BASE_TYPE_ARRAY \<Rightarrow> go_ResolveArrayType analyze field type attrs info
      | BASE_TYPE_STRUCT \<Rightarrow> go_resolve_struct analyze type info
      | BASE_TYPE_UNION \<Rightarrow> Inr (assign [set_ssz_type SszUnion, set_fixed_size 0, set_dynamic True] info)
      | BASE_TYPE_FLOAT \<Rightarrow> Inl (field_msg field ''float/double types are not supported in SSZ'')
      | BASE_TYPE_DOUBLE \<Rightarrow> Inl (field_msg field ''float/double types are not supported in SSZ'')
      | _ \<Rightarrow> Inl (field_msg field ''unsupported base type for SSZ''))"

text \<open>The body of the field loop of \<open>AnalyzeContainer\<close>.\<close>

definition go_add_field :: "Parser \<Rightarrow> analyzer \<Rightarrow> FieldPtr \<Rightarrow> SszContainerInfo \<Rightarrow> SszContainerInfo res" where
  "go_add_field P analyze p c =
     (let field = field_at P p in
      if fd_deprecated field then Inr c
      else bind_res (go_ResolveSszFieldInfo analyze field new_info)
        (\<lambda>info.
           let c1 = c\<lparr>all_fields := all_fields c @ [p]\<rparr>;
               c2 = (if is_dynamic info
                     then c1\<lparr>is_fixed := False, dynamic_fields := dynamic_fields c1 @ [p],
                             static_size := static_size c1 + 4\<rparr>
                     else c1\<lparr>static_size := static_size c1 + fixed_size info\<rparr>)
           in Inr (c2\<lparr>field_infos := emplace p info (field_infos c2)\<rparr>)))"

text \<open>The progressive part (EIP-7495): the tree index of each field and the active bits.\<close>

definition go_index_field :: "Parser \<Rightarrow> FieldPtr \<Rightarrow> SszContainerInfo \<Rightarrow> SszContainerInfo" where
  "go_index_field P p c =
     (case Lookup (fd_attributes (field_at P p)) ''id'' of
        None \<Rightarrow> c
      | Some id_attr \<Rightarrow>
          (let idx = (ucast (attr_uint id_attr) :: u32);
               c1 = c\<lparr>field_ssz_indices := std_map_set p idx (field_ssz_indices c)\<rparr>
           in if idx > max_ssz_index c1 then c1\<lparr>max_ssz_index := idx\<rparr> else c1))"

definition set_active :: "u32 \<Rightarrow> byte list \<Rightarrow> byte list res" where
  "set_active idx v =
     vec_modify v (unat (idx div 8)) (\<lambda>b. b OR push_bit (unat (idx mod 8)) 1)"

definition go_progressive_part :: "Parser \<Rightarrow> SszContainerInfo \<Rightarrow> SszContainerInfo res" where
  "go_progressive_part P c0 =
     (let c = fold (go_index_field P) (all_fields c0) (c0\<lparr>is_progressive := True, max_ssz_index := 0\<rparr>);
          bitvec_bytes = (max_ssz_index c + 8) div 8
      in bind_res (fold_res (\<lambda>(f, idx). set_active idx) (field_ssz_indices c)
             (replicate (unat bitvec_bytes) 0))
           (\<lambda>bits. Inr (c\<lparr>active_fields_bitvector := bits\<rparr>)))"

definition go_analyze_body :: "Parser \<Rightarrow> analyzer \<Rightarrow> StructPtr \<Rightarrow> SszContainerInfo res" where
  "go_analyze_body P analyze s =
     (let struct_def = struct_at P s in
      bind_res (fold_res (go_add_field P analyze) (sd_fields struct_def)
          (new_container\<lparr>static_size := 0, is_fixed := True\<rparr>))
        (\<lambda>c. if Lookup (sd_attributes struct_def) ''ssz_progressive'' \<noteq> None
             then go_progressive_part P c else Inr c))"

fun go_AnalyzeContainer :: "nat \<Rightarrow> Parser \<Rightarrow> StructPtr \<Rightarrow> SszContainerInfo res" where
  "go_AnalyzeContainer 0 P s = Inl StackOverflow"
| "go_AnalyzeContainer (Suc depth) P s = go_analyze_body P (go_AnalyzeContainer depth P) s"

declare go_AnalyzeContainer.simps [simp del]

end
