(* ===== verification/Ssz_Spec.thy ===== *)
theory Ssz_Spec
  imports Ssz_Info
begin

text \<open>
  The abstract side of the development: the SSZ types of the consensus specification with their
  sizes and their serialization, and the SSZ type that a FlatBuffers schema denotes under the
  attributes of the README (\<open>ssz_max\<close>, \<open>ssz_bitlist\<close>, \<open>ssz_bitvector\<close>, \<open>ssz_bitsize\<close> and the
  progressive attributes).  Numbers are unbounded here; the code's widths appear in the
  refinement lemmas.
\<close>

section \<open>SSZ types\<close>

datatype ssz_ty =
    TBool
  | TUint nat \<comment> \<open>width in bytes\<close>
  | TVector ssz_ty nat
  | TList ssz_ty nat \<comment> \<open>limit\<close>
  | TProgressiveList ssz_ty
  | TBitvector nat
  | TBitlist nat
  | TContainer string "(string \<times> ssz_ty) list"
  | TUnion

fun is_variable :: "ssz_ty \<Rightarrow> bool"
  and any_variable :: "(string \<times> ssz_ty) list \<Rightarrow> bool" where
  "is_variable TBool = False"
| "is_variable (TUint k) = False"
| "is_variable (TVector t n) = is_variable t"
| "is_variable (TList t l) = True"
| "is_variable (TProgressiveList t) = True"
| "is_variable (TBitvector n) = False"
| "is_variable (TBitlist l) = True"
| "is_variable (TContainer s fs) = any_variable fs"
| "is_variable TUnion = True"
| "any_variable [] = False"
| "any_variable ((n, t) # fs) = (is_variable t \<or> any_variable fs)"

text \<open>The number of bytes of a value of a fixed-size type.\<close>

fun fixed_len :: "ssz_ty \<Rightarrow> nat"
  and fields_len :: "(string \<times> ssz_ty) list \<Rightarrow> nat" where
  "fixed_len TBool = 1"
| "fixed_len (TUint k) = k"
| "fixed_len (TVector t n) = n * fixed_len t"
| "fixed_len (TList t l) = 0"
| "fixed_len (TProgressiveList t) = 0"
| "fixed_len (TBitvector n) = (n + 7) div 8"
| "fixed_len (TBitlist l) = 0"
| "fixed_len (TContainer s fs) = fields_len fs"
| "fixed_len TUnion = 0"
| "fields_len [] = 0"
| "fields_len ((n, t) # fs) = fixed_len t + fields_len fs"

text \<open>The bytes a field takes in the static part of its container: itself, or an offset.\<close>

definition slot_len :: "ssz_ty \<Rightarrow> nat" where
  "slot_len t = (if is_variable t then 4 else fixed_len t)"

definition static_len :: "(string \<times> ssz_ty) list \<Rightarrow> nat" where
  "static_len fs = sum_list (map (slot_len \<circ> snd) fs)"

lemma any_variable_iff: "any_variable fs \<longleftrightarrow> (\<exists>(n, t) \<in> set fs. is_variable t)"
  by (induction fs) auto

lemma static_len_simps [simp]:
  "static_len [] = 0" "static_len (f # fs) = slot_len (snd f) + static_len fs"
  "static_len (fs @ gs) = static_len fs + static_len gs"
  by (simp_all add: static_len_def)

lemma static_len_fixed: "\<not> any_variable fs \<Longrightarrow> static_len fs = fields_len fs"
  by (induction fs) (auto simp: slot_len_def)

lemma any_variable_append [simp]: "any_variable (fs @ gs) = (any_variable fs \<or> any_variable gs)"
  by (induction fs) auto

section \<open>Values and their serialization\<close>

datatype val =
    VBool bool
  | VUint nat
  | VBytes "byte list"
  | VSeq "val list"
  | VStruct string "val list"
  | VNil \<comment> \<open>a nil pointer, of no SSZ type\<close>

fun le_bytes :: "nat \<Rightarrow> nat \<Rightarrow> byte list" where
  "le_bytes 0 n = []"
| "le_bytes (Suc k) n = of_nat n # le_bytes k (n div 256)"

lemma length_le_bytes [simp]: "length (le_bytes k n) = k"
  by (induction k arbitrary: n) auto

text \<open>
  A sequence of parts, each with the flag whether it is variable-size: the fixed parts and the
  offsets of the variable ones, then the variable parts.  Offsets count from the start of the
  sequence.
\<close>

fun heads :: "nat \<Rightarrow> (bool \<times> byte list) list \<Rightarrow> byte list" where
  "heads off [] = []"
| "heads off ((True, b) # ps) = le_bytes 4 off @ heads (off + length b) ps"
| "heads off ((False, b) # ps) = b @ heads off ps"

fun heads_len :: "(bool \<times> byte list) list \<Rightarrow> nat" where
  "heads_len [] = 0"
| "heads_len ((v, b) # ps) = (if v then 4 else length b) + heads_len ps"

definition tails :: "(bool \<times> byte list) list \<Rightarrow> byte list" where
  "tails ps = concat (map snd (filter fst ps))"

definition ser_parts :: "(bool \<times> byte list) list \<Rightarrow> byte list" where
  "ser_parts ps = heads (heads_len ps) ps @ tails ps"

lemma length_heads [simp]: "length (heads off ps) = heads_len ps"
  by (induction off ps rule: heads.induct) auto

lemma tails_simps [simp]:
  "tails [] = []" "tails ((v, b) # ps) = (if v then b else []) @ tails ps"
  "tails (ps @ qs) = tails ps @ tails qs"
  by (simp_all add: tails_def)

lemma heads_len_append [simp]: "heads_len (ps @ qs) = heads_len ps + heads_len qs"
  by (induction ps rule: heads_len.induct) auto

lemma ser_parts_fixed: "\<forall>p \<in> set ps. \<not> fst p \<Longrightarrow> ser_parts ps = concat (map snd ps)"
proof -
  assume f: "\<forall>p \<in> set ps. \<not> fst p"
  have "heads off ps = concat (map snd ps)" for off
    using f by (induction off ps rule: heads.induct) auto
  moreover have "tails ps = []" using f by (induction ps) auto
  ultimately show ?thesis by (simp add: ser_parts_def)
qed

fun serialize :: "ssz_ty \<Rightarrow> val \<Rightarrow> byte list"
  and serialize_fields :: "(string \<times> ssz_ty) list \<Rightarrow> val list \<Rightarrow> (bool \<times> byte list) list" where
  "serialize TBool (VBool b) = [if b then 1 else 0]"
| "serialize (TUint k) (VUint n) = le_bytes k n"
| "serialize (TVector t n) (VSeq xs) = ser_parts (map (\<lambda>x. (is_variable t, serialize t x)) xs)"
| "serialize (TList t l) (VSeq xs) = ser_parts (map (\<lambda>x. (is_variable t, serialize t x)) xs)"
| "serialize (TProgressiveList t) (VSeq xs) = ser_parts (map (\<lambda>x. (is_variable t, serialize t x)) xs)"
| "serialize (TContainer s fs) (VStruct s' vs) = ser_parts (serialize_fields fs vs)"
| "serialize t (VBytes bs) = bs"
| "serialize t v = []"
| "serialize_fields ((n, t) # fs) (v # vs) = (is_variable t, serialize t v) # serialize_fields fs vs"
| "serialize_fields fs vs = []"

text \<open>
  The values of a type.  Sequences of bytes, bit vectors and bit lists are byte strings (a bit
  list is kept in its encoded form, with the terminating bit), as the generated code keeps them.
\<close>

definition is_byte_ty :: "ssz_ty \<Rightarrow> bool" where
  "is_byte_ty t \<longleftrightarrow> t = TUint 1"

fun val_ok :: "ssz_ty \<Rightarrow> val \<Rightarrow> bool"
  and vals_ok :: "(string \<times> ssz_ty) list \<Rightarrow> val list \<Rightarrow> bool" where
  "val_ok TBool v = (\<exists>b. v = VBool b)"
| "val_ok (TUint k) v = (\<exists>n. v = VUint n \<and> n < 256 ^ k)"
| "val_ok (TVector t n) v =
     (if is_byte_ty t then (\<exists>bs. v = VBytes bs \<and> length bs = n)
      else (\<exists>xs. v = VSeq xs \<and> length xs = n \<and> (\<forall>x \<in> set xs. val_ok t x)))"
| "val_ok (TList t l) v =
     (if is_byte_ty t then (\<exists>bs. v = VBytes bs)
      else (\<exists>xs. v = VSeq xs \<and> (\<forall>x \<in> set xs. val_ok t x)))"
| "val_ok (TProgressiveList t) v =
     (if is_byte_ty t then (\<exists>bs. v = VBytes bs)
      else (\<exists>xs. v = VSeq xs \<and> (\<forall>x \<in> set xs. val_ok t x)))"
| "val_ok (TBitvector n) v = (\<exists>bs. v = VBytes bs \<and> length bs = (n + 7) div 8)"
| "val_ok (TBitlist l) v = (\<exists>bs. v = VBytes bs)"
| "val_ok (TContainer s fs) v = (\<exists>vs. v = VStruct s vs \<and> vals_ok fs vs)"
| "val_ok TUnion v = False"
| "vals_ok [] vs = (vs = [])"
| "vals_ok ((n, t) # fs) vs = (\<exists>w ws. vs = w # ws \<and> val_ok t w \<and> vals_ok fs ws)"

lemma vals_ok_length: "vals_ok fs vs \<Longrightarrow> length vs = length fs"
  by (induction fs arbitrary: vs) auto

section \<open>Lengths\<close>

lemma length_ser_parts: "length (ser_parts ps) = heads_len ps + length (tails ps)"
  by (simp add: ser_parts_def)

lemma length_ser_seq:
  "length (ser_parts (map (\<lambda>x. (False, g x)) xs)) = sum_list (map (\<lambda>x. length (g x)) xs)"
  by (subst ser_parts_fixed) (auto simp: length_concat comp_def)

lemma sum_list_const: "(\<And>x. x \<in> set xs \<Longrightarrow> h x = k) \<Longrightarrow> sum_list (map h xs) = length xs * k"
  by (induction xs) auto

lemma heads_len_fields:
  "vals_ok fs vs \<Longrightarrow> (\<And>n t v. (n, t) \<in> set fs \<Longrightarrow> \<not> is_variable t \<Longrightarrow> val_ok t v \<Longrightarrow>
     length (serialize t v) = fixed_len t) \<Longrightarrow>
   heads_len (serialize_fields fs vs) = static_len fs"
proof (induction fs arbitrary: vs)
  case (Cons f fs)
  obtain n t where f: "f = (n, t)" by (cases f)
  from Cons.prems(1) f obtain w ws where w: "vs = w # ws" "val_ok t w" "vals_ok fs ws" by auto
  from Cons.IH [OF w(3)] Cons.prems(2) have "heads_len (serialize_fields fs ws) = static_len fs"
    by (meson list.set_intros(2))
  with f w Cons.prems(2) [of n t w] show ?case by (simp add: slot_len_def)
qed simp

lemma tails_fixed: "\<not> any_variable fs \<Longrightarrow> tails (serialize_fields fs vs) = []"
proof (induction fs arbitrary: vs)
  case (Cons f fs)
  then show ?case by (cases f; cases vs) auto
qed simp

text \<open>A value of a fixed-size type has the length of its type.\<close>

lemma serialize_fixed_len: "\<not> is_variable t \<Longrightarrow> val_ok t v \<Longrightarrow> length (serialize t v) = fixed_len t"
proof (induction t arbitrary: v)
  case (TVector t n)
  show ?case
  proof (cases "is_byte_ty t")
    case True
    with TVector.prems show ?thesis by (auto simp: is_byte_ty_def)
  next
    case False
    with TVector.prems obtain xs where xs: "v = VSeq xs" "length xs = n" "\<forall>x \<in> set xs. val_ok t x"
      by auto
    have "sum_list (map (\<lambda>x. length (serialize t x)) xs) = length xs * fixed_len t"
      by (rule sum_list_const) (use TVector xs in auto)
    with xs TVector.prems show ?thesis by (simp add: length_ser_seq)
  qed
next
  case (TContainer s fs)
  then obtain vs where v: "v = VStruct s vs" "vals_ok fs vs" by auto
  have fixed: "\<not> any_variable fs" using TContainer.prems by simp
  have "heads_len (serialize_fields fs vs) = static_len fs"
    by (rule heads_len_fields [OF v(2)]) (use TContainer.IH in \<open>fastforce simp: prod_set_defs\<close>)
  with v fixed show ?case
    by (simp add: length_ser_parts tails_fixed static_len_fixed)
qed auto

lemma length_serialize_fields:
  "vals_ok fs vs \<Longrightarrow> length (ser_parts (serialize_fields fs vs)) =
     static_len fs + length (tails (serialize_fields fs vs))"
  using heads_len_fields serialize_fixed_len by (simp add: length_ser_parts)

end
