(* ===== verification/Ssz_Schema.thy ===== *)
theory Ssz_Schema
  imports Ssz_Spec
begin

text \<open>
  The SSZ type that a schema denotes, read off the FlatBuffers types and the \<open>ssz_\<close> attributes
  without any of the code's intermediate structures, and the relation between such a type and
  the info structures of an analysis.
  The contract of an analysis over this relation is the locale at the end.
\<close>

section \<open>From schemas to SSZ types\<close>

type_synonym struct_types = "StructPtr \<Rightarrow> ssz_ty option"

definition scalar_ty :: "BaseType \<Rightarrow> ssz_ty option" where
  "scalar_ty b =
     (if b = BASE_TYPE_BOOL then Some TBool
      else if b \<in> {BASE_TYPE_UCHAR, BASE_TYPE_CHAR} then Some (TUint 1)
      else if b \<in> {BASE_TYPE_USHORT, BASE_TYPE_SHORT} then Some (TUint 2)
      else if b \<in> {BASE_TYPE_UINT, BASE_TYPE_INT} then Some (TUint 4)
      else if b \<in> {BASE_TYPE_ULONG, BASE_TYPE_LONG} then Some (TUint 8)
      else None)"

definition struct_ref :: "struct_types \<Rightarrow> Type \<Rightarrow> ssz_ty option" where
  "struct_ref st t = (case type_struct t of None \<Rightarrow> None | Some s \<Rightarrow> st s)"

text \<open>\<open>inner\<close> is the limit of the byte lists that stand for strings.\<close>

definition elem_ty :: "struct_types \<Rightarrow> nat \<Rightarrow> Type \<Rightarrow> ssz_ty option" where
  "elem_ty st inner t =
     (if base_type t = BASE_TYPE_STRING then Some (TList (TUint 1) inner)
      else if base_type t = BASE_TYPE_STRUCT then struct_ref st t
      else scalar_ty (base_type t))"

definition limits :: "string \<Rightarrow> nat \<times> nat" where
  "limits s =
     (case split_comma s of
        None \<Rightarrow> (unat (StringToUInt (c_str s)), 0)
      | Some (a, b) \<Rightarrow> (unat (StringToUInt (c_str a)), unat (StringToUInt (c_str b))))"

definition vector_ty :: "struct_types \<Rightarrow> Value SymbolTable \<Rightarrow> Type \<Rightarrow> ssz_ty option" where
  "vector_ty st attrs t =
     (let max = Lookup attrs ''ssz_max'' in
      if Lookup attrs ''ssz_progressive_bitlist'' \<noteq> None then Some (TBitlist 0)
      else if Lookup attrs ''ssz_bitlist'' \<noteq> None then
        map_option (\<lambda>m. TBitlist (unat (attr_uint m))) max
      else if Lookup attrs ''ssz_progressive_list'' \<noteq> None then
        map_option TProgressiveList (elem_ty st 0 (VectorType t))
      else
        Option.bind max (\<lambda>m. let (outer, inner) = limits (v_constant m) in
          map_option (\<lambda>e. TList e outer) (elem_ty st inner (VectorType t))))"

definition array_ty :: "struct_types \<Rightarrow> Value SymbolTable \<Rightarrow> Type \<Rightarrow> ssz_ty option" where
  "array_ty st attrs t =
     (if Lookup attrs ''ssz_bitvector'' \<noteq> None then
        (case Lookup attrs ''ssz_bitsize'' of
           None \<Rightarrow> Some (TBitvector (unat (fixed_length t) * 8))
         | Some v \<Rightarrow> Some (TBitvector (unat (attr_uint v))))
      else map_option (\<lambda>e. TVector e (unat (fixed_length t))) (elem_ty st 0 (VectorType t)))"

definition field_ty :: "struct_types \<Rightarrow> FieldDef \<Rightarrow> ssz_ty option" where
  "field_ty st f =
     (let t = field_type f; attrs = fd_attributes f in
      if base_type t = BASE_TYPE_STRING then
        map_option (\<lambda>m. TList (TUint 1) (unat (attr_uint m))) (Lookup attrs ''ssz_max'')
      else if base_type t = BASE_TYPE_VECTOR then vector_ty st attrs t
      else if base_type t = BASE_TYPE_ARRAY then array_ty st attrs t
      else if base_type t = BASE_TYPE_STRUCT then struct_ref st t
      else if base_type t = BASE_TYPE_UNION then Some TUnion
      else scalar_ty (base_type t))"

fun fields_ty :: "Parser \<Rightarrow> struct_types \<Rightarrow> FieldPtr list \<Rightarrow> (string \<times> ssz_ty) list option" where
  "fields_ty P st [] = Some []"
| "fields_ty P st (p # ps) =
     (if fd_deprecated (field_at P p) then fields_ty P st ps
      else case field_ty st (field_at P p) of
        None \<Rightarrow> None
      | Some t \<Rightarrow> map_option (\<lambda>fs. (fd_name (field_at P p), t) # fs) (fields_ty P st ps))"

text \<open>The type of a struct or table, for nesting up to the given depth.\<close>

fun struct_ty :: "nat \<Rightarrow> Parser \<Rightarrow> StructPtr \<Rightarrow> ssz_ty option" where
  "struct_ty 0 P s = None"
| "struct_ty (Suc n) P s =
     (if s < length (struct_store P)
      then map_option (TContainer (sd_name (struct_at P s)))
        (fields_ty P (struct_ty n P) (sd_fields (struct_at P s)))
      else None)"

lemma struct_ty_name: "struct_ty n P s = Some (TContainer nm fs) \<Longrightarrow> nm = sd_name (struct_at P s)"
  by (cases n) (auto split: if_splits)

section \<open>Well-formed schemas\<close>

text \<open>What the parser guarantees: pointers are valid, the fields of a struct are distinct
  objects, and every field passed the type check of \<open>ParseField\<close>.\<close>

definition wf_field :: "Parser \<Rightarrow> bool \<Rightarrow> FieldPtr \<Rightarrow> bool" where
  "wf_field P fixed p \<longleftrightarrow>
     p < length (field_store P) \<and>
     is_ok (check_field_type P fixed (field_type (field_at P p))) \<and>
     (case type_struct (field_type (field_at P p)) of
        None \<Rightarrow> True | Some s \<Rightarrow> s < length (struct_store P))"

definition wf_struct :: "Parser \<Rightarrow> StructDef \<Rightarrow> bool" where
  "wf_struct P sd \<longleftrightarrow>
     distinct (sd_fields sd) \<and> list_all (wf_field P (sd_fixed sd)) (sd_fields sd)"

definition wf_schema :: "Parser \<Rightarrow> bool" where
  "wf_schema P \<longleftrightarrow>
     list_all (wf_struct P) (struct_store P) \<and>
     list_all (\<lambda>s. s < length (struct_store P)) (structs_vec P)"

lemma wf_schema_struct:
  "wf_schema P \<Longrightarrow> s < length (struct_store P) \<Longrightarrow> wf_struct P (struct_at P s)"
  by (simp add: wf_schema_def list_all_length struct_at_def)

lemma wf_schema_field:
  "wf_schema P \<Longrightarrow> s < length (struct_store P) \<Longrightarrow> p \<in> set (sd_fields (struct_at P s)) \<Longrightarrow>
   wf_field P (sd_fixed (struct_at P s)) p"
  using wf_schema_struct by (simp add: wf_struct_def list_all_iff)

lemma is_ok_iff: "is_ok r \<longleftrightarrow> (\<exists>x. r = Inr x)"
  by (cases r) auto

section \<open>Fixed structs have fixed size\<close>

lemma scalar_ty_fixed: "scalar_ty b = Some t \<Longrightarrow> \<not> is_variable t"
  by (auto simp: scalar_ty_def split: if_splits)

lemma IsScalar_cases:
  "IsScalar b \<Longrightarrow> b \<notin> {BASE_TYPE_STRING, BASE_TYPE_VECTOR, BASE_TYPE_STRUCT,
     BASE_TYPE_UNION, BASE_TYPE_ARRAY, BASE_TYPE_VECTOR64}"
  by (auto simp: IsScalar_def)

text \<open>The fixed structs among the given struct types have fixed size.\<close>

definition fixed_closed :: "Parser \<Rightarrow> struct_types \<Rightarrow> bool" where
  "fixed_closed P st \<longleftrightarrow>
     (\<forall>s u. sd_fixed (struct_at P s) \<longrightarrow> s < length (struct_store P) \<longrightarrow>
        st s = Some u \<longrightarrow> \<not> is_variable u)"

text \<open>An element of an array is a scalar or a fixed struct.\<close>

lemma elem_ty_fixed:
  assumes st: "fixed_closed P st"
    and ok: "IsScalar (base_type t) \<or> IsStruct P t"
    and rng: "case type_struct t of None \<Rightarrow> True | Some s \<Rightarrow> s < length (struct_store P)"
    and ty: "elem_ty st inner t = Some u"
  shows "\<not> is_variable u"
  using ok
proof
  assume "IsScalar (base_type t)"
  then show ?thesis
    using ty IsScalar_cases scalar_ty_fixed by (auto simp: elem_ty_def split: if_splits)
next
  assume s: "IsStruct P t"
  then show ?thesis
    using ty rng st
    by (auto simp: elem_ty_def IsStruct_def struct_ref_def fixed_closed_def split: option.splits)
qed

lemma array_ty_fixed:
  assumes st: "fixed_closed P st"
    and ok: "IsScalar (element t) \<or> IsStruct P (VectorType t)"
    and rng: "case type_struct t of None \<Rightarrow> True | Some s \<Rightarrow> s < length (struct_store P)"
    and ty: "array_ty st attrs t = Some u"
  shows "\<not> is_variable u"
proof (cases "Lookup attrs ''ssz_bitvector'' \<noteq> None")
  case True
  with ty show ?thesis by (auto simp: array_ty_def split: option.splits)
next
  case False
  with ty obtain e where e: "elem_ty st 0 (VectorType t) = Some e"
    and u: "u = TVector e (unat (fixed_length t))"
    by (auto simp: array_ty_def)
  have "\<not> is_variable e"
    by (rule elem_ty_fixed [OF st _ _ e]) (use ok rng in simp_all)
  with u show ?thesis by simp
qed

lemma field_ty_fixed:
  assumes st: "fixed_closed P st"
    and wf: "wf_field P True p"
    and ty: "field_ty st (field_at P p) = Some u"
  shows "\<not> is_variable u"
proof -
  let ?t = "field_type (field_at P p)"
  from wf have rng: "case type_struct ?t of None \<Rightarrow> True | Some s \<Rightarrow> s < length (struct_store P)"
    by (simp add: wf_field_def)
  from wf have "IsScalar (base_type ?t) \<or> IsStruct P ?t \<or>
      (IsArray ?t \<and> (IsScalar (element ?t) \<or> IsStruct P (VectorType ?t)))"
    by (auto simp: wf_field_def check_field_type_def split: if_splits)
  then consider "IsScalar (base_type ?t)" | "IsStruct P ?t"
    | "IsArray ?t" "IsScalar (element ?t) \<or> IsStruct P (VectorType ?t)" by blast
  then show ?thesis
  proof cases
    case 1
    then show ?thesis
      using ty IsScalar_cases scalar_ty_fixed
      by (auto simp: field_ty_def Let_def split: if_splits)
  next
    case 2
    then show ?thesis
      using ty rng st
      by (auto simp: field_ty_def Let_def IsStruct_def struct_ref_def fixed_closed_def
          split: option.splits)
  next
    case 3
    then show ?thesis
      using ty rng array_ty_fixed [OF st]
      by (auto simp: field_ty_def Let_def IsArray_def)
  qed
qed

lemma fields_ty_fixed:
  assumes "fixed_closed P st"
    and "\<forall>p \<in> set ps. wf_field P True p"
    and "fields_ty P st ps = Some fs"
  shows "\<not> any_variable fs"
  using assms(2,3)
proof (induction ps arbitrary: fs)
  case Nil
  then show ?case by simp
next
  case (Cons p ps)
  then show ?case
    using field_ty_fixed [OF assms(1)]
    by (auto split: if_splits option.splits)
qed

lemma struct_ty_fixed:
  assumes "wf_schema P" and "s < length (struct_store P)" and "sd_fixed (struct_at P s)"
    and "struct_ty n P s = Some t"
  shows "\<not> is_variable t"
  using assms(2-4)
proof (induction n arbitrary: s t)
  case 0
  then show ?case by simp
next
  case (Suc n)
  from Suc.prems obtain fs where fs: "fields_ty P (struct_ty n P) (sd_fields (struct_at P s)) = Some fs"
    and t: "t = TContainer (sd_name (struct_at P s)) fs" by auto
  have "\<forall>p \<in> set (sd_fields (struct_at P s)). wf_field P True p"
    using wf_schema_field [OF assms(1) Suc.prems(1)] Suc.prems(2) by simp
  then have "\<not> any_variable fs"
    using fields_ty_fixed [OF _ _ fs] Suc.IH unfolding fixed_closed_def by blast
  with t show ?case by simp
qed

lemma struct_ty_fixed_closed: "wf_schema P \<Longrightarrow> fixed_closed P (struct_ty n P)"
  unfolding fixed_closed_def using struct_ty_fixed by blast


text \<open>
  The contract of a schema analysis: what the info structures of a back end say about the SSZ
  types of the schema.  \<open>info_rep\<close> and \<open>container_rep\<close> are the abstraction relations; the
  locale \<open>layout_analysis\<close> is the interface that the text generators rely on, with the facts
  that follow from it for every back end.
\<close>

section \<open>Abstraction relations\<close>

text \<open>
  A bit vector's size is kept in 32 bits and rounded up by adding 7; the relation is about
  types whose bit vectors fit.
\<close>

fun bits_ok :: "ssz_ty \<Rightarrow> bool"
  and fields_bits_ok :: "(string \<times> ssz_ty) list \<Rightarrow> bool" where
  "bits_ok (TVector t n) = bits_ok t"
| "bits_ok (TList t l) = bits_ok t"
| "bits_ok (TProgressiveList t) = bits_ok t"
| "bits_ok (TBitvector n) = (n + 7 < 2 ^ 32)"
| "bits_ok (TContainer s fs) = fields_bits_ok fs"
| "bits_ok t = True"
| "fields_bits_ok [] = True"
| "fields_bits_ok ((n, t) # fs) = (bits_ok t \<and> fields_bits_ok fs)"

lemma fields_bits_ok_append [simp]:
  "fields_bits_ok (fs @ gs) = (fields_bits_ok fs \<and> fields_bits_ok gs)"
  by (induction fs) auto

fun uint_ssz :: "nat \<Rightarrow> SszType option" where
  "uint_ssz k =
     (if k = 1 then Some SszUint8 else if k = 2 then Some SszUint16
      else if k = 4 then Some SszUint32 else if k = 8 then Some SszUint64 else None)"

fun info_rep :: "struct_types \<Rightarrow> SszFieldInfo \<Rightarrow> ssz_ty \<Rightarrow> bool" where
  "info_rep st i TBool \<longleftrightarrow> ssz_type i = SszBool \<and> fixed_size i = 1 \<and> \<not> is_dynamic i"
| "info_rep st i (TUint k) \<longleftrightarrow>
     uint_ssz k = Some (ssz_type i) \<and> fixed_size i = of_nat k \<and> \<not> is_dynamic i"
| "info_rep st i (TVector t n) \<longleftrightarrow>
     ssz_type i = SszVector \<and> \<not> is_variable t \<and> \<not> is_dynamic i \<and>
     fixed_size i = of_nat (n * fixed_len t) \<and> info_limit i = of_nat n \<and> n < 2 ^ 16 \<and>
     (\<exists>e. elem_info i = Some e \<and> info_rep st e t)"
| "info_rep st i (TList t l) \<longleftrightarrow>
     ssz_type i = SszList \<and> is_dynamic i \<and> fixed_size i = 0 \<and> unat (info_limit i) = l \<and>
     (\<exists>e. elem_info i = Some e \<and> info_rep st e t)"
| "info_rep st i (TProgressiveList t) \<longleftrightarrow>
     ssz_type i = SszProgressiveList \<and> is_dynamic i \<and> fixed_size i = 0 \<and>
     (\<exists>e. elem_info i = Some e \<and> info_rep st e t)"
| "info_rep st i (TBitvector n) \<longleftrightarrow>
     ssz_type i = SszBitvector \<and> \<not> is_dynamic i \<and> unat (bitsize i) = n \<and>
     fixed_size i = of_nat ((n + 7) div 8)"
| "info_rep st i (TBitlist l) \<longleftrightarrow>
     ssz_type i = SszBitlist \<and> is_dynamic i \<and> fixed_size i = 0 \<and> unat (info_limit i) = l"
| "info_rep st i (TContainer s fs) \<longleftrightarrow>
     ssz_type i = SszContainer \<and> is_dynamic i = any_variable fs \<and>
     fixed_size i = (if any_variable fs then 0 else of_nat (fields_len fs)) \<and>
     (\<exists>p. info_struct i = Some p \<and> st p = Some (TContainer s fs))"
| "info_rep st i TUnion \<longleftrightarrow> ssz_type i = SszUnion \<and> is_dynamic i \<and> fixed_size i = 0"

lemma info_rep_dynamic: "info_rep st i t \<Longrightarrow> is_dynamic i = is_variable t"
  by (cases t) auto

lemma info_rep_fixed:
  "info_rep st i t \<Longrightarrow> \<not> is_variable t \<Longrightarrow> fixed_size i = of_nat (fixed_len t)"
  by (cases t) auto

definition field_rep :: "Parser \<Rightarrow> struct_types \<Rightarrow> SszContainerInfo \<Rightarrow> FieldPtr \<Rightarrow> string \<times> ssz_ty \<Rightarrow> bool" where
  "field_rep P st c p f \<longleftrightarrow>
     fst f = fd_name (field_at P p) \<and>
     (\<exists>i. field_infos c p = Some i \<and> info_rep st i (snd f))"

definition container_rep :: "Parser \<Rightarrow> struct_types \<Rightarrow> SszContainerInfo \<Rightarrow> (string \<times> ssz_ty) list \<Rightarrow> bool" where
  "container_rep P st c fs \<longleftrightarrow>
     is_fixed c = (\<not> any_variable fs) \<and>
     static_size c = of_nat (static_len fs) \<and>
     list_all2 (field_rep P st c) (all_fields c) fs \<and>
     dynamic_fields c = map fst (filter (\<lambda>(p, f). is_variable (snd f)) (zip (all_fields c) fs))"

text \<open>What a generator may use of a nested analysis.\<close>

definition nested_rep :: "Parser \<Rightarrow> struct_types \<Rightarrow> (StructPtr \<Rightarrow> SszContainerInfo res) \<Rightarrow> bool" where
  "nested_rep P st analyze \<longleftrightarrow>
     (\<forall>s c. s < length (struct_store P) \<longrightarrow> analyze s = Inr c \<longrightarrow>
        (\<exists>nm fs. st s = Some (TContainer nm fs) \<and>
          (fields_bits_ok fs \<longrightarrow>
             is_fixed c = (\<not> any_variable fs) \<and> static_size c = of_nat (static_len fs))))"

section \<open>The interface of an analysis\<close>

locale layout_analysis =
  fixes analyze :: "nat \<Rightarrow> Parser \<Rightarrow> StructPtr \<Rightarrow> SszContainerInfo res"
  assumes depth_0: "analyze 0 P s = Inl StackOverflow"
    and sound: "wf_schema P \<Longrightarrow> s < length (struct_store P) \<Longrightarrow> analyze (Suc n) P s = Inr c \<Longrightarrow>
      \<exists>fs. fields_ty P (struct_ty n P) (sd_fields (struct_at P s)) = Some fs \<and>
        all_fields c = filter (\<lambda>p. \<not> fd_deprecated (field_at P p)) (sd_fields (struct_at P s)) \<and>
        (fields_bits_ok fs \<longrightarrow> container_rep P (struct_ty n P) c fs)"
begin

text \<open>Every container that an analysis accepts has the layout of its SSZ type.\<close>

lemma layout:
  assumes "wf_schema P" and "s < length (struct_store P)" and "analyze n P s = Inr c"
    and "struct_ty n P s = Some t" and "bits_ok t"
  shows "is_fixed c = (\<not> is_variable t) \<and>
    (\<exists>nm fs. t = TContainer nm fs \<and> static_size c = of_nat (static_len fs))"
proof -
  obtain m where n: "n = Suc m" using assms(3) depth_0 by (cases n) auto
  with sound [OF assms(1,2)] assms(3) obtain fs where
    "fields_ty P (struct_ty m P) (sd_fields (struct_at P s)) = Some fs"
    and "fields_bits_ok fs \<longrightarrow> container_rep P (struct_ty m P) c fs" by blast
  with assms(2,4,5) n show ?thesis by (auto simp: container_rep_def)
qed

lemma typed:
  assumes "wf_schema P" and "s < length (struct_store P)" and "analyze n P s = Inr c"
  shows "\<exists>nm fs. struct_ty n P s = Some (TContainer nm fs)"
proof -
  obtain m where n: "n = Suc m" using assms(3) depth_0 by (cases n) auto
  with sound [OF assms(1,2)] assms(3) obtain fs where
    "fields_ty P (struct_ty m P) (sd_fields (struct_at P s)) = Some fs" by blast
  with n assms(2) show ?thesis by auto
qed

text \<open>A fixed-length struct is never analysed as variable-size.\<close>

lemma struct_is_fixed:
  assumes "wf_schema P" and "s < length (struct_store P)" and "analyze n P s = Inr c"
    and "sd_fixed (struct_at P s)" and "bits_ok (the (struct_ty n P s))"
  shows "is_fixed c"
  using typed [OF assms(1-3)] layout [OF assms(1-3)] struct_ty_fixed [OF assms(1,2,4)] assms(5)
  by auto

end

end
