(* ===== verification/Go_Layout.thy ===== *)
theory Go_Layout
  imports Go_Analysis Ssz_Schema
begin

text \<open>
  The analysis of the Go back end implements the layout contract: the info structure it computes
  for a field represents the SSZ type that the schema denotes for that field, and the structure
  of a container represents the container type.
\<close>

section \<open>Fields\<close>

lemma static_fixed_len:
  "\<not> any_variable fs \<Longrightarrow> (of_nat (static_len fs) :: u32) = of_nat (fields_len fs)"
  by (simp add: static_len_fixed)

lemma go_struct_rep:
  assumes nested: "nested_rep P st analyze"
    and rng: "case type_struct t of None \<Rightarrow> True | Some s \<Rightarrow> s < length (struct_store P)"
    and ok: "go_resolve_struct analyze t i = Inr i'"
  shows "\<exists>nm fs. struct_ref st t = Some (TContainer nm fs) \<and> ssz_type i' = SszContainer \<and>
    (fields_bits_ok fs \<longrightarrow> info_rep st i' (TContainer nm fs))"
proof -
  from ok obtain s c where s: "type_struct t = Some s" and c: "analyze s = Inr c"
    and i': "i' = assign [set_ssz_type SszContainer, set_struct (type_struct t),
        set_fixed_size (if is_fixed c then static_size c else 0), set_dynamic (\<not> is_fixed c)] i"
    by (auto simp: go_resolve_struct_def bind_res_Inr_iff split: option.splits)
  from s rng have "s < length (struct_store P)" by simp
  with nested c obtain nm fs where st: "st s = Some (TContainer nm fs)"
    and rep: "fields_bits_ok fs \<longrightarrow>
       is_fixed c = (\<not> any_variable fs) \<and> static_size c = of_nat (static_len fs)"
    unfolding nested_rep_def by blast
  with s i' show ?thesis
    by (auto simp: struct_ref_def static_fixed_len)
qed

lemma go_elem_rep:
  assumes nested: "nested_rep P st analyze"
    and rng: "case type_struct t of None \<Rightarrow> True | Some s \<Rightarrow> s < length (struct_store P)"
    and ok: "go_ResolveElemType analyze f t new_info = Inr e"
  shows "\<exists>u. elem_ty st (unat inner) t = Some u \<and>
    (bits_ok u \<longrightarrow> info_rep st
       (if ssz_type e = SszList \<and> inner > 0 then set_limit inner e else e) u)"
proof (cases "base_type t = BASE_TYPE_STRUCT")
  case True
  with ok have "go_resolve_struct analyze t new_info = Inr e"
    by (simp add: go_ResolveElemType_def)
  from go_struct_rep [OF nested rng this] True show ?thesis
    by (auto simp: elem_ty_def)
next
  case False
  show ?thesis
  proof (cases "base_type t = BASE_TYPE_STRING")
    case True
    with ok show ?thesis
      by (auto simp: go_ResolveElemType_def elem_ty_def word_gt_0)
  next
    case False
    with ok \<open>base_type t \<noteq> BASE_TYPE_STRUCT\<close> show ?thesis
      by (cases "base_type t") (auto simp: go_ResolveElemType_def elem_ty_def scalar_ty_def)
  qed
qed

text \<open>Without an inner limit the element info stays as it was resolved.\<close>

lemmas go_elem_rep0 = go_elem_rep [where inner = 0, simplified]

lemma go_vector_rep:
  assumes nested: "nested_rep P st analyze"
    and rng: "case type_struct t of None \<Rightarrow> True | Some s \<Rightarrow> s < length (struct_store P)"
    and ok: "go_ResolveVectorType analyze f t attrs new_info = Inr i"
  shows "\<exists>u. vector_ty st attrs t = Some u \<and> (bits_ok u \<longrightarrow> info_rep st i u)"
proof -
  have rngV: "case type_struct (VectorType t) of None \<Rightarrow> True | Some s \<Rightarrow> s < length (struct_store P)"
    using rng by simp
  consider "Lookup attrs ''ssz_progressive_bitlist'' \<noteq> None"
    | "Lookup attrs ''ssz_progressive_bitlist'' = None" "Lookup attrs ''ssz_bitlist'' \<noteq> None"
    | "Lookup attrs ''ssz_progressive_bitlist'' = None" "Lookup attrs ''ssz_bitlist'' = None"
      "Lookup attrs ''ssz_progressive_list'' \<noteq> None"
    | "Lookup attrs ''ssz_progressive_bitlist'' = None" "Lookup attrs ''ssz_bitlist'' = None"
      "Lookup attrs ''ssz_progressive_list'' = None" by blast
  then show ?thesis
  proof cases
    case 1
    with ok show ?thesis by (auto simp: go_ResolveVectorType_def vector_ty_def)
  next
    case 2
    with ok show ?thesis
      by (auto simp: go_ResolveVectorType_def vector_ty_def Let_def split: option.splits)
  next
    case 3
    with ok obtain e where e: "go_ResolveElemType analyze f (VectorType t) new_info = Inr e"
      and i: "i = assign [set_ssz_type SszProgressiveList, set_fixed_size 0, set_dynamic True,
             set_elem e] new_info"
      by (auto simp: go_ResolveVectorType_def Let_def bind_res_Inr_iff)
    from go_elem_rep0 [OF nested rngV e] 3 i show ?thesis
      by (auto simp: vector_ty_def Let_def)
  next
    case 4
    with ok obtain m where m: "Lookup attrs ''ssz_max'' = Some m"
      by (auto simp: go_ResolveVectorType_def Let_def split: option.splits)
    obtain outer inner where lim: "(case split_comma (v_constant m) of
         Some (before, after) \<Rightarrow> (StringToUInt (c_str before), StringToUInt (c_str after))
       | None \<Rightarrow> (StringToUInt (c_str (v_constant m)), 0)) = (outer, inner)"
      by (meson surj_pair)
    then have limits: "limits (v_constant m) = (unat outer, unat inner)"
      by (auto simp: limits_def split: option.splits)
    from ok 4 m lim obtain e where e: "go_ResolveElemType analyze f (VectorType t) new_info = Inr e"
      and i: "i = assign [set_ssz_type SszList, set_limit outer, set_fixed_size 0, set_dynamic True,
          set_elem (if ssz_type e = SszList \<and> inner > 0 then set_limit inner e else e)] new_info"
      by (auto simp: go_ResolveVectorType_def Let_def bind_res_Inr_iff)
    from go_elem_rep [OF nested rngV e, of inner] 4 m i limits show ?thesis
      by (auto simp: vector_ty_def Let_def)
  qed
qed

lemma go_array_rep:
  assumes nested: "nested_rep P st analyze"
    and fixed: "\<And>u. array_ty st attrs t = Some u \<Longrightarrow> \<not> is_variable u"
    and rng: "case type_struct t of None \<Rightarrow> True | Some s \<Rightarrow> s < length (struct_store P)"
    and ok: "go_ResolveArrayType analyze f t attrs new_info = Inr i"
  shows "\<exists>u. array_ty st attrs t = Some u \<and> (bits_ok u \<longrightarrow> info_rep st i u)"
proof (cases "Lookup attrs ''ssz_bitvector'' = None")
  case True
  with ok obtain e where e: "go_ResolveElemType analyze f (VectorType t) new_info = Inr e"
    and i: "i = assign [set_ssz_type SszVector, set_elem e,
        set_fixed_size (ucast (fixed_length t) * fixed_size e), set_dynamic False,
        set_limit (ucast (fixed_length t))] new_info"
    by (auto simp: go_ResolveArrayType_def Let_def bind_res_Inr_iff)
  have rngV: "case type_struct (VectorType t) of None \<Rightarrow> True | Some s \<Rightarrow> s < length (struct_store P)"
    using rng by simp
  from go_elem_rep0 [OF nested rngV e] obtain u where u: "elem_ty st 0 (VectorType t) = Some u"
    and rep: "bits_ok u \<longrightarrow> info_rep st e u" by auto
  from u True have arr: "array_ty st attrs t = Some (TVector u (unat (fixed_length t)))"
    by (simp add: array_ty_def)
  with fixed have "\<not> is_variable u" by fastforce
  with rep arr i show ?thesis
    using unat_bound [of "fixed_length t"] by (auto simp: info_rep_fixed)
next
  case False
  define bits :: u32 where "bits = (case Lookup attrs ''ssz_bitsize'' of
      Some v \<Rightarrow> ucast (attr_uint v) | None \<Rightarrow> ucast (fixed_length t) * 8)"
  define n where "n = (case Lookup attrs ''ssz_bitsize'' of
      Some v \<Rightarrow> unat (attr_uint v) | None \<Rightarrow> unat (fixed_length t) * 8)"
  have ty: "array_ty st attrs t = Some (TBitvector n)"
    using False by (auto simp: array_ty_def n_def split: option.splits)
  have i: "i = assign [set_ssz_type SszBitvector, set_bitsize bits,
      set_fixed_size ((bits + 7) div 8), set_dynamic False] new_info"
    using False ok by (auto simp: go_ResolveArrayType_def bits_def Let_def)
  have bn: "bits = of_nat n"
    by (auto simp: bits_def n_def split: option.splits)
  have "info_rep st i (TBitvector n)" if "n + 7 < 2 ^ 32"
  proof -
    have "unat bits = n" using that bn by (simp add: unat_of_nat)
    moreover have "(bits + 7) div 8 = of_nat ((n + 7) div 8)"
    proof -
      have "unat (bits + 7) = n + 7"
        using that bn by (simp add: unat_of_nat unat_word_ariths)
      then have "unat ((bits + 7) div 8) = (n + 7) div 8"
        by (simp add: unat_div)
      then show ?thesis by (metis of_nat_unat ucast_id)
    qed
    ultimately show ?thesis using i by simp
  qed
  with ty show ?thesis by auto
qed


lemma go_field_rep:
  assumes nested: "nested_rep P st analyze"
    and fixed: "fixed_closed P st"
    and wf: "wf_field P fx p"
    and ok: "go_ResolveSszFieldInfo analyze (field_at P p) new_info = Inr i"
  shows "\<exists>u. field_ty st (field_at P p) = Some u \<and> (bits_ok u \<longrightarrow> info_rep st i u)"
proof -
  let ?f = "field_at P p" and ?t = "field_type (field_at P p)"
  from wf have rng: "case type_struct ?t of None \<Rightarrow> True | Some s \<Rightarrow> s < length (struct_store P)"
    by (simp add: wf_field_def)
  consider "base_type ?t = BASE_TYPE_STRUCT" | "base_type ?t = BASE_TYPE_VECTOR"
    | "base_type ?t = BASE_TYPE_ARRAY"
    | "base_type ?t \<notin> {BASE_TYPE_STRUCT, BASE_TYPE_VECTOR, BASE_TYPE_ARRAY}" by blast
  then show ?thesis
  proof cases
    case 1
    with ok have "go_resolve_struct analyze ?t new_info = Inr i"
      by (simp add: go_ResolveSszFieldInfo_def)
    from go_struct_rep [OF nested rng this] 1 show ?thesis
      by (auto simp: field_ty_def Let_def)
  next
    case 2
    with ok have "go_ResolveVectorType analyze ?f ?t (fd_attributes ?f) new_info = Inr i"
      by (simp add: go_ResolveSszFieldInfo_def)
    from go_vector_rep [OF nested rng this] 2 show ?thesis
      by (auto simp: field_ty_def Let_def)
  next
    case 3
    with ok have res: "go_ResolveArrayType analyze ?f ?t (fd_attributes ?f) new_info = Inr i"
      by (simp add: go_ResolveSszFieldInfo_def)
    from wf 3 have el: "IsScalar (element ?t) \<or> IsStruct P (VectorType ?t)"
      by (auto simp: wf_field_def check_field_type_def IsScalar_def IsStruct_def IsArray_def
          split: if_splits)
    have "\<And>u. array_ty st (fd_attributes ?f) ?t = Some u \<Longrightarrow> \<not> is_variable u"
      by (rule array_ty_fixed [OF fixed el rng])
    from go_array_rep [OF nested this rng res] 3 show ?thesis
      by (auto simp: field_ty_def Let_def)
  next
    case 4
    with ok show ?thesis
      by (cases "base_type ?t")
        (auto simp: go_ResolveSszFieldInfo_def field_ty_def scalar_ty_def Let_def
          split: option.splits)
  qed
qed

section \<open>Containers\<close>

lemma go_add_field_deprecated:
  "fd_deprecated (field_at P p) \<Longrightarrow> go_add_field P an p c = Inr c"
  by (simp add: go_add_field_def)

lemma go_add_field_live:
  assumes "\<not> fd_deprecated (field_at P p)" and "go_add_field P an p c = Inr c'"
  obtains i where "go_ResolveSszFieldInfo an (field_at P p) new_info = Inr i"
    and "all_fields c' = all_fields c @ [p]"
    and "field_infos c' = emplace p i (field_infos c)"
    and "is_fixed c' = (is_fixed c \<and> \<not> is_dynamic i)"
    and "dynamic_fields c' = dynamic_fields c @ (if is_dynamic i then [p] else [])"
    and "static_size c' = static_size c + (if is_dynamic i then 4 else fixed_size i)"
proof -
  from assms obtain i where "go_ResolveSszFieldInfo an (field_at P p) new_info = Inr i"
    by (auto simp: go_add_field_def bind_res_Inr_iff)
  with assms that show thesis
    by (cases "is_dynamic i") (auto simp: go_add_field_def Let_def)
qed

lemma slot_len_word:
  assumes "info_rep st i u"
  shows "(if is_dynamic i then 4 else fixed_size i) = (of_nat (slot_len u) :: u32)"
  using assms info_rep_dynamic [OF assms] info_rep_fixed [OF assms] by (simp add: slot_len_def)

lemma container_rep_add:
  assumes rep: "container_rep P st c fs" and i: "info_rep st i u"
    and new: "p \<notin> set (all_fields c)" "field_infos c p = None"
    and c': "all_fields c' = all_fields c @ [p]"
      "field_infos c' = emplace p i (field_infos c)"
      "is_fixed c' = (is_fixed c \<and> \<not> is_dynamic i)"
      "dynamic_fields c' = dynamic_fields c @ (if is_dynamic i then [p] else [])"
      "static_size c' = static_size c + (if is_dynamic i then 4 else fixed_size i)"
  shows "container_rep P st c' (fs @ [(fd_name (field_at P p), u)])"
proof -
  from rep have l: "list_all2 (field_rep P st c) (all_fields c) fs" by (simp add: container_rep_def)
  then have len: "length (all_fields c) = length fs" by (rule list_all2_lengthD)
  have "list_all2 (field_rep P st c') (all_fields c) fs"
    using l new(1) c'(2) new(2)
    by (auto simp: list_all2_conv_all_nth field_rep_def emplace_def)
  moreover have "field_rep P st c' p (fd_name (field_at P p), u)"
    using i c'(2) new(2) by (simp add: field_rep_def emplace_def)
  ultimately show ?thesis
    using rep len i c' slot_len_word [OF i] info_rep_dynamic [OF i]
    by (auto simp: container_rep_def list_all2_appendI)
qed

lemma go_fold_rep:
  assumes nested: "nested_rep P st analyze"
    and fixed: "fixed_closed P st"
    and wf: "\<forall>p \<in> set ps. wf_field P fx p"
    and dist: "distinct ps" "set (all_fields c) \<inter> set ps = {}" "\<forall>p \<in> set ps. field_infos c p = None"
    and rep: "fields_bits_ok fs \<longrightarrow> container_rep P st c fs"
    and ok: "fold_res (go_add_field P analyze) ps c = Inr c'"
  shows "\<exists>gs. fields_ty P st ps = Some gs \<and>
    all_fields c' = all_fields c @ filter (\<lambda>p. \<not> fd_deprecated (field_at P p)) ps \<and>
    (fields_bits_ok (fs @ gs) \<longrightarrow> container_rep P st c' (fs @ gs))"
  using wf dist rep ok
proof (induction ps arbitrary: c fs)
  case Nil
  then show ?case by simp
next
  case (Cons p ps)
  from Cons.prems(6) obtain c1 where c1: "go_add_field P analyze p c = Inr c1"
    and c': "fold_res (go_add_field P analyze) ps c1 = Inr c'"
    by (auto simp: bind_res_Inr_iff)
  show ?case
  proof (cases "fd_deprecated (field_at P p)")
    case True
    with c1 have "c1 = c" by (simp add: go_add_field_deprecated)
    with Cons.IH [of c fs] Cons.prems c' True show ?thesis by simp
  next
    case False
    from go_add_field_live [OF False c1] obtain i where
      res: "go_ResolveSszFieldInfo analyze (field_at P p) new_info = Inr i"
      and upd: "all_fields c1 = all_fields c @ [p]"
        "field_infos c1 = emplace p i (field_infos c)"
        "is_fixed c1 = (is_fixed c \<and> \<not> is_dynamic i)"
        "dynamic_fields c1 = dynamic_fields c @ (if is_dynamic i then [p] else [])"
        "static_size c1 = static_size c + (if is_dynamic i then 4 else fixed_size i)"
      by metis
    from Cons.prems(1) have "wf_field P fx p" by simp
    from go_field_rep [OF nested fixed this res] obtain u where
      u: "field_ty st (field_at P p) = Some u" and rep_u: "bits_ok u \<longrightarrow> info_rep st i u" by blast
    let ?f = "(fd_name (field_at P p), u)"
    have "fields_bits_ok (fs @ [?f]) \<longrightarrow> container_rep P st c1 (fs @ [?f])"
      using Cons.prems(3-5) rep_u container_rep_add [OF _ _ _ _ upd] by auto
    moreover have "\<forall>q \<in> set ps. wf_field P fx q" "distinct ps"
      "set (all_fields c1) \<inter> set ps = {}" "\<forall>q \<in> set ps. field_infos c1 q = None"
      using Cons.prems(1-4) upd(1,2) by (auto simp: emplace_def)
    ultimately obtain gs where "fields_ty P st ps = Some gs"
      and "all_fields c' = all_fields c1 @ filter (\<lambda>p. \<not> fd_deprecated (field_at P p)) ps"
      and "fields_bits_ok ((fs @ [?f]) @ gs) \<longrightarrow> container_rep P st c' ((fs @ [?f]) @ gs)"
      using Cons.IH c' by blast
    with False u upd(1) show ?thesis by auto
  qed
qed

text \<open>The progressive part leaves the layout alone.\<close>

definition same_layout :: "SszContainerInfo \<Rightarrow> SszContainerInfo \<Rightarrow> bool" where
  "same_layout c d \<longleftrightarrow>
     static_size c = static_size d \<and> is_fixed c = is_fixed d \<and> all_fields c = all_fields d \<and>
     dynamic_fields c = dynamic_fields d \<and> field_infos c = field_infos d"

lemma same_layout_refl [simp]: "same_layout c c"
  by (simp add: same_layout_def)

lemma same_layout_trans: "same_layout c d \<Longrightarrow> same_layout d e \<Longrightarrow> same_layout c e"
  by (simp add: same_layout_def)

lemma same_layout_rep: "same_layout c d \<Longrightarrow> container_rep P st c fs \<longleftrightarrow> container_rep P st d fs"
  by (simp add: same_layout_def container_rep_def field_rep_def [abs_def])

lemma go_index_same_layout: "same_layout (go_index_field P p c) c"
  by (auto simp: go_index_field_def same_layout_def Let_def split: option.splits)

lemma go_fold_index_same_layout: "same_layout (fold (go_index_field P) ps c) c"
proof (induction ps arbitrary: c)
  case Nil
  then show ?case by simp
next
  case (Cons p ps)
  then show ?case using same_layout_trans go_index_same_layout by (metis fold_simps(2))
qed

lemma go_progressive_same_layout:
  assumes "go_progressive_part P c = Inr c'"
  shows "same_layout c' c"
proof -
  have "same_layout (fold (go_index_field P) (all_fields c)
      (c\<lparr>is_progressive := True, max_ssz_index := 0\<rparr>)) c"
    using go_fold_index_same_layout [of P "all_fields c"]
    by (rule same_layout_trans) (simp add: same_layout_def)
  with assms show ?thesis
    by (auto simp: go_progressive_part_def Let_def bind_res_Inr_iff same_layout_def)
qed

lemma new_container_rep: "container_rep P st (new_container\<lparr>static_size := 0, is_fixed := True\<rparr>) []"
  by (simp add: container_rep_def new_container_def)

lemma go_layout_rep:
  assumes nested: "nested_rep P st analyze"
    and fixed: "fixed_closed P st"
    and wf: "wf_schema P" and s: "s < length (struct_store P)"
    and ok: "\<exists>c1. fold_res (go_add_field P analyze) (sd_fields (struct_at P s))
      (new_container\<lparr>static_size := 0, is_fixed := True\<rparr>) = Inr c1 \<and> same_layout c c1"
  shows "\<exists>fs. fields_ty P st (sd_fields (struct_at P s)) = Some fs \<and>
    all_fields c = filter (\<lambda>p. \<not> fd_deprecated (field_at P p)) (sd_fields (struct_at P s)) \<and>
    (fields_bits_ok fs \<longrightarrow> container_rep P st c fs)"
proof -
  let ?c0 = "new_container\<lparr>static_size := 0, is_fixed := True\<rparr>"
  from ok obtain c1 where fold: "fold_res (go_add_field P analyze) (sd_fields (struct_at P s)) ?c0 = Inr c1"
    and c: "same_layout c c1" by blast
  have "\<forall>p \<in> set (sd_fields (struct_at P s)). wf_field P (sd_fixed (struct_at P s)) p"
    using wf_schema_field [OF wf s] by blast
  moreover have "distinct (sd_fields (struct_at P s))"
    using wf_schema_struct [OF wf s] by (simp add: wf_struct_def)
  moreover have "all_fields ?c0 = []" "\<And>p. field_infos ?c0 p = None"
    by (simp_all add: new_container_def)
  ultimately obtain gs where "fields_ty P st (sd_fields (struct_at P s)) = Some gs"
    and "all_fields c1 = filter (\<lambda>p. \<not> fd_deprecated (field_at P p)) (sd_fields (struct_at P s))"
    and "fields_bits_ok gs \<longrightarrow> container_rep P st c1 gs"
    using go_fold_rep [OF nested fixed _ _ _ _ _ fold, of "sd_fixed (struct_at P s)" "[]"]
      new_container_rep by auto
  with c show ?thesis using same_layout_rep [OF c] by (auto simp: same_layout_def)
qed

lemma go_body_rep:
  assumes "nested_rep P st analyze" and "fixed_closed P st"
    and "wf_schema P" and "s < length (struct_store P)"
    and ok: "go_analyze_body P analyze s = Inr c"
  shows "\<exists>fs. fields_ty P st (sd_fields (struct_at P s)) = Some fs \<and>
    all_fields c = filter (\<lambda>p. \<not> fd_deprecated (field_at P p)) (sd_fields (struct_at P s)) \<and>
    (fields_bits_ok fs \<longrightarrow> container_rep P st c fs)"
proof (rule go_layout_rep [OF assms(1-4)])
  show "\<exists>c1. fold_res (go_add_field P analyze) (sd_fields (struct_at P s))
      (new_container\<lparr>static_size := 0, is_fixed := True\<rparr>) = Inr c1 \<and> same_layout c c1"
    using ok
    by (auto simp: go_analyze_body_def Let_def bind_res_Inr_iff go_progressive_same_layout
        split: if_splits)
qed

section \<open>The contract\<close>

lemma go_sound:
  assumes wf: "wf_schema P" and s: "s < length (struct_store P)"
    and ok: "go_AnalyzeContainer (Suc n) P s = Inr c"
  shows "\<exists>fs. fields_ty P (struct_ty n P) (sd_fields (struct_at P s)) = Some fs \<and>
    all_fields c = filter (\<lambda>p. \<not> fd_deprecated (field_at P p)) (sd_fields (struct_at P s)) \<and>
    (fields_bits_ok fs \<longrightarrow> container_rep P (struct_ty n P) c fs)"
  using s ok
proof (induction n arbitrary: s c)
  case 0
  have "nested_rep P (struct_ty 0 P) (go_AnalyzeContainer 0 P)"
    by (simp add: nested_rep_def go_AnalyzeContainer.simps)
  from go_body_rep [OF this struct_ty_fixed_closed [OF wf] wf 0(1)] 0(2) show ?case
    by (simp only: go_AnalyzeContainer.simps)
next
  case (Suc n)
  have "nested_rep P (struct_ty (Suc n) P) (go_AnalyzeContainer (Suc n) P)"
    unfolding nested_rep_def using Suc.IH by (fastforce simp: container_rep_def)
  from go_body_rep [OF this struct_ty_fixed_closed [OF wf] wf Suc.prems(1)] Suc.prems(2) show ?case
    by (simp only: go_AnalyzeContainer.simps)
qed

interpretation go: layout_analysis go_AnalyzeContainer
  by unfold_locales (simp add: go_AnalyzeContainer.simps, rule go_sound)

end
