(* ===== verification/Go_Progress.thy ===== *)
theory Go_Progress
  imports Go_Layout
begin

text \<open>
  When the analysis of the Go back end returns and when it does not, and what its progressive
  part computes.  The recursion follows struct pointers with no guard: with a ranking of the
  structs it ends, on a cycle of live references it never returns a result.
  At the end, the transfer of what is proved of this analysis to the generators that differ from it
  in messages only.
\<close>

section \<open>Depth\<close>

text \<open>An outcome that more depth can only improve: a stack overflow may become anything.\<close>

definition le_res :: "'a res \<Rightarrow> 'a res \<Rightarrow> bool" where
  "le_res r r' \<longleftrightarrow> r = Inl StackOverflow \<or> r = r'"

lemma le_res_refl [simp]: "le_res r r"
  by (simp add: le_res_def)

lemma le_res_bot [simp]: "le_res (Inl StackOverflow) r"
  by (simp add: le_res_def)

lemma le_res_bind:
  "le_res m m' \<Longrightarrow> (\<And>x. le_res (f x) (f' x)) \<Longrightarrow> le_res (bind_res m f) (bind_res m' f')"
proof (cases m)
  case (Inr x)
  assume "le_res m m'" and f: "\<And>x. le_res (f x) (f' x)"
  with Inr have "m' = Inr x" by (simp add: le_res_def)
  with Inr f show ?thesis by simp
qed (auto simp: le_res_def)

lemma le_res_fold:
  "(\<And>x s. le_res (f x s) (f' x s)) \<Longrightarrow> le_res (fold_res f xs s) (fold_res f' xs s)"
  by (induction xs arbitrary: s) (auto intro: le_res_bind)

lemma go_struct_mono:
  "(\<And>s. le_res (an s) (an' s)) \<Longrightarrow> le_res (go_resolve_struct an t i) (go_resolve_struct an' t i)"
  by (auto simp: go_resolve_struct_def intro!: le_res_bind split: option.splits)

lemma go_elem_mono:
  "(\<And>s. le_res (an s) (an' s)) \<Longrightarrow> le_res (go_ResolveElemType an f t i) (go_ResolveElemType an' f t i)"
  by (cases "base_type t") (auto simp: go_ResolveElemType_def go_struct_mono)

lemma go_vector_mono:
  assumes "\<And>s. le_res (an s) (an' s)"
  shows "le_res (go_ResolveVectorType an f t attrs i) (go_ResolveVectorType an' f t attrs i)"
  unfolding go_ResolveVectorType_def Let_def
  using go_elem_mono [of an an' f "VectorType t" new_info, OF assms]
  by (auto intro!: le_res_bind split: option.splits)

lemma go_field_mono:
  assumes "\<And>s. le_res (an s) (an' s)"
  shows "le_res (go_ResolveSszFieldInfo an f i) (go_ResolveSszFieldInfo an' f i)"
proof -
  have "le_res (go_ResolveArrayType an f t attrs i) (go_ResolveArrayType an' f t attrs i)" for t attrs
    unfolding go_ResolveArrayType_def Let_def
    using go_elem_mono [of an an' f "VectorType t" new_info, OF assms]
    by (auto intro!: le_res_bind)
  with go_vector_mono [OF assms] go_struct_mono [OF assms] show ?thesis
    by (cases "base_type (field_type f)") (auto simp: go_ResolveSszFieldInfo_def Let_def)
qed

lemma go_body_mono:
  assumes "\<And>s. le_res (an s) (an' s)"
  shows "le_res (go_analyze_body P an s) (go_analyze_body P an' s)"
proof -
  have "le_res (go_add_field P an p c) (go_add_field P an' p c)" for p c
    using go_field_mono [OF assms] by (auto simp: go_add_field_def Let_def intro!: le_res_bind)
  then show ?thesis
    unfolding go_analyze_body_def Let_def by (auto intro!: le_res_bind le_res_fold)
qed

lemma go_depth_mono: "m \<le> n \<Longrightarrow> le_res (go_AnalyzeContainer m P s) (go_AnalyzeContainer n P s)"
proof (induction m arbitrary: n s)
  case 0
  then show ?case by (simp add: go_AnalyzeContainer.simps)
next
  case (Suc m)
  then obtain k where n: "n = Suc k" "m \<le> k" by (cases n) auto
  with Suc.IH show ?case by (auto simp: go_AnalyzeContainer.simps intro!: go_body_mono)
qed

section \<open>Termination\<close>

definition live_fields :: "Parser \<Rightarrow> StructPtr \<Rightarrow> FieldPtr list" where
  "live_fields P s = filter (\<lambda>p. \<not> fd_deprecated (field_at P p)) (sd_fields (struct_at P s))"

definition refers :: "Parser \<Rightarrow> StructPtr \<Rightarrow> StructPtr \<Rightarrow> bool" where
  "refers P s s' \<longleftrightarrow> (\<exists>p \<in> set (live_fields P s). type_struct (field_type (field_at P p)) = Some s')"

text \<open>The structs that the live fields of a struct refer to.\<close>

definition deps :: "Parser \<Rightarrow> StructPtr \<Rightarrow> StructPtr list" where
  "deps P s =
     concat (map (\<lambda>p. case type_struct (field_type (field_at P p)) of None \<Rightarrow> [] | Some s' \<Rightarrow> [s'])
       (live_fields P s))"

lemma refers_deps: "refers P s s' \<longleftrightarrow> s' \<in> set (deps P s)"
  by (force simp: refers_def deps_def split: option.splits)

lemma go_struct_overflow:
  "go_resolve_struct an t i = Inl StackOverflow \<Longrightarrow>
   \<exists>s. type_struct t = Some s \<and> an s = Inl StackOverflow"
  by (auto simp: go_resolve_struct_def bind_res_Inl_iff split: option.splits)

lemma go_elem_overflow:
  "go_ResolveElemType an f t i = Inl StackOverflow \<Longrightarrow>
   \<exists>s. type_struct t = Some s \<and> an s = Inl StackOverflow"
  by (cases "base_type t")
    (auto simp: go_ResolveElemType_def field_msg_def dest: go_struct_overflow)

lemma go_field_overflow:
  assumes "go_ResolveSszFieldInfo an f i = Inl StackOverflow"
  shows "\<exists>s. type_struct (field_type f) = Some s \<and> an s = Inl StackOverflow"
proof -
  let ?t = "field_type f"
  have elem: "go_ResolveElemType an f (VectorType ?t) new_info = Inl StackOverflow \<Longrightarrow> ?thesis"
    using go_elem_overflow [of an f "VectorType ?t"] by auto
  have vec: "go_ResolveVectorType an f ?t attrs i = Inl StackOverflow \<Longrightarrow> ?thesis" for attrs
    using elem by (auto simp: go_ResolveVectorType_def Let_def bind_res_Inl_iff field_msg_def
        split: if_splits option.splits prod.splits)
  have arr: "go_ResolveArrayType an f ?t attrs i = Inl StackOverflow \<Longrightarrow> ?thesis" for attrs
    using elem by (auto simp: go_ResolveArrayType_def Let_def bind_res_Inl_iff split: if_splits)
  show ?thesis
    using assms vec arr go_struct_overflow [of an ?t]
    by (cases "base_type ?t")
      (auto simp: go_ResolveSszFieldInfo_def Let_def field_msg_def split: option.splits)
qed

lemma fold_res_Inl:
  "fold_res f xs s = Inl e \<Longrightarrow> \<exists>x \<in> set xs. \<exists>t. f x t = Inl e"
  by (induction xs arbitrary: s) (auto simp: bind_res_Inl_iff)

lemma set_active_no_overflow: "set_active i v \<noteq> Inl StackOverflow"
  by (simp add: set_active_def vec_modify_def)

lemma go_body_overflow:
  assumes "go_analyze_body P an s = Inl StackOverflow"
  shows "\<exists>s'. refers P s s' \<and> an s' = Inl StackOverflow"
proof -
  have prog: "go_progressive_part P c \<noteq> Inl StackOverflow" for c
    using set_active_no_overflow
    by (fastforce simp: go_progressive_part_def Let_def bind_res_Inl_iff dest!: fold_res_Inl)
  with assms obtain p c where p: "p \<in> set (sd_fields (struct_at P s))"
    and "go_add_field P an p c = Inl StackOverflow"
    by (auto simp: go_analyze_body_def Let_def bind_res_Inl_iff dest!: fold_res_Inl split: if_splits)
  then have "\<not> fd_deprecated (field_at P p)"
    and "go_ResolveSszFieldInfo an (field_at P p) new_info = Inl StackOverflow"
    by (auto simp: go_add_field_def bind_res_Inl_iff Let_def split: if_splits)
  with go_field_overflow p show ?thesis
    by (fastforce simp: refers_def live_fields_def)
qed

text \<open>The body looks only at the analyses of the structs that the live fields refer to.\<close>

lemma go_field_cong:
  assumes "\<And>s. type_struct (field_type f) = Some s \<Longrightarrow> an s = an' s"
  shows "go_ResolveSszFieldInfo an f i = go_ResolveSszFieldInfo an' f i"
proof -
  let ?t = "field_type f"
  have st: "type_struct t = type_struct ?t \<Longrightarrow> go_resolve_struct an t j = go_resolve_struct an' t j" for t j
    using assms by (auto simp: go_resolve_struct_def split: option.splits)
  have el: "go_ResolveElemType an f (VectorType ?t) j = go_ResolveElemType an' f (VectorType ?t) j" for j
    using st [of "VectorType ?t"] by (cases "element ?t") (simp_all add: go_ResolveElemType_def)
  show ?thesis
    by (simp only: go_ResolveSszFieldInfo_def go_ResolveVectorType_def go_ResolveArrayType_def
        Let_def el st [of ?t, OF refl])
qed

lemma fold_res_cong:
  "(\<And>x s. x \<in> set xs \<Longrightarrow> f x s = g x s) \<Longrightarrow> fold_res f xs s = fold_res g xs s"
proof (induction xs arbitrary: s)
  case (Cons x xs)
  then have "fold_res f xs = fold_res g xs" by (intro ext Cons.IH) auto
  with Cons.prems show ?case by simp
qed simp

lemma go_body_cong:
  assumes "\<And>s'. refers P s s' \<Longrightarrow> an s' = an' s'"
  shows "go_analyze_body P an s = go_analyze_body P an' s"
proof -
  have "fold_res (go_add_field P an) (sd_fields (struct_at P s)) c
      = fold_res (go_add_field P an') (sd_fields (struct_at P s)) c" for c
  proof (rule fold_res_cong)
    fix p d assume p: "p \<in> set (sd_fields (struct_at P s))"
    show "go_add_field P an p d = go_add_field P an' p d"
    proof (cases "fd_deprecated (field_at P p)")
      case False
      with p assms have "go_ResolveSszFieldInfo an (field_at P p) j
          = go_ResolveSszFieldInfo an' (field_at P p) j" for j
        by (intro go_field_cong) (auto simp: refers_def live_fields_def)
      then show ?thesis by (simp add: go_add_field_def Let_def)
    qed (simp add: go_add_field_def)
  qed
  then show ?thesis by (simp add: go_analyze_body_def Let_def)
qed

lemma go_rank_terminates:
  assumes "\<And>s s'. s \<in> S \<Longrightarrow> refers P s s' \<Longrightarrow> s' \<in> S \<and> rank s' < (rank s :: nat)"
    and "s \<in> S" and "rank s < n"
  shows "go_AnalyzeContainer n P s \<noteq> Inl StackOverflow"
  using assms(2,3)
proof (induction n arbitrary: s)
  case 0
  then show ?case by simp
next
  case (Suc n)
  show ?case
  proof
    assume "go_AnalyzeContainer (Suc n) P s = Inl StackOverflow"
    then obtain s' where s': "refers P s s'" "go_AnalyzeContainer n P s' = Inl StackOverflow"
      using go_body_overflow by (metis go_AnalyzeContainer.simps(2))
    from assms(1) [OF Suc.prems(1) s'(1)] Suc.prems(2) have "s' \<in> S" "rank s' < n" by simp_all
    with Suc.IH s'(2) show False by blast
  qed
qed

section \<open>Cycles\<close>

text \<open>A live field whose resolution needs the analysis of struct \<open>s'\<close>: a struct or table
  field, or a list of them.\<close>

definition needs_struct :: "FieldDef \<Rightarrow> StructPtr \<Rightarrow> bool" where
  "needs_struct f s' \<longleftrightarrow>
     (let t = field_type f; attrs = fd_attributes f in
      type_struct t = Some s' \<and>
      (base_type t = BASE_TYPE_STRUCT \<or>
       base_type t = BASE_TYPE_VECTOR \<and> element t = BASE_TYPE_STRUCT \<and>
         Lookup attrs ''ssz_progressive_bitlist'' = None \<and> Lookup attrs ''ssz_bitlist'' = None))"

lemma go_needs_struct:
  assumes "needs_struct f s'" and "go_ResolveSszFieldInfo an f i = Inr i'"
  shows "is_ok (an s')"
  using assms
  by (auto simp: needs_struct_def go_ResolveSszFieldInfo_def go_ResolveVectorType_def Let_def
      go_ResolveElemType_def go_resolve_struct_def bind_res_Inr_iff is_ok_iff
      split: if_splits option.splits prod.splits)

lemma fold_res_Inr:
  "fold_res f xs s = Inr s' \<Longrightarrow> x \<in> set xs \<Longrightarrow> \<exists>t t'. f x t = Inr t'"
  by (induction xs arbitrary: s) (auto simp: bind_res_Inr_iff)

lemma go_body_needs:
  assumes "p \<in> set (live_fields P s)" and "needs_struct (field_at P p) s'"
    and "go_analyze_body P an s = Inr c"
  shows "is_ok (an s')"
proof -
  from assms(3) obtain c1 where
    "fold_res (go_add_field P an) (sd_fields (struct_at P s))
       (new_container\<lparr>static_size := 0, is_fixed := True\<rparr>) = Inr c1"
    by (auto simp: go_analyze_body_def Let_def bind_res_Inr_iff)
  moreover have "p \<in> set (sd_fields (struct_at P s))" "\<not> fd_deprecated (field_at P p)"
    using assms(1) by (auto simp: live_fields_def)
  ultimately obtain t t' where "go_add_field P an p t = Inr t'"
    using fold_res_Inr by metis
  with \<open>\<not> fd_deprecated (field_at P p)\<close> obtain i' where
    "go_ResolveSszFieldInfo an (field_at P p) new_info = Inr i'"
    by (auto simp: go_add_field_def bind_res_Inr_iff)
  with assms(2) show ?thesis by (rule go_needs_struct)
qed

lemma go_cycle_no_result:
  assumes cyc: "\<And>s. s \<in> S \<Longrightarrow> \<exists>p \<in> set (live_fields P s). \<exists>s' \<in> S. needs_struct (field_at P p) s'"
    and "s \<in> S"
  shows "\<not> is_ok (go_AnalyzeContainer n P s)"
  using assms(2)
proof (induction n arbitrary: s)
  case 0
  then show ?case by (simp add: go_AnalyzeContainer.simps)
next
  case (Suc n)
  from cyc [OF Suc.prems] obtain p s' where p: "p \<in> set (live_fields P s)" "s' \<in> S"
    "needs_struct (field_at P p) s'" by blast
  with Suc.IH have "\<not> is_ok (go_AnalyzeContainer n P s')" by blast
  with go_body_needs [OF p(1,3)] show ?case
    by (auto simp: go_AnalyzeContainer.simps is_ok_iff)
qed

section \<open>Active fields of a progressive container\<close>

text \<open>The tree index that the generators read from a field's \<open>id\<close> attribute.\<close>

definition ssz_index :: "Parser \<Rightarrow> FieldPtr \<Rightarrow> u32 option" where
  "ssz_index P p =
     map_option (\<lambda>v. ucast (attr_uint v)) (Lookup (fd_attributes (field_at P p)) ''id'')"

definition active_bit :: "byte list \<Rightarrow> nat \<Rightarrow> bool" where
  "active_bit v j \<longleftrightarrow> j div 8 < length v \<and> bit (v ! (j div 8)) (j mod 8)"

lemma bit_or_push:
  fixes b :: byte
  assumes "k < 8" "m < 8"
  shows "bit (b OR push_bit k 1) m \<longleftrightarrow> bit b m \<or> m = k"
  using assms by (auto simp: bit_simps)

lemma set_active_bit:
  assumes "set_active idx v = Inr v'"
  shows "length v' = length v \<and> (active_bit v' j \<longleftrightarrow> active_bit v j \<or> j = unat idx)"
proof -
  let ?i = "unat (idx div 8)" and ?k = "unat (idx mod 8)"
  have i: "?i = unat idx div 8" "?k = unat idx mod 8" by (simp_all add: unat_div unat_mod)
  from assms have r: "?i < length v" and v': "v' = v[?i := v ! ?i OR push_bit ?k 1]"
    by (auto simp: set_active_def vec_modify_def split: if_splits)
  have "j = unat idx \<longleftrightarrow> j div 8 = ?i \<and> j mod 8 = ?k"
    unfolding i by (metis div_mult_mod_eq)
  with r v' i show ?thesis
    by (auto simp: active_bit_def nth_list_update bit_or_push [simplified])
qed

lemma set_active_fold:
  assumes "fold_res (\<lambda>(f, idx). set_active idx) m v = Inr v'"
  shows "length v' = length v \<and> (active_bit v' j \<longleftrightarrow> active_bit v j \<or> j \<in> unat ` snd ` set m)"
  using assms
proof (induction m arbitrary: v)
  case Nil
  then show ?case by simp
next
  case (Cons fi m)
  then obtain v1 where "set_active (snd fi) v = Inr v1"
    "fold_res (\<lambda>(f, idx). set_active idx) m v1 = Inr v'"
    by (cases fi) (auto simp: bind_res_Inr_iff)
  with Cons.IH [of v1] set_active_bit [of "snd fi" v v1 j] show ?case by auto
qed

text \<open>The invariant of the loop that collects the indices.\<close>

definition indices_rep :: "Parser \<Rightarrow> FieldPtr list \<Rightarrow> SszContainerInfo \<Rightarrow> bool" where
  "indices_rep P ps c \<longleftrightarrow>
     std_map_ok (field_ssz_indices c) \<and>
     map_of (field_ssz_indices c) = (\<lambda>p. if p \<in> set ps then ssz_index P p else None) \<and>
     (\<forall>idx \<in> ran (map_of (field_ssz_indices c)). idx \<le> max_ssz_index c) \<and>
     (max_ssz_index c = 0 \<or> max_ssz_index c \<in> ran (map_of (field_ssz_indices c)))"

lemma indices_rep_step:
  assumes "indices_rep P ps c" and "p \<notin> set ps"
  shows "indices_rep P (ps @ [p]) (go_index_field P p c)"
proof (cases "Lookup (fd_attributes (field_at P p)) ''id''")
  case None
  then have "ssz_index P p = None" by (simp add: ssz_index_def)
  with None assms show ?thesis
    by (auto simp: indices_rep_def go_index_field_def fun_eq_iff)
next
  case (Some v)
  define idx where "idx = (ucast (attr_uint v) :: u32)"
  from Some have p: "ssz_index P p = Some idx" by (simp add: ssz_index_def idx_def)
  let ?m = "field_ssz_indices c"
  have ok: "std_map_ok ?m" and none: "map_of ?m p = None"
    using assms by (auto simp: indices_rep_def)
  have upd: "map_of (std_map_set p idx ?m) = (map_of ?m)(p \<mapsto> idx)"
    using ok by (rule map_of_std_map_set)
  have ran: "ran (map_of (std_map_set p idx ?m)) = insert idx (ran (map_of ?m))"
    unfolding upd using none by (rule ran_map_upd)
  have map: "map_of (std_map_set p idx ?m) = (\<lambda>q. if q \<in> set (ps @ [p]) then ssz_index P q else None)"
    using assms(1) p by (auto simp: upd indices_rep_def fun_eq_iff)
  let ?c = "go_index_field P p c"
  have c: "field_ssz_indices ?c = std_map_set p idx ?m"
      "max_ssz_index ?c = (if idx > max_ssz_index c then idx else max_ssz_index c)"
    using Some by (simp_all add: go_index_field_def idx_def Let_def)
  have old: "\<forall>i \<in> ran (map_of ?m). i \<le> max_ssz_index c"
      "max_ssz_index c = 0 \<or> max_ssz_index c \<in> ran (map_of ?m)"
    using assms(1) by (auto simp: indices_rep_def)
  have "\<forall>i \<in> ran (map_of (std_map_set p idx ?m)). i \<le> max_ssz_index ?c"
    using old(1) by (auto simp: ran c(2))
  moreover have "max_ssz_index ?c = 0 \<or> max_ssz_index ?c \<in> ran (map_of (std_map_set p idx ?m))"
    using old(2) by (auto simp: ran c(2))
  ultimately show ?thesis
    using map std_map_set_ok [OF ok] by (simp only: indices_rep_def c(1))
qed

lemma indices_rep_fold:
  assumes "indices_rep P qs c" and "distinct (qs @ ps)"
  shows "indices_rep P (qs @ ps) (fold (go_index_field P) ps c)"
  using assms
proof (induction ps arbitrary: qs c)
  case Nil
  then show ?case by simp
next
  case (Cons p ps)
  then have "indices_rep P (qs @ [p]) (go_index_field P p c)"
    by (intro indices_rep_step) auto
  with Cons.IH [of "qs @ [p]"] Cons.prems(2) show ?case by simp
qed

lemma go_progressive_part_bits:
  assumes ok: "go_progressive_part P c0 = Inr c" and dist: "distinct (all_fields c0)"
    and empty: "field_ssz_indices c0 = []"
  shows "is_progressive c \<and> indices_rep P (all_fields c0) c \<and>
    length (active_fields_bitvector c) = unat ((max_ssz_index c + 8) div 8) \<and>
    (\<forall>j. active_bit (active_fields_bitvector c) j \<longleftrightarrow>
       (\<exists>p \<in> set (all_fields c0). \<exists>idx. ssz_index P p = Some idx \<and> unat idx = j))"
proof -
  let ?c1 = "fold (go_index_field P) (all_fields c0) (c0\<lparr>is_progressive := True, max_ssz_index := 0\<rparr>)"
  have "indices_rep P [] (c0\<lparr>is_progressive := True, max_ssz_index := 0\<rparr>)"
    using empty by (simp add: indices_rep_def std_map_ok_Nil)
  from indices_rep_fold [OF this] dist have rep: "indices_rep P (all_fields c0) ?c1" by simp
  have prog: "is_progressive (fold (go_index_field P) ps d) = is_progressive d" for ps d
    by (induction ps arbitrary: d) (auto simp: go_index_field_def Let_def split: option.splits)
  from ok obtain bits where
    bits: "fold_res (\<lambda>(f, idx). set_active idx) (field_ssz_indices ?c1)
        (replicate (unat ((max_ssz_index ?c1 + 8) div 8)) 0) = Inr bits"
    and c: "c = ?c1\<lparr>active_fields_bitvector := bits\<rparr>"
    by (auto simp: go_progressive_part_def Let_def bind_res_Inr_iff)
  have snds: "snd ` set (field_ssz_indices ?c1) =
      {idx. \<exists>p \<in> set (all_fields c0). ssz_index P p = Some idx}"
  proof -
    have "distinct (map fst (field_ssz_indices ?c1))"
      using rep std_map_ok_distinct by (auto simp: indices_rep_def)
    then have "snd ` set (field_ssz_indices ?c1) = ran (map_of (field_ssz_indices ?c1))"
      by (simp add: ran_distinct)
    also have "\<dots> = {idx. \<exists>p \<in> set (all_fields c0). ssz_index P p = Some idx}"
      using rep by (auto simp: indices_rep_def ran_def split: if_splits)
    finally show ?thesis .
  qed
  have "active_bit bits j \<longleftrightarrow> j \<in> unat ` snd ` set (field_ssz_indices ?c1)" for j
    using set_active_fold [OF bits, of j] by (auto simp: active_bit_def)
  with set_active_fold [OF bits, of 0] snds c rep prog show ?thesis
    by (auto simp: indices_rep_def)
qed

text \<open>With small indices the vector writes stay in range.\<close>

lemma set_active_fold_ok:
  assumes "\<forall>(f, idx) \<in> set m. unat idx div 8 < length v"
  shows "\<exists>v'. fold_res (\<lambda>(f, idx). set_active idx) m v = Inr v'"
  using assms
proof (induction m arbitrary: v)
  case Nil
  then show ?case by simp
next
  case (Cons fi m)
  obtain f idx where fi: "fi = (f, idx)" by (cases fi)
  with Cons.prems obtain v1 where v1: "set_active idx v = Inr v1" "length v1 = length v"
    by (auto simp: set_active_def vec_modify_def unat_div)
  with Cons.prems have "\<forall>(f, idx) \<in> set m. unat idx div 8 < length v1" by auto
  from Cons.IH [OF this] v1 fi show ?case by auto
qed

lemma go_progressive_part_ok:
  assumes dist: "distinct (all_fields c0)" and empty: "field_ssz_indices c0 = []"
    and small: "\<forall>p \<in> set (all_fields c0). \<forall>idx. ssz_index P p = Some idx \<longrightarrow> unat idx < 2 ^ 32 - 8"
  shows "is_ok (go_progressive_part P c0)"
proof -
  let ?c1 = "fold (go_index_field P) (all_fields c0) (c0\<lparr>is_progressive := True, max_ssz_index := 0\<rparr>)"
  have "indices_rep P [] (c0\<lparr>is_progressive := True, max_ssz_index := 0\<rparr>)"
    using empty by (simp add: indices_rep_def std_map_ok_Nil)
  from indices_rep_fold [OF this] dist have rep: "indices_rep P (all_fields c0) ?c1" by simp
  have ids: "idx \<in> ran (map_of (field_ssz_indices ?c1)) \<Longrightarrow> unat idx < 2 ^ 32 - 8" for idx
    using rep small by (auto simp: indices_rep_def ran_def split: if_splits)
  have max: "unat (max_ssz_index ?c1) < 2 ^ 32 - 8"
    using rep ids by (auto simp: indices_rep_def)
  then have len: "unat ((max_ssz_index ?c1 + 8) div 8) = (unat (max_ssz_index ?c1) + 8) div 8"
    by (simp add: unat_div unat_word_ariths)
  have "\<forall>(f, idx) \<in> set (field_ssz_indices ?c1). unat idx div 8 < unat ((max_ssz_index ?c1 + 8) div 8)"
  proof safe
    fix f idx assume "(f, idx) \<in> set (field_ssz_indices ?c1)"
    moreover have "distinct (map fst (field_ssz_indices ?c1))"
      using rep std_map_ok_distinct by (auto simp: indices_rep_def)
    ultimately have "idx \<in> ran (map_of (field_ssz_indices ?c1))"
      by (force simp: ran_distinct)
    with rep have "idx \<le> max_ssz_index ?c1" by (auto simp: indices_rep_def)
    then have "unat idx \<le> unat (max_ssz_index ?c1)" by (simp add: word_le_nat_alt)
    then show "unat idx div 8 < unat ((max_ssz_index ?c1 + 8) div 8)" unfolding len by linarith
  qed
  from set_active_fold_ok [of _ "replicate (unat ((max_ssz_index ?c1 + 8) div 8)) 0"] this
  obtain v' where "fold_res (\<lambda>(f, idx). set_active idx) (field_ssz_indices ?c1)
        (replicate (unat ((max_ssz_index ?c1 + 8) div 8)) 0) = Inr v'"
    by (auto simp: case_prod_unfold)
  then show ?thesis by (simp add: go_progressive_part_def Let_def)
qed


lemma go_add_frame:
  assumes "go_add_field P an p c = Inr c1"
  shows "all_fields c1 = all_fields c @ (if fd_deprecated (field_at P p) then [] else [p]) \<and>
    field_ssz_indices c1 = field_ssz_indices c"
proof (cases "fd_deprecated (field_at P p)")
  case True
  with assms show ?thesis by (simp add: go_add_field_def)
next
  case False
  with assms obtain i where "go_ResolveSszFieldInfo an (field_at P p) new_info = Inr i"
    by (auto simp: go_add_field_def bind_res_Inr_iff)
  with assms False show ?thesis
    by (cases "is_dynamic i") (auto simp: go_add_field_def Let_def)
qed

lemma go_fold_frame:
  assumes "fold_res (go_add_field P an) ps c = Inr c'"
  shows "all_fields c' = all_fields c @ filter (\<lambda>p. \<not> fd_deprecated (field_at P p)) ps \<and>
    field_ssz_indices c' = field_ssz_indices c"
  using assms
proof (induction ps arbitrary: c)
  case Nil
  then show ?case by simp
next
  case (Cons p ps)
  then obtain c1 where c1: "go_add_field P an p c = Inr c1"
    and "fold_res (go_add_field P an) ps c1 = Inr c'" by (auto simp: bind_res_Inr_iff)
  with Cons.IH [of c1] go_add_frame [OF c1] show ?case by auto
qed

text \<open>The container that the analysis returns for a progressive table.\<close>

lemma go_active_bits:
  assumes ok: "go_AnalyzeContainer n P s = Inr c" and wf: "wf_schema P"
    and s: "s < length (struct_store P)"
    and prog: "Lookup (sd_attributes (struct_at P s)) ''ssz_progressive'' \<noteq> None"
  shows "is_progressive c \<and> all_fields c = live_fields P s \<and> indices_rep P (live_fields P s) c \<and>
    length (active_fields_bitvector c) = unat ((max_ssz_index c + 8) div 8) \<and>
    (\<forall>j. active_bit (active_fields_bitvector c) j \<longleftrightarrow>
       (\<exists>p \<in> set (live_fields P s). \<exists>idx. ssz_index P p = Some idx \<and> unat idx = j))"
proof -
  obtain m where n: "n = Suc m" using ok go.depth_0 by (cases n) auto
  with ok prog obtain c0 where
    c0: "fold_res (go_add_field P (go_AnalyzeContainer m P)) (sd_fields (struct_at P s))
      (new_container\<lparr>static_size := 0, is_fixed := True\<rparr>) = Inr c0"
    and part: "go_progressive_part P c0 = Inr c"
    by (auto simp: go_AnalyzeContainer.simps go_analyze_body_def Let_def bind_res_Inr_iff)
  from go_fold_frame [OF c0] have af: "all_fields c0 = live_fields P s" "field_ssz_indices c0 = []"
    by (auto simp: new_container_def live_fields_def)
  have "distinct (all_fields c0)"
    using wf_schema_struct [OF wf s] by (simp add: af live_fields_def wf_struct_def)
  from go_progressive_part_bits [OF part this af(2)] go_progressive_same_layout [OF part] af(1)
  show ?thesis by (simp add: same_layout_def)
qed

section \<open>Completeness\<close>

definition nested_ok :: "struct_types \<Rightarrow> analyzer \<Rightarrow> bool" where
  "nested_ok st an \<longleftrightarrow> (\<forall>s t. st s = Some t \<longrightarrow> is_ok (an s))"

lemma go_struct_complete:
  "nested_ok st an \<Longrightarrow> struct_ref st t = Some u \<Longrightarrow> is_ok (go_resolve_struct an t i)"
  by (fastforce simp: nested_ok_def struct_ref_def go_resolve_struct_def is_ok_iff split: option.splits)

lemma go_elem_complete:
  assumes "nested_ok st an" and "elem_ty st inner t = Some u"
  shows "is_ok (go_ResolveElemType an f t i)"
  using assms go_struct_complete [OF assms(1)]
  by (cases "base_type t")
    (auto simp: elem_ty_def go_ResolveElemType_def scalar_ty_def split: if_splits)

lemma go_vector_complete:
  assumes "nested_ok st an" and "vector_ty st attrs t = Some u"
  shows "is_ok (go_ResolveVectorType an f t attrs i)"
proof -
  have elem: "\<exists>e. go_ResolveElemType an f (VectorType t) new_info = Inr e"
    if "elem_ty st k (VectorType t) = Some w" for k w
    using go_elem_complete [OF assms(1) that] is_ok_iff by blast
  consider "Lookup attrs ''ssz_progressive_bitlist'' \<noteq> None \<or> Lookup attrs ''ssz_bitlist'' \<noteq> None"
    | "Lookup attrs ''ssz_progressive_bitlist'' = None" "Lookup attrs ''ssz_bitlist'' = None" by blast
  then show ?thesis
  proof cases
    case 1
    with assms(2) show ?thesis
      by (cases "Lookup attrs ''ssz_max''")
        (auto simp: vector_ty_def go_ResolveVectorType_def Let_def split: if_splits)
  next
    case 2
    have "\<exists>k w. elem_ty st k (VectorType t) = Some w"
      using assms(2) 2 by (auto simp: vector_ty_def Let_def bind_eq_Some_conv case_prod_beta split: if_splits)
    with elem obtain e where e: "go_ResolveElemType an f (VectorType t) new_info = Inr e" by blast
    show ?thesis
    proof (cases "Lookup attrs ''ssz_progressive_list'' \<noteq> None")
      case True
      with 2 e show ?thesis by (simp add: go_ResolveVectorType_def Let_def)
    next
      case False
      with assms(2) 2 obtain m where "Lookup attrs ''ssz_max'' = Some m"
        by (auto simp: vector_ty_def Let_def bind_eq_Some_conv)
      with 2 e False show ?thesis
        by (auto simp: go_ResolveVectorType_def Let_def split: prod.splits)
    qed
  qed
qed

lemma go_field_complete:
  assumes "nested_ok st an" and "field_ty st f = Some u"
  shows "is_ok (go_ResolveSszFieldInfo an f i)"
proof -
  let ?t = "field_type f"
  have arr: "array_ty st attrs ?t = Some u \<Longrightarrow> is_ok (go_ResolveArrayType an f ?t attrs i)" for attrs
  proof (cases "Lookup attrs ''ssz_bitvector'' = None")
    case True
    assume "array_ty st attrs ?t = Some u"
    with True obtain e where "elem_ty st 0 (VectorType ?t) = Some e" by (auto simp: array_ty_def)
    from go_elem_complete [OF assms(1) this] obtain x where
      "go_ResolveElemType an f (VectorType ?t) new_info = Inr x" by (auto simp: is_ok_iff)
    with True show ?thesis by (simp add: go_ResolveArrayType_def Let_def)
  qed (simp add: go_ResolveArrayType_def Let_def)
  show ?thesis
    using assms(2) arr go_vector_complete [OF assms(1)] go_struct_complete [OF assms(1)]
    by (cases "base_type ?t")
      (auto simp: field_ty_def go_ResolveSszFieldInfo_def scalar_ty_def Let_def split: if_splits)
qed

lemma go_add_complete:
  assumes "nested_ok st an" and "fields_ty P st ps = Some fs"
  shows "is_ok (fold_res (go_add_field P an) ps c)"
  using assms(2)
proof (induction ps arbitrary: c fs)
  case Nil
  then show ?case by simp
next
  case (Cons p ps)
  show ?case
  proof (cases "fd_deprecated (field_at P p)")
    case True
    with Cons show ?thesis by (simp add: go_add_field_deprecated)
  next
    case False
    with Cons.prems obtain u gs where u: "field_ty st (field_at P p) = Some u"
      and gs: "fields_ty P st ps = Some gs" by (auto split: option.splits)
    from go_field_complete [OF assms(1) u] obtain i where
      "go_ResolveSszFieldInfo an (field_at P p) new_info = Inr i" by (auto simp: is_ok_iff)
    with False have "\<exists>c1. go_add_field P an p c = Inr c1" by (auto simp: go_add_field_def Let_def)
    then obtain c1 where "go_add_field P an p c = Inr c1" ..
    with Cons.IH [OF gs, of c1] show ?thesis by simp
  qed
qed

text \<open>Every index that a live field carries is far from the end of its 32-bit range.\<close>

definition small_ids :: "Parser \<Rightarrow> bool" where
  "small_ids P \<longleftrightarrow>
     list_all (\<lambda>p. case ssz_index P p of None \<Rightarrow> True | Some idx \<Rightarrow> unat idx < 2 ^ 32 - 8)
       [0..<length (field_store P)]"

lemma small_ids_bound:
  "small_ids P \<Longrightarrow> p < length (field_store P) \<Longrightarrow> ssz_index P p = Some idx \<Longrightarrow> unat idx < 2 ^ 32 - 8"
  by (force simp: small_ids_def list_all_iff split: option.splits)

lemma go_complete:
  assumes wf: "wf_schema P" and small: "small_ids P"
    and s: "s < length (struct_store P)" and ty: "struct_ty n P s = Some t"
  shows "is_ok (go_AnalyzeContainer n P s)"
proof -
  have all: "\<forall>s t. s < length (struct_store P) \<longrightarrow> struct_ty n P s = Some t \<longrightarrow>
      is_ok (go_AnalyzeContainer n P s)"
  proof (induction n)
    case 0
    show ?case by simp
  next
    case (Suc n)
    show ?case
    proof (intro allI impI)
      fix s t assume s: "s < length (struct_store P)" and "struct_ty (Suc n) P s = Some t"
      then obtain fs where fs: "fields_ty P (struct_ty n P) (sd_fields (struct_at P s)) = Some fs" by auto
      let ?an = "\<lambda>s. if s < length (struct_store P) then go_AnalyzeContainer n P s else Inr new_container"
      have an: "nested_ok (struct_ty n P) ?an" using Suc.IH by (auto simp: nested_ok_def)
      let ?c0 = "new_container\<lparr>static_size := 0, is_fixed := True\<rparr>"
      have wfs: "\<forall>p \<in> set (sd_fields (struct_at P s)). wf_field P (sd_fixed (struct_at P s)) p"
        using wf_schema_field [OF wf s] by blast
      have dist: "distinct (sd_fields (struct_at P s))"
        using wf_schema_struct [OF wf s] by (simp add: wf_struct_def)
      have "is_ok (go_analyze_body P ?an s)"
      proof -
        from go_add_complete [OF an fs, of ?c0] obtain c1 where
          c1: "fold_res (go_add_field P ?an) (sd_fields (struct_at P s)) ?c0 = Inr c1"
          by (auto simp: is_ok_iff)
        from go_fold_frame [OF c1] have af: "all_fields c1 = live_fields P s" "field_ssz_indices c1 = []"
          by (auto simp: new_container_def live_fields_def)
        have "is_ok (go_progressive_part P c1)"
        proof (rule go_progressive_part_ok)
          show "distinct (all_fields c1)" using dist by (simp add: af live_fields_def)
          show "field_ssz_indices c1 = []" by (rule af)
          show "\<forall>p \<in> set (all_fields c1). \<forall>idx. ssz_index P p = Some idx \<longrightarrow> unat idx < 2 ^ 32 - 8"
            using small_ids_bound [OF small] wfs by (auto simp: af live_fields_def wf_field_def)
        qed
        with c1 show ?thesis by (simp add: go_analyze_body_def Let_def)
      qed
      moreover have "go_analyze_body P ?an s = go_analyze_body P (go_AnalyzeContainer n P) s"
        by (rule go_body_cong) (use wfs in \<open>auto simp: refers_def live_fields_def wf_field_def split: option.splits\<close>)
      ultimately show "is_ok (go_AnalyzeContainer (Suc n) P s)"
        by (simp add: go_AnalyzeContainer.simps)
    qed
  qed
  with s ty show ?thesis by blast
qed


text \<open>
  The contract between the back ends: an analysis that gives, for every schema, the Go back
  end's outcome up to the text of the error message.  It inherits the layout contract, and
  with it everything that is proved of an accepted container.
\<close>

section \<open>Analyses that agree with the Go back end\<close>

definition same_analyzer :: "analyzer \<Rightarrow> analyzer \<Rightarrow> bool" where
  "same_analyzer a a' \<longleftrightarrow> (\<forall>s. same_outcome (a s) (a' s))"

named_theorems copy_simps \<open>outcomes of corresponding steps\<close>

lemma same_outcome_errors [copy_simps]:
  "same_outcome (Inl (CompilerError m)) (Inl (CompilerError m'))"
  "same_outcome (Inl OutOfBounds) (Inl OutOfBounds)"
  by simp_all

locale go_copy =
  fixes analyze :: "nat \<Rightarrow> Parser \<Rightarrow> StructPtr \<Rightarrow> SszContainerInfo res"
  assumes copy: "same_outcome (analyze n P s) (go_AnalyzeContainer n P s)"
begin

lemma accepts_iff: "analyze n P s = Inr c \<longleftrightarrow> go_AnalyzeContainer n P s = Inr c"
  using copy [of n P s] by (metis same_outcome_Inr same_outcome_Inr2)

lemma is_ok_iff_go: "is_ok (analyze n P s) = is_ok (go_AnalyzeContainer n P s)"
  using accepts_iff [of n P s] by (metis is_ok_iff)

lemma stack_0: "analyze 0 P s = Inl StackOverflow"
proof -
  have "same_outcome (analyze 0 P s) (Inl StackOverflow)"
    using copy [of 0 P s] by (simp add: go_AnalyzeContainer.simps)
  then show ?thesis
  proof (cases "analyze 0 P s")
    case (Inl e)
    then show ?thesis using \<open>same_outcome (analyze 0 P s) (Inl StackOverflow)\<close>
      by (cases e) simp_all
  qed simp
qed

end

sublocale go_copy \<subseteq> layout_analysis analyze
proof unfold_locales
  show "analyze 0 P s = Inl StackOverflow" for P s by (rule stack_0)
  show "\<exists>fs. fields_ty P (struct_ty n P) (sd_fields (struct_at P s)) = Some fs \<and>
      all_fields c = filter (\<lambda>p. \<not> fd_deprecated (field_at P p)) (sd_fields (struct_at P s)) \<and>
      (fields_bits_ok fs \<longrightarrow> container_rep P (struct_ty n P) c fs)"
    if "wf_schema P" "s < length (struct_store P)" "analyze (Suc n) P s = Inr c" for P s n c
    using go.sound [OF that(1,2)] that(3) accepts_iff by simp
qed

end
