(* ===== verification/Fb_Namer.thy ===== *)
theory Fb_Namer
  imports Fb_Idl
begin

text \<open>
  The naming of symbols and files in generated code: \<open>Namer\<close> of
  \<open>include/codegen/namer.h\<close> with its configuration, the overrides that the command line makes
  (\<open>WithFlagOptions\<close>) and the namespace helpers of \<open>BaseGenerator\<close>.  A namer is a
  configuration and a set of keywords, which every method takes as arguments.
\<close>

section \<open>Configuration\<close>

datatype Escape = BeforeConvertingCase | AfterConvertingCase
datatype KeywordsCasing = CaseSensitive | CaseInsensitive

record Config =
  cfg_types :: Case
  cfg_constants :: Case
  cfg_methods :: Case
  cfg_functions :: Case
  cfg_fields :: Case
  cfg_variables :: Case
  cfg_variants :: Case
  enum_variant_seperator :: string
  escape_keywords :: Escape
  cfg_namespaces :: Case
  namespace_seperator :: string
  object_prefix :: string
  object_suffix :: string
  keyword_prefix :: string
  keyword_suffix :: string
  keywords_casing :: KeywordsCasing
  cfg_filenames :: Case
  cfg_directories :: Case
  output_path :: string
  filename_suffix :: string
  filename_extension :: string

text \<open>The members of \<open>IDLOptions\<close> that a namer takes over.\<close>

record IDLOptions =
  opt_object_prefix :: string
  opt_object_suffix :: string
  opt_filename_suffix :: string

definition WithFlagOptions :: "Config \<Rightarrow> IDLOptions \<Rightarrow> string \<Rightarrow> Config" where
  "WithFlagOptions input opts path =
     input\<lparr>object_prefix := opt_object_prefix opts,
           object_suffix := opt_object_suffix opts,
           output_path := path,
           filename_suffix := opt_filename_suffix opts\<rparr>"

section \<open>Names\<close>

definition NormalizeKeywordCase :: "Config \<Rightarrow> string \<Rightarrow> string" where
  "NormalizeKeywordCase config name =
     (if keywords_casing config = CaseInsensitive then ConvertCase name kAllLower kSnake else name)"

definition EscapeKeyword :: "Config \<Rightarrow> string list \<Rightarrow> string \<Rightarrow> string" where
  "EscapeKeyword config keywords name =
     (if NormalizeKeywordCase config name \<notin> set keywords then name
      else keyword_prefix config @ name @ keyword_suffix config)"

definition Format :: "Config \<Rightarrow> string list \<Rightarrow> string \<Rightarrow> Case \<Rightarrow> string" where
  "Format config keywords s casing =
     (if escape_keywords config = BeforeConvertingCase
      then ConvertCase (EscapeKeyword config keywords s) casing kLowerCamel
      else EscapeKeyword config keywords (ConvertCase s casing kLowerCamel))"

definition Field :: "Config \<Rightarrow> string list \<Rightarrow> FieldDef \<Rightarrow> string" where
  "Field config keywords d = Format config keywords (fd_name d) (cfg_fields config)"

text \<open>\<open>Directories\<close> with its default arguments: nothing skipped, upper camel case input.\<close>

definition Directories :: "Config \<Rightarrow> string list \<Rightarrow> string" where
  "Directories config directories =
     output_path config @
     concat (map (\<lambda>d. ConvertCase d (cfg_directories config) kUpperCamel @ ''/'') directories)"

definition FullNamespace :: "string \<Rightarrow> string list \<Rightarrow> string" where
  "FullNamespace separator ns =
     foldl (\<lambda>name c. (if name \<noteq> [] then name @ separator else name) @ c) [] ns"

definition LastNamespacePart :: "string list \<Rightarrow> string" where
  "LastNamespacePart ns = (if ns \<noteq> [] then last ns else '''')"

section \<open>Facts about names\<close>

lemma EscapeKeyword_not_keyword:
  assumes "keywords_casing config = CaseSensitive"
    and "\<forall>k \<in> set keywords. keyword_prefix config @ k @ keyword_suffix config \<notin> set keywords"
  shows "EscapeKeyword config keywords name \<notin> set keywords"
  using assms by (auto simp: EscapeKeyword_def NormalizeKeywordCase_def)

lemma camel_rest_underscores: "set (camel_rest s) \<subseteq> set s \<union> CharToUpper ` set s"
  by (induction s rule: camel_rest.induct) auto

end
