(* ===== verification/Go_Names.thy ===== *)
theory Go_Names
  imports Go_Analysis Fb_Namer
begin

text \<open>
  Names and types of the Go back end (\<open>src/idl_gen_ssz_go.cpp\<close>): its keywords and naming
  configuration, the package and file names, and the Go type of a field.  The generator object
  carries the parser's result, the command line options and the output path; every member
  function takes it as its first argument.
\<close>

section \<open>The generator object\<close>

record SszGenerator =
  gen_parser :: Parser
  gen_opts :: IDLOptions
  gen_path :: string

definition GoKeywords :: "string list" where
  "GoKeywords =
     [''break'', ''default'', ''func'', ''interface'', ''select'',
      ''case'', ''defer'', ''go'', ''map'', ''struct'',
      ''chan'', ''else'', ''goto'', ''package'', ''switch'',
      ''const'', ''fallthrough'', ''if'', ''range'', ''type'',
      ''continue'', ''for'', ''import'', ''return'', ''var'']"

definition SszGoDefaultConfig :: Config where
  "SszGoDefaultConfig =
     \<lparr>cfg_types = kKeep,
      cfg_constants = kUnknown,
      cfg_methods = kUpperCamel,
      cfg_functions = kUpperCamel,
      cfg_fields = kUpperCamel,
      cfg_variables = kLowerCamel,
      cfg_variants = kKeep,
      enum_variant_seperator = '''',
      escape_keywords = AfterConvertingCase,
      cfg_namespaces = kKeep,
      namespace_seperator = ''__'',
      object_prefix = '''',
      object_suffix = '''',
      keyword_prefix = '''',
      keyword_suffix = ''_'',
      keywords_casing = CaseSensitive,
      cfg_filenames = kKeep,
      cfg_directories = kKeep,
      output_path = '''',
      filename_suffix = ''_ssz'',
      filename_extension = ''.go''\<rparr>"

definition go_namer :: "SszGenerator \<Rightarrow> Config" where
  "go_namer G = WithFlagOptions SszGoDefaultConfig (gen_opts G) (gen_path G)"

definition go_Field :: "SszGenerator \<Rightarrow> FieldDef \<Rightarrow> string" where
  "go_Field G field = Field (go_namer G) GoKeywords field"

text \<open>The receiver's member of a field: \<open>"t." + namer_.Field(*field)\<close>.\<close>

definition go_member :: "SszGenerator \<Rightarrow> FieldDef \<Rightarrow> string" where
  "go_member G field = ''t.'' @ go_Field G field"

text \<open>\<open>ToSnakeCase\<close> of the back end: \<open>p\<close> is the character before, if there is one.\<close>

fun go_snake_from :: "char option \<Rightarrow> string \<Rightarrow> string" where
  "go_snake_from p [] = []"
| "go_snake_from p (c # r) =
     (if isupper c then
        (case p of
           None \<Rightarrow> []
         | Some q \<Rightarrow>
             if \<not> isupper q then ''_''
             else if r \<noteq> [] \<and> isupper q \<and> \<not> isupper (hd r) then ''_''
             else []) @ [CharToLower c]
      else [c]) @ go_snake_from (Some c) r"

definition go_ToSnakeCase :: "string \<Rightarrow> string" where
  "go_ToSnakeCase input = go_snake_from None input"

section \<open>Go types\<close>

text \<open>The name of the struct an info points to; \<open>dflt\<close> where there is none.\<close>

definition info_struct_name :: "Parser \<Rightarrow> string \<Rightarrow> SszFieldInfo \<Rightarrow> string" where
  "info_struct_name P dflt info =
     (case info_struct info of None \<Rightarrow> dflt | Some s \<Rightarrow> sd_name (struct_at P s))"

abbreviation num32 :: "u32 \<Rightarrow> string" where "num32 w \<equiv> NumToString (unat w)"
abbreviation num64 :: "u64 \<Rightarrow> string" where "num64 w \<equiv> NumToString (unat w)"

definition GoElemTypeName :: "Parser \<Rightarrow> SszFieldInfo \<Rightarrow> string" where
  "GoElemTypeName P info =
     (case ssz_type info of
        SszBool \<Rightarrow> ''bool''
      | SszUint8 \<Rightarrow> ''uint8''
      | SszUint16 \<Rightarrow> ''uint16''
      | SszUint32 \<Rightarrow> ''uint32''
      | SszUint64 \<Rightarrow> ''uint64''
      | SszContainer \<Rightarrow>
          (case info_struct info of Some s \<Rightarrow> ''*'' @ sd_name (struct_at P s) | None \<Rightarrow> ''UNKNOWN'')
      | SszList \<Rightarrow> ''[]byte''
      | _ \<Rightarrow> ''UNKNOWN'')"

definition go_list_type :: "Parser \<Rightarrow> SszFieldInfo \<Rightarrow> FieldDef \<Rightarrow> string" where
  "go_list_type P info field =
     (if base_type (field_type field) = BASE_TYPE_STRING then ''[]byte''
      else (case elem_info info of
              Some e \<Rightarrow> if ssz_type e = SszUint8 then ''[]byte'' else ''[]'' @ GoElemTypeName P e
            | None \<Rightarrow> ''[]byte''))"

definition GoTypeName :: "Parser \<Rightarrow> SszFieldInfo \<Rightarrow> FieldDef \<Rightarrow> string" where
  "GoTypeName P info field =
     (case ssz_type info of
        SszBool \<Rightarrow> ''bool''
      | SszUint8 \<Rightarrow> ''uint8''
      | SszUint16 \<Rightarrow> ''uint16''
      | SszUint32 \<Rightarrow> ''uint32''
      | SszUint64 \<Rightarrow> ''uint64''
      | SszUint128 \<Rightarrow> ''[16]byte''
      | SszUint256 \<Rightarrow> ''[32]byte''
      | SszContainer \<Rightarrow> info_struct_name P ''UNKNOWN'' info
      | SszVector \<Rightarrow>
          (case elem_info info of
             Some e \<Rightarrow>
               if ssz_type e = SszUint8 then ''['' @ num64 (info_limit info) @ '']byte''
               else ''['' @ num64 (info_limit info) @ '']'' @ GoElemTypeName P e
           | None \<Rightarrow> ''UNKNOWN'')
      | SszProgressiveList \<Rightarrow> go_list_type P info field
      | SszList \<Rightarrow> go_list_type P info field
      | SszBitlist \<Rightarrow> ''[]byte''
      | SszBitvector \<Rightarrow> ''['' @ num32 ((bitsize info + 7) div 8) @ '']byte''
      | SszProgressiveContainer \<Rightarrow> info_struct_name P ''UNKNOWN'' info
      | SszUnion \<Rightarrow> ''interface{}'')"

section \<open>Loops over fields\<close>

text \<open>
  The generators' loop over field pointers: a field without an info is skipped
  (\<open>if (it == container.field_infos.end()) continue\<close>).
\<close>

definition each_field ::
  "SszContainerInfo \<Rightarrow> FieldPtr list \<Rightarrow> (FieldPtr \<Rightarrow> SszFieldInfo \<Rightarrow> string) \<Rightarrow> string" where
  "each_field container ps body =
     concat (map (\<lambda>p. case field_infos container p of None \<Rightarrow> [] | Some info \<Rightarrow> body p info) ps)"

lemma each_field_simps [simp]:
  "each_field c [] body = []"
  "each_field c (p # ps) body =
     (case field_infos c p of None \<Rightarrow> [] | Some info \<Rightarrow> body p info) @ each_field c ps body"
  by (simp_all add: each_field_def)

text \<open>The type of the element info of an info, and the test for it in the code's conditions.\<close>

definition elem_is :: "SszFieldInfo \<Rightarrow> SszType \<Rightarrow> bool" where
  "elem_is info t = (case elem_info info of None \<Rightarrow> False | Some e \<Rightarrow> ssz_type e = t)"

definition elem_dynamic :: "SszFieldInfo \<Rightarrow> bool" where
  "elem_dynamic info = (case elem_info info of None \<Rightarrow> False | Some e \<Rightarrow> is_dynamic e)"

definition elem_fixed_size :: "SszFieldInfo \<Rightarrow> u32" where
  "elem_fixed_size info = (case elem_info info of None \<Rightarrow> 0 | Some e \<Rightarrow> fixed_size e)"

definition elem_ssz_type :: "SszFieldInfo \<Rightarrow> SszType" where
  "elem_ssz_type info = (case elem_info info of None \<Rightarrow> SszUint8 | Some e \<Rightarrow> ssz_type e)"

end
