(* ===== verification/Rust_Text.thy ===== *)
theory Rust_Text
  imports Rust_Analysis Go_Names
begin

text \<open>
  Names, types and the encoding half of the Rust back end, \<open>src/idl_gen_ssz_rust.cpp\<close>: its keywords
  and naming configuration, the Rust type of a field, and the text it emits for a struct, for
  \<open>ssz_bytes_len\<close> and for \<open>ssz_append\<close>.
  The second part is the text of \<open>from_ssz_bytes\<close>.
\<close>

section \<open>Names\<close>

definition RustKeywords :: "string list" where
  "RustKeywords =
     [''as'', ''break'', ''const'', ''continue'', ''crate'', ''else'',
      ''enum'', ''extern'', ''false'', ''fn'', ''for'', ''if'',
      ''impl'', ''in'', ''let'', ''loop'', ''match'', ''mod'',
      ''move'', ''mut'', ''pub'', ''ref'', ''return'', ''Self'',
      ''self'', ''static'', ''struct'', ''super'', ''trait'', ''true'',
      ''type'', ''unsafe'', ''use'', ''where'', ''while'', ''async'',
      ''await'', ''dyn'']"

definition SszRustDefaultConfig :: Config where
  "SszRustDefaultConfig =
     \<lparr>cfg_types = kUpperCamel,
      cfg_constants = kScreamingSnake,
      cfg_methods = kSnake,
      cfg_functions = kSnake,
      cfg_fields = kSnake,
      cfg_variables = kSnake,
      cfg_variants = kUpperCamel,
      enum_variant_seperator = ''::'',
      escape_keywords = AfterConvertingCase,
      cfg_namespaces = kSnake,
      namespace_seperator = ''::'',
      object_prefix = '''',
      object_suffix = '''',
      keyword_prefix = '''',
      keyword_suffix = ''_'',
      keywords_casing = CaseSensitive,
      cfg_filenames = kSnake,
      cfg_directories = kSnake,
      output_path = '''',
      filename_suffix = ''_ssz'',
      filename_extension = ''.rs''\<rparr>"

text \<open>\<open>p\<close> is the character before, if there is one.\<close>

fun rust_snake_from :: "char option \<Rightarrow> string \<Rightarrow> string" where
  "rust_snake_from p [] = []"
| "rust_snake_from p (c # r) =
     (if isupper c then
        (case p of
           None \<Rightarrow> []
         | Some q \<Rightarrow>
             if \<not> isupper q then ''_''
             else if r \<noteq> [] \<and> isupper q \<and> \<not> isupper (hd r) then ''_''
             else []) @ [CharToLower c]
      else [c]) @ rust_snake_from (Some c) r"

definition rust_ToSnakeCase :: "string \<Rightarrow> string" where
  "rust_ToSnakeCase input = rust_snake_from None input"

text \<open>The member of a field; the namer is not asked.\<close>

definition rust_member :: "Parser \<Rightarrow> FieldPtr \<Rightarrow> string" where
  "rust_member P p = rust_ToSnakeCase (fd_name (field_at P p))"

section \<open>Types\<close>

definition RustElemTypeName :: "Parser \<Rightarrow> SszFieldInfo \<Rightarrow> string" where
  "RustElemTypeName P info =
     (case ssz_type info of
        SszBool \<Rightarrow> ''bool''
      | SszUint8 \<Rightarrow> ''u8''
      | SszUint16 \<Rightarrow> ''u16''
      | SszUint32 \<Rightarrow> ''u32''
      | SszUint64 \<Rightarrow> ''u64''
      | SszContainer \<Rightarrow> info_struct_name P ''()'' info
      | SszProgressiveList \<Rightarrow> ''Vec<u8>''
      | SszList \<Rightarrow> ''Vec<u8>''
      | _ \<Rightarrow> ''()'')"

definition rust_list_type :: "Parser \<Rightarrow> SszFieldInfo \<Rightarrow> string" where
  "rust_list_type P info =
     (case elem_info info of
        None \<Rightarrow> ''Vec<u8>''
      | Some e \<Rightarrow>
          if ssz_type e = SszUint8 then ''Vec<u8>''
          else if ssz_type e = SszList then ''Vec<Vec<u8>>''
          else ''Vec<'' @ RustElemTypeName P e @ ''>'')"

definition RustTypeName :: "Parser \<Rightarrow> SszFieldInfo \<Rightarrow> string" where
  "RustTypeName P info =
     (case ssz_type info of
        SszBool \<Rightarrow> ''bool''
      | SszUint8 \<Rightarrow> ''u8''
      | SszUint16 \<Rightarrow> ''u16''
      | SszUint32 \<Rightarrow> ''u32''
      | SszUint64 \<Rightarrow> ''u64''
      | SszUint128 \<Rightarrow> ''[u8; 16]''
      | SszUint256 \<Rightarrow> ''[u8; 32]''
      | SszContainer \<Rightarrow> info_struct_name P ''()'' info
      | SszVector \<Rightarrow>
          (case elem_info info of
             None \<Rightarrow> ''()''
           | Some e \<Rightarrow>
               if ssz_type e = SszUint8 then ''[u8; '' @ num64 (info_limit info) @ '']''
               else ''['' @ RustElemTypeName P e @ ''; '' @ num64 (info_limit info) @ '']'')
      | SszProgressiveList \<Rightarrow> rust_list_type P info
      | SszList \<Rightarrow> rust_list_type P info
      | SszBitlist \<Rightarrow> ''Vec<u8>''
      | SszBitvector \<Rightarrow> ''[u8; '' @ num32 ((bitsize info + 7) div 8) @ '']''
      | SszProgressiveContainer \<Rightarrow> info_struct_name P ''()'' info
      | SszUnion \<Rightarrow> ''()'')"

definition rust_struct_default :: "Parser \<Rightarrow> SszFieldInfo \<Rightarrow> string" where
  "rust_struct_default P info =
     (case info_struct info of None \<Rightarrow> ''()'' | Some s \<Rightarrow> sd_name (struct_at P s) @ ''::default()'')"

definition RustDefault :: "Parser \<Rightarrow> SszFieldInfo \<Rightarrow> string" where
  "RustDefault P info =
     (case ssz_type info of
        SszBool \<Rightarrow> ''false''
      | SszUint8 \<Rightarrow> ''0''
      | SszUint16 \<Rightarrow> ''0''
      | SszUint32 \<Rightarrow> ''0''
      | SszUint64 \<Rightarrow> ''0''
      | SszUint128 \<Rightarrow> ''[0u8; 16]''
      | SszUint256 \<Rightarrow> ''[0u8; 32]''
      | SszContainer \<Rightarrow> rust_struct_default P info
      | SszVector \<Rightarrow>
          (if elem_is info SszUint8 then ''[0u8; '' @ num64 (info_limit info) @ '']''
           else ''Default::default()'')
      | SszProgressiveList \<Rightarrow> ''Vec::new()''
      | SszList \<Rightarrow> ''Vec::new()''
      | SszBitlist \<Rightarrow> ''Vec::new()''
      | SszBitvector \<Rightarrow> ''[0u8; '' @ num32 ((bitsize info + 7) div 8) @ '']''
      | SszProgressiveContainer \<Rightarrow> rust_struct_default P info
      | _ \<Rightarrow> ''Default::default()'')"

section \<open>Struct declaration\<close>

definition rust_GenRustStruct :: "Parser \<Rightarrow> StructDef \<Rightarrow> SszContainerInfo \<Rightarrow> string" where
  "rust_GenRustStruct P struct_def container =
     line [] ''#[derive(Clone, Debug, PartialEq)]'' @
     line [] (''pub struct '' @ sd_name struct_def @ '' {'') @
     each_field container (all_fields container) (\<lambda>p info.
       line sp4 (''pub '' @ rust_member P p @ '': '' @ RustTypeName P info @ '','')) @
     line [] ''}'' @ nl @
     line [] (''impl Default for '' @ sd_name struct_def @ '' {'') @
     line sp4 ''fn default() -> Self {'' @
     line sp8 ''Self {'' @
     each_field container (all_fields container) (\<lambda>p info.
       line sp12 (rust_member P p @ '': '' @ RustDefault P info @ '','')) @
     line sp8 ''}'' @
     line sp4 ''}'' @
     line [] ''}''"

section \<open>ssz\_bytes\_len\<close>

definition rust_GenSizeField :: "SszFieldInfo \<Rightarrow> string \<Rightarrow> string" where
  "rust_GenSizeField info var =
     (let list_size =
        (if elem_is info SszList then
           line sp8 (''size += '' @ var @ ''.len() * 4;'') @
           line sp8 (''for item in &'' @ var @ '' { size += item.len(); }'')
         else if elem_is info SszContainer \<and> elem_dynamic info then
           line sp8 (''size += '' @ var @ ''.len() * 4;'') @
           line sp8 (''for item in &'' @ var @ '' { size += item.ssz_bytes_len(); }'')
         else if elem_info info \<noteq> None then
           line sp8 (''size += '' @ var @ ''.len() * '' @ num32 (elem_fixed_size info) @ '';'')
         else line sp8 (''size += '' @ var @ ''.len();''))
      in case ssz_type info of
           SszProgressiveList \<Rightarrow> list_size
         | SszList \<Rightarrow> list_size
         | SszBitlist \<Rightarrow> line sp8 (''size += '' @ var @ ''.len();'')
         | SszProgressiveContainer \<Rightarrow> line sp8 (''size += '' @ var @ ''.ssz_bytes_len();'')
         | SszContainer \<Rightarrow> line sp8 (''size += '' @ var @ ''.ssz_bytes_len();'')
         | _ \<Rightarrow> [])"

definition rust_GenSizeMethod :: "Parser \<Rightarrow> SszContainerInfo \<Rightarrow> string" where
  "rust_GenSizeMethod P container =
     line sp4 ''pub fn ssz_bytes_len(&self) -> usize {'' @
     (if is_fixed container then line sp8 (num32 (static_size container))
      else
        line sp8 (''let mut size = '' @ num32 (static_size container) @ ''usize;'') @
        each_field container (dynamic_fields container) (\<lambda>p info.
          rust_GenSizeField info (''self.'' @ rust_member P p)) @
        line sp8 ''size'') @
     line sp4 ''}'' @ nl"

section \<open>ssz\_append\<close>

definition rust_GenMarshalPrimitiveArray :: "SszFieldInfo \<Rightarrow> string \<Rightarrow> string \<Rightarrow> string" where
  "rust_GenMarshalPrimitiveArray info var ind =
     line ind (''for v in &'' @ var @ '' {'') @
     (case elem_ssz_type info of
        SszBool \<Rightarrow> line (ind @ sp4) ''buf.push(if *v { 1 } else { 0 });''
      | SszUint16 \<Rightarrow> line (ind @ sp4) ''buf.extend_from_slice(&v.to_le_bytes());''
      | SszUint32 \<Rightarrow> line (ind @ sp4) ''buf.extend_from_slice(&v.to_le_bytes());''
      | SszUint64 \<Rightarrow> line (ind @ sp4) ''buf.extend_from_slice(&v.to_le_bytes());''
      | _ \<Rightarrow> []) @
     line ind ''}''"

definition rust_GenMarshalPrimitiveSlice :: "SszFieldInfo \<Rightarrow> string \<Rightarrow> string \<Rightarrow> string" where
  "rust_GenMarshalPrimitiveSlice info var ind = rust_GenMarshalPrimitiveArray info var ind"

text \<open>\<open>item\<close> is the line that appends one element; the code has the block twice.\<close>

definition rust_offset_list :: "string \<Rightarrow> string \<Rightarrow> string \<Rightarrow> string" where
  "rust_offset_list var ind item =
     line ind ''{'' @
     line (ind @ sp4) ''let list_start = buf.len();'' @
     line (ind @ sp4) (''for _ in &'' @ var @ '' { buf.extend_from_slice(&[0u8; 4]); }'') @
     line (ind @ sp4) (''for (i, item) in '' @ var @ ''.iter().enumerate() {'') @
     line (ind @ sp8) ''let off = ((buf.len() - list_start) as u32).to_le_bytes();'' @
     line (ind @ sp8) ''buf[list_start + i * 4..list_start + i * 4 + 4].copy_from_slice(&off);'' @
     line (ind @ sp8) item @
     line (ind @ sp4) ''}'' @
     line ind ''}''"

definition rust_marshal_list :: "SszFieldInfo \<Rightarrow> string \<Rightarrow> string \<Rightarrow> string" where
  "rust_marshal_list info var ind =
     (if elem_is info SszList then rust_offset_list var ind ''buf.extend_from_slice(item);''
      else if elem_is info SszUint8 then line ind (''buf.extend_from_slice(&'' @ var @ '');'')
      else if elem_is info SszContainer then
        (if elem_dynamic info then rust_offset_list var ind ''item.ssz_append(buf);''
         else line ind (''for item in &'' @ var @ '' { item.ssz_append(buf); }''))
      else if elem_info info \<noteq> None then rust_GenMarshalPrimitiveSlice info var ind
      else line ind (''buf.extend_from_slice(&'' @ var @ '');''))"

definition rust_GenMarshalField :: "SszFieldInfo \<Rightarrow> string \<Rightarrow> string \<Rightarrow> string" where
  "rust_GenMarshalField info var ind =
     (case ssz_type info of
        SszBool \<Rightarrow> line ind (''buf.push(if '' @ var @ '' { 1 } else { 0 });'')
      | SszUint8 \<Rightarrow> line ind (''buf.push('' @ var @ '');'')
      | SszUint16 \<Rightarrow> line ind (''buf.extend_from_slice(&'' @ var @ ''.to_le_bytes());'')
      | SszUint32 \<Rightarrow> line ind (''buf.extend_from_slice(&'' @ var @ ''.to_le_bytes());'')
      | SszUint64 \<Rightarrow> line ind (''buf.extend_from_slice(&'' @ var @ ''.to_le_bytes());'')
      | SszUint128 \<Rightarrow> line ind (''buf.extend_from_slice(&'' @ var @ '');'')
      | SszUint256 \<Rightarrow> line ind (''buf.extend_from_slice(&'' @ var @ '');'')
      | SszVector \<Rightarrow>
          (if elem_is info SszUint8 then line ind (''buf.extend_from_slice(&'' @ var @ '');'')
           else if elem_is info SszContainer then
             line ind (''for item in &'' @ var @ '' { item.ssz_append(buf); }'')
           else if elem_info info \<noteq> None then rust_GenMarshalPrimitiveArray info var ind
           else [])
      | SszProgressiveList \<Rightarrow> rust_marshal_list info var ind
      | SszList \<Rightarrow> rust_marshal_list info var ind
      | SszBitlist \<Rightarrow> line ind (''buf.extend_from_slice(&'' @ var @ '');'')
      | SszBitvector \<Rightarrow> line ind (''buf.extend_from_slice(&'' @ var @ '');'')
      | SszProgressiveContainer \<Rightarrow> line ind (var @ ''.ssz_append(buf);'')
      | SszContainer \<Rightarrow> line ind (var @ ''.ssz_append(buf);'')
      | SszUnion \<Rightarrow> [])"

text \<open>The two loops over the fields of a dynamic container; \<open>oidx\<close> counts the dynamic fields.\<close>

fun rust_static_fields :: "Parser \<Rightarrow> SszContainerInfo \<Rightarrow> nat \<Rightarrow> FieldPtr list \<Rightarrow> string" where
  "rust_static_fields P container oidx [] = []"
| "rust_static_fields P container oidx (p # ps) =
     (case field_infos container p of
        None \<Rightarrow> rust_static_fields P container oidx ps
      | Some info \<Rightarrow>
          if is_dynamic info then
            line sp8 (''let offset'' @ NumToString oidx @ '' = buf.len();'') @
            line sp8 ''buf.extend_from_slice(&[0u8; 4]);'' @
            rust_static_fields P container (oidx + 1) ps
          else
            rust_GenMarshalField info (''self.'' @ rust_member P p) sp8 @
            rust_static_fields P container oidx ps)"

fun rust_dynamic_fields :: "Parser \<Rightarrow> SszContainerInfo \<Rightarrow> nat \<Rightarrow> FieldPtr list \<Rightarrow> string" where
  "rust_dynamic_fields P container oidx [] = []"
| "rust_dynamic_fields P container oidx (p # ps) =
     (case field_infos container p of
        None \<Rightarrow> rust_dynamic_fields P container oidx ps
      | Some info \<Rightarrow>
          if is_dynamic info then
            line sp8 ''let off = ((buf.len() - dstlen) as u32).to_le_bytes();'' @
            line sp8 (''buf[offset'' @ NumToString oidx @ ''..offset'' @ NumToString oidx @
              '' + 4].copy_from_slice(&off);'') @
            rust_GenMarshalField info (''self.'' @ rust_member P p) sp8 @
            rust_dynamic_fields P container (oidx + 1) ps
          else rust_dynamic_fields P container oidx ps)"

definition rust_GenMarshalMethod :: "Parser \<Rightarrow> SszContainerInfo \<Rightarrow> string" where
  "rust_GenMarshalMethod P container =
     line sp4 ''pub fn ssz_append(&self, buf: &mut Vec<u8>) {'' @
     (if dynamic_fields container = [] then
        each_field container (all_fields container) (\<lambda>p info.
          rust_GenMarshalField info (''self.'' @ rust_member P p) sp8)
      else
        line sp8 ''let dstlen = buf.len();'' @
        rust_static_fields P container 0 (all_fields container) @
        rust_dynamic_fields P container 0 (all_fields container)) @
     line sp4 ''}'' @ nl"


text \<open>The text that the Rust back end emits for \<open>from_ssz_bytes\<close> of an owned struct.\<close>

section \<open>Fields of fixed size\<close>

definition rust_slice :: "string \<Rightarrow> string \<Rightarrow> string \<Rightarrow> string" where
  "rust_slice buf s e = buf @ ''['' @ s @ ''..'' @ e @ '']''"

definition rust_GenUnmarshalExpr :: "Parser \<Rightarrow> SszFieldInfo \<Rightarrow> string \<Rightarrow> u32 \<Rightarrow> string" where
  "rust_GenUnmarshalExpr P info buf offset =
     (let s = num32 offset; e = num32 (offset + fixed_size info); slice_text = rust_slice buf s e in
      case ssz_type info of
        SszBool \<Rightarrow> ''('' @ buf @ ''['' @ s @ ''] == 1)''
      | SszUint8 \<Rightarrow> buf @ ''['' @ s @ '']''
      | SszUint16 \<Rightarrow> ''u16::from_le_bytes('' @ slice_text @ ''.try_into().unwrap())''
      | SszUint32 \<Rightarrow> ''u32::from_le_bytes('' @ slice_text @ ''.try_into().unwrap())''
      | SszUint64 \<Rightarrow> ''u64::from_le_bytes('' @ slice_text @ ''.try_into().unwrap())''
      | SszUint128 \<Rightarrow> slice_text @ ''.try_into().unwrap()''
      | SszUint256 \<Rightarrow> slice_text @ ''.try_into().unwrap()''
      | SszVector \<Rightarrow> slice_text @ ''.try_into().unwrap()''
      | SszBitvector \<Rightarrow> slice_text @ ''.try_into().unwrap()''
      | SszProgressiveContainer \<Rightarrow> info_struct_name P '''' info @ ''::from_ssz_bytes(&'' @ slice_text @ '')?''
      | SszContainer \<Rightarrow> info_struct_name P '''' info @ ''::from_ssz_bytes(&'' @ slice_text @ '')?''
      | _ \<Rightarrow> ''Default::default()'')"

section \<open>Dynamic fields\<close>

text \<open>
  A block that reads a list with offsets; the code has it twice, up to the expression \<open>item\<close> that
  is pushed.  And a block that reads elements of \<open>esize\<close> bytes.
\<close>

definition rust_offset_block :: "string \<Rightarrow> string \<Rightarrow> string" where
  "rust_offset_block slice_text item =
     line [] ''{'' @
     line sp12 (''let sl = &'' @ slice_text @ '';'') @
     line sp12 ''if sl.is_empty() { Vec::new() } else {'' @
     line sp16 ''let first_off = u32::from_le_bytes(sl[0..4].try_into().unwrap()) as usize;'' @
     line sp16 ''let count = first_off / 4;'' @
     line sp16 ''let mut out = Vec::with_capacity(count);'' @
     line sp16 ''for i in 0..count {'' @
     line sp20 ''let s = u32::from_le_bytes(sl[i*4..i*4+4].try_into().unwrap()) as usize;'' @
     line sp20 (''let e = if i + 1 < count { u32::from_le_bytes(sl[(i+1)*4..(i+1)*4+4]'' @
       ''.try_into().unwrap()) as usize } else { sl.len() };'') @
     line sp20 (''out.push('' @ item @ '');'') @
     line sp16 ''}'' @
     line sp16 ''out'' @
     line sp12 ''}'' @
     sp8 @ ''}''"

definition rust_chunk_block :: "string \<Rightarrow> u32 \<Rightarrow> string \<Rightarrow> string" where
  "rust_chunk_block slice_text esize item =
     line [] ''{'' @
     line sp12 (''let sl = &'' @ slice_text @ '';'') @
     line sp12 (''let count = sl.len() / '' @ num32 esize @ '';'') @
     line sp12 ''let mut out = Vec::with_capacity(count);'' @
     line sp12 ''for i in 0..count {'' @
     line sp16 (''out.push('' @ item @ '');'') @
     line sp12 ''}'' @
     line sp12 ''out'' @
     sp8 @ ''}''"

definition rust_chunk :: "u32 \<Rightarrow> string" where
  "rust_chunk esize = ''sl[i*'' @ num32 esize @ ''..(i+1)*'' @ num32 esize @ '']''"

definition rust_GenUnmarshalPrimitiveSlice :: "SszFieldInfo \<Rightarrow> string \<Rightarrow> u32 \<Rightarrow> string" where
  "rust_GenUnmarshalPrimitiveSlice elem slice_text esize =
     (let read = (\<lambda>typ. typ @ ''::from_le_bytes('' @ rust_chunk esize @ ''.try_into().unwrap())'') in
      case ssz_type elem of
        SszBool \<Rightarrow> rust_chunk_block slice_text esize ''sl[i] == 1''
      | SszUint16 \<Rightarrow> rust_chunk_block slice_text esize (read ''u16'')
      | SszUint32 \<Rightarrow> rust_chunk_block slice_text esize (read ''u32'')
      | SszUint64 \<Rightarrow> rust_chunk_block slice_text esize (read ''u64'')
      | _ \<Rightarrow> slice_text @ ''.to_vec()'')"

definition rust_unmarshal_list :: "Parser \<Rightarrow> SszFieldInfo \<Rightarrow> string \<Rightarrow> string" where
  "rust_unmarshal_list P info slice_text =
     (case elem_info info of
        None \<Rightarrow> slice_text @ ''.to_vec()''
      | Some e \<Rightarrow>
          if ssz_type e = SszList then rust_offset_block slice_text ''sl[s..e].to_vec()''
          else if ssz_type e = SszUint8 then slice_text @ ''.to_vec()''
          else if ssz_type e = SszContainer then
            (if is_dynamic e then
               rust_offset_block slice_text (info_struct_name P '''' e @ ''::from_ssz_bytes(&sl[s..e])?'')
             else
               rust_chunk_block slice_text (fixed_size e)
                 (info_struct_name P '''' e @ ''::from_ssz_bytes(&'' @ rust_chunk (fixed_size e) @ '')?''))
          else rust_GenUnmarshalPrimitiveSlice e slice_text (fixed_size e))"

definition rust_GenUnmarshalDynExpr :: "Parser \<Rightarrow> SszFieldInfo \<Rightarrow> string \<Rightarrow> string \<Rightarrow> string \<Rightarrow> string" where
  "rust_GenUnmarshalDynExpr P info buf start end' =
     (let slice_text = rust_slice buf start end' in
      case ssz_type info of
        SszProgressiveList \<Rightarrow> rust_unmarshal_list P info slice_text
      | SszList \<Rightarrow> rust_unmarshal_list P info slice_text
      | SszBitlist \<Rightarrow> slice_text @ ''.to_vec()''
      | SszProgressiveContainer \<Rightarrow> info_struct_name P '''' info @ ''::from_ssz_bytes(&'' @ slice_text @ '')?''
      | SszContainer \<Rightarrow> info_struct_name P '''' info @ ''::from_ssz_bytes(&'' @ slice_text @ '')?''
      | _ \<Rightarrow> ''Default::default()'')"

section \<open>The method\<close>

fun rust_unmarshal_fixed :: "Parser \<Rightarrow> SszContainerInfo \<Rightarrow> u32 \<Rightarrow> FieldPtr list \<Rightarrow> string" where
  "rust_unmarshal_fixed P container offset [] = []"
| "rust_unmarshal_fixed P container offset (p # ps) =
     (case field_infos container p of
        None \<Rightarrow> rust_unmarshal_fixed P container offset ps
      | Some info \<Rightarrow>
          line sp12 (rust_member P p @ '': '' @ rust_GenUnmarshalExpr P info ''bytes'' offset @ '','') @
          rust_unmarshal_fixed P container (offset + fixed_size info) ps)"

definition rust_read_offset :: "SszContainerInfo \<Rightarrow> u32 \<Rightarrow> nat \<Rightarrow> string" where
  "rust_read_offset container offset dyn_idx =
     line sp8 (''let offset'' @ NumToString dyn_idx @ '' = u32::from_le_bytes(bytes['' @ num32 offset @
       ''..'' @ num32 (offset + 4) @ ''].try_into().unwrap()) as usize;'') @
     (if dyn_idx = 0 then
        line sp8 (''if offset0 != '' @ num32 (static_size container) @
          '' { return Err(SszError::InvalidOffset); }'')
      else
        line sp8 (''if offset'' @ NumToString dyn_idx @ '' < offset'' @ NumToString (dyn_idx - 1) @
          '' || offset'' @ NumToString dyn_idx @ '' > bytes.len() { return Err(SszError::InvalidOffset); }''))"

text \<open>The first loop; it also collects the dynamic fields with their numbers.\<close>

fun rust_unmarshal_static ::
  "Parser \<Rightarrow> SszContainerInfo \<Rightarrow> u32 \<Rightarrow> nat \<Rightarrow> FieldPtr list \<Rightarrow> string \<times> (FieldPtr \<times> nat) list" where
  "rust_unmarshal_static P container offset dyn_idx [] = ([], [])"
| "rust_unmarshal_static P container offset dyn_idx (p # ps) =
     (case field_infos container p of
        None \<Rightarrow> rust_unmarshal_static P container offset dyn_idx ps
      | Some info \<Rightarrow>
          if is_dynamic info then
            (let (code, dyn_fields) = rust_unmarshal_static P container (offset + 4) (dyn_idx + 1) ps
             in (rust_read_offset container offset dyn_idx @ code, (p, dyn_idx) # dyn_fields))
          else
            (let (code, dyn_fields) =
                   rust_unmarshal_static P container (offset + fixed_size info) dyn_idx ps
             in (line sp8 (''result.'' @ rust_member P p @ '' = '' @
                  rust_GenUnmarshalExpr P info ''bytes'' offset @ '';'') @ code, dyn_fields)))"

fun rust_unmarshal_dynamic :: "Parser \<Rightarrow> SszContainerInfo \<Rightarrow> (FieldPtr \<times> nat) list \<Rightarrow> string" where
  "rust_unmarshal_dynamic P container [] = []"
| "rust_unmarshal_dynamic P container ((p, oidx) # ds) =
     (case field_infos container p of
        None \<Rightarrow> rust_unmarshal_dynamic P container ds
      | Some info \<Rightarrow>
          (let start = ''offset'' @ NumToString oidx;
               end' = (case ds of [] \<Rightarrow> ''bytes.len()'' | (q, k) # r \<Rightarrow> ''offset'' @ NumToString k)
           in line sp8 (''result.'' @ rust_member P p @ '' = '' @
                rust_GenUnmarshalDynExpr P info ''bytes'' start end' @ '';'')) @
          rust_unmarshal_dynamic P container ds)"

definition rust_GenUnmarshalMethod :: "Parser \<Rightarrow> SszContainerInfo \<Rightarrow> string" where
  "rust_GenUnmarshalMethod P container =
     line sp4 ''pub fn from_ssz_bytes(bytes: &[u8]) -> Result<Self, SszError> {'' @
     line sp8 (''if bytes.len() < '' @ num32 (static_size container) @ '' {'') @
     line sp12 ''return Err(SszError::BufferTooSmall);'' @
     line sp8 ''}'' @
     (if dynamic_fields container = [] then
        line sp8 ''Ok(Self {'' @
        rust_unmarshal_fixed P container 0 (all_fields container) @
        line sp8 ''})''
      else
        (let (code, dyn_fields) = rust_unmarshal_static P container 0 0 (all_fields container) in
         line sp8 ''let mut result = Self::default();'' @
         code @
         rust_unmarshal_dynamic P container dyn_fields @
         line sp8 ''Ok(result)'')) @
     line sp4 ''}'' @ nl"

end
