(* ===== verification/Go_Lang.thy ===== *)
theory Go_Lang
  imports Ssz_Spec
begin

text \<open>
  The part of the Go language that the emitted \<open>MarshalSSZTo\<close> and \<open>SizeSSZ\<close> methods use: its
  syntax, the text of a statement, and what a statement does.  A Go value is a value of
  \<open>Ssz_Spec\<close>, a pointer that is not nil the value it points to.  Execution returns
  \<open>None\<close> where Go would panic or refuse to compile (an index out of range, an operand of the
  wrong type, a method of a nil pointer, which would read the members of its receiver).
\<close>

section \<open>Syntax\<close>

datatype gexpr =
    GMember string
  | GLocal string
  | GIndex gexpr string

datatype gpos =
    PAt string
  | PElem string string nat \<comment> \<open>\<open>base+i*k\<close>\<close>

datatype gstmt =
    Comment string
  | Blank
  | DstIsBuf
  | DeclLen string
  | AppendByte gexpr
  | AppendConst bool
  | AppendZeros
  | AppendSlice gexpr
  | AppendArray gexpr
  | AppendUint nat gexpr
  | PutLen gpos string
  | IfElse gexpr "gstmt list" "gstmt list"
  | ForIndex string gexpr "gstmt list"
  | ForValue string gexpr "gstmt list"
  | ForEach gexpr "gstmt list"
  | ForBoth string string gexpr "gstmt list"
  | Block "gstmt list"
  | MarshalInto gexpr
  | SizeInit nat
  | SizeAddMul gexpr nat
  | SizeAddLen gexpr
  | SizeAddCall gexpr

section \<open>Text\<close>

fun pp_expr :: "gexpr \<Rightarrow> string" where
  "pp_expr (GMember f) = ''t.'' @ f"
| "pp_expr (GLocal x) = x"
| "pp_expr (GIndex e i) = pp_expr e @ ''['' @ i @ '']''"

fun pp_pos :: "gpos \<Rightarrow> string" where
  "pp_pos (PAt x) = x"
| "pp_pos (PElem x i k) = x @ ''+'' @ i @ ''*'' @ NumToString k"

fun pp_stmt :: "string \<Rightarrow> gstmt \<Rightarrow> string"
  and pp_stmts :: "string \<Rightarrow> gstmt list \<Rightarrow> string" where
  "pp_stmt ind (Comment s) = line ind (''// '' @ s)"
| "pp_stmt ind Blank = nl"
| "pp_stmt ind DstIsBuf = line ind ''dst = buf''"
| "pp_stmt ind (DeclLen x) = line ind (x @ '' := len(dst)'')"
| "pp_stmt ind (AppendByte e) = line ind (''dst = append(dst, '' @ pp_expr e @ '')'')"
| "pp_stmt ind (AppendConst b) = line ind (if b then ''dst = append(dst, 1)'' else ''dst = append(dst, 0)'')"
| "pp_stmt ind AppendZeros = line ind ''dst = append(dst, 0, 0, 0, 0)''"
| "pp_stmt ind (AppendSlice e) = line ind (''dst = append(dst, '' @ pp_expr e @ ''...)'')"
| "pp_stmt ind (AppendArray e) = line ind (''dst = append(dst, '' @ pp_expr e @ ''[:]...)'')"
| "pp_stmt ind (AppendUint w e) =
     line ind (''dst = binary.LittleEndian.AppendUint'' @ NumToString w @ ''(dst, '' @ pp_expr e @ '')'')"
| "pp_stmt ind (PutLen p base) =
     line ind (''binary.LittleEndian.PutUint32(dst['' @ pp_pos p @ '':], uint32(len(dst)-'' @ base @ ''))'')"
| "pp_stmt ind (IfElse e a b) =
     line ind (''if '' @ pp_expr e @ '' {'') @ pp_stmts (ind @ tab) a @
     line ind ''} else {'' @ pp_stmts (ind @ tab) b @ line ind ''}''"
| "pp_stmt ind (ForIndex i e b) =
     line ind (''for '' @ i @ '' := range '' @ pp_expr e @ '' {'') @ pp_stmts (ind @ tab) b @ line ind ''}''"
| "pp_stmt ind (ForValue x e b) =
     line ind (''for _, '' @ x @ '' := range '' @ pp_expr e @ '' {'') @ pp_stmts (ind @ tab) b @ line ind ''}''"
| "pp_stmt ind (ForEach e b) =
     line ind (''for range '' @ pp_expr e @ '' {'') @ pp_stmts (ind @ tab) b @ line ind ''}''"
| "pp_stmt ind (ForBoth i x e b) =
     line ind (''for '' @ i @ '', '' @ x @ '' := range '' @ pp_expr e @ '' {'') @
     pp_stmts (ind @ tab) b @ line ind ''}''"
| "pp_stmt ind (Block b) = line ind ''{'' @ pp_stmts (ind @ tab) b @ line ind ''}''"
| "pp_stmt ind (MarshalInto e) =
     line ind (''if dst, err = '' @ pp_expr e @ ''.MarshalSSZTo(dst); err != nil {'') @
     line (ind @ tab) ''return nil, err'' @ line ind ''}''"
| "pp_stmt ind (SizeInit n) = line ind (''size := '' @ NumToString n)"
| "pp_stmt ind (SizeAddMul e k) = line ind (''size += len('' @ pp_expr e @ '') * '' @ NumToString k)"
| "pp_stmt ind (SizeAddLen e) = line ind (''size += len('' @ pp_expr e @ '')'')"
| "pp_stmt ind (SizeAddCall e) = line ind (''size += '' @ pp_expr e @ ''.SizeSSZ()'')"
| "pp_stmts ind [] = []"
| "pp_stmts ind (s # ss) = pp_stmt ind s @ pp_stmts ind ss"

lemma pp_stmts_append [simp]: "pp_stmts ind (xs @ ys) = pp_stmts ind xs @ pp_stmts ind ys"
  by (induction xs) auto

section \<open>Execution\<close>

text \<open>
  A frame: the receiver with the member names of its struct, the local variables, the parameter
  \<open>buf\<close> and the two variables that statements assign, \<open>dst\<close> and \<open>size\<close>.
\<close>

record gframe =
  gf_members :: "string list"
  gf_recv :: "val list"
  gf_vals :: "string \<rightharpoonup> val"
  gf_ints :: "string \<rightharpoonup> nat"
  gf_buf :: "byte list"
  gf_dst :: "byte list"
  gf_size :: nat

text \<open>The two methods of the other structs.\<close>

record gcalls =
  call_marshal :: "string \<Rightarrow> val list \<Rightarrow> byte list \<Rightarrow> byte list option"
  call_size :: "string \<Rightarrow> val list \<Rightarrow> nat option"

fun eval :: "gframe \<Rightarrow> gexpr \<Rightarrow> val option" where
  "eval fr (GMember f) = map_of (zip (gf_members fr) (gf_recv fr)) f"
| "eval fr (GLocal x) = gf_vals fr x"
| "eval fr (GIndex e i) =
     (case eval fr e of
        Some (VSeq xs) \<Rightarrow>
          (case gf_ints fr i of
             Some k \<Rightarrow> if k < length xs then Some (xs ! k) else None
           | None \<Rightarrow> None)
      | _ \<Rightarrow> None)"

text \<open>The number of elements, and the elements, of a slice or array.\<close>

fun val_len :: "val \<Rightarrow> nat option" where
  "val_len (VBytes bs) = Some (length bs)"
| "val_len (VSeq xs) = Some (length xs)"
| "val_len v = None"

fun val_elems :: "val \<Rightarrow> val list option" where
  "val_elems (VSeq xs) = Some xs"
| "val_elems v = None"

fun pos_at :: "gframe \<Rightarrow> gpos \<Rightarrow> nat option" where
  "pos_at fr (PAt x) = gf_ints fr x"
| "pos_at fr (PElem x i k) =
     (case gf_ints fr x of
        Some b \<Rightarrow> map_option (\<lambda>j. b + j * k) (gf_ints fr i)
      | None \<Rightarrow> None)"

text \<open>\<open>PutUint32(dst[pos:], v)\<close>: four bytes in place; it panics when they do not fit.\<close>

definition put_bytes :: "nat \<Rightarrow> 'a list \<Rightarrow> 'a list \<Rightarrow> 'a list option" where
  "put_bytes pos bs xs =
     (if pos + length bs \<le> length xs
      then Some (take pos xs @ bs @ drop (pos + length bs) xs) else None)"

fun fold_opt :: "('a \<Rightarrow> 's \<Rightarrow> 's option) \<Rightarrow> 'a list \<Rightarrow> 's \<Rightarrow> 's option" where
  "fold_opt f [] s = Some s"
| "fold_opt f (x # xs) s = Option.bind (f x s) (fold_opt f xs)"

text \<open>Leaving a block drops the variables it declared.\<close>

definition leave :: "gframe \<Rightarrow> gframe \<Rightarrow> gframe" where
  "leave fr fr' = fr\<lparr>gf_dst := gf_dst fr', gf_size := gf_size fr'\<rparr>"

definition append_dst :: "byte list \<Rightarrow> gframe \<Rightarrow> gframe" where
  "append_dst bs fr = fr\<lparr>gf_dst := gf_dst fr @ bs\<rparr>"

definition add_size :: "nat \<Rightarrow> gframe \<Rightarrow> gframe" where
  "add_size n fr = fr\<lparr>gf_size := gf_size fr + n\<rparr>"

definition bind_val :: "string \<Rightarrow> val \<Rightarrow> gframe \<Rightarrow> gframe" where
  "bind_val x v fr = fr\<lparr>gf_vals := (gf_vals fr)(x \<mapsto> v)\<rparr>"

definition bind_int :: "string \<Rightarrow> nat \<Rightarrow> gframe \<Rightarrow> gframe" where
  "bind_int x n fr = fr\<lparr>gf_ints := (gf_ints fr)(x \<mapsto> n)\<rparr>"

abbreviation eval_len :: "gframe \<Rightarrow> gexpr \<Rightarrow> nat option" where
  "eval_len fr e \<equiv> Option.bind (eval fr e) val_len"

abbreviation eval_elems :: "gframe \<Rightarrow> gexpr \<Rightarrow> val list option" where
  "eval_elems fr e \<equiv> Option.bind (eval fr e) val_elems"

fun exec :: "gcalls \<Rightarrow> gstmt \<Rightarrow> gframe \<Rightarrow> gframe option"
  and execs :: "gcalls \<Rightarrow> gstmt list \<Rightarrow> gframe \<Rightarrow> gframe option" where
  "exec C (Comment s) fr = Some fr"
| "exec C Blank fr = Some fr"
| "exec C DstIsBuf fr = Some (fr\<lparr>gf_dst := gf_buf fr\<rparr>)"
| "exec C (DeclLen x) fr = Some (bind_int x (length (gf_dst fr)) fr)"
| "exec C (AppendByte e) fr =
     (case eval fr e of Some (VUint n) \<Rightarrow> Some (append_dst (le_bytes 1 n) fr) | _ \<Rightarrow> None)"
| "exec C (AppendConst b) fr = Some (append_dst [if b then 1 else 0] fr)"
| "exec C AppendZeros fr = Some (append_dst [0, 0, 0, 0] fr)"
| "exec C (AppendSlice e) fr =
     (case eval fr e of Some (VBytes bs) \<Rightarrow> Some (append_dst bs fr) | _ \<Rightarrow> None)"
| "exec C (AppendArray e) fr =
     (case eval fr e of Some (VBytes bs) \<Rightarrow> Some (append_dst bs fr) | _ \<Rightarrow> None)"
| "exec C (AppendUint w e) fr =
     (case eval fr e of Some (VUint n) \<Rightarrow> Some (append_dst (le_bytes (w div 8) n) fr) | _ \<Rightarrow> None)"
| "exec C (PutLen p base) fr =
     (case pos_at fr p of
        None \<Rightarrow> None
      | Some pos \<Rightarrow>
          (case gf_ints fr base of
             None \<Rightarrow> None
           | Some b \<Rightarrow>
               map_option (\<lambda>d. fr\<lparr>gf_dst := d\<rparr>)
                 (put_bytes pos (le_bytes 4 (length (gf_dst fr) - b)) (gf_dst fr))))"
| "exec C (IfElse e a b) fr =
     (case eval fr e of
        Some (VBool c) \<Rightarrow> map_option (leave fr) (if c then execs C a fr else execs C b fr)
      | _ \<Rightarrow> None)"
| "exec C (ForIndex i e b) fr =
     Option.bind (eval_len fr e) (\<lambda>n.
       fold_opt (\<lambda>k f. map_option (leave f) (execs C b (bind_int i k f))) [0..<n] fr)"
| "exec C (ForValue x e b) fr =
     Option.bind (eval_elems fr e) (\<lambda>xs.
       fold_opt (\<lambda>v f. map_option (leave f) (execs C b (bind_val x v f))) xs fr)"
| "exec C (ForEach e b) fr =
     Option.bind (eval_len fr e) (\<lambda>n.
       fold_opt (\<lambda>k f. map_option (leave f) (execs C b f)) [0..<n] fr)"
| "exec C (ForBoth i x e b) fr =
     Option.bind (eval_elems fr e) (\<lambda>xs.
       fold_opt (\<lambda>(k, v) f. map_option (leave f) (execs C b (bind_int i k (bind_val x v f))))
         (enumerate 0 xs) fr)"
| "exec C (Block b) fr = map_option (leave fr) (execs C b fr)"
| "exec C (MarshalInto e) fr =
     (case eval fr e of
        Some (VStruct s vs) \<Rightarrow>
          map_option (\<lambda>d. fr\<lparr>gf_dst := d\<rparr>) (call_marshal C s vs (gf_dst fr))
      | _ \<Rightarrow> None)"
| "exec C (SizeInit n) fr = Some (fr\<lparr>gf_size := n\<rparr>)"
| "exec C (SizeAddMul e k) fr = map_option (\<lambda>n. add_size (n * k) fr) (eval_len fr e)"
| "exec C (SizeAddLen e) fr = map_option (\<lambda>n. add_size n fr) (eval_len fr e)"
| "exec C (SizeAddCall e) fr =
     (case eval fr e of
        Some (VStruct s vs) \<Rightarrow> map_option (\<lambda>n. add_size n fr) (call_size C s vs)
      | _ \<Rightarrow> None)"
| "execs C [] fr = Some fr"
| "execs C (s # ss) fr = Option.bind (exec C s fr) (execs C ss)"

lemma execs_append [simp]:
  "execs C (xs @ ys) fr = Option.bind (execs C xs fr) (execs C ys)"
proof (induction xs arbitrary: fr)
  case (Cons x xs)
  then show ?case by (cases "exec C x fr") auto
qed simp

section \<open>Programs\<close>

text \<open>What is emitted for one struct: its members and the bodies of the two methods.\<close>

record gdecl =
  gd_members :: "string list"
  gd_marshal :: "gstmt list"
  gd_size :: "gstmt list"

type_synonym gprogram = "string \<rightharpoonup> gdecl"

definition new_frame :: "gdecl \<Rightarrow> val list \<Rightarrow> byte list \<Rightarrow> gframe" where
  "new_frame d vs buf =
     \<lparr>gf_members = gd_members d, gf_recv = vs, gf_vals = Map.empty, gf_ints = Map.empty,
      gf_buf = buf, gf_dst = [], gf_size = 0\<rparr>"

text \<open>
  Method calls: the first argument bounds their nesting, which the values bound in turn.
\<close>

fun MarshalSSZTo :: "gprogram \<Rightarrow> nat \<Rightarrow> string \<Rightarrow> val list \<Rightarrow> byte list \<Rightarrow> byte list option"
  and SizeSSZ :: "gprogram \<Rightarrow> nat \<Rightarrow> string \<Rightarrow> val list \<Rightarrow> nat option" where
  "MarshalSSZTo prog 0 s vs buf = None"
| "MarshalSSZTo prog (Suc n) s vs buf =
     (case prog s of
        None \<Rightarrow> None
      | Some d \<Rightarrow>
          map_option gf_dst
            (execs \<lparr>call_marshal = MarshalSSZTo prog n, call_size = SizeSSZ prog n\<rparr>
               (gd_marshal d) (new_frame d vs buf)))"
| "SizeSSZ prog 0 s vs = None"
| "SizeSSZ prog (Suc n) s vs =
     (case prog s of
        None \<Rightarrow> None
      | Some d \<Rightarrow>
          map_option gf_size
            (execs \<lparr>call_marshal = MarshalSSZTo prog n, call_size = SizeSSZ prog n\<rparr>
               (gd_size d) (new_frame d vs [])))"

end
