(* ===== verification/Ssz_Merkle.thy ===== *)
theory Ssz_Merkle
  imports Ssz_Spec
begin

text \<open>
  Merkleization after the consensus specification: chunks, zero-padded binary trees, length
  mix-ins and the hash tree root of a value.  The hash function and the merkleization of
  progressive containers and lists are parameters: \<open>H\<close> hashes 64 bytes to 32, \<open>PR\<close> gives the
  root of a sequence of chunks under EIP-7916.
  The contract of a hasher, on which the emitted code runs, is the locale \<open>hash_walker\<close>.
\<close>

section \<open>Chunks\<close>

type_synonym chunk = "byte list"
type_synonym hash_fun = "byte list \<Rightarrow> chunk"

definition zero_chunk :: chunk where
  "zero_chunk = replicate 32 0"

definition pad_chunk :: "byte list \<Rightarrow> chunk" where
  "pad_chunk bs = bs @ replicate (32 - length bs) 0"

fun chunks :: "byte list \<Rightarrow> chunk list" where
  "chunks [] = []"
| "chunks (b # bs) = pad_chunk (b # take 31 bs) # chunks (drop 31 bs)"

text \<open>The bytes, padded to whole chunks.\<close>

definition pad32 :: "byte list \<Rightarrow> byte list" where
  "pad32 bs = concat (chunks bs)"

lemma chunks_step: "bs \<noteq> [] \<Longrightarrow> chunks bs = pad_chunk (take 32 bs) # chunks (drop 32 bs)"
  by (cases bs) simp_all

lemma length_pad_chunk: "length bs \<le> 32 \<Longrightarrow> length (pad_chunk bs) = 32"
  by (simp add: pad_chunk_def)

lemma chunk_length: "c \<in> set (chunks bs) \<Longrightarrow> length c = 32"
  by (induction bs rule: chunks.induct) (auto simp: length_pad_chunk)

lemma length_chunks: "length (chunks bs) = (length bs + 31) div 32"
proof (induction bs rule: chunks.induct)
  case (2 b bs)
  then show ?case by (cases "length bs \<le> 31") (auto simp: div_if)
qed simp

lemma length_pad32: "length (pad32 bs) = 32 * ((length bs + 31) div 32)"
proof -
  have "sum_list (map length (chunks bs)) = length (chunks bs) * 32"
    by (rule sum_list_const) (rule chunk_length)
  then show ?thesis by (simp add: pad32_def length_concat length_chunks)
qed

lemma dvd_pad32 [simp]: "32 dvd length (pad32 bs)"
  by (simp add: length_pad32)

lemma chunks_whole: "length bs = 32 \<Longrightarrow> chunks bs = [bs]"
  by (subst chunks_step) (auto simp: pad_chunk_def)

lemma chunks_append: "32 dvd length as \<Longrightarrow> chunks (as @ bs) = chunks as @ chunks bs"
proof (induction as rule: length_induct)
  case (1 as)
  show ?case
  proof (cases "as = []")
    case False
    with 1(2) have len: "32 \<le> length as" by (simp add: dvd_imp_le)
    then have "length (drop 32 as) < length as" "32 dvd length (drop 32 as)"
      using 1(2) by (auto simp: dvd_diff_nat)
    with 1(1) have "chunks (drop 32 as @ bs) = chunks (drop 32 as) @ chunks bs" by blast
    with False len show ?thesis by (simp add: chunks_step)
  qed simp
qed

lemma chunks_concat: "\<forall>c \<in> set cs. length c = 32 \<Longrightarrow> chunks (concat cs) = cs"
  by (induction cs) (auto simp: chunks_append chunks_whole)

lemma chunks_pad32 [simp]: "chunks (pad32 bs) = chunks bs"
  unfolding pad32_def by (rule chunks_concat) (simp add: chunk_length)

lemma pad32_append: "32 dvd length as \<Longrightarrow> pad32 (as @ bs) = as @ pad32 bs"
proof -
  assume d: "32 dvd length as"
  have "concat (chunks as) = as" using d
  proof (induction as rule: length_induct)
    case (1 as)
    show ?case
    proof (cases "as = []")
      case False
      with 1(2) have len: "32 \<le> length as" by (simp add: dvd_imp_le)
      then have "length (drop 32 as) < length as" "32 dvd length (drop 32 as)"
        using 1(2) False by (auto simp: dvd_diff_nat)
      with 1(1) have "concat (chunks (drop 32 as)) = drop 32 as" by blast
      with False len show ?thesis by (simp add: chunks_step pad_chunk_def)
    qed simp
  qed
  then show ?thesis by (simp add: pad32_def chunks_append [OF d])
qed

lemma pad32_whole: "32 dvd length as \<Longrightarrow> pad32 as = as"
  using pad32_append [of as "[]"] by (simp add: pad32_def)

lemma pad32_zeros: "pad32 bs = bs @ replicate ((32 - length bs mod 32) mod 32) 0"
proof -
  define n where "n = 32 * (length bs div 32)"
  have le: "n \<le> length bs" "32 dvd n" unfolding n_def by simp_all
  then have n: "32 dvd length (take n bs)" "length (drop n bs) = length bs mod 32"
    unfolding n_def by (simp_all add: minus_mult_div_eq_mod)
  have "pad32 (drop n bs) = drop n bs @ replicate ((32 - length bs mod 32) mod 32) 0"
  proof (cases "drop n bs = []")
    case True
    then have "length bs mod 32 = 0" using n(2) by (metis list.size(3))
    with True show ?thesis by (simp add: pad32_def)
  next
    case False
    then have pos: "0 < length bs mod 32" using n(2) by (metis length_greater_0_conv)
    have lt: "length bs mod 32 < 32" by simp
    have "take 32 (drop n bs) = drop n bs" "drop 32 (drop n bs) = []"
      using n(2) lt by (simp_all del: drop_drop)
    with False have "pad32 (drop n bs) = pad_chunk (drop n bs)"
      unfolding pad32_def by (subst chunks_step) simp_all
    with n(2) pos lt show ?thesis by (simp add: pad_chunk_def)
  qed
  with pad32_append [OF n(1), of "drop n bs"] show ?thesis
    by (metis append.assoc append_take_drop_id)
qed

section \<open>Trees\<close>

fun zero_hash :: "hash_fun \<Rightarrow> nat \<Rightarrow> chunk" where
  "zero_hash H 0 = zero_chunk"
| "zero_hash H (Suc d) = H (zero_hash H d @ zero_hash H d)"

text \<open>The root of the tree of depth \<open>d\<close> over some chunks and zero chunks behind them.\<close>

fun merkle_tree :: "hash_fun \<Rightarrow> nat \<Rightarrow> chunk list \<Rightarrow> chunk" where
  "merkle_tree H 0 cs = (case cs of [] \<Rightarrow> zero_chunk | c # _ \<Rightarrow> c)"
| "merkle_tree H (Suc d) cs = H (merkle_tree H d (take (2 ^ d) cs) @ merkle_tree H d (drop (2 ^ d) cs))"

text \<open>The depth of the smallest tree with \<open>n\<close> leaves.\<close>

fun depth_of :: "nat \<Rightarrow> nat" where
  "depth_of n = (if n \<le> 1 then 0 else Suc (depth_of ((n + 1) div 2)))"

declare depth_of.simps [simp del]

lemma depth_of_bound: "n \<le> 2 ^ depth_of n"
proof (induction n rule: depth_of.induct)
  case (1 n)
  show ?case
  proof (cases "n \<le> 1")
    case True
    then show ?thesis by (simp add: depth_of.simps)
  next
    case False
    with 1 have "(n + 1) div 2 \<le> 2 ^ depth_of ((n + 1) div 2)" by simp
    then have "n \<le> 2 * 2 ^ depth_of ((n + 1) div 2)" by linarith
    with False show ?thesis by (subst depth_of.simps) simp
  qed
qed

lemma depth_of_least: "n \<le> 2 ^ d \<Longrightarrow> depth_of n \<le> d"
proof (induction n arbitrary: d rule: depth_of.induct)
  case (1 n)
  show ?case
  proof (cases "n \<le> 1")
    case True
    then show ?thesis by (simp add: depth_of.simps)
  next
    case False
    with 1(2) obtain e where d: "d = Suc e" by (cases d) auto
    with 1(2) have "(n + 1) div 2 \<le> 2 ^ e" by simp
    with 1(1) False have "depth_of ((n + 1) div 2) \<le> e" by simp
    with False d show ?thesis by (subst depth_of.simps) simp
  qed
qed

text \<open>\<open>merkleize(chunks, limit)\<close>, for at most \<open>limit\<close> chunks.\<close>

definition merkleize :: "hash_fun \<Rightarrow> nat \<Rightarrow> chunk list \<Rightarrow> chunk" where
  "merkleize H limit cs = merkle_tree H (depth_of limit) cs"

definition mix_in_length :: "hash_fun \<Rightarrow> chunk \<Rightarrow> nat \<Rightarrow> chunk" where
  "mix_in_length H root n = H (root @ le_bytes 32 n)"

lemma merkle_tree_Nil: "merkle_tree H d [] = zero_hash H d"
  by (induction d) auto

lemma length_merkle_tree:
  "(\<And>x. length (H x) = 32) \<Longrightarrow> \<forall>c \<in> set cs. length c = 32 \<Longrightarrow> length (merkle_tree H d cs) = 32"
  by (cases d) (auto simp: zero_chunk_def split: list.split)

lemma length_merkleize:
  "(\<And>x. length (H x) = 32) \<Longrightarrow> \<forall>c \<in> set cs. length c = 32 \<Longrightarrow> length (merkleize H l cs) = 32"
  unfolding merkleize_def by (rule length_merkle_tree)

section \<open>Hash tree roots\<close>

text \<open>
  A bit list is kept with its terminating bit, the highest one of its last byte; without it the
  bits remain, and their number.
\<close>

fun bit_length :: "nat \<Rightarrow> nat" where
  "bit_length n = (if n = 0 then 0 else Suc (bit_length (n div 2)))"

declare bit_length.simps [simp del]

lemma bit_length_0 [simp]: "bit_length 0 = 0"
  by (simp add: bit_length.simps)

lemma bit_length_bounds: "0 < n \<Longrightarrow> 0 < bit_length n \<and> 2 ^ (bit_length n - 1) \<le> n \<and> n < 2 ^ bit_length n"
proof (induction n rule: bit_length.induct)
  case (1 n)
  have step: "bit_length n = Suc (bit_length (n div 2))" using 1(2) by (subst bit_length.simps) simp
  show ?case
  proof (cases "n div 2 = 0")
    case True
    then have "n = 1" using 1(2) by linarith
    with step show ?thesis by simp
  next
    case False
    with 1 have IH: "0 < bit_length (n div 2)" "2 ^ (bit_length (n div 2) - 1) \<le> n div 2"
      "n div 2 < 2 ^ bit_length (n div 2)" by simp_all
    then have "(2::nat) ^ bit_length (n div 2) = 2 * 2 ^ (bit_length (n div 2) - 1)"
      by (cases "bit_length (n div 2)") auto
    with IH have "2 ^ bit_length (n div 2) \<le> n" "n < 2 * 2 ^ bit_length (n div 2)" by linarith+
    with step show ?thesis by simp
  qed
qed

lemma bit_length_le: "n < 2 ^ k \<Longrightarrow> bit_length n \<le> k"
proof (cases "n = 0")
  case False
  then have "2 ^ (bit_length n - 1) \<le> n" "0 < bit_length n" using bit_length_bounds [of n] by auto
  moreover assume "n < 2 ^ k"
  ultimately have "(2::nat) ^ (bit_length n - 1) < 2 ^ k" by linarith
  then have "bit_length n - 1 < k" by simp
  with \<open>0 < bit_length n\<close> show ?thesis by simp
qed simp

definition top_bit :: "byte \<Rightarrow> nat" where
  "top_bit b = bit_length (unat b) - 1"

definition bitlist_len :: "byte list \<Rightarrow> nat" where
  "bitlist_len bs = 8 * (length bs - 1) + top_bit (last bs)"

definition bitlist_bits :: "byte list \<Rightarrow> byte list" where
  "bitlist_bits bs =
     take ((bitlist_len bs + 7) div 8) (butlast bs @ [of_nat (unat (last bs) - 2 ^ top_bit (last bs))])"

definition bitlist_ok :: "nat \<Rightarrow> byte list \<Rightarrow> bool" where
  "bitlist_ok limit bs \<longleftrightarrow> bs \<noteq> [] \<and> last bs \<noteq> 0 \<and> bitlist_len bs \<le> limit"

definition bitlist_root :: "hash_fun \<Rightarrow> nat \<Rightarrow> byte list \<Rightarrow> chunk" where
  "bitlist_root H limit bs =
     mix_in_length H (merkleize H ((limit + 255) div 256) (chunks (bitlist_bits bs))) (bitlist_len bs)"

fun is_basic :: "ssz_ty \<Rightarrow> bool" where
  "is_basic TBool = True"
| "is_basic (TUint k) = True"
| "is_basic t = False"

text \<open>
  The leaves of a container: the roots of the fields; for a progressive one the roots at their
  tree indices, and zero chunks elsewhere.
\<close>

definition leaves_at :: "nat list \<Rightarrow> chunk list \<Rightarrow> chunk list" where
  "leaves_at idx rs =
     map (\<lambda>i. case map_of (zip idx rs) i of None \<Rightarrow> zero_chunk | Some r \<Rightarrow> r) [0..<Suc (fold max idx 0)]"

text \<open>The bit vector of the active indices, in bytes.\<close>

definition active_bits :: "nat list \<Rightarrow> byte list" where
  "active_bits idx =
     map (\<lambda>k. of_nat (sum_list (map (\<lambda>j. if 8 * k + j \<in> set idx then 2 ^ j else 0) [0..<8])))
       [0..<fold max idx 0 div 8 + 1]"

text \<open>
  \<open>L\<close> gives the tree indices of the fields of the containers that are progressive.
\<close>

fun hash_tree_root :: "hash_fun \<Rightarrow> (chunk list \<Rightarrow> chunk) \<Rightarrow> (string \<rightharpoonup> nat list) \<Rightarrow> ssz_ty \<Rightarrow> val \<Rightarrow> chunk"
  and field_roots :: "hash_fun \<Rightarrow> (chunk list \<Rightarrow> chunk) \<Rightarrow> (string \<rightharpoonup> nat list) \<Rightarrow>
    (string \<times> ssz_ty) list \<Rightarrow> val list \<Rightarrow> chunk list" where
  "hash_tree_root H PR L (TVector t n) (VBytes bs) = merkleize H ((n + 31) div 32) (chunks bs)"
| "hash_tree_root H PR L (TVector t n) (VSeq xs) =
     (if is_basic t then merkleize H ((n * fixed_len t + 31) div 32) (chunks (concat (map (serialize t) xs)))
      else merkleize H n (map (hash_tree_root H PR L t) xs))"
| "hash_tree_root H PR L (TList t l) (VBytes bs) =
     mix_in_length H (merkleize H ((l + 31) div 32) (chunks bs)) (length bs)"
| "hash_tree_root H PR L (TList t l) (VSeq xs) =
     mix_in_length H
       (if is_basic t then merkleize H ((l * fixed_len t + 31) div 32) (chunks (concat (map (serialize t) xs)))
        else merkleize H l (map (hash_tree_root H PR L t) xs)) (length xs)"
| "hash_tree_root H PR L (TProgressiveList t) (VBytes bs) = mix_in_length H (PR (chunks bs)) (length bs)"
| "hash_tree_root H PR L (TProgressiveList t) (VSeq xs) =
     mix_in_length H
       (if is_basic t then PR (chunks (concat (map (serialize t) xs)))
        else PR (map (hash_tree_root H PR L t) xs)) (length xs)"
| "hash_tree_root H PR L (TBitvector n) (VBytes bs) = merkleize H ((n + 255) div 256) (chunks bs)"
| "hash_tree_root H PR L (TBitlist l) (VBytes bs) = bitlist_root H l bs"
| "hash_tree_root H PR L (TContainer s fs) (VStruct s' vs) =
     (let rs = field_roots H PR L fs vs in
      case L s of
        None \<Rightarrow> merkleize H (length rs) rs
      | Some idx \<Rightarrow> H (PR (leaves_at idx rs) @ pad_chunk (active_bits idx)))"
| "hash_tree_root H PR L t v = pad32 (serialize t v)"
| "field_roots H PR L ((n, t) # fs) (v # vs) = hash_tree_root H PR L t v # field_roots H PR L fs vs"
| "field_roots H PR L fs vs = []"

text \<open>A value within the limits of its type.\<close>

fun within :: "ssz_ty \<Rightarrow> val \<Rightarrow> bool"
  and all_within :: "(string \<times> ssz_ty) list \<Rightarrow> val list \<Rightarrow> bool" where
  "within (TVector t n) (VSeq xs) = (\<forall>x \<in> set xs. within t x)"
| "within (TList t l) (VBytes bs) = (length bs \<le> l)"
| "within (TList t l) (VSeq xs) = (length xs \<le> l \<and> (\<forall>x \<in> set xs. within t x))"
| "within (TProgressiveList t) (VBytes bs) = (length bs < 2 ^ 64)"
| "within (TProgressiveList t) (VSeq xs) = (length xs < 2 ^ 64 \<and> (\<forall>x \<in> set xs. within t x))"
| "within (TBitlist l) (VBytes bs) = bitlist_ok l bs"
| "within (TContainer s fs) (VStruct s' vs) = all_within fs vs"
| "within t v = True"
| "all_within ((n, t) # fs) (v # vs) = (within t v \<and> all_within fs vs)"
| "all_within fs vs = True"


text \<open>
  The interface between the emitted \<open>HashTreeRootWith\<close> and the hasher it is given: the
  operations the emitted code calls, and what a hasher promises of them.  A hasher keeps a
  growing buffer, \<open>content\<close>; merkleizing from an index replaces the chunks from there on by
  their root.  An operation returns \<open>None\<close> where it panics.
\<close>

section \<open>Operations\<close>

record 's walker =
  w_index :: "'s \<Rightarrow> nat"
  w_put_bool :: "bool \<Rightarrow> 's \<Rightarrow> 's option"
  w_put_uint :: "nat \<Rightarrow> nat \<Rightarrow> 's \<Rightarrow> 's option" \<comment> \<open>width in bits, value\<close>
  w_put_bytes :: "byte list \<Rightarrow> 's \<Rightarrow> 's option"
  w_put_bitlist :: "byte list \<Rightarrow> nat \<Rightarrow> 's \<Rightarrow> 's option"
  w_append_bool :: "bool \<Rightarrow> 's \<Rightarrow> 's option"
  w_append_uint :: "nat \<Rightarrow> nat \<Rightarrow> 's \<Rightarrow> 's option"
  w_append_bytes32 :: "byte list \<Rightarrow> 's \<Rightarrow> 's option"
  w_fill_up_to_32 :: "'s \<Rightarrow> 's option"
  w_merkleize :: "nat \<Rightarrow> 's \<Rightarrow> 's option"
  w_merkleize_with_mixin :: "nat \<Rightarrow> nat \<Rightarrow> nat \<Rightarrow> 's \<Rightarrow> 's option"
  w_merkleize_progressive_with_mixin :: "nat \<Rightarrow> nat \<Rightarrow> 's \<Rightarrow> 's option"
  w_merkleize_progressive_with_active_fields :: "nat \<Rightarrow> byte list \<Rightarrow> 's \<Rightarrow> 's option"
  w_put_zero_hash :: "'s \<Rightarrow> 's option" \<comment> \<open>called by the code of the Rust back end only\<close>

text \<open>An operation that succeeds and leaves the given content.\<close>

definition leaves :: "('s \<Rightarrow> byte list) \<Rightarrow> 's option \<Rightarrow> byte list \<Rightarrow> bool" where
  "leaves content r bs \<longleftrightarrow> (\<exists>s'. r = Some s' \<and> content s' = bs)"

text \<open>The content \<open>bs\<close> with the chunks from index \<open>i\<close> on replaced by a root made from them.\<close>

definition rooted :: "nat \<Rightarrow> (chunk list \<Rightarrow> chunk) \<Rightarrow> byte list \<Rightarrow> byte list" where
  "rooted i f bs = take i bs @ f (chunks (drop i bs))"

lemma rooted_append: "rooted (length bs) f (bs @ as) = bs @ f (chunks as)"
  by (simp add: rooted_def)

definition word_bits :: "nat set" where
  "word_bits = {8, 16, 32, 64}"

section \<open>The contract\<close>

locale hash_walker =
  fixes W :: "'s walker" and content :: "'s \<Rightarrow> byte list" and H :: hash_fun and PR :: "chunk list \<Rightarrow> chunk"
  assumes hash_len: "length (H bs) = 32"
    and progressive_len: "\<forall>c \<in> set cs. length c = 32 \<Longrightarrow> length (PR cs) = 32"
    and index: "w_index W s = length (content s)"
    and put_bool: "leaves content (w_put_bool W b s) (content s @ pad32 [if b then 1 else 0])"
    and put_uint: "w \<in> word_bits \<Longrightarrow>
      leaves content (w_put_uint W w n s) (content s @ pad32 (le_bytes (w div 8) n))"
    and put_bytes: "bs \<noteq> [] \<Longrightarrow> 32 dvd length (content s) \<Longrightarrow>
      leaves content (w_put_bytes W bs s) (content s @ merkleize H (length (chunks bs)) (chunks bs))"
    and put_bitlist: "bitlist_ok limit bs \<Longrightarrow> limit < 2 ^ 64 - 255 \<Longrightarrow> bitlist_len bs < 2 ^ 64 \<Longrightarrow>
      32 dvd length (content s) \<Longrightarrow>
      leaves content (w_put_bitlist W bs limit s) (content s @ bitlist_root H limit bs)"
    and append_bool: "leaves content (w_append_bool W b s) (content s @ [if b then 1 else 0])"
    and append_uint: "w \<in> word_bits \<Longrightarrow>
      leaves content (w_append_uint W w n s) (content s @ le_bytes (w div 8) n)"
    and append_bytes32: "leaves content (w_append_bytes32 W bs s) (content s @ pad32 bs)"
    and fill_up_to_32: "leaves content (w_fill_up_to_32 W s) (pad32 (content s))"
    and merkleize: "32 dvd i \<Longrightarrow> i \<le> length (content s) \<Longrightarrow> 32 dvd length (content s) \<Longrightarrow>
      leaves content (w_merkleize W i s) (rooted i (\<lambda>cs. merkleize H (length cs) cs) (content s))"
    and merkleize_with_mixin: "32 dvd i \<Longrightarrow> i \<le> length (content s) \<Longrightarrow> 32 dvd length (content s) \<Longrightarrow>
      n < 2 ^ 64 \<Longrightarrow> limit \<le> 2 ^ 63 \<Longrightarrow> length (chunks (drop i (content s))) \<le> limit \<Longrightarrow>
      leaves content (w_merkleize_with_mixin W i n limit s)
        (rooted i (\<lambda>cs. mix_in_length H (merkleize H limit cs) n) (content s))"
    and merkleize_progressive_with_mixin: "32 dvd i \<Longrightarrow> i \<le> length (content s) \<Longrightarrow>
      32 dvd length (content s) \<Longrightarrow> n < 2 ^ 64 \<Longrightarrow>
      leaves content (w_merkleize_progressive_with_mixin W i n s)
        (rooted i (\<lambda>cs. mix_in_length H (PR cs) n) (content s))"
    and merkleize_progressive_with_active_fields: "32 dvd i \<Longrightarrow> i \<le> length (content s) \<Longrightarrow>
      32 dvd length (content s) \<Longrightarrow> length bits \<le> 32 \<Longrightarrow>
      leaves content (w_merkleize_progressive_with_active_fields W i bits s)
        (rooted i (\<lambda>cs. H (PR cs @ pad_chunk bits)) (content s))"

end
