(* ===== verification/Go_Hash_Lang.thy ===== *)
theory Go_Hash_Lang
  imports Go_Lang Go_Names Ssz_Merkle
begin

text \<open>
  The part of the Go language that the emitted \<open>HashTreeRootWith\<close> methods use: its syntax, the
  text of a statement and what a statement does with the hasher \<open>hh\<close> it is given.  Expressions
  and frames are those of \<open>Go_Lang\<close>; execution returns \<open>None\<close> where Go or the hasher panics.
\<close>

section \<open>Syntax\<close>

datatype hstmt =
    HNote string
  | HBlank
  | HIndex string
  | HPutBool gexpr
  | HPutUint nat gexpr
  | HPutZero
  | HPutArray gexpr
  | HPutBitlist gexpr u64
  | HAppendBool gexpr
  | HAppendUint nat gexpr
  | HAppendBytes32 gexpr
  | HFill
  | HMerkleize string
  | HMixin string gexpr u64
  | HProgMixin string gexpr
  | HProgActive string "byte list"
  | HFor string gexpr "hstmt list"
  | HForVal string gexpr "hstmt list"
  | HBlk "hstmt list"
  | HCall gexpr
  | HPutZeroHash \<comment> \<open>not emitted by the Go back end\<close>

section \<open>Text\<close>

text \<open>\<open>snprintf\<close> with \<open>0x%02x\<close>.\<close>

definition hex_digit :: "nat \<Rightarrow> char" where
  "hex_digit d = char_of (if d < 10 then 48 + d else 87 + d)"

definition hex_byte :: "byte \<Rightarrow> string" where
  "hex_byte b = ''0x'' @ [hex_digit (unat b div 16), hex_digit (unat b mod 16)]"

fun comma_list :: "string list \<Rightarrow> string" where
  "comma_list [] = []"
| "comma_list [s] = s"
| "comma_list (s # t # r) = s @ '', '' @ comma_list (t # r)"

fun pp_hstmt :: "string \<Rightarrow> hstmt \<Rightarrow> string"
  and pp_hstmts :: "string \<Rightarrow> hstmt list \<Rightarrow> string" where
  "pp_hstmt ind (HNote s) = line ind (''// '' @ s)"
| "pp_hstmt ind HBlank = nl"
| "pp_hstmt ind (HIndex x) = line ind (x @ '' := hh.Index()'')"
| "pp_hstmt ind (HPutBool e) = line ind (''hh.PutBool('' @ pp_expr e @ '')'')"
| "pp_hstmt ind (HPutUint w e) = line ind (''hh.PutUint'' @ NumToString w @ ''('' @ pp_expr e @ '')'')"
| "pp_hstmt ind HPutZero = line ind ''hh.PutUint8(0)''"
| "pp_hstmt ind (HPutArray e) = line ind (''hh.PutBytes('' @ pp_expr e @ ''[:])'')"
| "pp_hstmt ind (HPutBitlist e l) = line ind (''hh.PutBitlist('' @ pp_expr e @ '', '' @ num64 l @ '')'')"
| "pp_hstmt ind (HAppendBool e) = line ind (''hh.AppendBool('' @ pp_expr e @ '')'')"
| "pp_hstmt ind (HAppendUint w e) =
     line ind (''hh.AppendUint'' @ NumToString w @ ''('' @ pp_expr e @ '')'')"
| "pp_hstmt ind (HAppendBytes32 e) = line ind (''hh.AppendBytes32('' @ pp_expr e @ '')'')"
| "pp_hstmt ind HFill = line ind ''hh.FillUpTo32()''"
| "pp_hstmt ind (HMerkleize x) = line ind (''hh.Merkleize('' @ x @ '')'')"
| "pp_hstmt ind (HMixin x e l) =
     line ind (''hh.MerkleizeWithMixin('' @ x @ '', uint64(len('' @ pp_expr e @ '')), '' @ num64 l @ '')'')"
| "pp_hstmt ind (HProgMixin x e) =
     line ind (''hh.MerkleizeProgressiveWithMixin('' @ x @ '', uint64(len('' @ pp_expr e @ '')))'')"
| "pp_hstmt ind (HProgActive x bs) =
     line ind (''hh.MerkleizeProgressiveWithActiveFields('' @ x @ '', []byte{'' @
       comma_list (map hex_byte bs) @ ''})'')"
| "pp_hstmt ind (HFor i e b) =
     line ind (''for '' @ i @ '' := range '' @ pp_expr e @ '' {'') @ pp_hstmts (ind @ tab) b @ line ind ''}''"
| "pp_hstmt ind (HForVal x e b) =
     line ind (''for _, '' @ x @ '' := range '' @ pp_expr e @ '' {'') @ pp_hstmts (ind @ tab) b @ line ind ''}''"
| "pp_hstmt ind (HBlk b) = line ind ''{'' @ pp_hstmts (ind @ tab) b @ line ind ''}''"
| "pp_hstmt ind (HCall e) =
     line ind (''if err := '' @ pp_expr e @ ''.HashTreeRootWith(hh); err != nil {'') @
     line (ind @ tab) ''return err'' @ line ind ''}''"
| "pp_hstmt ind HPutZeroHash = []"
| "pp_hstmts ind [] = []"
| "pp_hstmts ind (s # ss) = pp_hstmt ind s @ pp_hstmts ind ss"

lemma pp_hstmts_append [simp]: "pp_hstmts ind (xs @ ys) = pp_hstmts ind xs @ pp_hstmts ind ys"
  by (induction xs) auto

section \<open>Execution\<close>

text \<open>\<open>C\<close> is the \<open>HashTreeRootWith\<close> of the other structs.\<close>

type_synonym 's hcalls = "string \<Rightarrow> val list \<Rightarrow> 's \<Rightarrow> 's option"

definition with_frame :: "gframe \<Rightarrow> 's option \<Rightarrow> (gframe \<times> 's) option" where
  "with_frame fr r = map_option (Pair fr) r"

fun hexec :: "'s walker \<Rightarrow> 's hcalls \<Rightarrow> hstmt \<Rightarrow> gframe \<times> 's \<Rightarrow> (gframe \<times> 's) option"
  and hexecs :: "'s walker \<Rightarrow> 's hcalls \<Rightarrow> hstmt list \<Rightarrow> gframe \<times> 's \<Rightarrow> (gframe \<times> 's) option" where
  "hexec W C (HNote t) (fr, s) = Some (fr, s)"
| "hexec W C HBlank (fr, s) = Some (fr, s)"
| "hexec W C (HIndex x) (fr, s) = Some (bind_int x (w_index W s) fr, s)"
| "hexec W C (HPutBool e) (fr, s) =
     (case eval fr e of Some (VBool b) \<Rightarrow> with_frame fr (w_put_bool W b s) | _ \<Rightarrow> None)"
| "hexec W C (HPutUint w e) (fr, s) =
     (case eval fr e of Some (VUint n) \<Rightarrow> with_frame fr (w_put_uint W w n s) | _ \<Rightarrow> None)"
| "hexec W C HPutZero (fr, s) = with_frame fr (w_put_uint W 8 0 s)"
| "hexec W C (HPutArray e) (fr, s) =
     (case eval fr e of Some (VBytes bs) \<Rightarrow> with_frame fr (w_put_bytes W bs s) | _ \<Rightarrow> None)"
| "hexec W C (HPutBitlist e l) (fr, s) =
     (case eval fr e of Some (VBytes bs) \<Rightarrow> with_frame fr (w_put_bitlist W bs (unat l) s) | _ \<Rightarrow> None)"
| "hexec W C (HAppendBool e) (fr, s) =
     (case eval fr e of Some (VBool b) \<Rightarrow> with_frame fr (w_append_bool W b s) | _ \<Rightarrow> None)"
| "hexec W C (HAppendUint w e) (fr, s) =
     (case eval fr e of Some (VUint n) \<Rightarrow> with_frame fr (w_append_uint W w n s) | _ \<Rightarrow> None)"
| "hexec W C (HAppendBytes32 e) (fr, s) =
     (case eval fr e of Some (VBytes bs) \<Rightarrow> with_frame fr (w_append_bytes32 W bs s) | _ \<Rightarrow> None)"
| "hexec W C HFill (fr, s) = with_frame fr (w_fill_up_to_32 W s)"
| "hexec W C (HMerkleize x) (fr, s) =
     Option.bind (gf_ints fr x) (\<lambda>i. with_frame fr (w_merkleize W i s))"
| "hexec W C (HMixin x e l) (fr, s) =
     Option.bind (gf_ints fr x) (\<lambda>i. Option.bind (eval_len fr e) (\<lambda>n.
       with_frame fr (w_merkleize_with_mixin W i n (unat l) s)))"
| "hexec W C (HProgMixin x e) (fr, s) =
     Option.bind (gf_ints fr x) (\<lambda>i. Option.bind (eval_len fr e) (\<lambda>n.
       with_frame fr (w_merkleize_progressive_with_mixin W i n s)))"
| "hexec W C (HProgActive x bs) (fr, s) =
     Option.bind (gf_ints fr x) (\<lambda>i.
       with_frame fr (w_merkleize_progressive_with_active_fields W i bs s))"
| "hexec W C (HFor i e b) (fr, s) =
     Option.bind (eval_len fr e) (\<lambda>n.
       with_frame fr (fold_opt (\<lambda>k s. map_option snd (hexecs W C b (bind_int i k fr, s))) [0..<n] s))"
| "hexec W C (HForVal x e b) (fr, s) =
     Option.bind (eval_elems fr e) (\<lambda>xs.
       with_frame fr (fold_opt (\<lambda>v s. map_option snd (hexecs W C b (bind_val x v fr, s))) xs s))"
| "hexec W C (HBlk b) (fr, s) = with_frame fr (map_option snd (hexecs W C b (fr, s)))"
| "hexec W C (HCall e) (fr, s) =
     (case eval fr e of Some (VStruct nm vs) \<Rightarrow> with_frame fr (C nm vs s) | _ \<Rightarrow> None)"
| "hexec W C HPutZeroHash (fr, s) = with_frame fr (w_put_zero_hash W s)"
| "hexecs W C [] st = Some st"
| "hexecs W C (x # xs) st = Option.bind (hexec W C x st) (hexecs W C xs)"

lemma hexecs_append [simp]:
  "hexecs W C (xs @ ys) st = Option.bind (hexecs W C xs st) (hexecs W C ys)"
proof (induction xs arbitrary: st)
  case (Cons x xs)
  then show ?case by (cases "hexec W C x st") auto
qed simp

lemma hexecs_one [simp]: "hexecs W C [x] st = hexec W C x st"
  by (cases "hexec W C x st") simp_all

lemma hexecs_more [simp]:
  "hexecs W C (x # y # ys) st = Option.bind (hexec W C x st) (hexecs W C (y # ys))"
  by simp

declare hexecs.simps(2) [simp del]

lemma hexecs_note [simp]:
  "hexecs W C (HNote t # ss) (fr, s) = hexecs W C ss (fr, s)"
  "hexecs W C (HBlank # ss) (fr, s) = hexecs W C ss (fr, s)"
  "hexecs W C (HIndex x # ss) (fr, s) = hexecs W C ss (bind_int x (w_index W s) fr, s)"
  by (simp_all add: hexecs.simps(2))

section \<open>Programs\<close>

text \<open>What is emitted for one struct: its members and the body of \<open>HashTreeRootWith\<close>.\<close>

record hdecl =
  hd_members :: "string list"
  hd_hash :: "hstmt list"

type_synonym hprogram = "string \<rightharpoonup> hdecl"

definition hash_frame :: "string list \<Rightarrow> val list \<Rightarrow> gframe" where
  "hash_frame ms vs =
     \<lparr>gf_members = ms, gf_recv = vs, gf_vals = Map.empty, gf_ints = Map.empty, gf_buf = [],
      gf_dst = [], gf_size = 0\<rparr>"

fun HashTreeRootWith :: "'s walker \<Rightarrow> hprogram \<Rightarrow> nat \<Rightarrow> string \<Rightarrow> val list \<Rightarrow> 's \<Rightarrow> 's option" where
  "HashTreeRootWith W prog 0 nm vs s = None"
| "HashTreeRootWith W prog (Suc n) nm vs s =
     (case prog nm of
        None \<Rightarrow> None
      | Some d \<Rightarrow>
          map_option snd (hexecs W (HashTreeRootWith W prog n) (hd_hash d) (hash_frame (hd_members d) vs, s)))"

end
