(* ===== verification/Go_Hash_Text.thy ===== *)
theory Go_Hash_Text
  imports Go_Hash_Lang
begin

text \<open>
  The text that the Go back end emits for \<open>HashTreeRoot\<close> and \<open>HashTreeRootWith\<close>, and the
  chunk limits it computes for the merkleization of lists.
\<close>

section \<open>Chunk limits\<close>

definition go_ssz_limit_for_bytes :: "u64 \<Rightarrow> u64" where
  "go_ssz_limit_for_bytes max_bytes = (max_bytes + 31) div 32"

text \<open>The division by \<open>elem_size\<close> is the code's; the element types that reach it have size
  1, 2, 4 or 8.\<close>

definition go_ssz_limit_for_elements :: "u64 \<Rightarrow> u32 \<Rightarrow> u64" where
  "go_ssz_limit_for_elements max_elements elem_size =
     (if elem_size \<ge> 32 then max_elements
      else let elems_per_chunk = ucast (32 div elem_size)
           in (max_elements + elems_per_chunk - 1) div elems_per_chunk)"

section \<open>Fields\<close>

definition go_GenHashPrimitive :: "SszType \<Rightarrow> string \<Rightarrow> string \<Rightarrow> bool \<Rightarrow> string" where
  "go_GenHashPrimitive ty var indent is_append =
     (let method = (if is_append then ''Append'' else ''Put'') in
      case ty of
        SszBool \<Rightarrow> line indent (''hh.'' @ method @ ''Bool('' @ var @ '')'')
      | SszUint8 \<Rightarrow> line indent (''hh.'' @ method @ ''Uint8('' @ var @ '')'')
      | SszUint16 \<Rightarrow> line indent (''hh.'' @ method @ ''Uint16('' @ var @ '')'')
      | SszUint32 \<Rightarrow> line indent (''hh.'' @ method @ ''Uint32('' @ var @ '')'')
      | SszUint64 \<Rightarrow> line indent (''hh.'' @ method @ ''Uint64('' @ var @ '')'')
      | _ \<Rightarrow> [])"

definition go_GenHashPrimitiveArray :: "SszFieldInfo \<Rightarrow> string \<Rightarrow> string \<Rightarrow> string" where
  "go_GenHashPrimitiveArray info var indent =
     line indent (''for i := range '' @ var @ '' {'') @
     go_GenHashPrimitive (elem_ssz_type info) (var @ ''[i]'') (indent @ tab) True @
     line indent ''}''"

definition go_GenHashPrimitiveSlice :: "SszFieldInfo \<Rightarrow> string \<Rightarrow> string \<Rightarrow> string" where
  "go_GenHashPrimitiveSlice info var indent =
     line indent (''for _, v := range '' @ var @ '' {'') @
     go_GenHashPrimitive (elem_ssz_type info) ''v'' (indent @ tab) True @
     line indent ''}''"

definition go_hash_vector :: "SszFieldInfo \<Rightarrow> string \<Rightarrow> string \<Rightarrow> string" where
  "go_hash_vector info var indent =
     (if elem_is info SszUint8 then line indent (''hh.PutBytes('' @ var @ ''[:])'')
      else if elem_is info SszContainer then
        line indent ''{'' @
        line (indent @ tab) ''subIdx := hh.Index()'' @
        line (indent @ tab) (''for i := range '' @ var @ '' {'') @
        line (indent @ tab @ tab)
          (''if err := '' @ var @ ''[i].HashTreeRootWith(hh); err != nil {'') @
        line (indent @ tab @ tab @ tab) ''return err'' @
        line (indent @ tab @ tab) ''}'' @
        line (indent @ tab) ''}'' @
        line (indent @ tab) ''hh.Merkleize(subIdx)'' @
        line indent ''}''
      else if elem_info info \<noteq> None then
        line indent ''{'' @
        line (indent @ tab) ''subIdx := hh.Index()'' @
        go_GenHashPrimitiveArray info var (indent @ tab) @
        line (indent @ tab) ''hh.FillUpTo32()'' @
        line (indent @ tab) ''hh.Merkleize(subIdx)'' @
        line indent ''}''
      else [])"

definition go_mixin :: "string \<Rightarrow> u64 \<Rightarrow> string" where
  "go_mixin var limit =
     ''hh.MerkleizeWithMixin(subIdx, uint64(len('' @ var @ '')), '' @ num64 limit @ '')''"

text \<open>The limit of the inner lists of a list of byte lists.\<close>

definition go_inner_chunk_limit :: "SszFieldInfo \<Rightarrow> u64" where
  "go_inner_chunk_limit info =
     (let inner_limit = (case elem_info info of None \<Rightarrow> 0 | Some e \<Rightarrow> info_limit e)
      in if inner_limit > 0 then go_ssz_limit_for_bytes inner_limit else 0)"

definition go_hash_list :: "SszFieldInfo \<Rightarrow> string \<Rightarrow> string \<Rightarrow> string" where
  "go_hash_list info var indent =
     (let limit = info_limit info in
      if elem_is info SszList then
        (let inner_chunk_limit = go_inner_chunk_limit info in
         line indent ''{'' @
         line (indent @ tab) ''subIdx := hh.Index()'' @
         line (indent @ tab) (''for _, item := range '' @ var @ '' {'') @
         line (indent @ tab @ tab) ''inner := hh.Index()'' @
         line (indent @ tab @ tab) ''hh.AppendBytes32(item)'' @
         (if inner_chunk_limit > 0 then
            line (indent @ tab @ tab) (''hh.MerkleizeWithMixin(inner, uint64(len(item)), '' @
              num64 inner_chunk_limit @ '')'')
          else line (indent @ tab @ tab) ''hh.Merkleize(inner)'') @
         line (indent @ tab) ''}'' @
         line (indent @ tab) (go_mixin var limit) @
         line indent ''}'')
      else if elem_is info SszUint8 then
        line indent ''{'' @
        line (indent @ tab) ''subIdx := hh.Index()'' @
        line (indent @ tab) (''hh.AppendBytes32('' @ var @ '')'') @
        line (indent @ tab) (go_mixin var (go_ssz_limit_for_bytes limit)) @
        line indent ''}''
      else if elem_is info SszContainer then
        line indent ''{'' @
        line (indent @ tab) ''subIdx := hh.Index()'' @
        line (indent @ tab) (''for _, item := range '' @ var @ '' {'') @
        line (indent @ tab @ tab) ''if err := item.HashTreeRootWith(hh); err != nil {'' @
        line (indent @ tab @ tab @ tab) ''return err'' @
        line (indent @ tab @ tab) ''}'' @
        line (indent @ tab) ''}'' @
        line (indent @ tab) (go_mixin var limit) @
        line indent ''}''
      else if elem_info info \<noteq> None then
        line indent ''{'' @
        line (indent @ tab) ''subIdx := hh.Index()'' @
        go_GenHashPrimitiveSlice info var (indent @ tab) @
        line (indent @ tab) ''hh.FillUpTo32()'' @
        line (indent @ tab)
          (go_mixin var (go_ssz_limit_for_elements limit (elem_fixed_size info))) @
        line indent ''}''
      else [])"

definition go_progressive_mixin :: "string \<Rightarrow> string" where
  "go_progressive_mixin var =
     ''hh.MerkleizeProgressiveWithMixin(subIdx, uint64(len('' @ var @ '')))''"

definition go_hash_progressive_list :: "SszFieldInfo \<Rightarrow> string \<Rightarrow> string \<Rightarrow> string" where
  "go_hash_progressive_list info var indent =
     (if elem_is info SszUint8 then
        line indent ''{'' @
        line (indent @ tab) ''subIdx := hh.Index()'' @
        line (indent @ tab) (''hh.AppendBytes32('' @ var @ '')'') @
        line (indent @ tab) (go_progressive_mixin var) @
        line indent ''}''
      else if elem_is info SszContainer then
        line indent ''{'' @
        line (indent @ tab) ''subIdx := hh.Index()'' @
        line (indent @ tab) (''for _, item := range '' @ var @ '' {'') @
        line (indent @ tab @ tab) ''if err := item.HashTreeRootWith(hh); err != nil {'' @
        line (indent @ tab @ tab @ tab) ''return err'' @
        line (indent @ tab @ tab) ''}'' @
        line (indent @ tab) ''}'' @
        line (indent @ tab) (go_progressive_mixin var) @
        line indent ''}''
      else if elem_info info \<noteq> None then
        line indent ''{'' @
        line (indent @ tab) ''subIdx := hh.Index()'' @
        go_GenHashPrimitiveSlice info var (indent @ tab) @
        line (indent @ tab) ''hh.FillUpTo32()'' @
        line (indent @ tab) (go_progressive_mixin var) @
        line indent ''}''
      else [])"

definition go_hash_container :: "string \<Rightarrow> string \<Rightarrow> string" where
  "go_hash_container var indent =
     line indent (''if err := '' @ var @ ''.HashTreeRootWith(hh); err != nil {'') @
     line (indent @ tab) ''return err'' @
     line indent ''}''"

definition go_GenHashField :: "SszFieldInfo \<Rightarrow> string \<Rightarrow> string \<Rightarrow> string" where
  "go_GenHashField info var indent =
     (case ssz_type info of
        SszBool \<Rightarrow> line indent (''hh.PutBool('' @ var @ '')'')
      | SszUint8 \<Rightarrow> line indent (''hh.PutUint8('' @ var @ '')'')
      | SszUint16 \<Rightarrow> line indent (''hh.PutUint16('' @ var @ '')'')
      | SszUint32 \<Rightarrow> line indent (''hh.PutUint32('' @ var @ '')'')
      | SszUint64 \<Rightarrow> line indent (''hh.PutUint64('' @ var @ '')'')
      | SszUint128 \<Rightarrow> line indent (''hh.PutBytes('' @ var @ ''[:])'')
      | SszUint256 \<Rightarrow> line indent (''hh.PutBytes('' @ var @ ''[:])'')
      | SszVector \<Rightarrow> go_hash_vector info var indent
      | SszList \<Rightarrow> go_hash_list info var indent
      | SszBitlist \<Rightarrow>
          line indent (''hh.PutBitlist('' @ var @ '', '' @ num64 (info_limit info) @ '')'')
      | SszBitvector \<Rightarrow> line indent (''hh.PutBytes('' @ var @ ''[:])'')
      | SszContainer \<Rightarrow> go_hash_container var indent
      | SszProgressiveContainer \<Rightarrow> go_hash_container var indent
      | SszProgressiveList \<Rightarrow> go_hash_progressive_list info var indent
      | SszUnion \<Rightarrow> [])"

section \<open>HashTreeRoot and HashTreeRootWith\<close>

definition go_GenHashTreeRoot :: "StructDef \<Rightarrow> string" where
  "go_GenHashTreeRoot struct_def =
     line [] (''func (t *'' @ sd_name struct_def @ '') HashTreeRoot() (root [32]byte, err error) {'') @
     line tab ''err = hasher.WithDefaultHasher(func(hh sszutils.HashWalker) (err error) {'' @
     line (tab @ tab) ''if err = t.HashTreeRootWith(hh); err != nil {'' @
     line (tab @ tab @ tab) ''return'' @
     line (tab @ tab) ''}'' @
     line (tab @ tab) ''root, err = hh.HashRoot()'' @
     line (tab @ tab) ''return'' @
     line tab ''})'' @
     line tab ''return'' @
     line [] ''}''"

text \<open>The map from tree index to field that the code builds from \<open>field_ssz_indices\<close>.\<close>

definition index_to_field :: "SszContainerInfo \<Rightarrow> (u32 \<times> FieldPtr) list" where
  "index_to_field container =
     fold (\<lambda>(p, idx). std_map_set idx p) (field_ssz_indices container) []"

definition go_hash_index :: "SszGenerator \<Rightarrow> SszContainerInfo \<Rightarrow> u32 \<Rightarrow> string" where
  "go_hash_index G container i =
     (case map_of (index_to_field container) i of
        Some p \<Rightarrow>
          (case field_infos container p of
             None \<Rightarrow> []
           | Some info \<Rightarrow>
               let field = field_at (gen_parser G) p in
               line tab (''// Index '' @ num32 i @ '': '' @ fd_name field) @
               go_GenHashField info (go_member G field) tab)
      | None \<Rightarrow>
          line tab (''// Index '' @ num32 i @ '': gap (inactive)'') @
          line tab ''hh.PutUint8(0)'')"

text \<open>
  The loop \<open>i = 0, ..., max_ssz_index\<close> counts in 32 bits; the parser keeps the ids of
  progressive containers below 256, far from where the counter would wrap.
\<close>

definition go_GenHashTreeRootWith :: "SszGenerator \<Rightarrow> StructDef \<Rightarrow> SszContainerInfo \<Rightarrow> string" where
  "go_GenHashTreeRootWith G struct_def container =
     line [] (''func (t *'' @ sd_name struct_def @ '') HashTreeRootWith(hh sszutils.HashWalker) error {'') @
     line tab ''idx := hh.Index()'' @
     nl @
     (if is_progressive container then
        concat (map (\<lambda>i. go_hash_index G container (of_nat i)) [0..<Suc (unat (max_ssz_index container))]) @
        nl @
        line tab (''hh.MerkleizeProgressiveWithActiveFields(idx, []byte{'' @
          comma_list (map hex_byte (active_fields_bitvector container)) @ ''})'')
      else
        each_field container (all_fields container) (\<lambda>p info.
          let field = field_at (gen_parser G) p in
          line tab (''// Field '' @ sq @ fd_name field @ sq) @
          go_GenHashField info (go_member G field) tab @
          nl) @
        line tab ''hh.Merkleize(idx)'') @
     line tab ''return nil'' @
     line [] ''}''"

end
