(* ===== verification/Rust_Hash_Text.thy ===== *)
theory Rust_Hash_Text
  imports Rust_Text Go_Hash_Text
begin

text \<open>The text that the Rust back end emits for \<open>tree_hash_with\<close>.\<close>

section \<open>Fields\<close>

definition rust_GenAppendPrimitive :: "SszType \<Rightarrow> string \<Rightarrow> string \<Rightarrow> string" where
  "rust_GenAppendPrimitive t var ind =
     (case t of
        SszBool \<Rightarrow> line ind (''h.append_bool('' @ var @ '');'')
      | SszUint8 \<Rightarrow> line ind (''h.append_u8('' @ var @ '');'')
      | SszUint16 \<Rightarrow> line ind (''h.append_u16('' @ var @ '');'')
      | SszUint32 \<Rightarrow> line ind (''h.append_u32('' @ var @ '');'')
      | SszUint64 \<Rightarrow> line ind (''h.append_u64('' @ var @ '');'')
      | _ \<Rightarrow> [])"

text \<open>The lines in the braces of a subtree; the code writes them out for every kind of element.\<close>

definition rust_hash_bytes :: "string \<Rightarrow> string \<Rightarrow> string" where
  "rust_hash_bytes var ind = line (ind @ sp4) (''h.append_bytes32(&'' @ var @ '');'')"

definition rust_hash_containers :: "string \<Rightarrow> string \<Rightarrow> string" where
  "rust_hash_containers var ind =
     line (ind @ sp4) (''for item in &'' @ var @ '' { item.tree_hash_with(h); }'')"

definition rust_hash_prims :: "SszFieldInfo \<Rightarrow> string \<Rightarrow> string \<Rightarrow> string" where
  "rust_hash_prims info var ind =
     line (ind @ sp4) (''for v in &'' @ var @ '' {'') @
     rust_GenAppendPrimitive (elem_ssz_type info) ''*v'' (ind @ sp8) @
     line (ind @ sp4) ''}'' @
     line (ind @ sp4) ''h.fill_up_to_32();''"

definition rust_sub_tree :: "string \<Rightarrow> string \<Rightarrow> string" where
  "rust_sub_tree ind body =
     line ind ''{'' @ line (ind @ sp4) ''let sub = h.index();'' @ body @ line ind ''}''"

definition rust_hash_vector :: "SszFieldInfo \<Rightarrow> string \<Rightarrow> string \<Rightarrow> string" where
  "rust_hash_vector info var ind =
     (if elem_is info SszUint8 then line ind (''h.put_bytes(&'' @ var @ '');'')
      else if elem_is info SszContainer then
        rust_sub_tree ind (rust_hash_containers var ind @ line (ind @ sp4) ''h.merkleize(sub);'')
      else if elem_info info \<noteq> None then
        rust_sub_tree ind (rust_hash_prims info var ind @ line (ind @ sp4) ''h.merkleize(sub);'')
      else [])"

definition rust_mixin :: "string \<Rightarrow> string \<Rightarrow> u64 \<Rightarrow> string" where
  "rust_mixin var ind limit =
     line (ind @ sp4) (''h.merkleize_with_mixin(sub, '' @ var @ ''.len() as u64, '' @ num64 limit @ '');'')"

text \<open>The chunk limits are computed in 64 bits, and wrap.\<close>

definition rust_inner_chunk :: "SszFieldInfo \<Rightarrow> u64" where
  "rust_inner_chunk info =
     (let inner_limit = (case elem_info info of None \<Rightarrow> 0 | Some e \<Rightarrow> info_limit e)
      in if inner_limit > 0 then (inner_limit + 31) div 32 else 0)"

definition rust_hash_limit :: "SszFieldInfo \<Rightarrow> u64" where
  "rust_hash_limit info = (info_limit info * ucast (elem_fixed_size info) + 31) div 32"

definition rust_hash_list :: "SszFieldInfo \<Rightarrow> string \<Rightarrow> string \<Rightarrow> string" where
  "rust_hash_list info var ind =
     (let limit = info_limit info in
      if elem_is info SszList then
        (let inner_chunk = rust_inner_chunk info in
         rust_sub_tree ind
           (line (ind @ sp4) (''for item in &'' @ var @ '' {'') @
            line (ind @ sp8) ''let inner = h.index();'' @
            line (ind @ sp8) ''h.append_bytes32(item);'' @
            (if inner_chunk > 0 then
               line (ind @ sp8) (''h.merkleize_with_mixin(inner, item.len() as u64, '' @
                 num64 inner_chunk @ '');'')
             else line (ind @ sp8) ''h.merkleize(inner);'') @
            line (ind @ sp4) ''}'' @
            rust_mixin var ind limit))
      else if elem_is info SszUint8 then
        rust_sub_tree ind (rust_hash_bytes var ind @ rust_mixin var ind ((limit + 31) div 32))
      else if elem_is info SszContainer then
        rust_sub_tree ind (rust_hash_containers var ind @ rust_mixin var ind limit)
      else if elem_info info \<noteq> None then
        rust_sub_tree ind (rust_hash_prims info var ind @ rust_mixin var ind (rust_hash_limit info))
      else [])"

definition rust_progressive_mixin :: "string \<Rightarrow> string \<Rightarrow> string" where
  "rust_progressive_mixin var ind =
     line (ind @ sp4) (''h.merkleize_progressive_with_mixin(sub, '' @ var @ ''.len() as u64);'')"

definition rust_hash_progressive_list :: "SszFieldInfo \<Rightarrow> string \<Rightarrow> string \<Rightarrow> string" where
  "rust_hash_progressive_list info var ind =
     (if elem_is info SszUint8 then
        rust_sub_tree ind (rust_hash_bytes var ind @ rust_progressive_mixin var ind)
      else if elem_is info SszContainer then
        rust_sub_tree ind (rust_hash_containers var ind @ rust_progressive_mixin var ind)
      else if elem_info info \<noteq> None then
        rust_sub_tree ind (rust_hash_prims info var ind @ rust_progressive_mixin var ind)
      else [])"

definition rust_GenHashField :: "SszFieldInfo \<Rightarrow> string \<Rightarrow> string \<Rightarrow> string" where
  "rust_GenHashField info var ind =
     (case ssz_type info of
        SszBool \<Rightarrow> line ind (''h.put_bool('' @ var @ '');'')
      | SszUint8 \<Rightarrow> line ind (''h.put_u8('' @ var @ '');'')
      | SszUint16 \<Rightarrow> line ind (''h.put_u16('' @ var @ '');'')
      | SszUint32 \<Rightarrow> line ind (''h.put_u32('' @ var @ '');'')
      | SszUint64 \<Rightarrow> line ind (''h.put_u64('' @ var @ '');'')
      | SszUint128 \<Rightarrow> line ind (''h.put_bytes(&'' @ var @ '');'')
      | SszUint256 \<Rightarrow> line ind (''h.put_bytes(&'' @ var @ '');'')
      | SszVector \<Rightarrow> rust_hash_vector info var ind
      | SszList \<Rightarrow> rust_hash_list info var ind
      | SszBitlist \<Rightarrow> line ind (''h.put_bitlist(&'' @ var @ '', '' @ num64 (info_limit info) @ '');'')
      | SszBitvector \<Rightarrow> line ind (''h.put_bytes(&'' @ var @ '');'')
      | SszContainer \<Rightarrow> line ind (var @ ''.tree_hash_with(h);'')
      | SszProgressiveContainer \<Rightarrow> line ind (var @ ''.tree_hash_with(h);'')
      | SszProgressiveList \<Rightarrow> rust_hash_progressive_list info var ind
      | SszUnion \<Rightarrow> [])"

section \<open>The method\<close>

definition rust_hash_index :: "Parser \<Rightarrow> SszContainerInfo \<Rightarrow> u32 \<Rightarrow> string" where
  "rust_hash_index P container i =
     (case map_of (index_to_field container) i of
        Some p \<Rightarrow>
          (case field_infos container p of
             None \<Rightarrow> []
           | Some info \<Rightarrow> rust_GenHashField info (''self.'' @ rust_member P p) sp8)
      | None \<Rightarrow> line sp8 ''h.put_zero_hash();'')"

definition rust_GenHashMethod :: "Parser \<Rightarrow> SszContainerInfo \<Rightarrow> string" where
  "rust_GenHashMethod P container =
     line sp4 ''pub fn tree_hash_with(&self, h: &mut Hasher) {'' @
     line sp8 ''let idx = h.index();'' @
     (if is_progressive container then
        concat (map (\<lambda>i. rust_hash_index P container (of_nat i))
          [0..<Suc (unat (max_ssz_index container))]) @
        line sp8 (''h.merkleize_progressive_with_active_fields(idx, &['' @
          comma_list (map hex_byte (active_fields_bitvector container)) @ '']);'')
      else
        each_field container (all_fields container) (\<lambda>p info.
          rust_GenHashField info (''self.'' @ rust_member P p) sp8) @
        line sp8 ''h.merkleize(idx);'') @
     line sp4 ''}''"

end
