(* ===== verification/Go_Marshal_Text.thy ===== *)
theory Go_Marshal_Text
  imports Go_Names
begin

text \<open>
  The text that the Go back end emits for a container's struct declaration and for \<open>SizeSSZ\<close>,
  \<open>MarshalSSZ\<close> and \<open>MarshalSSZTo\<close>.  A C++ function that appends to \<open>*code\<close> is the
  function that returns what it appends.
  The second part is the text of \<open>UnmarshalSSZ\<close>.
\<close>

section \<open>Struct declaration\<close>

definition go_GenGoStruct :: "SszGenerator \<Rightarrow> StructDef \<Rightarrow> SszContainerInfo \<Rightarrow> string" where
  "go_GenGoStruct G struct_def container =
     line [] (''type '' @ sd_name struct_def @ '' struct {'') @
     each_field container (all_fields container) (\<lambda>p info.
       let field = field_at (gen_parser G) p in
       tab @ go_Field G field @ '' '' @ GoTypeName (gen_parser G) info field @
       line [] ('' `ssz:'' @ dq @ fd_name field @ dq @ ''`'')) @
     line [] ''}''"

section \<open>SizeSSZ\<close>

definition go_GenSizeField :: "SszFieldInfo \<Rightarrow> string \<Rightarrow> string \<Rightarrow> string" where
  "go_GenSizeField info var indent =
     (let list_size =
        (if elem_is info SszList then
           line indent (''size += len('' @ var @ '') * 4'') @
           line indent (''for _, item := range '' @ var @ '' {'') @
           line (indent @ tab) ''size += len(item)'' @
           line indent ''}''
         else if elem_is info SszContainer \<and> elem_dynamic info then
           line indent (''size += len('' @ var @ '') * 4'') @
           line indent (''for _, item := range '' @ var @ '' {'') @
           line (indent @ tab) ''size += item.SizeSSZ()'' @
           line indent ''}''
         else if elem_info info \<noteq> None then
           line indent (''size += len('' @ var @ '') * '' @ num32 (elem_fixed_size info))
         else line indent (''size += len('' @ var @ '')''))
      in case ssz_type info of
           SszProgressiveList \<Rightarrow> list_size
         | SszList \<Rightarrow> list_size
         | SszBitlist \<Rightarrow> line indent (''size += len('' @ var @ '')'')
         | SszContainer \<Rightarrow> line indent (''size += '' @ var @ ''.SizeSSZ()'')
         | _ \<Rightarrow> [])"

definition go_GenSizeSSZ :: "SszGenerator \<Rightarrow> StructDef \<Rightarrow> SszContainerInfo \<Rightarrow> string" where
  "go_GenSizeSSZ G struct_def container =
     line [] (''func (t *'' @ sd_name struct_def @ '') SizeSSZ() int {'') @
     (if is_fixed container then
        line tab (''return '' @ num32 (static_size container))
      else
        line tab (''size := '' @ num32 (static_size container)) @
        each_field container (dynamic_fields container) (\<lambda>p info.
          go_GenSizeField info (go_member G (field_at (gen_parser G) p)) tab) @
        line tab ''return size'') @
     line [] ''}''"

section \<open>MarshalSSZ and MarshalSSZTo\<close>

definition go_GenMarshalSSZ :: "StructDef \<Rightarrow> string" where
  "go_GenMarshalSSZ struct_def =
     line [] (''func (t *'' @ sd_name struct_def @ '') MarshalSSZ() ([]byte, error) {'') @
     line tab ''return t.MarshalSSZTo(make([]byte, 0, t.SizeSSZ()))'' @
     line [] ''}''"

definition go_GenMarshalPrimitiveArray :: "SszFieldInfo \<Rightarrow> string \<Rightarrow> string \<Rightarrow> string" where
  "go_GenMarshalPrimitiveArray info var indent =
     line indent (''for i := range '' @ var @ '' {'') @
     (case elem_ssz_type info of
        SszBool \<Rightarrow>
          line (indent @ tab) (''if '' @ var @ ''[i] {'') @
          line (indent @ tab @ tab) ''dst = append(dst, 1)'' @
          line (indent @ tab) ''} else {'' @
          line (indent @ tab @ tab) ''dst = append(dst, 0)'' @
          line (indent @ tab) ''}''
      | SszUint16 \<Rightarrow>
          line (indent @ tab) (''dst = binary.LittleEndian.AppendUint16(dst, '' @ var @ ''[i])'')
      | SszUint32 \<Rightarrow>
          line (indent @ tab) (''dst = binary.LittleEndian.AppendUint32(dst, '' @ var @ ''[i])'')
      | SszUint64 \<Rightarrow>
          line (indent @ tab) (''dst = binary.LittleEndian.AppendUint64(dst, '' @ var @ ''[i])'')
      | _ \<Rightarrow> []) @
     line indent ''}''"

definition go_GenMarshalPrimitiveSlice :: "SszFieldInfo \<Rightarrow> string \<Rightarrow> string \<Rightarrow> string" where
  "go_GenMarshalPrimitiveSlice info var indent =
     line indent (''for _, v := range '' @ var @ '' {'') @
     (case elem_ssz_type info of
        SszBool \<Rightarrow>
          line (indent @ tab) ''if v {'' @
          line (indent @ tab @ tab) ''dst = append(dst, 1)'' @
          line (indent @ tab) ''} else {'' @
          line (indent @ tab @ tab) ''dst = append(dst, 0)'' @
          line (indent @ tab) ''}''
      | SszUint16 \<Rightarrow> line (indent @ tab) ''dst = binary.LittleEndian.AppendUint16(dst, v)''
      | SszUint32 \<Rightarrow> line (indent @ tab) ''dst = binary.LittleEndian.AppendUint32(dst, v)''
      | SszUint64 \<Rightarrow> line (indent @ tab) ''dst = binary.LittleEndian.AppendUint64(dst, v)''
      | _ \<Rightarrow> []) @
     line indent ''}''"

text \<open>The cases \<open>Vector\<close> and \<open>List\<close> of \<open>GenMarshalField\<close>.\<close>

definition go_marshal_vector :: "SszFieldInfo \<Rightarrow> string \<Rightarrow> string \<Rightarrow> string" where
  "go_marshal_vector info var indent =
     (if elem_is info SszUint8 then line indent (''dst = append(dst, '' @ var @ ''[:]...)'')
      else if elem_is info SszContainer then
        line indent (''for i := range '' @ var @ '' {'') @
        (if elem_dynamic info then
           line (indent @ tab) (''if dst, err = '' @ var @ ''[i].MarshalSSZTo(dst); err != nil {'') @
           line (indent @ tab @ tab) ''return nil, err'' @
           line (indent @ tab) ''}''
         else
           line (indent @ tab) (''if dst, err = '' @ var @ ''[i].MarshalSSZTo(dst); err != nil {'') @
           line (indent @ tab @ tab) ''return nil, err'' @
           line (indent @ tab) ''}'') @
        line indent ''}''
      else if elem_info info \<noteq> None then go_GenMarshalPrimitiveArray info var indent
      else [])"

definition go_marshal_list :: "SszFieldInfo \<Rightarrow> string \<Rightarrow> string \<Rightarrow> string" where
  "go_marshal_list info var indent =
     (if elem_is info SszList then
        line indent ''{'' @
        line (indent @ tab) ''listStart := len(dst)'' @
        line (indent @ tab) (''for range '' @ var @ '' {'') @
        line (indent @ tab @ tab) ''dst = append(dst, 0, 0, 0, 0)'' @
        line (indent @ tab) ''}'' @
        line (indent @ tab) (''for i, item := range '' @ var @ '' {'') @
        line (indent @ tab @ tab)
          ''binary.LittleEndian.PutUint32(dst[listStart+i*4:], uint32(len(dst)-listStart))'' @
        line (indent @ tab @ tab) ''dst = append(dst, item...)'' @
        line (indent @ tab) ''}'' @
        line indent ''}''
      else if elem_is info SszUint8 then line indent (''dst = append(dst, '' @ var @ ''...)'')
      else if elem_is info SszContainer then
        (if elem_dynamic info then
           line indent ''{'' @
           line (indent @ tab) ''listStart := len(dst)'' @
           line (indent @ tab) (''for range '' @ var @ '' {'') @
           line (indent @ tab @ tab) ''dst = append(dst, 0, 0, 0, 0)'' @
           line (indent @ tab) ''}'' @
           line (indent @ tab) (''for i, item := range '' @ var @ '' {'') @
           line (indent @ tab @ tab)
             ''binary.LittleEndian.PutUint32(dst[listStart+i*4:], uint32(len(dst)-listStart))'' @
           line (indent @ tab @ tab) ''if dst, err = item.MarshalSSZTo(dst); err != nil {'' @
           line (indent @ tab @ tab @ tab) ''return nil, err'' @
           line (indent @ tab @ tab) ''}'' @
           line (indent @ tab) ''}'' @
           line indent ''}''
         else
           line indent (''for _, item := range '' @ var @ '' {'') @
           line (indent @ tab) ''if dst, err = item.MarshalSSZTo(dst); err != nil {'' @
           line (indent @ tab @ tab) ''return nil, err'' @
           line (indent @ tab) ''}'' @
           line indent ''}'')
      else if elem_info info \<noteq> None then go_GenMarshalPrimitiveSlice info var indent
      else line indent (''dst = append(dst, '' @ var @ ''...)''))"

text \<open>The case of a container.\<close>

definition go_marshal_container :: "string \<Rightarrow> string \<Rightarrow> string" where
  "go_marshal_container var indent =
     line indent (''if dst, err = '' @ var @ ''.MarshalSSZTo(dst); err != nil {'') @
     line (indent @ tab) ''return nil, err'' @
     line indent ''}''"

definition go_GenMarshalField :: "SszFieldInfo \<Rightarrow> string \<Rightarrow> string \<Rightarrow> string" where
  "go_GenMarshalField info var indent =
     (case ssz_type info of
        SszBool \<Rightarrow>
          line indent (''if '' @ var @ '' {'') @
          line (indent @ tab) ''dst = append(dst, 1)'' @
          line indent ''} else {'' @
          line (indent @ tab) ''dst = append(dst, 0)'' @
          line indent ''}''
      | SszUint8 \<Rightarrow> line indent (''dst = append(dst, '' @ var @ '')'')
      | SszUint16 \<Rightarrow> line indent (''dst = binary.LittleEndian.AppendUint16(dst, '' @ var @ '')'')
      | SszUint32 \<Rightarrow> line indent (''dst = binary.LittleEndian.AppendUint32(dst, '' @ var @ '')'')
      | SszUint64 \<Rightarrow> line indent (''dst = binary.LittleEndian.AppendUint64(dst, '' @ var @ '')'')
      | SszUint128 \<Rightarrow> line indent (''dst = append(dst, '' @ var @ ''[:]...)'')
      | SszUint256 \<Rightarrow> line indent (''dst = append(dst, '' @ var @ ''[:]...)'')
      | SszVector \<Rightarrow> go_marshal_vector info var indent
      | SszProgressiveList \<Rightarrow> go_marshal_list info var indent
      | SszList \<Rightarrow> go_marshal_list info var indent
      | SszBitlist \<Rightarrow> line indent (''dst = append(dst, '' @ var @ ''...)'')
      | SszBitvector \<Rightarrow> line indent (''dst = append(dst, '' @ var @ ''[:]...)'')
      | SszProgressiveContainer \<Rightarrow> go_marshal_container var indent
      | SszContainer \<Rightarrow> go_marshal_container var indent
      | SszUnion \<Rightarrow> [])"

subsection \<open>The two sections of a container with dynamic fields\<close>

text \<open>\<open>idx\<close> is the loop's \<open>offset_idx\<close>.\<close>

definition go_static_field :: "SszGenerator \<Rightarrow> nat \<Rightarrow> FieldDef \<Rightarrow> SszFieldInfo \<Rightarrow> string" where
  "go_static_field G idx field info =
     (if is_dynamic info then
        line tab (''// Offset for '' @ sq @ fd_name field @ sq) @
        line tab (''offset'' @ NumToString idx @ '' := len(dst)'') @
        line tab ''dst = append(dst, 0, 0, 0, 0)''
      else
        line tab (''// Field '' @ sq @ fd_name field @ sq) @
        go_GenMarshalField info (go_member G field) tab)"

definition go_dynamic_field :: "SszGenerator \<Rightarrow> nat \<Rightarrow> FieldDef \<Rightarrow> SszFieldInfo \<Rightarrow> string" where
  "go_dynamic_field G idx field info =
     (if is_dynamic info then
        line tab (''// Dynamic field '' @ sq @ fd_name field @ sq) @
        line tab (''binary.LittleEndian.PutUint32(dst[offset'' @ NumToString idx @
          '':], uint32(len(dst)-dstlen))'') @
        go_GenMarshalField info (go_member G field) tab
      else [])"

text \<open>A loop over fields that numbers the dynamic ones from \<open>idx\<close>.\<close>

fun number_dynamic ::
  "(nat \<Rightarrow> FieldPtr \<Rightarrow> SszFieldInfo \<Rightarrow> string) \<Rightarrow> SszContainerInfo \<Rightarrow> nat \<Rightarrow> FieldPtr list \<Rightarrow> string" where
  "number_dynamic body c idx [] = []"
| "number_dynamic body c idx (p # ps) =
     (case field_infos c p of
        None \<Rightarrow> number_dynamic body c idx ps
      | Some info \<Rightarrow>
          body idx p info @
          number_dynamic body c (if is_dynamic info then idx + 1 else idx) ps)"

definition go_GenMarshalSSZTo :: "SszGenerator \<Rightarrow> StructDef \<Rightarrow> SszContainerInfo \<Rightarrow> string" where
  "go_GenMarshalSSZTo G struct_def container =
     line [] (''func (t *'' @ sd_name struct_def @
       '') MarshalSSZTo(buf []byte) (dst []byte, err error) {'') @
     line tab ''dst = buf'' @
     (if dynamic_fields container = [] then
        each_field container (all_fields container) (\<lambda>p info.
          go_GenMarshalField info (go_member G (field_at (gen_parser G) p)) tab)
      else
        line tab ''dstlen := len(dst)'' @
        nl @
        number_dynamic (\<lambda>idx p. go_static_field G idx (field_at (gen_parser G) p))
          container 0 (all_fields container) @
        nl @
        number_dynamic (\<lambda>idx p. go_dynamic_field G idx (field_at (gen_parser G) p))
          container 0 (all_fields container)) @
     line tab ''return dst, err'' @
     line [] ''}''"


text \<open>The text that the Go back end emits for \<open>UnmarshalSSZ\<close>.\<close>

section \<open>Fixed-size fields\<close>

text \<open>\<open>buf[off:off+n]\<close> with constant bounds.\<close>

definition go_buf_range :: "u32 \<Rightarrow> u32 \<Rightarrow> string" where
  "go_buf_range offset n = ''buf['' @ num32 offset @ '':'' @ num32 (offset + n) @ '']''"

definition go_read_elem :: "SszFieldInfo \<Rightarrow> string \<Rightarrow> string \<Rightarrow> string" where
  "go_read_elem info var indent =
     (case elem_ssz_type info of
        SszBool \<Rightarrow>
          line (indent @ tab) ''if buf[off] > 1 {'' @
          line (indent @ tab @ tab) ''return ssz.ErrInvalidBool'' @
          line (indent @ tab) ''}'' @
          line (indent @ tab) (var @ ''[i] = buf[off] == 1'')
      | SszUint16 \<Rightarrow>
          line (indent @ tab) (var @ ''[i] = binary.LittleEndian.Uint16(buf[off:off+2])'')
      | SszUint32 \<Rightarrow>
          line (indent @ tab) (var @ ''[i] = binary.LittleEndian.Uint32(buf[off:off+4])'')
      | SszUint64 \<Rightarrow>
          line (indent @ tab) (var @ ''[i] = binary.LittleEndian.Uint64(buf[off:off+8])'')
      | _ \<Rightarrow> [])"

definition go_GenUnmarshalPrimitiveArray :: "SszFieldInfo \<Rightarrow> string \<Rightarrow> u32 \<Rightarrow> string \<Rightarrow> string" where
  "go_GenUnmarshalPrimitiveArray info var offset indent =
     (let elem_size = elem_fixed_size info in
      line indent (''for i := range '' @ var @ '' {'') @
      line (indent @ tab) (''off := '' @ num32 offset @ '' + i*'' @ num32 elem_size) @
      go_read_elem info var indent @
      line indent ''}'')"

definition go_unmarshal_vector :: "SszFieldInfo \<Rightarrow> string \<Rightarrow> u32 \<Rightarrow> string \<Rightarrow> string" where
  "go_unmarshal_vector info var offset indent =
     (if elem_is info SszUint8 then
        line indent (''copy('' @ var @ ''[:], '' @ go_buf_range offset (fixed_size info) @ '')'')
      else if elem_is info SszContainer then
        (let elem_size = elem_fixed_size info in
         line indent (''for i := range '' @ var @ '' {'') @
         line (indent @ tab) (''start := '' @ num32 offset @ '' + i*'' @ num32 elem_size) @
         line (indent @ tab) (''if err := '' @ var @ ''[i].UnmarshalSSZ(buf[start:start+'' @
           num32 elem_size @ '']); err != nil {'') @
         line (indent @ tab @ tab) ''return err'' @
         line (indent @ tab) ''}'' @
         line indent ''}'')
      else if elem_info info \<noteq> None then go_GenUnmarshalPrimitiveArray info var offset indent
      else [])"

definition go_GenUnmarshalField :: "SszFieldInfo \<Rightarrow> string \<Rightarrow> u32 \<Rightarrow> string \<Rightarrow> string" where
  "go_GenUnmarshalField info var offset indent =
     (let off_str = num32 offset in
      case ssz_type info of
        SszBool \<Rightarrow>
          line indent (''if buf['' @ off_str @ ''] > 1 {'') @
          line (indent @ tab) ''return ssz.ErrInvalidBool'' @
          line indent ''}'' @
          line indent (var @ '' = buf['' @ off_str @ ''] == 1'')
      | SszUint8 \<Rightarrow> line indent (var @ '' = buf['' @ off_str @ '']'')
      | SszUint16 \<Rightarrow>
          line indent (var @ '' = binary.LittleEndian.Uint16('' @ go_buf_range offset 2 @ '')'')
      | SszUint32 \<Rightarrow>
          line indent (var @ '' = binary.LittleEndian.Uint32('' @ go_buf_range offset 4 @ '')'')
      | SszUint64 \<Rightarrow>
          line indent (var @ '' = binary.LittleEndian.Uint64('' @ go_buf_range offset 8 @ '')'')
      | SszUint128 \<Rightarrow>
          line indent (''copy('' @ var @ ''[:], '' @ go_buf_range offset (fixed_size info) @ '')'')
      | SszUint256 \<Rightarrow>
          line indent (''copy('' @ var @ ''[:], '' @ go_buf_range offset (fixed_size info) @ '')'')
      | SszVector \<Rightarrow> go_unmarshal_vector info var offset indent
      | SszBitvector \<Rightarrow>
          line indent (''copy('' @ var @ ''[:], '' @ go_buf_range offset (fixed_size info) @ '')'')
      | SszContainer \<Rightarrow>
          line indent (''if err := '' @ var @ ''.UnmarshalSSZ('' @
            go_buf_range offset (fixed_size info) @ ''); err != nil {'') @
          line (indent @ tab) ''return err'' @
          line indent ''}''
      | _ \<Rightarrow> [])"

section \<open>Dynamic fields\<close>

definition go_GenUnmarshalPrimitiveSlice ::
  "Parser \<Rightarrow> SszFieldInfo \<Rightarrow> string \<Rightarrow> FieldDef \<Rightarrow> string \<Rightarrow> string" where
  "go_GenUnmarshalPrimitiveSlice P info var field indent =
     (let elem_size = elem_fixed_size info in
      line indent (''count := len(buf) / '' @ num32 elem_size) @
      line indent (var @ '' = make('' @ GoTypeName P info field @ '', count)'') @
      line indent ''for i := 0; i < count; i++ {'' @
      line (indent @ tab) (''off := i * '' @ num32 elem_size) @
      go_read_elem info var indent @
      line indent ''}'')"

text \<open>
  The head of the loop over a list with offsets: \<open>alloc\<close> is the expression that allocates the
  slice.  Both dynamic cases of the code emit the same lines up to the element itself.
\<close>

definition go_offset_loop_head :: "string \<Rightarrow> string \<Rightarrow> string \<Rightarrow> string" where
  "go_offset_loop_head var alloc indent =
     line indent ''if len(buf) > 0 {'' @
     line (indent @ tab) ''firstOff := int(binary.LittleEndian.Uint32(buf[0:4]))'' @
     line (indent @ tab) ''if firstOff%4 != 0 {'' @
     line (indent @ tab @ tab) ''return ssz.ErrInvalidOffset'' @
     line (indent @ tab) ''}'' @
     line (indent @ tab) ''count := firstOff / 4'' @
     line (indent @ tab) (var @ '' = '' @ alloc) @
     line (indent @ tab) ''for i := 0; i < count; i++ {'' @
     line (indent @ tab @ tab) ''start := int(binary.LittleEndian.Uint32(buf[i*4:i*4+4]))'' @
     line (indent @ tab @ tab) ''var end int'' @
     line (indent @ tab @ tab) ''if i+1 < count {'' @
     line (indent @ tab @ tab @ tab)
       ''end = int(binary.LittleEndian.Uint32(buf[(i+1)*4:(i+1)*4+4]))'' @
     line (indent @ tab @ tab) ''} else {'' @
     line (indent @ tab @ tab @ tab) ''end = len(buf)'' @
     line (indent @ tab @ tab) ''}'' @
     line (indent @ tab @ tab) ''if start > end || end > len(buf) {'' @
     line (indent @ tab @ tab @ tab) ''return ssz.ErrInvalidOffset'' @
     line (indent @ tab @ tab) ''}''"

definition go_copy_all :: "string \<Rightarrow> string \<Rightarrow> string" where
  "go_copy_all var indent =
     line indent (var @ '' = make([]byte, len(buf))'') @
     line indent (''copy('' @ var @ '', buf)'')"

definition go_unmarshal_list :: "Parser \<Rightarrow> SszFieldInfo \<Rightarrow> string \<Rightarrow> FieldDef \<Rightarrow> string \<Rightarrow> string" where
  "go_unmarshal_list P info var field indent =
     (let elem_size = elem_fixed_size info;
          elem_name = info_struct_name P '''' (case elem_info info of None \<Rightarrow> new_info | Some e \<Rightarrow> e) in
      if elem_is info SszList then
        go_offset_loop_head var ''make([][]byte, count)'' indent @
        line (indent @ tab @ tab) (var @ ''[i] = make([]byte, end-start)'') @
        line (indent @ tab @ tab) (''copy('' @ var @ ''[i], buf[start:end])'') @
        line (indent @ tab) ''}'' @
        line indent ''}''
      else if elem_is info SszUint8 then go_copy_all var indent
      else if elem_is info SszContainer then
        (if elem_dynamic info then
           go_offset_loop_head var (''make('' @ GoTypeName P info field @ '', count)'') indent @
           line (indent @ tab @ tab) (var @ ''[i] = new('' @ elem_name @ '')'') @
           line (indent @ tab @ tab)
             (''if err := '' @ var @ ''[i].UnmarshalSSZ(buf[start:end]); err != nil {'') @
           line (indent @ tab @ tab @ tab) ''return err'' @
           line (indent @ tab @ tab) ''}'' @
           line (indent @ tab) ''}'' @
           line indent ''}''
         else
           line indent (''count := len(buf) / '' @ num32 elem_size) @
           line indent (var @ '' = make('' @ GoTypeName P info field @ '', count)'') @
           line indent ''for i := 0; i < count; i++ {'' @
           line (indent @ tab) (var @ ''[i] = new('' @ elem_name @ '')'') @
           line (indent @ tab) (''off := i * '' @ num32 elem_size) @
           line (indent @ tab) (''if err := '' @ var @ ''[i].UnmarshalSSZ(buf[off:off+'' @
             num32 elem_size @ '']); err != nil {'') @
           line (indent @ tab @ tab) ''return err'' @
           line (indent @ tab) ''}'' @
           line indent ''}'')
      else if elem_info info \<noteq> None then go_GenUnmarshalPrimitiveSlice P info var field indent
      else go_copy_all var indent)"

definition go_GenUnmarshalDynField ::
  "Parser \<Rightarrow> SszFieldInfo \<Rightarrow> string \<Rightarrow> FieldDef \<Rightarrow> string \<Rightarrow> string" where
  "go_GenUnmarshalDynField P info var field indent =
     (case ssz_type info of
        SszProgressiveList \<Rightarrow> go_unmarshal_list P info var field indent
      | SszList \<Rightarrow> go_unmarshal_list P info var field indent
      | SszBitlist \<Rightarrow> go_copy_all var indent
      | SszContainer \<Rightarrow>
          line indent (''if err := '' @ var @ ''.UnmarshalSSZ(buf); err != nil {'') @
          line (indent @ tab) ''return err'' @
          line indent ''}''
      | _ \<Rightarrow> [])"

section \<open>UnmarshalSSZ\<close>

text \<open>The loop over an all-fixed container: the offset of each field is the sum before it.\<close>

fun go_unmarshal_fixed :: "SszGenerator \<Rightarrow> SszContainerInfo \<Rightarrow> u32 \<Rightarrow> FieldPtr list \<Rightarrow> string" where
  "go_unmarshal_fixed G c offset [] = []"
| "go_unmarshal_fixed G c offset (p # ps) =
     (case field_infos c p of
        None \<Rightarrow> go_unmarshal_fixed G c offset ps
      | Some info \<Rightarrow>
          go_GenUnmarshalField info (go_member G (field_at (gen_parser G) p)) offset tab @
          go_unmarshal_fixed G c (offset + fixed_size info) ps)"

definition go_read_offset :: "SszContainerInfo \<Rightarrow> u32 \<Rightarrow> nat \<Rightarrow> string" where
  "go_read_offset container offset dyn_idx =
     line tab (''offset'' @ NumToString dyn_idx @ '' := int(binary.LittleEndian.Uint32('' @
       go_buf_range offset 4 @ ''))'') @
     (if dyn_idx = 0 then
        line tab (''if offset0 != '' @ num32 (static_size container) @ '' {'') @
        line (tab @ tab) ''return ssz.ErrInvalidOffset'' @
        line tab ''}''
      else
        line tab (''if offset'' @ NumToString dyn_idx @ '' < offset'' @
          NumToString (dyn_idx - 1) @ '' || offset'' @ NumToString dyn_idx @ '' > len(buf) {'') @
        line (tab @ tab) ''return ssz.ErrInvalidOffset'' @
        line tab ''}'')"

text \<open>
  The first loop over a container with dynamic fields; besides the text it collects
  \<open>dyn_offset_names\<close>.
\<close>

fun go_unmarshal_static ::
  "SszGenerator \<Rightarrow> SszContainerInfo \<Rightarrow> u32 \<Rightarrow> nat \<Rightarrow> FieldPtr list \<Rightarrow> string \<times> (FieldPtr \<times> nat) list" where
  "go_unmarshal_static G c offset dyn_idx [] = ([], [])"
| "go_unmarshal_static G c offset dyn_idx (p # ps) =
     (case field_infos c p of
        None \<Rightarrow> go_unmarshal_static G c offset dyn_idx ps
      | Some info \<Rightarrow>
          if is_dynamic info then
            (let (code, names) = go_unmarshal_static G c (offset + 4) (dyn_idx + 1) ps
             in (go_read_offset c offset dyn_idx @ code, (p, dyn_idx) # names))
          else
            (let (code, names) = go_unmarshal_static G c (offset + fixed_size info) dyn_idx ps
             in (go_GenUnmarshalField info (go_member G (field_at (gen_parser G) p)) offset tab @ code,
                 names)))"

definition go_unmarshal_range :: "SszGenerator \<Rightarrow> SszContainerInfo \<Rightarrow> FieldPtr \<Rightarrow> string \<Rightarrow> string \<Rightarrow> string" where
  "go_unmarshal_range G c p start_off end_off =
     (case field_infos c p of
        None \<Rightarrow> []
      | Some info \<Rightarrow>
          line tab ''{'' @
          line (tab @ tab) (''buf := buf['' @ start_off @ '':'' @ end_off @ '']'') @
          go_GenUnmarshalDynField (gen_parser G) info (go_member G (field_at (gen_parser G) p))
            (field_at (gen_parser G) p) (tab @ tab) @
          line tab ''}'')"

fun go_unmarshal_dynamic :: "SszGenerator \<Rightarrow> SszContainerInfo \<Rightarrow> (FieldPtr \<times> nat) list \<Rightarrow> string" where
  "go_unmarshal_dynamic G c [] = []"
| "go_unmarshal_dynamic G c ((p, oidx) # names) =
     go_unmarshal_range G c p (''offset'' @ NumToString oidx)
       (case names of
          [] \<Rightarrow> ''len(buf)''
        | (q, next_idx) # _ \<Rightarrow> ''offset'' @ NumToString next_idx) @
     go_unmarshal_dynamic G c names"

definition go_GenUnmarshalSSZ :: "SszGenerator \<Rightarrow> StructDef \<Rightarrow> SszContainerInfo \<Rightarrow> string" where
  "go_GenUnmarshalSSZ G struct_def container =
     line [] (''func (t *'' @ sd_name struct_def @ '') UnmarshalSSZ(buf []byte) error {'') @
     line tab (''if len(buf) < '' @ num32 (static_size container) @ '' {'') @
     line (tab @ tab) ''return ssz.ErrBufferTooSmall'' @
     line tab ''}'' @ nl @
     (if dynamic_fields container = [] then
        go_unmarshal_fixed G container 0 (all_fields container)
      else
        (let (code, names) = go_unmarshal_static G container 0 0 (all_fields container)
         in code @ nl @ go_unmarshal_dynamic G container names)) @
     line tab ''return nil'' @
     line [] ''}''"

end
