(* ===== verification/Go_Generator.thy ===== *)
theory Go_Generator
  imports Go_Marshal_Text Go_Hash_Text
begin

text \<open>
  The driver of the Go back end: the code of one type, the file it goes into, and \<open>generate\<close>,
  which writes one file for every struct and table of the schema.
\<close>

section \<open>One type\<close>

definition go_GenerateType :: "SszGenerator \<Rightarrow> StructDef \<Rightarrow> SszContainerInfo \<Rightarrow> string" where
  "go_GenerateType G struct_def container =
     go_GenGoStruct G struct_def container @ nl @
     go_GenSizeSSZ G struct_def container @ nl @
     go_GenMarshalSSZTo G struct_def container @ nl @
     go_GenMarshalSSZ struct_def @ nl @
     go_GenUnmarshalSSZ G struct_def container @ nl @
     go_GenHashTreeRoot struct_def @ nl @
     go_GenHashTreeRootWith G struct_def container"

section \<open>One file\<close>

text \<open>The loop that pops a character while the text ends in two newlines; here on the reversed
  text.\<close>

fun pop_newlines :: "string \<Rightarrow> string" where
  "pop_newlines (a # b # c # r) =
     (if a = CHR 0x0A \<and> b = CHR 0x0A then pop_newlines (b # c # r) else a # b # c # r)"
| "pop_newlines s = s"

definition strip_newlines :: "string \<Rightarrow> string" where
  "strip_newlines code = rev (pop_newlines (rev code))"

definition go_file_text :: "StructDef \<Rightarrow> string \<Rightarrow> string" where
  "go_file_text def classcode =
     (let ns = sd_namespace def;
          pkg_name = (if ns = [] then go_ToSnakeCase (sd_name def) else LastNamespacePart ns)
      in strip_newlines
          (line [] ''// Code generated by the FlatBuffers compiler. DO NOT EDIT.'' @ nl @
           line [] (''package '' @ pkg_name) @ nl @
           line [] ''import ('' @
           line tab (dq @ ''encoding/binary'' @ dq) @
           nl @
           line tab (''ssz '' @ dq @ ''github.com/google/flatbuffers/go/ssz'' @ dq) @
           line tab (dq @ ''github.com/pk910/dynamic-ssz/hasher'' @ dq) @
           line tab (dq @ ''github.com/pk910/dynamic-ssz/sszutils'' @ dq) @
           line [] '')'' @ nl @
           line [] ''var _ = binary.LittleEndian'' @
           line [] ''var _ = hasher.FastHasherPool'' @ nl @
           classcode))"

definition go_file_name :: "SszGenerator \<Rightarrow> StructDef \<Rightarrow> string" where
  "go_file_name G def =
     Directories (go_namer G) (sd_namespace def) @ go_ToSnakeCase (sd_name def) @ ''_ssz.go''"

text \<open>
  \<open>SaveType\<close>: \<open>save\<close> is the file saver of the parser's options.  The files written so far are
  the state; a failing save ends the run.
\<close>

type_synonym files = "(string \<times> string) list"

definition go_SaveType ::
  "(string \<Rightarrow> string \<Rightarrow> bool) \<Rightarrow> SszGenerator \<Rightarrow> StructDef \<Rightarrow> string \<Rightarrow> files \<Rightarrow> files res" where
  "go_SaveType save G def classcode written =
     (if classcode = [] then Inr written
      else
        (let code = go_file_text def classcode; filename = go_file_name G def
         in if save filename code then Inr (written @ [(filename, code)])
            else Inl (SaveFailed filename)))"

section \<open>All types\<close>

definition go_generate_struct ::
  "(string \<Rightarrow> string \<Rightarrow> bool) \<Rightarrow> nat \<Rightarrow> SszGenerator \<Rightarrow> StructPtr \<Rightarrow> files \<Rightarrow> files res" where
  "go_generate_struct save depth G s written =
     (let struct_def = struct_at (gen_parser G) s in
      if sd_generated struct_def then Inr written
      else bind_res (go_AnalyzeContainer depth (gen_parser G) s)
        (\<lambda>container. go_SaveType save G struct_def (go_GenerateType G struct_def container) written))"

definition go_generate :: "(string \<Rightarrow> string \<Rightarrow> bool) \<Rightarrow> nat \<Rightarrow> SszGenerator \<Rightarrow> files res" where
  "go_generate save depth G =
     fold_res (go_generate_struct save depth G) (structs_vec (gen_parser G)) []"

end
