(* ===== verification/Rust_View_Text.thy ===== *)
theory Rust_View_Text
  imports Rust_Hash_Text Go_Generator
begin

text \<open>
  The views of the Rust back end, \<open>src/idl_gen_ssz_rust.cpp\<close>: for every struct a second type over the
  encoded bytes, with a \<open>from_ssz_bytes\<close> that validates them, accessors that read them, and hashing.
  At the end, the file that the generator writes.
\<close>

section \<open>Validation\<close>

definition view_name :: "Parser \<Rightarrow> SszFieldInfo \<Rightarrow> string" where
  "view_name P info = info_struct_name P '''' info @ ''View''"

abbreviation names_struct :: "SszFieldInfo \<Rightarrow> bool" where
  "names_struct info \<equiv> info_struct info \<noteq> None"

definition rust_view_check :: "Parser \<Rightarrow> SszFieldInfo \<Rightarrow> u32 \<Rightarrow> string" where
  "rust_view_check P info offset =
     (if ssz_type info = SszBool then
        line sp8 (''if buf['' @ num32 offset @ ''] > 1 { return Err(SszError::InvalidBool); }'')
      else []) @
     (if ssz_type info = SszContainer \<and> names_struct info then
        line sp8 (view_name P info @ ''::from_ssz_bytes(&buf['' @ num32 offset @ ''..'' @
          num32 (offset + fixed_size info) @ ''])?;'')
      else [])"

fun rust_GenViewValidateFixed :: "Parser \<Rightarrow> SszContainerInfo \<Rightarrow> u32 \<Rightarrow> FieldPtr list \<Rightarrow> string" where
  "rust_GenViewValidateFixed P container offset [] = []"
| "rust_GenViewValidateFixed P container offset (p # ps) =
     (case field_infos container p of
        None \<Rightarrow> rust_GenViewValidateFixed P container offset ps
      | Some info \<Rightarrow>
          rust_view_check P info offset @
          rust_GenViewValidateFixed P container (offset + fixed_size info) ps)"

definition rust_view_offset :: "SszContainerInfo \<Rightarrow> u32 \<Rightarrow> nat \<Rightarrow> string" where
  "rust_view_offset container offset dyn_idx =
     line sp8 (''let _voff'' @ NumToString dyn_idx @ '' = u32::from_le_bytes(buf['' @ num32 offset @
       ''..'' @ num32 (offset + 4) @ ''].try_into().unwrap()) as usize;'') @
     (if dyn_idx = 0 then
        line sp8 (''if _voff0 != '' @ num32 (static_size container) @
          '' { return Err(SszError::InvalidOffset); }'')
      else
        line sp8 (''if _voff'' @ NumToString dyn_idx @ '' < _voff'' @ NumToString (dyn_idx - 1) @
          '' || _voff'' @ NumToString dyn_idx @ '' > buf.len() { return Err(SszError::InvalidOffset); }''))"

fun rust_view_static :: "Parser \<Rightarrow> SszContainerInfo \<Rightarrow> u32 \<Rightarrow> nat \<Rightarrow> FieldPtr list \<Rightarrow> string" where
  "rust_view_static P container offset dyn_idx [] = []"
| "rust_view_static P container offset dyn_idx (p # ps) =
     (case field_infos container p of
        None \<Rightarrow> rust_view_static P container offset dyn_idx ps
      | Some info \<Rightarrow>
          if is_dynamic info then
            rust_view_offset container offset dyn_idx @
            rust_view_static P container (offset + 4) (dyn_idx + 1) ps
          else
            rust_view_check P info offset @
            rust_view_static P container (offset + fixed_size info) dyn_idx ps)"

text \<open>The number of dynamic fields that the loop over all fields counts.\<close>

definition rust_dyn_count :: "SszContainerInfo \<Rightarrow> nat" where
  "rust_dyn_count container =
     length (filter (\<lambda>p. case field_infos container p of None \<Rightarrow> False | Some info \<Rightarrow> is_dynamic info)
       (all_fields container))"

definition rust_view_inner :: "string \<Rightarrow> string \<Rightarrow> string" where
  "rust_view_inner a b =
     line sp8 ''{'' @
     line sp12 (''let sl = &buf['' @ a @ ''..'' @ b @ ''];'') @
     line sp12 ''if !sl.is_empty() {'' @
     line sp16 ''if sl.len() < 4 { return Err(SszError::InvalidOffset); }'' @
     line sp16 ''let fo = u32::from_le_bytes(sl[0..4].try_into().unwrap()) as usize;'' @
     line sp16 ''if fo % 4 != 0 || fo > sl.len() { return Err(SszError::InvalidOffset); }'' @
     line sp16 ''let cnt = fo / 4;'' @
     line sp16 ''let mut prev = fo;'' @
     line sp16 ''for j in 1..cnt {'' @
     line sp20 ''let o = u32::from_le_bytes(sl[j*4..j*4+4].try_into().unwrap()) as usize;'' @
     line sp20 ''if o < prev || o > sl.len() { return Err(SszError::InvalidOffset); }'' @
     line sp20 ''prev = o;'' @
     line sp16 ''}'' @
     line sp12 ''}'' @
     line sp8 ''}''"

text \<open>
  The \<open>i\<close>-th of \<open>n\<close> dynamic fields; the code takes it from \<open>dynamic_fields\<close>, which has as many entries
  as the loop counted.
\<close>

definition rust_view_content :: "SszContainerInfo \<Rightarrow> nat \<Rightarrow> nat \<Rightarrow> string" where
  "rust_view_content container n i =
     (let a = ''_voff'' @ NumToString i;
          b = (if i + 1 < n then ''_voff'' @ NumToString (i + 1) else ''buf.len()'')
      in if i < length (dynamic_fields container) then
           (case field_infos container (dynamic_fields container ! i) of
              None \<Rightarrow> []
            | Some info \<Rightarrow>
                (if ssz_type info = SszList \<and> elem_is info SszContainer \<and> elem_dynamic info then
                   rust_view_inner a b
                 else []) @
                (if ssz_type info = SszList \<and> elem_is info SszContainer \<and> \<not> elem_dynamic info \<and>
                    elem_fixed_size info > 0 then
                   line sp8 (''if ('' @ b @ '' - '' @ a @ '') % '' @ num32 (elem_fixed_size info) @
                     '' != 0 { return Err(SszError::InvalidOffset); }'')
                 else []))
         else [])"

definition rust_GenViewValidateDynamic :: "Parser \<Rightarrow> SszContainerInfo \<Rightarrow> string" where
  "rust_GenViewValidateDynamic P container =
     (let n = rust_dyn_count container in
      rust_view_static P container 0 0 (all_fields container) @
      concat (map (rust_view_content container n) [0..<n]))"

section \<open>Accessors\<close>

text \<open>An accessor that gives out bytes; \<open>suffix\<close> is empty or \<open>_bytes\<close>.\<close>

definition rust_bytes_fn :: "string \<Rightarrow> string \<Rightarrow> string \<Rightarrow> string" where
  "rust_bytes_fn fname a b =
     line sp4 (''pub fn '' @ fname @ ''(&self) -> &'a [u8] { &self.0['' @ a @ ''..'' @ b @ ''] }'')"

definition rust_uint_fn :: "nat \<Rightarrow> string \<Rightarrow> u32 \<Rightarrow> u32 \<Rightarrow> string" where
  "rust_uint_fn w fname a b =
     line sp4 (''pub fn '' @ fname @ ''(&self) -> u'' @ NumToString w @ '' { u'' @ NumToString w @
       ''::from_le_bytes(self.0['' @ num32 a @ ''..'' @ num32 b @ ''].try_into().unwrap()) }'')"

definition rust_view_fn :: "string \<Rightarrow> string \<Rightarrow> string \<Rightarrow> string \<Rightarrow> string" where
  "rust_view_fn vname fname a b =
     line sp4 (''pub fn '' @ fname @ ''(&self) -> '' @ vname @ ''<'a> { '' @ vname @ ''(&self.0['' @
       a @ ''..'' @ b @ '']) }'')"

definition rust_view_vector :: "Parser \<Rightarrow> SszFieldInfo \<Rightarrow> string \<Rightarrow> u32 \<Rightarrow> string" where
  "rust_view_vector P info fname offset =
     (let s = num32 offset; e = num32 (offset + fixed_size info) in
      case elem_info info of
        None \<Rightarrow> rust_bytes_fn (fname @ ''_bytes'') s e
      | Some el \<Rightarrow>
          if ssz_type el = SszUint8 then rust_bytes_fn fname s e
          else if ssz_type el = SszContainer \<and> names_struct el then
            (let esize = num32 (fixed_size el); vname = view_name P el in
             line sp4 (''pub fn '' @ fname @ ''_len(&self) -> usize { '' @ num64 (info_limit info) @ '' }'') @
             line sp4 (''pub fn '' @ fname @ ''_at(&self, i: usize) -> '' @ vname @ ''<'a> { '' @ vname @
               ''(&self.0['' @ s @ '' + i * '' @ esize @ ''..'' @ s @ '' + (i + 1) * '' @ esize @ '']) }''))
          else rust_bytes_fn (fname @ ''_bytes'') s e)"

definition rust_GenViewAccessor :: "Parser \<Rightarrow> SszFieldInfo \<Rightarrow> string \<Rightarrow> u32 \<Rightarrow> string" where
  "rust_GenViewAccessor P info fname offset =
     (let s = num32 offset; e = num32 (offset + fixed_size info) in
      case ssz_type info of
        SszBool \<Rightarrow> line sp4 (''pub fn '' @ fname @ ''(&self) -> bool { self.0['' @ s @ ''] == 1 }'')
      | SszUint8 \<Rightarrow> line sp4 (''pub fn '' @ fname @ ''(&self) -> u8 { self.0['' @ s @ ''] }'')
      | SszUint16 \<Rightarrow> rust_uint_fn 16 fname offset (offset + 2)
      | SszUint32 \<Rightarrow> rust_uint_fn 32 fname offset (offset + 4)
      | SszUint64 \<Rightarrow> rust_uint_fn 64 fname offset (offset + 8)
      | SszUint128 \<Rightarrow> rust_bytes_fn fname s e
      | SszUint256 \<Rightarrow> rust_bytes_fn fname s e
      | SszBitvector \<Rightarrow> rust_bytes_fn fname s e
      | SszVector \<Rightarrow> rust_view_vector P info fname offset
      | SszContainer \<Rightarrow> (if names_struct info then rust_view_fn (view_name P info) fname s e else [])
      | _ \<Rightarrow> [])"

fun rust_GenViewFixedAccessors :: "Parser \<Rightarrow> SszContainerInfo \<Rightarrow> u32 \<Rightarrow> FieldPtr list \<Rightarrow> string" where
  "rust_GenViewFixedAccessors P container offset [] = []"
| "rust_GenViewFixedAccessors P container offset (p # ps) =
     (case field_infos container p of
        None \<Rightarrow> rust_GenViewFixedAccessors P container offset ps
      | Some info \<Rightarrow>
          rust_GenViewAccessor P info (rust_member P p) offset @
          rust_GenViewFixedAccessors P container (offset + fixed_size info) ps)"

text \<open>A list of structs of fixed size, and one of structs of variable size.\<close>

definition rust_view_structs :: "string \<Rightarrow> u32 \<Rightarrow> string \<Rightarrow> string \<Rightarrow> string \<Rightarrow> string" where
  "rust_view_structs vname esize fname a b =
     rust_bytes_fn (fname @ ''_bytes'') a b @
     line sp4 (''pub fn '' @ fname @ ''_len(&self) -> usize { ('' @ b @ '' - '' @ a @ '') / '' @ num32 esize @ '' }'') @
     line sp4 (''pub fn '' @ fname @ ''_at(&self, i: usize) -> '' @ vname @ ''<'a> { let s = '' @ a @ ''; '' @
       vname @ ''(&self.0[s + i * '' @ num32 esize @ ''..s + (i + 1) * '' @ num32 esize @ '']) }'')"

definition rust_view_dynamics :: "string \<Rightarrow> string \<Rightarrow> string \<Rightarrow> string \<Rightarrow> string" where
  "rust_view_dynamics vname fname a b =
     rust_bytes_fn (fname @ ''_bytes'') a b @
     line sp4 (''pub fn '' @ fname @ ''_len(&self) -> usize { let sl = self.'' @ fname @
       ''_bytes(); if sl.is_empty() { 0 } else { u32::from_le_bytes(sl[0..4].try_into().unwrap()) as usize / 4 } }'') @
     line sp4 (''pub fn '' @ fname @ ''_at(&self, i: usize) -> '' @ vname @ ''<'a> {'') @
     line sp8 (''let sl = self.'' @ fname @ ''_bytes();'') @
     line sp8 ''let s = u32::from_le_bytes(sl[i*4..i*4+4].try_into().unwrap()) as usize;'' @
     line sp8 (''let e = if i + 1 < self.'' @ fname @ ''_len() { u32::from_le_bytes(sl[(i+1)*4..(i+1)*4+4]'' @
       ''.try_into().unwrap()) as usize } else { sl.len() };'') @
     line sp8 (vname @ ''(&sl[s..e])'') @
     line sp4 ''}''"

definition rust_GenViewDynAccessor :: "Parser \<Rightarrow> SszFieldInfo \<Rightarrow> string \<Rightarrow> string \<Rightarrow> string \<Rightarrow> string" where
  "rust_GenViewDynAccessor P info fname a b =
     (case ssz_type info of
        SszList \<Rightarrow>
          (case elem_info info of
             None \<Rightarrow> rust_bytes_fn fname a b
           | Some el \<Rightarrow>
               if ssz_type el = SszUint8 then rust_bytes_fn fname a b
               else if ssz_type el = SszContainer \<and> names_struct el \<and> \<not> is_dynamic el then
                 rust_view_structs (view_name P el) (fixed_size el) fname a b
               else if ssz_type el = SszContainer \<and> names_struct el \<and> is_dynamic el then
                 rust_view_dynamics (view_name P el) fname a b
               else if ssz_type el = SszList then rust_bytes_fn (fname @ ''_bytes'') a b
               else rust_bytes_fn fname a b)
      | SszBitlist \<Rightarrow> rust_bytes_fn fname a b
      | SszContainer \<Rightarrow> (if names_struct info then rust_view_fn (view_name P info) fname a b else [])
      | _ \<Rightarrow> rust_bytes_fn (fname @ ''_bytes'') a b)"

text \<open>The private functions that read the offsets.\<close>

fun rust_view_offsets :: "SszContainerInfo \<Rightarrow> u32 \<Rightarrow> nat \<Rightarrow> FieldPtr list \<Rightarrow> string" where
  "rust_view_offsets container offset k [] = []"
| "rust_view_offsets container offset k (p # ps) =
     (case field_infos container p of
        None \<Rightarrow> rust_view_offsets container offset k ps
      | Some info \<Rightarrow>
          if is_dynamic info then
            line sp4 (''fn _off'' @ NumToString k @ ''(&self) -> usize { u32::from_le_bytes(self.0['' @
              num32 offset @ ''..'' @ num32 (offset + 4) @ ''].try_into().unwrap()) as usize }'') @
            rust_view_offsets container (offset + 4) (k + 1) ps
          else rust_view_offsets container (offset + fixed_size info) k ps)"

fun rust_view_accessors :: "Parser \<Rightarrow> SszContainerInfo \<Rightarrow> nat \<Rightarrow> u32 \<Rightarrow> nat \<Rightarrow> FieldPtr list \<Rightarrow> string" where
  "rust_view_accessors P container n offset k [] = []"
| "rust_view_accessors P container n offset k (p # ps) =
     (case field_infos container p of
        None \<Rightarrow> rust_view_accessors P container n offset k ps
      | Some info \<Rightarrow>
          if is_dynamic info then
            rust_GenViewDynAccessor P info (rust_member P p)
              (''self._off'' @ NumToString k @ ''()'')
              (if k + 1 < n then ''self._off'' @ NumToString (k + 1) @ ''()'' else ''self.0.len()'') @
            rust_view_accessors P container n (offset + 4) (k + 1) ps
          else
            rust_GenViewAccessor P info (rust_member P p) offset @
            rust_view_accessors P container n (offset + fixed_size info) k ps)"

definition rust_GenViewDynamicAccessors :: "Parser \<Rightarrow> SszContainerInfo \<Rightarrow> string" where
  "rust_GenViewDynamicAccessors P container =
     (let n = rust_dyn_count container in
      rust_view_offsets container 0 0 (all_fields container) @
      (if n > 0 then nl else []) @
      rust_view_accessors P container n 0 0 (all_fields container))"

section \<open>Hashing\<close>

definition has_complex :: "SszContainerInfo \<Rightarrow> bool" where
  "has_complex container =
     list_ex (\<lambda>p. case field_infos container p of
         None \<Rightarrow> False
       | Some info \<Rightarrow>
           ssz_type info \<in> {SszList, SszProgressiveList, SszBitlist} \<or>
           (ssz_type info = SszContainer \<and> is_dynamic info)) (all_fields container)"

definition rust_delegate :: "string \<Rightarrow> string" where
  "rust_delegate ind = line ind ''self.to_owned_type().tree_hash_with(h);'' @ line ind ''return;''"

definition rust_GenViewHashField :: "SszFieldInfo \<Rightarrow> string \<Rightarrow> string \<Rightarrow> string" where
  "rust_GenViewHashField info accessor ind =
     (case ssz_type info of
        SszBool \<Rightarrow> line ind (''h.put_bool('' @ accessor @ '');'')
      | SszUint8 \<Rightarrow> line ind (''h.put_u8('' @ accessor @ '');'')
      | SszUint16 \<Rightarrow> line ind (''h.put_u16('' @ accessor @ '');'')
      | SszUint32 \<Rightarrow> line ind (''h.put_u32('' @ accessor @ '');'')
      | SszUint64 \<Rightarrow> line ind (''h.put_u64('' @ accessor @ '');'')
      | SszUint128 \<Rightarrow> line ind (''h.put_bytes('' @ accessor @ '');'')
      | SszUint256 \<Rightarrow> line ind (''h.put_bytes('' @ accessor @ '');'')
      | SszVector \<Rightarrow> line ind (''h.put_bytes('' @ accessor @ '');'')
      | SszBitvector \<Rightarrow> line ind (''h.put_bytes('' @ accessor @ '');'')
      | SszContainer \<Rightarrow> line ind (accessor @ ''.tree_hash_with(h);'')
      | SszList \<Rightarrow>
          (if elem_is info SszUint8 then
             line ind ''{'' @
             line (ind @ sp4) ''let sub = h.index();'' @
             line (ind @ sp4) (''h.append_bytes32('' @ accessor @ '');'') @
             line (ind @ sp4) (''h.merkleize_with_mixin(sub, '' @ accessor @ ''.len() as u64, '' @
               num64 ((info_limit info + 31) div 32) @ '');'') @
             line ind ''}''
           else if elem_is info SszContainer then
             line ind ''// list hash delegated to to_owned_type()'' @ rust_delegate ind
           else line ind (''// complex list '' @ [CHR 0xE2, CHR 0x80, CHR 0x94] @ '' delegate'') @ rust_delegate ind)
      | SszBitlist \<Rightarrow> line ind (''h.put_bitlist('' @ accessor @ '', '' @ num64 (info_limit info) @ '');'')
      | SszProgressiveContainer \<Rightarrow> line ind (accessor @ ''.tree_hash_with(h);'')
      | SszProgressiveList \<Rightarrow> rust_delegate ind
      | SszUnion \<Rightarrow> [])"

definition rust_GenViewHashMethod :: "Parser \<Rightarrow> SszContainerInfo \<Rightarrow> string" where
  "rust_GenViewHashMethod P container =
     line sp4 ''pub fn tree_hash_with(&self, h: &mut Hasher) {'' @
     (if is_progressive container \<or> has_complex container then
        line sp8 ''self.to_owned_type().tree_hash_with(h);''
      else
        line sp8 ''let idx = h.index();'' @
        each_field container (all_fields container) (\<lambda>p info.
          rust_GenViewHashField info (''self.'' @ rust_member P p @ ''()'') sp8) @
        line sp8 ''h.merkleize(idx);'') @
     line sp4 ''}''"

section \<open>The type and its methods\<close>

definition rust_GenViewStruct :: "StructDef \<Rightarrow> string" where
  "rust_GenViewStruct struct_def =
     line [] (''/// Zero-copy view into SSZ-encoded `'' @ sd_name struct_def @ ''`.'') @
     line [] ''/// Reads fields directly from the underlying buffer.'' @
     line [] ''#[derive(Clone, Copy, Debug)]'' @
     line [] (''pub struct '' @ sd_name struct_def @ ''View<'a>(pub &'a [u8]);'')"

definition rust_root_method :: string where
  "rust_root_method =
     line sp4 ''pub fn tree_hash_root(&self) -> [u8; 32] {'' @
     line sp8 ''let mut h = HasherPool::get();'' @
     line sp8 ''self.tree_hash_with(&mut h);'' @
     line sp8 ''let root = h.finish();'' @
     line sp8 ''HasherPool::put(h);'' @
     line sp8 ''root'' @
     line sp4 ''}'' @ nl"

definition rust_GenViewImpl :: "Parser \<Rightarrow> StructDef \<Rightarrow> SszContainerInfo \<Rightarrow> string" where
  "rust_GenViewImpl P struct_def container =
     (let owned = sd_name struct_def; name = owned @ ''View'' in
      line [] (''impl<'a> '' @ name @ ''<'a> {'') @
      line sp4 ''pub fn from_ssz_bytes(buf: &'a [u8]) -> Result<Self, SszError> {'' @
      line sp8 (''if buf.len() < '' @ num32 (static_size container) @
        '' { return Err(SszError::BufferTooSmall); }'') @
      (if is_fixed container then
         rust_GenViewValidateFixed P container 0 (all_fields container) @
         line sp8 (''Ok(Self(&buf[..'' @ num32 (static_size container) @ '']))'')
       else
         rust_GenViewValidateDynamic P container @
         line sp8 ''Ok(Self(buf))'') @
      line sp4 ''}'' @ nl @
      line sp4 ''pub fn as_ssz_bytes(&self) -> &'a [u8] { self.0 }'' @ nl @
      (if dynamic_fields container = [] then
         rust_GenViewFixedAccessors P container 0 (all_fields container)
       else rust_GenViewDynamicAccessors P container) @
      line sp4 (''pub fn to_owned_type(&self) -> '' @ owned @ '' {'') @
      line sp8 (owned @ ''::from_ssz_bytes(self.0).unwrap()'') @
      line sp4 ''}'' @ nl @
      rust_root_method @
      rust_GenViewHashMethod P container @
      line [] ''}'')"


text \<open>
  The driver of the Rust back end: the \<open>impl\<close> block of a struct, the code of one type and its view,
  and \<open>generate\<close>, which writes one file for the schema.
\<close>

definition rust_GenImpl :: "Parser \<Rightarrow> StructDef \<Rightarrow> SszContainerInfo \<Rightarrow> string" where
  "rust_GenImpl P struct_def container =
     line [] (''impl '' @ sd_name struct_def @ '' {'') @
     rust_GenSizeMethod P container @
     rust_GenMarshalMethod P container @
     line sp4 ''pub fn as_ssz_bytes(&self) -> Vec<u8> {'' @
     line sp8 ''let mut buf = Vec::with_capacity(self.ssz_bytes_len());'' @
     line sp8 ''self.ssz_append(&mut buf);'' @
     line sp8 ''buf'' @
     line sp4 ''}'' @ nl @
     rust_GenUnmarshalMethod P container @
     rust_root_method @
     rust_GenHashMethod P container @
     line [] ''}''"

definition rust_GenerateType :: "Parser \<Rightarrow> StructDef \<Rightarrow> SszContainerInfo \<Rightarrow> string" where
  "rust_GenerateType P struct_def container =
     rust_GenRustStruct P struct_def container @ nl @
     rust_GenImpl P struct_def container @ nl @
     rust_GenViewStruct struct_def @ nl @
     rust_GenViewImpl P struct_def container"

definition rust_file_header :: string where
  "rust_file_header =
     line [] ''// Code generated by the FlatBuffers compiler. DO NOT EDIT.'' @
     line [] ''#![allow(unused_imports, dead_code, clippy::all)]'' @ nl @
     line [] ''use ssz_flatbuffers::{SszError, Hasher, HasherPool};'' @ nl"

text \<open>The loop over the structs of the schema; \<open>all_code\<close> is the text so far.\<close>

definition rust_generate_struct :: "nat \<Rightarrow> Parser \<Rightarrow> StructPtr \<Rightarrow> string \<Rightarrow> string res" where
  "rust_generate_struct depth P s all_code =
     (let struct_def = struct_at P s in
      if sd_generated struct_def then Inr all_code
      else bind_res (rust_AnalyzeContainer depth P s)
        (\<lambda>container. Inr (all_code @ rust_GenerateType P struct_def container @ nl)))"

definition rust_generate ::
  "(string \<Rightarrow> string \<Rightarrow> bool) \<Rightarrow> nat \<Rightarrow> Parser \<Rightarrow> string \<Rightarrow> string \<Rightarrow> files res" where
  "rust_generate save depth P path file_name =
     bind_res (fold_res (rust_generate_struct depth P) (structs_vec P) rust_file_header)
       (\<lambda>all_code.
          let filename = path @ rust_ToSnakeCase file_name @ ''_ssz.rs''
          in if save filename all_code then Inr [(filename, all_code)] else Inl (SaveFailed filename))"

text \<open>
  The outcome of a run: the first error of an analysis, or one file with the header and the code of
  the structs that are not marked as generated, in the order of the schema.
\<close>

fun collect_res :: "('a \<Rightarrow> 'b res) \<Rightarrow> 'a list \<Rightarrow> 'b list res" where
  "collect_res f [] = Inr []"
| "collect_res f (x # xs) = bind_res (f x) (\<lambda>y. bind_res (collect_res f xs) (\<lambda>ys. Inr (y # ys)))"

lemma rust_generate_text:
  "fold_res (rust_generate_struct depth P) ss code =
   bind_res (collect_res (rust_AnalyzeContainer depth P) (filter (\<lambda>s. \<not> sd_generated (struct_at P s)) ss))
     (\<lambda>cs. Inr (code @ concat (map2 (\<lambda>s c. rust_GenerateType P (struct_at P s) c @ nl)
       (filter (\<lambda>s. \<not> sd_generated (struct_at P s)) ss) cs)))"
proof (induction ss arbitrary: code)
  case (Cons s ss)
  show ?case
  proof (cases "sd_generated (struct_at P s)")
    case True
    with Cons.IH show ?thesis by (simp add: rust_generate_struct_def Let_def)
  next
    case False
    then have "rust_generate_struct depth P s code = bind_res (rust_AnalyzeContainer depth P s)
        (\<lambda>c. Inr (code @ rust_GenerateType P (struct_at P s) c @ nl))"
      by (simp add: rust_generate_struct_def Let_def)
    with False show ?thesis
      by (cases "rust_AnalyzeContainer depth P s";
          cases "collect_res (rust_AnalyzeContainer depth P) (filter (\<lambda>s. \<not> sd_generated (struct_at P s)) ss)")
        (simp_all add: Cons.IH)
  qed
qed simp

end
