(* ===== verification/Emit_Program.thy ===== *)
theory Emit_Program
  imports Go_Lang Go_Names
begin

text \<open>
  The program that a back end emits for a container, apart from its text: for every info the
  statements that marshal and measure a field, for every container the bodies of the two methods.
  The back ends differ in the names of members and in how they walk over a vector; a \<open>dialect\<close>
  says how.
\<close>

section \<open>Dialects\<close>

record dialect =
  dl_member :: "FieldPtr \<Rightarrow> string" \<comment> \<open>the name of the member for a field\<close>
  dl_label :: "FieldPtr \<Rightarrow> string" \<comment> \<open>its name in comments\<close>
  dl_index_loops :: bool \<comment> \<open>vectors are walked by index, not by value\<close>
  dl_size_progressive :: bool \<comment> \<open>progressive containers count as containers in the size\<close>
  dl_size_bytes :: bool \<comment> \<open>the size of a list of bytes is its length, not a product\<close>

section \<open>Statements of a field\<close>

definition prim_stmts :: "SszType \<Rightarrow> gexpr \<Rightarrow> gstmt list" where
  "prim_stmts t e =
     (case t of
        SszBool \<Rightarrow> [IfElse e [AppendConst True] [AppendConst False]]
      | SszUint16 \<Rightarrow> [AppendUint 16 e]
      | SszUint32 \<Rightarrow> [AppendUint 32 e]
      | SszUint64 \<Rightarrow> [AppendUint 64 e]
      | _ \<Rightarrow> [])"

definition offset_list :: "gexpr \<Rightarrow> gstmt list \<Rightarrow> gstmt list" where
  "offset_list e body =
     [Block
       [DeclLen ''listStart'',
        ForEach e [AppendZeros],
        ForBoth ''i'' ''item'' e
          (PutLen (PElem ''listStart'' ''i'' 4) ''listStart'' # body)]]"

definition vector_stmts :: "bool \<Rightarrow> SszFieldInfo \<Rightarrow> gexpr \<Rightarrow> gstmt list" where
  "vector_stmts ix info e =
     (if elem_is info SszUint8 then [AppendArray e]
      else if elem_is info SszContainer then
        (if ix then [ForIndex ''i'' e [MarshalInto (GIndex e ''i'')]]
         else [ForValue ''item'' e [MarshalInto (GLocal ''item'')]])
      else if elem_info info \<noteq> None then
        (if ix then [ForIndex ''i'' e (prim_stmts (elem_ssz_type info) (GIndex e ''i''))]
         else [ForValue ''v'' e (prim_stmts (elem_ssz_type info) (GLocal ''v''))])
      else [])"

definition list_stmts :: "SszFieldInfo \<Rightarrow> gexpr \<Rightarrow> gstmt list" where
  "list_stmts info e =
     (if elem_is info SszList then offset_list e [AppendSlice (GLocal ''item'')]
      else if elem_is info SszUint8 then [AppendSlice e]
      else if elem_is info SszContainer then
        (if elem_dynamic info then offset_list e [MarshalInto (GLocal ''item'')]
         else [ForValue ''item'' e [MarshalInto (GLocal ''item'')]])
      else if elem_info info \<noteq> None then
        [ForValue ''v'' e (prim_stmts (elem_ssz_type info) (GLocal ''v''))]
      else [AppendSlice e])"

definition field_stmts :: "bool \<Rightarrow> SszFieldInfo \<Rightarrow> gexpr \<Rightarrow> gstmt list" where
  "field_stmts ix info e =
     (case ssz_type info of
        SszBool \<Rightarrow> [IfElse e [AppendConst True] [AppendConst False]]
      | SszUint8 \<Rightarrow> [AppendByte e]
      | SszUint16 \<Rightarrow> [AppendUint 16 e]
      | SszUint32 \<Rightarrow> [AppendUint 32 e]
      | SszUint64 \<Rightarrow> [AppendUint 64 e]
      | SszUint128 \<Rightarrow> [AppendArray e]
      | SszUint256 \<Rightarrow> [AppendArray e]
      | SszVector \<Rightarrow> vector_stmts ix info e
      | SszProgressiveList \<Rightarrow> list_stmts info e
      | SszList \<Rightarrow> list_stmts info e
      | SszBitlist \<Rightarrow> [AppendSlice e]
      | SszBitvector \<Rightarrow> [AppendArray e]
      | SszProgressiveContainer \<Rightarrow> [MarshalInto e]
      | SszContainer \<Rightarrow> [MarshalInto e]
      | SszUnion \<Rightarrow> [])"

definition size_stmts :: "bool \<Rightarrow> bool \<Rightarrow> SszFieldInfo \<Rightarrow> gexpr \<Rightarrow> gstmt list" where
  "size_stmts pc lb info e =
     (let list_size =
        (if elem_is info SszList then
           [SizeAddMul e 4, ForValue ''item'' e [SizeAddLen (GLocal ''item'')]]
         else if elem_is info SszContainer \<and> elem_dynamic info then
           [SizeAddMul e 4, ForValue ''item'' e [SizeAddCall (GLocal ''item'')]]
         else if lb \<and> elem_is info SszUint8 then [SizeAddLen e]
         else if elem_info info \<noteq> None then [SizeAddMul e (unat (elem_fixed_size info))]
         else [SizeAddLen e])
      in case ssz_type info of
           SszProgressiveList \<Rightarrow> list_size
         | SszList \<Rightarrow> list_size
         | SszBitlist \<Rightarrow> [SizeAddLen e]
         | SszContainer \<Rightarrow> [SizeAddCall e]
         | SszProgressiveContainer \<Rightarrow> (if pc then [SizeAddCall e] else [])
         | _ \<Rightarrow> [])"

section \<open>Method bodies\<close>

abbreviation member_expr :: "dialect \<Rightarrow> FieldPtr \<Rightarrow> gexpr" where
  "member_expr D p \<equiv> GMember (dl_member D p)"

abbreviation dl_field_stmts :: "dialect \<Rightarrow> FieldPtr \<times> SszFieldInfo \<Rightarrow> gstmt list" where
  "dl_field_stmts D f \<equiv> field_stmts (dl_index_loops D) (snd f) (member_expr D (fst f))"

abbreviation dl_size_stmts :: "dialect \<Rightarrow> FieldPtr \<times> SszFieldInfo \<Rightarrow> gstmt list" where
  "dl_size_stmts D f \<equiv> size_stmts (dl_size_progressive D) (dl_size_bytes D) (snd f) (member_expr D (fst f))"

text \<open>The fields of a container with their infos.\<close>

definition infos_of :: "SszContainerInfo \<Rightarrow> FieldPtr list \<Rightarrow> (FieldPtr \<times> SszFieldInfo) list" where
  "infos_of c ps = concat (map (\<lambda>p. case field_infos c p of None \<Rightarrow> [] | Some i \<Rightarrow> [(p, i)]) ps)"

fun static_stmts :: "dialect \<Rightarrow> nat \<Rightarrow> (FieldPtr \<times> SszFieldInfo) list \<Rightarrow> gstmt list" where
  "static_stmts D idx [] = []"
| "static_stmts D idx ((p, i) # ps) =
     (if is_dynamic i then
        [Comment (''Offset for '' @ sq @ dl_label D p @ sq),
         DeclLen (''offset'' @ NumToString idx), AppendZeros] @ static_stmts D (idx + 1) ps
      else
        Comment (''Field '' @ sq @ dl_label D p @ sq) #
        dl_field_stmts D (p, i) @ static_stmts D idx ps)"

fun dynamic_stmts :: "dialect \<Rightarrow> nat \<Rightarrow> (FieldPtr \<times> SszFieldInfo) list \<Rightarrow> gstmt list" where
  "dynamic_stmts D idx [] = []"
| "dynamic_stmts D idx ((p, i) # ps) =
     (if is_dynamic i then
        [Comment (''Dynamic field '' @ sq @ dl_label D p @ sq),
         PutLen (PAt (''offset'' @ NumToString idx)) ''dstlen''] @
        dl_field_stmts D (p, i) @ dynamic_stmts D (idx + 1) ps
      else dynamic_stmts D idx ps)"

definition marshal_body :: "dialect \<Rightarrow> SszContainerInfo \<Rightarrow> gstmt list" where
  "marshal_body D c =
     DstIsBuf #
     (if dynamic_fields c = [] then
        concat (map (dl_field_stmts D) (infos_of c (all_fields c)))
      else
        [DeclLen ''dstlen'', Blank] @ static_stmts D 0 (infos_of c (all_fields c)) @
        [Blank] @ dynamic_stmts D 0 (infos_of c (all_fields c)))"

definition size_body :: "dialect \<Rightarrow> SszContainerInfo \<Rightarrow> gstmt list" where
  "size_body D c =
     SizeInit (unat (static_size c)) #
     concat (map (dl_size_stmts D) (infos_of c (dynamic_fields c)))"

lemma infos_of_simps [simp]:
  "infos_of c [] = []"
  "infos_of c (p # ps) =
     (case field_infos c p of None \<Rightarrow> [] | Some i \<Rightarrow> [(p, i)]) @ infos_of c ps"
  by (simp_all add: infos_of_def)

end
