(* ===== verification/Go_Program.thy ===== *)
theory Go_Program
  imports Emit_Program Go_Generator
begin

text \<open>
  The dialect of the Go back end, and the proofs that the text emitted by \<open>Go_Marshal_Text\<close> is the
  text of the statements of \<open>Emit_Program\<close>.
\<close>

section \<open>The dialect\<close>

definition go_dialect :: "SszGenerator \<Rightarrow> dialect" where
  "go_dialect G =
     \<lparr>dl_member = (\<lambda>p. go_Field G (field_at (gen_parser G) p)),
      dl_label = (\<lambda>p. fd_name (field_at (gen_parser G) p)), dl_index_loops = True,
      dl_size_progressive = False, dl_size_bytes = False\<rparr>"

lemma go_dialect_simps [simp]:
  "dl_member (go_dialect G) p = go_Field G (field_at (gen_parser G) p)"
  "dl_label (go_dialect G) p = fd_name (field_at (gen_parser G) p)"
  "dl_index_loops (go_dialect G)" "\<not> dl_size_progressive (go_dialect G)" "\<not> dl_size_bytes (go_dialect G)"
  by (simp_all add: go_dialect_def)

section \<open>The emitted text is the text of the statements\<close>

lemma num_literals:
  "NumToString 4 = ''4''" "NumToString 16 = ''16''" "NumToString 32 = ''32''" "NumToString 64 = ''64''"
  by (code_simp, code_simp, code_simp, code_simp)

lemma print_prim_array:
  "elem_info info \<noteq> None \<Longrightarrow>
   go_GenMarshalPrimitiveArray info (pp_expr e) ind =
   pp_stmts ind [ForIndex ''i'' e (prim_stmts (elem_ssz_type info) (GIndex e ''i''))]"
  by (cases "elem_ssz_type info")
     (simp_all add: go_GenMarshalPrimitiveArray_def prim_stmts_def num_literals)

lemma print_prim_slice:
  "elem_info info \<noteq> None \<Longrightarrow>
   go_GenMarshalPrimitiveSlice info (pp_expr e) ind =
   pp_stmts ind [ForValue ''v'' e (prim_stmts (elem_ssz_type info) (GLocal ''v''))]"
  by (cases "elem_ssz_type info")
     (simp_all add: go_GenMarshalPrimitiveSlice_def prim_stmts_def num_literals)

lemma print_vector: "go_marshal_vector info (pp_expr e) ind = pp_stmts ind (vector_stmts True info e)"
  by (simp add: go_marshal_vector_def vector_stmts_def print_prim_array)

lemma print_list: "go_marshal_list info (pp_expr e) ind = pp_stmts ind (list_stmts info e)"
  by (simp add: go_marshal_list_def list_stmts_def offset_list_def print_prim_slice
      num_literals)

lemma print_field: "go_GenMarshalField info (pp_expr e) ind = pp_stmts ind (field_stmts True info e)"
  by (cases "ssz_type info")
     (simp_all add: go_GenMarshalField_def field_stmts_def print_vector print_list
       go_marshal_container_def num_literals)

lemma print_size: "go_GenSizeField info (pp_expr e) ind = pp_stmts ind (size_stmts False False info e)"
  by (cases "ssz_type info")
     (simp_all add: go_GenSizeField_def size_stmts_def Let_def num_literals)

lemma member_text: "go_member G (field_at (gen_parser G) p) = pp_expr (member_expr (go_dialect G) p)"
  by (simp add: go_member_def)

lemma print_member:
  "go_GenMarshalField i (go_member G (field_at (gen_parser G) p)) ind =
   pp_stmts ind (field_stmts True i (member_expr (go_dialect G) p))"
  by (simp only: member_text print_field)

lemma print_each:
  "(\<And>p i. body p i = pp_stmts ind (stmts (p, i))) \<Longrightarrow>
   each_field c ps body = pp_stmts ind (concat (map stmts (infos_of c ps)))"
  by (induction ps) (auto split: option.splits)

lemma print_static:
  "number_dynamic (\<lambda>idx p. go_static_field G idx (field_at (gen_parser G) p)) c idx ps =
   pp_stmts tab (static_stmts (go_dialect G) idx (infos_of c ps))"
  by (induction ps arbitrary: idx)
     (auto simp: go_static_field_def print_member split: option.splits)

lemma print_dynamic:
  "number_dynamic (\<lambda>idx p. go_dynamic_field G idx (field_at (gen_parser G) p)) c idx ps =
   pp_stmts tab (dynamic_stmts (go_dialect G) idx (infos_of c ps))"
  by (induction ps arbitrary: idx)
     (auto simp: go_dynamic_field_def print_member split: option.splits)

lemma print_marshal:
  "go_GenMarshalSSZTo G sd c =
     line [] (''func (t *'' @ sd_name sd @ '') MarshalSSZTo(buf []byte) (dst []byte, err error) {'') @
     pp_stmts tab (marshal_body (go_dialect G) c) @
     line tab ''return dst, err'' @ line [] ''}''"
proof -
  have "each_field c ps (\<lambda>p info. go_GenMarshalField info
      (go_member G (field_at (gen_parser G) p)) tab) =
      pp_stmts tab (concat (map (dl_field_stmts (go_dialect G)) (infos_of c ps)))" for ps
    by (rule print_each) (simp add: print_member)
  then show ?thesis
    by (simp add: go_GenMarshalSSZTo_def marshal_body_def print_static print_dynamic)
qed

lemma print_size_body:
  "\<not> is_fixed c \<Longrightarrow>
   go_GenSizeSSZ G sd c =
     line [] (''func (t *'' @ sd_name sd @ '') SizeSSZ() int {'') @
     pp_stmts tab (size_body (go_dialect G) c) @
     line tab ''return size'' @ line [] ''}''"
proof -
  assume c: "\<not> is_fixed c"
  have "each_field c ps (\<lambda>p info. go_GenSizeField info
      (go_member G (field_at (gen_parser G) p)) tab) =
      pp_stmts tab (concat (map (dl_size_stmts (go_dialect G)) (infos_of c ps)))" for ps
    by (rule print_each) (simp only: member_text print_size go_dialect_simps fst_conv snd_conv)
  with c show ?thesis by (simp add: go_GenSizeSSZ_def size_body_def)
qed

end
