(* ===== verification/Rust_Program.thy ===== *)
theory Rust_Program
  imports Rust_Text Go_Program
begin

text \<open>
  The dialect of the Rust back end, the Rust text of the statements of \<open>Emit_Program\<close>, and the proofs
  that the text emitted by \<open>Rust_Text\<close> is the text of those statements.
\<close>

section \<open>The dialect\<close>

definition rust_dialect :: "Parser \<Rightarrow> dialect" where
  "rust_dialect P =
     \<lparr>dl_member = rust_member P, dl_label = rust_member P, dl_index_loops = False,
      dl_size_progressive = True, dl_size_bytes = False\<rparr>"

lemma rust_dialect_simps [simp]:
  "dl_member (rust_dialect P) = rust_member P"
  "\<not> dl_index_loops (rust_dialect P)" "dl_size_progressive (rust_dialect P)" "\<not> dl_size_bytes (rust_dialect P)"
  by (simp_all add: rust_dialect_def)

section \<open>Rust text\<close>

text \<open>The names that the Rust code gives to the local variables.\<close>

definition rs_name :: "string \<Rightarrow> string" where
  "rs_name x =
     (if x = ''listStart'' then ''list_start'' else if x = ''subIdx'' then ''sub'' else x)"

text \<open>
  An expression, an expression behind \<open>&\<close>, and the value of an expression: a local variable of a
  loop over a reference is a reference.
\<close>

fun rs_expr :: "gexpr \<Rightarrow> string" where
  "rs_expr (GMember f) = ''self.'' @ f"
| "rs_expr (GLocal x) = x"
| "rs_expr (GIndex e i) = rs_expr e @ ''['' @ i @ '']''"

fun rs_ref :: "gexpr \<Rightarrow> string" where
  "rs_ref (GLocal x) = x"
| "rs_ref e = ''&'' @ rs_expr e"

fun rs_value :: "gexpr \<Rightarrow> string" where
  "rs_value (GLocal x) = ''*'' @ x"
| "rs_value e = rs_expr e"

fun rs_pos :: "gpos \<Rightarrow> string" where
  "rs_pos (PAt x) = rs_name x"
| "rs_pos (PElem x i k) = rs_name x @ '' + '' @ i @ '' * '' @ NumToString k"

text \<open>The statements that fit on one line, and the loops whose body stands on the line of the loop.\<close>

fun rs_text :: "gstmt \<Rightarrow> string" where
  "rs_text (DeclLen x) = ''let '' @ rs_name x @ '' = buf.len();''"
| "rs_text (AppendByte e) = ''buf.push('' @ rs_value e @ '');''"
| "rs_text (AppendConst b) = (if b then ''buf.push(1);'' else ''buf.push(0);'')"
| "rs_text AppendZeros = ''buf.extend_from_slice(&[0u8; 4]);''"
| "rs_text (AppendSlice e) = ''buf.extend_from_slice('' @ rs_ref e @ '');''"
| "rs_text (AppendArray e) = ''buf.extend_from_slice('' @ rs_ref e @ '');''"
| "rs_text (AppendUint w e) = ''buf.extend_from_slice(&'' @ rs_expr e @ ''.to_le_bytes());''"
| "rs_text (IfElse e a b) = ''buf.push(if '' @ rs_value e @ '' { 1 } else { 0 });''"
| "rs_text (MarshalInto e) = rs_expr e @ ''.ssz_append(buf);''"
| "rs_text (SizeInit n) = ''let mut size = '' @ NumToString n @ ''usize;''"
| "rs_text (SizeAddMul e k) = ''size += '' @ rs_expr e @ ''.len() * '' @ NumToString k @ '';''"
| "rs_text (SizeAddLen e) = ''size += '' @ rs_expr e @ ''.len();''"
| "rs_text (SizeAddCall e) = ''size += '' @ rs_expr e @ ''.ssz_bytes_len();''"
| "rs_text s = []"

definition rs_inline :: "gstmt list \<Rightarrow> string" where
  "rs_inline b = ''{ '' @ concat (map rs_text b) @ '' }''"

fun rs_stmt :: "string \<Rightarrow> gstmt \<Rightarrow> string"
  and rs_stmts :: "string \<Rightarrow> gstmt list \<Rightarrow> string" where
  "rs_stmt ind (Comment s) = []"
| "rs_stmt ind Blank = []"
| "rs_stmt ind DstIsBuf = []"
| "rs_stmt ind (PutLen p base) =
     line ind (''let off = ((buf.len() - '' @ rs_name base @ '') as u32).to_le_bytes();'') @
     line ind (''buf['' @ rs_pos p @ ''..'' @ rs_pos p @ '' + 4].copy_from_slice(&off);'')"
| "rs_stmt ind (ForIndex i e b) =
     line ind (''for '' @ i @ '' in 0..'' @ rs_expr e @ ''.len() {'') @ rs_stmts (ind @ sp4) b @ line ind ''}''"
| "rs_stmt ind (ForValue x e b) =
     (if x = ''item'' then line ind (''for item in '' @ rs_ref e @ '' '' @ rs_inline b)
      else line ind (''for '' @ x @ '' in '' @ rs_ref e @ '' {'') @ rs_stmts (ind @ sp4) b @ line ind ''}'')"
| "rs_stmt ind (ForEach e b) = line ind (''for _ in '' @ rs_ref e @ '' '' @ rs_inline b)"
| "rs_stmt ind (ForBoth i x e b) =
     line ind (''for ('' @ i @ '', '' @ x @ '') in '' @ rs_expr e @ ''.iter().enumerate() {'') @
     rs_stmts (ind @ sp4) b @ line ind ''}''"
| "rs_stmt ind (Block b) = line ind ''{'' @ rs_stmts (ind @ sp4) b @ line ind ''}''"
| "rs_stmt ind s = line ind (rs_text s)"
| "rs_stmts ind [] = []"
| "rs_stmts ind (s # ss) = rs_stmt ind s @ rs_stmts ind ss"

lemma rs_stmts_append [simp]: "rs_stmts ind (xs @ ys) = rs_stmts ind xs @ rs_stmts ind ys"
  by (induction xs) auto

section \<open>The emitted text is the text of the statements\<close>

lemma print_rust_prims:
  "elem_info info \<noteq> None \<Longrightarrow>
   rust_GenMarshalPrimitiveArray info (''self.'' @ f) ind =
   rs_stmts ind [ForValue ''v'' (GMember f) (prim_stmts (elem_ssz_type info) (GLocal ''v''))]"
  by (cases "elem_ssz_type info")
     (simp_all add: rust_GenMarshalPrimitiveArray_def prim_stmts_def)

lemma print_rust_offset_list:
  "rust_offset_list (''self.'' @ f) ind (rs_text s) = rs_stmts ind (offset_list (GMember f) [s])"
  if "rs_stmt (ind @ sp8) s = line (ind @ sp8) (rs_text s)" for ind f s
  using that by (simp add: rust_offset_list_def offset_list_def rs_inline_def rs_name_def num_literals)

lemma print_rust_list: "rust_marshal_list info (''self.'' @ f) ind = rs_stmts ind (list_stmts info (GMember f))"
  using print_rust_offset_list [of ind "AppendSlice (GLocal ''item'')" f]
    print_rust_offset_list [of ind "MarshalInto (GLocal ''item'')" f]
  by (simp add: rust_marshal_list_def list_stmts_def rust_GenMarshalPrimitiveSlice_def print_rust_prims [simplified]
      rs_inline_def)

lemma print_rust_field:
  "rust_GenMarshalField info (''self.'' @ f) ind = rs_stmts ind (field_stmts False info (GMember f))"
  by (cases "ssz_type info")
     (simp_all add: rust_GenMarshalField_def field_stmts_def vector_stmts_def print_rust_list [simplified]
       print_rust_prims [simplified] rs_inline_def)

lemma print_rust_size: "rust_GenSizeField info (''self.'' @ f) = rs_stmts sp8 (size_stmts True False info (GMember f))"
  by (cases "ssz_type info")
     (simp_all add: rust_GenSizeField_def size_stmts_def Let_def num_literals rs_inline_def)

lemma rust_each:
  "(\<And>p i. body p i = rs_stmts ind (stmts (p, i))) \<Longrightarrow>
   each_field c ps body = rs_stmts ind (concat (map stmts (infos_of c ps)))"
  by (induction ps) (auto split: option.splits)

lemma print_rust_static:
  "rust_static_fields P c idx ps = rs_stmts sp8 (static_stmts (rust_dialect P) idx (infos_of c ps))"
  by (induction ps arbitrary: idx) (auto simp: print_rust_field [simplified] rs_name_def split: option.splits)

lemma print_rust_dynamic:
  "rust_dynamic_fields P c idx ps = rs_stmts sp8 (dynamic_stmts (rust_dialect P) idx (infos_of c ps))"
  by (induction ps arbitrary: idx) (auto simp: print_rust_field [simplified] rs_name_def split: option.splits)

lemma print_rust_marshal:
  "rust_GenMarshalMethod P c =
     line sp4 ''pub fn ssz_append(&self, buf: &mut Vec<u8>) {'' @
     rs_stmts sp8 (marshal_body (rust_dialect P) c) @ line sp4 ''}'' @ nl"
proof -
  have "each_field c ps (\<lambda>p info. rust_GenMarshalField info (''self.'' @ rust_member P p) sp8) =
      rs_stmts sp8 (concat (map (dl_field_stmts (rust_dialect P)) (infos_of c ps)))" for ps
    by (rule rust_each) (simp add: print_rust_field [simplified])
  then show ?thesis
    by (simp add: rust_GenMarshalMethod_def marshal_body_def print_rust_static print_rust_dynamic rs_name_def)
qed

lemma print_rust_size_body:
  "\<not> is_fixed c \<Longrightarrow>
   rust_GenSizeMethod P c =
     line sp4 ''pub fn ssz_bytes_len(&self) -> usize {'' @
     rs_stmts sp8 (size_body (rust_dialect P) c) @ line sp8 ''size'' @ line sp4 ''}'' @ nl"
proof -
  assume c: "\<not> is_fixed c"
  have "each_field c ps (\<lambda>p info. rust_GenSizeField info (''self.'' @ rust_member P p)) =
      rs_stmts sp8 (concat (map (dl_size_stmts (rust_dialect P)) (infos_of c ps)))" for ps
    by (rule rust_each) (simp add: print_rust_size [simplified])
  with c show ?thesis by (simp add: rust_GenSizeMethod_def size_body_def)
qed

end
