(* ===== verification/Go_Decode_Lang.thy ===== *)
theory Go_Decode_Lang
  imports Go_Lang
begin

text \<open>
  The part of the Go language that the emitted \<open>UnmarshalSSZ\<close> methods use: its syntax, the text
  of a statement and what a statement does.  A slice keeps the bytes up to its capacity, since
  Go's slice expressions are checked against the capacity and its index expressions against
  the length.  A method returns, returns an error, or panics; a statement that Go would not compile
  (an undeclared variable, an operand of the wrong type) counts as a panic.  \<open>int\<close> has 64 bits,
  which the numbers here, made of 32-bit reads, never reach; allocation always succeeds.
\<close>

section \<open>Outcomes\<close>

datatype 'a gores =
    Done 'a
  | Fails string
  | Panics

fun go_bind :: "'a gores \<Rightarrow> ('a \<Rightarrow> 'b gores) \<Rightarrow> 'b gores" where
  "go_bind (Done x) f = f x"
| "go_bind (Fails e) f = Fails e"
| "go_bind Panics f = Panics"

definition go_map :: "('a \<Rightarrow> 'b) \<Rightarrow> 'a gores \<Rightarrow> 'b gores" where
  "go_map f m = go_bind m (\<lambda>x. Done (f x))"

definition or_panic :: "'a option \<Rightarrow> 'a gores" where
  "or_panic x = (case x of None \<Rightarrow> Panics | Some y \<Rightarrow> Done y)"

fun go_fold :: "('a \<Rightarrow> 's \<Rightarrow> 's gores) \<Rightarrow> 'a list \<Rightarrow> 's \<Rightarrow> 's gores" where
  "go_fold f [] s = Done s"
| "go_fold f (x # xs) s = go_bind (f x s) (go_fold f xs)"

lemma go_map_simps [simp]:
  "go_map f (Done x) = Done (f x)" "go_map f (Fails e) = Fails e" "go_map f Panics = Panics"
  by (simp_all add: go_map_def)

lemma or_panic_simps [simp]: "or_panic (Some x) = Done x" "or_panic None = Panics"
  by (simp_all add: or_panic_def)

section \<open>Syntax\<close>

text \<open>Expressions of type \<open>int\<close>; the variants with blanks differ in the text only.\<close>

datatype iexpr =
    INum nat
  | IVar string
  | ILen
  | IByte iexpr
  | IUint32 iexpr iexpr
  | IAdd iexpr iexpr
  | IAddB iexpr iexpr
  | IMul iexpr iexpr
  | IMulB iexpr iexpr
  | ISub iexpr iexpr
  | IDivB iexpr iexpr
  | IMod iexpr iexpr
  | IPar iexpr

datatype bexpr =
    BLt iexpr iexpr
  | BGt iexpr iexpr
  | BNe iexpr iexpr
  | BOr bexpr bexpr

datatype lval =
    LMember string
  | LElem string string \<comment> \<open>an element of a member\<close>

datatype gty =
    GyBool
  | GyUint nat
  | GyBytes
  | GyByteArray nat
  | GySlice gty
  | GyArray nat gty
  | GyPtr string
  | GyNamed string
  | GyOther string

text \<open>
  \<open>DForArray x n b\<close> ranges over a member of array type with \<open>n\<close> elements; \<open>DCall x T r\<close> is a
  call on an operand of type \<open>T\<close> or \<open>*T\<close>.  Go takes both from the declarations.
\<close>

datatype dstmt =
    DBlank
  | DCheck bexpr string
  | DDecl string iexpr
  | DVarInt string
  | DAssign string iexpr
  | DIfElse bexpr "dstmt list" "dstmt list"
  | DWhen bexpr "dstmt list"
  | DSetByte lval iexpr
  | DSetBool lval iexpr
  | DSetUint lval nat iexpr iexpr
  | DCopyArray lval iexpr iexpr
  | DCopyRange lval iexpr iexpr
  | DCopyAll lval
  | DMake lval gty iexpr
  | DNew lval string
  | DForArray lval nat "dstmt list"
  | DForCount "dstmt list"
  | DCall lval string "(iexpr \<times> iexpr) option"
  | DSub iexpr iexpr "dstmt list"

section \<open>Text\<close>

fun pp_int :: "iexpr \<Rightarrow> string" where
  "pp_int (INum n) = NumToString n"
| "pp_int (IVar x) = x"
| "pp_int ILen = ''len(buf)''"
| "pp_int (IByte e) = ''buf['' @ pp_int e @ '']''"
| "pp_int (IUint32 a b) =
     ''int(binary.LittleEndian.Uint32(buf['' @ pp_int a @ '':'' @ pp_int b @ '']))''"
| "pp_int (IAdd a b) = pp_int a @ ''+'' @ pp_int b"
| "pp_int (IAddB a b) = pp_int a @ '' + '' @ pp_int b"
| "pp_int (IMul a b) = pp_int a @ ''*'' @ pp_int b"
| "pp_int (IMulB a b) = pp_int a @ '' * '' @ pp_int b"
| "pp_int (ISub a b) = pp_int a @ ''-'' @ pp_int b"
| "pp_int (IDivB a b) = pp_int a @ '' / '' @ pp_int b"
| "pp_int (IMod a b) = pp_int a @ ''%'' @ pp_int b"
| "pp_int (IPar a) = ''('' @ pp_int a @ '')''"

fun pp_cond :: "bexpr \<Rightarrow> string" where
  "pp_cond (BLt a b) = pp_int a @ '' < '' @ pp_int b"
| "pp_cond (BGt a b) = pp_int a @ '' > '' @ pp_int b"
| "pp_cond (BNe a b) = pp_int a @ '' != '' @ pp_int b"
| "pp_cond (BOr c d) = pp_cond c @ '' || '' @ pp_cond d"

fun pp_lval :: "lval \<Rightarrow> string" where
  "pp_lval (LMember f) = ''t.'' @ f"
| "pp_lval (LElem f x) = ''t.'' @ f @ ''['' @ x @ '']''"

fun pp_ty :: "gty \<Rightarrow> string" where
  "pp_ty GyBool = ''bool''"
| "pp_ty (GyUint w) = ''uint'' @ NumToString w"
| "pp_ty GyBytes = ''[]byte''"
| "pp_ty (GyByteArray n) = ''['' @ NumToString n @ '']byte''"
| "pp_ty (GySlice t) = ''[]'' @ pp_ty t"
| "pp_ty (GyArray n t) = ''['' @ NumToString n @ '']'' @ pp_ty t"
| "pp_ty (GyPtr s) = ''*'' @ s"
| "pp_ty (GyNamed s) = s"
| "pp_ty (GyOther s) = s"

fun pp_range :: "(iexpr \<times> iexpr) option \<Rightarrow> string" where
  "pp_range None = ''buf''"
| "pp_range (Some (a, b)) = ''buf['' @ pp_int a @ '':'' @ pp_int b @ '']''"

fun pp_dstmt :: "string \<Rightarrow> dstmt \<Rightarrow> string"
  and pp_dstmts :: "string \<Rightarrow> dstmt list \<Rightarrow> string" where
  "pp_dstmt ind DBlank = nl"
| "pp_dstmt ind (DCheck c e) =
     line ind (''if '' @ pp_cond c @ '' {'') @ line (ind @ tab) (''return ssz.'' @ e) @ line ind ''}''"
| "pp_dstmt ind (DDecl x e) = line ind (x @ '' := '' @ pp_int e)"
| "pp_dstmt ind (DVarInt x) = line ind (''var '' @ x @ '' int'')"
| "pp_dstmt ind (DAssign x e) = line ind (x @ '' = '' @ pp_int e)"
| "pp_dstmt ind (DIfElse c a b) =
     line ind (''if '' @ pp_cond c @ '' {'') @ pp_dstmts (ind @ tab) a @
     line ind ''} else {'' @ pp_dstmts (ind @ tab) b @ line ind ''}''"
| "pp_dstmt ind (DWhen c b) =
     line ind (''if '' @ pp_cond c @ '' {'') @ pp_dstmts (ind @ tab) b @ line ind ''}''"
| "pp_dstmt ind (DSetByte v e) = line ind (pp_lval v @ '' = '' @ pp_int (IByte e))"
| "pp_dstmt ind (DSetBool v e) = line ind (pp_lval v @ '' = '' @ pp_int (IByte e) @ '' == 1'')"
| "pp_dstmt ind (DSetUint v w a b) =
     line ind (pp_lval v @ '' = binary.LittleEndian.Uint'' @ NumToString w @ ''('' @
       pp_range (Some (a, b)) @ '')'')"
| "pp_dstmt ind (DCopyArray v a b) =
     line ind (''copy('' @ pp_lval v @ ''[:], '' @ pp_range (Some (a, b)) @ '')'')"
| "pp_dstmt ind (DCopyRange v a b) =
     line ind (''copy('' @ pp_lval v @ '', '' @ pp_range (Some (a, b)) @ '')'')"
| "pp_dstmt ind (DCopyAll v) = line ind (''copy('' @ pp_lval v @ '', buf)'')"
| "pp_dstmt ind (DMake v t e) = line ind (pp_lval v @ '' = make('' @ pp_ty t @ '', '' @ pp_int e @ '')'')"
| "pp_dstmt ind (DNew v s) = line ind (pp_lval v @ '' = new('' @ s @ '')'')"
| "pp_dstmt ind (DForArray v n b) =
     line ind (''for i := range '' @ pp_lval v @ '' {'') @ pp_dstmts (ind @ tab) b @ line ind ''}''"
| "pp_dstmt ind (DForCount b) =
     line ind ''for i := 0; i < count; i++ {'' @ pp_dstmts (ind @ tab) b @ line ind ''}''"
| "pp_dstmt ind (DCall v s r) =
     line ind (''if err := '' @ pp_lval v @ ''.UnmarshalSSZ('' @ pp_range r @ ''); err != nil {'') @
     line (ind @ tab) ''return err'' @ line ind ''}''"
| "pp_dstmt ind (DSub a b ss) =
     line ind ''{'' @ line (ind @ tab) (''buf := '' @ pp_range (Some (a, b))) @
     pp_dstmts (ind @ tab) ss @ line ind ''}''"
| "pp_dstmts ind [] = []"
| "pp_dstmts ind (s # ss) = pp_dstmt ind s @ pp_dstmts ind ss"

lemma pp_dstmts_append [simp]: "pp_dstmts ind (xs @ ys) = pp_dstmts ind xs @ pp_dstmts ind ys"
  by (induction xs) auto

section \<open>Slices\<close>

text \<open>The bytes from the start of a slice to its capacity, and its length.\<close>

type_synonym slice = "byte list \<times> nat"

definition slice_ok :: "slice \<Rightarrow> bool" where
  "slice_ok s \<longleftrightarrow> snd s \<le> length (fst s)"

definition slice_bytes :: "slice \<Rightarrow> byte list" where
  "slice_bytes s = take (snd s) (fst s)"

definition slice_range :: "slice \<Rightarrow> nat \<Rightarrow> nat \<Rightarrow> slice option" where
  "slice_range s lo hi = (if lo \<le> hi \<and> hi \<le> length (fst s) then Some (drop lo (fst s), hi - lo) else None)"

fun le_val :: "byte list \<Rightarrow> nat" where
  "le_val [] = 0"
| "le_val (b # bs) = unat b + 256 * le_val bs"

text \<open>\<open>binary.LittleEndian.Uint\<close> of \<open>k\<close> bytes at the start of a slice.\<close>

definition slice_uint :: "nat \<Rightarrow> slice \<Rightarrow> nat option" where
  "slice_uint k s = (if k \<le> snd s then Some (le_val (take k (fst s))) else None)"

section \<open>Execution\<close>

text \<open>
  A frame: the members of the receiver, which may be nil, the local variables, the latest first,
  and the slice \<open>buf\<close>.
\<close>

record dframe =
  df_recv :: "(string \<rightharpoonup> val) option"
  df_ints :: "(string \<times> nat) list"
  df_buf :: slice

text \<open>The methods of the other structs, and the zero value of a struct.\<close>

record dcalls =
  call_unmarshal :: "string \<Rightarrow> val \<Rightarrow> slice \<Rightarrow> val gores"
  zero_struct :: "string \<Rightarrow> val"

fun eval_int :: "dframe \<Rightarrow> iexpr \<Rightarrow> nat option" where
  "eval_int fr (INum n) = Some n"
| "eval_int fr (IVar x) = map_of (df_ints fr) x"
| "eval_int fr ILen = Some (snd (df_buf fr))"
| "eval_int fr (IByte e) =
     Option.bind (eval_int fr e) (\<lambda>k.
       if k < snd (df_buf fr) then Some (unat (fst (df_buf fr) ! k)) else None)"
| "eval_int fr (IUint32 a b) =
     Option.bind (eval_int fr a) (\<lambda>x. Option.bind (eval_int fr b) (\<lambda>y.
       Option.bind (slice_range (df_buf fr) x y) (slice_uint 4)))"
| "eval_int fr (IAdd a b) = Option.bind (eval_int fr a) (\<lambda>x. map_option (\<lambda>y. x + y) (eval_int fr b))"
| "eval_int fr (IAddB a b) = Option.bind (eval_int fr a) (\<lambda>x. map_option (\<lambda>y. x + y) (eval_int fr b))"
| "eval_int fr (IMul a b) = Option.bind (eval_int fr a) (\<lambda>x. map_option (\<lambda>y. x * y) (eval_int fr b))"
| "eval_int fr (IMulB a b) = Option.bind (eval_int fr a) (\<lambda>x. map_option (\<lambda>y. x * y) (eval_int fr b))"
| "eval_int fr (ISub a b) =
     Option.bind (eval_int fr a) (\<lambda>x. Option.bind (eval_int fr b) (\<lambda>y.
       if y \<le> x then Some (x - y) else None))"
| "eval_int fr (IDivB a b) =
     Option.bind (eval_int fr a) (\<lambda>x. Option.bind (eval_int fr b) (\<lambda>y.
       if y = 0 then None else Some (x div y)))"
| "eval_int fr (IMod a b) =
     Option.bind (eval_int fr a) (\<lambda>x. Option.bind (eval_int fr b) (\<lambda>y.
       if y = 0 then None else Some (x mod y)))"
| "eval_int fr (IPar a) = eval_int fr a"

fun eval_cond :: "dframe \<Rightarrow> bexpr \<Rightarrow> bool option" where
  "eval_cond fr (BLt a b) = Option.bind (eval_int fr a) (\<lambda>x. map_option (\<lambda>y. x < y) (eval_int fr b))"
| "eval_cond fr (BGt a b) = Option.bind (eval_int fr a) (\<lambda>x. map_option (\<lambda>y. x > y) (eval_int fr b))"
| "eval_cond fr (BNe a b) = Option.bind (eval_int fr a) (\<lambda>x. map_option (\<lambda>y. x \<noteq> y) (eval_int fr b))"
| "eval_cond fr (BOr c d) =
     Option.bind (eval_cond fr c) (\<lambda>x. if x then Some True else eval_cond fr d)"

definition eval_range :: "dframe \<Rightarrow> iexpr \<Rightarrow> iexpr \<Rightarrow> slice option" where
  "eval_range fr a b =
     Option.bind (eval_int fr a) (\<lambda>x. Option.bind (eval_int fr b) (slice_range (df_buf fr) x))"

text \<open>Members and their elements; a nil receiver has none.\<close>

definition get_member :: "dframe \<Rightarrow> string \<Rightarrow> val option" where
  "get_member fr f = Option.bind (df_recv fr) (\<lambda>m. m f)"

definition set_member :: "string \<Rightarrow> val \<Rightarrow> dframe \<Rightarrow> dframe" where
  "set_member f v fr = fr\<lparr>df_recv := map_option (\<lambda>m. m(f \<mapsto> v)) (df_recv fr)\<rparr>"

fun get_lval :: "dframe \<Rightarrow> lval \<Rightarrow> val option" where
  "get_lval fr (LMember f) = get_member fr f"
| "get_lval fr (LElem f x) =
     (case get_member fr f of
        Some (VSeq vs) \<Rightarrow>
          Option.bind (map_of (df_ints fr) x) (\<lambda>k. if k < length vs then Some (vs ! k) else None)
      | _ \<Rightarrow> None)"

fun set_lval :: "dframe \<Rightarrow> lval \<Rightarrow> val \<Rightarrow> dframe option" where
  "set_lval fr (LMember f) v =
     (case get_member fr f of None \<Rightarrow> None | Some w \<Rightarrow> Some (set_member f v fr))"
| "set_lval fr (LElem f x) v =
     (case get_member fr f of
        Some (VSeq vs) \<Rightarrow>
          Option.bind (map_of (df_ints fr) x) (\<lambda>k.
            if k < length vs then Some (set_member f (VSeq (vs[k := v])) fr) else None)
      | _ \<Rightarrow> None)"

definition bind_var :: "string \<Rightarrow> nat \<Rightarrow> dframe \<Rightarrow> dframe" where
  "bind_var x n fr = fr\<lparr>df_ints := (x, n) # df_ints fr\<rparr>"

text \<open>An assignment changes the innermost variable of the name.\<close>

fun assign_var :: "string \<Rightarrow> nat \<Rightarrow> (string \<times> nat) list \<Rightarrow> (string \<times> nat) list option" where
  "assign_var x n [] = None"
| "assign_var x n ((y, m) # env) =
     (if x = y then Some ((y, n) # env) else map_option ((#) (y, m)) (assign_var x n env))"

text \<open>Leaving a block drops the variables declared in it.\<close>

definition end_block :: "dframe \<Rightarrow> dframe \<Rightarrow> dframe" where
  "end_block fr fr' =
     fr'\<lparr>df_ints := drop (length (df_ints fr') - length (df_ints fr)) (df_ints fr'),
         df_buf := df_buf fr\<rparr>"

text \<open>\<open>copy\<close> moves as many bytes as both sides have.\<close>

definition copy_bytes :: "byte list \<Rightarrow> byte list \<Rightarrow> byte list" where
  "copy_bytes dst src = take (length dst) src @ drop (length src) dst"

definition copy_into :: "dframe \<Rightarrow> lval \<Rightarrow> slice option \<Rightarrow> dframe option" where
  "copy_into fr v src =
     (case (get_lval fr v, src) of
        (Some (VBytes bs), Some s) \<Rightarrow> set_lval fr v (VBytes (copy_bytes bs (slice_bytes s)))
      | _ \<Rightarrow> None)"

text \<open>The zero value of a type.\<close>

fun zero_val :: "(string \<Rightarrow> val) \<Rightarrow> gty \<Rightarrow> val" where
  "zero_val Z GyBool = VBool False"
| "zero_val Z (GyUint w) = VUint 0"
| "zero_val Z GyBytes = VBytes []"
| "zero_val Z (GyByteArray n) = VBytes (replicate n 0)"
| "zero_val Z (GySlice t) = VSeq []"
| "zero_val Z (GyArray n t) = VSeq (replicate n (zero_val Z t))"
| "zero_val Z (GyPtr s) = VNil"
| "zero_val Z (GyNamed s) = Z s"
| "zero_val Z (GyOther s) = VNil"

fun make_val :: "(string \<Rightarrow> val) \<Rightarrow> gty \<Rightarrow> nat \<Rightarrow> val option" where
  "make_val Z GyBytes n = Some (VBytes (replicate n 0))"
| "make_val Z (GySlice t) n = Some (VSeq (replicate n (zero_val Z t)))"
| "make_val Z t n = None"

fun dexec :: "dcalls \<Rightarrow> dstmt \<Rightarrow> dframe \<Rightarrow> dframe gores"
  and dexecs :: "dcalls \<Rightarrow> dstmt list \<Rightarrow> dframe \<Rightarrow> dframe gores" where
  "dexec C DBlank fr = Done fr"
| "dexec C (DCheck c e) fr =
     go_bind (or_panic (eval_cond fr c)) (\<lambda>b. if b then Fails e else Done fr)"
| "dexec C (DDecl x e) fr = go_bind (or_panic (eval_int fr e)) (\<lambda>n. Done (bind_var x n fr))"
| "dexec C (DVarInt x) fr = Done (bind_var x 0 fr)"
| "dexec C (DAssign x e) fr =
     go_bind (or_panic (eval_int fr e)) (\<lambda>n.
       go_bind (or_panic (assign_var x n (df_ints fr))) (\<lambda>env. Done (fr\<lparr>df_ints := env\<rparr>)))"
| "dexec C (DIfElse c a b) fr =
     go_bind (or_panic (eval_cond fr c)) (\<lambda>t.
       go_map (end_block fr) (if t then dexecs C a fr else dexecs C b fr))"
| "dexec C (DWhen c b) fr =
     go_bind (or_panic (eval_cond fr c)) (\<lambda>t.
       if t then go_map (end_block fr) (dexecs C b fr) else Done fr)"
| "dexec C (DSetByte v e) fr =
     go_bind (or_panic (eval_int fr (IByte e))) (\<lambda>n. or_panic (set_lval fr v (VUint n)))"
| "dexec C (DSetBool v e) fr =
     go_bind (or_panic (eval_int fr (IByte e))) (\<lambda>n. or_panic (set_lval fr v (VBool (n = 1))))"
| "dexec C (DSetUint v w a b) fr =
     go_bind (or_panic (Option.bind (eval_range fr a b) (slice_uint (w div 8))))
       (\<lambda>n. or_panic (set_lval fr v (VUint n)))"
| "dexec C (DCopyArray v a b) fr = or_panic (copy_into fr v (eval_range fr a b))"
| "dexec C (DCopyRange v a b) fr = or_panic (copy_into fr v (eval_range fr a b))"
| "dexec C (DCopyAll v) fr = or_panic (copy_into fr v (Some (df_buf fr)))"
| "dexec C (DMake v t e) fr =
     go_bind (or_panic (Option.bind (eval_int fr e) (make_val (zero_struct C) t)))
       (\<lambda>w. or_panic (set_lval fr v w))"
| "dexec C (DNew v s) fr = or_panic (set_lval fr v (zero_struct C s))"
| "dexec C (DForArray v n b) fr =
     go_fold (\<lambda>k f. go_map (end_block f) (dexecs C b (bind_var ''i'' k f))) [0..<n] fr"
| "dexec C (DForCount b) fr =
     go_bind (or_panic (map_of (df_ints fr) ''count'')) (\<lambda>n.
       go_fold (\<lambda>k f. go_map (end_block f) (dexecs C b (bind_var ''i'' k f))) [0..<n] fr)"
| "dexec C (DCall v s r) fr =
     go_bind (or_panic (get_lval fr v)) (\<lambda>w.
       go_bind (or_panic (case r of None \<Rightarrow> Some (df_buf fr) | Some (a, b) \<Rightarrow> eval_range fr a b)) (\<lambda>buf.
         go_bind (call_unmarshal C s w buf) (\<lambda>w'. or_panic (set_lval fr v w'))))"
| "dexec C (DSub a b ss) fr =
     go_bind (or_panic (eval_range fr a b)) (\<lambda>s.
       go_map (end_block fr) (dexecs C ss (fr\<lparr>df_buf := s\<rparr>)))"
| "dexecs C [] fr = Done fr"
| "dexecs C (s # ss) fr = go_bind (dexec C s fr) (dexecs C ss)"

lemma dexecs_append [simp]:
  "dexecs C (xs @ ys) fr = go_bind (dexecs C xs fr) (dexecs C ys)"
proof (induction xs arbitrary: fr)
  case (Cons x xs)
  then show ?case by (cases "dexec C x fr") auto
qed simp

section \<open>Programs\<close>

record ddecl =
  dd_fields :: "(string \<times> gty) list"
  dd_unmarshal :: "dstmt list"

type_synonym dprogram = "string \<rightharpoonup> ddecl"

text \<open>The zero value of a struct; structs contain each other to a bounded depth.\<close>

fun zero_of :: "dprogram \<Rightarrow> nat \<Rightarrow> string \<Rightarrow> val" where
  "zero_of prog 0 s = VNil"
| "zero_of prog (Suc n) s =
     (case prog s of
        None \<Rightarrow> VNil
      | Some d \<Rightarrow> VStruct s (map (\<lambda>f. zero_val (zero_of prog n) (snd f)) (dd_fields d)))"

fun open_recv :: "ddecl \<Rightarrow> val \<Rightarrow> (string \<rightharpoonup> val) option option" where
  "open_recv d (VStruct s vs) = Some (Some (map_of (zip (map fst (dd_fields d)) vs)))"
| "open_recv d VNil = Some None"
| "open_recv d v = None"

definition close_recv :: "ddecl \<Rightarrow> string \<Rightarrow> (string \<rightharpoonup> val) option \<Rightarrow> val" where
  "close_recv d s r =
     (case r of
        None \<Rightarrow> VNil
      | Some m \<Rightarrow> VStruct s (map (\<lambda>f. case m (fst f) of None \<Rightarrow> VNil | Some v \<Rightarrow> v) (dd_fields d)))"

text \<open>The method on a receiver, which it changes, and a buffer.\<close>

fun UnmarshalSSZ :: "dprogram \<Rightarrow> nat \<Rightarrow> string \<Rightarrow> val \<Rightarrow> slice \<Rightarrow> val gores" where
  "UnmarshalSSZ prog 0 s v buf = Panics"
| "UnmarshalSSZ prog (Suc n) s v buf =
     go_bind (or_panic (prog s)) (\<lambda>d.
       go_bind (or_panic (open_recv d v)) (\<lambda>r.
         go_map (\<lambda>fr. close_recv d s (df_recv fr))
           (dexecs \<lparr>call_unmarshal = UnmarshalSSZ prog n, zero_struct = zero_of prog n\<rparr>
              (dd_unmarshal d) \<lparr>df_recv = r, df_ints = [], df_buf = buf\<rparr>)))"

end
