(* ===== verification/Go_Decode_Program.thy ===== *)
theory Go_Decode_Program
  imports Go_Decode_Lang Go_Program
begin

text \<open>
  The program behind the emitted \<open>UnmarshalSSZ\<close> and the struct declaration: the statements that
  decode a field, the body of the method and the Go types of the members, with the proofs that
  the emitted text is theirs.
\<close>

section \<open>Types\<close>

definition elem_gty :: "Parser \<Rightarrow> SszFieldInfo \<Rightarrow> gty" where
  "elem_gty P info =
     (case ssz_type info of
        SszBool \<Rightarrow> GyBool
      | SszUint8 \<Rightarrow> GyUint 8
      | SszUint16 \<Rightarrow> GyUint 16
      | SszUint32 \<Rightarrow> GyUint 32
      | SszUint64 \<Rightarrow> GyUint 64
      | SszContainer \<Rightarrow>
          (case info_struct info of Some s \<Rightarrow> GyPtr (sd_name (struct_at P s)) | None \<Rightarrow> GyOther ''UNKNOWN'')
      | SszList \<Rightarrow> GyBytes
      | _ \<Rightarrow> GyOther ''UNKNOWN'')"

definition list_gty :: "Parser \<Rightarrow> SszFieldInfo \<Rightarrow> FieldDef \<Rightarrow> gty" where
  "list_gty P info field =
     (if base_type (field_type field) = BASE_TYPE_STRING then GyBytes
      else (case elem_info info of
              Some e \<Rightarrow> if ssz_type e = SszUint8 then GyBytes else GySlice (elem_gty P e)
            | None \<Rightarrow> GyBytes))"

definition struct_gty :: "Parser \<Rightarrow> SszFieldInfo \<Rightarrow> gty" where
  "struct_gty P info =
     (case info_struct info of None \<Rightarrow> GyOther ''UNKNOWN'' | Some s \<Rightarrow> GyNamed (sd_name (struct_at P s)))"

definition field_gty :: "Parser \<Rightarrow> SszFieldInfo \<Rightarrow> FieldDef \<Rightarrow> gty" where
  "field_gty P info field =
     (case ssz_type info of
        SszBool \<Rightarrow> GyBool
      | SszUint8 \<Rightarrow> GyUint 8
      | SszUint16 \<Rightarrow> GyUint 16
      | SszUint32 \<Rightarrow> GyUint 32
      | SszUint64 \<Rightarrow> GyUint 64
      | SszUint128 \<Rightarrow> GyByteArray 16
      | SszUint256 \<Rightarrow> GyByteArray 32
      | SszContainer \<Rightarrow> struct_gty P info
      | SszVector \<Rightarrow>
          (case elem_info info of
             Some e \<Rightarrow>
               if ssz_type e = SszUint8 then GyByteArray (unat (info_limit info))
               else GyArray (unat (info_limit info)) (elem_gty P e)
           | None \<Rightarrow> GyOther ''UNKNOWN'')
      | SszProgressiveList \<Rightarrow> list_gty P info field
      | SszList \<Rightarrow> list_gty P info field
      | SszBitlist \<Rightarrow> GyBytes
      | SszBitvector \<Rightarrow> GyByteArray (unat ((bitsize info + 7) div 8))
      | SszProgressiveContainer \<Rightarrow> struct_gty P info
      | SszUnion \<Rightarrow> GyOther ''interface{}'')"

lemma digits: "NumToString 8 = ''8''" "NumToString 2 = ''2''" "NumToString 0 = ''0''" "NumToString (Suc 0) = ''1''"
  by (code_simp, code_simp, code_simp, code_simp)

lemma print_elem_gty: "GoElemTypeName P info = pp_ty (elem_gty P info)"
  by (cases "ssz_type info")
    (simp_all add: GoElemTypeName_def elem_gty_def digits num_literals split: option.split)

lemma print_field_gty: "GoTypeName P info field = pp_ty (field_gty P info field)"
  by (cases "ssz_type info")
    (simp_all add: GoTypeName_def field_gty_def go_list_type_def list_gty_def struct_gty_def
      info_struct_name_def print_elem_gty digits num_literals split: option.split)

section \<open>Fixed-size fields\<close>

text \<open>\<open>buf[o]\<close> and \<open>buf[o:o+n]\<close> where the bounds are constants of the generator.\<close>

abbreviation at32 :: "u32 \<Rightarrow> iexpr" where "at32 w \<equiv> INum (unat w)"

definition bool_stmts :: "lval \<Rightarrow> iexpr \<Rightarrow> dstmt list" where
  "bool_stmts v e = [DCheck (BGt (IByte e) (INum 1)) ''ErrInvalidBool'', DSetBool v e]"

text \<open>An element of primitive type, read at \<open>off\<close>.\<close>

definition elem_stmts :: "SszType \<Rightarrow> lval \<Rightarrow> dstmt list" where
  "elem_stmts t v =
     (let off = IVar ''off'' in
      case t of
        SszBool \<Rightarrow> bool_stmts v off
      | SszUint16 \<Rightarrow> [DSetUint v 16 off (IAdd off (INum 2))]
      | SszUint32 \<Rightarrow> [DSetUint v 32 off (IAdd off (INum 4))]
      | SszUint64 \<Rightarrow> [DSetUint v 64 off (IAdd off (INum 8))]
      | _ \<Rightarrow> [])"

definition array_stmts :: "Parser \<Rightarrow> SszFieldInfo \<Rightarrow> string \<Rightarrow> u32 \<Rightarrow> dstmt list" where
  "array_stmts P info f offset =
     (let k = elem_fixed_size info; n = unat (info_limit info) in
      if elem_is info SszUint8 then
        [DCopyArray (LMember f) (at32 offset) (at32 (offset + fixed_size info))]
      else if elem_is info SszContainer then
        [DForArray (LMember f) n
          [DDecl ''start'' (IAddB (at32 offset) (IMul (IVar ''i'') (at32 k))),
           DCall (LElem f ''i'')
             (case elem_info info of None \<Rightarrow> '''' | Some e \<Rightarrow> info_struct_name P '''' e)
             (Some (IVar ''start'', IAdd (IVar ''start'') (at32 k)))]]
      else if elem_info info \<noteq> None then
        [DForArray (LMember f) n
          (DDecl ''off'' (IAddB (at32 offset) (IMul (IVar ''i'') (at32 k))) #
           elem_stmts (elem_ssz_type info) (LElem f ''i''))]
      else [])"

definition decode_stmts :: "Parser \<Rightarrow> SszFieldInfo \<Rightarrow> string \<Rightarrow> u32 \<Rightarrow> dstmt list" where
  "decode_stmts P info f offset =
     (let v = LMember f; b = at32 offset;
          copy = [DCopyArray v b (at32 (offset + fixed_size info))] in
      case ssz_type info of
        SszBool \<Rightarrow> bool_stmts v b
      | SszUint8 \<Rightarrow> [DSetByte v b]
      | SszUint16 \<Rightarrow> [DSetUint v 16 b (at32 (offset + 2))]
      | SszUint32 \<Rightarrow> [DSetUint v 32 b (at32 (offset + 4))]
      | SszUint64 \<Rightarrow> [DSetUint v 64 b (at32 (offset + 8))]
      | SszUint128 \<Rightarrow> copy
      | SszUint256 \<Rightarrow> copy
      | SszVector \<Rightarrow> array_stmts P info f offset
      | SszBitvector \<Rightarrow> copy
      | SszContainer \<Rightarrow>
          [DCall v (info_struct_name P '''' info) (Some (b, at32 (offset + fixed_size info)))]
      | _ \<Rightarrow> [])"

lemma print_bool:
  "pp_dstmts ind (bool_stmts v e) =
     line ind (''if buf['' @ pp_int e @ ''] > 1 {'') @
     line (ind @ tab) ''return ssz.ErrInvalidBool'' @ line ind ''}'' @
     line ind (pp_lval v @ '' = buf['' @ pp_int e @ ''] == 1'')"
  by (simp add: bool_stmts_def digits)

lemma print_elem:
  "go_read_elem info (''t.'' @ f) ind =
   pp_dstmts (ind @ tab) (elem_stmts (elem_ssz_type info) (LElem f ''i''))"
  by (cases "elem_ssz_type info")
    (simp_all add: go_read_elem_def elem_stmts_def print_bool digits num_literals Let_def)

lemma print_array:
  "go_unmarshal_vector info (''t.'' @ f) offset ind = pp_dstmts ind (array_stmts P info f offset)"
  by (simp add: go_unmarshal_vector_def array_stmts_def go_buf_range_def Let_def
      go_GenUnmarshalPrimitiveArray_def print_elem [simplified])

lemma print_decode:
  "go_GenUnmarshalField info (''t.'' @ f) offset ind = pp_dstmts ind (decode_stmts P info f offset)"
  by (cases "ssz_type info")
    (simp_all add: go_GenUnmarshalField_def decode_stmts_def go_buf_range_def Let_def
      print_array [simplified]
      print_bool digits num_literals)

section \<open>Dynamic fields\<close>

definition copy_all_stmts :: "string \<Rightarrow> dstmt list" where
  "copy_all_stmts f = [DMake (LMember f) GyBytes ILen, DCopyAll (LMember f)]"

text \<open>A list of variable-size elements: \<open>ss\<close> decodes the element between \<open>start\<close> and \<open>end\<close>.\<close>

definition offset_at :: "iexpr \<Rightarrow> iexpr" where
  "offset_at i = IUint32 (IMul i (INum 4)) (IAdd (IMul i (INum 4)) (INum 4))"

definition offset_elem :: "dstmt list \<Rightarrow> dstmt list" where
  "offset_elem ss =
     [DDecl ''start'' (offset_at (IVar ''i'')),
      DVarInt ''end'',
      DIfElse (BLt (IAdd (IVar ''i'') (INum 1)) (IVar ''count''))
        [DAssign ''end'' (offset_at (IPar (IAdd (IVar ''i'') (INum 1))))]
        [DAssign ''end'' ILen],
      DCheck (BOr (BGt (IVar ''start'') (IVar ''end'')) (BGt (IVar ''end'') ILen))
        ''ErrInvalidOffset''] @ ss"

definition offset_loop :: "string \<Rightarrow> gty \<Rightarrow> dstmt list \<Rightarrow> dstmt list" where
  "offset_loop f t ss =
     [DWhen (BGt ILen (INum 0))
       [DDecl ''firstOff'' (IUint32 (INum 0) (INum 4)),
        DCheck (BNe (IMod (IVar ''firstOff'') (INum 4)) (INum 0)) ''ErrInvalidOffset'',
        DDecl ''count'' (IDivB (IVar ''firstOff'') (INum 4)),
        DMake (LMember f) t (IVar ''count''),
        DForCount (offset_elem ss)]]"

definition fixed_list_stmts :: "string \<Rightarrow> gty \<Rightarrow> u32 \<Rightarrow> dstmt list \<Rightarrow> dstmt list" where
  "fixed_list_stmts f t k ss =
     [DDecl ''count'' (IDivB ILen (at32 k)),
      DMake (LMember f) t (IVar ''count''),
      DForCount ss]"

definition decode_list :: "Parser \<Rightarrow> SszFieldInfo \<Rightarrow> string \<Rightarrow> FieldDef \<Rightarrow> dstmt list" where
  "decode_list P info f field =
     (let k = elem_fixed_size info; t = field_gty P info field; e = LElem f ''i'';
          name = info_struct_name P '''' (case elem_info info of None \<Rightarrow> new_info | Some e \<Rightarrow> e);
          off = DDecl ''off'' (IMulB (IVar ''i'') (at32 k)) in
      if elem_is info SszList then
        offset_loop f (GySlice GyBytes)
          [DMake e GyBytes (ISub (IVar ''end'') (IVar ''start'')),
           DCopyRange e (IVar ''start'') (IVar ''end'')]
      else if elem_is info SszUint8 then copy_all_stmts f
      else if elem_is info SszContainer then
        (if elem_dynamic info then
           offset_loop f t [DNew e name, DCall e name (Some (IVar ''start'', IVar ''end''))]
         else
           fixed_list_stmts f t k
             [DNew e name, off,
              DCall e name (Some (IVar ''off'', IAdd (IVar ''off'') (at32 k)))])
      else if elem_info info \<noteq> None then
        fixed_list_stmts f t k (off # elem_stmts (elem_ssz_type info) e)
      else copy_all_stmts f)"

definition decode_dynamic :: "Parser \<Rightarrow> SszFieldInfo \<Rightarrow> string \<Rightarrow> FieldDef \<Rightarrow> dstmt list" where
  "decode_dynamic P info f field =
     (case ssz_type info of
        SszProgressiveList \<Rightarrow> decode_list P info f field
      | SszList \<Rightarrow> decode_list P info f field
      | SszBitlist \<Rightarrow> copy_all_stmts f
      | SszContainer \<Rightarrow> [DCall (LMember f) (info_struct_name P '''' info) None]
      | _ \<Rightarrow> [])"

lemma print_offset_loop:
  "go_offset_loop_head (''t.'' @ f) (''make('' @ pp_ty t @ '', count)'') ind @
   pp_dstmts (ind @ tab @ tab) ss @ line (ind @ tab) ''}'' @ line ind ''}'' =
   pp_dstmts ind (offset_loop f t ss)"
  by (simp add: go_offset_loop_head_def offset_loop_def offset_elem_def offset_at_def digits
      num_literals)

lemma print_copy_all: "go_copy_all (''t.'' @ f) ind = pp_dstmts ind (copy_all_stmts f)"
  by (simp add: go_copy_all_def copy_all_stmts_def)

lemma print_decode_list:
  "go_unmarshal_list P info (''t.'' @ f) field ind = pp_dstmts ind (decode_list P info f field)"
proof -
  have make: "''make([][]byte, count)'' = ''make('' @ pp_ty (GySlice GyBytes) @ '', count)''" by simp
  note loop = print_offset_loop [symmetric, of ind f]
  show ?thesis
    unfolding go_unmarshal_list_def decode_list_def make print_field_gty
    by (simp add: Let_def loop [simplified] print_copy_all [simplified] fixed_list_stmts_def go_GenUnmarshalPrimitiveSlice_def
        print_field_gty print_elem [simplified])
qed

lemma print_decode_dynamic:
  "go_GenUnmarshalDynField P info (''t.'' @ f) field ind =
   pp_dstmts ind (decode_dynamic P info f field)"
  by (cases "ssz_type info")
    (simp_all add: go_GenUnmarshalDynField_def decode_dynamic_def print_decode_list [simplified]
      print_copy_all [simplified])

section \<open>The method\<close>

fun fixed_body :: "SszGenerator \<Rightarrow> u32 \<Rightarrow> (FieldPtr \<times> SszFieldInfo) list \<Rightarrow> dstmt list" where
  "fixed_body G offset [] = []"
| "fixed_body G offset ((p, i) # ps) =
     decode_stmts (gen_parser G) i (go_Field G (field_at (gen_parser G) p)) offset @
     fixed_body G (offset + fixed_size i) ps"

abbreviation off_var :: "nat \<Rightarrow> iexpr" where "off_var k \<equiv> IVar (''offset'' @ NumToString k)"

definition read_offset :: "u32 \<Rightarrow> u32 \<Rightarrow> nat \<Rightarrow> dstmt list" where
  "read_offset static offset k =
     [DDecl (''offset'' @ NumToString k) (IUint32 (at32 offset) (at32 (offset + 4))),
      DCheck
        (if k = 0 then BNe (off_var 0) (at32 static)
         else BOr (BLt (off_var k) (off_var (k - 1))) (BGt (off_var k) ILen))
        ''ErrInvalidOffset'']"

fun static_body :: "SszGenerator \<Rightarrow> u32 \<Rightarrow> u32 \<Rightarrow> nat \<Rightarrow> (FieldPtr \<times> SszFieldInfo) list \<Rightarrow> dstmt list" where
  "static_body G static offset k [] = []"
| "static_body G static offset k ((p, i) # ps) =
     (if is_dynamic i then read_offset static offset k @ static_body G static (offset + 4) (k + 1) ps
      else decode_stmts (gen_parser G) i (go_Field G (field_at (gen_parser G) p)) offset @
        static_body G static (offset + fixed_size i) k ps)"

text \<open>The dynamic fields, numbered as they come.\<close>

definition dynamic_of :: "(FieldPtr \<times> SszFieldInfo) list \<Rightarrow> (FieldPtr \<times> SszFieldInfo) list" where
  "dynamic_of ps = filter (\<lambda>(p, i). is_dynamic i) ps"

fun dynamic_body :: "SszGenerator \<Rightarrow> nat \<Rightarrow> (FieldPtr \<times> SszFieldInfo) list \<Rightarrow> dstmt list" where
  "dynamic_body G k [] = []"
| "dynamic_body G k ((p, i) # ps) =
     DSub (off_var k) (if ps = [] then ILen else off_var (k + 1))
       (decode_dynamic (gen_parser G) i (go_Field G (field_at (gen_parser G) p))
         (field_at (gen_parser G) p)) #
     dynamic_body G (k + 1) ps"

definition unmarshal_body :: "SszGenerator \<Rightarrow> SszContainerInfo \<Rightarrow> dstmt list" where
  "unmarshal_body G c =
     (let ps = infos_of c (all_fields c) in
      [DCheck (BLt ILen (at32 (static_size c))) ''ErrBufferTooSmall'', DBlank] @
      (if dynamic_fields c = [] then fixed_body G 0 ps
       else static_body G (static_size c) 0 0 ps @ [DBlank] @ dynamic_body G 0 (dynamic_of ps)))"

lemma print_fixed_body:
  "go_unmarshal_fixed G c offset ps = pp_dstmts tab (fixed_body G offset (infos_of c ps))"
  by (induction ps arbitrary: offset) (auto simp: go_member_def print_decode [simplified] split: option.splits)

lemma print_static_body:
  "fst (go_unmarshal_static G c offset k ps) =
     pp_dstmts tab (static_body G (static_size c) offset k (infos_of c ps))"
proof (induction ps arbitrary: offset k)
  case (Cons p ps)
  have "go_read_offset c offset k = pp_dstmts tab (read_offset (static_size c) offset k)"
    by (simp add: go_read_offset_def read_offset_def go_buf_range_def digits)
  with Cons show ?case
    by (auto simp: go_member_def print_decode [simplified] Let_def split_beta split: option.splits)
qed simp

text \<open>The names that the first loop collects are the dynamic fields with their numbers.\<close>

fun numbered :: "nat \<Rightarrow> (FieldPtr \<times> SszFieldInfo) list \<Rightarrow> (FieldPtr \<times> nat) list" where
  "numbered k [] = []"
| "numbered k ((p, i) # ds) = (p, k) # numbered (Suc k) ds"

lemma static_names:
  "snd (go_unmarshal_static G c offset k ps) = numbered k (dynamic_of (infos_of c ps))"
  by (induction ps arbitrary: offset k)
    (auto simp: dynamic_of_def Let_def split_beta split: option.splits)

lemma infos_of_info: "(p, i) \<in> set (infos_of c ps) \<Longrightarrow> field_infos c p = Some i"
  by (auto simp: infos_of_def split: option.splits)

lemma print_dynamic_body:
  assumes "\<forall>(p, i) \<in> set ds. field_infos c p = Some i"
  shows "go_unmarshal_dynamic G c (numbered k ds) = pp_dstmts tab (dynamic_body G k ds)"
  using assms
proof (induction k ds rule: numbered.induct)
  case (2 k p i ds)
  have "(case numbered (Suc k) ds of
      [] \<Rightarrow> ''len(buf)'' | (q, next_idx) # _ \<Rightarrow> ''offset'' @ NumToString next_idx) =
      pp_int (if ds = [] then ILen else off_var (Suc k))"
    by (cases "(Suc k, ds)" rule: numbered.cases) simp_all
  with 2 show ?case
    by (simp add: go_unmarshal_range_def go_member_def print_decode_dynamic [simplified])
qed simp

lemma print_unmarshal:
  "go_GenUnmarshalSSZ G sd c =
     line [] (''func (t *'' @ sd_name sd @ '') UnmarshalSSZ(buf []byte) error {'') @
     pp_dstmts tab (unmarshal_body G c) @ line tab ''return nil'' @ line [] ''}''"
proof -
  let ?ds = "dynamic_of (infos_of c (all_fields c))"
  have "\<forall>(p, i) \<in> set ?ds. field_infos c p = Some i"
    using infos_of_info by (auto simp: dynamic_of_def)
  from print_dynamic_body [OF this, of G 0] have dyn:
    "go_unmarshal_dynamic G c (numbered 0 ?ds) = pp_dstmts tab (dynamic_body G 0 ?ds)" .
  obtain code names where st: "go_unmarshal_static G c 0 0 (all_fields c) = (code, names)"
    by (cases "go_unmarshal_static G c 0 0 (all_fields c)")
  with print_static_body [of G c 0 0 "all_fields c"] static_names [of G c 0 0 "all_fields c"] dyn
  show ?thesis
    by (simp add: go_GenUnmarshalSSZ_def unmarshal_body_def print_fixed_body Let_def)
qed

text \<open>The struct declaration lists the members with their types.\<close>

lemma print_struct:
  "go_GenGoStruct G sd c =
     line [] (''type '' @ sd_name sd @ '' struct {'') @
     concat (map (\<lambda>(p, f, ty). tab @ f @ '' '' @ pp_ty ty @
         line [] ('' `ssz:'' @ dq @ fd_name (field_at (gen_parser G) p) @ dq @ ''`''))
       (zip (map fst (infos_of c (all_fields c)))
         (map (\<lambda>(p, i). (go_Field G (field_at (gen_parser G) p),
            field_gty (gen_parser G) i (field_at (gen_parser G) p))) (infos_of c (all_fields c))))) @
     line [] ''}''"
proof -
  have "each_field c ps (\<lambda>p info. let field = field_at (gen_parser G) p in
      tab @ go_Field G field @ '' '' @ GoTypeName (gen_parser G) info field @
      line [] ('' `ssz:'' @ dq @ fd_name field @ dq @ ''`'')) =
    concat (map (\<lambda>(p, f, ty). tab @ f @ '' '' @ pp_ty ty @
         line [] ('' `ssz:'' @ dq @ fd_name (field_at (gen_parser G) p) @ dq @ ''`''))
       (zip (map fst (infos_of c ps))
         (map (\<lambda>(p, i). (go_Field G (field_at (gen_parser G) p),
            field_gty (gen_parser G) i (field_at (gen_parser G) p))) (infos_of c ps))))" for ps
    by (induction ps) (auto simp: Let_def print_field_gty split: option.split)
  then show ?thesis by (simp add: go_GenGoStruct_def)
qed

end
