(* ===== verification/Rust_Decode_Program.thy ===== *)
theory Rust_Decode_Program
  imports Rust_Program Go_Decode_Program
begin

text \<open>
  The part of Rust that the emitted \<open>from_ssz_bytes\<close> uses: its syntax, its text and what it does.  A
  slice expression that does not fit its operand panics, and so does an \<open>unwrap\<close> of a conversion to
  an array of another length; what Rust does not compile, the conversion of bytes to an array of
  anything else, counts as a panic.  \<open>?\<close> hands an error on.  \<open>usize\<close> has 64 bits.
  The second part is the statements that the generator emits, and the printer.
\<close>

section \<open>Syntax\<close>

text \<open>Positions in \<open>bytes\<close>: a constant, the \<open>k\<close>-th offset variable, the length.\<close>

datatype rpos = RNum u32 | ROff nat | RLen

text \<open>
  What is made of the chunk \<open>sl[i*k..(i+1)*k]\<close> or \<open>sl[s..e]\<close> of an element: a boolean, an unsigned
  integer of \<open>w\<close> bits, a byte vector, or a struct.
\<close>

datatype relem = EBool | EUint nat | EBytes | ECall string

datatype rexpr =
    XBool rpos
  | XByte rpos
  | XUint nat rpos rpos
  | XArray "nat option" rpos rpos \<comment> \<open>the length of the array, if its elements are bytes\<close>
  | XVec rpos rpos
  | XCall string rpos rpos
  | XChunks u32 relem rpos rpos
  | XOffsets relem rpos rpos
  | XDefault val

datatype rstmt =
    RGuard u32
  | RRead nat u32
  | RFirst u32
  | ROrder nat
  | RSet string rexpr

section \<open>Text\<close>

fun rs_at :: "rpos \<Rightarrow> string" where
  "rs_at (RNum n) = num32 n"
| "rs_at (ROff k) = ''offset'' @ NumToString k"
| "rs_at RLen = ''bytes.len()''"

definition rs_range :: "rpos \<Rightarrow> rpos \<Rightarrow> string" where
  "rs_range a b = ''bytes['' @ rs_at a @ ''..'' @ rs_at b @ '']''"

fun rs_elem :: "string \<Rightarrow> relem \<Rightarrow> string" where
  "rs_elem chunk EBool = ''sl[i] == 1''"
| "rs_elem chunk (EUint w) = ''u'' @ NumToString w @ ''::from_le_bytes('' @ chunk @ ''.try_into().unwrap())''"
| "rs_elem chunk EBytes = chunk @ ''.to_vec()''"
| "rs_elem chunk (ECall s) = s @ ''::from_ssz_bytes(&'' @ chunk @ '')?''"

fun rs_read :: "rexpr \<Rightarrow> string" where
  "rs_read (XBool a) = ''(bytes['' @ rs_at a @ ''] == 1)''"
| "rs_read (XByte a) = ''bytes['' @ rs_at a @ '']''"
| "rs_read (XUint w a b) = ''u'' @ NumToString w @ ''::from_le_bytes('' @ rs_range a b @ ''.try_into().unwrap())''"
| "rs_read (XArray n a b) = rs_range a b @ ''.try_into().unwrap()''"
| "rs_read (XVec a b) = rs_range a b @ ''.to_vec()''"
| "rs_read (XCall s a b) = s @ ''::from_ssz_bytes(&'' @ rs_range a b @ '')?''"
| "rs_read (XChunks k el a b) =
     line [] ''{'' @
     line sp12 (''let sl = &'' @ rs_range a b @ '';'') @
     line sp12 (''let count = sl.len() / '' @ num32 k @ '';'') @
     line sp12 ''let mut out = Vec::with_capacity(count);'' @
     line sp12 ''for i in 0..count {'' @
     line sp16 (''out.push('' @ rs_elem (''sl[i*'' @ num32 k @ ''..(i+1)*'' @ num32 k @ '']'') el @ '');'') @
     line sp12 ''}'' @
     line sp12 ''out'' @
     sp8 @ ''}''"
| "rs_read (XOffsets el a b) =
     line [] ''{'' @
     line sp12 (''let sl = &'' @ rs_range a b @ '';'') @
     line sp12 ''if sl.is_empty() { Vec::new() } else {'' @
     line sp16 ''let first_off = u32::from_le_bytes(sl[0..4].try_into().unwrap()) as usize;'' @
     line sp16 ''let count = first_off / 4;'' @
     line sp16 ''let mut out = Vec::with_capacity(count);'' @
     line sp16 ''for i in 0..count {'' @
     line sp20 ''let s = u32::from_le_bytes(sl[i*4..i*4+4].try_into().unwrap()) as usize;'' @
     line sp20 (''let e = if i + 1 < count { u32::from_le_bytes(sl[(i+1)*4..(i+1)*4+4]'' @
       ''.try_into().unwrap()) as usize } else { sl.len() };'') @
     line sp20 (''out.push('' @ rs_elem ''sl[s..e]'' el @ '');'') @
     line sp16 ''}'' @
     line sp16 ''out'' @
     line sp12 ''}'' @
     sp8 @ ''}''"
| "rs_read (XDefault v) = ''Default::default()''"

fun rs_dstmt :: "rstmt \<Rightarrow> string" where
  "rs_dstmt (RGuard n) =
     line sp8 (''if bytes.len() < '' @ num32 n @ '' {'') @
     line sp12 ''return Err(SszError::BufferTooSmall);'' @
     line sp8 ''}''"
| "rs_dstmt (RRead k off) =
     line sp8 (''let offset'' @ NumToString k @ '' = u32::from_le_bytes(bytes['' @ num32 off @
       ''..'' @ num32 (off + 4) @ ''].try_into().unwrap()) as usize;'')"
| "rs_dstmt (RFirst n) =
     line sp8 (''if offset0 != '' @ num32 n @ '' { return Err(SszError::InvalidOffset); }'')"
| "rs_dstmt (ROrder k) =
     line sp8 (''if offset'' @ NumToString k @ '' < offset'' @ NumToString (k - 1) @
       '' || offset'' @ NumToString k @ '' > bytes.len() { return Err(SszError::InvalidOffset); }'')"
| "rs_dstmt (RSet f e) = line sp8 (''result.'' @ f @ '' = '' @ rs_read e @ '';'')"

definition rs_dstmts :: "rstmt list \<Rightarrow> string" where
  "rs_dstmts ss = concat (map rs_dstmt ss)"

lemma rs_dstmts_simps [simp]:
  "rs_dstmts [] = []" "rs_dstmts (s # ss) = rs_dstmt s @ rs_dstmts ss"
  "rs_dstmts (xs @ ys) = rs_dstmts xs @ rs_dstmts ys"
  by (simp_all add: rs_dstmts_def)

text \<open>The body of the method: of a struct literal for fixed containers, of assignments otherwise.\<close>

datatype rbody = RLiteral u32 "(string \<times> rexpr) list" | RAssigns "rstmt list"

fun rs_body :: "rbody \<Rightarrow> string" where
  "rs_body (RLiteral n fs) =
     rs_dstmt (RGuard n) @ line sp8 ''Ok(Self {'' @
     concat (map (\<lambda>(f, e). line sp12 (f @ '': '' @ rs_read e @ '','')) fs) @ line sp8 ''})''"
| "rs_body (RAssigns []) = line sp8 ''let mut result = Self::default();'' @ line sp8 ''Ok(result)''"
| "rs_body (RAssigns (s # ss)) =
     rs_dstmt s @ line sp8 ''let mut result = Self::default();'' @ rs_dstmts ss @ line sp8 ''Ok(result)''"

section \<open>Execution\<close>

definition sub_slice :: "byte list \<Rightarrow> nat \<Rightarrow> nat \<Rightarrow> byte list gores" where
  "sub_slice bs a b = (if a \<le> b \<and> b \<le> length bs then Done (take (b - a) (drop a bs)) else Panics)"

definition read_byte :: "byte list \<Rightarrow> nat \<Rightarrow> byte gores" where
  "read_byte bs k = (if k < length bs then Done (bs ! k) else Panics)"

text \<open>\<open>sl.try_into().unwrap()\<close> as an array of \<open>n\<close> bytes.\<close>

definition to_array :: "nat \<Rightarrow> byte list \<Rightarrow> byte list gores" where
  "to_array n sl = (if length sl = n then Done sl else Panics)"

definition read_uint :: "nat \<Rightarrow> byte list \<Rightarrow> nat \<Rightarrow> nat \<Rightarrow> nat gores" where
  "read_uint w bs a b = go_bind (sub_slice bs a b) (\<lambda>sl. go_map le_val (to_array (w div 8) sl))"

text \<open>The loop that pushes elements.\<close>

fun push_all :: "('a \<Rightarrow> 'b gores) \<Rightarrow> 'a list \<Rightarrow> 'b list gores" where
  "push_all f [] = Done []"
| "push_all f (x # xs) = go_bind (f x) (\<lambda>y. go_map ((#) y) (push_all f xs))"

type_synonym rcalls = "string \<Rightarrow> byte list \<Rightarrow> val gores"

fun read_elem :: "rcalls \<Rightarrow> byte list \<Rightarrow> nat \<Rightarrow> nat \<Rightarrow> nat \<Rightarrow> relem \<Rightarrow> val gores" where
  "read_elem C sl i a b EBool = go_map (\<lambda>x. VBool (x = 1)) (read_byte sl i)"
| "read_elem C sl i a b (EUint w) = go_map VUint (read_uint w sl a b)"
| "read_elem C sl i a b EBytes = go_map VBytes (sub_slice sl a b)"
| "read_elem C sl i a b (ECall s) = go_bind (sub_slice sl a b) (C s)"

definition read_chunks :: "rcalls \<Rightarrow> nat \<Rightarrow> relem \<Rightarrow> byte list \<Rightarrow> val gores" where
  "read_chunks C k el sl =
     (if k = 0 then Panics
      else
        let count = length sl div k
        in go_map VSeq (push_all (\<lambda>i. read_elem C sl i (i * k) ((i + 1) * k) el) [0..<count]))"

definition read_offsets :: "rcalls \<Rightarrow> relem \<Rightarrow> byte list \<Rightarrow> val gores" where
  "read_offsets C el sl =
     (if sl = [] then Done (VSeq [])
      else
        go_bind (read_uint 32 sl 0 4) (\<lambda>first_off.
          let count = first_off div 4
          in go_map VSeq (push_all (\<lambda>i.
            go_bind (read_uint 32 sl (i * 4) (i * 4 + 4)) (\<lambda>s.
              go_bind (if i + 1 < count then read_uint 32 sl ((i + 1) * 4) ((i + 1) * 4 + 4) else Done (length sl))
                (\<lambda>e. read_elem C sl i s e el))) [0..<count])))"

text \<open>The offset variables and the members of the result.\<close>

record rframe =
  rf_offs :: "nat \<rightharpoonup> nat"
  rf_mem :: "string \<rightharpoonup> val"

fun eval_pos :: "byte list \<Rightarrow> (nat \<rightharpoonup> nat) \<Rightarrow> rpos \<Rightarrow> nat gores" where
  "eval_pos bs offs (RNum n) = Done (unat n)"
| "eval_pos bs offs (ROff k) = or_panic (offs k)"
| "eval_pos bs offs RLen = Done (length bs)"

definition with_slice ::
  "byte list \<Rightarrow> (nat \<rightharpoonup> nat) \<Rightarrow> rpos \<Rightarrow> rpos \<Rightarrow> (byte list \<Rightarrow> 'a gores) \<Rightarrow> 'a gores" where
  "with_slice bs offs a b f =
     go_bind (eval_pos bs offs a) (\<lambda>x. go_bind (eval_pos bs offs b) (\<lambda>y. go_bind (sub_slice bs x y) f))"

fun eval_read :: "rcalls \<Rightarrow> byte list \<Rightarrow> (nat \<rightharpoonup> nat) \<Rightarrow> rexpr \<Rightarrow> val gores" where
  "eval_read C bs offs (XBool a) =
     go_bind (eval_pos bs offs a) (\<lambda>k. go_map (\<lambda>x. VBool (x = 1)) (read_byte bs k))"
| "eval_read C bs offs (XByte a) =
     go_bind (eval_pos bs offs a) (\<lambda>k. go_map (\<lambda>x. VUint (unat x)) (read_byte bs k))"
| "eval_read C bs offs (XUint w a b) =
     with_slice bs offs a b (\<lambda>sl. go_map (\<lambda>x. VUint (le_val x)) (to_array (w div 8) sl))"
| "eval_read C bs offs (XArray n a b) =
     with_slice bs offs a b (\<lambda>sl. go_bind (or_panic n) (\<lambda>k. go_map VBytes (to_array k sl)))"
| "eval_read C bs offs (XVec a b) = with_slice bs offs a b (\<lambda>sl. Done (VBytes sl))"
| "eval_read C bs offs (XCall s a b) = with_slice bs offs a b (C s)"
| "eval_read C bs offs (XChunks k el a b) = with_slice bs offs a b (read_chunks C (unat k) el)"
| "eval_read C bs offs (XOffsets el a b) = with_slice bs offs a b (read_offsets C el)"
| "eval_read C bs offs (XDefault v) = Done v"

fun rexec :: "rcalls \<Rightarrow> byte list \<Rightarrow> rstmt \<Rightarrow> rframe \<Rightarrow> rframe gores" where
  "rexec C bs (RGuard n) fr = (if length bs < unat n then Fails ''BufferTooSmall'' else Done fr)"
| "rexec C bs (RRead k off) fr =
     go_bind (read_uint 32 bs (unat off) (unat (off + 4))) (\<lambda>x. Done (fr\<lparr>rf_offs := (rf_offs fr)(k \<mapsto> x)\<rparr>))"
| "rexec C bs (RFirst n) fr =
     go_bind (or_panic (rf_offs fr 0)) (\<lambda>x. if x \<noteq> unat n then Fails ''InvalidOffset'' else Done fr)"
| "rexec C bs (ROrder k) fr =
     go_bind (or_panic (rf_offs fr k)) (\<lambda>x. go_bind (or_panic (rf_offs fr (k - 1))) (\<lambda>y.
       if x < y \<or> x > length bs then Fails ''InvalidOffset'' else Done fr))"
| "rexec C bs (RSet f e) fr =
     go_bind (eval_read C bs (rf_offs fr) e) (\<lambda>v. Done (fr\<lparr>rf_mem := (rf_mem fr)(f \<mapsto> v)\<rparr>))"

definition rexecs :: "rcalls \<Rightarrow> byte list \<Rightarrow> rstmt list \<Rightarrow> rframe \<Rightarrow> rframe gores" where
  "rexecs C bs = go_fold (rexec C bs)"

lemma rexecs_simps [simp]:
  "rexecs C bs [] fr = Done fr"
  "rexecs C bs (s # ss) fr = go_bind (rexec C bs s fr) (rexecs C bs ss)"
  by (simp_all add: rexecs_def)

lemma rexecs_append [simp]: "rexecs C bs (xs @ ys) fr = go_bind (rexecs C bs xs fr) (rexecs C bs ys)"
proof (induction xs arbitrary: fr)
  case (Cons x xs)
  then show ?case by (cases "rexec C bs x fr") auto
qed simp

section \<open>Programs\<close>

text \<open>
  What is emitted for one struct: its members, in order, with their defaults, and the body.  The
  default of a member whose type is a struct is that of the struct.
\<close>

record rdecl =
  rd_fields :: "(string \<times> ((string \<Rightarrow> val) \<Rightarrow> val)) list"
  rd_body :: rbody

type_synonym rprogram = "string \<rightharpoonup> rdecl"

fun default_of :: "rprogram \<Rightarrow> nat \<Rightarrow> string \<Rightarrow> val" where
  "default_of prog 0 s = VNil"
| "default_of prog (Suc n) s =
     (case prog s of
        None \<Rightarrow> VNil
      | Some d \<Rightarrow> VStruct s (map (\<lambda>(f, v). v (default_of prog n)) (rd_fields d)))"

definition build :: "rdecl \<Rightarrow> string \<Rightarrow> (string \<rightharpoonup> val) \<Rightarrow> val gores" where
  "build d s m = go_map (VStruct s) (push_all (\<lambda>(f, v). or_panic (m f)) (rd_fields d))"

fun run_body :: "rcalls \<Rightarrow> (string \<Rightarrow> val) \<Rightarrow> rdecl \<Rightarrow> string \<Rightarrow> byte list \<Rightarrow> val gores" where
  "run_body C Z d s bs =
     (case rd_body d of
        RLiteral n fs \<Rightarrow>
          go_bind (rexecs C bs (RGuard n # map (\<lambda>(f, e). RSet f e) fs) \<lparr>rf_offs = Map.empty, rf_mem = Map.empty\<rparr>)
            (\<lambda>fr. build d s (rf_mem fr))
      | RAssigns ss \<Rightarrow>
          go_bind (rexecs C bs ss
              \<lparr>rf_offs = Map.empty, rf_mem = map_of (map (\<lambda>(f, v). (f, v Z)) (rd_fields d))\<rparr>)
            (\<lambda>fr. build d s (rf_mem fr)))"

text \<open>The function on a slice; the first argument bounds the nesting of calls.\<close>

fun from_ssz_bytes :: "rprogram \<Rightarrow> nat \<Rightarrow> string \<Rightarrow> byte list \<Rightarrow> val gores" where
  "from_ssz_bytes prog 0 s bs = Panics"
| "from_ssz_bytes prog (Suc n) s bs =
     go_bind (or_panic (prog s)) (\<lambda>d. run_body (from_ssz_bytes prog n) (default_of prog n) d s bs)"


text \<open>
  The program behind the emitted \<open>from_ssz_bytes\<close>: the expression that reads a field, the body of the
  function, the defaults of the members, and the proof that the text of \<open>Rust_Text\<close> is
  theirs.
\<close>

section \<open>Defaults\<close>

text \<open>The values of \<open>RustDefault\<close>; \<open>Z\<close> is the default of a struct.\<close>

fun rust_default_value :: "Parser \<Rightarrow> (string \<Rightarrow> val) \<Rightarrow> SszFieldInfo \<Rightarrow> val" where
  "rust_default_value P Z (SszFieldInfo t n l b d s e) =
     (case t of
        SszBool \<Rightarrow> VBool False
      | SszUint8 \<Rightarrow> VUint 0
      | SszUint16 \<Rightarrow> VUint 0
      | SszUint32 \<Rightarrow> VUint 0
      | SszUint64 \<Rightarrow> VUint 0
      | SszUint128 \<Rightarrow> VBytes (replicate 16 0)
      | SszUint256 \<Rightarrow> VBytes (replicate 32 0)
      | SszVector \<Rightarrow>
          (case e of
             None \<Rightarrow> VNil
           | Some i \<Rightarrow>
               if ssz_type i = SszUint8 then VBytes (replicate (unat l) 0)
               else VSeq (replicate (unat l) (rust_default_value P Z i)))
      | SszBitvector \<Rightarrow> VBytes (replicate (unat ((b + 7) div 8)) 0)
      | SszBitlist \<Rightarrow> VBytes []
      | SszContainer \<Rightarrow> Z (case s of None \<Rightarrow> '''' | Some q \<Rightarrow> sd_name (struct_at P q))
      | SszProgressiveContainer \<Rightarrow> Z (case s of None \<Rightarrow> '''' | Some q \<Rightarrow> sd_name (struct_at P q))
      | SszUnion \<Rightarrow> VNil
      | _ \<Rightarrow> (case e of None \<Rightarrow> VBytes [] | Some i \<Rightarrow> if ssz_type i = SszUint8 then VBytes [] else VSeq []))"

section \<open>Expressions\<close>

definition array_len :: "SszFieldInfo \<Rightarrow> nat option" where
  "array_len info =
     (case ssz_type info of
        SszUint128 \<Rightarrow> Some 16
      | SszUint256 \<Rightarrow> Some 32
      | SszBitvector \<Rightarrow> Some (unat ((bitsize info + 7) div 8))
      | _ \<Rightarrow> if elem_is info SszUint8 then Some (unat (info_limit info)) else None)"

definition fixed_read :: "Parser \<Rightarrow> SszFieldInfo \<Rightarrow> u32 \<Rightarrow> rexpr" where
  "fixed_read P info offset =
     (let a = RNum offset; b = RNum (offset + fixed_size info); nm = info_struct_name P '''' info in
      case ssz_type info of
        SszBool \<Rightarrow> XBool a
      | SszUint8 \<Rightarrow> XByte a
      | SszUint16 \<Rightarrow> XUint 16 a b
      | SszUint32 \<Rightarrow> XUint 32 a b
      | SszUint64 \<Rightarrow> XUint 64 a b
      | SszUint128 \<Rightarrow> XArray (array_len info) a b
      | SszUint256 \<Rightarrow> XArray (array_len info) a b
      | SszVector \<Rightarrow> XArray (array_len info) a b
      | SszBitvector \<Rightarrow> XArray (array_len info) a b
      | SszProgressiveContainer \<Rightarrow> XCall nm a b
      | SszContainer \<Rightarrow> XCall nm a b
      | _ \<Rightarrow> XDefault (rust_default_value P (\<lambda>s. VNil) info))"

definition list_read :: "Parser \<Rightarrow> SszFieldInfo \<Rightarrow> rpos \<Rightarrow> rpos \<Rightarrow> rexpr" where
  "list_read P info a b =
     (case elem_info info of
        None \<Rightarrow> XVec a b
      | Some e \<Rightarrow>
          if ssz_type e = SszList then XOffsets EBytes a b
          else if ssz_type e = SszUint8 then XVec a b
          else if ssz_type e = SszContainer then
            (if is_dynamic e then XOffsets (ECall (info_struct_name P '''' e)) a b
             else XChunks (fixed_size e) (ECall (info_struct_name P '''' e)) a b)
          else
            (case ssz_type e of
               SszBool \<Rightarrow> XChunks (fixed_size e) EBool a b
             | SszUint16 \<Rightarrow> XChunks (fixed_size e) (EUint 16) a b
             | SszUint32 \<Rightarrow> XChunks (fixed_size e) (EUint 32) a b
             | SszUint64 \<Rightarrow> XChunks (fixed_size e) (EUint 64) a b
             | _ \<Rightarrow> XVec a b))"

definition dyn_read :: "Parser \<Rightarrow> SszFieldInfo \<Rightarrow> rpos \<Rightarrow> rpos \<Rightarrow> rexpr" where
  "dyn_read P info a b =
     (case ssz_type info of
        SszProgressiveList \<Rightarrow> list_read P info a b
      | SszList \<Rightarrow> list_read P info a b
      | SszBitlist \<Rightarrow> XVec a b
      | SszProgressiveContainer \<Rightarrow> XCall (info_struct_name P '''' info) a b
      | SszContainer \<Rightarrow> XCall (info_struct_name P '''' info) a b
      | _ \<Rightarrow> XDefault (rust_default_value P (\<lambda>s. VNil) info))"

section \<open>The body\<close>

fun literal_fields :: "Parser \<Rightarrow> u32 \<Rightarrow> (FieldPtr \<times> SszFieldInfo) list \<Rightarrow> (string \<times> rexpr) list" where
  "literal_fields P offset [] = []"
| "literal_fields P offset ((p, i) # ps) =
     (rust_member P p, fixed_read P i offset) # literal_fields P (offset + fixed_size i) ps"

fun static_reads :: "Parser \<Rightarrow> u32 \<Rightarrow> u32 \<Rightarrow> nat \<Rightarrow> (FieldPtr \<times> SszFieldInfo) list \<Rightarrow> rstmt list" where
  "static_reads P static offset k [] = []"
| "static_reads P static offset k ((p, i) # ps) =
     (if is_dynamic i then
        [RRead k offset, if k = 0 then RFirst static else ROrder k] @
        static_reads P static (offset + 4) (k + 1) ps
      else
        RSet (rust_member P p) (fixed_read P i offset) #
        static_reads P static (offset + fixed_size i) k ps)"

fun dynamic_reads :: "Parser \<Rightarrow> nat \<Rightarrow> (FieldPtr \<times> SszFieldInfo) list \<Rightarrow> rstmt list" where
  "dynamic_reads P k [] = []"
| "dynamic_reads P k ((p, i) # ps) =
     RSet (rust_member P p) (dyn_read P i (ROff k) (if ps = [] then RLen else ROff (k + 1))) #
     dynamic_reads P (k + 1) ps"

definition from_body :: "Parser \<Rightarrow> SszContainerInfo \<Rightarrow> rbody" where
  "from_body P c =
     (let ps = infos_of c (all_fields c) in
      if dynamic_fields c = [] then RLiteral (static_size c) (literal_fields P 0 ps)
      else RAssigns (RGuard (static_size c) #
        static_reads P (static_size c) 0 0 ps @ dynamic_reads P 0 (dynamic_of ps)))"

section \<open>The emitted text is the text of the program\<close>

lemma print_fixed_read: "rust_GenUnmarshalExpr P info ''bytes'' offset = rs_read (fixed_read P info offset)"
  by (cases "ssz_type info")
    (simp_all add: rust_GenUnmarshalExpr_def fixed_read_def rust_slice_def rs_range_def num_literals Let_def)

lemma print_list_read:
  "rust_unmarshal_list P info (rs_range a b) = rs_read (list_read P info a b)"
proof (cases "elem_info info")
  case None
  then show ?thesis by (simp add: rust_unmarshal_list_def list_read_def)
next
  case (Some e)
  then show ?thesis
    by (cases "ssz_type e")
      (simp_all add: rust_unmarshal_list_def list_read_def rust_offset_block_def rust_chunk_block_def
        rust_chunk_def rust_GenUnmarshalPrimitiveSlice_def num_literals Let_def)
qed

lemma print_dyn_read:
  "rust_GenUnmarshalDynExpr P info ''bytes'' (rs_at a) (rs_at b) = rs_read (dyn_read P info a b)"
proof -
  have "rust_slice ''bytes'' (rs_at a) (rs_at b) = rs_range a b"
    by (simp add: rust_slice_def rs_range_def)
  from this [simplified] show ?thesis
    by (cases "ssz_type info")
      (simp_all add: rust_GenUnmarshalDynExpr_def dyn_read_def print_list_read Let_def)
qed

lemma print_literal:
  "rust_unmarshal_fixed P c offset ps =
     concat (map (\<lambda>(f, e). line sp12 (f @ '': '' @ rs_read e @ '','')) (literal_fields P offset (infos_of c ps)))"
  by (induction ps arbitrary: offset) (auto simp: print_fixed_read split: option.splits)

lemma print_static_reads:
  "fst (rust_unmarshal_static P c offset k ps) =
     rs_dstmts (static_reads P (static_size c) offset k (infos_of c ps))"
  by (induction ps arbitrary: offset k)
    (auto simp: rust_read_offset_def print_fixed_read Let_def split_beta split: option.splits)

lemma rust_static_names:
  "snd (rust_unmarshal_static P c offset k ps) = numbered k (dynamic_of (infos_of c ps))"
  by (induction ps arbitrary: offset k)
    (auto simp: dynamic_of_def Let_def split_beta split: option.splits)

lemma print_dynamic_reads:
  assumes "\<forall>(p, i) \<in> set ds. field_infos c p = Some i"
  shows "rust_unmarshal_dynamic P c (numbered k ds) = rs_dstmts (dynamic_reads P k ds)"
  using assms
proof (induction k ds rule: numbered.induct)
  case (2 k p i ds)
  have "(case numbered (Suc k) ds of
      [] \<Rightarrow> ''bytes.len()'' | (q, k') # r \<Rightarrow> ''offset'' @ NumToString k') =
      rs_at (if ds = [] then RLen else ROff (Suc k))"
    by (cases "(Suc k, ds)" rule: numbered.cases) simp_all
  moreover have "''offset'' @ NumToString k = rs_at (ROff k)" by simp
  ultimately show ?case
    using 2 print_dyn_read [of P i "ROff k" "if ds = [] then RLen else ROff (Suc k)"]
    by (simp only: numbered.simps rust_unmarshal_dynamic.simps dynamic_reads.simps Let_def) simp
qed simp

lemma print_from:
  "rust_GenUnmarshalMethod P c =
     line sp4 ''pub fn from_ssz_bytes(bytes: &[u8]) -> Result<Self, SszError> {'' @
     rs_body (from_body P c) @ line sp4 ''}'' @ nl"
proof -
  let ?ds = "dynamic_of (infos_of c (all_fields c))"
  have "\<forall>(p, i) \<in> set ?ds. field_infos c p = Some i"
    using infos_of_info by (auto simp: dynamic_of_def)
  from print_dynamic_reads [OF this, of P 0] have dyn:
    "rust_unmarshal_dynamic P c (numbered 0 ?ds) = rs_dstmts (dynamic_reads P 0 ?ds)" .
  obtain code names where st: "rust_unmarshal_static P c 0 0 (all_fields c) = (code, names)"
    by (cases "rust_unmarshal_static P c 0 0 (all_fields c)")
  with print_static_reads [of P c 0 0 "all_fields c"] rust_static_names [of P c 0 0 "all_fields c"] dyn
  show ?thesis
    by (simp add: rust_GenUnmarshalMethod_def from_body_def print_literal Let_def)
qed

end
