(* ===== verification/Go_Exec.thy ===== *)
theory Go_Exec
  imports Emit_Program Ssz_Schema
begin

text \<open>
  What the statements of one field do: they append the serialization of the field's value.
  \<open>marshals\<close> is the contract of a nested \<open>MarshalSSZTo\<close>; the offsets of a sequence of
  variable-size parts are written over zeros, which \<open>holes\<close> describes.
\<close>

section \<open>Frames\<close>

named_theorems frame_simps \<open>frames under the assignments of a statement\<close>

lemma frame_selectors [frame_simps]:
  "gf_members (append_dst bs fr) = gf_members fr" "gf_recv (append_dst bs fr) = gf_recv fr"
  "gf_vals (append_dst bs fr) = gf_vals fr" "gf_ints (append_dst bs fr) = gf_ints fr"
  "gf_dst (append_dst bs fr) = gf_dst fr @ bs" "gf_size (append_dst bs fr) = gf_size fr"
  "gf_members (bind_val x v fr) = gf_members fr" "gf_recv (bind_val x v fr) = gf_recv fr"
  "gf_vals (bind_val x v fr) = (gf_vals fr)(x \<mapsto> v)" "gf_ints (bind_val x v fr) = gf_ints fr"
  "gf_dst (bind_val x v fr) = gf_dst fr" "gf_size (bind_val x v fr) = gf_size fr"
  "gf_members (bind_int i k fr) = gf_members fr" "gf_recv (bind_int i k fr) = gf_recv fr"
  "gf_vals (bind_int i k fr) = gf_vals fr" "gf_ints (bind_int i k fr) = (gf_ints fr)(i \<mapsto> k)"
  "gf_dst (bind_int i k fr) = gf_dst fr" "gf_size (bind_int i k fr) = gf_size fr"
  by (simp_all add: append_dst_def bind_val_def bind_int_def)

lemma append_dst_append [frame_simps]: "append_dst bs (append_dst as fr) = append_dst (as @ bs) fr"
  by (simp add: append_dst_def)

lemma append_dst_Nil [frame_simps]: "append_dst [] fr = fr"
  by (simp add: append_dst_def)

lemma leave_frames [frame_simps]:
  "leave fr (append_dst bs fr) = append_dst bs fr"
  "leave fr (append_dst bs (bind_val x v fr)) = append_dst bs fr"
  "leave fr (append_dst bs (bind_int i k fr)) = append_dst bs fr"
  by (simp_all add: leave_def append_dst_def bind_val_def bind_int_def)

text \<open>The value of the receiver's member \<open>f\<close>; assignments do not change it.\<close>

definition member :: "gframe \<Rightarrow> string \<Rightarrow> val option" where
  "member fr f = map_of (zip (gf_members fr) (gf_recv fr)) f"

lemma member_frames [frame_simps]:
  "member (append_dst bs fr) = member fr"
  "member (bind_val x v fr) = member fr"
  "member (bind_int i k fr) = member fr"
  by (simp_all add: member_def [abs_def] frame_simps)

lemma eval_member [frame_simps]: "eval fr (GMember f) = member fr f"
  by (simp add: member_def)

declare eval.simps(1) [simp del]

text \<open>A loop whose steps append to \<open>dst\<close> appends everything its steps append.\<close>

lemma fold_opt_append:
  assumes "\<And>x bs. x \<in> set xs \<Longrightarrow> step x (append_dst bs fr) = Some (append_dst (bs @ g x) fr)"
  shows "fold_opt step xs (append_dst bs fr) = Some (append_dst (bs @ concat (map g xs)) fr)"
  using assms by (induction xs arbitrary: bs) auto

lemma fold_opt_append0:
  assumes "\<And>x bs. x \<in> set xs \<Longrightarrow> step x (append_dst bs fr) = Some (append_dst (bs @ g x) fr)"
  shows "fold_opt step xs fr = Some (append_dst (concat (map g xs)) fr)"
  using fold_opt_append [of xs step fr g "[]", OF assms] by (simp add: frame_simps)

section \<open>Offsets over zeros\<close>

fun holes :: "(bool \<times> byte list) list \<Rightarrow> byte list" where
  "holes [] = []"
| "holes ((v, b) # ps) = (if v then [0, 0, 0, 0] else b) @ holes ps"

lemma length_holes [simp]: "length (holes ps) = heads_len ps"
  by (induction ps rule: heads_len.induct) auto

lemma holes_append [simp]: "holes (ps @ qs) = holes ps @ holes qs"
  by (induction ps) auto

lemma put_bytes_at:
  "length bs = length old \<Longrightarrow> put_bytes (length pre) bs (pre @ old @ post) = Some (pre @ bs @ post)"
  by (simp add: put_bytes_def)

text \<open>The parts of a list with offsets are all variable.\<close>

lemma heads_all_True: "heads_len (map (\<lambda>x. (True, f x)) xs) = 4 * length xs"
  by (induction xs) auto

lemma holes_all_True:
  "holes (map (\<lambda>x. (True, f x)) xs) = concat (map (\<lambda>k. [0, 0, 0, 0]) [0..<length xs])"
proof -
  have "holes (map (\<lambda>x. (True, f x)) xs) = concat (replicate (length xs) [0, 0, 0, 0])"
    by (induction xs) auto
  then show ?thesis by (simp add: map_replicate_const)
qed

lemma tails_all_True: "tails (map (\<lambda>x. (True, f x)) xs) = concat (map f xs)"
  by (induction xs) auto

section \<open>The contract of nested calls\<close>

definition marshals :: "struct_types \<Rightarrow> gcalls \<Rightarrow> bool" where
  "marshals st C \<longleftrightarrow>
     (\<forall>q nm fs vs buf. st q = Some (TContainer nm fs) \<longrightarrow> fields_bits_ok fs \<longrightarrow> vals_ok fs vs \<longrightarrow>
        call_marshal C nm vs buf = Some (buf @ serialize (TContainer nm fs) (VStruct nm vs)))"

text \<open>The element types that a schema can give a vector or list, and the field types over them.\<close>

fun flat_elem :: "ssz_ty \<Rightarrow> bool" where
  "flat_elem TBool = True"
| "flat_elem (TUint k) = (k = 1 \<or> k = 2 \<or> k = 4 \<or> k = 8)"
| "flat_elem (TContainer s fs) = True"
| "flat_elem (TList t l) = (t = TUint 1)"
| "flat_elem t = False"

fun flat_ty :: "ssz_ty \<Rightarrow> bool" where
  "flat_ty (TVector t n) = flat_elem t"
| "flat_ty (TList t l) = flat_elem t"
| "flat_ty (TProgressiveList t) = flat_elem t"
| "flat_ty (TUint k) = (k = 1 \<or> k = 2 \<or> k = 4 \<or> k = 8)"
| "flat_ty t = True"

lemma marshal_call:
  assumes "marshals st C" and "info_rep st i (TContainer nm fs)" and "fields_bits_ok fs"
    and "val_ok (TContainer nm fs) v" and "eval fr e = Some v"
  shows "exec C (MarshalInto e) fr = Some (append_dst (serialize (TContainer nm fs) v) fr)"
proof -
  from assms(4) obtain vs where v: "v = VStruct nm vs" "vals_ok fs vs" by auto
  from assms(2) obtain q where "st q = Some (TContainer nm fs)" by auto
  with assms(1,3) v have "call_marshal C nm vs (gf_dst fr) =
      Some (gf_dst fr @ serialize (TContainer nm fs) (VStruct nm vs))"
    unfolding marshals_def by blast
  with assms(5) v show ?thesis by (simp add: append_dst_def)
qed

section \<open>Elements\<close>

text \<open>An element of primitive type.\<close>

lemma prim_exec:
  assumes "info_rep st i t" and "flat_elem t" and "\<not> is_byte_ty t"
    and "t = TBool \<or> (\<exists>k. t = TUint k)" and "val_ok t v" and "eval fr e = Some v"
  shows "execs C (prim_stmts (ssz_type i) e) fr = Some (append_dst (serialize t v) fr)"
  using assms
  by (auto simp: prim_stmts_def is_byte_ty_def leave_frames frame_simps split: if_splits)

text \<open>The three loops over elements that are appended one after the other.\<close>

lemma for_index_exec:
  assumes v: "member fr f = Some (VSeq xs)"
    and step: "\<And>k fr'. k < length xs \<Longrightarrow> eval fr' e = Some (xs ! k) \<Longrightarrow>
      execs C body fr' = Some (append_dst (g (xs ! k)) fr')"
    and e: "e = GIndex (GMember f) ''i''"
  shows "exec C (ForIndex ''i'' (GMember f) body) fr = Some (append_dst (concat (map g xs)) fr)"
proof -
  let ?step = "\<lambda>k f. map_option (leave f) (execs C body (bind_int ''i'' k f))"
  have "fold_opt ?step [0..<length xs] fr =
      Some (append_dst (concat (map (\<lambda>k. g (xs ! k)) [0..<length xs])) fr)"
  proof (rule fold_opt_append0)
    fix k bs
    assume "k \<in> set [0..<length xs]"
    then have k: "k < length xs" by simp
    have "eval (bind_int ''i'' k (append_dst bs fr)) e = Some (xs ! k)"
      using v k by (simp add: e frame_simps)
    with step [OF k] show "?step k (append_dst bs fr) = Some (append_dst (bs @ g (xs ! k)) fr)"
      by (simp add: frame_simps)
  qed
  moreover have "map (\<lambda>k. g (xs ! k)) [0..<length xs] = map g xs"
    by (rule nth_equalityI) auto
  ultimately show ?thesis using v by (simp add: frame_simps)
qed

lemma for_value_exec:
  assumes v: "member fr f = Some (VSeq xs)"
    and step: "\<And>w fr'. w \<in> set xs \<Longrightarrow> eval fr' (GLocal x) = Some w \<Longrightarrow>
      execs C body fr' = Some (append_dst (g w) fr')"
  shows "exec C (ForValue x (GMember f) body) fr = Some (append_dst (concat (map g xs)) fr)"
proof -
  let ?step = "\<lambda>w f. map_option (leave f) (execs C body (bind_val x w f))"
  have "fold_opt ?step xs fr = Some (append_dst (concat (map g xs)) fr)"
  proof (rule fold_opt_append0)
    fix w bs
    assume w: "w \<in> set xs"
    have "eval (bind_val x w (append_dst bs fr)) (GLocal x) = Some w"
      by (simp add: frame_simps)
    with step [OF w] show "?step w (append_dst bs fr) = Some (append_dst (bs @ g w) fr)"
      by (simp add: frame_simps)
  qed
  with v show ?thesis by (simp add: frame_simps)
qed

subsection \<open>A list with offsets\<close>

text \<open>
  The second loop: with the elements from the \<open>k\<close>-th on still to come, their offsets are zeros
  behind \<open>pre\<close>.
\<close>

definition at_dst :: "byte list \<Rightarrow> gframe \<Rightarrow> gframe" where
  "at_dst d fr = fr\<lparr>gf_dst := d\<rparr>"

lemma at_dst_frames [frame_simps]:
  "gf_dst (at_dst d fr) = d" "gf_ints (at_dst d fr) = gf_ints fr"
  "gf_vals (at_dst d fr) = gf_vals fr" "gf_members (at_dst d fr) = gf_members fr"
  "gf_recv (at_dst d fr) = gf_recv fr" "member (at_dst d fr) = member fr"
  "append_dst bs (at_dst d fr) = at_dst (d @ bs) fr"
  "at_dst d (at_dst d' fr) = at_dst d fr" "at_dst (gf_dst fr) fr = fr"
  "leave fr (at_dst d fr') = at_dst d (leave fr fr')"
  by (simp_all add: at_dst_def append_dst_def leave_def member_def [abs_def])

lemma append_at: "append_dst bs fr = at_dst (gf_dst fr @ bs) fr"
  by (simp add: append_dst_def at_dst_def)

lemma execs_block: "execs C [Block b] fr = map_option (leave fr) (execs C b fr)"
  by (cases "execs C b fr") simp_all

lemma put_len_exec:
  assumes "pos_at fr p = Some (length pre)" and "gf_ints fr base = Some b"
    and "gf_dst fr = pre @ [0, 0, 0, 0] @ post"
  shows "exec C (PutLen p base) fr =
    Some (at_dst (pre @ le_bytes 4 (length (gf_dst fr) - b) @ post) fr)"
proof -
  have "put_bytes (length pre) (le_bytes 4 (length (gf_dst fr) - b)) (pre @ [0, 0, 0, 0] @ post) =
      Some (pre @ le_bytes 4 (length (gf_dst fr) - b) @ post)"
    by (rule put_bytes_at) simp
  with assms show ?thesis by (simp add: at_dst_def)
qed

lemma both_loop:
  assumes base: "gf_ints fr ''listStart'' = Some base" and k: "length pre = base + 4 * k"
    and step: "\<And>w fr'. w \<in> set xs \<Longrightarrow> eval fr' (GLocal ''item'') = Some w \<Longrightarrow>
      execs C body fr' = Some (append_dst (g w) fr')"
  shows "fold_opt (\<lambda>(k, v) f. map_option (leave f)
        (execs C (PutLen (PElem ''listStart'' ''i'' 4) ''listStart'' # body)
          (bind_int ''i'' k (bind_val ''item'' v f))))
      (enumerate k xs)
      (at_dst (pre @ holes (map (\<lambda>x. (True, g x)) xs) @ post) fr) =
    Some (at_dst (pre @ heads (4 * k + 4 * length xs + length post) (map (\<lambda>x. (True, g x)) xs) @
      post @ concat (map g xs)) fr)"
  using k step
proof (induction xs arbitrary: k pre post)
  case Nil
  then show ?case by simp
next
  case (Cons x xs)
  let ?ps = "map (\<lambda>x. (True, g x)) xs"
  let ?off = "4 * k + 4 * length (x # xs) + length post"
  let ?fr0 = "at_dst (pre @ [0, 0, 0, 0] @ holes ?ps @ post) fr"
  let ?fr1 = "bind_int ''i'' k (bind_val ''item'' x ?fr0)"
  let ?d = "pre @ le_bytes 4 ?off @ holes ?ps @ post"
  have len: "length (pre @ [0, 0, 0, 0] @ holes ?ps @ post) - base = ?off"
    using Cons.prems(1) by (simp add: heads_all_True)
  have "exec C (PutLen (PElem ''listStart'' ''i'' 4) ''listStart'') ?fr1 =
      Some (at_dst (pre @ le_bytes 4 (length (gf_dst ?fr1) - base) @ (holes ?ps @ post)) ?fr1)"
    by (rule put_len_exec) (use base Cons.prems(1) in \<open>simp_all add: frame_simps mult.commute\<close>)
  moreover have "length (gf_dst ?fr1) - base = ?off" using len by (simp add: frame_simps)
  ultimately have put: "exec C (PutLen (PElem ''listStart'' ''i'' 4) ''listStart'') ?fr1 =
      Some (at_dst ?d ?fr1)" by simp
  have "execs C body (at_dst ?d ?fr1) = Some (append_dst (g x) (at_dst ?d ?fr1))"
    by (rule Cons.prems(2)) (simp_all add: frame_simps)
  then have body: "map_option (leave ?fr0)
      (execs C (PutLen (PElem ''listStart'' ''i'' 4) ''listStart'' # body) ?fr1) =
      Some (at_dst ((pre @ le_bytes 4 ?off) @ holes ?ps @ (post @ g x)) fr)"
    using put by (simp add: at_dst_def append_dst_def leave_def bind_int_def bind_val_def)
  have "length (pre @ le_bytes 4 ?off) = base + 4 * Suc k" using Cons.prems(1) by simp
  note ih = Cons.IH [OF this Cons.prems(2), of "post @ g x"]
  have off: "4 * Suc k + 4 * length xs + length (post @ g x) = ?off + length (g x)" by simp
  from ih [unfolded off] body show ?case
    by (simp del: execs.simps exec.simps map_option_eq_Some)
qed

lemma offset_list_exec:
  assumes v: "member fr f = Some (VSeq xs)"
    and step: "\<And>w fr'. w \<in> set xs \<Longrightarrow> eval fr' (GLocal ''item'') = Some w \<Longrightarrow>
      execs C body fr' = Some (append_dst (g w) fr')"
  shows "execs C (offset_list (GMember f) body) fr =
    Some (append_dst (ser_parts (map (\<lambda>x. (True, g x)) xs)) fr)"
proof -
  let ?ps = "map (\<lambda>x. (True, g x)) xs"
  let ?fr1 = "bind_int ''listStart'' (length (gf_dst fr)) fr"
  let ?fr2 = "append_dst (holes ?ps) ?fr1"
  let ?fr3 = "at_dst (gf_dst fr @ ser_parts ?ps) ?fr1"
  let ?both = "ForBoth ''i'' ''item'' (GMember f)
    (PutLen (PElem ''listStart'' ''i'' 4) ''listStart'' # body)"
  have "fold_opt (\<lambda>k fa. map_option (leave fa) (execs C [AppendZeros] fa)) [0..<length xs] ?fr1 =
      Some ?fr2"
    unfolding holes_all_True
    by (rule fold_opt_append0) (simp add: append_dst_def leave_def)
  then have zeros: "exec C (ForEach (GMember f) [AppendZeros]) ?fr1 = Some ?fr2"
    using v by (simp add: frame_simps)
  have "fold_opt (\<lambda>(k, v) f. map_option (leave f)
        (execs C (PutLen (PElem ''listStart'' ''i'' 4) ''listStart'' # body)
          (bind_int ''i'' k (bind_val ''item'' v f))))
      (enumerate 0 xs)
      (at_dst (gf_dst fr @ holes ?ps @ []) ?fr1) =
    Some (at_dst (gf_dst fr @ heads (4 * 0 + 4 * length xs + length ([]::byte list)) ?ps @
      [] @ concat (map g xs)) ?fr1)"
    by (rule both_loop) (use step in \<open>simp_all add: frame_simps\<close>)
  moreover have "?fr2 = at_dst (gf_dst fr @ holes ?ps @ []) ?fr1"
    by (simp add: append_dst_def at_dst_def bind_int_def)
  ultimately have both: "exec C ?both ?fr2 = Some ?fr3"
    using v by (simp add: frame_simps ser_parts_def heads_all_True tails_all_True del: execs.simps)
  have "execs C [DeclLen ''listStart'', ForEach (GMember f) [AppendZeros], ?both] fr = Some ?fr3"
    using zeros both by (simp del: exec.simps add: exec.simps(4))
  moreover have "leave fr ?fr3 = append_dst (ser_parts ?ps) fr"
    by (simp add: at_dst_def bind_int_def leave_def append_dst_def)
  ultimately show ?thesis by (simp only: offset_list_def execs_block option.map)
qed

end
