(* ===== verification/Go_Marshal.thy ===== *)
theory Go_Marshal
  imports Go_Exec
begin

text \<open>
  The emitted \<open>MarshalSSZTo\<close> appends the serialization of the receiver: for a field of every
  type, for the two sections of a container, and, by induction over the nesting of containers,
  for the program that the Go back end emits for a schema.
\<close>

section \<open>Fields\<close>

lemma ser_fixed_seq [simp]:
  "ser_parts (map (\<lambda>x. (False, g x)) xs) = concat (map g xs)"
  by (subst ser_parts_fixed) (auto simp: comp_def)

lemma elem_rep_simps:
  "elem_info i = Some e \<Longrightarrow> elem_is i T \<longleftrightarrow> ssz_type e = T"
  "elem_info i = Some e \<Longrightarrow> elem_ssz_type i = ssz_type e"
  "elem_info i = Some e \<Longrightarrow> elem_dynamic i = is_dynamic e"
  "elem_info i = Some e \<Longrightarrow> elem_fixed_size i = fixed_size e"
  by (simp_all add: elem_is_def elem_ssz_type_def elem_dynamic_def elem_fixed_size_def)

text \<open>How the element type shows in the element's info.\<close>

lemma flat_elem_cases:
  assumes "info_rep st e t" and "flat_elem t"
  obtains (byte) "is_byte_ty t" "ssz_type e = SszUint8"
    | (prim) "\<not> is_byte_ty t" "t = TBool \<or> (\<exists>k. t = TUint k)"
        "ssz_type e \<notin> {SszUint8, SszContainer, SszList}"
    | (cont) nm fs where "t = TContainer nm fs" "ssz_type e = SszContainer"
    | (bytes) l where "t = TList (TUint 1) l" "ssz_type e = SszList"
  using assms by (cases t) (auto simp: is_byte_ty_def split: if_splits)

text \<open>The loops over elements of a primitive type and over containers.\<close>

lemma prim_loop:
  assumes e: "info_rep st e t" "flat_elem t" and prim: "\<not> is_byte_ty t" "t = TBool \<or> (\<exists>k. t = TUint k)"
    and v: "member fr f = Some (VSeq xs)" "\<forall>x \<in> set xs. val_ok t x"
  shows "exec C (ForValue ''v'' (GMember f) (prim_stmts (ssz_type e) (GLocal ''v''))) fr =
      Some (append_dst (concat (map (serialize t) xs)) fr)"
    and "exec C (ForIndex ''i'' (GMember f) (prim_stmts (ssz_type e) (GIndex (GMember f) ''i''))) fr =
      Some (append_dst (concat (map (serialize t) xs)) fr)"
proof -
  show "exec C (ForValue ''v'' (GMember f) (prim_stmts (ssz_type e) (GLocal ''v''))) fr =
      Some (append_dst (concat (map (serialize t) xs)) fr)"
    by (rule for_value_exec) (use v prim prim_exec [OF e] in auto)
  show "exec C (ForIndex ''i'' (GMember f) (prim_stmts (ssz_type e) (GIndex (GMember f) ''i''))) fr =
      Some (append_dst (concat (map (serialize t) xs)) fr)"
    by (rule for_index_exec [OF _ _ refl]) (use v prim prim_exec [OF e] in auto)
qed

lemma call_loop:
  assumes C: "marshals st C" and e: "info_rep st e t" and t: "t = TContainer nm fs" and bits: "bits_ok t"
    and v: "member fr f = Some (VSeq xs)" "\<forall>x \<in> set xs. val_ok t x"
  shows "exec C (ForValue ''item'' (GMember f) [MarshalInto (GLocal ''item'')]) fr =
      Some (append_dst (concat (map (serialize t) xs)) fr)"
    and "exec C (ForIndex ''i'' (GMember f) [MarshalInto (GIndex (GMember f) ''i'')]) fr =
      Some (append_dst (concat (map (serialize t) xs)) fr)"
    and "execs C (offset_list (GMember f) [MarshalInto (GLocal ''item'')]) fr =
      Some (append_dst (ser_parts (map (\<lambda>x. (True, serialize t x)) xs)) fr)"
proof -
  have call: "execs C [MarshalInto ex] fr' = Some (append_dst (serialize t w) fr')"
    if "w \<in> set xs" "eval fr' ex = Some w" for w fr' ex
    using marshal_call [OF C e [unfolded t], of w fr' ex] that bits v t by (simp del: exec.simps)
  show "exec C (ForValue ''item'' (GMember f) [MarshalInto (GLocal ''item'')]) fr =
      Some (append_dst (concat (map (serialize t) xs)) fr)"
    by (rule for_value_exec [OF v(1) call])
  show "execs C (offset_list (GMember f) [MarshalInto (GLocal ''item'')]) fr =
      Some (append_dst (ser_parts (map (\<lambda>x. (True, serialize t x)) xs)) fr)"
    by (rule offset_list_exec [OF v(1) call])
  show "exec C (ForIndex ''i'' (GMember f) [MarshalInto (GIndex (GMember f) ''i'')]) fr =
      Some (append_dst (concat (map (serialize t) xs)) fr)"
    by (rule for_index_exec [OF v(1) _ refl], rule call) simp_all
qed

lemma vector_exec:
  assumes C: "marshals st C" and rep: "info_rep st i (TVector t n)" and flat: "flat_ty (TVector t n)"
    and bits: "bits_ok t" and ok: "val_ok (TVector t n) v" and v: "member fr f = Some v"
  shows "execs C (vector_stmts ix i (GMember f)) fr = Some (append_dst (serialize (TVector t n) v) fr)"
proof -
  from rep obtain e where e: "elem_info i = Some e" "info_rep st e t" by auto
  from flat rep have fl: "flat_elem t" "\<not> is_variable t" by auto
  from e(2) fl(1) show ?thesis
  proof (cases rule: flat_elem_cases)
    case byte
    with ok obtain bs where "v = VBytes bs" by auto
    with byte v e show ?thesis by (simp add: vector_stmts_def elem_rep_simps eval_member)
  next
    case prim
    with ok obtain xs where xs: "v = VSeq xs" "\<forall>x \<in> set xs. val_ok t x" by auto
    with prim_loop [OF e(2) fl(1) prim(1,2), of fr f xs C] v prim(3) e fl show ?thesis
      by (simp add: vector_stmts_def elem_rep_simps del: exec.simps)
  next
    case (cont nm fs)
    with ok obtain xs where xs: "v = VSeq xs" "\<forall>x \<in> set xs. val_ok t x"
      by (auto simp: is_byte_ty_def)
    with call_loop [OF C e(2) cont(1) bits, of fr f xs] v cont(2) e fl show ?thesis
      by (simp add: vector_stmts_def elem_rep_simps del: exec.simps serialize.simps(6)
          is_variable.simps(8))
  next
    case (bytes l)
    with fl show ?thesis by simp
  qed
qed

lemma list_exec:
  assumes C: "marshals st C" and e: "elem_info i = Some e" "info_rep st e t" and fl: "flat_elem t"
    and bits: "bits_ok t" and v: "member fr f = Some v"
    and ok: "if is_byte_ty t then \<exists>bs. v = VBytes bs
      else \<exists>xs. v = VSeq xs \<and> (\<forall>x \<in> set xs. val_ok t x)"
  shows "execs C (list_stmts i (GMember f)) fr =
    Some (append_dst (case v of VBytes bs \<Rightarrow> bs
      | VSeq xs \<Rightarrow> ser_parts (map (\<lambda>x. (is_variable t, serialize t x)) xs) | _ \<Rightarrow> []) fr)"
  using e(2) fl
proof (cases rule: flat_elem_cases)
  case byte
  with ok obtain bs where "v = VBytes bs" by auto
  with byte v e show ?thesis by (simp add: list_stmts_def elem_rep_simps eval_member)
next
  case prim
  then have fixed: "\<not> is_variable t" by auto
  from prim ok obtain xs where xs: "v = VSeq xs" "\<forall>x \<in> set xs. val_ok t x" by auto
  with prim_loop(1) [OF e(2) fl prim(1,2), of fr f xs C] v prim(3) e fixed show ?thesis
    by (simp add: list_stmts_def elem_rep_simps prim(1) del: exec.simps serialize.simps)
next
  case (cont nm fs)
  with ok obtain xs where xs: "v = VSeq xs" "\<forall>x \<in> set xs. val_ok t x"
    by (auto simp: is_byte_ty_def)
  with call_loop [OF C e(2) cont(1) bits, of fr f xs] v cont(2) e info_rep_dynamic [OF e(2)] show ?thesis
    by (cases "is_variable t") (simp_all add: list_stmts_def elem_rep_simps del: exec.simps)
next
  case (bytes l)
  with ok obtain xs where xs: "v = VSeq xs" "\<forall>x \<in> set xs. val_ok t x"
    by (auto simp: is_byte_ty_def)
  have "execs C (offset_list (GMember f) [AppendSlice (GLocal ''item'')]) fr =
      Some (append_dst (ser_parts (map (\<lambda>x. (True, serialize t x)) xs)) fr)"
  proof (rule offset_list_exec)
    show "member fr f = Some (VSeq xs)" using v xs by simp
    fix w fr' assume w: "w \<in> set xs" "eval fr' (GLocal ''item'') = Some w"
    with xs bytes obtain bs where "w = VBytes bs" by (auto simp: is_byte_ty_def)
    with w bytes show "execs C [AppendSlice (GLocal ''item'')] fr' =
        Some (append_dst (serialize t w) fr')" by simp
  qed
  with bytes(2) e xs show ?thesis
    by (simp add: list_stmts_def elem_rep_simps bytes(1) del: exec.simps execs.simps)
qed

lemma field_exec:
  assumes C: "marshals st C" and rep: "info_rep st i t" and flat: "flat_ty t"
    and bits: "bits_ok t" and ok: "val_ok t v" and v: "member fr f = Some v"
  shows "execs C (field_stmts ix i (GMember f)) fr = Some (append_dst (serialize t v) fr)"
proof (cases t)
  case (TVector t' n)
  with vector_exec [OF C, of i t' n v fr f] assms show ?thesis by (simp add: field_stmts_def)
next
  case (TList t' l)
  with rep obtain e where "elem_info i = Some e" "info_rep st e t'" by auto
  from list_exec [OF C this, of fr f v] TList assms show ?thesis
    by (auto simp: field_stmts_def is_byte_ty_def split: if_splits)
next
  case (TProgressiveList t')
  with rep obtain e where "elem_info i = Some e" "info_rep st e t'" by auto
  from list_exec [OF C this, of fr f v] TProgressiveList assms show ?thesis
    by (auto simp: field_stmts_def is_byte_ty_def split: if_splits)
next
  case (TContainer nm fs)
  with marshal_call [OF C, of i nm fs v fr "GMember f"] assms show ?thesis
    by (simp add: field_stmts_def eval_member del: exec.simps serialize.simps)
qed (use assms in \<open>auto simp: field_stmts_def eval_member leave_frames split: if_splits\<close>)

section \<open>Containers\<close>

text \<open>
  The fields of a container in step: the generator's fields with their infos, the SSZ fields and
  the values of the receiver's members.
\<close>

fun fields_match ::
  "dialect \<Rightarrow> struct_types \<Rightarrow> (string \<Rightarrow> val option) \<Rightarrow> (FieldPtr \<times> SszFieldInfo) list \<Rightarrow>
   (string \<times> ssz_ty) list \<Rightarrow> val list \<Rightarrow> bool" where
  "fields_match D st mem [] [] [] = True"
| "fields_match D st mem ((p, i) # ps) ((n, t) # fs) (v # vs) =
     (info_rep st i t \<and> flat_ty t \<and> bits_ok t \<and> val_ok t v \<and>
      mem (dl_member D p) = Some v \<and> fields_match D st mem ps fs vs)"
| "fields_match D st mem ps fs vs = False"

definition off_name :: "nat \<Rightarrow> string" where
  "off_name k = ''offset'' @ NumToString k"

lemma off_name_simps [simp]:
  "off_name j = off_name k \<longleftrightarrow> j = k" "off_name k \<noteq> ''dstlen''" "''dstlen'' \<noteq> off_name k"
  by (simp_all add: off_name_def)

text \<open>The variables that the static section declares, and what the dynamic section needs of them.\<close>

fun offset_env :: "nat \<Rightarrow> nat \<Rightarrow> (bool \<times> byte list) list \<Rightarrow> (string \<rightharpoonup> nat) \<Rightarrow> (string \<rightharpoonup> nat)" where
  "offset_env idx pos [] env = env"
| "offset_env idx pos ((v, b) # ps) env =
     (if v then offset_env (idx + 1) (pos + 4) ps (env(off_name idx \<mapsto> pos))
      else offset_env idx (pos + length b) ps env)"

fun offsets_at :: "(string \<rightharpoonup> nat) \<Rightarrow> nat \<Rightarrow> nat \<Rightarrow> (bool \<times> byte list) list \<Rightarrow> bool" where
  "offsets_at env idx pos [] = True"
| "offsets_at env idx pos ((v, b) # ps) =
     (if v then env (off_name idx) = Some pos \<and> offsets_at env (idx + 1) (pos + 4) ps
      else offsets_at env idx (pos + length b) ps)"

lemma offset_env_other:
  "(\<And>k. idx \<le> k \<Longrightarrow> x \<noteq> off_name k) \<Longrightarrow> offset_env idx pos ps env x = env x"
  by (induction idx pos ps env rule: offset_env.induct) auto

lemma offset_env_at: "offsets_at (offset_env idx pos ps env) idx pos ps"
proof (induction idx pos ps env rule: offset_env.induct)
  case (2 idx pos v b ps env)
  have "offset_env (idx + 1) (pos + 4) ps env' (off_name idx) = env' (off_name idx)" for env'
    by (rule offset_env_other) simp
  with 2 show ?case by (simp add: fun_upd_def)
qed simp

definition with_ints :: "(string \<rightharpoonup> nat) \<Rightarrow> gframe \<Rightarrow> gframe" where
  "with_ints env fr = fr\<lparr>gf_ints := env\<rparr>"

lemma with_ints_frames [frame_simps]:
  "gf_ints (with_ints env fr) = env" "gf_dst (with_ints env fr) = gf_dst fr"
  "member (with_ints env fr) = member fr"
  "with_ints env (with_ints env' fr) = with_ints env fr"
  "with_ints (gf_ints fr) fr = fr"
  "with_ints env (append_dst bs fr) = append_dst bs (with_ints env fr)"
  "bind_int x k fr = with_ints ((gf_ints fr)(x \<mapsto> k)) fr"
  by (simp_all add: with_ints_def member_def [abs_def] append_dst_def bind_int_def)

lemma fixed_fields_exec:
  "fields_match D st mem ps fs vs \<Longrightarrow> marshals st C \<Longrightarrow> mem = member fr \<Longrightarrow>
    execs C (concat (map (dl_field_stmts D) ps)) fr =
    Some (append_dst (concat (map snd (serialize_fields fs vs))) fr)"
proof (induction D st mem ps fs vs arbitrary: fr rule: fields_match.induct)
  case (2 D st mem p i ps n t fs v vs)
  have "execs C (dl_field_stmts D (p, i)) fr = Some (append_dst (serialize t v) fr)"
    by (rule field_exec) (use 2 in auto)
  with 2 show ?case by (simp add: frame_simps)
qed (auto simp: frame_simps)

text \<open>The static section: the fixed fields and zeros for the offsets, whose places it records.\<close>

lemma static_exec:
  "fields_match D st mem ps fs vs \<Longrightarrow> marshals st C \<Longrightarrow> mem = member fr \<Longrightarrow>
    execs C (static_stmts D idx ps) fr =
    Some (append_dst (holes (serialize_fields fs vs))
      (with_ints (offset_env idx (length (gf_dst fr)) (serialize_fields fs vs) (gf_ints fr)) fr))"
proof (induction D st mem ps fs vs arbitrary: fr idx rule: fields_match.induct)
  case (2 D st mem p i ps n t fs v vs)
  let ?fr1 = "with_ints ((gf_ints fr)(off_name idx \<mapsto> length (gf_dst fr))) fr"
  from 2 have dyn: "is_dynamic i = is_variable t" by (auto simp: info_rep_dynamic)
  show ?case
  proof (cases "is_variable t")
    case True
    have "execs C (static_stmts D (idx + 1) ps) (append_dst [0, 0, 0, 0] ?fr1) =
      Some (append_dst (holes (serialize_fields fs vs)) (with_ints (offset_env (idx + 1)
        (length (gf_dst (append_dst [0, 0, 0, 0] ?fr1))) (serialize_fields fs vs)
        (gf_ints (append_dst [0, 0, 0, 0] ?fr1))) (append_dst [0, 0, 0, 0] ?fr1)))"
      by (rule "2.IH") (use 2 in \<open>auto simp: frame_simps\<close>)
    with True dyn show ?thesis by (simp add: frame_simps off_name_def eval_nat_numeral)
  next
    case False
    have "execs C (dl_field_stmts D (p, i)) fr = Some (append_dst (serialize t v) fr)"
      by (rule field_exec) (use 2 in auto)
    moreover have "execs C (static_stmts D idx ps) (append_dst (serialize t v) fr) =
      Some (append_dst (holes (serialize_fields fs vs)) (with_ints (offset_env idx
        (length (gf_dst (append_dst (serialize t v) fr))) (serialize_fields fs vs)
        (gf_ints (append_dst (serialize t v) fr))) (append_dst (serialize t v) fr)))"
      by (rule "2.IH") (use 2 in \<open>auto simp: frame_simps\<close>)
    ultimately show ?thesis using False dyn by (simp add: frame_simps)
  qed
qed (auto simp: frame_simps)

text \<open>
  The dynamic section: with the static bytes before a field in \<open>pre\<close>, its offset and the ones
  after it still zero, and the payloads so far in \<open>post\<close>.
\<close>

lemma dynamic_exec:
  "fields_match D st mem ps fs vs \<Longrightarrow> marshals st C \<Longrightarrow> mem = member fr \<Longrightarrow>
    gf_ints fr ''dstlen'' = Some base \<Longrightarrow>
    offsets_at (gf_ints fr) idx (length pre) (serialize_fields fs vs) \<Longrightarrow>
    gf_dst fr = pre @ holes (serialize_fields fs vs) @ post \<Longrightarrow> base \<le> length pre \<Longrightarrow>
    execs C (dynamic_stmts D idx ps) fr =
    Some (at_dst (pre @ heads (length (gf_dst fr) - base) (serialize_fields fs vs) @ post @
      tails (serialize_fields fs vs)) fr)"
proof (induction D st mem ps fs vs arbitrary: fr idx pre post rule: fields_match.induct)
  case (2 D st mem p i ps n t fs v vs)
  let ?parts = "serialize_fields fs vs" and ?b = "serialize t v" and ?off = "length (gf_dst fr) - base"
  from 2 have dyn: "is_dynamic i = is_variable t" by (auto simp: info_rep_dynamic)
  show ?case
  proof (cases "is_variable t")
    case True
    let ?fr1 = "at_dst (pre @ le_bytes 4 ?off @ holes ?parts @ post) fr"
    let ?fr2 = "at_dst ((pre @ le_bytes 4 ?off) @ holes ?parts @ (post @ ?b)) fr"
    have "exec C (PutLen (PAt (off_name idx)) ''dstlen'') fr = Some ?fr1"
      by (rule put_len_exec) (use 2 True in \<open>auto simp: frame_simps\<close>)
    moreover have "execs C (dl_field_stmts D (p, i)) ?fr1 = Some (append_dst ?b ?fr1)"
      by (rule field_exec) (use 2 in \<open>auto simp: frame_simps\<close>)
    then have "execs C (dl_field_stmts D (p, i)) ?fr1 = Some ?fr2"
      by (simp add: frame_simps append_at)
    moreover have "execs C (dynamic_stmts D (idx + 1) ps) ?fr2 =
        Some (at_dst ((pre @ le_bytes 4 ?off) @ heads (length (gf_dst ?fr2) - base) ?parts @
          (post @ ?b) @ tails ?parts) ?fr2)"
      by (rule "2.IH") (use 2 True in \<open>auto simp: frame_simps\<close>)
    moreover have "length (gf_dst ?fr2) - base = ?off + length ?b"
      using 2 True by (simp add: frame_simps)
    ultimately show ?thesis
      using True dyn by (simp add: frame_simps off_name_def del: exec.simps(11))
  next
    case False
    have "execs C (dynamic_stmts D idx ps) fr =
        Some (at_dst ((pre @ ?b) @ heads (length (gf_dst fr) - base) ?parts @ post @ tails ?parts) fr)"
      by (rule "2.IH") (use 2 False in auto)
    with False dyn show ?thesis by simp
  qed
qed (auto simp: at_dst_def)

end
