(* ===== verification/Lean_Analysis.thy ===== *)
theory Lean_Analysis
  imports Go_Progress
begin

text \<open>
  The schema analysis of the Lean back end, \<open>src/idl_gen_ssz_lean.cpp\<close>, with its own messages,
  in the form of \<open>Go_Analysis\<close>.
  The Lean back end records that a container is progressive and does not compute its indices.
\<close>

section \<open>Schema analysis of the Lean back end\<close>

definition lean_resolve_struct :: "analyzer \<Rightarrow> Type \<Rightarrow> SszFieldInfo \<Rightarrow> SszFieldInfo res" where
  "lean_resolve_struct analyze type info =
     bind_res (case type_struct type of None \<Rightarrow> Inl OutOfBounds | Some s \<Rightarrow> analyze s)
       (\<lambda>nested. Inr (assign
          [set_ssz_type SszContainer,
           set_struct (type_struct type),
           set_fixed_size (if is_fixed nested then static_size nested else 0),
           set_dynamic (\<not> is_fixed nested)] info))"

definition lean_ResolveElemType ::
  "analyzer \<Rightarrow> FieldDef \<Rightarrow> Type \<Rightarrow> SszFieldInfo \<Rightarrow> SszFieldInfo res" where
  "lean_ResolveElemType analyze field elem_type info =
     (case base_type elem_type of
        BASE_TYPE_BOOL \<Rightarrow> Inr (assign [set_ssz_type SszBool, set_fixed_size 1] info)
      | BASE_TYPE_UCHAR \<Rightarrow> Inr (assign [set_ssz_type SszUint8, set_fixed_size 1] info)
      | BASE_TYPE_CHAR \<Rightarrow> Inr (assign [set_ssz_type SszUint8, set_fixed_size 1] info)
      | BASE_TYPE_USHORT \<Rightarrow> Inr (assign [set_ssz_type SszUint16, set_fixed_size 2] info)
      | BASE_TYPE_SHORT \<Rightarrow> Inr (assign [set_ssz_type SszUint16, set_fixed_size 2] info)
      | BASE_TYPE_UINT \<Rightarrow> Inr (assign [set_ssz_type SszUint32, set_fixed_size 4] info)
      | BASE_TYPE_INT \<Rightarrow> Inr (assign [set_ssz_type SszUint32, set_fixed_size 4] info)
      | BASE_TYPE_ULONG \<Rightarrow> Inr (assign [set_ssz_type SszUint64, set_fixed_size 8] info)
      | BASE_TYPE_LONG \<Rightarrow> Inr (assign [set_ssz_type SszUint64, set_fixed_size 8] info)
      | BASE_TYPE_STRING \<Rightarrow>
          Inr (assign
            [set_ssz_type SszList, set_fixed_size 0, set_dynamic True,
             set_elem (assign [set_ssz_type SszUint8, set_fixed_size 1] new_info)] info)
      | BASE_TYPE_STRUCT \<Rightarrow> lean_resolve_struct analyze elem_type info
      | _ \<Rightarrow> Inl (field_msg field ''unsupported element type for SSZ vector/list''))"

definition lean_ResolveVectorType ::
  "analyzer \<Rightarrow> FieldDef \<Rightarrow> Type \<Rightarrow> Value SymbolTable \<Rightarrow> SszFieldInfo \<Rightarrow> SszFieldInfo res" where
  "lean_ResolveVectorType analyze field type attrs info =
     (let elem_type = VectorType type in
      if Lookup attrs ''ssz_progressive_bitlist'' \<noteq> None then
        Inr (assign [set_ssz_type SszBitlist, set_limit 0, set_fixed_size 0, set_dynamic True] info)
      else if Lookup attrs ''ssz_bitlist'' \<noteq> None then
        (case Lookup attrs ''ssz_max'' of
           None \<Rightarrow> Inl (field_msg field ''ssz_bitlist requires ssz_max attribute'')
         | Some max_attr \<Rightarrow>
             Inr (assign
               [set_ssz_type SszBitlist, set_limit (attr_uint max_attr),
                set_fixed_size 0, set_dynamic True] info))
      else if Lookup attrs ''ssz_progressive_list'' \<noteq> None then
        bind_res (lean_ResolveElemType analyze field elem_type new_info)
          (\<lambda>elem. Inr (assign
             [set_ssz_type SszProgressiveList, set_fixed_size 0, set_dynamic True,
              set_elem elem] info))
      else
        (case Lookup attrs ''ssz_max'' of
           None \<Rightarrow> Inl (field_msg field ''vector type requires ssz_max attribute'')
         | Some max_attr \<Rightarrow>
             (let max_str = v_constant max_attr;
                  (outer_max, inner_max) =
                    (case split_comma max_str of
                       Some (outer_str, inner_str) \<Rightarrow> (StringToUInt (c_str outer_str), StringToUInt (c_str inner_str))
                     | None \<Rightarrow> (StringToUInt (c_str max_str), 0))
              in bind_res (lean_ResolveElemType analyze field elem_type new_info)
                   (\<lambda>elem. Inr (assign
                      [set_ssz_type SszList, set_limit outer_max, set_fixed_size 0, set_dynamic True,
                       set_elem (if ssz_type elem = SszList \<and> inner_max > 0
                                 then set_limit inner_max elem else elem)] info)))))"

definition lean_ResolveArrayType ::
  "analyzer \<Rightarrow> FieldDef \<Rightarrow> Type \<Rightarrow> Value SymbolTable \<Rightarrow> SszFieldInfo \<Rightarrow> SszFieldInfo res" where
  "lean_ResolveArrayType analyze field type attrs info =
     (let elem_type = VectorType type; array_len = fixed_length type in
      if Lookup attrs ''ssz_bitvector'' \<noteq> None then
        (let bits = (case Lookup attrs ''ssz_bitsize'' of
                       Some bitsize_attr \<Rightarrow> ucast (attr_uint bitsize_attr)
                     | None \<Rightarrow> ucast array_len * 8)
         in Inr (assign
              [set_ssz_type SszBitvector, set_bitsize bits,
               set_fixed_size ((bits + 7) div 8), set_dynamic False] info))
      else
        bind_res (lean_ResolveElemType analyze field elem_type new_info)
          (\<lambda>elem. Inr (assign
             [set_ssz_type SszVector, set_elem elem,
              set_fixed_size (ucast array_len * fixed_size elem), set_dynamic False,
              set_limit (ucast array_len)] info)))"

definition lean_ResolveSszFieldInfo :: "analyzer \<Rightarrow> FieldDef \<Rightarrow> SszFieldInfo \<Rightarrow> SszFieldInfo res" where
  "lean_ResolveSszFieldInfo analyze field info =
     (let type = field_type field; attrs = fd_attributes field in
      case base_type type of
        BASE_TYPE_BOOL \<Rightarrow> Inr (assign [set_ssz_type SszBool, set_fixed_size 1, set_dynamic False] info)
      | BASE_TYPE_UCHAR \<Rightarrow> Inr (assign [set_ssz_type SszUint8, set_fixed_size 1, set_dynamic False] info)
      | BASE_TYPE_CHAR \<Rightarrow> Inr (assign [set_ssz_type SszUint8, set_fixed_size 1, set_dynamic False] info)
      | BASE_TYPE_USHORT \<Rightarrow> Inr (assign [set_ssz_type SszUint16, set_fixed_size 2, set_dynamic False] info)
      | BASE_TYPE_SHORT \<Rightarrow> Inr (assign [set_ssz_type SszUint16, set_fixed_size 2, set_dynamic False] info)
      | BASE_TYPE_UINT \<Rightarrow> Inr (assign [set_ssz_type SszUint32, set_fixed_size 4, set_dynamic False] info)
      | BASE_TYPE_INT \<Rightarrow> Inr (assign [set_ssz_type SszUint32, set_fixed_size 4, set_dynamic False] info)
      | BASE_TYPE_ULONG \<Rightarrow> Inr (assign [set_ssz_type SszUint64, set_fixed_size 8, set_dynamic False] info)
      | BASE_TYPE_LONG \<Rightarrow> Inr (assign [set_ssz_type SszUint64, set_fixed_size 8, set_dynamic False] info)
      | BASE_TYPE_STRING \<Rightarrow>
          (case Lookup attrs ''ssz_max'' of
             None \<Rightarrow> Inl (field_msg field ''string type requires ssz_max attribute'')
           | Some max_attr \<Rightarrow>
               Inr (assign
                 [set_ssz_type SszList, set_limit (attr_uint max_attr), set_fixed_size 0,
                  set_dynamic True,
                  set_elem (assign [set_ssz_type SszUint8, set_fixed_size 1] new_info)] info))
      | BASE_TYPE_VECTOR \<Rightarrow> lean_ResolveVectorType analyze field type attrs info
      | BASE_TYPE_ARRAY \<Rightarrow> lean_ResolveArrayType analyze field type attrs info
      | BASE_TYPE_STRUCT \<Rightarrow> lean_resolve_struct analyze type info
      | BASE_TYPE_UNION \<Rightarrow> Inr (assign [set_ssz_type SszUnion, set_fixed_size 0, set_dynamic True] info)
      | BASE_TYPE_FLOAT \<Rightarrow> Inl (field_msg field ''float/double types are not supported in SSZ'')
      | BASE_TYPE_DOUBLE \<Rightarrow> Inl (field_msg field ''float/double types are not supported in SSZ'')
      | _ \<Rightarrow> Inl (field_msg field ''unsupported base type for SSZ''))"

definition lean_add_field :: "Parser \<Rightarrow> analyzer \<Rightarrow> FieldPtr \<Rightarrow> SszContainerInfo \<Rightarrow> SszContainerInfo res" where
  "lean_add_field P analyze p c =
     (let field = field_at P p in
      if fd_deprecated field then Inr c
      else bind_res (lean_ResolveSszFieldInfo analyze field new_info)
        (\<lambda>info.
           let c1 = c\<lparr>all_fields := all_fields c @ [p]\<rparr>;
               c2 = (if is_dynamic info
                     then c1\<lparr>is_fixed := False, dynamic_fields := dynamic_fields c1 @ [p],
                             static_size := static_size c1 + 4\<rparr>
                     else c1\<lparr>static_size := static_size c1 + fixed_size info\<rparr>)
           in Inr (c2\<lparr>field_infos := emplace p info (field_infos c2)\<rparr>)))"

definition lean_analyze_body :: "Parser \<Rightarrow> analyzer \<Rightarrow> StructPtr \<Rightarrow> SszContainerInfo res" where
  "lean_analyze_body P analyze s =
     (let struct_def = struct_at P s in
      bind_res (fold_res (lean_add_field P analyze) (sd_fields struct_def)
          (new_container\<lparr>static_size := 0, is_fixed := True\<rparr>))
        (\<lambda>c. if Lookup (sd_attributes struct_def) ''ssz_progressive'' \<noteq> None
             then Inr (c\<lparr>is_progressive := True\<rparr>) else Inr c))"

fun lean_AnalyzeContainer :: "nat \<Rightarrow> Parser \<Rightarrow> StructPtr \<Rightarrow> SszContainerInfo res" where
  "lean_AnalyzeContainer 0 P s = Inl StackOverflow"
| "lean_AnalyzeContainer (Suc depth) P s = lean_analyze_body P (lean_AnalyzeContainer depth P) s"

declare lean_AnalyzeContainer.simps [simp del]

section \<open>The layout contract\<close>

lemma lean_resolve_struct_eq: "lean_resolve_struct = go_resolve_struct"
  by (intro ext) (simp add: lean_resolve_struct_def go_resolve_struct_def)

lemma lean_elem_eq: "lean_ResolveElemType = go_ResolveElemType"
  unfolding lean_ResolveElemType_def [abs_def] go_ResolveElemType_def [abs_def]
    lean_resolve_struct_eq ..

lemma lean_vector_eq: "lean_ResolveVectorType = go_ResolveVectorType"
  unfolding lean_ResolveVectorType_def [abs_def] go_ResolveVectorType_def [abs_def] lean_elem_eq ..

lemma lean_array_eq: "lean_ResolveArrayType = go_ResolveArrayType"
  unfolding lean_ResolveArrayType_def [abs_def] go_ResolveArrayType_def [abs_def] lean_elem_eq ..

lemma lean_field_eq: "lean_ResolveSszFieldInfo = go_ResolveSszFieldInfo"
  unfolding lean_ResolveSszFieldInfo_def [abs_def] go_ResolveSszFieldInfo_def [abs_def]
    lean_vector_eq lean_array_eq lean_resolve_struct_eq ..

lemma lean_add_field_eq: "lean_add_field = go_add_field"
  unfolding lean_add_field_def [abs_def] go_add_field_def [abs_def] lean_field_eq ..

lemma lean_body_layout:
  "lean_analyze_body P analyze s = Inr c \<Longrightarrow>
   \<exists>c1. fold_res (go_add_field P analyze) (sd_fields (struct_at P s))
      (new_container\<lparr>static_size := 0, is_fixed := True\<rparr>) = Inr c1 \<and> same_layout c c1"
  by (auto simp: lean_analyze_body_def Let_def bind_res_Inr_iff lean_add_field_eq same_layout_def
      split: if_splits)

lemma lean_sound:
  assumes wf: "wf_schema P" and s: "s < length (struct_store P)"
    and ok: "lean_AnalyzeContainer (Suc n) P s = Inr c"
  shows "\<exists>fs. fields_ty P (struct_ty n P) (sd_fields (struct_at P s)) = Some fs \<and>
    all_fields c = filter (\<lambda>p. \<not> fd_deprecated (field_at P p)) (sd_fields (struct_at P s)) \<and>
    (fields_bits_ok fs \<longrightarrow> container_rep P (struct_ty n P) c fs)"
  using s ok
proof (induction n arbitrary: s c)
  case 0
  have "nested_rep P (struct_ty 0 P) (lean_AnalyzeContainer 0 P)"
    by (simp add: nested_rep_def lean_AnalyzeContainer.simps)
  from go_layout_rep [OF this struct_ty_fixed_closed [OF wf] wf 0(1)] 0(2) lean_body_layout
  show ?case by (simp only: lean_AnalyzeContainer.simps)
next
  case (Suc n)
  have "nested_rep P (struct_ty (Suc n) P) (lean_AnalyzeContainer (Suc n) P)"
    unfolding nested_rep_def using Suc.IH by (fastforce simp: container_rep_def)
  from go_layout_rep [OF this struct_ty_fixed_closed [OF wf] wf Suc.prems(1)] Suc.prems(2)
    lean_body_layout
  show ?case by (simp only: lean_AnalyzeContainer.simps)
qed

interpretation lean: layout_analysis lean_AnalyzeContainer
  by unfold_locales (simp add: lean_AnalyzeContainer.simps, rule lean_sound)

section \<open>Agreement with the Go back end\<close>

text \<open>
  Where the Go back end accepts a container, the Lean back end accepts it with the same layout:
  the resolvers use of a nested container its size and whether it is fixed, nothing else.
\<close>

definition covers :: "analyzer \<Rightarrow> analyzer \<Rightarrow> bool" where
  "covers a a' \<longleftrightarrow> (\<forall>s c. a' s = Inr c \<longrightarrow> (\<exists>d. a s = Inr d \<and> same_layout d c))"

text \<open>Every value of the first outcome is a value of the second.\<close>

definition le_ok :: "'a res \<Rightarrow> 'a res \<Rightarrow> bool" where
  "le_ok r r' \<longleftrightarrow> (\<forall>x. r = Inr x \<longrightarrow> r' = Inr x)"

lemma le_ok_refl [simp]: "le_ok r r"
  by (simp add: le_ok_def)

lemma le_ok_bind:
  "le_ok m m' \<Longrightarrow> (\<And>x. le_ok (f x) (f' x)) \<Longrightarrow> le_ok (bind_res m f) (bind_res m' f')"
  by (auto simp: le_ok_def bind_res_Inr_iff)

lemma le_ok_fold:
  "(\<And>x s. le_ok (f x s) (f' x s)) \<Longrightarrow> le_ok (fold_res f xs s) (fold_res f' xs s)"
  by (induction xs arbitrary: s) (auto intro: le_ok_bind)

lemma covers_struct:
  assumes "covers a a'"
  shows "le_ok (go_resolve_struct a' t i) (go_resolve_struct a t i)"
  unfolding le_ok_def
proof (intro allI impI)
  fix r
  assume r: "go_resolve_struct a' t i = Inr r"
  then obtain s c where s: "type_struct t = Some s" "a' s = Inr c"
    by (auto simp: go_resolve_struct_def bind_res_Inr_iff split: option.splits)
  with assms obtain d where "a s = Inr d" "same_layout d c" by (auto simp: covers_def)
  with s r show "go_resolve_struct a t i = Inr r"
    by (auto simp: go_resolve_struct_def same_layout_def)
qed

lemma covers_elem:
  "covers a a' \<Longrightarrow> le_ok (go_ResolveElemType a' f t i) (go_ResolveElemType a f t i)"
  by (cases "base_type t") (simp_all add: go_ResolveElemType_def covers_struct)

lemma covers_vector:
  assumes "covers a a'"
  shows "le_ok (go_ResolveVectorType a' f t attrs i) (go_ResolveVectorType a f t attrs i)"
  unfolding go_ResolveVectorType_def Let_def
  using covers_elem [OF assms] by (auto intro!: le_ok_bind split: option.splits)

lemma covers_array:
  assumes "covers a a'"
  shows "le_ok (go_ResolveArrayType a' f t attrs i) (go_ResolveArrayType a f t attrs i)"
  unfolding go_ResolveArrayType_def Let_def
  using covers_elem [OF assms] by (auto intro!: le_ok_bind split: option.splits)

lemma covers_field:
  "covers a a' \<Longrightarrow> le_ok (go_ResolveSszFieldInfo a' f i) (go_ResolveSszFieldInfo a f i)"
  by (cases "base_type (field_type f)")
     (simp_all add: go_ResolveSszFieldInfo_def Let_def covers_vector covers_array covers_struct)

lemma covers_fold:
  assumes "covers a a'" and "fold_res (go_add_field P a') ps c = Inr d"
  shows "fold_res (go_add_field P a) ps c = Inr d"
proof -
  have "le_ok (go_add_field P a' p c) (go_add_field P a p c)" for p c
    by (simp add: go_add_field_def Let_def covers_field [OF assms(1)] le_ok_bind)
  then have "le_ok (fold_res (go_add_field P a') ps c) (fold_res (go_add_field P a) ps c)"
    by (rule le_ok_fold)
  with assms(2) show ?thesis by (simp add: le_ok_def)
qed

lemma lean_covers: "covers (lean_AnalyzeContainer n P) (go_AnalyzeContainer n P)"
proof (induction n)
  case 0
  then show ?case by (simp add: covers_def go_AnalyzeContainer.simps)
next
  case (Suc n)
  show ?case unfolding covers_def
  proof (intro allI impI)
    fix s c
    assume "go_AnalyzeContainer (Suc n) P s = Inr c"
    then obtain c1 where fold: "fold_res (go_add_field P (go_AnalyzeContainer n P))
        (sd_fields (struct_at P s)) (new_container\<lparr>static_size := 0, is_fixed := True\<rparr>) = Inr c1"
      and c: "same_layout c c1"
      by (auto simp: go_AnalyzeContainer.simps go_analyze_body_def Let_def bind_res_Inr_iff
          go_progressive_same_layout split: if_splits)
    from covers_fold [OF Suc fold] c
    show "\<exists>d. lean_AnalyzeContainer (Suc n) P s = Inr d \<and> same_layout d c"
      by (auto simp: lean_AnalyzeContainer.simps lean_analyze_body_def lean_add_field_eq
          Let_def same_layout_def)
  qed
qed

end
