(* ===== verification/Go_Serialize.thy ===== *)
theory Go_Serialize
  imports Go_Marshal Go_Program Lean_Analysis
begin

text \<open>
  The program that the Go back end emits for a whole schema, and its correctness: the
  \<open>MarshalSSZTo\<close> of every struct and table appends the SSZ serialization of its receiver.
\<close>

section \<open>The emitted program\<close>

definition emit_decl :: "dialect \<Rightarrow> SszContainerInfo \<Rightarrow> gdecl" where
  "emit_decl D c =
     \<lparr>gd_members = map (dl_member D) (all_fields c),
      gd_marshal = marshal_body D c,
      gd_size = (if is_fixed c then [SizeInit (unat (static_size c))] else size_body D c)\<rparr>"

definition struct_named :: "Parser \<Rightarrow> string \<Rightarrow> StructPtr option" where
  "struct_named P nm =
     List.find (\<lambda>s. sd_name (struct_at P s) = nm) [0..<length (struct_store P)]"

text \<open>The container that an analysis finds under a name.\<close>

definition container_named ::
  "(nat \<Rightarrow> Parser \<Rightarrow> StructPtr \<Rightarrow> SszContainerInfo res) \<Rightarrow> nat \<Rightarrow> Parser \<Rightarrow> string \<rightharpoonup> SszContainerInfo" where
  "container_named an depth P nm =
     (case struct_named P nm of
        None \<Rightarrow> None
      | Some s \<Rightarrow> (case an depth P s of Inl e \<Rightarrow> None | Inr c \<Rightarrow> Some c))"

text \<open>The program of a back end with the dialect \<open>D\<close> and the analysis \<open>an\<close>.\<close>

definition emit_program ::
  "(nat \<Rightarrow> Parser \<Rightarrow> StructPtr \<Rightarrow> SszContainerInfo res) \<Rightarrow> dialect \<Rightarrow> nat \<Rightarrow> Parser \<Rightarrow> gprogram" where
  "emit_program an D depth P nm = map_option (emit_decl D) (container_named an depth P nm)"

definition go_decl :: "SszGenerator \<Rightarrow> SszContainerInfo \<Rightarrow> gdecl" where
  "go_decl G = emit_decl (go_dialect G)"

definition go_program :: "nat \<Rightarrow> SszGenerator \<Rightarrow> gprogram" where
  "go_program depth G = emit_program go_AnalyzeContainer (go_dialect G) depth (gen_parser G)"

text \<open>
  What the compiler of the target language checks: no two types of the package and no two members
  of a struct have the same name.
\<close>

definition names_ok :: "dialect \<Rightarrow> Parser \<Rightarrow> bool" where
  "names_ok D P \<longleftrightarrow>
     distinct (map sd_name (struct_store P)) \<and>
     list_all (\<lambda>s. distinct (map (dl_member D) (live_fields P s))) [0..<length (struct_store P)]"

definition go_names_ok :: "SszGenerator \<Rightarrow> bool" where
  "go_names_ok G \<longleftrightarrow> names_ok (go_dialect G) (gen_parser G)"

lemma go_names_ok_simps:
  "go_names_ok G \<longleftrightarrow>
     distinct (map sd_name (struct_store (gen_parser G))) \<and>
     list_all (\<lambda>s. distinct (map (\<lambda>p. go_Field G (field_at (gen_parser G) p)) (live_fields (gen_parser G) s)))
       [0..<length (struct_store (gen_parser G))]"
  by (simp add: go_names_ok_def names_ok_def go_dialect_def)

text \<open>A back end that agrees with the Go analysis finds the same containers.\<close>

context go_copy
begin

lemma container_named_eq: "container_named analyze = container_named go_AnalyzeContainer"
proof -
  have "(case analyze depth P s of Inl e \<Rightarrow> None | Inr c \<Rightarrow> Some c) =
      (case go_AnalyzeContainer depth P s of Inl e \<Rightarrow> None | Inr c \<Rightarrow> Some c)" for depth P s
  proof (cases "go_AnalyzeContainer depth P s")
    case (Inl e)
    then have "analyze depth P s \<noteq> Inr c" for c by (simp add: accepts_iff)
    with Inl show ?thesis by (cases "analyze depth P s") (simp, blast)
  next
    case (Inr c)
    then have "analyze depth P s = Inr c" by (simp add: accepts_iff)
    with Inr show ?thesis by simp
  qed
  then show ?thesis by (intro ext) (simp add: container_named_def split: option.split)
qed

lemma emit_program_eq: "emit_program analyze = emit_program go_AnalyzeContainer"
  by (simp add: emit_program_def container_named_eq fun_eq_iff)

end

lemma find_unique:
  assumes "x \<in> set xs" and "Q x" and "\<forall>y \<in> set xs. Q y \<longrightarrow> y = x"
  shows "List.find Q xs = Some x"
proof (cases "List.find Q xs")
  case None
  with assms(1,2) show ?thesis by (simp add: find_None_iff)
next
  case (Some y)
  with assms(3) show ?thesis by (auto simp: find_Some_iff)
qed

lemma struct_named_at:
  assumes "distinct (map sd_name (struct_store P))" and "s < length (struct_store P)"
  shows "struct_named P (sd_name (struct_at P s)) = Some s"
  unfolding struct_named_def
proof (rule find_unique)
  show "\<forall>y \<in> set [0..<length (struct_store P)].
      sd_name (struct_at P y) = sd_name (struct_at P s) \<longrightarrow> y = s"
    using assms nth_eq_iff_index_eq [OF assms(1), of _ s] by (simp add: struct_at_def)
qed (use assms in auto)

section \<open>Matching fields\<close>

text \<open>The types of the fields of a schema are the flat ones.\<close>

definition containers :: "struct_types \<Rightarrow> bool" where
  "containers st \<longleftrightarrow> (\<forall>s u. st s = Some u \<longrightarrow> (\<exists>nm fs. u = TContainer nm fs))"

lemma containers_struct_ty: "containers (struct_ty n P)"
  unfolding containers_def by (cases n) (auto split: if_splits)

lemma scalar_flat: "scalar_ty b = Some t \<Longrightarrow> flat_elem t \<and> flat_ty t"
  by (auto simp: scalar_ty_def split: if_splits)

lemma elem_flat: "containers st \<Longrightarrow> elem_ty st inner t = Some u \<Longrightarrow> flat_elem u"
  using scalar_flat
  by (fastforce simp: elem_ty_def struct_ref_def containers_def split: if_splits option.splits)

lemma field_flat:
  assumes "containers st" and "field_ty st f = Some t"
  shows "flat_ty t"
proof -
  have "vector_ty st attrs ty = Some t \<Longrightarrow> flat_ty t" for attrs ty
    using elem_flat [OF assms(1)]
    by (auto simp: vector_ty_def Let_def split: if_splits prod.splits
        dest!: bind_eq_Some_conv [THEN iffD1])
  moreover have "array_ty st attrs ty = Some t \<Longrightarrow> flat_ty t" for attrs ty
    using elem_flat [OF assms(1)] by (auto simp: array_ty_def split: if_splits option.splits)
  moreover have "struct_ref st ty = Some t \<Longrightarrow> flat_ty t" for ty
    using assms(1) by (fastforce simp: struct_ref_def containers_def split: option.splits)
  ultimately show ?thesis
    using assms(2) scalar_flat by (auto simp: field_ty_def Let_def split: if_splits)
qed

lemma fields_flat:
  "containers st \<Longrightarrow> fields_ty P st ps = Some fs \<Longrightarrow> f \<in> set fs \<Longrightarrow> flat_ty (snd f)"
proof (induction ps arbitrary: fs)
  case (Cons p ps)
  then show ?case
    using field_flat [of st "field_at P p"]
    by (cases "fd_deprecated (field_at P p)") (auto split: option.splits)
qed simp

lemma match_fields:
  assumes "list_all2 (field_rep P st c) ps fs" and "\<forall>f \<in> set fs. flat_ty (snd f)"
    and "fields_bits_ok fs" and "vals_ok fs vs"
    and "list_all2 (\<lambda>p v. mem (dl_member D p) = Some v) ps vs"
  shows "fields_match D st mem (infos_of c ps) fs vs"
  using assms
proof (induction ps arbitrary: fs vs)
  case Nil
  then show ?case by simp
next
  case (Cons p ps)
  then show ?case
    by (cases fs; cases vs) (fastforce simp: field_rep_def)+
qed

lemma members_at:
  assumes "distinct (map f ps)" and "length vs = length ps"
  shows "list_all2 (\<lambda>p v. map_of (zip (map f ps) vs) (f p) = Some v) ps vs"
proof (rule list_all2_all_nthI)
  show "length ps = length vs" using assms(2) by simp
  fix k assume "k < length ps"
  with assms show "map_of (zip (map f ps) vs) (f (ps ! k)) = Some (vs ! k)"
    using map_of_zip_nth [of "map f ps" vs k] by simp
qed

section \<open>The body of a container\<close>

lemma parts_variable: "p \<in> set (serialize_fields fs vs) \<Longrightarrow> fst p \<Longrightarrow> any_variable fs"
proof (induction fs arbitrary: vs)
  case (Cons f fs)
  then show ?case by (cases f; cases vs) auto
qed simp

lemma marshal_body_exec:
  assumes C: "marshals st C" and m: "fields_match D st (member fr) (infos_of c (all_fields c)) fs vs"
    and dyn: "dynamic_fields c = [] \<longleftrightarrow> \<not> any_variable fs" and dst: "gf_buf fr = buf"
  shows "map_option gf_dst (execs C (marshal_body D c) fr) = Some (buf @ ser_parts (serialize_fields fs vs))"
proof (cases "any_variable fs")
  case False
  let ?fr1 = "fr\<lparr>gf_dst := buf\<rparr>"
  have "execs C (concat (map (dl_field_stmts D) (infos_of c (all_fields c)))) ?fr1 =
      Some (append_dst (concat (map snd (serialize_fields fs vs))) ?fr1)"
    by (rule fixed_fields_exec [OF m C]) (simp add: member_def fun_eq_iff)
  moreover have "\<forall>p \<in> set (serialize_fields fs vs). \<not> fst p"
    using False parts_variable by blast
  ultimately show ?thesis
    using False dyn dst by (simp add: marshal_body_def ser_parts_fixed frame_simps)
next
  case True
  let ?ps = "infos_of c (all_fields c)" and ?parts = "serialize_fields fs vs"
  let ?fr1 = "with_ints ((gf_ints fr)(''dstlen'' \<mapsto> length buf)) (fr\<lparr>gf_dst := buf\<rparr>)"
  let ?fr2 = "append_dst (holes ?parts) (with_ints (offset_env 0 (length buf) ?parts (gf_ints ?fr1)) ?fr1)"
  have mem: "member fr = member ?fr1" "member fr = member ?fr2"
    by (simp_all add: member_def with_ints_def append_dst_def fun_eq_iff)
  have "execs C (static_stmts D 0 ?ps) ?fr1 = Some (append_dst (holes ?parts)
      (with_ints (offset_env 0 (length (gf_dst ?fr1)) ?parts (gf_ints ?fr1)) ?fr1))"
    by (rule static_exec [OF m C mem(1)])
  then have static: "execs C (static_stmts D 0 ?ps) ?fr1 = Some ?fr2"
    by (simp add: with_ints_def)
  have ints: "gf_ints ?fr2 ''dstlen'' = Some (length buf)"
    by (simp add: frame_simps) (subst offset_env_other, simp_all)
  have dst2: "gf_dst ?fr2 = buf @ holes ?parts @ []"
    by (simp add: append_dst_def with_ints_def)
  have "execs C (dynamic_stmts D 0 ?ps) ?fr2 =
      Some (at_dst (buf @ heads (length (gf_dst ?fr2) - length buf) ?parts @ [] @ tails ?parts) ?fr2)"
    by (rule dynamic_exec [OF m C mem(2) ints _ dst2]) (simp_all add: frame_simps offset_env_at)
  with static show ?thesis
    using True dyn dst dst2
    by (simp add: marshal_body_def ser_parts_def frame_simps with_ints_def bind_int_def)
qed

section \<open>The program\<close>

lemma filter_variable_empty:
  "length ps = length fs \<Longrightarrow>
   filter (\<lambda>(p, f). is_variable (snd f)) (zip ps fs) = [] \<longleftrightarrow> \<not> any_variable fs"
  by (induction ps fs rule: list_induct2) auto

lemma dynamic_fields_empty:
  "container_rep P st c fs \<Longrightarrow> dynamic_fields c = [] \<longleftrightarrow> \<not> any_variable fs"
  using filter_variable_empty [of "all_fields c" fs]
  by (auto simp: container_rep_def dest: list_all2_lengthD)

text \<open>The analysis of a struct whose type is defined, under the name of the type.\<close>

lemma go_struct_decl:
  assumes wf: "wf_schema P" and small: "small_ids P" and names: "distinct (map sd_name (struct_store P))"
    and n: "n \<le> depth" and s: "s < length (struct_store P)"
    and ty: "struct_ty n P s = Some (TContainer nm fs)" and bits: "fields_bits_ok fs"
  obtains m c where "n = Suc m" "container_named go_AnalyzeContainer depth P nm = Some c"
    "struct_named P nm = Some s" "go_AnalyzeContainer depth P s = Inr c"
    "container_rep P (struct_ty m P) c fs" "all_fields c = live_fields P s"
    "fields_ty P (struct_ty m P) (sd_fields (struct_at P s)) = Some fs"
proof -
  obtain c where c: "go_AnalyzeContainer n P s = Inr c"
    using go_complete [OF wf small s ty] by (auto simp: is_ok_iff)
  with go_depth_mono [OF n, of P s] have cd: "go_AnalyzeContainer depth P s = Inr c"
    by (simp add: le_res_def)
  obtain m where m: "n = Suc m" using c go.depth_0 by (cases n) auto
  from ty m s have nm: "nm = sd_name (struct_at P s)"
    and fs: "fields_ty P (struct_ty m P) (sd_fields (struct_at P s)) = Some fs" by auto
  from go.sound [OF wf s, of m c] c m fs bits
  have rep: "container_rep P (struct_ty m P) c fs" "all_fields c = live_fields P s"
    by (auto simp: live_fields_def)
  have nmd: "struct_named P nm = Some s" using struct_named_at [OF names s] nm by simp
  then have "container_named go_AnalyzeContainer depth P nm = Some c" using cd by (simp add: container_named_def)
  with nmd show thesis using that m cd rep fs by blast
qed

lemma emit_program_decl:
  assumes wf: "wf_schema P" and small: "small_ids P" and names: "names_ok D P"
    and n: "n \<le> depth" and s: "s < length (struct_store P)"
    and ty: "struct_ty n P s = Some (TContainer nm fs)" and bits: "fields_bits_ok fs"
  obtains m c where "n = Suc m" "emit_program go_AnalyzeContainer D depth P nm = Some (emit_decl D c)"
    "container_rep P (struct_ty m P) c fs" "all_fields c = live_fields P s"
    "\<forall>f \<in> set fs. flat_ty (snd f)" "distinct (map (dl_member D) (all_fields c))"
proof -
  have dist: "distinct (map sd_name (struct_store P))" using names by (simp add: names_ok_def)
  from go_struct_decl [OF wf small dist n s ty bits] obtain m c where m: "n = Suc m"
    and c: "container_named go_AnalyzeContainer depth P nm = Some c"
    and rep: "container_rep P (struct_ty m P) c fs" "all_fields c = live_fields P s"
    and fs: "fields_ty P (struct_ty m P) (sd_fields (struct_at P s)) = Some fs" .
  have "emit_program go_AnalyzeContainer D depth P nm = Some (emit_decl D c)"
    using c by (simp add: emit_program_def)
  moreover have "distinct (map (dl_member D) (all_fields c))"
    using names s rep(2) by (simp add: names_ok_def list_all_iff)
  ultimately show thesis
    using that m rep fields_flat [OF containers_struct_ty fs] by blast
qed

text \<open>The fields of a container match a frame of its method.\<close>

lemma frame_match:
  assumes rep: "container_rep P st c fs" and flat: "\<forall>f \<in> set fs. flat_ty (snd f)"
    and bits: "fields_bits_ok fs" and ok: "vals_ok fs vs"
    and dist: "distinct (map (dl_member D) (all_fields c))"
  shows "fields_match D st (member (new_frame (emit_decl D c) vs buf)) (infos_of c (all_fields c)) fs vs"
proof -
  let ?fr = "new_frame (emit_decl D c) vs buf"
  from rep have l2: "list_all2 (field_rep P st c) (all_fields c) fs"
    by (simp add: container_rep_def)
  have "length vs = length (all_fields c)"
    using vals_ok_length [OF ok] list_all2_lengthD [OF l2] by simp
  from members_at [OF dist this]
  have mem: "list_all2 (\<lambda>p v. member ?fr (dl_member D p) = Some v) (all_fields c) vs"
    by (simp add: member_def new_frame_def emit_decl_def)
  show ?thesis by (rule match_fields [OF l2 flat bits ok mem])
qed

lemma struct_ty_in_range: "struct_ty n P s = Some t \<Longrightarrow> s < length (struct_store P)"
  by (cases n) (auto split: if_splits)

lemma marshal_program:
  assumes wf: "wf_schema P" and small: "small_ids P" and names: "names_ok D P"
  shows "n \<le> depth \<Longrightarrow> struct_ty n P s = Some (TContainer nm fs) \<Longrightarrow> fields_bits_ok fs \<Longrightarrow>
    vals_ok fs vs \<Longrightarrow>
    MarshalSSZTo (emit_program go_AnalyzeContainer D depth P) n nm vs buf =
      Some (buf @ serialize (TContainer nm fs) (VStruct nm vs))"
proof (induction n arbitrary: s nm fs vs buf)
  case 0
  then show ?case by simp
next
  case (Suc m)
  let ?prog = "emit_program go_AnalyzeContainer D depth P"
  let ?C = "\<lparr>call_marshal = MarshalSSZTo ?prog m, call_size = SizeSSZ ?prog m\<rparr>"
  have s: "s < length (struct_store P)" using Suc.prems(2) by (rule struct_ty_in_range)
  from emit_program_decl [OF wf small names Suc.prems(1) s Suc.prems(2,3)]
  obtain c where prog: "?prog nm = Some (emit_decl D c)"
    and rep: "container_rep P (struct_ty m P) c fs" and flat: "\<forall>f \<in> set fs. flat_ty (snd f)"
    and dist: "distinct (map (dl_member D) (all_fields c))"
    by (metis nat.inject)
  let ?fr = "new_frame (emit_decl D c) vs buf"
  have C: "marshals (struct_ty m P) ?C"
    unfolding marshals_def using Suc.IH Suc.prems(1) by simp
  have m: "fields_match D (struct_ty m P) (member ?fr) (infos_of c (all_fields c)) fs vs"
    by (rule frame_match [OF rep flat Suc.prems(3,4) dist])
  from marshal_body_exec [OF C m dynamic_fields_empty [OF rep]] prog show ?case
    by (simp add: emit_decl_def new_frame_def)
qed

text \<open>A struct type and its value.\<close>

lemma struct_value:
  assumes "struct_ty n P s = Some t" and "val_ok t (VStruct nm vs)"
  obtains fs where "t = TContainer nm fs" "vals_ok fs vs"
  using assms containers_struct_ty unfolding containers_def by fastforce

end
