(* ===== verification/Go_Size.thy ===== *)
theory Go_Size
  imports Go_Serialize
begin

text \<open>
  The emitted \<open>SizeSSZ\<close> returns the length of the serialization, so that the buffer that
  \<open>MarshalSSZ\<close> allocates is exactly full in the end.
\<close>

declare eval.simps(1) [simp del]

section \<open>Sizes that fit\<close>

text \<open>The generator keeps sizes in 32 bits; the sizes it prints must fit.\<close>

fun size_ok :: "ssz_ty \<Rightarrow> bool"
  and fields_size_ok :: "(string \<times> ssz_ty) list \<Rightarrow> bool" where
  "size_ok (TVector t n) = size_ok t"
| "size_ok (TList t l) = (size_ok t \<and> (is_variable t \<or> fixed_len t < 2 ^ 32))"
| "size_ok (TProgressiveList t) = (size_ok t \<and> (is_variable t \<or> fixed_len t < 2 ^ 32))"
| "size_ok (TContainer s fs) = (static_len fs < 2 ^ 32 \<and> fields_size_ok fs)"
| "size_ok t = True"
| "fields_size_ok [] = True"
| "fields_size_ok ((n, t) # fs) = (size_ok t \<and> fields_size_ok fs)"

definition measures :: "struct_types \<Rightarrow> gcalls \<Rightarrow> bool" where
  "measures st C \<longleftrightarrow>
     (\<forall>q nm fs vs. st q = Some (TContainer nm fs) \<longrightarrow> fields_bits_ok fs \<longrightarrow>
        size_ok (TContainer nm fs) \<longrightarrow> vals_ok fs vs \<longrightarrow>
        call_size C nm vs = Some (length (serialize (TContainer nm fs) (VStruct nm vs))))"

section \<open>Statements\<close>

lemma size_frames [frame_simps]:
  "member (add_size n fr) = member fr" "gf_size (add_size n fr) = gf_size fr + n"
  "add_size m (add_size n fr) = add_size (n + m) fr" "add_size 0 fr = fr"
  "leave fr (add_size n fr) = add_size n fr"
  "leave fr (add_size n (bind_val x v fr)) = add_size n fr"
  by (simp_all add: add_size_def member_def [abs_def] leave_def bind_val_def)

lemma for_value_size:
  assumes v: "member fr f = Some (VSeq xs)"
    and step: "\<And>w fr'. w \<in> set xs \<Longrightarrow> eval fr' (GLocal x) = Some w \<Longrightarrow>
      execs C body fr' = Some (add_size (g w) fr')"
  shows "exec C (ForValue x (GMember f) body) fr = Some (add_size (sum_list (map g xs)) fr)"
proof -
  let ?step = "\<lambda>w f. map_option (leave f) (execs C body (bind_val x w f))"
  have "fold_opt ?step ys (add_size n fr) = Some (add_size (n + sum_list (map g ys)) fr)"
    if "set ys \<subseteq> set xs" for ys n
    using that
  proof (induction ys arbitrary: n)
    case (Cons w ys)
    have "execs C body (bind_val x w (add_size n fr)) =
        Some (add_size (g w) (bind_val x w (add_size n fr)))"
      by (rule step) (use Cons.prems in \<open>auto simp: frame_simps\<close>)
    then have "?step w (add_size n fr) = Some (add_size (n + g w) fr)"
      by (simp add: frame_simps)
    with Cons show ?case by (simp add: add.assoc del: map_option_eq_Some)
  qed (simp add: frame_simps)
  from this [of xs 0] v show ?thesis by (simp add: frame_simps)
qed

lemma size_call:
  assumes "measures st C" and "info_rep st i (TContainer nm fs)" and "fields_bits_ok fs"
    and "size_ok (TContainer nm fs)" and "val_ok (TContainer nm fs) v" and "eval fr e = Some v"
  shows "exec C (SizeAddCall e) fr =
    Some (add_size (length (serialize (TContainer nm fs) v)) fr)"
proof -
  from assms(5) obtain vs where v: "v = VStruct nm vs" "vals_ok fs vs" by auto
  from assms(2) obtain q where "st q = Some (TContainer nm fs)" by auto
  with assms(1,3,4) v have "call_size C nm vs =
      Some (length (serialize (TContainer nm fs) (VStruct nm vs)))"
    unfolding measures_def by blast
  with assms(6) v show ?thesis by simp
qed

section \<open>Lists\<close>

lemma length_ser_list:
  "length (ser_parts (map (\<lambda>x. (True, g x)) xs)) =
   length xs * 4 + sum_list (map (\<lambda>x. length (g x)) xs)"
  by (simp add: length_ser_parts heads_all_True tails_all_True length_concat comp_def)

lemma length_ser_fixed:
  assumes "\<not> is_variable t" and "\<forall>x \<in> set xs. val_ok t x"
  shows "length (ser_parts (map (\<lambda>x. (is_variable t, serialize t x)) xs)) = length xs * fixed_len t"
proof -
  have "sum_list (map (\<lambda>x. length (serialize t x)) xs) = length xs * fixed_len t"
    by (rule sum_list_const) (use assms serialize_fixed_len in auto)
  with assms(1) show ?thesis by (simp add: length_concat comp_def)
qed

text \<open>The statements for the elements of a list, by the kind of the element type.\<close>

definition list_size_stmts :: "bool \<Rightarrow> SszFieldInfo \<Rightarrow> gexpr \<Rightarrow> gstmt list" where
  "list_size_stmts lb info e =
     (if elem_is info SszList then
        [SizeAddMul e 4, ForValue ''item'' e [SizeAddLen (GLocal ''item'')]]
      else if elem_is info SszContainer \<and> elem_dynamic info then
        [SizeAddMul e 4, ForValue ''item'' e [SizeAddCall (GLocal ''item'')]]
      else if lb \<and> elem_is info SszUint8 then [SizeAddLen e]
      else if elem_info info \<noteq> None then [SizeAddMul e (unat (elem_fixed_size info))]
      else [SizeAddLen e])"

lemma size_stmts_list:
  "ssz_type i \<in> {SszList, SszProgressiveList} \<Longrightarrow> size_stmts pc lb i e = list_size_stmts lb i e"
  by (auto simp: size_stmts_def list_size_stmts_def)

lemma unat_fixed_size:
  assumes "info_rep st e t" and "\<not> is_variable t" and "fixed_len t < 2 ^ 32"
  shows "unat (fixed_size e) = fixed_len t"
  using info_rep_fixed [OF assms(1,2)] assms(3) by (simp add: unat_of_nat)

lemma list_fixed_size_exec:
  assumes e: "elem_info i = Some e" "info_rep st e t" and fl: "flat_elem t"
    and nv: "\<not> is_variable t" and small: "fixed_len t < 2 ^ 32"
    and v: "member fr f = Some v" and len: "val_len v = Some n"
  shows "execs C (list_size_stmts lb i (GMember f)) fr = Some (add_size (n * fixed_len t) fr)"
proof -
  have "ssz_type e \<noteq> SszList" "ssz_type e = SszContainer \<longrightarrow> \<not> is_dynamic e"
      "ssz_type e = SszUint8 \<longrightarrow> fixed_len t = 1"
    using e(2) fl nv info_rep_dynamic [OF e(2)]
    by (cases t; auto split: if_splits)+
  with e(1) unat_fixed_size [OF e(2) nv small] v len show ?thesis
    by (auto simp: list_size_stmts_def elem_rep_simps eval_member)
qed

lemma list_size_exec:
  assumes C: "measures st C" and e: "elem_info i = Some e" "info_rep st e t" and fl: "flat_elem t"
    and bits: "bits_ok t" and small: "size_ok t" "is_variable t \<or> fixed_len t < 2 ^ 32"
    and v: "member fr f = Some v"
    and ok: "if is_byte_ty t then \<exists>bs. v = VBytes bs
      else \<exists>xs. v = VSeq xs \<and> (\<forall>x \<in> set xs. val_ok t x)"
  shows "execs C (list_size_stmts lb i (GMember f)) fr =
    Some (add_size (length (case v of VBytes bs \<Rightarrow> bs
      | VSeq xs \<Rightarrow> ser_parts (map (\<lambda>x. (is_variable t, serialize t x)) xs) | _ \<Rightarrow> [])) fr)"
proof (cases "is_byte_ty t")
  case True
  with ok obtain bs where bs: "v = VBytes bs" by auto
  from True have "\<not> is_variable t" "fixed_len t = 1" by (auto simp: is_byte_ty_def)
  with list_fixed_size_exec [OF e fl _ _ v, of "length bs" C] bs show ?thesis by simp
next
  case False
  with ok obtain xs where xs: "v = VSeq xs" "\<forall>x \<in> set xs. val_ok t x" by auto
  show ?thesis
  proof (cases "is_variable t")
    case nv: False
    with list_fixed_size_exec [OF e fl nv _ v, of "length xs" C] xs small
      length_ser_fixed [OF nv xs(2)] show ?thesis by simp
  next
    case True
    from e(2) fl show ?thesis
    proof (cases rule: flat_elem_cases)
      case (cont nm fs)
      have "exec C (ForValue ''item'' (GMember f) [SizeAddCall (GLocal ''item'')]) fr' =
          Some (add_size (sum_list (map (\<lambda>x. length (serialize t x)) xs)) fr')"
        if "member fr' f = Some v" for fr'
      proof (rule for_value_size)
        show "member fr' f = Some (VSeq xs)" using that xs by simp
        fix w fr' assume w: "w \<in> set xs" "eval fr' (GLocal ''item'') = Some w"
        with size_call [OF C e(2) [unfolded cont(1)], of w fr' "GLocal ''item''"] bits small xs cont
        show "execs C [SizeAddCall (GLocal ''item'')] fr' =
            Some (add_size (length (serialize t w)) fr')" by (simp del: exec.simps)
      qed
      with cont(2) True e xs v info_rep_dynamic [OF e(2)] show ?thesis
        by (simp add: list_size_stmts_def elem_rep_simps length_ser_list frame_simps del: exec.simps(13))
    next
      case (bytes l)
      have "exec C (ForValue ''item'' (GMember f) [SizeAddLen (GLocal ''item'')]) fr' =
          Some (add_size (sum_list (map (\<lambda>x. length (serialize t x)) xs)) fr')"
        if "member fr' f = Some v" for fr'
      proof (rule for_value_size)
        show "member fr' f = Some (VSeq xs)" using that xs by simp
        fix w fr' assume w: "w \<in> set xs" "eval fr' (GLocal ''item'') = Some w"
        with xs bytes obtain bs where "w = VBytes bs" by (auto simp: is_byte_ty_def)
        with w bytes show "execs C [SizeAddLen (GLocal ''item'')] fr' =
            Some (add_size (length (serialize t w)) fr')" by simp
      qed
      with bytes(2) True e xs v show ?thesis
        by (simp add: list_size_stmts_def elem_rep_simps length_ser_list frame_simps del: exec.simps(13))
    qed (use True False in \<open>auto simp: is_byte_ty_def\<close>)
  qed
qed

section \<open>Fields\<close>

lemma field_size_exec:
  assumes C: "measures st C" and rep: "info_rep st i t" and flat: "flat_ty t"
    and bits: "bits_ok t" and small: "size_ok t" and var: "is_variable t"
    and ok: "val_ok t v" and v: "member fr f = Some v"
  shows "execs C (size_stmts pc lb i (GMember f)) fr = Some (add_size (length (serialize t v)) fr)"
proof (cases t)
  case (TList t' l)
  with rep obtain e where "elem_info i = Some e" "info_rep st e t'" by auto
  from list_size_exec [OF C this, of fr f v] TList assms show ?thesis
    by (auto simp: size_stmts_list is_byte_ty_def split: if_splits)
next
  case (TProgressiveList t')
  with rep obtain e where "elem_info i = Some e" "info_rep st e t'" by auto
  from list_size_exec [OF C this, of fr f v] TProgressiveList assms show ?thesis
    by (auto simp: size_stmts_list is_byte_ty_def split: if_splits)
next
  case (TContainer nm fs)
  with size_call [OF C, of i nm fs v fr "GMember f"] assms show ?thesis
    by (simp add: size_stmts_def eval_member del: exec.simps serialize.simps size_ok.simps)
next
  case (TVector t' n)
  with rep var show ?thesis by simp
qed (use assms in \<open>auto simp: size_stmts_def eval_member\<close>)

lemma dynamic_size_exec:
  "fields_match D st mem ps fs vs \<Longrightarrow> fields_size_ok fs \<Longrightarrow> measures st C \<Longrightarrow> mem = member fr \<Longrightarrow>
    execs C (concat (map (dl_size_stmts D) (filter (\<lambda>(p, i). is_dynamic i) ps))) fr =
    Some (add_size (length (tails (serialize_fields fs vs))) fr)"
proof (induction D st mem ps fs vs arbitrary: fr rule: fields_match.induct)
  case (2 D st mem p i ps n t fs v vs)
  from 2 have dyn: "is_dynamic i = is_variable t" by (auto simp: info_rep_dynamic)
  show ?case
  proof (cases "is_variable t")
    case True
    have "execs C (dl_size_stmts D (p, i)) fr = Some (add_size (length (serialize t v)) fr)"
      by (rule field_size_exec) (use 2 True in auto)
    with 2 True dyn show ?thesis by (simp add: frame_simps)
  next
    case False
    with 2 dyn show ?thesis by simp
  qed
qed (auto simp: frame_simps)

section \<open>The program\<close>

lemma dynamic_infos:
  assumes "container_rep P st c fs"
  shows "infos_of c (dynamic_fields c) = filter (\<lambda>(p, i). is_dynamic i) (infos_of c (all_fields c))"
proof -
  have "infos_of c (map fst (filter (\<lambda>(p, f). is_variable (snd f)) (zip ps fs))) =
      filter (\<lambda>(p, i). is_dynamic i) (infos_of c ps)"
    if "list_all2 (field_rep P st c) ps fs" for ps fs
    using that
    by (induction ps fs rule: list_all2_induct) (auto simp: field_rep_def info_rep_dynamic)
  with assms show ?thesis by (simp add: container_rep_def)
qed

lemma size_program:
  assumes wf: "wf_schema P" and small: "small_ids P" and names: "names_ok D P"
  shows "n \<le> depth \<Longrightarrow> struct_ty n P s = Some (TContainer nm fs) \<Longrightarrow> fields_bits_ok fs \<Longrightarrow>
    size_ok (TContainer nm fs) \<Longrightarrow> vals_ok fs vs \<Longrightarrow>
    SizeSSZ (emit_program go_AnalyzeContainer D depth P) n nm vs =
      Some (length (serialize (TContainer nm fs) (VStruct nm vs)))"
proof (induction n arbitrary: s nm fs vs)
  case 0
  then show ?case by simp
next
  case (Suc m)
  let ?prog = "emit_program go_AnalyzeContainer D depth P"
  let ?C = "\<lparr>call_marshal = MarshalSSZTo ?prog m,
    call_size = SizeSSZ ?prog m\<rparr>"
  have s: "s < length (struct_store P)" using Suc.prems(2) by (rule struct_ty_in_range)
  from emit_program_decl [OF wf small names Suc.prems(1) s Suc.prems(2,3)]
  obtain c where prog: "?prog nm = Some (emit_decl D c)"
    and rep: "container_rep P (struct_ty m P) c fs" and flat: "\<forall>f \<in> set fs. flat_ty (snd f)"
    and dist: "distinct (map (dl_member D) (all_fields c))"
    by (metis nat.inject)
  let ?fr = "new_frame (emit_decl D c) vs []"
  have C: "measures (struct_ty m P) ?C"
    unfolding measures_def using Suc.IH Suc.prems(1) by simp
  have m: "fields_match D (struct_ty m P) (member ?fr) (infos_of c (all_fields c)) fs vs"
    by (rule frame_match [OF rep flat Suc.prems(3,5) dist])
  have static: "unat (static_size c) = static_len fs" "is_fixed c = (\<not> any_variable fs)"
    using rep Suc.prems(4) by (simp_all add: container_rep_def unat_of_nat)
  have "execs ?C (concat (map (dl_size_stmts D)
      (infos_of c (dynamic_fields c)))) (?fr\<lparr>gf_size := static_len fs\<rparr>) =
      Some (add_size (length (tails (serialize_fields fs vs))) (?fr\<lparr>gf_size := static_len fs\<rparr>))"
    unfolding dynamic_infos [OF rep]
    by (rule dynamic_size_exec [OF m _ C])
      (use Suc.prems(4) in \<open>simp_all add: member_def [abs_def] new_frame_def\<close>)
  with prog static length_serialize_fields [OF Suc.prems(5)] show ?case
    by (cases "any_variable fs")
      (simp_all add: emit_decl_def size_body_def new_frame_def add_size_def tails_fixed)
qed

end
