(* ===== verification/Go_Decode_Fields.thy ===== *)
theory Go_Decode_Fields
  imports Go_Decode_Program Go_Size
begin

text \<open>
  What the statements of one field of the emitted \<open>UnmarshalSSZ\<close> do on the serialization of a
  value: they store the value in the member.  \<open>holds\<close> says which bytes a slice has at a
  position; \<open>unmarshals\<close> is the contract of a nested \<open>UnmarshalSSZ\<close> and of the zero values.
  First come the executions of the statements themselves, then the fields.
\<close>

section \<open>Slices\<close>

lemma le_val_le_bytes: "n < 256 ^ k \<Longrightarrow> le_val (le_bytes k n) = n"
proof (induction k arbitrary: n)
  case (Suc k)
  then have "n div 256 < 256 ^ k" by (simp add: less_mult_imp_div_less mult.commute)
  with Suc.IH show ?case by (simp add: unat_of_nat)
qed simp

definition holds :: "slice \<Rightarrow> nat \<Rightarrow> byte list \<Rightarrow> bool" where
  "holds s pos bs \<longleftrightarrow>
     slice_ok s \<and> pos + length bs \<le> snd s \<and> take (length bs) (drop pos (fst s)) = bs"

lemma take_append_iff:
  "length xs + length ys \<le> length zs \<Longrightarrow>
   take (length xs + length ys) zs = xs @ ys \<longleftrightarrow>
     take (length xs) zs = xs \<and> take (length ys) (drop (length xs) zs) = ys"
  by (auto simp: take_add append_eq_append_conv)

lemma holds_append:
  "holds s pos (xs @ ys) \<longleftrightarrow> holds s pos xs \<and> holds s (pos + length xs) ys"
proof (cases "slice_ok s \<and> pos + length xs + length ys \<le> snd s")
  case True
  then have "length xs + length ys \<le> length (drop pos (fst s))" by (auto simp: slice_ok_def)
  from take_append_iff [OF this] True show ?thesis
    by (auto simp: holds_def add.assoc add.commute)
qed (auto simp: holds_def)

lemma holds_whole:
  "slice_ok s \<Longrightarrow> slice_bytes s = bs \<Longrightarrow> holds s 0 bs \<and> snd s = length bs"
  by (auto simp: holds_def slice_bytes_def slice_ok_def)

text \<open>Cutting the bytes out gives a slice of them.\<close>

lemma holds_range:
  assumes "holds s pos bs"
  obtains s' where "slice_range s pos (pos + length bs) = Some s'" "slice_ok s'" "slice_bytes s' = bs"
    "snd s' = length bs"
  using assms
  by (auto simp: holds_def slice_range_def slice_ok_def slice_bytes_def)

lemma holds_uint:
  assumes "holds s pos (le_bytes k n)" and "n < 256 ^ k"
  shows "Option.bind (slice_range s pos (pos + k)) (slice_uint k) = Some n"
  using assms le_val_le_bytes [OF assms(2)]
  by (auto simp: holds_def slice_range_def slice_ok_def slice_uint_def)

lemma holds_byte:
  assumes "holds s pos [b]"
  shows "pos < snd s" and "fst s ! pos = b"
  using assms by (auto simp: holds_def slice_ok_def take_Suc_conv_app_nth hd_drop_conv_nth take_Suc)

section \<open>Frames\<close>

text \<open>All frames of this theory are frames of a receiver that is not nil.\<close>

abbreviation frm :: "(string \<rightharpoonup> val) \<Rightarrow> (string \<times> nat) list \<Rightarrow> slice \<Rightarrow> dframe" where
  "frm m env buf \<equiv> \<lparr>df_recv = Some m, df_ints = env, df_buf = buf\<rparr>"

lemma frm_simps [simp]:
  "get_member (frm m env buf) f = m f"
  "set_member f v (frm m env buf) = frm (m(f \<mapsto> v)) env buf"
  "bind_var x n (frm m env buf) = frm m ((x, n) # env) buf"
  "end_block (frm m env buf) (frm m' (pre @ env) buf') = frm m' env buf"
  "end_block (frm m env buf) (frm m' (y # env) buf') = frm m' env buf"
  "end_block (frm m env buf) (frm m' env buf') = frm m' env buf"
  by (simp_all add: get_member_def set_member_def bind_var_def end_block_def)

lemma end_block_frm [simp]:
  "length env' = length env \<Longrightarrow> end_block (frm m env buf) (frm m' env' buf') = frm m' env' buf"
  by (simp add: end_block_def)

text \<open>A loop that fills a member element by element.\<close>

lemma fill_loop:
  assumes step: "\<And>k ws m. k < length xs \<Longrightarrow> length ws = length xs \<Longrightarrow> m f = Some (VSeq ws) \<Longrightarrow>
      body k (frm m env buf) = Done (frm (m(f \<mapsto> VSeq (ws[k := xs ! k]))) env buf)"
    and m: "m f = Some (VSeq ys)" "length ys = length xs"
  shows "go_fold body [0..<length xs] (frm m env buf) = Done (frm (m(f \<mapsto> VSeq xs)) env buf)"
proof -
  have "go_fold body [k..<length xs] (frm m' env buf) = Done (frm (m'(f \<mapsto> VSeq xs)) env buf)"
    if "k \<le> length xs" "m' f = Some (VSeq (take k xs @ drop k ys))" for k m'
    using that
  proof (induction "length xs - k" arbitrary: k m')
    case 0
    with m have "m' f = Some (VSeq xs)" by simp
    then have "m'(f \<mapsto> VSeq xs) = m'" by auto
    with 0 show ?case by simp
  next
    case (Suc j)
    then have k: "k < length xs" by simp
    let ?ws = "take k xs @ drop k ys" and ?m1 = "m'(f \<mapsto> VSeq (take (Suc k) xs @ drop (Suc k) ys))"
    have upt: "[k..<length xs] = k # [Suc k..<length xs]" using k by (simp add: upt_rec)
    have "?ws[k := xs ! k] = take (Suc k) xs @ drop (Suc k) ys"
      using k m(2) by (simp add: list_update_append take_Suc_conv_app_nth Cons_nth_drop_Suc [symmetric])
    moreover have "length ?ws = length xs" using k m(2) by simp
    ultimately have s: "body k (frm m' env buf) = Done (frm ?m1 env buf)"
      using step [of k ?ws m'] k Suc.prems(2) by simp
    have "go_fold body [Suc k..<length xs] (frm ?m1 env buf) = Done (frm (?m1(f \<mapsto> VSeq xs)) env buf)"
      by (rule Suc.hyps(1)) (use Suc.hyps(2) k in auto)
    with s upt show ?case by simp
  qed
  from this [of 0 m] m show ?thesis by simp
qed

section \<open>The contract of nested calls\<close>

text \<open>
  The types for which decoding gives back what was encoded: no vector of containers, whose
  pointers the emitted code never allocates, and no list of elements without bytes, whose
  number the bytes do not tell.
\<close>

fun decodable :: "ssz_ty \<Rightarrow> bool"
  and fields_decodable :: "(string \<times> ssz_ty) list \<Rightarrow> bool" where
  "decodable (TVector t n) = (case t of TContainer s fs \<Rightarrow> False | _ \<Rightarrow> True)"
| "decodable (TList t l) = (decodable t \<and> (is_variable t \<or> 0 < fixed_len t))"
| "decodable (TProgressiveList t) = (decodable t \<and> (is_variable t \<or> 0 < fixed_len t))"
| "decodable (TContainer s fs) = fields_decodable fs"
| "decodable t = True"
| "fields_decodable [] = True"
| "fields_decodable ((n, t) # fs) = (decodable t \<and> fields_decodable fs)"

text \<open>
  What a receiver must be before decoding: a value of the right shape whose lists are empty, as
  in a new object.
\<close>

fun fresh :: "ssz_ty \<Rightarrow> val \<Rightarrow> bool"
  and all_fresh :: "(string \<times> ssz_ty) list \<Rightarrow> val list \<Rightarrow> bool" where
  "fresh (TVector t n) v =
     (if is_byte_ty t then \<exists>bs. v = VBytes bs \<and> length bs = n
      else \<exists>xs. v = VSeq xs \<and> length xs = n)"
| "fresh (TList t l) v = (if is_byte_ty t then \<exists>bs. v = VBytes bs else v = VSeq [])"
| "fresh (TProgressiveList t) v = (if is_byte_ty t then \<exists>bs. v = VBytes bs else v = VSeq [])"
| "fresh (TBitvector n) v = (\<exists>bs. v = VBytes bs \<and> length bs = (n + 7) div 8)"
| "fresh (TBitlist l) v = (\<exists>bs. v = VBytes bs)"
| "fresh (TContainer s fs) v = (\<exists>vs. v = VStruct s vs \<and> all_fresh fs vs)"
| "fresh t v = True"
| "all_fresh [] vs = (vs = [])"
| "all_fresh ((n, t) # fs) vs = (\<exists>w ws. vs = w # ws \<and> fresh t w \<and> all_fresh fs ws)"

definition decodes :: "dcalls \<Rightarrow> string \<Rightarrow> (string \<times> ssz_ty) list \<Rightarrow> bool" where
  "decodes C nm fs \<longleftrightarrow>
     (\<forall>vs v buf. vals_ok fs vs \<longrightarrow> fresh (TContainer nm fs) v \<longrightarrow> slice_ok buf \<longrightarrow>
        slice_bytes buf = serialize (TContainer nm fs) (VStruct nm vs) \<longrightarrow> snd buf < 2 ^ 32 \<longrightarrow>
        call_unmarshal C nm v buf = Done (VStruct nm vs)) \<and>
     fresh (TContainer nm fs) (zero_struct C nm)"

definition unmarshals :: "Parser \<Rightarrow> struct_types \<Rightarrow> dcalls \<Rightarrow> bool" where
  "unmarshals P st C \<longleftrightarrow>
     (\<forall>q nm fs. st q = Some (TContainer nm fs) \<longrightarrow>
        nm = sd_name (struct_at P q) \<and>
        (fields_bits_ok fs \<longrightarrow> size_ok (TContainer nm fs) \<longrightarrow> fields_decodable fs \<longrightarrow> decodes C nm fs))"

text \<open>The container type of an info, with its name and its contract.\<close>

lemma unmarshals_info:
  assumes "unmarshals P st C" and "info_rep st i (TContainer nm fs)" and "fields_bits_ok fs"
    and "size_ok (TContainer nm fs)" and "fields_decodable fs"
  shows "info_struct_name P dflt i = nm" and "decodes C nm fs"
proof -
  from assms(2) obtain q where q: "info_struct i = Some q" "st q = Some (TContainer nm fs)" by auto
  with assms(1) have "nm = sd_name (struct_at P q)" unfolding unmarshals_def by blast
  with q show "info_struct_name P dflt i = nm" by (simp add: info_struct_name_def)
  from assms(1,3-5) q(2) show "decodes C nm fs" unfolding unmarshals_def by blast
qed

lemma decodes_val:
  assumes "decodes C nm fs" and "val_ok (TContainer nm fs) v" and "fresh (TContainer nm fs) v0"
    and "slice_ok buf" and "slice_bytes buf = serialize (TContainer nm fs) v" and "snd buf < 2 ^ 32"
  shows "call_unmarshal C nm v0 buf = Done v"
proof -
  from assms(2) obtain vs where "v = VStruct nm vs" "vals_ok fs vs" by auto
  with assms show ?thesis unfolding decodes_def by blast
qed


text \<open>
  Every field of the emitted \<open>UnmarshalSSZ\<close> stores the value whose serialization it reads: the
  fixed-size types, the lists of fixed-size elements and the lists with offsets.
\<close>

section \<open>Primitive values\<close>

lemma bool_exec:
  assumes "eval_int (frm m env buf) e = Some pos" and "holds buf pos [if b then 1 else 0]"
    and "set_lval (frm m env buf) v (VBool b) = Some fr'"
  shows "dexecs C (bool_stmts v e) (frm m env buf) = Done fr'"
  using assms holds_byte [OF assms(2)] by (auto simp: bool_stmts_def)

lemma uint_exec:
  assumes "eval_int (frm m env buf) a = Some pos" and "eval_int (frm m env buf) b = Some (pos + w div 8)"
    and "holds buf pos (le_bytes (w div 8) n)" and "n < 256 ^ (w div 8)"
    and "set_lval (frm m env buf) v (VUint n) = Some fr'"
  shows "dexec C (DSetUint v w a b) (frm m env buf) = Done fr'"
  using assms holds_uint [OF assms(3,4)] by (simp add: eval_range_def)

lemma elem_exec:
  assumes "info_rep st e t" and "flat_elem t" and "\<not> is_byte_ty t" and "t = TBool \<or> (\<exists>k. t = TUint k)"
    and "val_ok t x" and "map_of env ''off'' = Some pos" and "holds buf pos (serialize t x)"
    and "set_lval (frm m env buf) v x = Some fr'"
  shows "dexecs C (elem_stmts (ssz_type e) v) (frm m env buf) = Done fr'"
proof (cases t)
  case TBool
  with assms have e: "ssz_type e = SszBool" by simp
  from TBool assms(5) obtain b where x: "x = VBool b" by auto
  have "dexecs C (bool_stmts v (IVar ''off'')) (frm m env buf) = Done fr'"
    by (rule bool_exec [where b = b]) (use assms TBool x in auto)
  with e show ?thesis by (simp add: elem_stmts_def)
next
  case (TUint k)
  with assms(5) obtain n where x: "x = VUint n" "n < 256 ^ k" by auto
  have set: "dexec C (DSetUint v (8 * k) (IVar ''off'') (IAdd (IVar ''off'') (INum k))) (frm m env buf) =
      Done fr'"
    by (rule uint_exec [where pos = pos and n = n]) (use assms TUint x in auto)
  from TUint assms(1-3) consider "k = 2" "ssz_type e = SszUint16" | "k = 4" "ssz_type e = SszUint32"
    | "k = 8" "ssz_type e = SszUint64"
    by (auto simp: is_byte_ty_def split: if_splits)
  then show ?thesis using set by cases (simp_all add: elem_stmts_def Let_def del: dexec.simps)
qed (use assms in auto)

section \<open>Fixed-size fields\<close>

lemma copy_bytes_same: "length src = length dst \<Longrightarrow> copy_bytes dst src = src"
  by (simp add: copy_bytes_def)

lemma copy_exec:
  assumes "m f = Some (VBytes old)" and "length old = length bs" and "holds buf pos bs"
    and "eval_int (frm m env buf) a = Some pos" and "eval_int (frm m env buf) b = Some (pos + length bs)"
  shows "dexec C (DCopyArray (LMember f) a b) (frm m env buf) = Done (frm (m(f \<mapsto> VBytes bs)) env buf)"
proof -
  obtain s where s: "slice_range buf pos (pos + length bs) = Some s" "slice_bytes s = bs"
    using holds_range [OF assms(3)] by metis
  then have "eval_range (frm m env buf) a b = Some s" using assms(4,5) by (simp add: eval_range_def)
  with assms(1,2) s(2) show ?thesis by (simp add: copy_into_def copy_bytes_same)
qed

text \<open>The constants of the generator do not wrap while the offsets fit.\<close>

lemma unat_offset:
  "unat (off :: u32) + n < 2 ^ 32 \<Longrightarrow> unat (off + of_nat n) = unat off + n"
  by (simp add: unat_word_ariths unat_of_nat)

lemma unat_small_add:
  "unat (off :: u32) + k < 2 ^ 32 \<Longrightarrow> k < 2 ^ 32 \<Longrightarrow> w = of_nat k \<Longrightarrow> unat (off + w) = unat off + k"
  using unat_offset by simp

lemma holds_concat_nth:
  assumes "holds buf pos (concat (map g xs))" and "\<And>x. x \<in> set xs \<Longrightarrow> length (g x) = n" and "k < length xs"
  shows "holds buf (pos + k * n) (g (xs ! k))"
proof -
  have "length (concat (map g (take k xs))) = k * n"
  proof -
    have "sum_list (map (\<lambda>x. length (g x)) (take k xs)) = length (take k xs) * n"
      by (rule sum_list_const, rule assms(2), erule in_set_takeD)
    with assms(3) show ?thesis by (simp add: length_concat comp_def)
  qed
  moreover have "concat (map g (take k xs @ xs ! k # drop (Suc k) xs)) =
      concat (map g (take k xs)) @ g (xs ! k) @ concat (map g (drop (Suc k) xs))" by simp
  then have "concat (map g xs) = concat (map g (take k xs)) @ g (xs ! k) @ concat (map g (drop (Suc k) xs))"
    unfolding id_take_nth_drop [OF assms(3), symmetric] .
  ultimately show ?thesis using assms(1) by (simp add: holds_append)
qed

lemma prim_vector_exec:
  assumes e: "info_rep st e t" "flat_elem t" "\<not> is_byte_ty t" "t = TBool \<or> (\<exists>k. t = TUint k)"
    and ok: "\<forall>x \<in> set xs. val_ok t x" and m: "m f = Some (VSeq ys)" "length ys = length xs"
    and buf: "holds buf (unat off) (concat (map (serialize t) xs))"
  shows "dexec C (DForArray (LMember f) (length xs)
      (DDecl ''off'' (IAddB (at32 off) (IMul (IVar ''i'') (INum (fixed_len t)))) #
       elem_stmts (ssz_type e) (LElem f ''i''))) (frm m env buf) =
    Done (frm (m(f \<mapsto> VSeq xs)) env buf)"
proof -
  have fixed: "\<not> is_variable t" using e(4) by auto
  have "go_fold (\<lambda>k fr. go_map (end_block fr) (dexecs C
      (DDecl ''off'' (IAddB (at32 off) (IMul (IVar ''i'') (INum (fixed_len t)))) #
       elem_stmts (ssz_type e) (LElem f ''i'')) (bind_var ''i'' k fr))) [0..<length xs] (frm m env buf) =
    Done (frm (m(f \<mapsto> VSeq xs)) env buf)"
  proof (rule fill_loop [where ys = ys])
    fix k ws m' assume k: "k < length xs" and ws: "length ws = length xs" "m' f = Some (VSeq ws)"
    let ?env = "(''off'', unat off + k * fixed_len t) # (''i'', k) # env"
    have "holds buf (unat off + k * fixed_len t) (serialize t (xs ! k))"
      by (rule holds_concat_nth [OF buf _ k]) (use ok fixed serialize_fixed_len in blast)
    then have "dexecs C (elem_stmts (ssz_type e) (LElem f ''i'')) (frm m' ?env buf) =
        Done (frm (m'(f \<mapsto> VSeq (ws[k := xs ! k]))) ?env buf)"
      by (intro elem_exec [OF e]) (use ok k ws in auto)
    then show "go_map (end_block (frm m' env buf)) (dexecs C
        (DDecl ''off'' (IAddB (at32 off) (IMul (IVar ''i'') (INum (fixed_len t)))) #
         elem_stmts (ssz_type e) (LElem f ''i'')) (bind_var ''i'' k (frm m' env buf))) =
        Done (frm (m'(f \<mapsto> VSeq (ws[k := xs ! k]))) env buf)"
      by (simp add: end_block_def)
  qed (rule m)+
  then show ?thesis by simp
qed

lemma call_exec:
  assumes "unmarshals P st C" and "info_rep st i (TContainer nm fs)" and "fields_bits_ok fs"
    and "size_ok (TContainer nm fs)" and "fields_decodable fs" and "val_ok (TContainer nm fs) v"
    and "get_lval (frm m env buf) l = Some v0" and "fresh (TContainer nm fs) v0"
    and "(case r of None \<Rightarrow> Some buf | Some (a, b) \<Rightarrow> eval_range (frm m env buf) a b) = Some s"
    and "slice_ok s" and "slice_bytes s = serialize (TContainer nm fs) v" and "snd s < 2 ^ 32"
    and "set_lval (frm m env buf) l v = Some fr'"
  shows "dexec C (DCall l (info_struct_name P dflt i) r) (frm m env buf) = Done fr'"
proof -
  from unmarshals_info [OF assms(1-5)] have nm: "info_struct_name P dflt i = nm"
    and "decodes C nm fs" .
  from decodes_val [OF this(2) assms(6,8,10-12)] have "call_unmarshal C nm v0 s = Done v" .
  with nm assms(7,9,13) show ?thesis by (cases r) auto
qed

lemma decode_exec:
  assumes C: "unmarshals P st C" and rep: "info_rep st i t" and flat: "flat_ty t"
    and fixed: "\<not> is_variable t" and bits: "bits_ok t" and size: "size_ok t" and dec: "decodable t"
    and ok: "val_ok t v" and fit: "unat off + fixed_len t < 2 ^ 32"
    and m: "m f = Some v0" and fresh: "fresh t v0" and buf: "holds buf (unat off) (serialize t v)"
  shows "dexecs C (decode_stmts P i f off) (frm m env buf) = Done (frm (m(f \<mapsto> v)) env buf)"
proof -
  have len: "length (serialize t v) = fixed_len t" using serialize_fixed_len [OF fixed ok] .
  have fs: "fixed_size i = of_nat (fixed_len t)" using info_rep_fixed [OF rep fixed] .
  have off: "unat (off + fixed_size i) = unat off + fixed_len t" using unat_offset [OF fit] fs by simp
  show ?thesis
  proof (cases t)
    case TBool
    with ok obtain b where v: "v = VBool b" by auto
    have "dexecs C (bool_stmts (LMember f) (at32 off)) (frm m env buf) = Done (frm (m(f \<mapsto> v)) env buf)"
      by (rule bool_exec [where b = b]) (use TBool v m buf in auto)
    with TBool rep show ?thesis by (simp add: decode_stmts_def Let_def)
  next
    case (TUint k)
    with ok obtain n where v: "v = VUint n" "n < 256 ^ k" by auto
    have set: "dexec C (DSetUint (LMember f) (8 * k) (at32 off) (INum (unat off + k))) (frm m env buf) =
        Done (frm (m(f \<mapsto> v)) env buf)"
      by (rule uint_exec [where pos = "unat off" and n = n]) (use m buf v TUint in auto)
    from TUint flat rep consider "k = 1" "ssz_type i = SszUint8" | "k = 2" "ssz_type i = SszUint16"
      | "k = 4" "ssz_type i = SszUint32" | "k = 8" "ssz_type i = SszUint64"
      by (auto split: if_splits)
    then show ?thesis
    proof cases
      case 1
      with buf TUint v have "holds buf (unat off) [of_nat n]" by simp
      from holds_byte [OF this] 1 v m TUint show ?thesis
        by (simp add: decode_stmts_def unat_of_nat Let_def)
    qed (use set off TUint fs in \<open>simp_all add: decode_stmts_def Let_def del: dexec.simps\<close>)
  next
    case (TVector t' n)
    with rep obtain e where e: "elem_info i = Some e" "info_rep st e t'"
      and lim: "info_limit i = of_nat n" "n < 2 ^ 16" by auto
    from lim have n: "unat (info_limit i) = n" by (simp add: unat_of_nat)
    from flat TVector have fl: "flat_elem t'" by simp
    from e(2) fl show ?thesis
    proof (cases rule: flat_elem_cases)
      case byte
      with ok TVector obtain bs where v: "v = VBytes bs" "length bs = n" by auto
      from fresh byte TVector obtain old where old: "v0 = VBytes old" "length old = n" by auto
      have "dexec C (DCopyArray (LMember f) (at32 off) (at32 (off + fixed_size i))) (frm m env buf) =
          Done (frm (m(f \<mapsto> VBytes bs)) env buf)"
        by (rule copy_exec [where pos = "unat off" and old = old])
          (use m v old buf len off TVector byte in \<open>auto simp: is_byte_ty_def\<close>)
      with TVector rep e byte v show ?thesis
        by (simp add: decode_stmts_def array_stmts_def elem_rep_simps Let_def)
    next
      case prim
      with ok TVector obtain xs where v: "v = VSeq xs" "length xs = n" "\<forall>x \<in> set xs. val_ok t' x" by auto
      from fresh prim TVector obtain ys where ys: "v0 = VSeq ys" "length ys = n" by auto
      have small: "unat (fixed_size e) = fixed_len t'"
        using e(2) prim(2) fl by (auto split: if_splits)
      have "holds buf (unat off) (concat (map (serialize t') xs))"
        using buf TVector v fixed by simp
      from prim_vector_exec [OF e(2) fl prim(1,2) v(3) _ _ this] m ys v
      have "dexec C (DForArray (LMember f) n
          (DDecl ''off'' (IAddB (at32 off) (IMul (IVar ''i'') (INum (fixed_len t')))) #
           elem_stmts (ssz_type e) (LElem f ''i''))) (frm m env buf) =
          Done (frm (m(f \<mapsto> v)) env buf)" by simp
      with TVector rep e prim n small show ?thesis
        by (simp add: decode_stmts_def array_stmts_def elem_rep_simps Let_def del: dexec.simps)
    next
      case (cont nm fs)
      with dec TVector show ?thesis by simp
    next
      case (bytes l)
      with fixed TVector show ?thesis by simp
    qed
  next
    case (TBitvector n)
    with ok obtain bs where v: "v = VBytes bs" "length bs = (n + 7) div 8" by auto
    from fresh TBitvector obtain old where old: "v0 = VBytes old" "length old = (n + 7) div 8" by auto
    have "dexec C (DCopyArray (LMember f) (at32 off) (at32 (off + fixed_size i))) (frm m env buf) =
        Done (frm (m(f \<mapsto> VBytes bs)) env buf)"
      by (rule copy_exec [where pos = "unat off" and old = old]) (use m v old buf off TBitvector in auto)
    with TBitvector rep v show ?thesis by (simp add: decode_stmts_def Let_def)
  next
    case (TContainer nm fs)
    from holds_range [OF buf] obtain s where s: "slice_range buf (unat off) (unat off + length (serialize t v)) = Some s"
      "slice_ok s" "slice_bytes s = serialize t v" "snd s = length (serialize t v)" .
    have "dexec C (DCall (LMember f) (info_struct_name P '''' i)
        (Some (at32 off, at32 (off + fixed_size i)))) (frm m env buf) = Done (frm (m(f \<mapsto> v)) env buf)"
      by (rule call_exec [OF C, of i nm fs v])
        (use TContainer rep bits size dec ok m fresh s len off fit in \<open>auto simp: eval_range_def\<close>)
    with TContainer rep show ?thesis by (simp add: decode_stmts_def Let_def del: dexec.simps)
  qed (use fixed in auto)
qed

end
