(* ===== verification/Go_Decode_Lists.thy ===== *)
theory Go_Decode_Lists
  imports Go_Decode_Fields
begin

text \<open>
  The dynamic fields of the emitted \<open>UnmarshalSSZ\<close>: with \<open>buf\<close> cut to the serialization of a
  value, the statements store the value in the member.
\<close>

section \<open>Lists of fixed-size elements\<close>

lemma fixed_list_exec:
  assumes k: "unat k = n" "0 < n" and len: "snd buf = length xs * n"
    and make: "make_val (zero_struct C) t (length xs) = Some (VSeq zs)" "length zs = length xs"
    and m: "m f = Some v0"
    and step: "\<And>j ws m'. j < length xs \<Longrightarrow> length ws = length xs \<Longrightarrow> m' f = Some (VSeq ws) \<Longrightarrow>
      \<exists>pre. dexecs C ss (frm m' ((''i'', j) # (''count'', length xs) # env) buf) =
        Done (frm (m'(f \<mapsto> VSeq (ws[j := xs ! j]))) (pre @ (''i'', j) # (''count'', length xs) # env) buf)"
  shows "dexecs C (fixed_list_stmts f t k ss) (frm m env buf) =
    Done (frm (m(f \<mapsto> VSeq xs)) ((''count'', length xs) # env) buf)"
proof -
  let ?env = "(''count'', length xs) # env"
  have "go_fold (\<lambda>j fr. go_map (end_block fr) (dexecs C ss (bind_var ''i'' j fr))) [0..<length xs]
      (frm (m(f \<mapsto> VSeq zs)) ?env buf) = Done (frm (m(f \<mapsto> VSeq zs, f \<mapsto> VSeq xs)) ?env buf)"
  proof (rule fill_loop [where ys = zs])
    fix j ws m' assume j: "j < length xs" and ws: "length ws = length xs" "m' f = Some (VSeq ws)"
    from step [OF j ws(1), of m'] ws(2) obtain pre where "dexecs C ss (frm m' ((''i'', j) # ?env) buf) =
      Done (frm (m'(f \<mapsto> VSeq (ws[j := xs ! j]))) (pre @ (''i'', j) # ?env) buf)" by blast
    then show "go_map (end_block (frm m' ?env buf)) (dexecs C ss (bind_var ''i'' j (frm m' ?env buf))) =
        Done (frm (m'(f \<mapsto> VSeq (ws[j := xs ! j]))) ?env buf)"
      by (simp add: end_block_def)
  qed (simp_all add: make(2))
  with k len make(1) m show ?thesis by (simp add: fixed_list_stmts_def)
qed

lemma holds_elem:
  assumes whole: "holds buf 0 (concat (map (serialize t) xs))" and fixed: "\<not> is_variable t"
    and ok: "\<forall>x \<in> set xs. val_ok t x" and j: "j < length xs"
  shows "holds buf (j * fixed_len t) (serialize t (xs ! j))"
    and "length (serialize t (xs ! j)) = fixed_len t"
proof -
  have len: "length (serialize t x) = fixed_len t" if "x \<in> set xs" for x
    using that ok fixed serialize_fixed_len by blast
  from holds_concat_nth [OF whole len j] show "holds buf (j * fixed_len t) (serialize t (xs ! j))"
    by simp
  from len j show "length (serialize t (xs ! j)) = fixed_len t" by simp
qed

lemma prim_list_exec:
  assumes e: "info_rep st e t" "flat_elem t" "\<not> is_byte_ty t" "t = TBool \<or> (\<exists>k. t = TUint k)"
    and ok: "\<forall>x \<in> set xs. val_ok t x" and buf: "holds buf 0 (concat (map (serialize t) xs))"
    and len: "snd buf = length xs * fixed_len t" and m: "m f = Some v0"
  shows "dexecs C (fixed_list_stmts f (GySlice z) (fixed_size e)
      (DDecl ''off'' (IMulB (IVar ''i'') (at32 (fixed_size e))) #
       elem_stmts (ssz_type e) (LElem f ''i''))) (frm m env buf) =
    Done (frm (m(f \<mapsto> VSeq xs)) ((''count'', length xs) # env) buf)"
proof -
  have k: "unat (fixed_size e) = fixed_len t" "0 < fixed_len t" and fixed: "\<not> is_variable t"
    using e by (auto split: if_splits)
  show ?thesis
  proof (rule fixed_list_exec [OF k len, where zs = "replicate (length xs) (zero_val (zero_struct C) z)"])
    fix j ws m' assume j: "j < length xs" and ws: "length ws = length xs" "m' f = Some (VSeq ws)"
    let ?env = "(''i'', j) # (''count'', length xs) # env"
    have "dexecs C (elem_stmts (ssz_type e) (LElem f ''i''))
        (frm m' ((''off'', j * fixed_len t) # ?env) buf) =
        Done (frm (m'(f \<mapsto> VSeq (ws[j := xs ! j]))) ((''off'', j * fixed_len t) # ?env) buf)"
      by (rule elem_exec [OF e]) (use holds_elem [OF buf fixed ok j] ok j ws in auto)
    with k(1) have "dexecs C (DDecl ''off'' (IMulB (IVar ''i'') (at32 (fixed_size e))) #
        elem_stmts (ssz_type e) (LElem f ''i'')) (frm m' ?env buf) =
        Done (frm (m'(f \<mapsto> VSeq (ws[j := xs ! j]))) ([(''off'', j * fixed_len t)] @ ?env) buf)"
      by simp
    then show "\<exists>pre. dexecs C (DDecl ''off'' (IMulB (IVar ''i'') (at32 (fixed_size e))) #
        elem_stmts (ssz_type e) (LElem f ''i'')) (frm m' ?env buf) =
        Done (frm (m'(f \<mapsto> VSeq (ws[j := xs ! j]))) (pre @ ?env) buf)" by blast
  qed (use m in simp_all)
qed

text \<open>An element that is allocated and then decoded from a range of the buffer.\<close>

lemma new_call_exec:
  assumes C: "unmarshals P st C" and e: "info_rep st e (TContainer nm fs)" and bits: "fields_bits_ok fs"
    and size: "size_ok (TContainer nm fs)" and dec: "fields_decodable fs"
    and v: "val_ok (TContainer nm fs) v" and ws: "m f = Some (VSeq ws)" "j < length ws"
    and i: "map_of env ''i'' = Some j" "map_of env' ''i'' = Some j"
    and rng: "\<And>m. eval_int (frm m env' buf) a = Some lo"
      "\<And>m. eval_int (frm m env' buf) b = Some (lo + length (serialize (TContainer nm fs) v))"
    and buf: "holds buf lo (serialize (TContainer nm fs) v)" "snd buf < 2 ^ 32"
  shows "\<exists>m1. dexec C (DNew (LElem f ''i'') (info_struct_name P '''' e)) (frm m env buf) = Done (frm m1 env buf) \<and>
    dexec C (DCall (LElem f ''i'') (info_struct_name P '''' e) (Some (a, b))) (frm m1 env' buf) =
      Done (frm (m(f \<mapsto> VSeq (ws[j := v]))) env' buf)"
proof -
  let ?m1 = "m(f \<mapsto> VSeq (ws[j := zero_struct C nm]))"
  from unmarshals_info [OF C e bits size dec] have nm: "info_struct_name P '''' e = nm"
    and d: "decodes C nm fs" .
  have new: "dexec C (DNew (LElem f ''i'') (info_struct_name P '''' e)) (frm m env buf) =
      Done (frm ?m1 env buf)" using nm ws i by simp
  from holds_range [OF buf(1)] obtain s where
    s: "slice_range buf lo (lo + length (serialize (TContainer nm fs) v)) = Some s" "slice_ok s"
    "slice_bytes s = serialize (TContainer nm fs) v" "snd s = length (serialize (TContainer nm fs) v)" .
  have small: "snd s < 2 ^ 32" using buf s(4) by (simp add: holds_def)
  have "fresh (TContainer nm fs) (zero_struct C nm)" using d by (simp add: decodes_def)
  from call_exec [OF C e bits size dec v _ this _ s(2,3) small,
      where r = "Some (a, b)" and l = "LElem f ''i''" and m = ?m1 and env = env' and buf = buf]
  have "dexec C (DCall (LElem f ''i'') (info_struct_name P '''' e) (Some (a, b))) (frm ?m1 env' buf) =
      Done (frm (m(f \<mapsto> VSeq (ws[j := v]))) env' buf)"
    using ws i rng s(1) by (simp add: eval_range_def)
  with new show ?thesis by blast
qed

lemma struct_list_exec:
  assumes C: "unmarshals P st C" and e: "info_rep st e (TContainer nm fs)" and bits: "fields_bits_ok fs"
    and size: "size_ok (TContainer nm fs)" and dec: "fields_decodable fs"
    and fixed: "\<not> any_variable fs" and pos: "0 < fields_len fs" "fields_len fs < 2 ^ 32"
    and ok: "\<forall>x \<in> set xs. val_ok (TContainer nm fs) x"
    and buf: "holds buf 0 (concat (map (serialize (TContainer nm fs)) xs))"
    and len: "snd buf = length xs * fields_len fs" "snd buf < 2 ^ 32" and m: "m f = Some v0"
  shows "dexecs C (fixed_list_stmts f (GySlice z) (fixed_size e)
      [DNew (LElem f ''i'') (info_struct_name P '''' e),
       DDecl ''off'' (IMulB (IVar ''i'') (at32 (fixed_size e))),
       DCall (LElem f ''i'') (info_struct_name P '''' e)
         (Some (IVar ''off'', IAdd (IVar ''off'') (at32 (fixed_size e))))]) (frm m env buf) =
    Done (frm (m(f \<mapsto> VSeq xs)) ((''count'', length xs) # env) buf)"
proof -
  let ?t = "TContainer nm fs" and ?k = "fields_len fs"
  have k: "unat (fixed_size e) = ?k"
    using unat_fixed_size [OF e] fixed pos(2) by simp
  have fx: "\<not> is_variable ?t" using fixed by simp
  show ?thesis
  proof (rule fixed_list_exec [OF k pos(1) len(1), where zs = "replicate (length xs) (zero_val (zero_struct C) z)"])
    fix j ws m' assume j: "j < length xs" and ws: "length ws = length xs" "m' f = Some (VSeq ws)"
    let ?env = "(''i'', j) # (''count'', length xs) # env" and ?off = "(''off'', j * ?k)"
    let ?m2 = "m'(f \<mapsto> VSeq (ws[j := xs ! j]))"
    let ?new = "DNew (LElem f ''i'') (info_struct_name P '''' e)"
    let ?call = "DCall (LElem f ''i'') (info_struct_name P '''' e)
      (Some (IVar ''off'', IAdd (IVar ''off'') (at32 (fixed_size e))))"
    from ok j have v: "val_ok ?t (xs ! j)" by (simp del: val_ok.simps)
    from holds_elem [OF buf fx ok j] have h: "holds buf (j * ?k) (serialize ?t (xs ! j))"
      "length (serialize ?t (xs ! j)) = ?k" by (simp_all del: serialize.simps)
    have "\<exists>m1. dexec C ?new (frm m' ?env buf) = Done (frm m1 ?env buf) \<and>
        dexec C ?call (frm m1 (?off # ?env) buf) = Done (frm ?m2 (?off # ?env) buf)"
      by (rule new_call_exec [OF C e bits size dec v, where ws = ws and j = j])
        (use j ws h k len in \<open>auto simp del: serialize.simps\<close>)
    then have "dexecs C [?new, DDecl ''off'' (IMulB (IVar ''i'') (at32 (fixed_size e))), ?call]
        (frm m' ?env buf) = Done (frm ?m2 ([?off] @ ?env) buf)"
      using k by (auto simp del: dexec.simps simp add: dexec.simps(3))
    then show "\<exists>pre. dexecs C [?new, DDecl ''off'' (IMulB (IVar ''i'') (at32 (fixed_size e))), ?call]
        (frm m' ?env buf) = Done (frm ?m2 (pre @ ?env) buf)" by blast
  qed (use m in simp_all)
qed

section \<open>Lists with offsets\<close>

lemma heads_append: "heads off (ps @ qs) = heads off ps @ heads (off + length (tails ps)) qs"
  by (induction off ps rule: heads.induct) (auto simp: add.assoc)

text \<open>Where the \<open>k\<close>-th element starts, and where the last one ends.\<close>

definition elem_start :: "('a \<Rightarrow> byte list) \<Rightarrow> 'a list \<Rightarrow> nat \<Rightarrow> nat" where
  "elem_start g xs k = 4 * length xs + length (concat (map g (take k xs)))"

lemma elem_start_Suc: "k < length xs \<Longrightarrow> elem_start g xs (Suc k) = elem_start g xs k + length (g (xs ! k))"
  by (simp add: elem_start_def take_Suc_conv_app_nth)

lemma offsets_split:
  assumes "k < length xs"
  shows "ser_parts (map (\<lambda>x. (True, g x)) xs) =
    heads (4 * length xs) (map (\<lambda>x. (True, g x)) (take k xs)) @
    le_bytes 4 (elem_start g xs k) @
    heads (elem_start g xs (Suc k)) (map (\<lambda>x. (True, g x)) (drop (Suc k) xs)) @
    concat (map g (take k xs)) @ g (xs ! k) @ concat (map g (drop (Suc k) xs))"
proof -
  let ?p = "\<lambda>x. (True, g x)"
  have "ser_parts (map ?p xs) = heads (4 * length xs) (map ?p xs) @ concat (map g xs)"
    by (simp add: ser_parts_def heads_all_True tails_all_True)
  moreover have "map ?p xs = map ?p (take k xs) @ ?p (xs ! k) # map ?p (drop (Suc k) xs)"
    by (metis assms id_take_nth_drop list.simps(9) map_append)
  moreover have "concat (map g xs) = concat (map g (take k xs)) @ g (xs ! k) @ concat (map g (drop (Suc k) xs))"
    by (metis assms concat.simps(2) concat_append id_take_nth_drop list.simps(9) map_append)
  ultimately show ?thesis
    using elem_start_Suc [OF assms, of g]
    by (simp add: heads_append tails_all_True elem_start_def add.assoc)
qed

lemma offsets_hold:
  assumes buf: "holds buf 0 (ser_parts (map (\<lambda>x. (True, g x)) xs))"
    and len: "snd buf = length (ser_parts (map (\<lambda>x. (True, g x)) xs))"
  shows "k < length xs \<Longrightarrow> holds buf (4 * k) (le_bytes 4 (elem_start g xs k))"
    and "k < length xs \<Longrightarrow> holds buf (elem_start g xs k) (g (xs ! k))"
    and "k \<le> length xs \<Longrightarrow> elem_start g xs k \<le> snd buf"
    and "elem_start g xs (length xs) = snd buf"
proof -
  show "k < length xs \<Longrightarrow> holds buf (4 * k) (le_bytes 4 (elem_start g xs k))"
    using buf offsets_split [of k xs g] by (simp add: holds_append heads_all_True)
  show "k < length xs \<Longrightarrow> holds buf (elem_start g xs k) (g (xs ! k))"
    using buf offsets_split [of k xs g]
    by (simp add: holds_append heads_all_True elem_start_def algebra_simps)
  show all: "elem_start g xs (length xs) = snd buf"
    using len by (simp add: elem_start_def length_ser_list length_concat comp_def)
  show "k \<le> length xs \<Longrightarrow> elem_start g xs k \<le> snd buf"
    unfolding all [symmetric] elem_start_def by (simp add: length_concat)
      (metis append_take_drop_id le_add1 map_append sum_list_append)
qed

lemma offset_at_exec:
  assumes "eval_int (frm m env buf) e = Some k" and "holds buf (4 * k) (le_bytes 4 n)" and "n < 2 ^ 32"
  shows "eval_int (frm m env buf) (offset_at e) = Some n"
  using holds_uint [OF assms(2)] assms(1,3) by (simp add: offset_at_def mult.commute)

lemma offset_elem_exec:
  assumes buf: "holds buf 0 (ser_parts (map (\<lambda>x. (True, g x)) xs))"
    and len: "snd buf = length (ser_parts (map (\<lambda>x. (True, g x)) xs))" "snd buf < 2 ^ 32"
    and k: "k < length xs" "map_of env ''i'' = Some k" "map_of env ''count'' = Some (length xs)"
  shows "dexecs C (offset_elem ss) (frm m env buf) =
    dexecs C ss (frm m ((''end'', elem_start g xs (Suc k)) # (''start'', elem_start g xs k) # env) buf)"
proof -
  note h = offsets_hold [OF buf len(1)]
  let ?s = "elem_start g xs k" and ?e = "elem_start g xs (Suc k)"
  let ?env1 = "(''end'', 0) # (''start'', ?s) # env" and ?env2 = "(''end'', ?e) # (''start'', ?s) # env"
  have le: "?s \<le> ?e" "?e \<le> snd buf" "?s < 2 ^ 32" "?e < 2 ^ 32"
    using h(3) [of k] h(3) [of "Suc k"] k(1) len(2) elem_start_Suc [OF k(1), of g] by auto
  have start: "eval_int (frm m env buf) (offset_at (IVar ''i'')) = Some ?s"
    by (rule offset_at_exec [OF _ h(1) [OF k(1)] le(3)]) (simp add: k)
  have next_off: "dexec C (DAssign ''end'' (offset_at (IPar (IAdd (IVar ''i'') (INum 1))))) (frm m ?env1 buf) =
      Done (frm m ?env2 buf)" if "Suc k < length xs"
  proof -
    have "eval_int (frm m ?env1 buf) (offset_at (IPar (IAdd (IVar ''i'') (INum 1)))) = Some ?e"
      by (rule offset_at_exec [OF _ h(1) [OF that] le(4)]) (simp add: k)
    then show ?thesis by simp
  qed
  have "dexec C (DIfElse (BLt (IAdd (IVar ''i'') (INum 1)) (IVar ''count''))
      [DAssign ''end'' (offset_at (IPar (IAdd (IVar ''i'') (INum 1))))]
      [DAssign ''end'' ILen]) (frm m ?env1 buf) = Done (frm m ?env2 buf)"
  proof (cases "Suc k < length xs")
    case True
    with next_off k show ?thesis by (simp del: dexec.simps(5))
  next
    case False
    with k have "Suc k = length xs" by simp
    with h(4) k show ?thesis by simp
  qed
  with start le show ?thesis
    by (simp add: offset_elem_def del: dexec.simps(5,6))
qed

lemma offset_loop_exec:
  assumes buf: "holds buf 0 (ser_parts (map (\<lambda>x. (True, g x)) xs))"
    and len: "snd buf = length (ser_parts (map (\<lambda>x. (True, g x)) xs))" "snd buf < 2 ^ 32"
    and m: "m f = Some (VSeq [])"
    and step: "\<And>k ws m' env'. k < length xs \<Longrightarrow> length ws = length xs \<Longrightarrow> m' f = Some (VSeq ws) \<Longrightarrow>
      map_of env' ''i'' = Some k \<Longrightarrow> map_of env' ''start'' = Some (elem_start g xs k) \<Longrightarrow>
      map_of env' ''end'' = Some (elem_start g xs (Suc k)) \<Longrightarrow>
      dexecs C ss (frm m' env' buf) = Done (frm (m'(f \<mapsto> VSeq (ws[k := xs ! k]))) env' buf)"
  shows "dexecs C (offset_loop f (GySlice z) ss) (frm m env buf) =
    Done (frm (m(f \<mapsto> VSeq xs)) env buf)"
proof (cases "xs = []")
  case True
  with len have "snd buf = 0" by (simp add: ser_parts_def)
  moreover have "m(f \<mapsto> VSeq xs) = m" using m True by auto
  ultimately show ?thesis by (simp add: offset_loop_def)
next
  case False
  then have n: "0 < length xs" by simp
  note h = offsets_hold [OF buf len(1)]
  let ?E = "(''count'', length xs) # (''firstOff'', 4 * length xs) # env"
  let ?zs = "replicate (length xs) (zero_val (zero_struct C) z)"
  have first: "elem_start g xs 0 = 4 * length xs" by (simp add: elem_start_def)
  have small: "4 * length xs < 2 ^ 32" "4 * length xs \<le> snd buf"
    using h(3) [of 0] first len(2) by simp_all
  have "holds buf 0 (le_bytes 4 (4 * length xs))" using h(1) [OF n] first by simp
  from holds_uint [OF this] small
  have off0: "Option.bind (slice_range buf 0 4) (slice_uint 4) = Some (4 * length xs)" by simp
  have "go_fold (\<lambda>k fr. go_map (end_block fr) (dexecs C (offset_elem ss) (bind_var ''i'' k fr)))
      [0..<length xs] (frm (m(f \<mapsto> VSeq ?zs)) ?E buf) =
    Done (frm (m(f \<mapsto> VSeq ?zs, f \<mapsto> VSeq xs)) ?E buf)"
  proof (rule fill_loop [where ys = ?zs])
    fix k ws m' assume k: "k < length xs" and ws: "length ws = length xs" "m' f = Some (VSeq ws)"
    have "dexecs C (offset_elem ss) (frm m' ((''i'', k) # ?E) buf) =
        Done (frm (m'(f \<mapsto> VSeq (ws[k := xs ! k])))
          ((''end'', elem_start g xs (Suc k)) # (''start'', elem_start g xs k) # (''i'', k) # ?E) buf)"
      by (subst offset_elem_exec [OF buf len k]) (auto intro: step k ws)
    then show "go_map (end_block (frm m' ?E buf))
        (dexecs C (offset_elem ss) (bind_var ''i'' k (frm m' ?E buf))) =
        Done (frm (m'(f \<mapsto> VSeq (ws[k := xs ! k]))) ?E buf)"
      by (simp add: end_block_def)
  qed simp_all
  moreover have "0 < snd buf" using n small(2) by linarith
  ultimately show ?thesis using off0 small m
    by (simp add: offset_loop_def end_block_def)
qed

section \<open>Dynamic fields\<close>

lemma copy_all_exec:
  assumes "slice_ok buf" and "m f = Some v0"
  shows "dexecs C (copy_all_stmts f) (frm m env buf) = Done (frm (m(f \<mapsto> VBytes (slice_bytes buf))) env buf)"
proof -
  have "length (slice_bytes buf) = snd buf" using assms(1) by (simp add: slice_bytes_def slice_ok_def)
  with assms show ?thesis by (simp add: copy_all_stmts_def copy_into_def copy_bytes_def)
qed

lemma list_gty_slice:
  assumes "elem_info i = Some e" and "ssz_type e \<noteq> SszUint8" and "ssz_type i \<in> {SszList, SszProgressiveList}"
    and "base_type (field_type field) \<noteq> BASE_TYPE_STRING"
  shows "field_gty P i field = GySlice (elem_gty P e)"
  using assms by (auto simp: field_gty_def list_gty_def)

text \<open>The condition on the declared type: a string is a list of bytes.\<close>

lemma decode_list_exec:
  assumes C: "unmarshals P st C" and i: "ssz_type i \<in> {SszList, SszProgressiveList}"
    and e: "elem_info i = Some e" "info_rep st e t" and fl: "flat_elem t"
    and bits: "bits_ok t" and size: "size_ok t" "is_variable t \<or> fixed_len t < 2 ^ 32"
    and dec: "decodable t" "is_variable t \<or> 0 < fixed_len t"
    and str: "base_type (field_type field) = BASE_TYPE_STRING \<longrightarrow> is_byte_ty t"
    and ok: "if is_byte_ty t then \<exists>bs. v = VBytes bs
      else \<exists>xs. v = VSeq xs \<and> (\<forall>x \<in> set xs. val_ok t x)"
    and m: "m f = Some old" and fresh: "\<not> is_byte_ty t \<longrightarrow> old = VSeq []"
    and buf: "slice_ok buf" "snd buf < 2 ^ 32"
      "slice_bytes buf = (case v of VBytes bs \<Rightarrow> bs
        | VSeq xs \<Rightarrow> ser_parts (map (\<lambda>x. (is_variable t, serialize t x)) xs) | _ \<Rightarrow> [])"
  shows "\<exists>pre. dexecs C (decode_list P i f field) (frm m env buf) = Done (frm (m(f \<mapsto> v)) (pre @ env) buf)"
proof -
  from holds_whole [OF buf(1,3)] have h: "holds buf 0 (slice_bytes buf)" "snd buf = length (slice_bytes buf)"
    using buf(3) by simp_all
  from e(2) fl show ?thesis
  proof (cases rule: flat_elem_cases)
    case byte
    with ok obtain bs where v: "v = VBytes bs" by auto
    from copy_all_exec [of buf m f old C env] buf v m
    have "dexecs C (copy_all_stmts f) (frm m env buf) = Done (frm (m(f \<mapsto> v)) ([] @ env) buf)" by simp
    moreover have "decode_list P i f field = copy_all_stmts f"
      using byte e by (simp add: decode_list_def elem_rep_simps)
    ultimately show ?thesis by metis
  next
    case prim
    with ok obtain xs where v: "v = VSeq xs" "\<forall>x \<in> set xs. val_ok t x" by auto
    have fixed: "\<not> is_variable t" using prim by auto
    have ser: "slice_bytes buf = concat (map (serialize t) xs)" using buf(3) v fixed by simp
    have len: "snd buf = length xs * fixed_len t"
      using h(2) buf(3) v length_ser_fixed [OF fixed v(2)] by simp
    have ty: "field_gty P i field = GySlice (elem_gty P e)"
      by (rule list_gty_slice [OF e(1) _ i]) (use prim str in auto)
    have "dexecs C (decode_list P i f field) (frm m env buf) =
        Done (frm (m(f \<mapsto> v)) ([(''count'', length xs)] @ env) buf)"
      using prim_list_exec [where m = m and f = f, OF e(2) fl prim(1,2) v(2) h(1) [unfolded ser] len m] prim e ty v
      by (simp add: decode_list_def elem_rep_simps Let_def)
    then show ?thesis by blast
  next
    case (cont nm fs)
    with ok obtain xs where v: "v = VSeq xs" "\<forall>x \<in> set xs. val_ok t x" by (auto simp: is_byte_ty_def)
    have ty: "field_gty P i field = GySlice (elem_gty P e)"
      by (rule list_gty_slice [OF e(1) _ i]) (use cont str in \<open>auto simp: is_byte_ty_def\<close>)
    from cont bits size(1) dec(1) have c: "fields_bits_ok fs" "size_ok (TContainer nm fs)" "fields_decodable fs"
      by simp_all
    have m0: "m f = Some (VSeq [])" using m fresh cont by (simp add: is_byte_ty_def)
    show ?thesis
    proof (cases "is_variable t")
      case False
      have ser: "slice_bytes buf = concat (map (serialize t) xs)" using buf(3) v False by simp
      have len: "snd buf = length xs * fixed_len t"
        using h(2) buf(3) v length_ser_fixed [OF False v(2)] by simp
      from struct_list_exec [where m = m and f = f, OF C e(2) [unfolded cont(1)] c _ _ _ v(2) [unfolded cont(1)]
          h(1) [unfolded ser cont(1)] _ buf(2) m, of "elem_gty P e" env] False size(2) dec(2) len cont(1)
      have "dexecs C (decode_list P i f field) (frm m env buf) =
          Done (frm (m(f \<mapsto> v)) ([(''count'', length xs)] @ env) buf)"
        using cont e ty v info_rep_dynamic [OF e(2)]
        by (simp add: decode_list_def elem_rep_simps Let_def del: dexecs.simps)
      then show ?thesis by blast
    next
      case True
      have ser: "slice_bytes buf = ser_parts (map (\<lambda>x. (True, serialize t x)) xs)"
        using buf(3) v True by simp
      have "dexecs C (offset_loop f (GySlice (elem_gty P e))
          [DNew (LElem f ''i'') (info_struct_name P '''' e),
           DCall (LElem f ''i'') (info_struct_name P '''' e) (Some (IVar ''start'', IVar ''end''))])
          (frm m env buf) = Done (frm (m(f \<mapsto> VSeq xs)) env buf)"
      proof (rule offset_loop_exec [where m = m and f = f and g = "serialize t", OF h(1) [unfolded ser] _ buf(2) m0])
        show "snd buf = length (ser_parts (map (\<lambda>x. (True, serialize t x)) xs))"
          using h(2) ser by simp
        note parts = offsets_hold [OF h(1) [unfolded ser] this]
        fix k ws m' env'
        assume k: "k < length xs" and ws: "length ws = length xs" "m' f = Some (VSeq ws)"
          and env: "map_of env' ''i'' = Some k" "map_of env' ''start'' = Some (elem_start (serialize t) xs k)"
            "map_of env' ''end'' = Some (elem_start (serialize t) xs (Suc k))"
        have x: "val_ok (TContainer nm fs) (xs ! k)" using v(2) k cont(1) by auto
        have "\<exists>m1. dexec C (DNew (LElem f ''i'') (info_struct_name P '''' e)) (frm m' env' buf) =
            Done (frm m1 env' buf) \<and>
          dexec C (DCall (LElem f ''i'') (info_struct_name P '''' e) (Some (IVar ''start'', IVar ''end'')))
            (frm m1 env' buf) = Done (frm (m'(f \<mapsto> VSeq (ws[k := xs ! k]))) env' buf)"
          by (rule new_call_exec [OF C e(2) [unfolded cont(1)] c x, where ws = ws and j = k])
            (use k ws env parts(2) [OF k] elem_start_Suc [OF k, of "serialize t"] buf(2) cont(1) in
              \<open>auto simp del: serialize.simps\<close>)
        then show "dexecs C [DNew (LElem f ''i'') (info_struct_name P '''' e),
            DCall (LElem f ''i'') (info_struct_name P '''' e) (Some (IVar ''start'', IVar ''end''))]
            (frm m' env' buf) = Done (frm (m'(f \<mapsto> VSeq (ws[k := xs ! k]))) env' buf)"
          by (auto simp del: dexec.simps)
      qed
      then have "dexecs C (decode_list P i f field) (frm m env buf) = Done (frm (m(f \<mapsto> v)) ([] @ env) buf)"
        using cont e ty v True info_rep_dynamic [OF e(2)]
        by (simp add: decode_list_def elem_rep_simps Let_def del: dexecs.simps)
      then show ?thesis by blast
    qed
  next
    case (bytes l)
    with ok obtain xs where v: "v = VSeq xs" "\<forall>x \<in> set xs. val_ok t x" by (auto simp: is_byte_ty_def)
    have m0: "m f = Some (VSeq [])" using m fresh bytes by (simp add: is_byte_ty_def)
    have ser: "slice_bytes buf = ser_parts (map (\<lambda>x. (True, serialize t x)) xs)"
      using buf(3) v bytes by simp
    let ?ss = "[DMake (LElem f ''i'') GyBytes (ISub (IVar ''end'') (IVar ''start'')),
      DCopyRange (LElem f ''i'') (IVar ''start'') (IVar ''end'')]"
    have "dexecs C (offset_loop f (GySlice GyBytes) ?ss) (frm m env buf) =
        Done (frm (m(f \<mapsto> VSeq xs)) env buf)"
    proof (rule offset_loop_exec [where m = m and f = f and g = "serialize t", OF h(1) [unfolded ser] _ buf(2) m0])
      show "snd buf = length (ser_parts (map (\<lambda>x. (True, serialize t x)) xs))"
        using h(2) ser by simp
      note parts = offsets_hold [OF h(1) [unfolded ser] this]
      fix k ws m' env'
      assume k: "k < length xs" and ws: "length ws = length xs" "m' f = Some (VSeq ws)"
        and env: "map_of env' ''i'' = Some k" "map_of env' ''start'' = Some (elem_start (serialize t) xs k)"
          "map_of env' ''end'' = Some (elem_start (serialize t) xs (Suc k))"
      from v(2) k bytes obtain bs where x: "xs ! k = VBytes bs"
        by (auto simp: is_byte_ty_def) (metis nth_mem)
      with bytes have bs: "serialize t (xs ! k) = bs" by simp
      from holds_range [OF parts(2) [OF k]] obtain s where
        s: "slice_range buf (elem_start (serialize t) xs k) (elem_start (serialize t) xs (Suc k)) = Some s"
        "slice_bytes s = bs" using elem_start_Suc [OF k, of "serialize t"] bs by metis
      show "dexecs C ?ss (frm m' env' buf) = Done (frm (m'(f \<mapsto> VSeq (ws[k := xs ! k]))) env' buf)"
        using k ws env s x bs elem_start_Suc [OF k, of "serialize t"]
        by (simp add: copy_into_def eval_range_def copy_bytes_def)
    qed
    then have "dexecs C (decode_list P i f field) (frm m env buf) = Done (frm (m(f \<mapsto> v)) ([] @ env) buf)"
      using bytes(2) e v by (simp add: decode_list_def elem_rep_simps Let_def del: dexecs.simps)
    then show ?thesis by blast
  qed
qed

lemma string_field:
  assumes "field_ty st field = Some t" and "base_type (field_type field) = BASE_TYPE_STRING"
  shows "\<exists>l. t = TList (TUint 1) l"
  using assms by (auto simp: field_ty_def Let_def)

lemma decode_dynamic_exec:
  assumes C: "unmarshals P st C" and rep: "info_rep st i t" and flat: "flat_ty t"
    and var: "is_variable t" and bits: "bits_ok t" and size: "size_ok t" and dec: "decodable t"
    and ty: "field_ty st field = Some t" and ok: "val_ok t v" and m: "m f = Some v0" and fresh: "fresh t v0"
    and buf: "slice_ok buf" "snd buf < 2 ^ 32" "slice_bytes buf = serialize t v"
  shows "\<exists>pre. dexecs C (decode_dynamic P i f field) (frm m env buf) =
    Done (frm (m(f \<mapsto> v)) (pre @ env) buf)"
proof (cases t)
  case (TList t' l)
  with rep obtain e where e: "elem_info i = Some e" "info_rep st e t'" by auto
  have "\<exists>pre. dexecs C (decode_list P i f field) (frm m env buf) =
      Done (frm (m(f \<mapsto> v)) (pre @ env) buf)"
    by (rule decode_list_exec [where v = v and old = v0, OF C _ e])
      (use TList rep flat bits size dec ok m fresh buf string_field [OF ty] in
        \<open>auto simp: is_byte_ty_def split: if_splits\<close>)
  with TList rep show ?thesis by (simp add: decode_dynamic_def)
next
  case (TProgressiveList t')
  with rep obtain e where e: "elem_info i = Some e" "info_rep st e t'" by auto
  have "\<exists>pre. dexecs C (decode_list P i f field) (frm m env buf) =
      Done (frm (m(f \<mapsto> v)) (pre @ env) buf)"
    by (rule decode_list_exec [where v = v and old = v0, OF C _ e])
      (use TProgressiveList rep flat bits size dec ok m fresh buf string_field [OF ty] in
        \<open>auto simp: is_byte_ty_def split: if_splits\<close>)
  with TProgressiveList rep show ?thesis by (simp add: decode_dynamic_def)
next
  case (TBitlist l)
  with ok obtain bs where v: "v = VBytes bs" by auto
  from copy_all_exec [of buf m f v0 C env] buf m TBitlist v
  have "dexecs C (copy_all_stmts f) (frm m env buf) = Done (frm (m(f \<mapsto> v)) ([] @ env) buf)" by simp
  with TBitlist rep show ?thesis by (simp add: decode_dynamic_def)
next
  case (TContainer nm fs)
  have "dexec C (DCall (LMember f) (info_struct_name P '''' i) None) (frm m env buf) =
      Done (frm (m(f \<mapsto> v)) env buf)"
    by (rule call_exec [OF C, of i nm fs v])
      (use TContainer rep bits size dec ok m fresh buf in \<open>auto simp del: serialize.simps\<close>)
  then have "dexecs C (decode_dynamic P i f field) (frm m env buf) =
      Done (frm (m(f \<mapsto> v)) ([] @ env) buf)"
    using TContainer rep by (simp add: decode_dynamic_def del: dexec.simps)
  then show ?thesis by blast
next
  case (TVector t' n)
  with rep var show ?thesis by auto
qed (use var ok in auto)

end
