(* ===== verification/Go_Decode.thy ===== *)
theory Go_Decode
  imports Go_Decode_Lists
begin

text \<open>
  The emitted \<open>UnmarshalSSZ\<close> of a container, and, by induction over the nesting of containers,
  of a schema: on a slice that holds the serialization of a value it stores the value in a new
  receiver.
\<close>

section \<open>The fields of a container\<close>

text \<open>A field with its info, its type and the value to be decoded.\<close>

type_synonym row = "FieldPtr \<times> SszFieldInfo \<times> ssz_ty \<times> val"

abbreviation row_info :: "row \<Rightarrow> FieldPtr \<times> SszFieldInfo" where "row_info r \<equiv> (fst r, fst (snd r))"
abbreviation row_ty :: "row \<Rightarrow> ssz_ty" where "row_ty r \<equiv> fst (snd (snd r))"
abbreviation row_val :: "row \<Rightarrow> val" where "row_val r \<equiv> snd (snd (snd r))"
abbreviation row_part :: "row \<Rightarrow> bool \<times> byte list" where
  "row_part r \<equiv> (is_variable (row_ty r), serialize (row_ty r) (row_val r))"

definition row_name :: "SszGenerator \<Rightarrow> row \<Rightarrow> string" where
  "row_name G r = go_Field G (field_at (gen_parser G) (fst r))"

definition row_ok :: "SszGenerator \<Rightarrow> struct_types \<Rightarrow> row \<Rightarrow> bool" where
  "row_ok G st r \<longleftrightarrow>
     info_rep st (fst (snd r)) (row_ty r) \<and> flat_ty (row_ty r) \<and> bits_ok (row_ty r) \<and>
     size_ok (row_ty r) \<and> decodable (row_ty r) \<and>
     field_ty st (field_at (gen_parser G) (fst r)) = Some (row_ty r) \<and> val_ok (row_ty r) (row_val r)"

text \<open>The members before decoding, and the members with some of them decoded.\<close>

definition fresh_at :: "SszGenerator \<Rightarrow> (string \<rightharpoonup> val) \<Rightarrow> row \<Rightarrow> bool" where
  "fresh_at G m r \<longleftrightarrow> (\<exists>v. m (row_name G r) = Some v \<and> fresh (row_ty r) v)"

fun store_rows :: "(row \<Rightarrow> string) \<Rightarrow> row list \<Rightarrow> (string \<rightharpoonup> val) \<Rightarrow> (string \<rightharpoonup> val)" where
  "store_rows nm [] m = m"
| "store_rows nm (r # rs) m = store_rows nm rs (m(nm r \<mapsto> row_val r))"

lemma store_rows_other: "x \<notin> nm ` set rs \<Longrightarrow> store_rows nm rs m x = m x"
  by (induction rs arbitrary: m) auto

lemma store_rows_at:
  "distinct (map nm rs) \<Longrightarrow> r \<in> set rs \<Longrightarrow> store_rows nm rs m (nm r) = Some (row_val r)"
  by (induction rs arbitrary: m) (auto simp: store_rows_other)

text \<open>The members after the rows without \<open>Q\<close>, and then those with it, are stored.\<close>

lemma store_rows_split:
  assumes dist: "distinct (map nm rs)" and r: "r \<in> set rs"
  shows "store_rows nm (filter Q rs) (store_rows nm (filter (\<lambda>r. \<not> Q r) rs) m) (nm r) = Some (row_val r)"
proof (cases "Q r")
  case True
  have "distinct (map nm (filter Q rs))" using dist by (rule distinct_map_filter)
  with True r show ?thesis by (simp add: store_rows_at)
next
  case False
  have "distinct (map nm (filter (\<lambda>r. \<not> Q r) rs))" using dist by (rule distinct_map_filter)
  moreover have "nm r \<notin> nm ` set (filter Q rs)"
    using dist r False by (auto simp: distinct_map dest: inj_onD)
  ultimately show ?thesis using False r by (simp add: store_rows_other store_rows_at)
qed

lemma fresh_at_other:
  "row_name G r' \<noteq> row_name G r \<Longrightarrow> fresh_at G (m(row_name G r' \<mapsto> v)) r = fresh_at G m r"
  by (simp add: fresh_at_def)

lemma row_len: "row_ok G st r \<Longrightarrow> \<not> is_variable (row_ty r) \<Longrightarrow>
    length (serialize (row_ty r) (row_val r)) = fixed_len (row_ty r)"
  by (rule serialize_fixed_len) (simp_all add: row_ok_def)

lemma row_info_rep:
  assumes "row_ok G st r"
  shows "is_dynamic (fst (snd r)) = is_variable (row_ty r)"
    and "\<not> is_variable (row_ty r) \<Longrightarrow> fixed_size (fst (snd r)) = of_nat (fixed_len (row_ty r))"
proof -
  from assms have "info_rep st (fst (snd r)) (row_ty r)" by (simp add: row_ok_def)
  from info_rep_dynamic [OF this] info_rep_fixed [OF this]
  show "is_dynamic (fst (snd r)) = is_variable (row_ty r)"
    and "\<not> is_variable (row_ty r) \<Longrightarrow> fixed_size (fst (snd r)) = of_nat (fixed_len (row_ty r))" by auto
qed

lemma row_decode:
  assumes C: "unmarshals (gen_parser G) st C" and r: "row_ok G st r" "\<not> is_variable (row_ty r)"
    and fresh: "fresh_at G m r" and fit: "unat off + fixed_len (row_ty r) < 2 ^ 32"
    and buf: "holds buf (unat off) (serialize (row_ty r) (row_val r))"
  shows "dexecs C (decode_stmts (gen_parser G) (fst (snd r)) (row_name G r) off) (frm m env buf) =
    Done (frm (m(row_name G r \<mapsto> row_val r)) env buf)"
proof -
  from fresh obtain v0 where v0: "m (row_name G r) = Some v0" "fresh (row_ty r) v0"
    by (auto simp: fresh_at_def)
  show ?thesis
    by (rule decode_exec [where m = m and f = "row_name G r", OF C _ _ r(2) _ _ _ _ fit v0 buf]) (use r in \<open>auto simp: row_ok_def\<close>)
qed

section \<open>Containers of fixed size\<close>

lemma fixed_body_exec:
  assumes "unmarshals (gen_parser G) st C" and "\<forall>r \<in> set rs. row_ok G st r \<and> \<not> is_variable (row_ty r)"
    and "\<forall>r \<in> set rs. fresh_at G m r" and "distinct (map (row_name G) rs)"
    and "unat off + heads_len (map row_part rs) < 2 ^ 32"
    and "holds buf (unat off) (concat (map (snd \<circ> row_part) rs))"
  shows "dexecs C (fixed_body G off (map row_info rs)) (frm m env buf) = Done (frm (store_rows (row_name G) rs m) env buf)"
  using assms(2-)
proof (induction rs arbitrary: off m)
  case (Cons r rs)
  let ?n = "fixed_len (row_ty r)"
  from Cons.prems have r: "row_ok G st r" "\<not> is_variable (row_ty r)" "fresh_at G m r" by simp_all
  note len = row_len [OF r(1,2)]
  note i = row_info_rep(2) [OF r(1,2)]
  have fit: "unat off + ?n < 2 ^ 32" using Cons.prems(4) len r(2) by simp
  have off: "unat (off + fixed_size (fst (snd r))) = unat off + ?n"
    using unat_offset [OF fit] i by simp
  from Cons.prems(5) len have h: "holds buf (unat off) (serialize (row_ty r) (row_val r))"
    "holds buf (unat off + ?n) (concat (map (snd \<circ> row_part) rs))" by (simp_all add: holds_append comp_def)
  have "\<forall>r' \<in> set rs. fresh_at G (m(row_name G r \<mapsto> row_val r)) r'"
    using Cons.prems(2,3) fresh_at_other by (metis (no_types, lifting) distinct.simps(2) image_eqI list.set_intros(2) list.set_map list.simps(9))
  from Cons.IH [OF _ this, of "off + fixed_size (fst (snd r))"] Cons.prems off h len r(2)
  have "dexecs C (fixed_body G (off + fixed_size (fst (snd r))) (map row_info rs))
      (frm (m(row_name G r \<mapsto> row_val r)) env buf) = Done (frm (store_rows (row_name G) (r # rs) m) env buf)"
    by (simp add: fun_upd_def comp_def)
  with row_decode [OF assms(1) r fit h(1), of env] show ?case
    by (simp add: row_name_def [symmetric])
qed simp

section \<open>Containers with dynamic fields\<close>

text \<open>The offsets of the dynamic fields, and the variables that hold them.\<close>

fun row_offsets :: "nat \<Rightarrow> row list \<Rightarrow> nat list" where
  "row_offsets pos [] = []"
| "row_offsets pos (r # rs) =
     (if is_variable (row_ty r)
      then pos # row_offsets (pos + length (serialize (row_ty r) (row_val r))) rs
      else row_offsets pos rs)"

fun off_vars :: "nat \<Rightarrow> nat list \<Rightarrow> (string \<times> nat) list \<Rightarrow> (string \<times> nat) list" where
  "off_vars k [] env = env"
| "off_vars k (x # xs) env = off_vars (Suc k) xs ((off_name k, x) # env)"

lemma off_vars_other: "(\<And>j. k \<le> j \<Longrightarrow> y \<noteq> off_name j) \<Longrightarrow> map_of (off_vars k xs env) y = map_of env y"
  by (induction k xs env rule: off_vars.induct) auto

lemma off_vars_at: "j < length xs \<Longrightarrow> map_of (off_vars k xs env) (off_name (k + j)) = Some (xs ! j)"
proof (induction k xs env arbitrary: j rule: off_vars.induct)
  case (2 k x xs env)
  have "map_of (off_vars (Suc k) xs ((off_name k, x) # env)) (off_name k) = Some x"
    by (subst off_vars_other) auto
  with 2 show ?case by (cases j) auto
qed simp

lemma read_offset_exec:
  assumes buf: "holds buf (unat off) (le_bytes 4 pos)" and pos: "pos < 2 ^ 32" "pos \<le> snd buf"
    and fit: "unat off + 4 < 2 ^ 32"
    and first: "k = 0 \<longrightarrow> pos = unat static"
    and rest: "k \<noteq> 0 \<longrightarrow> (\<exists>q. map_of env (off_name (k - 1)) = Some q \<and> q \<le> pos)"
  shows "dexecs C (read_offset static off k) (frm m env buf) = Done (frm m ((off_name k, pos) # env) buf)"
proof -
  have "unat (off + 4) = unat off + 4" using unat_offset [of off 4] fit by simp
  with holds_uint [OF buf] pos(1) have "eval_int (frm m env buf) (IUint32 (at32 off) (at32 (off + 4))) = Some pos"
    by simp
  with first rest pos(2) show ?thesis
    by (cases k) (auto simp: read_offset_def off_name_def simp del: eval_int.simps(5))
qed

lemma static_body_exec:
  assumes "unmarshals (gen_parser G) st C" and "\<forall>r \<in> set rs. row_ok G st r"
    and "\<forall>r \<in> set rs. fresh_at G m r" and "distinct (map (row_name G) rs)"
    and "unat off + heads_len (map row_part rs) < 2 ^ 32"
    and "holds buf (unat off) (heads pos (map row_part rs))"
    and "pos + length (tails (map row_part rs)) \<le> snd buf" and "snd buf < 2 ^ 32"
    and "k = 0 \<longrightarrow> pos = unat static"
    and "k \<noteq> 0 \<longrightarrow> (\<exists>q. map_of env (off_name (k - 1)) = Some q \<and> q \<le> pos)"
  shows "dexecs C (static_body G static off k (map row_info rs)) (frm m env buf) =
    Done (frm (store_rows (row_name G) (filter (\<lambda>r. \<not> is_variable (row_ty r)) rs) m)
      (off_vars k (row_offsets pos rs) env) buf)"
  using assms(2-7,9-)
proof (induction rs arbitrary: off m k pos env)
  case (Cons r rs)
  from Cons.prems have r: "row_ok G st r" "fresh_at G m r" by simp_all
  note dyn = row_info_rep(1) [OF r(1)]
  let ?b = "serialize (row_ty r) (row_val r)"
  show ?case
  proof (cases "is_variable (row_ty r)")
    case True
    have h: "holds buf (unat off) (le_bytes 4 pos)"
      "holds buf (unat off + 4) (heads (pos + length ?b) (map row_part rs))"
      using Cons.prems(5) True by (simp_all add: holds_append)
    have fit: "unat off + 4 < 2 ^ 32" using Cons.prems(4) True by simp
    have off: "unat (off + 4) = unat off + 4" using unat_offset [of off 4] fit by simp
    have "dexecs C (read_offset static off k) (frm m env buf) = Done (frm m ((off_name k, pos) # env) buf)"
      by (rule read_offset_exec [OF h(1) _ _ fit Cons.prems(7,8)])
        (use Cons.prems(6) assms(8) True in simp_all)
    moreover have "dexecs C (static_body G static (off + 4) (Suc k) (map row_info rs))
        (frm m ((off_name k, pos) # env) buf) =
        Done (frm (store_rows (row_name G) (filter (\<lambda>r. \<not> is_variable (row_ty r)) rs) m)
          (off_vars (Suc k) (row_offsets (pos + length ?b) rs) ((off_name k, pos) # env)) buf)"
      by (rule Cons.IH) (use Cons.prems True h off in \<open>auto simp: add.assoc\<close>)
    ultimately show ?thesis using True dyn by simp
  next
    case False
    note len = row_len [OF r(1) False]
    have h: "holds buf (unat off) ?b" "holds buf (unat off + fixed_len (row_ty r)) (heads pos (map row_part rs))"
      using Cons.prems(5) False len by (simp_all add: holds_append)
    have fit: "unat off + fixed_len (row_ty r) < 2 ^ 32" using Cons.prems(4) False len by simp
    note i = row_info_rep(2) [OF r(1) False]
    have off: "unat (off + fixed_size (fst (snd r))) = unat off + fixed_len (row_ty r)"
      using unat_offset [OF fit] i by simp
    have fr: "\<forall>r' \<in> set rs. fresh_at G (m(row_name G r \<mapsto> row_val r)) r'"
      using Cons.prems(2,3) fresh_at_other by fastforce
    have "dexecs C (static_body G static (off + fixed_size (fst (snd r))) k (map row_info rs))
        (frm (m(row_name G r \<mapsto> row_val r)) env buf) =
        Done (frm (store_rows (row_name G) (filter (\<lambda>r. \<not> is_variable (row_ty r)) rs) (m(row_name G r \<mapsto> row_val r)))
          (off_vars k (row_offsets pos rs) env) buf)"
      by (rule Cons.IH [OF _ fr]) (use Cons.prems False h off len in auto)
    with row_decode [OF assms(1) r(1) False r(2) fit h(1), of env] False dyn show ?thesis
      by (simp add: row_name_def [symmetric])
  qed
qed simp

text \<open>The payloads, each between its offset and the next.\<close>

lemma dynamic_body_exec:
  assumes "unmarshals (gen_parser G) st C" and "\<forall>r \<in> set rs. row_ok G st r \<and> is_variable (row_ty r)"
    and "\<forall>r \<in> set rs. fresh_at G m r" and "distinct (map (row_name G) rs)"
    and "holds buf pos (tails (map row_part rs))" and "pos + length (tails (map row_part rs)) = snd buf"
    and "snd buf < 2 ^ 32"
    and "\<forall>j < length rs. map_of env (off_name (k + j)) = Some (row_offsets pos rs ! j)"
  shows "dexecs C (dynamic_body G k (map row_info rs)) (frm m env buf) =
    Done (frm (store_rows (row_name G) rs m) env buf)"
  using assms(2-6,8)
proof (induction rs arbitrary: m k pos)
  case (Cons r rs)
  let ?b = "serialize (row_ty r) (row_val r)" and ?f = "row_name G r"
  from Cons.prems have r: "row_ok G st r" "is_variable (row_ty r)" "fresh_at G m r" by simp_all
  from r(3) obtain v0 where v0: "m ?f = Some v0" "fresh (row_ty r) v0" by (auto simp: fresh_at_def)
  have h: "holds buf pos ?b" "holds buf (pos + length ?b) (tails (map row_part rs))"
    using Cons.prems(4) r(2) by (simp_all add: holds_append)
  from holds_range [OF h(1)] obtain s where s: "slice_range buf pos (pos + length ?b) = Some s" "slice_ok s"
    "slice_bytes s = ?b" "snd s = length ?b" .
  have small: "snd s < 2 ^ 32" using Cons.prems(5) assms(7) s(4) r(2) by simp
  have "\<exists>pre. dexecs C (decode_dynamic (gen_parser G) (fst (snd r)) ?f (field_at (gen_parser G) (fst r)))
      (frm m env s) = Done (frm (m(?f \<mapsto> row_val r)) (pre @ env) s)"
    by (rule decode_dynamic_exec [where m = m and f = ?f, OF assms(1) _ _ r(2) _ _ _ _ _ v0 s(2) small s(3)])
      (use r(1) in \<open>auto simp: row_ok_def\<close>)
  moreover have "eval_range (frm m env buf) (off_var k) (if rs = [] then ILen else off_var (Suc k)) = Some s"
  proof -
    have lo: "map_of env (off_name k) = Some pos" using Cons.prems(6) r(2) by force
    have "eval_int (frm m env buf) (if rs = [] then ILen else off_var (Suc k)) = Some (pos + length ?b)"
    proof (cases rs)
      case Nil
      with Cons.prems(5) r(2) show ?thesis by simp
    next
      case (Cons r' rs')
      then have "Suc 0 < length (r # rs)" by simp
      with Cons.prems(6) have "map_of env (off_name (k + Suc 0)) = Some (row_offsets pos (r # rs) ! Suc 0)" by blast
      with Cons Cons.prems(1) r(2) show ?thesis by (simp add: off_name_def)
    qed
    with lo s(1) show ?thesis by (simp add: eval_range_def off_name_def)
  qed
  ultimately have step: "dexec C (DSub (off_var k) (if rs = [] then ILen else off_var (Suc k))
      (decode_dynamic (gen_parser G) (fst (snd r)) ?f (field_at (gen_parser G) (fst r)))) (frm m env buf) =
      Done (frm (m(?f \<mapsto> row_val r)) env buf)" by auto
  have fr: "\<forall>r' \<in> set rs. fresh_at G (m(?f \<mapsto> row_val r)) r'"
    using Cons.prems(2,3) fresh_at_other by fastforce
  have "dexecs C (dynamic_body G (Suc k) (map row_info rs)) (frm (m(?f \<mapsto> row_val r)) env buf) =
      Done (frm (store_rows (row_name G) rs (m(?f \<mapsto> row_val r))) env buf)"
  proof (rule Cons.IH [OF _ fr _ h(2)])
    show "\<forall>j < length rs. map_of env (off_name (Suc k + j)) = Some (row_offsets (pos + length ?b) rs ! j)"
      using Cons.prems(6) r(2) by force
  qed (use Cons.prems r(2) in \<open>auto simp: add.assoc\<close>)
  with step show ?case by (cases "rs = []") (simp_all add: row_name_def [symmetric] fun_upd_def del: dexec.simps)
qed simp

section \<open>The method\<close>

lemma map_row_offsets:
  "row_offsets pos (filter (\<lambda>r. is_variable (row_ty r)) rs) = row_offsets pos rs"
  "length (row_offsets pos rs) = length (filter (\<lambda>r. is_variable (row_ty r)) rs)"
  by (induction rs arbitrary: pos) auto

lemma tails_filter:
  "tails (map row_part (filter (\<lambda>r. is_variable (row_ty r)) rs)) = tails (map row_part rs)"
  by (induction rs) auto

lemma dynamic_of_rows:
  "\<forall>r \<in> set rs. row_ok G st r \<Longrightarrow>
   dynamic_of (map row_info rs) = map row_info (filter (\<lambda>r. is_variable (row_ty r)) rs)"
proof (induction rs)
  case (Cons r rs)
  then have "is_dynamic (fst (snd r)) = is_variable (row_ty r)" using row_info_rep(1) [of G st r] by simp
  with Cons show ?case by (simp add: dynamic_of_def)
qed (simp add: dynamic_of_def)

lemma unmarshal_body_exec:
  assumes C: "unmarshals (gen_parser G) st C" and ok: "\<forall>r \<in> set rs. row_ok G st r"
    and fresh: "\<forall>r \<in> set rs. fresh_at G m r" and dist: "distinct (map (row_name G) rs)"
    and infos: "infos_of c (all_fields c) = map row_info rs"
    and dyn: "dynamic_fields c = [] \<longleftrightarrow> (\<forall>r \<in> set rs. \<not> is_variable (row_ty r))"
    and static: "unat (static_size c) = heads_len (map row_part rs)"
    and buf: "slice_ok buf" "slice_bytes buf = ser_parts (map row_part rs)" "snd buf < 2 ^ 32"
  shows "\<exists>m' env. dexecs C (unmarshal_body G c) (frm m [] buf) = Done (frm m' env buf) \<and>
    (\<forall>r \<in> set rs. m' (row_name G r) = Some (row_val r))"
proof -
  let ?parts = "map row_part rs"
  from holds_whole [OF buf(1,2)] have h: "holds buf 0 (heads (heads_len ?parts) ?parts)"
    "holds buf (heads_len ?parts) (tails ?parts)"
    and len: "snd buf = heads_len ?parts + length (tails ?parts)"
    by (simp_all add: ser_parts_def holds_append)
  have check: "\<not> snd buf < unat (static_size c)" using static len by simp
  show ?thesis
  proof (cases "\<forall>r \<in> set rs. \<not> is_variable (row_ty r)")
    case True
    have "heads off ?parts = concat (map (snd \<circ> row_part) rs)" for off
      using True by (induction rs) auto
    with h(1) have cont: "holds buf (unat (0::u32)) (concat (map (snd \<circ> row_part) rs))" by simp
    have "dexecs C (fixed_body G 0 (map row_info rs)) (frm m [] buf) = Done (frm (store_rows (row_name G) rs m) [] buf)"
      by (rule fixed_body_exec [OF C _ fresh dist _ cont]) (use ok True len buf(3) in auto)
    with True check infos dyn store_rows_at [OF dist] show ?thesis
      by (simp add: unmarshal_body_def Let_def)
  next
    case False
    let ?fixed = "filter (\<lambda>r. \<not> is_variable (row_ty r)) rs"
      and ?var = "filter (\<lambda>r. is_variable (row_ty r)) rs"
    let ?m1 = "store_rows (row_name G) ?fixed m" and ?env = "off_vars 0 (row_offsets (heads_len ?parts) rs) []"
    have dist': "distinct (map (row_name G) ?fixed)" "distinct (map (row_name G) ?var)"
      using dist by (auto simp: distinct_map_filter)
    have apart: "row_name G r \<notin> row_name G ` set ?fixed" if "r \<in> set ?var" for r
      using dist that by (auto simp: distinct_map dest: inj_onD)
    have one: "dexecs C (static_body G (static_size c) 0 0 (map row_info rs)) (frm m [] buf) =
        Done (frm ?m1 ?env buf)"
      by (rule static_body_exec [OF C ok fresh dist]) (use h len buf(3) static in auto)
    have "\<forall>r \<in> set ?var. fresh_at G ?m1 r"
      using fresh apart store_rows_other [of _ "row_name G" ?fixed m] by (auto simp: fresh_at_def)
    moreover have "map_of ?env (off_name (0 + j)) = Some (row_offsets (heads_len ?parts) ?var ! j)"
      if "j < length ?var" for j
      using off_vars_at [of j "row_offsets (heads_len ?parts) rs" 0 "[]"] that
      by (simp add: map_row_offsets)
    ultimately have "dexecs C (dynamic_body G 0 (map row_info ?var)) (frm ?m1 ?env buf) =
        Done (frm (store_rows (row_name G) ?var ?m1) ?env buf)"
      using dynamic_body_exec [OF C, of ?var ?m1 buf "heads_len ?parts" ?env 0] ok dist'(2) h(2) len buf(3)
      by (simp add: tails_filter)
    moreover have "dynamic_fields c \<noteq> []" using False dyn by blast
    ultimately have "dexecs C (unmarshal_body G c) (frm m [] buf) = Done (frm (store_rows (row_name G) ?var ?m1) ?env buf)"
      using one check infos dynamic_of_rows [OF ok] by (simp add: unmarshal_body_def Let_def)
    moreover have "store_rows (row_name G) ?var ?m1 (row_name G r) = Some (row_val r)" if "r \<in> set rs" for r
      by (rule store_rows_split [OF dist that])
    ultimately show ?thesis by blast
  qed
qed

section \<open>The rows of a container\<close>

lemma fields_ty_list:
  "fields_ty P st ps = Some fs \<Longrightarrow>
   list_all2 (\<lambda>p f. field_ty st (field_at P p) = Some (snd f)) (filter (\<lambda>p. \<not> fd_deprecated (field_at P p)) ps) fs"
  by (induction ps arbitrary: fs) (auto split: if_splits option.splits)

text \<open>A container has variable size if one of its rows has.\<close>

lemma rows_variable:
  assumes "map row_ty rs = map snd fs"
  shows "any_variable fs \<longleftrightarrow> (\<exists>r \<in> set rs. is_variable (row_ty r))"
proof -
  have "any_variable fs \<longleftrightarrow> (\<exists>t \<in> set (map snd fs). is_variable t)" by (force simp: any_variable_iff)
  also have "\<dots> \<longleftrightarrow> (\<exists>t \<in> set (map row_ty rs). is_variable t)" by (simp only: assms)
  finally show ?thesis by simp
qed

lemma rows_exist:
  assumes "list_all2 (field_rep (gen_parser G) st c) ps fs"
    and "list_all2 (\<lambda>p f. field_ty st (field_at (gen_parser G) p) = Some (snd f)) ps fs"
    and "\<forall>f \<in> set fs. flat_ty (snd f)" and "fields_bits_ok fs" and "fields_size_ok fs"
    and "fields_decodable fs" and "vals_ok fs vs"
  shows "\<exists>rs. map fst rs = ps \<and> infos_of c ps = map row_info rs \<and>
    serialize_fields fs vs = map row_part rs \<and> map row_val rs = vs \<and> map row_ty rs = map snd fs \<and>
    (\<forall>r \<in> set rs. row_ok G st r)"
  using assms
proof (induction ps arbitrary: fs vs)
  case (Cons p ps)
  from Cons.prems(1) obtain n t fs' where fs: "fs = (n, t) # fs'"
    and rep: "field_rep (gen_parser G) st c p (n, t)" "list_all2 (field_rep (gen_parser G) st c) ps fs'"
    by (cases fs) auto
  from rep(1) obtain i where i: "field_infos c p = Some i" "info_rep st i t" by (auto simp: field_rep_def)
  from Cons.prems(7) fs obtain v vs' where v: "vs = v # vs'" "val_ok t v" "vals_ok fs' vs'" by auto
  have "\<exists>rs. map fst rs = ps \<and> infos_of c ps = map row_info rs \<and>
    serialize_fields fs' vs' = map row_part rs \<and> map row_val rs = vs' \<and> map row_ty rs = map snd fs' \<and>
    (\<forall>r \<in> set rs. row_ok G st r)"
    by (rule Cons.IH [OF rep(2)]) (use Cons.prems fs v in auto)
  then obtain rs where rs: "map fst rs = ps" "infos_of c ps = map row_info rs"
    "serialize_fields fs' vs' = map row_part rs" "map row_val rs = vs'" "map row_ty rs = map snd fs'"
    "\<forall>r \<in> set rs. row_ok G st r" by blast
  have "row_ok G st (p, i, t, v)" using Cons.prems fs i v by (simp add: row_ok_def)
  with rs fs i v show ?case by (intro exI [of _ "(p, i, t, v) # rs"]) simp
qed simp

section \<open>The program\<close>

definition go_ddecl :: "SszGenerator \<Rightarrow> SszContainerInfo \<Rightarrow> ddecl" where
  "go_ddecl G c =
     \<lparr>dd_fields = map (\<lambda>(p, i). (go_Field G (field_at (gen_parser G) p),
          field_gty (gen_parser G) i (field_at (gen_parser G) p))) (infos_of c (all_fields c)),
      dd_unmarshal = unmarshal_body G c\<rparr>"

definition go_dprogram :: "nat \<Rightarrow> SszGenerator \<Rightarrow> dprogram" where
  "go_dprogram depth G nm =
     (case struct_named (gen_parser G) nm of
        None \<Rightarrow> None
      | Some s \<Rightarrow>
          (case go_AnalyzeContainer depth (gen_parser G) s of
             Inl e \<Rightarrow> None | Inr c \<Rightarrow> Some (go_ddecl G c)))"

text \<open>The zero value of a member is fresh for its type.\<close>

lemma zero_fresh:
  assumes "info_rep st i t" and "flat_ty t" and "bits_ok t"
    and "field_ty st field = Some t"
    and "\<And>q nm fs. st q = Some (TContainer nm fs) \<Longrightarrow> fields_bits_ok fs \<Longrightarrow>
      nm = sd_name (struct_at P q) \<and> fresh (TContainer nm fs) (Z nm)"
  shows "fresh t (zero_val Z (field_gty P i field))"
proof (cases t)
  case (TVector t' n)
  with assms(1) obtain e where e: "elem_info i = Some e" "info_rep st e t'"
    and lim: "info_limit i = of_nat n" "n < 2 ^ 16" by auto
  have n: "unat (info_limit i) = n" using lim by (simp add: unat_of_nat)
  have "is_byte_ty t' \<longleftrightarrow> ssz_type e = SszUint8"
    using e(2) assms(2) TVector by (cases t') (auto simp: is_byte_ty_def split: if_splits)
  with TVector assms(1) e n show ?thesis by (simp add: field_gty_def)
next
  case (TBitvector n)
  with assms(1,3) have n: "unat (bitsize i) = n" "n + 7 < 2 ^ 32" by auto
  then have "unat (bitsize i + 7) = n + 7" by (simp add: unat_word_ariths)
  then have "unat ((bitsize i + 7) div 8) = (n + 7) div 8" by (simp add: unat_div)
  with TBitvector assms(1) show ?thesis by (simp add: field_gty_def)
next
  case (TContainer nm fs)
  with assms(1) obtain q where q: "info_struct i = Some q" "st q = Some (TContainer nm fs)" by auto
  have "fields_bits_ok fs" using assms(3) TContainer by simp
  from assms(5) [OF q(2) this] TContainer have "sd_name (struct_at P q) = nm" "fresh t (Z nm)" by blast+
  with q TContainer assms(1) show ?thesis by (simp add: field_gty_def struct_gty_def)
next
  case (TList t' l)
  with assms(1) obtain e where e: "elem_info i = Some e" "info_rep st e t'" by auto
  have "is_byte_ty t' \<longleftrightarrow> ssz_type e = SszUint8"
    using e(2) assms(2) TList by (cases t') (auto simp: is_byte_ty_def split: if_splits)
  with TList assms(1) e string_field [OF assms(4)] show ?thesis
    by (auto simp: field_gty_def list_gty_def is_byte_ty_def)
next
  case (TProgressiveList t')
  with assms(1) obtain e where e: "elem_info i = Some e" "info_rep st e t'" by auto
  have "is_byte_ty t' \<longleftrightarrow> ssz_type e = SszUint8"
    using e(2) assms(2) TProgressiveList by (cases t') (auto simp: is_byte_ty_def split: if_splits)
  with TProgressiveList assms(1) e string_field [OF assms(4)] show ?thesis
    by (auto simp: field_gty_def list_gty_def is_byte_ty_def)
next
  case (TBitlist l)
  with assms(1) show ?thesis by (simp add: field_gty_def)
qed (use assms in auto)

lemma zero_rows:
  assumes "list_all2 (field_rep P st c) ps fs"
    and "list_all2 (\<lambda>p f. field_ty st (field_at P p) = Some (snd f)) ps fs"
    and "\<forall>f \<in> set fs. flat_ty (snd f)" and "fields_bits_ok fs"
    and "\<And>q nm fs. st q = Some (TContainer nm fs) \<Longrightarrow> fields_bits_ok fs \<Longrightarrow>
      nm = sd_name (struct_at P q) \<and> fresh (TContainer nm fs) (Z nm)"
  shows "all_fresh fs (map (\<lambda>(p, i). zero_val Z (field_gty P i (field_at P p))) (infos_of c ps))"
  using assms(1-4)
proof (induction ps arbitrary: fs)
  case (Cons p ps)
  from Cons.prems(1) obtain n t fs' where fs: "fs = (n, t) # fs'"
    and rep: "field_rep P st c p (n, t)" "list_all2 (field_rep P st c) ps fs'"
    by (cases fs) auto
  from rep(1) obtain i where i: "field_infos c p = Some i" "info_rep st i t" by (auto simp: field_rep_def)
  have "fresh t (zero_val Z (field_gty P i (field_at P p)))"
    by (rule zero_fresh [OF i(2) _ _ _ assms(5)]) (use Cons.prems fs in auto)
  with Cons.IH [OF rep(2)] Cons.prems fs i show ?case by simp
qed simp

text \<open>What \<open>UnmarshalSSZ\<close> needs of a schema, for every struct of it that has a type.\<close>

lemma go_dprogram_decl:
  assumes wf: "wf_schema P" and small: "small_ids P" and names: "go_names_ok G"
    and P: "P = gen_parser G" and n: "Suc m \<le> depth"
    and ty: "struct_ty (Suc m) P s = Some (TContainer nm fs)" and bits: "fields_bits_ok fs"
  obtains c where "go_dprogram depth G nm = Some (go_ddecl G c)"
    "container_rep P (struct_ty m P) c fs"
    "list_all2 (\<lambda>p f. field_ty (struct_ty m P) (field_at P p) = Some (snd f)) (all_fields c) fs"
    "\<forall>f \<in> set fs. flat_ty (snd f)"
    "distinct (map (\<lambda>p. go_Field G (field_at P p)) (all_fields c))"
proof -
  have dist: "distinct (map sd_name (struct_store P))" using names P by (simp add: go_names_ok_simps)
  have s: "s < length (struct_store P)" using ty by (rule struct_ty_in_range)
  from go_struct_decl [OF wf small dist n s ty bits] obtain c where
    c: "struct_named P nm = Some s" "go_AnalyzeContainer depth P s = Inr c"
    and rep: "container_rep P (struct_ty m P) c fs" "all_fields c = live_fields P s"
    and fs: "fields_ty P (struct_ty m P) (sd_fields (struct_at P s)) = Some fs" by blast
  have "go_dprogram depth G nm = Some (go_ddecl G c)" using c P by (simp add: go_dprogram_def)
  moreover have "distinct (map (\<lambda>p. go_Field G (field_at P p)) (all_fields c))"
    using names s P rep(2) by (simp add: go_names_ok_simps list_all_iff)
  ultimately show thesis
    using that rep fields_flat [OF containers_struct_ty fs] fields_ty_list [OF fs]
    by (simp add: live_fields_def)
qed

lemma zero_of_fresh:
  assumes wf: "wf_schema P" and small: "small_ids P" and names: "go_names_ok G" and P: "P = gen_parser G"
  shows "n \<le> depth \<Longrightarrow> struct_ty n P s = Some (TContainer nm fs) \<Longrightarrow> fields_bits_ok fs \<Longrightarrow>
    fresh (TContainer nm fs) (zero_of (go_dprogram depth G) n nm)"
proof (induction n arbitrary: s nm fs)
  case (Suc m)
  from go_dprogram_decl [OF wf small names P Suc.prems] obtain c where
    prog: "go_dprogram depth G nm = Some (go_ddecl G c)" and rep: "container_rep P (struct_ty m P) c fs"
    and ty: "list_all2 (\<lambda>p f. field_ty (struct_ty m P) (field_at P p) = Some (snd f)) (all_fields c) fs"
    and flat: "\<forall>f \<in> set fs. flat_ty (snd f)" .
  have "nm' = sd_name (struct_at P q) \<and> fresh (TContainer nm' fs') (zero_of (go_dprogram depth G) m nm')"
    if "struct_ty m P q = Some (TContainer nm' fs')" "fields_bits_ok fs'" for q nm' fs'
    using Suc.IH [OF _ that] Suc.prems(1) struct_ty_name [OF that(1)] by simp
  note zero = zero_rows [OF _ ty flat Suc.prems(3) this]
  have "list_all2 (field_rep P (struct_ty m P) c) (all_fields c) fs"
    using rep by (simp add: container_rep_def)
  from zero [OF this] have "all_fresh fs (map (\<lambda>f. zero_val (zero_of (go_dprogram depth G) m) (snd f))
      (dd_fields (go_ddecl G c)))"
    unfolding go_ddecl_def P [symmetric] by (simp add: comp_def case_prod_unfold)
  with prog show ?case by simp
qed simp

lemma all_fresh_list: "all_fresh fs ws \<Longrightarrow> list_all2 (\<lambda>f w. fresh (snd f) w) fs ws"
  by (induction fs arbitrary: ws) auto

lemma unmarshal_program:
  assumes wf: "wf_schema P" and small: "small_ids P" and names: "go_names_ok G" and P: "P = gen_parser G"
  shows "n \<le> depth \<Longrightarrow> struct_ty n P s = Some (TContainer nm fs) \<Longrightarrow> fields_bits_ok fs \<Longrightarrow>
    size_ok (TContainer nm fs) \<Longrightarrow> fields_decodable fs \<Longrightarrow> vals_ok fs vs \<Longrightarrow>
    fresh (TContainer nm fs) v \<Longrightarrow> slice_ok buf \<Longrightarrow>
    slice_bytes buf = serialize (TContainer nm fs) (VStruct nm vs) \<Longrightarrow> snd buf < 2 ^ 32 \<Longrightarrow>
    UnmarshalSSZ (go_dprogram depth G) n nm v buf = Done (VStruct nm vs)"
proof (induction n arbitrary: s nm fs vs v buf)
  case (Suc k)
  from go_dprogram_decl [OF wf small names P Suc.prems(1-3)] obtain c where
    prog: "go_dprogram depth G nm = Some (go_ddecl G c)" and rep: "container_rep P (struct_ty k P) c fs"
    and ty: "list_all2 (\<lambda>p f. field_ty (struct_ty k P) (field_at P p) = Some (snd f)) (all_fields c) fs"
    and flat: "\<forall>f \<in> set fs. flat_ty (snd f)"
    and dist: "distinct (map (\<lambda>p. go_Field G (field_at P p)) (all_fields c))" .
  let ?C = "\<lparr>call_unmarshal = UnmarshalSSZ (go_dprogram depth G) k,
    zero_struct = zero_of (go_dprogram depth G) k\<rparr>"
  have k: "k \<le> depth" using Suc.prems(1) by simp
  have C: "unmarshals P (struct_ty k P) ?C"
    unfolding unmarshals_def
  proof (intro allI impI conjI)
    fix q nm' fs' assume q: "struct_ty k P q = Some (TContainer nm' fs')"
    from struct_ty_name [OF q] show "nm' = sd_name (struct_at P q)" .
    assume t: "fields_bits_ok fs'" "size_ok (TContainer nm' fs')" "fields_decodable fs'"
    from Suc.IH [OF k q t] zero_of_fresh [OF wf small names P k q t(1)]
    show "decodes ?C nm' fs'" unfolding decodes_def by simp
  qed
  from rep have l2: "list_all2 (field_rep P (struct_ty k P) c) (all_fields c) fs"
    by (simp add: container_rep_def)
  from rows_exist [of G, OF l2 [unfolded P] ty [unfolded P] flat Suc.prems(3) _ Suc.prems(5,6)] Suc.prems(4)
  obtain rs where rs: "map fst rs = all_fields c" "infos_of c (all_fields c) = map row_info rs"
    "serialize_fields fs vs = map row_part rs" "map row_val rs = vs" "map row_ty rs = map snd fs"
    "\<forall>r \<in> set rs. row_ok G (struct_ty k P) r" by (auto simp: P)
  have row_names: "map (row_name G) rs = map (\<lambda>p. go_Field G (field_at P p)) (all_fields c)"
    using rs(1) by (simp add: row_name_def P flip: rs(1))
  have members: "map fst (dd_fields (go_ddecl G c)) = map (row_name G) rs"
    by (simp add: go_ddecl_def rs(2) row_name_def)
  from Suc.prems(7) obtain ws where v: "v = VStruct nm ws" "all_fresh fs ws" by auto
  let ?m = "map_of (zip (map (row_name G) rs) ws)"
  have fresh: "\<forall>r \<in> set rs. fresh_at G ?m r"
  proof
    fix r assume "r \<in> set rs"
    then obtain j where j: "j < length rs" "rs ! j = r" by (auto simp: in_set_conv_nth)
    have len: "length ws = length rs" "length fs = length rs"
      using list_all2_lengthD [OF all_fresh_list [OF v(2)]] rs(5) by (metis length_map)+
    have "?m (map (row_name G) rs ! j) = Some (ws ! j)"
      by (rule map_of_zip_nth) (use dist row_names [symmetric] len j in simp_all)
    moreover have "fresh (snd (fs ! j)) (ws ! j)"
      using all_fresh_list [OF v(2)] j len by (simp add: list_all2_conv_all_nth)
    moreover have "snd (fs ! j) = row_ty r" using rs(5) j len by (metis nth_map)
    ultimately show "fresh_at G ?m r" using j by (auto simp: fresh_at_def)
  qed
  have heads: "heads_len (map row_part rs) = static_len fs"
    using heads_len_fields [OF Suc.prems(6)] serialize_fixed_len rs(3) by metis
  have static: "unat (static_size c) = heads_len (map row_part rs)"
    using rep Suc.prems(4) heads by (simp add: container_rep_def unat_of_nat)
  note var = rows_variable [OF rs(5)]
  have names': "distinct (map (row_name G) rs)" using dist row_names by simp
  have dyn: "dynamic_fields c = [] \<longleftrightarrow> (\<forall>r \<in> set rs. \<not> is_variable (row_ty r))"
    using dynamic_fields_empty [OF rep] var by simp
  have ser: "slice_bytes buf = ser_parts (map row_part rs)" using Suc.prems(9) rs(3) by simp
  from unmarshal_body_exec [OF C [unfolded P] rs(6) [unfolded P] fresh names' rs(2) dyn static
      Suc.prems(8) ser Suc.prems(10)]
  obtain m' env where body: "dexecs ?C (unmarshal_body G c) (frm ?m [] buf) = Done (frm m' env buf)"
    and vals: "\<forall>r \<in> set rs. m' (row_name G r) = Some (row_val r)" by blast
  have "map (\<lambda>f. case m' (fst f) of None \<Rightarrow> VNil | Some v \<Rightarrow> v) (dd_fields (go_ddecl G c)) =
      map (\<lambda>x. case m' x of None \<Rightarrow> VNil | Some v \<Rightarrow> v) (map (row_name G) rs)"
    by (simp flip: members)
  also have "\<dots> = map row_val rs" using vals by simp
  finally have close: "close_recv (go_ddecl G c) nm (Some m') = VStruct nm vs"
    using rs(4) by (simp add: close_recv_def)
  have "open_recv (go_ddecl G c) v = Some (Some ?m)" using v members by simp
  moreover have "dd_unmarshal (go_ddecl G c) = unmarshal_body G c" by (simp add: go_ddecl_def)
  ultimately show ?case using prog body close by simp
qed simp

end
