(* ===== verification/Emit_Hash.thy ===== *)
theory Emit_Hash
  imports Emit_Program Go_Hash_Text
begin

text \<open>
  The hashing half of the program that a back end emits for a container: the statements that hash
  a field and the body of the method, apart from their text.  The back ends differ in how they
  walk over a vector, in what they put for an index without a field and in how they compute the
  chunk limit of a list; a \<open>hash_style\<close> says how.
  The last section reads a method as its fields and calls in order, for printers that indent
  them on their own.
\<close>

section \<open>Styles\<close>

record hash_style =
  hs_index_loops :: bool \<comment> \<open>vectors are walked by index, not by value\<close>
  hs_gap :: hstmt \<comment> \<open>the leaf of an index without a field\<close>
  hs_limit :: "SszFieldInfo \<Rightarrow> u64" \<comment> \<open>the chunk limit of a list, by its info\<close>

section \<open>Statements of a field\<close>

definition append_stmts :: "SszType \<Rightarrow> gexpr \<Rightarrow> hstmt list" where
  "append_stmts t e =
     (case t of
        SszBool \<Rightarrow> [HAppendBool e]
      | SszUint8 \<Rightarrow> [HAppendUint 8 e]
      | SszUint16 \<Rightarrow> [HAppendUint 16 e]
      | SszUint32 \<Rightarrow> [HAppendUint 32 e]
      | SszUint64 \<Rightarrow> [HAppendUint 64 e]
      | _ \<Rightarrow> [])"

definition sub_tree :: "hstmt list \<Rightarrow> hstmt list" where
  "sub_tree b = [HBlk (HIndex ''subIdx'' # b)]"

definition hash_vector_stmts :: "bool \<Rightarrow> SszFieldInfo \<Rightarrow> gexpr \<Rightarrow> hstmt list" where
  "hash_vector_stmts ix info e =
     (if elem_is info SszUint8 then [HPutArray e]
      else if elem_is info SszContainer then
        sub_tree
          [if ix then HFor ''i'' e [HCall (GIndex e ''i'')]
           else HForVal ''item'' e [HCall (GLocal ''item'')],
           HMerkleize ''subIdx'']
      else if elem_info info \<noteq> None then
        sub_tree
          [if ix then HFor ''i'' e (append_stmts (elem_ssz_type info) (GIndex e ''i''))
           else HForVal ''v'' e (append_stmts (elem_ssz_type info) (GLocal ''v'')),
           HFill, HMerkleize ''subIdx'']
      else [])"

text \<open>The elements of a list, without what merkleizes them.\<close>

definition hash_elems_stmts :: "SszFieldInfo \<Rightarrow> gexpr \<Rightarrow> hstmt list" where
  "hash_elems_stmts info e =
     (if elem_is info SszUint8 then [HAppendBytes32 e]
      else if elem_is info SszContainer then [HForVal ''item'' e [HCall (GLocal ''item'')]]
      else [HForVal ''v'' e (append_stmts (elem_ssz_type info) (GLocal ''v'')), HFill])"

definition hash_list_stmts :: "(SszFieldInfo \<Rightarrow> u64) \<Rightarrow> SszFieldInfo \<Rightarrow> gexpr \<Rightarrow> hstmt list" where
  "hash_list_stmts lim info e =
     (if elem_is info SszList then
        sub_tree
          [HForVal ''item'' e
             [HIndex ''inner'', HAppendBytes32 (GLocal ''item''),
              if go_inner_chunk_limit info > 0
              then HMixin ''inner'' (GLocal ''item'') (go_inner_chunk_limit info)
              else HMerkleize ''inner''],
           HMixin ''subIdx'' e (info_limit info)]
      else if elem_info info \<noteq> None then
        sub_tree (hash_elems_stmts info e @ [HMixin ''subIdx'' e (lim info)])
      else [])"

definition hash_progressive_stmts :: "SszFieldInfo \<Rightarrow> gexpr \<Rightarrow> hstmt list" where
  "hash_progressive_stmts info e =
     (if elem_info info \<noteq> None then
        sub_tree (hash_elems_stmts info e @ [HProgMixin ''subIdx'' e])
      else [])"

definition hash_stmts :: "hash_style \<Rightarrow> SszFieldInfo \<Rightarrow> gexpr \<Rightarrow> hstmt list" where
  "hash_stmts S info e =
     (case ssz_type info of
        SszBool \<Rightarrow> [HPutBool e]
      | SszUint8 \<Rightarrow> [HPutUint 8 e]
      | SszUint16 \<Rightarrow> [HPutUint 16 e]
      | SszUint32 \<Rightarrow> [HPutUint 32 e]
      | SszUint64 \<Rightarrow> [HPutUint 64 e]
      | SszUint128 \<Rightarrow> [HPutArray e]
      | SszUint256 \<Rightarrow> [HPutArray e]
      | SszVector \<Rightarrow> hash_vector_stmts (hs_index_loops S) info e
      | SszList \<Rightarrow> hash_list_stmts (hs_limit S) info e
      | SszBitlist \<Rightarrow> [HPutBitlist e (info_limit info)]
      | SszBitvector \<Rightarrow> [HPutArray e]
      | SszContainer \<Rightarrow> [HCall e]
      | SszProgressiveContainer \<Rightarrow> [HCall e]
      | SszProgressiveList \<Rightarrow> hash_progressive_stmts info e
      | SszUnion \<Rightarrow> [])"

section \<open>The method\<close>

definition index_stmts :: "hash_style \<Rightarrow> dialect \<Rightarrow> SszContainerInfo \<Rightarrow> u32 \<Rightarrow> hstmt list" where
  "index_stmts S D c i =
     (case map_of (index_to_field c) i of
        Some p \<Rightarrow>
          (case field_infos c p of
             None \<Rightarrow> []
           | Some info \<Rightarrow>
               HNote (''Index '' @ num32 i @ '': '' @ dl_label D p) #
               hash_stmts S info (member_expr D p))
      | None \<Rightarrow> [HNote (''Index '' @ num32 i @ '': gap (inactive)''), hs_gap S])"

definition field_hash_stmts :: "hash_style \<Rightarrow> dialect \<Rightarrow> FieldPtr \<times> SszFieldInfo \<Rightarrow> hstmt list" where
  "field_hash_stmts S D f =
     HNote (''Field '' @ sq @ dl_label D (fst f) @ sq) #
     hash_stmts S (snd f) (member_expr D (fst f)) @ [HBlank]"

definition hash_body :: "hash_style \<Rightarrow> dialect \<Rightarrow> SszContainerInfo \<Rightarrow> hstmt list" where
  "hash_body S D c =
     [HIndex ''idx'', HBlank] @
     (if is_progressive c then
        concat (map (\<lambda>i. index_stmts S D c (of_nat i)) [0..<Suc (unat (max_ssz_index c))]) @
        [HBlank, HProgActive ''idx'' (active_fields_bitvector c)]
      else
        concat (map (field_hash_stmts S D) (infos_of c (all_fields c))) @ [HMerkleize ''idx''])"


text \<open>
  The statements of a hashing method field by field, each with the info of its field: the Java and C#
  back ends write them in a way that depends on the info, such as the type of a loop variable.
\<close>

definition index_info :: "SszContainerInfo \<Rightarrow> u32 \<Rightarrow> SszFieldInfo option" where
  "index_info c i = Option.bind (map_of (index_to_field c) i) (field_infos c)"

definition hash_pieces ::
  "hash_style \<Rightarrow> dialect \<Rightarrow> SszContainerInfo \<Rightarrow> (SszFieldInfo option \<times> hstmt list) list" where
  "hash_pieces S D c =
     (None, [HIndex ''idx'', HBlank]) #
     (if is_progressive c then
        map (\<lambda>i. (index_info c (of_nat i), index_stmts S D c (of_nat i))) [0..<Suc (unat (max_ssz_index c))] @
        [(None, [HBlank, HProgActive ''idx'' (active_fields_bitvector c)])]
      else
        map (\<lambda>f. (Some (snd f), field_hash_stmts S D f)) (infos_of c (all_fields c)) @ [(None, [HMerkleize ''idx''])])"

text \<open>Together they are the body of the method.\<close>

lemma hash_pieces_body: "concat (map snd (hash_pieces S D c)) = hash_body S D c"
  by (simp add: hash_pieces_def hash_body_def comp_def del: upt_Suc)

definition print_pieces :: "(SszFieldInfo option \<Rightarrow> hstmt list \<Rightarrow> string) \<Rightarrow> (SszFieldInfo option \<times> hstmt list) list \<Rightarrow> string" where
  "print_pieces pr ps = concat (map (\<lambda>(i, ss). pr i ss) ps)"

lemma print_pieces_simps [simp]:
  "print_pieces pr [] = []" "print_pieces pr ((i, ss) # ps) = pr i ss @ print_pieces pr ps"
  "print_pieces pr (ps @ qs) = print_pieces pr ps @ print_pieces pr qs"
  "print_pieces pr (map (\<lambda>x. (f x, g x)) xs) = concat (map (\<lambda>x. pr (f x) (g x)) xs)"
  by (simp_all add: print_pieces_def comp_def)

end
