(* ===== verification/Go_Hash_Program.thy ===== *)
theory Go_Hash_Program
  imports Go_Program Emit_Hash
begin

text \<open>
  The style of the Go back end, and the proofs that the text emitted by \<open>Go_Hash_Text\<close> is the text of
  the statements of \<open>Emit_Hash\<close>.
\<close>

section \<open>The style\<close>

definition list_limit :: "SszFieldInfo \<Rightarrow> u64" where
  "list_limit info =
     (if elem_is info SszUint8 then go_ssz_limit_for_bytes (info_limit info)
      else if elem_is info SszContainer then info_limit info
      else go_ssz_limit_for_elements (info_limit info) (elem_fixed_size info))"

definition go_style :: hash_style where
  "go_style = \<lparr>hs_index_loops = True, hs_gap = HPutZero, hs_limit = list_limit\<rparr>"

lemma go_style_simps [simp]:
  "hs_index_loops go_style" "hs_gap go_style = HPutZero" "hs_limit go_style = list_limit"
  by (simp_all add: go_style_def)

section \<open>The emitted text is the text of the statements\<close>

lemma digit_8: "NumToString 8 = ''8''"
  by code_simp

lemma print_append:
  "go_GenHashPrimitive t (pp_expr e) ind True = pp_hstmts ind (append_stmts t e)"
  by (cases t) (simp_all add: go_GenHashPrimitive_def append_stmts_def num_literals digit_8)

lemmas print_append_exprs =
  print_append [of _ "GIndex e ''i''" for e, simplified] print_append [of _ "GLocal ''v''", simplified]

lemma elem_is_none: "elem_info info = None \<Longrightarrow> \<not> elem_is info t"
  by (simp add: elem_is_def)

lemma print_hash_vector: "go_hash_vector info (pp_expr e) ind = pp_hstmts ind (hash_vector_stmts True info e)"
  by (simp add: go_hash_vector_def hash_vector_stmts_def sub_tree_def go_GenHashPrimitiveArray_def
      print_append_exprs)

lemma print_hash_list: "go_hash_list info (pp_expr e) ind = pp_hstmts ind (hash_list_stmts list_limit info e)"
  by (cases "elem_info info = None")
    (simp_all add: elem_is_none go_hash_list_def hash_list_stmts_def hash_elems_stmts_def list_limit_def
      sub_tree_def go_GenHashPrimitiveSlice_def go_mixin_def print_append_exprs Let_def)

lemma print_hash_progressive:
  "go_hash_progressive_list info (pp_expr e) ind = pp_hstmts ind (hash_progressive_stmts info e)"
  by (cases "elem_info info = None")
    (simp_all add: elem_is_none go_hash_progressive_list_def hash_progressive_stmts_def
      hash_elems_stmts_def sub_tree_def go_GenHashPrimitiveSlice_def go_progressive_mixin_def
      print_append_exprs)

lemma print_hash: "go_GenHashField info (pp_expr e) ind = pp_hstmts ind (hash_stmts go_style info e)"
  by (cases "ssz_type info")
    (simp_all add: go_GenHashField_def hash_stmts_def print_hash_vector print_hash_list
      print_hash_progressive go_hash_container_def num_literals digit_8)

lemma print_hash_member:
  "go_GenHashField info (go_member G (field_at (gen_parser G) p)) ind =
   pp_hstmts ind (hash_stmts go_style info (member_expr (go_dialect G) p))"
  by (simp only: member_text print_hash)

lemma print_hash_index: "go_hash_index G c i = pp_hstmts tab (index_stmts go_style (go_dialect G) c i)"
  by (simp add: go_hash_index_def index_stmts_def print_hash_member Let_def split: option.split)

lemma print_hash_body:
  "go_GenHashTreeRootWith G sd c =
     line [] (''func (t *'' @ sd_name sd @ '') HashTreeRootWith(hh sszutils.HashWalker) error {'') @
     pp_hstmts tab (hash_body go_style (go_dialect G) c) @ line tab ''return nil'' @ line [] ''}''"
proof -
  have "each_field c ps (\<lambda>p info. let field = field_at (gen_parser G) p in
      line tab (''// Field '' @ sq @ fd_name field @ sq) @ go_GenHashField info (go_member G field) tab @ nl) =
      pp_hstmts tab (concat (map (field_hash_stmts go_style (go_dialect G)) (infos_of c ps)))" for ps
    by (induction ps) (auto simp: field_hash_stmts_def print_hash_member Let_def split: option.splits)
  moreover have "concat (map (\<lambda>i. go_hash_index G c (of_nat i)) is) =
      pp_hstmts tab (concat (map (\<lambda>i. index_stmts go_style (go_dialect G) c (of_nat i)) is))" for "is" :: "nat list"
    by (induction "is") (auto simp: print_hash_index)
  ultimately show ?thesis
    by (simp only: go_GenHashTreeRootWith_def hash_body_def) (simp del: upt_Suc)
qed

end
