(* ===== verification/Go_Facts.thy ===== *)
theory Go_Facts
  imports Go_Generator Lean_Analysis
begin

text \<open>
  Facts about the rest of the Go back end: the chunk limits, the names of members and files, the
  end of a file, the files that \<open>generate\<close> writes, and the types that no back end accepts.
  At the end, the leaves of progressive containers and lists in the emitted hashing methods.
\<close>

section \<open>Chunk limits\<close>

lemma limit_for_bytes:
  assumes "unat l < 2 ^ 64 - 32"
  shows "unat (go_ssz_limit_for_bytes l) = (unat l + 31) div 32"
proof -
  have "unat (l + 31) = unat l + 31"
    using assms by (subst unat_add_lem [THEN iffD1]) simp_all
  then show ?thesis by (simp add: go_ssz_limit_for_bytes_def unat_div)
qed

text \<open>A list of \<open>l\<close> elements of \<open>n\<close> bytes, \<open>n\<close> a power of two, takes \<open>l * n / 32\<close> chunks,
  rounded up.\<close>

lemma ceil_scale:
  fixes l k n :: nat
  assumes "k * n = 32"
  shows "(l + k - 1) div k = (l * n + 31) div 32"
proof -
  have k: "0 < k" "0 < n" using assms by (auto intro: Nat.gr0I)
  have "(l * n + 31) div 32 = (l * n + 31) div n div k"
    using assms by (simp add: div_mult2_eq [symmetric] mult.commute)
  also have "(l * n + 31) div n = l + 31 div n" using k by simp
  also have "31 div n = k - 1"
  proof -
    have "n * (k - 1) = 32 - n" using assms by (simp add: diff_mult_distrib2 mult.commute)
    moreover have "n \<le> 32" using assms k by (metis dvd_imp_le dvd_triv_right zero_less_numeral)
    ultimately show ?thesis using k assms by (intro div_nat_eqI) (simp_all add: mult.commute)
  qed
  finally show ?thesis using k by simp
qed

lemma limit_for_elements:
  assumes "n \<in> {1, 2, 4, 8, 16}" and "unat l < 2 ^ 64 - 32"
  shows "unat (go_ssz_limit_for_elements l n) = (unat l * unat n + 31) div 32"
proof -
  define k where "k = 32 div n"
  have n: "n = 1 \<and> k = 32 \<or> n = 2 \<and> k = 16 \<or> n = 4 \<and> k = 8 \<or> n = 8 \<and> k = 4 \<or> n = 16 \<and> k = 2"
    using assms(1) by (auto simp: k_def)
  then have k: "unat k * unat n = 32" "0 < unat k" "unat k \<le> 32" "\<not> 32 \<le> n"
    by (auto simp: word_le_nat_alt)
  have uk: "unat (ucast k :: u64) = unat k" using n by auto
  have "unat (l + ucast k - 1) = unat l + unat k - 1"
  proof -
    have "unat (l + ucast k) = unat l + unat k"
      using assms(2) k uk by (subst unat_add_lem [THEN iffD1]) (simp_all add: uk)
    moreover from this k have "l + ucast k \<noteq> 0" by (metis add_is_0 neq0_conv unat_0)
    ultimately show ?thesis by (simp add: unat_minus_one)
  qed
  then have "unat (go_ssz_limit_for_elements l n) = (unat l + unat k - 1) div unat k"
    using k by (simp add: go_ssz_limit_for_elements_def k_def [symmetric] Let_def unat_div uk)
  with ceil_scale [OF k(1)] show ?thesis by simp
qed

section \<open>Names\<close>

text \<open>An escaped keyword is not itself a keyword.\<close>

lemma go_keywords_escape: "\<forall>k \<in> set GoKeywords. k @ ''_'' \<notin> set GoKeywords"
  by code_simp

lemma go_field_not_keyword: "go_Field G f \<notin> set GoKeywords"
proof -
  have "keywords_casing (go_namer G) = CaseSensitive" "keyword_prefix (go_namer G) = []"
    "keyword_suffix (go_namer G) = ''_''" "escape_keywords (go_namer G) = AfterConvertingCase"
    by (simp_all add: go_namer_def WithFlagOptions_def SszGoDefaultConfig_def)
  with EscapeKeyword_not_keyword [of "go_namer G" GoKeywords] go_keywords_escape show ?thesis
    by (simp add: go_Field_def Field_def Format_def)
qed

section \<open>Files\<close>

lemma pop_newlines_end: "pop_newlines s \<noteq> CHR 0x0A # CHR 0x0A # c # r"
proof (induction s rule: pop_newlines.induct)
  case (1 a b d t)
  then show ?case by (cases "a = CHR 0x0A \<and> b = CHR 0x0A") auto
qed auto

text \<open>\<open>pop_newlines\<close> only removes newlines.\<close>

lemma pop_newlines_drop: "\<exists>k. s = replicate k (CHR 0x0A) @ pop_newlines s"
proof (induction s rule: pop_newlines.induct)
  case (1 a b d t)
  show ?case
  proof (cases "a = CHR 0x0A \<and> b = CHR 0x0A")
    case True
    with 1 obtain k where "b # d # t = replicate k (CHR 0x0A) @ pop_newlines (b # d # t)" by blast
    with True show ?thesis by (intro exI [of _ "Suc k"]) simp
  next
    case False
    then show ?thesis by (intro exI [of _ 0]) auto
  qed
qed (auto intro: exI [of _ 0])

lemma strip_newlines_keeps: "\<exists>k. s = strip_newlines s @ replicate k (CHR 0x0A)"
proof -
  obtain k where "rev s = replicate k (CHR 0x0A) @ pop_newlines (rev s)"
    using pop_newlines_drop by blast
  then have "rev (rev s) = rev (replicate k (CHR 0x0A) @ pop_newlines (rev s))" by simp
  then show ?thesis by (auto simp: strip_newlines_def)
qed

text \<open>
  \<open>generate\<close> writes one file for every definition that is not marked as generated, in the order
  of the schema, with the text of the definition's analysis.
\<close>

definition go_file :: "nat \<Rightarrow> SszGenerator \<Rightarrow> StructPtr \<Rightarrow> string \<times> string \<Rightarrow> bool" where
  "go_file depth G s file \<longleftrightarrow>
     (\<exists>c. go_AnalyzeContainer depth (gen_parser G) s = Inr c \<and>
       fst file = go_file_name G (struct_at (gen_parser G) s) \<and>
       snd file = go_file_text (struct_at (gen_parser G) s)
         (go_GenerateType G (struct_at (gen_parser G) s) c))"

lemma go_generate_struct_ok:
  assumes "go_generate_struct save depth G s w = Inr w'"
  shows "if sd_generated (struct_at (gen_parser G) s) then w' = w
    else \<exists>file. w' = w @ [file] \<and> go_file depth G s file \<and> save (fst file) (snd file)"
proof -
  have "go_GenerateType G sd c \<noteq> []" for sd c
    by (simp add: go_GenerateType_def go_GenGoStruct_def line_def)
  with assms show ?thesis
    by (auto simp: go_generate_struct_def go_SaveType_def go_file_def Let_def bind_res_Inr_iff
        split: if_splits)
qed

lemma go_generate_files:
  assumes "go_generate save depth G = Inr files"
  shows "list_all2 (go_file depth G)
      (filter (\<lambda>s. \<not> sd_generated (struct_at (gen_parser G) s)) (structs_vec (gen_parser G))) files \<and>
    list_all (\<lambda>(name, text). save name text) files"
proof -
  have "\<exists>fs. files = w @ fs \<and>
      list_all2 (go_file depth G) (filter (\<lambda>s. \<not> sd_generated (struct_at (gen_parser G) s)) ss) fs \<and>
      list_all (\<lambda>(name, text). save name text) fs"
    if "fold_res (go_generate_struct save depth G) ss w = Inr files" for ss w
    using that
  proof (induction ss arbitrary: w)
    case (Cons s ss)
    then obtain w1 where w1: "go_generate_struct save depth G s w = Inr w1"
      and rest: "fold_res (go_generate_struct save depth G) ss w1 = Inr files"
      by (auto simp: bind_res_Inr_iff)
    from Cons.IH [OF rest] go_generate_struct_ok [OF w1] show ?case
      by (auto simp: split_beta split: if_splits)
  qed simp
  from this [of "structs_vec (gen_parser G)" "[]"] assms show ?thesis by (simp add: go_generate_def)
qed

text \<open>Where every analysis succeeds and every file can be written, so does the run.\<close>

lemma go_generate_total:
  assumes "\<forall>s \<in> set (structs_vec (gen_parser G)).
      sd_generated (struct_at (gen_parser G) s) \<or> is_ok (go_AnalyzeContainer depth (gen_parser G) s)"
    and "\<forall>name text. save name text"
  shows "\<exists>files. go_generate save depth G = Inr files"
proof -
  have "\<exists>w'. fold_res (go_generate_struct save depth G) ss w = Inr w'"
    if "\<forall>s \<in> set ss. sd_generated (struct_at (gen_parser G) s) \<or>
      is_ok (go_AnalyzeContainer depth (gen_parser G) s)" for ss w
    using that
  proof (induction ss arbitrary: w)
    case (Cons s ss)
    have "\<exists>w'. go_generate_struct save depth G s w = Inr w'"
      using Cons.prems assms(2)
      by (cases "go_AnalyzeContainer depth (gen_parser G) s")
        (auto simp: go_generate_struct_def go_SaveType_def Let_def)
    with Cons show ?case by fastforce
  qed simp
  with assms(1) show ?thesis by (simp add: go_generate_def)
qed

section \<open>Types that no back end accepts\<close>

text \<open>
  A union field comes with a field for its type, which the parser adds; its base type is none of
  those that \<open>ResolveSszFieldInfo\<close> knows.
\<close>

definition unsupported_base :: "BaseType \<Rightarrow> bool" where
  "unsupported_base b \<longleftrightarrow>
     b \<in> {BASE_TYPE_NONE, BASE_TYPE_UTYPE, BASE_TYPE_FLOAT, BASE_TYPE_DOUBLE, BASE_TYPE_VECTOR64}"

lemma unsupported_no_type: "unsupported_base (base_type (field_type f)) \<Longrightarrow> field_ty st f = None"
  by (auto simp: unsupported_base_def field_ty_def scalar_ty_def Let_def)

lemma fields_ty_None:
  "p \<in> set ps \<Longrightarrow> \<not> fd_deprecated (field_at P p) \<Longrightarrow> field_ty st (field_at P p) = None \<Longrightarrow>
   fields_ty P st ps = None"
  by (induction ps) (auto split: option.splits)

lemma unsupported_struct:
  assumes "p \<in> set (live_fields P s)" and "unsupported_base (base_type (field_type (field_at P p)))"
  shows "struct_ty n P s = None"
proof (cases n)
  case (Suc m)
  have "fields_ty P (struct_ty m P) (sd_fields (struct_at P s)) = None"
    by (rule fields_ty_None [of p])
      (use assms unsupported_no_type in \<open>auto simp: live_fields_def\<close>)
  with Suc show ?thesis by simp
qed simp


text \<open>
  The leaves that the emitted \<open>HashTreeRootWith\<close> puts into the tree of a progressive container:
  one for every index up to the highest, in order.
\<close>

section \<open>From indices back to fields\<close>

lemma index_fold:
  assumes "std_map_ok acc"
  shows "std_map_ok (fold (\<lambda>(p, idx). std_map_set idx p) m acc) \<and>
    map_of (fold (\<lambda>(p, idx). std_map_set idx p) m acc) =
      map_of acc ++ map_of (map (\<lambda>(p, idx). (idx, p)) (rev m))"
  using assms
proof (induction m arbitrary: acc)
  case (Cons x m)
  obtain p idx where x: "x = (p, idx)" by (cases x)
  have "std_map_ok (std_map_set idx p acc)" using Cons.prems by (rule std_map_set_ok)
  from Cons.IH [OF this] x map_of_std_map_set [OF Cons.prems] show ?case
    by (simp add: map_add_def fun_eq_iff split: option.splits)
qed simp

lemma index_to_field_map:
  "map_of (index_to_field c) = map_of (map (\<lambda>(p, idx). (idx, p)) (rev (field_ssz_indices c)))"
  using index_fold [of "[]" "field_ssz_indices c"] by (simp add: index_to_field_def std_map_ok_Nil)

text \<open>Of two fields with the same index the one with the higher address wins.\<close>

lemma last_entry:
  assumes "std_map_ok m" and "(p, idx) \<in> set m" and "\<And>q. (q, idx) \<in> set m \<Longrightarrow> q \<le> p"
  shows "map_of (map (\<lambda>(p, idx). (idx, p)) (rev m)) idx = Some p"
  using assms
proof (induction m rule: rev_induct)
  case (snoc x m)
  obtain q j where x: "x = (q, j)" by (cases x)
  from snoc.prems(1) x have m: "std_map_ok m" "\<forall>k \<in> fst ` set m. k < q"
    by (auto simp: std_map_ok_def sorted_wrt_append)
  show ?case
  proof (cases "j = idx")
    case True
    then have "q \<le> p" using snoc.prems(3) x by simp
    with m(2) snoc.prems(2) x True have "p = q" by force
    with x True show ?thesis by simp
  next
    case False
    with snoc x m show ?thesis by auto
  qed
qed simp

lemma no_entry:
  "\<forall>p. (p, idx) \<notin> set m \<Longrightarrow> map_of (map (\<lambda>(p, idx). (idx, p)) (rev m)) idx = None"
  by (force simp: map_of_eq_None_iff)

section \<open>Leaves\<close>

definition index_line :: "u32 \<Rightarrow> string \<Rightarrow> string" where
  "index_line i what = line tab (''// Index '' @ num32 i @ '': '' @ what)"

lemma indices_rep_entry:
  assumes "indices_rep P ps c"
  shows "(q, i) \<in> set (field_ssz_indices c) \<longleftrightarrow> q \<in> set ps \<and> ssz_index P q = Some i"
proof -
  have "distinct (map fst (field_ssz_indices c))"
    using assms std_map_ok_distinct by (auto simp: indices_rep_def)
  then have "(q, i) \<in> set (field_ssz_indices c) \<longleftrightarrow> map_of (field_ssz_indices c) q = Some i"
    by simp
  with assms show ?thesis by (simp add: indices_rep_def)
qed

lemma index_to_field_live:
  assumes rep: "indices_rep P ps c" and p: "p \<in> set ps" "ssz_index P p = Some i"
    and max: "\<forall>q \<in> set ps. ssz_index P q = Some i \<longrightarrow> q \<le> p"
  shows "map_of (index_to_field c) i = Some p"
  unfolding index_to_field_map
proof (rule last_entry)
  show "std_map_ok (field_ssz_indices c)" using rep by (simp add: indices_rep_def)
  show "(p, i) \<in> set (field_ssz_indices c)" using p by (simp add: indices_rep_entry [OF rep])
  fix q assume "(q, i) \<in> set (field_ssz_indices c)"
  with max show "q \<le> p" by (simp add: indices_rep_entry [OF rep])
qed

lemma index_to_field_gap:
  assumes rep: "indices_rep P ps c" and gap: "\<forall>q \<in> set ps. ssz_index P q \<noteq> Some i"
  shows "map_of (index_to_field c) i = None"
  unfolding index_to_field_map
proof (rule no_entry, rule allI, rule notI)
  fix q assume "(q, i) \<in> set (field_ssz_indices c)"
  with gap show False by (auto simp: indices_rep_entry [OF rep])
qed

lemma hash_index_live:
  assumes rep: "indices_rep P ps c" and p: "p \<in> set ps" "ssz_index P p = Some i"
    and max: "\<forall>q \<in> set ps. ssz_index P q = Some i \<longrightarrow> q \<le> p"
    and info: "field_infos c p = Some info" and G: "P = gen_parser G"
  shows "go_hash_index G c i =
    index_line i (fd_name (field_at P p)) @ go_GenHashField info (go_member G (field_at P p)) tab"
  using index_to_field_live [OF rep p max] info G by (simp add: go_hash_index_def Let_def index_line_def)

lemma hash_index_gap:
  assumes rep: "indices_rep P ps c" and gap: "\<forall>q \<in> set ps. ssz_index P q \<noteq> Some i"
  shows "go_hash_index G c i = index_line i ''gap (inactive)'' @ line tab ''hh.PutUint8(0)''"
  using index_to_field_gap [OF assms] by (simp add: go_hash_index_def index_line_def)

section \<open>The leaves of an analysed container\<close>

lemma go_live_infos:
  assumes "go_AnalyzeContainer n P s = Inr c" and "p \<in> set (all_fields c)"
  shows "field_infos c p \<noteq> None"
proof -
  obtain m where n: "n = Suc m" using assms(1) go.depth_0 by (cases n) auto
  with assms(1) obtain c0 where
    c0: "fold_res (go_add_field P (go_AnalyzeContainer m P)) (sd_fields (struct_at P s))
      (new_container\<lparr>static_size := 0, is_fixed := True\<rparr>) = Inr c0" and c: "same_layout c c0"
    by (auto simp: go_AnalyzeContainer.simps go_analyze_body_def Let_def bind_res_Inr_iff
        dest: go_progressive_same_layout intro: same_layout_refl split: if_splits)
  have "\<forall>p \<in> set (all_fields c0). field_infos c0 p \<noteq> None"
    by (rule fold_res_invariant [OF c0])
      (auto simp: new_container_def go_add_field_def Let_def bind_res_Inr_iff emplace_def
        split: if_splits)
  with c assms(2) show ?thesis by (simp add: same_layout_def)
qed

text \<open>The leaves of \<open>HashTreeRootWith\<close>, index by index, in the order the code emits them.\<close>

lemma go_leaf:
  assumes ok: "go_AnalyzeContainer n P s = Inr c" and wf: "wf_schema P"
    and s: "s < length (struct_store P)"
    and prog: "Lookup (sd_attributes (struct_at P s)) ''ssz_progressive'' \<noteq> None"
    and G: "P = gen_parser G"
  shows "(\<forall>q \<in> set (live_fields P s). ssz_index P q \<noteq> Some i) \<Longrightarrow>
      go_hash_index G c i = index_line i ''gap (inactive)'' @ line tab ''hh.PutUint8(0)''"
    and "\<lbrakk>p \<in> set (live_fields P s); ssz_index P p = Some i;
        \<forall>q \<in> set (live_fields P s). ssz_index P q = Some i \<longrightarrow> q \<le> p\<rbrakk> \<Longrightarrow>
      \<exists>info. field_infos c p = Some info \<and> go_hash_index G c i =
        index_line i (fd_name (field_at P p)) @ go_GenHashField info (go_member G (field_at P p)) tab"
proof -
  from go_active_bits [OF ok wf s prog] have rep: "indices_rep P (live_fields P s) c"
    and live: "all_fields c = live_fields P s" by blast+
  show "(\<forall>q \<in> set (live_fields P s). ssz_index P q \<noteq> Some i) \<Longrightarrow>
      go_hash_index G c i = index_line i ''gap (inactive)'' @ line tab ''hh.PutUint8(0)''"
    by (rule hash_index_gap [OF rep])
  assume p: "p \<in> set (live_fields P s)" "ssz_index P p = Some i"
    "\<forall>q \<in> set (live_fields P s). ssz_index P q = Some i \<longrightarrow> q \<le> p"
  with go_live_infos [OF ok] live obtain info where "field_infos c p = Some info" by auto
  with hash_index_live [OF rep p this G]
  show "\<exists>info. field_infos c p = Some info \<and> go_hash_index G c i =
        index_line i (fd_name (field_at P p)) @ go_GenHashField info (go_member G (field_at P p)) tab"
    by blast
qed

end
