(* ===== verification/Go_Hash_Exec.thy ===== *)
theory Go_Hash_Exec
  imports Go_Hash_Program Go_Marshal Go_Facts
begin

text \<open>
  What the hashing statements of one field do, with any hasher that keeps the contract
  \<open>hash_walker\<close>: they append the hash tree root of the field's value to the hasher's content.
  \<open>hashable\<close> says which types the emitted code hashes as the specification does; the locale
  \<open>hash_emitter\<close> says what a back end's style has to promise.
\<close>

declare eval.simps(1) [simp del]

section \<open>Types that are hashed faithfully\<close>

text \<open>
  Vectors and bit vectors are not empty; list limits are at most \<open>2 ^ 63\<close>, so that the chunk
  limits do not wrap and the hasher can round them up; the elements of a list of byte lists have
  a limit; a progressive list of byte lists is not hashed at all.
\<close>

fun hashable :: "ssz_ty \<Rightarrow> bool"
  and all_hashable :: "(string \<times> ssz_ty) list \<Rightarrow> bool" where
  "hashable TBool = True"
| "hashable (TUint k) = (k = 1 \<or> k = 2 \<or> k = 4 \<or> k = 8)"
| "hashable (TVector t n) = (0 < n \<and> hashable t)"
| "hashable (TList t l) = (l \<le> 2 ^ 63 \<and> hashable t \<and> (case t of TList u k \<Rightarrow> 0 < k | _ \<Rightarrow> True))"
| "hashable (TProgressiveList t) = (hashable t \<and> (case t of TList u k \<Rightarrow> False | _ \<Rightarrow> True))"
| "hashable (TBitvector n) = (0 < n)"
| "hashable (TBitlist l) = (l \<le> 2 ^ 63)"
| "hashable (TContainer s fs) = all_hashable fs"
| "hashable TUnion = False"
| "all_hashable [] = True"
| "all_hashable ((n, t) # fs) = (hashable t \<and> all_hashable fs)"

lemma all_hashable_append [simp]: "all_hashable (fs @ gs) = (all_hashable fs \<and> all_hashable gs)"
  by (induction fs) auto

text \<open>Types all of whose lists of plain elements have a limit that satisfies \<open>Q\<close>.\<close>

fun limits_ok :: "(ssz_ty \<Rightarrow> nat \<Rightarrow> bool) \<Rightarrow> ssz_ty \<Rightarrow> bool"
  and all_limits_ok :: "(ssz_ty \<Rightarrow> nat \<Rightarrow> bool) \<Rightarrow> (string \<times> ssz_ty) list \<Rightarrow> bool" where
  "limits_ok Q (TVector t n) = limits_ok Q t"
| "limits_ok Q (TList t l) = (limits_ok Q t \<and> (case t of TList u k \<Rightarrow> True | _ \<Rightarrow> Q t l))"
| "limits_ok Q (TProgressiveList t) = limits_ok Q t"
| "limits_ok Q (TContainer s fs) = all_limits_ok Q fs"
| "limits_ok Q t = True"
| "all_limits_ok Q [] = True"
| "all_limits_ok Q ((n, t) # fs) = (limits_ok Q t \<and> all_limits_ok Q fs)"

lemma no_limits [simp]:
  "limits_ok (\<lambda>t l. True) t" "all_limits_ok (\<lambda>t l. True) fs"
  by (induction t and fs rule: hashable_all_hashable.induct) (auto split: ssz_ty.split)

section \<open>Roots have 32 bytes\<close>

lemma length_mix_in: "(\<And>x. length (H x) = 32) \<Longrightarrow> length (mix_in_length H r n) = 32"
  by (simp add: mix_in_length_def)

lemma length_merkleize_chunks:
  "(\<And>x. length (H x) = 32) \<Longrightarrow> length (merkleize H l (chunks bs)) = 32"
  by (rule length_merkleize) (auto dest: chunk_length)

text \<open>The split of a value of a sequence type.\<close>

lemma val_ok_seq:
  "val_ok (TVector t n) (VSeq xs) \<longleftrightarrow> \<not> is_byte_ty t \<and> length xs = n \<and> (\<forall>x \<in> set xs. val_ok t x)"
  "val_ok (TList t l) (VSeq xs) \<longleftrightarrow> \<not> is_byte_ty t \<and> (\<forall>x \<in> set xs. val_ok t x)"
  "val_ok (TProgressiveList t) (VSeq xs) \<longleftrightarrow> \<not> is_byte_ty t \<and> (\<forall>x \<in> set xs. val_ok t x)"
  by auto

lemma val_ok_bytes:
  "val_ok (TVector t n) (VBytes bs) \<longleftrightarrow> is_byte_ty t \<and> length bs = n"
  "val_ok (TList t l) (VBytes bs) \<longleftrightarrow> is_byte_ty t"
  "val_ok (TProgressiveList t) (VBytes bs) \<longleftrightarrow> is_byte_ty t"
  by auto

lemma val_ok_atom:
  "val_ok t (VBool b) \<longleftrightarrow> t = TBool"
  "val_ok t (VUint n) \<longleftrightarrow> (\<exists>k. t = TUint k \<and> n < 256 ^ k)"
  "val_ok t (VStruct s vs) \<longleftrightarrow> (\<exists>fs. t = TContainer s fs \<and> vals_ok fs vs)"
  "val_ok t VNil \<longleftrightarrow> False"
  by (cases t; auto)+

lemma root_length:
  assumes H: "\<And>x. length (H x) = 32"
  shows "hashable t \<Longrightarrow> val_ok t v \<Longrightarrow> length (hash_tree_root H PR L t v) = 32"
    and "all_hashable fs \<Longrightarrow> vals_ok fs vs \<Longrightarrow> \<forall>r \<in> set (field_roots H PR L fs vs). length r = 32"
  using H
proof (induction H PR L t v and H PR L fs vs rule: hash_tree_root_field_roots.induct)
  case (9 H PR L s fs s' vs)
  then show ?case by (auto simp: Let_def length_merkleize split: option.split)
qed (simp_all add: val_ok_seq val_ok_bytes length_mix_in length_merkleize length_merkleize_chunks
    bitlist_root_def length_pad32 val_ok_atom del: val_ok.simps, auto simp: length_pad32)

section \<open>Results of statements\<close>

text \<open>A run that ends in the frame \<open>fr\<close> and leaves the content \<open>bs\<close>.\<close>

definition keeps :: "('s \<Rightarrow> byte list) \<Rightarrow> gframe \<Rightarrow> (gframe \<times> 's) option \<Rightarrow> byte list \<Rightarrow> bool" where
  "keeps content fr r bs \<longleftrightarrow> (\<exists>s'. r = Some (fr, s') \<and> content s' = bs)"

lemma keeps_with_frame [simp]: "keeps content fr (with_frame fr r) bs = leaves content r bs"
  by (auto simp: keeps_def leaves_def with_frame_def)

lemma keeps_leaves: "keeps content fr r bs \<Longrightarrow> leaves content (map_option snd r) bs"
  by (auto simp: keeps_def leaves_def)

lemma leaves_bind:
  "leaves content r bs \<Longrightarrow> (\<And>s. content s = bs \<Longrightarrow> leaves content (f s) cs) \<Longrightarrow>
   leaves content (Option.bind r f) cs"
  by (auto simp: leaves_def)

lemma keeps_bind:
  "keeps content fr r bs \<Longrightarrow> (\<And>s. content s = bs \<Longrightarrow> keeps content fr' (f (fr, s)) cs) \<Longrightarrow>
   keeps content fr' (Option.bind r f) cs"
  by (auto simp: keeps_def)

lemma fold_opt_content:
  assumes "\<And>x s. x \<in> set xs \<Longrightarrow> I (content s) \<Longrightarrow>
    leaves content (step x s) (content s @ g x) \<and> I (content s @ g x)"
  shows "I (content s) \<Longrightarrow> leaves content (fold_opt step xs s) (content s @ concat (map g xs))"
  using assms
proof (induction xs arbitrary: s)
  case Nil
  then show ?case by (simp add: leaves_def)
next
  case (Cons x xs)
  from Cons.prems(2) [of x s] Cons.prems(1) obtain s1 where
    s1: "step x s = Some s1" "content s1 = content s @ g x" "I (content s1)"
    by (auto simp: leaves_def)
  from Cons.IH [OF s1(3)] Cons.prems(2) s1 show ?case by simp
qed

text \<open>The three ways to go through a member's elements.\<close>

lemma for_val_content:
  assumes v: "member fr f = Some (VSeq xs)" and I: "I (content s)"
    and step: "\<And>w fr' (s :: 'a). w \<in> set xs \<Longrightarrow> I (content s) \<Longrightarrow> eval fr' (GLocal x) = Some w \<Longrightarrow>
      leaves content (map_option snd (hexecs W C body (fr', s))) (content s @ g w) \<and> I (content s @ g w)"
  shows "keeps content fr (hexec W C (HForVal x (GMember f) body) (fr, s)) (content s @ concat (map g xs))"
proof -
  have "leaves content (fold_opt (\<lambda>v s. map_option snd (hexecs W C body (bind_val x v fr, s))) xs s)
      (content s @ concat (map g xs))"
  proof (rule fold_opt_content [where I = I])
    fix w and s :: 'a
    assume "w \<in> set xs" "I (content s)"
    then show "leaves content (map_option snd (hexecs W C body (bind_val x w fr, s))) (content s @ g w) \<and>
        I (content s @ g w)"
      by (rule step) (simp add: frame_simps)
  qed (rule I)
  with v show ?thesis by (simp add: eval_member)
qed

lemma for_index_content:
  assumes v: "member fr f = Some (VSeq xs)" and I: "I (content s)"
    and step: "\<And>k fr' (s :: 'a). k < length xs \<Longrightarrow> I (content s) \<Longrightarrow>
      eval fr' (GIndex (GMember f) ''i'') = Some (xs ! k) \<Longrightarrow>
      leaves content (map_option snd (hexecs W C body (fr', s))) (content s @ g (xs ! k)) \<and>
      I (content s @ g (xs ! k))"
  shows "keeps content fr (hexec W C (HFor ''i'' (GMember f) body) (fr, s)) (content s @ concat (map g xs))"
proof -
  have "leaves content (fold_opt (\<lambda>k s. map_option snd (hexecs W C body (bind_int ''i'' k fr, s)))
      [0..<length xs] s) (content s @ concat (map (\<lambda>k. g (xs ! k)) [0..<length xs]))"
  proof (rule fold_opt_content [where I = I])
    fix k and s :: 'a
    assume k: "k \<in> set [0..<length xs]" and "I (content s)"
    with v show "leaves content (map_option snd (hexecs W C body (bind_int ''i'' k fr, s)))
        (content s @ g (xs ! k)) \<and> I (content s @ g (xs ! k))"
      by (intro step) (auto simp: member_def bind_int_def eval.simps(1))
  qed (rule I)
  moreover have "map (\<lambda>k. g (xs ! k)) [0..<length xs] = map g xs"
    by (rule nth_equalityI) auto
  ultimately show ?thesis using v by (simp add: eval_member)
qed

lemma sub_tree_keeps:
  assumes "leaves content (map_option snd (hexecs W C b (bind_int ''subIdx'' (w_index W s) fr, s))) bs"
  shows "keeps content fr (hexecs W C (sub_tree b) (fr, s)) bs"
  using assms by (simp add: sub_tree_def)

text \<open>The contract of a nested \<open>HashTreeRootWith\<close>.\<close>

definition hashes :: "('s \<Rightarrow> byte list) \<Rightarrow> hash_fun \<Rightarrow> (chunk list \<Rightarrow> chunk) \<Rightarrow> (string \<rightharpoonup> nat list) \<Rightarrow>
    (ssz_ty \<Rightarrow> nat \<Rightarrow> bool) \<Rightarrow> struct_types \<Rightarrow> 's hcalls \<Rightarrow> bool" where
  "hashes content H PR L Q st C \<longleftrightarrow>
     (\<forall>q nm fs vs s. st q = Some (TContainer nm fs) \<longrightarrow> fields_bits_ok fs \<longrightarrow> all_hashable fs \<longrightarrow>
        all_limits_ok Q fs \<longrightarrow> vals_ok fs vs \<longrightarrow> all_within fs vs \<longrightarrow> 32 dvd length (content s) \<longrightarrow>
        leaves content (C nm vs s) (content s @ hash_tree_root H PR L (TContainer nm fs) (VStruct nm vs)))"

section \<open>Elements\<close>

text \<open>The chunks that the elements of a list make, before they are merkleized.\<close>

fun elem_chunks :: "hash_fun \<Rightarrow> (chunk list \<Rightarrow> chunk) \<Rightarrow> (string \<rightharpoonup> nat list) \<Rightarrow> ssz_ty \<Rightarrow> val \<Rightarrow> chunk list" where
  "elem_chunks H PR L t (VBytes bs) = chunks bs"
| "elem_chunks H PR L t (VSeq xs) =
     (if is_basic t then chunks (concat (map (serialize t) xs)) else map (hash_tree_root H PR L t) xs)"
| "elem_chunks H PR L t v = []"

lemma chunks_roots:
  assumes "\<And>x. length (H x) = 32" and "hashable t" and "\<forall>x \<in> set xs. val_ok t x"
  shows "chunks (concat (map (hash_tree_root H PR L t) xs)) = map (hash_tree_root H PR L t) xs"
    and "32 dvd length (concat (map (hash_tree_root H PR L t) xs))"
proof -
  have len: "\<forall>c \<in> set (map (hash_tree_root H PR L t) xs). length c = 32"
    using root_length(1) [of H t] assms by auto
  then show "chunks (concat (map (hash_tree_root H PR L t) xs)) = map (hash_tree_root H PR L t) xs"
    by (rule chunks_concat)
  have "sum_list (map length (map (hash_tree_root H PR L t) xs)) =
      length (map (hash_tree_root H PR L t) xs) * 32"
    by (rule sum_list_const) (use len in blast)
  then show "32 dvd length (concat (map (hash_tree_root H PR L t) xs))"
    by (simp add: length_concat)
qed

context hash_walker
begin

lemma append_prim:
  assumes "info_rep st e t" and "hashable t" and "is_basic t" and "val_ok t v" and "eval fr ex = Some v"
  shows "keeps content fr (hexecs W C (append_stmts (ssz_type e) ex) (fr, s)) (content s @ serialize t v)"
  using assms append_bool [of _ s] append_uint [of 8 _ s] append_uint [of 16 _ s]
    append_uint [of 32 _ s] append_uint [of 64 _ s]
  by (cases t) (auto simp: append_stmts_def hexecs_one word_bits_def split: if_splits)

lemma hash_call:
  assumes C: "hashes content H PR L Q st C" and rep: "info_rep st e (TContainer nm fs)"
    and fs: "fields_bits_ok fs" "all_hashable fs" "all_limits_ok Q fs" and ok: "val_ok (TContainer nm fs) v"
    and w: "within (TContainer nm fs) v" and v: "eval fr ex = Some v" and al: "32 dvd length (content s)"
  shows "keeps content fr (hexec W C (HCall ex) (fr, s))
    (content s @ hash_tree_root H PR L (TContainer nm fs) v)"
proof -
  from ok obtain vs where vs: "v = VStruct nm vs" "vals_ok fs vs" by auto
  from rep obtain q where "st q = Some (TContainer nm fs)" by auto
  with C fs vs w al have "leaves content (C nm vs s)
      (content s @ hash_tree_root H PR L (TContainer nm fs) (VStruct nm vs))"
    unfolding hashes_def by simp
  with v vs(1) show ?thesis by simp
qed

lemma fill_after:
  assumes "keeps content fr (hexec W C x st) bs"
  shows "keeps content fr (hexecs W C [x, HFill] st) (pad32 bs)"
  unfolding hexecs_more using assms
  by (rule keeps_bind) (metis fill_up_to_32 hexec.simps(12) hexecs_one keeps_with_frame)

text \<open>The loop over the elements of a list or of a vector of containers.\<close>

lemma root_dvd:
  "32 dvd length bs \<Longrightarrow> hashable t \<Longrightarrow> val_ok t v \<Longrightarrow> 32 dvd length (bs @ hash_tree_root H PR L t v)"
  using root_length(1) [of H t v PR L] hash_len by simp

lemma prim_loop_content:
  assumes e: "info_rep st e t" and t: "hashable t" "is_basic t"
    and v: "member fr f = Some (VSeq xs)" "\<forall>x \<in> set xs. val_ok t x"
  shows "keeps content fr (hexec W C (HForVal ''v'' (GMember f) (append_stmts (ssz_type e) (GLocal ''v'')))
      (fr, s)) (content s @ concat (map (serialize t) xs))"
    and "keeps content fr (hexec W C (HFor ''i'' (GMember f)
      (append_stmts (ssz_type e) (GIndex (GMember f) ''i''))) (fr, s))
      (content s @ concat (map (serialize t) xs))"
proof -
  have step: "leaves content (map_option snd (hexecs W C (append_stmts (ssz_type e) ex) (fr', s')))
      (content s' @ serialize t w) \<and> True" if "w \<in> set xs" "eval fr' ex = Some w" for w fr' ex and s' :: 's
    using keeps_leaves [OF append_prim [OF e t _ that(2)]] that v by simp
  show "keeps content fr (hexec W C (HForVal ''v'' (GMember f) (append_stmts (ssz_type e) (GLocal ''v'')))
      (fr, s)) (content s @ concat (map (serialize t) xs))"
    by (rule for_val_content [where I = "\<lambda>_. True", OF v(1) TrueI step])
  show "keeps content fr (hexec W C (HFor ''i'' (GMember f)
      (append_stmts (ssz_type e) (GIndex (GMember f) ''i''))) (fr, s))
      (content s @ concat (map (serialize t) xs))"
    by (rule for_index_content [where I = "\<lambda>_. True", OF v(1) TrueI step]) simp_all
qed

lemma call_loop_content:
  assumes C: "hashes content H PR L Q st C" and e: "info_rep st e t" and cont: "t = TContainer nm fs"
    and t: "hashable t" "bits_ok t" "limits_ok Q t" and al: "32 dvd length (content s)"
    and v: "member fr f = Some (VSeq xs)" "\<forall>x \<in> set xs. val_ok t x \<and> within t x"
  shows "keeps content fr (hexec W C (HForVal ''item'' (GMember f) [HCall (GLocal ''item'')]) (fr, s))
      (content s @ concat (map (hash_tree_root H PR L t) xs))"
    and "keeps content fr (hexec W C (HFor ''i'' (GMember f) [HCall (GIndex (GMember f) ''i'')]) (fr, s))
      (content s @ concat (map (hash_tree_root H PR L t) xs))"
proof -
  let ?root = "hash_tree_root H PR L t"
  have step: "leaves content (map_option snd (hexecs W C [HCall ex] (fr', s'))) (content s' @ ?root w) \<and>
      32 dvd length (content s' @ ?root w)"
    if w: "w \<in> set xs" "32 dvd length (content s')" "eval fr' ex = Some w" for w fr' ex and s' :: 's
  proof -
    have "keeps content fr' (hexec W C (HCall ex) (fr', s')) (content s' @ ?root w)"
      unfolding cont by (rule hash_call [OF C e [unfolded cont]]) (use w v t cont in \<open>auto simp del: eval.simps\<close>)
    with w v t show ?thesis by (simp only: hexecs_one keeps_leaves root_dvd)
  qed
  show "keeps content fr (hexec W C (HForVal ''item'' (GMember f) [HCall (GLocal ''item'')]) (fr, s))
      (content s @ concat (map ?root xs))"
    by (rule for_val_content [where I = "\<lambda>bs. 32 dvd length bs", OF v(1) al step])
  show "keeps content fr (hexec W C (HFor ''i'' (GMember f) [HCall (GIndex (GMember f) ''i'')]) (fr, s))
      (content s @ concat (map ?root xs))"
    by (rule for_index_content [where I = "\<lambda>bs. 32 dvd length bs", OF v(1) al step]) simp_all
qed

lemma elems_exec:
  assumes C: "hashes content H PR L Q st C" and e: "elem_info i = Some e" "info_rep st e t"
    and fl: "flat_elem t" "\<forall>u l. t \<noteq> TList u l" and t: "hashable t" "bits_ok t" "limits_ok Q t"
    and v: "member fr f = Some v" and al: "32 dvd length (content s)"
    and ok: "if is_byte_ty t then \<exists>bs. v = VBytes bs
      else \<exists>xs. v = VSeq xs \<and> (\<forall>x \<in> set xs. val_ok t x \<and> within t x)"
  shows "\<exists>E. keeps content fr (hexecs W C (hash_elems_stmts i (GMember f)) (fr, s)) (content s @ E) \<and>
    32 dvd length E \<and> chunks E = elem_chunks H PR L t v"
  using e(2) fl(1)
proof (cases rule: flat_elem_cases)
  case byte
  with ok obtain bs where bs: "v = VBytes bs" by auto
  with byte v e append_bytes32 [of bs s]
  have "keeps content fr (hexecs W C (hash_elems_stmts i (GMember f)) (fr, s)) (content s @ pad32 bs)"
    by (simp add: hash_elems_stmts_def elem_rep_simps eval_member hexecs_one)
  with bs show ?thesis by (intro exI [of _ "pad32 bs"]) simp
next
  case prim
  with ok obtain xs where xs: "v = VSeq xs" "\<forall>x \<in> set xs. val_ok t x" by auto
  let ?E = "concat (map (serialize t) xs)"
  have basic: "is_basic t" using prim(2) by auto
  note prim_loop_content(1) [OF e(2) t(1) basic, of fr f xs C s]
  then have "keeps content fr (hexec W C (HForVal ''v'' (GMember f) (append_stmts (ssz_type e) (GLocal ''v'')))
      (fr, s)) (content s @ ?E)" using v xs by simp
  from fill_after [OF this] have "keeps content fr (hexecs W C (hash_elems_stmts i (GMember f)) (fr, s))
      (content s @ pad32 ?E)"
    using prim(3) e by (simp only: pad32_append [OF al]) (simp add: hash_elems_stmts_def elem_rep_simps
      del: hexecs_more hexec.simps)
  with xs basic show ?thesis by (intro exI [of _ "pad32 ?E"]) simp
next
  case (cont nm fs)
  with ok obtain xs where xs: "v = VSeq xs" "\<forall>x \<in> set xs. val_ok t x \<and> within t x"
    by (auto simp: is_byte_ty_def)
  let ?E = "concat (map (hash_tree_root H PR L t) xs)"
  have "keeps content fr (hexec W C (HForVal ''item'' (GMember f) [HCall (GLocal ''item'')]) (fr, s))
      (content s @ ?E)"
    by (rule call_loop_content(1) [OF C e(2) cont(1) t al]) (use v xs in auto)
  with cont(2) e have "keeps content fr (hexecs W C (hash_elems_stmts i (GMember f)) (fr, s)) (content s @ ?E)"
    by (simp add: hash_elems_stmts_def elem_rep_simps hexecs_one del: hexecs.simps hexec.simps)
  with chunks_roots [of H t xs PR L] hash_len t xs cont(1) show ?thesis
    by (intro exI [of _ ?E]) simp
next
  case (bytes l)
  with fl show ?thesis by simp
qed

end

section \<open>Roots of lists\<close>

text \<open>The limit of a list in chunks, as the specification counts it.\<close>

definition limit_chunks :: "ssz_ty \<Rightarrow> nat \<Rightarrow> nat" where
  "limit_chunks t l = (if is_basic t then (l * fixed_len t + 31) div 32 else l)"

text \<open>The values of a list or vector type with elements of type \<open>t\<close>.\<close>

definition elems_ok :: "ssz_ty \<Rightarrow> val \<Rightarrow> bool" where
  "elems_ok t v \<longleftrightarrow>
     (if is_byte_ty t then \<exists>bs. v = VBytes bs
      else \<exists>xs. v = VSeq xs \<and> (\<forall>x \<in> set xs. val_ok t x \<and> within t x))"

lemma byte_basic: "is_byte_ty t \<Longrightarrow> is_basic t \<and> fixed_len t = 1"
  by (auto simp: is_byte_ty_def)

lemma list_root:
  assumes "elems_ok t v" and "val_len v = Some n"
  shows "hash_tree_root H PR L (TList t l) v =
      mix_in_length H (merkleize H (limit_chunks t l) (elem_chunks H PR L t v)) n"
    and "hash_tree_root H PR L (TProgressiveList t) v = mix_in_length H (PR (elem_chunks H PR L t v)) n"
  using assms byte_basic [of t] by (auto simp: elems_ok_def limit_chunks_def split: if_splits)

lemma elems_ok_len: "elems_ok t v \<Longrightarrow> \<exists>n. val_len v = Some n"
  by (auto simp: elems_ok_def split: if_splits)

lemma basic_fixed: "is_basic t \<Longrightarrow> \<not> is_variable t"
  by (cases t) auto

lemma elem_chunks_len:
  assumes "elems_ok t v" and "val_len v = Some n" and "n \<le> l"
  shows "length (elem_chunks H PR L t v) \<le> limit_chunks t l"
proof (cases v)
  case (VSeq xs)
  with assms have xs: "length xs \<le> l" "\<forall>x \<in> set xs. val_ok t x"
    by (auto simp: elems_ok_def split: if_splits)
  show ?thesis
  proof (cases "is_basic t")
    case True
    have "sum_list (map (\<lambda>x. length (serialize t x)) xs) = length xs * fixed_len t"
      by (rule sum_list_const) (use xs basic_fixed [OF True] serialize_fixed_len in auto)
    with True VSeq xs show ?thesis
      by (simp add: length_chunks length_concat comp_def limit_chunks_def div_le_mono mult_le_mono1)
  next
    case False
    with VSeq xs show ?thesis by (simp add: limit_chunks_def)
  qed
next
  case (VBytes bs)
  with assms byte_basic [of t] show ?thesis
    by (auto simp: elems_ok_def length_chunks limit_chunks_def div_le_mono split: if_splits)
qed (use assms in \<open>auto simp: elems_ok_def split: if_splits\<close>)

text \<open>The chunk limit in the emitted code.\<close>

lemma basic_size:
  "is_basic t \<Longrightarrow> hashable t \<Longrightarrow> info_rep st e t \<Longrightarrow>
   fixed_size e \<in> {1, 2, 4, 8, 16} \<and> unat (fixed_size e) = fixed_len t"
  by (cases t) auto

lemma list_limit_chunks:
  assumes e: "elem_info i = Some e" "info_rep st e t" and fl: "flat_elem t" "\<forall>u l. t \<noteq> TList u l"
    and t: "hashable t" and l: "unat (info_limit i) \<le> 2 ^ 63"
  shows "unat (list_limit i) = limit_chunks t (unat (info_limit i))"
  using e(2) fl(1)
proof (cases rule: flat_elem_cases)
  case byte
  with e l limit_for_bytes [of "info_limit i"] byte_basic [OF byte(1)] show ?thesis
    by (simp add: list_limit_def elem_rep_simps limit_chunks_def)
next
  case prim
  have basic: "is_basic t" using prim(2) by auto
  from prim(3) e l basic_size [OF basic t e(2)] limit_for_elements [of "fixed_size e" "info_limit i"]
  show ?thesis by (simp add: list_limit_def elem_rep_simps limit_chunks_def basic)
next
  case (cont nm fs)
  with e show ?thesis by (simp add: list_limit_def elem_rep_simps limit_chunks_def)
next
  case (bytes k)
  with fl show ?thesis by simp
qed

lemma limit_chunks_bound: "hashable t \<Longrightarrow> l \<le> 2 ^ 63 \<Longrightarrow> limit_chunks t l \<le> 2 ^ 63"
proof (cases "is_basic t")
  case True
  assume t: "hashable t" and l: "l \<le> 2 ^ 63"
  then have "fixed_len t \<le> 8" using True by (cases t) auto
  with l have "limit_chunks t l \<le> (2 ^ 63 * 8 + 31) div 32"
    unfolding limit_chunks_def using True by (simp only: if_True) (intro div_le_mono add_le_mono mult_le_mono; simp)
  then show ?thesis by simp
qed (simp add: limit_chunks_def)

section \<open>Fields\<close>

lemma member_bind [simp]: "member (bind_int x k fr) = member fr"
  by (simp add: frame_simps)

lemma int_bind [simp]: "gf_ints (bind_int x k fr) x = Some k" "gf_vals (bind_int x k fr) = gf_vals fr"
  by (simp_all add: bind_int_def)

context hash_walker
begin

text \<open>The statements of a subtree, the last of which replaces the chunks \<open>E\<close> by their root.\<close>

lemma sub_tree_root:
  assumes b: "keeps content (bind_int ''subIdx'' (length (content s)) fr)
      (hexecs W C b (bind_int ''subIdx'' (length (content s)) fr, s)) (content s @ E)"
    and x: "\<And>s'. content s' = content s @ E \<Longrightarrow>
      leaves content (map_option snd (hexec W C x (bind_int ''subIdx'' (length (content s)) fr, s')))
        (rooted (length (content s)) f (content s @ E))"
  shows "keeps content fr (hexecs W C (sub_tree (b @ [x])) (fr, s)) (content s @ f (chunks E))"
proof (rule sub_tree_keeps, unfold index)
  from b obtain s1 where s1: "hexecs W C b (bind_int ''subIdx'' (length (content s)) fr, s) =
      Some (bind_int ''subIdx'' (length (content s)) fr, s1)" "content s1 = content s @ E"
    by (auto simp: keeps_def)
  with x [OF s1(2)] show "leaves content (map_option snd
      (hexecs W C (b @ [x]) (bind_int ''subIdx'' (length (content s)) fr, s))) (content s @ f (chunks E))"
    by (simp add: rooted_append)
qed

lemma snd_with_frame [simp]: "map_option snd (with_frame fr r) = r"
  by (cases r) (simp_all add: with_frame_def)

lemma mixin_leaves:
  assumes "gf_ints fr x = Some k" and "eval_len fr ex = Some n" and "n < 2 ^ 64" and "unat lim \<le> 2 ^ 63"
    and "length (chunks E) \<le> unat lim" and "k = length bs" and "content s = bs @ E"
    and "32 dvd length bs" and "32 dvd length E"
  shows "leaves content (map_option snd (hexec W C (HMixin x ex lim) (fr, s)))
    (rooted (length bs) (\<lambda>cs. mix_in_length H (merkleize H (unat lim) cs) n) (bs @ E))"
  using assms merkleize_with_mixin [of "length bs" s n "unat lim"] by simp

lemma progressive_mixin_leaves:
  assumes "gf_ints fr x = Some k" and "eval_len fr ex = Some n" and "n < 2 ^ 64"
    and "k = length bs" and "content s = bs @ E" and "32 dvd length bs" and "32 dvd length E"
  shows "leaves content (map_option snd (hexec W C (HProgMixin x ex) (fr, s)))
    (rooted (length bs) (\<lambda>cs. mix_in_length H (PR cs) n) (bs @ E))"
  using assms merkleize_progressive_with_mixin [of "length bs" s n] by simp

lemma merkleize_leaves:
  assumes "gf_ints fr x = Some k" and "k = length bs" and "content s = bs @ E"
    and "32 dvd length bs" and "32 dvd length E"
  shows "leaves content (map_option snd (hexec W C (HMerkleize x) (fr, s)))
    (rooted (length bs) (\<lambda>cs. merkleize H (length cs) cs) (bs @ E))"
  using assms merkleize [of "length bs" s] by simp

lemma plain_list_hash:
  assumes C: "hashes content H PR L Q st C" and e: "elem_info i = Some e" "info_rep st e t"
    and fl: "flat_elem t" "\<forall>u l. t \<noteq> TList u l" and t: "hashable t" "bits_ok t" "limits_ok Q t"
    and l: "l \<le> 2 ^ 63" "unat (lim i) = limit_chunks t l"
    and v: "member fr f = Some v" and al: "32 dvd length (content s)"
    and ok: "elems_ok t v" and n: "val_len v = Some n" "n \<le> l"
  shows "keeps content fr (hexecs W C (hash_list_stmts lim i (GMember f)) (fr, s))
    (content s @ hash_tree_root H PR L (TList t l) v)"
proof -
  let ?fr = "bind_int ''subIdx'' (length (content s)) fr"
  obtain E where E: "keeps content ?fr (hexecs W C (hash_elems_stmts i (GMember f)) (?fr, s)) (content s @ E)"
      "32 dvd length E" "chunks E = elem_chunks H PR L t v"
    using elems_exec [OF C e fl t, of ?fr f v s] v al ok by (auto simp: elems_ok_def)
  have lim: "unat (lim i) = limit_chunks t l" "limit_chunks t l \<le> 2 ^ 63"
    using l limit_chunks_bound [OF t(1)] by simp_all
  have "keeps content fr (hexecs W C (sub_tree (hash_elems_stmts i (GMember f) @
      [HMixin ''subIdx'' (GMember f) (lim i)])) (fr, s))
      (content s @ mix_in_length H (merkleize H (unat (lim i)) (chunks E)) n)"
    by (rule sub_tree_root [OF E(1)], rule mixin_leaves)
      (use v n l al E lim elem_chunks_len [OF ok n] in \<open>simp_all add: eval_member\<close>)
  moreover have "ssz_type e \<noteq> SszList" using e(2) fl(2) by (cases t) (auto split: if_splits)
  ultimately show ?thesis
    using e lim E(3) list_root(1) [OF ok n(1)] by (simp add: hash_list_stmts_def elem_rep_simps)
qed

lemma progressive_list_hash:
  assumes C: "hashes content H PR L Q st C" and e: "elem_info i = Some e" "info_rep st e t"
    and fl: "flat_elem t" "\<forall>u l. t \<noteq> TList u l" and t: "hashable t" "bits_ok t" "limits_ok Q t"
    and v: "member fr f = Some v" and al: "32 dvd length (content s)"
    and ok: "elems_ok t v" and n: "val_len v = Some n" "n < 2 ^ 64"
  shows "keeps content fr (hexecs W C (hash_progressive_stmts i (GMember f)) (fr, s))
    (content s @ hash_tree_root H PR L (TProgressiveList t) v)"
proof -
  let ?fr = "bind_int ''subIdx'' (length (content s)) fr"
  obtain E where E: "keeps content ?fr (hexecs W C (hash_elems_stmts i (GMember f)) (?fr, s)) (content s @ E)"
      "32 dvd length E" "chunks E = elem_chunks H PR L t v"
    using elems_exec [OF C e fl t, of ?fr f v s] v al ok by (auto simp: elems_ok_def)
  have "keeps content fr (hexecs W C (sub_tree (hash_elems_stmts i (GMember f) @
      [HProgMixin ''subIdx'' (GMember f)])) (fr, s)) (content s @ mix_in_length H (PR (chunks E)) n)"
    by (rule sub_tree_root [OF E(1)], rule progressive_mixin_leaves)
      (use v n al E in \<open>simp_all add: eval_member\<close>)
  then show ?thesis
    using e E(3) list_root(2) [OF ok n(1)] by (simp add: hash_progressive_stmts_def)
qed

end

context hash_walker
begin

text \<open>A list of byte lists.\<close>

lemma inner_list:
  assumes lim: "elem_info i = Some e" "unat (info_limit e) = k" "0 < k" "k \<le> 2 ^ 63"
    and v: "eval fr (GLocal ''item'') = Some (VBytes bs)" "length bs \<le> k" and al: "32 dvd length (content s)"
  shows "leaves content (map_option snd (hexecs W C
      [HIndex ''inner'', HAppendBytes32 (GLocal ''item''),
       if go_inner_chunk_limit i > 0 then HMixin ''inner'' (GLocal ''item'') (go_inner_chunk_limit i)
       else HMerkleize ''inner''] (fr, s)))
    (content s @ hash_tree_root H PR L (TList (TUint 1) k) (VBytes bs))"
proof -
  have pos: "info_limit e > 0" using lim(2,3) by (simp add: word_less_nat_alt)
  have chunk: "unat (go_inner_chunk_limit i) = (k + 31) div 32"
    using lim pos limit_for_bytes [of "info_limit e"] by (simp add: go_inner_chunk_limit_def)
  then have pos': "go_inner_chunk_limit i > 0" using lim(3) by (simp add: word_less_nat_alt)
  obtain s1 where s1: "w_append_bytes32 W bs s = Some s1" "content s1 = content s @ pad32 bs"
    using append_bytes32 [of bs s] by (auto simp: leaves_def)
  let ?fr = "bind_int ''inner'' (length (content s)) fr"
  have len: "length (chunks (pad32 bs)) \<le> (k + 31) div 32"
    using v(2) by (simp add: length_chunks div_le_mono)
  have "leaves content (map_option snd (hexec W C (HMixin ''inner'' (GLocal ''item'')
      (go_inner_chunk_limit i)) (?fr, s1)))
      (rooted (length (content s)) (\<lambda>cs. mix_in_length H (merkleize H (unat (go_inner_chunk_limit i)) cs)
        (length bs)) (content s @ pad32 bs))"
    by (rule mixin_leaves) (use v lim al s1 chunk len in simp_all)
  with v(1) s1 pos' chunk show ?thesis
    by (simp add: index rooted_append with_frame_def del: hexec.simps(14))
qed

lemma byte_lists_hash:
  assumes e: "elem_info i = Some e" "info_rep st e (TList (TUint 1) k)" and k: "0 < k" "k \<le> 2 ^ 63"
    and l: "unat (info_limit i) = l" "l \<le> 2 ^ 63" and v: "member fr f = Some v"
    and al: "32 dvd length (content s)" and ok: "elems_ok (TList (TUint 1) k) v"
    and n: "val_len v = Some n" "n \<le> l"
  shows "keeps content fr (hexecs W C (hash_list_stmts lim i (GMember f)) (fr, s))
    (content s @ hash_tree_root H PR L (TList (TList (TUint 1) k) l) v)"
proof -
  let ?t = "TList (TUint 1) k" and ?fr = "bind_int ''subIdx'' (length (content s)) fr"
  let ?root = "hash_tree_root H PR L ?t"
  let ?body = "[HIndex ''inner'', HAppendBytes32 (GLocal ''item''),
    if go_inner_chunk_limit i > 0 then HMixin ''inner'' (GLocal ''item'') (go_inner_chunk_limit i)
    else HMerkleize ''inner'']"
  from ok obtain xs where xs: "v = VSeq xs" "\<forall>x \<in> set xs. val_ok ?t x \<and> within ?t x"
    by (auto simp: elems_ok_def is_byte_ty_def)
  let ?E = "concat (map ?root xs)"
  have t: "hashable ?t" using k by simp
  have "keeps content ?fr (hexec W C (HForVal ''item'' (GMember f) ?body) (?fr, s)) (content s @ ?E)"
  proof (rule for_val_content [where I = "\<lambda>bs. 32 dvd length bs"])
    fix w fr' s
    assume w: "w \<in> set xs" "32 dvd length (content s)" "eval fr' (GLocal ''item'') = Some w"
    with xs obtain bs where bs: "w = VBytes bs" "length bs \<le> k" by (auto simp: is_byte_ty_def)
    have "leaves content (map_option snd (hexecs W C ?body (fr', s))) (content s @ ?root w)"
      unfolding bs(1)
      by (rule inner_list [where e = e and i = i]) (use w bs e k in \<open>simp_all del: eval.simps\<close>)
    with w xs t show "leaves content (map_option snd (hexecs W C ?body (fr', s))) (content s @ ?root w) \<and>
        32 dvd length (content s @ ?root w)" by (blast intro: root_dvd)
  qed (use v xs al in auto)
  then have loop: "keeps content ?fr (hexecs W C [HForVal ''item'' (GMember f) ?body] (?fr, s)) (content s @ ?E)"
    by (simp only: hexecs_one)
  have E: "chunks ?E = map ?root xs" "32 dvd length ?E"
    using chunks_roots [of H ?t xs PR L] hash_len t xs by auto
  have "keeps content fr (hexecs W C (sub_tree ([HForVal ''item'' (GMember f) ?body] @
      [HMixin ''subIdx'' (GMember f) (info_limit i)])) (fr, s))
      (content s @ mix_in_length H (merkleize H (unat (info_limit i)) (chunks ?E)) n)"
    by (rule sub_tree_root [OF loop], rule mixin_leaves)
      (use v n l al E xs(1) in \<open>simp_all add: eval_member\<close>)
  then show ?thesis
    using e l E xs n by (simp add: hash_list_stmts_def elem_rep_simps del: hexecs_more hexecs_one hexec.simps)
qed

lemma vector_hash:
  assumes C: "hashes content H PR L Q st C" and rep: "info_rep st i (TVector t n)"
    and fl: "flat_elem t" and t: "hashable t" "bits_ok t" "limits_ok Q t" "0 < n"
    and v: "member fr f = Some v" and al: "32 dvd length (content s)"
    and ok: "val_ok (TVector t n) v" "within (TVector t n) v"
  shows "keeps content fr (hexecs W C (hash_vector_stmts ix i (GMember f)) (fr, s))
    (content s @ hash_tree_root H PR L (TVector t n) v)"
proof -
  from rep obtain e where e: "elem_info i = Some e" "info_rep st e t" and fx: "\<not> is_variable t" by auto
  let ?fr = "bind_int ''subIdx'' (length (content s)) fr"
  show ?thesis using e(2) fl
  proof (cases rule: flat_elem_cases)
    case byte
    with ok obtain bs where bs: "v = VBytes bs" "length bs = n" by auto
    with t(4) have "bs \<noteq> []" by auto
    from put_bytes [OF this al] bs byte e v show ?thesis
      by (simp add: hash_vector_stmts_def elem_rep_simps eval_member length_chunks)
  next
    case prim
    with ok obtain xs where xs: "v = VSeq xs" "length xs = n" "\<forall>x \<in> set xs. val_ok t x" by auto
    have basic: "is_basic t" using prim(2) by auto
    let ?E = "concat (map (serialize t) xs)"
    let ?for = "if ix then HFor ''i'' (GMember f) (append_stmts (ssz_type e) (GIndex (GMember f) ''i''))
      else HForVal ''v'' (GMember f) (append_stmts (ssz_type e) (GLocal ''v''))"
    have "keeps content ?fr (hexec W C ?for (?fr, s)) (content s @ ?E)"
      using prim_loop_content [OF e(2) t(1) basic, of ?fr f xs C s] v xs by simp
    from fill_after [OF this] have loop: "keeps content ?fr (hexecs W C [?for, HFill] (?fr, s)) (content s @ pad32 ?E)"
      by (simp only: pad32_append [OF al])
    have "keeps content fr (hexecs W C (sub_tree ([?for, HFill] @ [HMerkleize ''subIdx''])) (fr, s))
        (content s @ merkleize H (length (chunks (pad32 ?E))) (chunks (pad32 ?E)))"
      by (rule sub_tree_root [OF loop], rule merkleize_leaves) (use al in simp_all)
    moreover have "length ?E = n * fixed_len t"
      unfolding length_concat map_map comp_def xs(2) [symmetric]
      by (rule sum_list_const) (use xs basic_fixed [OF basic] serialize_fixed_len in auto)
    ultimately show ?thesis using prim(3) e xs basic
      by (cases ix) (simp_all add: hash_vector_stmts_def elem_rep_simps length_chunks
        del: hexecs_more hexecs_one hexec.simps)
  next
    case (cont nm fs)
    with ok obtain xs where xs: "v = VSeq xs" "length xs = n" "\<forall>x \<in> set xs. val_ok t x \<and> within t x"
      by (auto simp: is_byte_ty_def)
    let ?root = "hash_tree_root H PR L t"
    let ?for = "if ix then HFor ''i'' (GMember f) [HCall (GIndex (GMember f) ''i'')]
      else HForVal ''item'' (GMember f) [HCall (GLocal ''item'')]"
    let ?E = "concat (map ?root xs)"
    have "keeps content ?fr (hexec W C ?for (?fr, s)) (content s @ ?E)"
      using call_loop_content [OF C e(2) cont(1) t(1-3) al, of ?fr f xs] v xs by simp
    then have loop: "keeps content ?fr (hexecs W C [?for] (?fr, s)) (content s @ ?E)" by (simp only: hexecs_one)
    have E: "chunks ?E = map ?root xs" "32 dvd length ?E"
      using chunks_roots [of H t xs PR L] hash_len t xs by auto
    have "keeps content fr (hexecs W C (sub_tree ([?for] @ [HMerkleize ''subIdx''])) (fr, s))
        (content s @ merkleize H (length (chunks ?E)) (chunks ?E))"
      by (rule sub_tree_root [OF loop], rule merkleize_leaves) (use al E in simp_all)
    with cont e xs E show ?thesis
      by (cases ix) (simp_all add: hash_vector_stmts_def elem_rep_simps del: hexecs_more hexecs_one hexec.simps)
  next
    case (bytes l)
    with fx show ?thesis by simp
  qed
qed

end

context hash_walker
begin

lemma put_uint_field:
  "w \<in> word_bits \<Longrightarrow> eval fr ex = Some (VUint n) \<Longrightarrow>
   keeps content fr (hexec W C (HPutUint w ex) (fr, s)) (content s @ pad32 (le_bytes (w div 8) n))"
  using put_uint by simp

end

section \<open>Styles that keep the contract\<close>

locale hash_emitter = hash_walker W content H PR
  for W :: "'s walker" and content :: "'s \<Rightarrow> byte list" and H :: hash_fun and PR :: "chunk list \<Rightarrow> chunk" +
  fixes S :: hash_style and Q :: "ssz_ty \<Rightarrow> nat \<Rightarrow> bool"
  assumes gap: "keeps content fr (hexec W C (hs_gap S) (fr, s)) (content s @ zero_chunk)"
    and limit: "elem_info i = Some e \<Longrightarrow> info_rep st e t \<Longrightarrow> flat_elem t \<Longrightarrow> \<forall>u k. t \<noteq> TList u k \<Longrightarrow>
      hashable t \<Longrightarrow> unat (info_limit i) \<le> 2 ^ 63 \<Longrightarrow> Q t (unat (info_limit i)) \<Longrightarrow>
      unat (hs_limit S i) = limit_chunks t (unat (info_limit i))"
begin

text \<open>A field of every type appends its hash tree root.\<close>

lemma field_hash:
  assumes C: "hashes content H PR L Q st C" and rep: "info_rep st i t" and flat: "flat_ty t"
    and t: "hashable t" "bits_ok t" "limits_ok Q t" and ok: "val_ok t v" "within t v"
    and v: "member fr f = Some v" and al: "32 dvd length (content s)"
  shows "keeps content fr (hexecs W C (hash_stmts S i (GMember f)) (fr, s))
    (content s @ hash_tree_root H PR L t v)"
proof (cases t)
  case TBool
  with assms put_bool [of _ s] show ?thesis
    by (auto simp: hash_stmts_def eval_member)
next
  case (TUint k)
  with ok obtain n where n: "v = VUint n" by auto
  from t TUint consider "k = 1" | "k = 2" | "k = 4" | "k = 8" by auto
  then show ?thesis
    using put_uint_field [of 8 fr "GMember f" n C s] put_uint_field [of 16 fr "GMember f" n C s]
      put_uint_field [of 32 fr "GMember f" n C s] put_uint_field [of 64 fr "GMember f" n C s]
      TUint rep v n
    by cases (auto simp: hash_stmts_def eval_member word_bits_def simp del: hexec.simps)
next
  case (TVector u n)
  with vector_hash [OF C, of i u n fr f v s "hs_index_loops S"] assms show ?thesis by (simp add: hash_stmts_def)
next
  case (TList u l)
  with rep obtain e where e: "elem_info i = Some e" "info_rep st e u" by auto
  have u: "flat_elem u" "hashable u" "bits_ok u" "limits_ok Q u" "l \<le> 2 ^ 63" using TList flat t by auto
  have el: "elems_ok u v" using TList ok by (auto simp: elems_ok_def split: if_splits)
  then obtain n where n: "val_len v = Some n" using elems_ok_len by blast
  have le: "n \<le> l" using TList ok n by (cases v) auto
  show ?thesis
  proof (cases "\<exists>w k. u = TList w k")
    case True
    with u(1) obtain k where k: "u = TList (TUint 1) k" by auto
    have "0 < k" using TList t(1) k by simp
    with byte_lists_hash [where i = i and e = e and st = st and k = k and l = l and f = f and v = v and s = s
        and fr = fr and n = n and L = L and C = C] e k u v al el n le TList rep
    show ?thesis by (simp add: hash_stmts_def)
  next
    case False
    have Q: "Q u (unat (info_limit i))" using TList rep t(3) False by (cases u) auto
    from limit [OF e u(1) _ u(2) _ this] TList rep False u(5) have "unat (hs_limit S i) = limit_chunks u l" by simp
    with plain_list_hash [OF C e u(1) _ u(2-5), of "hs_limit S" fr f v s n] v al el n le TList rep False
    show ?thesis by (simp add: hash_stmts_def)
  qed
next
  case (TProgressiveList u)
  with rep obtain e where e: "elem_info i = Some e" "info_rep st e u" by auto
  have u: "flat_elem u" "hashable u" "bits_ok u" "limits_ok Q u" "\<forall>w k. u \<noteq> TList w k"
    using TProgressiveList flat t by auto
  have el: "elems_ok u v" using TProgressiveList ok by (auto simp: elems_ok_def split: if_splits)
  then obtain n where n: "val_len v = Some n" using elems_ok_len by blast
  have le: "n < 2 ^ 64" using TProgressiveList ok n by (cases v) auto
  from progressive_list_hash [OF C e u(1,5,2,3,4), of fr f v s n] v al el n le TProgressiveList rep
  show ?thesis by (simp add: hash_stmts_def)
next
  case (TBitvector n)
  with ok obtain bs where bs: "v = VBytes bs" "length bs = (n + 7) div 8" by auto
  with TBitvector t have ne: "bs \<noteq> []" by auto
  have "((n + 7) div 8 + 31) div 32 = (n + 255) div 256"
    by (simp add: div_mult2_eq [of _ 8 32, simplified] flip: div_add_self1)
  with put_bytes [OF ne al] bs v TBitvector rep show ?thesis
    by (simp add: hash_stmts_def eval_member length_chunks)
next
  case (TBitlist l)
  with ok obtain bs where bs: "v = VBytes bs" "bitlist_ok l bs" by auto
  then have "bitlist_len bs < 2 ^ 64" using TBitlist t by (simp add: bitlist_ok_def)
  with put_bitlist [OF bs(2) _ _ al] bs v TBitlist rep t show ?thesis
    by (simp add: hash_stmts_def eval_member)
next
  case (TContainer nm fs)
  with hash_call [OF C, of i nm fs v fr "GMember f" s] assms show ?thesis
    by (simp add: hash_stmts_def eval_member del: hexec.simps hash_tree_root.simps)
qed (use assms in auto)

end

lemma pad_zero_byte: "pad32 [0] = zero_chunk"
proof -
  have "pad32 [0] = replicate (Suc 31) 0"
    by (simp only: pad32_def pad_chunk_def chunks.simps replicate_Suc) simp
  then show ?thesis by (simp add: zero_chunk_def)
qed

text \<open>The style of the Go back end keeps the contract with every hasher, for all limits.\<close>

sublocale hash_walker \<subseteq> go: hash_emitter W content H PR go_style "\<lambda>t l. True"
proof unfold_locales
  show "keeps content fr (hexec W C (hs_gap go_style) (fr, s)) (content s @ zero_chunk)" for fr C s
    using put_uint [of 8 0 s] by (simp add: word_bits_def pad_zero_byte)
qed (simp add: list_limit_chunks)

end
