(* ===== verification/Go_Hash_Root.thy ===== *)
theory Go_Hash_Root
  imports Go_Hash_Exec Go_Serialize
begin

text \<open>
  The program of \<open>HashTreeRootWith\<close> methods that the Go back end emits for a schema: with any
  hasher that keeps the contract, the method of a struct or table appends the hash tree root of
  its receiver, for plain containers and for progressive ones.
\<close>

declare eval.simps(1) [simp del]

section \<open>The emitted program\<close>

definition emit_hdecl :: "hash_style \<Rightarrow> dialect \<Rightarrow> SszContainerInfo \<Rightarrow> hdecl" where
  "emit_hdecl S D c = \<lparr>hd_members = map (dl_member D) (all_fields c), hd_hash = hash_body S D c\<rparr>"

definition emit_hprogram ::
  "(nat \<Rightarrow> Parser \<Rightarrow> StructPtr \<Rightarrow> SszContainerInfo res) \<Rightarrow> hash_style \<Rightarrow> dialect \<Rightarrow> nat \<Rightarrow> Parser \<Rightarrow> hprogram" where
  "emit_hprogram an S D depth P nm = map_option (emit_hdecl S D) (container_named an depth P nm)"

definition go_hdecl :: "SszGenerator \<Rightarrow> SszContainerInfo \<Rightarrow> hdecl" where
  "go_hdecl G = emit_hdecl go_style (go_dialect G)"

definition go_hprogram :: "nat \<Rightarrow> SszGenerator \<Rightarrow> hprogram" where
  "go_hprogram depth G = emit_hprogram go_AnalyzeContainer go_style (go_dialect G) depth (gen_parser G)"

context go_copy
begin

lemma emit_hprogram_eq: "emit_hprogram analyze = emit_hprogram go_AnalyzeContainer"
  by (simp add: emit_hprogram_def container_named_eq fun_eq_iff)

end

text \<open>The tree indices of the live fields of a progressive table, under its name.\<close>

definition tree_index :: "Parser \<Rightarrow> FieldPtr \<Rightarrow> nat" where
  "tree_index P p = (case ssz_index P p of None \<Rightarrow> 0 | Some i \<Rightarrow> unat i)"

definition tree_indices :: "Parser \<Rightarrow> string \<rightharpoonup> nat list" where
  "tree_indices P nm =
     (case struct_named P nm of
        None \<Rightarrow> None
      | Some s \<Rightarrow>
          if Lookup (sd_attributes (struct_at P s)) ''ssz_progressive'' \<noteq> None
          then Some (map (tree_index P) (live_fields P s)) else None)"

text \<open>What the generator takes for granted of a progressive table: every live field has an id
  below 256, and no two have the same.\<close>

definition indices_ok :: "Parser \<Rightarrow> StructPtr \<Rightarrow> bool" where
  "indices_ok P s \<longleftrightarrow>
     list_all (\<lambda>p. case ssz_index P p of None \<Rightarrow> False | Some i \<Rightarrow> i < 256) (live_fields P s) \<and>
     distinct (map (tree_index P) (live_fields P s))"

definition progressive_ok :: "Parser \<Rightarrow> bool" where
  "progressive_ok P \<longleftrightarrow>
     list_all (\<lambda>s. Lookup (sd_attributes (struct_at P s)) ''ssz_progressive'' \<noteq> None \<longrightarrow> indices_ok P s)
       [0..<length (struct_store P)]"

section \<open>Fields by position\<close>

lemma vals_ok_nth: "vals_ok fs vs \<Longrightarrow> k < length fs \<Longrightarrow> val_ok (snd (fs ! k)) (vs ! k)"
proof (induction fs arbitrary: k vs)
  case (Cons f fs)
  then show ?case by (cases f; cases k) auto
qed simp

lemma fields_nth:
  assumes "k < length fs"
  shows "all_hashable fs \<Longrightarrow> hashable (snd (fs ! k))"
    and "fields_bits_ok fs \<Longrightarrow> bits_ok (snd (fs ! k))"
    and "all_limits_ok Q fs \<Longrightarrow> limits_ok Q (snd (fs ! k))"
    and "all_within fs vs \<Longrightarrow> length vs = length fs \<Longrightarrow> within (snd (fs ! k)) (vs ! k)"
    and "length vs = length fs \<Longrightarrow>
      k < length (field_roots H PR L fs vs) \<and>
      field_roots H PR L fs vs ! k = hash_tree_root H PR L (snd (fs ! k)) (vs ! k)"
  using assms
proof (induction fs arbitrary: k vs)
  case (Cons f fs)
  obtain n t where f: "f = (n, t)" by (cases f)
  {
    case 1
    with Cons.IH(1) f show ?case by (cases k) auto
  next
    case 2
    with Cons.IH(2) f show ?case by (cases k) auto
  next
    case 3
    with Cons.IH(3) f show ?case by (cases k) auto
  next
    case 4
    with Cons.IH(4) f show ?case by (cases k; cases vs) auto
  next
    case 5
    with Cons.IH(5) f show ?case by (cases k; cases vs) auto
  }
qed simp_all

lemma length_field_roots: "length vs = length fs \<Longrightarrow> length (field_roots H PR L fs vs) = length fs"
proof (induction fs arbitrary: vs)
  case (Cons f fs)
  then show ?case by (cases f; cases vs) auto
qed simp

section \<open>Leaves of a progressive container\<close>

lemma fold_max: "x \<in> set (m # idx) \<Longrightarrow> x \<le> fold max idx (m :: nat)"
proof (induction idx arbitrary: x m)
  case (Cons a idx)
  have "max a m \<le> fold max idx (max a m)" by (rule Cons.IH) simp
  with Cons show ?case by auto
qed simp

lemma fold_max_mem: "fold max idx (m :: nat) \<in> set (m # idx)"
proof (induction idx arbitrary: m)
  case (Cons a idx)
  from Cons.IH [of "max a m"] show ?case by (auto simp: max_def split: if_splits)
qed simp

lemma bits_of_sum: "m < 8 \<Longrightarrow>
  bit (of_nat (sum_list (map (\<lambda>j. if Q j then 2 ^ j else 0) [0..<8])) :: byte) m \<longleftrightarrow> Q m"
proof -
  assume m: "m < 8"
  have "sum_list (map (\<lambda>j. if Q j then 2 ^ j else 0) [0..<8]) = (horner_sum of_bool 2 (map Q [0..<8]) :: nat)"
    by (simp add: upt_rec numeral_eq_Suc)
  then have "bit (sum_list (map (\<lambda>j. if Q j then 2 ^ j else 0) [0..<8]) :: nat) m \<longleftrightarrow> Q m"
    using m by (simp add: bit_horner_sum_bit_iff)
  with m show ?thesis by (simp add: bit_simps)
qed

lemma active_bits_eq:
  assumes "length bits = fold max idx 0 div 8 + 1"
    and "\<And>j. active_bit bits j \<longleftrightarrow> j \<in> set idx"
  shows "bits = active_bits idx"
proof (rule nth_equalityI)
  show len: "length bits = length (active_bits idx)" using assms(1) by (simp add: active_bits_def)
  fix k assume k: "k < length bits"
  show "bits ! k = active_bits idx ! k"
  proof (rule bit_word_eqI)
    fix m assume m: "m < LENGTH(8)"
    then have "bit (bits ! k) m \<longleftrightarrow> active_bit bits (8 * k + m)"
      using k by (simp add: active_bit_def)
    also have "\<dots> \<longleftrightarrow> bit (active_bits idx ! k) m"
      using m k len bits_of_sum [of m "\<lambda>j. 8 * k + j \<in> set idx"]
      by (simp add: assms(2) active_bits_def del: upt_Suc)
    finally show "bit (bits ! k) m = bit (active_bits idx ! k) m" .
  qed
qed

section \<open>The statements of a container\<close>

text \<open>A container, its SSZ fields and the frame of a call that go together.\<close>

definition hash_match :: "(ssz_ty \<Rightarrow> nat \<Rightarrow> bool) \<Rightarrow> dialect \<Rightarrow> Parser \<Rightarrow> struct_types \<Rightarrow>
    SszContainerInfo \<Rightarrow> (string \<times> ssz_ty) list \<Rightarrow> val list \<Rightarrow> gframe \<Rightarrow> bool" where
  "hash_match Q D P st c fs vs fr \<longleftrightarrow>
     container_rep P st c fs \<and> (\<forall>f \<in> set fs. flat_ty (snd f)) \<and> fields_bits_ok fs \<and>
     all_hashable fs \<and> all_limits_ok Q fs \<and> vals_ok fs vs \<and> all_within fs vs \<and>
     list_all2 (\<lambda>p v. member fr (dl_member D p) = Some v) (all_fields c) vs"

lemma hash_match_bind [simp]: "hash_match Q D P st c fs vs (bind_int x k fr) = hash_match Q D P st c fs vs fr"
  by (simp add: hash_match_def)

lemma hash_match_lengths:
  "hash_match Q D P st c fs vs fr \<Longrightarrow> length (all_fields c) = length fs \<and> length vs = length fs"
  by (auto simp: hash_match_def container_rep_def vals_ok_length dest: list_all2_lengthD)

lemma concat_keeps:
  assumes "\<And>x (s :: 's). x \<in> set xs \<Longrightarrow> 32 dvd length (content s) \<Longrightarrow>
      keeps content fr (hexecs W C (g x) (fr, s)) (content s @ h x) \<and> length (h x) = 32"
  shows "32 dvd length (content s) \<Longrightarrow>
    keeps content fr (hexecs W C (concat (map g xs)) (fr, s)) (content s @ concat (map h xs))"
  using assms
proof (induction xs arbitrary: s)
  case Nil
  then show ?case by (simp add: keeps_def)
next
  case (Cons x xs)
  from Cons.prems(2) [of x s] Cons.prems(1) obtain s1 where
    s1: "hexecs W C (g x) (fr, s) = Some (fr, s1)" "content s1 = content s @ h x" "length (h x) = 32"
    by (auto simp: keeps_def)
  then have "32 dvd length (content s1)" using Cons.prems(1) by simp
  from Cons.IH [OF this] Cons.prems(2) s1 show ?case by simp
qed

lemma infos_of_map:
  "\<forall>p \<in> set ps. field_infos c p \<noteq> None \<Longrightarrow> infos_of c ps = map (\<lambda>p. (p, the (field_infos c p))) ps"
  by (induction ps) auto

context hash_emitter
begin

text \<open>The field at a position.\<close>

lemma position_hash:
  assumes C: "hashes content H PR L Q st C" and m: "hash_match Q D P st c fs vs fr" and k: "k < length fs"
  defines "p \<equiv> all_fields c ! k"
  shows "field_infos c p \<noteq> None"
    and "32 dvd length (content s) \<Longrightarrow>
      keeps content fr (hexecs W C (hash_stmts S (the (field_infos c p)) (member_expr D p)) (fr, s))
        (content s @ field_roots H PR L fs vs ! k) \<and>
      length (field_roots H PR L fs vs ! k) = 32"
proof -
  have len: "length (all_fields c) = length fs" "length vs = length fs"
    using hash_match_lengths [OF m] by blast+
  have "list_all2 (field_rep P st c) (all_fields c) fs"
    using m by (simp add: hash_match_def container_rep_def)
  from list_all2_nthD2 [OF this k] obtain i where
    i: "field_infos c p = Some i" "info_rep st i (snd (fs ! k))" by (auto simp: field_rep_def p_def)
  then show "field_infos c p \<noteq> None" by simp
  have v: "member fr (dl_member D p) = Some (vs ! k)"
    using m k len by (auto simp: hash_match_def p_def dest: list_all2_nthD2)
  have t: "flat_ty (snd (fs ! k))" "hashable (snd (fs ! k))" "bits_ok (snd (fs ! k))"
      "limits_ok Q (snd (fs ! k))" "val_ok (snd (fs ! k)) (vs ! k)" "within (snd (fs ! k)) (vs ! k)"
    using m k len fields_nth(1,2,4) [OF k] fields_nth(3) [OF k, of Q] vals_ok_nth [OF _ k] by (simp_all add: hash_match_def)
  assume al: "32 dvd length (content s)"
  from field_hash [OF C i(2) t(1-6) v al] root_length(1) [OF _ t(2,5), of H PR L] i(1) hash_len
    fields_nth(5) [OF k, of vs H PR L] len
  show "keeps content fr (hexecs W C (hash_stmts S (the (field_infos c p)) (member_expr D p)) (fr, s))
        (content s @ field_roots H PR L fs vs ! k) \<and>
      length (field_roots H PR L fs vs ! k) = 32"
    by simp
qed

lemma roots_32: "hash_match Q D P st c fs vs fr \<Longrightarrow> \<forall>r \<in> set (field_roots H PR L fs vs). length r = 32"
  using root_length(2) [of H fs vs PR L] hash_len by (simp add: hash_match_def)

text \<open>The body of a plain container.\<close>

lemma plain_body_hash:
  assumes C: "hashes content H PR L Q st C" and m: "hash_match Q D P st c fs vs fr"
    and plain: "\<not> is_progressive c" "L nm = None" and al: "32 dvd length (content s)"
  shows "leaves content (map_option snd (hexecs W C (hash_body S D c) (fr, s)))
    (content s @ hash_tree_root H PR L (TContainer nm fs) (VStruct nm vs))"
proof -
  let ?fr = "bind_int ''idx'' (length (content s)) fr" and ?rs = "field_roots H PR L fs vs"
  let ?ps = "all_fields c"
  have len: "length ?ps = length fs" "length vs = length fs" using hash_match_lengths [OF m] by blast+
  have m': "hash_match Q D P st c fs vs ?fr" using m by simp
  let ?g = "\<lambda>k. field_hash_stmts S D (?ps ! k, the (field_infos c (?ps ! k)))"
  have "\<forall>p \<in> set ?ps. field_infos c p \<noteq> None"
    using position_hash(1) [OF C m'] len by (metis in_set_conv_nth)
  then have stmts: "map (field_hash_stmts S D) (infos_of c ?ps) = map ?g [0..<length fs]"
    unfolding infos_of_map [OF \<open>\<forall>p \<in> set ?ps. field_infos c p \<noteq> None\<close>] using len
    by (intro nth_equalityI) simp_all
  have "keeps content ?fr (hexecs W C (concat (map ?g [0..<length fs])) (?fr, s))
      (content s @ concat (map (\<lambda>k. ?rs ! k) [0..<length fs]))"
  proof (rule concat_keeps)
    show "32 dvd length (content s)" by (rule al)
    fix k s assume k: "k \<in> set [0..<length fs]" and s: "32 dvd length (content s)"
    then have "k < length fs" by simp
    from position_hash(2) [OF C m' this s] show "keeps content ?fr (hexecs W C (?g k) (?fr, s))
        (content s @ ?rs ! k) \<and> length (?rs ! k) = 32"
      by (auto simp: field_hash_stmts_def keeps_def hexecs.simps(2))
  qed
  moreover have "map (\<lambda>k. ?rs ! k) [0..<length fs] = ?rs"
    using length_field_roots [OF len(2), of H PR L] by (metis map_nth)
  ultimately obtain s1 where s1: "hexecs W C (concat (map (field_hash_stmts S D) (infos_of c ?ps))) (?fr, s) =
      Some (?fr, s1)" "content s1 = content s @ concat ?rs"
    unfolding stmts by (auto simp: keeps_def)
  have cs: "chunks (concat ?rs) = ?rs" using roots_32 [OF m] by (rule chunks_concat)
  have "sum_list (map length ?rs) = length ?rs * 32" by (rule sum_list_const) (use roots_32 [OF m] in auto)
  then have "32 dvd length (concat ?rs)" by (simp add: length_concat)
  with merkleize_leaves [of ?fr "''idx''" _ "content s" s1 "concat ?rs"] s1 al cs plain
  show ?thesis by (simp add: hash_body_def index rooted_append Let_def)
qed

end

text \<open>The leaf at an index of a progressive container.\<close>

definition leaf_at :: "nat list \<Rightarrow> chunk list \<Rightarrow> nat \<Rightarrow> chunk" where
  "leaf_at idx rs i = (case map_of (zip idx rs) i of None \<Rightarrow> zero_chunk | Some r \<Rightarrow> r)"

lemma leaf_at_live: "distinct idx \<Longrightarrow> length rs = length idx \<Longrightarrow> k < length idx \<Longrightarrow> leaf_at idx rs (idx ! k) = rs ! k"
  by (simp add: leaf_at_def map_of_zip_nth)

lemma leaf_at_gap: "i \<notin> set idx \<Longrightarrow> length rs = length idx \<Longrightarrow> leaf_at idx rs i = zero_chunk"
  by (auto simp: leaf_at_def map_of_zip_is_None [THEN iffD2])

lemma tree_index_live:
  assumes "indices_ok P s" and "p \<in> set (live_fields P s)"
  shows "ssz_index P p = Some (of_nat (tree_index P p)) \<and> tree_index P p < 256"
  using assms by (auto simp: indices_ok_def list_all_iff tree_index_def word_less_nat_alt split: option.splits)

lemma max_index:
  assumes rep: "indices_rep P ps c" and ps: "ps = live_fields P s" and ok: "indices_ok P s"
  shows "unat (max_ssz_index c) = fold max (map (tree_index P) ps) 0"
proof -
  let ?idx = "map (tree_index P) ps"
  have ran: "ran (map_of (field_ssz_indices c)) = (\<lambda>p. of_nat (tree_index P p)) ` set ps"
    using rep tree_index_live [OF ok] ps by (auto simp: indices_rep_def ran_def image_def split: if_splits)
  have small: "unat (of_nat (tree_index P p) :: u32) = tree_index P p" if "p \<in> set ps" for p
    using tree_index_live [OF ok, of p] that ps by (simp add: unat_of_nat)
  have "unat (max_ssz_index c) \<in> set (0 # ?idx)"
    using rep small by (auto simp: indices_rep_def ran)
  then have "unat (max_ssz_index c) \<le> fold max ?idx 0" by (rule fold_max)
  moreover have "x \<le> unat (max_ssz_index c)" if "x \<in> set (0 # ?idx)" for x
    using that rep small by (force simp: indices_rep_def ran word_le_nat_alt)
  then have "fold max ?idx 0 \<le> unat (max_ssz_index c)" using fold_max_mem by blast
  ultimately show ?thesis by simp
qed

lemma index_field:
  assumes rep: "indices_rep P ps c" and ps: "ps = live_fields P s" and ok: "indices_ok P s" and i: "i < 256"
  shows "map_of (index_to_field c) (of_nat i) =
    map_of (zip (map (tree_index P) ps) ps) i"
proof (cases "i \<in> set (map (tree_index P) ps)")
  case True
  then obtain p where p: "p \<in> set ps" "tree_index P p = i" by auto
  have dist: "distinct (map (tree_index P) ps)" using ok ps by (simp add: indices_ok_def)
  from p obtain k where k: "k < length ps" "ps ! k = p" by (auto simp: in_set_conv_nth)
  have "map_of (index_to_field c) (of_nat i) = Some p"
  proof (rule index_to_field_live [OF rep p(1)])
    show "ssz_index P p = Some (of_nat i)" using tree_index_live [OF ok] p ps by auto
    show "\<forall>q \<in> set ps. ssz_index P q = Some (of_nat i) \<longrightarrow> q \<le> p"
    proof (intro ballI impI)
      fix q assume q: "q \<in> set ps" "ssz_index P q = Some (of_nat i)"
      with i have "tree_index P q = i" by (simp add: tree_index_def unat_of_nat)
      with q p dist have "q = p" by (auto simp: distinct_map dest: inj_onD)
      then show "q \<le> p" by simp
    qed
  qed
  moreover have "map_of (zip (map (tree_index P) ps) ps) (map (tree_index P) ps ! k) = Some (ps ! k)"
    using dist k(1) by (intro map_of_zip_nth) simp_all
  ultimately show ?thesis using k p by simp
next
  case False
  have "map_of (index_to_field c) (of_nat i) = None"
  proof (rule index_to_field_gap [OF rep], rule ballI, rule notI)
    fix q assume q: "q \<in> set ps" "ssz_index P q = Some (of_nat i)"
    with i have "tree_index P q = i" by (simp add: tree_index_def unat_of_nat)
    with q False show False by auto
  qed
  moreover have "map_of (zip (map (tree_index P) ps) ps) i = None"
    using False by (subst map_of_zip_is_None) simp_all
  ultimately show ?thesis by (simp only:)
qed

text \<open>The body of a progressive container.\<close>

lemma leaves_at_map: "leaves_at idx rs = map (leaf_at idx rs) [0..<Suc (fold max idx 0)]"
  by (simp add: leaves_at_def leaf_at_def del: upt_Suc)

lemma max_index_256: "indices_ok P s \<Longrightarrow> fold max (map (tree_index P) (live_fields P s)) 0 < 256"
  using fold_max_mem [of "map (tree_index P) (live_fields P s)" 0] tree_index_live by fastforce

lemma length_leaf: "length rs = length idx \<Longrightarrow> \<forall>r \<in> set rs. length r = 32 \<Longrightarrow> length (leaf_at idx rs i) = 32"
  by (auto simp: leaf_at_def zero_chunk_def split: option.split dest!: map_of_SomeD set_zip_rightD)

context hash_emitter
begin

lemma index_exec:
  assumes C: "hashes content H PR L Q st C" and m: "hash_match Q D P st c fs vs fr"
    and live: "all_fields c = live_fields P sp" and rep: "indices_rep P (live_fields P sp) c"
    and ok: "indices_ok P sp" and i: "i < 256" and al: "32 dvd length (content s)"
  defines "idx \<equiv> map (tree_index P) (live_fields P sp)"
  shows "keeps content fr (hexecs W C (index_stmts S D c (of_nat i)) (fr, s))
    (content s @ leaf_at idx (field_roots H PR L fs vs) i)"
proof -
  let ?rs = "field_roots H PR L fs vs" and ?ps = "live_fields P sp"
  have len: "length ?ps = length fs" "length ?rs = length fs"
    using hash_match_lengths [OF m] live length_field_roots [of vs fs H PR L] by auto
  have dist: "distinct idx" "length idx = length fs"
    using ok len by (simp_all add: indices_ok_def idx_def)
  note field = index_field [OF rep refl ok i, folded idx_def]
  show ?thesis
  proof (cases "i \<in> set idx")
    case True
    then obtain k where k: "k < length fs" "idx ! k = i" by (metis in_set_conv_nth dist(2))
    then have "map_of (zip idx ?ps) i = Some (?ps ! k)"
      using map_of_zip_nth [of idx ?ps k] dist len by simp
    with field live have p: "map_of (index_to_field c) (of_nat i) = Some (all_fields c ! k)" by simp
    obtain info where info: "field_infos c (all_fields c ! k) = Some info"
      using position_hash(1) [OF C m k(1)] by auto
    have "leaf_at idx ?rs i = ?rs ! k" using leaf_at_live [of idx ?rs k] dist len k by simp
    with position_hash(2) [OF C m k(1) al] p info show ?thesis by (simp add: index_stmts_def)
  next
    case False
    then have "map_of (zip idx ?ps) i = None" using dist len by (subst map_of_zip_is_None) simp_all
    with field have p: "map_of (index_to_field c) (of_nat i) = None" by simp
    have "leaf_at idx ?rs i = zero_chunk" using leaf_at_gap [OF False] dist len by simp
    with p gap [of fr C s] show ?thesis by (simp add: index_stmts_def)
  qed
qed

lemma progressive_body_hash:
  assumes C: "hashes content H PR L Q st C" and m: "hash_match Q D P st c fs vs fr"
    and live: "all_fields c = live_fields P sp" and rep: "indices_rep P (live_fields P sp) c"
    and ok: "indices_ok P sp" and prog: "is_progressive c"
    and bits: "active_fields_bitvector c = active_bits (map (tree_index P) (live_fields P sp))"
    and L: "L nm = Some (map (tree_index P) (live_fields P sp))" and al: "32 dvd length (content s)"
  shows "leaves content (map_option snd (hexecs W C (hash_body S D c) (fr, s)))
    (content s @ hash_tree_root H PR L (TContainer nm fs) (VStruct nm vs))"
proof -
  let ?fr = "bind_int ''idx'' (length (content s)) fr" and ?rs = "field_roots H PR L fs vs"
  let ?idx = "map (tree_index P) (live_fields P sp)" and ?M = "unat (max_ssz_index c)"
  let ?leaves = "map (leaf_at ?idx ?rs) [0..<Suc ?M]"
  have m': "hash_match Q D P st c fs vs ?fr" using m by simp
  have M: "?M = fold max ?idx 0" by (rule max_index [OF rep refl ok])
  have M256: "?M < 256" using max_index_256 [OF ok] M by simp
  have len: "length ?rs = length ?idx"
    using hash_match_lengths [OF m] live length_field_roots [of vs fs H PR L] by simp
  have leaf: "length (leaf_at ?idx ?rs i) = 32" for i
    by (rule length_leaf [OF len roots_32 [OF m]])
  have "keeps content ?fr (hexecs W C (concat (map (\<lambda>i. index_stmts S D c (of_nat i)) [0..<Suc ?M])) (?fr, s))
      (content s @ concat ?leaves)"
  proof (rule concat_keeps)
    show "32 dvd length (content s)" by (rule al)
    fix i s assume "i \<in> set [0..<Suc ?M]" and s: "32 dvd length (content s)"
    then have "i < 256" using M256 by auto
    from index_exec [OF C m' live rep ok this s] leaf
    show "keeps content ?fr (hexecs W C (index_stmts S D c (of_nat i)) (?fr, s))
        (content s @ leaf_at ?idx ?rs i) \<and> length (leaf_at ?idx ?rs i) = 32" by blast
  qed
  then obtain s1 where s1: "hexecs W C (concat (map (\<lambda>i. index_stmts S D c (of_nat i)) [0..<Suc ?M])) (?fr, s) =
      Some (?fr, s1)" "content s1 = content s @ concat ?leaves"
    by (auto simp: keeps_def)
  have "\<forall>l \<in> set ?leaves. length l = 32" using leaf by auto
  then have cs: "chunks (concat ?leaves) = ?leaves" by (rule chunks_concat)
  have "sum_list (map length ?leaves) = length ?leaves * 32" by (rule sum_list_const) (use leaf in auto)
  then have dvd: "32 dvd length (concat ?leaves)" by (simp only: length_concat) simp
  have "length (active_bits ?idx) \<le> 32" using M M256 by (simp add: active_bits_def)
  with merkleize_progressive_with_active_fields [of "length (content s)" s1 "active_bits ?idx"] s1(2) al dvd
  have "leaves content (w_merkleize_progressive_with_active_fields W (length (content s)) (active_bits ?idx) s1)
      (content s @ H (PR ?leaves @ pad_chunk (active_bits ?idx)))"
    by (simp only: rooted_append cs) simp
  then show ?thesis using s1(1) prog L M
    by (simp add: hash_body_def index Let_def bits leaves_at_map del: upt_Suc)
qed

end

section \<open>The program\<close>

lemma go_not_progressive:
  assumes "go_AnalyzeContainer n P s = Inr c"
    and "Lookup (sd_attributes (struct_at P s)) ''ssz_progressive'' = None"
  shows "\<not> is_progressive c"
proof -
  obtain m where n: "n = Suc m" using assms(1) go.depth_0 by (cases n) auto
  with assms have "fold_res (go_add_field P (go_AnalyzeContainer m P)) (sd_fields (struct_at P s))
      (new_container\<lparr>static_size := 0, is_fixed := True\<rparr>) = Inr c"
    by (auto simp: go_AnalyzeContainer.simps go_analyze_body_def Let_def bind_res_Inr_iff)
  then show ?thesis
    by (rule fold_res_invariant)
      (auto simp: new_container_def go_add_field_def Let_def bind_res_Inr_iff split: if_splits)
qed

text \<open>The bit vector of the analysis is the one of the specification.\<close>

lemma go_active_bits_eq:
  assumes c: "go_AnalyzeContainer n P s = Inr c" and wf: "wf_schema P" and s: "s < length (struct_store P)"
    and prog: "Lookup (sd_attributes (struct_at P s)) ''ssz_progressive'' \<noteq> None" and ok: "indices_ok P s"
  shows "active_fields_bitvector c = active_bits (map (tree_index P) (live_fields P s))"
proof (rule active_bits_eq)
  let ?idx = "map (tree_index P) (live_fields P s)"
  from go_active_bits [OF c wf s prog] have rep: "indices_rep P (live_fields P s) c"
    and len: "length (active_fields_bitvector c) = unat ((max_ssz_index c + 8) div 8)"
    and bits: "\<And>j. active_bit (active_fields_bitvector c) j \<longleftrightarrow>
      (\<exists>p \<in> set (live_fields P s). \<exists>i. ssz_index P p = Some i \<and> unat i = j)" by blast+
  have M: "unat (max_ssz_index c) = fold max ?idx 0" by (rule max_index [OF rep refl ok])
  then have small: "unat (max_ssz_index c) < 256" using max_index_256 [OF ok] by simp
  then have "unat (max_ssz_index c + 8) = unat (max_ssz_index c) + 8"
    by (subst unat_add_lem [THEN iffD1]) simp_all
  with len M show "length (active_fields_bitvector c) = fold max ?idx 0 div 8 + 1" by (simp add: unat_div)
  show "active_bit (active_fields_bitvector c) j \<longleftrightarrow> j \<in> set ?idx" for j
    unfolding bits using tree_index_live [OF ok] by (auto simp: unat_of_nat image_iff) (force simp: unat_of_nat)+
qed

lemma hash_frame_match:
  assumes rep: "container_rep P st c fs" and flat: "\<forall>f \<in> set fs. flat_ty (snd f)"
    and fs: "fields_bits_ok fs" "all_hashable fs" "all_limits_ok Q fs"
    and vs: "vals_ok fs vs" "all_within fs vs" and dist: "distinct (map (dl_member D) (all_fields c))"
  shows "hash_match Q D P st c fs vs (hash_frame (hd_members (emit_hdecl S D c)) vs)"
proof -
  from rep have "length vs = length (all_fields c)"
    using vals_ok_length [OF vs(1)] by (auto simp: container_rep_def dest: list_all2_lengthD)
  from members_at [OF dist this] assms show ?thesis
    by (simp add: hash_match_def hash_frame_def emit_hdecl_def member_def)
qed

context hash_emitter
begin

lemma hash_program:
  assumes wf: "wf_schema P" and small: "small_ids P" and names: "names_ok D P" and prog: "progressive_ok P"
  shows "n \<le> depth \<Longrightarrow> struct_ty n P sp = Some (TContainer nm fs) \<Longrightarrow> fields_bits_ok fs \<Longrightarrow>
    all_hashable fs \<Longrightarrow> all_limits_ok Q fs \<Longrightarrow> vals_ok fs vs \<Longrightarrow> all_within fs vs \<Longrightarrow>
    32 dvd length (content s) \<Longrightarrow>
    leaves content (HashTreeRootWith W (emit_hprogram go_AnalyzeContainer S D depth P) n nm vs s)
      (content s @ hash_tree_root H PR (tree_indices P) (TContainer nm fs) (VStruct nm vs))"
proof (induction n arbitrary: sp nm fs vs s)
  case 0
  then show ?case by simp
next
  case (Suc m)
  let ?prog = "emit_hprogram go_AnalyzeContainer S D depth P"
  have sp: "sp < length (struct_store P)" using Suc.prems(2) by (rule struct_ty_in_range)
  have dn: "distinct (map sd_name (struct_store P))" using names by (simp add: names_ok_def)
  from go_struct_decl [OF wf small dn Suc.prems(1) sp Suc.prems(2,3)] obtain c where
    named: "container_named go_AnalyzeContainer depth P nm = Some c"
    and c: "struct_named P nm = Some sp" "go_AnalyzeContainer depth P sp = Inr c"
    and rep: "container_rep P (struct_ty m P) c fs" and live: "all_fields c = live_fields P sp"
    and ty: "fields_ty P (struct_ty m P) (sd_fields (struct_at P sp)) = Some fs" by (metis nat.inject)
  have flat: "\<forall>f \<in> set fs. flat_ty (snd f)" using fields_flat [OF containers_struct_ty ty] by blast
  have dist: "distinct (map (dl_member D) (all_fields c))"
    using names sp live by (simp add: names_ok_def list_all_iff)
  let ?C = "HashTreeRootWith W ?prog m" and ?fr = "hash_frame (hd_members (emit_hdecl S D c)) vs"
  have C: "hashes content H PR (tree_indices P) Q (struct_ty m P) ?C"
    unfolding hashes_def using Suc.IH Suc.prems(1) by simp
  have hm: "hash_match Q D P (struct_ty m P) c fs vs ?fr"
    by (rule hash_frame_match [OF rep flat Suc.prems(3-7) dist])
  have "leaves content (map_option snd (hexecs W ?C (hash_body S D c) (?fr, s)))
      (content s @ hash_tree_root H PR (tree_indices P) (TContainer nm fs) (VStruct nm vs))"
  proof (cases "Lookup (sd_attributes (struct_at P sp)) ''ssz_progressive'' = None")
    case True
    with c(1) have "tree_indices P nm = None" by (simp add: tree_indices_def)
    with plain_body_hash [OF C hm go_not_progressive [OF c(2) True] _ Suc.prems(8)] show ?thesis by simp
  next
    case False
    with c(1) have L: "tree_indices P nm = Some (map (tree_index P) (live_fields P sp))"
      by (simp add: tree_indices_def)
    have ok: "indices_ok P sp" using prog sp False by (simp add: progressive_ok_def list_all_iff)
    from go_active_bits [OF c(2) wf sp False] have "is_progressive c" "indices_rep P (live_fields P sp) c"
      by blast+
    with progressive_body_hash [OF C hm live _ ok _ go_active_bits_eq [OF c(2) wf sp False ok] L Suc.prems(8)]
    show ?thesis by simp
  qed
  moreover have "?prog nm = Some (emit_hdecl S D c)" using named by (simp add: emit_hprogram_def)
  ultimately show ?case by (simp add: emit_hdecl_def del: hash_tree_root.simps)
qed

end

text \<open>For the Go back end, with any hasher that keeps the contract.\<close>

context hash_walker
begin

lemmas go_hash_program = go.hash_program

end

end
