(* ===== verification/Rust_Hasher.thy ===== *)
theory Rust_Hasher
  imports Ssz_Merkle
begin

text \<open>
  The hasher of the repository's runtime libraries, after \<open>rust/ssz_flatbuffers/src/lib.rs\<close>:
  merkleization in place, layer by layer, in a buffer.  The two SHA-256 functions the library
  calls, one of them on many pairs at once, are the parameter \<open>H\<close>.  Of the state only the buffer
  matters: \<open>out\<close> and \<open>tmp\<close> are written before they are read.  An index out of range is
  \<open>None\<close>; the lengths of buffers in memory are far below the widths of their types.
\<close>

unbundle bit_operations_syntax

section \<open>State\<close>

record Hasher =
  h_buf :: "byte list"

definition new_hasher :: Hasher where
  "new_hasher = \<lparr>h_buf = []\<rparr>"

definition hasher_index :: "Hasher \<Rightarrow> nat" where
  "hasher_index h = length (h_buf h)"

definition extend :: "byte list \<Rightarrow> Hasher \<Rightarrow> Hasher" where
  "extend bs h = h\<lparr>h_buf := h_buf h @ bs\<rparr>"

definition hasher_finish :: "Hasher \<Rightarrow> chunk" where
  "hasher_finish h =
     (if length (h_buf h) \<ge> 32 then drop (length (h_buf h) - 32) (h_buf h) else replicate 32 0)"

section \<open>Chunks\<close>

definition append_bytes32 :: "byte list \<Rightarrow> Hasher \<Rightarrow> Hasher" where
  "append_bytes32 b h =
     (let h = extend b h; rest = length b mod 32
      in if rest \<noteq> 0 then extend (replicate (32 - rest) 0) h else h)"

definition put_uint_chunk :: "nat \<Rightarrow> nat \<Rightarrow> Hasher \<Rightarrow> Hasher" where
  "put_uint_chunk w n h = extend (le_bytes (w div 8) n @ replicate (32 - w div 8) 0) h"

definition put_bool_chunk :: "bool \<Rightarrow> Hasher \<Rightarrow> Hasher" where
  "put_bool_chunk b h = extend ((if b then 1 else 0) # replicate 31 0) h"

definition put_zero_chunk :: "Hasher \<Rightarrow> Hasher" where
  "put_zero_chunk h = extend (replicate 32 0) h"

definition fill_up :: "Hasher \<Rightarrow> Hasher" where
  "fill_up h =
     (let rest = length (h_buf h) mod 32
      in if rest \<noteq> 0 then extend (replicate (32 - rest) 0) h else h)"

section \<open>Merkleization\<close>

text \<open>
  \<open>d.next_power_of_two()\<close> panics above \<open>2 ^ 63\<close>.  Where \<open>d\<close> is computed from the number of chunks
  in a buffer it is far below; there the model uses \<open>memory_depth\<close>.
\<close>

definition get_depth :: "nat \<Rightarrow> nat option" where
  "get_depth d = (if d > 2 ^ 63 then None else Some (depth_of d))"

definition memory_depth :: "nat \<Rightarrow> nat option" where
  "memory_depth d = Some (depth_of d)"

text \<open>\<open>hashtree_rs::hash\<close> on \<open>n\<close> pairs of chunks.\<close>

fun hash_pairs :: "hash_fun \<Rightarrow> nat \<Rightarrow> byte list \<Rightarrow> byte list" where
  "hash_pairs H 0 bs = []"
| "hash_pairs H (Suc n) bs = H (take 64 bs) @ hash_pairs H n (drop 64 bs)"

text \<open>The loop over the layers, the \<open>i\<close>-th first, \<open>n\<close> of them.\<close>

fun merkle_layers :: "hash_fun \<Rightarrow> nat \<Rightarrow> nat \<Rightarrow> nat \<Rightarrow> byte list \<Rightarrow> byte list" where
  "merkle_layers H idx i 0 buf = buf"
| "merkle_layers H idx i (Suc n) buf =
     (let layer_len = (length buf - idx) div 32;
          buf = (if layer_len mod 2 = 1 then buf @ zero_hash H i else buf);
          pairs = (length buf - idx) div 64
      in merkle_layers H idx (Suc i) n (take idx buf @ hash_pairs H pairs (drop idx buf)))"

text \<open>\<open>D\<close> is one of the two depths.\<close>

definition merkleize_inner :: "(nat \<Rightarrow> nat option) \<Rightarrow> hash_fun \<Rightarrow> nat \<Rightarrow> nat \<Rightarrow> Hasher \<Rightarrow> Hasher option" where
  "merkleize_inner D H idx limit h =
     (let buf = h_buf h; input_len = length buf - idx; count = (input_len + 31) div 32;
          limit' = (if limit = 0 then count else limit) in
      if length buf < idx then None
      else if limit' = 0 then Some (h\<lparr>h_buf := take idx buf @ zero_hash H 0\<rparr>)
      else if limit' = 1 then
        (if count \<ge> 1 \<and> input_len \<ge> 32 then Some (h\<lparr>h_buf := take (idx + 32) buf\<rparr>)
         else Some (h\<lparr>h_buf := take idx buf @ zero_hash H 0\<rparr>))
      else
        Option.bind (D limit') (\<lambda>depth.
          if input_len = 0 then Some (h\<lparr>h_buf := take idx buf @ zero_hash H depth\<rparr>)
          else
            let rest = input_len mod 32;
                buf = (if rest \<noteq> 0 then buf @ replicate (32 - rest) 0 else buf)
            in Some (h\<lparr>h_buf := merkle_layers H idx 0 depth buf\<rparr>)))"

definition merkleize_at :: "hash_fun \<Rightarrow> nat \<Rightarrow> Hasher \<Rightarrow> Hasher option" where
  "merkleize_at H idx h = merkleize_inner memory_depth H idx 0 h"

text \<open>The root at \<open>idx\<close> hashed with 32 more bytes, in place.\<close>

definition mix_at :: "hash_fun \<Rightarrow> nat \<Rightarrow> byte list \<Rightarrow> Hasher \<Rightarrow> Hasher option" where
  "mix_at H idx aux h =
     (if idx + 32 \<le> length (h_buf h)
      then Some (h\<lparr>h_buf := take idx (h_buf h) @ H (take 32 (drop idx (h_buf h)) @ aux) @
        drop (idx + 32) (h_buf h)\<rparr>)
      else None)"

definition length_aux :: "nat \<Rightarrow> byte list" where
  "length_aux num = le_bytes 8 num @ replicate 24 0"

definition merkleize_mixin :: "hash_fun \<Rightarrow> nat \<Rightarrow> nat \<Rightarrow> nat \<Rightarrow> Hasher \<Rightarrow> Hasher option" where
  "merkleize_mixin H idx num limit h =
     Option.bind (merkleize_inner get_depth H idx limit (fill_up h)) (mix_at H idx (length_aux num))"

definition put_bytes_chunk :: "hash_fun \<Rightarrow> byte list \<Rightarrow> Hasher \<Rightarrow> Hasher option" where
  "put_bytes_chunk H b h =
     (if length b \<le> 32 then Some (append_bytes32 b h)
      else merkleize_at H (hasher_index h) (append_bytes32 b h))"

section \<open>Bit lists\<close>

definition leading_zeros :: "byte \<Rightarrow> nat" where
  "leading_zeros b = 8 - bit_length (unat b)"

definition pop_zeros :: "byte list \<Rightarrow> byte list" where
  "pop_zeros bs = rev (dropWhile (\<lambda>b. b = 0) (rev bs))"

definition parse_bitlist :: "byte list \<Rightarrow> byte list \<times> nat" where
  "parse_bitlist buf =
     (if buf = [] then ([], 0)
      else let l = last buf in
        if l = 0 then ([], 0)
        else let msb = 7 - leading_zeros l;
                 size = 8 * (length buf - 1) + msb;
                 dst = buf[length buf - 1 := and l (not (push_bit msb 1))]
             in (pop_zeros dst, size))"

definition put_bitlist_chunk :: "hash_fun \<Rightarrow> byte list \<Rightarrow> nat \<Rightarrow> Hasher \<Rightarrow> Hasher option" where
  "put_bitlist_chunk H bb max_size h =
     (let (bitlist, size) = parse_bitlist bb
      in merkleize_mixin H (hasher_index h) size (((max_size + 255) mod 2 ^ 64) div 256)
           (append_bytes32 bitlist h))"

section \<open>Progressive trees\<close>

text \<open>The sizes of the subtrees; \<open>saturating_mul\<close> is exact for what fits in memory.\<close>

function subtree_sizes :: "nat \<Rightarrow> nat \<Rightarrow> nat list" where
  "subtree_sizes remaining sz =
     (if remaining = 0 \<or> sz = 0 then [] else min sz remaining # subtree_sizes (remaining - sz) (4 * sz))"
  by auto
termination by (relation "measure fst") auto

declare subtree_sizes.simps [simp del]

text \<open>The roots of the subtrees, each made in a hasher of its own; \<open>cap\<close> is its full size.\<close>

fun subtree_roots :: "hash_fun \<Rightarrow> nat \<Rightarrow> nat \<Rightarrow> nat list \<Rightarrow> byte list \<Rightarrow> chunk list option" where
  "subtree_roots H pos cap [] buf = Some []"
| "subtree_roots H pos cap (sz # szs) buf =
     (if pos + 32 * sz \<le> length buf then
        Option.bind (merkleize_inner memory_depth H 0 cap (extend (take (32 * sz) (drop pos buf)) new_hasher)) (\<lambda>t.
          if length (h_buf t) < 32 then None
          else map_option ((#) (take 32 (h_buf t))) (subtree_roots H (pos + 32 * sz) (4 * cap) szs buf))
      else None)"

definition merkleize_progressive_at :: "hash_fun \<Rightarrow> nat \<Rightarrow> Hasher \<Rightarrow> Hasher option" where
  "merkleize_progressive_at H idx h0 =
     (let h = fill_up h0; buf = h_buf h; count = (length buf - idx) div 32 in
      if length buf < idx then None
      else if count = 0 then Some (h\<lparr>h_buf := take idx buf @ zero_hash H 0\<rparr>)
      else if count = 1 then Some (h\<lparr>h_buf := take (idx + 32) buf\<rparr>)
      else Option.bind (subtree_roots H idx 1 (subtree_sizes count 1) buf) (\<lambda>roots.
        Some (h\<lparr>h_buf := take idx buf @ foldr (\<lambda>root acc. H (root @ acc)) roots (zero_hash H 0)\<rparr>)))"

definition progressive_mixin :: "hash_fun \<Rightarrow> nat \<Rightarrow> nat \<Rightarrow> Hasher \<Rightarrow> Hasher option" where
  "progressive_mixin H idx num h =
     Option.bind (merkleize_progressive_at H idx h) (mix_at H idx (length_aux num))"

definition progressive_active :: "hash_fun \<Rightarrow> nat \<Rightarrow> byte list \<Rightarrow> Hasher \<Rightarrow> Hasher option" where
  "progressive_active H idx active_fields h =
     (let copy_len = min (length active_fields) 32
      in Option.bind (merkleize_progressive_at H idx h)
           (mix_at H idx (take copy_len active_fields @ replicate (32 - copy_len) 0)))"

section \<open>The operations as an interface\<close>

definition rust_walker :: "hash_fun \<Rightarrow> Hasher walker" where
  "rust_walker H =
     \<lparr>w_index = hasher_index,
      w_put_bool = (\<lambda>b h. Some (put_bool_chunk b h)),
      w_put_uint = (\<lambda>w n h. Some (put_uint_chunk w n h)),
      w_put_bytes = put_bytes_chunk H,
      w_put_bitlist = put_bitlist_chunk H,
      w_append_bool = (\<lambda>b h. Some (extend [if b then 1 else 0] h)),
      w_append_uint = (\<lambda>w n h. Some (extend (le_bytes (w div 8) n) h)),
      w_append_bytes32 = (\<lambda>b h. Some (append_bytes32 b h)),
      w_fill_up_to_32 = (\<lambda>h. Some (fill_up h)),
      w_merkleize = merkleize_at H,
      w_merkleize_with_mixin = merkleize_mixin H,
      w_merkleize_progressive_with_mixin = progressive_mixin H,
      w_merkleize_progressive_with_active_fields = progressive_active H,
      w_put_zero_hash = (\<lambda>h. Some (put_zero_chunk h))\<rparr>"

end
