(* ===== verification/Rust_Hasher_Facts.thy ===== *)
theory Rust_Hasher_Facts
  imports Rust_Hasher
begin

text \<open>
  The hasher of the runtime library keeps the contract of \<open>hash_walker\<close>: hashing a buffer layer
  by layer gives the root of the zero-padded tree.
\<close>

section \<open>Padding\<close>

lemma append_bytes32_buf: "h_buf (append_bytes32 b h) = h_buf h @ pad32 b"
  by (auto simp: append_bytes32_def extend_def pad32_zeros Let_def)

lemma fill_up_buf: "h_buf (fill_up h) = pad32 (h_buf h)"
  by (auto simp: fill_up_def extend_def pad32_zeros Let_def)

lemma pad32_short: "bs \<noteq> [] \<Longrightarrow> length bs \<le> 32 \<Longrightarrow> pad32 bs = bs @ replicate (32 - length bs) 0"
  by (simp add: pad32_def chunks_step pad_chunk_def)

section \<open>Layers\<close>

fun layer :: "hash_fun \<Rightarrow> chunk \<Rightarrow> chunk list \<Rightarrow> chunk list" where
  "layer H z [] = []"
| "layer H z [a] = [H (a @ z)]"
| "layer H z (a # b # cs) = H (a @ b) # layer H z cs"

lemma length_layer: "length (layer H z cs) = (length cs + 1) div 2"
  by (induction H z cs rule: layer.induct) auto

lemma layer_take: "layer H z (take (2 * n) cs) = take n (layer H z cs)"
proof (induction n arbitrary: cs)
  case (Suc n)
  then show ?case by (cases cs rule: remdups_adj.cases) auto
qed simp

lemma layer_drop: "layer H z (drop (2 * n) cs) = drop n (layer H z cs)"
proof (induction n arbitrary: cs)
  case (Suc n)
  then show ?case by (cases cs rule: remdups_adj.cases) auto
qed simp

text \<open>A tree whose leaves are roots of trees of depth \<open>i\<close>.\<close>

fun merkle_from :: "hash_fun \<Rightarrow> nat \<Rightarrow> nat \<Rightarrow> chunk list \<Rightarrow> chunk" where
  "merkle_from H i 0 cs = (case cs of [] \<Rightarrow> zero_hash H i | c # _ \<Rightarrow> c)"
| "merkle_from H i (Suc d) cs = H (merkle_from H i d (take (2 ^ d) cs) @ merkle_from H i d (drop (2 ^ d) cs))"

lemma merkle_from_0: "merkle_from H 0 d cs = merkle_tree H d cs"
  by (induction d arbitrary: cs) (auto split: list.split)

lemma merkle_from_layer:
  "merkle_from H i (Suc d) cs = merkle_from H (Suc i) d (layer H (zero_hash H i) cs)"
proof (induction d arbitrary: cs)
  case 0
  then show ?case by (cases cs rule: remdups_adj.cases) auto
next
  case (Suc d)
  have two: "(2::nat) ^ Suc d = 2 * 2 ^ d" by simp
  have "merkle_from H i (Suc (Suc d)) cs =
      H (merkle_from H i (Suc d) (take (2 ^ Suc d) cs) @ merkle_from H i (Suc d) (drop (2 ^ Suc d) cs))"
    by (rule merkle_from.simps(2))
  also have "\<dots> = H (merkle_from H (Suc i) d (layer H (zero_hash H i) (take (2 ^ Suc d) cs)) @
      merkle_from H (Suc i) d (layer H (zero_hash H i) (drop (2 ^ Suc d) cs)))"
    by (simp only: Suc.IH)
  also have "\<dots> = merkle_from H (Suc i) (Suc d) (layer H (zero_hash H i) cs)"
    unfolding two layer_take layer_drop by simp
  finally show ?case .
qed

fun layers :: "hash_fun \<Rightarrow> nat \<Rightarrow> nat \<Rightarrow> chunk list \<Rightarrow> chunk list" where
  "layers H i 0 cs = cs"
| "layers H i (Suc n) cs = layers H (Suc i) n (layer H (zero_hash H i) cs)"

lemma layers_root: "cs \<noteq> [] \<Longrightarrow> length cs \<le> 2 ^ n \<Longrightarrow> layers H i n cs = [merkle_from H i n cs]"
proof (induction n arbitrary: i cs)
  case 0
  then show ?case by (cases cs) auto
next
  case (Suc n)
  have "0 < length cs" using Suc.prems(1) by simp
  then have "0 < length (layer H (zero_hash H i) cs)" unfolding length_layer by linarith
  then have "layer H (zero_hash H i) cs \<noteq> []" by fastforce
  moreover have "length (layer H (zero_hash H i) cs) \<le> 2 ^ n"
    using Suc.prems(2) by (simp add: length_layer)
  note Suc.IH [OF calculation this]
  then show ?case by (simp only: layers.simps merkle_from_layer)
qed

lemma length_zero_hash: "(\<And>x. length (H x) = 32) \<Longrightarrow> length (zero_hash H i) = 32"
  by (cases i) (auto simp: zero_chunk_def)

lemma hash_pairs_even:
  "even (length cs) \<Longrightarrow> \<forall>c \<in> set cs. length c = 32 \<Longrightarrow>
   hash_pairs H (length cs div 2) (concat cs) = concat (layer H z cs)"
  by (induction H z cs rule: layer.induct) auto

lemma layer_odd: "odd (length cs) \<Longrightarrow> layer H z (cs @ [z]) = layer H z cs"
  by (induction H z cs rule: layer.induct) auto

lemma length_concat_chunks: "\<forall>c \<in> set cs. length c = 32 \<Longrightarrow> length (concat cs) = 32 * length cs"
  by (induction cs) auto

lemma merkle_layers_step:
  assumes H: "\<And>x. length (H x) = 32" and pre: "length pre = idx" and cs: "\<forall>c \<in> set cs. length c = 32"
  shows "merkle_layers H idx i (Suc n) (pre @ concat cs) =
    merkle_layers H idx (Suc i) n (pre @ concat (layer H (zero_hash H i) cs))"
proof -
  note len = length_concat_chunks [OF cs]
  show ?thesis
  proof (cases "even (length cs)")
    case True
    from hash_pairs_even [OF this cs, of H "zero_hash H i"] True len pre show ?thesis by (simp add: even_iff_mod_2_eq_zero)
  next
    case False
    let ?cs = "cs @ [zero_hash H i]"
    have cs': "\<forall>c \<in> set ?cs. length c = 32" "even (length ?cs)"
      using cs False length_zero_hash [OF H] by auto
    from hash_pairs_even [OF cs'(2,1), of H "zero_hash H i"] layer_odd [OF False, of H "zero_hash H i"]
    have "hash_pairs H (length ?cs div 2) (concat cs @ zero_hash H i) = concat (layer H (zero_hash H i) cs)"
      by simp
    moreover have "length (zero_hash H i) = 32" by (rule length_zero_hash [of H]) (rule H)
    moreover have "(32 * length cs + 32) div 64 = length ?cs div 2" by simp
    ultimately show ?thesis using False len pre
      by (simp add: odd_iff_mod_2_eq_one del: hash_pairs.simps)
  qed
qed

lemma layer_chunks:
  "(\<And>x. length (H x) = 32) \<Longrightarrow> \<forall>c \<in> set (layer H z cs). length c = 32"
  by (induction H z cs rule: layer.induct) auto

lemma merkle_layers_exec:
  assumes H: "\<And>x. length (H x) = 32" and pre: "length pre = idx"
  shows "\<forall>c \<in> set cs. length c = 32 \<Longrightarrow>
    merkle_layers H idx i n (pre @ concat cs) = pre @ concat (layers H i n cs)"
proof (induction n arbitrary: i cs)
  case (Suc n)
  from Suc.IH [OF layer_chunks [OF H]] merkle_layers_step [OF H pre Suc.prems] show ?case by simp
qed simp

section \<open>Merkleization\<close>

lemma inner_exec:
  assumes H: "\<And>x. length (H x) = 32" and buf: "h_buf h = pre @ concat cs" and pre: "length pre = idx"
    and cs: "\<forall>c \<in> set cs. length c = 32" and limit: "limit = 0 \<or> length cs \<le> limit"
    and L: "L = (if limit = 0 then length cs else limit)" and D: "1 < L \<Longrightarrow> D L = Some (depth_of L)"
  shows "merkleize_inner D H idx limit h = Some (h\<lparr>h_buf := pre @ merkleize H L cs\<rparr>)"
proof -
  note len = length_concat_chunks [OF cs]
  consider "L = 0" | "L = 1" | "1 < L" by linarith
  then show ?thesis
  proof cases
    case 1
    then have "cs = []" "limit = 0" using L by (auto split: if_splits)
    with 1 buf pre show ?thesis
      by (simp add: merkleize_inner_def merkleize_def depth_of.simps)
  next
    case 2
    show ?thesis
    proof (cases cs)
      case Nil
      with 2 L buf pre show ?thesis
        by (simp add: merkleize_inner_def merkleize_def depth_of.simps split: if_splits)
    next
      case (Cons c cs')
      with 2 L limit have "cs' = []" by (auto split: if_splits)
      with Cons 2 L buf pre cs show ?thesis
        by (simp add: merkleize_inner_def merkleize_def depth_of.simps split: if_splits)
    qed
  next
    case 3
    show ?thesis
    proof (cases "cs = []")
      case True
      with 3 L buf pre D show ?thesis
        by (auto simp: merkleize_inner_def merkleize_def merkle_tree_Nil split: if_splits)
    next
      case False
      have "length cs \<le> 2 ^ depth_of L"
        using depth_of_bound [of L] L limit by (auto split: if_splits)
      from layers_root [OF False this, of H 0]
      have root: "concat (layers H 0 (depth_of L) cs) = merkleize H L cs"
        by (simp add: merkle_from_0 merkleize_def)
      have "merkle_layers H idx 0 (depth_of L) (pre @ concat cs) = pre @ merkleize H L cs"
        using merkle_layers_exec [OF H pre cs] root by simp
      with 3 L buf pre D len False show ?thesis
        by (auto simp: merkleize_inner_def split: if_splits)
    qed
  qed
qed

text \<open>A buffer of whole chunks, split at a multiple of 32.\<close>

lemma split_chunks:
  assumes "32 dvd i" and "i \<le> length bs" and "32 dvd length bs"
  shows "bs = take i bs @ concat (chunks (drop i bs))" and "length (take i bs) = i"
    and "\<forall>c \<in> set (chunks (drop i bs)). length c = 32"
proof -
  have "32 dvd length (drop i bs)" using assms by (simp add: dvd_diff_nat)
  from pad32_whole [OF this] show "bs = take i bs @ concat (chunks (drop i bs))"
    by (simp add: pad32_def)
qed (use assms chunk_length in auto)

lemma inner_rooted:
  assumes H: "\<And>x. length (H x) = 32" and i: "32 dvd i" "i \<le> length (h_buf h)" "32 dvd length (h_buf h)"
    and limit: "limit = 0 \<or> length (chunks (drop i (h_buf h))) \<le> limit"
    and L: "L = (if limit = 0 then length (chunks (drop i (h_buf h))) else limit)"
    and D: "1 < L \<Longrightarrow> D L = Some (depth_of L)"
  shows "merkleize_inner D H i limit h = Some (h\<lparr>h_buf := rooted i (merkleize H L) (h_buf h)\<rparr>)"
proof -
  have "merkleize_inner D H i limit h = Some (h\<lparr>h_buf := take i (h_buf h) @ merkleize H L (chunks (drop i (h_buf h)))\<rparr>)"
    by (rule inner_exec [OF H split_chunks(1) [OF i] split_chunks(2) [OF i] split_chunks(3) [OF i] limit L])
      (rule D)
  then show ?thesis by (simp add: rooted_def)
qed

lemma length_aux: "n < 2 ^ 64 \<Longrightarrow> length_aux n = le_bytes 32 n"
proof -
  have zeros: "le_bytes k 0 = replicate k 0" for k by (induction k) auto
  have split: "le_bytes (j + k) n = le_bytes j n @ le_bytes k (n div 256 ^ j)" for j k n
  proof (induction j arbitrary: n)
    case (Suc j)
    then show ?case by (simp add: div_mult2_eq)
  qed simp
  assume "n < 2 ^ 64"
  then have "n div 256 ^ 8 = 0" by simp
  with split [of 8 24 n] zeros [of 24] show ?thesis by (simp add: length_aux_def)
qed

lemma mix_at_root:
  assumes "length pre = i" and "length root = 32"
  shows "mix_at H i aux (h\<lparr>h_buf := pre @ root\<rparr>) = Some (h\<lparr>h_buf := pre @ H (root @ aux)\<rparr>)"
  using assms by (simp add: mix_at_def)

lemma rust_mixin:
  assumes H: "\<And>x. length (H x) = 32" and i: "32 dvd i" "i \<le> length (h_buf h)" "32 dvd length (h_buf h)"
    and limit: "length (chunks (drop i (h_buf h))) \<le> limit" "limit \<le> 2 ^ 63" and n: "n < 2 ^ 64"
  shows "merkleize_mixin H i n limit h = Some (h\<lparr>h_buf := rooted i
    (\<lambda>cs. mix_in_length H (merkleize H limit cs) n) (h_buf h)\<rparr>)"
proof -
  let ?cs = "chunks (drop i (h_buf h))"
  have fill: "fill_up h = h" using fill_up_buf [of h] pad32_whole [OF i(3)] by simp
  have len: "length (merkleize H limit ?cs) = 32"
    by (rule length_merkleize [OF H]) (use chunk_length in blast)
  have "limit = (if limit = 0 then length ?cs else limit)" using limit(1) by (cases "limit = 0") auto
  from inner_rooted [where D = get_depth, OF H i _ this] limit fill
  have "merkleize_inner get_depth H i limit (fill_up h) =
      Some (h\<lparr>h_buf := take i (h_buf h) @ merkleize H limit ?cs\<rparr>)"
    by (simp add: rooted_def get_depth_def)
  with mix_at_root [OF split_chunks(2) [OF i] len] n show ?thesis
    by (simp add: merkleize_mixin_def rooted_def mix_in_length_def length_aux)
qed

lemma rust_merkleize:
  assumes H: "\<And>x. length (H x) = 32" and i: "32 dvd i" "i \<le> length (h_buf h)" "32 dvd length (h_buf h)"
  shows "merkleize_at H i h = Some (h\<lparr>h_buf := rooted i (\<lambda>cs. merkleize H (length cs) cs) (h_buf h)\<rparr>)"
  using inner_rooted [OF H i, of 0 _ memory_depth] by (simp add: merkleize_at_def memory_depth_def rooted_def)

lemma rust_put_bytes:
  assumes H: "\<And>x. length (H x) = 32" and bs: "bs \<noteq> []" and buf: "32 dvd length (h_buf h)"
  shows "\<exists>h'. put_bytes_chunk H bs h = Some h' \<and>
    h_buf h' = h_buf h @ merkleize H (length (chunks bs)) (chunks bs)"
proof (cases "length bs \<le> 32")
  case True
  with bs have "chunks bs = [pad_chunk bs]" by (simp add: chunks_step)
  then have "merkleize H (length (chunks bs)) (chunks bs) = pad32 bs"
    by (simp add: merkleize_def depth_of.simps pad32_def)
  with True show ?thesis by (simp add: put_bytes_chunk_def append_bytes32_buf)
next
  case False
  from rust_merkleize [OF H, of "length (h_buf h)" "append_bytes32 bs h"] buf
  have "merkleize_at H (length (h_buf h)) (append_bytes32 bs h) = Some ((append_bytes32 bs h)\<lparr>h_buf :=
      h_buf h @ merkleize H (length (chunks bs)) (chunks bs)\<rparr>)"
    by (simp add: append_bytes32_buf rooted_append)
  with False show ?thesis by (simp add: put_bytes_chunk_def hasher_index_def)
qed

section \<open>Bit lists\<close>

lemma byte_bit_length: "b \<noteq> 0 \<Longrightarrow>
    0 < bit_length (unat b) \<and> bit_length (unat (b::byte)) \<le> 8 \<and> 2 ^ top_bit b \<le> unat b \<and> unat b < 2 * 2 ^ top_bit b"
proof -
  assume "b \<noteq> 0"
  then have "0 < unat b" by (simp add: unat_gt_0)
  note bounds = bit_length_bounds [OF this]
  then have "2 ^ bit_length (unat b) = (2 * 2 ^ top_bit b :: nat)"
    unfolding top_bit_def by (cases "bit_length (unat b)") auto
  moreover have "unat b < 2 ^ 8" using unsigned_less [of b] by simp
  from bit_length_le [OF this] have "bit_length (unat b) \<le> 8" .
  ultimately show ?thesis using bounds unfolding top_bit_def by auto
qed

lemma top_bit_zeros: "b \<noteq> 0 \<Longrightarrow> 7 - leading_zeros b = top_bit b"
  using byte_bit_length [of b] by (simp add: leading_zeros_def top_bit_def)

lemma clear_top_bit:
  assumes "b \<noteq> 0"
  shows "and b (not (push_bit (top_bit b) 1)) = of_nat (unat b - 2 ^ top_bit b)"
proof -
  note bounds = byte_bit_length [OF assms]
  then have "unat b div 2 ^ top_bit b = 1" by (intro div_nat_eqI) auto
  then have "bit (unat b) (top_bit b)" by (simp add: bit_iff_odd)
  then have "bit b (top_bit b)" by (simp add: bit_unsigned_iff)
  then have "unset_bit (top_bit b) b = b - 2 ^ top_bit b" by (simp add: unset_bit_eq)
  then have "and b (not (push_bit (top_bit b) 1)) = b - 2 ^ top_bit b"
    by (simp only: unset_bit_eq_and_not)
  also have "\<dots> = of_nat (unat b - 2 ^ top_bit b)"
    using bounds by (simp add: of_nat_diff)
  finally show ?thesis .
qed

lemma pop_zeros_split: "\<exists>k. bs = pop_zeros bs @ replicate k 0"
proof -
  have "takeWhile (\<lambda>b. b = 0) (rev bs) = replicate (length (takeWhile (\<lambda>b. b = 0) (rev bs))) 0"
    by (rule replicate_eqI) (auto dest: set_takeWhileD)
  then have "rev bs = replicate (length (takeWhile (\<lambda>b. b = 0) (rev bs))) 0 @ dropWhile (\<lambda>b. b = 0) (rev bs)"
    by (metis takeWhile_dropWhile_id)
  then have "bs = rev (dropWhile (\<lambda>b. b = 0) (rev bs)) @ replicate (length (takeWhile (\<lambda>b. b = 0) (rev bs))) 0"
    by (metis rev_append rev_replicate rev_rev_ident)
  then show ?thesis unfolding pop_zeros_def by blast
qed

lemma pop_zeros_zero: "pop_zeros (bs @ [0]) = pop_zeros bs"
  by (simp add: pop_zeros_def)

lemma chunks_zeros: "chunks (replicate (32 * m) 0) = replicate m zero_chunk"
proof -
  have "replicate (32 * m) 0 = concat (replicate m zero_chunk)"
    by (induction m) (simp_all add: zero_chunk_def replicate_add)
  with chunks_concat [of "replicate m zero_chunk"] show ?thesis by (simp add: zero_chunk_def)
qed

lemma chunks_append_zeros: "\<exists>m. chunks (as @ replicate k 0) = chunks as @ replicate m zero_chunk"
proof -
  obtain a b where a: "pad32 as = as @ replicate a 0"
    and b: "pad32 (as @ replicate k 0) = as @ replicate (k + b) 0"
    using pad32_zeros [of as] pad32_zeros [of "as @ replicate k 0"] by (metis append.assoc replicate_add)
  have "length (pad32 as) \<le> length (pad32 (as @ replicate k 0))"
    by (simp add: length_pad32 div_le_mono)
  then have le: "a \<le> k + b" using a b by simp
  then have "pad32 (as @ replicate k 0) = pad32 as @ replicate (k + b - a) 0"
    using a b by (metis append.assoc le_add_diff_inverse replicate_add)
  moreover have "32 dvd length as + (k + b)" "32 dvd length as + a"
    using dvd_pad32 [of as] dvd_pad32 [of "as @ replicate k 0"] unfolding a b by simp_all
  then have "32 dvd (length as + (k + b)) - (length as + a)" by (rule dvd_diff_nat)
  then have "32 dvd k + b - a" by simp
  then obtain m where "k + b - a = 32 * m" by (auto elim: dvdE)
  ultimately have "chunks (pad32 (as @ replicate k 0)) = chunks (pad32 as @ replicate (32 * m) 0)" by simp
  then show ?thesis using chunks_append [OF dvd_pad32, of as] chunks_zeros by (metis chunks_pad32)
qed

lemma merkle_tree_zeros: "merkle_tree H d (cs @ replicate m zero_chunk) = merkle_tree H d cs"
proof (induction d arbitrary: cs m)
  case 0
  then show ?case by (cases cs; cases m) auto
next
  case (Suc d)
  then show ?case by simp
qed

lemma bitlist_parsed:
  assumes "bitlist_ok limit bs"
  shows "\<exists>m. parse_bitlist bs = (pop_zeros (bitlist_bits bs), bitlist_len bs) \<and>
    chunks (bitlist_bits bs) = chunks (pop_zeros (bitlist_bits bs)) @ replicate m zero_chunk \<and>
    length (pop_zeros (bitlist_bits bs)) \<le> (bitlist_len bs + 7) div 8"
proof -
  let ?l = "last bs" and ?t = "top_bit (last bs)"
  let ?x = "of_nat (unat (last bs) - 2 ^ top_bit (last bs)) :: byte"
  have bs: "bs \<noteq> []" "?l \<noteq> 0" using assms by (simp_all add: bitlist_ok_def)
  then have bs': "bs = butlast bs @ [?l]" "length (butlast bs) = length bs - 1" by simp_all
  have dst: "bs[length bs - 1 := and ?l (not (push_bit ?t 1))] = butlast bs @ [?x]"
    using clear_top_bit [of ?l] bs bs' by (metis butlast_snoc last_snoc length_append_singleton
        diff_Suc_1 list_update_length)
  have parse: "parse_bitlist bs = (pop_zeros (butlast bs @ [?x]), bitlist_len bs)"
    using bs top_bit_zeros [of ?l] dst by (simp add: parse_bitlist_def bitlist_len_def Let_def)
  have pop: "pop_zeros (butlast bs @ [?x]) = pop_zeros (bitlist_bits bs)"
  proof (cases "?t = 0")
    case True
    then have "unat ?l - 2 ^ ?t = 0" using byte_bit_length [of ?l] bs by simp
    then have "?x = 0" by simp
    moreover have "bitlist_bits bs = butlast bs"
      using True bs'(2) by (simp add: bitlist_bits_def bitlist_len_def)
    ultimately show ?thesis by (simp add: pop_zeros_zero)
  next
    case False
    have "?t \<le> 7" using byte_bit_length [of ?l] bs by (auto simp: top_bit_def)
    then have "(bitlist_len bs + 7) div 8 = length bs"
      using False bs by (cases bs) (auto simp: bitlist_len_def)
    then have "bitlist_bits bs = take (length (butlast bs @ [?x])) (butlast bs @ [?x])"
      using bs by (cases bs) (simp_all add: bitlist_bits_def)
    then have "bitlist_bits bs = butlast bs @ [?x]" by simp
    then show ?thesis by simp
  qed
  obtain k where k: "bitlist_bits bs = pop_zeros (bitlist_bits bs) @ replicate k 0"
    using pop_zeros_split by blast
  from chunks_append_zeros [of "pop_zeros (bitlist_bits bs)" k]
  obtain m where "chunks (bitlist_bits bs) = chunks (pop_zeros (bitlist_bits bs)) @ replicate m zero_chunk"
    unfolding k [symmetric] by blast
  moreover have "length (pop_zeros (bitlist_bits bs)) \<le> length (bitlist_bits bs)"
    by (subst (2) k) simp
  moreover have "length (bitlist_bits bs) \<le> (bitlist_len bs + 7) div 8"
    by (simp add: bitlist_bits_def)
  ultimately show ?thesis using parse pop by (metis le_trans)
qed

lemma rust_put_bitlist:
  assumes H: "\<And>x. length (H x) = 32" and ok: "bitlist_ok limit bs" and limit: "limit < 2 ^ 64 - 255"
    and len: "bitlist_len bs < 2 ^ 64" and buf: "32 dvd length (h_buf h)"
  shows "\<exists>h'. put_bitlist_chunk H bs limit h = Some h' \<and> h_buf h' = h_buf h @ bitlist_root H limit bs"
proof -
  from bitlist_parsed [OF ok] obtain m where p: "parse_bitlist bs = (pop_zeros (bitlist_bits bs), bitlist_len bs)"
    "chunks (bitlist_bits bs) = chunks (pop_zeros (bitlist_bits bs)) @ replicate m zero_chunk"
    "length (pop_zeros (bitlist_bits bs)) \<le> (bitlist_len bs + 7) div 8" by blast
  let ?b = "pop_zeros (bitlist_bits bs)" and ?lim = "(limit + 255) div 256"
  let ?h = "append_bytes32 ?b h"
  have lim: "((limit + 255) mod 2 ^ 64) div 256 = ?lim" using limit by simp
  have "length ?b \<le> (limit + 7) div 8"
    using p(3) ok div_le_mono [of "bitlist_len bs + 7" "limit + 7" 8] by (simp add: bitlist_ok_def)
  then have "(length ?b + 31) div 32 \<le> ((limit + 7) div 8 + 31) div 32" by (intro div_le_mono) simp
  also have "(limit + 7) div 8 + 31 = (limit + 255) div 8" by simp
  finally have "length (chunks ?b) \<le> ?lim" by (simp add: length_chunks flip: div_mult2_eq)
  moreover have "?lim \<le> 2 ^ 63" using limit by simp
  ultimately have "merkleize_mixin H (length (h_buf h)) (bitlist_len bs) ?lim ?h = Some (?h\<lparr>h_buf :=
      rooted (length (h_buf h)) (\<lambda>cs. mix_in_length H (merkleize H ?lim cs) (bitlist_len bs)) (h_buf ?h)\<rparr>)"
    by (intro rust_mixin [OF H]) (use buf len in \<open>simp_all add: append_bytes32_buf\<close>)
  then have "put_bitlist_chunk H bs limit h = Some (?h\<lparr>h_buf :=
      h_buf h @ mix_in_length H (merkleize H ?lim (chunks ?b)) (bitlist_len bs)\<rparr>)"
    using p(1) lim by (simp add: put_bitlist_chunk_def hasher_index_def append_bytes32_buf rooted_append)
  moreover have "merkleize H ?lim (chunks (bitlist_bits bs)) = merkleize H ?lim (chunks ?b)"
    unfolding p(2) by (simp add: merkleize_def merkle_tree_zeros)
  ultimately show ?thesis by (simp add: bitlist_root_def)
qed

section \<open>Progressive trees\<close>

text \<open>
  The chain of subtrees of 1, 4, 16, ... chunks that the comment in the library describes, and
  the root that the library computes, which is the chunk itself where there is only one.
\<close>

function prog_tree :: "hash_fun \<Rightarrow> nat \<Rightarrow> chunk list \<Rightarrow> chunk" where
  "prog_tree H cap cs =
     (if cs = [] \<or> cap = 0 then zero_chunk
      else H (merkleize H cap (take cap cs) @ prog_tree H (4 * cap) (drop cap cs)))"
  by auto
termination by (relation "measure (\<lambda>(H, cap, cs). length cs)") auto

declare prog_tree.simps [simp del]

definition rust_progressive :: "hash_fun \<Rightarrow> chunk list \<Rightarrow> chunk" where
  "rust_progressive H cs = (if length cs = 1 then hd cs else prog_tree H 1 cs)"

lemma subtree_roots_exec:
  assumes H: "\<And>x. length (H x) = 32"
  shows "\<forall>c \<in> set cs. length c = 32 \<Longrightarrow> 0 < cap \<Longrightarrow>
    \<exists>roots. subtree_roots H (length pre) cap (subtree_sizes (length cs) cap) (pre @ concat cs) = Some roots \<and>
      foldr (\<lambda>root acc. H (root @ acc)) roots zero_chunk = prog_tree H cap cs"
proof (induction "length cs" arbitrary: cs cap pre rule: less_induct)
  case less
  show ?case
  proof (cases "cs = []")
    case True
    then show ?thesis by (simp add: subtree_sizes.simps prog_tree.simps)
  next
    case False
    let ?as = "take cap cs" and ?bs = "drop cap cs"
    let ?pre = "pre @ concat ?as" and ?sz = "min cap (length cs)"
    have as: "\<forall>c \<in> set ?as. length c = 32" and bs: "\<forall>c \<in> set ?bs. length c = 32"
      using less.prems(1) by (auto dest: in_set_takeD in_set_dropD)
    have buf: "pre @ concat cs = pre @ concat ?as @ concat ?bs"
      by (metis append_take_drop_id concat_append)
    have len: "length (concat ?as) = 32 * ?sz" using length_concat_chunks [OF as] by (simp add: min.commute)
    have inner: "merkleize_inner memory_depth H 0 cap (extend (concat ?as) new_hasher) =
        Some ((extend (concat ?as) new_hasher)\<lparr>h_buf := [] @ merkleize H cap ?as\<rparr>)"
      by (rule inner_exec [OF H _ _ as])
        (use less.prems(2) in \<open>auto simp: extend_def new_hasher_def memory_depth_def\<close>)
    have root: "length (merkleize H cap ?as) = 32" by (rule length_merkleize [OF H as])
    have shorter: "length ?bs < length cs" using False less.prems(2) by (cases cs) auto
    from less.hyps [OF shorter bs, of "4 * cap" ?pre] less.prems(2) obtain roots where
      roots: "subtree_roots H (length pre + 32 * ?sz) (4 * cap) (subtree_sizes (length cs - cap) (4 * cap))
        (pre @ concat cs) = Some roots"
      "foldr (\<lambda>root acc. H (root @ acc)) roots zero_chunk = prog_tree H (4 * cap) ?bs"
      unfolding buf using len by auto
    have sizes: "subtree_sizes (length cs) cap = ?sz # subtree_sizes (length cs - cap) (4 * cap)"
      using False less.prems(2) by (subst subtree_sizes.simps) simp
    have "take (32 * ?sz) (drop (length pre) (pre @ concat cs)) = concat ?as"
      unfolding buf using len by simp
    moreover have "length pre + 32 * ?sz \<le> length (pre @ concat cs)"
      unfolding buf using len by simp
    ultimately have "subtree_roots H (length pre) cap (subtree_sizes (length cs) cap) (pre @ concat cs) =
        Some (merkleize H cap ?as # roots)"
      unfolding sizes using inner root roots(1) by simp
    moreover have "prog_tree H cap cs = H (merkleize H cap ?as @ prog_tree H (4 * cap) ?bs)"
      using False less.prems(2) by (subst prog_tree.simps) simp
    ultimately show ?thesis using roots(2) by auto
  qed
qed

lemma length_prog_tree: "(\<And>x. length (H x) = 32) \<Longrightarrow> length (prog_tree H cap cs) = 32"
  by (subst prog_tree.simps) (simp add: zero_chunk_def)

lemma length_rust_progressive:
  "(\<And>x. length (H x) = 32) \<Longrightarrow> \<forall>c \<in> set cs. length c = 32 \<Longrightarrow> length (rust_progressive H cs) = 32"
  by (cases cs) (auto simp: rust_progressive_def length_prog_tree)

lemma rust_progressive_at:
  assumes H: "\<And>x. length (H x) = 32" and i: "32 dvd i" "i \<le> length (h_buf h)" "32 dvd length (h_buf h)"
  shows "merkleize_progressive_at H i h = Some (h\<lparr>h_buf := rooted i (rust_progressive H) (h_buf h)\<rparr>)"
proof -
  let ?cs = "chunks (drop i (h_buf h))" and ?pre = "take i (h_buf h)"
  note split = split_chunks [OF i]
  have fill: "fill_up h = h" using fill_up_buf [of h] pad32_whole [OF i(3)] by simp
  have len: "length (h_buf h) - i = 32 * length ?cs"
    using length_concat_chunks [OF split(3)] pad32_whole [of "drop i (h_buf h)"] i
    by (simp add: pad32_def dvd_diff_nat)
  have more: "\<exists>roots. subtree_roots H i 1 (subtree_sizes (length ?cs) 1) (h_buf h) = Some roots \<and>
      foldr (\<lambda>root acc. H (root @ acc)) roots zero_chunk = prog_tree H 1 ?cs"
    using subtree_roots_exec [of H ?cs 1 ?pre] H split by simp
  consider "?cs = []" | c where "?cs = [c]" | "1 < length ?cs"
    by (cases ?cs rule: remdups_adj.cases) auto
  then show ?thesis
  proof cases
    case 1
    with fill len i show ?thesis
      by (simp add: merkleize_progressive_at_def rooted_def rust_progressive_def prog_tree.simps)
  next
    case 2
    with split(1) have "take (i + 32) (h_buf h) = ?pre @ c"
      using split(2,3) by (metis append.right_neutral concat.simps(1) concat.simps(2) length_append
          list.set_intros(1) take_all_iff le_refl)
    with 2 fill len i show ?thesis
      by (simp add: merkleize_progressive_at_def rooted_def rust_progressive_def)
  next
    case 3
    then have "length ?cs \<noteq> 0" "length ?cs \<noteq> 1" by linarith+
    with more fill len i show ?thesis
      by (auto simp: merkleize_progressive_at_def rooted_def rust_progressive_def Let_def)
  qed
qed

lemma rust_progressive_mix:
  assumes H: "\<And>x. length (H x) = 32" and i: "32 dvd i" "i \<le> length (h_buf h)" "32 dvd length (h_buf h)"
  shows "Option.bind (merkleize_progressive_at H i h) (mix_at H i aux) =
    Some (h\<lparr>h_buf := rooted i (\<lambda>cs. H (rust_progressive H cs @ aux)) (h_buf h)\<rparr>)"
proof -
  have "length (rust_progressive H (chunks (drop i (h_buf h)))) = 32"
    by (rule length_rust_progressive [OF H]) (use chunk_length in blast)
  from mix_at_root [OF split_chunks(2) [OF i] this] show ?thesis
    by (simp add: rust_progressive_at [OF H i] rooted_def)
qed

section \<open>The contract\<close>

text \<open>
  The hash function is any with results of 32 bytes; \<open>sized\<close> makes one of any function.
\<close>

definition sized :: "hash_fun \<Rightarrow> hash_fun" where
  "sized H bs = take 32 (H bs @ replicate 32 0)"

lemma length_sized: "length (sized H bs) = 32"
  by (simp add: sized_def)

lemma hash_walker_rust:
  assumes H: "\<And>x. length (H x) = 32"
  shows "hash_walker (rust_walker H) h_buf H (rust_progressive H)"
proof
  fix bs show "length (H bs) = 32" by (rule H)
next
  fix cs :: "chunk list" assume "\<forall>c \<in> set cs. length c = 32"
  then show "length (rust_progressive H cs) = 32" by (rule length_rust_progressive [OF H])
next
  fix b and s :: Hasher show "leaves h_buf (w_put_bool (rust_walker H) b s) (h_buf s @ pad32 [if b then 1 else 0])"
    by (simp add: rust_walker_def leaves_def put_bool_chunk_def extend_def pad32_short)
next
  fix w n and s :: Hasher assume "w \<in> word_bits"
  then show "leaves h_buf (w_put_uint (rust_walker H) w n s) (h_buf s @ pad32 (le_bytes (w div 8) n))"
    by (subst pad32_short)
      (auto simp: word_bits_def rust_walker_def leaves_def put_uint_chunk_def extend_def simp flip: length_0_conv)
next
  fix bs :: "byte list" and s :: Hasher assume "bs \<noteq> []" "32 dvd length (h_buf s)"
  from rust_put_bytes [where H = H, OF H this]
  show "leaves h_buf (w_put_bytes (rust_walker H) bs s) (h_buf s @ merkleize H (length (chunks bs)) (chunks bs))"
    by (simp add: rust_walker_def leaves_def)
next
  fix limit bs and s :: Hasher assume "bitlist_ok limit bs" "limit < 2 ^ 64 - 255" "bitlist_len bs < 2 ^ 64" "32 dvd length (h_buf s)"
  from rust_put_bitlist [where H = H, OF H this]
  show "leaves h_buf (w_put_bitlist (rust_walker H) bs limit s) (h_buf s @ bitlist_root H limit bs)"
    by (simp add: rust_walker_def leaves_def)
next
  fix i and s :: Hasher assume i: "32 dvd i" "i \<le> length (h_buf s)" "32 dvd length (h_buf s)"
  from rust_merkleize [where H = H, OF H i]
  show "leaves h_buf (w_merkleize (rust_walker H) i s) (rooted i (\<lambda>cs. merkleize H (length cs) cs) (h_buf s))"
    by (simp add: rust_walker_def leaves_def)
  fix n :: nat assume n: "n < 2 ^ 64"
  from rust_progressive_mix [where H = H and aux = "length_aux n", OF H i] n
  show "leaves h_buf (w_merkleize_progressive_with_mixin (rust_walker H) i n s)
      (rooted i (\<lambda>cs. mix_in_length H (rust_progressive H cs) n) (h_buf s))"
    by (simp add: rust_walker_def leaves_def progressive_mixin_def mix_in_length_def length_aux)
  fix limit assume "limit \<le> 2 ^ 63" "length (chunks (drop i (h_buf s))) \<le> limit"
  from rust_mixin [where H = H, OF H i this(2,1) n]
  show "leaves h_buf (w_merkleize_with_mixin (rust_walker H) i n limit s)
      (rooted i (\<lambda>cs. mix_in_length H (merkleize H limit cs) n) (h_buf s))"
    by (simp add: rust_walker_def leaves_def)
next
  fix i and bits :: "byte list" and s :: Hasher assume i: "32 dvd i" "i \<le> length (h_buf s)" "32 dvd length (h_buf s)" "length bits \<le> 32"
  from rust_progressive_mix [where H = H and aux = "pad_chunk bits", OF H i(1-3)] i(4)
  show "leaves h_buf (w_merkleize_progressive_with_active_fields (rust_walker H) i bits s)
      (rooted i (\<lambda>cs. H (rust_progressive H cs @ pad_chunk bits)) (h_buf s))"
    by (simp add: rust_walker_def leaves_def progressive_active_def pad_chunk_def Let_def)
qed (simp_all add: rust_walker_def leaves_def hasher_index_def extend_def append_bytes32_buf fill_up_buf)

interpretation rust: hash_walker "rust_walker (sized H)" h_buf "sized H" "rust_progressive (sized H)"
  by (rule hash_walker_rust) (rule length_sized)

end
