(* ===== verification/Rust_Serialize.thy ===== *)
theory Rust_Serialize
  imports Rust_Hash_Text Rust_Program Go_Size Go_Hash_Root Rust_Hasher_Facts
begin

text \<open>
  The hashing style of the Rust back end, the Rust text of the hashing statements, and the proof
  that the text emitted by \<open>Rust_Hash_Text\<close> is the text of the statements of \<open>Emit_Hash\<close>.
  Behind it, the emitted encoder and hasher as programs, the latter on the hasher of the runtime.
\<close>

section \<open>The style\<close>

definition rust_list_limit :: "SszFieldInfo \<Rightarrow> u64" where
  "rust_list_limit info =
     (if elem_is info SszUint8 then (info_limit info + 31) div 32
      else if elem_is info SszContainer then info_limit info
      else rust_hash_limit info)"

definition rust_style :: hash_style where
  "rust_style = \<lparr>hs_index_loops = False, hs_gap = HPutZeroHash, hs_limit = rust_list_limit\<rparr>"

lemma rust_style_simps [simp]:
  "\<not> hs_index_loops rust_style" "hs_gap rust_style = HPutZeroHash" "hs_limit rust_style = rust_list_limit"
  by (simp_all add: rust_style_def)

section \<open>Rust text\<close>

fun rs_hstmt :: "string \<Rightarrow> hstmt \<Rightarrow> string"
  and rs_hstmts :: "string \<Rightarrow> hstmt list \<Rightarrow> string" where
  "rs_hstmt ind (HNote s) = []"
| "rs_hstmt ind HBlank = []"
| "rs_hstmt ind (HIndex x) = line ind (''let '' @ rs_name x @ '' = h.index();'')"
| "rs_hstmt ind (HPutBool e) = line ind (''h.put_bool('' @ rs_value e @ '');'')"
| "rs_hstmt ind (HPutUint w e) = line ind (''h.put_u'' @ NumToString w @ ''('' @ rs_value e @ '');'')"
| "rs_hstmt ind HPutZero = line ind ''h.put_u8(0);''"
| "rs_hstmt ind (HPutArray e) = line ind (''h.put_bytes('' @ rs_ref e @ '');'')"
| "rs_hstmt ind (HPutBitlist e l) = line ind (''h.put_bitlist('' @ rs_ref e @ '', '' @ num64 l @ '');'')"
| "rs_hstmt ind (HAppendBool e) = line ind (''h.append_bool('' @ rs_value e @ '');'')"
| "rs_hstmt ind (HAppendUint w e) = line ind (''h.append_u'' @ NumToString w @ ''('' @ rs_value e @ '');'')"
| "rs_hstmt ind (HAppendBytes32 e) = line ind (''h.append_bytes32('' @ rs_ref e @ '');'')"
| "rs_hstmt ind HFill = line ind ''h.fill_up_to_32();''"
| "rs_hstmt ind (HMerkleize x) = line ind (''h.merkleize('' @ rs_name x @ '');'')"
| "rs_hstmt ind (HMixin x e l) =
     line ind (''h.merkleize_with_mixin('' @ rs_name x @ '', '' @ rs_expr e @ ''.len() as u64, '' @ num64 l @ '');'')"
| "rs_hstmt ind (HProgMixin x e) =
     line ind (''h.merkleize_progressive_with_mixin('' @ rs_name x @ '', '' @ rs_expr e @ ''.len() as u64);'')"
| "rs_hstmt ind (HProgActive x bs) =
     line ind (''h.merkleize_progressive_with_active_fields('' @ rs_name x @ '', &['' @
       comma_list (map hex_byte bs) @ '']);'')"
| "rs_hstmt ind (HFor i e b) =
     line ind (''for '' @ i @ '' in 0..'' @ rs_expr e @ ''.len() {'') @ rs_hstmts (ind @ sp4) b @ line ind ''}''"
| "rs_hstmt ind (HForVal x e b) =
     (case b of
        [HCall c] \<Rightarrow> line ind (''for '' @ x @ '' in '' @ rs_ref e @ '' { '' @ rs_expr c @ ''.tree_hash_with(h); }'')
      | _ \<Rightarrow> line ind (''for '' @ x @ '' in '' @ rs_ref e @ '' {'') @ rs_hstmts (ind @ sp4) b @ line ind ''}'')"
| "rs_hstmt ind (HBlk b) = line ind ''{'' @ rs_hstmts (ind @ sp4) b @ line ind ''}''"
| "rs_hstmt ind (HCall e) = line ind (rs_expr e @ ''.tree_hash_with(h);'')"
| "rs_hstmt ind HPutZeroHash = line ind ''h.put_zero_hash();''"
| "rs_hstmts ind [] = []"
| "rs_hstmts ind (s # ss) = rs_hstmt ind s @ rs_hstmts ind ss"

lemma rs_hstmts_append [simp]: "rs_hstmts ind (xs @ ys) = rs_hstmts ind xs @ rs_hstmts ind ys"
  by (induction xs) auto

section \<open>The emitted text is the text of the statements\<close>

lemma rust_inner_chunk_eq: "rust_inner_chunk = go_inner_chunk_limit"
  by (intro ext) (simp add: rust_inner_chunk_def go_inner_chunk_limit_def go_ssz_limit_for_bytes_def Let_def)

lemma print_rust_append:
  "rust_GenAppendPrimitive t (CHR ''*'' # ''v'') ind = rs_hstmts ind (append_stmts t (GLocal ''v''))"
  by (cases t) (simp_all add: rust_GenAppendPrimitive_def append_stmts_def num_literals digit_8)

lemma print_rust_hash_prims:
  "rust_hash_prims info (''self.'' @ f) ind =
   rs_hstmts (ind @ sp4)
     [HForVal ''v'' (GMember f) (append_stmts (elem_ssz_type info) (GLocal ''v'')), HFill]"
  by (cases "elem_ssz_type info")
    (simp_all add: rust_hash_prims_def print_rust_append append_stmts_def num_literals digit_8)

lemma print_rust_hash_vector:
  "rust_hash_vector info (''self.'' @ f) ind = rs_hstmts ind (hash_vector_stmts False info (GMember f))"
  by (simp add: rust_hash_vector_def hash_vector_stmts_def sub_tree_def rust_sub_tree_def rs_name_def
      rust_hash_containers_def print_rust_hash_prims [simplified])

lemma print_rust_hash_list:
  "rust_hash_list info (''self.'' @ f) ind = rs_hstmts ind (hash_list_stmts rust_list_limit info (GMember f))"
  by (cases "elem_info info = None")
    (simp_all add: elem_is_none rust_hash_list_def hash_list_stmts_def sub_tree_def rust_sub_tree_def
      rs_name_def hash_elems_stmts_def rust_hash_containers_def rust_hash_bytes_def rust_mixin_def
      rust_list_limit_def rust_inner_chunk_eq print_rust_hash_prims [simplified] Let_def)

lemma print_rust_hash_progressive:
  "rust_hash_progressive_list info (''self.'' @ f) ind =
   rs_hstmts ind (hash_progressive_stmts info (GMember f))"
  by (cases "elem_info info = None")
    (simp_all add: elem_is_none rust_hash_progressive_list_def hash_progressive_stmts_def sub_tree_def
      rust_sub_tree_def rs_name_def hash_elems_stmts_def rust_hash_containers_def rust_hash_bytes_def
      rust_progressive_mixin_def print_rust_hash_prims [simplified])

lemma print_rust_hash:
  "rust_GenHashField info (''self.'' @ f) ind = rs_hstmts ind (hash_stmts rust_style info (GMember f))"
  by (cases "ssz_type info")
    (simp_all add: rust_GenHashField_def hash_stmts_def print_rust_hash_vector [simplified]
      print_rust_hash_list [simplified] print_rust_hash_progressive [simplified] num_literals digit_8)

lemma print_rust_hash_index:
  "rust_hash_index P c i = rs_hstmts sp8 (index_stmts rust_style (rust_dialect P) c i)"
  by (simp add: rust_hash_index_def index_stmts_def print_rust_hash [simplified] split: option.split)

lemma print_rust_hash_body:
  "rust_GenHashMethod P c =
     line sp4 ''pub fn tree_hash_with(&self, h: &mut Hasher) {'' @
     rs_hstmts sp8 (hash_body rust_style (rust_dialect P) c) @ line sp4 ''}''"
proof -
  have "each_field c ps (\<lambda>p info. rust_GenHashField info (''self.'' @ rust_member P p) sp8) =
      rs_hstmts sp8 (concat (map (field_hash_stmts rust_style (rust_dialect P)) (infos_of c ps)))" for ps
    by (induction ps) (auto simp: field_hash_stmts_def print_rust_hash [simplified] split: option.splits)
  moreover have "concat (map (\<lambda>i. rust_hash_index P c (of_nat i)) is) =
      rs_hstmts sp8 (concat (map (\<lambda>i. index_stmts rust_style (rust_dialect P) c (of_nat i)) is))"
    for "is" :: "nat list"
    by (induction "is") (auto simp: print_rust_hash_index)
  ultimately show ?thesis
    by (simp only: rust_GenHashMethod_def hash_body_def) (simp add: rs_name_def del: upt_Suc)
qed


text \<open>
  The programs that the Rust back end emits for a schema, and the contract that its hashing style
  keeps with the hasher of the Rust runtime.  The analysis of the Rust back end accepts what that
  of the Go back end accepts, with the same result, so that both find the same containers.
\<close>

section \<open>The emitted programs\<close>

definition rust_decl :: "Parser \<Rightarrow> SszContainerInfo \<Rightarrow> gdecl" where
  "rust_decl P = emit_decl (rust_dialect P)"

definition rust_program :: "nat \<Rightarrow> Parser \<Rightarrow> gprogram" where
  "rust_program depth P = emit_program rust_AnalyzeContainer (rust_dialect P) depth P"

definition rust_hdecl :: "Parser \<Rightarrow> SszContainerInfo \<Rightarrow> hdecl" where
  "rust_hdecl P = emit_hdecl rust_style (rust_dialect P)"

definition rust_hprogram :: "nat \<Rightarrow> Parser \<Rightarrow> hprogram" where
  "rust_hprogram depth P = emit_hprogram rust_AnalyzeContainer rust_style (rust_dialect P) depth P"

lemma rust_program_eq:
  "rust_program depth P = emit_program go_AnalyzeContainer (rust_dialect P) depth P"
  "rust_hprogram depth P = emit_hprogram go_AnalyzeContainer rust_style (rust_dialect P) depth P"
  by (simp_all only: rust_program_def rust_hprogram_def
      go_copy.emit_program_eq [OF rust.go_copy_axioms] go_copy.emit_hprogram_eq [OF rust.go_copy_axioms])

text \<open>
  What the Rust compiler checks of the names: types and members are distinct, and, as the generator
  does not escape them, no member is a keyword.
\<close>

definition rust_names_ok :: "Parser \<Rightarrow> bool" where
  "rust_names_ok P \<longleftrightarrow>
     names_ok (rust_dialect P) P \<and>
     list_all (\<lambda>s. list_all (\<lambda>p. rust_member P p \<notin> set RustKeywords) (live_fields P s))
       [0..<length (struct_store P)]"

section \<open>Chunk limits\<close>

text \<open>The limits for which the 64-bit arithmetic of the generator does not wrap.\<close>

definition rust_fits :: "ssz_ty \<Rightarrow> nat \<Rightarrow> bool" where
  "rust_fits t l \<longleftrightarrow> is_basic t \<longrightarrow> l * fixed_len t + 31 < 2 ^ 64"

lemma rust_limit_chunks:
  assumes e: "elem_info i = Some e" "info_rep st e t" and fl: "flat_elem t" "\<forall>u l. t \<noteq> TList u l"
    and t: "hashable t" and l: "unat (info_limit i) \<le> 2 ^ 63" and fits: "rust_fits t (unat (info_limit i))"
  shows "unat (rust_list_limit i) = limit_chunks t (unat (info_limit i))"
  using e(2) fl(1)
proof (cases rule: flat_elem_cases)
  case byte
  with e l byte_basic [OF byte(1)] show ?thesis
    using limit_for_bytes [of "info_limit i"]
    by (simp add: rust_list_limit_def go_ssz_limit_for_bytes_def elem_rep_simps limit_chunks_def)
next
  case prim
  have basic: "is_basic t" using prim(2) by auto
  have "unat (ucast (fixed_size e) :: u64) = fixed_len t"
    using basic_size [OF basic t e(2)] by auto
  moreover have "unat (info_limit i) * fixed_len t + 31 < 2 ^ 64"
    using fits basic by (simp add: rust_fits_def)
  ultimately have "unat (info_limit i * ucast (fixed_size e) + 31) = unat (info_limit i) * fixed_len t + 31"
    by (simp add: unat_word_ariths)
  with prim(3) e basic show ?thesis
    by (simp add: rust_list_limit_def rust_hash_limit_def elem_rep_simps limit_chunks_def unat_div)
next
  case (cont nm fs)
  with e show ?thesis by (simp add: rust_list_limit_def elem_rep_simps limit_chunks_def)
next
  case (bytes k)
  with fl show ?thesis by simp
qed

lemma wrapped_chunks:
  fixes n :: nat
  assumes "2 ^ 64 \<le> n"
  shows "n mod 2 ^ 64 div 32 < n div 32"
proof -
  have "n mod 2 ^ 64 = (n - 2 ^ 64) mod 2 ^ 64" using assms by (rule le_mod_geq)
  also have "\<dots> \<le> n - 2 ^ 64" by (rule mod_less_eq_dividend)
  finally have "n mod 2 ^ 64 + 32 \<le> n" using assms by simp
  then have "(n mod 2 ^ 64 + 32) div 32 \<le> n div 32" by (rule div_le_mono)
  then show ?thesis by simp
qed

lemma put_zero_chunk_buf: "h_buf (put_zero_chunk h) = h_buf h @ zero_chunk"
  by (simp add: put_zero_chunk_def extend_def zero_chunk_def)

lemma hash_emitter_rust:
  assumes H: "\<And>x. length (H x) = 32"
  shows "hash_emitter (rust_walker H) h_buf H (rust_progressive H) rust_style rust_fits"
proof (intro hash_emitter.intro hash_emitter_axioms.intro)
  show "hash_walker (rust_walker H) h_buf H (rust_progressive H)" by (rule hash_walker_rust [OF H])
  show "keeps h_buf fr (hexec (rust_walker H) C (hs_gap rust_style) (fr, s)) (h_buf s @ zero_chunk)" for fr C s
    by (simp add: leaves_def rust_walker_def put_zero_chunk_buf)
qed (simp add: rust_limit_chunks)

interpretation rust_style: hash_emitter "rust_walker (sized H)" h_buf "sized H" "rust_progressive (sized H)"
    rust_style rust_fits
  by (rule hash_emitter_rust) (rule length_sized)

section \<open>The wrappers\<close>

text \<open>\<open>as_ssz_bytes\<close>: the capacity of the vector is what \<open>ssz_bytes_len\<close> says.\<close>

definition rust_as_ssz_bytes :: "gprogram \<Rightarrow> nat \<Rightarrow> string \<Rightarrow> val list \<Rightarrow> (nat \<times> byte list) option" where
  "rust_as_ssz_bytes prog n nm vs =
     Option.bind (SizeSSZ prog n nm vs) (\<lambda>capacity.
       map_option (Pair capacity) (MarshalSSZTo prog n nm vs []))"

text \<open>\<open>tree_hash_root\<close>: a hasher from the pool is new or has been reset.\<close>

definition rust_tree_hash_root :: "hash_fun \<Rightarrow> hprogram \<Rightarrow> nat \<Rightarrow> string \<Rightarrow> val list \<Rightarrow> chunk option" where
  "rust_tree_hash_root H prog n nm vs =
     map_option hasher_finish (HashTreeRootWith (rust_walker H) prog n nm vs new_hasher)"

lemma finish_root:
  "leaves h_buf r (h_buf new_hasher @ root) \<Longrightarrow> length root = 32 \<Longrightarrow> map_option hasher_finish r = Some root"
  by (auto simp: leaves_def hasher_finish_def new_hasher_def)

end
