(* ===== verification/Rust_Decode.thy ===== *)
theory Rust_Decode
  imports Rust_Decode_Program Go_Decode Rust_Serialize
begin

text \<open>
  The emitted \<open>from_ssz_bytes\<close> gives back the value whose serialization it is given.  \<open>holds\<close>, from
  the Go back end, says which bytes stand at a position.
\<close>

section \<open>Slices\<close>

abbreviation at_pos :: "byte list \<Rightarrow> nat \<Rightarrow> byte list \<Rightarrow> bool" where
  "at_pos bs pos xs \<equiv> holds (bs, length bs) pos xs"

lemma sub_slice_at: "at_pos bs pos xs \<Longrightarrow> e = pos + length xs \<Longrightarrow> sub_slice bs pos e = Done xs"
  by (auto simp: holds_def sub_slice_def slice_ok_def)

lemma read_uint_at:
  assumes "at_pos bs pos (le_bytes k n)" and "n < 256 ^ k" and "w div 8 = k" and "e = pos + k"
  shows "read_uint w bs pos e = Done n"
  using sub_slice_at [OF assms(1)] assms(2-4) by (simp add: read_uint_def to_array_def le_val_le_bytes)

lemma read_byte_at: "at_pos bs pos [b] \<Longrightarrow> read_byte bs pos = Done b"
  using holds_byte [of "(bs, length bs)" pos b] by (simp add: read_byte_def)

lemma with_slice_at:
  assumes "eval_pos bs offs a = Done x" and "eval_pos bs offs b = Done (x + length xs)" and "at_pos bs x xs"
  shows "with_slice bs offs a b f = f xs"
  using assms sub_slice_at [OF assms(3)] by (simp add: with_slice_def)

lemma push_all_map: "(\<And>x. x \<in> set xs \<Longrightarrow> f x = Done (g x)) \<Longrightarrow> push_all f xs = Done (map g xs)"
  by (induction xs) auto

lemma push_all_nth: "(\<And>k. k < length xs \<Longrightarrow> f k = Done (xs ! k)) \<Longrightarrow> push_all f [0..<length xs] = Done xs"
  using push_all_map [of "[0..<length xs]" f "(!) xs"] by (simp add: map_nth)

section \<open>Types that decode\<close>

text \<open>
  Rust compiles the conversion of bytes to a vector for vectors of bytes only; the elements of a
  list have to take bytes, as in Go; a union has no Rust type.
\<close>

fun readable :: "ssz_ty \<Rightarrow> bool"
  and fields_readable :: "(string \<times> ssz_ty) list \<Rightarrow> bool" where
  "readable (TVector t n) = is_byte_ty t"
| "readable (TList t l) = (readable t \<and> (is_variable t \<or> 0 < fixed_len t))"
| "readable (TProgressiveList t) = (readable t \<and> (is_variable t \<or> 0 < fixed_len t))"
| "readable (TContainer s fs) = fields_readable fs"
| "readable TUnion = False"
| "readable t = True"
| "fields_readable [] = True"
| "fields_readable ((n, t) # fs) = (readable t \<and> fields_readable fs)"

definition named_types :: "Parser \<Rightarrow> struct_types \<Rightarrow> bool" where
  "named_types P st \<longleftrightarrow> (\<forall>q nm fs. st q = Some (TContainer nm fs) \<longrightarrow> nm = sd_name (struct_at P q))"

definition reads_back :: "struct_types \<Rightarrow> rcalls \<Rightarrow> bool" where
  "reads_back st C \<longleftrightarrow>
     (\<forall>q nm fs vs. st q = Some (TContainer nm fs) \<longrightarrow> fields_bits_ok fs \<longrightarrow> size_ok (TContainer nm fs) \<longrightarrow>
        fields_readable fs \<longrightarrow> vals_ok fs vs \<longrightarrow>
        length (serialize (TContainer nm fs) (VStruct nm vs)) < 2 ^ 32 \<longrightarrow>
        C nm (serialize (TContainer nm fs) (VStruct nm vs)) = Done (VStruct nm vs))"

text \<open>The info of a struct leads to its method.\<close>

lemma reads_back_call:
  assumes "reads_back st C" and "named_types P st" and "info_rep st i (TContainer nm fs)" and "fields_bits_ok fs"
    and "size_ok (TContainer nm fs)" and "fields_readable fs" and "val_ok (TContainer nm fs) v"
    and "length (serialize (TContainer nm fs) v) < 2 ^ 32"
  shows "C (info_struct_name P d i) (serialize (TContainer nm fs) v) = Done v"
proof -
  from assms(7) obtain vs where v: "v = VStruct nm vs" "vals_ok fs vs" by auto
  from assms(3) obtain q where q: "info_struct i = Some q" "st q = Some (TContainer nm fs)" by auto
  with assms(2) have nm: "info_struct_name P d i = nm" by (simp add: info_struct_name_def named_types_def)
  have "length (serialize (TContainer nm fs) (VStruct nm vs)) < 2 ^ 32" using assms(8) v by (simp only:)
  with assms(1,4-6) v(2) q(2) have
    "C nm (serialize (TContainer nm fs) (VStruct nm vs)) = Done (VStruct nm vs)"
    unfolding reads_back_def by blast
  then show ?thesis by (simp only: nm v(1))
qed

section \<open>Fields of fixed size\<close>

lemma small_byte: "n < 256 \<Longrightarrow> unat (of_nat n :: byte) = n"
  by (simp add: unat_of_nat)

lemma fixed_read_value:
  assumes C: "reads_back st C" "named_types P st" and rep: "info_rep st i t" and flat: "flat_ty t"
    and t: "bits_ok t" "size_ok t" "readable t" and ok: "val_ok t v" and fixed: "\<not> is_variable t"
    and at: "at_pos bs (unat off) (serialize t v)"
    and fit: "unat off + fixed_len t < 2 ^ 32" and len: "length bs < 2 ^ 32"
  shows "eval_read C bs offs (fixed_read P i off) = Done v"
proof -
  have e: "unat (off + fixed_size i) = unat off + fixed_len t"
    using unat_offset [OF fit] info_rep_fixed [OF rep fixed] by simp
  have sl: "length (serialize t v) = fixed_len t" by (rule serialize_fixed_len [OF fixed ok])
  have range: "with_slice bs offs (RNum off) (RNum (off + fixed_size i)) f = f (serialize t v)" for f :: "byte list \<Rightarrow> val gores"
    by (rule with_slice_at [OF _ _ at]) (simp_all add: e sl)
  show ?thesis
  proof (cases t)
    case TBool
    with ok obtain b where "v = VBool b" by auto
    with TBool rep read_byte_at [of bs "unat off" "if b then 1 else 0"] at show ?thesis
      by (auto simp: fixed_read_def)
  next
    case (TUint k)
    with ok obtain n where n: "v = VUint n" "n < 256 ^ k" by auto
    from TUint flat consider "k = 1" | "k = 2" | "k = 4" | "k = 8" by auto
    then show ?thesis
    proof cases
      case 1
      with TUint n at rep read_byte_at [of bs "unat off" "of_nat n"] small_byte [of n] show ?thesis
        by (simp add: fixed_read_def Let_def)
    next
      case 2
      with TUint n have "le_val (serialize t v) = n" "length (serialize t v) = 2" by (simp_all add: le_val_le_bytes)
      with 2 TUint n(1) rep range show ?thesis by (simp add: fixed_read_def Let_def to_array_def del: serialize.simps)
    next
      case 3
      with TUint n have "le_val (serialize t v) = n" "length (serialize t v) = 4" by (simp_all add: le_val_le_bytes)
      with 3 TUint n(1) rep range show ?thesis by (simp add: fixed_read_def Let_def to_array_def del: serialize.simps)
    next
      case 4
      with TUint n have "le_val (serialize t v) = n" "length (serialize t v) = 8" by (simp_all add: le_val_le_bytes)
      with 4 TUint n(1) rep range show ?thesis by (simp add: fixed_read_def Let_def to_array_def del: serialize.simps)
    qed
  next
    case (TVector u n)
    with ok t(3) obtain xs where xs: "v = VBytes xs" "length xs = n" by auto
    from TVector rep t(3) obtain e where "elem_info i = Some e" "ssz_type e = SszUint8" by (auto simp: is_byte_ty_def)
    with TVector rep xs range show ?thesis
      by (simp add: fixed_read_def Let_def array_len_def elem_is_def to_array_def unat_of_nat)
  next
    case (TBitvector n)
    with ok obtain xs where xs: "v = VBytes xs" "length xs = (n + 7) div 8" by auto
    have "unat ((bitsize i + 7) div 8) = (n + 7) div 8"
      using TBitvector rep t(1) by (simp add: unat_div unat_word_ariths)
    with TBitvector rep xs range show ?thesis
      by (simp add: fixed_read_def Let_def array_len_def to_array_def)
  next
    case (TContainer nm fs)
    have "length (serialize t v) < 2 ^ 32" using fit sl by simp
    with reads_back_call [OF C, of i nm fs v] TContainer rep t ok have
      "C (info_struct_name P '''' i) (serialize t v) = Done v" by simp
    with TContainer rep range show ?thesis by (simp add: fixed_read_def Let_def)
  qed (use fixed in auto)
qed

section \<open>Lists\<close>

lemma at_whole: "sl = xs \<Longrightarrow> at_pos sl 0 xs"
  by (simp add: holds_def slice_ok_def)

lemma read_chunks_value:
  assumes "length sl = length xs * k" and "0 < k"
    and "\<And>j. j < length xs \<Longrightarrow> read_elem C sl j (j * k) ((j + 1) * k) el = Done (xs ! j)"
  shows "read_chunks C k el sl = Done (VSeq xs)"
  using assms push_all_nth [of xs "\<lambda>j. read_elem C sl j (j * k) ((j + 1) * k) el"] by (simp add: read_chunks_def)

lemma read_offsets_value:
  assumes sl: "sl = ser_parts (map (\<lambda>x. (True, g x)) xs)" "length sl < 2 ^ 32"
    and step: "\<And>k. k < length xs \<Longrightarrow>
      read_elem C sl k (elem_start g xs k) (elem_start g xs (Suc k)) el = Done (xs ! k)"
  shows "read_offsets C el sl = Done (VSeq xs)"
proof (cases "xs = []")
  case True
  with sl(1) show ?thesis by (simp add: read_offsets_def ser_parts_def)
next
  case False
  note h = offsets_hold [OF at_whole [OF sl(1)], unfolded snd_conv, OF arg_cong [OF sl(1), of length]]
  have small: "elem_start g xs k < 2 ^ 32" if "k \<le> length xs" for k
    using h(3) [OF that] sl(2) by simp
  have off: "read_uint 32 sl (k * 4) (k * 4 + 4) = Done (elem_start g xs k)" if "k < length xs" for k
    by (rule read_uint_at [where k = 4]) (use h(1) [OF that] small [of k] that in \<open>simp_all add: mult.commute\<close>)
  have first: "read_uint 32 sl 0 4 = Done (4 * length xs)"
    using off [of 0] False by (simp add: elem_start_def)
  have ne: "sl \<noteq> []" using h(3) [of 0] False by (auto simp: elem_start_def)
  let ?f = "\<lambda>i. go_bind (read_uint 32 sl (i * 4) (i * 4 + 4)) (\<lambda>s.
      go_bind (if i + 1 < length xs then read_uint 32 sl ((i + 1) * 4) ((i + 1) * 4 + 4) else Done (length sl))
        (\<lambda>e. read_elem C sl i s e el))"
  have "push_all ?f [0..<length xs] = Done xs"
  proof (rule push_all_nth)
    fix k assume k: "k < length xs"
    have "(if k + 1 < length xs then read_uint 32 sl ((k + 1) * 4) ((k + 1) * 4 + 4) else Done (length sl)) =
        Done (elem_start g xs (Suc k))"
    proof (cases "k + 1 < length xs")
      case True
      with off [of "k + 1"] show ?thesis by (simp only: if_True) simp
    next
      case last: False
      with k have "Suc k = length xs" by simp
      with h(4) last show ?thesis by simp
    qed
    with off [OF k] step [OF k] show "?f k = Done (xs ! k)" by simp
  qed
  with ne first show ?thesis by (simp add: read_offsets_def)
qed

lemma list_read_value:
  assumes C: "reads_back st C" "named_types P st" and e: "elem_info i = Some e" "info_rep st e t"
    and fl: "flat_elem t" and bits: "bits_ok t" and size: "size_ok t" "is_variable t \<or> fixed_len t < 2 ^ 32"
    and rd: "readable t" "is_variable t \<or> 0 < fixed_len t"
    and ok: "if is_byte_ty t then \<exists>bs. v = VBytes bs
      else \<exists>xs. v = VSeq xs \<and> (\<forall>x \<in> set xs. val_ok t x)"
    and sl: "sl = (case v of VBytes bs \<Rightarrow> bs
        | VSeq xs \<Rightarrow> ser_parts (map (\<lambda>x. (is_variable t, serialize t x)) xs) | _ \<Rightarrow> [])" "length sl < 2 ^ 32"
    and rng: "\<And>f :: byte list \<Rightarrow> val gores. with_slice bs offs a b f = f sl"
  shows "eval_read C bs offs (list_read P i a b) = Done v"
  using e(2) fl
proof (cases rule: flat_elem_cases)
  case byte
  with ok sl(1) e(1) rng show ?thesis by (auto simp: list_read_def)
next
  case prim
  with ok obtain xs where v: "v = VSeq xs" "\<forall>x \<in> set xs. val_ok t x" by auto
  have fixed: "\<not> is_variable t" using prim by auto
  have ser: "sl = concat (map (serialize t) xs)" using sl(1) v fixed by simp
  have len: "length sl = length xs * fixed_len t"
    using sl(1) v length_ser_fixed [OF fixed v(2)] by simp
  note h = holds_elem [OF at_whole [OF ser] fixed v(2)]
  have k: "unat (fixed_size e) = fixed_len t" "0 < fixed_len t"
    using prim e fl by (auto split: if_splits)
  show ?thesis
  proof (cases "t = TBool")
    case True
    have "read_chunks C (unat (fixed_size e)) EBool sl = Done (VSeq xs)"
    proof (rule read_chunks_value)
      fix j assume j: "j < length xs"
      with v(2) True have "val_ok TBool (xs ! j)" by simp
      then obtain b where b: "xs ! j = VBool b" by auto
      with h(1) [OF j] True have "at_pos sl j [if b then 1 else 0]" by simp
      from read_byte_at [OF this] b show
        "read_elem C sl j (j * unat (fixed_size e)) ((j + 1) * unat (fixed_size e)) EBool = Done (xs ! j)" by simp
    qed (use len k in simp_all)
    with True e v(1) rng show ?thesis by (simp add: list_read_def)
  next
    case False
    with prim obtain n where n: "t = TUint n" by auto
    have el: "read_chunks C (unat (fixed_size e)) (EUint w) sl = Done (VSeq xs)" if "w div 8 = n" for w
    proof (rule read_chunks_value)
      fix j assume j: "j < length xs"
      with v(2) n have "val_ok (TUint n) (xs ! j)" by simp
      then obtain x where x: "xs ! j = VUint x" "x < 256 ^ n" by auto
      have "read_uint w sl (j * n) ((j + 1) * n) = Done x"
        by (rule read_uint_at [OF _ x(2) that]) (use h(1) [OF j] n x in simp_all)
      with x k n show "read_elem C sl j (j * unat (fixed_size e)) ((j + 1) * unat (fixed_size e)) (EUint w) =
          Done (xs ! j)" by simp
    qed (use len k in simp_all)
    from n fl prim consider "n = 2" | "n = 4" | "n = 8" by (auto simp: is_byte_ty_def)
    then show ?thesis by cases (use el [of 16] el [of 32] el [of 64] n e v(1) rng in \<open>simp_all add: list_read_def\<close>)
  qed
next
  case (cont nm fs)
  with ok obtain xs where v: "v = VSeq xs" "\<forall>x \<in> set xs. val_ok t x" by (auto simp: is_byte_ty_def)
  have call: "C (info_struct_name P '''' e) (serialize t x) = Done x"
    if "x \<in> set xs" "length (serialize t x) \<le> length sl" for x
    using reads_back_call [OF C e(2) [unfolded cont(1)], of x] cont bits size rd v(2) sl(2) that by simp
  show ?thesis
  proof (cases "is_variable t")
    case False
    have ser: "sl = concat (map (serialize t) xs)" using sl(1) v False by simp
    have len: "length sl = length xs * fixed_len t"
      using sl(1) v length_ser_fixed [OF False v(2)] by simp
    note h = holds_elem [OF at_whole [OF ser] False v(2)]
    have k: "unat (fixed_size e) = fixed_len t" "0 < fixed_len t"
      using unat_fixed_size [OF e(2) False] size(2) rd(2) False by simp_all
    have "read_chunks C (unat (fixed_size e)) (ECall (info_struct_name P '''' e)) sl = Done (VSeq xs)"
    proof (rule read_chunks_value)
      fix j assume j: "j < length xs"
      have "sub_slice sl (j * fixed_len t) ((j + 1) * fixed_len t) = Done (serialize t (xs ! j))"
        by (rule sub_slice_at [OF h(1) [OF j]]) (use h(2) [OF j] in simp)
      moreover have "fixed_len t \<le> length sl" using j len by (cases "length xs") auto
      ultimately show "read_elem C sl j (j * unat (fixed_size e)) ((j + 1) * unat (fixed_size e))
          (ECall (info_struct_name P '''' e)) = Done (xs ! j)"
        using call [of "xs ! j"] j h(2) [OF j] k by simp
    qed (use len k in simp_all)
    with cont(2) e v(1) rng False info_rep_dynamic [OF e(2)] show ?thesis by (simp add: list_read_def)
  next
    case True
    have ser: "sl = ser_parts (map (\<lambda>x. (True, serialize t x)) xs)" using sl(1) v True by simp
    note h = offsets_hold [OF at_whole [OF ser], unfolded snd_conv, OF arg_cong [OF ser, of length]]
    have "read_offsets C (ECall (info_struct_name P '''' e)) sl = Done (VSeq xs)"
    proof (rule read_offsets_value [OF ser sl(2)])
      fix j assume j: "j < length xs"
      have "sub_slice sl (elem_start (serialize t) xs j) (elem_start (serialize t) xs (Suc j)) =
          Done (serialize t (xs ! j))"
        by (rule sub_slice_at [OF h(2) [OF j]]) (rule elem_start_Suc [OF j])
      moreover have "length (serialize t (xs ! j)) \<le> length sl"
        using h(3) [of "Suc j"] elem_start_Suc [OF j, of "serialize t"] j by simp
      ultimately show "read_elem C sl j (elem_start (serialize t) xs j) (elem_start (serialize t) xs (Suc j))
          (ECall (info_struct_name P '''' e)) = Done (xs ! j)"
        using call [of "xs ! j"] j by simp
    qed
    with cont(2) e v(1) rng True info_rep_dynamic [OF e(2)] show ?thesis by (simp add: list_read_def)
  qed
next
  case (bytes l)
  with ok obtain xs where v: "v = VSeq xs" "\<forall>x \<in> set xs. val_ok t x" by (auto simp: is_byte_ty_def)
  have ser: "sl = ser_parts (map (\<lambda>x. (True, serialize t x)) xs)" using sl(1) v bytes by simp
  note h = offsets_hold [OF at_whole [OF ser], unfolded snd_conv, OF arg_cong [OF ser, of length]]
  have "read_offsets C EBytes sl = Done (VSeq xs)"
  proof (rule read_offsets_value [OF ser sl(2)])
    fix j assume j: "j < length xs"
    with v(2) bytes have "val_ok (TList (TUint 1) l) (xs ! j)" by (simp del: val_ok.simps)
    then obtain bs where x: "xs ! j = VBytes bs" by (auto simp: is_byte_ty_def)
    have "sub_slice sl (elem_start (serialize t) xs j) (elem_start (serialize t) xs (Suc j)) =
        Done (serialize t (xs ! j))"
      by (rule sub_slice_at [OF h(2) [OF j]]) (rule elem_start_Suc [OF j])
    with x bytes show "read_elem C sl j (elem_start (serialize t) xs j) (elem_start (serialize t) xs (Suc j)) EBytes =
        Done (xs ! j)" by simp
  qed
  with bytes e v(1) rng show ?thesis by (simp add: list_read_def)
qed

section \<open>Fields of variable size\<close>

lemma dyn_read_value:
  assumes C: "reads_back st C" "named_types P st" and rep: "info_rep st i t" and flat: "flat_ty t"
    and var: "is_variable t" and t: "bits_ok t" "size_ok t" "readable t" and ok: "val_ok t v"
    and len: "length (serialize t v) < 2 ^ 32"
    and pos: "eval_pos bs offs a = Done x" "eval_pos bs offs b = Done (x + length (serialize t v))"
    and at: "at_pos bs x (serialize t v)"
  shows "eval_read C bs offs (dyn_read P i a b) = Done v"
proof -
  have rng: "with_slice bs offs a b f = f (serialize t v)" for f :: "byte list \<Rightarrow> val gores"
    by (rule with_slice_at [OF pos at])
  show ?thesis
  proof (cases t)
    case (TList t' l)
    with rep obtain e where e: "elem_info i = Some e" "info_rep st e t'" by auto
    have "eval_read C bs offs (list_read P i a b) = Done v"
      by (rule list_read_value [OF C e _ _ _ _ _ _ _ _ len rng])
        (use TList rep flat t ok in \<open>auto simp: is_byte_ty_def split: if_splits\<close>)
    with TList rep show ?thesis by (simp add: dyn_read_def)
  next
    case (TProgressiveList t')
    with rep obtain e where e: "elem_info i = Some e" "info_rep st e t'" by auto
    have "eval_read C bs offs (list_read P i a b) = Done v"
      by (rule list_read_value [OF C e _ _ _ _ _ _ _ _ len rng])
        (use TProgressiveList rep flat t ok in \<open>auto simp: is_byte_ty_def split: if_splits\<close>)
    with TProgressiveList rep show ?thesis by (simp add: dyn_read_def)
  next
    case (TBitlist l)
    with ok rep rng show ?thesis by (auto simp: dyn_read_def)
  next
    case (TContainer nm fs)
    with reads_back_call [OF C, of i nm fs v] rep t ok len have
      "C (info_struct_name P '''' i) (serialize t v) = Done v" by simp
    with TContainer rep rng show ?thesis by (simp add: dyn_read_def)
  next
    case (TVector t' n)
    with rep var show ?thesis by auto
  qed (use var ok in auto)
qed

section \<open>The fields of a container\<close>

definition rust_row_name :: "Parser \<Rightarrow> row \<Rightarrow> string" where
  "rust_row_name P r = rust_member P (fst r)"

definition rust_row_ok :: "struct_types \<Rightarrow> row \<Rightarrow> bool" where
  "rust_row_ok st r \<longleftrightarrow>
     info_rep st (fst (snd r)) (row_ty r) \<and> flat_ty (row_ty r) \<and> bits_ok (row_ty r) \<and>
     size_ok (row_ty r) \<and> readable (row_ty r) \<and> val_ok (row_ty r) (row_val r)"

lemma rust_row_facts:
  assumes "rust_row_ok st r"
  shows "is_dynamic (fst (snd r)) = is_variable (row_ty r)"
    and "\<not> is_variable (row_ty r) \<Longrightarrow> fixed_size (fst (snd r)) = of_nat (fixed_len (row_ty r))"
    and "\<not> is_variable (row_ty r) \<Longrightarrow> length (serialize (row_ty r) (row_val r)) = fixed_len (row_ty r)"
  using assms info_rep_dynamic info_rep_fixed serialize_fixed_len by (auto simp: rust_row_ok_def)

abbreviation rfrm :: "(nat \<rightharpoonup> nat) \<Rightarrow> (string \<rightharpoonup> val) \<Rightarrow> rframe" where
  "rfrm offs m \<equiv> \<lparr>rf_offs = offs, rf_mem = m\<rparr>"

lemma fixed_set_exec:
  assumes C: "reads_back st C" "named_types P st" and r: "rust_row_ok st r" "\<not> is_variable (row_ty r)"
    and at: "at_pos bs (unat off) (serialize (row_ty r) (row_val r))"
    and fit: "unat off + fixed_len (row_ty r) < 2 ^ 32" and len: "length bs < 2 ^ 32"
  shows "rexec C bs (RSet f (fixed_read P (fst (snd r)) off)) (rfrm offs m) = Done (rfrm offs (m(f \<mapsto> row_val r)))"
  using fixed_read_value [OF C _ _ _ _ _ _ r(2) at fit len, of "fst (snd r)" offs] r(1)
  by (simp add: rust_row_ok_def)

lemma literal_exec:
  assumes C: "reads_back st C" "named_types P st"
    and "\<forall>r \<in> set rs. rust_row_ok st r \<and> \<not> is_variable (row_ty r)"
    and "unat off + heads_len (map row_part rs) < 2 ^ 32" and len: "length bs < 2 ^ 32"
    and "at_pos bs (unat off) (heads pos (map row_part rs))"
  shows "rexecs C bs (map (\<lambda>(f, e). RSet f e) (literal_fields P off (map row_info rs))) (rfrm offs m) =
    Done (rfrm offs (store_rows (rust_row_name P) rs m))"
  using assms(3,4,6)
proof (induction rs arbitrary: off m)
  case (Cons r rs)
  from Cons.prems have r: "rust_row_ok st r" "\<not> is_variable (row_ty r)" by simp_all
  note f = rust_row_facts(2,3) [OF r(1) r(2)]
  have fit: "unat off + fixed_len (row_ty r) < 2 ^ 32" using Cons.prems(2) r(2) f(2) by simp
  have off: "unat (off + fixed_size (fst (snd r))) = unat off + fixed_len (row_ty r)"
    using unat_offset [OF fit] f(1) by simp
  have h: "at_pos bs (unat off) (serialize (row_ty r) (row_val r))"
    "at_pos bs (unat off + fixed_len (row_ty r)) (heads pos (map row_part rs))"
    using Cons.prems(3) r(2) f(2) by (simp_all add: holds_append)
  have "rexecs C bs (map (\<lambda>(f, e). RSet f e) (literal_fields P (off + fixed_size (fst (snd r))) (map row_info rs)))
      (rfrm offs (m(rust_member P (fst r) \<mapsto> row_val r))) =
    Done (rfrm offs (store_rows (rust_row_name P) rs (m(rust_member P (fst r) \<mapsto> row_val r))))"
    by (rule Cons.IH) (use Cons.prems h off f(2) r(2) in auto)
  with fixed_set_exec [OF C r h(1) fit len, of "rust_member P (fst r)" offs m] show ?case
    by (simp add: rust_row_name_def [symmetric] del: rexec.simps)
qed simp

text \<open>The offset variables after the fixed part.\<close>

fun set_offs :: "nat \<Rightarrow> nat list \<Rightarrow> (nat \<rightharpoonup> nat) \<Rightarrow> (nat \<rightharpoonup> nat)" where
  "set_offs k [] offs = offs"
| "set_offs k (x # xs) offs = set_offs (Suc k) xs (offs(k \<mapsto> x))"

lemma set_offs_below: "j < k \<Longrightarrow> set_offs k xs offs j = offs j"
  by (induction k xs offs rule: set_offs.induct) auto

lemma set_offs_at: "j < length xs \<Longrightarrow> set_offs k xs offs (k + j) = Some (xs ! j)"
proof (induction k xs offs arbitrary: j rule: set_offs.induct)
  case (2 k x xs offs)
  have "set_offs (Suc k) xs (offs(k \<mapsto> x)) k = Some x" by (subst set_offs_below) auto
  then show ?case
  proof (cases j)
    case (Suc i)
    with "2.IH" [of i] "2.prems" show ?thesis by (simp add: fun_upd_def)
  qed (use 2 in simp)
qed simp

lemma rust_offset_exec:
  assumes at: "at_pos bs (unat off) (le_bytes 4 pos)" and pos: "pos < 2 ^ 32" "pos \<le> length bs"
    and fit: "unat off + 4 < 2 ^ 32"
    and first: "k = 0 \<longrightarrow> pos = unat static" and rest: "k \<noteq> 0 \<longrightarrow> (\<exists>q. offs (k - 1) = Some q \<and> q \<le> pos)"
  shows "rexecs C bs [RRead k off, if k = 0 then RFirst static else ROrder k] (rfrm offs m) =
    Done (rfrm (offs(k \<mapsto> pos)) m)"
proof -
  have "unat (off + 4) = unat off + 4" using unat_offset [of off 4] fit by simp
  with read_uint_at [OF at, of 32 "unat (off + 4)"] pos(1) have
    "read_uint 32 bs (unat off) (unat (off + 4)) = Done pos" by simp
  with first rest pos(2) show ?thesis by (cases k) auto
qed

lemma static_reads_exec:
  assumes C: "reads_back st C" "named_types P st" and "\<forall>r \<in> set rs. rust_row_ok st r"
    and "unat off + heads_len (map row_part rs) < 2 ^ 32"
    and "at_pos bs (unat off) (heads pos (map row_part rs))"
    and "pos + length (tails (map row_part rs)) \<le> length bs" and len: "length bs < 2 ^ 32"
    and "k = 0 \<longrightarrow> pos = unat static" and "k \<noteq> 0 \<longrightarrow> (\<exists>q. offs (k - 1) = Some q \<and> q \<le> pos)"
  shows "rexecs C bs (static_reads P static off k (map row_info rs)) (rfrm offs m) =
    Done (rfrm (set_offs k (row_offsets pos rs) offs)
      (store_rows (rust_row_name P) (filter (\<lambda>r. \<not> is_variable (row_ty r)) rs) m))"
  using assms(3-6,8,9)
proof (induction rs arbitrary: off m k pos offs)
  case (Cons r rs)
  from Cons.prems have r: "rust_row_ok st r" by simp
  note dyn = rust_row_facts(1) [OF r]
  let ?b = "serialize (row_ty r) (row_val r)"
  show ?case
  proof (cases "is_variable (row_ty r)")
    case True
    have h: "at_pos bs (unat off) (le_bytes 4 pos)" "at_pos bs (unat off + 4) (heads (pos + length ?b) (map row_part rs))"
      using Cons.prems(3) True by (simp_all add: holds_append)
    have fit: "unat off + 4 < 2 ^ 32" using Cons.prems(2) True by simp
    have off: "unat (off + 4) = unat off + 4" using unat_offset [of off 4] fit by simp
    have "rexecs C bs [RRead k off, if k = 0 then RFirst static else ROrder k] (rfrm offs m) =
        Done (rfrm (offs(k \<mapsto> pos)) m)"
      by (rule rust_offset_exec [where offs = offs and k = k, OF h(1) _ _ fit Cons.prems(5,6)]) (use Cons.prems(4) len True in simp_all)
    moreover have "rexecs C bs (static_reads P static (off + 4) (Suc k) (map row_info rs)) (rfrm (offs(k \<mapsto> pos)) m) =
        Done (rfrm (set_offs (Suc k) (row_offsets (pos + length ?b) rs) (offs(k \<mapsto> pos)))
          (store_rows (rust_row_name P) (filter (\<lambda>r. \<not> is_variable (row_ty r)) rs) m))"
      by (rule Cons.IH) (use Cons.prems True h off in \<open>auto simp: add.assoc\<close>)
    ultimately show ?thesis using True dyn
      by (simp only: list.map static_reads.simps rexecs_append filter.simps row_offsets.simps set_offs.simps
          simp_thms if_True if_False) simp
  next
    case False
    note f = rust_row_facts(2,3) [OF r False]
    have h: "at_pos bs (unat off) ?b" "at_pos bs (unat off + fixed_len (row_ty r)) (heads pos (map row_part rs))"
      using Cons.prems(3) False f(2) by (simp_all add: holds_append)
    have fit: "unat off + fixed_len (row_ty r) < 2 ^ 32" using Cons.prems(2) False f(2) by simp
    have off: "unat (off + fixed_size (fst (snd r))) = unat off + fixed_len (row_ty r)"
      using unat_offset [OF fit] f(1) by simp
    have "rexecs C bs (static_reads P static (off + fixed_size (fst (snd r))) k (map row_info rs))
        (rfrm offs (m(rust_member P (fst r) \<mapsto> row_val r))) =
      Done (rfrm (set_offs k (row_offsets pos rs) offs)
        (store_rows (rust_row_name P) (filter (\<lambda>r. \<not> is_variable (row_ty r)) rs)
          (m(rust_member P (fst r) \<mapsto> row_val r))))"
      by (rule Cons.IH) (use Cons.prems False h off f(2) in auto)
    with fixed_set_exec [OF C r False h(1) fit len, of "rust_member P (fst r)" offs m] False dyn show ?thesis
      by (simp add: rust_row_name_def [symmetric] del: rexec.simps)
  qed
qed simp

lemma dynamic_reads_exec:
  assumes C: "reads_back st C" "named_types P st"
    and "\<forall>r \<in> set rs. rust_row_ok st r \<and> is_variable (row_ty r)"
    and "at_pos bs pos (tails (map row_part rs))" and "pos + length (tails (map row_part rs)) = length bs"
    and len: "length bs < 2 ^ 32" and "\<forall>j < length rs. offs (k + j) = Some (row_offsets pos rs ! j)"
  shows "rexecs C bs (dynamic_reads P k (map row_info rs)) (rfrm offs m) =
    Done (rfrm offs (store_rows (rust_row_name P) rs m))"
  using assms(3-5,7)
proof (induction rs arbitrary: m k pos)
  case (Cons r rs)
  let ?b = "serialize (row_ty r) (row_val r)" and ?f = "rust_member P (fst r)"
  let ?fin = "if rs = [] then RLen else ROff (Suc k)"
  from Cons.prems have r: "rust_row_ok st r" "is_variable (row_ty r)" by simp_all
  have h: "at_pos bs pos ?b" "at_pos bs (pos + length ?b) (tails (map row_part rs))"
    using Cons.prems(2) r(2) by (simp_all add: holds_append)
  have small: "length ?b < 2 ^ 32" using Cons.prems(3) len r(2) by simp
  have lo: "eval_pos bs offs (ROff k) = Done pos" using Cons.prems(4) r(2) by force
  have hi: "eval_pos bs offs ?fin = Done (pos + length ?b)"
  proof (cases rs)
    case Nil
    with Cons.prems(3) r(2) show ?thesis by simp
  next
    case (Cons r' rs')
    then have "Suc 0 < length (r # rs)" by simp
    with Cons.prems(4) have "offs (k + Suc 0) = Some (row_offsets pos (r # rs) ! Suc 0)" by blast
    with Cons Cons.prems(1) r(2) show ?thesis by simp
  qed
  have "eval_read C bs offs (dyn_read P (fst (snd r)) (ROff k) ?fin) = Done (row_val r)"
    by (rule dyn_read_value [OF C _ _ r(2) _ _ _ _ small lo hi h(1)]) (use r(1) in \<open>auto simp: rust_row_ok_def\<close>)
  then have step: "rexec C bs (RSet ?f (dyn_read P (fst (snd r)) (ROff k) ?fin)) (rfrm offs m) =
      Done (rfrm offs (m(?f \<mapsto> row_val r)))" by simp
  have "rexecs C bs (dynamic_reads P (Suc k) (map row_info rs)) (rfrm offs (m(?f \<mapsto> row_val r))) =
      Done (rfrm offs (store_rows (rust_row_name P) rs (m(?f \<mapsto> row_val r))))"
  proof (rule Cons.IH [OF _ h(2)])
    show "\<forall>j < length rs. offs (Suc k + j) = Some (row_offsets (pos + length ?b) rs ! j)"
      using Cons.prems(4) r(2) by force
  qed (use Cons.prems r(2) in \<open>auto simp: add.assoc\<close>)
  with step show ?case
    by (cases "rs = []") (simp_all add: rust_row_name_def [symmetric] fun_upd_def del: rexec.simps)
qed simp

section \<open>The program\<close>

definition rust_rdecl :: "Parser \<Rightarrow> SszContainerInfo \<Rightarrow> rdecl" where
  "rust_rdecl P c =
     \<lparr>rd_fields = map (\<lambda>(p, i). (rust_member P p, \<lambda>Z. rust_default_value P Z i)) (infos_of c (all_fields c)),
      rd_body = from_body P c\<rparr>"

definition rust_rprogram :: "nat \<Rightarrow> Parser \<Rightarrow> rprogram" where
  "rust_rprogram depth P nm = map_option (rust_rdecl P) (container_named rust_AnalyzeContainer depth P nm)"

lemma rust_dynamic_of:
  "\<forall>r \<in> set rs. rust_row_ok st r \<Longrightarrow>
   dynamic_of (map row_info rs) = map row_info (filter (\<lambda>r. is_variable (row_ty r)) rs)"
  using rust_row_facts(1) by (induction rs) (auto simp: dynamic_of_def)

lemma build_rows:
  assumes "infos_of c (all_fields c) = map row_info rs" and "\<forall>r \<in> set rs. m (rust_row_name P r) = Some (row_val r)"
  shows "build (rust_rdecl P c) s m = Done (VStruct s (map row_val rs))"
proof -
  have "push_all (\<lambda>(f, v). or_panic (m f))
      (map (\<lambda>r. (rust_row_name P r, \<lambda>Z. rust_default_value P Z (fst (snd r)))) rs) = Done (map row_val rs)"
    using assms(2) by (induction rs) auto
  with assms(1) show ?thesis by (simp add: build_def rust_rdecl_def rust_row_name_def comp_def)
qed

lemma run_body_exec:
  assumes C: "reads_back st C" "named_types P st" and ok: "\<forall>r \<in> set rs. rust_row_ok st r"
    and dist: "distinct (map (rust_row_name P) rs)" and infos: "infos_of c (all_fields c) = map row_info rs"
    and dyn: "dynamic_fields c = [] \<longleftrightarrow> (\<forall>r \<in> set rs. \<not> is_variable (row_ty r))"
    and static: "unat (static_size c) = heads_len (map row_part rs)"
    and bs: "bs = ser_parts (map row_part rs)" "length bs < 2 ^ 32"
  shows "run_body C Z (rust_rdecl P c) s bs = Done (VStruct s (map row_val rs))"
proof -
  let ?parts = "map row_part rs" and ?nm = "rust_row_name P"
  from at_whole [OF bs(1)] have h: "at_pos bs 0 (heads (heads_len ?parts) ?parts)"
    "at_pos bs (heads_len ?parts) (tails ?parts)"
    by (simp_all add: ser_parts_def holds_append)
  have len: "length bs = heads_len ?parts + length (tails ?parts)" using bs(1) by (simp add: ser_parts_def)
  have check: "\<not> length bs < unat (static_size c)" using static len by simp
  have fit: "unat (0::u32) + heads_len ?parts < 2 ^ 32" using len bs(2) by simp
  show ?thesis
  proof (cases "\<forall>r \<in> set rs. \<not> is_variable (row_ty r)")
    case True
    have "rexecs C bs (map (\<lambda>(f, e). RSet f e) (literal_fields P 0 (map row_info rs))) (rfrm Map.empty Map.empty) =
        Done (rfrm Map.empty (store_rows ?nm rs Map.empty))"
      by (rule literal_exec [OF C _ fit bs(2), where pos = "heads_len ?parts"]) (use ok True h in auto)
    moreover have "build (rust_rdecl P c) s (store_rows ?nm rs Map.empty) = Done (VStruct s (map row_val rs))"
      by (rule build_rows [OF infos]) (use store_rows_at [OF dist] in blast)
    ultimately show ?thesis using True check infos dyn
      by (simp add: rust_rdecl_def from_body_def Let_def)
  next
    case False
    let ?fixed = "filter (\<lambda>r. \<not> is_variable (row_ty r)) rs" and ?var = "filter (\<lambda>r. is_variable (row_ty r)) rs"
    let ?offs = "set_offs 0 (row_offsets (heads_len ?parts) rs) Map.empty"
    define m0 where "m0 = map_of (map (\<lambda>(f, v). (f, v Z)) (rd_fields (rust_rdecl P c)))"
    have one: "rexecs C bs (static_reads P (static_size c) 0 0 (map row_info rs)) (rfrm Map.empty m0) =
        Done (rfrm ?offs (store_rows ?nm ?fixed m0))"
      by (rule static_reads_exec [OF C ok fit _ _ bs(2)]) (use h len static in auto)
    have two: "rexecs C bs (dynamic_reads P 0 (map row_info ?var)) (rfrm ?offs (store_rows ?nm ?fixed m0)) =
        Done (rfrm ?offs (store_rows ?nm ?var (store_rows ?nm ?fixed m0)))"
    proof (rule dynamic_reads_exec [OF C _ _ _ bs(2), where pos = "heads_len ?parts"])
      show "\<forall>j < length ?var. ?offs (0 + j) = Some (row_offsets (heads_len ?parts) ?var ! j)"
        using set_offs_at [of _ "row_offsets (heads_len ?parts) rs" 0 Map.empty] by (simp add: map_row_offsets)
    qed (use ok h len in \<open>auto simp: tails_filter\<close>)
    have three: "build (rust_rdecl P c) s (store_rows ?nm ?var (store_rows ?nm ?fixed m0)) =
        Done (VStruct s (map row_val rs))"
      by (rule build_rows [OF infos]) (use store_rows_split [OF dist] in blast)
    have "rd_body (rust_rdecl P c) = RAssigns (RGuard (static_size c) #
        static_reads P (static_size c) 0 0 (map row_info rs) @ dynamic_reads P 0 (map row_info ?var))"
      using False dyn infos rust_dynamic_of [OF ok] by (simp add: rust_rdecl_def from_body_def Let_def)
    with one two three check show ?thesis by (simp add: m0_def)
  qed
qed

text \<open>The rows of a container.\<close>

lemma rust_rows:
  assumes "list_all2 (field_rep P st c) ps fs" and "\<forall>f \<in> set fs. flat_ty (snd f)"
    and "fields_bits_ok fs" and "fields_size_ok fs" and "fields_readable fs" and "vals_ok fs vs"
  shows "\<exists>rs. map fst rs = ps \<and> infos_of c ps = map row_info rs \<and>
    serialize_fields fs vs = map row_part rs \<and> map row_val rs = vs \<and> map row_ty rs = map snd fs \<and>
    (\<forall>r \<in> set rs. rust_row_ok st r)"
  using assms
proof (induction ps arbitrary: fs vs)
  case (Cons p ps)
  from Cons.prems(1) obtain n t fs' where fs: "fs = (n, t) # fs'"
    and rep: "field_rep P st c p (n, t)" "list_all2 (field_rep P st c) ps fs'"
    by (cases fs) auto
  from rep(1) obtain i where i: "field_infos c p = Some i" "info_rep st i t" by (auto simp: field_rep_def)
  from Cons.prems(6) fs obtain v vs' where v: "vs = v # vs'" "val_ok t v" "vals_ok fs' vs'" by auto
  have "\<exists>rs. map fst rs = ps \<and> infos_of c ps = map row_info rs \<and>
    serialize_fields fs' vs' = map row_part rs \<and> map row_val rs = vs' \<and> map row_ty rs = map snd fs' \<and>
    (\<forall>r \<in> set rs. rust_row_ok st r)"
    by (rule Cons.IH [OF rep(2)]) (use Cons.prems fs v in auto)
  then obtain rs where rs: "map fst rs = ps" "infos_of c ps = map row_info rs"
    "serialize_fields fs' vs' = map row_part rs" "map row_val rs = vs'" "map row_ty rs = map snd fs'"
    "\<forall>r \<in> set rs. rust_row_ok st r" by blast
  have "rust_row_ok st (p, i, t, v)" using Cons.prems fs i v by (simp add: rust_row_ok_def)
  with rs fs i v show ?case by (intro exI [of _ "(p, i, t, v) # rs"]) simp
qed simp

text \<open>The method of a struct whose type is defined.\<close>

lemma rust_rprogram_decl:
  assumes wf: "wf_schema P" and small: "small_ids P" and names: "names_ok (rust_dialect P) P"
    and n: "Suc k \<le> depth" and ty: "struct_ty (Suc k) P s = Some (TContainer nm fs)" and bits: "fields_bits_ok fs"
  obtains c where "rust_rprogram depth P nm = Some (rust_rdecl P c)" "container_rep P (struct_ty k P) c fs"
    "\<forall>f \<in> set fs. flat_ty (snd f)" "distinct (map (rust_member P) (all_fields c))"
proof -
  have dist: "distinct (map sd_name (struct_store P))" using names by (simp add: names_ok_def)
  have s: "s < length (struct_store P)" using ty by (rule struct_ty_in_range)
  from go_struct_decl [OF wf small dist n s ty bits] obtain c where
    c: "container_named go_AnalyzeContainer depth P nm = Some c"
    and rep: "container_rep P (struct_ty k P) c fs" "all_fields c = live_fields P s"
    and fs: "fields_ty P (struct_ty k P) (sd_fields (struct_at P s)) = Some fs" by blast
  have "rust_rprogram depth P nm = Some (rust_rdecl P c)"
    using c by (simp add: rust_rprogram_def go_copy.container_named_eq [OF rust.go_copy_axioms])
  moreover have "distinct (map (rust_member P) (all_fields c))"
    using names s rep(2) by (simp add: names_ok_def list_all_iff)
  moreover have "\<forall>f \<in> set fs. flat_ty (snd f)" using fields_flat [OF containers_struct_ty fs] by blast
  ultimately show thesis using that rep(1) by blast
qed

lemma from_program:
  assumes wf: "wf_schema P" and small: "small_ids P" and names: "names_ok (rust_dialect P) P"
  shows "n \<le> depth \<Longrightarrow> struct_ty n P s = Some (TContainer nm fs) \<Longrightarrow> fields_bits_ok fs \<Longrightarrow>
    size_ok (TContainer nm fs) \<Longrightarrow> fields_readable fs \<Longrightarrow> vals_ok fs vs \<Longrightarrow>
    length (serialize (TContainer nm fs) (VStruct nm vs)) < 2 ^ 32 \<Longrightarrow>
    from_ssz_bytes (rust_rprogram depth P) n nm (serialize (TContainer nm fs) (VStruct nm vs)) = Done (VStruct nm vs)"
proof (induction n arbitrary: s nm fs vs)
  case (Suc k)
  from rust_rprogram_decl [OF wf small names Suc.prems(1-3)] obtain c where
    prog: "rust_rprogram depth P nm = Some (rust_rdecl P c)"
    and rep: "container_rep P (struct_ty k P) c fs" and flat: "\<forall>f \<in> set fs. flat_ty (snd f)"
    and mem: "distinct (map (rust_member P) (all_fields c))" .
  have named: "named_types P (struct_ty k P)"
    unfolding named_types_def using struct_ty_name by blast
  have C: "reads_back (struct_ty k P) (from_ssz_bytes (rust_rprogram depth P) k)"
    unfolding reads_back_def using Suc.IH Suc.prems(1) by (simp del: serialize.simps)
  have l2: "list_all2 (field_rep P (struct_ty k P) c) (all_fields c) fs"
    using rep by (simp add: container_rep_def)
  have sz: "fields_size_ok fs" using Suc.prems(4) by simp
  from rust_rows [OF l2 flat Suc.prems(3) sz Suc.prems(5,6)]
  obtain rs where rs: "map fst rs = all_fields c" "infos_of c (all_fields c) = map row_info rs"
    "serialize_fields fs vs = map row_part rs" "map row_val rs = vs" "map row_ty rs = map snd fs"
    "\<forall>r \<in> set rs. rust_row_ok (struct_ty k P) r" by blast
  have "map (rust_row_name P) rs = map (rust_member P) (map fst rs)" by (simp add: rust_row_name_def)
  with mem rs(1) have names': "distinct (map (rust_row_name P) rs)" by (simp only:)
  have heads: "heads_len (map row_part rs) = static_len fs"
    using heads_len_fields [OF Suc.prems(6)] serialize_fixed_len rs(3) by metis
  have static: "unat (static_size c) = heads_len (map row_part rs)"
    using rep Suc.prems(4) heads by (simp add: container_rep_def unat_of_nat)
  have dyn: "dynamic_fields c = [] \<longleftrightarrow> (\<forall>r \<in> set rs. \<not> is_variable (row_ty r))"
    unfolding dynamic_fields_empty [OF rep] by (rule rows_variable [OF rs(5), THEN arg_cong [of _ _ Not], simplified])
  have ser: "serialize (TContainer nm fs) (VStruct nm vs) = ser_parts (map row_part rs)" using rs(3) by simp
  from run_body_exec [OF C named rs(6) names' rs(2) dyn static ser Suc.prems(7)] prog rs(4)
  show ?case by simp
qed simp

end
