(* ===== verification/Go_Decode_Safe.thy ===== *)
theory Go_Decode_Safe
  imports Go_Decode
begin

text \<open>
  The emitted \<open>UnmarshalSSZ\<close> on bytes that nobody has checked: for the types without lists of
  variable-size elements and without vectors of containers it returns or reports an error,
  whatever the buffer holds; no index, slice or allocation panics.
\<close>

section \<open>Outcomes without a panic\<close>

fun ok_res :: "('a \<Rightarrow> bool) \<Rightarrow> 'a gores \<Rightarrow> bool" where
  "ok_res Q (Done x) = Q x"
| "ok_res Q (Fails e) = True"
| "ok_res Q Panics = False"

lemma ok_bind: "ok_res R m \<Longrightarrow> (\<And>x. R x \<Longrightarrow> ok_res Q (f x)) \<Longrightarrow> ok_res Q (go_bind m f)"
  by (cases m) auto

lemma ok_map: "ok_res (\<lambda>x. Q (f x)) m \<Longrightarrow> ok_res Q (go_map f m)"
  by (cases m) auto

lemma ok_mono: "ok_res R m \<Longrightarrow> (\<And>x. R x \<Longrightarrow> Q x) \<Longrightarrow> ok_res Q m"
  by (cases m) auto

lemma ok_fold:
  assumes "I s" and "\<And>x s. x \<in> set xs \<Longrightarrow> I s \<Longrightarrow> ok_res I (f x s)"
  shows "ok_res I (go_fold f xs s)"
  using assms by (induction xs arbitrary: s) (auto intro: ok_bind)

lemma ok_seq:
  "ok_res R (dexec C s fr) \<Longrightarrow> (\<And>fr'. R fr' \<Longrightarrow> ok_res Q (dexecs C ss fr')) \<Longrightarrow>
   ok_res Q (dexecs C (s # ss) fr)"
  by (auto intro: ok_bind)

lemma ok_append:
  "ok_res R (dexecs C xs fr) \<Longrightarrow> (\<And>fr'. R fr' \<Longrightarrow> ok_res Q (dexecs C ys fr')) \<Longrightarrow>
   ok_res Q (dexecs C (xs @ ys) fr)"
  by (auto intro: ok_bind)

section \<open>Shapes\<close>

text \<open>What the Go types of a struct guarantee of a value.\<close>

fun shaped :: "ssz_ty \<Rightarrow> val \<Rightarrow> bool"
  and all_shaped :: "(string \<times> ssz_ty) list \<Rightarrow> val list \<Rightarrow> bool" where
  "shaped (TVector t n) v =
     (if is_byte_ty t then \<exists>bs. v = VBytes bs \<and> length bs = n
      else \<exists>xs. v = VSeq xs \<and> length xs = n)"
| "shaped (TBitvector n) v = (\<exists>bs. v = VBytes bs \<and> length bs = (n + 7) div 8)"
| "shaped (TContainer s fs) v = (\<exists>vs. v = VStruct s vs \<and> all_shaped fs vs)"
| "shaped t v = True"
| "all_shaped [] vs = (vs = [])"
| "all_shaped ((n, t) # fs) vs = (\<exists>w ws. vs = w # ws \<and> shaped t w \<and> all_shaped fs ws)"

lemma fresh_shaped: "(fresh t v \<longrightarrow> shaped t v)" "(all_fresh fs vs \<longrightarrow> all_shaped fs vs)"
  by (induction t v and fs vs rule: fresh_all_fresh.induct) auto

fun panic_free :: "ssz_ty \<Rightarrow> bool"
  and fields_panic_free :: "(string \<times> ssz_ty) list \<Rightarrow> bool" where
  "panic_free (TVector t n) = (case t of TContainer s fs \<Rightarrow> False | _ \<Rightarrow> True)"
| "panic_free (TList t l) = (panic_free t \<and> \<not> is_variable t \<and> 0 < fixed_len t)"
| "panic_free (TProgressiveList t) = (panic_free t \<and> \<not> is_variable t \<and> 0 < fixed_len t)"
| "panic_free (TContainer s fs) = fields_panic_free fs"
| "panic_free t = True"
| "fields_panic_free [] = True"
| "fields_panic_free ((n, t) # fs) = (panic_free t \<and> fields_panic_free fs)"

definition call_safe :: "dcalls \<Rightarrow> string \<Rightarrow> (string \<times> ssz_ty) list \<Rightarrow> bool" where
  "call_safe C nm fs \<longleftrightarrow>
     (\<forall>v buf. shaped (TContainer nm fs) v \<longrightarrow> slice_ok buf \<longrightarrow>
        ok_res (shaped (TContainer nm fs)) (call_unmarshal C nm v buf)) \<and>
     shaped (TContainer nm fs) (zero_struct C nm)"

definition calls_safe :: "Parser \<Rightarrow> struct_types \<Rightarrow> dcalls \<Rightarrow> bool" where
  "calls_safe P st C \<longleftrightarrow>
     (\<forall>q nm fs. st q = Some (TContainer nm fs) \<longrightarrow>
        nm = sd_name (struct_at P q) \<and>
        (fields_bits_ok fs \<longrightarrow> size_ok (TContainer nm fs) \<longrightarrow> fields_panic_free fs \<longrightarrow> call_safe C nm fs))"

lemma calls_safe_info:
  assumes "calls_safe P st C" and "info_rep st i (TContainer nm fs)" and "fields_bits_ok fs"
    and "size_ok (TContainer nm fs)" and "fields_panic_free fs"
  shows "info_struct_name P dflt i = nm" and "call_safe C nm fs"
proof -
  from assms(2) obtain q where q: "info_struct i = Some q" "st q = Some (TContainer nm fs)" by auto
  with assms(1) have "nm = sd_name (struct_at P q)" unfolding calls_safe_def by blast
  with q show "info_struct_name P dflt i = nm" by (simp add: info_struct_name_def)
  from assms(1,3-5) q(2) show "call_safe C nm fs" unfolding calls_safe_def by blast
qed

section \<open>Statements on any buffer\<close>

lemma range_in:
  "slice_ok s \<Longrightarrow> lo \<le> hi \<Longrightarrow> hi \<le> snd s \<Longrightarrow>
   slice_range s lo hi = Some (drop lo (fst s), hi - lo) \<and> slice_ok (drop lo (fst s), hi - lo)"
  by (auto simp: slice_range_def slice_ok_def)

text \<open>The outcome of a statement that stores into a member: the member changes and nothing else.\<close>

definition stores :: "(val \<Rightarrow> bool) \<Rightarrow> string \<Rightarrow> (string \<rightharpoonup> val) \<Rightarrow> (string \<times> nat) list \<Rightarrow> slice \<Rightarrow> dframe \<Rightarrow> bool" where
  "stores Q f m env buf fr \<longleftrightarrow> (\<exists>v. fr = frm (m(f \<mapsto> v)) env buf \<and> Q v)"

lemma bool_safe:
  assumes "eval_int (frm m env buf) e = Some pos" and "pos < snd buf"
    and "\<And>b. \<exists>fr'. set_lval (frm m env buf) v (VBool b) = Some fr' \<and> Q fr'"
  shows "ok_res Q (dexecs C (bool_stmts v e) (frm m env buf))"
proof -
  obtain fr' where "set_lval (frm m env buf) v (VBool (unat (fst buf ! pos) = 1)) = Some fr'" "Q fr'"
    using assms(3) by blast
  with assms(1,2) show ?thesis by (simp add: bool_stmts_def)
qed

lemma uint_safe:
  assumes "slice_ok buf" and "eval_int (frm m env buf) a = Some pos"
    and "eval_int (frm m env buf) b = Some (pos + w div 8)" and "pos + w div 8 \<le> snd buf"
    and "\<And>n. \<exists>fr'. set_lval (frm m env buf) v (VUint n) = Some fr' \<and> Q fr'"
  shows "ok_res Q (dexec C (DSetUint v w a b) (frm m env buf))"
proof -
  let ?s = "(drop pos (fst buf), w div 8)"
  have "slice_range buf pos (pos + w div 8) = Some ?s" using range_in [OF assms(1) _ assms(4)] by simp
  moreover obtain fr' where "set_lval (frm m env buf) v (VUint (le_val (take (w div 8) (fst ?s)))) = Some fr'" "Q fr'"
    using assms(5) by blast
  ultimately show ?thesis using assms(2,3) by (simp add: eval_range_def slice_uint_def)
qed

lemma elem_safe:
  assumes "info_rep st e t" and "flat_elem t" and "\<not> is_byte_ty t" and "t = TBool \<or> (\<exists>k. t = TUint k)"
    and "slice_ok buf" and "map_of env ''off'' = Some pos" and "pos + fixed_len t \<le> snd buf"
    and "\<And>x. \<exists>fr'. set_lval (frm m env buf) v x = Some fr' \<and> Q fr'"
  shows "ok_res Q (dexecs C (elem_stmts (ssz_type e) v) (frm m env buf))"
proof (cases t)
  case TBool
  have "ok_res Q (dexecs C (bool_stmts v (IVar ''off'')) (frm m env buf))"
    by (rule bool_safe) (use assms TBool in auto)
  with TBool assms(1) show ?thesis by (simp add: elem_stmts_def)
next
  case (TUint k)
  have set: "ok_res Q (dexec C (DSetUint v (8 * k) (IVar ''off'') (IAdd (IVar ''off'') (INum k))) (frm m env buf))"
    by (rule uint_safe [where pos = pos]) (use assms TUint in auto)
  then have one: "ok_res Q (dexecs C [DSetUint v (8 * k) (IVar ''off'') (IAdd (IVar ''off'') (INum k))] (frm m env buf))"
    by (auto intro: ok_bind simp del: dexec.simps)
  from TUint assms(1-3) consider "k = 2" "ssz_type e = SszUint16" | "k = 4" "ssz_type e = SszUint32"
    | "k = 8" "ssz_type e = SszUint64"
    by (auto simp: is_byte_ty_def split: if_splits)
  then show ?thesis using one by cases (simp_all add: elem_stmts_def Let_def del: dexec.simps dexecs.simps)
qed (use assms in auto)

lemma copy_safe:
  assumes "m f = Some (VBytes old)" and "length old = n" and "slice_ok buf" and "pos + n \<le> snd buf"
    and "eval_int (frm m env buf) a = Some pos" and "eval_int (frm m env buf) b = Some (pos + n)"
  shows "ok_res (stores (\<lambda>v. \<exists>bs. v = VBytes bs \<and> length bs = n) f m env buf)
    (dexec C (DCopyArray (LMember f) a b) (frm m env buf))"
proof -
  let ?s = "(drop pos (fst buf), n)"
  have s: "slice_range buf pos (pos + n) = Some ?s" "slice_ok ?s"
    using range_in [OF assms(3), of pos "pos + n"] assms(4) by simp_all
  then have "length (slice_bytes ?s) = n" by (simp add: slice_bytes_def slice_ok_def)
  with s(1) assms show ?thesis
    by (auto simp: eval_range_def copy_into_def copy_bytes_def stores_def)
qed

lemma call_safe_exec:
  assumes "calls_safe P st C" and "info_rep st i (TContainer nm fs)" and "fields_bits_ok fs"
    and "size_ok (TContainer nm fs)" and "fields_panic_free fs"
    and "get_lval (frm m env buf) l = Some old" and "shaped (TContainer nm fs) old"
    and "(case r of None \<Rightarrow> Some buf | Some (a, b) \<Rightarrow> eval_range (frm m env buf) a b) = Some s"
    and "slice_ok s"
    and "\<And>v. shaped (TContainer nm fs) v \<Longrightarrow> \<exists>fr'. set_lval (frm m env buf) l v = Some fr' \<and> Q fr'"
  shows "ok_res Q (dexec C (DCall l (info_struct_name P dflt i) r) (frm m env buf))"
proof -
  from calls_safe_info [OF assms(1-5)] have nm: "info_struct_name P dflt i = nm"
    and safe: "call_safe C nm fs" .
  from safe assms(7,9) have call: "ok_res (shaped (TContainer nm fs)) (call_unmarshal C nm old s)"
    unfolding call_safe_def by blast
  have "ok_res Q (go_bind (call_unmarshal C nm old s) (\<lambda>w'. or_panic (set_lval (frm m env buf) l w')))"
  proof (rule ok_bind [OF call])
    fix v assume "shaped (TContainer nm fs) v"
    with assms(10) obtain fr' where "set_lval (frm m env buf) l v = Some fr'" "Q fr'" by blast
    then show "ok_res Q (or_panic (set_lval (frm m env buf) l v))" by simp
  qed
  with nm assms(6,8) show ?thesis by (cases r) auto
qed

text \<open>A loop that stores into the elements of a member.\<close>

definition seq_frame :: "string \<Rightarrow> nat \<Rightarrow> (string \<rightharpoonup> val) \<Rightarrow> (string \<times> nat) list \<Rightarrow> slice \<Rightarrow> dframe \<Rightarrow> bool" where
  "seq_frame f n m env buf = stores (\<lambda>v. \<exists>ws. v = VSeq ws \<and> length ws = n) f m env buf"

lemma loop_safe:
  assumes body: "\<And>k ws m'. k < n \<Longrightarrow> length ws = n \<Longrightarrow> m' f = Some (VSeq ws) \<Longrightarrow>
      ok_res (\<lambda>fr. \<exists>pre. seq_frame f n m' (pre @ (''i'', k) # env) buf fr)
        (dexecs C ss (frm m' ((''i'', k) # env) buf))"
    and m: "m f = Some (VSeq ys)" "length ys = n"
  shows "ok_res (seq_frame f n m env buf)
    (go_fold (\<lambda>k fr. go_map (end_block fr) (dexecs C ss (bind_var ''i'' k fr))) [0..<n] (frm m env buf))"
proof (rule ok_fold)
  have "m(f \<mapsto> VSeq ys) = m" using m by auto
  then show "seq_frame f n m env buf (frm m env buf)"
    using m unfolding seq_frame_def stores_def by metis
  fix k fr assume k: "k \<in> set [0..<n]" and "seq_frame f n m env buf fr"
  then obtain ws where ws: "fr = frm (m(f \<mapsto> VSeq ws)) env buf" "length ws = n"
    by (auto simp: seq_frame_def stores_def)
  have "ok_res (\<lambda>fr. \<exists>pre. seq_frame f n (m(f \<mapsto> VSeq ws)) (pre @ (''i'', k) # env) buf fr)
      (dexecs C ss (frm (m(f \<mapsto> VSeq ws)) ((''i'', k) # env) buf))"
    by (rule body [where ws = ws]) (use k ws in auto)
  then have "ok_res (\<lambda>x. seq_frame f n m env buf (end_block fr x)) (dexecs C ss (bind_var ''i'' k fr))"
    unfolding ws(1) frm_simps
    by (rule ok_mono) (auto simp: seq_frame_def stores_def end_block_def)
  then show "ok_res (seq_frame f n m env buf) (go_map (end_block fr) (dexecs C ss (bind_var ''i'' k fr)))"
    by (rule ok_map)
qed

section \<open>Fixed-size fields on any buffer\<close>

lemma prim_vector_safe:
  assumes e: "info_rep st e t" "flat_elem t" "\<not> is_byte_ty t" "t = TBool \<or> (\<exists>k. t = TUint k)"
    and m: "m f = Some (VSeq ys)" "length ys = n"
    and buf: "slice_ok buf" "unat off + n * fixed_len t \<le> snd buf"
  shows "ok_res (seq_frame f n m env buf) (dexec C (DForArray (LMember f) n
      (DDecl ''off'' (IAddB (at32 off) (IMul (IVar ''i'') (INum (fixed_len t)))) #
       elem_stmts (ssz_type e) (LElem f ''i''))) (frm m env buf))"
proof -
  have "ok_res (seq_frame f n m env buf) (go_fold (\<lambda>k fr. go_map (end_block fr) (dexecs C
      (DDecl ''off'' (IAddB (at32 off) (IMul (IVar ''i'') (INum (fixed_len t)))) #
       elem_stmts (ssz_type e) (LElem f ''i'')) (bind_var ''i'' k fr))) [0..<n] (frm m env buf))"
  proof (rule loop_safe [where m = m and f = f, OF _ m])
    fix k ws m' assume k: "k < n" and ws: "length ws = n" "m' f = Some (VSeq ws)"
    let ?env = "(''off'', unat off + k * fixed_len t) # (''i'', k) # env"
    have "Suc k * fixed_len t \<le> n * fixed_len t" using k by (intro mult_le_mono1) simp
    then have fit: "unat off + k * fixed_len t + fixed_len t \<le> snd buf" using buf(2) by simp
    have "ok_res (seq_frame f n m' ?env buf) (dexecs C (elem_stmts (ssz_type e) (LElem f ''i'')) (frm m' ?env buf))"
      by (rule elem_safe [OF e buf(1) _ fit]) (use k ws in \<open>auto simp: seq_frame_def stores_def\<close>)
    then have "ok_res (\<lambda>fr. \<exists>pre. seq_frame f n m' (pre @ (''i'', k) # env) buf fr)
        (dexecs C (elem_stmts (ssz_type e) (LElem f ''i'')) (frm m' ?env buf))"
      by (rule ok_mono) (metis append_Cons append_Nil)
    then show "ok_res (\<lambda>fr. \<exists>pre. seq_frame f n m' (pre @ (''i'', k) # env) buf fr)
        (dexecs C (DDecl ''off'' (IAddB (at32 off) (IMul (IVar ''i'') (INum (fixed_len t)))) #
          elem_stmts (ssz_type e) (LElem f ''i'')) (frm m' ((''i'', k) # env) buf))"
      by simp
  qed
  then show ?thesis by simp
qed

text \<open>A single statement that stores a value of the type of the member.\<close>

lemma one_safe:
  "ok_res (stores R f m env buf) (dexec C s (frm m env buf)) \<Longrightarrow> (\<And>v. R v \<Longrightarrow> Q v) \<Longrightarrow>
   ok_res (stores Q f m env buf) (dexecs C [s] (frm m env buf))"
  by (cases "dexec C s (frm m env buf)") (auto simp: stores_def)

lemma decode_safe:
  assumes C: "calls_safe P st C" and rep: "info_rep st i t" and flat: "flat_ty t"
    and fixed: "\<not> is_variable t" and bits: "bits_ok t" and size: "size_ok t" and pf: "panic_free t"
    and fit: "unat off + fixed_len t < 2 ^ 32" and m: "m f = Some old" and old: "shaped t old"
    and buf: "slice_ok buf" "unat off + fixed_len t \<le> snd buf"
  shows "ok_res (stores (shaped t) f m env buf) (dexecs C (decode_stmts P i f off) (frm m env buf))"
proof -
  have fs: "fixed_size i = of_nat (fixed_len t)" using info_rep_fixed [OF rep fixed] .
  have off: "unat (off + fixed_size i) = unat off + fixed_len t" using unat_offset [OF fit] fs by simp
  show ?thesis
  proof (cases t)
    case TBool
    have "ok_res (stores (shaped t) f m env buf) (dexecs C (bool_stmts (LMember f) (at32 off)) (frm m env buf))"
      by (rule bool_safe [where pos = "unat off"]) (use TBool m buf in \<open>auto simp: stores_def\<close>)
    with TBool rep show ?thesis by (simp add: decode_stmts_def Let_def)
  next
    case (TUint k)
    have "ok_res (stores (shaped t) f m env buf)
        (dexec C (DSetUint (LMember f) (8 * k) (at32 off) (INum (unat off + k))) (frm m env buf))"
      by (rule uint_safe [where pos = "unat off"]) (use m buf TUint in \<open>auto simp: stores_def\<close>)
    note set = one_safe [OF this]
    from TUint flat rep consider "k = 1" "ssz_type i = SszUint8" | "k = 2" "ssz_type i = SszUint16"
      | "k = 4" "ssz_type i = SszUint32" | "k = 8" "ssz_type i = SszUint64"
      by (auto split: if_splits)
    then show ?thesis
    proof cases
      case 1
      with TUint m buf show ?thesis by (auto simp: decode_stmts_def Let_def stores_def)
    qed (use set off TUint fs in \<open>simp_all add: decode_stmts_def Let_def del: dexec.simps dexecs.simps\<close>)
  next
    case (TVector t' n)
    with rep obtain e where e: "elem_info i = Some e" "info_rep st e t'"
      and lim: "info_limit i = of_nat n" "n < 2 ^ 16" by auto
    from lim have n: "unat (info_limit i) = n" by (simp add: unat_of_nat)
    from flat TVector have fl: "flat_elem t'" by simp
    from e(2) fl show ?thesis
    proof (cases rule: flat_elem_cases)
      case byte
      from old byte TVector obtain bs where bs: "old = VBytes bs" "length bs = n" by auto
      have "ok_res (stores (\<lambda>v. \<exists>bs. v = VBytes bs \<and> length bs = n) f m env buf)
          (dexec C (DCopyArray (LMember f) (at32 off) (at32 (off + fixed_size i))) (frm m env buf))"
        by (rule copy_safe [where pos = "unat off" and old = bs])
          (use m bs buf off TVector byte in \<open>auto simp: is_byte_ty_def\<close>)
      from one_safe [OF this, of "shaped t"] TVector byte
      have "ok_res (stores (shaped t) f m env buf)
          (dexecs C [DCopyArray (LMember f) (at32 off) (at32 (off + fixed_size i))] (frm m env buf))"
        by simp
      with TVector rep e byte show ?thesis
        by (simp add: decode_stmts_def array_stmts_def elem_rep_simps Let_def del: dexec.simps dexecs.simps)
    next
      case prim
      from old prim TVector obtain ys where ys: "old = VSeq ys" "length ys = n" by auto
      have small: "unat (fixed_size e) = fixed_len t'"
        using e(2) prim(2) fl by (auto split: if_splits)
      have "unat off + n * fixed_len t' \<le> snd buf" using buf(2) TVector fixed by simp
      from prim_vector_safe [where m = m and f = f, OF e(2) fl prim(1,2) _ ys(2) buf(1) this] m ys(1)
      have "ok_res (seq_frame f n m env buf) (dexec C (DForArray (LMember f) n
          (DDecl ''off'' (IAddB (at32 off) (IMul (IVar ''i'') (INum (fixed_len t')))) #
           elem_stmts (ssz_type e) (LElem f ''i''))) (frm m env buf))" by simp
      from one_safe [OF this [unfolded seq_frame_def], of "shaped t"] TVector prim
      have "ok_res (stores (shaped t) f m env buf) (dexecs C [DForArray (LMember f) n
          (DDecl ''off'' (IAddB (at32 off) (IMul (IVar ''i'') (INum (fixed_len t')))) #
           elem_stmts (ssz_type e) (LElem f ''i''))] (frm m env buf))" by simp
      with TVector rep e prim n small show ?thesis
        by (simp add: decode_stmts_def array_stmts_def elem_rep_simps Let_def del: dexec.simps dexecs.simps)
    next
      case (cont nm fs)
      with pf TVector show ?thesis by simp
    next
      case (bytes l)
      with fixed TVector show ?thesis by simp
    qed
  next
    case (TBitvector n)
    from old TBitvector obtain bs where bs: "old = VBytes bs" "length bs = (n + 7) div 8" by auto
    have "ok_res (stores (\<lambda>v. \<exists>bs. v = VBytes bs \<and> length bs = (n + 7) div 8) f m env buf)
        (dexec C (DCopyArray (LMember f) (at32 off) (at32 (off + fixed_size i))) (frm m env buf))"
      by (rule copy_safe [where pos = "unat off" and old = bs]) (use m bs buf off TBitvector in auto)
    from one_safe [OF this, of "shaped t"] TBitvector
    have "ok_res (stores (shaped t) f m env buf)
        (dexecs C [DCopyArray (LMember f) (at32 off) (at32 (off + fixed_size i))] (frm m env buf))"
      by simp
    with TBitvector rep show ?thesis by (simp add: decode_stmts_def Let_def del: dexec.simps dexecs.simps)
  next
    case (TContainer nm fs)
    let ?s = "(drop (unat off) (fst buf), fixed_len t)"
    have s: "slice_range buf (unat off) (unat off + fixed_len t) = Some ?s" "slice_ok ?s"
      using range_in [OF buf(1), of "unat off" "unat off + fixed_len t"] buf(2) by simp_all
    have "ok_res (stores (shaped t) f m env buf) (dexec C (DCall (LMember f) (info_struct_name P '''' i)
        (Some (at32 off, at32 (off + fixed_size i)))) (frm m env buf))"
      by (rule call_safe_exec [OF C, of i nm fs _ _ _ _ old _ ?s])
        (use TContainer rep bits size pf m old s off in \<open>auto simp: eval_range_def stores_def\<close>)
    from one_safe [OF this] TContainer rep show ?thesis
      by (simp add: decode_stmts_def Let_def del: dexec.simps dexecs.simps)
  qed (use fixed in auto)
qed

section \<open>Dynamic fields on any buffer\<close>

text \<open>The outcome of the statements of a dynamic field: they may leave variables behind.\<close>

definition stores_in :: "(val \<Rightarrow> bool) \<Rightarrow> string \<Rightarrow> (string \<rightharpoonup> val) \<Rightarrow> (string \<times> nat) list \<Rightarrow> slice \<Rightarrow> dframe \<Rightarrow> bool" where
  "stores_in Q f m env buf fr \<longleftrightarrow> (\<exists>pre. stores Q f m (pre @ env) buf fr)"

lemma stores_in_I: "stores Q f m env buf fr \<Longrightarrow> stores_in Q f m env buf fr"
  unfolding stores_in_def by (metis append_Nil)

lemma fixed_list_safe:
  assumes k: "0 < unat k" and m: "m f = Some old"
    and step: "\<And>j ws m' env'. j < snd buf div unat k \<Longrightarrow> length ws = snd buf div unat k \<Longrightarrow>
      m' f = Some (VSeq ws) \<Longrightarrow>
      ok_res (\<lambda>fr. \<exists>pre. seq_frame f (snd buf div unat k) m' (pre @ (''i'', j) # env') buf fr)
        (dexecs C ss (frm m' ((''i'', j) # env') buf))"
  shows "ok_res (stores_in (\<lambda>v. True) f m env buf) (dexecs C (fixed_list_stmts f (GySlice z) k ss) (frm m env buf))"
proof -
  let ?n = "snd buf div unat k"
  let ?zs = "replicate ?n (zero_val (zero_struct C) z)" and ?env = "(''count'', ?n) # env"
  have "ok_res (seq_frame f ?n (m(f \<mapsto> VSeq ?zs)) ?env buf)
      (go_fold (\<lambda>k fr. go_map (end_block fr) (dexecs C ss (bind_var ''i'' k fr))) [0..<?n]
        (frm (m(f \<mapsto> VSeq ?zs)) ?env buf))"
    by (rule loop_safe [where ys = ?zs]) (use step in auto)
  then have "ok_res (stores_in (\<lambda>v. True) f m env buf)
      (go_fold (\<lambda>k fr. go_map (end_block fr) (dexecs C ss (bind_var ''i'' k fr))) [0..<?n]
        (frm (m(f \<mapsto> VSeq ?zs)) ?env buf))"
    by (rule ok_mono) (auto simp: seq_frame_def stores_def stores_in_def intro: exI [of _ "[(''count'', ?n)]"])
  then have "ok_res (stores_in (\<lambda>v. True) f m env buf)
      (dexec C (DForCount ss) (frm (m(f \<mapsto> VSeq ?zs)) ?env buf))" by simp
  then have "ok_res (stores_in (\<lambda>v. True) f m env buf)
      (dexecs C [DForCount ss] (frm (m(f \<mapsto> VSeq ?zs)) ?env buf))"
    by (cases "dexec C (DForCount ss) (frm (m(f \<mapsto> VSeq ?zs)) ?env buf)") (simp_all del: dexec.simps)
  with k m show ?thesis
    by (simp add: fixed_list_stmts_def del: dexec.simps(17) dexecs.simps(2))
      (simp add: dexecs.simps(2))
qed

lemma list_elem_fits: "j < len div (k :: nat) \<Longrightarrow> j * k + k \<le> len"
proof -
  assume "j < len div k"
  then have "Suc j * k \<le> len div k * k" by (intro mult_le_mono1) simp
  then show ?thesis by (metis add.commute div_times_less_eq_dividend le_trans mult_Suc)
qed

lemma prim_list_safe:
  assumes e: "info_rep st e t" "flat_elem t" "\<not> is_byte_ty t" "t = TBool \<or> (\<exists>k. t = TUint k)"
    and m: "m f = Some old" and buf: "slice_ok buf"
  shows "ok_res (stores_in (\<lambda>v. True) f m env buf) (dexecs C (fixed_list_stmts f (GySlice z) (fixed_size e)
      (DDecl ''off'' (IMulB (IVar ''i'') (at32 (fixed_size e))) #
       elem_stmts (ssz_type e) (LElem f ''i''))) (frm m env buf))"
proof -
  have k: "unat (fixed_size e) = fixed_len t" "0 < fixed_len t"
    using e by (auto split: if_splits)
  show ?thesis
  proof (rule fixed_list_safe [where m = m and f = f, OF _ m])
    fix j ws m' env' assume j: "j < snd buf div unat (fixed_size e)"
      and ws: "length ws = snd buf div unat (fixed_size e)" "m' f = Some (VSeq ws)"
    let ?n = "snd buf div unat (fixed_size e)"
    let ?env = "(''off'', j * fixed_len t) # (''i'', j) # env'"
    have fit: "j * fixed_len t + fixed_len t \<le> snd buf" using list_elem_fits [OF j] k by simp
    have "ok_res (seq_frame f ?n m' ?env buf) (dexecs C (elem_stmts (ssz_type e) (LElem f ''i'')) (frm m' ?env buf))"
      by (rule elem_safe [OF e buf _ fit]) (use j ws in \<open>auto simp: seq_frame_def stores_def\<close>)
    then have "ok_res (\<lambda>fr. \<exists>pre. seq_frame f ?n m' (pre @ (''i'', j) # env') buf fr)
        (dexecs C (elem_stmts (ssz_type e) (LElem f ''i'')) (frm m' ?env buf))"
      by (rule ok_mono) (metis append_Cons append_Nil)
    with k show "ok_res (\<lambda>fr. \<exists>pre. seq_frame f ?n m' (pre @ (''i'', j) # env') buf fr)
        (dexecs C (DDecl ''off'' (IMulB (IVar ''i'') (at32 (fixed_size e))) #
          elem_stmts (ssz_type e) (LElem f ''i'')) (frm m' ((''i'', j) # env') buf))"
      by simp
  qed (use k in simp)
qed

lemma struct_list_safe:
  assumes C: "calls_safe P st C" and e: "info_rep st e (TContainer nm fs)" and bits: "fields_bits_ok fs"
    and size: "size_ok (TContainer nm fs)" and pf: "fields_panic_free fs"
    and fixed: "\<not> any_variable fs" and pos: "0 < fields_len fs" "fields_len fs < 2 ^ 32"
    and m: "m f = Some old" and buf: "slice_ok buf"
  shows "ok_res (stores_in (\<lambda>v. True) f m env buf) (dexecs C (fixed_list_stmts f (GySlice z) (fixed_size e)
      [DNew (LElem f ''i'') (info_struct_name P '''' e),
       DDecl ''off'' (IMulB (IVar ''i'') (at32 (fixed_size e))),
       DCall (LElem f ''i'') (info_struct_name P '''' e)
         (Some (IVar ''off'', IAdd (IVar ''off'') (at32 (fixed_size e))))]) (frm m env buf))"
proof -
  let ?k = "fields_len fs" and ?n = "snd buf div fields_len fs"
  have k: "unat (fixed_size e) = ?k"
    using unat_fixed_size [OF e] fixed pos(2) by simp
  from calls_safe_info [OF C e bits size pf] have nm: "info_struct_name P '''' e = nm"
    and safe: "call_safe C nm fs" .
  show ?thesis
  proof (rule fixed_list_safe [where m = m and f = f, OF _ m], unfold k)
    fix j ws m' env' assume j: "j < ?n" and ws: "length ws = ?n" "m' f = Some (VSeq ws)"
    let ?env = "(''off'', j * ?k) # (''i'', j) # env'" and ?m1 = "m'(f \<mapsto> VSeq (ws[j := zero_struct C nm]))"
    let ?call = "DCall (LElem f ''i'') (info_struct_name P '''' e) (Some (IVar ''off'', IAdd (IVar ''off'') (INum ?k)))"
    have fit: "j * ?k + ?k \<le> snd buf" using list_elem_fits [OF j] .
    let ?s = "(drop (j * ?k) (fst buf), ?k)"
    have s: "slice_range buf (j * ?k) (j * ?k + ?k) = Some ?s" "slice_ok ?s"
      using range_in [OF buf, of "j * ?k" "j * ?k + ?k"] fit by simp_all
    have zero: "shaped (TContainer nm fs) (zero_struct C nm)"
      using safe unfolding call_safe_def by blast
    have "ok_res (seq_frame f ?n m' ?env buf) (dexec C ?call (frm ?m1 ?env buf))"
      by (rule call_safe_exec [OF C e bits size pf _ zero _ s(2)])
        (use j ws s in \<open>auto simp: eval_range_def seq_frame_def stores_def\<close>)
    then have "ok_res (\<lambda>fr. \<exists>pre. seq_frame f ?n m' (pre @ (''i'', j) # env') buf fr)
        (dexecs C [?call] (frm ?m1 ?env buf))"
      by (cases "dexec C ?call (frm ?m1 ?env buf)") (simp_all del: dexec.simps, metis append_Cons append_Nil)
    with j ws nm show "ok_res (\<lambda>fr. \<exists>pre. seq_frame f ?n m' (pre @ (''i'', j) # env') buf fr)
        (dexecs C [DNew (LElem f ''i'') (info_struct_name P '''' e),
          DDecl ''off'' (IMulB (IVar ''i'') (INum ?k)), ?call] (frm m' ((''i'', j) # env') buf))"
      by (simp del: dexec.simps(18) dexecs.simps(2)) (simp add: dexecs.simps(2) del: dexec.simps(18))
  qed (use pos in simp)
qed

lemma copy_all_safe:
  assumes "slice_ok buf" and "m f = Some old"
  shows "ok_res (stores_in (\<lambda>v. True) f m env buf) (dexecs C (copy_all_stmts f) (frm m env buf))"
  using copy_all_exec [of buf m f old C env] assms by (auto simp: stores_def intro!: stores_in_I)

lemma decode_list_safe:
  assumes C: "calls_safe P st C" and i: "ssz_type i \<in> {SszList, SszProgressiveList}"
    and e: "elem_info i = Some e" "info_rep st e t" and fl: "flat_elem t"
    and bits: "bits_ok t" and size: "size_ok t" "fixed_len t < 2 ^ 32"
    and pf: "panic_free t" "\<not> is_variable t" "0 < fixed_len t"
    and str: "base_type (field_type field) = BASE_TYPE_STRING \<longrightarrow> is_byte_ty t"
    and m: "m f = Some old" and buf: "slice_ok buf"
  shows "ok_res (stores_in (\<lambda>v. True) f m env buf) (dexecs C (decode_list P i f field) (frm m env buf))"
  using e(2) fl
proof (cases rule: flat_elem_cases)
  case byte
  with copy_all_safe [OF buf, where m = m and f = f, OF m] e show ?thesis
    by (simp add: decode_list_def elem_rep_simps)
next
  case prim
  have ty: "field_gty P i field = GySlice (elem_gty P e)"
    by (rule list_gty_slice [OF e(1) _ i]) (use prim str in auto)
  from prim_list_safe [where m = m and f = f, OF e(2) fl prim(1,2) m buf] prim e ty show ?thesis
    by (simp add: decode_list_def elem_rep_simps Let_def del: dexecs.simps)
next
  case (cont nm fs)
  have ty: "field_gty P i field = GySlice (elem_gty P e)"
    by (rule list_gty_slice [OF e(1) _ i]) (use cont str in \<open>auto simp: is_byte_ty_def\<close>)
  have "ok_res (stores_in (\<lambda>v. True) f m env buf) (dexecs C (fixed_list_stmts f (GySlice (elem_gty P e)) (fixed_size e)
      [DNew (LElem f ''i'') (info_struct_name P '''' e),
       DDecl ''off'' (IMulB (IVar ''i'') (at32 (fixed_size e))),
       DCall (LElem f ''i'') (info_struct_name P '''' e)
         (Some (IVar ''off'', IAdd (IVar ''off'') (at32 (fixed_size e))))]) (frm m env buf))"
    by (rule struct_list_safe [where m = m and f = f, OF C e(2) [unfolded cont(1)] _ _ _ _ _ _ m buf])
      (use cont bits size pf in auto)
  with cont e ty pf(2) info_rep_dynamic [OF e(2)] show ?thesis
    by (simp add: decode_list_def elem_rep_simps Let_def del: dexecs.simps)
next
  case (bytes l)
  with pf show ?thesis by simp
qed

lemma decode_dynamic_safe:
  assumes C: "calls_safe P st C" and rep: "info_rep st i t" and flat: "flat_ty t"
    and var: "is_variable t" and bits: "bits_ok t" and size: "size_ok t" and pf: "panic_free t"
    and ty: "field_ty st field = Some t" and m: "m f = Some old" and old: "shaped t old"
    and buf: "slice_ok buf"
  shows "ok_res (stores_in (shaped t) f m env buf) (dexecs C (decode_dynamic P i f field) (frm m env buf))"
proof (cases t)
  case (TList t' l)
  with rep obtain e where e: "elem_info i = Some e" "info_rep st e t'" by auto
  have "ok_res (stores_in (\<lambda>v. True) f m env buf) (dexecs C (decode_list P i f field) (frm m env buf))"
    by (rule decode_list_safe [where m = m and f = f, OF C _ e _ _ _ _ _ _ _ _ m buf])
      (use TList rep flat bits size pf string_field [OF ty] in \<open>auto simp: is_byte_ty_def split: if_splits\<close>)
  moreover have "shaped t = (\<lambda>v. True)" using TList by (simp add: fun_eq_iff)
  ultimately show ?thesis using TList rep by (simp add: decode_dynamic_def)
next
  case (TProgressiveList t')
  with rep obtain e where e: "elem_info i = Some e" "info_rep st e t'" by auto
  have "ok_res (stores_in (\<lambda>v. True) f m env buf) (dexecs C (decode_list P i f field) (frm m env buf))"
    by (rule decode_list_safe [where m = m and f = f, OF C _ e _ _ _ _ _ _ _ _ m buf])
      (use TProgressiveList rep flat bits size pf string_field [OF ty] in
        \<open>auto simp: is_byte_ty_def split: if_splits\<close>)
  moreover have "shaped t = (\<lambda>v. True)" using TProgressiveList by (simp add: fun_eq_iff)
  ultimately show ?thesis using TProgressiveList rep by (simp add: decode_dynamic_def)
next
  case (TBitlist l)
  then have "shaped t = (\<lambda>v. True)" by (simp add: fun_eq_iff)
  with TBitlist copy_all_safe [OF buf, where m = m and f = f, OF m] rep show ?thesis
    by (simp add: decode_dynamic_def)
next
  case (TContainer nm fs)
  have "ok_res (stores (shaped t) f m env buf) (dexec C (DCall (LMember f) (info_struct_name P '''' i) None) (frm m env buf))"
    by (rule call_safe_exec [OF C, of i nm fs _ _ _ _ old _ buf])
      (use TContainer rep bits size pf m old buf in \<open>auto simp: stores_def\<close>)
  from one_safe [OF this, of "shaped t"] have
    "ok_res (stores (shaped t) f m env buf)
      (dexecs C [DCall (LMember f) (info_struct_name P '''' i) None] (frm m env buf))" .
  then have "ok_res (stores_in (shaped t) f m env buf)
      (dexecs C [DCall (LMember f) (info_struct_name P '''' i) None] (frm m env buf))"
    by (rule ok_mono) (rule stores_in_I)
  with TContainer rep show ?thesis by (simp add: decode_dynamic_def del: dexec.simps dexecs.simps)
next
  case (TVector t' n)
  with rep var show ?thesis by auto
next
  case TUnion
  have "m(f \<mapsto> old) = m" using m by auto
  then have "stores (shaped t) f m env buf (frm m env buf)" using old unfolding stores_def by metis
  with TUnion rep show ?thesis by (simp add: decode_dynamic_def stores_in_I)
qed (use var in auto)

section \<open>Containers on any buffer\<close>

text \<open>A field with its info and its type, and its share of the fixed part.\<close>

type_synonym srow = "FieldPtr \<times> SszFieldInfo \<times> ssz_ty"

abbreviation srow_info :: "srow \<Rightarrow> FieldPtr \<times> SszFieldInfo" where "srow_info r \<equiv> (fst r, fst (snd r))"
abbreviation srow_ty :: "srow \<Rightarrow> ssz_ty" where "srow_ty r \<equiv> snd (snd r)"

definition srow_name :: "SszGenerator \<Rightarrow> srow \<Rightarrow> string" where
  "srow_name G r = go_Field G (field_at (gen_parser G) (fst r))"

definition srow_width :: "srow \<Rightarrow> nat" where
  "srow_width r = (if is_variable (srow_ty r) then 4 else fixed_len (srow_ty r))"

definition srow_ok :: "SszGenerator \<Rightarrow> struct_types \<Rightarrow> srow \<Rightarrow> bool" where
  "srow_ok G st r \<longleftrightarrow>
     info_rep st (fst (snd r)) (srow_ty r) \<and> flat_ty (srow_ty r) \<and> bits_ok (srow_ty r) \<and>
     size_ok (srow_ty r) \<and> panic_free (srow_ty r) \<and>
     field_ty st (field_at (gen_parser G) (fst r)) = Some (srow_ty r)"

text \<open>The invariant of the members: each holds a value of its type.\<close>

definition members_ok :: "SszGenerator \<Rightarrow> srow list \<Rightarrow> (string \<rightharpoonup> val) \<Rightarrow> bool" where
  "members_ok G rs m \<longleftrightarrow> (\<forall>r \<in> set rs. \<exists>v. m (srow_name G r) = Some v \<and> shaped (srow_ty r) v)"

lemma members_ok_store:
  assumes "members_ok G rs m" and "distinct (map (srow_name G) rs)" and "r \<in> set rs"
    and "shaped (srow_ty r) v"
  shows "members_ok G rs (m(srow_name G r \<mapsto> v))"
  using assms by (auto simp: members_ok_def distinct_map dest: inj_onD)

text \<open>The invariant of the offsets that were read: they ascend and stay in the buffer.\<close>

definition offsets_in :: "slice \<Rightarrow> nat \<Rightarrow> (string \<times> nat) list \<Rightarrow> bool" where
  "offsets_in buf k env \<longleftrightarrow>
     (\<exists>xs. length xs = k \<and> sorted xs \<and> (\<forall>x \<in> set xs. x \<le> snd buf) \<and>
        (\<forall>j < k. map_of env (off_name j) = Some (xs ! j)))"

lemma offsets_in_0: "offsets_in buf 0 env"
  by (auto simp: offsets_in_def)

lemma offsets_in_Suc:
  assumes "offsets_in buf k env" and "x \<le> snd buf"
    and "k \<noteq> 0 \<longrightarrow> (\<exists>q. map_of env (off_name (k - 1)) = Some q \<and> q \<le> x)"
  shows "offsets_in buf (Suc k) ((off_name k, x) # env)"
proof -
  from assms(1) obtain xs where xs: "length xs = k" "sorted xs" "\<forall>x \<in> set xs. x \<le> snd buf"
    "\<forall>j < k. map_of env (off_name j) = Some (xs ! j)" by (auto simp: offsets_in_def)
  have last: "y \<le> x" if "y \<in> set xs" for y
  proof -
    from that obtain j where j: "j < k" "y = xs ! j" using xs(1) by (auto simp: in_set_conv_nth)
    then have "xs ! j \<le> xs ! (k - 1)" using xs(1,2) by (intro sorted_nth_mono) auto
    moreover have "xs ! (k - 1) \<le> x" using assms(3) xs(4) j(1) by auto
    ultimately show ?thesis using j(2) by simp
  qed
  have "sorted (xs @ [x])" using xs(2) last by (simp add: sorted_append)
  moreover have "map_of ((off_name k, x) # env) (off_name j) = Some ((xs @ [x]) ! j)" if "j < Suc k" for j
    using that xs(1,4) by (auto simp: nth_append)
  ultimately show ?thesis using xs(1,3) assms(2) unfolding offsets_in_def
    by (intro exI [of _ "xs @ [x]"]) auto
qed

lemma offsets_in_at:
  assumes "offsets_in buf n env" and "k < n"
  obtains x where "map_of env (off_name k) = Some x" "x \<le> snd buf"
    "Suc k < n \<Longrightarrow> \<exists>y. map_of env (off_name (Suc k)) = Some y \<and> x \<le> y \<and> y \<le> snd buf"
proof -
  from assms(1) obtain xs where xs: "length xs = n" "sorted xs" "\<forall>x \<in> set xs. x \<le> snd buf"
    "\<forall>j < n. map_of env (off_name j) = Some (xs ! j)" by (auto simp: offsets_in_def)
  show thesis
    by (rule that [of "xs ! k"]) (use xs assms(2) in \<open>auto intro: sorted_nth_mono\<close>)
qed

lemma read_offset_safe:
  assumes buf: "slice_ok buf" "unat off + 4 \<le> snd buf" and fit: "unat off + 4 < 2 ^ 32"
    and env: "offsets_in buf k env" and static: "unat static \<le> snd buf"
  shows "ok_res (\<lambda>fr. \<exists>x. fr = frm m ((off_name k, x) # env) buf \<and> offsets_in buf (Suc k) ((off_name k, x) # env))
    (dexecs C (read_offset static off k) (frm m env buf))"
proof -
  let ?s = "(drop (unat off) (fst buf), 4)"
  have off: "unat (off + 4) = unat off + 4" using unat_offset [of off 4] fit by simp
  have "slice_range buf (unat off) (unat off + 4) = Some ?s"
    using range_in [OF buf(1), of "unat off" "unat off + 4"] buf(2) by simp
  then obtain x where x: "eval_int (frm m env buf) (IUint32 (at32 off) (at32 (off + 4))) = Some x"
    using off by (simp add: slice_uint_def)
  show ?thesis
  proof (cases k)
    case 0
    with x static offsets_in_Suc [OF env, of x] show ?thesis
      by (auto simp: read_offset_def off_name_def simp del: eval_int.simps(5))
  next
    case (Suc j)
    with offsets_in_at [OF env, of j] obtain q where q: "map_of env (off_name j) = Some q" by blast
    with Suc x offsets_in_Suc [OF env, of x] show ?thesis
      by (auto simp: read_offset_def off_name_def simp del: eval_int.simps(5))
  qed
qed

lemma srow_decode_safe:
  assumes C: "calls_safe (gen_parser G) st C" and r: "srow_ok G st r" "\<not> is_variable (srow_ty r)"
    and m: "members_ok G A m" "distinct (map (srow_name G) A)" "r \<in> set A"
    and fit: "unat off + srow_width r < 2 ^ 32" and buf: "slice_ok buf" "unat off + srow_width r \<le> snd buf"
  shows "ok_res (\<lambda>fr. \<exists>m'. fr = frm m' env buf \<and> members_ok G A m')
    (dexecs C (decode_stmts (gen_parser G) (fst (snd r)) (srow_name G r) off) (frm m env buf))"
proof -
  from m(1,3) obtain v where v: "m (srow_name G r) = Some v" "shaped (srow_ty r) v"
    by (auto simp: members_ok_def)
  have "ok_res (stores (shaped (srow_ty r)) (srow_name G r) m env buf)
      (dexecs C (decode_stmts (gen_parser G) (fst (snd r)) (srow_name G r) off) (frm m env buf))"
    by (rule decode_safe [where m = m and f = "srow_name G r", OF C _ _ r(2) _ _ _ _ v buf(1)])
      (use r fit buf in \<open>auto simp: srow_ok_def srow_width_def\<close>)
  then show ?thesis
    by (rule ok_mono) (auto simp: stores_def intro: members_ok_store [OF m])
qed

lemma srow_width_info:
  assumes "srow_ok G st r" and "\<not> is_variable (srow_ty r)" and "unat off + srow_width r < 2 ^ 32"
  shows "unat (off + fixed_size (fst (snd r))) = unat off + srow_width r"
proof -
  from assms(1) have "info_rep st (fst (snd r)) (srow_ty r)" by (simp add: srow_ok_def)
  from info_rep_fixed [OF this assms(2)] assms show ?thesis
    by (simp add: srow_width_def unat_offset)
qed

lemma fixed_body_safe:
  assumes C: "calls_safe (gen_parser G) st C" and A: "distinct (map (srow_name G) A)"
    and buf: "slice_ok buf"
  shows "\<forall>r \<in> set rs. srow_ok G st r \<and> \<not> is_variable (srow_ty r) \<and> r \<in> set A \<Longrightarrow> members_ok G A m \<Longrightarrow>
    unat off + sum_list (map srow_width rs) \<le> snd buf \<Longrightarrow>
    unat off + sum_list (map srow_width rs) < 2 ^ 32 \<Longrightarrow>
    ok_res (\<lambda>fr. \<exists>m'. fr = frm m' env buf \<and> members_ok G A m')
      (dexecs C (fixed_body G off (map srow_info rs)) (frm m env buf))"
proof (induction rs arbitrary: off m)
  case (Cons r rs)
  have r: "srow_ok G st r" "\<not> is_variable (srow_ty r)" "r \<in> set A" using Cons.prems(1) by auto
  have fit: "unat off + srow_width r < 2 ^ 32" "unat off + srow_width r \<le> snd buf"
    using Cons.prems(3,4) by auto
  note off = srow_width_info [OF r(1,2) fit(1)]
  have "ok_res (\<lambda>fr. \<exists>m'. fr = frm m' env buf \<and> members_ok G A m')
      (dexecs C (decode_stmts (gen_parser G) (fst (snd r)) (srow_name G r) off @
        fixed_body G (off + fixed_size (fst (snd r))) (map srow_info rs)) (frm m env buf))"
    by (rule ok_append [OF srow_decode_safe [OF C r(1,2) Cons.prems(2) A r(3) fit(1) buf fit(2)]])
      (use Cons.prems off in \<open>auto intro!: Cons.IH simp: add.assoc\<close>)
  then show ?case by (simp add: srow_name_def)
qed simp

lemma static_body_safe:
  assumes C: "calls_safe (gen_parser G) st C" and A: "distinct (map (srow_name G) A)"
    and buf: "slice_ok buf" and static: "unat static \<le> snd buf"
  shows "\<forall>r \<in> set rs. srow_ok G st r \<and> r \<in> set A \<Longrightarrow> members_ok G A m \<Longrightarrow> offsets_in buf k env \<Longrightarrow>
    unat off + sum_list (map srow_width rs) \<le> snd buf \<Longrightarrow>
    unat off + sum_list (map srow_width rs) < 2 ^ 32 \<Longrightarrow>
    ok_res (\<lambda>fr. \<exists>m' env'. fr = frm m' env' buf \<and> members_ok G A m' \<and>
        offsets_in buf (k + length (filter (\<lambda>r. is_variable (srow_ty r)) rs)) env')
      (dexecs C (static_body G static off k (map srow_info rs)) (frm m env buf))"
proof (induction rs arbitrary: off m k env)
  case (Cons r rs)
  have r: "srow_ok G st r" "r \<in> set A" using Cons.prems(1) by auto
  have fit: "unat off + srow_width r < 2 ^ 32" "unat off + srow_width r \<le> snd buf"
    using Cons.prems(4,5) by auto
  from r(1) have rep: "info_rep st (fst (snd r)) (srow_ty r)" by (simp add: srow_ok_def)
  note dyn = info_rep_dynamic [OF rep]
  show ?case
  proof (cases "is_variable (srow_ty r)")
    case True
    then have w: "srow_width r = 4" by (simp add: srow_width_def)
    have off: "unat (off + 4) = unat off + 4" using unat_offset [of off 4] fit w by simp
    have rest: "ok_res (\<lambda>fr. \<exists>m' env'. fr = frm m' env' buf \<and> members_ok G A m' \<and>
          offsets_in buf (Suc k + length (filter (\<lambda>r. is_variable (srow_ty r)) rs)) env')
        (dexecs C (static_body G static (off + 4) (Suc k) (map srow_info rs)) (frm m env1 buf))"
      if "offsets_in buf (Suc k) env1" for env1
      by (rule Cons.IH [OF _ Cons.prems(2) that]) (use w Cons.prems off in auto)
    have "ok_res (\<lambda>fr. \<exists>m' env'. fr = frm m' env' buf \<and> members_ok G A m' \<and>
          offsets_in buf (Suc k + length (filter (\<lambda>r. is_variable (srow_ty r)) rs)) env')
        (dexecs C (read_offset static off k @ static_body G static (off + 4) (Suc k) (map srow_info rs))
          (frm m env buf))"
      by (rule ok_append [OF read_offset_safe [OF buf _ _ Cons.prems(3) static]])
        (use fit w rest in auto)
    with True dyn show ?thesis by simp
  next
    case False
    note off = srow_width_info [OF r(1) False fit(1)]
    have "ok_res (\<lambda>fr. \<exists>m' env'. fr = frm m' env' buf \<and> members_ok G A m' \<and>
          offsets_in buf (k + length (filter (\<lambda>r. is_variable (srow_ty r)) rs)) env')
        (dexecs C (decode_stmts (gen_parser G) (fst (snd r)) (srow_name G r) off @
          static_body G static (off + fixed_size (fst (snd r))) k (map srow_info rs)) (frm m env buf))"
      by (rule ok_append [OF srow_decode_safe [OF C r(1) False Cons.prems(2) A r(2) fit(1) buf fit(2)]])
        (use Cons.prems off in \<open>auto intro!: Cons.IH simp: add.assoc\<close>)
    with False dyn show ?thesis by (simp add: srow_name_def)
  qed
qed auto

lemma dynamic_body_safe:
  assumes C: "calls_safe (gen_parser G) st C" and A: "distinct (map (srow_name G) A)"
    and buf: "slice_ok buf"
  shows "\<forall>r \<in> set rs. srow_ok G st r \<and> is_variable (srow_ty r) \<and> r \<in> set A \<Longrightarrow> members_ok G A m \<Longrightarrow>
    offsets_in buf (k + length rs) env \<Longrightarrow>
    ok_res (\<lambda>fr. \<exists>m'. fr = frm m' env buf \<and> members_ok G A m')
      (dexecs C (dynamic_body G k (map srow_info rs)) (frm m env buf))"
proof (induction rs arbitrary: k m)
  case (Cons r rs)
  have r: "srow_ok G st r" "is_variable (srow_ty r)" "r \<in> set A" using Cons.prems(1) by auto
  from offsets_in_at [OF Cons.prems(3), of k] obtain x where
    x: "map_of env (off_name k) = Some x" "x \<le> snd buf"
    "Suc k < k + length (r # rs) \<Longrightarrow> \<exists>y. map_of env (off_name (Suc k)) = Some y \<and> x \<le> y \<and> y \<le> snd buf"
    by auto
  have "\<exists>y. eval_int (frm m env buf) (if map srow_info rs = [] then ILen else off_var (Suc k)) = Some y \<and>
      x \<le> y \<and> y \<le> snd buf"
    using x by (cases rs) (auto simp: off_name_def)
  then obtain y where y: "eval_int (frm m env buf) (if map srow_info rs = [] then ILen else off_var (Suc k)) = Some y"
    "x \<le> y" "y \<le> snd buf" by blast
  let ?s = "(drop x (fst buf), y - x)" and ?f = "srow_name G r"
  from range_in [OF buf y(2,3)] have s: "slice_range buf x y = Some ?s" "slice_ok ?s" by simp_all
  have rng: "eval_range (frm m env buf) (off_var k) (if map srow_info rs = [] then ILen else off_var (Suc k)) = Some ?s"
    using x(1) y(1) s(1) by (simp add: eval_range_def off_name_def del: map_is_Nil_conv)
  from Cons.prems(2) r(3) obtain v where v: "m ?f = Some v" "shaped (srow_ty r) v"
    by (auto simp: members_ok_def)
  let ?ss = "decode_dynamic (gen_parser G) (fst (snd r)) ?f (field_at (gen_parser G) (fst r))"
  have "ok_res (stores_in (shaped (srow_ty r)) ?f m env ?s) (dexecs C ?ss (frm m env ?s))"
    by (rule decode_dynamic_safe [where m = m and f = ?f, OF C _ _ r(2) _ _ _ _ v s(2)])
      (use r(1) in \<open>auto simp: srow_ok_def\<close>)
  then have "ok_res (\<lambda>fr. \<exists>m'. end_block (frm m env buf) fr = frm m' env buf \<and> members_ok G A m')
      (dexecs C ?ss (frm m env ?s))"
    by (rule ok_mono)
      (auto simp: stores_in_def stores_def intro: members_ok_store [OF Cons.prems(2) A r(3)])
  from this have "ok_res (\<lambda>fr. \<exists>m'. fr = frm m' env buf \<and> members_ok G A m')
      (go_map (end_block (frm m env buf)) (dexecs C ?ss (frm m env ?s)))" by (rule ok_map)
  then have step: "ok_res (\<lambda>fr. \<exists>m'. fr = frm m' env buf \<and> members_ok G A m')
      (dexec C (DSub (off_var k) (if map srow_info rs = [] then ILen else off_var (Suc k)) ?ss) (frm m env buf))"
    using rng by simp
  have "ok_res (\<lambda>fr. \<exists>m'. fr = frm m' env buf \<and> members_ok G A m')
      (dexecs C (DSub (off_var k) (if map srow_info rs = [] then ILen else off_var (Suc k)) ?ss #
        dynamic_body G (Suc k) (map srow_info rs)) (frm m env buf))"
    by (rule ok_seq [OF step]) (use Cons.prems in \<open>auto intro!: Cons.IH\<close>)
  then show ?case by (cases "rs = []") (simp_all add: srow_name_def del: dexecs.simps)
qed simp

lemma dynamic_of_srows:
  "\<forall>r \<in> set rs. srow_ok G st r \<Longrightarrow>
   dynamic_of (map srow_info rs) = map srow_info (filter (\<lambda>r. is_variable (srow_ty r)) rs)"
proof (induction rs)
  case (Cons r rs)
  then have "info_rep st (fst (snd r)) (srow_ty r)" by (simp add: srow_ok_def)
  from info_rep_dynamic [OF this] Cons show ?case by (simp add: dynamic_of_def)
qed (simp add: dynamic_of_def)

lemma unmarshal_body_safe:
  assumes C: "calls_safe (gen_parser G) st C" and ok: "\<forall>r \<in> set rs. srow_ok G st r"
    and m: "members_ok G rs m" and dist: "distinct (map (srow_name G) rs)"
    and infos: "infos_of c (all_fields c) = map srow_info rs"
    and dyn: "dynamic_fields c = [] \<longleftrightarrow> (\<forall>r \<in> set rs. \<not> is_variable (srow_ty r))"
    and static: "unat (static_size c) = sum_list (map srow_width rs)"
    and buf: "slice_ok buf"
  shows "ok_res (\<lambda>fr. \<exists>m' env. fr = frm m' env buf \<and> members_ok G rs m')
    (dexecs C (unmarshal_body G c) (frm m [] buf))"
proof (cases "snd buf < unat (static_size c)")
  case True
  then show ?thesis by (simp add: unmarshal_body_def Let_def)
next
  case False
  then have len: "unat (0::u32) + sum_list (map srow_width rs) \<le> snd buf" using static by simp
  have "unat (static_size c) < 2 ^ LENGTH(32)" by (rule unsigned_less)
  then have small: "unat (0::u32) + sum_list (map srow_width rs) < 2 ^ 32"
    using static by simp
  show ?thesis
  proof (cases "dynamic_fields c = []")
    case True
    have "ok_res (\<lambda>fr. \<exists>m'. fr = frm m' [] buf \<and> members_ok G rs m')
        (dexecs C (fixed_body G 0 (map srow_info rs)) (frm m [] buf))"
      by (rule fixed_body_safe [OF C dist buf _ m len small]) (use ok dyn True in auto)
    then have "ok_res (\<lambda>fr. \<exists>m' env. fr = frm m' env buf \<and> members_ok G rs m')
        (dexecs C (fixed_body G 0 (map srow_info rs)) (frm m [] buf))"
      by (rule ok_mono) blast
    with True False infos show ?thesis by (simp add: unmarshal_body_def Let_def)
  next
    case dynamic: False
    have le: "unat (static_size c) \<le> snd buf" using False by simp
    have "ok_res (\<lambda>fr. \<exists>m' env. fr = frm m' env buf \<and> members_ok G rs m')
        (dexecs C (static_body G (static_size c) 0 0 (map srow_info rs) @
          [DBlank] @ dynamic_body G 0 (dynamic_of (map srow_info rs))) (frm m [] buf))"
    proof (rule ok_append [OF static_body_safe [OF C dist buf le _ m offsets_in_0 len small]])
      fix fr assume "\<exists>m' env'. fr = frm m' env' buf \<and> members_ok G rs m' \<and>
        offsets_in buf (0 + length (filter (\<lambda>r. is_variable (srow_ty r)) rs)) env'"
      then obtain m' env' where fr: "fr = frm m' env' buf" "members_ok G rs m'"
        "offsets_in buf (0 + length (filter (\<lambda>r. is_variable (srow_ty r)) rs)) env'" by blast
      have "ok_res (\<lambda>fr. \<exists>m'. fr = frm m' env' buf \<and> members_ok G rs m')
          (dexecs C (dynamic_body G 0 (map srow_info (filter (\<lambda>r. is_variable (srow_ty r)) rs))) fr)"
        unfolding fr(1) by (rule dynamic_body_safe [OF C dist buf _ fr(2,3)]) (use ok in auto)
      then have "ok_res (\<lambda>fr. \<exists>m' env. fr = frm m' env buf \<and> members_ok G rs m')
          (dexecs C (dynamic_body G 0 (map srow_info (filter (\<lambda>r. is_variable (srow_ty r)) rs))) fr)"
        by (rule ok_mono) blast
      then show "ok_res (\<lambda>fr. \<exists>m' env. fr = frm m' env buf \<and> members_ok G rs m')
          (dexecs C ([DBlank] @ dynamic_body G 0 (dynamic_of (map srow_info rs))) fr)"
        by (simp add: dynamic_of_srows [OF ok])
    qed (use ok in auto)
    with dynamic False infos show ?thesis by (simp add: unmarshal_body_def Let_def)
  qed
qed

section \<open>The program on any buffer\<close>

lemma srows_exist:
  assumes "list_all2 (field_rep (gen_parser G) st c) ps fs"
    and "list_all2 (\<lambda>p f. field_ty st (field_at (gen_parser G) p) = Some (snd f)) ps fs"
    and "\<forall>f \<in> set fs. flat_ty (snd f)" and "fields_bits_ok fs" and "fields_size_ok fs"
    and "fields_panic_free fs"
  shows "\<exists>rs. map fst rs = ps \<and> infos_of c ps = map srow_info rs \<and> map srow_ty rs = map snd fs \<and>
    (\<forall>r \<in> set rs. srow_ok G st r)"
  using assms
proof (induction ps arbitrary: fs)
  case (Cons p ps)
  from Cons.prems(1) obtain n t fs' where fs: "fs = (n, t) # fs'"
    and rep: "field_rep (gen_parser G) st c p (n, t)" "list_all2 (field_rep (gen_parser G) st c) ps fs'"
    by (cases fs) auto
  from rep(1) obtain i where i: "field_infos c p = Some i" "info_rep st i t" by (auto simp: field_rep_def)
  have "\<exists>rs. map fst rs = ps \<and> infos_of c ps = map srow_info rs \<and> map srow_ty rs = map snd fs' \<and>
    (\<forall>r \<in> set rs. srow_ok G st r)"
    by (rule Cons.IH [OF rep(2)]) (use Cons.prems fs in auto)
  then obtain rs where rs: "map fst rs = ps" "infos_of c ps = map srow_info rs"
    "map srow_ty rs = map snd fs'" "\<forall>r \<in> set rs. srow_ok G st r" by blast
  have "srow_ok G st (p, i, t)" using Cons.prems fs i by (simp add: srow_ok_def)
  with rs fs i show ?case by (intro exI [of _ "(p, i, t) # rs"]) simp
qed simp

lemma static_len_widths: "map srow_ty rs = map snd fs \<Longrightarrow> sum_list (map srow_width rs) = static_len fs"
proof (induction rs arbitrary: fs)
  case (Cons r rs)
  then obtain f fs' where "fs = f # fs'" "snd f = srow_ty r" "map srow_ty rs = map snd fs'" by (cases fs) auto
  with Cons.IH [of fs'] show ?case by (cases f) (auto simp: srow_width_def slot_len_def)
qed simp

lemma all_shaped_list: "all_shaped fs ws = list_all2 (\<lambda>f w. shaped (snd f) w) fs ws"
  by (induction fs arbitrary: ws) (auto simp: list_all2_Cons1)

lemma unmarshal_safe:
  assumes wf: "wf_schema P" and small: "small_ids P" and names: "go_names_ok G" and P: "P = gen_parser G"
  shows "n \<le> depth \<Longrightarrow> struct_ty n P s = Some (TContainer nm fs) \<Longrightarrow> fields_bits_ok fs \<Longrightarrow>
    size_ok (TContainer nm fs) \<Longrightarrow> fields_panic_free fs \<Longrightarrow>
    shaped (TContainer nm fs) v \<Longrightarrow> slice_ok buf \<Longrightarrow>
    ok_res (shaped (TContainer nm fs)) (UnmarshalSSZ (go_dprogram depth G) n nm v buf)"
proof (induction n arbitrary: s nm fs v buf)
  case (Suc k)
  from go_dprogram_decl [OF wf small names P Suc.prems(1-3)] obtain c where
    prog: "go_dprogram depth G nm = Some (go_ddecl G c)" and rep: "container_rep P (struct_ty k P) c fs"
    and ty: "list_all2 (\<lambda>p f. field_ty (struct_ty k P) (field_at P p) = Some (snd f)) (all_fields c) fs"
    and flat: "\<forall>f \<in> set fs. flat_ty (snd f)"
    and dist: "distinct (map (\<lambda>p. go_Field G (field_at P p)) (all_fields c))" .
  let ?C = "\<lparr>call_unmarshal = UnmarshalSSZ (go_dprogram depth G) k,
    zero_struct = zero_of (go_dprogram depth G) k\<rparr>"
  have k: "k \<le> depth" using Suc.prems(1) by simp
  have C: "calls_safe P (struct_ty k P) ?C"
    unfolding calls_safe_def
  proof (intro allI impI conjI)
    fix q nm' fs' assume q: "struct_ty k P q = Some (TContainer nm' fs')"
    from struct_ty_name [OF q] show "nm' = sd_name (struct_at P q)" .
    assume t: "fields_bits_ok fs'" "size_ok (TContainer nm' fs')" "fields_panic_free fs'"
    have "shaped (TContainer nm' fs') (zero_of (go_dprogram depth G) k nm')"
      using fresh_shaped(1) zero_of_fresh [OF wf small names P k q t(1)] by blast
    with Suc.IH [OF k q t] show "call_safe ?C nm' fs'"
      unfolding call_safe_def by (simp del: shaped.simps split_paired_All)
  qed
  from rep have l2: "list_all2 (field_rep P (struct_ty k P) c) (all_fields c) fs"
    by (simp add: container_rep_def)
  from srows_exist [of G, OF l2 [unfolded P] ty [unfolded P] flat Suc.prems(3) _ Suc.prems(5)] Suc.prems(4)
  obtain rs where rs: "map fst rs = all_fields c" "infos_of c (all_fields c) = map srow_info rs"
    "map srow_ty rs = map snd fs" "\<forall>r \<in> set rs. srow_ok G (struct_ty k P) r" by (auto simp: P)
  have row_names: "map (srow_name G) rs = map (\<lambda>p. go_Field G (field_at P p)) (all_fields c)"
    using rs(1) by (simp add: srow_name_def P flip: rs(1))
  have members: "map fst (dd_fields (go_ddecl G c)) = map (srow_name G) rs"
    by (simp add: go_ddecl_def rs(2) srow_name_def)
  have dist': "distinct (map (srow_name G) rs)" using dist row_names by simp
  from Suc.prems(6) obtain ws where v: "v = VStruct nm ws" "all_shaped fs ws" by auto
  let ?m = "map_of (zip (map (srow_name G) rs) ws)"
  have len: "length ws = length rs" "length fs = length rs"
    using list_all2_lengthD [OF v(2) [unfolded all_shaped_list]] rs(3) by (metis length_map)+
  have m: "members_ok G rs ?m"
    unfolding members_ok_def
  proof
    fix r assume "r \<in> set rs"
    then obtain j where j: "j < length rs" "rs ! j = r" by (auto simp: in_set_conv_nth)
    have "?m (map (srow_name G) rs ! j) = Some (ws ! j)"
      by (rule map_of_zip_nth) (use dist' len j in simp_all)
    moreover have "shaped (snd (fs ! j)) (ws ! j)"
      using v(2) j len by (simp add: all_shaped_list list_all2_conv_all_nth)
    moreover have "snd (fs ! j) = srow_ty r" using rs(3) j len by (metis nth_map)
    ultimately show "\<exists>v. ?m (srow_name G r) = Some v \<and> shaped (srow_ty r) v" using j by auto
  qed
  have static: "unat (static_size c) = sum_list (map srow_width rs)"
    using rep Suc.prems(4) static_len_widths [OF rs(3)] by (simp add: container_rep_def unat_of_nat)
  have "any_variable fs \<longleftrightarrow> (\<exists>t \<in> set (map snd fs). is_variable t)" by (force simp: any_variable_iff)
  also have "\<dots> \<longleftrightarrow> (\<exists>t \<in> set (map srow_ty rs). is_variable t)" by (simp only: rs(3))
  finally have dyn: "dynamic_fields c = [] \<longleftrightarrow> (\<forall>r \<in> set rs. \<not> is_variable (srow_ty r))"
    using dynamic_fields_empty [OF rep] by simp
  have body: "ok_res (\<lambda>fr. \<exists>m' env. fr = frm m' env buf \<and> members_ok G rs m')
      (dexecs ?C (unmarshal_body G c) (frm ?m [] buf))"
    by (rule unmarshal_body_safe [OF C [unfolded P] _ m dist' rs(2) dyn static Suc.prems(7)])
      (use rs(4) P in simp)
  have close: "shaped (TContainer nm fs) (close_recv (go_ddecl G c) nm (Some m'))"
    if "members_ok G rs m'" for m'
  proof -
    let ?g = "\<lambda>x. case m' x of None \<Rightarrow> VNil | Some v \<Rightarrow> v"
    have vals: "map (\<lambda>f. ?g (fst f)) (dd_fields (go_ddecl G c)) = map ?g (map (srow_name G) rs)"
      by (simp flip: members)
    have "list_all2 (\<lambda>f w. shaped (snd f) w) fs (map ?g (map (srow_name G) rs))"
    proof (rule list_all2_all_nthI)
      fix j assume j: "j < length fs"
      then have "rs ! j \<in> set rs" using len by simp
      with that obtain w where "m' (srow_name G (rs ! j)) = Some w" "shaped (srow_ty (rs ! j)) w"
        unfolding members_ok_def by blast
      moreover have "snd (fs ! j) = srow_ty (rs ! j)" using rs(3) j len by (metis nth_map)
      ultimately show "shaped (snd (fs ! j)) (map ?g (map (srow_name G) rs) ! j)" using j len by simp
    qed (use len in simp)
    with vals show ?thesis by (simp add: close_recv_def all_shaped_list)
  qed
  have "open_recv (go_ddecl G c) v = Some (Some ?m)" using v members by simp
  moreover have "dd_unmarshal (go_ddecl G c) = unmarshal_body G c" by (simp add: go_ddecl_def)
  moreover have "ok_res (shaped (TContainer nm fs)) (go_map (\<lambda>fr. close_recv (go_ddecl G c) nm (df_recv fr))
      (dexecs ?C (unmarshal_body G c) (frm ?m [] buf)))"
    by (rule ok_map, rule ok_mono [OF body]) (use close in auto)
  ultimately show ?case using prog by (simp del: shaped.simps)
qed simp

end
