(* ===== verification/Rust_Decode_Safe.thy ===== *)
theory Rust_Decode_Safe
  imports Rust_Decode Go_Decode_Safe
begin

text \<open>
  The emitted \<open>from_ssz_bytes\<close> on bytes that nobody has checked: for the types without lists of
  variable-size elements it does not panic, and what it returns is a value of the type.
\<close>

section \<open>Expressions on any bytes\<close>

lemma with_slice_in:
  assumes "eval_pos bs offs a = Done x" and "eval_pos bs offs b = Done y" and "x \<le> y" and "y \<le> length bs"
  shows "with_slice bs offs a b f = f (take (y - x) (drop x bs))" and "length (take (y - x) (drop x bs)) = y - x"
  using assms by (simp_all add: with_slice_def sub_slice_def)

lemma sub_slice_in:
  "x \<le> y \<Longrightarrow> y \<le> length bs \<Longrightarrow> sub_slice bs x y = Done (take (y - x) (drop x bs))"
  by (simp add: sub_slice_def)

lemma le_val_bound: "le_val bs < 256 ^ length bs"
proof (induction bs)
  case (Cons b bs)
  have "unat b < 256" using unsigned_less [of b] by simp
  with Cons.IH show ?case by simp
qed simp

lemma ok_push_all:
  "(\<And>x. x \<in> set xs \<Longrightarrow> ok_res Q (f x)) \<Longrightarrow> ok_res (\<lambda>ys. \<forall>y \<in> set ys. Q y) (push_all f xs)"
proof (induction xs)
  case (Cons x xs)
  have "ok_res (\<lambda>ys. \<forall>y \<in> set ys. Q y) (go_bind (f x) (\<lambda>y. go_map ((#) y) (push_all f xs)))"
    by (rule ok_bind [where R = Q]) (use Cons in \<open>auto intro!: ok_map elim!: ok_mono\<close>)
  then show ?case by simp
qed simp

text \<open>The contract of a call: no panic, and a value of the type.\<close>

definition calls_typed :: "struct_types \<Rightarrow> rcalls \<Rightarrow> bool" where
  "calls_typed st C \<longleftrightarrow>
     (\<forall>q nm fs bs. st q = Some (TContainer nm fs) \<longrightarrow> fields_bits_ok fs \<longrightarrow> size_ok (TContainer nm fs) \<longrightarrow>
        fields_readable fs \<longrightarrow> fields_panic_free fs \<longrightarrow> ok_res (val_ok (TContainer nm fs)) (C nm bs))"

lemma calls_typed_call:
  assumes "calls_typed st C" and "named_types P st" and "info_rep st i (TContainer nm fs)" and "fields_bits_ok fs"
    and "size_ok (TContainer nm fs)" and "fields_readable fs" and "fields_panic_free fs"
  shows "ok_res (val_ok (TContainer nm fs)) (C (info_struct_name P d i) bs)"
proof -
  from assms(3) obtain q where q: "info_struct i = Some q" "st q = Some (TContainer nm fs)" by auto
  with assms(2) have "info_struct_name P d i = nm" by (simp add: info_struct_name_def named_types_def)
  with assms(1,4-7) q(2) show ?thesis unfolding calls_typed_def by simp
qed

lemma fixed_read_safe:
  assumes C: "calls_typed st C" "named_types P st" and rep: "info_rep st i t" and flat: "flat_ty t"
    and t: "bits_ok t" "size_ok t" "readable t" "panic_free t" and fixed: "\<not> is_variable t"
    and fit: "unat off + fixed_len t < 2 ^ 32" "unat off + fixed_len t \<le> length bs"
  shows "ok_res (val_ok t) (eval_read C bs offs (fixed_read P i off))"
proof -
  let ?sl = "take (fixed_len t) (drop (unat off) bs)"
  have e: "unat (off + fixed_size i) = unat off + fixed_len t"
    using unat_offset [OF fit(1)] info_rep_fixed [OF rep fixed] by simp
  have sl: "length ?sl = fixed_len t" using fit(2) by simp
  have range: "with_slice bs offs (RNum off) (RNum (off + fixed_size i)) f = f ?sl" for f :: "byte list \<Rightarrow> val gores"
    using with_slice_in(1) [of bs offs "RNum off" "unat off" "RNum (off + fixed_size i)" "unat off + fixed_len t" f] e fit(2)
    by simp
  show ?thesis
  proof (cases t)
    case TBool
    with rep fit(2) show ?thesis by (simp add: fixed_read_def read_byte_def)
  next
    case (TUint k)
    have le: "le_val ?sl < 256 ^ k" using le_val_bound [of ?sl] sl TUint by simp
    from TUint flat consider "k = 1" | "k = 2" | "k = 4" | "k = 8" by auto
    then show ?thesis
    proof cases
      case 1
      have "unat (bs ! unat off) < 256" using unsigned_less [of "bs ! unat off"] by simp
      with 1 TUint rep fit(2) show ?thesis by (simp add: fixed_read_def read_byte_def Let_def)
    qed (use TUint rep range le sl in \<open>simp_all add: fixed_read_def to_array_def Let_def\<close>)
  next
    case (TVector u n)
    from TVector rep t(3) obtain e where "elem_info i = Some e" "ssz_type e = SszUint8" by (auto simp: is_byte_ty_def)
    with TVector rep range sl t(3) show ?thesis
      by (auto simp: fixed_read_def Let_def array_len_def elem_is_def to_array_def unat_of_nat is_byte_ty_def)
  next
    case (TBitvector n)
    have "unat ((bitsize i + 7) div 8) = (n + 7) div 8"
      using TBitvector rep t(1) by (simp add: unat_div unat_word_ariths)
    with TBitvector rep range sl show ?thesis
      by (simp add: fixed_read_def Let_def array_len_def to_array_def)
  next
    case (TContainer nm fs)
    with calls_typed_call [OF C, of i nm fs "''''" ?sl] rep t have
      "ok_res (val_ok (TContainer nm fs)) (C (info_struct_name P '''' i) ?sl)" by simp
    with TContainer rep range show ?thesis by (simp add: fixed_read_def Let_def)
  qed (use fixed in auto)
qed

section \<open>Lists\<close>

lemma chunk_in:
  fixes j :: nat
  assumes "j < length sl div k"
  shows "(j + 1) * k \<le> length sl"
proof -
  have "(j + 1) * k \<le> length sl div k * k" using assms by (intro mult_le_mono1) simp
  also have "\<dots> \<le> length sl" by simp
  finally show ?thesis .
qed

lemma read_chunks_safe:
  assumes "0 < k" and "\<And>j. j < length sl div k \<Longrightarrow> ok_res Q (read_elem C sl j (j * k) ((j + 1) * k) el)"
  shows "ok_res (\<lambda>v. \<exists>xs. v = VSeq xs \<and> (\<forall>x \<in> set xs. Q x)) (read_chunks C k el sl)"
proof -
  have "ok_res (\<lambda>ys. \<forall>y \<in> set ys. Q y)
      (push_all (\<lambda>j. read_elem C sl j (j * k) ((j + 1) * k) el) [0..<length sl div k])"
    by (rule ok_push_all) (use assms(2) in simp)
  with assms(1) show ?thesis by (auto simp: read_chunks_def intro!: ok_map elim!: ok_mono)
qed

lemma list_read_safe:
  assumes C: "calls_typed st C" "named_types P st" and e: "elem_info i = Some e" "info_rep st e t"
    and fl: "flat_elem t" and t: "bits_ok t" "size_ok t" "readable t" "panic_free t"
    and fixed: "\<not> is_variable t" "0 < fixed_len t" "fixed_len t < 2 ^ 32"
    and rng: "\<And>f :: byte list \<Rightarrow> val gores. with_slice bs offs a b f = f sl"
  shows "ok_res (\<lambda>v. if is_byte_ty t then \<exists>bs. v = VBytes bs else \<exists>xs. v = VSeq xs \<and> (\<forall>x \<in> set xs. val_ok t x))
    (eval_read C bs offs (list_read P i a b))"
  using e(2) fl
proof (cases rule: flat_elem_cases)
  case byte
  with e(1) rng show ?thesis by (simp add: list_read_def)
next
  case prim
  have k: "unat (fixed_size e) = fixed_len t" using prim e fl by (auto split: if_splits)
  show ?thesis
  proof (cases "t = TBool")
    case True
    have "ok_res (\<lambda>v. \<exists>xs. v = VSeq xs \<and> (\<forall>x \<in> set xs. val_ok t x)) (read_chunks C (unat (fixed_size e)) EBool sl)"
      by (rule read_chunks_safe) (use True k in \<open>simp_all add: read_byte_def\<close>)
    with True e rng prim(1) show ?thesis by (simp add: list_read_def)
  next
    case False
    with prim obtain n where n: "t = TUint n" by auto
    have el: "ok_res (\<lambda>v. \<exists>xs. v = VSeq xs \<and> (\<forall>x \<in> set xs. val_ok t x))
        (read_chunks C (unat (fixed_size e)) (EUint w) sl)" if "w div 8 = n" for w
    proof (rule read_chunks_safe)
      fix j assume "j < length sl div unat (fixed_size e)"
      from chunk_in [OF this] k n have j: "(j + 1) * n \<le> length sl" by simp
      have "length (take n (drop (j * n) sl)) = n" using j by simp
      with le_val_bound [of "take n (drop (j * n) sl)"] j that k n
      show "ok_res (val_ok t) (read_elem C sl j (j * unat (fixed_size e)) ((j + 1) * unat (fixed_size e)) (EUint w))"
        by (simp add: read_uint_def sub_slice_def to_array_def)
    qed (use k fixed in simp)
    from n fl prim consider "n = 2" | "n = 4" | "n = 8" by (auto simp: is_byte_ty_def)
    then show ?thesis
      by cases (use el [of 16] el [of 32] el [of 64] n e rng prim(1) in \<open>simp_all add: list_read_def\<close>)
  qed
next
  case (cont nm fs)
  have k: "unat (fixed_size e) = fixed_len t" using unat_fixed_size [OF e(2) fixed(1)] fixed(3) by simp
  have "ok_res (\<lambda>v. \<exists>xs. v = VSeq xs \<and> (\<forall>x \<in> set xs. val_ok t x))
      (read_chunks C (unat (fixed_size e)) (ECall (info_struct_name P '''' e)) sl)"
  proof (rule read_chunks_safe)
    fix j assume "j < length sl div unat (fixed_size e)"
    from chunk_in [OF this] k have j: "(j + 1) * fixed_len t \<le> length sl" by simp
    have "sub_slice sl (j * fixed_len t) ((j + 1) * fixed_len t) =
        Done (take ((j + 1) * fixed_len t - j * fixed_len t) (drop (j * fixed_len t) sl))"
      by (rule sub_slice_in) (use j in simp_all)
    with calls_typed_call [OF C e(2) [unfolded cont(1)], of "''''"] cont(1) t k
    show "ok_res (val_ok t) (read_elem C sl j (j * unat (fixed_size e)) ((j + 1) * unat (fixed_size e))
        (ECall (info_struct_name P '''' e)))" by (simp del: val_ok.simps)
  qed (use k fixed in simp)
  with cont e rng fixed(1) info_rep_dynamic [OF e(2)] show ?thesis
    by (simp add: list_read_def is_byte_ty_def del: val_ok.simps)
next
  case (bytes l)
  with fixed(1) show ?thesis by simp
qed

lemma dyn_read_safe:
  assumes C: "calls_typed st C" "named_types P st" and rep: "info_rep st i t" and flat: "flat_ty t"
    and var: "is_variable t" and t: "bits_ok t" "size_ok t" "readable t" "panic_free t"
    and pos: "eval_pos bs offs a = Done x" "eval_pos bs offs b = Done y" "x \<le> y" "y \<le> length bs"
  shows "ok_res (val_ok t) (eval_read C bs offs (dyn_read P i a b))"
proof -
  let ?sl = "take (y - x) (drop x bs)"
  have rng: "with_slice bs offs a b f = f ?sl" for f :: "byte list \<Rightarrow> val gores"
    by (rule with_slice_in(1) [OF pos])
  show ?thesis
  proof (cases t)
    case (TList t' l)
    with rep obtain e where e: "elem_info i = Some e" "info_rep st e t'" by auto
    have "ok_res (\<lambda>v. if is_byte_ty t' then \<exists>bs. v = VBytes bs else \<exists>xs. v = VSeq xs \<and> (\<forall>x \<in> set xs. val_ok t' x))
        (eval_read C bs offs (list_read P i a b))"
      by (rule list_read_safe [OF C e _ _ _ _ _ _ _ _ rng]) (use TList rep flat t in auto)
    moreover have "val_ok t = (\<lambda>v. if is_byte_ty t' then \<exists>bs. v = VBytes bs
        else \<exists>xs. v = VSeq xs \<and> (\<forall>x \<in> set xs. val_ok t' x))"
      using TList by (intro ext) simp
    ultimately show ?thesis using TList rep by (simp add: dyn_read_def del: val_ok.simps)
  next
    case (TProgressiveList t')
    with rep obtain e where e: "elem_info i = Some e" "info_rep st e t'" by auto
    have "ok_res (\<lambda>v. if is_byte_ty t' then \<exists>bs. v = VBytes bs else \<exists>xs. v = VSeq xs \<and> (\<forall>x \<in> set xs. val_ok t' x))
        (eval_read C bs offs (list_read P i a b))"
      by (rule list_read_safe [OF C e _ _ _ _ _ _ _ _ rng]) (use TProgressiveList rep flat t in auto)
    moreover have "val_ok t = (\<lambda>v. if is_byte_ty t' then \<exists>bs. v = VBytes bs
        else \<exists>xs. v = VSeq xs \<and> (\<forall>x \<in> set xs. val_ok t' x))"
      using TProgressiveList by (intro ext) simp
    ultimately show ?thesis using TProgressiveList rep by (simp add: dyn_read_def del: val_ok.simps)
  next
    case (TBitlist l)
    with rep rng show ?thesis by (simp add: dyn_read_def)
  next
    case (TContainer nm fs)
    with calls_typed_call [OF C, of i nm fs "''''" ?sl] rep t have
      "ok_res (val_ok (TContainer nm fs)) (C (info_struct_name P '''' i) ?sl)" by simp
    with TContainer rep rng show ?thesis by (simp add: dyn_read_def)
  next
    case (TVector t' n)
    with rep var show ?thesis by auto
  qed (use var t flat in auto)
qed

section \<open>The fields of a container\<close>

definition rust_srow_name :: "Parser \<Rightarrow> srow \<Rightarrow> string" where
  "rust_srow_name P r = rust_member P (fst r)"

definition rust_srow_ok :: "struct_types \<Rightarrow> srow \<Rightarrow> bool" where
  "rust_srow_ok st r \<longleftrightarrow>
     info_rep st (fst (snd r)) (srow_ty r) \<and> flat_ty (srow_ty r) \<and> bits_ok (srow_ty r) \<and>
     size_ok (srow_ty r) \<and> readable (srow_ty r) \<and> panic_free (srow_ty r)"

lemma rust_srow_facts:
  assumes "rust_srow_ok st r"
  shows "is_dynamic (fst (snd r)) = is_variable (srow_ty r)"
    and "\<not> is_variable (srow_ty r) \<Longrightarrow> unat off + srow_width r < 2 ^ 32 \<Longrightarrow>
      unat (off + fixed_size (fst (snd r))) = unat off + srow_width r"
  using assms info_rep_dynamic info_rep_fixed by (auto simp: rust_srow_ok_def srow_width_def unat_offset)

text \<open>The members after the rows have been read: a value of its type in each, the others as before.\<close>

definition filled :: "(srow \<Rightarrow> string) \<Rightarrow> srow list \<Rightarrow> (string \<rightharpoonup> val) \<Rightarrow> (string \<rightharpoonup> val) \<Rightarrow> bool" where
  "filled nm rs m m' \<longleftrightarrow>
     (\<forall>r \<in> set rs. \<exists>v. m' (nm r) = Some v \<and> val_ok (srow_ty r) v) \<and> (\<forall>x. x \<notin> nm ` set rs \<longrightarrow> m' x = m x)"

lemma filled_Nil: "filled nm [] m m"
  by (simp add: filled_def)

lemma filled_Cons:
  assumes "filled nm rs (m(nm r \<mapsto> v)) m'" and "val_ok (srow_ty r) v" and "nm r \<notin> nm ` set rs"
  shows "filled nm (r # rs) m m'"
  using assms by (auto simp: filled_def)

lemma filled_split:
  assumes "filled nm (filter (\<lambda>r. \<not> Q r) rs) m m1" and "filled nm (filter Q rs) m1 m2"
    and "distinct (map nm rs)"
  shows "filled nm rs m m2"
proof -
  have apart: "nm r \<notin> nm ` set (filter Q rs)" if "r \<in> set rs" "\<not> Q r" for r
    using assms(3) that by (auto simp: distinct_map dest: inj_onD)
  have "\<exists>v. m2 (nm r) = Some v \<and> val_ok (srow_ty r) v" if "r \<in> set rs" for r
  proof (cases "Q r")
    case True
    with that have "r \<in> set (filter Q rs)" by simp
    with assms(2) show ?thesis unfolding filled_def by blast
  next
    case False
    with that have "r \<in> set (filter (\<lambda>r. \<not> Q r) rs)" by simp
    with assms(1) obtain v where "m1 (nm r) = Some v" "val_ok (srow_ty r) v" unfolding filled_def by blast
    moreover have "m2 (nm r) = m1 (nm r)" using assms(2) apart [OF that False] unfolding filled_def by blast
    ultimately show ?thesis by simp
  qed
  moreover have "m2 x = m x" if "x \<notin> nm ` set rs" for x
  proof -
    from that have "x \<notin> nm ` set (filter Q rs)" "x \<notin> nm ` set (filter (\<lambda>r. \<not> Q r) rs)" by auto
    with assms(1,2) show ?thesis unfolding filled_def by metis
  qed
  ultimately show ?thesis unfolding filled_def by blast
qed

lemma fixed_set_safe:
  assumes C: "calls_typed st C" "named_types P st" and r: "rust_srow_ok st r" "\<not> is_variable (srow_ty r)"
    and fit: "unat off + srow_width r < 2 ^ 32" "unat off + srow_width r \<le> length bs"
  shows "ok_res (\<lambda>fr. \<exists>v. fr = rfrm offs (m(rust_srow_name P r \<mapsto> v)) \<and> val_ok (srow_ty r) v)
    (rexec C bs (RSet (rust_srow_name P r) (fixed_read P (fst (snd r)) off)) (rfrm offs m))"
proof -
  have "ok_res (val_ok (srow_ty r)) (eval_read C bs offs (fixed_read P (fst (snd r)) off))"
    by (rule fixed_read_safe [OF C _ _ _ _ _ _ r(2)]) (use r fit in \<open>auto simp: rust_srow_ok_def srow_width_def\<close>)
  then show ?thesis by (auto intro!: ok_bind)
qed

lemma literal_safe:
  assumes C: "calls_typed st C" "named_types P st"
    and "\<forall>r \<in> set rs. rust_srow_ok st r \<and> \<not> is_variable (srow_ty r)" and "distinct (map (rust_srow_name P) rs)"
    and "unat off + sum_list (map srow_width rs) \<le> length bs" and "unat off + sum_list (map srow_width rs) < 2 ^ 32"
  shows "ok_res (\<lambda>fr. \<exists>m'. fr = rfrm offs m' \<and> filled (rust_srow_name P) rs m m')
    (rexecs C bs (map (\<lambda>(f, e). RSet f e) (literal_fields P off (map srow_info rs))) (rfrm offs m))"
  using assms(3-)
proof (induction rs arbitrary: off m)
  case (Cons r rs)
  have r: "rust_srow_ok st r" "\<not> is_variable (srow_ty r)" using Cons.prems(1) by auto
  have fit: "unat off + srow_width r < 2 ^ 32" "unat off + srow_width r \<le> length bs" using Cons.prems(3,4) by auto
  note off = rust_srow_facts(2) [OF r fit(1)]
  have rest: "ok_res (\<lambda>fr. \<exists>m'. fr = rfrm offs m' \<and> filled (rust_srow_name P) (r # rs) m m')
      (rexecs C bs (map (\<lambda>(f, e). RSet f e) (literal_fields P (off + fixed_size (fst (snd r))) (map srow_info rs)))
        (rfrm offs (m(rust_srow_name P r \<mapsto> v))))" if "val_ok (srow_ty r) v" for v
    by (rule ok_mono [OF Cons.IH])
      (use Cons.prems off that in \<open>auto simp: fun_upd_def intro!: filled_Cons\<close>)
  have "ok_res (\<lambda>fr. \<exists>m'. fr = rfrm offs m' \<and> filled (rust_srow_name P) (r # rs) m m')
      (go_bind (rexec C bs (RSet (rust_srow_name P r) (fixed_read P (fst (snd r)) off)) (rfrm offs m))
        (rexecs C bs (map (\<lambda>(f, e). RSet f e) (literal_fields P (off + fixed_size (fst (snd r))) (map srow_info rs)))))"
    by (rule ok_bind [OF fixed_set_safe [OF C r fit]]) (use rest in auto)
  then show ?case by (simp add: rust_srow_name_def [symmetric])
qed (simp add: filled_Nil)

section \<open>Offsets\<close>

text \<open>The first \<open>k\<close> offset variables hold ascending positions of the bytes.\<close>

definition offs_in :: "byte list \<Rightarrow> nat \<Rightarrow> (nat \<rightharpoonup> nat) \<Rightarrow> bool" where
  "offs_in bs k offs \<longleftrightarrow>
     (\<forall>j < k. \<exists>x. offs j = Some x \<and> x \<le> length bs \<and> (\<forall>y. 0 < j \<longrightarrow> offs (j - 1) = Some y \<longrightarrow> y \<le> x))"

lemma offs_in_Suc:
  assumes "offs_in bs k offs" and "x \<le> length bs" and "\<And>y. 0 < k \<Longrightarrow> offs (k - 1) = Some y \<Longrightarrow> y \<le> x"
  shows "offs_in bs (Suc k) (offs(k \<mapsto> x))"
  using assms unfolding offs_in_def by (auto simp: less_Suc_eq)

lemma rust_offset_safe:
  assumes fit: "unat off + 4 < 2 ^ 32" "unat off + 4 \<le> length bs" and offs: "offs_in bs k offs"
    and static: "unat static \<le> length bs"
  shows "ok_res (\<lambda>fr. \<exists>offs'. fr = rfrm offs' m \<and> offs_in bs (Suc k) offs')
    (rexecs C bs [RRead k off, if k = 0 then RFirst static else ROrder k] (rfrm offs m))"
proof -
  have off: "unat (off + 4) = unat off + 4" using unat_offset [of off 4] fit by simp
  define x where "x = le_val (take 4 (drop (unat off) bs))"
  have read: "read_uint 32 bs (unat off) (unat (off + 4)) = Done x"
    using fit(2) off by (simp add: read_uint_def sub_slice_def to_array_def x_def)
  show ?thesis
  proof (cases k)
    case 0
    have "offs_in bs (Suc 0) (offs(0 \<mapsto> x))" if "x = unat static"
      using offs_in_Suc [OF offs, of x] that static 0 by simp
    with 0 read show ?thesis by auto
  next
    case (Suc j)
    with offs obtain y where y: "offs j = Some y" unfolding offs_in_def by blast
    have "offs_in bs (Suc (Suc j)) (offs(Suc j \<mapsto> x))" if "\<not> x < y" "\<not> length bs < x"
      using offs_in_Suc [OF offs, of x] that Suc y by simp
    with Suc read y show ?thesis by auto
  qed
qed

lemma static_reads_safe:
  assumes C: "calls_typed st C" "named_types P st" and static: "unat static \<le> length bs"
    and "\<forall>r \<in> set rs. rust_srow_ok st r" and "distinct (map (rust_srow_name P) rs)" and "offs_in bs k offs"
    and "unat off + sum_list (map srow_width rs) \<le> length bs" and "unat off + sum_list (map srow_width rs) < 2 ^ 32"
  shows "ok_res (\<lambda>fr. \<exists>m' offs'. fr = rfrm offs' m' \<and>
      filled (rust_srow_name P) (filter (\<lambda>r. \<not> is_variable (srow_ty r)) rs) m m' \<and>
      offs_in bs (k + length (filter (\<lambda>r. is_variable (srow_ty r)) rs)) offs')
    (rexecs C bs (static_reads P static off k (map srow_info rs)) (rfrm offs m))"
  using assms(4-)
proof (induction rs arbitrary: off m k offs)
  case (Cons r rs)
  let ?Q = "\<lambda>fr. \<exists>m' offs'. fr = rfrm offs' m' \<and>
      filled (rust_srow_name P) (filter (\<lambda>r. \<not> is_variable (srow_ty r)) (r # rs)) m m' \<and>
      offs_in bs (k + length (filter (\<lambda>r. is_variable (srow_ty r)) (r # rs))) offs'"
  have r: "rust_srow_ok st r" using Cons.prems(1) by auto
  have fit: "unat off + srow_width r < 2 ^ 32" "unat off + srow_width r \<le> length bs" using Cons.prems(4,5) by auto
  note dyn = rust_srow_facts(1) [OF r]
  show ?case
  proof (cases "is_variable (srow_ty r)")
    case True
    then have w: "srow_width r = 4" by (simp add: srow_width_def)
    have off: "unat (off + 4) = unat off + 4" using unat_offset [of off 4] fit w by simp
    have "ok_res ?Q (rexecs C bs (static_reads P static (off + 4) (Suc k) (map srow_info rs)) (rfrm offs' m))"
      if "offs_in bs (Suc k) offs'" for offs'
      by (rule ok_mono [OF Cons.IH [OF _ _ that]]) (use Cons.prems off w True in auto)
    then have "ok_res ?Q (go_bind (rexecs C bs [RRead k off, if k = 0 then RFirst static else ROrder k] (rfrm offs m))
        (rexecs C bs (static_reads P static (off + 4) (Suc k) (map srow_info rs))))"
      by (intro ok_bind [OF rust_offset_safe [OF _ _ Cons.prems(3) static]]) (use fit w in auto)
    with True dyn show ?thesis
      by (simp only: list.map static_reads.simps rexecs_append if_True) simp
  next
    case False
    note off = rust_srow_facts(2) [OF r False fit(1)]
    have "ok_res ?Q (rexecs C bs (static_reads P static (off + fixed_size (fst (snd r))) k (map srow_info rs))
        (rfrm offs (m(rust_srow_name P r \<mapsto> v))))" if "val_ok (srow_ty r) v" for v
      by (rule ok_mono [OF Cons.IH [OF _ _ Cons.prems(3)]])
        (use Cons.prems off that False in \<open>auto simp: fun_upd_def intro!: filled_Cons\<close>)
    then have "ok_res ?Q (go_bind
        (rexec C bs (RSet (rust_srow_name P r) (fixed_read P (fst (snd r)) off)) (rfrm offs m))
        (rexecs C bs (static_reads P static (off + fixed_size (fst (snd r))) k (map srow_info rs))))"
      by (intro ok_bind [OF fixed_set_safe [OF C r False fit]]) auto
    with False dyn show ?thesis by (simp add: rust_srow_name_def [symmetric])
  qed
qed (simp add: filled_Nil)

lemma dynamic_reads_safe:
  assumes C: "calls_typed st C" "named_types P st"
    and "\<forall>r \<in> set rs. rust_srow_ok st r \<and> is_variable (srow_ty r)" and "distinct (map (rust_srow_name P) rs)"
    and "offs_in bs (k + length rs) offs"
  shows "ok_res (\<lambda>fr. \<exists>m'. fr = rfrm offs m' \<and> filled (rust_srow_name P) rs m m')
    (rexecs C bs (dynamic_reads P k (map srow_info rs)) (rfrm offs m))"
  using assms(3-)
proof (induction rs arbitrary: k m)
  case (Cons r rs)
  let ?fin = "if rs = [] then RLen else ROff (Suc k)" and ?f = "rust_srow_name P r"
  let ?Q = "\<lambda>fr. \<exists>m'. fr = rfrm offs m' \<and> filled (rust_srow_name P) (r # rs) m m'"
  have r: "rust_srow_ok st r" "is_variable (srow_ty r)" using Cons.prems(1) by auto
  have "k < k + length (r # rs)" by simp
  with Cons.prems(3) obtain x where x: "offs k = Some x" "x \<le> length bs" unfolding offs_in_def by blast
  obtain y where y: "eval_pos bs offs ?fin = Done y" "x \<le> y" "y \<le> length bs"
  proof (cases "rs = []")
    case True
    with x that show thesis by simp
  next
    case False
    then have "Suc k < k + length (r # rs)" by (cases rs) auto
    with Cons.prems(3) obtain z where "offs (Suc k) = Some z" "z \<le> length bs"
      "\<forall>y. offs (Suc k - 1) = Some y \<longrightarrow> y \<le> z" unfolding offs_in_def by blast
    with False x that show thesis by simp
  qed
  have "ok_res (val_ok (srow_ty r)) (eval_read C bs offs (dyn_read P (fst (snd r)) (ROff k) ?fin))"
    by (rule dyn_read_safe [OF C _ _ r(2) _ _ _ _ _ y]) (use r x in \<open>auto simp: rust_srow_ok_def\<close>)
  then have one: "ok_res (\<lambda>fr. \<exists>v. fr = rfrm offs (m(?f \<mapsto> v)) \<and> val_ok (srow_ty r) v)
      (rexec C bs (RSet ?f (dyn_read P (fst (snd r)) (ROff k) ?fin)) (rfrm offs m))"
    by (auto intro!: ok_bind)
  have "ok_res ?Q (rexecs C bs (dynamic_reads P (Suc k) (map srow_info rs)) (rfrm offs (m(?f \<mapsto> v))))"
    if "val_ok (srow_ty r) v" for v
    by (rule ok_mono [OF Cons.IH]) (use Cons.prems that in \<open>auto simp: fun_upd_def intro!: filled_Cons\<close>)
  then have "ok_res ?Q (go_bind
      (rexec C bs (RSet ?f (dyn_read P (fst (snd r)) (ROff k) ?fin)) (rfrm offs m))
      (rexecs C bs (dynamic_reads P (Suc k) (map srow_info rs))))"
    by (intro ok_bind [OF one]) auto
  then show ?case by (cases "rs = []") (simp_all add: rust_srow_name_def [symmetric])
qed (simp add: filled_Nil)

section \<open>The program on any bytes\<close>

lemma rust_dynamic_of_srows:
  "\<forall>r \<in> set rs. rust_srow_ok st r \<Longrightarrow>
   dynamic_of (map srow_info rs) = map srow_info (filter (\<lambda>r. is_variable (srow_ty r)) rs)"
  using rust_srow_facts(1) by (induction rs) (auto simp: dynamic_of_def)

lemma build_typed:
  assumes "infos_of c (all_fields c) = map srow_info rs" and "map srow_ty rs = map snd fs"
    and "\<forall>r \<in> set rs. \<exists>v. m (rust_srow_name P r) = Some v \<and> val_ok (srow_ty r) v"
  shows "ok_res (val_ok (TContainer nm fs)) (build (rust_rdecl P c) nm m)"
proof -
  have "ok_res (vals_ok fs) (push_all (\<lambda>(f, v). or_panic (m f))
      (map (\<lambda>r. (rust_srow_name P r, \<lambda>Z. rust_default_value P Z (fst (snd r)))) rs))"
    using assms(2,3)
  proof (induction rs arbitrary: fs)
    case (Cons r rs)
    from Cons.prems(1) obtain f fs' where fs: "fs = f # fs'" "snd f = srow_ty r" "map srow_ty rs = map snd fs'"
      by (cases fs) auto
    from Cons.prems(2) obtain v where "m (rust_srow_name P r) = Some v" "val_ok (srow_ty r) v" by auto
    with Cons.IH [OF fs(3)] Cons.prems(2) fs(1,2) show ?case
      by (cases f) (auto intro!: ok_map elim!: ok_mono)
  qed simp
  then have "ok_res (val_ok (TContainer nm fs)) (go_map (VStruct nm) (push_all (\<lambda>(f, v). or_panic (m f))
      (map (\<lambda>r. (rust_srow_name P r, \<lambda>Z. rust_default_value P Z (fst (snd r)))) rs)))"
    by (auto intro!: ok_map elim!: ok_mono)
  with assms(1) show ?thesis by (simp add: build_def rust_rdecl_def rust_srow_name_def comp_def del: val_ok.simps)
qed

lemma run_body_safe:
  assumes C: "calls_typed st C" "named_types P st" and ok: "\<forall>r \<in> set rs. rust_srow_ok st r"
    and dist: "distinct (map (rust_srow_name P) rs)" and infos: "infos_of c (all_fields c) = map srow_info rs"
    and tys: "map srow_ty rs = map snd fs"
    and dyn: "dynamic_fields c = [] \<longleftrightarrow> (\<forall>r \<in> set rs. \<not> is_variable (srow_ty r))"
    and static: "unat (static_size c) = sum_list (map srow_width rs)"
  shows "ok_res (val_ok (TContainer nm fs)) (run_body C Z (rust_rdecl P c) nm bs)"
proof (cases "length bs < unat (static_size c)")
  case True
  then show ?thesis
    by (cases "dynamic_fields c = []") (simp_all add: rust_rdecl_def from_body_def Let_def)
next
  case len: False
  let ?nm = "rust_srow_name P"
  have fit: "unat (0::u32) + sum_list (map srow_width rs) \<le> length bs"
    "unat (0::u32) + sum_list (map srow_width rs) < 2 ^ 32"
    using len static unat_bound [of "static_size c"] by simp_all
  have build: "ok_res (val_ok (TContainer nm fs)) (build (rust_rdecl P c) nm m')" if "filled ?nm rs m m'" for m m'
    by (rule build_typed [OF infos tys]) (use that in \<open>simp add: filled_def\<close>)
  show ?thesis
  proof (cases "\<forall>r \<in> set rs. \<not> is_variable (srow_ty r)")
    case True
    have "ok_res (\<lambda>fr. \<exists>m'. fr = rfrm Map.empty m' \<and> filled ?nm rs Map.empty m')
        (rexecs C bs (map (\<lambda>(f, e). RSet f e) (literal_fields P 0 (map srow_info rs))) (rfrm Map.empty Map.empty))"
      by (rule literal_safe [OF C _ dist fit]) (use ok True in auto)
    then have "ok_res (val_ok (TContainer nm fs)) (go_bind
        (rexecs C bs (map (\<lambda>(f, e). RSet f e) (literal_fields P 0 (map srow_info rs))) (rfrm Map.empty Map.empty))
        (\<lambda>fr. build (rust_rdecl P c) nm (rf_mem fr)))"
      by (rule ok_bind) (use build in \<open>auto simp del: val_ok.simps\<close>)
    moreover have "rd_body (rust_rdecl P c) = RLiteral (static_size c) (literal_fields P 0 (map srow_info rs))"
      using True dyn infos by (simp add: rust_rdecl_def from_body_def Let_def)
    ultimately show ?thesis using len by (simp del: val_ok.simps)
  next
    case False
    let ?var = "filter (\<lambda>r. is_variable (srow_ty r)) rs" and ?fixed = "filter (\<lambda>r. \<not> is_variable (srow_ty r)) rs"
    define m0 where "m0 = map_of (map (\<lambda>(f, v). (f, v Z)) (rd_fields (rust_rdecl P c)))"
    have le: "unat (static_size c) \<le> length bs" using len by simp
    have none: "offs_in bs 0 Map.empty" by (simp add: offs_in_def)
    have two: "ok_res (\<lambda>fr. filled ?nm rs m0 (rf_mem fr))
        (rexecs C bs (dynamic_reads P 0 (map srow_info ?var)) (rfrm offs m1))"
      if "filled ?nm ?fixed m0 m1" "offs_in bs (0 + length ?var) offs" for offs m1
    proof (rule ok_mono [OF dynamic_reads_safe [OF C _ _ that(2)]])
      fix fr assume "\<exists>m'. fr = rfrm offs m' \<and> filled ?nm ?var m1 m'"
      then show "filled ?nm rs m0 (rf_mem fr)" using filled_split [OF that(1) _ dist] by auto
    qed (use ok dist in \<open>auto simp: distinct_map_filter\<close>)
    have "ok_res (\<lambda>fr. filled ?nm rs m0 (rf_mem fr)) (go_bind
        (rexecs C bs (static_reads P (static_size c) 0 0 (map srow_info rs)) (rfrm Map.empty m0))
        (rexecs C bs (dynamic_reads P 0 (map srow_info ?var))))"
      by (rule ok_bind [OF static_reads_safe [OF C le ok dist none fit]]) (use two in auto)
    then have "ok_res (val_ok (TContainer nm fs)) (go_bind (go_bind
        (rexecs C bs (static_reads P (static_size c) 0 0 (map srow_info rs)) (rfrm Map.empty m0))
        (rexecs C bs (dynamic_reads P 0 (map srow_info ?var))))
        (\<lambda>fr. build (rust_rdecl P c) nm (rf_mem fr)))"
      by (rule ok_bind) (rule build)
    moreover have "rd_body (rust_rdecl P c) = RAssigns (RGuard (static_size c) #
        static_reads P (static_size c) 0 0 (map srow_info rs) @ dynamic_reads P 0 (map srow_info ?var))"
      using False dyn infos rust_dynamic_of_srows [OF ok] by (simp add: rust_rdecl_def from_body_def Let_def)
    ultimately show ?thesis using len by (simp add: m0_def del: val_ok.simps)
  qed
qed

text \<open>Conditions on all fields.\<close>

lemma fields_all:
  "fields_bits_ok fs \<longleftrightarrow> (\<forall>f \<in> set fs. bits_ok (snd f))" "fields_size_ok fs \<longleftrightarrow> (\<forall>f \<in> set fs. size_ok (snd f))"
  "fields_readable fs \<longleftrightarrow> (\<forall>f \<in> set fs. readable (snd f))"
  "fields_panic_free fs \<longleftrightarrow> (\<forall>f \<in> set fs. panic_free (snd f))"
  by (induction fs) auto

lemma rust_srows:
  assumes "list_all2 (field_rep P st c) ps fs" and "\<forall>f \<in> set fs. Q (snd f)"
  shows "\<exists>rs. map fst rs = ps \<and> infos_of c ps = map srow_info rs \<and> map srow_ty rs = map snd fs \<and>
    (\<forall>r \<in> set rs. info_rep st (fst (snd r)) (srow_ty r) \<and> Q (srow_ty r))"
  using assms
proof (induction ps arbitrary: fs)
  case (Cons p ps)
  from Cons.prems(1) obtain n t fs' where fs: "fs = (n, t) # fs'"
    and rep: "field_rep P st c p (n, t)" "list_all2 (field_rep P st c) ps fs'"
    by (cases fs) auto
  from rep(1) obtain i where i: "field_infos c p = Some i" "info_rep st i t" by (auto simp: field_rep_def)
  from Cons.IH [OF rep(2)] Cons.prems(2) fs obtain rs where rs: "map fst rs = ps" "infos_of c ps = map srow_info rs"
    "map srow_ty rs = map snd fs'" "\<forall>r \<in> set rs. info_rep st (fst (snd r)) (srow_ty r) \<and> Q (srow_ty r)" by auto
  with fs i Cons.prems(2) show ?case by (intro exI [of _ "(p, i, t) # rs"]) simp
qed simp

lemma srows_variable:
  assumes "map srow_ty rs = map snd fs"
  shows "any_variable fs \<longleftrightarrow> (\<exists>r \<in> set rs. is_variable (srow_ty r))"
proof -
  have "any_variable fs \<longleftrightarrow> (\<exists>t \<in> set (map snd fs). is_variable t)" by (force simp: any_variable_iff)
  also have "\<dots> \<longleftrightarrow> (\<exists>t \<in> set (map srow_ty rs). is_variable t)" by (simp only: assms)
  finally show ?thesis by simp
qed

lemma from_safe:
  assumes wf: "wf_schema P" and small: "small_ids P" and names: "names_ok (rust_dialect P) P"
  shows "n \<le> depth \<Longrightarrow> struct_ty n P s = Some (TContainer nm fs) \<Longrightarrow> fields_bits_ok fs \<Longrightarrow>
    size_ok (TContainer nm fs) \<Longrightarrow> fields_readable fs \<Longrightarrow> fields_panic_free fs \<Longrightarrow>
    ok_res (val_ok (TContainer nm fs)) (from_ssz_bytes (rust_rprogram depth P) n nm bs)"
proof (induction n arbitrary: s nm fs bs)
  case (Suc k)
  from rust_rprogram_decl [OF wf small names Suc.prems(1-3)] obtain c where
    prog: "rust_rprogram depth P nm = Some (rust_rdecl P c)"
    and rep: "container_rep P (struct_ty k P) c fs" and flat: "\<forall>f \<in> set fs. flat_ty (snd f)"
    and mem: "distinct (map (rust_member P) (all_fields c))" .
  have named: "named_types P (struct_ty k P)"
    unfolding named_types_def using struct_ty_name by blast
  have C: "calls_typed (struct_ty k P) (from_ssz_bytes (rust_rprogram depth P) k)"
    unfolding calls_typed_def using Suc.IH Suc.prems(1) by (simp del: val_ok.simps)
  have l2: "list_all2 (field_rep P (struct_ty k P) c) (all_fields c) fs"
    using rep by (simp add: container_rep_def)
  have "\<forall>f \<in> set fs. flat_ty (snd f) \<and> bits_ok (snd f) \<and> size_ok (snd f) \<and> readable (snd f) \<and> panic_free (snd f)"
    using flat Suc.prems(3-6) by (simp add: fields_all)
  from rust_srows [OF l2 this] obtain rs where
    rs: "map fst rs = all_fields c" "infos_of c (all_fields c) = map srow_info rs"
    "map srow_ty rs = map snd fs" "\<forall>r \<in> set rs. rust_srow_ok (struct_ty k P) r"
    unfolding rust_srow_ok_def by blast
  have "map (rust_srow_name P) rs = map (rust_member P) (map fst rs)" by (simp add: rust_srow_name_def)
  with mem rs(1) have names': "distinct (map (rust_srow_name P) rs)" by (simp only:)
  have static: "unat (static_size c) = sum_list (map srow_width rs)"
    using rep Suc.prems(4) static_len_widths [OF rs(3)] by (simp add: container_rep_def unat_of_nat)
  have dyn: "dynamic_fields c = [] \<longleftrightarrow> (\<forall>r \<in> set rs. \<not> is_variable (srow_ty r))"
    using dynamic_fields_empty [OF rep] srows_variable [OF rs(3)] by simp
  from run_body_safe [OF C named rs(4) names' rs(2,3) dyn static] prog
  show ?case by (simp del: val_ok.simps)
qed simp

end
