(* ===== verification/Rust_View.thy ===== *)
theory Rust_View
  imports Rust_View_Text Rust_Decode_Safe
begin

text \<open>
  The part of Rust that the emitted views use: the checks of \<open>from_ssz_bytes\<close>, the accessors, their
  text and what they do.  A view is the slice it wraps.
  The second part is the statements behind the emitted views and their meaning.
\<close>

section \<open>Syntax\<close>

text \<open>The checks.  A called check is the \<open>from_ssz_bytes\<close> of the view of another struct.\<close>

datatype vcheck =
    KGuard u32
  | KBool u32
  | KCall string u32 u32
  | KRead nat u32
  | KFirst u32
  | KOrder nat
  | KInner rpos rpos
  | KMultiple rpos rpos u32

text \<open>
  The accessors: of a boolean, a byte, an unsigned integer, a slice, a view, and of the elements of
  a vector of structs, of a list of structs of fixed size, and of a list of structs of variable size.
\<close>

datatype vread =
    ABool u32
  | AByte u32
  | AUint nat u32 u32
  | ABytes rpos rpos
  | AView string rpos rpos
  | AVector string u64 u32 u32
  | AStructs string u32 rpos rpos
  | ADynamics string rpos rpos

record vdecl =
  vd_checks :: "vcheck list"
  vd_cut :: "u32 option" \<comment> \<open>the length that the view keeps, if its type has a fixed size\<close>
  vd_offs :: "u32 list" \<comment> \<open>where the offsets stand\<close>
  vd_reads :: "(string \<times> vread) list"

section \<open>Text\<close>

fun vw_at :: "rpos \<Rightarrow> string" where
  "vw_at (RNum n) = num32 n"
| "vw_at (ROff k) = ''_voff'' @ NumToString k"
| "vw_at RLen = ''buf.len()''"

fun vw_check :: "vcheck \<Rightarrow> string" where
  "vw_check (KGuard n) =
     line sp8 (''if buf.len() < '' @ num32 n @ '' { return Err(SszError::BufferTooSmall); }'')"
| "vw_check (KBool off) =
     line sp8 (''if buf['' @ num32 off @ ''] > 1 { return Err(SszError::InvalidBool); }'')"
| "vw_check (KCall s a b) =
     line sp8 (s @ ''View'' @ ''::from_ssz_bytes(&buf['' @ num32 a @ ''..'' @ num32 b @ ''])?;'')"
| "vw_check (KRead k off) =
     line sp8 (''let _voff'' @ NumToString k @ '' = u32::from_le_bytes(buf['' @ num32 off @
       ''..'' @ num32 (off + 4) @ ''].try_into().unwrap()) as usize;'')"
| "vw_check (KFirst n) = line sp8 (''if _voff0 != '' @ num32 n @ '' { return Err(SszError::InvalidOffset); }'')"
| "vw_check (KOrder k) =
     line sp8 (''if _voff'' @ NumToString k @ '' < _voff'' @ NumToString (k - 1) @
       '' || _voff'' @ NumToString k @ '' > buf.len() { return Err(SszError::InvalidOffset); }'')"
| "vw_check (KInner a b) = rust_view_inner (vw_at a) (vw_at b)"
| "vw_check (KMultiple a b k) =
     line sp8 (''if ('' @ vw_at b @ '' - '' @ vw_at a @ '') % '' @ num32 k @
       '' != 0 { return Err(SszError::InvalidOffset); }'')"

definition vw_checks :: "vcheck list \<Rightarrow> string" where
  "vw_checks ks = concat (map vw_check ks)"

lemma vw_checks_simps [simp]:
  "vw_checks [] = []" "vw_checks (k # ks) = vw_check k @ vw_checks ks"
  "vw_checks (ks @ ls) = vw_checks ks @ vw_checks ls"
  by (simp_all add: vw_checks_def)

fun sf_at :: "rpos \<Rightarrow> string" where
  "sf_at (RNum n) = num32 n"
| "sf_at (ROff k) = ''self._off'' @ NumToString k @ ''()''"
| "sf_at RLen = ''self.0.len()''"

fun vw_read :: "string \<Rightarrow> vread \<Rightarrow> string" where
  "vw_read f (ABool a) = line sp4 (''pub fn '' @ f @ ''(&self) -> bool { self.0['' @ num32 a @ ''] == 1 }'')"
| "vw_read f (AByte a) = line sp4 (''pub fn '' @ f @ ''(&self) -> u8 { self.0['' @ num32 a @ ''] }'')"
| "vw_read f (AUint w a b) = rust_uint_fn w f a b"
| "vw_read f (ABytes a b) = rust_bytes_fn f (sf_at a) (sf_at b)"
| "vw_read f (AView s a b) = rust_view_fn (s @ ''View'') f (sf_at a) (sf_at b)"
| "vw_read f (AVector s n a k) =
     line sp4 (''pub fn '' @ f @ ''_len(&self) -> usize { '' @ num64 n @ '' }'') @
     line sp4 (''pub fn '' @ f @ ''_at(&self, i: usize) -> '' @ s @ ''View'' @ ''<'a> { '' @ s @ ''View'' @
       ''(&self.0['' @ num32 a @ '' + i * '' @ num32 k @ ''..'' @ num32 a @ '' + (i + 1) * '' @ num32 k @ '']) }'')"
| "vw_read f (AStructs s k a b) = rust_view_structs (s @ ''View'') k f (sf_at a) (sf_at b)"
| "vw_read f (ADynamics s a b) = rust_view_dynamics (s @ ''View'') f (sf_at a) (sf_at b)"

definition vw_reads :: "(string \<times> vread) list \<Rightarrow> string" where
  "vw_reads rs = concat (map (\<lambda>(f, r). vw_read f r) rs)"

lemma vw_reads_simps [simp]:
  "vw_reads [] = []" "vw_reads ((f, r) # rs) = vw_read f r @ vw_reads rs"
  "vw_reads (rs @ qs) = vw_reads rs @ vw_reads qs"
  by (simp_all add: vw_reads_def)

text \<open>The private functions that read the offsets; \<open>k\<close> is the number of the first.\<close>

fun vw_offs :: "nat \<Rightarrow> u32 list \<Rightarrow> string" where
  "vw_offs k [] = []"
| "vw_offs k (a # as) =
     line sp4 (''fn _off'' @ NumToString k @ ''(&self) -> usize { u32::from_le_bytes(self.0['' @
       num32 a @ ''..'' @ num32 (a + 4) @ ''].try_into().unwrap()) as usize }'') @ vw_offs (k + 1) as"

section \<open>Checks\<close>

text \<open>The loop over the offsets of a list; \<open>j\<close> runs up to the number of elements.\<close>

fun inner_loop :: "byte list \<Rightarrow> nat \<Rightarrow> nat list \<Rightarrow> unit gores" where
  "inner_loop sl prev [] = Done ()"
| "inner_loop sl prev (j # js) =
     go_bind (read_uint 32 sl (j * 4) (j * 4 + 4)) (\<lambda>x.
       if x < prev \<or> x > length sl then Fails ''InvalidOffset'' else inner_loop sl x js)"

definition inner_check :: "byte list \<Rightarrow> unit gores" where
  "inner_check sl =
     (if sl = [] then Done ()
      else if length sl < 4 then Fails ''InvalidOffset''
      else go_bind (read_uint 32 sl 0 4) (\<lambda>fo.
        if fo mod 4 \<noteq> 0 \<or> fo > length sl then Fails ''InvalidOffset''
        else inner_loop sl fo [1..<fo div 4]))"

text \<open>A subtraction below zero panics.\<close>

fun kexec :: "(string \<Rightarrow> byte list \<Rightarrow> byte list gores) \<Rightarrow> byte list \<Rightarrow> vcheck \<Rightarrow> (nat \<rightharpoonup> nat) \<Rightarrow> (nat \<rightharpoonup> nat) gores"
where
  "kexec V bs (KGuard n) offs = (if length bs < unat n then Fails ''BufferTooSmall'' else Done offs)"
| "kexec V bs (KBool a) offs =
     go_bind (read_byte bs (unat a)) (\<lambda>x. if x > 1 then Fails ''InvalidBool'' else Done offs)"
| "kexec V bs (KCall s a b) offs =
     go_bind (sub_slice bs (unat a) (unat b)) (\<lambda>sl. go_bind (V s sl) (\<lambda>w. Done offs))"
| "kexec V bs (KRead k a) offs = go_bind (read_uint 32 bs (unat a) (unat (a + 4))) (\<lambda>x. Done (offs(k \<mapsto> x)))"
| "kexec V bs (KFirst n) offs =
     go_bind (or_panic (offs 0)) (\<lambda>x. if x \<noteq> unat n then Fails ''InvalidOffset'' else Done offs)"
| "kexec V bs (KOrder k) offs =
     go_bind (or_panic (offs k)) (\<lambda>x. go_bind (or_panic (offs (k - 1))) (\<lambda>y.
       if x < y \<or> x > length bs then Fails ''InvalidOffset'' else Done offs))"
| "kexec V bs (KInner a b) offs = with_slice bs offs a b (\<lambda>sl. go_bind (inner_check sl) (\<lambda>u. Done offs))"
| "kexec V bs (KMultiple a b k) offs =
     go_bind (eval_pos bs offs a) (\<lambda>x. go_bind (eval_pos bs offs b) (\<lambda>y.
       if y < x \<or> k = 0 then Panics
       else if (y - x) mod unat k \<noteq> 0 then Fails ''InvalidOffset'' else Done offs))"

definition kexecs ::
  "(string \<Rightarrow> byte list \<Rightarrow> byte list gores) \<Rightarrow> byte list \<Rightarrow> vcheck list \<Rightarrow> (nat \<rightharpoonup> nat) \<Rightarrow> (nat \<rightharpoonup> nat) gores" where
  "kexecs V bs = go_fold (kexec V bs)"

lemma kexecs_simps [simp]:
  "kexecs V bs [] offs = Done offs"
  "kexecs V bs (k # ks) offs = go_bind (kexec V bs k offs) (kexecs V bs ks)"
  by (simp_all add: kexecs_def)

lemma kexecs_append [simp]: "kexecs V bs (ks @ ls) offs = go_bind (kexecs V bs ks offs) (kexecs V bs ls)"
proof (induction ks arbitrary: offs)
  case (Cons k ks)
  then show ?case by (cases "kexec V bs k offs") auto
qed simp

type_synonym vprogram = "string \<rightharpoonup> vdecl"

text \<open>\<open>from_ssz_bytes\<close> of a view; the first argument bounds the nesting of calls.\<close>

fun view_from :: "vprogram \<Rightarrow> nat \<Rightarrow> string \<Rightarrow> byte list \<Rightarrow> byte list gores" where
  "view_from prog 0 s bs = Panics"
| "view_from prog (Suc n) s bs =
     go_bind (or_panic (prog s)) (\<lambda>d.
       go_bind (kexecs (view_from prog n) bs (vd_checks d) Map.empty) (\<lambda>offs.
         case vd_cut d of None \<Rightarrow> Done bs | Some k \<Rightarrow> sub_slice bs 0 (unat k)))"

section \<open>Accessors\<close>

text \<open>A position behind \<open>self\<close>: an offset is read every time.\<close>

fun self_pos :: "u32 list \<Rightarrow> byte list \<Rightarrow> rpos \<Rightarrow> nat gores" where
  "self_pos os bs (RNum n) = Done (unat n)"
| "self_pos os bs (ROff k) =
     (if k < length os then read_uint 32 bs (unat (os ! k)) (unat (os ! k + 4)) else Panics)"
| "self_pos os bs RLen = Done (length bs)"

definition self_slice :: "u32 list \<Rightarrow> byte list \<Rightarrow> rpos \<Rightarrow> rpos \<Rightarrow> byte list gores" where
  "self_slice os bs a b = go_bind (self_pos os bs a) (\<lambda>x. go_bind (self_pos os bs b) (sub_slice bs x))"

text \<open>What an accessor without an index returns; a view is its slice.\<close>

fun acc_get :: "u32 list \<Rightarrow> byte list \<Rightarrow> vread \<Rightarrow> val gores" where
  "acc_get os bs (ABool a) = go_map (\<lambda>x. VBool (x = 1)) (read_byte bs (unat a))"
| "acc_get os bs (AByte a) = go_map (\<lambda>x. VUint (unat x)) (read_byte bs (unat a))"
| "acc_get os bs (AUint w a b) = go_map VUint (read_uint w bs (unat a) (unat b))"
| "acc_get os bs (ABytes a b) = go_map VBytes (self_slice os bs a b)"
| "acc_get os bs (AView s a b) = go_map VBytes (self_slice os bs a b)"
| "acc_get os bs (AVector s n a k) = Done VNil"
| "acc_get os bs (AStructs s k a b) = go_map VBytes (self_slice os bs a b)"
| "acc_get os bs (ADynamics s a b) = go_map VBytes (self_slice os bs a b)"

text \<open>The number of elements, and the slice of the view of an element.\<close>

definition dyn_len :: "byte list \<Rightarrow> nat gores" where
  "dyn_len sl = (if sl = [] then Done 0 else go_map (\<lambda>x. x div 4) (read_uint 32 sl 0 4))"

fun acc_len :: "u32 list \<Rightarrow> byte list \<Rightarrow> vread \<Rightarrow> nat gores" where
  "acc_len os bs (AVector s n a k) = Done (unat n)"
| "acc_len os bs (AStructs s k a b) =
     go_bind (self_pos os bs b) (\<lambda>y. go_bind (self_pos os bs a) (\<lambda>x.
       if y < x \<or> k = 0 then Panics else Done ((y - x) div unat k)))"
| "acc_len os bs (ADynamics s a b) = go_bind (self_slice os bs a b) dyn_len"
| "acc_len os bs r = Done 0"

fun acc_at :: "u32 list \<Rightarrow> byte list \<Rightarrow> vread \<Rightarrow> nat \<Rightarrow> byte list gores" where
  "acc_at os bs (AVector s n a k) i = sub_slice bs (unat a + i * unat k) (unat a + (i + 1) * unat k)"
| "acc_at os bs (AStructs s k a b) i =
     go_bind (self_pos os bs a) (\<lambda>x. sub_slice bs (x + i * unat k) (x + (i + 1) * unat k))"
| "acc_at os bs (ADynamics s a b) i =
     go_bind (self_slice os bs a b) (\<lambda>sl.
       go_bind (read_uint 32 sl (i * 4) (i * 4 + 4)) (\<lambda>x.
         go_bind (dyn_len sl) (\<lambda>n.
           go_bind (if i + 1 < n then read_uint 32 sl ((i + 1) * 4) ((i + 1) * 4 + 4) else Done (length sl))
             (sub_slice sl x))))"
| "acc_at os bs r i = Panics"

text \<open>No accessor of the view panics, nor does one of an element that is there.\<close>

definition reads_safe :: "u32 list \<Rightarrow> byte list \<Rightarrow> vread \<Rightarrow> bool" where
  "reads_safe os bs r \<longleftrightarrow>
     (\<exists>v. acc_get os bs r = Done v) \<and> (\<exists>n. acc_len os bs r = Done n \<and> (\<forall>i < n. \<exists>sl. acc_at os bs r i = Done sl))"


text \<open>
  The program behind an emitted view: its checks and its accessors, the proof that the text of
  \<open>Rust_View_Text\<close> is theirs, and what a view that passes its checks guarantees.
\<close>

section \<open>The checks\<close>

definition field_checks :: "Parser \<Rightarrow> SszFieldInfo \<Rightarrow> u32 \<Rightarrow> vcheck list" where
  "field_checks P info offset =
     (if ssz_type info = SszBool then [KBool offset] else []) @
     (if ssz_type info = SszContainer \<and> names_struct info then
        [KCall (info_struct_name P '''' info) offset (offset + fixed_size info)]
      else [])"

fun fixed_checks :: "Parser \<Rightarrow> u32 \<Rightarrow> (FieldPtr \<times> SszFieldInfo) list \<Rightarrow> vcheck list" where
  "fixed_checks P offset [] = []"
| "fixed_checks P offset ((p, i) # ps) = field_checks P i offset @ fixed_checks P (offset + fixed_size i) ps"

fun static_checks :: "Parser \<Rightarrow> u32 \<Rightarrow> u32 \<Rightarrow> nat \<Rightarrow> (FieldPtr \<times> SszFieldInfo) list \<Rightarrow> vcheck list" where
  "static_checks P static offset k [] = []"
| "static_checks P static offset k ((p, i) # ps) =
     (if is_dynamic i then
        [KRead k offset, if k = 0 then KFirst static else KOrder k] @
        static_checks P static (offset + 4) (k + 1) ps
      else field_checks P i offset @ static_checks P static (offset + fixed_size i) k ps)"

definition content_checks :: "SszFieldInfo \<Rightarrow> rpos \<Rightarrow> rpos \<Rightarrow> vcheck list" where
  "content_checks info a b =
     (if ssz_type info = SszList \<and> elem_is info SszContainer \<and> elem_dynamic info then [KInner a b] else []) @
     (if ssz_type info = SszList \<and> elem_is info SszContainer \<and> \<not> elem_dynamic info \<and> elem_fixed_size info > 0
      then [KMultiple a b (elem_fixed_size info)] else [])"

definition end_pos :: "nat \<Rightarrow> nat \<Rightarrow> rpos" where
  "end_pos n k = (if k + 1 < n then ROff (k + 1) else RLen)"

definition dynamic_checks :: "SszContainerInfo \<Rightarrow> nat \<Rightarrow> vcheck list" where
  "dynamic_checks c n = concat (map (\<lambda>i.
     if i < length (dynamic_fields c) then
       (case field_infos c (dynamic_fields c ! i) of
          None \<Rightarrow> []
        | Some info \<Rightarrow> content_checks info (ROff i) (end_pos n i))
     else []) [0..<n])"

definition view_checks :: "Parser \<Rightarrow> SszContainerInfo \<Rightarrow> vcheck list" where
  "view_checks P c =
     (let ps = infos_of c (all_fields c) in
      KGuard (static_size c) #
      (if is_fixed c then fixed_checks P 0 ps
       else static_checks P (static_size c) 0 0 ps @ dynamic_checks c (length (dynamic_of ps))))"

section \<open>The accessors\<close>

definition field_read :: "Parser \<Rightarrow> SszFieldInfo \<Rightarrow> string \<Rightarrow> u32 \<Rightarrow> (string \<times> vread) list" where
  "field_read P info f offset =
     (let a = RNum offset; b = RNum (offset + fixed_size info) in
      case ssz_type info of
        SszBool \<Rightarrow> [(f, ABool offset)]
      | SszUint8 \<Rightarrow> [(f, AByte offset)]
      | SszUint16 \<Rightarrow> [(f, AUint 16 offset (offset + 2))]
      | SszUint32 \<Rightarrow> [(f, AUint 32 offset (offset + 4))]
      | SszUint64 \<Rightarrow> [(f, AUint 64 offset (offset + 8))]
      | SszUint128 \<Rightarrow> [(f, ABytes a b)]
      | SszUint256 \<Rightarrow> [(f, ABytes a b)]
      | SszBitvector \<Rightarrow> [(f, ABytes a b)]
      | SszVector \<Rightarrow>
          (case elem_info info of
             None \<Rightarrow> [(f @ ''_bytes'', ABytes a b)]
           | Some e \<Rightarrow>
               if ssz_type e = SszUint8 then [(f, ABytes a b)]
               else if ssz_type e = SszContainer \<and> names_struct e then
                 [(f, AVector (info_struct_name P '''' e) (info_limit info) offset (fixed_size e))]
               else [(f @ ''_bytes'', ABytes a b)])
      | SszContainer \<Rightarrow> (if names_struct info then [(f, AView (info_struct_name P '''' info) a b)] else [])
      | _ \<Rightarrow> [])"

fun fixed_reads :: "Parser \<Rightarrow> u32 \<Rightarrow> (FieldPtr \<times> SszFieldInfo) list \<Rightarrow> (string \<times> vread) list" where
  "fixed_reads P offset [] = []"
| "fixed_reads P offset ((p, i) # ps) =
     field_read P i (rust_member P p) offset @ fixed_reads P (offset + fixed_size i) ps"

definition dyn_field_read :: "Parser \<Rightarrow> SszFieldInfo \<Rightarrow> string \<Rightarrow> rpos \<Rightarrow> rpos \<Rightarrow> (string \<times> vread) list" where
  "dyn_field_read P info f a b =
     (case ssz_type info of
        SszList \<Rightarrow>
          (case elem_info info of
             None \<Rightarrow> [(f, ABytes a b)]
           | Some e \<Rightarrow>
               if ssz_type e = SszUint8 then [(f, ABytes a b)]
               else if ssz_type e = SszContainer \<and> names_struct e \<and> \<not> is_dynamic e then
                 [(f, AStructs (info_struct_name P '''' e) (fixed_size e) a b)]
               else if ssz_type e = SszContainer \<and> names_struct e \<and> is_dynamic e then
                 [(f, ADynamics (info_struct_name P '''' e) a b)]
               else if ssz_type e = SszList then [(f @ ''_bytes'', ABytes a b)]
               else [(f, ABytes a b)])
      | SszBitlist \<Rightarrow> [(f, ABytes a b)]
      | SszContainer \<Rightarrow> (if names_struct info then [(f, AView (info_struct_name P '''' info) a b)] else [])
      | _ \<Rightarrow> [(f @ ''_bytes'', ABytes a b)])"

fun offset_places :: "u32 \<Rightarrow> (FieldPtr \<times> SszFieldInfo) list \<Rightarrow> u32 list" where
  "offset_places offset [] = []"
| "offset_places offset ((p, i) # ps) =
     (if is_dynamic i then offset # offset_places (offset + 4) ps else offset_places (offset + fixed_size i) ps)"

fun all_reads :: "Parser \<Rightarrow> nat \<Rightarrow> u32 \<Rightarrow> nat \<Rightarrow> (FieldPtr \<times> SszFieldInfo) list \<Rightarrow> (string \<times> vread) list" where
  "all_reads P n offset k [] = []"
| "all_reads P n offset k ((p, i) # ps) =
     (if is_dynamic i then
        dyn_field_read P i (rust_member P p) (ROff k) (end_pos n k) @ all_reads P n (offset + 4) (k + 1) ps
      else field_read P i (rust_member P p) offset @ all_reads P n (offset + fixed_size i) k ps)"

definition view_reads :: "Parser \<Rightarrow> SszContainerInfo \<Rightarrow> (string \<times> vread) list" where
  "view_reads P c =
     (let ps = infos_of c (all_fields c) in
      if dynamic_fields c = [] then fixed_reads P 0 ps else all_reads P (length (dynamic_of ps)) 0 0 ps)"

definition rust_vdecl :: "Parser \<Rightarrow> SszContainerInfo \<Rightarrow> vdecl" where
  "rust_vdecl P c =
     \<lparr>vd_checks = view_checks P c,
      vd_cut = (if is_fixed c then Some (static_size c) else None),
      vd_offs = (if dynamic_fields c = [] then [] else offset_places 0 (infos_of c (all_fields c))),
      vd_reads = view_reads P c\<rparr>"

section \<open>The emitted text is the text of the checks and accessors\<close>

lemma print_field_checks: "rust_view_check P info offset = vw_checks (field_checks P info offset)"
  by (auto simp: rust_view_check_def field_checks_def view_name_def)

lemma print_fixed_checks:
  "rust_GenViewValidateFixed P c offset ps = vw_checks (fixed_checks P offset (infos_of c ps))"
  by (induction ps arbitrary: offset) (auto simp: print_field_checks split: option.splits)

lemma print_static_checks:
  "rust_view_static P c offset k ps = vw_checks (static_checks P (static_size c) offset k (infos_of c ps))"
  by (induction ps arbitrary: offset k)
    (auto simp: print_field_checks rust_view_offset_def split: option.splits)

lemma dyn_count_infos: "rust_dyn_count c = length (dynamic_of (infos_of c (all_fields c)))"
proof -
  have "length (filter (\<lambda>p. case field_infos c p of None \<Rightarrow> False | Some info \<Rightarrow> is_dynamic info) ps) =
      length (dynamic_of (infos_of c ps))" for ps
    by (induction ps) (auto simp: dynamic_of_def split: option.splits)
  then show ?thesis by (simp add: rust_dyn_count_def)
qed

lemma print_content:
  "rust_view_content c n i =
     vw_checks (if i < length (dynamic_fields c) then
       (case field_infos c (dynamic_fields c ! i) of
          None \<Rightarrow> []
        | Some info \<Rightarrow> content_checks info (ROff i) (end_pos n i))
     else [])"
  by (auto simp: rust_view_content_def content_checks_def end_pos_def Let_def split: option.splits)

lemma vw_checks_concat: "vw_checks (concat kss) = concat (map vw_checks kss)"
  by (induction kss) auto

lemma print_view_checks:
  "line sp8 (''if buf.len() < '' @ num32 (static_size c) @ '' { return Err(SszError::BufferTooSmall); }'') @
   (if is_fixed c then rust_GenViewValidateFixed P c 0 (all_fields c) else rust_GenViewValidateDynamic P c) =
   vw_checks (view_checks P c)"
  by (simp add: view_checks_def rust_GenViewValidateDynamic_def print_fixed_checks print_static_checks
      dyn_count_infos dynamic_checks_def vw_checks_concat print_content [abs_def] comp_def Let_def)

lemma print_field_read: "rust_GenViewAccessor P info f offset = vw_reads (field_read P info f offset)"
  by (cases "ssz_type info")
    (auto simp: rust_GenViewAccessor_def field_read_def rust_view_vector_def view_name_def Let_def
      split: option.splits)

lemma print_fixed_reads:
  "rust_GenViewFixedAccessors P c offset ps = vw_reads (fixed_reads P offset (infos_of c ps))"
  by (induction ps arbitrary: offset) (auto simp: print_field_read split: option.splits)

lemma print_dyn_field_read:
  "rust_GenViewDynAccessor P info f (sf_at a) (sf_at b) = vw_reads (dyn_field_read P info f a b)"
  by (cases "ssz_type info")
    (auto simp: rust_GenViewDynAccessor_def dyn_field_read_def view_name_def split: option.splits)

lemma print_offset_places:
  "rust_view_offsets c offset k ps = vw_offs k (offset_places offset (infos_of c ps))"
  by (induction ps arbitrary: offset k) (auto split: option.splits)

lemma print_all_reads:
  "rust_view_accessors P c n offset k ps = vw_reads (all_reads P n offset k (infos_of c ps))"
proof (induction ps arbitrary: offset k)
  case (Cons p ps)
  have "(if k + 1 < n then ''self._off'' @ NumToString (k + 1) @ ''()'' else ''self.0.len()'') = sf_at (end_pos n k)"
    by (simp add: end_pos_def)
  moreover have "''self._off'' @ NumToString k @ ''()'' = sf_at (ROff k)" by simp
  ultimately show ?case
    using Cons print_dyn_field_read [of P _ _ "ROff k" "end_pos n k"]
    by (cases "field_infos c p")
      (simp_all only: rust_view_accessors.simps option.case infos_of_simps all_reads.simps print_field_read
        vw_reads_simps split: if_split, simp_all)
qed simp

lemma print_view_reads:
  "(if dynamic_fields c = [] then rust_GenViewFixedAccessors P c 0 (all_fields c)
    else rust_GenViewDynamicAccessors P c) =
   (if dynamic_fields c = [] then []
    else vw_offs 0 (offset_places 0 (infos_of c (all_fields c))) @
      (if dynamic_of (infos_of c (all_fields c)) = [] then [] else nl)) @
   vw_reads (view_reads P c)"
  by (simp add: view_reads_def rust_GenViewDynamicAccessors_def print_fixed_reads print_all_reads
      print_offset_places dyn_count_infos Let_def)

lemma length_offset_places: "length (offset_places off ps) = length (dynamic_of ps)"
  by (induction ps arbitrary: off) (auto simp: dynamic_of_def)

lemma offset_places_empty: "offset_places off ps = [] \<longleftrightarrow> dynamic_of ps = []"
  using length_offset_places [of off ps] by (metis length_0_conv)

text \<open>The \<open>impl\<close> block; \<open>hash\<close> is the text of the hashing methods.\<close>

definition vw_impl :: "string \<Rightarrow> vdecl \<Rightarrow> string \<Rightarrow> string" where
  "vw_impl owned d hash =
     line [] (''impl<'a> '' @ owned @ ''View<'a> {'') @
     line sp4 ''pub fn from_ssz_bytes(buf: &'a [u8]) -> Result<Self, SszError> {'' @
     vw_checks (vd_checks d) @
     line sp8 (case vd_cut d of None \<Rightarrow> ''Ok(Self(buf))'' | Some n \<Rightarrow> ''Ok(Self(&buf[..'' @ num32 n @ '']))'') @
     line sp4 ''}'' @ nl @
     line sp4 ''pub fn as_ssz_bytes(&self) -> &'a [u8] { self.0 }'' @ nl @
     vw_offs 0 (vd_offs d) @ (if vd_offs d = [] then [] else nl) @
     vw_reads (vd_reads d) @
     line sp4 (''pub fn to_owned_type(&self) -> '' @ owned @ '' {'') @
     line sp8 (owned @ ''::from_ssz_bytes(self.0).unwrap()'') @
     line sp4 ''}'' @ nl @
     hash @
     line [] ''}''"

lemma print_view:
  "rust_GenViewImpl P sd c =
   vw_impl (sd_name sd) (rust_vdecl P c) (rust_root_method @ rust_GenViewHashMethod P c)"
proof -
  have offs: "vw_offs 0 (vd_offs (rust_vdecl P c)) @ (if vd_offs (rust_vdecl P c) = [] then [] else nl) =
      (if dynamic_fields c = [] then []
       else vw_offs 0 (offset_places 0 (infos_of c (all_fields c))) @
         (if dynamic_of (infos_of c (all_fields c)) = [] then [] else nl))"
    by (simp add: rust_vdecl_def offset_places_empty)
  note accessors = print_view_reads [of c P, folded offs]
  have checks: "vw_checks (vd_checks (rust_vdecl P c)) =
      line sp8 (''if buf.len() < '' @ num32 (static_size c) @ '' { return Err(SszError::BufferTooSmall); }'') @
      (if is_fixed c then rust_GenViewValidateFixed P c 0 (all_fields c) else rust_GenViewValidateDynamic P c)"
    unfolding print_view_checks by (simp add: rust_vdecl_def)
  have reads: "vd_reads (rust_vdecl P c) = view_reads P c"
    and cut: "vd_cut (rust_vdecl P c) = (if is_fixed c then Some (static_size c) else None)"
    by (simp_all add: rust_vdecl_def)
  show ?thesis
    unfolding rust_GenViewImpl_def vw_impl_def Let_def accessors checks reads cut
    by (cases "is_fixed c") (simp_all only: if_True if_False option.case append_assoc append_Nil append_Cons)
qed

section \<open>Passing the checks\<close>

lemma bind_Done [simp]: "go_bind m f = Done y \<longleftrightarrow> (\<exists>x. m = Done x \<and> f x = Done y)"
  by (cases m) auto

lemma field_checks_done: "kexecs V bs (field_checks P i off) offs = Done offs' \<Longrightarrow> offs' = offs"
  by (auto simp: field_checks_def split: if_splits)

lemma content_checks_done: "kexecs V bs (content_checks i a b) offs = Done offs' \<Longrightarrow> offs' = offs"
  by (auto simp: content_checks_def with_slice_def split: if_splits)

text \<open>The offsets that the checks have read stand where the accessors read them, in order.\<close>

lemma static_checks_done:
  assumes "kexecs V bs (static_checks P static off k ps) offs = Done offs'" and "offs_in bs k offs"
    and "unat static \<le> length bs"
  shows "offs_in bs (k + length (offset_places off ps)) offs' \<and> (\<forall>j < k. offs' j = offs j) \<and>
    (\<forall>j < length (offset_places off ps). \<exists>x. offs' (k + j) = Some x \<and>
      read_uint 32 bs (unat (offset_places off ps ! j)) (unat (offset_places off ps ! j + 4)) = Done x)"
  using assms(1,2)
proof (induction ps arbitrary: off k offs)
  case (Cons r ps)
  obtain p i where r: "r = (p, i)" by (cases r)
  show ?case
  proof (cases "is_dynamic i")
    case True
    with Cons.prems(1) r obtain x where x: "read_uint 32 bs (unat off) (unat (off + 4)) = Done x"
      and chk: "kexec V bs (if k = 0 then KFirst static else KOrder k) (offs(k \<mapsto> x)) = Done (offs(k \<mapsto> x))"
      and rest: "kexecs V bs (static_checks P static (off + 4) (Suc k) ps) (offs(k \<mapsto> x)) = Done offs'"
      by (auto split: if_splits)
    have "offs_in bs (Suc k) (offs(k \<mapsto> x))"
      by (rule offs_in_Suc [OF Cons.prems(2)]) (use chk assms(3) in \<open>auto split: if_splits\<close>)
    note ih = Cons.IH [OF rest this]
    have below: "offs' j = offs j" if "j < k" for j using ih that by auto
    have here: "offs' k = Some x" using ih by auto
    have "\<exists>x. offs' (k + j) = Some x \<and>
        read_uint 32 bs (unat (offset_places off (r # ps) ! j)) (unat (offset_places off (r # ps) ! j + 4)) = Done x"
      if "j < length (offset_places off (r # ps))" for j
      using ih that True r x here by (cases j) simp_all
    with ih below True r show ?thesis by simp
  next
    case False
    with Cons.prems(1) r obtain offs1 where one: "kexecs V bs (field_checks P i off) offs = Done offs1"
      and rest: "kexecs V bs (static_checks P static (off + fixed_size i) k ps) offs1 = Done offs'" by auto
    from field_checks_done [OF one] rest have "kexecs V bs (static_checks P static (off + fixed_size i) k ps) offs = Done offs'"
      by simp
    from Cons.IH [OF this Cons.prems(2)] False r show ?thesis by simp
  qed
qed simp

lemma dynamic_checks_done:
  assumes "kexecs V bs (dynamic_checks c n) offs = Done offs'" and "i < n" and "i < length (dynamic_fields c)"
    and "field_infos c (dynamic_fields c ! i) = Some info"
  shows "\<exists>offs'. kexecs V bs (content_checks info (ROff i) (end_pos n i)) offs = Done offs'"
proof -
  let ?g = "\<lambda>i. if i < length (dynamic_fields c) then
      (case field_infos c (dynamic_fields c ! i) of
         None \<Rightarrow> []
       | Some info \<Rightarrow> content_checks info (ROff i) (end_pos n i))
    else []"
  have same: "offs2 = offs1" if "kexecs V bs (?g j) offs1 = Done offs2" for j offs1 offs2
    using that content_checks_done by (auto split: if_splits option.splits)
  have "\<exists>offs'. kexecs V bs (?g i) offs = Done offs'" if "i \<in> set is" "kexecs V bs (concat (map ?g is)) offs = Done offs'" for "is"
    using that
  proof (induction "is")
    case (Cons j js)
    from Cons.prems(2) obtain offs1 where one: "kexecs V bs (?g j) offs = Done offs1"
      and rest: "kexecs V bs (concat (map ?g js)) offs1 = Done offs'" by auto
    from same [OF one] rest have "kexecs V bs (concat (map ?g js)) offs = Done offs'" by simp
    with Cons one show ?case by auto
  qed simp
  from this [of "[0..<n]"] assms show ?thesis by (simp add: dynamic_checks_def)
qed

text \<open>What a passed check of inner offsets tells of a list: ascending offsets in the slice.\<close>

lemma inner_loop_done:
  assumes "inner_loop sl prev [j..<n] = Done ()" and "j \<le> n" and "prev \<le> length sl" and "i < n - j"
  shows "\<exists>x. read_uint 32 sl ((j + i) * 4) ((j + i) * 4 + 4) = Done x \<and> x \<le> length sl \<and> prev \<le> x \<and>
    (\<forall>y. 0 < i \<longrightarrow> read_uint 32 sl ((j + i - 1) * 4) ((j + i - 1) * 4 + 4) = Done y \<longrightarrow> y \<le> x)"
  using assms
proof (induction i arbitrary: prev j)
  case 0
  then have "[j..<n] = j # [Suc j..<n]" by (simp add: upt_rec)
  with 0 show ?case by (auto split: if_splits)
next
  case (Suc i)
  then have "[j..<n] = j # [Suc j..<n]" by (simp add: upt_rec)
  with Suc.prems(1) obtain x where x: "read_uint 32 sl (j * 4) (j * 4 + 4) = Done x" "prev \<le> x" "x \<le> length sl"
    and rest: "inner_loop sl x [Suc j..<n] = Done ()" by (auto split: if_splits)
  have "Suc j \<le> n" "i < n - Suc j" using Suc.prems(4) by simp_all
  from Suc.IH [OF rest this(1) x(3) this(2)] obtain z where
    z: "read_uint 32 sl ((Suc j + i) * 4) ((Suc j + i) * 4 + 4) = Done z" "z \<le> length sl" "x \<le> z"
    "\<forall>y. 0 < i \<longrightarrow> read_uint 32 sl ((Suc j + i - 1) * 4) ((Suc j + i - 1) * 4 + 4) = Done y \<longrightarrow> y \<le> z" by blast
  have "y \<le> z" if "read_uint 32 sl ((j + Suc i - 1) * 4) ((j + Suc i - 1) * 4 + 4) = Done y" for y
    using z(3,4) that x(1) by (cases "i = 0") auto
  with z x(2) show ?case by (intro exI [of _ z]) auto
qed

lemma inner_check_safe:
  assumes "inner_check sl = Done ()"
  shows "\<exists>n. dyn_len sl = Done n \<and> (\<forall>i < n. \<exists>x y. read_uint 32 sl (i * 4) (i * 4 + 4) = Done x \<and>
    (if i + 1 < n then read_uint 32 sl ((i + 1) * 4) ((i + 1) * 4 + 4) else Done (length sl)) = Done y \<and>
    x \<le> y \<and> y \<le> length sl)"
proof (cases "sl = []")
  case True
  then show ?thesis by (simp add: dyn_len_def)
next
  case False
  with assms obtain fo where fo: "read_uint 32 sl 0 4 = Done fo" "fo \<le> length sl"
    "inner_loop sl fo [1..<fo div 4] = Done ()" by (auto simp: inner_check_def split: if_splits)
  let ?n = "fo div 4"
  have off: "\<exists>x. read_uint 32 sl (i * 4) (i * 4 + 4) = Done x \<and> x \<le> length sl \<and>
      (\<forall>y. 0 < i \<longrightarrow> read_uint 32 sl ((i - 1) * 4) ((i - 1) * 4 + 4) = Done y \<longrightarrow> y \<le> x)" if "i < ?n" for i
  proof (cases i)
    case 0
    with fo show ?thesis by auto
  next
    case (Suc j)
    with that have "j < ?n - 1" "1 \<le> ?n" by simp_all
    from inner_loop_done [OF fo(3) this(2) fo(2) this(1)] obtain x where
      x: "read_uint 32 sl ((1 + j) * 4) ((1 + j) * 4 + 4) = Done x" "x \<le> length sl" "fo \<le> x"
      "\<forall>y. 0 < j \<longrightarrow> read_uint 32 sl ((1 + j - 1) * 4) ((1 + j - 1) * 4 + 4) = Done y \<longrightarrow> y \<le> x" by blast
    have "y \<le> x" if "read_uint 32 sl (j * 4) (j * 4 + 4) = Done y" for y
      using x(3,4) that fo(1) by (cases "j = 0") auto
    with x(1,2) Suc show ?thesis by auto
  qed
  have "\<exists>x y. read_uint 32 sl (i * 4) (i * 4 + 4) = Done x \<and>
      (if i + 1 < ?n then read_uint 32 sl ((i + 1) * 4) ((i + 1) * 4 + 4) else Done (length sl)) = Done y \<and>
      x \<le> y \<and> y \<le> length sl" if i: "i < ?n" for i
  proof -
    from off [OF i] obtain x where x: "read_uint 32 sl (i * 4) (i * 4 + 4) = Done x" "x \<le> length sl" by blast
    show ?thesis
    proof (cases "i + 1 < ?n")
      case True
      from off [OF this] obtain y where y: "read_uint 32 sl ((i + 1) * 4) ((i + 1) * 4 + 4) = Done y" "y \<le> length sl"
        "\<forall>y'. 0 < i + 1 \<longrightarrow> read_uint 32 sl ((i + 1 - 1) * 4) ((i + 1 - 1) * 4 + 4) = Done y' \<longrightarrow> y' \<le> y" by blast
      with x True show ?thesis by auto
    next
      case False
      with x show ?thesis by auto
    qed
  qed
  moreover have "dyn_len sl = Done ?n" using False fo(1) by (simp add: dyn_len_def)
  ultimately show ?thesis by blast
qed

end
