(* ===== verification/Rust_View_Safe.thy ===== *)
theory Rust_View_Safe
  imports Rust_View
begin

text \<open>
  What a view guarantees whose bytes have passed its checks: no accessor panics, and for the types
  whose variable parts the checks cover, \<open>to_owned_type\<close> does not either.
\<close>

section \<open>Accessors of one field\<close>

definition vrow_ok :: "struct_types \<Rightarrow> srow \<Rightarrow> bool" where
  "vrow_ok st r \<longleftrightarrow>
     info_rep st (fst (snd r)) (srow_ty r) \<and> flat_ty (srow_ty r) \<and> bits_ok (srow_ty r) \<and>
     size_ok (srow_ty r) \<and> readable (srow_ty r)"

lemma vrow_facts:
  assumes "vrow_ok st r"
  shows "is_dynamic (fst (snd r)) = is_variable (srow_ty r)"
    and "\<not> is_variable (srow_ty r) \<Longrightarrow> unat off + srow_width r < 2 ^ 32 \<Longrightarrow>
      unat (off + fixed_size (fst (snd r))) = unat off + srow_width r"
  using assms info_rep_dynamic info_rep_fixed by (auto simp: vrow_ok_def srow_width_def unat_offset)

lemma self_slice_in:
  "self_pos os bs a = Done x \<Longrightarrow> self_pos os bs b = Done y \<Longrightarrow> x \<le> y \<Longrightarrow> y \<le> length bs \<Longrightarrow>
   self_slice os bs a b = Done (take (y - x) (drop x bs))"
  by (simp add: self_slice_def sub_slice_def)

lemma bytes_safe:
  "self_slice os bs a b = Done sl \<Longrightarrow> reads_safe os bs (ABytes a b) \<and> reads_safe os bs (AView s a b)"
  by (simp add: reads_safe_def)

lemma uint_read_safe:
  assumes "unat off + k < 2 ^ 32" and "unat off + k \<le> length bs" and "w div 8 = k" and "unat d = k"
  shows "reads_safe os bs (AUint w off (off + d))"
proof -
  have "unat (off + d) = unat off + k" using assms(1,4) by (simp add: unat_word_ariths)
  with assms show ?thesis by (simp add: reads_safe_def read_uint_def sub_slice_def to_array_def)
qed

lemma field_read_safe:
  assumes rep: "info_rep st i t" and flat: "flat_ty t" and t: "readable t" and fixed: "\<not> is_variable t"
    and fit: "unat off + fixed_len t < 2 ^ 32" "unat off + fixed_len t \<le> length bs"
    and r: "(f, r) \<in> set (field_read P i g off)"
  shows "reads_safe os bs r"
proof -
  have "unat (off + fixed_size i) = unat off + fixed_len t"
    using unat_offset [OF fit(1)] info_rep_fixed [OF rep fixed] by simp
  then have sl: "self_slice os bs (RNum off) (RNum (off + fixed_size i)) =
      Done (take (fixed_len t) (drop (unat off) bs))"
    using self_slice_in [of os bs "RNum off" "unat off" "RNum (off + fixed_size i)" "unat off + fixed_len t"] fit(2)
    by simp
  show ?thesis
  proof (cases t)
    case TBool
    with rep r fit(2) show ?thesis by (simp add: field_read_def reads_safe_def read_byte_def)
  next
    case (TUint k)
    from TUint flat consider "k = 1" | "k = 2" | "k = 4" | "k = 8" by auto
    then show ?thesis
    proof cases
      case 1
      with TUint rep r fit(2) show ?thesis by (simp add: field_read_def reads_safe_def read_byte_def Let_def)
    qed (use TUint rep r fit uint_read_safe [of off k bs] in \<open>auto simp: field_read_def Let_def\<close>)
  next
    case (TVector u n)
    from TVector rep t obtain e where "elem_info i = Some e" "ssz_type e = SszUint8" by (auto simp: is_byte_ty_def)
    with TVector rep r bytes_safe [OF sl] show ?thesis by (simp add: field_read_def Let_def)
  next
    case (TBitvector n)
    with rep r bytes_safe [OF sl] show ?thesis by (simp add: field_read_def Let_def)
  next
    case (TContainer nm fs)
    with rep r bytes_safe [OF sl] show ?thesis by (auto simp: field_read_def Let_def split: if_splits)
  qed (use fixed in auto)
qed

definition inner_ok :: "SszFieldInfo \<Rightarrow> byte list \<Rightarrow> bool" where
  "inner_ok i sl \<longleftrightarrow>
     (ssz_type i = SszList \<and> elem_is i SszContainer \<and> elem_dynamic i \<longrightarrow> inner_check sl = Done ())"

lemma structs_safe:
  assumes "self_pos os bs a = Done x" and "self_pos os bs b = Done y" and "x \<le> y" and "y \<le> length bs" and "k \<noteq> 0"
  shows "reads_safe os bs (AStructs s k a b)"
proof -
  have "x + (i + 1) * unat k \<le> length bs" if "i < (y - x) div unat k" for i
  proof -
    have "(i + 1) * unat k \<le> (y - x) div unat k * unat k" using that by (intro mult_le_mono1) simp
    also have "\<dots> \<le> y - x" by simp
    finally show ?thesis using assms(3,4) by simp
  qed
  with assms show ?thesis
    using self_slice_in [OF assms(1-4)] by (simp add: reads_safe_def sub_slice_def)
qed

lemma dynamics_safe:
  assumes "self_slice os bs a b = Done sl" and "inner_check sl = Done ()"
  shows "reads_safe os bs (ADynamics s a b)"
proof -
  from inner_check_safe [OF assms(2)] obtain n where n: "dyn_len sl = Done n"
    and off: "\<forall>i < n. \<exists>x y. read_uint 32 sl (i * 4) (i * 4 + 4) = Done x \<and>
      (if i + 1 < n then read_uint 32 sl ((i + 1) * 4) ((i + 1) * 4 + 4) else Done (length sl)) = Done y \<and>
      x \<le> y \<and> y \<le> length sl" by blast
  have "\<exists>w. acc_at os bs (ADynamics s a b) i = Done w" if "i < n" for i
  proof -
    from off that obtain x y where "read_uint 32 sl (i * 4) (i * 4 + 4) = Done x"
      "(if i + 1 < n then read_uint 32 sl ((i + 1) * 4) ((i + 1) * 4 + 4) else Done (length sl)) = Done y"
      "x \<le> y" "y \<le> length sl" by blast
    with assms(1) n show ?thesis by (auto simp: sub_slice_def split: if_splits)
  qed
  with assms(1) n show ?thesis by (auto simp: reads_safe_def)
qed

lemma dyn_field_read_safe:
  assumes rep: "info_rep st i t" and flat: "flat_ty t" and t: "size_ok t" "readable t" and var: "is_variable t"
    and pos: "self_pos os bs a = Done x" "self_pos os bs b = Done y" "x \<le> y" "y \<le> length bs"
    and inner: "inner_ok i (take (y - x) (drop x bs))"
    and r: "(f, r) \<in> set (dyn_field_read P i g a b)"
  shows "reads_safe os bs r"
proof -
  note sl = self_slice_in [OF pos]
  show ?thesis
  proof (cases t)
    case (TList t' l)
    with rep obtain e where e: "elem_info i = Some e" "info_rep st e t'" "ssz_type i = SszList" by auto
    show ?thesis
    proof (cases "r = ABytes a b")
      case True
      with bytes_safe [OF sl] show ?thesis by simp
    next
      case False
      with e r have c: "ssz_type e = SszContainer" "r =
          (if is_dynamic e then ADynamics (info_struct_name P '''' e) a b
           else AStructs (info_struct_name P '''' e) (fixed_size e) a b)"
        by (auto simp: dyn_field_read_def split: if_splits)
      have dyn: "is_dynamic e = is_variable t'" using info_rep_dynamic [OF e(2)] .
      show ?thesis
      proof (cases "is_variable t'")
        case True
        with c dyn e inner dynamics_safe [OF sl] show ?thesis
          by (simp add: inner_ok_def elem_is_def elem_dynamic_def)
      next
        case False
        with t TList have "0 < fixed_len t'" "fixed_len t' < 2 ^ 32" by auto
        with unat_fixed_size [OF e(2) False] have "fixed_size e \<noteq> 0" by (auto simp: unat_eq_zero)
        with c dyn False structs_safe [OF pos] show ?thesis by simp
      qed
    qed
  next
    case (TProgressiveList t')
    with rep r bytes_safe [OF sl] show ?thesis by (simp add: dyn_field_read_def)
  next
    case (TBitlist l)
    with rep r bytes_safe [OF sl] show ?thesis by (simp add: dyn_field_read_def)
  next
    case (TContainer nm fs)
    with rep r bytes_safe [OF sl] show ?thesis by (auto simp: dyn_field_read_def split: if_splits)
  next
    case (TVector t' n)
    with rep var show ?thesis by auto
  qed (use var t flat in auto)
qed

section \<open>Accessors of a container\<close>

lemma fixed_reads_safe:
  assumes "\<forall>r \<in> set rs. vrow_ok st r \<and> \<not> is_variable (srow_ty r)"
    and "unat off + sum_list (map srow_width rs) \<le> length bs" and "unat off + sum_list (map srow_width rs) < 2 ^ 32"
    and "(f, r) \<in> set (fixed_reads P off (map srow_info rs))"
  shows "reads_safe os bs r"
  using assms
proof (induction rs arbitrary: off)
  case (Cons q rs)
  have q: "vrow_ok st q" "\<not> is_variable (srow_ty q)" using Cons.prems(1) by auto
  then have w: "srow_width q = fixed_len (srow_ty q)" by (simp add: srow_width_def)
  have fit: "unat off + srow_width q < 2 ^ 32" using Cons.prems(3) by auto
  note off = vrow_facts(2) [OF q fit]
  show ?case
  proof (cases "(f, r) \<in> set (field_read P (fst (snd q)) (rust_member P (fst q)) off)")
    case True
    show ?thesis
      by (rule field_read_safe [OF _ _ _ q(2) _ _ True]) (use q w Cons.prems in \<open>auto simp: vrow_ok_def\<close>)
  next
    case False
    with Cons.prems off show ?thesis by (intro Cons.IH [of "off + fixed_size (fst (snd q))"]) auto
  qed
qed simp

text \<open>The \<open>j\<close>-th dynamic field: where its slice is, and that the check of its content has passed.\<close>

definition dyn_at :: "u32 list \<Rightarrow> byte list \<Rightarrow> nat \<Rightarrow> nat \<Rightarrow> SszFieldInfo \<Rightarrow> bool" where
  "dyn_at os bs n j i \<longleftrightarrow>
     (\<exists>x y. self_pos os bs (ROff j) = Done x \<and> self_pos os bs (end_pos n j) = Done y \<and> x \<le> y \<and>
        y \<le> length bs \<and> inner_ok i (take (y - x) (drop x bs)))"

lemma all_reads_safe:
  assumes "\<forall>r \<in> set rs. vrow_ok st r"
    and "unat off + sum_list (map srow_width rs) \<le> length bs" and "unat off + sum_list (map srow_width rs) < 2 ^ 32"
    and "\<forall>j < length (dynamic_of (map srow_info rs)).
      dyn_at os bs n (k + j) (snd (dynamic_of (map srow_info rs) ! j))"
    and "(f, r) \<in> set (all_reads P n off k (map srow_info rs))"
  shows "reads_safe os bs r"
  using assms
proof (induction rs arbitrary: off k)
  case (Cons q rs)
  have q: "vrow_ok st q" using Cons.prems(1) by auto
  note dyn = vrow_facts(1) [OF q]
  have fit: "unat off + srow_width q < 2 ^ 32" using Cons.prems(3) by auto
  show ?case
  proof (cases "is_variable (srow_ty q)")
    case True
    then have w: "srow_width q = 4" by (simp add: srow_width_def)
    have off: "unat (off + 4) = unat off + 4" using unat_offset [of off 4] fit w by simp
    have d: "dynamic_of (map srow_info (q # rs)) = srow_info q # dynamic_of (map srow_info rs)"
      using True dyn by (simp add: dynamic_of_def)
    have here: "dyn_at os bs n k (fst (snd q))" using Cons.prems(4) d by force
    have later: "\<forall>j < length (dynamic_of (map srow_info rs)).
        dyn_at os bs n (Suc k + j) (snd (dynamic_of (map srow_info rs) ! j))"
      using Cons.prems(4) d by force
    show ?thesis
    proof (cases "(f, r) \<in> set (dyn_field_read P (fst (snd q)) (rust_member P (fst q)) (ROff k) (end_pos n k))")
      case in_q: True
      from here obtain x y where pos: "self_pos os bs (ROff k) = Done x" "self_pos os bs (end_pos n k) = Done y"
        "x \<le> y" "y \<le> length bs" "inner_ok (fst (snd q)) (take (y - x) (drop x bs))"
        unfolding dyn_at_def by blast
      show ?thesis
        by (rule dyn_field_read_safe [OF _ _ _ _ True pos in_q]) (use q in \<open>auto simp: vrow_ok_def\<close>)
    next
      case False
      with Cons.prems True dyn off w later show ?thesis by (intro Cons.IH [of "off + 4" "Suc k"]) auto
    qed
  next
    case False
    note off = vrow_facts(2) [OF q False fit]
    have w: "srow_width q = fixed_len (srow_ty q)" using False by (simp add: srow_width_def)
    have d: "dynamic_of (map srow_info (q # rs)) = dynamic_of (map srow_info rs)"
      using False dyn by (simp add: dynamic_of_def)
    show ?thesis
    proof (cases "(f, r) \<in> set (field_read P (fst (snd q)) (rust_member P (fst q)) off)")
      case in_q: True
      show ?thesis
        by (rule field_read_safe [OF _ _ _ False _ _ in_q]) (use q w Cons.prems in \<open>auto simp: vrow_ok_def\<close>)
    next
      case not_q: False
      with Cons.prems False dyn off d show ?thesis
        by (intro Cons.IH [of "off + fixed_size (fst (snd q))" k]) auto
    qed
  qed
qed simp

section \<open>Accessors of a view\<close>

lemma field_infos_srows:
  assumes "list_all2 (field_rep P st c) ps fs" and "map fst rs = ps" and "infos_of c ps = map srow_info rs" and "r \<in> set rs"
  shows "field_infos c (fst r) = Some (fst (snd r))"
  using assms
proof (induction ps arbitrary: fs rs)
  case (Cons p ps)
  from Cons.prems(1) obtain f fs' where fs: "fs = f # fs'" "field_rep P st c p f" "list_all2 (field_rep P st c) ps fs'"
    by (cases fs) auto
  from Cons.prems(2) obtain q rs' where rs: "rs = q # rs'" "map fst rs' = ps" "fst q = p" by (cases rs) auto
  from fs(2) obtain i where i: "field_infos c p = Some i" by (auto simp: field_rep_def)
  with Cons.prems(3) rs have "i = fst (snd q)" "infos_of c ps = map srow_info rs'" by simp_all
  with Cons.IH [OF fs(3) rs(2)] Cons.prems(4) rs i show ?case by auto
qed simp

lemma dynamic_of_vrows:
  "\<forall>r \<in> set rs. vrow_ok st r \<Longrightarrow>
   dynamic_of (map srow_info rs) = map srow_info (filter (\<lambda>r. is_variable (srow_ty r)) rs)"
  using vrow_facts(1) by (induction rs) (auto simp: dynamic_of_def)

lemma dynamic_fields_rows:
  assumes "map fst rs = ps" and "map srow_ty rs = map snd fs"
  shows "map fst (filter (\<lambda>(p, f). is_variable (snd f)) (zip ps fs)) =
    map fst (filter (\<lambda>r. is_variable (srow_ty r)) rs)"
  using assms
proof (induction rs arbitrary: ps fs)
  case (Cons r rs)
  then obtain f fs' where "fs = f # fs'" "snd f = srow_ty r" "map srow_ty rs = map snd fs'" by (cases fs) auto
  with Cons show ?case by auto
qed simp

text \<open>The slice of a dynamic field, once all checks have passed.\<close>

lemma dyn_at_checked:
  assumes static: "kexecs V bs (static_checks P static 0 0 ps) Map.empty = Done offs"
    and dynamic: "kexecs V bs (dynamic_checks c n) offs = Done offs'" and len: "unat static \<le> length bs"
    and n: "n = length (dynamic_of ps)" and j: "j < n"
    and info: "j < length (dynamic_fields c)" "field_infos c (dynamic_fields c ! j) = Some info"
  shows "dyn_at (offset_places 0 ps) bs n j info"
proof -
  let ?os = "offset_places 0 ps"
  have os: "length ?os = n" using n by (simp add: length_offset_places)
  have "offs_in bs 0 Map.empty" by (simp add: offs_in_def)
  note chk = static_checks_done [OF static this len]
  then have ins: "offs_in bs n offs" using os by simp
  have read: "\<exists>x. offs i = Some x \<and> self_pos ?os bs (ROff i) = Done x" if "i < n" for i
    using chk that os by auto
  from read [OF j] obtain x where x: "offs j = Some x" "self_pos ?os bs (ROff j) = Done x" by blast
  with ins j have x_in: "x \<le> length bs" unfolding offs_in_def by auto
  have "\<exists>y. eval_pos bs offs (end_pos n j) = Done y \<and> self_pos ?os bs (end_pos n j) = Done y \<and> x \<le> y \<and> y \<le> length bs"
  proof (cases "j + 1 < n")
    case True
    from read [OF this] obtain y where y: "offs (j + 1) = Some y" "self_pos ?os bs (ROff (j + 1)) = Done y" by blast
    moreover from ins True y(1) x(1) have "x \<le> y" "y \<le> length bs" unfolding offs_in_def by fastforce+
    ultimately show ?thesis using True by (simp add: end_pos_def)
  next
    case False
    with x_in show ?thesis by (simp add: end_pos_def)
  qed
  then obtain y where y: "eval_pos bs offs (end_pos n j) = Done y" "self_pos ?os bs (end_pos n j) = Done y"
    "x \<le> y" "y \<le> length bs" by blast
  from dynamic_checks_done [OF dynamic j info] obtain offs2 where
    "kexecs V bs (content_checks info (ROff j) (end_pos n j)) offs = Done offs2" by blast
  with x(1) y(1,3,4) have "inner_ok info (take (y - x) (drop x bs))"
    by (auto simp: content_checks_def inner_ok_def with_slice_def sub_slice_def elem_is_def split: if_splits)
  with x y show ?thesis unfolding dyn_at_def by blast
qed

lemma checks_safe:
  assumes ok: "\<forall>r \<in> set rs. vrow_ok st r" and all: "map fst rs = all_fields c"
    and infos: "infos_of c (all_fields c) = map srow_info rs"
    and dyn: "dynamic_fields c = map fst (filter (\<lambda>r. is_variable (srow_ty r)) rs)"
    and lookup: "\<forall>r \<in> set rs. field_infos c (fst r) = Some (fst (snd r))"
    and fixed: "is_fixed c \<longleftrightarrow> (\<forall>r \<in> set rs. \<not> is_variable (srow_ty r))"
    and static: "unat (static_size c) = sum_list (map srow_width rs)"
    and chk: "kexecs V bs (view_checks P c) Map.empty = Done offs"
    and w: "w = (if is_fixed c then take (unat (static_size c)) bs else bs)"
    and r: "(f, r) \<in> set (view_reads P c)"
  shows "reads_safe (offset_places 0 (map srow_info rs)) w r"
proof -
  let ?ps = "map srow_info rs" and ?var = "filter (\<lambda>r. is_variable (srow_ty r)) rs"
  from chk have len: "unat (static_size c) \<le> length bs" by (auto simp: view_checks_def Let_def split: if_splits)
  have fit: "unat (0::u32) + sum_list (map srow_width rs) \<le> length w"
    "unat (0::u32) + sum_list (map srow_width rs) < 2 ^ 32"
    using len static w unat_bound [of "static_size c"] by simp_all
  have d: "dynamic_of ?ps = map srow_info ?var" by (rule dynamic_of_vrows [OF ok])
  show ?thesis
  proof (cases "is_fixed c")
    case True
    with dyn fixed have none: "dynamic_fields c = []" by (simp add: filter_empty_conv)
    show ?thesis
      by (rule fixed_reads_safe [OF _ fit]) (use ok True fixed none r infos in \<open>auto simp: view_reads_def Let_def\<close>)
  next
    case False
    with dyn fixed have some: "dynamic_fields c \<noteq> []" by (simp add: filter_empty_conv)
    from chk False infos obtain offs1 offs2 where
      st: "kexecs V bs (static_checks P (static_size c) 0 0 ?ps) Map.empty = Done offs1"
      and dy: "kexecs V bs (dynamic_checks c (length (dynamic_of ?ps))) offs1 = Done offs2"
      by (auto simp: view_checks_def Let_def split: if_splits)
    have at: "dyn_at (offset_places 0 ?ps) bs (length (dynamic_of ?ps)) (0 + j) (snd (dynamic_of ?ps ! j))"
      if j: "j < length (dynamic_of ?ps)" for j
    proof -
      have lt: "j < length ?var" using j d by simp
      then have in_rs: "?var ! j \<in> set rs" using nth_mem by fastforce
      have fld: "dynamic_fields c ! j = fst (?var ! j)" using lt dyn by simp
      have "field_infos c (dynamic_fields c ! j) = Some (fst (snd (?var ! j)))"
        unfolding fld using lookup in_rs by blast
      moreover have "j < length (dynamic_fields c)" using lt dyn by simp
      ultimately show ?thesis
        using dyn_at_checked [OF st dy len _ j] lt unfolding d by simp
    qed
    have "w = bs" using False w by simp
    with fit have fit': "unat (0::u32) + sum_list (map srow_width rs) \<le> length bs"
      "unat (0::u32) + sum_list (map srow_width rs) < 2 ^ 32" by auto
    have "(f, r) \<in> set (all_reads P (length (dynamic_of ?ps)) 0 0 ?ps)"
      using r some infos by (simp add: view_reads_def Let_def)
    then have "reads_safe (offset_places 0 ?ps) bs r"
      using all_reads_safe [OF ok fit', of _ "length (dynamic_of ?ps)" 0 f r P] at by blast
    with \<open>w = bs\<close> show ?thesis by simp
  qed
qed

text \<open>The views of the structs of a schema.\<close>

definition rust_vprogram :: "nat \<Rightarrow> Parser \<Rightarrow> vprogram" where
  "rust_vprogram depth P nm = map_option (rust_vdecl P) (container_named rust_AnalyzeContainer depth P nm)"

lemma rust_vprogram_decl:
  assumes wf: "wf_schema P" and small: "small_ids P" and names: "names_ok (rust_dialect P) P"
    and n: "Suc k \<le> depth" and ty: "struct_ty (Suc k) P s = Some (TContainer nm fs)" and bits: "fields_bits_ok fs"
  obtains c where "container_named rust_AnalyzeContainer depth P nm = Some c"
    "rust_vprogram depth P nm = Some (rust_vdecl P c)" "container_rep P (struct_ty k P) c fs"
    "\<forall>f \<in> set fs. flat_ty (snd f)"
proof -
  have dist: "distinct (map sd_name (struct_store P))" using names by (simp add: names_ok_def)
  from go_struct_decl [OF wf small dist n struct_ty_in_range [OF ty] ty bits] obtain c where
    c: "container_named go_AnalyzeContainer depth P nm = Some c"
    and rep: "container_rep P (struct_ty k P) c fs"
    and fs: "fields_ty P (struct_ty k P) (sd_fields (struct_at P s)) = Some fs" by blast
  have named: "container_named rust_AnalyzeContainer depth P nm = Some c"
    using c by (simp add: go_copy.container_named_eq [OF rust.go_copy_axioms])
  then have "rust_vprogram depth P nm = Some (rust_vdecl P c)" by (simp add: rust_vprogram_def)
  with that named rep fields_flat [OF containers_struct_ty fs] show thesis by blast
qed

lemma view_rows:
  assumes rep: "container_rep P st c fs" and flat: "\<forall>f \<in> set fs. flat_ty (snd f)" and bits: "fields_bits_ok fs"
    and size: "size_ok (TContainer nm fs)" and readable: "fields_readable fs"
  obtains rs where "\<forall>r \<in> set rs. vrow_ok st r" "map fst rs = all_fields c" "map srow_ty rs = map snd fs"
    "infos_of c (all_fields c) = map srow_info rs"
    "dynamic_fields c = map fst (filter (\<lambda>r. is_variable (srow_ty r)) rs)"
    "\<forall>r \<in> set rs. field_infos c (fst r) = Some (fst (snd r))"
    "is_fixed c \<longleftrightarrow> (\<forall>r \<in> set rs. \<not> is_variable (srow_ty r))"
    "unat (static_size c) = sum_list (map srow_width rs)"
proof -
  have l2: "list_all2 (field_rep P st c) (all_fields c) fs" using rep by (simp add: container_rep_def)
  have "\<forall>f \<in> set fs. flat_ty (snd f) \<and> bits_ok (snd f) \<and> size_ok (snd f) \<and> readable (snd f)"
    using flat bits size readable by (simp add: fields_all)
  from rust_srows [OF l2 this] obtain rs where
    rs: "map fst rs = all_fields c" "infos_of c (all_fields c) = map srow_info rs" "map srow_ty rs = map snd fs"
    "\<forall>r \<in> set rs. vrow_ok st r" unfolding vrow_ok_def by blast
  have "dynamic_fields c = map fst (filter (\<lambda>r. is_variable (srow_ty r)) rs)"
    using rep dynamic_fields_rows [OF rs(1,3)] by (simp add: container_rep_def)
  moreover have "\<forall>r \<in> set rs. field_infos c (fst r) = Some (fst (snd r))"
    using field_infos_srows [OF l2 rs(1,2)] by blast
  moreover have "is_fixed c \<longleftrightarrow> (\<forall>r \<in> set rs. \<not> is_variable (srow_ty r))"
    using rep srows_variable [OF rs(3)] by (simp add: container_rep_def)
  moreover have "unat (static_size c) = sum_list (map srow_width rs)"
    using rep size static_len_widths [OF rs(3)] by (simp add: container_rep_def unat_of_nat)
  ultimately show thesis using that [OF rs(4,1,3,2)] by blast
qed

theorem view_accessors_safe:
  assumes wf: "wf_schema P" and small: "small_ids P" and names: "names_ok (rust_dialect P) P"
    and ty: "struct_ty n P s = Some (TContainer nm fs)" "n \<le> depth" and bits: "fields_bits_ok fs"
    and size: "size_ok (TContainer nm fs)" and readable: "fields_readable fs"
    and w: "view_from (rust_vprogram depth P) m nm bs = Done w"
  shows "\<exists>d. rust_vprogram depth P nm = Some d \<and> (\<forall>f r. (f, r) \<in> set (vd_reads d) \<longrightarrow> reads_safe (vd_offs d) w r)"
proof -
  from ty(1) obtain k where n: "n = Suc k" by (cases n) auto
  from rust_vprogram_decl [OF wf small names _ ty(1) [unfolded n] bits] ty(2) n obtain c where
    c: "rust_vprogram depth P nm = Some (rust_vdecl P c)" "container_rep P (struct_ty k P) c fs"
    "\<forall>f \<in> set fs. flat_ty (snd f)" by blast
  from view_rows [OF c(2,3) bits size readable] obtain rs where
    rs: "\<forall>r \<in> set rs. vrow_ok (struct_ty k P) r" "map fst rs = all_fields c"
    "map srow_ty rs = map snd fs" "infos_of c (all_fields c) = map srow_info rs"
    "dynamic_fields c = map fst (filter (\<lambda>r. is_variable (srow_ty r)) rs)"
    "\<forall>r \<in> set rs. field_infos c (fst r) = Some (fst (snd r))"
    "is_fixed c \<longleftrightarrow> (\<forall>r \<in> set rs. \<not> is_variable (srow_ty r))"
    "unat (static_size c) = sum_list (map srow_width rs)" .
  from w obtain l where m: "m = Suc l" by (cases m) auto
  from w m c(1) obtain offs where
    chk: "kexecs (view_from (rust_vprogram depth P) l) bs (view_checks P c) Map.empty = Done offs"
    and fin: "(if is_fixed c then sub_slice bs 0 (unat (static_size c)) else Done bs) = Done w"
    by (auto simp: rust_vdecl_def split: if_splits)
  from fin have "w = (if is_fixed c then take (unat (static_size c)) bs else bs)"
    by (auto simp: sub_slice_def split: if_splits)
  from checks_safe [OF rs(1,2,4-8) chk this] have
    safe: "(f, r) \<in> set (view_reads P c) \<Longrightarrow> reads_safe (offset_places 0 (map srow_info rs)) w r" for f r by blast
  have "vd_offs (rust_vdecl P c) = offset_places 0 (map srow_info rs)"
    using rs(4,5) dynamic_of_vrows [OF rs(1)] offset_places_empty [of 0 "map srow_info rs"]
    by (auto simp: rust_vdecl_def)
  with safe c(1) show ?thesis by (auto simp: rust_vdecl_def)
qed

end
