(* ===== verification/Rust_To_Owned.thy ===== *)
theory Rust_To_Owned
  imports Rust_View_Safe
begin

text \<open>
  \<open>to_owned_type\<close> of an emitted view decodes the bytes of the view and unwraps the result.  The checks
  of a view do not look into fields that are structs of variable size, nor into the elements of lists
  of such structs; for types without them, what the checks have accepted decodes.
\<close>

definition to_owned_type :: "rprogram \<Rightarrow> nat \<Rightarrow> string \<Rightarrow> byte list \<Rightarrow> val gores" where
  "to_owned_type prog n s w = (case from_ssz_bytes prog n s w of Fails e \<Rightarrow> Panics | r \<Rightarrow> r)"

section \<open>Results that are not errors\<close>

definition no_fail :: "'a gores \<Rightarrow> bool" where
  "no_fail r \<longleftrightarrow> (\<forall>e. r \<noteq> Fails e)"

lemma no_fail_simps [simp]: "no_fail (Done x)" "no_fail Panics" "\<not> no_fail (Fails e)"
  by (simp_all add: no_fail_def)

lemma no_fail_map [simp]: "no_fail (go_map f r) = no_fail r"
  by (cases r) auto

lemma no_fail_basic [simp]:
  "no_fail (or_panic z)" "no_fail (sub_slice bs a b)" "no_fail (read_byte bs a)" "no_fail (to_array n bs)"
  by (cases z) (simp_all add: sub_slice_def read_byte_def to_array_def)

lemma no_fail_uint [simp]: "no_fail (read_uint w bs a b)"
  by (simp add: read_uint_def sub_slice_def)

lemma no_fail_pos [simp]: "no_fail (eval_pos bs offs p)"
  by (cases p) simp_all

lemma no_fail_bind: "no_fail m \<Longrightarrow> (\<And>x. m = Done x \<Longrightarrow> no_fail (f x)) \<Longrightarrow> no_fail (go_bind m f)"
  by (cases m) auto

lemma no_fail_push: "(\<And>x. x \<in> set xs \<Longrightarrow> no_fail (f x)) \<Longrightarrow> no_fail (push_all f xs)"
  by (induction xs) (auto intro!: no_fail_bind)

lemma no_fail_slice: "(\<And>sl. length sl = b - a \<Longrightarrow> no_fail (f sl)) \<Longrightarrow> no_fail (go_bind (sub_slice bs a b) f)"
  by (auto simp: sub_slice_def)

lemma no_fail_with_slice: "(\<And>sl. no_fail (f sl)) \<Longrightarrow> no_fail (with_slice bs offs a b f)"
  by (auto simp: with_slice_def intro!: no_fail_bind)

lemma ok_no_fail: "ok_res Q r \<Longrightarrow> no_fail r \<Longrightarrow> \<exists>x. r = Done x \<and> Q x"
  by (cases r) auto

section \<open>Structs of fixed size\<close>

definition calls_total :: "struct_types \<Rightarrow> rcalls \<Rightarrow> bool" where
  "calls_total st C \<longleftrightarrow>
     (\<forall>q nm fs bs. st q = Some (TContainer nm fs) \<longrightarrow> fields_bits_ok fs \<longrightarrow> size_ok (TContainer nm fs) \<longrightarrow>
        fields_readable fs \<longrightarrow> \<not> any_variable fs \<longrightarrow> fields_len fs \<le> length bs \<longrightarrow> no_fail (C nm bs))"

lemma calls_total_call:
  assumes "calls_total st C" and "named_types P st" and "info_rep st i (TContainer nm fs)" and "fields_bits_ok fs"
    and "size_ok (TContainer nm fs)" and "fields_readable fs" and "\<not> any_variable fs" and "fields_len fs \<le> length bs"
  shows "no_fail (C (info_struct_name P d i) bs)"
proof -
  from assms(3) obtain q where q: "info_struct i = Some q" "st q = Some (TContainer nm fs)" by auto
  with assms(2) have "info_struct_name P d i = nm" by (simp add: info_struct_name_def named_types_def)
  with assms(1,4-8) q(2) show ?thesis unfolding calls_total_def by simp
qed

lemma fixed_read_total:
  assumes C: "calls_total st C" "named_types P st" and row: "vrow_ok st r" "\<not> is_variable (srow_ty r)"
    and fit: "unat off + srow_width r < 2 ^ 32"
  shows "no_fail (eval_read C bs offs (fixed_read P (fst (snd r)) off))"
proof -
  let ?i = "fst (snd r)"
  have e: "unat (off + fixed_size ?i) = unat off + fixed_len (srow_ty r)"
    using vrow_facts(2) [OF row fit] row(2) by (simp add: srow_width_def)
  have rep: "info_rep st ?i (srow_ty r)" using row(1) by (simp add: vrow_ok_def)
  show ?thesis
  proof (cases "ssz_type ?i = SszContainer")
    case True
    with rep obtain nm fs where t: "srow_ty r = TContainer nm fs" by (cases "srow_ty r") (auto simp: uint_ssz.simps split: if_splits)
    have "no_fail (C (info_struct_name P '''' ?i) sl)" if "length sl = fields_len fs" for sl
      by (rule calls_total_call [OF C, of ?i nm fs]) (use rep row t that in \<open>auto simp: vrow_ok_def\<close>)
    with True e t show ?thesis by (auto simp: fixed_read_def Let_def with_slice_def intro!: no_fail_slice)
  next
    case False
    from rep False have "ssz_type ?i \<noteq> SszProgressiveContainer"
      by (cases "srow_ty r") (auto simp: uint_ssz.simps split: if_splits)
    with False show ?thesis
      by (cases "ssz_type ?i") (auto simp: fixed_read_def Let_def intro!: no_fail_with_slice no_fail_bind)
  qed
qed

lemma read_chunks_total:
  "(\<And>j. no_fail (read_elem C sl j (j * k) ((j + 1) * k) el)) \<Longrightarrow> no_fail (read_chunks C k el sl)"
  by (auto simp: read_chunks_def Let_def intro!: no_fail_push)

lemma list_read_total:
  assumes C: "calls_total st C" "named_types P st" and e: "elem_info i = Some e" "info_rep st e t"
    and t: "bits_ok t" "size_ok t" "readable t" "\<not> is_variable t" "fixed_len t < 2 ^ 32"
  shows "no_fail (eval_read C bs offs (list_read P i a b))"
proof (cases "ssz_type e = SszContainer")
  case True
  with e(2) obtain nm fs where c: "t = TContainer nm fs" by (cases t) (auto simp: uint_ssz.simps split: if_splits)
  have k: "unat (fixed_size e) = fields_len fs" using unat_fixed_size [OF e(2) t(4)] t(5) c by simp
  have "no_fail (C (info_struct_name P '''' e) sl)" if "length sl = fields_len fs" for sl
    by (rule calls_total_call [OF C, of e nm fs]) (use e t c that in auto)
  then have "no_fail (read_chunks C (unat (fixed_size e)) (ECall (info_struct_name P '''' e)) sl)" for sl
    using k by (intro read_chunks_total) (auto intro!: no_fail_slice)
  with True e t c show ?thesis by (auto simp: list_read_def intro!: no_fail_with_slice)
next
  case False
  have "\<not> is_dynamic e" using info_rep_dynamic [OF e(2)] t(4) by simp
  then have "ssz_type e \<noteq> SszList" using e(2) t(4) by (cases t) (auto simp: uint_ssz.simps split: if_splits)
  with False e(1) show ?thesis
    by (cases "ssz_type e") (auto simp: list_read_def intro!: no_fail_with_slice read_chunks_total)
qed

section \<open>Bodies\<close>

lemma set_total: "no_fail (eval_read C bs (rf_offs fr) e) \<Longrightarrow> no_fail (rexec C bs (RSet f e) fr)"
  by (auto intro!: no_fail_bind)

lemma literal_total:
  assumes C: "calls_total st C" "named_types P st" and "\<forall>r \<in> set rs. vrow_ok st r \<and> \<not> is_variable (srow_ty r)"
    and "unat off + sum_list (map srow_width rs) < 2 ^ 32"
  shows "no_fail (rexecs C bs (map (\<lambda>(f, e). RSet f e) (literal_fields P off (map srow_info rs))) fr)"
  using assms(3,4)
proof (induction rs arbitrary: off fr)
  case (Cons r rs)
  have r: "vrow_ok st r" "\<not> is_variable (srow_ty r)" using Cons.prems(1) by auto
  have fit: "unat off + srow_width r < 2 ^ 32" using Cons.prems(2) by simp
  have "no_fail (rexecs C bs (map (\<lambda>(f, e). RSet f e) (literal_fields P (off + fixed_size (fst (snd r))) (map srow_info rs))) fr)" for fr
    by (rule Cons.IH) (use Cons.prems vrow_facts(2) [OF r fit] in auto)
  then show ?case using set_total [OF fixed_read_total [OF C r fit]] by (auto intro!: no_fail_bind simp del: rexec.simps)
qed simp

text \<open>The decoder reads the offsets as the checks have read them.\<close>

lemma static_total:
  assumes C: "calls_total st C" "named_types P st" and "\<forall>r \<in> set rs. vrow_ok st r"
    and "unat off + sum_list (map srow_width rs) < 2 ^ 32"
    and "kexecs V bs (static_checks P static off k (map srow_info rs)) (rf_offs fr) = Done offs"
  shows "no_fail (rexecs C bs (static_reads P static off k (map srow_info rs)) fr)"
  using assms(3-5)
proof (induction rs arbitrary: off k fr)
  case (Cons r rs)
  have r: "vrow_ok st r" using Cons.prems(1) by auto
  have fit: "unat off + srow_width r < 2 ^ 32" using Cons.prems(2) by simp
  note dyn = vrow_facts(1) [OF r]
  show ?case
  proof (cases "is_variable (srow_ty r)")
    case True
    then have w: "srow_width r = 4" by (simp add: srow_width_def)
    have off: "unat (off + 4) = unat off + 4" using unat_offset [of off 4] fit w by simp
    have ok: "\<forall>r \<in> set rs. vrow_ok st r" using Cons.prems(1) by auto
    have fit': "unat (off + 4) + sum_list (map srow_width rs) < 2 ^ 32" using Cons.prems(2) off w by simp
    from Cons.prems(3) True dyn obtain x where x: "read_uint 32 bs (unat off) (unat (off + 4)) = Done x"
      and chk: "kexec V bs (if k = 0 then KFirst static else KOrder k) ((rf_offs fr)(k \<mapsto> x)) = Done ((rf_offs fr)(k \<mapsto> x))"
      and rest: "kexecs V bs (static_checks P static (off + 4) (Suc k) (map srow_info rs)) ((rf_offs fr)(k \<mapsto> x)) = Done offs"
      by (auto split: if_splits)
    let ?fr = "fr\<lparr>rf_offs := (rf_offs fr)(k \<mapsto> x)\<rparr>"
    have upd: "rf_offs ?fr = (rf_offs fr)(k \<mapsto> x)" by simp
    have "no_fail (rexecs C bs (static_reads P static (off + 4) (Suc k) (map srow_info rs)) ?fr)"
      by (rule Cons.IH [OF ok fit']) (simp only: upd rest)
    moreover have "rexec C bs (if k = 0 then RFirst static else ROrder k) ?fr = Done ?fr"
      using chk by (auto split: if_splits)
    ultimately show ?thesis using x True dyn by auto
  next
    case False
    from Cons.prems(3) False dyn obtain offs1 where one: "kexecs V bs (field_checks P (fst (snd r)) off) (rf_offs fr) = Done offs1"
      and rest: "kexecs V bs (static_checks P static (off + fixed_size (fst (snd r))) k (map srow_info rs)) offs1 = Done offs"
      by auto
    from field_checks_done [OF one] have same: "offs1 = rf_offs fr" .
    have "no_fail (rexecs C bs (static_reads P static (off + fixed_size (fst (snd r))) k (map srow_info rs)) (fr\<lparr>rf_mem := m\<rparr>))" for m
      by (rule Cons.IH) (use Cons.prems(1,2) vrow_facts(2) [OF r False fit] rest same in auto)
    with fixed_read_total [OF C r False fit] False dyn show ?thesis by (auto intro!: no_fail_bind)
  qed
qed simp

text \<open>A field whose content the checks of the view cover.\<close>

fun covered :: "ssz_ty \<Rightarrow> bool" where
  "covered (TContainer nm fs) = (\<not> any_variable fs)"
| "covered (TList t l) = (\<not> is_variable t)"
| "covered (TProgressiveList t) = (\<not> is_variable t)"
| "covered t = True"

lemma dynamic_total:
  assumes C: "calls_total st C" "named_types P st" and "\<forall>r \<in> set rs. vrow_ok st r \<and> covered (srow_ty r) \<and> is_variable (srow_ty r)"
  shows "no_fail (rexecs C bs (dynamic_reads P k (map srow_info rs)) fr)"
  using assms(3)
proof (induction rs arbitrary: k fr)
  case (Cons r rs)
  have r: "vrow_ok st r" "covered (srow_ty r)" "is_variable (srow_ty r)" using Cons.prems by auto
  have "no_fail (eval_read C bs offs (dyn_read P (fst (snd r)) a b))" for offs a b
  proof (cases "srow_ty r")
    case (TList t l)
    with r obtain e where "elem_info (fst (snd r)) = Some e" "info_rep st e t" by (auto simp: vrow_ok_def)
    from list_read_total [OF C this] TList r show ?thesis by (auto simp: dyn_read_def vrow_ok_def)
  next
    case (TProgressiveList t)
    with r obtain e where "elem_info (fst (snd r)) = Some e" "info_rep st e t" by (auto simp: vrow_ok_def)
    from list_read_total [OF C this] TProgressiveList r show ?thesis by (auto simp: dyn_read_def vrow_ok_def)
  qed (use r in \<open>auto simp: dyn_read_def vrow_ok_def intro!: no_fail_with_slice\<close>)
  with Cons show ?case by (auto intro!: no_fail_bind)
qed simp

lemma build_total: "no_fail (build d nm m)"
  by (auto simp: build_def intro!: no_fail_push)

lemma from_fixed_total:
  assumes wf: "wf_schema P" and small: "small_ids P" and names: "names_ok (rust_dialect P) P"
  shows "n \<le> depth \<Longrightarrow> struct_ty n P s = Some (TContainer nm fs) \<Longrightarrow> fields_bits_ok fs \<Longrightarrow>
    size_ok (TContainer nm fs) \<Longrightarrow> fields_readable fs \<Longrightarrow> \<not> any_variable fs \<Longrightarrow> fields_len fs \<le> length bs \<Longrightarrow>
    no_fail (from_ssz_bytes (rust_rprogram depth P) n nm bs)"
proof (induction n arbitrary: s nm fs bs)
  case (Suc k)
  from rust_rprogram_decl [OF wf small names Suc.prems(1-3)] obtain c where
    prog: "rust_rprogram depth P nm = Some (rust_rdecl P c)"
    and rep: "container_rep P (struct_ty k P) c fs" and flat: "\<forall>f \<in> set fs. flat_ty (snd f)" .
  have named: "named_types P (struct_ty k P)" unfolding named_types_def using struct_ty_name by blast
  have C: "calls_total (struct_ty k P) (from_ssz_bytes (rust_rprogram depth P) k)"
    unfolding calls_total_def using Suc.IH Suc.prems(1) by auto
  from view_rows [OF rep flat Suc.prems(3-5)] obtain rs where
    rs: "\<forall>r \<in> set rs. vrow_ok (struct_ty k P) r" "map fst rs = all_fields c" "map srow_ty rs = map snd fs"
    "infos_of c (all_fields c) = map srow_info rs"
    "dynamic_fields c = map fst (filter (\<lambda>r. is_variable (srow_ty r)) rs)"
    "\<forall>r \<in> set rs. field_infos c (fst r) = Some (fst (snd r))"
    "is_fixed c \<longleftrightarrow> (\<forall>r \<in> set rs. \<not> is_variable (srow_ty r))"
    "unat (static_size c) = sum_list (map srow_width rs)" .
  have fixed: "\<forall>r \<in> set rs. \<not> is_variable (srow_ty r)"
    using rep rs(7) Suc.prems(6) by (simp add: container_rep_def)
  have none: "dynamic_fields c = []" using dynamic_fields_empty [OF rep] Suc.prems(6) by simp
  have "unat (static_size c) = fields_len fs"
    using rs(8) static_len_widths [OF rs(3)] static_len_fixed [OF Suc.prems(6)] by simp
  then have guard: "\<not> length bs < unat (static_size c)" using Suc.prems(7) by simp
  have ok: "\<forall>r \<in> set rs. vrow_ok (struct_ty k P) r \<and> \<not> is_variable (srow_ty r)" using rs(1) fixed by blast
  have fit: "unat (0::u32) + sum_list (map srow_width rs) < 2 ^ 32"
    using rs(8) unat_bound [of "static_size c"] by simp
  have body: "rd_body (rust_rdecl P c) = RLiteral (static_size c) (literal_fields P 0 (map srow_info rs))"
    using none rs(4) by (simp add: rust_rdecl_def from_body_def Let_def)
  show ?case
    using prog body guard literal_total [OF C named ok fit] by (auto intro!: no_fail_bind build_total)
qed simp

theorem view_to_owned_total:
  assumes wf: "wf_schema P" and small: "small_ids P" and names: "names_ok (rust_dialect P) P"
    and ty: "struct_ty n P s = Some (TContainer nm fs)" "n \<le> depth" and bits: "fields_bits_ok fs"
    and size: "size_ok (TContainer nm fs)" and readable: "fields_readable fs"
    and pf: "fields_panic_free fs" and covered: "\<forall>f \<in> set fs. covered (snd f)"
    and w: "view_from (rust_vprogram depth P) m nm bs = Done w"
  shows "\<exists>v. from_ssz_bytes (rust_rprogram depth P) n nm w = Done v \<and> val_ok (TContainer nm fs) v"
proof (rule ok_no_fail [OF from_safe [OF wf small names ty(2,1) bits size readable pf]])
  from ty(1) obtain k where n: "n = Suc k" by (cases n) auto
  have le: "Suc k \<le> depth" using ty(2) n by simp
  from rust_vprogram_decl [OF wf small names le ty(1) [unfolded n] bits] obtain c where
    named_c: "container_named rust_AnalyzeContainer depth P nm = Some c"
    and c: "rust_vprogram depth P nm = Some (rust_vdecl P c)" "container_rep P (struct_ty k P) c fs"
    "\<forall>f \<in> set fs. flat_ty (snd f)" .
  from w obtain l where m: "m = Suc l" by (cases m) auto
  from w m c(1) obtain offs where
    chk: "kexecs (view_from (rust_vprogram depth P) l) bs (view_checks P c) Map.empty = Done offs"
    and fin: "(if is_fixed c then sub_slice bs 0 (unat (static_size c)) else Done bs) = Done w"
    by (auto simp: rust_vdecl_def split: if_splits)
  from view_rows [OF c(2,3) bits size readable] obtain rs where
    rs: "\<forall>r \<in> set rs. vrow_ok (struct_ty k P) r" "map fst rs = all_fields c" "map srow_ty rs = map snd fs"
    "infos_of c (all_fields c) = map srow_info rs"
    "dynamic_fields c = map fst (filter (\<lambda>r. is_variable (srow_ty r)) rs)"
    "\<forall>r \<in> set rs. field_infos c (fst r) = Some (fst (snd r))"
    "is_fixed c \<longleftrightarrow> (\<forall>r \<in> set rs. \<not> is_variable (srow_ty r))"
    "unat (static_size c) = sum_list (map srow_width rs)" .
  show "no_fail (from_ssz_bytes (rust_rprogram depth P) n nm w)"
  proof (cases "any_variable fs")
    case False
    have "unat (static_size c) = fields_len fs"
      using rs(8) static_len_widths [OF rs(3)] static_len_fixed [OF False] by simp
    then have "fields_len fs \<le> length w"
      using fin False c(2) by (auto simp: container_rep_def sub_slice_def split: if_splits)
    from from_fixed_total [OF wf small names ty(2,1) bits size readable False this] show ?thesis .
  next
    case True
    have named: "named_types P (struct_ty k P)" unfolding named_types_def using struct_ty_name by blast
    have C: "calls_total (struct_ty k P) (from_ssz_bytes (rust_rprogram depth P) k)"
      unfolding calls_total_def using from_fixed_total [OF wf small names] le by auto
    have prog: "rust_rprogram depth P nm = Some (rust_rdecl P c)" using named_c by (simp add: rust_rprogram_def)
    have some: "dynamic_fields c \<noteq> []" using dynamic_fields_empty [OF c(2)] True by simp
    have "\<not> is_fixed c" using c(2) True by (simp add: container_rep_def)
    with fin have w: "w = bs" by simp
    let ?var = "filter (\<lambda>r. is_variable (srow_ty r)) rs"
    from chk \<open>\<not> is_fixed c\<close> rs(4) obtain offs1 where guard: "\<not> length bs < unat (static_size c)"
      and st: "kexecs (view_from (rust_vprogram depth P) l) bs (static_checks P (static_size c) 0 0 (map srow_info rs)) Map.empty = Done offs1"
      by (auto simp: view_checks_def Let_def split: if_splits)
    have fit: "unat (0::u32) + sum_list (map srow_width rs) < 2 ^ 32"
      using rs(8) unat_bound [of "static_size c"] by simp
    have cov: "\<forall>r \<in> set ?var. vrow_ok (struct_ty k P) r \<and> covered (srow_ty r) \<and> is_variable (srow_ty r)"
    proof
      fix r assume r: "r \<in> set ?var"
      then have "srow_ty r \<in> set (map snd fs)" unfolding rs(3) [symmetric] by simp
      then have "covered (srow_ty r)" using covered by auto
      with r rs(1) show "vrow_ok (struct_ty k P) r \<and> covered (srow_ty r) \<and> is_variable (srow_ty r)" by simp
    qed
    have body: "rd_body (rust_rdecl P c) = RAssigns (RGuard (static_size c) #
        static_reads P (static_size c) 0 0 (map srow_info rs) @ dynamic_reads P 0 (map srow_info ?var))"
      using some rs(4) dynamic_of_vrows [OF rs(1)] by (simp add: rust_rdecl_def from_body_def Let_def)
    have "no_fail (rexecs C' bs (static_reads P (static_size c) 0 0 (map srow_info rs)) fr)"
      if "C' = from_ssz_bytes (rust_rprogram depth P) k" "rf_offs fr = Map.empty" for C' fr
      by (rule static_total [OF _ named rs(1) fit]) (use C st that in simp_all)
    then show ?thesis
      unfolding n w using prog body guard dynamic_total [OF C named cov]
      by (auto intro!: no_fail_bind build_total)
  qed
qed

end
