(* ===== verification/Rust_View_Accepts.thy ===== *)
theory Rust_View_Accepts
  imports Rust_To_Owned
begin

text \<open>The checks of an emitted view accept every serialization of a value of the struct.\<close>

section \<open>Checks of one field\<close>

definition calls_accept :: "struct_types \<Rightarrow> (string \<Rightarrow> byte list \<Rightarrow> byte list gores) \<Rightarrow> bool" where
  "calls_accept st V \<longleftrightarrow>
     (\<forall>q nm fs vs. st q = Some (TContainer nm fs) \<longrightarrow> fields_bits_ok fs \<longrightarrow> size_ok (TContainer nm fs) \<longrightarrow>
        fields_readable fs \<longrightarrow> vals_ok fs vs \<longrightarrow> length (serialize (TContainer nm fs) (VStruct nm vs)) < 2 ^ 32 \<longrightarrow>
        V nm (serialize (TContainer nm fs) (VStruct nm vs)) = Done (serialize (TContainer nm fs) (VStruct nm vs)))"

lemma calls_accept_call:
  assumes "calls_accept st V" and "named_types P st" and "info_rep st i (TContainer nm fs)" and "fields_bits_ok fs"
    and "size_ok (TContainer nm fs)" and "fields_readable fs" and "val_ok (TContainer nm fs) v"
    and "length (serialize (TContainer nm fs) v) < 2 ^ 32"
  shows "V (info_struct_name P d i) (serialize (TContainer nm fs) v) = Done (serialize (TContainer nm fs) v)"
proof -
  from assms(7) obtain vs where v: "v = VStruct nm vs" "vals_ok fs vs" by auto
  from assms(3) obtain q where q: "info_struct i = Some q" "st q = Some (TContainer nm fs)" by auto
  with assms(2) have nm: "info_struct_name P d i = nm" by (simp add: info_struct_name_def named_types_def)
  have "length (serialize (TContainer nm fs) (VStruct nm vs)) < 2 ^ 32" using assms(8) v by (simp only:)
  with assms(1,4-6) v(2) q(2) have
    "V nm (serialize (TContainer nm fs) (VStruct nm vs)) = Done (serialize (TContainer nm fs) (VStruct nm vs))"
    unfolding calls_accept_def by blast
  then show ?thesis by (simp only: nm v(1))
qed

lemma field_checks_accept:
  assumes V: "calls_accept st V" "named_types P st" and r: "rust_row_ok st r" "\<not> is_variable (row_ty r)"
    and at: "at_pos bs (unat off) (serialize (row_ty r) (row_val r))"
    and fit: "unat off + fixed_len (row_ty r) < 2 ^ 32"
  shows "kexecs V bs (field_checks P (fst (snd r)) off) offs = Done offs"
proof -
  let ?i = "fst (snd r)"
  have rep: "info_rep st ?i (row_ty r)" and ok: "val_ok (row_ty r) (row_val r)" using r(1) by (simp_all add: rust_row_ok_def)
  note f = rust_row_facts(2,3) [OF r]
  have e: "unat (off + fixed_size ?i) = unat off + fixed_len (row_ty r)" using unat_offset [OF fit] f(1) by simp
  show ?thesis
  proof (cases "row_ty r")
    case TBool
    with ok obtain b where "row_val r = VBool b" by auto
    with TBool rep read_byte_at [of bs "unat off" "if b then 1 else 0"] at show ?thesis
      by (auto simp: field_checks_def)
  next
    case (TContainer nm fs)
    have "sub_slice bs (unat off) (unat (off + fixed_size ?i)) = Done (serialize (row_ty r) (row_val r))"
      by (rule sub_slice_at [OF at]) (simp add: e f(2))
    moreover have "V (info_struct_name P '''' ?i) (serialize (row_ty r) (row_val r)) = Done (serialize (row_ty r) (row_val r))"
      using calls_accept_call [OF V, of ?i nm fs "row_val r"] r f(2) fit TContainer by (simp add: rust_row_ok_def)
    moreover have "ssz_type ?i \<noteq> SszBool" using rep TContainer by simp
    ultimately show ?thesis by (simp add: field_checks_def)
  qed (use rep r in \<open>auto simp: field_checks_def uint_ssz.simps split: if_splits\<close>)
qed

section \<open>Contents\<close>

lemma inner_loop_accept:
  assumes off: "\<And>k. k < n \<Longrightarrow> read_uint 32 sl (k * 4) (k * 4 + 4) = Done (s k)"
    and mono: "\<And>k. k + 1 < n \<Longrightarrow> s k \<le> s (k + 1)" and bound: "\<And>k. k < n \<Longrightarrow> s k \<le> length sl"
    and j: "Suc j \<le> n"
  shows "inner_loop sl (s j) [Suc j..<n] = Done ()"
  using j
proof (induction "n - j" arbitrary: j)
  case (Suc d)
  show ?case
  proof (cases "Suc j < n")
    case True
    then have l: "[Suc j..<n] = Suc j # [Suc (Suc j)..<n]" by (simp add: upt_rec)
    have "inner_loop sl (s (Suc j)) [Suc (Suc j)..<n] = Done ()" by (rule Suc.hyps(1)) (use Suc.hyps(2) True in auto)
    with off [OF True] mono [of j] bound [OF True] True show ?thesis
      unfolding l by (simp add: linorder_not_less del: upt_Suc)
  qed simp
qed simp

lemma inner_check_accept:
  assumes sl: "sl = ser_parts (map (\<lambda>x. (True, g x)) xs)" "length sl < 2 ^ 32"
  shows "inner_check sl = Done ()"
proof (cases "xs = []")
  case True
  with sl(1) show ?thesis by (simp add: inner_check_def ser_parts_def)
next
  case False
  note h = offsets_hold [OF at_whole [OF sl(1)], unfolded snd_conv, OF arg_cong [OF sl(1), of length]]
  have small: "elem_start g xs k < 2 ^ 32" if "k \<le> length xs" for k
    using h(3) [OF that] sl(2) by simp
  have off: "read_uint 32 sl (k * 4) (k * 4 + 4) = Done (elem_start g xs k)" if "k < length xs" for k
    by (rule read_uint_at [where k = 4]) (use h(1) [OF that] small [of k] that in \<open>simp_all add: mult.commute\<close>)
  have first: "read_uint 32 sl 0 4 = Done (4 * length xs)"
    using off [of 0] False by (simp add: elem_start_def)
  have le: "4 * length xs \<le> length sl" using h(3) [of 0] by (simp add: elem_start_def)
  have "inner_loop sl (elem_start g xs 0) [Suc 0..<length xs] = Done ()"
    by (rule inner_loop_accept [where s = "elem_start g xs"])
      (use off h(3) elem_start_Suc [of _ xs g] False in \<open>auto simp: Suc_le_eq\<close>)
  then have "inner_loop sl (4 * length xs) [1..<length xs] = Done ()" by (simp add: elem_start_def)
  moreover have "\<not> length sl < 4"
  proof -
    have "4 * 1 \<le> 4 * length xs" using False by (intro mult_le_mono2) (simp add: Suc_le_eq)
    with le show ?thesis by linarith
  qed
  moreover from this have "sl \<noteq> []" by auto
  ultimately show ?thesis using first le by (simp add: inner_check_def)
qed

lemma content_checks_accept:
  assumes r: "rust_row_ok st r" "is_variable (row_ty r)" and len: "length (serialize (row_ty r) (row_val r)) < 2 ^ 32"
    and pos: "eval_pos bs offs a = Done x" "eval_pos bs offs b = Done (x + length (serialize (row_ty r) (row_val r)))"
    and at: "at_pos bs x (serialize (row_ty r) (row_val r))"
  shows "kexecs V bs (content_checks (fst (snd r)) a b) offs = Done offs"
proof (cases "row_ty r")
  case (TList t l)
  let ?i = "fst (snd r)"
  from r TList obtain e where e: "elem_info ?i = Some e" "info_rep st e t" by (auto simp: rust_row_ok_def)
  show ?thesis
  proof (cases "ssz_type e = SszContainer")
    case True
    with e(2) obtain nm fs where t: "t = TContainer nm fs" by (cases t) (auto simp: uint_ssz.simps split: if_splits)
    with r TList obtain xs where v: "row_val r = VSeq xs" "\<forall>x \<in> set xs. val_ok t x"
      by (auto simp: rust_row_ok_def is_byte_ty_def)
    have ser: "serialize (row_ty r) (row_val r) = ser_parts (map (\<lambda>x. (is_variable t, serialize t x)) xs)"
      using v TList t by (simp add: is_byte_ty_def)
    show ?thesis
    proof (cases "is_variable t")
      case var: True
      have "inner_check (serialize (row_ty r) (row_val r)) = Done ()"
        by (rule inner_check_accept [OF _ len, of "serialize t" xs]) (use ser var in simp)
      with e True var info_rep_dynamic [OF e(2)] with_slice_at [OF pos at, of "\<lambda>sl. go_bind (inner_check sl) (\<lambda>u. Done offs)"] show ?thesis
        by (simp add: content_checks_def elem_dynamic_def)
    next
      case False
      have "fixed_len t < 2 ^ 32" using r False TList by (simp add: rust_row_ok_def)
      then have "unat (fixed_size e) = fixed_len t" by (rule unat_fixed_size [OF e(2) False])
      moreover have "length (serialize (row_ty r) (row_val r)) = length xs * fixed_len t"
        unfolding ser by (rule length_ser_fixed [OF False v(2)])
      ultimately show ?thesis using e True False info_rep_dynamic [OF e(2)] pos
        by (auto simp: content_checks_def elem_dynamic_def elem_fixed_size_def)
    qed
  qed (use e in \<open>simp add: content_checks_def elem_is_def\<close>)
qed (use r in \<open>auto simp: content_checks_def rust_row_ok_def uint_ssz.simps split: if_splits\<close>)

section \<open>All checks\<close>

lemma fixed_checks_accept:
  assumes V: "calls_accept st V" "named_types P st"
    and "\<forall>r \<in> set rs. rust_row_ok st r \<and> \<not> is_variable (row_ty r)"
    and "unat off + heads_len (map row_part rs) < 2 ^ 32"
    and "at_pos bs (unat off) (heads pos (map row_part rs))"
  shows "kexecs V bs (fixed_checks P off (map row_info rs)) offs = Done offs"
  using assms(3-5)
proof (induction rs arbitrary: off)
  case (Cons r rs)
  from Cons.prems have r: "rust_row_ok st r" "\<not> is_variable (row_ty r)" by simp_all
  note f = rust_row_facts(2,3) [OF r]
  have fit: "unat off + fixed_len (row_ty r) < 2 ^ 32" using Cons.prems(2) r(2) f(2) by simp
  have off: "unat (off + fixed_size (fst (snd r))) = unat off + fixed_len (row_ty r)"
    using unat_offset [OF fit] f(1) by simp
  have h: "at_pos bs (unat off) (serialize (row_ty r) (row_val r))"
    "at_pos bs (unat off + fixed_len (row_ty r)) (heads pos (map row_part rs))"
    using Cons.prems(3) r(2) f(2) by (simp_all add: holds_append)
  have "kexecs V bs (fixed_checks P (off + fixed_size (fst (snd r))) (map row_info rs)) offs = Done offs"
    by (rule Cons.IH) (use Cons.prems h off f(2) r(2) in auto)
  with field_checks_accept [OF V r h(1) fit] show ?case by simp
qed simp

lemma offset_check_accept:
  assumes at: "at_pos bs (unat off) (le_bytes 4 pos)" and pos: "pos < 2 ^ 32" "pos \<le> length bs"
    and fit: "unat off + 4 < 2 ^ 32"
    and first: "k = 0 \<longrightarrow> pos = unat static" and rest: "k \<noteq> 0 \<longrightarrow> (\<exists>q. offs (k - 1) = Some q \<and> q \<le> pos)"
  shows "kexecs V bs [KRead k off, if k = 0 then KFirst static else KOrder k] offs = Done (offs(k \<mapsto> pos))"
proof -
  have "unat (off + 4) = unat off + 4" using unat_offset [of off 4] fit by simp
  with read_uint_at [OF at, of 32 "unat (off + 4)"] pos(1) have
    read: "read_uint 32 bs (unat off) (unat (off + 4)) = Done pos" by simp
  show ?thesis
  proof (cases "k = 0")
    case True
    with read first show ?thesis by simp
  next
    case False
    with rest obtain q where "offs (k - 1) = Some q" "q \<le> pos" by blast
    with read False pos(2) show ?thesis by simp
  qed
qed

lemma static_checks_accept:
  assumes V: "calls_accept st V" "named_types P st" and "\<forall>r \<in> set rs. rust_row_ok st r"
    and "unat off + heads_len (map row_part rs) < 2 ^ 32"
    and "at_pos bs (unat off) (heads pos (map row_part rs))"
    and "pos + length (tails (map row_part rs)) \<le> length bs" and len: "length bs < 2 ^ 32"
    and "k = 0 \<longrightarrow> pos = unat static" and "k \<noteq> 0 \<longrightarrow> (\<exists>q. offs (k - 1) = Some q \<and> q \<le> pos)"
  shows "kexecs V bs (static_checks P static off k (map row_info rs)) offs = Done (set_offs k (row_offsets pos rs) offs)"
  using assms(3-6,8,9)
proof (induction rs arbitrary: off k pos offs)
  case (Cons r rs)
  from Cons.prems have r: "rust_row_ok st r" by simp
  note dyn = rust_row_facts(1) [OF r]
  let ?b = "serialize (row_ty r) (row_val r)"
  show ?case
  proof (cases "is_variable (row_ty r)")
    case True
    have h: "at_pos bs (unat off) (le_bytes 4 pos)" "at_pos bs (unat off + 4) (heads (pos + length ?b) (map row_part rs))"
      using Cons.prems(3) True by (simp_all add: holds_append)
    have fit: "unat off + 4 < 2 ^ 32" using Cons.prems(2) True by simp
    have off: "unat (off + 4) = unat off + 4" using unat_offset [of off 4] fit by simp
    have "kexecs V bs [KRead k off, if k = 0 then KFirst static else KOrder k] offs = Done (offs(k \<mapsto> pos))"
      by (rule offset_check_accept [where offs = offs and k = k, OF h(1) _ _ fit Cons.prems(5,6)]) (use Cons.prems(4) len True in simp_all)
    moreover have "kexecs V bs (static_checks P static (off + 4) (Suc k) (map row_info rs)) (offs(k \<mapsto> pos)) =
        Done (set_offs (Suc k) (row_offsets (pos + length ?b) rs) (offs(k \<mapsto> pos)))"
      by (rule Cons.IH) (use Cons.prems True h off in \<open>auto simp: add.assoc\<close>)
    ultimately show ?thesis using True dyn
      by (simp only: list.map static_checks.simps kexecs_append row_offsets.simps set_offs.simps
          simp_thms if_True if_False) simp
  next
    case False
    note f = rust_row_facts(2,3) [OF r False]
    have h: "at_pos bs (unat off) ?b" "at_pos bs (unat off + fixed_len (row_ty r)) (heads pos (map row_part rs))"
      using Cons.prems(3) False f(2) by (simp_all add: holds_append)
    have fit: "unat off + fixed_len (row_ty r) < 2 ^ 32" using Cons.prems(2) False f(2) by simp
    have off: "unat (off + fixed_size (fst (snd r))) = unat off + fixed_len (row_ty r)"
      using unat_offset [OF fit] f(1) by simp
    have "kexecs V bs (static_checks P static (off + fixed_size (fst (snd r))) k (map row_info rs)) offs =
      Done (set_offs k (row_offsets pos rs) offs)"
      by (rule Cons.IH) (use Cons.prems False h off f(2) in auto)
    with field_checks_accept [OF V r False h(1) fit] False dyn show ?thesis by simp
  qed
qed simp

text \<open>The dynamic fields lie one after the other.\<close>

lemma var_row_at:
  assumes "\<forall>r \<in> set rs. is_variable (row_ty r)" and "at_pos bs pos (tails (map row_part rs))" and "j < length rs"
  shows "at_pos bs (row_offsets pos rs ! j) (serialize (row_ty (rs ! j)) (row_val (rs ! j)))"
    and "(if j + 1 < length rs then row_offsets pos rs ! (j + 1) else pos + length (tails (map row_part rs))) =
      row_offsets pos rs ! j + length (serialize (row_ty (rs ! j)) (row_val (rs ! j)))"
    and "length (serialize (row_ty (rs ! j)) (row_val (rs ! j))) \<le> length (tails (map row_part rs))"
  using assms
proof (induction rs arbitrary: pos j)
  case (Cons r rs)
  {
    case 1
    then have h: "at_pos bs (pos + length (serialize (row_ty r) (row_val r))) (tails (map row_part rs))"
      "at_pos bs pos (serialize (row_ty r) (row_val r))" by (auto simp: holds_append)
    with 1 Cons.IH(1) [OF _ h(1)] show ?case by (cases j) auto
  next
    case 2
    then have h: "at_pos bs (pos + length (serialize (row_ty r) (row_val r))) (tails (map row_part rs))"
      by (auto simp: holds_append)
    show ?case
    proof (cases j)
      case 0
      with 2 show ?thesis by (cases rs) auto
    next
      case (Suc i)
      with 2 Cons.IH(2) [OF _ h, of i] show ?thesis by (auto simp: add.assoc)
    qed
  next
    case 3
    then have h: "at_pos bs (pos + length (serialize (row_ty r) (row_val r))) (tails (map row_part rs))"
      by (auto simp: holds_append)
    with 3 Cons.IH(3) [OF _ h] show ?case by (cases j) (auto intro: trans_le_add2)
  }
qed simp_all

lemma kexecs_concat:
  "(\<And>ks. ks \<in> set kss \<Longrightarrow> kexecs V bs ks offs = Done offs) \<Longrightarrow> kexecs V bs (concat kss) offs = Done offs"
  by (induction kss) auto

lemma dynamic_checks_accept:
  assumes ok: "\<forall>r \<in> set rs. rust_row_ok st r \<and> is_variable (row_ty r)"
    and dyn: "dynamic_fields c = map fst rs" and lookup: "\<forall>r \<in> set rs. field_infos c (fst r) = Some (fst (snd r))"
    and at: "at_pos bs pos (tails (map row_part rs))" and fin: "pos + length (tails (map row_part rs)) = length bs"
    and len: "length bs < 2 ^ 32" and offs: "\<forall>j < length rs. offs j = Some (row_offsets pos rs ! j)"
  shows "kexecs V bs (dynamic_checks c (length rs)) offs = Done offs"
  unfolding dynamic_checks_def
proof (rule kexecs_concat)
  let ?g = "\<lambda>i. if i < length (dynamic_fields c) then
      (case field_infos c (dynamic_fields c ! i) of
         None \<Rightarrow> []
       | Some info \<Rightarrow> content_checks info (ROff i) (end_pos (length rs) i))
    else []"
  fix ks assume "ks \<in> set (map ?g [0..<length rs])"
  then obtain j where j: "j < length rs" "ks = ?g j" by auto
  have in_rs: "rs ! j \<in> set rs" using j(1) by simp
  have "field_infos c (dynamic_fields c ! j) = Some (fst (snd (rs ! j)))"
    using lookup in_rs dyn j(1) by simp
  with j dyn have ks: "ks = content_checks (fst (snd (rs ! j))) (ROff j) (end_pos (length rs) j)" by simp
  have var: "\<forall>r \<in> set rs. is_variable (row_ty r)" using ok by blast
  note row = var_row_at [OF var at j(1)]
  have lo: "eval_pos bs offs (ROff j) = Done (row_offsets pos rs ! j)" using offs j(1) by simp
  have hi: "eval_pos bs offs (end_pos (length rs) j) =
      Done (row_offsets pos rs ! j + length (serialize (row_ty (rs ! j)) (row_val (rs ! j))))"
    using row(2) offs fin by (auto simp: end_pos_def split: if_splits)
  have small: "length (serialize (row_ty (rs ! j)) (row_val (rs ! j))) < 2 ^ 32" using row(3) fin len by simp
  show "kexecs V bs ks offs = Done offs"
    unfolding ks by (rule content_checks_accept [OF _ _ small lo hi row(1)]) (use ok in_rs in blast)+
qed

lemma checks_accept:
  assumes V: "calls_accept st V" "named_types P st" and ok: "\<forall>r \<in> set rs. rust_row_ok st r"
    and infos: "infos_of c (all_fields c) = map row_info rs"
    and dyn: "dynamic_fields c = map fst (filter (\<lambda>r. is_variable (row_ty r)) rs)"
    and lookup: "\<forall>r \<in> set rs. field_infos c (fst r) = Some (fst (snd r))"
    and fixed: "is_fixed c \<longleftrightarrow> (\<forall>r \<in> set rs. \<not> is_variable (row_ty r))"
    and static: "unat (static_size c) = heads_len (map row_part rs)"
    and bs: "bs = ser_parts (map row_part rs)" "length bs < 2 ^ 32"
  shows "\<exists>offs. kexecs V bs (view_checks P c) Map.empty = Done offs"
proof -
  let ?parts = "map row_part rs" and ?var = "filter (\<lambda>r. is_variable (row_ty r)) rs"
  from at_whole [OF bs(1)] have h: "at_pos bs 0 (heads (heads_len ?parts) ?parts)"
    "at_pos bs (heads_len ?parts) (tails ?parts)"
    by (simp_all add: ser_parts_def holds_append)
  have len: "length bs = heads_len ?parts + length (tails ?parts)" using bs(1) by (simp add: ser_parts_def)
  have fit: "unat (0::u32) + heads_len ?parts < 2 ^ 32" using len bs(2) by simp
  have guard: "\<not> length bs < unat (static_size c)" using static len by simp
  show ?thesis
  proof (cases "is_fixed c")
    case True
    have "kexecs V bs (fixed_checks P 0 (map row_info rs)) Map.empty = Done Map.empty"
      by (rule fixed_checks_accept [OF V _ fit, where pos = "heads_len ?parts"]) (use ok True fixed h in auto)
    with True guard infos show ?thesis by (simp add: view_checks_def Let_def)
  next
    case False
    let ?offs = "set_offs 0 (row_offsets (heads_len ?parts) rs) Map.empty"
    have one: "kexecs V bs (static_checks P (static_size c) 0 0 (map row_info rs)) Map.empty = Done ?offs"
      by (rule static_checks_accept [OF V ok fit _ _ bs(2)]) (use h len static in auto)
    have two: "kexecs V bs (dynamic_checks c (length ?var)) ?offs = Done ?offs"
    proof (rule dynamic_checks_accept [OF _ dyn _ _ _ bs(2), where pos = "heads_len ?parts"])
      show "\<forall>j < length ?var. ?offs j = Some (row_offsets (heads_len ?parts) ?var ! j)"
        using set_offs_at [of _ "row_offsets (heads_len ?parts) rs" 0 Map.empty] by (simp add: map_row_offsets)
    qed (use ok lookup h len in \<open>auto simp: tails_filter\<close>)
    from one two False guard infos rust_dynamic_of [OF ok] show ?thesis by (simp add: view_checks_def Let_def)
  qed
qed

section \<open>Views\<close>

abbreviation row_srow :: "row \<Rightarrow> srow" where "row_srow r \<equiv> (fst r, fst (snd r), row_ty r)"

lemma accept_rows:
  assumes rep: "container_rep P st c fs" and flat: "\<forall>f \<in> set fs. flat_ty (snd f)" and bits: "fields_bits_ok fs"
    and size: "size_ok (TContainer nm fs)" and readable: "fields_readable fs" and vs: "vals_ok fs vs"
  obtains rs where "\<forall>r \<in> set rs. rust_row_ok st r" "map fst rs = all_fields c" "map row_ty rs = map snd fs"
    "map row_val rs = vs" "serialize_fields fs vs = map row_part rs" "infos_of c (all_fields c) = map row_info rs"
    "dynamic_fields c = map fst (filter (\<lambda>r. is_variable (row_ty r)) rs)"
    "\<forall>r \<in> set rs. field_infos c (fst r) = Some (fst (snd r))"
    "is_fixed c \<longleftrightarrow> (\<forall>r \<in> set rs. \<not> is_variable (row_ty r))"
    "unat (static_size c) = heads_len (map row_part rs)"
proof -
  have l2: "list_all2 (field_rep P st c) (all_fields c) fs" using rep by (simp add: container_rep_def)
  have sz: "fields_size_ok fs" using size by simp
  from rust_rows [OF l2 flat bits sz readable vs]
  obtain rs where rs: "map fst rs = all_fields c" "infos_of c (all_fields c) = map row_info rs"
    "serialize_fields fs vs = map row_part rs" "map row_val rs = vs" "map row_ty rs = map snd fs"
    "\<forall>r \<in> set rs. rust_row_ok st r" by blast
  let ?srs = "map row_srow rs"
  have srs: "map fst ?srs = all_fields c" "map srow_ty ?srs = map snd fs"
    "infos_of c (all_fields c) = map srow_info ?srs"
    using rs(1,2,5) by (simp_all add: comp_def)
  have "map fst (filter (\<lambda>r. is_variable (srow_ty r)) ?srs) = map fst (filter (\<lambda>r. is_variable (row_ty r)) rs)"
    by (simp add: filter_map comp_def)
  with rep dynamic_fields_rows [OF srs(1,2)] have
    dyn: "dynamic_fields c = map fst (filter (\<lambda>r. is_variable (row_ty r)) rs)" by (simp add: container_rep_def)
  have lookup: "\<forall>r \<in> set rs. field_infos c (fst r) = Some (fst (snd r))"
  proof
    fix r assume "r \<in> set rs"
    then have "row_srow r \<in> set ?srs" by simp
    from field_infos_srows [OF l2 srs(1,3) this] show "field_infos c (fst r) = Some (fst (snd r))" by simp
  qed
  have fixed: "is_fixed c \<longleftrightarrow> (\<forall>r \<in> set rs. \<not> is_variable (row_ty r))"
    using rep srows_variable [OF srs(2)] by (simp add: container_rep_def)
  have heads: "heads_len (map row_part rs) = static_len fs"
    using heads_len_fields [OF vs] serialize_fixed_len rs(3) by metis
  have static: "unat (static_size c) = heads_len (map row_part rs)"
    using rep size heads by (simp add: container_rep_def unat_of_nat)
  show thesis by (rule that [OF rs(6,1,5,4,3,2) dyn lookup fixed static])
qed

theorem view_accepts:
  assumes wf: "wf_schema P" and small: "small_ids P" and names: "names_ok (rust_dialect P) P"
  shows "n \<le> depth \<Longrightarrow> struct_ty n P s = Some (TContainer nm fs) \<Longrightarrow> fields_bits_ok fs \<Longrightarrow>
    size_ok (TContainer nm fs) \<Longrightarrow> fields_readable fs \<Longrightarrow> vals_ok fs vs \<Longrightarrow>
    length (serialize (TContainer nm fs) (VStruct nm vs)) < 2 ^ 32 \<Longrightarrow>
    view_from (rust_vprogram depth P) n nm (serialize (TContainer nm fs) (VStruct nm vs)) =
      Done (serialize (TContainer nm fs) (VStruct nm vs))"
proof (induction n arbitrary: s nm fs vs)
  case (Suc k)
  let ?bs = "serialize (TContainer nm fs) (VStruct nm vs)" and ?V = "view_from (rust_vprogram depth P) k"
  from rust_vprogram_decl [OF wf small names Suc.prems(1-3)] obtain c where
    c: "rust_vprogram depth P nm = Some (rust_vdecl P c)" "container_rep P (struct_ty k P) c fs"
    "\<forall>f \<in> set fs. flat_ty (snd f)" .
  have named: "named_types P (struct_ty k P)"
    unfolding named_types_def using struct_ty_name by blast
  have V: "calls_accept (struct_ty k P) ?V"
    unfolding calls_accept_def using Suc.IH Suc.prems(1) by (simp del: serialize.simps)
  from accept_rows [OF c(2,3) Suc.prems(3-6)] obtain rs where
    rs: "\<forall>r \<in> set rs. rust_row_ok (struct_ty k P) r" "map fst rs = all_fields c" "map row_ty rs = map snd fs"
    "map row_val rs = vs" "serialize_fields fs vs = map row_part rs" "infos_of c (all_fields c) = map row_info rs"
    "dynamic_fields c = map fst (filter (\<lambda>r. is_variable (row_ty r)) rs)"
    "\<forall>r \<in> set rs. field_infos c (fst r) = Some (fst (snd r))"
    "is_fixed c \<longleftrightarrow> (\<forall>r \<in> set rs. \<not> is_variable (row_ty r))"
    "unat (static_size c) = heads_len (map row_part rs)" .
  have ser: "?bs = ser_parts (map row_part rs)" using rs(5) by simp
  from checks_accept [OF V named rs(1,6-10) ser Suc.prems(7)] obtain offs where
    chk: "kexecs ?V ?bs (view_checks P c) Map.empty = Done offs" by blast
  have "sub_slice ?bs 0 (unat (static_size c)) = Done ?bs" if "is_fixed c"
  proof -
    have fixed: "\<not> any_variable fs" using c(2) that by (simp add: container_rep_def)
    have "length ?bs = fixed_len (TContainer nm fs)"
      by (rule serialize_fixed_len) (use fixed Suc.prems(6) in simp_all)
    moreover have "unat (static_size c) = fields_len fs"
      using c(2) Suc.prems(4) static_len_fixed [OF fixed] by (simp add: container_rep_def unat_of_nat)
    ultimately have "unat (static_size c) = length ?bs" by (simp only: fixed_len.simps)
    then show ?thesis by (simp add: sub_slice_def del: serialize.simps)
  qed
  with chk c(1) show ?case by (simp add: rust_vdecl_def del: serialize.simps)
qed simp

end
