(* ===== verification/Rust_View_Reads.thy ===== *)
theory Rust_View_Reads
  imports Rust_View_Accepts
begin

text \<open>
  The accessors of an emitted view over a serialization: each returns the value of its field, a boolean
  or a number as such and anything else as the slice that holds it, and the accessors of the elements
  of a list of structs return the slices of the elements.
\<close>

section \<open>What an accessor should return\<close>

fun viewed :: "ssz_ty \<Rightarrow> val \<Rightarrow> val" where
  "viewed TBool v = v"
| "viewed (TUint k) v = v"
| "viewed t v = VBytes (serialize t v)"

fun elems_viewed :: "u32 list \<Rightarrow> byte list \<Rightarrow> ssz_ty \<Rightarrow> val \<Rightarrow> vread \<Rightarrow> bool" where
  "elems_viewed os bs (TList (TContainer nm fs) l) (VSeq xs) r =
     (acc_len os bs r = Done (length xs) \<and>
      (\<forall>i < length xs. acc_at os bs r i = Done (serialize (TContainer nm fs) (xs ! i))))"
| "elems_viewed os bs t v r = True"

definition field_viewed :: "u32 list \<Rightarrow> byte list \<Rightarrow> string \<Rightarrow> ssz_ty \<Rightarrow> val \<Rightarrow> string \<times> vread \<Rightarrow> bool" where
  "field_viewed os bs f t v gr \<longleftrightarrow>
     (fst gr = f \<or> fst gr = f @ ''_bytes'') \<and> acc_get os bs (snd gr) = Done (viewed t v) \<and>
     elems_viewed os bs t v (snd gr)"

lemma self_slice_at:
  "self_pos os bs a = Done x \<Longrightarrow> self_pos os bs b = Done (x + length xs) \<Longrightarrow> at_pos bs x xs \<Longrightarrow>
   self_slice os bs a b = Done xs"
  using sub_slice_at by (simp add: self_slice_def)

section \<open>Fields of fixed size\<close>

lemma field_read_viewed:
  assumes rep: "info_rep st i t" and flat: "flat_ty t" and t: "readable t" and ok: "val_ok t v" and fixed: "\<not> is_variable t"
    and at: "at_pos bs (unat off) (serialize t v)" and fit: "unat off + fixed_len t < 2 ^ 32"
    and r: "gr \<in> set (field_read P i f off)"
  shows "field_viewed os bs f t v gr"
proof -
  have e: "unat (off + fixed_size i) = unat off + fixed_len t"
    using unat_offset [OF fit] info_rep_fixed [OF rep fixed] by simp
  have sl: "length (serialize t v) = fixed_len t" by (rule serialize_fixed_len [OF fixed ok])
  have slice: "self_slice os bs (RNum off) (RNum (off + fixed_size i)) = Done (serialize t v)"
    by (rule self_slice_at [OF _ _ at]) (simp_all add: e sl)
  show ?thesis
  proof (cases t)
    case TBool
    with ok obtain b where "v = VBool b" by auto
    with TBool rep r read_byte_at [of bs "unat off" "if b then 1 else 0"] at show ?thesis
      by (auto simp: field_read_def field_viewed_def)
  next
    case (TUint k)
    with ok obtain n where n: "v = VUint n" "n < 256 ^ k" by auto
    have at': "at_pos bs (unat off) (le_bytes k n)" using at TUint n by simp
    have num: "read_uint w bs (unat off) (unat (off + d)) = Done n" if "w div 8 = k" "unat d = k" for w d
      by (rule read_uint_at [OF at' n(2) that(1)]) (use fit TUint that in \<open>simp add: unat_word_ariths\<close>)
    from TUint flat consider "k = 1" | "k = 2" | "k = 4" | "k = 8" by auto
    then show ?thesis
    proof cases
      case 1
      with TUint n at rep r read_byte_at [of bs "unat off" "of_nat n"] small_byte [of n] show ?thesis
        by (simp add: field_read_def field_viewed_def Let_def)
    next
      case 2
      with TUint n rep r num [of 16 2] show ?thesis by (simp add: field_read_def field_viewed_def Let_def)
    next
      case 3
      with TUint n rep r num [of 32 4] show ?thesis by (simp add: field_read_def field_viewed_def Let_def)
    next
      case 4
      with TUint n rep r num [of 64 8] show ?thesis by (simp add: field_read_def field_viewed_def Let_def)
    qed
  next
    case (TVector u n)
    from TVector rep t obtain e where "elem_info i = Some e" "ssz_type e = SszUint8" by (auto simp: is_byte_ty_def)
    with TVector rep r slice show ?thesis by (simp add: field_read_def field_viewed_def Let_def)
  next
    case (TBitvector n)
    with rep r slice show ?thesis by (simp add: field_read_def field_viewed_def Let_def)
  next
    case (TContainer nm fs)
    with rep r slice show ?thesis by (auto simp: field_read_def field_viewed_def Let_def split: if_splits)
  qed (use fixed in auto)
qed

section \<open>Fields of variable size\<close>

lemma structs_viewed:
  assumes xs: "\<forall>x \<in> set xs. val_ok t x" "\<not> is_variable t" and k: "unat k = fixed_len t" "0 < fixed_len t"
    and pos: "self_pos os bs a = Done x" "self_pos os bs b = Done (x + length xs * fixed_len t)"
    and at: "at_pos bs x (concat (map (serialize t) xs))"
  shows "acc_len os bs (AStructs s k a b) = Done (length xs)"
    and "i < length xs \<Longrightarrow> acc_at os bs (AStructs s k a b) i = Done (serialize t (xs ! i))"
proof -
  show "acc_len os bs (AStructs s k a b) = Done (length xs)" using pos k by (auto simp: unat_eq_zero)
  assume i: "i < length xs"
  have len: "length (serialize t y) = fixed_len t" if "y \<in> set xs" for y
    using that xs serialize_fixed_len by blast
  from holds_concat_nth [OF at len i] have
    "sub_slice bs (x + i * fixed_len t) (x + (i + 1) * fixed_len t) = Done (serialize t (xs ! i))"
    using len i by (intro sub_slice_at) simp_all
  with pos(1) k(1) show "acc_at os bs (AStructs s k a b) i = Done (serialize t (xs ! i))" by simp
qed

lemma dynamics_viewed:
  assumes slice: "self_slice os bs a b = Done sl" and sl: "sl = ser_parts (map (\<lambda>x. (True, g x)) xs)" "length sl < 2 ^ 32"
  shows "acc_len os bs (ADynamics s a b) = Done (length xs)"
    and "i < length xs \<Longrightarrow> acc_at os bs (ADynamics s a b) i = Done (g (xs ! i))"
proof -
  note h = offsets_hold [OF at_whole [OF sl(1)], unfolded snd_conv, OF arg_cong [OF sl(1), of length]]
  have small: "elem_start g xs k < 2 ^ 32" if "k \<le> length xs" for k
    using h(3) [OF that] sl(2) by simp
  have off: "read_uint 32 sl (k * 4) (k * 4 + 4) = Done (elem_start g xs k)" if "k < length xs" for k
    by (rule read_uint_at [where k = 4]) (use h(1) [OF that] small [of k] that in \<open>simp_all add: mult.commute\<close>)
  have len: "dyn_len sl = Done (length xs)"
  proof (cases "xs = []")
    case True
    with sl(1) show ?thesis by (simp add: dyn_len_def ser_parts_def)
  next
    case False
    then have first: "read_uint 32 sl 0 4 = Done (4 * length xs)" using off [of 0] by (simp add: elem_start_def)
    then have "sl \<noteq> []" by (auto simp: read_uint_def sub_slice_def)
    with first show ?thesis by (simp add: dyn_len_def)
  qed
  with slice show "acc_len os bs (ADynamics s a b) = Done (length xs)" by simp
  assume i: "i < length xs"
  have fin: "(if i + 1 < length xs then read_uint 32 sl ((i + 1) * 4) ((i + 1) * 4 + 4) else Done (length sl)) =
      Done (elem_start g xs (Suc i))"
  proof (cases "i + 1 < length xs")
    case True
    from off [OF True] True show ?thesis by simp
  next
    case False
    with i have "Suc i = length xs" by simp
    with h(4) False show ?thesis by simp
  qed
  have "sub_slice sl (elem_start g xs i) (elem_start g xs (Suc i)) = Done (g (xs ! i))"
    by (rule sub_slice_at [OF h(2) [OF i]]) (rule elem_start_Suc [OF i])
  with slice len off [OF i] fin show "acc_at os bs (ADynamics s a b) i = Done (g (xs ! i))"
    unfolding acc_at.simps by (simp only: go_bind.simps)
qed

lemma dyn_field_read_viewed:
  assumes rep: "info_rep st i t" and flat: "flat_ty t" and var: "is_variable t" and t: "size_ok t" "readable t"
    and ok: "val_ok t v" and len: "length (serialize t v) < 2 ^ 32"
    and pos: "self_pos os bs a = Done x" "self_pos os bs b = Done (x + length (serialize t v))"
    and at: "at_pos bs x (serialize t v)" and r: "gr \<in> set (dyn_field_read P i f a b)"
  shows "field_viewed os bs f t v gr"
proof -
  note slice = self_slice_at [OF pos at]
  show ?thesis
  proof (cases t)
    case (TList t' l)
    with rep obtain e where e: "elem_info i = Some e" "info_rep st e t'" "ssz_type i = SszList" by auto
    show ?thesis
    proof (cases "ssz_type e = SszContainer")
      case True
      with e(2) obtain nm fs where c: "t' = TContainer nm fs" by (cases t') (auto simp: uint_ssz.simps split: if_splits)
      with TList ok obtain xs where v: "v = VSeq xs" "\<forall>x \<in> set xs. val_ok t' x" by (auto simp: is_byte_ty_def)
      have ser: "serialize t v = ser_parts (map (\<lambda>x. (is_variable t', serialize t' x)) xs)"
        using v TList c by (simp add: is_byte_ty_def)
      note dyn = info_rep_dynamic [OF e(2)]
      show ?thesis
      proof (cases "is_variable t'")
        case var': True
        have ser': "serialize t v = ser_parts (map (\<lambda>x. (True, serialize t' x)) xs)" using ser var' by simp
        from e c r dyn var' True have gr: "gr = (f, ADynamics (info_struct_name P '''' e) a b)"
          by (auto simp: dyn_field_read_def)
        have "elems_viewed os bs t v (snd gr)"
          using dynamics_viewed [OF slice ser' len] TList v(1) c gr by simp
        with gr slice TList show ?thesis by (simp add: field_viewed_def)
      next
        case False
        have ser': "serialize t v = concat (map (serialize t') xs)" using ser False by simp
        have l: "length (serialize t v) = length xs * fixed_len t'" unfolding ser by (rule length_ser_fixed [OF False v(2)])
        have "0 < fixed_len t'" "fixed_len t' < 2 ^ 32" using t TList False by auto
        with unat_fixed_size [OF e(2) False] have k: "unat (fixed_size e) = fixed_len t'" "0 < fixed_len t'" by simp_all
        from e c r dyn False True have gr: "gr = (f, AStructs (info_struct_name P '''' e) (fixed_size e) a b)"
          by (auto simp: dyn_field_read_def)
        have "elems_viewed os bs t v (snd gr)"
          using structs_viewed [OF v(2) False k pos(1) pos(2) [unfolded l] at [unfolded ser']] TList v(1) c gr by simp
        with gr slice TList show ?thesis by (simp add: field_viewed_def)
      qed
    next
      case False
      then have "elems_viewed os bs t v q" for q using TList e(2) by (cases t') (cases v; simp)+
      with e r slice TList False show ?thesis by (auto simp: dyn_field_read_def field_viewed_def split: if_splits)
    qed
  next
    case (TProgressiveList t')
    with rep r slice show ?thesis by (simp add: dyn_field_read_def field_viewed_def)
  next
    case (TBitlist l)
    with rep r slice show ?thesis by (simp add: dyn_field_read_def field_viewed_def)
  next
    case (TContainer nm fs)
    with rep r slice show ?thesis by (auto simp: dyn_field_read_def field_viewed_def split: if_splits)
  next
    case (TVector t' n)
    with rep var show ?thesis by auto
  qed (use var ok in auto)
qed

section \<open>Accessors of a container\<close>

definition row_viewed :: "Parser \<Rightarrow> u32 list \<Rightarrow> byte list \<Rightarrow> row \<Rightarrow> (string \<times> vread) list \<Rightarrow> bool" where
  "row_viewed P os bs r grs \<longleftrightarrow>
     grs \<noteq> [] \<and> (\<forall>gr \<in> set grs. field_viewed os bs (rust_member P (fst r)) (row_ty r) (row_val r) gr)"

lemma reads_nonempty:
  assumes "rust_row_ok st r"
  shows "\<not> is_variable (row_ty r) \<Longrightarrow> field_read P (fst (snd r)) f off \<noteq> []"
    and "dyn_field_read P (fst (snd r)) f a b \<noteq> []"
  using assms
  by (cases "row_ty r"; auto simp: rust_row_ok_def field_read_def dyn_field_read_def Let_def is_byte_ty_def
      split: if_splits option.splits)+

lemma fixed_reads_viewed:
  assumes "\<forall>r \<in> set rs. rust_row_ok st r \<and> \<not> is_variable (row_ty r)"
    and "unat off + heads_len (map row_part rs) < 2 ^ 32"
    and "at_pos bs (unat off) (heads pos (map row_part rs))"
  shows "\<exists>grss. fixed_reads P off (map row_info rs) = concat grss \<and> list_all2 (row_viewed P os bs) rs grss"
  using assms
proof (induction rs arbitrary: off)
  case (Cons r rs)
  from Cons.prems have r: "rust_row_ok st r" "\<not> is_variable (row_ty r)" by simp_all
  note f = rust_row_facts(2,3) [OF r]
  have fit: "unat off + fixed_len (row_ty r) < 2 ^ 32" using Cons.prems(2) r(2) f(2) by simp
  have off: "unat (off + fixed_size (fst (snd r))) = unat off + fixed_len (row_ty r)"
    using unat_offset [OF fit] f(1) by simp
  have h: "at_pos bs (unat off) (serialize (row_ty r) (row_val r))"
    "at_pos bs (unat off + fixed_len (row_ty r)) (heads pos (map row_part rs))"
    using Cons.prems(3) r(2) f(2) by (simp_all add: holds_append)
  have "\<exists>grss. fixed_reads P (off + fixed_size (fst (snd r))) (map row_info rs) = concat grss \<and>
      list_all2 (row_viewed P os bs) rs grss"
    by (rule Cons.IH) (use Cons.prems h off f(2) r(2) in auto)
  then obtain grss where grss: "fixed_reads P (off + fixed_size (fst (snd r))) (map row_info rs) = concat grss"
    "list_all2 (row_viewed P os bs) rs grss" by blast
  have "row_viewed P os bs r (field_read P (fst (snd r)) (rust_member P (fst r)) off)"
    unfolding row_viewed_def
    by (intro conjI reads_nonempty(1) [OF r] ballI field_read_viewed [OF _ _ _ _ r(2) h(1) fit]) (use r(1) in \<open>auto simp: rust_row_ok_def\<close>)
  with grss show ?case
    by (intro exI [of _ "field_read P (fst (snd r)) (rust_member P (fst r)) off # grss"]) simp
qed simp

text \<open>The offsets stand where the private functions read them.\<close>

lemma offset_places_at:
  assumes "\<forall>r \<in> set rs. rust_row_ok st r" and "unat off + heads_len (map row_part rs) < 2 ^ 32"
    and "at_pos bs (unat off) (heads pos (map row_part rs))"
    and "pos + length (tails (map row_part rs)) \<le> length bs" and len: "length bs < 2 ^ 32"
  shows "list_all2 (\<lambda>a x. read_uint 32 bs (unat a) (unat (a + 4)) = Done x) (offset_places off (map row_info rs)) (row_offsets pos rs)"
  using assms(1-4)
proof (induction rs arbitrary: off pos)
  case (Cons r rs)
  from Cons.prems have r: "rust_row_ok st r" by simp
  note dyn = rust_row_facts(1) [OF r]
  let ?b = "serialize (row_ty r) (row_val r)"
  show ?case
  proof (cases "is_variable (row_ty r)")
    case True
    have h: "at_pos bs (unat off) (le_bytes 4 pos)" "at_pos bs (unat off + 4) (heads (pos + length ?b) (map row_part rs))"
      using Cons.prems(3) True by (simp_all add: holds_append)
    have fit: "unat off + 4 < 2 ^ 32" using Cons.prems(2) True by simp
    have off: "unat (off + 4) = unat off + 4" using unat_offset [of off 4] fit by simp
    have "read_uint 32 bs (unat off) (unat (off + 4)) = Done pos"
      by (rule read_uint_at [OF h(1)]) (use Cons.prems(4) len off in simp_all)
    moreover have "list_all2 (\<lambda>a x. read_uint 32 bs (unat a) (unat (a + 4)) = Done x)
        (offset_places (off + 4) (map row_info rs)) (row_offsets (pos + length ?b) rs)"
      by (rule Cons.IH) (use Cons.prems True h off in \<open>auto simp: add.assoc\<close>)
    ultimately show ?thesis using True dyn by simp
  next
    case False
    note f = rust_row_facts(2,3) [OF r False]
    have h: "at_pos bs (unat off + fixed_len (row_ty r)) (heads pos (map row_part rs))"
      using Cons.prems(3) False f(2) by (simp_all add: holds_append)
    have fit: "unat off + fixed_len (row_ty r) < 2 ^ 32" using Cons.prems(2) False f(2) by simp
    have off: "unat (off + fixed_size (fst (snd r))) = unat off + fixed_len (row_ty r)"
      using unat_offset [OF fit] f(1) by simp
    have "list_all2 (\<lambda>a x. read_uint 32 bs (unat a) (unat (a + 4)) = Done x)
        (offset_places (off + fixed_size (fst (snd r))) (map row_info rs)) (row_offsets pos rs)"
      by (rule Cons.IH) (use Cons.prems False h off f(2) in auto)
    with False dyn show ?thesis by simp
  qed
qed simp

lemma all_reads_viewed:
  assumes "\<forall>r \<in> set rs. rust_row_ok st r" and "unat off + heads_len (map row_part rs) < 2 ^ 32"
    and "at_pos bs (unat off) (heads pos (map row_part rs))"
    and "at_pos bs tpos (tails (map row_part rs))" and "tpos + length (tails (map row_part rs)) = length bs"
    and len: "length bs < 2 ^ 32" and "n = k + length (row_offsets tpos rs)"
    and "\<forall>j < length (row_offsets tpos rs). self_pos os bs (ROff (k + j)) = Done (row_offsets tpos rs ! j)"
  shows "\<exists>grss. all_reads P n off k (map row_info rs) = concat grss \<and> list_all2 (row_viewed P os bs) rs grss"
  using assms(1-5,7,8)
proof (induction rs arbitrary: off k pos tpos)
  case (Cons r rs)
  from Cons.prems have r: "rust_row_ok st r" by simp
  note dyn = rust_row_facts(1) [OF r]
  let ?b = "serialize (row_ty r) (row_val r)" and ?f = "rust_member P (fst r)"
  show ?case
  proof (cases "is_variable (row_ty r)")
    case True
    have h: "at_pos bs (unat off + 4) (heads (pos + length ?b) (map row_part rs))" "at_pos bs tpos ?b"
      "at_pos bs (tpos + length ?b) (tails (map row_part rs))"
      using Cons.prems(3,4) True by (simp_all add: holds_append)
    have fit: "unat off + 4 < 2 ^ 32" using Cons.prems(2) True by simp
    have off: "unat (off + 4) = unat off + 4" using unat_offset [of off 4] fit by simp
    have ro: "row_offsets tpos (r # rs) = tpos # row_offsets (tpos + length ?b) rs" using True by simp
    have later: "\<forall>j < length (row_offsets (tpos + length ?b) rs).
        self_pos os bs (ROff (Suc k + j)) = Done (row_offsets (tpos + length ?b) rs ! j)"
    proof (intro allI impI)
      fix j assume "j < length (row_offsets (tpos + length ?b) rs)"
      then have "Suc j < length (row_offsets tpos (r # rs))" unfolding ro by simp
      with Cons.prems(7) have "self_pos os bs (ROff (k + Suc j)) = Done (row_offsets tpos (r # rs) ! Suc j)" by blast
      then show "self_pos os bs (ROff (Suc k + j)) = Done (row_offsets (tpos + length ?b) rs ! j)"
        unfolding ro by (simp only: nth_Cons_Suc add_Suc_right add_Suc)
    qed
    have "\<exists>grss. all_reads P n (off + 4) (Suc k) (map row_info rs) = concat grss \<and> list_all2 (row_viewed P os bs) rs grss"
    proof (rule Cons.IH [OF _ _ _ h(3) _ _ later])
      show "at_pos bs (unat (off + 4)) (heads (pos + length ?b) (map row_part rs))" using h(1) off by simp
    qed (use Cons.prems(1,2,5,6) True off ro in \<open>auto simp: add.assoc\<close>)
    then obtain grss where grss: "all_reads P n (off + 4) (Suc k) (map row_info rs) = concat grss"
      "list_all2 (row_viewed P os bs) rs grss" by blast
    have "0 < length (row_offsets tpos (r # rs))" unfolding ro by simp
    with Cons.prems(7) have "self_pos os bs (ROff (k + 0)) = Done (row_offsets tpos (r # rs) ! 0)" by blast
    then have lo: "self_pos os bs (ROff k) = Done tpos" unfolding ro by (simp only: nth_Cons_0 add_0_right)
    have hi: "self_pos os bs (end_pos n k) = Done (tpos + length ?b)"
    proof (cases "row_offsets (tpos + length ?b) rs")
      case Nil
      then have "filter (\<lambda>r. is_variable (row_ty r)) rs = []" using map_row_offsets(2) [of "tpos + length ?b" rs] by simp
      then have "tails (map row_part rs) = []" unfolding tails_filter [of rs, symmetric] by (simp add: tails_def)
      with Cons.prems(5,6) ro Nil True show ?thesis by (simp add: end_pos_def)
    next
      case (Cons x xs)
      then have "0 < length (row_offsets (tpos + length ?b) rs)" by simp
      with later have "self_pos os bs (ROff (Suc k + 0)) = Done (row_offsets (tpos + length ?b) rs ! 0)" by blast
      then have "self_pos os bs (ROff (Suc k)) = Done x" unfolding Cons by (simp only: nth_Cons_0 add_0_right)
      moreover have "x = tpos + length ?b"
        using Cons by (induction rs) (auto split: if_splits)
      ultimately show ?thesis using Cons.prems(6) ro Cons by (simp add: end_pos_def)
    qed
    have small: "length ?b < 2 ^ 32" using Cons.prems(5) len True by simp
    have "row_viewed P os bs r (dyn_field_read P (fst (snd r)) ?f (ROff k) (end_pos n k))"
      unfolding row_viewed_def
      by (intro conjI reads_nonempty(2) [OF r] ballI dyn_field_read_viewed [OF _ _ True _ _ _ small lo hi h(2)]) (use r in \<open>auto simp: rust_row_ok_def\<close>)
    with grss True dyn show ?thesis
      by (intro exI [of _ "dyn_field_read P (fst (snd r)) ?f (ROff k) (end_pos n k) # grss"]) simp
  next
    case False
    note f = rust_row_facts(2,3) [OF r False]
    have h: "at_pos bs (unat off) ?b" "at_pos bs (unat off + fixed_len (row_ty r)) (heads pos (map row_part rs))"
      using Cons.prems(3) False f(2) by (simp_all add: holds_append)
    have fit: "unat off + fixed_len (row_ty r) < 2 ^ 32" using Cons.prems(2) False f(2) by simp
    have off: "unat (off + fixed_size (fst (snd r))) = unat off + fixed_len (row_ty r)"
      using unat_offset [OF fit] f(1) by simp
    have "\<exists>grss. all_reads P n (off + fixed_size (fst (snd r))) k (map row_info rs) = concat grss \<and>
        list_all2 (row_viewed P os bs) rs grss"
      by (rule Cons.IH [where pos = pos and tpos = tpos]) (use Cons.prems False h off f(2) in auto)
    then obtain grss where grss: "all_reads P n (off + fixed_size (fst (snd r))) k (map row_info rs) = concat grss"
      "list_all2 (row_viewed P os bs) rs grss" by blast
    have "row_viewed P os bs r (field_read P (fst (snd r)) ?f off)"
      unfolding row_viewed_def
      by (intro conjI reads_nonempty(1) [OF r False] ballI field_read_viewed [OF _ _ _ _ False h(1) fit]) (use r in \<open>auto simp: rust_row_ok_def\<close>)
    with grss False dyn show ?thesis
      by (intro exI [of _ "field_read P (fst (snd r)) ?f off # grss"]) simp
  qed
qed simp

section \<open>Views\<close>

lemma container_reads_viewed:
  assumes ok: "\<forall>r \<in> set rs. rust_row_ok st r" and infos: "infos_of c (all_fields c) = map row_info rs"
    and dyn: "dynamic_fields c = map fst (filter (\<lambda>r. is_variable (row_ty r)) rs)"
    and bs: "bs = ser_parts (map row_part rs)" "length bs < 2 ^ 32"
  shows "\<exists>grss. view_reads P c = concat grss \<and>
    list_all2 (row_viewed P (offset_places 0 (map row_info rs)) bs) rs grss"
proof -
  let ?parts = "map row_part rs" and ?os = "offset_places 0 (map row_info rs)"
  from at_whole [OF bs(1)] have h: "at_pos bs 0 (heads (heads_len ?parts) ?parts)"
    "at_pos bs (heads_len ?parts) (tails ?parts)"
    by (simp_all add: ser_parts_def holds_append)
  have len: "length bs = heads_len ?parts + length (tails ?parts)" using bs(1) by (simp add: ser_parts_def)
  have fit: "unat (0::u32) + heads_len ?parts < 2 ^ 32" using len bs(2) by simp
  have h0: "at_pos bs (unat (0::u32)) (heads (heads_len ?parts) ?parts)" using h(1) by simp
  show ?thesis
  proof (cases "dynamic_fields c = []")
    case True
    then have "\<forall>r \<in> set rs. \<not> is_variable (row_ty r)" using dyn by (simp add: filter_empty_conv)
    with ok have "\<forall>r \<in> set rs. rust_row_ok st r \<and> \<not> is_variable (row_ty r)" by blast
    from fixed_reads_viewed [OF this fit h0] True infos show ?thesis by (simp add: view_reads_def Let_def)
  next
    case False
    have le: "heads_len ?parts + length (tails ?parts) \<le> length bs" using len by simp
    note places = offset_places_at [OF ok fit h0 le bs(2)]
    have n: "length (dynamic_of (map row_info rs)) = length (row_offsets (heads_len ?parts) rs)"
      using list_all2_lengthD [OF places] by (simp add: length_offset_places)
    have pos: "\<forall>j < length (row_offsets (heads_len ?parts) rs).
        self_pos ?os bs (ROff (0 + j)) = Done (row_offsets (heads_len ?parts) rs ! j)"
      using places by (auto simp: list_all2_conv_all_nth)
    have "\<exists>grss. all_reads P (length (dynamic_of (map row_info rs))) 0 0 (map row_info rs) = concat grss \<and>
        list_all2 (row_viewed P ?os bs) rs grss"
      by (rule all_reads_viewed [OF ok fit h0 h(2) _ bs(2) _ pos]) (use len n in simp_all)
    with False infos show ?thesis by (simp add: view_reads_def Let_def)
  qed
qed

theorem view_shows_fields:
  assumes wf: "wf_schema P" and small: "small_ids P" and names: "names_ok (rust_dialect P) P"
    and ty: "struct_ty n P s = Some (TContainer nm fs)" "n \<le> depth" and bits: "fields_bits_ok fs"
    and size: "size_ok (TContainer nm fs)" and readable: "fields_readable fs" and vs: "vals_ok fs vs"
    and bs: "bs = serialize (TContainer nm fs) (VStruct nm vs)" "length bs < 2 ^ 32"
  shows "\<exists>d grss. rust_vprogram depth P nm = Some d \<and> vd_reads d = concat grss \<and>
    list_all2 (\<lambda>((f, t), v) grs. grs \<noteq> [] \<and> (\<forall>gr \<in> set grs. field_viewed (vd_offs d) bs (rust_ToSnakeCase f) t v gr)) (zip fs vs) grss"
proof -
  from ty(1) obtain k where n: "n = Suc k" by (cases n) auto
  have le: "Suc k \<le> depth" using ty(2) n by simp
  from rust_vprogram_decl [OF wf small names le ty(1) [unfolded n] bits] obtain c where
    c: "rust_vprogram depth P nm = Some (rust_vdecl P c)" "container_rep P (struct_ty k P) c fs"
    "\<forall>f \<in> set fs. flat_ty (snd f)" .
  from accept_rows [OF c(2,3) bits size readable vs] obtain rs where
    rs: "\<forall>r \<in> set rs. rust_row_ok (struct_ty k P) r" "map fst rs = all_fields c" "map row_ty rs = map snd fs"
    "map row_val rs = vs" "serialize_fields fs vs = map row_part rs" "infos_of c (all_fields c) = map row_info rs"
    "dynamic_fields c = map fst (filter (\<lambda>r. is_variable (row_ty r)) rs)"
    "\<forall>r \<in> set rs. field_infos c (fst r) = Some (fst (snd r))"
    "is_fixed c \<longleftrightarrow> (\<forall>r \<in> set rs. \<not> is_variable (row_ty r))"
    "unat (static_size c) = heads_len (map row_part rs)" .
  have ser: "bs = ser_parts (map row_part rs)" using bs(1) rs(5) by simp
  let ?os = "offset_places 0 (map row_info rs)"
  from container_reads_viewed [OF rs(1,6,7) ser bs(2)] obtain grss where
    grss: "view_reads P c = concat grss" "list_all2 (row_viewed P ?os bs) rs grss" by blast
  have l2: "list_all2 (field_rep P (struct_ty k P) c) (map fst rs) fs"
    using c(2) rs(2) by (simp add: container_rep_def)
  have len: "length fs = length rs" "length vs = length rs"
    using list_all2_lengthD [OF l2] rs(4) by auto
  have field: "fs ! j = (fd_name (field_at P (fst (rs ! j))), row_ty (rs ! j)) \<and> vs ! j = row_val (rs ! j)"
    if j: "j < length rs" for j
  proof -
    have "fst (fs ! j) = fd_name (field_at P (fst (rs ! j)))"
      using l2 j by (auto simp: list_all2_conv_all_nth field_rep_def)
    moreover have "snd (fs ! j) = row_ty (rs ! j)" using arg_cong [OF rs(3), of "\<lambda>l. l ! j"] j len by simp
    moreover have "vs ! j = row_val (rs ! j)" using arg_cong [OF rs(4), of "\<lambda>l. l ! j"] j by simp
    ultimately show ?thesis by (simp add: prod_eq_iff)
  qed
  have "list_all2 (\<lambda>((f, t), v) grs. grs \<noteq> [] \<and> (\<forall>gr \<in> set grs. field_viewed ?os bs (rust_ToSnakeCase f) t v gr)) (zip fs vs) grss"
    using grss(2) field len
    by (auto simp: list_all2_conv_all_nth row_viewed_def rust_member_def)
  moreover have "vd_offs (rust_vdecl P c) = ?os"
    using rs(6,7) rust_dynamic_of [OF rs(1)] offset_places_empty [of 0 "map row_info rs"]
    by (auto simp: rust_vdecl_def)
  moreover have "vd_reads (rust_vdecl P c) = concat grss" using grss(1) by (simp add: rust_vdecl_def)
  ultimately show ?thesis using c(1) by auto
qed

end
