(* ===== verification/Nim_Text.thy ===== *)
theory Nim_Text
  imports Nim_Analysis Go_Generator
begin

text \<open>
  The text that the Nim back end emits, \<open>src/idl_gen_ssz_nim.cpp\<close>: names and types, the object type,
  \<open>sszBytesLen\<close>, \<open>marshalSSZTo\<close>, \<open>fromSSZBytes\<close> and \<open>hashTreeRootWith\<close>, and the one file
  that \<open>generate\<close> writes.
\<close>

section \<open>Names\<close>

definition NimKeywords :: "string list" where
  "NimKeywords =
     [''addr'', ''and'', ''as'', ''asm'', ''bind'',
      ''block'', ''break'', ''case'', ''cast'', ''concept'',
      ''const'', ''continue'', ''converter'', ''defer'', ''discard'',
      ''distinct'', ''div'', ''do'', ''elif'', ''else'',
      ''end'', ''enum'', ''except'', ''export'', ''finally'',
      ''for'', ''from'', ''func'', ''if'', ''import'',
      ''in'', ''include'', ''interface'', ''is'', ''isnot'',
      ''iterator'', ''let'', ''macro'', ''method'', ''mixin'',
      ''mod'', ''nil'', ''not'', ''notin'', ''object'',
      ''of'', ''or'', ''out'', ''proc'', ''ptr'',
      ''raise'', ''ref'', ''return'', ''shl'', ''shr'',
      ''static'', ''template'', ''try'', ''tuple'', ''type'',
      ''using'', ''var'', ''when'', ''while'', ''xor'',
      ''yield'']"

definition SszNimDefaultConfig :: Config where
  "SszNimDefaultConfig =
     \<lparr>cfg_types = kKeep,
      cfg_constants = kUnknown,
      cfg_methods = kLowerCamel,
      cfg_functions = kLowerCamel,
      cfg_fields = kLowerCamel,
      cfg_variables = kLowerCamel,
      cfg_variants = kKeep,
      enum_variant_seperator = '''',
      escape_keywords = AfterConvertingCase,
      cfg_namespaces = kKeep,
      namespace_seperator = ''_'',
      object_prefix = '''',
      object_suffix = '''',
      keyword_prefix = '''',
      keyword_suffix = ''_'',
      keywords_casing = CaseSensitive,
      cfg_filenames = kKeep,
      cfg_directories = kKeep,
      output_path = '''',
      filename_suffix = ''_ssz'',
      filename_extension = ''.nim''\<rparr>"

text \<open>\<open>p\<close> is the character before, if there is one.\<close>

fun nim_snake_from :: "char option \<Rightarrow> string \<Rightarrow> string" where
  "nim_snake_from p [] = []"
| "nim_snake_from p (c # r) =
     (if isupper c then
        (case p of
           None \<Rightarrow> []
         | Some q \<Rightarrow>
             if \<not> isupper q then ''_''
             else if r \<noteq> [] \<and> isupper q \<and> \<not> isupper (hd r) then ''_''
             else []) @ [CharToLower c]
      else [c]) @ nim_snake_from (Some c) r"

definition nim_ToSnakeCase :: "string \<Rightarrow> string" where
  "nim_ToSnakeCase input = nim_snake_from None input"

fun nim_ToCamelCase :: "string \<Rightarrow> string" where
  "nim_ToCamelCase [] = []"
| "nim_ToCamelCase (c # r) = CharToLower c # r"

definition nim_namer :: "SszGenerator \<Rightarrow> Config" where
  "nim_namer G = WithFlagOptions SszNimDefaultConfig (gen_opts G) (gen_path G)"

definition NimFieldName :: "SszGenerator \<Rightarrow> FieldDef \<Rightarrow> string" where
  "NimFieldName G field = nim_ToCamelCase (Field (nim_namer G) NimKeywords field)"

abbreviation nim_Field :: "SszGenerator \<Rightarrow> FieldPtr \<Rightarrow> string" where
  "nim_Field G p \<equiv> NimFieldName G (field_at (gen_parser G) p)"

section \<open>Types\<close>

definition NimElemTypeName :: "Parser \<Rightarrow> SszFieldInfo \<Rightarrow> string" where
  "NimElemTypeName P info =
     (case ssz_type info of
        SszBool \<Rightarrow> ''bool''
      | SszUint8 \<Rightarrow> ''uint8''
      | SszUint16 \<Rightarrow> ''uint16''
      | SszUint32 \<Rightarrow> ''uint32''
      | SszUint64 \<Rightarrow> ''uint64''
      | SszContainer \<Rightarrow> info_struct_name P ''UNKNOWN'' info
      | SszList \<Rightarrow> ''seq[byte]''
      | _ \<Rightarrow> ''UNKNOWN'')"

definition nim_list_type :: "Parser \<Rightarrow> SszFieldInfo \<Rightarrow> FieldDef \<Rightarrow> string" where
  "nim_list_type P info field =
     (if base_type (field_type field) = BASE_TYPE_STRING then ''seq[byte]''
      else (case elem_info info of
              Some e \<Rightarrow> if ssz_type e = SszUint8 then ''seq[byte]'' else ''seq['' @ NimElemTypeName P e @ '']''
            | None \<Rightarrow> ''seq[byte]''))"

definition NimTypeName :: "Parser \<Rightarrow> SszFieldInfo \<Rightarrow> FieldDef \<Rightarrow> string" where
  "NimTypeName P info field =
     (case ssz_type info of
        SszBool \<Rightarrow> ''bool''
      | SszUint8 \<Rightarrow> ''uint8''
      | SszUint16 \<Rightarrow> ''uint16''
      | SszUint32 \<Rightarrow> ''uint32''
      | SszUint64 \<Rightarrow> ''uint64''
      | SszUint128 \<Rightarrow> ''array[16, byte]''
      | SszUint256 \<Rightarrow> ''array[32, byte]''
      | SszContainer \<Rightarrow> info_struct_name P ''UNKNOWN'' info
      | SszVector \<Rightarrow>
          (case elem_info info of
             Some e \<Rightarrow>
               if ssz_type e = SszUint8 then ''array['' @ num64 (info_limit info) @ '', byte]''
               else ''array['' @ num64 (info_limit info) @ '', '' @ NimElemTypeName P e @ '']''
           | None \<Rightarrow> ''UNKNOWN'')
      | SszProgressiveList \<Rightarrow> nim_list_type P info field
      | SszList \<Rightarrow> nim_list_type P info field
      | SszBitlist \<Rightarrow> ''seq[byte]''
      | SszBitvector \<Rightarrow> ''array['' @ num32 ((bitsize info + 7) div 8) @ '', byte]''
      | SszProgressiveContainer \<Rightarrow> info_struct_name P ''UNKNOWN'' info
      | SszUnion \<Rightarrow> ''SszUnion'')"

definition nim_GenNimType :: "SszGenerator \<Rightarrow> StructDef \<Rightarrow> SszContainerInfo \<Rightarrow> string" where
  "nim_GenNimType G struct_def container =
     line [] (''type '' @ sd_name struct_def @ ''* = object'') @
     each_field container (all_fields container) (\<lambda>p info.
       line sp2 (nim_Field G p @ ''*: '' @ NimTypeName (gen_parser G) info (field_at (gen_parser G) p)))"

section \<open>Size\<close>

definition nim_GenSizeField :: "SszFieldInfo \<Rightarrow> string \<Rightarrow> string \<Rightarrow> string" where
  "nim_GenSizeField info var indent =
     (let list_size =
        (if elem_is info SszList then
           line indent (''result += len('' @ var @ '') * 4'') @
           line indent (''for item in '' @ var @ '':'') @
           line (indent @ sp2) ''result += len(item)''
         else if elem_is info SszContainer \<and> elem_dynamic info then
           line indent (''result += len('' @ var @ '') * 4'') @
           line indent (''for item in '' @ var @ '':'') @
           line (indent @ sp2) ''result += sszBytesLen(item)''
         else if elem_info info \<noteq> None then
           line indent (''result += len('' @ var @ '') * '' @ num32 (elem_fixed_size info))
         else line indent (''result += len('' @ var @ '')''))
      in case ssz_type info of
           SszProgressiveList \<Rightarrow> list_size
         | SszList \<Rightarrow> list_size
         | SszBitlist \<Rightarrow> line indent (''result += len('' @ var @ '')'')
         | SszContainer \<Rightarrow> line indent (''result += sszBytesLen('' @ var @ '')'')
         | _ \<Rightarrow> [])"

definition nim_GenSszBytesLen :: "SszGenerator \<Rightarrow> StructDef \<Rightarrow> SszContainerInfo \<Rightarrow> string" where
  "nim_GenSszBytesLen G struct_def container =
     line [] (''proc sszBytesLen*(t: '' @ sd_name struct_def @ ''): int ='') @
     (if is_fixed container then line sp2 (''result = '' @ num32 (static_size container))
      else
        line sp2 (''result = '' @ num32 (static_size container)) @
        each_field container (dynamic_fields container) (\<lambda>p info.
          nim_GenSizeField info (''t.'' @ nim_Field G p) sp2))"

section \<open>Encoding\<close>

definition nim_GenMarshalSSZ :: "StructDef \<Rightarrow> string" where
  "nim_GenMarshalSSZ struct_def =
     line [] (''proc marshalSSZ*(t: '' @ sd_name struct_def @ ''): seq[byte] ='') @
     line sp2 ''result = newSeqOfCap[byte](sszBytesLen(t))'' @
     line sp2 ''marshalSSZTo(t, result)''"

text \<open>A boolean, and a number of \<open>w\<close> bits by way of the local \<open>x\<close>.\<close>

definition nim_put_bool :: "string \<Rightarrow> string \<Rightarrow> string" where
  "nim_put_bool var indent =
     line indent (''if '' @ var @ '':'') @
     line (indent @ sp2) ''buf.add(1'u8)'' @
     line indent ''else:'' @
     line (indent @ sp2) ''buf.add(0'u8)''"

definition nim_put_uint :: "nat \<Rightarrow> string \<Rightarrow> string \<Rightarrow> string \<Rightarrow> string" where
  "nim_put_uint w x var indent =
     line indent ''block:'' @
     line (indent @ sp2) (''var tmp: array['' @ NumToString (w div 8) @ '', byte]'') @
     line (indent @ sp2) (''var '' @ x @ '' = '' @ var) @
     line (indent @ sp2) (''littleEndian'' @ NumToString w @ ''(addr tmp[0], addr '' @ x @ '')'') @
     line (indent @ sp2) ''buf.add(tmp)''"

definition nim_marshal_primitive :: "SszType \<Rightarrow> string \<Rightarrow> string \<Rightarrow> string \<Rightarrow> string" where
  "nim_marshal_primitive ty x var indent =
     (case ty of
        SszBool \<Rightarrow> nim_put_bool var indent
      | SszUint16 \<Rightarrow> nim_put_uint 16 x var indent
      | SszUint32 \<Rightarrow> nim_put_uint 32 x var indent
      | SszUint64 \<Rightarrow> nim_put_uint 64 x var indent
      | _ \<Rightarrow> [])"

definition nim_GenMarshalPrimitiveArray :: "SszFieldInfo \<Rightarrow> string \<Rightarrow> string \<Rightarrow> string" where
  "nim_GenMarshalPrimitiveArray info var indent =
     line indent (''for i in 0 ..< len('' @ var @ ''):'') @
     nim_marshal_primitive (elem_ssz_type info) ''v'' (var @ ''[i]'') (indent @ sp2)"

definition nim_GenMarshalPrimitiveSlice :: "SszFieldInfo \<Rightarrow> string \<Rightarrow> string \<Rightarrow> string" where
  "nim_GenMarshalPrimitiveSlice info var indent =
     line indent (''for v in '' @ var @ '':'') @
     nim_marshal_primitive (elem_ssz_type info) ''vv'' ''v'' (indent @ sp2)"

text \<open>The statements that write the distance from \<open>base\<close> at \<open>pos\<close>.\<close>

definition nim_put_offset :: "string \<Rightarrow> string \<Rightarrow> string \<Rightarrow> string" where
  "nim_put_offset pos base indent =
     line indent ''block:'' @
     line (indent @ sp2) (''let offset = uint32(len(buf) - '' @ base @ '')'') @
     line (indent @ sp2) ''var tmp: array[4, byte]'' @
     line (indent @ sp2) ''littleEndian32(addr tmp[0], unsafeAddr offset)'' @
     line (indent @ sp2) (''copyMem(addr buf['' @ pos @ ''], addr tmp[0], 4)'')"

text \<open>A list of variable-size elements; \<open>body\<close> writes the element.\<close>

definition nim_offset_list :: "string \<Rightarrow> string \<Rightarrow> string \<Rightarrow> string" where
  "nim_offset_list var indent body =
     line indent ''block:'' @
     line (indent @ sp2) ''let listStart = len(buf)'' @
     line (indent @ sp2) (''for i in 0 ..< len('' @ var @ ''):'') @
     line (indent @ sp4) ''buf.add([byte 0, 0, 0, 0])'' @
     line (indent @ sp2) (''for i in 0 ..< len('' @ var @ ''):'') @
     nim_put_offset ''listStart + i * 4'' ''listStart'' (indent @ sp4) @
     line (indent @ sp4) body"

definition nim_marshal_vector :: "SszFieldInfo \<Rightarrow> string \<Rightarrow> string \<Rightarrow> string" where
  "nim_marshal_vector info var indent =
     (if elem_is info SszUint8 then line indent (''buf.add('' @ var @ '')'')
      else if elem_is info SszContainer then
        line indent (''for i in 0 ..< len('' @ var @ ''):'') @
        line (indent @ sp2) (''marshalSSZTo('' @ var @ ''[i], buf)'')
      else if elem_info info \<noteq> None then nim_GenMarshalPrimitiveArray info var indent
      else [])"

definition nim_marshal_list :: "SszFieldInfo \<Rightarrow> string \<Rightarrow> string \<Rightarrow> string" where
  "nim_marshal_list info var indent =
     (if elem_is info SszList then nim_offset_list var indent (''buf.add('' @ var @ ''[i])'')
      else if elem_is info SszUint8 then line indent (''buf.add('' @ var @ '')'')
      else if elem_is info SszContainer then
        (if elem_dynamic info then nim_offset_list var indent (''marshalSSZTo('' @ var @ ''[i], buf)'')
         else
           line indent (''for item in '' @ var @ '':'') @
           line (indent @ sp2) ''marshalSSZTo(item, buf)'')
      else if elem_info info \<noteq> None then nim_GenMarshalPrimitiveSlice info var indent
      else line indent (''buf.add('' @ var @ '')''))"

definition nim_GenMarshalField :: "SszFieldInfo \<Rightarrow> string \<Rightarrow> string \<Rightarrow> string" where
  "nim_GenMarshalField info var indent =
     (case ssz_type info of
        SszBool \<Rightarrow> nim_put_bool var indent
      | SszUint8 \<Rightarrow> line indent (''buf.add('' @ var @ '')'')
      | SszUint16 \<Rightarrow> nim_put_uint 16 ''v'' var indent
      | SszUint32 \<Rightarrow> nim_put_uint 32 ''v'' var indent
      | SszUint64 \<Rightarrow> nim_put_uint 64 ''v'' var indent
      | SszUint128 \<Rightarrow> line indent (''buf.add('' @ var @ '')'')
      | SszUint256 \<Rightarrow> line indent (''buf.add('' @ var @ '')'')
      | SszVector \<Rightarrow> nim_marshal_vector info var indent
      | SszProgressiveList \<Rightarrow> nim_marshal_list info var indent
      | SszList \<Rightarrow> nim_marshal_list info var indent
      | SszBitlist \<Rightarrow> line indent (''buf.add('' @ var @ '')'')
      | SszBitvector \<Rightarrow> line indent (''buf.add('' @ var @ '')'')
      | SszContainer \<Rightarrow> line indent (''marshalSSZTo('' @ var @ '', buf)'')
      | SszProgressiveContainer \<Rightarrow> line indent (''marshalSSZTo('' @ var @ '', buf)'')
      | SszUnion \<Rightarrow> [])"

fun nim_static_fields :: "SszGenerator \<Rightarrow> SszContainerInfo \<Rightarrow> nat \<Rightarrow> FieldPtr list \<Rightarrow> string" where
  "nim_static_fields G container offset_idx [] = []"
| "nim_static_fields G container offset_idx (p # ps) =
     (case field_infos container p of
        None \<Rightarrow> nim_static_fields G container offset_idx ps
      | Some info \<Rightarrow>
          let name = fd_name (field_at (gen_parser G) p) in
          if is_dynamic info then
            line sp2 (''# Offset for '' @ sq @ name @ sq) @
            line sp2 (''let offsetPos'' @ NumToString offset_idx @ '' = len(buf)'') @
            line sp2 ''buf.add([byte 0, 0, 0, 0])'' @
            nim_static_fields G container (offset_idx + 1) ps
          else
            line sp2 (''# Field '' @ sq @ name @ sq) @
            nim_GenMarshalField info (''t.'' @ nim_Field G p) sp2 @
            nim_static_fields G container offset_idx ps)"

fun nim_dynamic_fields :: "SszGenerator \<Rightarrow> SszContainerInfo \<Rightarrow> nat \<Rightarrow> FieldPtr list \<Rightarrow> string" where
  "nim_dynamic_fields G container offset_idx [] = []"
| "nim_dynamic_fields G container offset_idx (p # ps) =
     (case field_infos container p of
        None \<Rightarrow> nim_dynamic_fields G container offset_idx ps
      | Some info \<Rightarrow>
          if is_dynamic info then
            line sp2 (''# Dynamic field '' @ sq @ fd_name (field_at (gen_parser G) p) @ sq) @
            nim_put_offset (''offsetPos'' @ NumToString offset_idx) ''dstStart'' sp2 @
            nim_GenMarshalField info (''t.'' @ nim_Field G p) sp2 @
            nim_dynamic_fields G container (offset_idx + 1) ps
          else nim_dynamic_fields G container offset_idx ps)"

definition nim_GenMarshalSSZTo :: "SszGenerator \<Rightarrow> StructDef \<Rightarrow> SszContainerInfo \<Rightarrow> string" where
  "nim_GenMarshalSSZTo G struct_def container =
     line [] (''proc marshalSSZTo*(t: '' @ sd_name struct_def @ '', buf: var seq[byte]) ='') @
     (if dynamic_fields container = [] then
        each_field container (all_fields container) (\<lambda>p info.
          nim_GenMarshalField info (''t.'' @ nim_Field G p) sp2)
      else
        line sp2 ''let dstStart = len(buf)'' @ nl @
        nim_static_fields G container 0 (all_fields container) @ nl @
        nim_dynamic_fields G container 0 (all_fields container))"

end
