(* ===== verification/Nim_Generator.thy ===== *)
theory Nim_Generator
  imports Nim_Text
begin

text \<open>
  The decoding and hashing procedures that the Nim back end emits, the code of one type, and
  \<open>generate\<close>, which writes one file for the schema.
\<close>

section \<open>Decoding\<close>

definition nim_raise :: "string \<Rightarrow> string \<Rightarrow> string" where
  "nim_raise indent msg = line indent (''raise newException(SszError, '' @ dq @ msg @ dq @ '')'')"

text \<open>A boolean and a number of \<open>w\<close> bits at \<open>src\<close>.\<close>

definition nim_get_bool :: "string \<Rightarrow> string \<Rightarrow> string \<Rightarrow> string" where
  "nim_get_bool var src indent =
     line indent (''if '' @ src @ '' > 1'u8:'') @
     nim_raise (indent @ sp2) ''invalid bool'' @
     line indent (var @ '' = '' @ src @ '' == 1'u8'')"

definition nim_get_uint :: "nat \<Rightarrow> string \<Rightarrow> string \<Rightarrow> string \<Rightarrow> string" where
  "nim_get_uint w var src indent =
     line indent (''littleEndian'' @ NumToString w @ ''(addr '' @ var @ '', unsafeAddr '' @ src @ '')'')"

definition nim_get_primitive :: "SszType \<Rightarrow> string \<Rightarrow> string \<Rightarrow> string \<Rightarrow> string" where
  "nim_get_primitive ty var src indent =
     (case ty of
        SszBool \<Rightarrow> nim_get_bool var src indent
      | SszUint16 \<Rightarrow> nim_get_uint 16 var src indent
      | SszUint32 \<Rightarrow> nim_get_uint 32 var src indent
      | SszUint64 \<Rightarrow> nim_get_uint 64 var src indent
      | _ \<Rightarrow> [])"

definition nim_copy :: "SszFieldInfo \<Rightarrow> string \<Rightarrow> string \<Rightarrow> string \<Rightarrow> string" where
  "nim_copy info var off_str indent =
     line indent (''copyMem(addr '' @ var @ ''[0], unsafeAddr data['' @ off_str @ ''], '' @
       num32 (fixed_size info) @ '')'')"

definition nim_GenUnmarshalPrimitiveArray :: "SszFieldInfo \<Rightarrow> string \<Rightarrow> u32 \<Rightarrow> string \<Rightarrow> string" where
  "nim_GenUnmarshalPrimitiveArray info var offset indent =
     line indent (''for i in 0 ..< '' @ num64 (info_limit info) @ '':'') @
     line (indent @ sp2) (''let off = '' @ num32 offset @ '' + i * '' @ num32 (elem_fixed_size info)) @
     nim_get_primitive (elem_ssz_type info) (var @ ''[i]'') ''data[off]'' (indent @ sp2)"

definition nim_unmarshal_vector :: "Parser \<Rightarrow> SszFieldInfo \<Rightarrow> string \<Rightarrow> u32 \<Rightarrow> string \<Rightarrow> string" where
  "nim_unmarshal_vector P info var offset indent =
     (case elem_info info of
        None \<Rightarrow> []
      | Some e \<Rightarrow>
          if ssz_type e = SszUint8 then nim_copy info var (num32 offset) indent
          else if ssz_type e = SszContainer then
            (let elem_size = num32 (fixed_size e) in
             line indent (''for i in 0 ..< '' @ num64 (info_limit info) @ '':'') @
             line (indent @ sp2) (''let start = '' @ num32 offset @ '' + i * '' @ elem_size) @
             line (indent @ sp2) (var @ ''[i] = fromSSZBytes('' @ info_struct_name P '''' e @
               '', data.toOpenArray(start, start + '' @ elem_size @ '' - 1))''))
          else nim_GenUnmarshalPrimitiveArray info var offset indent)"

definition nim_GenUnmarshalField :: "Parser \<Rightarrow> SszFieldInfo \<Rightarrow> string \<Rightarrow> u32 \<Rightarrow> string \<Rightarrow> string" where
  "nim_GenUnmarshalField P info var offset indent =
     (let off_str = num32 offset; src = ''data['' @ off_str @ '']'' in
      case ssz_type info of
        SszBool \<Rightarrow> nim_get_bool var src indent
      | SszUint8 \<Rightarrow> line indent (var @ '' = '' @ src)
      | SszUint16 \<Rightarrow> nim_get_uint 16 var src indent
      | SszUint32 \<Rightarrow> nim_get_uint 32 var src indent
      | SszUint64 \<Rightarrow> nim_get_uint 64 var src indent
      | SszUint128 \<Rightarrow> nim_copy info var off_str indent
      | SszUint256 \<Rightarrow> nim_copy info var off_str indent
      | SszVector \<Rightarrow> nim_unmarshal_vector P info var offset indent
      | SszBitvector \<Rightarrow> nim_copy info var off_str indent
      | SszContainer \<Rightarrow>
          line indent (var @ '' = fromSSZBytes('' @ info_struct_name P '''' info @ '', data.toOpenArray('' @
            off_str @ '', '' @ num32 (offset + fixed_size info) @ '' - 1))'')
      | _ \<Rightarrow> [])"

definition nim_GenUnmarshalPrimitiveSlice :: "SszFieldInfo \<Rightarrow> string \<Rightarrow> string \<Rightarrow> string" where
  "nim_GenUnmarshalPrimitiveSlice info var indent =
     (let elem_size = num32 (elem_fixed_size info);
          nim_elem_type = (case elem_ssz_type info of
              SszBool \<Rightarrow> ''bool''
            | SszUint16 \<Rightarrow> ''uint16''
            | SszUint32 \<Rightarrow> ''uint32''
            | SszUint64 \<Rightarrow> ''uint64''
            | _ \<Rightarrow> ''uint8'')
      in line indent (''let count = len(dynData) div '' @ elem_size) @
         line indent (var @ '' = newSeq['' @ nim_elem_type @ ''](count)'') @
         line indent ''for i in 0 ..< count:'' @
         line (indent @ sp2) (''let off = i * '' @ elem_size) @
         nim_get_primitive (elem_ssz_type info) (var @ ''[i]'') ''dynData[off]'' (indent @ sp2))"

text \<open>
  A list of variable-size elements: the type of the list's elements and the expression of the element
  between \<open>int(startOff)\<close> and \<open>endOff\<close>.
\<close>

definition nim_unmarshal_offsets :: "string \<Rightarrow> string \<Rightarrow> string \<Rightarrow> string \<Rightarrow> string" where
  "nim_unmarshal_offsets var ty elem indent =
     line indent ''if len(dynData) > 0:'' @
     line (indent @ sp2) ''var firstOff: uint32'' @
     line (indent @ sp2) ''littleEndian32(addr firstOff, unsafeAddr dynData[0])'' @
     line (indent @ sp2) ''if int(firstOff) mod 4 != 0:'' @
     nim_raise (indent @ sp4) ''invalid offset'' @
     line (indent @ sp2) ''let count = int(firstOff) div 4'' @
     line (indent @ sp2) (var @ '' = newSeq['' @ ty @ ''](count)'') @
     line (indent @ sp2) ''for i in 0 ..< count:'' @
     line (indent @ sp4) ''var startOff: uint32'' @
     line (indent @ sp4) ''littleEndian32(addr startOff, unsafeAddr dynData[i * 4])'' @
     line (indent @ sp4) ''var endOff: int'' @
     line (indent @ sp4) ''if i + 1 < count:'' @
     line (indent @ sp6) ''var nextOff: uint32'' @
     line (indent @ sp6) ''littleEndian32(addr nextOff, unsafeAddr dynData[(i + 1) * 4])'' @
     line (indent @ sp6) ''endOff = int(nextOff)'' @
     line (indent @ sp4) ''else:'' @
     line (indent @ sp6) ''endOff = len(dynData)'' @
     line (indent @ sp4) ''if int(startOff) > endOff or endOff > len(dynData):'' @
     nim_raise (indent @ sp6) ''invalid offset'' @
     line (indent @ sp4) (var @ ''[i] = '' @ elem)"

definition nim_unmarshal_list :: "Parser \<Rightarrow> SszFieldInfo \<Rightarrow> string \<Rightarrow> string \<Rightarrow> string" where
  "nim_unmarshal_list P info var indent =
     (case elem_info info of
        None \<Rightarrow> line indent (var @ '' = @(dynData)'')
      | Some e \<Rightarrow>
          if ssz_type e = SszList then
            nim_unmarshal_offsets var ''seq[byte]'' ''@(dynData.toOpenArray(int(startOff), endOff - 1))'' indent
          else if ssz_type e = SszUint8 then line indent (var @ '' = @(dynData)'')
          else if ssz_type e = SszContainer then
            (let name = info_struct_name P '''' e in
             if is_dynamic e then
               nim_unmarshal_offsets var (NimElemTypeName P e)
                 (''fromSSZBytes('' @ name @ '', dynData.toOpenArray(int(startOff), endOff - 1))'') indent
             else
               (let elem_size = num32 (fixed_size e) in
                line indent (''let count = len(dynData) div '' @ elem_size) @
                line indent (var @ '' = newSeq['' @ NimElemTypeName P e @ ''](count)'') @
                line indent ''for i in 0 ..< count:'' @
                line (indent @ sp2) (''let off = i * '' @ elem_size) @
                line (indent @ sp2) (var @ ''[i] = fromSSZBytes('' @ name @
                  '', dynData.toOpenArray(off, off + '' @ elem_size @ '' - 1))'')))
          else nim_GenUnmarshalPrimitiveSlice info var indent)"

definition nim_GenUnmarshalDynField :: "Parser \<Rightarrow> SszFieldInfo \<Rightarrow> string \<Rightarrow> string \<Rightarrow> string" where
  "nim_GenUnmarshalDynField P info var indent =
     (case ssz_type info of
        SszProgressiveList \<Rightarrow> nim_unmarshal_list P info var indent
      | SszList \<Rightarrow> nim_unmarshal_list P info var indent
      | SszBitlist \<Rightarrow> line indent (var @ '' = @(dynData)'')
      | SszContainer \<Rightarrow> line indent (var @ '' = fromSSZBytes('' @ info_struct_name P '''' info @ '', dynData)'')
      | _ \<Rightarrow> [])"

fun nim_unmarshal_fixed :: "SszGenerator \<Rightarrow> SszContainerInfo \<Rightarrow> u32 \<Rightarrow> FieldPtr list \<Rightarrow> string" where
  "nim_unmarshal_fixed G container offset [] = []"
| "nim_unmarshal_fixed G container offset (p # ps) =
     (case field_infos container p of
        None \<Rightarrow> nim_unmarshal_fixed G container offset ps
      | Some info \<Rightarrow>
          nim_GenUnmarshalField (gen_parser G) info (''result.'' @ nim_Field G p) offset sp2 @
          nim_unmarshal_fixed G container (offset + fixed_size info) ps)"

definition nim_read_offset :: "SszContainerInfo \<Rightarrow> u32 \<Rightarrow> nat \<Rightarrow> string" where
  "nim_read_offset container offset dyn_idx =
     (let k = NumToString dyn_idx in
      line sp2 (''var offset'' @ k @ '': uint32'') @
      line sp2 (''littleEndian32(addr offset'' @ k @ '', unsafeAddr data['' @ num32 offset @ ''])'') @
      line sp2 (''let off'' @ k @ '' = int(offset'' @ k @ '')'') @
      (if dyn_idx = 0 then line sp2 (''if off0 != '' @ num32 (static_size container) @ '':'')
       else line sp2 (''if off'' @ k @ '' < off'' @ NumToString (dyn_idx - 1) @ '' or off'' @ k @ '' > len(data):'')) @
      nim_raise sp4 ''invalid offset'')"

fun nim_unmarshal_static :: "SszGenerator \<Rightarrow> SszContainerInfo \<Rightarrow> u32 \<Rightarrow> nat \<Rightarrow> FieldPtr list \<Rightarrow> string" where
  "nim_unmarshal_static G container offset dyn_idx [] = []"
| "nim_unmarshal_static G container offset dyn_idx (p # ps) =
     (case field_infos container p of
        None \<Rightarrow> nim_unmarshal_static G container offset dyn_idx ps
      | Some info \<Rightarrow>
          if is_dynamic info then
            nim_read_offset container offset dyn_idx @
            nim_unmarshal_static G container (offset + 4) (dyn_idx + 1) ps
          else
            nim_GenUnmarshalField (gen_parser G) info (''result.'' @ nim_Field G p) offset sp2 @
            nim_unmarshal_static G container (offset + fixed_size info) dyn_idx ps)"

text \<open>The loop over \<open>dyn_offset_names\<close>, the dynamic fields that the loop before has met.\<close>

definition nim_dyn_offset_names :: "SszContainerInfo \<Rightarrow> FieldPtr list" where
  "nim_dyn_offset_names container =
     filter (\<lambda>p. case field_infos container p of None \<Rightarrow> False | Some info \<Rightarrow> is_dynamic info) (all_fields container)"

fun nim_unmarshal_dynamic :: "SszGenerator \<Rightarrow> SszContainerInfo \<Rightarrow> nat \<Rightarrow> FieldPtr list \<Rightarrow> string" where
  "nim_unmarshal_dynamic G container i [] = []"
| "nim_unmarshal_dynamic G container i (p # ps) =
     (case field_infos container p of
        None \<Rightarrow> nim_unmarshal_dynamic G container (i + 1) ps
      | Some info \<Rightarrow>
          line sp2 ''block:'' @
          line sp4 (''let dynData = data.toOpenArray(off'' @ NumToString i @ '', '' @
            (if ps = [] then ''len(data)'' else ''off'' @ NumToString (i + 1)) @ '' - 1)'') @
          nim_GenUnmarshalDynField (gen_parser G) info (''result.'' @ nim_Field G p) sp4 @
          nim_unmarshal_dynamic G container (i + 1) ps)"

definition nim_GenFromSSZBytes :: "SszGenerator \<Rightarrow> StructDef \<Rightarrow> SszContainerInfo \<Rightarrow> string" where
  "nim_GenFromSSZBytes G struct_def container =
     line [] (''proc fromSSZBytes*(T: typedesc['' @ sd_name struct_def @ ''], data: openArray[byte]): '' @
       sd_name struct_def @ '' ='') @
     line sp2 (''if len(data) < '' @ num32 (static_size container) @ '':'') @
     nim_raise sp4 ''buffer too small'' @
     (if dynamic_fields container = [] then nim_unmarshal_fixed G container 0 (all_fields container)
      else
        nim_unmarshal_static G container 0 0 (all_fields container) @ nl @
        nim_unmarshal_dynamic G container 0 (nim_dyn_offset_names container))"

section \<open>Hashing\<close>

definition nim_ssz_limit_for_bytes :: "u64 \<Rightarrow> u64" where
  "nim_ssz_limit_for_bytes max_bytes = (max_bytes + 31) div 32"

definition nim_ssz_limit_for_elements :: "u64 \<Rightarrow> u32 \<Rightarrow> u64" where
  "nim_ssz_limit_for_elements max_elements elem_size =
     (if elem_size \<ge> 32 then max_elements
      else let elems_per_chunk = ucast (32 div elem_size)
           in (max_elements + elems_per_chunk - 1) div elems_per_chunk)"

definition nim_GenHashPrimitive :: "SszType \<Rightarrow> string \<Rightarrow> string \<Rightarrow> bool \<Rightarrow> string" where
  "nim_GenHashPrimitive ty var indent is_append =
     (let method = (if is_append then ''append'' else ''put'') in
      case ty of
        SszBool \<Rightarrow> line indent (''h.'' @ method @ ''Bool('' @ var @ '')'')
      | SszUint8 \<Rightarrow> line indent (''h.'' @ method @ ''Uint8('' @ var @ '')'')
      | SszUint16 \<Rightarrow> line indent (''h.'' @ method @ ''Uint16('' @ var @ '')'')
      | SszUint32 \<Rightarrow> line indent (''h.'' @ method @ ''Uint32('' @ var @ '')'')
      | SszUint64 \<Rightarrow> line indent (''h.'' @ method @ ''Uint64('' @ var @ '')'')
      | _ \<Rightarrow> [])"

definition nim_GenHashPrimitiveArray :: "SszFieldInfo \<Rightarrow> string \<Rightarrow> string \<Rightarrow> string" where
  "nim_GenHashPrimitiveArray info var indent =
     line indent (''for i in 0 ..< len('' @ var @ ''):'') @
     nim_GenHashPrimitive (elem_ssz_type info) (var @ ''[i]'') (indent @ sp2) True"

definition nim_GenHashPrimitiveSlice :: "SszFieldInfo \<Rightarrow> string \<Rightarrow> string \<Rightarrow> string" where
  "nim_GenHashPrimitiveSlice info var indent =
     line indent (''for v in '' @ var @ '':'') @
     nim_GenHashPrimitive (elem_ssz_type info) ''v'' (indent @ sp2) True"

definition nim_sub_tree :: "string \<Rightarrow> string \<Rightarrow> string \<Rightarrow> string" where
  "nim_sub_tree indent content tail_line =
     line indent ''block:'' @ line (indent @ sp2) ''let subIdx = h.index()'' @ content @
     line (indent @ sp2) tail_line"

definition nim_hash_containers :: "string \<Rightarrow> string \<Rightarrow> string" where
  "nim_hash_containers var indent =
     line indent (''for item in '' @ var @ '':'') @ line (indent @ sp2) ''hashTreeRootWith(item, h)''"

definition nim_hash_vector :: "SszFieldInfo \<Rightarrow> string \<Rightarrow> string \<Rightarrow> string" where
  "nim_hash_vector info var indent =
     (if elem_is info SszUint8 then line indent (''h.putBytes('' @ var @ '')'')
      else if elem_is info SszContainer then
        nim_sub_tree indent
          (line (indent @ sp2) (''for i in 0 ..< len('' @ var @ ''):'') @
           line (indent @ sp4) (''hashTreeRootWith('' @ var @ ''[i], h)''))
          ''h.merkleize(subIdx)''
      else if elem_info info \<noteq> None then
        nim_sub_tree indent
          (nim_GenHashPrimitiveArray info var (indent @ sp2) @ line (indent @ sp2) ''h.fillUpTo32()'')
          ''h.merkleize(subIdx)''
      else [])"

definition nim_mixin :: "string \<Rightarrow> u64 \<Rightarrow> string" where
  "nim_mixin var limit =
     ''h.merkleizeWithMixin(subIdx, uint64(len('' @ var @ '')), '' @ num64 limit @ '''u64)''"

definition nim_inner_chunk_limit :: "SszFieldInfo \<Rightarrow> u64" where
  "nim_inner_chunk_limit info =
     (let inner_limit = (case elem_info info of None \<Rightarrow> 0 | Some e \<Rightarrow> info_limit e)
      in if inner_limit > 0 then nim_ssz_limit_for_bytes inner_limit else 0)"

definition nim_hash_list :: "SszFieldInfo \<Rightarrow> string \<Rightarrow> string \<Rightarrow> string" where
  "nim_hash_list info var indent =
     (let limit = info_limit info; inner_chunk_limit = nim_inner_chunk_limit info in
      if elem_is info SszList then
        nim_sub_tree indent
          (line (indent @ sp2) (''for item in '' @ var @ '':'') @
           line (indent @ sp4) ''let inner = h.index()'' @
           line (indent @ sp4) ''h.appendBytes32(item)'' @
           (if inner_chunk_limit > 0 then
              line (indent @ sp4) (''h.merkleizeWithMixin(inner, uint64(len(item)), '' @
                num64 inner_chunk_limit @ '''u64)'')
            else line (indent @ sp4) ''h.merkleize(inner)''))
          (nim_mixin var limit)
      else if elem_is info SszUint8 then
        nim_sub_tree indent (line (indent @ sp2) (''h.appendBytes32('' @ var @ '')''))
          (nim_mixin var (nim_ssz_limit_for_bytes limit))
      else if elem_is info SszContainer then
        nim_sub_tree indent (nim_hash_containers var (indent @ sp2)) (nim_mixin var limit)
      else if elem_info info \<noteq> None then
        nim_sub_tree indent
          (nim_GenHashPrimitiveSlice info var (indent @ sp2) @ line (indent @ sp2) ''h.fillUpTo32()'')
          (nim_mixin var (nim_ssz_limit_for_elements limit (elem_fixed_size info)))
      else [])"

definition nim_hash_progressive_list :: "SszFieldInfo \<Rightarrow> string \<Rightarrow> string \<Rightarrow> string" where
  "nim_hash_progressive_list info var indent =
     (let mixin = ''h.merkleizeProgressiveWithMixin(subIdx, uint64(len('' @ var @ '')))'' in
      if elem_is info SszUint8 then
        nim_sub_tree indent (line (indent @ sp2) (''h.appendBytes32('' @ var @ '')'')) mixin
      else if elem_is info SszContainer then
        nim_sub_tree indent (nim_hash_containers var (indent @ sp2)) mixin
      else if elem_info info \<noteq> None then
        nim_sub_tree indent
          (nim_GenHashPrimitiveSlice info var (indent @ sp2) @ line (indent @ sp2) ''h.fillUpTo32()'') mixin
      else [])"

definition nim_GenHashField :: "SszFieldInfo \<Rightarrow> string \<Rightarrow> string \<Rightarrow> string" where
  "nim_GenHashField info var indent =
     (case ssz_type info of
        SszBool \<Rightarrow> line indent (''h.putBool('' @ var @ '')'')
      | SszUint8 \<Rightarrow> line indent (''h.putUint8('' @ var @ '')'')
      | SszUint16 \<Rightarrow> line indent (''h.putUint16('' @ var @ '')'')
      | SszUint32 \<Rightarrow> line indent (''h.putUint32('' @ var @ '')'')
      | SszUint64 \<Rightarrow> line indent (''h.putUint64('' @ var @ '')'')
      | SszUint128 \<Rightarrow> line indent (''h.putBytes('' @ var @ '')'')
      | SszUint256 \<Rightarrow> line indent (''h.putBytes('' @ var @ '')'')
      | SszVector \<Rightarrow> nim_hash_vector info var indent
      | SszList \<Rightarrow> nim_hash_list info var indent
      | SszBitlist \<Rightarrow> line indent (''h.putBitlist('' @ var @ '', '' @ num64 (info_limit info) @ '''u64)'')
      | SszBitvector \<Rightarrow> line indent (''h.putBytes('' @ var @ '')'')
      | SszContainer \<Rightarrow> line indent (''hashTreeRootWith('' @ var @ '', h)'')
      | SszProgressiveContainer \<Rightarrow> line indent (''hashTreeRootWith('' @ var @ '', h)'')
      | SszProgressiveList \<Rightarrow> nim_hash_progressive_list info var indent
      | SszUnion \<Rightarrow> [])"

definition nim_hash_index :: "SszGenerator \<Rightarrow> SszContainerInfo \<Rightarrow> u32 \<Rightarrow> string" where
  "nim_hash_index G container i =
     (case map_of (index_to_field container) i of
        Some p \<Rightarrow>
          (case field_infos container p of
             None \<Rightarrow> []
           | Some info \<Rightarrow>
               line sp2 (''# Index '' @ num32 i @ '': '' @ fd_name (field_at (gen_parser G) p)) @
               nim_GenHashField info (''t.'' @ nim_Field G p) sp2)
      | None \<Rightarrow>
          line sp2 (''# Index '' @ num32 i @ '': gap (inactive)'') @ line sp2 ''h.putUint8(0'u8)'')"

definition nim_GenHashTreeRootWith :: "SszGenerator \<Rightarrow> StructDef \<Rightarrow> SszContainerInfo \<Rightarrow> string" where
  "nim_GenHashTreeRootWith G struct_def container =
     line [] (''proc hashTreeRootWith*(t: '' @ sd_name struct_def @ '', h: var Hasher) ='') @
     line sp2 ''let idx = h.index()'' @ nl @
     (if is_progressive container then
        concat (map (\<lambda>i. nim_hash_index G container (of_nat i)) [0..<Suc (unat (max_ssz_index container))]) @ nl @
        line sp2 (''h.merkleizeProgressiveWithActiveFields(idx, @['' @
          comma_list (map (\<lambda>b. hex_byte b @ '''u8'') (active_fields_bitvector container)) @ ''])'')
      else
        each_field container (all_fields container) (\<lambda>p info.
          line sp2 (''# Field '' @ sq @ fd_name (field_at (gen_parser G) p) @ sq) @
          nim_GenHashField info (''t.'' @ nim_Field G p) sp2 @ nl) @
        line sp2 ''h.merkleize(idx)'')"

definition nim_GenHashTreeRoot :: "StructDef \<Rightarrow> string" where
  "nim_GenHashTreeRoot struct_def =
     line [] (''proc hashTreeRoot*(t: '' @ sd_name struct_def @ ''): array[32, byte] ='') @
     line sp2 ''var h = HasherPool.get()'' @
     line sp2 ''defer: HasherPool.put(h)'' @
     line sp2 ''hashTreeRootWith(t, h)'' @
     line sp2 ''result = h.hashRoot()''"

section \<open>The file\<close>

definition nim_GenerateType :: "SszGenerator \<Rightarrow> StructDef \<Rightarrow> SszContainerInfo \<Rightarrow> string" where
  "nim_GenerateType G struct_def container =
     nim_GenNimType G struct_def container @ nl @
     nim_GenSszBytesLen G struct_def container @ nl @
     nim_GenMarshalSSZTo G struct_def container @ nl @
     nim_GenMarshalSSZ struct_def @ nl @
     nim_GenFromSSZBytes G struct_def container @ nl @
     nim_GenHashTreeRoot struct_def @ nl @
     nim_GenHashTreeRootWith G struct_def container"

definition nim_file_text :: "string \<Rightarrow> string" where
  "nim_file_text classcode =
     strip_newlines
       (line [] ''# Code generated by the FlatBuffers compiler. DO NOT EDIT.'' @ nl @
        line [] ''import std/endians'' @
        line [] ''import ssz_runtime'' @ nl @
        classcode)"

definition nim_file_name :: "SszGenerator \<Rightarrow> string \<Rightarrow> string list \<Rightarrow> string" where
  "nim_file_name G file_name ns =
     (let directory = Directories (nim_namer G) ns in
      (if directory = [] then gen_path G else directory) @ nim_ToSnakeCase file_name @ ''_ssz.nim'')"

definition nim_SaveFile ::
  "(string \<Rightarrow> string \<Rightarrow> bool) \<Rightarrow> SszGenerator \<Rightarrow> string \<Rightarrow> string list \<Rightarrow> string \<Rightarrow> files res" where
  "nim_SaveFile save G file_name ns classcode =
     (if classcode = [] then Inr []
      else
        (let code = nim_file_text classcode; filename = nim_file_name G file_name ns
         in if save filename code then Inr [(filename, code)] else Inl (SaveFailed filename)))"

text \<open>The first loop of \<open>generate\<close> analyses every struct before any text is written.\<close>

definition nim_collect ::
  "nat \<Rightarrow> Parser \<Rightarrow> StructPtr \<Rightarrow> (StructPtr \<times> SszContainerInfo) list \<Rightarrow> (StructPtr \<times> SszContainerInfo) list res" where
  "nim_collect depth P s containers =
     (if sd_generated (struct_at P s) then Inr containers
      else bind_res (nim_AnalyzeContainer depth P s) (\<lambda>container. Inr (containers @ [(s, container)])))"

fun nim_types :: "SszGenerator \<Rightarrow> (StructPtr \<times> SszContainerInfo) list \<Rightarrow> string" where
  "nim_types G [] = []"
| "nim_types G ((s, container) # cs) =
     nim_GenerateType G (struct_at (gen_parser G) s) container @ (if cs = [] then [] else nl) @ nim_types G cs"

definition nim_generate :: "(string \<Rightarrow> string \<Rightarrow> bool) \<Rightarrow> nat \<Rightarrow> SszGenerator \<Rightarrow> string \<Rightarrow> files res" where
  "nim_generate save depth G file_name =
     bind_res (fold_res (nim_collect depth (gen_parser G)) (structs_vec (gen_parser G)) []) (\<lambda>containers.
       case containers of
         [] \<Rightarrow> Inr []
       | (s, c) # cs \<Rightarrow>
           nim_SaveFile save G file_name (sd_namespace (struct_at (gen_parser G) s)) (nim_types G containers))"

end
