(* ===== verification/Nim_Program.thy ===== *)
theory Nim_Program
  imports Nim_Generator Go_Hash_Root
begin

text \<open>
  The dialect of the Nim back end, the Nim text of the statements of \<open>Emit_Program\<close> and \<open>Emit_Hash\<close>,
  and the proofs that the emitted text is theirs.  The hashing style is that of the Go back end.
\<close>

section \<open>The dialect\<close>

definition nim_dialect :: "SszGenerator \<Rightarrow> dialect" where
  "nim_dialect G =
     \<lparr>dl_member = nim_Field G, dl_label = (\<lambda>p. fd_name (field_at (gen_parser G) p)),
      dl_index_loops = True,
      dl_size_progressive = False, dl_size_bytes = False\<rparr>"

lemma nim_dialect_simps [simp]:
  "dl_member (nim_dialect G) p = nim_Field G p"
  "dl_label (nim_dialect G) p = fd_name (field_at (gen_parser G) p)"
  "dl_index_loops (nim_dialect G)" "\<not> dl_size_progressive (nim_dialect G)" "\<not> dl_size_bytes (nim_dialect G)"
  by (simp_all add: nim_dialect_def)

section \<open>Nim text\<close>

text \<open>The names that the Nim code gives to the positions.\<close>

definition nm_name :: "string \<Rightarrow> string" where
  "nm_name x =
     (if x = ''dstlen'' then ''dstStart''
      else if take 6 x = ''offset'' then ''offsetPos'' @ drop 6 x else x)"

lemma nm_name_simps [simp]:
  "nm_name ''dstlen'' = ''dstStart''" "nm_name ''listStart'' = ''listStart''"
  "nm_name (''offset'' @ k) = ''offsetPos'' @ k"
  by (simp_all add: nm_name_def)

text \<open>
  A loop over elements and their numbers walks over the numbers; \<open>env\<close> says for which expression a
  local variable of the statements stands.
\<close>

type_synonym names = "(string \<times> string) list"

fun nm_expr :: "names \<Rightarrow> gexpr \<Rightarrow> string" where
  "nm_expr env (GMember f) = ''t.'' @ f"
| "nm_expr env (GLocal x) = (case map_of env x of None \<Rightarrow> x | Some s \<Rightarrow> s)"
| "nm_expr env (GIndex e i) = nm_expr env e @ ''['' @ i @ '']''"

fun nm_pos :: "gpos \<Rightarrow> string" where
  "nm_pos (PAt x) = nm_name x"
| "nm_pos (PElem x i k) = nm_name x @ '' + '' @ i @ '' * '' @ NumToString k"

text \<open>A number is copied to a local first, which must not have the name of a loop variable.\<close>

definition nm_copy :: "gexpr \<Rightarrow> string" where
  "nm_copy e = (if e = GLocal ''v'' then ''vv'' else ''v'')"

fun nm_stmt :: "names \<Rightarrow> string \<Rightarrow> gstmt \<Rightarrow> string"
  and nm_stmts :: "names \<Rightarrow> string \<Rightarrow> gstmt list \<Rightarrow> string" where
  "nm_stmt env ind (Comment s) = line ind (''# '' @ s)"
| "nm_stmt env ind Blank = nl"
| "nm_stmt env ind DstIsBuf = []"
| "nm_stmt env ind (DeclLen x) = line ind (''let '' @ nm_name x @ '' = len(buf)'')"
| "nm_stmt env ind (AppendByte e) = line ind (''buf.add('' @ nm_expr env e @ '')'')"
| "nm_stmt env ind (AppendConst b) = line ind (if b then ''buf.add(1'u8)'' else ''buf.add(0'u8)'')"
| "nm_stmt env ind AppendZeros = line ind ''buf.add([byte 0, 0, 0, 0])''"
| "nm_stmt env ind (AppendSlice e) = line ind (''buf.add('' @ nm_expr env e @ '')'')"
| "nm_stmt env ind (AppendArray e) = line ind (''buf.add('' @ nm_expr env e @ '')'')"
| "nm_stmt env ind (AppendUint w e) = nim_put_uint w (nm_copy e) (nm_expr env e) ind"
| "nm_stmt env ind (PutLen p base) = nim_put_offset (nm_pos p) (nm_name base) ind"
| "nm_stmt env ind (IfElse e a b) =
     line ind (''if '' @ nm_expr env e @ '':'') @ nm_stmts env (ind @ sp2) a @
     line ind ''else:'' @ nm_stmts env (ind @ sp2) b"
| "nm_stmt env ind (ForIndex i e b) =
     line ind (''for '' @ i @ '' in 0 ..< len('' @ nm_expr env e @ ''):'') @ nm_stmts env (ind @ sp2) b"
| "nm_stmt env ind (ForValue x e b) =
     line ind (''for '' @ x @ '' in '' @ nm_expr env e @ '':'') @ nm_stmts ((x, x) # env) (ind @ sp2) b"
| "nm_stmt env ind (ForEach e b) =
     line ind (''for i in 0 ..< len('' @ nm_expr env e @ ''):'') @ nm_stmts env (ind @ sp2) b"
| "nm_stmt env ind (ForBoth i x e b) =
     line ind (''for '' @ i @ '' in 0 ..< len('' @ nm_expr env e @ ''):'') @
     nm_stmts ((x, nm_expr env e @ ''['' @ i @ '']'') # env) (ind @ sp2) b"
| "nm_stmt env ind (Block b) = line ind ''block:'' @ nm_stmts env (ind @ sp2) b"
| "nm_stmt env ind (MarshalInto e) = line ind (''marshalSSZTo('' @ nm_expr env e @ '', buf)'')"
| "nm_stmt env ind (SizeInit n) = line ind (''result = '' @ NumToString n)"
| "nm_stmt env ind (SizeAddMul e k) =
     line ind (''result += len('' @ nm_expr env e @ '') * '' @ NumToString k)"
| "nm_stmt env ind (SizeAddLen e) = line ind (''result += len('' @ nm_expr env e @ '')'')"
| "nm_stmt env ind (SizeAddCall e) = line ind (''result += sszBytesLen('' @ nm_expr env e @ '')'')"
| "nm_stmts env ind [] = []"
| "nm_stmts env ind (s # ss) = nm_stmt env ind s @ nm_stmts env ind ss"

lemma nm_stmts_append [simp]: "nm_stmts env ind (xs @ ys) = nm_stmts env ind xs @ nm_stmts env ind ys"
  by (induction xs) auto

section \<open>The emitted text is the text of the statements\<close>

abbreviation nm_member :: "string \<Rightarrow> string" where "nm_member f \<equiv> ''t.'' @ f"

lemma print_nim_bool:
  "nim_put_bool (nm_expr env e) ind =
   nm_stmt env ind (IfElse e [AppendConst True] [AppendConst False])"
  by (simp add: nim_put_bool_def)

lemma print_nim_prims:
  "x = nm_copy e \<Longrightarrow> nim_marshal_primitive t x (nm_expr env e) ind = nm_stmts env ind (prim_stmts t e)"
  by (cases t) (simp_all add: nim_marshal_primitive_def prim_stmts_def print_nim_bool del: nm_stmt.simps(12))

lemma print_nim_array:
  "nim_GenMarshalPrimitiveArray info (nm_expr env e) ind =
   nm_stmt env ind (ForIndex ''i'' e (prim_stmts (elem_ssz_type info) (GIndex e ''i'')))"
  using print_nim_prims [of "''v''" "GIndex e ''i''" "elem_ssz_type info" env "ind @ sp2"]
  by (simp add: nim_GenMarshalPrimitiveArray_def nm_copy_def)

lemma print_nim_slice:
  "nim_GenMarshalPrimitiveSlice info (nm_expr env e) ind =
   nm_stmt env ind (ForValue ''v'' e (prim_stmts (elem_ssz_type info) (GLocal ''v'')))"
  using print_nim_prims [of "''vv''" "GLocal ''v''" "elem_ssz_type info" "(''v'', ''v'') # env" "ind @ sp2"]
  by (simp add: nim_GenMarshalPrimitiveSlice_def nm_copy_def)

lemma print_nim_offset_list:
  assumes "\<And>env. nm_stmt ((''item'', nm_expr env e @ ''[i]'') # env) (ind @ sp4) s = line (ind @ sp4) (body (nm_expr env e @ ''[i]''))"
  shows "nim_offset_list (nm_expr env e) ind (body (nm_expr env e @ ''[i]'')) = nm_stmts env ind (offset_list e [s])"
  using assms [of env] by (simp add: nim_offset_list_def offset_list_def num_literals)

lemma print_nim_vector:
  "nim_marshal_vector info (nm_expr env e) ind = nm_stmts env ind (vector_stmts True info e)"
  by (simp add: nim_marshal_vector_def vector_stmts_def print_nim_array)

lemma print_nim_list: "nim_marshal_list info (nm_expr env e) ind = nm_stmts env ind (list_stmts info e)"
  using print_nim_offset_list [of e ind "AppendSlice (GLocal ''item'')" "\<lambda>x. ''buf.add('' @ x @ '')''" env]
    print_nim_offset_list [of e ind "MarshalInto (GLocal ''item'')" "\<lambda>x. ''marshalSSZTo('' @ x @ '', buf)''" env]
  by (simp add: nim_marshal_list_def list_stmts_def print_nim_slice)

lemma print_nim_field: "nim_GenMarshalField info (nm_expr [] (GMember f)) ind = nm_stmts [] ind (field_stmts True info (GMember f))"
  by (cases "ssz_type info")
    (simp_all add: nim_GenMarshalField_def field_stmts_def print_nim_vector [of _ "[]" "GMember f", simplified]
      print_nim_list [of _ "[]" "GMember f", simplified] print_nim_bool [of "[]" "GMember f", simplified] nm_copy_def)

lemma print_nim_size: "nim_GenSizeField info (nm_expr [] e) ind = nm_stmts [] ind (size_stmts False False info e)"
  by (cases "ssz_type info") (simp_all add: nim_GenSizeField_def size_stmts_def Let_def num_literals)

lemma nim_each:
  "(\<And>p i. body p i = nm_stmts [] ind (stmts (p, i))) \<Longrightarrow>
   each_field c ps body = nm_stmts [] ind (concat (map stmts (infos_of c ps)))"
  by (induction ps) (auto split: option.splits)

lemma print_nim_static:
  "nim_static_fields G c idx ps = nm_stmts [] sp2 (static_stmts (nim_dialect G) idx (infos_of c ps))"
  by (induction ps arbitrary: idx) (auto simp: print_nim_field [simplified] nm_name_def Let_def split: option.splits)

lemma print_nim_dynamic:
  "nim_dynamic_fields G c idx ps = nm_stmts [] sp2 (dynamic_stmts (nim_dialect G) idx (infos_of c ps))"
  by (induction ps arbitrary: idx) (auto simp: print_nim_field [simplified] nm_name_def split: option.splits)

lemma print_nim_marshal:
  "nim_GenMarshalSSZTo G sd c =
     line [] (''proc marshalSSZTo*(t: '' @ sd_name sd @ '', buf: var seq[byte]) ='') @
     nm_stmts [] sp2 (marshal_body (nim_dialect G) c)"
proof -
  have "each_field c ps (\<lambda>p info. nim_GenMarshalField info (''t.'' @ nim_Field G p) sp2) =
      nm_stmts [] sp2 (concat (map (dl_field_stmts (nim_dialect G)) (infos_of c ps)))" for ps
    by (rule nim_each) (simp add: print_nim_field [simplified])
  then show ?thesis
    by (simp add: nim_GenMarshalSSZTo_def marshal_body_def print_nim_static print_nim_dynamic nm_name_def)
qed

lemma print_nim_size_body:
  "nim_GenSszBytesLen G sd c =
     line [] (''proc sszBytesLen*(t: '' @ sd_name sd @ ''): int ='') @
     (if is_fixed c then line sp2 (''result = '' @ num32 (static_size c))
      else nm_stmts [] sp2 (size_body (nim_dialect G) c))"
proof -
  have "each_field c ps (\<lambda>p info. nim_GenSizeField info (''t.'' @ nim_Field G p) sp2) =
      nm_stmts [] sp2 (concat (map (dl_size_stmts (nim_dialect G)) (infos_of c ps)))" for ps
    by (rule nim_each) (simp add: print_nim_size [of _ "GMember f" for f, simplified])
  then show ?thesis by (simp add: nim_GenSszBytesLen_def size_body_def)
qed

section \<open>Hashing\<close>

fun nm_hstmt :: "string \<Rightarrow> hstmt \<Rightarrow> string"
  and nm_hstmts :: "string \<Rightarrow> hstmt list \<Rightarrow> string" where
  "nm_hstmt ind (HNote s) = line ind (''# '' @ s)"
| "nm_hstmt ind HBlank = nl"
| "nm_hstmt ind (HIndex x) = line ind (''let '' @ x @ '' = h.index()'')"
| "nm_hstmt ind (HPutBool e) = line ind (''h.putBool('' @ nm_expr [] e @ '')'')"
| "nm_hstmt ind (HPutUint w e) = line ind (''h.putUint'' @ NumToString w @ ''('' @ nm_expr [] e @ '')'')"
| "nm_hstmt ind HPutZero = line ind ''h.putUint8(0'u8)''"
| "nm_hstmt ind (HPutArray e) = line ind (''h.putBytes('' @ nm_expr [] e @ '')'')"
| "nm_hstmt ind (HPutBitlist e l) = line ind (''h.putBitlist('' @ nm_expr [] e @ '', '' @ num64 l @ '''u64)'')"
| "nm_hstmt ind (HAppendBool e) = line ind (''h.appendBool('' @ nm_expr [] e @ '')'')"
| "nm_hstmt ind (HAppendUint w e) =
     line ind (''h.appendUint'' @ NumToString w @ ''('' @ nm_expr [] e @ '')'')"
| "nm_hstmt ind (HAppendBytes32 e) = line ind (''h.appendBytes32('' @ nm_expr [] e @ '')'')"
| "nm_hstmt ind HFill = line ind ''h.fillUpTo32()''"
| "nm_hstmt ind (HMerkleize x) = line ind (''h.merkleize('' @ x @ '')'')"
| "nm_hstmt ind (HMixin x e l) =
     line ind (''h.merkleizeWithMixin('' @ x @ '', uint64(len('' @ nm_expr [] e @ '')), '' @ num64 l @ '''u64)'')"
| "nm_hstmt ind (HProgMixin x e) =
     line ind (''h.merkleizeProgressiveWithMixin('' @ x @ '', uint64(len('' @ nm_expr [] e @ '')))'')"
| "nm_hstmt ind (HProgActive x bs) =
     line ind (''h.merkleizeProgressiveWithActiveFields('' @ x @ '', @['' @
       comma_list (map (\<lambda>b. hex_byte b @ '''u8'') bs) @ ''])'')"
| "nm_hstmt ind (HFor i e b) =
     line ind (''for '' @ i @ '' in 0 ..< len('' @ nm_expr [] e @ ''):'') @ nm_hstmts (ind @ sp2) b"
| "nm_hstmt ind (HForVal x e b) =
     line ind (''for '' @ x @ '' in '' @ nm_expr [] e @ '':'') @ nm_hstmts (ind @ sp2) b"
| "nm_hstmt ind (HBlk b) = line ind ''block:'' @ nm_hstmts (ind @ sp2) b"
| "nm_hstmt ind (HCall e) = line ind (''hashTreeRootWith('' @ nm_expr [] e @ '', h)'')"
| "nm_hstmt ind HPutZeroHash = []"
| "nm_hstmts ind [] = []"
| "nm_hstmts ind (s # ss) = nm_hstmt ind s @ nm_hstmts ind ss"

lemma nm_hstmts_append [simp]: "nm_hstmts ind (xs @ ys) = nm_hstmts ind xs @ nm_hstmts ind ys"
  by (induction xs) auto

lemma nim_limits:
  "nim_ssz_limit_for_bytes = go_ssz_limit_for_bytes" "nim_ssz_limit_for_elements = go_ssz_limit_for_elements"
  "nim_inner_chunk_limit = go_inner_chunk_limit"
  by (intro ext; simp add: nim_ssz_limit_for_bytes_def go_ssz_limit_for_bytes_def nim_ssz_limit_for_elements_def
      go_ssz_limit_for_elements_def nim_inner_chunk_limit_def go_inner_chunk_limit_def Let_def)+

lemma print_nim_append: "nim_GenHashPrimitive t (nm_expr [] e) ind True = nm_hstmts ind (append_stmts t e)"
  by (cases t) (simp_all add: nim_GenHashPrimitive_def append_stmts_def num_literals digit_8)

lemmas print_nim_append_exprs =
  print_nim_append [of _ "GIndex e ''i''" for e, simplified] print_nim_append [of _ "GLocal ''v''", simplified]

lemma print_nim_hash_vector:
  "nim_hash_vector info (nm_expr [] e) ind = nm_hstmts ind (hash_vector_stmts True info e)"
  by (simp add: nim_hash_vector_def hash_vector_stmts_def sub_tree_def nim_sub_tree_def
      nim_GenHashPrimitiveArray_def print_nim_append_exprs)

lemma print_nim_hash_list:
  "nim_hash_list info (nm_expr [] e) ind = nm_hstmts ind (hash_list_stmts list_limit info e)"
  by (cases "elem_info info = None")
    (simp_all add: elem_is_none nim_hash_list_def hash_list_stmts_def hash_elems_stmts_def list_limit_def
      sub_tree_def nim_sub_tree_def nim_hash_containers_def nim_GenHashPrimitiveSlice_def nim_mixin_def
      nim_limits print_nim_append_exprs Let_def)

lemma print_nim_hash_progressive:
  "nim_hash_progressive_list info (nm_expr [] e) ind = nm_hstmts ind (hash_progressive_stmts info e)"
  by (cases "elem_info info = None")
    (simp_all add: elem_is_none nim_hash_progressive_list_def hash_progressive_stmts_def hash_elems_stmts_def
      sub_tree_def nim_sub_tree_def nim_hash_containers_def nim_GenHashPrimitiveSlice_def
      print_nim_append_exprs Let_def)

lemma print_nim_hash:
  "nim_GenHashField info (nm_expr [] e) ind = nm_hstmts ind (hash_stmts go_style info e)"
  by (cases "ssz_type info")
    (simp_all add: nim_GenHashField_def hash_stmts_def print_nim_hash_vector print_nim_hash_list
      print_nim_hash_progressive num_literals digit_8)

lemmas print_nim_hash_member = print_nim_hash [of _ "GMember f" for f, simplified]

lemma print_nim_hash_index: "nim_hash_index G c i = nm_hstmts sp2 (index_stmts go_style (nim_dialect G) c i)"
  by (simp add: nim_hash_index_def index_stmts_def print_nim_hash_member split: option.split)

lemma print_nim_hash_body:
  "nim_GenHashTreeRootWith G sd c =
     line [] (''proc hashTreeRootWith*(t: '' @ sd_name sd @ '', h: var Hasher) ='') @
     nm_hstmts sp2 (hash_body go_style (nim_dialect G) c)"
proof -
  have "each_field c ps (\<lambda>p info. line sp2 (''# Field '' @ sq @ fd_name (field_at (gen_parser G) p) @ sq) @
      nim_GenHashField info (''t.'' @ nim_Field G p) sp2 @ nl) =
      nm_hstmts sp2 (concat (map (field_hash_stmts go_style (nim_dialect G)) (infos_of c ps)))" for ps
    by (induction ps) (auto simp: field_hash_stmts_def print_nim_hash_member split: option.splits)
  moreover have "concat (map (\<lambda>i. nim_hash_index G c (of_nat i)) is) =
      nm_hstmts sp2 (concat (map (\<lambda>i. index_stmts go_style (nim_dialect G) c (of_nat i)) is))" for "is" :: "nat list"
    by (induction "is") (auto simp: print_nim_hash_index)
  ultimately show ?thesis
    by (simp only: nim_GenHashTreeRootWith_def hash_body_def) (simp del: upt_Suc)
qed

section \<open>The emitted programs\<close>

definition nim_decl :: "SszGenerator \<Rightarrow> SszContainerInfo \<Rightarrow> gdecl" where
  "nim_decl G = emit_decl (nim_dialect G)"

definition nim_program :: "nat \<Rightarrow> SszGenerator \<Rightarrow> gprogram" where
  "nim_program depth G = emit_program nim_AnalyzeContainer (nim_dialect G) depth (gen_parser G)"

definition nim_hdecl :: "SszGenerator \<Rightarrow> SszContainerInfo \<Rightarrow> hdecl" where
  "nim_hdecl G = emit_hdecl go_style (nim_dialect G)"

definition nim_hprogram :: "nat \<Rightarrow> SszGenerator \<Rightarrow> hprogram" where
  "nim_hprogram depth G = emit_hprogram nim_AnalyzeContainer go_style (nim_dialect G) depth (gen_parser G)"

lemma nim_program_eq:
  "nim_program depth G = emit_program go_AnalyzeContainer (nim_dialect G) depth (gen_parser G)"
  "nim_hprogram depth G = emit_hprogram go_AnalyzeContainer go_style (nim_dialect G) depth (gen_parser G)"
  by (simp_all only: nim_program_def nim_hprogram_def
      go_copy.emit_program_eq [OF nim.go_copy_axioms] go_copy.emit_hprogram_eq [OF nim.go_copy_axioms])

text \<open>
  What the Nim compiler checks of the names: types and members are distinct (it compares members
  without regard to underscores and to the case of all letters but the first).
\<close>

fun nim_same :: "string \<Rightarrow> string" where
  "nim_same [] = []"
| "nim_same (c # r) = c # map CharToLower (filter (\<lambda>d. d \<noteq> CHR ''_'') r)"

text \<open>A Nim identifier has no underscore at its end and no two in a row.\<close>

fun nim_identifier :: "string \<Rightarrow> bool" where
  "nim_identifier [] = False"
| "nim_identifier [c] = (c \<noteq> CHR ''_'')"
| "nim_identifier (c # d # r) = (\<not> (c = CHR ''_'' \<and> d = CHR ''_'') \<and> nim_identifier (d # r))"

lemma nim_identifier_trailing: "\<not> nim_identifier (s @ ''_'')"
  by (induction s rule: nim_identifier.induct) auto

definition nim_names_ok :: "SszGenerator \<Rightarrow> bool" where
  "nim_names_ok G \<longleftrightarrow>
     names_ok (nim_dialect G) (gen_parser G) \<and>
     list_all (\<lambda>s. distinct (map (\<lambda>p. nim_same (nim_Field G p)) (live_fields (gen_parser G) s)) \<and>
         list_all (\<lambda>p. nim_identifier (nim_Field G p)) (live_fields (gen_parser G) s))
       [0..<length (struct_store (gen_parser G))]"

section \<open>Keywords\<close>

text \<open>The configuration of the namer, with the options of a run.\<close>

lemma nim_namer_simps [simp]:
  "escape_keywords (nim_namer G) = AfterConvertingCase" "keywords_casing (nim_namer G) = CaseSensitive"
  "keyword_prefix (nim_namer G) = []" "keyword_suffix (nim_namer G) = ''_''" "cfg_fields (nim_namer G) = kLowerCamel"
  by (simp_all add: nim_namer_def WithFlagOptions_def SszNimDefaultConfig_def)

lemma nim_keyword_field:
  assumes "ConvertCase (fd_name f) kLowerCamel kLowerCamel \<in> set NimKeywords"
  shows "NimFieldName G f = ConvertCase (fd_name f) kLowerCamel kLowerCamel @ ''_''"
proof -
  have "\<forall>k \<in> set NimKeywords. nim_ToCamelCase k = k" by code_simp
  with assms have eq: "nim_ToCamelCase (ConvertCase (fd_name f) kLowerCamel kLowerCamel) =
      ConvertCase (fd_name f) kLowerCamel kLowerCamel"
    by blast
  have ne: "ConvertCase (fd_name f) kLowerCamel kLowerCamel \<noteq> []"
    using assms by (auto simp: NimKeywords_def)
  have camel: "nim_ToCamelCase (k @ r) = nim_ToCamelCase k @ r" if "k \<noteq> []" for k r
    using that by (cases k) auto
  show ?thesis
    using assms eq camel [OF ne]
    by (simp add: NimFieldName_def Field_def Format_def EscapeKeyword_def NormalizeKeywordCase_def)
qed

end
