(* ===== verification/Ts_Analysis.thy ===== *)
theory Ts_Analysis
  imports Go_Progress
begin

text \<open>
  The schema analysis of the TypeScript back end, \<open>src/idl_gen_ssz_ts.cpp\<close>, with its own messages,
  in the form of \<open>Go_Analysis\<close>.
\<close>

section \<open>Schema analysis of the TypeScript back end\<close>

definition ts_resolve_struct :: "analyzer \<Rightarrow> Type \<Rightarrow> SszFieldInfo \<Rightarrow> SszFieldInfo res" where
  "ts_resolve_struct analyze type info =
     bind_res (case type_struct type of None \<Rightarrow> Inl OutOfBounds | Some s \<Rightarrow> analyze s)
       (\<lambda>nested. Inr (assign
          [set_ssz_type SszContainer,
           set_struct (type_struct type),
           set_fixed_size (if is_fixed nested then static_size nested else 0),
           set_dynamic (\<not> is_fixed nested)] info))"

definition ts_ResolveElemType ::
  "analyzer \<Rightarrow> FieldDef \<Rightarrow> Type \<Rightarrow> SszFieldInfo \<Rightarrow> SszFieldInfo res" where
  "ts_ResolveElemType analyze field elem_type info =
     (case base_type elem_type of
        BASE_TYPE_BOOL \<Rightarrow> Inr (assign [set_ssz_type SszBool, set_fixed_size 1] info)
      | BASE_TYPE_UCHAR \<Rightarrow> Inr (assign [set_ssz_type SszUint8, set_fixed_size 1] info)
      | BASE_TYPE_CHAR \<Rightarrow> Inr (assign [set_ssz_type SszUint8, set_fixed_size 1] info)
      | BASE_TYPE_USHORT \<Rightarrow> Inr (assign [set_ssz_type SszUint16, set_fixed_size 2] info)
      | BASE_TYPE_SHORT \<Rightarrow> Inr (assign [set_ssz_type SszUint16, set_fixed_size 2] info)
      | BASE_TYPE_UINT \<Rightarrow> Inr (assign [set_ssz_type SszUint32, set_fixed_size 4] info)
      | BASE_TYPE_INT \<Rightarrow> Inr (assign [set_ssz_type SszUint32, set_fixed_size 4] info)
      | BASE_TYPE_ULONG \<Rightarrow> Inr (assign [set_ssz_type SszUint64, set_fixed_size 8] info)
      | BASE_TYPE_LONG \<Rightarrow> Inr (assign [set_ssz_type SszUint64, set_fixed_size 8] info)
      | BASE_TYPE_STRING \<Rightarrow>
          Inr (assign
            [set_ssz_type SszList, set_fixed_size 0, set_dynamic True,
             set_elem (assign [set_ssz_type SszUint8, set_fixed_size 1] new_info)] info)
      | BASE_TYPE_STRUCT \<Rightarrow> ts_resolve_struct analyze elem_type info
      | _ \<Rightarrow> Inl (field_msg field ''unsupported element type for SSZ vector/list''))"

definition ts_ResolveVectorType ::
  "analyzer \<Rightarrow> FieldDef \<Rightarrow> Type \<Rightarrow> Value SymbolTable \<Rightarrow> SszFieldInfo \<Rightarrow> SszFieldInfo res" where
  "ts_ResolveVectorType analyze field type attrs info =
     (let elem_type = VectorType type in
      if Lookup attrs ''ssz_progressive_bitlist'' \<noteq> None then
        Inr (assign [set_ssz_type SszBitlist, set_limit 0, set_fixed_size 0, set_dynamic True] info)
      else if Lookup attrs ''ssz_bitlist'' \<noteq> None then
        (case Lookup attrs ''ssz_max'' of
           None \<Rightarrow> Inl (field_msg field ''ssz_bitlist requires ssz_max attribute'')
         | Some max_attr \<Rightarrow>
             Inr (assign
               [set_ssz_type SszBitlist, set_limit (attr_uint max_attr),
                set_fixed_size 0, set_dynamic True] info))
      else if Lookup attrs ''ssz_progressive_list'' \<noteq> None then
        bind_res (ts_ResolveElemType analyze field elem_type new_info)
          (\<lambda>elem. Inr (assign
             [set_ssz_type SszProgressiveList, set_fixed_size 0, set_dynamic True,
              set_elem elem] info))
      else
        (case Lookup attrs ''ssz_max'' of
           None \<Rightarrow> Inl (field_msg field ''vector type requires ssz_max attribute'')
         | Some max_attr \<Rightarrow>
             (let max_str = v_constant max_attr;
                  (outer_max, inner_max) =
                    (case split_comma max_str of
                       Some (outer_str, inner_str) \<Rightarrow> (StringToUInt (c_str outer_str), StringToUInt (c_str inner_str))
                     | None \<Rightarrow> (StringToUInt (c_str max_str), 0))
              in bind_res (ts_ResolveElemType analyze field elem_type new_info)
                   (\<lambda>elem. Inr (assign
                      [set_ssz_type SszList, set_limit outer_max, set_fixed_size 0, set_dynamic True,
                       set_elem (if ssz_type elem = SszList \<and> inner_max > 0
                                 then set_limit inner_max elem else elem)] info)))))"

definition ts_ResolveArrayType ::
  "analyzer \<Rightarrow> FieldDef \<Rightarrow> Type \<Rightarrow> Value SymbolTable \<Rightarrow> SszFieldInfo \<Rightarrow> SszFieldInfo res" where
  "ts_ResolveArrayType analyze field type attrs info =
     (let elem_type = VectorType type; array_len = fixed_length type in
      if Lookup attrs ''ssz_bitvector'' \<noteq> None then
        (let bits = (case Lookup attrs ''ssz_bitsize'' of
                       Some bitsize_attr \<Rightarrow> ucast (attr_uint bitsize_attr)
                     | None \<Rightarrow> ucast array_len * 8)
         in Inr (assign
              [set_ssz_type SszBitvector, set_bitsize bits,
               set_fixed_size ((bits + 7) div 8), set_dynamic False] info))
      else
        bind_res (ts_ResolveElemType analyze field elem_type new_info)
          (\<lambda>elem. Inr (assign
             [set_ssz_type SszVector, set_elem elem,
              set_fixed_size (ucast array_len * fixed_size elem), set_dynamic False,
              set_limit (ucast array_len)] info)))"

definition ts_ResolveSszFieldInfo :: "analyzer \<Rightarrow> FieldDef \<Rightarrow> SszFieldInfo \<Rightarrow> SszFieldInfo res" where
  "ts_ResolveSszFieldInfo analyze field info =
     (let type = field_type field; attrs = fd_attributes field in
      case base_type type of
        BASE_TYPE_BOOL \<Rightarrow> Inr (assign [set_ssz_type SszBool, set_fixed_size 1, set_dynamic False] info)
      | BASE_TYPE_UCHAR \<Rightarrow> Inr (assign [set_ssz_type SszUint8, set_fixed_size 1, set_dynamic False] info)
      | BASE_TYPE_CHAR \<Rightarrow> Inr (assign [set_ssz_type SszUint8, set_fixed_size 1, set_dynamic False] info)
      | BASE_TYPE_USHORT \<Rightarrow> Inr (assign [set_ssz_type SszUint16, set_fixed_size 2, set_dynamic False] info)
      | BASE_TYPE_SHORT \<Rightarrow> Inr (assign [set_ssz_type SszUint16, set_fixed_size 2, set_dynamic False] info)
      | BASE_TYPE_UINT \<Rightarrow> Inr (assign [set_ssz_type SszUint32, set_fixed_size 4, set_dynamic False] info)
      | BASE_TYPE_INT \<Rightarrow> Inr (assign [set_ssz_type SszUint32, set_fixed_size 4, set_dynamic False] info)
      | BASE_TYPE_ULONG \<Rightarrow> Inr (assign [set_ssz_type SszUint64, set_fixed_size 8, set_dynamic False] info)
      | BASE_TYPE_LONG \<Rightarrow> Inr (assign [set_ssz_type SszUint64, set_fixed_size 8, set_dynamic False] info)
      | BASE_TYPE_STRING \<Rightarrow>
          (case Lookup attrs ''ssz_max'' of
             None \<Rightarrow> Inl (field_msg field ''string type requires ssz_max attribute'')
           | Some max_attr \<Rightarrow>
               Inr (assign
                 [set_ssz_type SszList, set_limit (attr_uint max_attr), set_fixed_size 0,
                  set_dynamic True,
                  set_elem (assign [set_ssz_type SszUint8, set_fixed_size 1] new_info)] info))
      | BASE_TYPE_VECTOR \<Rightarrow> ts_ResolveVectorType analyze field type attrs info
      | BASE_TYPE_ARRAY \<Rightarrow> ts_ResolveArrayType analyze field type attrs info
      | BASE_TYPE_STRUCT \<Rightarrow> ts_resolve_struct analyze type info
      | BASE_TYPE_UNION \<Rightarrow> Inr (assign [set_ssz_type SszUnion, set_fixed_size 0, set_dynamic True] info)
      | BASE_TYPE_FLOAT \<Rightarrow> Inl (field_msg field ''float/double types are not supported in SSZ'')
      | BASE_TYPE_DOUBLE \<Rightarrow> Inl (field_msg field ''float/double types are not supported in SSZ'')
      | _ \<Rightarrow> Inl (field_msg field ''unsupported base type for SSZ''))"

definition ts_add_field :: "Parser \<Rightarrow> analyzer \<Rightarrow> FieldPtr \<Rightarrow> SszContainerInfo \<Rightarrow> SszContainerInfo res" where
  "ts_add_field P analyze p c =
     (let field = field_at P p in
      if fd_deprecated field then Inr c
      else bind_res (ts_ResolveSszFieldInfo analyze field new_info)
        (\<lambda>info.
           let c1 = c\<lparr>all_fields := all_fields c @ [p]\<rparr>;
               c2 = (if is_dynamic info
                     then c1\<lparr>is_fixed := False, dynamic_fields := dynamic_fields c1 @ [p],
                             static_size := static_size c1 + 4\<rparr>
                     else c1\<lparr>static_size := static_size c1 + fixed_size info\<rparr>)
           in Inr (c2\<lparr>field_infos := emplace p info (field_infos c2)\<rparr>)))"

definition ts_index_field :: "Parser \<Rightarrow> FieldPtr \<Rightarrow> SszContainerInfo \<Rightarrow> SszContainerInfo" where
  "ts_index_field P p c =
     (case Lookup (fd_attributes (field_at P p)) ''id'' of
        None \<Rightarrow> c
      | Some id_attr \<Rightarrow>
          (let idx = (ucast (attr_uint id_attr) :: u32);
               c1 = c\<lparr>field_ssz_indices := std_map_set p idx (field_ssz_indices c)\<rparr>
           in if idx > max_ssz_index c1 then c1\<lparr>max_ssz_index := idx\<rparr> else c1))"

definition ts_progressive_part :: "Parser \<Rightarrow> SszContainerInfo \<Rightarrow> SszContainerInfo res" where
  "ts_progressive_part P c0 =
     (let c = fold (ts_index_field P) (all_fields c0) (c0\<lparr>is_progressive := True, max_ssz_index := 0\<rparr>);
          bitvec_bytes = (max_ssz_index c + 8) div 8
      in bind_res (fold_res (\<lambda>(f, idx). set_active idx) (field_ssz_indices c)
             (replicate (unat bitvec_bytes) 0))
           (\<lambda>bits. Inr (c\<lparr>active_fields_bitvector := bits\<rparr>)))"

definition ts_analyze_body :: "Parser \<Rightarrow> analyzer \<Rightarrow> StructPtr \<Rightarrow> SszContainerInfo res" where
  "ts_analyze_body P analyze s =
     (let struct_def = struct_at P s in
      bind_res (fold_res (ts_add_field P analyze) (sd_fields struct_def)
          (new_container\<lparr>static_size := 0, is_fixed := True\<rparr>))
        (\<lambda>c. if Lookup (sd_attributes struct_def) ''ssz_progressive'' \<noteq> None
             then ts_progressive_part P c else Inr c))"

fun ts_AnalyzeContainer :: "nat \<Rightarrow> Parser \<Rightarrow> StructPtr \<Rightarrow> SszContainerInfo res" where
  "ts_AnalyzeContainer 0 P s = Inl StackOverflow"
| "ts_AnalyzeContainer (Suc depth) P s = ts_analyze_body P (ts_AnalyzeContainer depth P) s"

declare ts_AnalyzeContainer.simps [simp del]

section \<open>Agreement with the Go back end\<close>

lemma ts_resolve_struct_copy:
  "same_analyzer a a' \<Longrightarrow> same_outcome (ts_resolve_struct a t i) (go_resolve_struct a' t i)"
  by (auto simp: ts_resolve_struct_def go_resolve_struct_def same_analyzer_def copy_simps
      split: option.splits intro!: same_outcome_bind)

lemma ts_elem_copy:
  "same_analyzer a a' \<Longrightarrow> same_outcome (ts_ResolveElemType a f t i) (go_ResolveElemType a' f t i)"
  by (cases "base_type t")
     (simp_all add: ts_ResolveElemType_def go_ResolveElemType_def ts_resolve_struct_copy field_msg_def)

lemma ts_vector_copy:
  "same_analyzer a a' \<Longrightarrow>
   same_outcome (ts_ResolveVectorType a f t attrs i) (go_ResolveVectorType a' f t attrs i)"
  by (auto simp: ts_ResolveVectorType_def go_ResolveVectorType_def Let_def field_msg_def
      split: option.splits prod.splits intro!: same_outcome_bind ts_elem_copy)

lemma ts_array_copy:
  "same_analyzer a a' \<Longrightarrow>
   same_outcome (ts_ResolveArrayType a f t attrs i) (go_ResolveArrayType a' f t attrs i)"
  by (auto simp: ts_ResolveArrayType_def go_ResolveArrayType_def Let_def
      intro!: same_outcome_bind ts_elem_copy)

lemma ts_field_copy:
  "same_analyzer a a' \<Longrightarrow>
   same_outcome (ts_ResolveSszFieldInfo a f i) (go_ResolveSszFieldInfo a' f i)"
  by (cases "base_type (field_type f)")
     (simp_all add: ts_ResolveSszFieldInfo_def go_ResolveSszFieldInfo_def Let_def field_msg_def
       ts_vector_copy ts_array_copy ts_resolve_struct_copy split: option.splits)

lemma ts_add_field_copy:
  "same_analyzer a a' \<Longrightarrow> same_outcome (ts_add_field P a p c) (go_add_field P a' p c)"
  by (auto simp: ts_add_field_def go_add_field_def Let_def
      intro!: same_outcome_bind ts_field_copy)

lemma ts_progressive_copy: "ts_progressive_part = go_progressive_part"
  by (intro ext) (simp add: ts_progressive_part_def go_progressive_part_def
      ts_index_field_def [abs_def] go_index_field_def [abs_def])

lemma ts_body_copy:
  "same_analyzer a a' \<Longrightarrow> same_outcome (ts_analyze_body P a s) (go_analyze_body P a' s)"
  by (auto simp: ts_analyze_body_def go_analyze_body_def Let_def ts_progressive_copy
      intro!: same_outcome_bind same_outcome_fold ts_add_field_copy)

lemma ts_copy: "same_outcome (ts_AnalyzeContainer n P s) (go_AnalyzeContainer n P s)"
proof (induction n arbitrary: s)
  case (Suc n)
  then have "same_analyzer (ts_AnalyzeContainer n P) (go_AnalyzeContainer n P)"
    by (simp add: same_analyzer_def)
  then show ?case
    by (simp only: ts_AnalyzeContainer.simps go_AnalyzeContainer.simps ts_body_copy)
qed (simp add: ts_AnalyzeContainer.simps go_AnalyzeContainer.simps)

interpretation ts: go_copy ts_AnalyzeContainer
  by unfold_locales (rule ts_copy)

end
