(* ===== verification/Ts_Text.thy ===== *)
theory Ts_Text
  imports Ts_Analysis Go_Generator
begin

text \<open>
  The text that the TypeScript back end emits, \<open>src/idl_gen_ssz_ts.cpp\<close>: names, types and default
  values, the class, and the methods \<open>sszBytesLen\<close>, \<open>sszAppend\<close> and \<open>toSszBytes\<close>.
\<close>

section \<open>Names\<close>

definition TsKeywords :: "string list" where
  "TsKeywords =
     [''break'', ''case'', ''catch'', ''class'', ''const'',
      ''continue'', ''debugger'', ''default'', ''delete'', ''do'',
      ''else'', ''enum'', ''export'', ''extends'', ''false'',
      ''finally'', ''for'', ''function'', ''if'', ''import'',
      ''in'', ''instanceof'', ''let'', ''new'', ''null'',
      ''return'', ''super'', ''switch'', ''this'', ''throw'',
      ''true'', ''try'', ''typeof'', ''var'', ''void'',
      ''while'', ''with'', ''yield'', ''async'', ''await'',
      ''of'', ''type'', ''interface'', ''implements'', ''package'',
      ''private'', ''protected'', ''public'', ''static'']"

definition SszTsDefaultConfig :: Config where
  "SszTsDefaultConfig =
     \<lparr>cfg_types = kKeep,
      cfg_constants = kUnknown,
      cfg_methods = kLowerCamel,
      cfg_functions = kLowerCamel,
      cfg_fields = kLowerCamel,
      cfg_variables = kLowerCamel,
      cfg_variants = kKeep,
      enum_variant_seperator = '''',
      escape_keywords = AfterConvertingCase,
      cfg_namespaces = kKeep,
      namespace_seperator = ''__'',
      object_prefix = '''',
      object_suffix = '''',
      keyword_prefix = '''',
      keyword_suffix = ''_'',
      keywords_casing = CaseSensitive,
      cfg_filenames = kKeep,
      cfg_directories = kKeep,
      output_path = '''',
      filename_suffix = ''_ssz'',
      filename_extension = ''.ts''\<rparr>"

text \<open>The loop of \<open>ToCamelCase\<close>: whether the result is empty, and \<open>next_upper\<close>.\<close>

fun ts_camel_from :: "bool \<Rightarrow> bool \<Rightarrow> string \<Rightarrow> string" where
  "ts_camel_from emp next_upper [] = []"
| "ts_camel_from emp next_upper (c # r) =
     (if c = CHR ''_'' then ts_camel_from emp True r
      else if emp then CharToLower c # ts_camel_from False next_upper r
      else if next_upper then CharToUpper c # ts_camel_from False False r
      else c # ts_camel_from False next_upper r)"

definition ts_ToCamelCase :: "string \<Rightarrow> string" where
  "ts_ToCamelCase input = ts_camel_from True False input"

definition ts_namer :: "SszGenerator \<Rightarrow> Config" where
  "ts_namer G = WithFlagOptions SszTsDefaultConfig (gen_opts G) (gen_path G)"

definition TsFieldName :: "FieldDef \<Rightarrow> string" where
  "TsFieldName field = ts_ToCamelCase (fd_name field)"

abbreviation ts_member :: "Parser \<Rightarrow> FieldPtr \<Rightarrow> string" where
  "ts_member P p \<equiv> TsFieldName (field_at P p)"

section \<open>Types and default values\<close>

definition TsElemTypeName :: "Parser \<Rightarrow> SszFieldInfo \<Rightarrow> string" where
  "TsElemTypeName P info =
     (case ssz_type info of
        SszBool \<Rightarrow> ''boolean''
      | SszUint8 \<Rightarrow> ''number''
      | SszUint16 \<Rightarrow> ''number''
      | SszUint32 \<Rightarrow> ''number''
      | SszUint64 \<Rightarrow> ''bigint''
      | SszContainer \<Rightarrow> info_struct_name P ''unknown'' info
      | SszList \<Rightarrow> ''Uint8Array''
      | SszUint128 \<Rightarrow> ''Uint8Array''
      | SszUint256 \<Rightarrow> ''Uint8Array''
      | _ \<Rightarrow> ''unknown'')"

definition ts_array_of :: "string \<Rightarrow> string" where
  "ts_array_of ty = ''Array<'' @ ty @ ''>''"

definition ts_list_type :: "Parser \<Rightarrow> SszFieldInfo \<Rightarrow> FieldDef \<Rightarrow> string" where
  "ts_list_type P info field =
     (if base_type (field_type field) = BASE_TYPE_STRING then ''Uint8Array''
      else if elem_is info SszUint8 then ''Uint8Array''
      else if elem_is info SszList then ''Array<Uint8Array>''
      else (case elem_info info of Some e \<Rightarrow> ts_array_of (TsElemTypeName P e) | None \<Rightarrow> ''Uint8Array''))"

definition TsTypeName :: "Parser \<Rightarrow> SszFieldInfo \<Rightarrow> FieldDef \<Rightarrow> string" where
  "TsTypeName P info field =
     (case ssz_type info of
        SszBool \<Rightarrow> ''boolean''
      | SszUint8 \<Rightarrow> ''number''
      | SszUint16 \<Rightarrow> ''number''
      | SszUint32 \<Rightarrow> ''number''
      | SszUint64 \<Rightarrow> ''bigint''
      | SszUint128 \<Rightarrow> ''Uint8Array /* 16 bytes */''
      | SszUint256 \<Rightarrow> ''Uint8Array /* 32 bytes */''
      | SszContainer \<Rightarrow> info_struct_name P ''unknown'' info
      | SszVector \<Rightarrow>
          (if elem_is info SszUint8 then ''Uint8Array /* '' @ num64 (info_limit info) @ '' bytes */''
           else (case elem_info info of Some e \<Rightarrow> ts_array_of (TsElemTypeName P e) | None \<Rightarrow> ''unknown''))
      | SszProgressiveList \<Rightarrow> ts_list_type P info field
      | SszList \<Rightarrow> ts_list_type P info field
      | SszBitlist \<Rightarrow> ''Uint8Array''
      | SszBitvector \<Rightarrow> ''Uint8Array /* '' @ num32 ((bitsize info + 7) div 8) @ '' bytes */''
      | SszProgressiveContainer \<Rightarrow> info_struct_name P ''unknown'' info
      | SszUnion \<Rightarrow> ''unknown'')"

definition ts_new_struct :: "Parser \<Rightarrow> SszFieldInfo \<Rightarrow> string" where
  "ts_new_struct P info =
     (case info_struct info of Some s \<Rightarrow> ''new '' @ sd_name (struct_at P s) @ ''()'' | None \<Rightarrow> ''null as any'')"

definition ts_list_default :: "SszFieldInfo \<Rightarrow> FieldDef \<Rightarrow> string" where
  "ts_list_default info field =
     (if base_type (field_type field) = BASE_TYPE_STRING then ''new Uint8Array(0)''
      else if elem_is info SszUint8 then ''new Uint8Array(0)''
      else if elem_is info SszList then ''[]''
      else if elem_info info \<noteq> None then ''[]''
      else ''new Uint8Array(0)'')"

definition ts_vector_default :: "Parser \<Rightarrow> SszFieldInfo \<Rightarrow> string" where
  "ts_vector_default P info =
     (case elem_info info of
        None \<Rightarrow> ''new Uint8Array(0)''
      | Some e \<Rightarrow>
          if ssz_type e = SszUint8 then ''new Uint8Array('' @ num64 (info_limit info) @ '')''
          else if ssz_type e = SszContainer \<and> info_struct e \<noteq> None then
            ''Array.from({length: '' @ num64 (info_limit info) @ ''}, () => new '' @ info_struct_name P '''' e @ ''())''
          else
            ''new Array<'' @ TsElemTypeName P e @ ''>('' @ num64 (info_limit info) @ '').fill('' @
            (case ssz_type e of SszBool \<Rightarrow> ''false'' | SszUint64 \<Rightarrow> ''0n'' | _ \<Rightarrow> ''0'') @ '')'')"

definition TsDefaultValue :: "Parser \<Rightarrow> SszFieldInfo \<Rightarrow> FieldDef \<Rightarrow> string" where
  "TsDefaultValue P info field =
     (case ssz_type info of
        SszBool \<Rightarrow> ''false''
      | SszUint8 \<Rightarrow> ''0''
      | SszUint16 \<Rightarrow> ''0''
      | SszUint32 \<Rightarrow> ''0''
      | SszUint64 \<Rightarrow> ''0n''
      | SszUint128 \<Rightarrow> ''new Uint8Array(16)''
      | SszUint256 \<Rightarrow> ''new Uint8Array(32)''
      | SszContainer \<Rightarrow> ts_new_struct P info
      | SszVector \<Rightarrow> ts_vector_default P info
      | SszProgressiveList \<Rightarrow> ts_list_default info field
      | SszList \<Rightarrow> ts_list_default info field
      | SszBitlist \<Rightarrow> ''new Uint8Array(0)''
      | SszBitvector \<Rightarrow> ''new Uint8Array('' @ num32 ((bitsize info + 7) div 8) @ '')''
      | SszProgressiveContainer \<Rightarrow> ts_new_struct P info
      | SszUnion \<Rightarrow> ''null as any'')"

definition ts_GenTsClass :: "Parser \<Rightarrow> StructDef \<Rightarrow> SszContainerInfo \<Rightarrow> string" where
  "ts_GenTsClass P struct_def container =
     line [] (''export class '' @ sd_name struct_def @ '' {'') @
     each_field container (all_fields container) (\<lambda>p info.
       line sp2 (''public '' @ ts_member P p @ '': '' @ TsTypeName P info (field_at P p) @ '' = '' @
         TsDefaultValue P info (field_at P p) @ '';''))"

section \<open>Size\<close>

definition ts_GenSizeField :: "SszFieldInfo \<Rightarrow> string \<Rightarrow> string \<Rightarrow> string" where
  "ts_GenSizeField info var indent =
     (let list_size =
        (if elem_is info SszList then
           line indent (''size += '' @ var @ ''.length * 4;'') @
           line indent (''for (const item of '' @ var @ '') {'') @
           line (indent @ sp2) ''size += item.length;'' @
           line indent ''}''
         else if elem_is info SszContainer \<and> elem_dynamic info then
           line indent (''size += '' @ var @ ''.length * 4;'') @
           line indent (''for (const item of '' @ var @ '') {'') @
           line (indent @ sp2) ''size += item.sszBytesLen();'' @
           line indent ''}''
         else if elem_info info \<noteq> None then
           line indent (''size += '' @ var @ ''.length * '' @ num32 (elem_fixed_size info) @ '';'')
         else line indent (''size += '' @ var @ ''.length;''))
      in case ssz_type info of
           SszProgressiveList \<Rightarrow> list_size
         | SszList \<Rightarrow> list_size
         | SszBitlist \<Rightarrow> line indent (''size += '' @ var @ ''.length;'')
         | SszContainer \<Rightarrow> line indent (''size += '' @ var @ ''.sszBytesLen();'')
         | _ \<Rightarrow> [])"

definition ts_GenSszBytesLen :: "Parser \<Rightarrow> SszContainerInfo \<Rightarrow> string" where
  "ts_GenSszBytesLen P container =
     line sp2 ''sszBytesLen(): number {'' @
     (if is_fixed container then line sp4 (''return '' @ num32 (static_size container) @ '';'')
      else
        line sp4 (''let size = '' @ num32 (static_size container) @ '';'') @
        each_field container (dynamic_fields container) (\<lambda>p info.
          ts_GenSizeField info (''this.'' @ ts_member P p) sp4) @
        line sp4 ''return size;'') @
     line sp2 ''}''"

section \<open>Encoding\<close>

definition ts_marshal_primitive :: "SszType \<Rightarrow> string \<Rightarrow> string \<Rightarrow> string" where
  "ts_marshal_primitive ty var indent =
     (case ty of
        SszBool \<Rightarrow> line indent (''buf[offset++] = '' @ var @ '' ? 1 : 0;'')
      | SszUint16 \<Rightarrow> line indent (''dv.setUint16(offset, '' @ var @ '', true); offset += 2;'')
      | SszUint32 \<Rightarrow> line indent (''dv.setUint32(offset, '' @ var @ '', true); offset += 4;'')
      | SszUint64 \<Rightarrow> line indent (''dv.setBigUint64(offset, '' @ var @ '', true); offset += 8;'')
      | _ \<Rightarrow> [])"

definition ts_GenMarshalPrimitiveArray :: "SszFieldInfo \<Rightarrow> string \<Rightarrow> string \<Rightarrow> string" where
  "ts_GenMarshalPrimitiveArray info var indent =
     line indent (''for (let i = 0; i < '' @ var @ ''.length; i++) {'') @
     ts_marshal_primitive (elem_ssz_type info) (var @ ''[i]'') (indent @ sp2) @
     line indent ''}''"

definition ts_GenMarshalPrimitiveSlice :: "SszFieldInfo \<Rightarrow> string \<Rightarrow> string \<Rightarrow> string" where
  "ts_GenMarshalPrimitiveSlice info var indent =
     line indent (''for (const v of '' @ var @ '') {'') @
     ts_marshal_primitive (elem_ssz_type info) ''v'' (indent @ sp2) @
     line indent ''}''"

text \<open>A list of variable-size elements; \<open>body\<close> are the lines that write the element.\<close>

definition ts_offset_list :: "string \<Rightarrow> string \<Rightarrow> string \<Rightarrow> string" where
  "ts_offset_list var indent body =
     line indent ''{'' @
     line (indent @ sp2) ''const listStart = offset;'' @
     line (indent @ sp2) (''for (let i = 0; i < '' @ var @ ''.length; i++) {'') @
     line (indent @ sp4) ''offset += 4;'' @
     line (indent @ sp2) ''}'' @
     line (indent @ sp2) (''for (let i = 0; i < '' @ var @ ''.length; i++) {'') @
     line (indent @ sp4) ''dv.setUint32(listStart + i * 4, offset - listStart, true);'' @
     body @
     line (indent @ sp2) ''}'' @
     line indent ''}''"

text \<open>A whole array, with the number of bytes that it has, and a nested object.\<close>

definition ts_copy_all :: "string \<Rightarrow> string \<Rightarrow> string" where
  "ts_copy_all var indent =
     line indent (''buf.set('' @ var @ '', offset); offset += '' @ var @ ''.length;'')"

definition ts_copy_array :: "SszFieldInfo \<Rightarrow> string \<Rightarrow> string \<Rightarrow> string" where
  "ts_copy_array info var indent =
     line indent (''buf.set('' @ var @ '', offset); offset += '' @ num32 (fixed_size info) @ '';'')"

definition ts_append :: "string \<Rightarrow> string \<Rightarrow> string" where
  "ts_append var indent = line indent (''offset = '' @ var @ ''.sszAppend(buf, offset);'')"

definition ts_marshal_vector :: "SszFieldInfo \<Rightarrow> string \<Rightarrow> string \<Rightarrow> string" where
  "ts_marshal_vector info var indent =
     (if elem_is info SszUint8 then ts_copy_array info var indent
      else if elem_is info SszContainer then
        line indent (''for (let i = 0; i < '' @ var @ ''.length; i++) {'') @
        ts_append (var @ ''[i]'') (indent @ sp2) @
        line indent ''}''
      else if elem_info info \<noteq> None then ts_GenMarshalPrimitiveArray info var indent
      else [])"

definition ts_marshal_list :: "SszFieldInfo \<Rightarrow> string \<Rightarrow> string \<Rightarrow> string" where
  "ts_marshal_list info var indent =
     (if elem_is info SszList then
        ts_offset_list var indent
          (line (indent @ sp4) (''buf.set('' @ var @ ''[i], offset);'') @
           line (indent @ sp4) (''offset += '' @ var @ ''[i].length;''))
      else if elem_is info SszUint8 then ts_copy_all var indent
      else if elem_is info SszContainer then
        (if elem_dynamic info then ts_offset_list var indent (ts_append (var @ ''[i]'') (indent @ sp4))
         else
           line indent (''for (const item of '' @ var @ '') {'') @
           ts_append ''item'' (indent @ sp2) @
           line indent ''}'')
      else if elem_info info \<noteq> None then ts_GenMarshalPrimitiveSlice info var indent
      else ts_copy_all var indent)"

definition ts_GenMarshalField :: "SszFieldInfo \<Rightarrow> string \<Rightarrow> string \<Rightarrow> string" where
  "ts_GenMarshalField info var indent =
     (case ssz_type info of
        SszBool \<Rightarrow> line indent (''buf[offset++] = '' @ var @ '' ? 1 : 0;'')
      | SszUint8 \<Rightarrow> line indent (''buf[offset++] = '' @ var @ '';'')
      | SszUint16 \<Rightarrow> line indent (''dv.setUint16(offset, '' @ var @ '', true); offset += 2;'')
      | SszUint32 \<Rightarrow> line indent (''dv.setUint32(offset, '' @ var @ '', true); offset += 4;'')
      | SszUint64 \<Rightarrow> line indent (''dv.setBigUint64(offset, '' @ var @ '', true); offset += 8;'')
      | SszUint128 \<Rightarrow> line indent (''buf.set('' @ var @ ''.subarray(0, 16), offset); offset += 16;'')
      | SszUint256 \<Rightarrow> line indent (''buf.set('' @ var @ ''.subarray(0, 32), offset); offset += 32;'')
      | SszVector \<Rightarrow> ts_marshal_vector info var indent
      | SszProgressiveList \<Rightarrow> ts_marshal_list info var indent
      | SszList \<Rightarrow> ts_marshal_list info var indent
      | SszBitlist \<Rightarrow> ts_copy_all var indent
      | SszBitvector \<Rightarrow> ts_copy_array info var indent
      | SszContainer \<Rightarrow> ts_append var indent
      | SszProgressiveContainer \<Rightarrow> ts_append var indent
      | SszUnion \<Rightarrow> [])"

fun ts_static_fields :: "Parser \<Rightarrow> SszContainerInfo \<Rightarrow> nat \<Rightarrow> FieldPtr list \<Rightarrow> string" where
  "ts_static_fields P container offset_idx [] = []"
| "ts_static_fields P container offset_idx (p # ps) =
     (case field_infos container p of
        None \<Rightarrow> ts_static_fields P container offset_idx ps
      | Some info \<Rightarrow>
          if is_dynamic info then
            line sp4 (''// Offset placeholder for '' @ sq @ fd_name (field_at P p) @ sq) @
            line sp4 (''const offsetPos'' @ NumToString offset_idx @ '' = offset;'') @
            line sp4 ''offset += 4;'' @
            ts_static_fields P container (offset_idx + 1) ps
          else
            line sp4 (''// Field '' @ sq @ fd_name (field_at P p) @ sq) @
            ts_GenMarshalField info (''this.'' @ ts_member P p) sp4 @
            ts_static_fields P container offset_idx ps)"

fun ts_dynamic_fields :: "Parser \<Rightarrow> SszContainerInfo \<Rightarrow> nat \<Rightarrow> FieldPtr list \<Rightarrow> string" where
  "ts_dynamic_fields P container offset_idx [] = []"
| "ts_dynamic_fields P container offset_idx (p # ps) =
     (case field_infos container p of
        None \<Rightarrow> ts_dynamic_fields P container offset_idx ps
      | Some info \<Rightarrow>
          if is_dynamic info then
            line sp4 (''// Dynamic field '' @ sq @ fd_name (field_at P p) @ sq) @
            line sp4 (''dv.setUint32(offsetPos'' @ NumToString offset_idx @ '', offset - startOffset, true);'') @
            ts_GenMarshalField info (''this.'' @ ts_member P p) sp4 @
            ts_dynamic_fields P container (offset_idx + 1) ps
          else ts_dynamic_fields P container offset_idx ps)"

definition ts_GenSszAppend :: "Parser \<Rightarrow> SszContainerInfo \<Rightarrow> string" where
  "ts_GenSszAppend P container =
     line sp2 ''sszAppend(buf: Uint8Array, offset: number): number {'' @
     line sp4 ''const dv = new DataView(buf.buffer, buf.byteOffset, buf.byteLength);'' @
     (if dynamic_fields container = [] then
        each_field container (all_fields container) (\<lambda>p info.
          ts_GenMarshalField info (''this.'' @ ts_member P p) sp4)
      else
        line sp4 ''const startOffset = offset;'' @ nl @
        ts_static_fields P container 0 (all_fields container) @ nl @
        ts_dynamic_fields P container 0 (all_fields container)) @
     line sp4 ''return offset;'' @
     line sp2 ''}''"

definition ts_GenToSszBytes :: string where
  "ts_GenToSszBytes =
     line sp2 ''toSszBytes(): Uint8Array {'' @
     line sp4 ''const buf = new Uint8Array(this.sszBytesLen());'' @
     line sp4 ''this.sszAppend(buf, 0);'' @
     line sp4 ''return buf;'' @
     line sp2 ''}''"

end
