(* ===== verification/Ts_Generator.thy ===== *)
theory Ts_Generator
  imports Ts_Text
begin

text \<open>
  The decoding and hashing methods that the TypeScript back end emits, the code of one type, and
  \<open>generate\<close>, which writes one file for the schema.
\<close>

section \<open>Decoding\<close>

definition ts_throw :: "string \<Rightarrow> string \<Rightarrow> string" where
  "ts_throw indent msg = line indent (''throw new SszError('' @ sq @ msg @ sq @ '');'')"

definition ts_GenUnmarshalPrimitiveArray :: "SszFieldInfo \<Rightarrow> string \<Rightarrow> u32 \<Rightarrow> string \<Rightarrow> string" where
  "ts_GenUnmarshalPrimitiveArray info var offset indent =
     line indent (''for (let i = 0; i < '' @ num64 (info_limit info) @ ''; i++) {'') @
     line (indent @ sp2) (''const off = '' @ num32 offset @ '' + i * '' @ num32 (elem_fixed_size info) @ '';'') @
     (case elem_ssz_type info of
        SszBool \<Rightarrow>
          line (indent @ sp2) ''if (buf[off] > 1) {'' @
          ts_throw (indent @ sp4) ''invalid bool'' @
          line (indent @ sp2) ''}'' @
          line (indent @ sp2) (var @ ''[i] = buf[off] === 1;'')
      | SszUint16 \<Rightarrow> line (indent @ sp2) (var @ ''[i] = dv.getUint16(off, true);'')
      | SszUint32 \<Rightarrow> line (indent @ sp2) (var @ ''[i] = dv.getUint32(off, true);'')
      | SszUint64 \<Rightarrow> line (indent @ sp2) (var @ ''[i] = dv.getBigUint64(off, true);'')
      | _ \<Rightarrow> []) @
     line indent ''}''"

text \<open>The bytes of a field, and the object in them.\<close>

definition ts_slice :: "string \<Rightarrow> u32 \<Rightarrow> u32 \<Rightarrow> string \<Rightarrow> string" where
  "ts_slice var offset len indent =
     line indent (var @ '' = buf.slice('' @ num32 offset @ '', '' @ num32 (offset + len) @ '');'')"

definition ts_nested :: "Parser \<Rightarrow> SszFieldInfo \<Rightarrow> string \<Rightarrow> u32 \<Rightarrow> string \<Rightarrow> string" where
  "ts_nested P info var offset indent =
     line indent (var @ '' = '' @ info_struct_name P '''' info @ ''.fromSszBytes(buf.subarray('' @
       num32 offset @ '', '' @ num32 (offset + fixed_size info) @ ''));'')"

definition ts_unmarshal_vector :: "Parser \<Rightarrow> SszFieldInfo \<Rightarrow> string \<Rightarrow> u32 \<Rightarrow> string \<Rightarrow> string" where
  "ts_unmarshal_vector P info var offset indent =
     (case elem_info info of
        None \<Rightarrow> []
      | Some e \<Rightarrow>
          if ssz_type e = SszUint8 then ts_slice var offset (fixed_size info) indent
          else if ssz_type e = SszContainer then
            (let elem_size = num32 (fixed_size e) in
             line indent (''for (let i = 0; i < '' @ num64 (info_limit info) @ ''; i++) {'') @
             line (indent @ sp2) (''const start = '' @ num32 offset @ '' + i * '' @ elem_size @ '';'') @
             line (indent @ sp2) (var @ ''[i] = '' @ info_struct_name P '''' e @
               ''.fromSszBytes(buf.subarray(start, start + '' @ elem_size @ ''));'') @
             line indent ''}'')
          else ts_GenUnmarshalPrimitiveArray info var offset indent)"

definition ts_GenUnmarshalField :: "Parser \<Rightarrow> SszFieldInfo \<Rightarrow> string \<Rightarrow> u32 \<Rightarrow> string \<Rightarrow> string" where
  "ts_GenUnmarshalField P info var offset indent =
     (let off_str = num32 offset in
      case ssz_type info of
        SszBool \<Rightarrow>
          line indent (''if (buf['' @ off_str @ ''] > 1) {'') @
          ts_throw (indent @ sp2) ''invalid bool'' @
          line indent ''}'' @
          line indent (var @ '' = buf['' @ off_str @ ''] === 1;'')
      | SszUint8 \<Rightarrow> line indent (var @ '' = buf['' @ off_str @ ''];'')
      | SszUint16 \<Rightarrow> line indent (var @ '' = dv.getUint16('' @ off_str @ '', true);'')
      | SszUint32 \<Rightarrow> line indent (var @ '' = dv.getUint32('' @ off_str @ '', true);'')
      | SszUint64 \<Rightarrow> line indent (var @ '' = dv.getBigUint64('' @ off_str @ '', true);'')
      | SszUint128 \<Rightarrow> ts_slice var offset 16 indent
      | SszUint256 \<Rightarrow> ts_slice var offset 32 indent
      | SszVector \<Rightarrow> ts_unmarshal_vector P info var offset indent
      | SszBitvector \<Rightarrow> ts_slice var offset (fixed_size info) indent
      | SszContainer \<Rightarrow> ts_nested P info var offset indent
      | SszProgressiveContainer \<Rightarrow> ts_nested P info var offset indent
      | _ \<Rightarrow> [])"

definition ts_slice_loop :: "string \<Rightarrow> string \<Rightarrow> string \<Rightarrow> string \<Rightarrow> string" where
  "ts_slice_loop var ty content indent =
     line (indent @ sp2) (var @ '' = new Array<'' @ ty @ ''>(count);'') @
     line (indent @ sp2) ''for (let i = 0; i < count; i++) {'' @
     content @
     line (indent @ sp2) ''}''"

definition ts_GenUnmarshalPrimitiveSlice :: "SszFieldInfo \<Rightarrow> string \<Rightarrow> string \<Rightarrow> string" where
  "ts_GenUnmarshalPrimitiveSlice info var indent =
     (let elem_size = num32 (elem_fixed_size info) in
      line indent ''{'' @
      line (indent @ sp2)
        ''const dynDv = new DataView(dynBuf.buffer, dynBuf.byteOffset, dynBuf.byteLength);'' @
      line (indent @ sp2) (''const count = Math.floor(dynBuf.length / '' @ elem_size @ '');'') @
      (case elem_ssz_type info of
         SszBool \<Rightarrow>
           ts_slice_loop var ''boolean''
             (line (indent @ sp4) (''const off = i * '' @ elem_size @ '';'') @
              line (indent @ sp4) ''if (dynBuf[off] > 1) {'' @
              ts_throw (indent @ sp6) ''invalid bool'' @
              line (indent @ sp4) ''}'' @
              line (indent @ sp4) (var @ ''[i] = dynBuf[off] === 1;'')) indent
       | SszUint16 \<Rightarrow>
           ts_slice_loop var ''number'' (line (indent @ sp4) (var @ ''[i] = dynDv.getUint16(i * 2, true);'')) indent
       | SszUint32 \<Rightarrow>
           ts_slice_loop var ''number'' (line (indent @ sp4) (var @ ''[i] = dynDv.getUint32(i * 4, true);'')) indent
       | SszUint64 \<Rightarrow>
           ts_slice_loop var ''bigint'' (line (indent @ sp4) (var @ ''[i] = dynDv.getBigUint64(i * 8, true);'')) indent
       | _ \<Rightarrow> []) @
      line indent ''}'')"

text \<open>A list of variable-size elements: the type of the elements and the expression of one.\<close>

definition ts_unmarshal_offsets :: "string \<Rightarrow> string \<Rightarrow> string \<Rightarrow> string \<Rightarrow> string" where
  "ts_unmarshal_offsets var ty elem indent =
     line indent ''if (dynBuf.length > 0) {'' @
     line (indent @ sp2)
       ''const dynDv = new DataView(dynBuf.buffer, dynBuf.byteOffset, dynBuf.byteLength);'' @
     line (indent @ sp2) ''const firstOff = dynDv.getUint32(0, true);'' @
     line (indent @ sp2) ''if (firstOff % 4 !== 0) {'' @
     ts_throw (indent @ sp4) ''invalid offset'' @
     line (indent @ sp2) ''}'' @
     line (indent @ sp2) ''const count = firstOff / 4;'' @
     line (indent @ sp2) (var @ '' = new Array<'' @ ty @ ''>(count);'') @
     line (indent @ sp2) ''for (let i = 0; i < count; i++) {'' @
     line (indent @ sp4) ''const start = dynDv.getUint32(i * 4, true);'' @
     line (indent @ sp4)
       ''const end = i + 1 < count ? dynDv.getUint32((i + 1) * 4, true) : dynBuf.length;'' @
     line (indent @ sp4) ''if (start > end || end > dynBuf.length) {'' @
     ts_throw (indent @ sp6) ''invalid offset'' @
     line (indent @ sp4) ''}'' @
     line (indent @ sp4) (var @ ''[i] = '' @ elem @ '';'') @
     line (indent @ sp2) ''}'' @
     line indent ''}''"

definition ts_unmarshal_list :: "Parser \<Rightarrow> SszFieldInfo \<Rightarrow> string \<Rightarrow> string \<Rightarrow> string" where
  "ts_unmarshal_list P info var indent =
     (case elem_info info of
        None \<Rightarrow> line indent (var @ '' = dynBuf.slice();'')
      | Some e \<Rightarrow>
          if ssz_type e = SszList then ts_unmarshal_offsets var ''Uint8Array'' ''dynBuf.slice(start, end)'' indent
          else if ssz_type e = SszUint8 then line indent (var @ '' = dynBuf.slice();'')
          else if ssz_type e = SszContainer then
            (let name = info_struct_name P '''' e in
             if is_dynamic e then
               ts_unmarshal_offsets var name (name @ ''.fromSszBytes(dynBuf.subarray(start, end))'') indent
             else
               (let elem_size = num32 (fixed_size e) in
                line indent ''{'' @
                line (indent @ sp2) (''const count = Math.floor(dynBuf.length / '' @ elem_size @ '');'') @
                ts_slice_loop var name
                  (line (indent @ sp4) (''const off = i * '' @ elem_size @ '';'') @
                   line (indent @ sp4) (var @ ''[i] = '' @ name @
                     ''.fromSszBytes(dynBuf.subarray(off, off + '' @ elem_size @ ''));'')) indent @
                line indent ''}''))
          else ts_GenUnmarshalPrimitiveSlice info var indent)"

definition ts_GenUnmarshalDynField :: "Parser \<Rightarrow> SszFieldInfo \<Rightarrow> string \<Rightarrow> string \<Rightarrow> string" where
  "ts_GenUnmarshalDynField P info var indent =
     (case ssz_type info of
        SszProgressiveList \<Rightarrow> ts_unmarshal_list P info var indent
      | SszList \<Rightarrow> ts_unmarshal_list P info var indent
      | SszBitlist \<Rightarrow> line indent (var @ '' = dynBuf.slice();'')
      | SszContainer \<Rightarrow> line indent (var @ '' = '' @ info_struct_name P '''' info @ ''.fromSszBytes(dynBuf);'')
      | SszProgressiveContainer \<Rightarrow>
          line indent (var @ '' = '' @ info_struct_name P '''' info @ ''.fromSszBytes(dynBuf);'')
      | _ \<Rightarrow> [])"

fun ts_unmarshal_fixed :: "Parser \<Rightarrow> SszContainerInfo \<Rightarrow> u32 \<Rightarrow> FieldPtr list \<Rightarrow> string" where
  "ts_unmarshal_fixed P container offset [] = []"
| "ts_unmarshal_fixed P container offset (p # ps) =
     (case field_infos container p of
        None \<Rightarrow> ts_unmarshal_fixed P container offset ps
      | Some info \<Rightarrow>
          ts_GenUnmarshalField P info (''t.'' @ ts_member P p) offset sp4 @
          ts_unmarshal_fixed P container (offset + fixed_size info) ps)"

definition ts_read_offset :: "SszContainerInfo \<Rightarrow> u32 \<Rightarrow> nat \<Rightarrow> string" where
  "ts_read_offset container offset dyn_idx =
     (let k = NumToString dyn_idx in
      line sp4 (''const offset'' @ k @ '' = dv.getUint32('' @ num32 offset @ '', true);'') @
      (if dyn_idx = 0 then line sp4 (''if (offset0 !== '' @ num32 (static_size container) @ '') {'')
       else line sp4 (''if (offset'' @ k @ '' < offset'' @ NumToString (dyn_idx - 1) @ '' || offset'' @ k @
         '' > buf.length) {'')) @
      ts_throw sp6 ''invalid offset'' @
      line sp4 ''}'')"

fun ts_unmarshal_static :: "Parser \<Rightarrow> SszContainerInfo \<Rightarrow> u32 \<Rightarrow> nat \<Rightarrow> FieldPtr list \<Rightarrow> string" where
  "ts_unmarshal_static P container offset dyn_idx [] = []"
| "ts_unmarshal_static P container offset dyn_idx (p # ps) =
     (case field_infos container p of
        None \<Rightarrow> ts_unmarshal_static P container offset dyn_idx ps
      | Some info \<Rightarrow>
          if is_dynamic info then
            ts_read_offset container offset dyn_idx @
            ts_unmarshal_static P container (offset + 4) (dyn_idx + 1) ps
          else
            ts_GenUnmarshalField P info (''t.'' @ ts_member P p) offset sp4 @
            ts_unmarshal_static P container (offset + fixed_size info) dyn_idx ps)"

text \<open>The loop over \<open>dyn_offset_names\<close>, the dynamic fields that the loop before has met.\<close>

definition ts_dyn_offset_names :: "SszContainerInfo \<Rightarrow> FieldPtr list" where
  "ts_dyn_offset_names container =
     filter (\<lambda>p. case field_infos container p of None \<Rightarrow> False | Some info \<Rightarrow> is_dynamic info) (all_fields container)"

fun ts_unmarshal_dynamic :: "Parser \<Rightarrow> SszContainerInfo \<Rightarrow> nat \<Rightarrow> FieldPtr list \<Rightarrow> string" where
  "ts_unmarshal_dynamic P container i [] = []"
| "ts_unmarshal_dynamic P container i (p # ps) =
     (case field_infos container p of
        None \<Rightarrow> ts_unmarshal_dynamic P container (i + 1) ps
      | Some info \<Rightarrow>
          line sp4 ''{'' @
          line sp6 (''const dynBuf = buf.subarray(offset'' @ NumToString i @ '', '' @
            (if ps = [] then ''buf.length'' else ''offset'' @ NumToString (i + 1)) @ '');'') @
          ts_GenUnmarshalDynField P info (''t.'' @ ts_member P p) sp6 @
          line sp4 ''}'' @
          ts_unmarshal_dynamic P container (i + 1) ps)"

definition ts_GenFromSszBytes :: "Parser \<Rightarrow> StructDef \<Rightarrow> SszContainerInfo \<Rightarrow> string" where
  "ts_GenFromSszBytes P struct_def container =
     (let type_name = sd_name struct_def in
      line sp2 (''static fromSszBytes(buf: Uint8Array): '' @ type_name @ '' {'') @
      line sp4 ''const dv = new DataView(buf.buffer, buf.byteOffset, buf.byteLength);'' @
      line sp4 (''if (buf.length < '' @ num32 (static_size container) @ '') {'') @
      ts_throw sp6 ''buffer too small'' @
      line sp4 ''}'' @
      line sp4 (''const t = new '' @ type_name @ ''();'') @
      (if dynamic_fields container = [] then ts_unmarshal_fixed P container 0 (all_fields container)
       else
         ts_unmarshal_static P container 0 0 (all_fields container) @ nl @
         ts_unmarshal_dynamic P container 0 (ts_dyn_offset_names container)) @
      line sp4 ''return t;'' @
      line sp2 ''}'')"

section \<open>Hashing\<close>

definition ts_ssz_limit_for_bytes :: "u64 \<Rightarrow> u64" where
  "ts_ssz_limit_for_bytes max_bytes = (max_bytes + 31) div 32"

definition ts_ssz_limit_for_elements :: "u64 \<Rightarrow> u32 \<Rightarrow> u64" where
  "ts_ssz_limit_for_elements max_elements elem_size =
     (if elem_size \<ge> 32 then max_elements
      else let elems_per_chunk = ucast (32 div elem_size)
           in (max_elements + elems_per_chunk - 1) div elems_per_chunk)"

definition ts_GenHashPrimitive :: "SszType \<Rightarrow> string \<Rightarrow> string \<Rightarrow> bool \<Rightarrow> string" where
  "ts_GenHashPrimitive ty var indent is_append =
     (let method = (if is_append then ''append'' else ''put'') in
      case ty of
        SszBool \<Rightarrow> line indent (''h.'' @ method @ ''Bool('' @ var @ '');'')
      | SszUint8 \<Rightarrow> line indent (''h.'' @ method @ ''Uint8('' @ var @ '');'')
      | SszUint16 \<Rightarrow> line indent (''h.'' @ method @ ''Uint16('' @ var @ '');'')
      | SszUint32 \<Rightarrow> line indent (''h.'' @ method @ ''Uint32('' @ var @ '');'')
      | SszUint64 \<Rightarrow> line indent (''h.'' @ method @ ''Uint64('' @ var @ '');'')
      | _ \<Rightarrow> [])"

definition ts_GenHashPrimitiveArray :: "SszFieldInfo \<Rightarrow> string \<Rightarrow> string \<Rightarrow> string" where
  "ts_GenHashPrimitiveArray info var indent =
     line indent (''for (const v of '' @ var @ '') {'') @
     ts_GenHashPrimitive (elem_ssz_type info) ''v'' (indent @ sp2) True @
     line indent ''}''"

definition ts_GenHashPrimitiveSlice :: "SszFieldInfo \<Rightarrow> string \<Rightarrow> string \<Rightarrow> string" where
  "ts_GenHashPrimitiveSlice info var indent =
     line indent (''for (const v of '' @ var @ '') {'') @
     ts_GenHashPrimitive (elem_ssz_type info) ''v'' (indent @ sp2) True @
     line indent ''}''"

definition ts_sub_tree :: "string \<Rightarrow> string \<Rightarrow> string \<Rightarrow> string" where
  "ts_sub_tree indent content tail_line =
     line indent ''{'' @ line (indent @ sp2) ''const subIdx = h.index();'' @ content @
     line (indent @ sp2) tail_line @ line indent ''}''"

definition ts_hash_containers :: "string \<Rightarrow> string \<Rightarrow> string" where
  "ts_hash_containers var indent =
     line indent (''for (const item of '' @ var @ '') {'') @ line (indent @ sp2) ''item.treeHashWith(h);'' @
     line indent ''}''"

definition ts_hash_vector :: "SszFieldInfo \<Rightarrow> string \<Rightarrow> string \<Rightarrow> string" where
  "ts_hash_vector info var indent =
     (if elem_is info SszUint8 then line indent (''h.putBytes('' @ var @ '');'')
      else if elem_is info SszContainer then
        ts_sub_tree indent (ts_hash_containers var (indent @ sp2)) ''h.merkleize(subIdx);''
      else if elem_info info \<noteq> None then
        ts_sub_tree indent
          (ts_GenHashPrimitiveArray info var (indent @ sp2) @ line (indent @ sp2) ''h.fillUpTo32();'')
          ''h.merkleize(subIdx);''
      else [])"

definition ts_mixin :: "string \<Rightarrow> u64 \<Rightarrow> string" where
  "ts_mixin var limit = ''h.merkleizeWithMixin(subIdx, '' @ var @ ''.length, '' @ num64 limit @ '');''"

definition ts_inner_chunk_limit :: "SszFieldInfo \<Rightarrow> u64" where
  "ts_inner_chunk_limit info =
     (let inner_limit = (case elem_info info of None \<Rightarrow> 0 | Some e \<Rightarrow> info_limit e)
      in if inner_limit > 0 then ts_ssz_limit_for_bytes inner_limit else 0)"

definition ts_hash_list :: "SszFieldInfo \<Rightarrow> string \<Rightarrow> string \<Rightarrow> string" where
  "ts_hash_list info var indent =
     (let limit = info_limit info; inner_chunk_limit = ts_inner_chunk_limit info in
      if elem_is info SszList then
        ts_sub_tree indent
          (line (indent @ sp2) (''for (const item of '' @ var @ '') {'') @
           line (indent @ sp4) ''const inner = h.index();'' @
           line (indent @ sp4) ''h.appendBytes32(item);'' @
           (if inner_chunk_limit > 0 then
              line (indent @ sp4) (''h.merkleizeWithMixin(inner, item.length, '' @ num64 inner_chunk_limit @ '');'')
            else line (indent @ sp4) ''h.merkleize(inner);'') @
           line (indent @ sp2) ''}'')
          (ts_mixin var limit)
      else if elem_is info SszUint8 then
        ts_sub_tree indent (line (indent @ sp2) (''h.appendBytes32('' @ var @ '');''))
          (ts_mixin var (ts_ssz_limit_for_bytes limit))
      else if elem_is info SszContainer then
        ts_sub_tree indent (ts_hash_containers var (indent @ sp2)) (ts_mixin var limit)
      else if elem_info info \<noteq> None then
        ts_sub_tree indent
          (ts_GenHashPrimitiveSlice info var (indent @ sp2) @ line (indent @ sp2) ''h.fillUpTo32();'')
          (ts_mixin var (ts_ssz_limit_for_elements limit (elem_fixed_size info)))
      else [])"

definition ts_hash_progressive_list :: "SszFieldInfo \<Rightarrow> string \<Rightarrow> string \<Rightarrow> string" where
  "ts_hash_progressive_list info var indent =
     (let mixin = ''h.merkleizeProgressiveWithMixin(subIdx, '' @ var @ ''.length);'' in
      if elem_is info SszUint8 then
        ts_sub_tree indent (line (indent @ sp2) (''h.appendBytes32('' @ var @ '');'')) mixin
      else if elem_is info SszContainer then
        ts_sub_tree indent (ts_hash_containers var (indent @ sp2)) mixin
      else if elem_info info \<noteq> None then
        ts_sub_tree indent
          (ts_GenHashPrimitiveSlice info var (indent @ sp2) @ line (indent @ sp2) ''h.fillUpTo32();'') mixin
      else [])"

definition ts_GenHashField :: "SszFieldInfo \<Rightarrow> string \<Rightarrow> string \<Rightarrow> string" where
  "ts_GenHashField info var indent =
     (case ssz_type info of
        SszBool \<Rightarrow> line indent (''h.putBool('' @ var @ '');'')
      | SszUint8 \<Rightarrow> line indent (''h.putUint8('' @ var @ '');'')
      | SszUint16 \<Rightarrow> line indent (''h.putUint16('' @ var @ '');'')
      | SszUint32 \<Rightarrow> line indent (''h.putUint32('' @ var @ '');'')
      | SszUint64 \<Rightarrow> line indent (''h.putUint64('' @ var @ '');'')
      | SszUint128 \<Rightarrow> line indent (''h.putBytes('' @ var @ '');'')
      | SszUint256 \<Rightarrow> line indent (''h.putBytes('' @ var @ '');'')
      | SszVector \<Rightarrow> ts_hash_vector info var indent
      | SszList \<Rightarrow> ts_hash_list info var indent
      | SszBitlist \<Rightarrow> line indent (''h.putBitlist('' @ var @ '', '' @ num64 (info_limit info) @ '');'')
      | SszBitvector \<Rightarrow> line indent (''h.putBytes('' @ var @ '');'')
      | SszContainer \<Rightarrow> line indent (var @ ''.treeHashWith(h);'')
      | SszProgressiveContainer \<Rightarrow> line indent (var @ ''.treeHashWith(h);'')
      | SszProgressiveList \<Rightarrow> ts_hash_progressive_list info var indent
      | SszUnion \<Rightarrow> [])"

definition ts_hash_index :: "Parser \<Rightarrow> SszContainerInfo \<Rightarrow> u32 \<Rightarrow> string" where
  "ts_hash_index P container i =
     (case map_of (index_to_field container) i of
        Some p \<Rightarrow>
          (case field_infos container p of
             None \<Rightarrow> []
           | Some info \<Rightarrow>
               line sp4 (''// Index '' @ num32 i @ '': '' @ fd_name (field_at P p)) @
               ts_GenHashField info (''this.'' @ ts_member P p) sp4)
      | None \<Rightarrow>
          line sp4 (''// Index '' @ num32 i @ '': gap (inactive)'') @ line sp4 ''h.putUint8(0);'')"

definition ts_GenTreeHashWith :: "Parser \<Rightarrow> SszContainerInfo \<Rightarrow> string" where
  "ts_GenTreeHashWith P container =
     line sp2 ''treeHashWith(h: Hasher): void {'' @
     line sp4 ''const idx = h.index();'' @ nl @
     (if is_progressive container then
        concat (map (\<lambda>i. ts_hash_index P container (of_nat i)) [0..<Suc (unat (max_ssz_index container))]) @ nl @
        line sp4 (''h.merkleizeProgressiveWithActiveFields(idx, new Uint8Array(['' @
          comma_list (map hex_byte (active_fields_bitvector container)) @ '']));'')
      else
        each_field container (all_fields container) (\<lambda>p info.
          line sp4 (''// Field '' @ sq @ fd_name (field_at P p) @ sq) @
          ts_GenHashField info (''this.'' @ ts_member P p) sp4 @ nl) @
        line sp4 ''h.merkleize(idx);'') @
     line sp2 ''}''"

definition ts_GenTreeHashRoot :: string where
  "ts_GenTreeHashRoot =
     line sp2 ''treeHashRoot(): Uint8Array {'' @
     line sp4 ''const h = HasherPool.get();'' @
     line sp4 ''try {'' @
     line sp6 ''this.treeHashWith(h);'' @
     line sp6 ''return h.hashRoot();'' @
     line sp4 ''} finally {'' @
     line sp6 ''HasherPool.put(h);'' @
     line sp4 ''}'' @
     line sp2 ''}''"

section \<open>The file\<close>

definition ts_GenerateType :: "Parser \<Rightarrow> StructDef \<Rightarrow> SszContainerInfo \<Rightarrow> string" where
  "ts_GenerateType P struct_def container =
     ts_GenTsClass P struct_def container @ nl @
     ts_GenSszBytesLen P container @ nl @
     ts_GenSszAppend P container @ nl @
     ts_GenToSszBytes @ nl @
     ts_GenFromSszBytes P struct_def container @ nl @
     ts_GenTreeHashRoot @ nl @
     ts_GenTreeHashWith P container @
     line [] ''}''"

definition ts_file_text :: "string \<Rightarrow> string" where
  "ts_file_text classcode =
     strip_newlines
       (line [] ''// Code generated by the FlatBuffers compiler. DO NOT EDIT.'' @ nl @
        line [] (''import { Hasher, HasherPool, SszError } from '' @ sq @ ''./ssz_runtime'' @ sq @ '';'') @ nl @
        classcode)"

definition ts_file_name :: "SszGenerator \<Rightarrow> string \<Rightarrow> string list \<Rightarrow> string" where
  "ts_file_name G file_name ns = Directories (ts_namer G) ns @ file_name @ ''_ssz.ts''"

definition ts_SaveFile ::
  "(string \<Rightarrow> string \<Rightarrow> bool) \<Rightarrow> SszGenerator \<Rightarrow> string \<Rightarrow> string list \<Rightarrow> string \<Rightarrow> files res" where
  "ts_SaveFile save G file_name ns classcode =
     (if classcode = [] then Inr []
      else
        (let code = ts_file_text classcode; filename = ts_file_name G file_name ns
         in if save filename code then Inr [(filename, code)] else Inl (SaveFailed filename)))"

text \<open>The first loop of \<open>generate\<close> analyses every struct before any text is written.\<close>

definition ts_collect ::
  "nat \<Rightarrow> Parser \<Rightarrow> StructPtr \<Rightarrow> (StructPtr \<times> SszContainerInfo) list \<Rightarrow> (StructPtr \<times> SszContainerInfo) list res" where
  "ts_collect depth P s types =
     (if sd_generated (struct_at P s) then Inr types
      else bind_res (ts_AnalyzeContainer depth P s) (\<lambda>container. Inr (types @ [(s, container)])))"

fun ts_types :: "Parser \<Rightarrow> (StructPtr \<times> SszContainerInfo) list \<Rightarrow> string" where
  "ts_types P [] = []"
| "ts_types P ((s, container) # cs) =
     ts_GenerateType P (struct_at P s) container @ (if cs = [] then [] else nl) @ ts_types P cs"

definition ts_generate :: "(string \<Rightarrow> string \<Rightarrow> bool) \<Rightarrow> nat \<Rightarrow> SszGenerator \<Rightarrow> string \<Rightarrow> files res" where
  "ts_generate save depth G file_name =
     bind_res (fold_res (ts_collect depth (gen_parser G)) (structs_vec (gen_parser G)) []) (\<lambda>types.
       case types of
         [] \<Rightarrow> Inr []
       | (s, c) # cs \<Rightarrow>
           ts_SaveFile save G file_name (sd_namespace (struct_at (gen_parser G) s)) (ts_types (gen_parser G) types))"

end
