(* ===== verification/Pos_Lang.thy ===== *)
theory Pos_Lang
  imports Emit_Program
begin

text \<open>
  The statements of the encoders that write into an array at a position, which the TypeScript, C#
  and Java back ends emit: their syntax, and what they do.  Running off the array, and writing bytes
  that do not have the length the statement counts on, is \<open>None\<close>: there the languages throw, except
  that TypeScript ignores a single byte that does not fit.
  The second part is the statements that the generators emit, over a dialect.
\<close>

section \<open>Syntax\<close>

text \<open>An element of a Java list is read by \<open>get\<close>, any other by its index.\<close>

datatype pexpr =
    XMember string
  | XLocal string
  | XIndex pexpr string
  | XGet pexpr string

text \<open>
  How many bytes a copy counts: as many as a basic type or an array has, or as its operand has, the
  latter as a statement of a loop over such operands or not (which differ in their text).
\<close>

datatype pcopy = CBasic nat | CArray nat | CAll | CItem

text \<open>
  How the position moves over what a nested call has written: to where the call says, by the size
  that the nested object announces, or by a constant.
\<close>

datatype padv = AReturned | ASize | AConst nat

text \<open>
  Loops over lists and over arrays differ in text only, and so do loops over elements of the types
  whose names they hold.  \<open>PEnter\<close> takes over the position at which the method is to write.
\<close>

datatype pstmt =
    PNote string
  | PBlank
  | PEnter string
  | PMark string
  | PSkip
  | PSkipList pexpr
  | PBool pexpr
  | PByte pexpr
  | PUint nat pexpr
  | PCopy pcopy pexpr
  | PLet string string pexpr
  | PPutLen gpos string
  | PForIndex bool string pexpr "pstmt list"
  | PForValue string string pexpr "pstmt list"
  | PBlock "pstmt list"
  | PCall bool padv pexpr \<comment> \<open>on the array, or on the part of it from the position on\<close>

section \<open>Execution\<close>

record pframe =
  pf_members :: "string list"
  pf_recv :: "val list"
  pf_vals :: "string \<rightharpoonup> val"
  pf_ints :: "string \<rightharpoonup> nat"
  pf_buf :: "byte list"
  pf_pos :: nat

text \<open>
  The two methods of the other objects: the encoder returns the array and the position behind what it
  has written, which only TypeScript hands to the caller.
\<close>

record pcalls =
  pc_marshal :: "string \<Rightarrow> val list \<Rightarrow> byte list \<Rightarrow> nat \<Rightarrow> (byte list \<times> nat) option"
  pc_size :: "string \<Rightarrow> val list \<Rightarrow> nat option"

definition seq_elem :: "val option \<Rightarrow> nat option \<Rightarrow> val option" where
  "seq_elem v k =
     (case v of
        Some (VSeq xs) \<Rightarrow> (case k of Some j \<Rightarrow> if j < length xs then Some (xs ! j) else None | None \<Rightarrow> None)
      | _ \<Rightarrow> None)"

fun peval :: "pframe \<Rightarrow> pexpr \<Rightarrow> val option" where
  "peval fr (XMember f) = map_of (zip (pf_members fr) (pf_recv fr)) f"
| "peval fr (XLocal x) = pf_vals fr x"
| "peval fr (XIndex e i) = seq_elem (peval fr e) (pf_ints fr i)"
| "peval fr (XGet e i) = seq_elem (peval fr e) (pf_ints fr i)"

fun ppos_at :: "pframe \<Rightarrow> gpos \<Rightarrow> nat option" where
  "ppos_at fr (PAt x) = pf_ints fr x"
| "ppos_at fr (PElem x i k) =
     (case pf_ints fr x of
        Some b \<Rightarrow> map_option (\<lambda>j. b + j * k) (pf_ints fr i)
      | None \<Rightarrow> None)"

definition write_at :: "byte list \<Rightarrow> pframe \<Rightarrow> pframe option" where
  "write_at bs fr =
     map_option (\<lambda>a. fr\<lparr>pf_buf := a, pf_pos := pf_pos fr + length bs\<rparr>) (put_bytes (pf_pos fr) bs (pf_buf fr))"

fun copy_fits :: "pcopy \<Rightarrow> byte list \<Rightarrow> bool" where
  "copy_fits (CBasic n) bs = (length bs = n)"
| "copy_fits (CArray n) bs = (length bs = n)"
| "copy_fits CAll bs = True"
| "copy_fits CItem bs = True"

definition pbind_int :: "string \<Rightarrow> nat \<Rightarrow> pframe \<Rightarrow> pframe" where
  "pbind_int x k fr = fr\<lparr>pf_ints := (pf_ints fr)(x \<mapsto> k)\<rparr>"

definition pbind_val :: "string \<Rightarrow> val \<Rightarrow> pframe \<Rightarrow> pframe" where
  "pbind_val x v fr = fr\<lparr>pf_vals := (pf_vals fr)(x \<mapsto> v)\<rparr>"

text \<open>Leaving a block drops the variables it declared; the array and the position stay.\<close>

definition pleave :: "pframe \<Rightarrow> pframe \<Rightarrow> pframe" where
  "pleave fr fr' = fr\<lparr>pf_buf := pf_buf fr', pf_pos := pf_pos fr'\<rparr>"

text \<open>A nested encoder on the array, or on the part of it that starts at the position.\<close>

definition run_call :: "pcalls \<Rightarrow> bool \<Rightarrow> string \<Rightarrow> val list \<Rightarrow> byte list \<Rightarrow> nat \<Rightarrow> (byte list \<times> nat) option" where
  "run_call C is_slice s vs a p =
     (if is_slice then
        if p \<le> length a then
          map_option (\<lambda>(r, q). (take p a @ r, p + q)) (pc_marshal C s vs (drop p a) 0)
        else None
      else pc_marshal C s vs a p)"

fun new_pos :: "pcalls \<Rightarrow> padv \<Rightarrow> string \<Rightarrow> val list \<Rightarrow> nat \<Rightarrow> nat \<Rightarrow> nat option" where
  "new_pos C AReturned s vs p q = Some q"
| "new_pos C ASize s vs p q = map_option (\<lambda>n. p + n) (pc_size C s vs)"
| "new_pos C (AConst n) s vs p q = Some (p + n)"

fun pexec :: "pcalls \<Rightarrow> pstmt \<Rightarrow> pframe \<Rightarrow> pframe option"
  and pexecs :: "pcalls \<Rightarrow> pstmt list \<Rightarrow> pframe \<Rightarrow> pframe option" where
  "pexec C (PNote s) fr = Some fr"
| "pexec C PBlank fr = Some fr"
| "pexec C (PEnter x) fr = Some (pbind_int x (pf_pos fr) fr)"
| "pexec C (PMark x) fr = Some (pbind_int x (pf_pos fr) fr)"
| "pexec C PSkip fr = Some (fr\<lparr>pf_pos := pf_pos fr + 4\<rparr>)"
| "pexec C (PSkipList e) fr =
     map_option (\<lambda>n. fr\<lparr>pf_pos := pf_pos fr + n * 4\<rparr>) (Option.bind (peval fr e) val_len)"
| "pexec C (PBool e) fr =
     (case peval fr e of Some (VBool b) \<Rightarrow> write_at [if b then 1 else 0] fr | _ \<Rightarrow> None)"
| "pexec C (PByte e) fr =
     (case peval fr e of Some (VUint n) \<Rightarrow> write_at (le_bytes 1 n) fr | _ \<Rightarrow> None)"
| "pexec C (PUint w e) fr =
     (case peval fr e of Some (VUint n) \<Rightarrow> write_at (le_bytes (w div 8) n) fr | _ \<Rightarrow> None)"
| "pexec C (PCopy k e) fr =
     (case peval fr e of
        Some (VBytes bs) \<Rightarrow> if copy_fits k bs then write_at bs fr else None
      | _ \<Rightarrow> None)"
| "pexec C (PLet ty x e) fr = map_option (\<lambda>v. pbind_val x v fr) (peval fr e)"
| "pexec C (PPutLen p base) fr =
     (case ppos_at fr p of
        None \<Rightarrow> None
      | Some k \<Rightarrow>
          (case pf_ints fr base of
             None \<Rightarrow> None
           | Some b \<Rightarrow>
               map_option (\<lambda>a. fr\<lparr>pf_buf := a\<rparr>) (put_bytes k (le_bytes 4 (pf_pos fr - b)) (pf_buf fr))))"
| "pexec C (PForIndex is_list i e b) fr =
     Option.bind (Option.bind (peval fr e) val_len) (\<lambda>n.
       fold_opt (\<lambda>k f. map_option (pleave f) (pexecs C b (pbind_int i k f))) [0..<n] fr)"
| "pexec C (PForValue ty x e b) fr =
     Option.bind (Option.bind (peval fr e) val_elems) (\<lambda>xs.
       fold_opt (\<lambda>v f. map_option (pleave f) (pexecs C b (pbind_val x v f))) xs fr)"
| "pexec C (PBlock b) fr = map_option (pleave fr) (pexecs C b fr)"
| "pexec C (PCall is_slice adv e) fr =
     (case peval fr e of
        Some (VStruct s vs) \<Rightarrow>
          Option.bind (run_call C is_slice s vs (pf_buf fr) (pf_pos fr)) (\<lambda>(a, q).
            map_option (\<lambda>p. fr\<lparr>pf_buf := a, pf_pos := p\<rparr>) (new_pos C adv s vs (pf_pos fr) q))
      | _ \<Rightarrow> None)"
| "pexecs C [] fr = Some fr"
| "pexecs C (s # ss) fr = Option.bind (pexec C s fr) (pexecs C ss)"

lemma pexecs_append [simp]:
  "pexecs C (xs @ ys) fr = Option.bind (pexecs C xs fr) (pexecs C ys)"
proof (induction xs arbitrary: fr)
  case (Cons x xs)
  then show ?case by (cases "pexec C x fr") auto
qed simp

section \<open>Programs\<close>

record pdecl =
  pd_members :: "string list"
  pd_marshal :: "pstmt list"

type_synonym pprogram = "string \<rightharpoonup> pdecl"

definition new_pframe :: "pdecl \<Rightarrow> val list \<Rightarrow> byte list \<Rightarrow> nat \<Rightarrow> pframe" where
  "new_pframe d vs a p =
     \<lparr>pf_members = pd_members d, pf_recv = vs, pf_vals = Map.empty, pf_ints = Map.empty, pf_buf = a, pf_pos = p\<rparr>"

text \<open>The encoder of a program; \<open>sizes\<close> are the methods that announce sizes.\<close>

fun PosMarshal ::
  "pprogram \<Rightarrow> gprogram \<Rightarrow> nat \<Rightarrow> string \<Rightarrow> val list \<Rightarrow> byte list \<Rightarrow> nat \<Rightarrow> (byte list \<times> nat) option" where
  "PosMarshal prog sizes 0 s vs a p = None"
| "PosMarshal prog sizes (Suc n) s vs a p =
     (case prog s of
        None \<Rightarrow> None
      | Some d \<Rightarrow>
          map_option (\<lambda>fr. (pf_buf fr, pf_pos fr))
            (pexecs \<lparr>pc_marshal = PosMarshal prog sizes n, pc_size = SizeSSZ sizes n\<rparr>
               (pd_marshal d) (new_pframe d vs a p)))"

text \<open>
  The wrapper: a new array of the announced size, written from its start.  Languages have no arrays
  longer than some \<open>lim\<close>; where positions are 32-bit integers with sign, \<open>lim < 2 ^ 31\<close>, so that none
  wraps around.
\<close>

definition to_ssz_bytes :: "nat \<Rightarrow> pprogram \<Rightarrow> gprogram \<Rightarrow> nat \<Rightarrow> string \<Rightarrow> val list \<Rightarrow> byte list option" where
  "to_ssz_bytes lim prog sizes n s vs =
     Option.bind (SizeSSZ sizes n s vs) (\<lambda>size.
       if size \<le> lim then map_option fst (PosMarshal prog sizes n s vs (replicate size 0) 0) else None)"


text \<open>
  The encoders that the TypeScript, C# and Java back ends emit for a container, apart from their
  text: for every info the statements of a field, for every container the body of the method.  The
  three differ in what a \<open>pstyle\<close> holds.
\<close>

section \<open>Styles\<close>

record pstyle =
  ps_member :: "FieldPtr \<Rightarrow> string"
  ps_label :: "FieldPtr \<Rightarrow> string"
  ps_base :: string \<comment> \<open>the variable with the position at which the method starts\<close>
  ps_enter :: bool \<comment> \<open>it is a parameter\<close>
  ps_get :: bool \<comment> \<open>elements of lists are read by \<open>get\<close>, by way of a local if they are bytes\<close>
  ps_value_loops :: bool \<comment> \<open>lists of basic types are walked by value\<close>
  ps_skip_loop :: bool \<comment> \<open>the offsets of a list are skipped one by one\<close>
  ps_slice :: bool \<comment> \<open>nested encoders get a part of the array\<close>
  ps_adv_vector :: "SszFieldInfo \<Rightarrow> padv" \<comment> \<open>behind an element of a vector with this info\<close>
  ps_adv_list :: "SszFieldInfo \<Rightarrow> padv" \<comment> \<open>behind an element of fixed size of a list\<close>
  ps_adv_elem :: padv \<comment> \<open>behind an element of variable size of a list\<close>
  ps_adv_field :: "SszFieldInfo \<Rightarrow> padv" \<comment> \<open>behind a field\<close>
  ps_adv_progressive :: padv \<comment> \<open>behind a field that is a progressive container\<close>
  ps_elem_type :: "SszFieldInfo \<Rightarrow> string" \<comment> \<open>the type of the elements, where a loop names it\<close>

section \<open>Statements of a field\<close>

definition pprim_stmts :: "SszType \<Rightarrow> pexpr \<Rightarrow> pstmt list" where
  "pprim_stmts t e =
     (case t of
        SszBool \<Rightarrow> [PBool e]
      | SszUint16 \<Rightarrow> [PUint 16 e]
      | SszUint32 \<Rightarrow> [PUint 32 e]
      | SszUint64 \<Rightarrow> [PUint 64 e]
      | _ \<Rightarrow> [])"

definition pelem :: "pstyle \<Rightarrow> pexpr \<Rightarrow> pexpr" where
  "pelem S e = (if ps_get S then XGet e ''i'' else XIndex e ''i'')"

definition poffset_list :: "pstyle \<Rightarrow> pexpr \<Rightarrow> pstmt list \<Rightarrow> pstmt list" where
  "poffset_list S e body =
     [PBlock
       [PMark ''listStart'',
        (if ps_skip_loop S then PForIndex True ''i'' e [PSkip] else PSkipList e),
        PForIndex True ''i'' e (PPutLen (PElem ''listStart'' ''i'' 4) ''listStart'' # body)]]"

definition pbytes_elem :: "pstyle \<Rightarrow> pexpr \<Rightarrow> pstmt list" where
  "pbytes_elem S e =
     (if ps_get S then [PLet ''byte[]'' ''item'' (pelem S e), PCopy CItem (XLocal ''item'')]
      else [PCopy CItem (pelem S e)])"

definition pvector_stmts :: "pstyle \<Rightarrow> SszFieldInfo \<Rightarrow> pexpr \<Rightarrow> pstmt list" where
  "pvector_stmts S info e =
     (if elem_is info SszUint8 then [PCopy (CArray (unat (fixed_size info))) e]
      else if elem_is info SszContainer then
        [PForIndex False ''i'' e [PCall (ps_slice S) (ps_adv_vector S info) (XIndex e ''i'')]]
      else if elem_info info \<noteq> None then
        [PForIndex False ''i'' e (pprim_stmts (elem_ssz_type info) (XIndex e ''i''))]
      else [])"

definition plist_stmts :: "pstyle \<Rightarrow> SszFieldInfo \<Rightarrow> pexpr \<Rightarrow> pstmt list" where
  "plist_stmts S info e =
     (if elem_is info SszList then poffset_list S e (pbytes_elem S e)
      else if elem_is info SszUint8 then [PCopy CAll e]
      else if elem_is info SszContainer then
        (if elem_dynamic info then
           poffset_list S e [PCall (ps_slice S) (ps_adv_elem S) (pelem S e)]
         else
           [PForValue (ps_elem_type S info) ''item'' e
             [PCall (ps_slice S) (ps_adv_list S info) (XLocal ''item'')]])
      else if elem_info info \<noteq> None then
        (if ps_value_loops S then
           [PForValue (ps_elem_type S info) ''v'' e (pprim_stmts (elem_ssz_type info) (XLocal ''v''))]
         else [PForIndex False ''i'' e (pprim_stmts (elem_ssz_type info) (XIndex e ''i''))])
      else [PCopy CAll e])"

definition pfield_stmts :: "pstyle \<Rightarrow> SszFieldInfo \<Rightarrow> pexpr \<Rightarrow> pstmt list" where
  "pfield_stmts S info e =
     (case ssz_type info of
        SszBool \<Rightarrow> [PBool e]
      | SszUint8 \<Rightarrow> [PByte e]
      | SszUint16 \<Rightarrow> [PUint 16 e]
      | SszUint32 \<Rightarrow> [PUint 32 e]
      | SszUint64 \<Rightarrow> [PUint 64 e]
      | SszUint128 \<Rightarrow> [PCopy (CBasic 16) e]
      | SszUint256 \<Rightarrow> [PCopy (CBasic 32) e]
      | SszVector \<Rightarrow> pvector_stmts S info e
      | SszProgressiveList \<Rightarrow> plist_stmts S info e
      | SszList \<Rightarrow> plist_stmts S info e
      | SszBitlist \<Rightarrow> [PCopy CAll e]
      | SszBitvector \<Rightarrow> [PCopy (CArray (unat (fixed_size info))) e]
      | SszContainer \<Rightarrow> [PCall (ps_slice S) (ps_adv_field S info) e]
      | SszProgressiveContainer \<Rightarrow> [PCall (ps_slice S) (ps_adv_progressive S) e]
      | SszUnion \<Rightarrow> [])"

section \<open>Method bodies\<close>

abbreviation ps_field_stmts :: "pstyle \<Rightarrow> FieldPtr \<times> SszFieldInfo \<Rightarrow> pstmt list" where
  "ps_field_stmts S f \<equiv> pfield_stmts S (snd f) (XMember (ps_member S (fst f)))"

fun pstatic_stmts :: "pstyle \<Rightarrow> nat \<Rightarrow> (FieldPtr \<times> SszFieldInfo) list \<Rightarrow> pstmt list" where
  "pstatic_stmts S idx [] = []"
| "pstatic_stmts S idx ((p, i) # ps) =
     (if is_dynamic i then
        [PNote (''Offset placeholder for '' @ sq @ ps_label S p @ sq),
         PMark (''offsetPos'' @ NumToString idx), PSkip] @ pstatic_stmts S (idx + 1) ps
      else
        PNote (''Field '' @ sq @ ps_label S p @ sq) #
        ps_field_stmts S (p, i) @ pstatic_stmts S idx ps)"

fun pdynamic_stmts :: "pstyle \<Rightarrow> nat \<Rightarrow> (FieldPtr \<times> SszFieldInfo) list \<Rightarrow> pstmt list" where
  "pdynamic_stmts S idx [] = []"
| "pdynamic_stmts S idx ((p, i) # ps) =
     (if is_dynamic i then
        [PNote (''Dynamic field '' @ sq @ ps_label S p @ sq),
         PPutLen (PAt (''offsetPos'' @ NumToString idx)) (ps_base S)] @
        ps_field_stmts S (p, i) @ pdynamic_stmts S (idx + 1) ps
      else pdynamic_stmts S idx ps)"

definition pmarshal_body :: "pstyle \<Rightarrow> SszContainerInfo \<Rightarrow> pstmt list" where
  "pmarshal_body S c =
     (if ps_enter S then [PEnter (ps_base S)] else []) @
     (if dynamic_fields c = [] then
        concat (map (ps_field_stmts S) (infos_of c (all_fields c)))
      else
        (if ps_enter S then [] else [PMark (ps_base S)]) @ [PBlank] @
        pstatic_stmts S 0 (infos_of c (all_fields c)) @
        [PBlank] @ pdynamic_stmts S 0 (infos_of c (all_fields c)))"

definition emit_pdecl :: "pstyle \<Rightarrow> SszContainerInfo \<Rightarrow> pdecl" where
  "emit_pdecl S c = \<lparr>pd_members = map (ps_member S) (all_fields c), pd_marshal = pmarshal_body S c\<rparr>"

end
