(* ===== verification/Pos_Exec.thy ===== *)
theory Pos_Exec
  imports Pos_Lang Go_Size
begin

text \<open>
  What the statements of one field do: they put the serialization of the field's value at the
  position and move the position behind it, and leave the rest of the array as it was.
\<close>

section \<open>Writing into an array\<close>

definition overwrite :: "nat \<Rightarrow> 'a list \<Rightarrow> 'a list \<Rightarrow> 'a list" where
  "overwrite p bs a = take p a @ bs @ drop (p + length bs) a"

lemma length_overwrite [simp]: "p + length bs \<le> length a \<Longrightarrow> length (overwrite p bs a) = length a"
  by (simp add: overwrite_def)

lemma overwrite_Nil [simp]: "overwrite p [] a = a"
  by (simp add: overwrite_def)

lemma overwrite_overwrite:
  "p \<le> length a \<Longrightarrow> overwrite (p + length bs) cs (overwrite p bs a) = overwrite p (bs @ cs) a"
  by (simp add: overwrite_def algebra_simps)

lemma put_bytes_overwrite: "p + length bs \<le> length a \<Longrightarrow> put_bytes p bs a = Some (overwrite p bs a)"
  by (simp add: put_bytes_def overwrite_def)

lemma overwrite_slice: "p \<le> length a \<Longrightarrow> take p a @ overwrite 0 bs (drop p a) = overwrite p bs a"
  by (simp add: overwrite_def add.commute)

definition put_at :: "byte list \<Rightarrow> pframe \<Rightarrow> pframe" where
  "put_at bs fr = fr\<lparr>pf_buf := overwrite (pf_pos fr) bs (pf_buf fr), pf_pos := pf_pos fr + length bs\<rparr>"

text \<open>There are \<open>n\<close> bytes left at the position.\<close>

definition room :: "nat \<Rightarrow> pframe \<Rightarrow> bool" where
  "room n fr \<longleftrightarrow> pf_pos fr + n \<le> length (pf_buf fr)"

lemma room_put: "room (length bs + n) fr \<Longrightarrow> room n (put_at bs fr)"
  by (simp add: room_def put_at_def)

lemma room_less: "room n fr \<Longrightarrow> m \<le> n \<Longrightarrow> room m fr"
  by (simp add: room_def)

lemma put_put [simp]: "room (length bs) fr \<Longrightarrow> put_at cs (put_at bs fr) = put_at (bs @ cs) fr"
  by (simp add: put_at_def room_def overwrite_overwrite)

lemma put_Nil [simp]: "put_at [] fr = fr"
  by (simp add: put_at_def)

lemma write_room: "room (length bs) fr \<Longrightarrow> write_at bs fr = Some (put_at bs fr)"
  by (simp add: write_at_def room_def put_bytes_overwrite put_at_def)

section \<open>Frames\<close>

named_theorems pframe_simps \<open>frames of a method under the assignments of a statement\<close>

definition pmember :: "pframe \<Rightarrow> string \<Rightarrow> val option" where
  "pmember fr f = map_of (zip (pf_members fr) (pf_recv fr)) f"

lemma peval_member [pframe_simps]: "peval fr (XMember f) = pmember fr f"
  by (simp add: pmember_def)

declare peval.simps(1) [simp del]

lemma pframes [pframe_simps]:
  "pmember (put_at bs fr) = pmember fr" "pmember (pbind_val x v fr) = pmember fr"
  "pmember (pbind_int i k fr) = pmember fr" "pmember (fr\<lparr>pf_buf := a\<rparr>) = pmember fr"
  "pmember (fr\<lparr>pf_pos := p\<rparr>) = pmember fr"
  "pf_ints (put_at bs fr) = pf_ints fr" "pf_vals (put_at bs fr) = pf_vals fr"
  "pf_ints (pbind_int i k fr) = (pf_ints fr)(i \<mapsto> k)" "pf_vals (pbind_int i k fr) = pf_vals fr"
  "pf_ints (pbind_val x v fr) = pf_ints fr" "pf_vals (pbind_val x v fr) = (pf_vals fr)(x \<mapsto> v)"
  "pf_buf (pbind_int i k fr) = pf_buf fr" "pf_buf (pbind_val x v fr) = pf_buf fr"
  "pf_pos (pbind_int i k fr) = pf_pos fr" "pf_pos (pbind_val x v fr) = pf_pos fr"
  "room n (pbind_int i k fr) = room n fr" "room n (pbind_val x v fr) = room n fr"
  "pleave fr (put_at bs fr) = put_at bs fr"
  "pleave fr (put_at bs (pbind_int i k fr)) = put_at bs fr"
  "pleave fr (put_at bs (pbind_val x v fr)) = put_at bs fr"
  "pleave fr (put_at bs (pbind_val x v (pbind_int i k fr))) = put_at bs fr"
  by (simp_all add: pmember_def [abs_def] put_at_def pbind_int_def pbind_val_def pleave_def room_def)

text \<open>A loop whose steps put their bytes puts everything they put.\<close>

lemma fold_put:
  assumes "\<And>x f. x \<in> set xs \<Longrightarrow> pmember f = pmember fr \<Longrightarrow> room (length (g x)) f \<Longrightarrow> step x f = Some (put_at (g x) f)"
    and "room (length (concat (map g xs))) fr"
  shows "fold_opt step xs fr = Some (put_at (concat (map g xs)) fr)"
  using assms
proof (induction xs arbitrary: fr)
  case (Cons x xs)
  have r: "room (length (g x)) fr" using Cons.prems(2) room_less by force
  have "fold_opt step xs (put_at (g x) fr) = Some (put_at (concat (map g xs)) (put_at (g x) fr))"
    by (rule Cons.IH) (use Cons.prems in \<open>auto simp: pframe_simps intro: room_put\<close>)
  with Cons.prems(1) [OF _ refl r] r show ?case by simp
qed simp

section \<open>The contract of nested calls\<close>

text \<open>
  Constant advances are right only behind parts of fixed size; where a style uses one for a field of
  variable size, what comes behind that field overwrites it.
\<close>

fun advances :: "bool \<Rightarrow> ssz_ty \<Rightarrow> bool"
  and fields_advance :: "bool \<Rightarrow> (string \<times> ssz_ty) list \<Rightarrow> bool" where
  "advances b (TVector t n) = advances b t"
| "advances b (TList t l) = advances b t"
| "advances b (TProgressiveList t) = advances b t"
| "advances b (TContainer nm fs) = fields_advance b fs"
| "advances b t = True"
| "fields_advance b [] = True"
| "fields_advance b ((n, t) # fs) =
     (advances b t \<and> fields_advance b fs \<and>
      (b \<longrightarrow> is_variable t \<longrightarrow> (case t of TContainer nm gs \<Rightarrow> True | _ \<Rightarrow> False) \<longrightarrow> \<not> any_variable fs))"

lemma advances_trivial: "\<not> b \<Longrightarrow> advances b t" "\<not> b \<Longrightarrow> fields_advance b fs"
  by (induction b t and b fs rule: advances_fields_advance.induct) auto

definition pmarshals :: "bool \<Rightarrow> bool \<Rightarrow> struct_types \<Rightarrow> pcalls \<Rightarrow> bool" where
  "pmarshals ret b st C \<longleftrightarrow>
     (\<forall>q nm fs vs a p. st q = Some (TContainer nm fs) \<longrightarrow> fields_bits_ok fs \<longrightarrow> size_ok (TContainer nm fs) \<longrightarrow>
        fields_advance b fs \<longrightarrow> vals_ok fs vs \<longrightarrow>
        p + length (serialize (TContainer nm fs) (VStruct nm vs)) \<le> length a \<longrightarrow>
        pc_size C nm vs = Some (length (serialize (TContainer nm fs) (VStruct nm vs))) \<and>
        (\<exists>r. pc_marshal C nm vs a p = Some (overwrite p (serialize (TContainer nm fs) (VStruct nm vs)) a, r) \<and>
          (ret \<longrightarrow> r = p + length (serialize (TContainer nm fs) (VStruct nm vs)))))"

text \<open>The advance \<open>adv\<close> moves the position by \<open>n\<close>.\<close>

fun adv_ok :: "bool \<Rightarrow> padv \<Rightarrow> nat \<Rightarrow> bool" where
  "adv_ok ret AReturned n = ret"
| "adv_ok ret ASize n = True"
| "adv_ok ret (AConst k) n = (k = n)"

lemma run_pcall:
  assumes "pmarshals ret b st C" and "info_rep st i (TContainer nm fs)" and "fields_bits_ok fs"
    and "size_ok (TContainer nm fs)" and "fields_advance b fs" and "vals_ok fs vs"
    and "p + length (serialize (TContainer nm fs) (VStruct nm vs)) \<le> length a"
  obtains r where
    "run_call C sl nm vs a p = Some (overwrite p (serialize (TContainer nm fs) (VStruct nm vs)) a, r)"
    "ret \<Longrightarrow> r = p + length (serialize (TContainer nm fs) (VStruct nm vs))"
    "pc_size C nm vs = Some (length (serialize (TContainer nm fs) (VStruct nm vs)))"
proof -
  let ?bs = "serialize (TContainer nm fs) (VStruct nm vs)"
  from assms(2) obtain q where q: "st q = Some (TContainer nm fs)" by auto
  have call: "pc_size C nm vs = Some (length ?bs) \<and>
      (\<exists>r. pc_marshal C nm vs a' p' = Some (overwrite p' ?bs a', r) \<and> (ret \<longrightarrow> r = p' + length ?bs))"
    if "p' + length ?bs \<le> length a'" for a' p'
    using assms(1) q assms(3-6) that unfolding pmarshals_def by blast
  show thesis
  proof (cases sl)
    case True
    have "0 + length ?bs \<le> length (drop p a)" using assms(7) by (simp del: serialize.simps)
    from call [OF this] obtain r where
      r: "pc_marshal C nm vs (drop p a) 0 = Some (overwrite 0 ?bs (drop p a), r)" "ret \<longrightarrow> r = 0 + length ?bs"
      "pc_size C nm vs = Some (length ?bs)" by blast
    have "take p a @ overwrite 0 ?bs (drop p a) = overwrite p ?bs a" by (rule overwrite_slice) (use assms(7) in simp)
    then have "run_call C sl nm vs a p = Some (overwrite p ?bs a, p + r)"
      using True r(1) assms(7) by (simp add: run_call_def del: serialize.simps)
    with that r(2,3) show thesis by (simp del: serialize.simps)
  next
    case False
    from call [OF assms(7)] that False show thesis by (auto simp: run_call_def)
  qed
qed

lemma pcall_exec:
  assumes "pmarshals ret b st C" and "info_rep st i (TContainer nm fs)" and "fields_bits_ok fs"
    and "size_ok (TContainer nm fs)" and "fields_advance b fs" and "val_ok (TContainer nm fs) v"
    and "peval fr e = Some v" and "room (length (serialize (TContainer nm fs) v)) fr"
  shows "adv_ok ret adv (length (serialize (TContainer nm fs) v)) \<Longrightarrow>
      pexec C (PCall sl adv e) fr = Some (put_at (serialize (TContainer nm fs) v) fr)"
    and "\<exists>p. pexec C (PCall sl adv e) fr = Some ((put_at (serialize (TContainer nm fs) v) fr)\<lparr>pf_pos := p\<rparr>)"
proof -
  from assms(6) obtain vs where v: "v = VStruct nm vs" "vals_ok fs vs" by auto
  from assms(8) v(1) have "pf_pos fr + length (serialize (TContainer nm fs) (VStruct nm vs)) \<le> length (pf_buf fr)"
    by (simp add: room_def)
  from run_pcall [OF assms(1-5) v(2) this, of sl] obtain r where r:
    "run_call C sl nm vs (pf_buf fr) (pf_pos fr) =
       Some (overwrite (pf_pos fr) (serialize (TContainer nm fs) (VStruct nm vs)) (pf_buf fr), r)"
    "ret \<Longrightarrow> r = pf_pos fr + length (serialize (TContainer nm fs) (VStruct nm vs))"
    "pc_size C nm vs = Some (length (serialize (TContainer nm fs) (VStruct nm vs)))" by blast
  show "adv_ok ret adv (length (serialize (TContainer nm fs) v)) \<Longrightarrow>
      pexec C (PCall sl adv e) fr = Some (put_at (serialize (TContainer nm fs) v) fr)"
    using r assms(7) v(1) by (cases adv) (simp_all add: put_at_def del: serialize.simps)
  show "\<exists>p. pexec C (PCall sl adv e) fr = Some ((put_at (serialize (TContainer nm fs) v) fr)\<lparr>pf_pos := p\<rparr>)"
    using r assms(7) v(1)
    by (cases adv) (simp_all add: put_at_def del: serialize.simps, (rule exI, rule refl)+)
qed


section \<open>Loops\<close>

lemma pfor_index_exec:
  assumes v: "pmember fr f = Some (VSeq xs)"
    and step: "\<And>k fr'. k < length xs \<Longrightarrow> pmember fr' = pmember fr \<Longrightarrow> pf_ints fr' ''i'' = Some k \<Longrightarrow>
      room (length (g (xs ! k))) fr' \<Longrightarrow> pexecs C body fr' = Some (put_at (g (xs ! k)) fr')"
    and r: "room (length (concat (map g xs))) fr"
  shows "pexec C (PForIndex is_list ''i'' (XMember f) body) fr = Some (put_at (concat (map g xs)) fr)"
proof -
  let ?step = "\<lambda>k f. map_option (pleave f) (pexecs C body (pbind_int ''i'' k f))"
  have eq: "map (\<lambda>k. g (xs ! k)) [0..<length xs] = map g xs" by (rule nth_equalityI) auto
  have "fold_opt ?step [0..<length xs] fr = Some (put_at (concat (map (\<lambda>k. g (xs ! k)) [0..<length xs])) fr)"
  proof (rule fold_put)
    fix k f
    assume "k \<in> set [0..<length xs]" "pmember f = pmember fr" "room (length (g (xs ! k))) f"
    with step [of k "pbind_int ''i'' k f"] show "?step k f = Some (put_at (g (xs ! k)) f)"
      by (simp add: pframe_simps)
  qed (use r eq in simp)
  with v eq show ?thesis by (simp add: pframe_simps)
qed

lemma pfor_value_exec:
  assumes v: "pmember fr f = Some (VSeq xs)"
    and step: "\<And>w fr'. w \<in> set xs \<Longrightarrow> peval fr' (XLocal x) = Some w \<Longrightarrow>
      room (length (g w)) fr' \<Longrightarrow> pexecs C body fr' = Some (put_at (g w) fr')"
    and r: "room (length (concat (map g xs))) fr"
  shows "pexec C (PForValue ty x (XMember f) body) fr = Some (put_at (concat (map g xs)) fr)"
proof -
  let ?step = "\<lambda>w f. map_option (pleave f) (pexecs C body (pbind_val x w f))"
  have "fold_opt ?step xs fr = Some (put_at (concat (map g xs)) fr)"
  proof (rule fold_put [OF _ r])
    fix w f
    assume "w \<in> set xs" "pmember f = pmember fr" "room (length (g w)) f"
    with step [of w "pbind_val x w f"] show "?step w f = Some (put_at (g w) f)"
      by (simp add: pframe_simps)
  qed
  with v show ?thesis by (simp add: pframe_simps)
qed

subsection \<open>A list with offsets\<close>

definition at_buf :: "byte list \<Rightarrow> nat \<Rightarrow> pframe \<Rightarrow> pframe" where
  "at_buf a p fr = fr\<lparr>pf_buf := a, pf_pos := p\<rparr>"

lemma at_buf_frames [pframe_simps]:
  "pf_buf (at_buf a p fr) = a" "pf_pos (at_buf a p fr) = p" "pf_ints (at_buf a p fr) = pf_ints fr"
  "pf_vals (at_buf a p fr) = pf_vals fr" "pmember (at_buf a p fr) = pmember fr"
  "room n (at_buf a p fr) = (p + n \<le> length a)"
  "at_buf a p (at_buf a' p' fr) = at_buf a p fr"
  "at_buf (pf_buf fr) (pf_pos fr) fr = fr"
  "pleave fr (at_buf a p fr') = at_buf a p (pleave fr fr')"
  "pbind_int i k (at_buf a p fr) = at_buf a p (pbind_int i k fr)"
  by (simp_all add: at_buf_def pmember_def [abs_def] room_def pleave_def pbind_int_def)

lemma put_at_buf: "put_at bs fr = at_buf (overwrite (pf_pos fr) bs (pf_buf fr)) (pf_pos fr + length bs) fr"
  by (simp add: put_at_def at_buf_def)

text \<open>Writing behind \<open>pre\<close> over bytes of the same number.\<close>

lemma overwrite_at: "p = length pre \<Longrightarrow> length old = length bs \<Longrightarrow> overwrite p bs (pre @ old @ post) = pre @ bs @ post"
  by (simp add: overwrite_def)

lemma overwrite_behind:
  "p = length pre \<Longrightarrow> overwrite p bs (pre @ post) = pre @ bs @ drop (length bs) post"
  by (simp add: overwrite_def)

lemma pput_len_exec:
  assumes "ppos_at fr p = Some (length pre)" and "pf_ints fr base = Some b"
    and "pf_buf fr = pre @ old @ post" and "length old = 4"
  shows "pexec C (PPutLen p base) fr =
    Some (at_buf (pre @ le_bytes 4 (pf_pos fr - b) @ post) (pf_pos fr) fr)"
proof -
  have "put_bytes (length pre) (le_bytes 4 (pf_pos fr - b)) (pre @ old @ post) =
      Some (pre @ le_bytes 4 (pf_pos fr - b) @ post)"
    using put_bytes_at [of "le_bytes 4 (pf_pos fr - b)" old pre post] assms(4) by simp
  with assms(1-3) show ?thesis by (simp add: at_buf_def)
qed

text \<open>
  The loop that writes the elements from the \<open>k\<close>-th on: behind \<open>pre\<close> the places of their offsets
  hold what the array held, then come the elements before, and \<open>rest\<close> is still to be written.
\<close>

lemma offset_loop:
  assumes base: "pf_ints fr ''listStart'' = Some base"
    and step: "\<And>j f. j < length all \<Longrightarrow> pmember f = pmember fr \<Longrightarrow> room (length (g (all ! j))) f \<Longrightarrow>
      map_option (pleave f) (pexecs C body (pbind_int ''i'' j f)) = Some (put_at (g (all ! j)) f)"
  shows "all = done' @ xs \<Longrightarrow> k = length done' \<Longrightarrow> length pre = base + 4 * k \<Longrightarrow> length old = 4 * length xs \<Longrightarrow>
    length (concat (map g xs)) \<le> length rest \<Longrightarrow>
    fold_opt (\<lambda>j f. map_option (pleave f)
        (pexecs C (PPutLen (PElem ''listStart'' ''i'' 4) ''listStart'' # body) (pbind_int ''i'' j f)))
      [k..<k + length xs]
      (at_buf (pre @ old @ post @ rest) (length pre + length old + length post) fr) =
    Some (at_buf (pre @ heads (4 * k + 4 * length xs + length post) (map (\<lambda>x. (True, g x)) xs) @
        post @ concat (map g xs) @ drop (length (concat (map g xs))) rest)
      (length pre + length old + length post + length (concat (map g xs))) fr)"
proof (induction xs arbitrary: done' k pre old post rest)
  case Nil
  then show ?case by simp
next
  case (Cons x xs)
  let ?ps = "map (\<lambda>x. (True, g x)) xs"
  let ?off = "4 * k + 4 * length (x # xs) + length post"
  let ?fr0 = "at_buf (pre @ old @ post @ rest) (length pre + length old + length post) fr"
  let ?fr1 = "at_buf (pre @ le_bytes 4 ?off @ drop 4 old @ post @ rest) (length pre + length old + length post) fr"
  have x: "all ! k = x" "k < length all" using Cons.prems(1,2) by (simp_all add: nth_append)
  have old: "old = take 4 old @ drop 4 old" "length (take 4 old) = 4" using Cons.prems(4) by simp_all
  have "pf_buf (pbind_int ''i'' k ?fr0) = pre @ take 4 old @ (drop 4 old @ post @ rest)"
    using old(1) by (simp add: pframe_simps) 
  moreover have "ppos_at (pbind_int ''i'' k ?fr0) (PElem ''listStart'' ''i'' 4) = Some (length pre)"
    using base Cons.prems(3) by (simp add: pframe_simps mult.commute)
  moreover have "pf_ints (pbind_int ''i'' k ?fr0) ''listStart'' = Some base"
    using base by (simp add: pframe_simps)
  ultimately have "pexec C (PPutLen (PElem ''listStart'' ''i'' 4) ''listStart'') (pbind_int ''i'' k ?fr0) =
      Some (at_buf (pre @ le_bytes 4 (pf_pos (pbind_int ''i'' k ?fr0) - base) @ drop 4 old @ post @ rest)
        (pf_pos (pbind_int ''i'' k ?fr0)) (pbind_int ''i'' k ?fr0))"
    using old(2) by (intro pput_len_exec) 
  moreover have "pf_pos (pbind_int ''i'' k ?fr0) - base = ?off"
    using Cons.prems(3,4) by (simp add: pframe_simps)
  ultimately have put: "pexec C (PPutLen (PElem ''listStart'' ''i'' 4) ''listStart'') (pbind_int ''i'' k ?fr0) =
      Some (pbind_int ''i'' k ?fr1)"
    by (simp add: at_buf_def pbind_int_def)
  have r: "room (length (g x)) ?fr1" using Cons.prems(5) by (simp add: pframe_simps)
  let ?fr2 = "at_buf ((pre @ le_bytes 4 ?off) @ drop 4 old @ (post @ g x) @ drop (length (g x)) rest)
    (length (pre @ le_bytes 4 ?off) + length (drop 4 old) + length (post @ g x)) fr"
  have "put_at (g x) ?fr1 = ?fr2"
  proof -
    have "overwrite (length pre + length old + length post) (g x)
        ((pre @ le_bytes 4 ?off @ drop 4 old @ post) @ rest) =
        (pre @ le_bytes 4 ?off @ drop 4 old @ post) @ g x @ drop (length (g x)) rest"
      by (rule overwrite_behind) (use Cons.prems(4) in simp)
    then show ?thesis using Cons.prems(4) by (simp add: put_at_buf pframe_simps algebra_simps)
  qed
  moreover have "pleave ?fr0 = pleave ?fr1" by (rule ext) (simp add: pleave_def at_buf_def)
  ultimately have body: "map_option (pleave ?fr0)
      (pexecs C (PPutLen (PElem ''listStart'' ''i'' 4) ''listStart'' # body) (pbind_int ''i'' k ?fr0)) = Some ?fr2"
    using put step [OF x(2), of ?fr1] x(1) r by (simp add: pframe_simps)
  have ih: "fold_opt (\<lambda>j f. map_option (pleave f)
        (pexecs C (PPutLen (PElem ''listStart'' ''i'' 4) ''listStart'' # body) (pbind_int ''i'' j f)))
      [Suc k..<Suc k + length xs] ?fr2 =
    Some (at_buf ((pre @ le_bytes 4 ?off) @ heads (4 * Suc k + 4 * length xs + length (post @ g x)) ?ps @
        (post @ g x) @ concat (map g xs) @ drop (length (concat (map g xs))) (drop (length (g x)) rest))
      (length (pre @ le_bytes 4 ?off) + length (drop 4 old) + length (post @ g x) + length (concat (map g xs))) fr)"
    by (rule Cons.IH [of "done' @ [x]"]) (use Cons.prems in auto)
  have off: "4 * Suc k + 4 * length xs + length (post @ g x) = ?off + length (g x)" by simp
  have upt: "[k..<k + length (x # xs)] = k # [Suc k..<Suc k + length xs]"
    by (subst upt_conv_Cons) simp_all
  show ?case
    unfolding upt fold_opt.simps body Option.bind.simps bind.bind_lunit ih [unfolded off]
    using Cons.prems(4) by (simp add: algebra_simps)
qed


lemma skip_exec:
  assumes v: "pmember fr f = Some (VSeq xs)"
  shows "pexec C (if b then PForIndex True ''i'' (XMember f) [PSkip] else PSkipList (XMember f)) fr =
    Some (fr\<lparr>pf_pos := pf_pos fr + 4 * length xs\<rparr>)"
proof -
  let ?step = "\<lambda>k f. map_option (pleave f) (pexecs C [PSkip] (pbind_int ''i'' k f))"
  have "fold_opt ?step ks fr' = Some (fr'\<lparr>pf_pos := pf_pos fr' + 4 * length ks\<rparr>)" for ks fr'
    by (induction ks arbitrary: fr') (auto simp: pleave_def pbind_int_def)
  with v show ?thesis by (simp add: pframe_simps mult.commute)
qed

lemma poffset_list_exec:
  assumes v: "pmember fr f = Some (VSeq xs)"
    and step: "\<And>j f. j < length xs \<Longrightarrow> pmember f = pmember fr \<Longrightarrow> room (length (g (xs ! j))) f \<Longrightarrow>
      map_option (pleave f) (pexecs C body (pbind_int ''i'' j f)) = Some (put_at (g (xs ! j)) f)"
    and r: "room (length (ser_parts (map (\<lambda>x. (True, g x)) xs))) fr"
  shows "pexecs C (poffset_list S (XMember f) body) fr = Some (put_at (ser_parts (map (\<lambda>x. (True, g x)) xs)) fr)"
proof -
  let ?ps = "map (\<lambda>x. (True, g x)) xs" and ?n = "4 * length xs" and ?p = "pf_pos fr" and ?a = "pf_buf fr"
  let ?fr1 = "pbind_int ''listStart'' ?p fr" and ?cs = "concat (map g xs)"
  let ?fr2 = "at_buf ?a (?p + ?n) ?fr1"
  have room: "?p + ?n + length ?cs \<le> length ?a"
    using r by (simp add: room_def length_ser_parts heads_all_True tails_all_True)
  have v1: "pmember ?fr1 f = Some (VSeq xs)" using v by (simp add: pframe_simps)
  have skip: "pexec C (if ps_skip_loop S then PForIndex True ''i'' (XMember f) [PSkip] else PSkipList (XMember f)) ?fr1 =
      Some ?fr2"
    unfolding skip_exec [OF v1] by (simp add: at_buf_def pbind_int_def)
  have "fold_opt (\<lambda>j f. map_option (pleave f)
        (pexecs C (PPutLen (PElem ''listStart'' ''i'' 4) ''listStart'' # body) (pbind_int ''i'' j f)))
      [0..<0 + length xs]
      (at_buf (take ?p ?a @ take ?n (drop ?p ?a) @ [] @ drop (?p + ?n) ?a)
        (length (take ?p ?a) + length (take ?n (drop ?p ?a)) + length ([]::byte list)) ?fr1) =
    Some (at_buf (take ?p ?a @ heads (4 * 0 + 4 * length xs + length ([]::byte list)) ?ps @
        [] @ ?cs @ drop (length ?cs) (drop (?p + ?n) ?a))
      (length (take ?p ?a) + length (take ?n (drop ?p ?a)) + length ([]::byte list) + length ?cs) ?fr1)"
    by (rule offset_loop [where all = xs and done' = "[]" and base = ?p])
      (use room step in \<open>simp_all add: pframe_simps\<close>)
  moreover have "take ?p ?a @ take ?n (drop ?p ?a) @ [] @ drop (?p + ?n) ?a = ?a"
    by (metis append_Nil append_take_drop_id drop_drop add.commute)
  moreover have "length (take ?p ?a) = ?p" "length (take ?n (drop ?p ?a)) = ?n" using room by simp_all
  ultimately have loop: "fold_opt (\<lambda>j f. map_option (pleave f)
        (pexecs C (PPutLen (PElem ''listStart'' ''i'' 4) ''listStart'' # body) (pbind_int ''i'' j f)))
      [0..<length xs] ?fr2 =
    Some (at_buf (take ?p ?a @ heads ?n ?ps @ ?cs @ drop (length ?cs) (drop (?p + ?n) ?a)) (?p + ?n + length ?cs) ?fr1)"
    by simp
  have eq: "take ?p ?a @ heads ?n ?ps @ ?cs @ drop (length ?cs) (drop (?p + ?n) ?a) = overwrite ?p (ser_parts ?ps) ?a"
    "?p + ?n + length ?cs = ?p + length (ser_parts ?ps)"
    by (simp_all add: overwrite_def ser_parts_def heads_all_True tails_all_True algebra_simps)
  let ?fr3 = "at_buf (overwrite ?p (ser_parts ?ps) ?a) (?p + length (ser_parts ?ps)) ?fr1"
  have "pexec C (PForIndex True ''i'' (XMember f) (PPutLen (PElem ''listStart'' ''i'' 4) ''listStart'' # body)) ?fr2 =
      Some ?fr3"
    using loop [unfolded eq] v by (simp add: pframe_simps del: pexecs.simps)
  then have "pexecs C [PMark ''listStart'',
      if ps_skip_loop S then PForIndex True ''i'' (XMember f) [PSkip] else PSkipList (XMember f),
      PForIndex True ''i'' (XMember f) (PPutLen (PElem ''listStart'' ''i'' 4) ''listStart'' # body)] fr = Some ?fr3"
    using skip by (simp only: pexecs.simps pexec.simps(4) Option.bind.simps bind.bind_lunit)
  moreover have "pleave fr ?fr3 = put_at (ser_parts ?ps) fr"
    by (simp add: put_at_buf pframe_simps) (simp add: pleave_def at_buf_def pbind_int_def)
  ultimately show ?thesis
    by (simp only: poffset_list_def pexecs.simps pexec.simps(15) option.map Option.bind.simps bind.bind_lunit)
qed


section \<open>Fields\<close>

lemma pprim_exec:
  assumes "info_rep st i t" and "flat_elem t" and "\<not> is_byte_ty t"
    and "t = TBool \<or> (\<exists>k. t = TUint k)" and "val_ok t v" and "peval fr e = Some v"
    and "room (length (serialize t v)) fr"
  shows "pexecs C (pprim_stmts (ssz_type i) e) fr = Some (put_at (serialize t v) fr)"
  using assms
  by (auto simp: pprim_stmts_def is_byte_ty_def write_room split: if_splits)

lemma peval_elem:
  assumes "pmember fr f = Some (VSeq xs)" and "pf_ints fr ''i'' = Some k" and "k < length xs"
  shows "peval fr (XIndex (XMember f) ''i'') = Some (xs ! k)" "peval fr (pelem S (XMember f)) = Some (xs ! k)"
  using assms by (simp_all add: pelem_def seq_elem_def peval_member)

lemma pprim_loop:
  assumes e: "info_rep st e t" "flat_elem t" and prim: "\<not> is_byte_ty t" "t = TBool \<or> (\<exists>k. t = TUint k)"
    and v: "pmember fr f = Some (VSeq xs)" "\<forall>x \<in> set xs. val_ok t x"
    and r: "room (length (concat (map (serialize t) xs))) fr"
  shows "pexec C (PForValue ty ''v'' (XMember f) (pprim_stmts (ssz_type e) (XLocal ''v''))) fr =
      Some (put_at (concat (map (serialize t) xs)) fr)"
    and "pexec C (PForIndex is_list ''i'' (XMember f) (pprim_stmts (ssz_type e) (XIndex (XMember f) ''i''))) fr =
      Some (put_at (concat (map (serialize t) xs)) fr)"
proof -
  show "pexec C (PForValue ty ''v'' (XMember f) (pprim_stmts (ssz_type e) (XLocal ''v''))) fr =
      Some (put_at (concat (map (serialize t) xs)) fr)"
    by (rule pfor_value_exec [OF v(1) _ r]) (use v(2) pprim_exec [OF e prim] in auto)
  show "pexec C (PForIndex is_list ''i'' (XMember f) (pprim_stmts (ssz_type e) (XIndex (XMember f) ''i''))) fr =
      Some (put_at (concat (map (serialize t) xs)) fr)"
  proof (rule pfor_index_exec [OF v(1) _ r])
    fix k fr'
    assume k: "k < length xs" and fr': "pmember fr' = pmember fr" "pf_ints fr' ''i'' = Some k"
      and rk: "room (length (serialize t (xs ! k))) fr'"
    have "peval fr' (XIndex (XMember f) ''i'') = Some (xs ! k)"
      by (rule peval_elem) (use v(1) fr' k in auto)
    with pprim_exec [OF e prim _ _ rk] v(2) k
    show "pexecs C (pprim_stmts (ssz_type e) (XIndex (XMember f) ''i'')) fr' = Some (put_at (serialize t (xs ! k)) fr')"
      by simp
  qed
qed

lemma pcall_loop:
  assumes C: "pmarshals ret b st C" and e: "info_rep st e t" and t: "t = TContainer nm fs"
    and ok: "bits_ok t" "size_ok t" "advances b t"
    and v: "pmember fr f = Some (VSeq xs)" "\<forall>x \<in> set xs. val_ok t x"
    and adv: "\<And>x. x \<in> set xs \<Longrightarrow> adv_ok ret adv (length (serialize t x))"
  shows "room (length (concat (map (serialize t) xs))) fr \<Longrightarrow>
      pexec C (PForValue ty ''item'' (XMember f) [PCall sl adv (XLocal ''item'')]) fr =
      Some (put_at (concat (map (serialize t) xs)) fr)"
    and "room (length (concat (map (serialize t) xs))) fr \<Longrightarrow>
      pexec C (PForIndex is_list ''i'' (XMember f) [PCall sl adv (XIndex (XMember f) ''i'')]) fr =
      Some (put_at (concat (map (serialize t) xs)) fr)"
    and "room (length (ser_parts (map (\<lambda>x. (True, serialize t x)) xs))) fr \<Longrightarrow>
      pexecs C (poffset_list S (XMember f) [PCall sl adv (pelem S (XMember f))]) fr =
      Some (put_at (ser_parts (map (\<lambda>x. (True, serialize t x)) xs)) fr)"
proof -
  have call: "pexecs C [PCall sl adv ex] fr' = Some (put_at (serialize t w) fr')"
    if "w \<in> set xs" "peval fr' ex = Some w" "room (length (serialize t w)) fr'" for w fr' ex
    using pcall_exec(1) [OF C e [unfolded t], of w fr' ex adv sl] adv [OF that(1)] that ok v t
    by (simp del: pexec.simps serialize.simps)
  show "room (length (concat (map (serialize t) xs))) fr \<Longrightarrow>
      pexec C (PForValue ty ''item'' (XMember f) [PCall sl adv (XLocal ''item'')]) fr =
      Some (put_at (concat (map (serialize t) xs)) fr)"
    by (rule pfor_value_exec [OF v(1) call])
  have elem: "pexecs C [PCall sl adv ex] fr' = Some (put_at (serialize t (xs ! k)) fr')"
    if "ex \<in> {XIndex (XMember f) ''i'', pelem S (XMember f)}" "k < length xs" "pmember fr' = pmember fr"
      "pf_ints fr' ''i'' = Some k" "room (length (serialize t (xs ! k))) fr'" for ex k fr'
    by (rule call) (use that v(1) peval_elem [of fr' f xs k] in auto)
  show "room (length (concat (map (serialize t) xs))) fr \<Longrightarrow>
      pexec C (PForIndex is_list ''i'' (XMember f) [PCall sl adv (XIndex (XMember f) ''i'')]) fr =
      Some (put_at (concat (map (serialize t) xs)) fr)"
    by (rule pfor_index_exec [OF v(1)], rule elem) simp_all
  show "pexecs C (poffset_list S (XMember f) [PCall sl adv (pelem S (XMember f))]) fr =
      Some (put_at (ser_parts (map (\<lambda>x. (True, serialize t x)) xs)) fr)"
    if "room (length (ser_parts (map (\<lambda>x. (True, serialize t x)) xs))) fr"
  proof (rule poffset_list_exec [OF v(1) _ that])
    fix j f'
    assume "j < length xs" "pmember f' = pmember fr" "room (length (serialize t (xs ! j))) f'"
    then show "map_option (pleave f') (pexecs C [PCall sl adv (pelem S (XMember f))] (pbind_int ''i'' j f')) =
        Some (put_at (serialize t (xs ! j)) f')"
      using elem [of "pelem S (XMember f)" j "pbind_int ''i'' j f'"] by (simp add: pframe_simps del: pexecs.simps)
  qed
qed

lemma pbytes_list:
  assumes v: "pmember fr f = Some (VSeq xs)" "\<forall>x \<in> set xs. \<exists>bs. x = VBytes bs"
    and r: "room (length (ser_parts (map (\<lambda>x. (True, serialize (TList (TUint 1) l) x)) xs))) fr"
  shows "pexecs C (poffset_list S (XMember f) (pbytes_elem S (XMember f))) fr =
      Some (put_at (ser_parts (map (\<lambda>x. (True, serialize (TList (TUint 1) l) x)) xs)) fr)"
proof (rule poffset_list_exec [OF v(1) _ r])
  fix j f'
  assume j: "j < length xs" "pmember f' = pmember fr"
    and rj: "room (length (serialize (TList (TUint 1) l) (xs ! j))) f'"
  from v(2) j obtain bs where bs: "xs ! j = VBytes bs" by fastforce
  have "peval (pbind_int ''i'' j f') (pelem S (XMember f)) = Some (VBytes bs)"
    using peval_elem(2) [of "pbind_int ''i'' j f'" f xs j S] v(1) j bs by (simp add: pframe_simps)
  with rj bs show "map_option (pleave f') (pexecs C (pbytes_elem S (XMember f)) (pbind_int ''i'' j f')) =
      Some (put_at (serialize (TList (TUint 1) l) (xs ! j)) f')"
    by (simp add: pbytes_elem_def pframe_simps write_room)
qed


text \<open>
  What a style has to keep: advances fit their parts, except behind fields of variable size if \<open>b\<close>.
  \<open>ret\<close> says that an encoder returns the position.
\<close>

locale pos_style =
  fixes S :: pstyle and ret b :: bool
  assumes base_name: "ps_base S \<noteq> ''offsetPos'' @ x"
    and adv_vector: "elem_info i = Some e \<Longrightarrow> adv_ok ret (ps_adv_vector S i) (unat (fixed_size e))"
    and adv_list: "elem_info i = Some e \<Longrightarrow> adv_ok ret (ps_adv_list S i) (unat (fixed_size e))"
    and adv_elem: "adv_ok ret (ps_adv_elem S) n"
    and adv_fixed: "\<not> is_dynamic i \<Longrightarrow> adv_ok ret (ps_adv_field S i) (unat (fixed_size i))"
    and adv_field: "\<not> b \<Longrightarrow> adv_ok ret (ps_adv_field S i) n"
    and returns: "ret \<Longrightarrow> \<not> b"
begin

lemma pvector_exec:
  assumes C: "pmarshals ret b st C" and rep: "info_rep st i (TVector t n)" and flat: "flat_ty (TVector t n)"
    and ok: "bits_ok t" "size_ok t" "advances b t" and small: "n * fixed_len t < 2 ^ 32"
    and val: "val_ok (TVector t n) v" and v: "pmember fr f = Some v"
    and r: "room (length (serialize (TVector t n) v)) fr"
  shows "pexecs C (pvector_stmts S i (XMember f)) fr = Some (put_at (serialize (TVector t n) v) fr)"
proof -
  from rep obtain e where e: "elem_info i = Some e" "info_rep st e t" by auto
  from flat rep have fl: "flat_elem t" "\<not> is_variable t" by auto
  from e(2) fl(1) show ?thesis
  proof (cases rule: flat_elem_cases)
    case byte
    with val obtain bs where bs: "v = VBytes bs" "length bs = n" by auto
    have "fixed_size i = of_nat n" "n < 2 ^ 16" using rep byte(1) by (auto simp: is_byte_ty_def)
    then have "unat (fixed_size i) = n" by (simp add: unat_of_nat)
    with byte bs v e r show ?thesis
      by (simp add: pvector_stmts_def elem_rep_simps peval_member write_room)
  next
    case prim
    with val obtain xs where xs: "v = VSeq xs" "\<forall>x \<in> set xs. val_ok t x" by auto
    with r fl have "room (length (concat (map (serialize t) xs))) fr" by (simp add: comp_def)
    with pprim_loop(2) [OF e(2) fl(1) prim(1,2), of fr f xs C False] xs v prim(3) e fl show ?thesis
      by (simp add: pvector_stmts_def elem_rep_simps comp_def del: pexec.simps)
  next
    case (cont nm fs)
    with val obtain xs where xs: "v = VSeq xs" "length xs = n" "\<forall>x \<in> set xs. val_ok t x"
      by (auto simp: is_byte_ty_def)
    have adv: "adv_ok ret (ps_adv_vector S i) (length (serialize t x))" if "x \<in> set xs" for x
    proof -
      have "n \<noteq> 0" using that xs(2) by auto
      then have "fixed_len t < 2 ^ 32" using small by (cases n) auto
      then have "unat (fixed_size e) = length (serialize t x)"
        using unat_fixed_size [OF e(2) fl(2)] serialize_fixed_len [OF fl(2)] xs(3) that by simp
      with adv_vector [OF e(1)] show ?thesis by simp
    qed
    have "room (length (concat (map (serialize t) xs))) fr" using r xs(1) fl by (simp add: comp_def)
    with pcall_loop(2) [OF C e(2) cont(1) ok, of fr f xs "ps_adv_vector S i" False "ps_slice S"] xs v cont(2) e fl adv
    show ?thesis
      by (simp add: pvector_stmts_def elem_rep_simps comp_def del: pexec.simps serialize.simps(6) is_variable.simps(8))
  next
    case (bytes l)
    with fl show ?thesis by simp
  qed
qed

lemma plist_exec:
  assumes C: "pmarshals ret b st C" and e: "elem_info i = Some e" "info_rep st e t" and fl: "flat_elem t"
    and ok: "bits_ok t" "size_ok t" "advances b t" and small: "is_variable t \<or> fixed_len t < 2 ^ 32"
    and v: "pmember fr f = Some v"
    and val: "if is_byte_ty t then \<exists>bs. v = VBytes bs
      else \<exists>xs. v = VSeq xs \<and> (\<forall>x \<in> set xs. val_ok t x)"
    and r: "room (length (case v of VBytes bs \<Rightarrow> bs
      | VSeq xs \<Rightarrow> ser_parts (map (\<lambda>x. (is_variable t, serialize t x)) xs) | _ \<Rightarrow> [])) fr"
  shows "pexecs C (plist_stmts S i (XMember f)) fr =
    Some (put_at (case v of VBytes bs \<Rightarrow> bs
      | VSeq xs \<Rightarrow> ser_parts (map (\<lambda>x. (is_variable t, serialize t x)) xs) | _ \<Rightarrow> []) fr)"
  using e(2) fl
proof (cases rule: flat_elem_cases)
  case byte
  with val obtain bs where "v = VBytes bs" by auto
  with byte v e r show ?thesis by (simp add: plist_stmts_def elem_rep_simps peval_member write_room)
next
  case prim
  then have fixed: "\<not> is_variable t" by auto
  from prim val obtain xs where xs: "v = VSeq xs" "\<forall>x \<in> set xs. val_ok t x" by auto
  with r fixed have "room (length (concat (map (serialize t) xs))) fr" by (simp add: comp_def)
  with pprim_loop [OF e(2) fl prim(1,2), of fr f xs C] xs v prim(3) e fixed show ?thesis
    by (simp add: plist_stmts_def elem_rep_simps prim(1) comp_def del: pexec.simps serialize.simps)
next
  case (cont nm fs)
  with val obtain xs where xs: "v = VSeq xs" "\<forall>x \<in> set xs. val_ok t x"
    by (auto simp: is_byte_ty_def)
  show ?thesis
  proof (cases "is_variable t")
    case True
    with r xs(1) have "room (length (ser_parts (map (\<lambda>x. (True, serialize t x)) xs))) fr" by simp
    with pcall_loop(3) [OF C e(2) cont(1) ok, of fr f xs "ps_adv_elem S" S "ps_slice S"] xs v cont(2) e
      info_rep_dynamic [OF e(2)] adv_elem True
    show ?thesis by (simp add: plist_stmts_def elem_rep_simps del: pexec.simps)
  next
    case False
    have adv: "adv_ok ret (ps_adv_list S i) (length (serialize t x))" if "x \<in> set xs" for x
      using adv_list [OF e(1)] unat_fixed_size [OF e(2) False] serialize_fixed_len [OF False] xs(2) that small False
      by simp
    have "room (length (concat (map (serialize t) xs))) fr" using r xs(1) False by (simp add: comp_def)
    with pcall_loop(1) [OF C e(2) cont(1) ok, of fr f xs "ps_adv_list S i" "ps_elem_type S i" "ps_slice S"] xs v cont(2) e
      info_rep_dynamic [OF e(2)] adv False
    show ?thesis by (simp add: plist_stmts_def elem_rep_simps comp_def del: pexec.simps)
  qed
next
  case (bytes l)
  with val obtain xs where xs: "v = VSeq xs" "\<forall>x \<in> set xs. val_ok t x"
    by (auto simp: is_byte_ty_def)
  then have "\<forall>x \<in> set xs. \<exists>bs. x = VBytes bs" using bytes(1) by (auto simp: is_byte_ty_def)
  with pbytes_list [of fr f xs l C S] bytes e xs v r show ?thesis
    by (simp add: plist_stmts_def elem_rep_simps del: pexec.simps pexecs.simps)
qed

lemma pfield_exec:
  assumes C: "pmarshals ret b st C" and rep: "info_rep st i t" and flat: "flat_ty t"
    and ok: "bits_ok t" "size_ok t" "advances b t" and small: "is_variable t \<or> fixed_len t < 2 ^ 32"
    and val: "val_ok t v" and v: "pmember fr f = Some v" and r: "room (length (serialize t v)) fr"
  shows "\<not> b \<or> \<not> is_variable t \<or> (case t of TContainer nm gs \<Rightarrow> False | _ \<Rightarrow> True) \<Longrightarrow>
      pexecs C (pfield_stmts S i (XMember f)) fr = Some (put_at (serialize t v) fr)"
    and "\<exists>p. pexecs C (pfield_stmts S i (XMember f)) fr = Some ((put_at (serialize t v) fr)\<lparr>pf_pos := p\<rparr>)"
proof -
  have main: "pexecs C (pfield_stmts S i (XMember f)) fr = Some (put_at (serialize t v) fr)"
    if nc: "case t of TContainer nm gs \<Rightarrow> False | _ \<Rightarrow> True"
  proof (cases t)
    case (TVector t' n)
    with pvector_exec [OF C, of i t' n v fr f] assms show ?thesis by (simp add: pfield_stmts_def)
  next
    case (TList t' l)
    with rep obtain e where "elem_info i = Some e" "info_rep st e t'" by auto
    from plist_exec [OF C this, of fr f v] TList assms show ?thesis
      by (auto simp: pfield_stmts_def is_byte_ty_def split: if_splits)
  next
    case (TProgressiveList t')
    with rep obtain e where "elem_info i = Some e" "info_rep st e t'" by auto
    from plist_exec [OF C this, of fr f v] TProgressiveList assms show ?thesis
      by (auto simp: pfield_stmts_def is_byte_ty_def split: if_splits)
  next
    case (TBitvector n)
    with rep ok(1) have "unat (fixed_size i) = (n + 7) div 8" by (simp add: unat_of_nat)
    with TBitvector assms show ?thesis by (auto simp: pfield_stmts_def peval_member write_room)
  qed (use assms nc in \<open>auto simp: pfield_stmts_def peval_member write_room split: if_splits\<close>)
  have call: "pfield_stmts S i (XMember f) = [PCall (ps_slice S) (ps_adv_field S i) (XMember f)]"
    if "t = TContainer nm fs" for nm fs
    using rep that by (simp add: pfield_stmts_def)
  show "pexecs C (pfield_stmts S i (XMember f)) fr = Some (put_at (serialize t v) fr)"
    if h: "\<not> b \<or> \<not> is_variable t \<or> (case t of TContainer nm gs \<Rightarrow> False | _ \<Rightarrow> True)"
  proof (cases "case t of TContainer nm gs \<Rightarrow> False | _ \<Rightarrow> True")
    case True
    then show ?thesis by (rule main)
  next
    case False
    then obtain nm fs where t: "t = TContainer nm fs" by (cases t) auto
    have "adv_ok ret (ps_adv_field S i) (length (serialize t v))"
    proof (cases "is_variable t")
      case True
      with h False adv_field show ?thesis by blast
    next
      case False
      with small have "unat (fixed_size i) = length (serialize t v)"
        using unat_fixed_size [OF rep] serialize_fixed_len val by simp
      moreover have "\<not> is_dynamic i" using info_rep_dynamic [OF rep] False by simp
      ultimately show ?thesis using adv_fixed by metis
    qed
    with pcall_exec(1) [OF C rep [unfolded t], of v fr "XMember f" "ps_adv_field S i" "ps_slice S"] call [OF t] t ok val v r
    show ?thesis by (simp add: peval_member del: pexec.simps serialize.simps size_ok.simps)
  qed
  show "\<exists>p. pexecs C (pfield_stmts S i (XMember f)) fr = Some ((put_at (serialize t v) fr)\<lparr>pf_pos := p\<rparr>)"
  proof (cases "case t of TContainer nm gs \<Rightarrow> False | _ \<Rightarrow> True")
    case True
    from main [OF True] show ?thesis by (metis pframe.surjective pframe.update_convs(6))
  next
    case False
    then obtain nm fs where t: "t = TContainer nm fs" by (cases t) auto
    with pcall_exec(2) [OF C rep [unfolded t], of v fr "XMember f" "ps_slice S" "ps_adv_field S i"] call [OF t] t ok val v r
    show ?thesis by (auto simp: peval_member simp del: pexec.simps serialize.simps size_ok.simps)
  qed
qed

end

end
