(* ===== verification/Pos_Program.thy ===== *)
theory Pos_Program
  imports Pos_Exec
begin

text \<open>
  The encoders of containers and of whole schemas: they put the serialization of their receiver at
  the position they are given.  Behind the static section the places of the offsets still hold what
  the array held, which \<open>gaps\<close> describes.
  Both halves are here: one method, and the methods of a schema calling each other.
\<close>

section \<open>Gaps\<close>

fun gaps :: "(bool \<times> byte list) list \<Rightarrow> byte list \<Rightarrow> byte list" where
  "gaps [] old = []"
| "gaps ((v, b) # ps) old =
     (if v then take 4 old @ gaps ps (drop 4 old) else b @ gaps ps (drop (length b) old))"

lemma length_gaps [simp]: "heads_len ps \<le> length old \<Longrightarrow> length (gaps ps old) = heads_len ps"
  by (induction ps old rule: gaps.induct) auto

lemma gaps_take: "gaps ps old = gaps ps (take (heads_len ps) old)"
proof (induction ps old rule: gaps.induct)
  case (2 v b ps old)
  have "drop k (take (k + heads_len ps) old) = take (heads_len ps) (drop k old)" for k
    by (simp add: drop_take)
  with 2 show ?case by (cases v) simp_all
qed simp

lemma gaps_fixed: "\<forall>p \<in> set ps. \<not> fst p \<Longrightarrow> gaps ps old = heads off ps"
  by (induction ps old rule: gaps.induct) auto

lemma overwrite_behind_same:
  assumes "p + n \<le> length a"
  shows "overwrite (p + n) bs a = overwrite p (take n (drop p a) @ bs) a"
proof -
  have "overwrite p (take n (drop p a)) a = a"
    using assms by (simp add: overwrite_def) (metis append_take_drop_id drop_drop add.commute)
  with overwrite_overwrite [of p a "take n (drop p a)" bs] assms show ?thesis by simp
qed

section \<open>The variables of a method\<close>

definition poff_name :: "nat \<Rightarrow> string" where
  "poff_name k = ''offsetPos'' @ NumToString k"

lemma poff_name_eq [simp]: "poff_name j = poff_name k \<longleftrightarrow> j = k"
  by (simp add: poff_name_def)

fun poffset_env :: "nat \<Rightarrow> nat \<Rightarrow> (bool \<times> byte list) list \<Rightarrow> (string \<rightharpoonup> nat) \<Rightarrow> (string \<rightharpoonup> nat)" where
  "poffset_env idx pos [] env = env"
| "poffset_env idx pos ((v, b) # ps) env =
     (if v then poffset_env (idx + 1) (pos + 4) ps (env(poff_name idx \<mapsto> pos))
      else poffset_env idx (pos + length b) ps env)"

fun poffsets_at :: "(string \<rightharpoonup> nat) \<Rightarrow> nat \<Rightarrow> nat \<Rightarrow> (bool \<times> byte list) list \<Rightarrow> bool" where
  "poffsets_at env idx pos [] = True"
| "poffsets_at env idx pos ((v, b) # ps) =
     (if v then env (poff_name idx) = Some pos \<and> poffsets_at env (idx + 1) (pos + 4) ps
      else poffsets_at env idx (pos + length b) ps)"

lemma poffset_env_other:
  "(\<And>k. idx \<le> k \<Longrightarrow> x \<noteq> poff_name k) \<Longrightarrow> poffset_env idx pos ps env x = env x"
  by (induction idx pos ps env rule: poffset_env.induct) auto

lemma poffset_env_at: "poffsets_at (poffset_env idx pos ps env) idx pos ps"
proof (induction idx pos ps env rule: poffset_env.induct)
  case (2 idx pos v b ps env)
  have "poffset_env (idx + 1) (pos + 4) ps env' (poff_name idx) = env' (poff_name idx)" for env'
    by (rule poffset_env_other) simp
  with 2 show ?case by (simp add: fun_upd_def)
qed simp

definition pwith_ints :: "(string \<rightharpoonup> nat) \<Rightarrow> pframe \<Rightarrow> pframe" where
  "pwith_ints env fr = fr\<lparr>pf_ints := env\<rparr>"

lemma pwith_ints_frames [pframe_simps]:
  "pf_ints (pwith_ints env fr) = env" "pf_buf (pwith_ints env fr) = pf_buf fr" "pf_pos (pwith_ints env fr) = pf_pos fr"
  "pmember (pwith_ints env fr) = pmember fr" "pwith_ints env (pwith_ints env' fr) = pwith_ints env fr"
  "pwith_ints (pf_ints fr) fr = fr" "at_buf a p (pwith_ints env fr) = pwith_ints env (at_buf a p fr)"
  by (simp_all add: pwith_ints_def pmember_def [abs_def] at_buf_def)

lemma pbind_with_ints: "pbind_int x k fr = pwith_ints ((pf_ints fr)(x \<mapsto> k)) fr"
  by (simp add: pbind_int_def pwith_ints_def)

section \<open>The sections of a container\<close>

text \<open>The conditions on the fields: sizes fit in 32 bits and advances are right.\<close>

fun small_fields :: "(string \<times> ssz_ty) list \<Rightarrow> bool" where
  "small_fields [] = True"
| "small_fields ((n, t) # fs) = (size_ok t \<and> (is_variable t \<or> fixed_len t < 2 ^ 32) \<and> small_fields fs)"

lemma small_fields_size: "static_len fs < 2 ^ 32 \<Longrightarrow> fields_size_ok fs \<Longrightarrow> small_fields fs"
proof (induction fs)
  case (Cons f fs)
  then show ?case by (cases f) (auto simp: slot_len_def split: if_splits)
qed simp

context pos_style
begin

lemma pfixed_fields_exec:
  "fields_match D st mem ps fs vs \<Longrightarrow> dl_member D = ps_member S \<Longrightarrow> pmarshals ret b st C \<Longrightarrow> mem = pmember fr \<Longrightarrow>
    small_fields fs \<Longrightarrow> fields_advance b fs \<Longrightarrow> \<not> any_variable fs \<Longrightarrow>
    room (length (concat (map snd (serialize_fields fs vs)))) fr \<Longrightarrow>
    pexecs C (concat (map (ps_field_stmts S) ps)) fr =
    Some (put_at (concat (map snd (serialize_fields fs vs))) fr)"
proof (induction D st mem ps fs vs arbitrary: fr rule: fields_match.induct)
  case (2 D st mem p i ps n t fs v vs)
  have r: "room (length (serialize t v)) fr" using 2(9) by (rule room_less) simp
  have "pexecs C (ps_field_stmts S (p, i)) fr = Some (put_at (serialize t v) fr)"
    using pfield_exec(1) [of st C i t v fr "ps_member S p"] 2(2-8) r by (simp add: fun_eq_iff)
  moreover have "pexecs C (concat (map (ps_field_stmts S) ps)) (put_at (serialize t v) fr) =
      Some (put_at (concat (map snd (serialize_fields fs vs))) (put_at (serialize t v) fr))"
    by (rule "2.IH") (use 2(2-9) in \<open>auto simp: pframe_simps intro: room_put\<close>)
  ultimately show ?case using r by simp
qed auto

text \<open>The static section: the fixed fields, and the variables with the places of the offsets.\<close>

lemma pstatic_exec:
  "fields_match D st mem ps fs vs \<Longrightarrow> dl_member D = ps_member S \<Longrightarrow> pmarshals ret b st C \<Longrightarrow> mem = pmember fr \<Longrightarrow>
    small_fields fs \<Longrightarrow> fields_advance b fs \<Longrightarrow> room (heads_len (serialize_fields fs vs)) fr \<Longrightarrow>
    pexecs C (pstatic_stmts S idx ps) fr =
    Some (at_buf
      (overwrite (pf_pos fr) (gaps (serialize_fields fs vs) (drop (pf_pos fr) (pf_buf fr))) (pf_buf fr))
      (pf_pos fr + heads_len (serialize_fields fs vs))
      (pwith_ints (poffset_env idx (pf_pos fr) (serialize_fields fs vs) (pf_ints fr)) fr))"
proof (induction D st mem ps fs vs arbitrary: fr idx rule: fields_match.induct)
  case (1 D st mem)
  then show ?case by (simp add: pframe_simps)
next
  case (2 D st mem p i ps n t fs v vs)
  let ?parts = "serialize_fields fs vs" and ?p = "pf_pos fr" and ?a = "pf_buf fr"
  from 2(2) have dyn: "is_dynamic i = is_variable t" by (auto simp: info_rep_dynamic)
  show ?case
  proof (cases "is_variable t")
    case True
    let ?fr1 = "at_buf ?a (?p + 4) (pwith_ints ((pf_ints fr)(poff_name idx \<mapsto> ?p)) fr)"
    have r: "?p + (4 + heads_len ?parts) \<le> length ?a" using 2(8) True by (simp add: room_def)
    have ih: "pexecs C (pstatic_stmts S (idx + 1) ps) ?fr1 =
      Some (at_buf
        (overwrite (?p + 4) (gaps ?parts (drop (?p + 4) ?a)) ?a) (?p + 4 + heads_len ?parts)
        (pwith_ints (poffset_env (idx + 1) (?p + 4) ?parts ((pf_ints fr)(poff_name idx \<mapsto> ?p))) fr))"
      using "2.IH" [of ?fr1 "idx + 1"] 2(2-8) r True by (simp add: pframe_simps room_def fun_upd_def)
    have eq: "overwrite (?p + 4) (gaps ?parts (drop (?p + 4) ?a)) ?a =
        overwrite ?p (take 4 (drop ?p ?a) @ gaps ?parts (drop 4 (drop ?p ?a))) ?a"
      using overwrite_behind_same [of ?p 4 ?a] r by (simp add: add.commute)
    have "pexecs C [PMark (''offsetPos'' @ NumToString idx), PSkip] fr = Some ?fr1"
      by (simp add: poff_name_def pbind_int_def at_buf_def pwith_ints_def)
    with ih eq show ?thesis using True dyn by (simp add: add.assoc)
  next
    case False
    let ?bs = "serialize t v"
    let ?fr1 = "put_at ?bs fr"
    have r: "?p + (length ?bs + heads_len ?parts) \<le> length ?a" using 2(8) False by (simp add: room_def)
    then have rt: "room (length ?bs) fr" by (simp add: room_def)
    have f: "pexecs C (ps_field_stmts S (p, i)) fr = Some ?fr1"
      using pfield_exec(1) [of st C i t v fr "ps_member S p"] 2(2-7) rt False by (simp add: fun_eq_iff)
    have a1: "drop (?p + length ?bs) (overwrite ?p ?bs ?a) = drop (?p + length ?bs) ?a"
      "pf_pos ?fr1 = ?p + length ?bs" "pf_buf ?fr1 = overwrite ?p ?bs ?a"
      using r by (simp_all add: overwrite_def put_at_def)
    have ih: "pexecs C (pstatic_stmts S idx ps) ?fr1 =
      Some (at_buf
        (overwrite (?p + length ?bs) (gaps ?parts (drop (?p + length ?bs) ?a)) (overwrite ?p ?bs ?a))
        (?p + length ?bs + heads_len ?parts)
        (pwith_ints (poffset_env idx (?p + length ?bs) ?parts (pf_ints fr)) ?fr1))"
      using "2.IH" [of ?fr1 idx] 2(2-8) r False a1 by (simp add: pframe_simps room_def)
    have "overwrite (?p + length ?bs) (gaps ?parts (drop (?p + length ?bs) ?a)) (overwrite ?p ?bs ?a) =
        overwrite ?p (?bs @ gaps ?parts (drop (length ?bs) (drop ?p ?a))) ?a"
      using r by (subst overwrite_overwrite) (simp_all add: add.commute)
    with f ih show ?thesis using False dyn
      by (simp add: at_buf_def pwith_ints_def put_at_def add.assoc)
  qed
qed auto

text \<open>Where no field is left that has a variable size, the dynamic section does nothing.\<close>

lemma pdynamic_none:
  "fields_match D st mem ps fs vs \<Longrightarrow> \<not> any_variable fs \<Longrightarrow> pexecs C (pdynamic_stmts S idx ps) fr = Some fr"
  by (induction D st mem ps fs vs rule: fields_match.induct) (auto simp: info_rep_dynamic)

lemma fields_no_variable: "\<not> any_variable fs \<Longrightarrow> \<forall>p \<in> set (serialize_fields fs vs). \<not> fst p"
  using parts_variable by blast

text \<open>
  The dynamic section: with the static bytes before a field in \<open>pre\<close>, the gaps from there on, and the
  payloads so far in \<open>post\<close>.
\<close>

lemma pdynamic_exec:
  "fields_match D st mem ps fs vs \<Longrightarrow> dl_member D = ps_member S \<Longrightarrow> pmarshals ret b st C \<Longrightarrow> mem = pmember fr \<Longrightarrow>
    small_fields fs \<Longrightarrow> fields_advance b fs \<Longrightarrow> pf_ints fr (ps_base S) = Some base \<Longrightarrow>
    poffsets_at (pf_ints fr) idx (length pre) (serialize_fields fs vs) \<Longrightarrow>
    pf_buf fr = pre @ gaps (serialize_fields fs vs) old @ post @ rest \<Longrightarrow>
    length old = heads_len (serialize_fields fs vs) \<Longrightarrow> pf_pos fr = length pre + length old + length post \<Longrightarrow>
    base \<le> length pre \<Longrightarrow> length (tails (serialize_fields fs vs)) \<le> length rest \<Longrightarrow>
    \<exists>p. pexecs C (pdynamic_stmts S idx ps) fr =
      Some (at_buf (pre @ heads (pf_pos fr - base) (serialize_fields fs vs) @ post @
        tails (serialize_fields fs vs) @ drop (length (tails (serialize_fields fs vs))) rest) p fr) \<and>
      (\<not> b \<longrightarrow> p = pf_pos fr + length (tails (serialize_fields fs vs)))"
proof (induction D st mem ps fs vs arbitrary: fr idx pre old post rest rule: fields_match.induct)
  case (1 D st mem)
  then show ?case by (intro exI [of _ "pf_pos fr"]) (simp add: at_buf_def)
next
  case (2 D st mem p i ps n t fs v vs)
  let ?parts = "serialize_fields fs vs" and ?bs = "serialize t v" and ?off = "pf_pos fr - base"
  from 2(2) have dyn: "is_dynamic i = is_variable t" by (auto simp: info_rep_dynamic)
  show ?case
  proof (cases "is_variable t")
    case True
    let ?fr1 = "at_buf (pre @ le_bytes 4 ?off @ gaps ?parts (drop 4 old) @ post @ rest) (pf_pos fr) fr"
    let ?buf2 = "(pre @ le_bytes 4 ?off) @ gaps ?parts (drop 4 old) @ (post @ ?bs) @ drop (length ?bs) rest"
    have old: "length (take 4 old) = 4" "length (drop 4 old) = heads_len ?parts" using 2(11) True by simp_all
    have "pexec C (PPutLen (PAt (poff_name idx)) (ps_base S)) fr = Some ?fr1"
      by (rule pput_len_exec [where old = "take 4 old"]) (use 2(8-11) True old in simp_all)
    then have put: "pexec C (PPutLen (PAt (''offsetPos'' @ NumToString idx)) (ps_base S)) fr = Some ?fr1"
      by (simp only: poff_name_def)
    have r: "room (length ?bs) ?fr1" using 2(11-14) True old by (simp add: pframe_simps)
    have at2: "put_at ?bs ?fr1 = at_buf ?buf2 (pf_pos fr + length ?bs) fr"
    proof -
      have "overwrite (pf_pos fr) ?bs ((pre @ le_bytes 4 ?off @ gaps ?parts (drop 4 old) @ post) @ rest) =
          (pre @ le_bytes 4 ?off @ gaps ?parts (drop 4 old) @ post) @ ?bs @ drop (length ?bs) rest"
        by (rule overwrite_behind) (use 2(11,12) True old in simp)
      then show ?thesis by (simp add: put_at_buf pframe_simps)
    qed
    have field: "info_rep st i t" "flat_ty t" "bits_ok t" "size_ok t" "advances b t" "is_variable t \<or> fixed_len t < 2 ^ 32"
      "val_ok t v" "pmember ?fr1 (ps_member S p) = Some v"
      using 2(2-7) True by (auto simp: pframe_simps fun_eq_iff)
    show ?thesis
    proof (cases "b \<and> (case t of TContainer nm gs \<Rightarrow> True | _ \<Rightarrow> False)")
      case last: True
      then have none: "\<not> any_variable fs" using 2(7) True by simp
      note fixed = fields_no_variable [OF none, of vs]
      obtain q where "pexecs C (ps_field_stmts S (p, i)) ?fr1 = Some ((put_at ?bs ?fr1)\<lparr>pf_pos := q\<rparr>)"
        using pfield_exec(2) [OF 2(4) field r] by auto
      moreover have "pexecs C (pdynamic_stmts S (idx + 1) ps) fr' = Some fr'" for fr'
        by (rule pdynamic_none) (use 2(2) none in auto)
      moreover have "gaps ?parts (drop 4 old) = heads (?off + length ?bs) ?parts" by (rule gaps_fixed [OF fixed])
      moreover have "tails ?parts = []" by (rule tails_fixed [OF none])
      ultimately show ?thesis
        using put at2 True dyn last by (intro exI [of _ q]) (simp add: at_buf_def)
    next
      case False
      then have "\<not> b \<or> \<not> is_variable t \<or> (case t of TContainer nm gs \<Rightarrow> False | _ \<Rightarrow> True)" by (cases t) auto
      from pfield_exec(1) [OF 2(4) field r this] at2
      have f: "pexecs C (ps_field_stmts S (p, i)) ?fr1 = Some (at_buf ?buf2 (pf_pos fr + length ?bs) fr)" by simp
      let ?fr2 = "at_buf ?buf2 (pf_pos fr + length ?bs) fr"
      have "\<exists>q. pexecs C (pdynamic_stmts S (idx + 1) ps) ?fr2 =
        Some (at_buf ((pre @ le_bytes 4 ?off) @ heads (pf_pos ?fr2 - base) ?parts @ (post @ ?bs) @
          tails ?parts @ drop (length (tails ?parts)) (drop (length ?bs) rest)) q ?fr2) \<and>
        (\<not> b \<longrightarrow> q = pf_pos ?fr2 + length (tails ?parts))"
        by (rule "2.IH") (use 2(2-14) True old in \<open>auto simp: pframe_simps\<close>)
      then obtain q where q: "pexecs C (pdynamic_stmts S (idx + 1) ps) ?fr2 =
        Some (at_buf ((pre @ le_bytes 4 ?off) @ heads (pf_pos ?fr2 - base) ?parts @ (post @ ?bs) @
          tails ?parts @ drop (length (tails ?parts)) (drop (length ?bs) rest)) q ?fr2)"
        "\<not> b \<longrightarrow> q = pf_pos ?fr2 + length (tails ?parts)"
        by blast
      have off: "pf_pos ?fr2 - base = ?off + length ?bs" using 2(12,13) by (simp add: pframe_simps)
      have "pexecs C (ps_field_stmts S (p, i) @ pdynamic_stmts S (idx + 1) ps) ?fr1 =
        Some (at_buf ((pre @ le_bytes 4 ?off) @ heads (?off + length ?bs) ?parts @ (post @ ?bs) @
          tails ?parts @ drop (length (tails ?parts)) (drop (length ?bs) rest)) q ?fr2)"
        unfolding pexecs_append f Option.bind.simps bind.bind_lunit q(1) off ..
      with put q(2) True dyn show ?thesis
        by (intro exI [of _ q]) (simp add: pframe_simps add.commute del: pexec.simps(12) pexecs_append)
    qed
  next
    case False
    have "\<exists>q. pexecs C (pdynamic_stmts S idx ps) fr =
        Some (at_buf ((pre @ ?bs) @ heads ?off ?parts @ post @ tails ?parts @ drop (length (tails ?parts)) rest) q fr) \<and>
        (\<not> b \<longrightarrow> q = pf_pos fr + length (tails ?parts))"
      by (rule "2.IH" [where old = "drop (length ?bs) old"]) (use 2(2-14) False in auto)
    with False dyn show ?thesis by auto
  qed
qed auto

end


text \<open>
  The encoders of a whole schema in a style: they put the serialization of their receiver into the
  array, and the wrapper that allocates the array returns the serialization.
\<close>

definition emit_pprogram ::
  "(nat \<Rightarrow> Parser \<Rightarrow> StructPtr \<Rightarrow> SszContainerInfo res) \<Rightarrow> pstyle \<Rightarrow> nat \<Rightarrow> Parser \<Rightarrow> pprogram" where
  "emit_pprogram an S depth P nm = map_option (emit_pdecl S) (container_named an depth P nm)"

context go_copy
begin

lemma emit_pprogram_eq: "emit_pprogram analyze = emit_pprogram go_AnalyzeContainer"
  by (simp add: emit_pprogram_def container_named_eq fun_eq_iff)

end

lemma pframe_match:
  assumes rep: "container_rep P st c fs" and flat: "\<forall>f \<in> set fs. flat_ty (snd f)"
    and bits: "fields_bits_ok fs" and ok: "vals_ok fs vs"
    and D: "dl_member D = ps_member S" and dist: "distinct (map (dl_member D) (all_fields c))"
  shows "fields_match D st (pmember (new_pframe (emit_pdecl S c) vs a p)) (infos_of c (all_fields c)) fs vs"
proof -
  from rep have l2: "list_all2 (field_rep P st c) (all_fields c) fs"
    by (simp add: container_rep_def)
  have "length vs = length (all_fields c)"
    using vals_ok_length [OF ok] list_all2_lengthD [OF l2] by simp
  from members_at [OF dist this]
  have mem: "list_all2 (\<lambda>f v. pmember (new_pframe (emit_pdecl S c) vs a p) (dl_member D f) = Some v) (all_fields c) vs"
    by (simp add: pmember_def new_pframe_def emit_pdecl_def D)
  show ?thesis by (rule match_fields [OF l2 flat bits ok mem])
qed

context pos_style
begin

lemma pmarshal_body_exec:
  fixes c vs a p
  defines "fr \<equiv> new_pframe (emit_pdecl S c) vs a p"
  assumes C: "pmarshals ret b st C" and m: "fields_match D st (pmember fr) (infos_of c (all_fields c)) fs vs"
    and D: "dl_member D = ps_member S" and small: "small_fields fs" and adv: "fields_advance b fs"
    and dyn: "dynamic_fields c = [] \<longleftrightarrow> \<not> any_variable fs"
    and room: "p + length (ser_parts (serialize_fields fs vs)) \<le> length a"
  shows "\<exists>q. map_option (\<lambda>fr. (pf_buf fr, pf_pos fr)) (pexecs C (pmarshal_body S c) fr) =
      Some (overwrite p (ser_parts (serialize_fields fs vs)) a, q) \<and>
    (ret \<longrightarrow> q = p + length (ser_parts (serialize_fields fs vs)))"
proof -
  let ?ps = "infos_of c (all_fields c)" and ?parts = "serialize_fields fs vs"
  let ?fr1 = "pbind_int (ps_base S) p fr"
  have fr: "pf_buf fr = a" "pf_pos fr = p" by (simp_all add: fr_def new_pframe_def)
  have mem: "pmember fr = pmember ?fr1" by (simp add: pframe_simps)
  show ?thesis
  proof (cases "any_variable fs")
    case False
    have ser: "ser_parts ?parts = concat (map snd ?parts)"
      by (rule ser_parts_fixed [OF fields_no_variable [OF False]])
    have body: "pexecs C (concat (map (ps_field_stmts S) ?ps)) fr' = Some (put_at (ser_parts ?parts) fr')"
      if "pmember fr' = pmember fr" "pf_buf fr' = a" "pf_pos fr' = p" for fr'
      unfolding ser by (rule pfixed_fields_exec [OF m D C _ small adv False])
        (use that room ser in \<open>simp_all add: room_def\<close>)
    show ?thesis
      using body [of fr] body [of ?fr1] False dyn fr mem
      by (simp add: pmarshal_body_def put_at_def pbind_int_def pframe_simps)
  next
    case True
    let ?old = "take (heads_len ?parts) (drop p a)" and ?rest = "drop (p + heads_len ?parts) a"
    let ?env = "poffset_env 0 p ?parts (pf_ints ?fr1)"
    let ?fr2 = "at_buf (overwrite p (gaps ?parts (drop p a)) a) (p + heads_len ?parts) (pwith_ints ?env ?fr1)"
    have len: "p + heads_len ?parts + length (tails ?parts) \<le> length a"
      using room by (simp add: length_ser_parts)
    have static: "pexecs C (pstatic_stmts S 0 ?ps) ?fr1 = Some ?fr2"
      using pstatic_exec [OF m D C mem small adv, of 0] len fr by (simp add: pframe_simps room_def)
    have g: "gaps ?parts (drop p a) = gaps ?parts ?old"
      by (rule gaps_take)
    have "pf_buf ?fr2 = take p a @ gaps ?parts ?old @ [] @ ?rest"
      using len g by (simp add: pframe_simps overwrite_def)
    moreover have "pf_ints ?fr2 (ps_base S) = Some p"
      by (simp add: pframe_simps) (subst poffset_env_other, use base_name in \<open>simp_all add: poff_name_def\<close>)
    ultimately have "\<exists>q. pexecs C (pdynamic_stmts S 0 ?ps) ?fr2 =
        Some (at_buf (take p a @ heads (pf_pos ?fr2 - p) ?parts @ [] @ tails ?parts @
          drop (length (tails ?parts)) ?rest) q ?fr2) \<and>
        (\<not> b \<longrightarrow> q = pf_pos ?fr2 + length (tails ?parts))"
      using len by (intro pdynamic_exec [OF m D C _ small adv, where old = ?old and pre = "take p a" and post = "[]" and rest = ?rest])
        (simp_all add: pframe_simps poffset_env_at)
    then obtain q where q: "pexecs C (pdynamic_stmts S 0 ?ps) ?fr2 =
        Some (at_buf (take p a @ heads (heads_len ?parts) ?parts @ tails ?parts @
          drop (length (tails ?parts)) ?rest) q ?fr2)"
        "\<not> b \<longrightarrow> q = p + heads_len ?parts + length (tails ?parts)"
      by (auto simp: pframe_simps)
    have buf: "take p a @ heads (heads_len ?parts) ?parts @ tails ?parts @ drop (length (tails ?parts)) ?rest =
        overwrite p (ser_parts ?parts) a"
      by (simp add: overwrite_def ser_parts_def add.commute add.left_commute)
    have "pexecs C (pmarshal_body S c) fr = Some (at_buf (overwrite p (ser_parts ?parts) a) q ?fr2)"
      using static q(1) buf True dyn fr by (simp add: pmarshal_body_def)
    with q(2) returns show ?thesis by (simp add: pframe_simps length_ser_parts)
  qed
qed

lemma pmarshal_program:
  assumes wf: "wf_schema P" and small: "small_ids P" and names: "names_ok D P" and D: "dl_member D = ps_member S"
  shows "n \<le> depth \<Longrightarrow> struct_ty n P s = Some (TContainer nm fs) \<Longrightarrow> fields_bits_ok fs \<Longrightarrow>
    size_ok (TContainer nm fs) \<Longrightarrow> fields_advance b fs \<Longrightarrow> vals_ok fs vs \<Longrightarrow>
    p + length (serialize (TContainer nm fs) (VStruct nm vs)) \<le> length a \<Longrightarrow>
    \<exists>q. PosMarshal (emit_pprogram go_AnalyzeContainer S depth P) (emit_program go_AnalyzeContainer D depth P)
        n nm vs a p = Some (overwrite p (serialize (TContainer nm fs) (VStruct nm vs)) a, q) \<and>
      (ret \<longrightarrow> q = p + length (serialize (TContainer nm fs) (VStruct nm vs)))"
proof (induction n arbitrary: s nm fs vs a p)
  case 0
  then show ?case by simp
next
  case (Suc m)
  let ?prog = "emit_pprogram go_AnalyzeContainer S depth P" and ?sizes = "emit_program go_AnalyzeContainer D depth P"
  let ?C = "\<lparr>pc_marshal = PosMarshal ?prog ?sizes m, pc_size = SizeSSZ ?sizes m\<rparr>"
  have s: "s < length (struct_store P)" using Suc.prems(2) by (rule struct_ty_in_range)
  have dn: "distinct (map sd_name (struct_store P))" using names by (simp add: names_ok_def)
  from go_struct_decl [OF wf small dn Suc.prems(1) s Suc.prems(2,3)] obtain c where
    c: "container_named go_AnalyzeContainer depth P nm = Some c"
    and rep: "container_rep P (struct_ty m P) c fs" and live: "all_fields c = live_fields P s"
    and ty: "fields_ty P (struct_ty m P) (sd_fields (struct_at P s)) = Some fs" by (metis nat.inject)
  have flat: "\<forall>f \<in> set fs. flat_ty (snd f)" using fields_flat [OF containers_struct_ty ty] by blast
  have dist: "distinct (map (dl_member D) (all_fields c))"
    using names s live by (simp add: names_ok_def list_all_iff)
  have C: "pmarshals ret b (struct_ty m P) ?C"
    unfolding pmarshals_def
    using Suc.IH size_program [OF wf small names] Suc.prems(1) by (simp del: serialize.simps size_ok.simps)
  have m: "fields_match D (struct_ty m P) (pmember (new_pframe (emit_pdecl S c) vs a p))
      (infos_of c (all_fields c)) fs vs"
    by (rule pframe_match [OF rep flat Suc.prems(3,6) D dist])
  have sf: "small_fields fs" using Suc.prems(4) by (simp add: small_fields_size)
  have "p + length (ser_parts (serialize_fields fs vs)) \<le> length a" using Suc.prems(7) by simp
  from pmarshal_body_exec [OF C m D sf Suc.prems(5) dynamic_fields_empty [OF rep] this]
  have "\<exists>q. map_option (\<lambda>fr. (pf_buf fr, pf_pos fr))
      (pexecs ?C (pd_marshal (emit_pdecl S c)) (new_pframe (emit_pdecl S c) vs a p)) =
        Some (overwrite p (serialize (TContainer nm fs) (VStruct nm vs)) a, q) \<and>
      (ret \<longrightarrow> q = p + length (serialize (TContainer nm fs) (VStruct nm vs)))"
    by (simp add: emit_pdecl_def)
  moreover have "?prog nm = Some (emit_pdecl S c)" using c by (simp add: emit_pprogram_def)
  ultimately show ?case by simp
qed

lemma to_ssz_bytes_program:
  assumes wf: "wf_schema P" and small: "small_ids P" and names: "names_ok D P" and D: "dl_member D = ps_member S"
    and ty: "struct_ty depth P s = Some t" and ok: "bits_ok t" "size_ok t" "advances b t" "val_ok t (VStruct nm vs)"
    and lim: "length (serialize t (VStruct nm vs)) \<le> lim"
  shows "to_ssz_bytes lim (emit_pprogram go_AnalyzeContainer S depth P) (emit_program go_AnalyzeContainer D depth P)
      depth nm vs = Some (serialize t (VStruct nm vs))"
proof -
  from struct_value [OF ty ok(4)] obtain fs where t: "t = TContainer nm fs" "vals_ok fs vs" .
  let ?bs = "serialize t (VStruct nm vs)"
  have "overwrite 0 ?bs (replicate (length ?bs) 0) = ?bs" by (simp add: overwrite_def)
  with size_program [OF wf small names order_refl, where s = s and nm = nm and fs = fs and vs = vs]
    pmarshal_program [OF wf small names D order_refl, where s = s and nm = nm and fs = fs and vs = vs and p = 0 and a = "replicate (length ?bs) 0"] ty ok t lim
  show ?thesis by (auto simp: to_ssz_bytes_def simp del: serialize.simps size_ok.simps val_ok.simps)
qed

end

text \<open>The number of bytes of the smallest unsigned integers but one.\<close>

lemma digit_2: "NumToString 2 = ''2''"
  by code_simp

end
