(* ===== verification/Ts_Program.thy ===== *)
theory Ts_Program
  imports Ts_Generator Pos_Program Go_Hash_Root
begin

text \<open>
  The dialect and the styles of the TypeScript back end, the TypeScript text of the statements of
  \<open>Pos_Lang\<close>, \<open>Emit_Program\<close> and \<open>Emit_Hash\<close>, and the proofs that the emitted text is theirs.
\<close>

section \<open>The dialect and the styles\<close>

definition ts_dialect :: "Parser \<Rightarrow> dialect" where
  "ts_dialect P =
     \<lparr>dl_member = ts_member P, dl_label = (\<lambda>p. fd_name (field_at P p)),
      dl_index_loops = False, dl_size_progressive = False, dl_size_bytes = False\<rparr>"

lemma ts_dialect_simps [simp]:
  "dl_member (ts_dialect P) p = ts_member P p" "dl_label (ts_dialect P) p = fd_name (field_at P p)"
  "\<not> dl_index_loops (ts_dialect P)" "\<not> dl_size_progressive (ts_dialect P)" "\<not> dl_size_bytes (ts_dialect P)"
  by (simp_all add: ts_dialect_def)

text \<open>Nested encoders write to the same array and return the position behind what they wrote.\<close>

definition ts_pstyle :: "Parser \<Rightarrow> pstyle" where
  "ts_pstyle P =
     \<lparr>ps_member = ts_member P, ps_label = (\<lambda>p. fd_name (field_at P p)), ps_base = ''startOffset'',
      ps_enter = False, ps_get = False, ps_value_loops = True, ps_skip_loop = True, ps_slice = False,
      ps_adv_vector = (\<lambda>i. AReturned), ps_adv_list = (\<lambda>i. AReturned), ps_adv_elem = AReturned,
      ps_adv_field = (\<lambda>i. AReturned), ps_adv_progressive = AReturned, ps_elem_type = (\<lambda>i. '''')\<rparr>"

lemma ts_pstyle_simps [simp]:
  "ps_member (ts_pstyle P) p = ts_member P p" "ps_label (ts_pstyle P) p = fd_name (field_at P p)"
  "ps_base (ts_pstyle P) = ''startOffset''" "\<not> ps_enter (ts_pstyle P)" "\<not> ps_get (ts_pstyle P)"
  "ps_value_loops (ts_pstyle P)" "ps_skip_loop (ts_pstyle P)" "\<not> ps_slice (ts_pstyle P)"
  "ps_adv_vector (ts_pstyle P) i = AReturned" "ps_adv_list (ts_pstyle P) i = AReturned"
  "ps_adv_elem (ts_pstyle P) = AReturned" "ps_adv_field (ts_pstyle P) i = AReturned"
  "ps_adv_progressive (ts_pstyle P) = AReturned"
  by (simp_all add: ts_pstyle_def)

lemma ts_members: "dl_member (ts_dialect P) = ps_member (ts_pstyle P)"
  by (simp add: fun_eq_iff)

interpretation ts_pos: pos_style "ts_pstyle P" True False for P
  by unfold_locales simp_all

text \<open>Hashing walks over vectors by value; otherwise it is in the style of the Go back end.\<close>

definition ts_style :: hash_style where
  "ts_style = \<lparr>hs_index_loops = False, hs_gap = HPutZero, hs_limit = list_limit\<rparr>"

lemma ts_style_simps [simp]:
  "\<not> hs_index_loops ts_style" "hs_gap ts_style = HPutZero" "hs_limit ts_style = list_limit"
  by (simp_all add: ts_style_def)

sublocale hash_walker \<subseteq> by_value: hash_emitter W content H PR ts_style "\<lambda>t l. True"
proof unfold_locales
  show "keeps content fr (hexec W C (hs_gap ts_style) (fr, s)) (content s @ zero_chunk)" for fr C s
    using go.gap [of fr C s] by simp
qed (simp add: list_limit_chunks)

context hash_walker
begin

lemmas by_value_hash_program = by_value.hash_program

end

section \<open>TypeScript text of the encoder\<close>

text \<open>Reading by \<open>get\<close>, \<open>PEnter\<close>, \<open>PSkipList\<close> and \<open>PLet\<close> do not occur in this style.\<close>

fun ty_expr :: "pexpr \<Rightarrow> string" where
  "ty_expr (XMember f) = ''this.'' @ f"
| "ty_expr (XLocal x) = x"
| "ty_expr (XIndex e i) = ty_expr e @ ''['' @ i @ '']''"
| "ty_expr (XGet e i) = []"

fun ty_pos :: "gpos \<Rightarrow> string" where
  "ty_pos (PAt x) = x"
| "ty_pos (PElem x i k) = x @ '' + '' @ i @ '' * '' @ NumToString k"

fun ty_copy :: "pcopy \<Rightarrow> string \<Rightarrow> string \<Rightarrow> string" where
  "ty_copy (CBasic n) var ind =
     line ind (''buf.set('' @ var @ ''.subarray(0, '' @ NumToString n @ ''), offset); offset += '' @
       NumToString n @ '';'')"
| "ty_copy (CArray n) var ind = line ind (''buf.set('' @ var @ '', offset); offset += '' @ NumToString n @ '';'')"
| "ty_copy CAll var ind = line ind (''buf.set('' @ var @ '', offset); offset += '' @ var @ ''.length;'')"
| "ty_copy CItem var ind =
     line ind (''buf.set('' @ var @ '', offset);'') @ line ind (''offset += '' @ var @ ''.length;'')"

fun ty_stmt :: "string \<Rightarrow> pstmt \<Rightarrow> string"
  and ty_stmts :: "string \<Rightarrow> pstmt list \<Rightarrow> string" where
  "ty_stmt ind (PNote s) = line ind (''// '' @ s)"
| "ty_stmt ind PBlank = nl"
| "ty_stmt ind (PEnter x) = []"
| "ty_stmt ind (PMark x) = line ind (''const '' @ x @ '' = offset;'')"
| "ty_stmt ind PSkip = line ind ''offset += 4;''"
| "ty_stmt ind (PSkipList e) = []"
| "ty_stmt ind (PBool e) = line ind (''buf[offset++] = '' @ ty_expr e @ '' ? 1 : 0;'')"
| "ty_stmt ind (PByte e) = line ind (''buf[offset++] = '' @ ty_expr e @ '';'')"
| "ty_stmt ind (PUint w e) =
     line ind (''dv.set'' @ (if w = 64 then ''Big'' else []) @ ''Uint'' @ NumToString w @ ''(offset, '' @
       ty_expr e @ '', true); offset += '' @ NumToString (w div 8) @ '';'')"
| "ty_stmt ind (PCopy k e) = ty_copy k (ty_expr e) ind"
| "ty_stmt ind (PLet ty x e) = []"
| "ty_stmt ind (PPutLen p base) =
     line ind (''dv.setUint32('' @ ty_pos p @ '', offset - '' @ base @ '', true);'')"
| "ty_stmt ind (PForIndex is_list i e b) =
     line ind (''for (let '' @ i @ '' = 0; '' @ i @ '' < '' @ ty_expr e @ ''.length; '' @ i @ ''++) {'') @
     ty_stmts (ind @ sp2) b @ line ind ''}''"
| "ty_stmt ind (PForValue ty x e b) =
     line ind (''for (const '' @ x @ '' of '' @ ty_expr e @ '') {'') @ ty_stmts (ind @ sp2) b @ line ind ''}''"
| "ty_stmt ind (PBlock b) = line ind ''{'' @ ty_stmts (ind @ sp2) b @ line ind ''}''"
| "ty_stmt ind (PCall is_slice adv e) = line ind (''offset = '' @ ty_expr e @ ''.sszAppend(buf, offset);'')"
| "ty_stmts ind [] = []"
| "ty_stmts ind (s # ss) = ty_stmt ind s @ ty_stmts ind ss"

lemma ty_stmts_append [simp]: "ty_stmts ind (xs @ ys) = ty_stmts ind xs @ ty_stmts ind ys"
  by (induction xs) auto

lemma print_ts_prims: "ts_marshal_primitive t (ty_expr e) ind = ty_stmts ind (pprim_stmts t e)"
  by (cases t) (simp_all add: ts_marshal_primitive_def pprim_stmts_def num_literals digit_2 digit_8)

lemma print_ts_offset_list:
  "ts_offset_list (ty_expr e) ind (ty_stmts (ind @ sp4) b) = ty_stmts ind (poffset_list (ts_pstyle P) e b)"
  by (simp add: ts_offset_list_def poffset_list_def num_literals)

lemma print_ts_vector: "ts_marshal_vector info (ty_expr e) ind = ty_stmts ind (pvector_stmts (ts_pstyle P) info e)"
  by (simp add: ts_marshal_vector_def pvector_stmts_def ts_copy_array_def ts_append_def
      ts_GenMarshalPrimitiveArray_def print_ts_prims [of _ "XIndex e ''i''", simplified])

lemma print_ts_list: "ts_marshal_list info (ty_expr e) ind = ty_stmts ind (plist_stmts (ts_pstyle P) info e)"
  using print_ts_offset_list [of e ind "[PCopy CItem (XIndex e ''i'')]" P]
    print_ts_offset_list [of e ind "[PCall False AReturned (XIndex e ''i'')]" P]
  by (simp add: ts_marshal_list_def plist_stmts_def pbytes_elem_def pelem_def ts_copy_all_def ts_append_def
      ts_GenMarshalPrimitiveSlice_def print_ts_prims [of _ "XLocal ''v''", simplified])

lemma print_ts_field:
  "ts_GenMarshalField info (''this.'' @ f) ind = ty_stmts ind (pfield_stmts (ts_pstyle P) info (XMember f))"
  using print_ts_vector [of info "XMember f" ind P] print_ts_list [of info "XMember f" ind P]
  by (cases "ssz_type info")
    (simp_all add: ts_GenMarshalField_def pfield_stmts_def ts_copy_all_def ts_copy_array_def ts_append_def
      num_literals digit_2 digit_8)

lemma print_ts_static: "ts_static_fields P c idx ps = ty_stmts sp4 (pstatic_stmts (ts_pstyle P) idx (infos_of c ps))"
  by (induction ps arbitrary: idx) (auto simp: print_ts_field [where P = P, simplified] split: option.splits)

lemma print_ts_dynamic: "ts_dynamic_fields P c idx ps = ty_stmts sp4 (pdynamic_stmts (ts_pstyle P) idx (infos_of c ps))"
  by (induction ps arbitrary: idx) (auto simp: print_ts_field [where P = P, simplified] split: option.splits)

lemma print_ts_marshal:
  "ts_GenSszAppend P c =
     line sp2 ''sszAppend(buf: Uint8Array, offset: number): number {'' @
     line sp4 ''const dv = new DataView(buf.buffer, buf.byteOffset, buf.byteLength);'' @
     ty_stmts sp4 (pmarshal_body (ts_pstyle P) c) @
     line sp4 ''return offset;'' @
     line sp2 ''}''"
proof -
  have "each_field c ps (\<lambda>p info. ts_GenMarshalField info (''this.'' @ ts_member P p) sp4) =
      ty_stmts sp4 (concat (map (ps_field_stmts (ts_pstyle P)) (infos_of c ps)))" for ps
    by (induction ps) (auto simp: print_ts_field [where P = P, simplified] split: option.splits)
  then show ?thesis
    by (simp add: ts_GenSszAppend_def pmarshal_body_def print_ts_static print_ts_dynamic)
qed

section \<open>TypeScript text of the size\<close>

fun ty_gexpr :: "gexpr \<Rightarrow> string" where
  "ty_gexpr (GMember f) = ''this.'' @ f"
| "ty_gexpr (GLocal x) = x"
| "ty_gexpr (GIndex e i) = ty_gexpr e @ ''['' @ i @ '']''"

text \<open>Of the statements of \<open>Go_Lang\<close> only those of a size occur here.\<close>

fun ty_size_stmt :: "string \<Rightarrow> gstmt \<Rightarrow> string"
  and ty_size_stmts :: "string \<Rightarrow> gstmt list \<Rightarrow> string" where
  "ty_size_stmt ind (SizeInit n) = line ind (''let size = '' @ NumToString n @ '';'')"
| "ty_size_stmt ind (SizeAddMul e k) =
     line ind (''size += '' @ ty_gexpr e @ ''.length * '' @ NumToString k @ '';'')"
| "ty_size_stmt ind (SizeAddLen e) = line ind (''size += '' @ ty_gexpr e @ ''.length;'')"
| "ty_size_stmt ind (SizeAddCall e) = line ind (''size += '' @ ty_gexpr e @ ''.sszBytesLen();'')"
| "ty_size_stmt ind (ForValue x e b) =
     line ind (''for (const '' @ x @ '' of '' @ ty_gexpr e @ '') {'') @ ty_size_stmts (ind @ sp2) b @ line ind ''}''"
| "ty_size_stmt ind _ = []"
| "ty_size_stmts ind [] = []"
| "ty_size_stmts ind (s # ss) = ty_size_stmt ind s @ ty_size_stmts ind ss"

lemma ty_size_stmts_append [simp]:
  "ty_size_stmts ind (xs @ ys) = ty_size_stmts ind xs @ ty_size_stmts ind ys"
  by (induction xs) auto

lemma print_ts_size: "ts_GenSizeField info (ty_gexpr e) ind = ty_size_stmts ind (size_stmts False False info e)"
  by (cases "ssz_type info") (simp_all add: ts_GenSizeField_def size_stmts_def Let_def num_literals)

lemma print_ts_size_body:
  "ts_GenSszBytesLen P c =
     line sp2 ''sszBytesLen(): number {'' @
     (if is_fixed c then line sp4 (''return '' @ num32 (static_size c) @ '';'')
      else ty_size_stmts sp4 (size_body (ts_dialect P) c) @ line sp4 ''return size;'') @
     line sp2 ''}''"
proof -
  have "each_field c ps (\<lambda>p info. ts_GenSizeField info (''this.'' @ ts_member P p) sp4) =
      ty_size_stmts sp4 (concat (map (dl_size_stmts (ts_dialect P)) (infos_of c ps)))" for ps
    by (induction ps) (auto simp: print_ts_size [of _ "GMember f" for f, simplified] split: option.splits)
  then show ?thesis by (simp add: ts_GenSszBytesLen_def size_body_def)
qed

section \<open>TypeScript text of hashing\<close>

fun ty_hstmt :: "string \<Rightarrow> hstmt \<Rightarrow> string"
  and ty_hstmts :: "string \<Rightarrow> hstmt list \<Rightarrow> string" where
  "ty_hstmt ind (HNote s) = line ind (''// '' @ s)"
| "ty_hstmt ind HBlank = nl"
| "ty_hstmt ind (HIndex x) = line ind (''const '' @ x @ '' = h.index();'')"
| "ty_hstmt ind (HPutBool e) = line ind (''h.putBool('' @ ty_gexpr e @ '');'')"
| "ty_hstmt ind (HPutUint w e) = line ind (''h.putUint'' @ NumToString w @ ''('' @ ty_gexpr e @ '');'')"
| "ty_hstmt ind HPutZero = line ind ''h.putUint8(0);''"
| "ty_hstmt ind (HPutArray e) = line ind (''h.putBytes('' @ ty_gexpr e @ '');'')"
| "ty_hstmt ind (HPutBitlist e l) = line ind (''h.putBitlist('' @ ty_gexpr e @ '', '' @ num64 l @ '');'')"
| "ty_hstmt ind (HAppendBool e) = line ind (''h.appendBool('' @ ty_gexpr e @ '');'')"
| "ty_hstmt ind (HAppendUint w e) = line ind (''h.appendUint'' @ NumToString w @ ''('' @ ty_gexpr e @ '');'')"
| "ty_hstmt ind (HAppendBytes32 e) = line ind (''h.appendBytes32('' @ ty_gexpr e @ '');'')"
| "ty_hstmt ind HFill = line ind ''h.fillUpTo32();''"
| "ty_hstmt ind (HMerkleize x) = line ind (''h.merkleize('' @ x @ '');'')"
| "ty_hstmt ind (HMixin x e l) =
     line ind (''h.merkleizeWithMixin('' @ x @ '', '' @ ty_gexpr e @ ''.length, '' @ num64 l @ '');'')"
| "ty_hstmt ind (HProgMixin x e) =
     line ind (''h.merkleizeProgressiveWithMixin('' @ x @ '', '' @ ty_gexpr e @ ''.length);'')"
| "ty_hstmt ind (HProgActive x bs) =
     line ind (''h.merkleizeProgressiveWithActiveFields('' @ x @ '', new Uint8Array(['' @
       comma_list (map hex_byte bs) @ '']));'')"
| "ty_hstmt ind (HFor i e b) = []"
| "ty_hstmt ind (HForVal x e b) =
     line ind (''for (const '' @ x @ '' of '' @ ty_gexpr e @ '') {'') @ ty_hstmts (ind @ sp2) b @ line ind ''}''"
| "ty_hstmt ind (HBlk b) = line ind ''{'' @ ty_hstmts (ind @ sp2) b @ line ind ''}''"
| "ty_hstmt ind (HCall e) = line ind (ty_gexpr e @ ''.treeHashWith(h);'')"
| "ty_hstmt ind HPutZeroHash = []"
| "ty_hstmts ind [] = []"
| "ty_hstmts ind (s # ss) = ty_hstmt ind s @ ty_hstmts ind ss"

lemma ty_hstmts_append [simp]: "ty_hstmts ind (xs @ ys) = ty_hstmts ind xs @ ty_hstmts ind ys"
  by (induction xs) auto

lemma ts_limits:
  "ts_ssz_limit_for_bytes = go_ssz_limit_for_bytes" "ts_ssz_limit_for_elements = go_ssz_limit_for_elements"
  "ts_inner_chunk_limit = go_inner_chunk_limit"
  by (intro ext; simp add: ts_ssz_limit_for_bytes_def go_ssz_limit_for_bytes_def ts_ssz_limit_for_elements_def
      go_ssz_limit_for_elements_def ts_inner_chunk_limit_def go_inner_chunk_limit_def Let_def)+

lemma print_ts_append: "ts_GenHashPrimitive t (ty_gexpr e) ind True = ty_hstmts ind (append_stmts t e)"
  by (cases t) (simp_all add: ts_GenHashPrimitive_def append_stmts_def num_literals digit_8)

lemmas print_ts_append_v = print_ts_append [of _ "GLocal ''v''", simplified]

lemma print_ts_hash_vector: "ts_hash_vector info (ty_gexpr e) ind = ty_hstmts ind (hash_vector_stmts False info e)"
  by (simp add: ts_hash_vector_def hash_vector_stmts_def sub_tree_def ts_sub_tree_def ts_hash_containers_def
      ts_GenHashPrimitiveArray_def print_ts_append_v)

lemma print_ts_hash_list: "ts_hash_list info (ty_gexpr e) ind = ty_hstmts ind (hash_list_stmts list_limit info e)"
  by (cases "elem_info info = None")
    (simp_all add: elem_is_none ts_hash_list_def hash_list_stmts_def hash_elems_stmts_def list_limit_def
      sub_tree_def ts_sub_tree_def ts_hash_containers_def ts_GenHashPrimitiveSlice_def ts_mixin_def
      ts_limits print_ts_append_v Let_def)

lemma print_ts_hash_progressive:
  "ts_hash_progressive_list info (ty_gexpr e) ind = ty_hstmts ind (hash_progressive_stmts info e)"
  by (cases "elem_info info = None")
    (simp_all add: elem_is_none ts_hash_progressive_list_def hash_progressive_stmts_def hash_elems_stmts_def
      sub_tree_def ts_sub_tree_def ts_hash_containers_def ts_GenHashPrimitiveSlice_def print_ts_append_v Let_def)

lemma print_ts_hash: "ts_GenHashField info (ty_gexpr e) ind = ty_hstmts ind (hash_stmts ts_style info e)"
  by (cases "ssz_type info")
    (simp_all add: ts_GenHashField_def hash_stmts_def print_ts_hash_vector print_ts_hash_list
      print_ts_hash_progressive num_literals digit_8)

lemmas print_ts_hash_member = print_ts_hash [of _ "GMember f" for f, simplified]

lemma print_ts_hash_index: "ts_hash_index P c i = ty_hstmts sp4 (index_stmts ts_style (ts_dialect P) c i)"
  by (simp add: ts_hash_index_def index_stmts_def print_ts_hash_member split: option.split)

lemma print_ts_hash_body:
  "ts_GenTreeHashWith P c =
     line sp2 ''treeHashWith(h: Hasher): void {'' @
     ty_hstmts sp4 (hash_body ts_style (ts_dialect P) c) @
     line sp2 ''}''"
proof -
  have "each_field c ps (\<lambda>p info. line sp4 (''// Field '' @ sq @ fd_name (field_at P p) @ sq) @
      ts_GenHashField info (''this.'' @ ts_member P p) sp4 @ nl) =
      ty_hstmts sp4 (concat (map (field_hash_stmts ts_style (ts_dialect P)) (infos_of c ps)))" for ps
    by (induction ps) (auto simp: field_hash_stmts_def print_ts_hash_member split: option.splits)
  moreover have "concat (map (\<lambda>i. ts_hash_index P c (of_nat i)) is) =
      ty_hstmts sp4 (concat (map (\<lambda>i. index_stmts ts_style (ts_dialect P) c (of_nat i)) is))" for "is" :: "nat list"
    by (induction "is") (auto simp: print_ts_hash_index)
  ultimately show ?thesis
    by (simp only: ts_GenTreeHashWith_def hash_body_def) (simp del: upt_Suc)
qed

section \<open>The emitted programs\<close>

definition ts_decl :: "Parser \<Rightarrow> SszContainerInfo \<Rightarrow> pdecl" where
  "ts_decl P = emit_pdecl (ts_pstyle P)"

definition ts_program :: "nat \<Rightarrow> Parser \<Rightarrow> pprogram" where
  "ts_program depth P = emit_pprogram ts_AnalyzeContainer (ts_pstyle P) depth P"

definition ts_sizes :: "nat \<Rightarrow> Parser \<Rightarrow> gprogram" where
  "ts_sizes depth P = emit_program ts_AnalyzeContainer (ts_dialect P) depth P"

definition ts_hdecl :: "Parser \<Rightarrow> SszContainerInfo \<Rightarrow> hdecl" where
  "ts_hdecl P = emit_hdecl ts_style (ts_dialect P)"

definition ts_hprogram :: "nat \<Rightarrow> Parser \<Rightarrow> hprogram" where
  "ts_hprogram depth P = emit_hprogram ts_AnalyzeContainer ts_style (ts_dialect P) depth P"

lemma ts_program_eq:
  "ts_program depth P = emit_pprogram go_AnalyzeContainer (ts_pstyle P) depth P"
  "ts_sizes depth P = emit_program go_AnalyzeContainer (ts_dialect P) depth P"
  "ts_hprogram depth P = emit_hprogram go_AnalyzeContainer ts_style (ts_dialect P) depth P"
  by (simp_all only: ts_program_def ts_sizes_def ts_hprogram_def go_copy.emit_pprogram_eq [OF ts.go_copy_axioms]
      go_copy.emit_program_eq [OF ts.go_copy_axioms] go_copy.emit_hprogram_eq [OF ts.go_copy_axioms])

text \<open>
  What TypeScript checks of the names: types and members are distinct, and a member is an identifier
  and not the name of a method (keywords are allowed as members).
\<close>

definition ts_identifier :: "string \<Rightarrow> bool" where
  "ts_identifier s \<longleftrightarrow> s \<noteq> [] \<and> \<not> is_digit (hd s)"

definition ts_methods :: "string list" where
  "ts_methods = [''constructor'', ''sszBytesLen'', ''sszAppend'', ''toSszBytes'', ''treeHashRoot'', ''treeHashWith'']"

definition ts_names_ok :: "Parser \<Rightarrow> bool" where
  "ts_names_ok P \<longleftrightarrow>
     names_ok (ts_dialect P) P \<and>
     list_all (\<lambda>s. list_all (\<lambda>p. ts_identifier (ts_member P p) \<and> ts_member P p \<notin> set ts_methods) (live_fields P s))
       [0..<length (struct_store P)]"

end
