(* ===== verification/Java_Text.thy ===== *)
theory Java_Text
  imports Java_Analysis Go_Generator
begin

text \<open>
  The text that the Java back end emits, \<open>src/idl_gen_ssz_java.cpp\<close>: names, types and default values
  and the methods \<open>sszBytesLen\<close>, \<open>marshalSSZ\<close> and \<open>marshalSSZTo\<close>.
\<close>

section \<open>Names\<close>

definition JavaKeywords :: "string list" where
  "JavaKeywords =
     [''abstract'', ''assert'', ''boolean'', ''break'', ''byte'',
      ''case'', ''catch'', ''char'', ''class'', ''const'',
      ''continue'', ''default'', ''do'', ''double'', ''else'',
      ''enum'', ''extends'', ''final'', ''finally'', ''float'',
      ''for'', ''goto'', ''if'', ''implements'', ''import'',
      ''instanceof'', ''int'', ''interface'', ''long'', ''native'',
      ''new'', ''package'', ''private'', ''protected'', ''public'',
      ''return'', ''short'', ''static'', ''strictfp'', ''super'',
      ''switch'', ''synchronized'', ''this'', ''throw'', ''throws'',
      ''transient'', ''try'', ''void'', ''volatile'', ''while'']"

definition SszJavaDefaultConfig :: Config where
  "SszJavaDefaultConfig =
     \<lparr>cfg_types = kKeep,
      cfg_constants = kUnknown,
      cfg_methods = kLowerCamel,
      cfg_functions = kLowerCamel,
      cfg_fields = kLowerCamel,
      cfg_variables = kLowerCamel,
      cfg_variants = kKeep,
      enum_variant_seperator = '''',
      escape_keywords = AfterConvertingCase,
      cfg_namespaces = kKeep,
      namespace_seperator = ''/'',
      object_prefix = '''',
      object_suffix = '''',
      keyword_prefix = '''',
      keyword_suffix = ''_'',
      keywords_casing = CaseSensitive,
      cfg_filenames = kKeep,
      cfg_directories = kKeep,
      output_path = '''',
      filename_suffix = '''',
      filename_extension = ''.java''\<rparr>"

fun java_ToLowerCamel :: "string \<Rightarrow> string" where
  "java_ToLowerCamel [] = []"
| "java_ToLowerCamel (c # r) = CharToLower c # r"

definition java_namer :: "SszGenerator \<Rightarrow> Config" where
  "java_namer G = WithFlagOptions SszJavaDefaultConfig (gen_opts G) (gen_path G)"

definition java_FieldName :: "FieldDef \<Rightarrow> string" where
  "java_FieldName field = java_ToLowerCamel (fd_name field)"

abbreviation java_member :: "Parser \<Rightarrow> FieldPtr \<Rightarrow> string" where
  "java_member P p \<equiv> java_FieldName (field_at P p)"

section \<open>Types and default values\<close>

definition JavaElemTypeName :: "Parser \<Rightarrow> SszFieldInfo \<Rightarrow> string" where
  "JavaElemTypeName P info =
     (case ssz_type info of
        SszBool \<Rightarrow> ''boolean''
      | SszUint8 \<Rightarrow> ''byte''
      | SszUint16 \<Rightarrow> ''short''
      | SszUint32 \<Rightarrow> ''int''
      | SszUint64 \<Rightarrow> ''long''
      | SszContainer \<Rightarrow> info_struct_name P ''Object'' info
      | SszList \<Rightarrow> ''byte[]''
      | _ \<Rightarrow> ''Object'')"

definition JavaBoxedListType :: "SszFieldInfo \<Rightarrow> string" where
  "JavaBoxedListType info =
     (case ssz_type info of
        SszBool \<Rightarrow> ''List<Boolean>''
      | SszUint16 \<Rightarrow> ''List<Short>''
      | SszUint32 \<Rightarrow> ''List<Integer>''
      | SszUint64 \<Rightarrow> ''List<Long>''
      | _ \<Rightarrow> ''List<Object>'')"

definition JavaBoxedName :: "SszType \<Rightarrow> string" where
  "JavaBoxedName ty =
     (case ty of
        SszBool \<Rightarrow> ''Boolean''
      | SszUint16 \<Rightarrow> ''Short''
      | SszUint32 \<Rightarrow> ''Integer''
      | SszUint64 \<Rightarrow> ''Long''
      | _ \<Rightarrow> ''Object'')"

definition java_list_type :: "Parser \<Rightarrow> SszFieldInfo \<Rightarrow> FieldDef \<Rightarrow> string" where
  "java_list_type P info field =
     (if base_type (field_type field) = BASE_TYPE_STRING then ''byte[]''
      else (case elem_info info of
              None \<Rightarrow> ''byte[]''
            | Some e \<Rightarrow>
                if ssz_type e = SszUint8 then ''byte[]''
                else if ssz_type e = SszList then ''List<byte[]>''
                else if ssz_type e = SszContainer then ''List<'' @ info_struct_name P ''Object'' e @ ''>''
                else JavaBoxedListType e))"

definition JavaTypeName :: "Parser \<Rightarrow> SszFieldInfo \<Rightarrow> FieldDef \<Rightarrow> string" where
  "JavaTypeName P info field =
     (case ssz_type info of
        SszBool \<Rightarrow> ''boolean''
      | SszUint8 \<Rightarrow> ''byte''
      | SszUint16 \<Rightarrow> ''short''
      | SszUint32 \<Rightarrow> ''int''
      | SszUint64 \<Rightarrow> ''long''
      | SszUint128 \<Rightarrow> ''byte[]''
      | SszUint256 \<Rightarrow> ''byte[]''
      | SszContainer \<Rightarrow> info_struct_name P ''Object'' info
      | SszVector \<Rightarrow>
          (if elem_is info SszUint8 then ''byte[]''
           else (case elem_info info of Some e \<Rightarrow> JavaElemTypeName P e @ ''[]'' | None \<Rightarrow> ''Object''))
      | SszProgressiveList \<Rightarrow> java_list_type P info field
      | SszList \<Rightarrow> java_list_type P info field
      | SszBitlist \<Rightarrow> ''byte[]''
      | SszBitvector \<Rightarrow> ''byte[]''
      | SszProgressiveContainer \<Rightarrow> info_struct_name P ''Object'' info
      | SszUnion \<Rightarrow> ''Object'')"

definition java_new :: "string \<Rightarrow> string \<Rightarrow> string \<Rightarrow> string" where
  "java_new fname val indent = line indent (''this.'' @ fname @ '' = new '' @ val @ '';'')"

definition java_new_struct :: "Parser \<Rightarrow> SszFieldInfo \<Rightarrow> string \<Rightarrow> string \<Rightarrow> string" where
  "java_new_struct P info fname indent =
     (case info_struct info of
        Some s \<Rightarrow> java_new fname (sd_name (struct_at P s) @ ''()'') indent
      | None \<Rightarrow> [])"

definition java_vector_default :: "Parser \<Rightarrow> SszFieldInfo \<Rightarrow> string \<Rightarrow> string \<Rightarrow> string" where
  "java_vector_default P info fname indent =
     (let limit = num64 (info_limit info) in
      case elem_info info of
        None \<Rightarrow> []
      | Some e \<Rightarrow>
          if ssz_type e = SszUint8 then java_new fname (''byte['' @ limit @ '']'') indent
          else if ssz_type e = SszContainer then
            java_new fname (info_struct_name P '''' e @ ''['' @ limit @ '']'') indent @
            line indent (''for (int i = 0; i < '' @ limit @ ''; i++) {'') @
            line (indent @ sp4) (''this.'' @ fname @ ''[i] = new '' @ info_struct_name P '''' e @ ''();'') @
            line indent ''}''
          else java_new fname (JavaElemTypeName P e @ ''['' @ limit @ '']'') indent)"

definition java_list_default :: "SszFieldInfo \<Rightarrow> string \<Rightarrow> string \<Rightarrow> string" where
  "java_list_default info fname indent =
     (if elem_is info SszUint8 then java_new fname ''byte[0]'' indent
      else if elem_is info SszList \<or> elem_is info SszContainer then java_new fname ''ArrayList<>()'' indent
      else if elem_info info \<noteq> None then java_new fname ''ArrayList<>()'' indent
      else java_new fname ''byte[0]'' indent)"

definition java_GenFieldDefault :: "Parser \<Rightarrow> SszFieldInfo \<Rightarrow> string \<Rightarrow> string \<Rightarrow> string" where
  "java_GenFieldDefault P info fname indent =
     (case ssz_type info of
        SszUint128 \<Rightarrow> java_new fname ''byte[16]'' indent
      | SszUint256 \<Rightarrow> java_new fname ''byte[32]'' indent
      | SszContainer \<Rightarrow> java_new_struct P info fname indent
      | SszProgressiveContainer \<Rightarrow> java_new_struct P info fname indent
      | SszVector \<Rightarrow> java_vector_default P info fname indent
      | SszList \<Rightarrow> java_list_default info fname indent
      | SszProgressiveList \<Rightarrow> java_list_default info fname indent
      | SszBitlist \<Rightarrow> java_new fname ''byte[0]'' indent
      | SszBitvector \<Rightarrow> java_new fname (''byte['' @ num32 ((bitsize info + 7) div 8) @ '']'') indent
      | _ \<Rightarrow> [])"

section \<open>Size\<close>

definition java_GenSizeField :: "Parser \<Rightarrow> SszFieldInfo \<Rightarrow> string \<Rightarrow> string \<Rightarrow> string" where
  "java_GenSizeField P info var indent =
     (let list_size =
        (case elem_info info of
           None \<Rightarrow> line indent (''size += '' @ var @ ''.length;'')
         | Some e \<Rightarrow>
             if ssz_type e = SszList then
               line indent (''size += '' @ var @ ''.size() * 4;'') @
               line indent (''for (byte[] item : '' @ var @ '') {'') @
               line (indent @ sp4) ''size += item.length;'' @
               line indent ''}''
             else if ssz_type e = SszContainer \<and> is_dynamic e then
               line indent (''size += '' @ var @ ''.size() * 4;'') @
               line indent (''for ('' @ info_struct_name P '''' e @ '' item : '' @ var @ '') {'') @
               line (indent @ sp4) ''size += item.sszBytesLen();'' @
               line indent ''}''
             else if ssz_type e = SszContainer then
               line indent (''size += '' @ var @ ''.size() * '' @ num32 (fixed_size e) @ '';'')
             else if ssz_type e = SszUint8 then line indent (''size += '' @ var @ ''.length;'')
             else line indent (''size += '' @ var @ ''.size() * '' @ num32 (fixed_size e) @ '';''))
      in case ssz_type info of
           SszProgressiveList \<Rightarrow> list_size
         | SszList \<Rightarrow> list_size
         | SszBitlist \<Rightarrow> line indent (''size += '' @ var @ ''.length;'')
         | SszContainer \<Rightarrow> line indent (''size += '' @ var @ ''.sszBytesLen();'')
         | SszProgressiveContainer \<Rightarrow> line indent (''size += '' @ var @ ''.sszBytesLen();'')
         | _ \<Rightarrow> [])"

definition java_GenSszBytesLen :: "Parser \<Rightarrow> SszContainerInfo \<Rightarrow> string" where
  "java_GenSszBytesLen P container =
     line sp4 ''public int sszBytesLen() {'' @
     (if is_fixed container then line sp8 (''return '' @ num32 (static_size container) @ '';'')
      else
        line sp8 (''int size = '' @ num32 (static_size container) @ '';'') @
        each_field container (dynamic_fields container) (\<lambda>p info.
          java_GenSizeField P info (''this.'' @ java_member P p) sp8) @
        line sp8 ''return size;'') @
     line sp4 ''}''"

section \<open>Encoding\<close>

definition java_GenMarshalSSZ :: string where
  "java_GenMarshalSSZ =
     line sp4 ''public byte[] marshalSSZ() {'' @
     line sp8 ''byte[] buf = new byte[sszBytesLen()];'' @
     line sp8 ''marshalSSZTo(buf, 0);'' @
     line sp8 ''return buf;'' @
     line sp4 ''}''"

text \<open>A statement that writes, and the one that moves the position.\<close>

definition java_write :: "string \<Rightarrow> string \<Rightarrow> string \<Rightarrow> string" where
  "java_write stmt n indent = line indent (stmt @ '';'') @ line indent (''pos += '' @ n @ '';'')"

definition java_put_bool :: "string \<Rightarrow> string \<Rightarrow> string" where
  "java_put_bool var indent = java_write (''buf[pos] = (byte) ('' @ var @ '' ? 1 : 0)'') ''1'' indent"

definition java_put :: "string \<Rightarrow> string \<Rightarrow> string \<Rightarrow> string \<Rightarrow> string" where
  "java_put method n var indent = java_write (''bb.'' @ method @ ''(pos, '' @ var @ '')'') n indent"

definition java_copy :: "string \<Rightarrow> string \<Rightarrow> string \<Rightarrow> string" where
  "java_copy n var indent = java_write (''System.arraycopy('' @ var @ '', 0, buf, pos, '' @ n @ '')'') n indent"

definition java_marshal_primitive :: "SszType \<Rightarrow> string \<Rightarrow> string \<Rightarrow> string" where
  "java_marshal_primitive ty var indent =
     (case ty of
        SszBool \<Rightarrow> java_put_bool var indent
      | SszUint16 \<Rightarrow> java_put ''putShort'' ''2'' var indent
      | SszUint32 \<Rightarrow> java_put ''putInt'' ''4'' var indent
      | SszUint64 \<Rightarrow> java_put ''putLong'' ''8'' var indent
      | _ \<Rightarrow> [])"

definition java_GenMarshalPrimitiveArray :: "SszFieldInfo \<Rightarrow> string \<Rightarrow> string \<Rightarrow> string" where
  "java_GenMarshalPrimitiveArray info var indent =
     line indent (''for (int i = 0; i < '' @ var @ ''.length; i++) {'') @
     java_marshal_primitive (elem_ssz_type info) (var @ ''[i]'') (indent @ sp4) @
     line indent ''}''"

definition java_GenMarshalPrimitiveList :: "SszFieldInfo \<Rightarrow> string \<Rightarrow> string \<Rightarrow> string" where
  "java_GenMarshalPrimitiveList info var indent =
     line indent (''for ('' @ JavaBoxedName (elem_ssz_type info) @ '' v : '' @ var @ '') {'') @
     java_marshal_primitive (elem_ssz_type info) ''v'' (indent @ sp4) @
     line indent ''}''"

definition java_nested :: "string \<Rightarrow> string \<Rightarrow> string \<Rightarrow> string" where
  "java_nested n var indent = java_write (var @ ''.marshalSSZTo(buf, pos)'') n indent"

definition java_nested_size :: "string \<Rightarrow> string" where
  "java_nested_size var = var @ ''.sszBytesLen()''"

text \<open>A list of variable-size elements; \<open>body\<close> are the lines that write the element.\<close>

definition java_offset_list :: "string \<Rightarrow> string \<Rightarrow> string \<Rightarrow> string" where
  "java_offset_list var indent body =
     line indent ''{'' @
     line (indent @ sp4) ''int listStart = pos;'' @
     line (indent @ sp4) (''pos += '' @ var @ ''.size() * 4;'') @
     line (indent @ sp4) (''for (int i = 0; i < '' @ var @ ''.size(); i++) {'') @
     line (indent @ sp8) ''bb.putInt(listStart + i * 4, pos - listStart);'' @
     body @
     line (indent @ sp4) ''}'' @
     line indent ''}''"

definition java_marshal_vector :: "SszFieldInfo \<Rightarrow> string \<Rightarrow> string \<Rightarrow> string" where
  "java_marshal_vector info var indent =
     (if elem_is info SszUint8 then java_copy (num32 (fixed_size info)) var indent
      else if elem_is info SszContainer then
        line indent (''for (int i = 0; i < '' @ var @ ''.length; i++) {'') @
        java_nested
          (if elem_dynamic info then java_nested_size (var @ ''[i]'') else num32 (elem_fixed_size info))
          (var @ ''[i]'') (indent @ sp4) @
        line indent ''}''
      else if elem_info info \<noteq> None then java_GenMarshalPrimitiveArray info var indent
      else [])"

definition java_elem_struct :: "Parser \<Rightarrow> SszFieldInfo \<Rightarrow> string" where
  "java_elem_struct P info = (case elem_info info of None \<Rightarrow> [] | Some e \<Rightarrow> info_struct_name P '''' e)"

definition java_marshal_list :: "Parser \<Rightarrow> SszFieldInfo \<Rightarrow> string \<Rightarrow> string \<Rightarrow> string" where
  "java_marshal_list P info var indent =
     (if elem_is info SszList then
        java_offset_list var indent
          (line (indent @ sp8) (''byte[] item = '' @ var @ ''.get(i);'') @
           java_copy ''item.length'' ''item'' (indent @ sp8))
      else if elem_is info SszUint8 then java_copy (var @ ''.length'') var indent
      else if elem_is info SszContainer then
        (if elem_dynamic info then
           java_offset_list var indent
             (java_nested (java_nested_size (var @ ''.get(i)'')) (var @ ''.get(i)'') (indent @ sp8))
         else
           line indent (''for ('' @ java_elem_struct P info @ '' item : '' @ var @ '') {'') @
           java_nested (num32 (elem_fixed_size info)) ''item'' (indent @ sp4) @
           line indent ''}'')
      else if elem_info info \<noteq> None then java_GenMarshalPrimitiveList info var indent
      else java_copy (var @ ''.length'') var indent)"

definition java_GenMarshalField :: "Parser \<Rightarrow> SszFieldInfo \<Rightarrow> string \<Rightarrow> string \<Rightarrow> string" where
  "java_GenMarshalField P info var indent =
     (case ssz_type info of
        SszBool \<Rightarrow> java_put_bool var indent
      | SszUint8 \<Rightarrow> java_write (''buf[pos] = '' @ var) ''1'' indent
      | SszUint16 \<Rightarrow> java_put ''putShort'' ''2'' var indent
      | SszUint32 \<Rightarrow> java_put ''putInt'' ''4'' var indent
      | SszUint64 \<Rightarrow> java_put ''putLong'' ''8'' var indent
      | SszUint128 \<Rightarrow> java_copy ''16'' var indent
      | SszUint256 \<Rightarrow> java_copy ''32'' var indent
      | SszVector \<Rightarrow> java_marshal_vector info var indent
      | SszProgressiveList \<Rightarrow> java_marshal_list P info var indent
      | SszList \<Rightarrow> java_marshal_list P info var indent
      | SszBitlist \<Rightarrow> java_copy (var @ ''.length'') var indent
      | SszBitvector \<Rightarrow> java_copy (num32 (fixed_size info)) var indent
      | SszProgressiveContainer \<Rightarrow> java_nested (java_nested_size var) var indent
      | SszContainer \<Rightarrow> java_nested (java_nested_size var) var indent
      | SszUnion \<Rightarrow> [])"

fun java_static_fields :: "Parser \<Rightarrow> SszContainerInfo \<Rightarrow> nat \<Rightarrow> FieldPtr list \<Rightarrow> string" where
  "java_static_fields P container offset_idx [] = []"
| "java_static_fields P container offset_idx (p # ps) =
     (case field_infos container p of
        None \<Rightarrow> java_static_fields P container offset_idx ps
      | Some info \<Rightarrow>
          if is_dynamic info then
            line sp8 (''// Offset placeholder for '' @ sq @ fd_name (field_at P p) @ sq) @
            line sp8 (''int offsetPos'' @ NumToString offset_idx @ '' = pos;'') @
            line sp8 ''pos += 4;'' @
            java_static_fields P container (offset_idx + 1) ps
          else
            line sp8 (''// Field '' @ sq @ fd_name (field_at P p) @ sq) @
            java_GenMarshalField P info (''this.'' @ java_member P p) sp8 @
            java_static_fields P container offset_idx ps)"

fun java_dynamic_fields :: "Parser \<Rightarrow> SszContainerInfo \<Rightarrow> nat \<Rightarrow> FieldPtr list \<Rightarrow> string" where
  "java_dynamic_fields P container offset_idx [] = []"
| "java_dynamic_fields P container offset_idx (p # ps) =
     (case field_infos container p of
        None \<Rightarrow> java_dynamic_fields P container offset_idx ps
      | Some info \<Rightarrow>
          if is_dynamic info then
            line sp8 (''// Dynamic field '' @ sq @ fd_name (field_at P p) @ sq) @
            line sp8 (''bb.putInt(offsetPos'' @ NumToString offset_idx @ '', pos - offset);'') @
            java_GenMarshalField P info (''this.'' @ java_member P p) sp8 @
            java_dynamic_fields P container (offset_idx + 1) ps
          else java_dynamic_fields P container offset_idx ps)"

definition java_GenMarshalSSZTo :: "Parser \<Rightarrow> SszContainerInfo \<Rightarrow> string" where
  "java_GenMarshalSSZTo P container =
     line sp4 ''public void marshalSSZTo(byte[] buf, int offset) {'' @
     line sp8 ''ByteBuffer bb = ByteBuffer.wrap(buf);'' @
     line sp8 ''bb.order(ByteOrder.LITTLE_ENDIAN);'' @
     line sp8 ''int pos = offset;'' @
     (if dynamic_fields container = [] then
        each_field container (all_fields container) (\<lambda>p info.
          java_GenMarshalField P info (''this.'' @ java_member P p) sp8)
      else
        nl @
        java_static_fields P container 0 (all_fields container) @ nl @
        java_dynamic_fields P container 0 (all_fields container)) @
     line sp4 ''}''"

end
