(* ===== verification/Java_Generator.thy ===== *)
theory Java_Generator
  imports Java_Text
begin

text \<open>
  The decoding and hashing methods that the Java back end emits, the code of one class, and
  \<open>generate\<close>, which writes one file for every struct and table of the schema.
\<close>

section \<open>Decoding\<close>

definition java_throw :: "string \<Rightarrow> string \<Rightarrow> string" where
  "java_throw indent msg = line indent (''throw new SszError('' @ dq @ msg @ dq @ '');'')"

text \<open>A new array of \<open>n\<close> bytes for \<open>dst\<close>, filled from \<open>src\<close> at \<open>off\<close>.\<close>

definition java_fill :: "string \<Rightarrow> string \<Rightarrow> string \<Rightarrow> string \<Rightarrow> string \<Rightarrow> string \<Rightarrow> string" where
  "java_fill decl dst src off n indent =
     line indent (decl @ dst @ '' = new byte['' @ n @ ''];'') @
     line indent (''System.arraycopy('' @ src @ '', '' @ off @ '', '' @ dst @ '', 0, '' @ n @ '');'')"

definition java_GenUnmarshalPrimitiveArray :: "SszFieldInfo \<Rightarrow> string \<Rightarrow> u32 \<Rightarrow> string \<Rightarrow> string" where
  "java_GenUnmarshalPrimitiveArray info var offset indent =
     line indent (''for (int i = 0; i < '' @ var @ ''.length; i++) {'') @
     line (indent @ sp4) (''int off = '' @ num32 offset @ '' + i * '' @ num32 (elem_fixed_size info) @ '';'') @
     (case elem_ssz_type info of
        SszBool \<Rightarrow>
          line (indent @ sp4) ''if (bytes[off] > 1) {'' @
          java_throw (indent @ sp8) ''invalid bool'' @
          line (indent @ sp4) ''}'' @
          line (indent @ sp4) (var @ ''[i] = bytes[off] == 1;'')
      | SszUint16 \<Rightarrow> line (indent @ sp4) (var @ ''[i] = bb.getShort(off);'')
      | SszUint32 \<Rightarrow> line (indent @ sp4) (var @ ''[i] = bb.getInt(off);'')
      | SszUint64 \<Rightarrow> line (indent @ sp4) (var @ ''[i] = bb.getLong(off);'')
      | _ \<Rightarrow> []) @
     line indent ''}''"

definition java_unmarshal_vector :: "Parser \<Rightarrow> SszFieldInfo \<Rightarrow> string \<Rightarrow> u32 \<Rightarrow> string \<Rightarrow> string" where
  "java_unmarshal_vector P info var offset indent =
     (case elem_info info of
        None \<Rightarrow> []
      | Some e \<Rightarrow>
          if ssz_type e = SszUint8 then java_fill '''' var ''bytes'' (num32 offset) (num32 (fixed_size info)) indent
          else if ssz_type e = SszContainer then
            (let elem_size = num32 (fixed_size e) in
             line indent (''for (int i = 0; i < '' @ var @ ''.length; i++) {'') @
             line (indent @ sp4) (''int eStart = '' @ num32 offset @ '' + i * '' @ elem_size @ '';'') @
             java_fill ''byte[] '' ''elemBytes'' ''bytes'' ''eStart'' elem_size (indent @ sp4) @
             line (indent @ sp4) (var @ ''[i] = '' @ info_struct_name P '''' e @ ''.fromSSZBytes(elemBytes);'') @
             line indent ''}'')
          else java_GenUnmarshalPrimitiveArray info var offset indent)"

definition java_GenUnmarshalField :: "Parser \<Rightarrow> SszFieldInfo \<Rightarrow> string \<Rightarrow> u32 \<Rightarrow> string \<Rightarrow> string" where
  "java_GenUnmarshalField P info var offset indent =
     (let off_str = num32 offset in
      case ssz_type info of
        SszBool \<Rightarrow>
          line indent (''if (bytes['' @ off_str @ ''] > 1) {'') @
          java_throw (indent @ sp4) ''invalid bool'' @
          line indent ''}'' @
          line indent (var @ '' = bytes['' @ off_str @ ''] == 1;'')
      | SszUint8 \<Rightarrow> line indent (var @ '' = bytes['' @ off_str @ ''];'')
      | SszUint16 \<Rightarrow> line indent (var @ '' = bb.getShort('' @ off_str @ '');'')
      | SszUint32 \<Rightarrow> line indent (var @ '' = bb.getInt('' @ off_str @ '');'')
      | SszUint64 \<Rightarrow> line indent (var @ '' = bb.getLong('' @ off_str @ '');'')
      | SszUint128 \<Rightarrow> java_fill '''' var ''bytes'' off_str ''16'' indent
      | SszUint256 \<Rightarrow> java_fill '''' var ''bytes'' off_str ''32'' indent
      | SszVector \<Rightarrow> java_unmarshal_vector P info var offset indent
      | SszBitvector \<Rightarrow> java_fill '''' var ''bytes'' off_str (num32 (fixed_size info)) indent
      | SszContainer \<Rightarrow>
          line indent ''{'' @
          java_fill ''byte[] '' ''nested'' ''bytes'' off_str (num32 (fixed_size info)) (indent @ sp4) @
          line (indent @ sp4) (var @ '' = '' @ info_struct_name P '''' info @ ''.fromSSZBytes(nested);'') @
          line indent ''}''
      | _ \<Rightarrow> [])"

definition java_GenUnmarshalPrimitiveList :: "SszFieldInfo \<Rightarrow> string \<Rightarrow> string \<Rightarrow> string" where
  "java_GenUnmarshalPrimitiveList info var indent =
     (let elem_size = num32 (elem_fixed_size info) in
      line indent (''int count = slice.length / '' @ elem_size @ '';'') @
      line indent (var @ '' = new ArrayList<>(count);'') @
      line indent ''ByteBuffer sliceBB = ByteBuffer.wrap(slice);'' @
      line indent ''sliceBB.order(ByteOrder.LITTLE_ENDIAN);'' @
      line indent ''for (int i = 0; i < count; i++) {'' @
      line (indent @ sp4) (''int off = i * '' @ elem_size @ '';'') @
      (case elem_ssz_type info of
         SszBool \<Rightarrow>
           line (indent @ sp4) ''if (slice[off] > 1) {'' @
           java_throw (indent @ sp8) ''invalid bool'' @
           line (indent @ sp4) ''}'' @
           line (indent @ sp4) (var @ ''.add(slice[off] == 1);'')
       | SszUint16 \<Rightarrow> line (indent @ sp4) (var @ ''.add(sliceBB.getShort(off));'')
       | SszUint32 \<Rightarrow> line (indent @ sp4) (var @ ''.add(sliceBB.getInt(off));'')
       | SszUint64 \<Rightarrow> line (indent @ sp4) (var @ ''.add(sliceBB.getLong(off));'')
       | _ \<Rightarrow> []) @
      line indent ''}'')"

text \<open>A list of variable-size elements: the array for the bytes of one, and what is added for it.\<close>

definition java_unmarshal_offsets :: "string \<Rightarrow> string \<Rightarrow> string \<Rightarrow> string \<Rightarrow> string" where
  "java_unmarshal_offsets var arr elem indent =
     line indent ''if (slice.length > 0) {'' @
     line (indent @ sp4) ''ByteBuffer sliceBB = ByteBuffer.wrap(slice);'' @
     line (indent @ sp4) ''sliceBB.order(ByteOrder.LITTLE_ENDIAN);'' @
     line (indent @ sp4) ''int firstOff = sliceBB.getInt(0);'' @
     line (indent @ sp4) ''if (firstOff % 4 != 0) {'' @
     java_throw (indent @ sp8) ''invalid offset'' @
     line (indent @ sp4) ''}'' @
     line (indent @ sp4) ''int count = firstOff / 4;'' @
     line (indent @ sp4) (var @ '' = new ArrayList<>(count);'') @
     line (indent @ sp4) ''for (int i = 0; i < count; i++) {'' @
     line (indent @ sp8) ''int s = sliceBB.getInt(i * 4);'' @
     line (indent @ sp8) ''int e = (i + 1 < count) ? sliceBB.getInt((i + 1) * 4) : slice.length;'' @
     line (indent @ sp8) ''if (s > e || e > slice.length) {'' @
     java_throw (indent @ sp12) ''invalid offset'' @
     line (indent @ sp8) ''}'' @
     java_fill ''byte[] '' arr ''slice'' ''s'' ''e - s'' (indent @ sp8) @
     line (indent @ sp8) (var @ ''.add('' @ elem @ '');'') @
     line (indent @ sp4) ''}'' @
     line indent ''}''"

definition java_unmarshal_list :: "Parser \<Rightarrow> SszFieldInfo \<Rightarrow> string \<Rightarrow> string \<Rightarrow> string" where
  "java_unmarshal_list P info var indent =
     (let bytes = java_fill '''' var ''slice'' ''0'' ''slice.length'' indent in
      case elem_info info of
        None \<Rightarrow> bytes
      | Some e \<Rightarrow>
          if ssz_type e = SszList then java_unmarshal_offsets var ''elem'' ''elem'' indent
          else if ssz_type e = SszUint8 then bytes
          else if ssz_type e = SszContainer then
            (let name = info_struct_name P '''' e in
             if is_dynamic e then
               java_unmarshal_offsets var ''elemBytes'' (name @ ''.fromSSZBytes(elemBytes)'') indent
             else
               (let elem_size = num32 (fixed_size e) in
                line indent (''int count = slice.length / '' @ elem_size @ '';'') @
                line indent (var @ '' = new ArrayList<>(count);'') @
                line indent ''for (int i = 0; i < count; i++) {'' @
                line (indent @ sp4) (''int off = i * '' @ elem_size @ '';'') @
                java_fill ''byte[] '' ''elemBytes'' ''slice'' ''off'' elem_size (indent @ sp4) @
                line (indent @ sp4) (var @ ''.add('' @ name @ ''.fromSSZBytes(elemBytes));'') @
                line indent ''}''))
          else java_GenUnmarshalPrimitiveList info var indent)"

definition java_GenUnmarshalDynField :: "Parser \<Rightarrow> SszFieldInfo \<Rightarrow> string \<Rightarrow> string \<Rightarrow> string" where
  "java_GenUnmarshalDynField P info var indent =
     (let nested = line indent (var @ '' = '' @ info_struct_name P '''' info @ ''.fromSSZBytes(slice);'') in
      case ssz_type info of
        SszProgressiveList \<Rightarrow> java_unmarshal_list P info var indent
      | SszList \<Rightarrow> java_unmarshal_list P info var indent
      | SszBitlist \<Rightarrow> java_fill '''' var ''slice'' ''0'' ''slice.length'' indent
      | SszProgressiveContainer \<Rightarrow> nested
      | SszContainer \<Rightarrow> nested
      | _ \<Rightarrow> [])"

fun java_unmarshal_fixed :: "Parser \<Rightarrow> SszContainerInfo \<Rightarrow> u32 \<Rightarrow> FieldPtr list \<Rightarrow> string" where
  "java_unmarshal_fixed P container offset [] = []"
| "java_unmarshal_fixed P container offset (p # ps) =
     (case field_infos container p of
        None \<Rightarrow> java_unmarshal_fixed P container offset ps
      | Some info \<Rightarrow>
          java_GenUnmarshalField P info (''t.'' @ java_member P p) offset sp8 @
          java_unmarshal_fixed P container (offset + fixed_size info) ps)"

definition java_read_offset :: "SszContainerInfo \<Rightarrow> u32 \<Rightarrow> nat \<Rightarrow> string" where
  "java_read_offset container offset dyn_idx =
     (let k = NumToString dyn_idx in
      line sp8 (''int offset'' @ k @ '' = bb.getInt('' @ num32 offset @ '');'') @
      (if dyn_idx = 0 then line sp8 (''if (offset0 != '' @ num32 (static_size container) @ '') {'')
       else line sp8 (''if (offset'' @ k @ '' < offset'' @ NumToString (dyn_idx - 1) @ '' || offset'' @ k @
         '' > bytes.length) {'')) @
      java_throw sp12 ''invalid offset'' @
      line sp8 ''}'')"

fun java_unmarshal_static :: "Parser \<Rightarrow> SszContainerInfo \<Rightarrow> u32 \<Rightarrow> nat \<Rightarrow> FieldPtr list \<Rightarrow> string" where
  "java_unmarshal_static P container offset dyn_idx [] = []"
| "java_unmarshal_static P container offset dyn_idx (p # ps) =
     (case field_infos container p of
        None \<Rightarrow> java_unmarshal_static P container offset dyn_idx ps
      | Some info \<Rightarrow>
          if is_dynamic info then
            java_read_offset container offset dyn_idx @
            java_unmarshal_static P container (offset + 4) (dyn_idx + 1) ps
          else
            java_GenUnmarshalField P info (''t.'' @ java_member P p) offset sp8 @
            java_unmarshal_static P container (offset + fixed_size info) dyn_idx ps)"

text \<open>The loop over \<open>dyn_offset_names\<close>, the dynamic fields that the loop before has met.\<close>

definition java_dyn_offset_names :: "SszContainerInfo \<Rightarrow> FieldPtr list" where
  "java_dyn_offset_names container =
     filter (\<lambda>p. case field_infos container p of None \<Rightarrow> False | Some info \<Rightarrow> is_dynamic info) (all_fields container)"

fun java_unmarshal_dynamic :: "Parser \<Rightarrow> SszContainerInfo \<Rightarrow> nat \<Rightarrow> FieldPtr list \<Rightarrow> string" where
  "java_unmarshal_dynamic P container i [] = []"
| "java_unmarshal_dynamic P container i (p # ps) =
     (case field_infos container p of
        None \<Rightarrow> java_unmarshal_dynamic P container (i + 1) ps
      | Some info \<Rightarrow>
          line sp8 ''{'' @
          line sp12 (''int sliceStart = offset'' @ NumToString i @ '';'') @
          line sp12 (''int sliceEnd = '' @ (if ps = [] then ''bytes.length'' else ''offset'' @ NumToString (i + 1)) @ '';'') @
          line sp12 ''byte[] slice = new byte[sliceEnd - sliceStart];'' @
          line sp12 ''System.arraycopy(bytes, sliceStart, slice, 0, sliceEnd - sliceStart);'' @
          java_GenUnmarshalDynField P info (''t.'' @ java_member P p) sp12 @
          line sp8 ''}'' @
          java_unmarshal_dynamic P container (i + 1) ps)"

definition java_GenFromSSZBytes :: "Parser \<Rightarrow> StructDef \<Rightarrow> SszContainerInfo \<Rightarrow> string" where
  "java_GenFromSSZBytes P struct_def container =
     (let type_name = sd_name struct_def in
      line sp4 (''public static '' @ type_name @ '' fromSSZBytes(byte[] bytes) {'') @
      line sp8 (''if (bytes.length < '' @ num32 (static_size container) @ '') {'') @
      java_throw sp12 ''buffer too small'' @
      line sp8 ''}'' @ nl @
      line sp8 (type_name @ '' t = new '' @ type_name @ ''();'') @
      line sp8 ''ByteBuffer bb = ByteBuffer.wrap(bytes);'' @
      line sp8 ''bb.order(ByteOrder.LITTLE_ENDIAN);'' @ nl @
      (if dynamic_fields container = [] then java_unmarshal_fixed P container 0 (all_fields container)
       else
         java_unmarshal_static P container 0 0 (all_fields container) @ nl @
         java_unmarshal_dynamic P container 0 (java_dyn_offset_names container)) @
      line sp8 ''return t;'' @
      line sp4 ''}'')"

section \<open>Hashing\<close>

definition java_ssz_limit_for_bytes :: "u64 \<Rightarrow> u64" where
  "java_ssz_limit_for_bytes max_bytes = (max_bytes + 31) div 32"

definition java_ssz_limit_for_elements :: "u64 \<Rightarrow> u32 \<Rightarrow> u64" where
  "java_ssz_limit_for_elements max_elements elem_size =
     (if elem_size \<ge> 32 then max_elements
      else let elems_per_chunk = ucast (32 div elem_size)
           in (max_elements + elems_per_chunk - 1) div elems_per_chunk)"

definition java_GenHashPrimitive :: "SszType \<Rightarrow> string \<Rightarrow> string \<Rightarrow> string" where
  "java_GenHashPrimitive ty var indent =
     (case ty of
        SszBool \<Rightarrow> line indent (''hh.appendBool('' @ var @ '');'')
      | SszUint8 \<Rightarrow> line indent (''hh.appendUint8('' @ var @ '');'')
      | SszUint16 \<Rightarrow> line indent (''hh.appendUint16('' @ var @ '');'')
      | SszUint32 \<Rightarrow> line indent (''hh.appendUint32('' @ var @ '');'')
      | SszUint64 \<Rightarrow> line indent (''hh.appendUint64('' @ var @ '');'')
      | _ \<Rightarrow> [])"

definition java_GenHashPrimitiveArray :: "SszFieldInfo \<Rightarrow> string \<Rightarrow> string \<Rightarrow> string" where
  "java_GenHashPrimitiveArray info var indent =
     line indent (''for (int i = 0; i < '' @ var @ ''.length; i++) {'') @
     java_GenHashPrimitive (elem_ssz_type info) (var @ ''[i]'') (indent @ sp4) @
     line indent ''}''"

definition java_GenHashPrimitiveList :: "SszFieldInfo \<Rightarrow> string \<Rightarrow> string \<Rightarrow> string" where
  "java_GenHashPrimitiveList info var indent =
     line indent (''for ('' @ JavaBoxedName (elem_ssz_type info) @ '' v : '' @ var @ '') {'') @
     java_GenHashPrimitive (elem_ssz_type info) ''v'' (indent @ sp4) @
     line indent ''}''"

definition java_sub_tree :: "string \<Rightarrow> string \<Rightarrow> string \<Rightarrow> string" where
  "java_sub_tree indent content tail_line =
     line indent ''{'' @ line (indent @ sp4) ''int subIdx = hh.index();'' @ content @
     line (indent @ sp4) tail_line @ line indent ''}''"

definition java_hash_containers :: "Parser \<Rightarrow> SszFieldInfo \<Rightarrow> string \<Rightarrow> string \<Rightarrow> string" where
  "java_hash_containers P info var indent =
     line indent (''for ('' @ java_elem_struct P info @ '' item : '' @ var @ '') {'') @
     line (indent @ sp4) ''item.hashTreeRootWith(hh);'' @ line indent ''}''"

definition java_hash_vector :: "SszFieldInfo \<Rightarrow> string \<Rightarrow> string \<Rightarrow> string" where
  "java_hash_vector info var indent =
     (if elem_is info SszUint8 then line indent (''hh.putBytes('' @ var @ '');'')
      else if elem_is info SszContainer then
        java_sub_tree indent
          (line (indent @ sp4) (''for (int i = 0; i < '' @ var @ ''.length; i++) {'') @
           line (indent @ sp8) (var @ ''[i].hashTreeRootWith(hh);'') @
           line (indent @ sp4) ''}'')
          ''hh.merkleize(subIdx);''
      else if elem_info info \<noteq> None then
        java_sub_tree indent
          (java_GenHashPrimitiveArray info var (indent @ sp4) @ line (indent @ sp4) ''hh.fillUpTo32();'')
          ''hh.merkleize(subIdx);''
      else [])"

definition java_mixin :: "string \<Rightarrow> u64 \<Rightarrow> string" where
  "java_mixin len limit = ''hh.merkleizeWithMixin(subIdx, '' @ len @ '', '' @ num64 limit @ '');''"

definition java_inner_chunk_limit :: "SszFieldInfo \<Rightarrow> u64" where
  "java_inner_chunk_limit info =
     (let inner_limit = (case elem_info info of None \<Rightarrow> 0 | Some e \<Rightarrow> info_limit e)
      in if inner_limit > 0 then java_ssz_limit_for_bytes inner_limit else 0)"

definition java_hash_list :: "Parser \<Rightarrow> SszFieldInfo \<Rightarrow> string \<Rightarrow> string \<Rightarrow> string" where
  "java_hash_list P info var indent =
     (let limit = info_limit info; inner_chunk_limit = java_inner_chunk_limit info in
      if elem_is info SszList then
        java_sub_tree indent
          (line (indent @ sp4) (''for (byte[] item : '' @ var @ '') {'') @
           line (indent @ sp8) ''int inner = hh.index();'' @
           line (indent @ sp8) ''hh.appendBytes32(item);'' @
           (if inner_chunk_limit > 0 then
              line (indent @ sp8) (''hh.merkleizeWithMixin(inner, item.length, '' @ num64 inner_chunk_limit @ '');'')
            else line (indent @ sp8) ''hh.merkleize(inner);'') @
           line (indent @ sp4) ''}'')
          (java_mixin (var @ ''.size()'') limit)
      else if elem_is info SszUint8 then
        java_sub_tree indent (line (indent @ sp4) (''hh.appendBytes32('' @ var @ '');''))
          (java_mixin (var @ ''.length'') (java_ssz_limit_for_bytes limit))
      else if elem_is info SszContainer then
        java_sub_tree indent (java_hash_containers P info var (indent @ sp4)) (java_mixin (var @ ''.size()'') limit)
      else if elem_info info \<noteq> None then
        java_sub_tree indent
          (java_GenHashPrimitiveList info var (indent @ sp4) @ line (indent @ sp4) ''hh.fillUpTo32();'')
          (java_mixin (var @ ''.size()'') (java_ssz_limit_for_elements limit (elem_fixed_size info)))
      else [])"

definition java_hash_progressive_list :: "Parser \<Rightarrow> SszFieldInfo \<Rightarrow> string \<Rightarrow> string \<Rightarrow> string" where
  "java_hash_progressive_list P info var indent =
     (let mixin = (\<lambda>len. ''hh.merkleizeProgressiveWithMixin(subIdx, '' @ len @ '');'') in
      if elem_is info SszUint8 then
        java_sub_tree indent (line (indent @ sp4) (''hh.appendBytes32('' @ var @ '');'')) (mixin (var @ ''.length''))
      else if elem_is info SszContainer then
        java_sub_tree indent (java_hash_containers P info var (indent @ sp4)) (mixin (var @ ''.size()''))
      else if elem_info info \<noteq> None then
        java_sub_tree indent
          (java_GenHashPrimitiveList info var (indent @ sp4) @ line (indent @ sp4) ''hh.fillUpTo32();'')
          (mixin (var @ ''.size()''))
      else [])"

definition java_GenHashField :: "Parser \<Rightarrow> SszFieldInfo \<Rightarrow> string \<Rightarrow> string \<Rightarrow> string" where
  "java_GenHashField P info var indent =
     (case ssz_type info of
        SszBool \<Rightarrow> line indent (''hh.putBool('' @ var @ '');'')
      | SszUint8 \<Rightarrow> line indent (''hh.putUint8('' @ var @ '');'')
      | SszUint16 \<Rightarrow> line indent (''hh.putUint16('' @ var @ '');'')
      | SszUint32 \<Rightarrow> line indent (''hh.putUint32('' @ var @ '');'')
      | SszUint64 \<Rightarrow> line indent (''hh.putUint64('' @ var @ '');'')
      | SszUint128 \<Rightarrow> line indent (''hh.putBytes('' @ var @ '');'')
      | SszUint256 \<Rightarrow> line indent (''hh.putBytes('' @ var @ '');'')
      | SszVector \<Rightarrow> java_hash_vector info var indent
      | SszList \<Rightarrow> java_hash_list P info var indent
      | SszBitlist \<Rightarrow> line indent (''hh.putBitlist('' @ var @ '', '' @ num64 (info_limit info) @ '');'')
      | SszBitvector \<Rightarrow> line indent (''hh.putBytes('' @ var @ '');'')
      | SszContainer \<Rightarrow> line indent (var @ ''.hashTreeRootWith(hh);'')
      | SszProgressiveContainer \<Rightarrow> line indent (var @ ''.hashTreeRootWith(hh);'')
      | SszProgressiveList \<Rightarrow> java_hash_progressive_list P info var indent
      | SszUnion \<Rightarrow> [])"

definition java_hash_index :: "Parser \<Rightarrow> SszContainerInfo \<Rightarrow> u32 \<Rightarrow> string" where
  "java_hash_index P container i =
     (case map_of (index_to_field container) i of
        Some p \<Rightarrow>
          (case field_infos container p of
             None \<Rightarrow> []
           | Some info \<Rightarrow>
               line sp8 (''// Index '' @ num32 i @ '': '' @ fd_name (field_at P p)) @
               java_GenHashField P info (''this.'' @ java_member P p) sp8)
      | None \<Rightarrow>
          line sp8 (''// Index '' @ num32 i @ '': gap (inactive)'') @ line sp8 ''hh.putUint8((byte) 0);'')"

definition java_GenHashTreeRoot :: "Parser \<Rightarrow> SszContainerInfo \<Rightarrow> string" where
  "java_GenHashTreeRoot P container =
     line sp4 ''public byte[] hashTreeRoot() {'' @
     line sp8 ''Hasher hh = new Hasher();'' @
     line sp8 ''int idx = hh.index();'' @ nl @
     (if is_progressive container then
        concat (map (\<lambda>i. java_hash_index P container (of_nat i)) [0..<Suc (unat (max_ssz_index container))]) @ nl @
        line sp8 (''hh.merkleizeProgressiveWithActiveFields(idx, new byte[]{'' @
          comma_list (map (\<lambda>b. ''(byte) '' @ hex_byte b) (active_fields_bitvector container)) @ ''});'')
      else
        each_field container (all_fields container) (\<lambda>p info.
          line sp8 (''// Field '' @ sq @ fd_name (field_at P p) @ sq) @
          java_GenHashField P info (''this.'' @ java_member P p) sp8 @ nl) @
        line sp8 ''hh.merkleize(idx);'') @
     line sp8 ''return hh.hashRoot();'' @
     line sp4 ''}''"

section \<open>The files\<close>

definition java_GenJavaClass :: "Parser \<Rightarrow> StructDef \<Rightarrow> SszContainerInfo \<Rightarrow> string" where
  "java_GenJavaClass P struct_def container =
     line [] (''public class '' @ sd_name struct_def @ '' {'') @
     each_field container (all_fields container) (\<lambda>p info.
       line sp4 (''public '' @ JavaTypeName P info (field_at P p) @ '' '' @ java_member P p @ '';'')) @ nl @
     line sp4 (''public '' @ sd_name struct_def @ ''() {'') @
     each_field container (all_fields container) (\<lambda>p info.
       java_GenFieldDefault P info (java_member P p) sp8) @
     line sp4 ''}'' @ nl @
     java_GenSszBytesLen P container @ nl @
     java_GenMarshalSSZ @ nl @
     java_GenMarshalSSZTo P container @ nl @
     java_GenFromSSZBytes P struct_def container @ nl @
     java_GenHashTreeRoot P container @
     line [] ''}''"

definition java_pkg_name :: "StructDef \<Rightarrow> string" where
  "java_pkg_name def =
     (let pkg_name = FullNamespace ''.'' (sd_namespace def)
      in if pkg_name = [] then map CharToLower (sd_name def) else pkg_name)"

definition java_file_text :: "StructDef \<Rightarrow> string \<Rightarrow> string" where
  "java_file_text def classcode =
     strip_newlines
       (line [] ''// Code generated by the FlatBuffers compiler. DO NOT EDIT.'' @ nl @
        line [] (''package '' @ java_pkg_name def @ '';'') @ nl @
        line [] ''import java.nio.ByteBuffer;'' @
        line [] ''import java.nio.ByteOrder;'' @
        line [] ''import java.util.ArrayList;'' @
        line [] ''import java.util.List;'' @
        line [] ''import ssz.Hasher;'' @
        line [] ''import ssz.SszError;'' @ nl @
        classcode)"

definition java_file_name :: "SszGenerator \<Rightarrow> StructDef \<Rightarrow> string" where
  "java_file_name G def = Directories (java_namer G) (sd_namespace def) @ sd_name def @ ''.java''"

definition java_SaveType ::
  "(string \<Rightarrow> string \<Rightarrow> bool) \<Rightarrow> SszGenerator \<Rightarrow> StructDef \<Rightarrow> string \<Rightarrow> files \<Rightarrow> files res" where
  "java_SaveType save G def classcode written =
     (if classcode = [] then Inr written
      else
        (let code = java_file_text def classcode; filename = java_file_name G def
         in if save filename code then Inr (written @ [(filename, code)])
            else Inl (SaveFailed filename)))"

definition java_generate_struct ::
  "(string \<Rightarrow> string \<Rightarrow> bool) \<Rightarrow> nat \<Rightarrow> SszGenerator \<Rightarrow> StructPtr \<Rightarrow> files \<Rightarrow> files res" where
  "java_generate_struct save depth G s written =
     (let P = gen_parser G; struct_def = struct_at P s in
      if sd_generated struct_def then Inr written
      else bind_res (java_AnalyzeContainer depth P s)
        (\<lambda>container. java_SaveType save G struct_def (java_GenJavaClass P struct_def container) written))"

definition java_generate :: "(string \<Rightarrow> string \<Rightarrow> bool) \<Rightarrow> nat \<Rightarrow> SszGenerator \<Rightarrow> files res" where
  "java_generate save depth G =
     fold_res (java_generate_struct save depth G) (structs_vec (gen_parser G)) []"

end
