(* ===== verification/Java_Program.thy ===== *)
theory Java_Program
  imports Java_Generator Pos_Program Go_Hash_Root
begin

text \<open>
  The dialect and the style of the Java back end, the Java text of the statements of \<open>Pos_Lang\<close>,
  \<open>Emit_Program\<close> and \<open>Emit_Hash\<close>, and the proofs that the emitted text is theirs.  Hashing is in the
  style of the Go back end.
\<close>

section \<open>The dialect and the style\<close>

definition java_dialect :: "Parser \<Rightarrow> dialect" where
  "java_dialect P =
     \<lparr>dl_member = java_member P, dl_label = (\<lambda>p. fd_name (field_at P p)), dl_index_loops = True,
      dl_size_progressive = True, dl_size_bytes = True\<rparr>"

lemma java_dialect_simps [simp]:
  "dl_member (java_dialect P) p = java_member P p" "dl_label (java_dialect P) p = fd_name (field_at P p)"
  "dl_index_loops (java_dialect P)" "dl_size_progressive (java_dialect P)" "dl_size_bytes (java_dialect P)"
  by (simp_all add: java_dialect_def)

text \<open>The position is a parameter of the method; behind a nested object it moves by the object's size.\<close>

definition java_elem_type :: "Parser \<Rightarrow> SszFieldInfo \<Rightarrow> string" where
  "java_elem_type P info =
     (if elem_is info SszContainer then java_elem_struct P info else JavaBoxedName (elem_ssz_type info))"

definition java_pstyle :: "Parser \<Rightarrow> pstyle" where
  "java_pstyle P =
     \<lparr>ps_member = java_member P, ps_label = (\<lambda>p. fd_name (field_at P p)), ps_base = ''offset'',
      ps_enter = True, ps_get = True, ps_value_loops = True, ps_skip_loop = False, ps_slice = False,
      ps_adv_vector = (\<lambda>i. if elem_dynamic i then ASize else AConst (unat (elem_fixed_size i))),
      ps_adv_list = (\<lambda>i. AConst (unat (elem_fixed_size i))), ps_adv_elem = ASize,
      ps_adv_field = (\<lambda>i. ASize), ps_adv_progressive = ASize, ps_elem_type = java_elem_type P\<rparr>"

lemma java_pstyle_simps [simp]:
  "ps_member (java_pstyle P) p = java_member P p" "ps_label (java_pstyle P) p = fd_name (field_at P p)"
  "ps_base (java_pstyle P) = ''offset''" "ps_enter (java_pstyle P)" "ps_get (java_pstyle P)"
  "ps_value_loops (java_pstyle P)" "\<not> ps_skip_loop (java_pstyle P)" "\<not> ps_slice (java_pstyle P)"
  "ps_adv_vector (java_pstyle P) i = (if elem_dynamic i then ASize else AConst (unat (elem_fixed_size i)))"
  "ps_adv_list (java_pstyle P) i = AConst (unat (elem_fixed_size i))"
  "ps_adv_elem (java_pstyle P) = ASize" "ps_adv_field (java_pstyle P) i = ASize"
  "ps_adv_progressive (java_pstyle P) = ASize" "ps_elem_type (java_pstyle P) = java_elem_type P"
  by (simp_all add: java_pstyle_def)

lemma java_members: "dl_member (java_dialect P) = ps_member (java_pstyle P)"
  by (simp add: fun_eq_iff)

interpretation java_pos: pos_style "java_pstyle P" False False for P
  by unfold_locales (simp_all add: elem_fixed_size_def)

section \<open>Java text of the encoder\<close>

fun jv_expr :: "pexpr \<Rightarrow> string" where
  "jv_expr (XMember f) = ''this.'' @ f"
| "jv_expr (XLocal x) = x"
| "jv_expr (XIndex e i) = jv_expr e @ ''['' @ i @ '']''"
| "jv_expr (XGet e i) = jv_expr e @ ''.get('' @ i @ '')''"

fun jv_pos :: "gpos \<Rightarrow> string" where
  "jv_pos (PAt x) = x"
| "jv_pos (PElem x i k) = x @ '' + '' @ i @ '' * '' @ NumToString k"

fun jv_count :: "pcopy \<Rightarrow> string \<Rightarrow> string" where
  "jv_count (CBasic n) var = NumToString n"
| "jv_count (CArray n) var = NumToString n"
| "jv_count CAll var = var @ ''.length''"
| "jv_count CItem var = var @ ''.length''"

fun jv_adv :: "padv \<Rightarrow> string \<Rightarrow> string" where
  "jv_adv AReturned var = []"
| "jv_adv ASize var = var @ ''.sszBytesLen()''"
| "jv_adv (AConst n) var = NumToString n"

definition jv_put :: "nat \<Rightarrow> string" where
  "jv_put w = (if w = 16 then ''putShort'' else if w = 32 then ''putInt'' else ''putLong'')"

fun jv_stmt :: "string \<Rightarrow> pstmt \<Rightarrow> string"
  and jv_stmts :: "string \<Rightarrow> pstmt list \<Rightarrow> string" where
  "jv_stmt ind (PNote s) = line ind (''// '' @ s)"
| "jv_stmt ind PBlank = nl"
| "jv_stmt ind (PEnter x) = line ind (''int pos = '' @ x @ '';'')"
| "jv_stmt ind (PMark x) = line ind (''int '' @ x @ '' = pos;'')"
| "jv_stmt ind PSkip = line ind ''pos += 4;''"
| "jv_stmt ind (PSkipList e) = line ind (''pos += '' @ jv_expr e @ ''.size() * 4;'')"
| "jv_stmt ind (PBool e) = line ind (''buf[pos] = (byte) ('' @ jv_expr e @ '' ? 1 : 0);'') @ line ind ''pos += 1;''"
| "jv_stmt ind (PByte e) = line ind (''buf[pos] = '' @ jv_expr e @ '';'') @ line ind ''pos += 1;''"
| "jv_stmt ind (PUint w e) =
     line ind (''bb.'' @ jv_put w @ ''(pos, '' @ jv_expr e @ '');'') @
     line ind (''pos += '' @ NumToString (w div 8) @ '';'')"
| "jv_stmt ind (PCopy k e) =
     line ind (''System.arraycopy('' @ jv_expr e @ '', 0, buf, pos, '' @ jv_count k (jv_expr e) @ '');'') @
     line ind (''pos += '' @ jv_count k (jv_expr e) @ '';'')"
| "jv_stmt ind (PLet ty x e) = line ind (ty @ '' '' @ x @ '' = '' @ jv_expr e @ '';'')"
| "jv_stmt ind (PPutLen p base) = line ind (''bb.putInt('' @ jv_pos p @ '', pos - '' @ base @ '');'')"
| "jv_stmt ind (PForIndex is_list i e b) =
     line ind (''for (int '' @ i @ '' = 0; '' @ i @ '' < '' @ jv_expr e @ (if is_list then ''.size()'' else ''.length'') @
       ''; '' @ i @ ''++) {'') @
     jv_stmts (ind @ sp4) b @ line ind ''}''"
| "jv_stmt ind (PForValue ty x e b) =
     line ind (''for ('' @ ty @ '' '' @ x @ '' : '' @ jv_expr e @ '') {'') @ jv_stmts (ind @ sp4) b @ line ind ''}''"
| "jv_stmt ind (PBlock b) = line ind ''{'' @ jv_stmts (ind @ sp4) b @ line ind ''}''"
| "jv_stmt ind (PCall is_slice adv e) =
     line ind (jv_expr e @ ''.marshalSSZTo(buf, pos);'') @ line ind (''pos += '' @ jv_adv adv (jv_expr e) @ '';'')"
| "jv_stmts ind [] = []"
| "jv_stmts ind (s # ss) = jv_stmt ind s @ jv_stmts ind ss"

lemma jv_stmts_append [simp]: "jv_stmts ind (xs @ ys) = jv_stmts ind xs @ jv_stmts ind ys"
  by (induction xs) auto

lemmas java_writes = java_write_def java_put_bool_def java_put_def java_copy_def java_nested_def java_nested_size_def jv_put_def

lemma print_java_prims: "java_marshal_primitive t (jv_expr e) ind = jv_stmts ind (pprim_stmts t e)"
  by (cases t) (simp_all add: java_marshal_primitive_def java_writes pprim_stmts_def num_literals digit_2 digit_8)

lemma print_java_offset_list:
  "java_offset_list (jv_expr e) ind (jv_stmts (ind @ sp8) b) = jv_stmts ind (poffset_list (java_pstyle P) e b)"
  by (simp add: java_offset_list_def poffset_list_def num_literals)

lemma print_java_vector: "java_marshal_vector info (jv_expr e) ind = jv_stmts ind (pvector_stmts (java_pstyle P) info e)"
  by (simp add: java_marshal_vector_def pvector_stmts_def java_writes java_GenMarshalPrimitiveArray_def
      print_java_prims [of _ "XIndex e ''i''", simplified])

lemma print_java_list: "java_marshal_list P info (jv_expr e) ind = jv_stmts ind (plist_stmts (java_pstyle P) info e)"
  using print_java_offset_list [of e ind "[PLet ''byte[]'' ''item'' (XGet e ''i''), PCopy CItem (XLocal ''item'')]" P]
    print_java_offset_list [of e ind "[PCall False ASize (XGet e ''i'')]" P]
  by (simp add: java_marshal_list_def plist_stmts_def pbytes_elem_def pelem_def java_writes java_elem_type_def
      java_GenMarshalPrimitiveList_def print_java_prims [of _ "XLocal ''v''", simplified])

lemma print_java_field:
  "java_GenMarshalField P info (''this.'' @ f) ind = jv_stmts ind (pfield_stmts (java_pstyle P) info (XMember f))"
  using print_java_vector [of info "XMember f" ind P] print_java_list [of P info "XMember f" ind]
  by (cases "ssz_type info")
    (simp_all add: java_GenMarshalField_def pfield_stmts_def java_writes num_literals digit_2 digit_8)

lemma print_java_static:
  "java_static_fields P c idx ps = jv_stmts sp8 (pstatic_stmts (java_pstyle P) idx (infos_of c ps))"
  by (induction ps arbitrary: idx) (auto simp: print_java_field [simplified] split: option.splits)

lemma print_java_dynamic:
  "java_dynamic_fields P c idx ps = jv_stmts sp8 (pdynamic_stmts (java_pstyle P) idx (infos_of c ps))"
  by (induction ps arbitrary: idx) (auto simp: print_java_field [simplified] split: option.splits)

lemma print_java_marshal:
  "java_GenMarshalSSZTo P c =
     line sp4 ''public void marshalSSZTo(byte[] buf, int offset) {'' @
     line sp8 ''ByteBuffer bb = ByteBuffer.wrap(buf);'' @
     line sp8 ''bb.order(ByteOrder.LITTLE_ENDIAN);'' @
     jv_stmts sp8 (pmarshal_body (java_pstyle P) c) @
     line sp4 ''}''"
proof -
  have "each_field c ps (\<lambda>p info. java_GenMarshalField P info (''this.'' @ java_member P p) sp8) =
      jv_stmts sp8 (concat (map (ps_field_stmts (java_pstyle P)) (infos_of c ps)))" for ps
    by (induction ps) (auto simp: print_java_field [simplified] split: option.splits)
  then show ?thesis
    by (simp add: java_GenMarshalSSZTo_def pmarshal_body_def print_java_static print_java_dynamic)
qed

section \<open>Java text of the size\<close>

fun jv_gexpr :: "gexpr \<Rightarrow> string" where
  "jv_gexpr (GMember f) = ''this.'' @ f"
| "jv_gexpr (GLocal x) = x"
| "jv_gexpr (GIndex e i) = jv_gexpr e @ ''['' @ i @ '']''"

text \<open>
  The info of a field gives the type of the elements of a loop.  Of the statements of \<open>Go_Lang\<close> only
  those of a size occur here.
\<close>

definition jv_item_type :: "Parser \<Rightarrow> SszFieldInfo \<Rightarrow> string" where
  "jv_item_type P info = (if elem_is info SszList then ''byte[]'' else java_elem_struct P info)"

fun jv_size_stmt :: "Parser \<Rightarrow> SszFieldInfo \<Rightarrow> string \<Rightarrow> gstmt \<Rightarrow> string"
  and jv_size_stmts :: "Parser \<Rightarrow> SszFieldInfo \<Rightarrow> string \<Rightarrow> gstmt list \<Rightarrow> string" where
  "jv_size_stmt P info ind (SizeAddMul e k) =
     line ind (''size += '' @ jv_gexpr e @ ''.size() * '' @ NumToString k @ '';'')"
| "jv_size_stmt P info ind (SizeAddLen e) = line ind (''size += '' @ jv_gexpr e @ ''.length;'')"
| "jv_size_stmt P info ind (SizeAddCall e) = line ind (''size += '' @ jv_gexpr e @ ''.sszBytesLen();'')"
| "jv_size_stmt P info ind (ForValue x e b) =
     line ind (''for ('' @ jv_item_type P info @ '' '' @ x @ '' : '' @ jv_gexpr e @ '') {'') @
     jv_size_stmts P info (ind @ sp4) b @ line ind ''}''"
| "jv_size_stmt P info ind _ = []"
| "jv_size_stmts P info ind [] = []"
| "jv_size_stmts P info ind (s # ss) = jv_size_stmt P info ind s @ jv_size_stmts P info ind ss"

lemma print_java_size:
  "java_GenSizeField P info (jv_gexpr e) ind = jv_size_stmts P info ind (size_stmts True True info e)"
  by (cases "ssz_type info"; cases "elem_info info")
    (simp_all add: java_GenSizeField_def size_stmts_def Let_def num_literals jv_item_type_def java_elem_struct_def
      elem_is_def elem_dynamic_def elem_fixed_size_def)

definition jv_size_fields :: "Parser \<Rightarrow> SszContainerInfo \<Rightarrow> string" where
  "jv_size_fields P c =
     concat (map (\<lambda>(p, i). jv_size_stmts P i sp8 (dl_size_stmts (java_dialect P) (p, i)))
       (infos_of c (dynamic_fields c)))"

lemma print_java_size_body:
  "java_GenSszBytesLen P c =
     line sp4 ''public int sszBytesLen() {'' @
     (if is_fixed c then line sp8 (''return '' @ num32 (static_size c) @ '';'')
      else
        line sp8 (''int size = '' @ num32 (static_size c) @ '';'') @
        jv_size_fields P c @ line sp8 ''return size;'') @
     line sp4 ''}''"
proof -
  have "each_field c ps (\<lambda>p info. java_GenSizeField P info (''this.'' @ java_member P p) sp8) =
      concat (map (\<lambda>(p, i). jv_size_stmts P i sp8 (dl_size_stmts (java_dialect P) (p, i))) (infos_of c ps))" for ps
    by (induction ps) (auto simp: print_java_size [of _ _ "GMember f" for f, simplified] split: option.splits)
  then show ?thesis by (simp add: java_GenSszBytesLen_def jv_size_fields_def)
qed

section \<open>Java text of hashing\<close>

text \<open>
  The info of the field gives the types of the elements and says whether a list is an array.
\<close>

fun jv_info :: "SszFieldInfo option \<Rightarrow> gexpr \<Rightarrow> SszFieldInfo option" where
  "jv_info I (GMember f) = I"
| "jv_info I _ = None"

definition jv_len :: "SszFieldInfo option \<Rightarrow> gexpr \<Rightarrow> string" where
  "jv_len I e =
     jv_gexpr e @ (case jv_info I e of Some i \<Rightarrow> if elem_is i SszUint8 then ''.length'' else ''.size()'' | None \<Rightarrow> ''.length'')"

definition jv_hash_type :: "Parser \<Rightarrow> SszFieldInfo option \<Rightarrow> gexpr \<Rightarrow> string" where
  "jv_hash_type P I e =
     (case jv_info I e of
        None \<Rightarrow> []
      | Some i \<Rightarrow> if elem_is i SszList \<and> ssz_type i = SszList then ''byte[]'' else java_elem_type P i)"

fun jv_hstmt :: "Parser \<Rightarrow> SszFieldInfo option \<Rightarrow> string \<Rightarrow> hstmt \<Rightarrow> string"
  and jv_hstmts :: "Parser \<Rightarrow> SszFieldInfo option \<Rightarrow> string \<Rightarrow> hstmt list \<Rightarrow> string" where
  "jv_hstmt P I ind (HNote s) = line ind (''// '' @ s)"
| "jv_hstmt P I ind HBlank = nl"
| "jv_hstmt P I ind (HIndex x) = line ind (''int '' @ x @ '' = hh.index();'')"
| "jv_hstmt P I ind (HPutBool e) = line ind (''hh.putBool('' @ jv_gexpr e @ '');'')"
| "jv_hstmt P I ind (HPutUint w e) = line ind (''hh.putUint'' @ NumToString w @ ''('' @ jv_gexpr e @ '');'')"
| "jv_hstmt P I ind HPutZero = line ind ''hh.putUint8((byte) 0);''"
| "jv_hstmt P I ind (HPutArray e) = line ind (''hh.putBytes('' @ jv_gexpr e @ '');'')"
| "jv_hstmt P I ind (HPutBitlist e l) = line ind (''hh.putBitlist('' @ jv_gexpr e @ '', '' @ num64 l @ '');'')"
| "jv_hstmt P I ind (HAppendBool e) = line ind (''hh.appendBool('' @ jv_gexpr e @ '');'')"
| "jv_hstmt P I ind (HAppendUint w e) = line ind (''hh.appendUint'' @ NumToString w @ ''('' @ jv_gexpr e @ '');'')"
| "jv_hstmt P I ind (HAppendBytes32 e) = line ind (''hh.appendBytes32('' @ jv_gexpr e @ '');'')"
| "jv_hstmt P I ind HFill = line ind ''hh.fillUpTo32();''"
| "jv_hstmt P I ind (HMerkleize x) = line ind (''hh.merkleize('' @ x @ '');'')"
| "jv_hstmt P I ind (HMixin x e l) =
     line ind (''hh.merkleizeWithMixin('' @ x @ '', '' @ jv_len I e @ '', '' @ num64 l @ '');'')"
| "jv_hstmt P I ind (HProgMixin x e) =
     line ind (''hh.merkleizeProgressiveWithMixin('' @ x @ '', '' @ jv_len I e @ '');'')"
| "jv_hstmt P I ind (HProgActive x bs) =
     line ind (''hh.merkleizeProgressiveWithActiveFields('' @ x @ '', new byte[]{'' @
       comma_list (map (\<lambda>b. ''(byte) '' @ hex_byte b) bs) @ ''});'')"
| "jv_hstmt P I ind (HFor i e b) =
     line ind (''for (int '' @ i @ '' = 0; '' @ i @ '' < '' @ jv_gexpr e @ ''.length; '' @ i @ ''++) {'') @
     jv_hstmts P I (ind @ sp4) b @ line ind ''}''"
| "jv_hstmt P I ind (HForVal x e b) =
     line ind (''for ('' @ jv_hash_type P I e @ '' '' @ x @ '' : '' @ jv_gexpr e @ '') {'') @
     jv_hstmts P I (ind @ sp4) b @ line ind ''}''"
| "jv_hstmt P I ind (HBlk b) = line ind ''{'' @ jv_hstmts P I (ind @ sp4) b @ line ind ''}''"
| "jv_hstmt P I ind (HCall e) = line ind (jv_gexpr e @ ''.hashTreeRootWith(hh);'')"
| "jv_hstmt P I ind HPutZeroHash = []"
| "jv_hstmts P I ind [] = []"
| "jv_hstmts P I ind (s # ss) = jv_hstmt P I ind s @ jv_hstmts P I ind ss"

lemma jv_hstmts_append [simp]: "jv_hstmts P I ind (xs @ ys) = jv_hstmts P I ind xs @ jv_hstmts P I ind ys"
  by (induction xs) auto

lemma java_limits:
  "java_ssz_limit_for_bytes = go_ssz_limit_for_bytes" "java_ssz_limit_for_elements = go_ssz_limit_for_elements"
  "java_inner_chunk_limit = go_inner_chunk_limit"
  by (intro ext; simp add: java_ssz_limit_for_bytes_def go_ssz_limit_for_bytes_def java_ssz_limit_for_elements_def
      go_ssz_limit_for_elements_def java_inner_chunk_limit_def go_inner_chunk_limit_def Let_def)+

lemma print_java_append: "java_GenHashPrimitive t (jv_gexpr e) ind = jv_hstmts P I ind (append_stmts t e)"
  by (cases t) (simp_all add: java_GenHashPrimitive_def append_stmts_def num_literals digit_8)

lemmas print_java_append_exprs =
  print_java_append [of _ "GIndex e ''i''" for e, simplified] print_java_append [of _ "GLocal ''v''", simplified]

lemma print_java_hash_vector:
  "java_hash_vector info (jv_gexpr e) ind = jv_hstmts P I ind (hash_vector_stmts True info e)"
  by (simp add: java_hash_vector_def hash_vector_stmts_def sub_tree_def java_sub_tree_def
      java_GenHashPrimitiveArray_def print_java_append_exprs)

lemma print_java_hash_list:
  "ssz_type info = SszList \<Longrightarrow>
   java_hash_list P info (jv_gexpr (GMember f)) ind =
   jv_hstmts P (Some info) ind (hash_list_stmts list_limit info (GMember f))"
  by (cases "elem_info info")
    (simp_all add: elem_is_def java_hash_list_def hash_list_stmts_def hash_elems_stmts_def list_limit_def
      sub_tree_def java_sub_tree_def java_hash_containers_def java_GenHashPrimitiveList_def java_mixin_def
      java_limits print_java_append_exprs jv_len_def jv_hash_type_def java_elem_type_def Let_def)

lemma print_java_hash_progressive:
  "ssz_type info = SszProgressiveList \<Longrightarrow>
   java_hash_progressive_list P info (jv_gexpr (GMember f)) ind =
   jv_hstmts P (Some info) ind (hash_progressive_stmts info (GMember f))"
  by (cases "elem_info info")
    (simp_all add: elem_is_def java_hash_progressive_list_def hash_progressive_stmts_def hash_elems_stmts_def
      sub_tree_def java_sub_tree_def java_hash_containers_def java_GenHashPrimitiveList_def
      print_java_append_exprs jv_len_def jv_hash_type_def java_elem_type_def Let_def)

lemma print_java_hash:
  "java_GenHashField P info (''this.'' @ f) ind = jv_hstmts P (Some info) ind (hash_stmts go_style info (GMember f))"
  using print_java_hash_vector [of info "GMember f" ind P "Some info"] print_java_hash_list [of info P f ind]
    print_java_hash_progressive [of info P f ind]
  by (cases "ssz_type info") (simp_all add: java_GenHashField_def hash_stmts_def num_literals digit_8)

lemma print_java_hash_index:
  "java_hash_index P c i = jv_hstmts P (index_info c i) sp8 (index_stmts go_style (java_dialect P) c i)"
  by (simp add: java_hash_index_def index_stmts_def index_info_def print_java_hash [simplified] split: option.split)

lemma print_java_hash_body:
  "java_GenHashTreeRoot P c =
     line sp4 ''public byte[] hashTreeRoot() {'' @
     line sp8 ''Hasher hh = new Hasher();'' @
     print_pieces (\<lambda>i. jv_hstmts P i sp8) (hash_pieces go_style (java_dialect P) c) @
     line sp8 ''return hh.hashRoot();'' @
     line sp4 ''}''"
proof -
  have "each_field c ps (\<lambda>p info. line sp8 (''// Field '' @ sq @ fd_name (field_at P p) @ sq) @
      java_GenHashField P info (''this.'' @ java_member P p) sp8 @ nl) =
      concat (map (\<lambda>f. jv_hstmts P (Some (snd f)) sp8 (field_hash_stmts go_style (java_dialect P) f)) (infos_of c ps))" for ps
    by (induction ps) (auto simp: field_hash_stmts_def print_java_hash [simplified] split: option.splits)
  moreover have "concat (map (\<lambda>i. java_hash_index P c (of_nat i)) is) =
      concat (map (\<lambda>i. jv_hstmts P (index_info c (of_nat i)) sp8 (index_stmts go_style (java_dialect P) c (of_nat i))) is)"
    for "is" :: "nat list"
    by (induction "is") (auto simp: print_java_hash_index)
  ultimately show ?thesis
    by (simp only: java_GenHashTreeRoot_def hash_pieces_def) (simp del: upt_Suc)
qed

section \<open>The emitted programs\<close>

definition java_decl :: "Parser \<Rightarrow> SszContainerInfo \<Rightarrow> pdecl" where
  "java_decl P = emit_pdecl (java_pstyle P)"

definition java_program :: "nat \<Rightarrow> Parser \<Rightarrow> pprogram" where
  "java_program depth P = emit_pprogram java_AnalyzeContainer (java_pstyle P) depth P"

definition java_sizes :: "nat \<Rightarrow> Parser \<Rightarrow> gprogram" where
  "java_sizes depth P = emit_program java_AnalyzeContainer (java_dialect P) depth P"

text \<open>
  No class declares the \<open>hashTreeRootWith\<close> that the hashing of a nested container calls, so the
  program has no other methods to call.
\<close>

definition java_hashTreeRoot :: "'s walker \<Rightarrow> nat \<Rightarrow> Parser \<Rightarrow> string \<Rightarrow> val list \<Rightarrow> 's \<Rightarrow> 's option" where
  "java_hashTreeRoot W depth P nm vs hh =
     HashTreeRootWith W (emit_hprogram java_AnalyzeContainer go_style (java_dialect P) depth P) 1 nm vs hh"

lemma java_program_eq:
  "java_program depth P = emit_pprogram go_AnalyzeContainer (java_pstyle P) depth P"
  "java_sizes depth P = emit_program go_AnalyzeContainer (java_dialect P) depth P"
  "java_hashTreeRoot W depth P nm vs hh =
     HashTreeRootWith W (emit_hprogram go_AnalyzeContainer go_style (java_dialect P) depth P) 1 nm vs hh"
  by (simp_all only: java_program_def java_sizes_def java_hashTreeRoot_def
      go_copy.emit_pprogram_eq [OF java.go_copy_axioms] go_copy.emit_program_eq [OF java.go_copy_axioms]
      go_copy.emit_hprogram_eq [OF java.go_copy_axioms])

text \<open>
  What Java checks of the names: types and members are distinct, and a member is an identifier and, as
  the generator does not escape them, not a keyword.
\<close>

definition java_identifier :: "string \<Rightarrow> bool" where
  "java_identifier s \<longleftrightarrow> s \<noteq> [] \<and> s \<noteq> ''_'' \<and> \<not> is_digit (hd s)"

definition java_names_ok :: "Parser \<Rightarrow> bool" where
  "java_names_ok P \<longleftrightarrow>
     names_ok (java_dialect P) P \<and>
     list_all (\<lambda>s. list_all (\<lambda>p. java_identifier (java_member P p) \<and> java_member P p \<notin> set (JavaKeywords @ [''true'', ''false'', ''null''])) (live_fields P s))
       [0..<length (struct_store P)]"

end
