(* ===== verification/Csharp_Text.thy ===== *)
theory Csharp_Text
  imports Csharp_Analysis Go_Generator
begin

text \<open>
  The text that the C# back end emits, \<open>src/idl_gen_ssz_csharp.cpp\<close>: names, types, the members and the
  constructor of a class, and the methods \<open>SszBytesLen\<close>, \<open>MarshalSSZ\<close> and \<open>MarshalSSZTo\<close>.
\<close>

section \<open>Names\<close>

definition CSharpKeywords :: "string list" where
  "CSharpKeywords =
     [''abstract'', ''as'', ''base'', ''bool'', ''break'',
      ''byte'', ''case'', ''catch'', ''char'', ''checked'',
      ''class'', ''const'', ''continue'', ''decimal'', ''default'',
      ''delegate'', ''do'', ''double'', ''else'', ''enum'',
      ''event'', ''explicit'', ''extern'', ''false'', ''finally'',
      ''fixed'', ''float'', ''for'', ''foreach'', ''goto'',
      ''if'', ''implicit'', ''in'', ''int'', ''interface'',
      ''internal'', ''is'', ''lock'', ''long'', ''namespace'',
      ''new'', ''null'', ''object'', ''operator'', ''out'',
      ''override'', ''params'', ''private'', ''protected'', ''public'',
      ''readonly'', ''ref'', ''return'', ''sbyte'', ''sealed'',
      ''short'', ''sizeof'', ''stackalloc'', ''static'', ''string'',
      ''struct'', ''switch'', ''this'', ''throw'', ''true'',
      ''try'', ''typeof'', ''uint'', ''ulong'', ''unchecked'',
      ''unsafe'', ''ushort'', ''using'', ''virtual'', ''void'',
      ''volatile'', ''while'']"

definition SszCSharpDefaultConfig :: Config where
  "SszCSharpDefaultConfig =
     \<lparr>cfg_types = kUpperCamel,
      cfg_constants = kUnknown,
      cfg_methods = kUpperCamel,
      cfg_functions = kUpperCamel,
      cfg_fields = kUpperCamel,
      cfg_variables = kLowerCamel,
      cfg_variants = kKeep,
      enum_variant_seperator = '''',
      escape_keywords = AfterConvertingCase,
      cfg_namespaces = kUpperCamel,
      namespace_seperator = ''.'',
      object_prefix = '''',
      object_suffix = '''',
      keyword_prefix = '''',
      keyword_suffix = ''_'',
      keywords_casing = CaseSensitive,
      cfg_filenames = kKeep,
      cfg_directories = kKeep,
      output_path = '''',
      filename_suffix = ''_ssz'',
      filename_extension = ''.cs''\<rparr>"

text \<open>\<open>p\<close> is the character before, if there is one.\<close>

fun csharp_snake_from :: "char option \<Rightarrow> string \<Rightarrow> string" where
  "csharp_snake_from p [] = []"
| "csharp_snake_from p (c # r) =
     (if isupper c then
        (case p of
           None \<Rightarrow> []
         | Some q \<Rightarrow>
             if \<not> isupper q then ''_''
             else if r \<noteq> [] \<and> isupper q \<and> \<not> isupper (hd r) then ''_''
             else []) @ [CharToLower c]
      else [c]) @ csharp_snake_from (Some c) r"

definition csharp_ToSnakeCase :: "string \<Rightarrow> string" where
  "csharp_ToSnakeCase input = csharp_snake_from None input"

definition csharp_namer :: "SszGenerator \<Rightarrow> Config" where
  "csharp_namer G = WithFlagOptions SszCSharpDefaultConfig (gen_opts G) (gen_path G)"

abbreviation csharp_Field :: "SszGenerator \<Rightarrow> FieldPtr \<Rightarrow> string" where
  "csharp_Field G p \<equiv> Field (csharp_namer G) CSharpKeywords (field_at (gen_parser G) p)"

section \<open>Types\<close>

definition CSharpPrimitiveTypeName :: "SszType \<Rightarrow> string" where
  "CSharpPrimitiveTypeName t =
     (case t of
        SszBool \<Rightarrow> ''bool''
      | SszUint8 \<Rightarrow> ''byte''
      | SszUint16 \<Rightarrow> ''ushort''
      | SszUint32 \<Rightarrow> ''uint''
      | SszUint64 \<Rightarrow> ''ulong''
      | _ \<Rightarrow> ''byte'')"

definition csharp_vector_type :: "Parser \<Rightarrow> SszFieldInfo \<Rightarrow> string" where
  "csharp_vector_type P info =
     (case elem_info info of
        None \<Rightarrow> ''byte[]''
      | Some e \<Rightarrow>
          if ssz_type e = SszUint8 then ''byte[]''
          else if ssz_type e = SszContainer then info_struct_name P '''' e @ ''[]''
          else CSharpPrimitiveTypeName (ssz_type e) @ ''[]'')"

definition csharp_list_type :: "Parser \<Rightarrow> SszFieldInfo \<Rightarrow> FieldDef \<Rightarrow> string" where
  "csharp_list_type P info field =
     (if base_type (field_type field) = BASE_TYPE_STRING then ''byte[]''
      else (case elem_info info of
              None \<Rightarrow> ''byte[]''
            | Some e \<Rightarrow>
                if ssz_type e = SszUint8 then ''byte[]''
                else if ssz_type e = SszList then ''List<byte[]>''
                else if ssz_type e = SszContainer then ''List<'' @ info_struct_name P '''' e @ ''>''
                else CSharpPrimitiveTypeName (ssz_type e) @ ''[]''))"

definition CSharpTypeName :: "Parser \<Rightarrow> SszFieldInfo \<Rightarrow> FieldDef \<Rightarrow> string" where
  "CSharpTypeName P info field =
     (case ssz_type info of
        SszBool \<Rightarrow> ''bool''
      | SszUint8 \<Rightarrow> ''byte''
      | SszUint16 \<Rightarrow> ''ushort''
      | SszUint32 \<Rightarrow> ''uint''
      | SszUint64 \<Rightarrow> ''ulong''
      | SszUint128 \<Rightarrow> ''byte[]''
      | SszUint256 \<Rightarrow> ''byte[]''
      | SszContainer \<Rightarrow> info_struct_name P ''object'' info
      | SszVector \<Rightarrow> csharp_vector_type P info
      | SszProgressiveList \<Rightarrow> csharp_list_type P info field
      | SszList \<Rightarrow> csharp_list_type P info field
      | SszBitlist \<Rightarrow> ''byte[]''
      | SszBitvector \<Rightarrow> ''byte[]''
      | SszProgressiveContainer \<Rightarrow> info_struct_name P ''object'' info
      | SszUnion \<Rightarrow> ''object'')"

section \<open>Members and constructor\<close>

definition csharp_FieldInitializer :: "Parser \<Rightarrow> SszFieldInfo \<Rightarrow> string" where
  "csharp_FieldInitializer P info =
     (case ssz_type info of
        SszUint128 \<Rightarrow> ''new byte[16]''
      | SszUint256 \<Rightarrow> ''new byte[32]''
      | SszVector \<Rightarrow>
          (case elem_info info of
             None \<Rightarrow> ''new byte[0]''
           | Some e \<Rightarrow>
               if ssz_type e = SszUint8 then ''new byte['' @ num64 (info_limit info) @ '']''
               else if ssz_type e = SszContainer then
                 ''new '' @ info_struct_name P '''' e @ ''['' @ num64 (info_limit info) @ '']''
               else ''new '' @ CSharpPrimitiveTypeName (ssz_type e) @ ''['' @ num64 (info_limit info) @ '']'')
      | SszBitvector \<Rightarrow> ''new byte['' @ num32 ((bitsize info + 7) div 8) @ '']''
      | SszContainer \<Rightarrow>
          (case info_struct info of Some s \<Rightarrow> ''new '' @ sd_name (struct_at P s) @ ''()'' | None \<Rightarrow> ''null'')
      | _ \<Rightarrow> [])"

definition csharp_NeedsConstructorInit :: "SszFieldInfo \<Rightarrow> bool" where
  "csharp_NeedsConstructorInit info =
     (case ssz_type info of
        SszUint128 \<Rightarrow> True
      | SszUint256 \<Rightarrow> True
      | SszVector \<Rightarrow> True
      | SszBitvector \<Rightarrow> True
      | SszContainer \<Rightarrow> info_struct info \<noteq> None
      | _ \<Rightarrow> False)"

definition csharp_GenCSharpFields :: "SszGenerator \<Rightarrow> SszContainerInfo \<Rightarrow> string" where
  "csharp_GenCSharpFields G container =
     each_field container (all_fields container) (\<lambda>p info.
       line sp8 (''public '' @ CSharpTypeName (gen_parser G) info (field_at (gen_parser G) p) @ '' '' @
         csharp_Field G p @ '';''))"

definition csharp_needs_ctor :: "SszContainerInfo \<Rightarrow> bool" where
  "csharp_needs_ctor container =
     list_ex (\<lambda>p. case field_infos container p of None \<Rightarrow> False | Some info \<Rightarrow> csharp_NeedsConstructorInit info)
       (all_fields container)"

definition csharp_GenCSharpConstructor :: "SszGenerator \<Rightarrow> StructDef \<Rightarrow> SszContainerInfo \<Rightarrow> string" where
  "csharp_GenCSharpConstructor G struct_def container =
     (if \<not> csharp_needs_ctor container then []
      else
        line sp8 (''public '' @ sd_name struct_def @ ''()'') @
        line sp8 ''{'' @
        each_field container (all_fields container) (\<lambda>p info.
          if csharp_NeedsConstructorInit info then
            line sp12 (csharp_Field G p @ '' = '' @ csharp_FieldInitializer (gen_parser G) info @ '';'')
          else []) @
        line sp8 ''}'')"

section \<open>Size\<close>

definition csharp_GenSizeField :: "SszFieldInfo \<Rightarrow> string \<Rightarrow> string \<Rightarrow> string" where
  "csharp_GenSizeField info var indent =
     (let list_size =
        (case elem_info info of
           None \<Rightarrow> line indent (''size += '' @ var @ ''.Length;'')
         | Some e \<Rightarrow>
             if ssz_type e = SszList then
               line indent (''size += '' @ var @ ''.Count * 4;'') @
               line indent (''foreach (var item in '' @ var @ '')'') @
               line (indent @ sp4) ''size += item.Length;''
             else if ssz_type e = SszContainer \<and> is_dynamic e then
               line indent (''size += '' @ var @ ''.Count * 4;'') @
               line indent (''foreach (var item in '' @ var @ '')'') @
               line (indent @ sp4) ''size += item.SszBytesLen();''
             else if ssz_type e = SszContainer then
               line indent (''size += '' @ var @ ''.Count * '' @ num32 (fixed_size e) @ '';'')
             else if ssz_type e = SszUint8 then line indent (''size += '' @ var @ ''.Length;'')
             else line indent (''size += '' @ var @ ''.Length * '' @ num32 (fixed_size e) @ '';''))
      in case ssz_type info of
           SszProgressiveList \<Rightarrow> list_size
         | SszList \<Rightarrow> list_size
         | SszBitlist \<Rightarrow> line indent (''size += '' @ var @ ''.Length;'')
         | SszContainer \<Rightarrow> line indent (''size += '' @ var @ ''.SszBytesLen();'')
         | _ \<Rightarrow> [])"

definition csharp_GenSszBytesLen :: "SszGenerator \<Rightarrow> SszContainerInfo \<Rightarrow> string" where
  "csharp_GenSszBytesLen G container =
     line sp8 ''public int SszBytesLen()'' @
     line sp8 ''{'' @
     (if is_fixed container then line sp12 (''return '' @ num32 (static_size container) @ '';'')
      else
        line sp12 (''int size = '' @ num32 (static_size container) @ '';'') @
        each_field container (dynamic_fields container) (\<lambda>p info.
          csharp_GenSizeField info (csharp_Field G p) sp12) @
        line sp12 ''return size;'') @
     line sp8 ''}''"

section \<open>Encoding\<close>

definition csharp_GenMarshalSSZ :: string where
  "csharp_GenMarshalSSZ =
     line sp8 ''public byte[] MarshalSSZ()'' @
     line sp8 ''{'' @
     line sp12 ''byte[] buf = new byte[SszBytesLen()];'' @
     line sp12 ''MarshalSSZTo(buf);'' @
     line sp12 ''return buf;'' @
     line sp8 ''}''"

text \<open>A statement that writes, and the one that moves the position.\<close>

definition csharp_write :: "string \<Rightarrow> string \<Rightarrow> string \<Rightarrow> string" where
  "csharp_write stmt n indent = line indent (stmt @ '';'') @ line indent (''offset += '' @ n @ '';'')"

definition csharp_put_bool :: "string \<Rightarrow> string \<Rightarrow> string" where
  "csharp_put_bool var indent = csharp_write (''buf[offset] = (byte)('' @ var @ '' ? 1 : 0)'') ''1'' indent"

definition csharp_put_uint :: "string \<Rightarrow> string \<Rightarrow> string \<Rightarrow> string \<Rightarrow> string" where
  "csharp_put_uint w n var indent =
     csharp_write (''BinaryPrimitives.WriteUInt'' @ w @ ''LittleEndian(buf.Slice(offset), '' @ var @ '')'') n indent"

text \<open>As many bytes as a type has, and all bytes of an array.\<close>

definition csharp_copy_fixed :: "string \<Rightarrow> string \<Rightarrow> string \<Rightarrow> string" where
  "csharp_copy_fixed n var indent = csharp_write (var @ ''.AsSpan().CopyTo(buf.Slice(offset, '' @ n @ ''))'') n indent"

definition csharp_copy_all :: "string \<Rightarrow> string \<Rightarrow> string" where
  "csharp_copy_all var indent = csharp_write (var @ ''.AsSpan().CopyTo(buf.Slice(offset))'') (var @ ''.Length'') indent"

definition csharp_nested :: "string \<Rightarrow> string \<Rightarrow> string \<Rightarrow> string" where
  "csharp_nested n var indent = csharp_write (var @ ''.MarshalSSZTo(buf.Slice(offset))'') n indent"

definition csharp_put_offset :: "string \<Rightarrow> string \<Rightarrow> string \<Rightarrow> string" where
  "csharp_put_offset pos base indent =
     line indent (''BinaryPrimitives.WriteUInt32LittleEndian(buf.Slice('' @ pos @ ''), (uint)(offset - '' @ base @ ''));'')"

definition csharp_marshal_primitive :: "SszType \<Rightarrow> string \<Rightarrow> string \<Rightarrow> string" where
  "csharp_marshal_primitive ty var indent =
     (case ty of
        SszBool \<Rightarrow> csharp_put_bool var indent
      | SszUint16 \<Rightarrow> csharp_put_uint ''16'' ''2'' var indent
      | SszUint32 \<Rightarrow> csharp_put_uint ''32'' ''4'' var indent
      | SszUint64 \<Rightarrow> csharp_put_uint ''64'' ''8'' var indent
      | _ \<Rightarrow> [])"

definition csharp_GenMarshalPrimitiveArray :: "SszFieldInfo \<Rightarrow> string \<Rightarrow> string \<Rightarrow> string" where
  "csharp_GenMarshalPrimitiveArray info var indent =
     line indent (''for (int i = 0; i < '' @ var @ ''.Length; i++)'') @
     line indent ''{'' @
     csharp_marshal_primitive (elem_ssz_type info) (var @ ''[i]'') (indent @ sp4) @
     line indent ''}''"

definition csharp_GenMarshalPrimitiveSlice :: "SszFieldInfo \<Rightarrow> string \<Rightarrow> string \<Rightarrow> string" where
  "csharp_GenMarshalPrimitiveSlice info var indent =
     line indent (''for (int i = 0; i < '' @ var @ ''.Length; i++)'') @
     line indent ''{'' @
     csharp_marshal_primitive (elem_ssz_type info) (var @ ''[i]'') (indent @ sp4) @
     line indent ''}''"

text \<open>A list of variable-size elements; \<open>body\<close> are the lines that write the element.\<close>

definition csharp_offset_list :: "string \<Rightarrow> string \<Rightarrow> string \<Rightarrow> string" where
  "csharp_offset_list var indent body =
     line indent ''{'' @
     line (indent @ sp4) ''int listStart = offset;'' @
     line (indent @ sp4) (''for (int i = 0; i < '' @ var @ ''.Count; i++)'') @
     line (indent @ sp8) ''offset += 4;'' @
     line (indent @ sp4) (''for (int i = 0; i < '' @ var @ ''.Count; i++)'') @
     line (indent @ sp4) ''{'' @
     csharp_put_offset ''listStart + i * 4'' ''listStart'' (indent @ sp8) @
     body @
     line (indent @ sp4) ''}'' @
     line indent ''}''"

definition csharp_marshal_vector :: "SszFieldInfo \<Rightarrow> string \<Rightarrow> string \<Rightarrow> string" where
  "csharp_marshal_vector info var indent =
     (if elem_is info SszUint8 then csharp_copy_fixed (num32 (fixed_size info)) var indent
      else if elem_is info SszContainer then
        line indent (''for (int i = 0; i < '' @ var @ ''.Length; i++)'') @
        line indent ''{'' @
        csharp_nested (num32 (elem_fixed_size info)) (var @ ''[i]'') (indent @ sp4) @
        line indent ''}''
      else if elem_info info \<noteq> None then csharp_GenMarshalPrimitiveArray info var indent
      else [])"

definition csharp_marshal_list :: "SszFieldInfo \<Rightarrow> string \<Rightarrow> string \<Rightarrow> string" where
  "csharp_marshal_list info var indent =
     (if elem_is info SszList then csharp_offset_list var indent (csharp_copy_all (var @ ''[i]'') (indent @ sp8))
      else if elem_is info SszUint8 then csharp_copy_all var indent
      else if elem_is info SszContainer then
        (if elem_dynamic info then
           csharp_offset_list var indent
             (csharp_nested (var @ ''[i].SszBytesLen()'') (var @ ''[i]'') (indent @ sp8))
         else
           line indent (''foreach (var item in '' @ var @ '')'') @
           line indent ''{'' @
           csharp_nested (num32 (elem_fixed_size info)) ''item'' (indent @ sp4) @
           line indent ''}'')
      else if elem_info info \<noteq> None then csharp_GenMarshalPrimitiveSlice info var indent
      else csharp_copy_all var indent)"

definition csharp_GenMarshalField :: "SszFieldInfo \<Rightarrow> string \<Rightarrow> string \<Rightarrow> string" where
  "csharp_GenMarshalField info var indent =
     (case ssz_type info of
        SszBool \<Rightarrow> csharp_put_bool var indent
      | SszUint8 \<Rightarrow> csharp_write (''buf[offset] = '' @ var) ''1'' indent
      | SszUint16 \<Rightarrow> csharp_put_uint ''16'' ''2'' var indent
      | SszUint32 \<Rightarrow> csharp_put_uint ''32'' ''4'' var indent
      | SszUint64 \<Rightarrow> csharp_put_uint ''64'' ''8'' var indent
      | SszUint128 \<Rightarrow> csharp_copy_fixed ''16'' var indent
      | SszUint256 \<Rightarrow> csharp_copy_fixed ''32'' var indent
      | SszVector \<Rightarrow> csharp_marshal_vector info var indent
      | SszProgressiveList \<Rightarrow> csharp_marshal_list info var indent
      | SszList \<Rightarrow> csharp_marshal_list info var indent
      | SszBitlist \<Rightarrow> csharp_copy_all var indent
      | SszBitvector \<Rightarrow> csharp_copy_fixed (num32 (fixed_size info)) var indent
      | SszContainer \<Rightarrow> csharp_nested (num32 (fixed_size info)) var indent
      | SszProgressiveContainer \<Rightarrow> csharp_nested (var @ ''.SszBytesLen()'') var indent
      | SszUnion \<Rightarrow> [])"

fun csharp_static_fields :: "SszGenerator \<Rightarrow> SszContainerInfo \<Rightarrow> nat \<Rightarrow> FieldPtr list \<Rightarrow> string" where
  "csharp_static_fields G container dyn_idx [] = []"
| "csharp_static_fields G container dyn_idx (p # ps) =
     (case field_infos container p of
        None \<Rightarrow> csharp_static_fields G container dyn_idx ps
      | Some info \<Rightarrow>
          let name = fd_name (field_at (gen_parser G) p) in
          if is_dynamic info then
            line sp12 (''// Offset placeholder for '' @ sq @ name @ sq) @
            line sp12 (''int offsetPos'' @ NumToString dyn_idx @ '' = offset;'') @
            line sp12 ''offset += 4;'' @
            csharp_static_fields G container (dyn_idx + 1) ps
          else
            line sp12 (''// Field '' @ sq @ name @ sq) @
            csharp_GenMarshalField info (csharp_Field G p) sp12 @
            csharp_static_fields G container dyn_idx ps)"

fun csharp_dynamic_fields :: "SszGenerator \<Rightarrow> SszContainerInfo \<Rightarrow> nat \<Rightarrow> FieldPtr list \<Rightarrow> string" where
  "csharp_dynamic_fields G container dyn_idx [] = []"
| "csharp_dynamic_fields G container dyn_idx (p # ps) =
     (case field_infos container p of
        None \<Rightarrow> csharp_dynamic_fields G container dyn_idx ps
      | Some info \<Rightarrow>
          if is_dynamic info then
            line sp12 (''// Dynamic field '' @ sq @ fd_name (field_at (gen_parser G) p) @ sq) @
            csharp_put_offset (''offsetPos'' @ NumToString dyn_idx) ''fixedStart'' sp12 @
            csharp_GenMarshalField info (csharp_Field G p) sp12 @
            csharp_dynamic_fields G container (dyn_idx + 1) ps
          else csharp_dynamic_fields G container dyn_idx ps)"

definition csharp_GenMarshalSSZTo :: "SszGenerator \<Rightarrow> SszContainerInfo \<Rightarrow> string" where
  "csharp_GenMarshalSSZTo G container =
     line sp8 ''public void MarshalSSZTo(Span<byte> buf)'' @
     line sp8 ''{'' @
     line sp12 ''int offset = 0;'' @
     (if dynamic_fields container = [] then
        each_field container (all_fields container) (\<lambda>p info.
          csharp_GenMarshalField info (csharp_Field G p) sp12)
      else
        line sp12 ''int fixedStart = offset;'' @ nl @
        csharp_static_fields G container 0 (all_fields container) @ nl @
        csharp_dynamic_fields G container 0 (all_fields container)) @
     line sp8 ''}''"

end
