(* ===== verification/Csharp_Generator.thy ===== *)
theory Csharp_Generator
  imports Csharp_Text
begin

text \<open>
  The decoding and hashing methods that the C# back end emits, the code of one class, and
  \<open>generate\<close>, which writes one file for the schema.
\<close>

section \<open>Decoding\<close>

definition csharp_throw :: "string \<Rightarrow> string \<Rightarrow> string" where
  "csharp_throw indent msg = line indent (''throw new SszError('' @ dq @ msg @ dq @ '');'')"

definition csharp_read :: "string \<Rightarrow> string \<Rightarrow> string" where
  "csharp_read w src = ''BinaryPrimitives.ReadUInt'' @ w @ ''LittleEndian('' @ src @ '')''"

text \<open>A statement that reads at \<open>offset\<close>, and the one that moves it.\<close>

definition csharp_advance :: "string \<Rightarrow> string \<Rightarrow> string" where
  "csharp_advance n indent = line indent (''offset += '' @ n @ '';'')"

definition csharp_get_bool :: "string \<Rightarrow> string \<Rightarrow> string" where
  "csharp_get_bool var indent =
     line indent ''if (bytes[offset] > 1)'' @
     csharp_throw (indent @ sp4) ''invalid bool'' @
     line indent (var @ '' = bytes[offset] == 1;'') @
     csharp_advance ''1'' indent"

definition csharp_get_uint :: "string \<Rightarrow> string \<Rightarrow> string \<Rightarrow> string \<Rightarrow> string" where
  "csharp_get_uint w n var indent =
     line indent (var @ '' = '' @ csharp_read w ''bytes.Slice(offset)'' @ '';'') @ csharp_advance n indent"

definition csharp_get_bytes :: "string \<Rightarrow> string \<Rightarrow> string \<Rightarrow> string" where
  "csharp_get_bytes n var indent =
     line indent (''bytes.Slice(offset, '' @ n @ '').CopyTo('' @ var @ ''.AsSpan());'') @ csharp_advance n indent"

definition csharp_get_nested :: "string \<Rightarrow> string \<Rightarrow> string \<Rightarrow> string \<Rightarrow> string" where
  "csharp_get_nested name n var indent =
     line indent (var @ '' = '' @ name @ ''.FromSSZBytes(bytes.Slice(offset, '' @ n @ ''));'') @ csharp_advance n indent"

definition csharp_GenUnmarshalPrimitiveArray :: "SszFieldInfo \<Rightarrow> string \<Rightarrow> string \<Rightarrow> string" where
  "csharp_GenUnmarshalPrimitiveArray info var indent =
     (let elem_size = num32 (elem_fixed_size info) in
      line indent (''for (int i = 0; i < '' @ var @ ''.Length; i++)'') @
      line indent ''{'' @
      (case elem_ssz_type info of
         SszBool \<Rightarrow> csharp_get_bool (var @ ''[i]'') (indent @ sp4)
       | SszUint16 \<Rightarrow> csharp_get_uint ''16'' elem_size (var @ ''[i]'') (indent @ sp4)
       | SszUint32 \<Rightarrow> csharp_get_uint ''32'' elem_size (var @ ''[i]'') (indent @ sp4)
       | SszUint64 \<Rightarrow> csharp_get_uint ''64'' elem_size (var @ ''[i]'') (indent @ sp4)
       | _ \<Rightarrow> []) @
      line indent ''}'')"

definition csharp_unmarshal_vector :: "Parser \<Rightarrow> SszFieldInfo \<Rightarrow> string \<Rightarrow> string \<Rightarrow> string" where
  "csharp_unmarshal_vector P info var indent =
     (case elem_info info of
        None \<Rightarrow> []
      | Some e \<Rightarrow>
          if ssz_type e = SszUint8 then csharp_get_bytes (num32 (fixed_size info)) var indent
          else if ssz_type e = SszContainer then
            line indent (''for (int i = 0; i < '' @ var @ ''.Length; i++)'') @
            line indent ''{'' @
            csharp_get_nested (info_struct_name P '''' e) (num32 (fixed_size e)) (var @ ''[i]'') (indent @ sp4) @
            line indent ''}''
          else csharp_GenUnmarshalPrimitiveArray info var indent)"

definition csharp_GenUnmarshalField :: "Parser \<Rightarrow> SszFieldInfo \<Rightarrow> string \<Rightarrow> string \<Rightarrow> string" where
  "csharp_GenUnmarshalField P info var indent =
     (case ssz_type info of
        SszBool \<Rightarrow> csharp_get_bool var indent
      | SszUint8 \<Rightarrow> line indent (var @ '' = bytes[offset];'') @ csharp_advance ''1'' indent
      | SszUint16 \<Rightarrow> csharp_get_uint ''16'' ''2'' var indent
      | SszUint32 \<Rightarrow> csharp_get_uint ''32'' ''4'' var indent
      | SszUint64 \<Rightarrow> csharp_get_uint ''64'' ''8'' var indent
      | SszUint128 \<Rightarrow> csharp_get_bytes ''16'' var indent
      | SszUint256 \<Rightarrow> csharp_get_bytes ''32'' var indent
      | SszVector \<Rightarrow> csharp_unmarshal_vector P info var indent
      | SszBitvector \<Rightarrow> csharp_get_bytes (num32 (fixed_size info)) var indent
      | SszContainer \<Rightarrow> csharp_get_nested (info_struct_name P '''' info) (num32 (fixed_size info)) var indent
      | _ \<Rightarrow> [])"

definition csharp_GenUnmarshalPrimitiveSlice :: "SszFieldInfo \<Rightarrow> string \<Rightarrow> string \<Rightarrow> string" where
  "csharp_GenUnmarshalPrimitiveSlice info var indent =
     (let elem_size = num32 (elem_fixed_size info);
          get = (\<lambda>w. line (indent @ sp8) (var @ ''[i] = '' @ csharp_read w ''dynBuf.Slice(off)'' @ '';''))
      in line indent ''{'' @
         line (indent @ sp4) (''int count = dynBuf.Length / '' @ elem_size @ '';'') @
         line (indent @ sp4) (var @ '' = new '' @ CSharpPrimitiveTypeName (elem_ssz_type info) @ ''[count];'') @
         line (indent @ sp4) ''for (int i = 0; i < count; i++)'' @
         line (indent @ sp4) ''{'' @
         line (indent @ sp8) (''int off = i * '' @ elem_size @ '';'') @
         (case elem_ssz_type info of
            SszBool \<Rightarrow>
              line (indent @ sp8) ''if (dynBuf[off] > 1)'' @
              csharp_throw (indent @ sp12) ''invalid bool'' @
              line (indent @ sp8) (var @ ''[i] = dynBuf[off] == 1;'')
          | SszUint16 \<Rightarrow> get ''16''
          | SszUint32 \<Rightarrow> get ''32''
          | SszUint64 \<Rightarrow> get ''64''
          | _ \<Rightarrow> []) @
         line (indent @ sp4) ''}'' @
         line indent ''}'')"

text \<open>A list of variable-size elements: the type of the list and the expression of an element.\<close>

definition csharp_unmarshal_offsets :: "string \<Rightarrow> string \<Rightarrow> string \<Rightarrow> string \<Rightarrow> string" where
  "csharp_unmarshal_offsets var ty elem indent =
     line indent ''if (dynBuf.Length > 0)'' @
     line indent ''{'' @
     line (indent @ sp4) (''int firstOff = (int)'' @ csharp_read ''32'' ''dynBuf'' @ '';'') @
     line (indent @ sp4) ''if (firstOff % 4 != 0)'' @
     csharp_throw (indent @ sp8) ''invalid offset'' @
     line (indent @ sp4) ''int count = firstOff / 4;'' @
     line (indent @ sp4) (var @ '' = new '' @ ty @ ''(count);'') @
     line (indent @ sp4) ''for (int i = 0; i < count; i++)'' @
     line (indent @ sp4) ''{'' @
     line (indent @ sp8) (''int start = (int)'' @ csharp_read ''32'' ''dynBuf.Slice(i * 4)'' @ '';'') @
     line (indent @ sp8) (''int end = (i + 1 < count) ? (int)'' @ csharp_read ''32'' ''dynBuf.Slice((i + 1) * 4)'' @
       '' : dynBuf.Length;'') @
     line (indent @ sp8) ''if (start > end || end > dynBuf.Length)'' @
     csharp_throw (indent @ sp12) ''invalid offset'' @
     line (indent @ sp8) (var @ ''.Add('' @ elem @ '');'') @
     line (indent @ sp4) ''}'' @
     line indent ''}'' @
     line indent ''else'' @
     line indent ''{'' @
     line (indent @ sp4) (var @ '' = new '' @ ty @ ''();'') @
     line indent ''}''"

definition csharp_unmarshal_list :: "Parser \<Rightarrow> SszFieldInfo \<Rightarrow> FieldDef \<Rightarrow> string \<Rightarrow> string \<Rightarrow> string" where
  "csharp_unmarshal_list P info field var indent =
     (case elem_info info of
        None \<Rightarrow> line indent (var @ '' = dynBuf.ToArray();'')
      | Some e \<Rightarrow>
          if ssz_type e = SszList then
            csharp_unmarshal_offsets var ''List<byte[]>'' ''dynBuf.Slice(start, end - start).ToArray()'' indent
          else if ssz_type e = SszUint8 then line indent (var @ '' = dynBuf.ToArray();'')
          else if ssz_type e = SszContainer then
            (let name = info_struct_name P '''' e in
             if is_dynamic e then
               csharp_unmarshal_offsets var (CSharpTypeName P info field)
                 (name @ ''.FromSSZBytes(dynBuf.Slice(start, end - start))'') indent
             else
               (let elem_size = num32 (fixed_size e) in
                line indent ''{'' @
                line (indent @ sp4) (''int count = dynBuf.Length / '' @ elem_size @ '';'') @
                line (indent @ sp4) (var @ '' = new '' @ CSharpTypeName P info field @ ''(count);'') @
                line (indent @ sp4) ''for (int i = 0; i < count; i++)'' @
                line (indent @ sp4) ''{'' @
                line (indent @ sp8) (''int off = i * '' @ elem_size @ '';'') @
                line (indent @ sp8) (var @ ''.Add('' @ name @ ''.FromSSZBytes(dynBuf.Slice(off, '' @ elem_size @ '')));'') @
                line (indent @ sp4) ''}'' @
                line indent ''}''))
          else csharp_GenUnmarshalPrimitiveSlice info var indent)"

definition csharp_GenUnmarshalDynField :: "Parser \<Rightarrow> SszFieldInfo \<Rightarrow> FieldDef \<Rightarrow> string \<Rightarrow> string \<Rightarrow> string" where
  "csharp_GenUnmarshalDynField P info field var indent =
     (case ssz_type info of
        SszProgressiveList \<Rightarrow> csharp_unmarshal_list P info field var indent
      | SszList \<Rightarrow> csharp_unmarshal_list P info field var indent
      | SszBitlist \<Rightarrow> line indent (var @ '' = dynBuf.ToArray();'')
      | SszContainer \<Rightarrow> line indent (var @ '' = '' @ info_struct_name P '''' info @ ''.FromSSZBytes(dynBuf);'')
      | _ \<Rightarrow> [])"

definition csharp_read_offset :: "SszContainerInfo \<Rightarrow> nat \<Rightarrow> string" where
  "csharp_read_offset container dyn_idx =
     (let k = NumToString dyn_idx in
      line sp12 (''int dynOffset'' @ k @ '' = (int)'' @ csharp_read ''32'' ''bytes.Slice(offset)'' @ '';'') @
      csharp_advance ''4'' sp12 @
      (if dyn_idx = 0 then line sp12 (''if (dynOffset0 != '' @ num32 (static_size container) @ '')'')
       else line sp12 (''if (dynOffset'' @ k @ '' < dynOffset'' @ NumToString (dyn_idx - 1) @ '' || dynOffset'' @ k @
         '' > bytes.Length)'')) @
      csharp_throw sp16 ''invalid offset'')"

fun csharp_unmarshal_static :: "SszGenerator \<Rightarrow> SszContainerInfo \<Rightarrow> nat \<Rightarrow> FieldPtr list \<Rightarrow> string" where
  "csharp_unmarshal_static G container dyn_idx [] = []"
| "csharp_unmarshal_static G container dyn_idx (p # ps) =
     (case field_infos container p of
        None \<Rightarrow> csharp_unmarshal_static G container dyn_idx ps
      | Some info \<Rightarrow>
          if is_dynamic info then
            csharp_read_offset container dyn_idx @
            csharp_unmarshal_static G container (dyn_idx + 1) ps
          else
            csharp_GenUnmarshalField (gen_parser G) info (''t.'' @ csharp_Field G p) sp12 @
            csharp_unmarshal_static G container dyn_idx ps)"

text \<open>The loop over \<open>dyn_offset_names\<close>, the dynamic fields that the loop before has met.\<close>

definition csharp_dyn_offset_names :: "SszContainerInfo \<Rightarrow> FieldPtr list" where
  "csharp_dyn_offset_names container =
     filter (\<lambda>p. case field_infos container p of None \<Rightarrow> False | Some info \<Rightarrow> is_dynamic info) (all_fields container)"

fun csharp_unmarshal_dynamic :: "SszGenerator \<Rightarrow> SszContainerInfo \<Rightarrow> nat \<Rightarrow> FieldPtr list \<Rightarrow> string" where
  "csharp_unmarshal_dynamic G container i [] = []"
| "csharp_unmarshal_dynamic G container i (p # ps) =
     (case field_infos container p of
        None \<Rightarrow> csharp_unmarshal_dynamic G container (i + 1) ps
      | Some info \<Rightarrow>
          let start_off = ''dynOffset'' @ NumToString i;
              end_off = (if ps = [] then ''bytes.Length'' else ''dynOffset'' @ NumToString (i + 1))
          in line sp12 ''{'' @
             line sp16 (''var dynBuf = bytes.Slice('' @ start_off @ '', '' @ end_off @ '' - '' @ start_off @ '');'') @
             csharp_GenUnmarshalDynField (gen_parser G) info (field_at (gen_parser G) p) (''t.'' @ csharp_Field G p) sp16 @
             line sp12 ''}'' @
             csharp_unmarshal_dynamic G container (i + 1) ps)"

definition csharp_GenFromSSZBytes :: "SszGenerator \<Rightarrow> StructDef \<Rightarrow> SszContainerInfo \<Rightarrow> string" where
  "csharp_GenFromSSZBytes G struct_def container =
     (let type_name = sd_name struct_def in
      line sp8 (''public static '' @ type_name @ '' FromSSZBytes(ReadOnlySpan<byte> bytes)'') @
      line sp8 ''{'' @
      line sp12 (''if (bytes.Length < '' @ num32 (static_size container) @ '')'') @
      csharp_throw sp16 ''buffer too small'' @ nl @
      line sp12 (''var t = new '' @ type_name @ ''();'') @
      line sp12 ''int offset = 0;'' @ nl @
      (if dynamic_fields container = [] then
         each_field container (all_fields container) (\<lambda>p info.
           csharp_GenUnmarshalField (gen_parser G) info (''t.'' @ csharp_Field G p) sp12)
       else
         csharp_unmarshal_static G container 0 (all_fields container) @ nl @
         csharp_unmarshal_dynamic G container 0 (csharp_dyn_offset_names container)) @ nl @
      line sp12 ''return t;'' @
      line sp8 ''}'')"

section \<open>Hashing\<close>

definition csharp_ssz_limit_for_bytes :: "u64 \<Rightarrow> u64" where
  "csharp_ssz_limit_for_bytes max_bytes = (max_bytes + 31) div 32"

definition csharp_ssz_limit_for_elements :: "u64 \<Rightarrow> u32 \<Rightarrow> u64" where
  "csharp_ssz_limit_for_elements max_elements elem_size =
     (if elem_size \<ge> 32 then max_elements
      else let elems_per_chunk = ucast (32 div elem_size)
           in (max_elements + elems_per_chunk - 1) div elems_per_chunk)"

definition csharp_GenHashPrimitive :: "SszType \<Rightarrow> string \<Rightarrow> string \<Rightarrow> bool \<Rightarrow> string" where
  "csharp_GenHashPrimitive ty var indent is_append =
     (let method = (if is_append then ''Append'' else ''Put'') in
      case ty of
        SszBool \<Rightarrow> line indent (''hh.'' @ method @ ''Bool('' @ var @ '');'')
      | SszUint8 \<Rightarrow> line indent (''hh.'' @ method @ ''Uint8('' @ var @ '');'')
      | SszUint16 \<Rightarrow> line indent (''hh.'' @ method @ ''Uint16('' @ var @ '');'')
      | SszUint32 \<Rightarrow> line indent (''hh.'' @ method @ ''Uint32('' @ var @ '');'')
      | SszUint64 \<Rightarrow> line indent (''hh.'' @ method @ ''Uint64('' @ var @ '');'')
      | _ \<Rightarrow> [])"

definition csharp_GenHashPrimitiveArray :: "SszFieldInfo \<Rightarrow> string \<Rightarrow> string \<Rightarrow> string" where
  "csharp_GenHashPrimitiveArray info var indent =
     line indent (''for (int i = 0; i < '' @ var @ ''.Length; i++)'') @
     csharp_GenHashPrimitive (elem_ssz_type info) (var @ ''[i]'') (indent @ sp4) True"

definition csharp_GenHashPrimitiveSlice :: "SszFieldInfo \<Rightarrow> string \<Rightarrow> string \<Rightarrow> string" where
  "csharp_GenHashPrimitiveSlice info var indent =
     line indent (''for (int i = 0; i < '' @ var @ ''.Length; i++)'') @
     csharp_GenHashPrimitive (elem_ssz_type info) (var @ ''[i]'') (indent @ sp4) True"

definition csharp_sub_tree :: "string \<Rightarrow> string \<Rightarrow> string \<Rightarrow> string" where
  "csharp_sub_tree indent content tail_line =
     line indent ''{'' @ line (indent @ sp4) ''int subIdx = hh.Index();'' @ content @
     line (indent @ sp4) tail_line @ line indent ''}''"

definition csharp_hash_containers :: "string \<Rightarrow> string \<Rightarrow> string" where
  "csharp_hash_containers var indent =
     line indent (''foreach (var item in '' @ var @ '')'') @ line (indent @ sp4) ''item.HashTreeRootWith(hh);''"

definition csharp_hash_vector :: "SszFieldInfo \<Rightarrow> string \<Rightarrow> string \<Rightarrow> string" where
  "csharp_hash_vector info var indent =
     (if elem_is info SszUint8 then line indent (''hh.PutBytes('' @ var @ '');'')
      else if elem_is info SszContainer then
        csharp_sub_tree indent
          (line (indent @ sp4) (''for (int i = 0; i < '' @ var @ ''.Length; i++)'') @
           line (indent @ sp8) (var @ ''[i].HashTreeRootWith(hh);''))
          ''hh.Merkleize(subIdx);''
      else if elem_info info \<noteq> None then
        csharp_sub_tree indent
          (csharp_GenHashPrimitiveArray info var (indent @ sp4) @ line (indent @ sp4) ''hh.FillUpTo32();'')
          ''hh.Merkleize(subIdx);''
      else [])"

definition csharp_mixin :: "string \<Rightarrow> u64 \<Rightarrow> string" where
  "csharp_mixin len limit = ''hh.MerkleizeWithMixin(subIdx, (ulong)'' @ len @ '', '' @ num64 limit @ '');''"

definition csharp_inner_chunk_limit :: "SszFieldInfo \<Rightarrow> u64" where
  "csharp_inner_chunk_limit info =
     (let inner_limit = (case elem_info info of None \<Rightarrow> 0 | Some e \<Rightarrow> info_limit e)
      in if inner_limit > 0 then csharp_ssz_limit_for_bytes inner_limit else 0)"

definition csharp_hash_list :: "SszFieldInfo \<Rightarrow> string \<Rightarrow> string \<Rightarrow> string" where
  "csharp_hash_list info var indent =
     (let limit = info_limit info; inner_chunk_limit = csharp_inner_chunk_limit info in
      if elem_is info SszList then
        csharp_sub_tree indent
          (line (indent @ sp4) (''foreach (var item in '' @ var @ '')'') @
           line (indent @ sp4) ''{'' @
           line (indent @ sp8) ''int inner = hh.Index();'' @
           line (indent @ sp8) ''hh.AppendBytes32(item);'' @
           (if inner_chunk_limit > 0 then
              line (indent @ sp8) (''hh.MerkleizeWithMixin(inner, (ulong)item.Length, '' @ num64 inner_chunk_limit @ '');'')
            else line (indent @ sp8) ''hh.Merkleize(inner);'') @
           line (indent @ sp4) ''}'')
          (csharp_mixin (var @ ''.Count'') limit)
      else if elem_is info SszUint8 then
        csharp_sub_tree indent (line (indent @ sp4) (''hh.AppendBytes32('' @ var @ '');''))
          (csharp_mixin (var @ ''.Length'') (csharp_ssz_limit_for_bytes limit))
      else if elem_is info SszContainer then
        csharp_sub_tree indent (csharp_hash_containers var (indent @ sp4)) (csharp_mixin (var @ ''.Count'') limit)
      else if elem_info info \<noteq> None then
        csharp_sub_tree indent
          (csharp_GenHashPrimitiveSlice info var (indent @ sp4) @ line (indent @ sp4) ''hh.FillUpTo32();'')
          (csharp_mixin (var @ ''.Length'') (csharp_ssz_limit_for_elements limit (elem_fixed_size info)))
      else [])"

definition csharp_hash_progressive_list :: "SszFieldInfo \<Rightarrow> string \<Rightarrow> string \<Rightarrow> string" where
  "csharp_hash_progressive_list info var indent =
     (let mixin = (\<lambda>len. ''hh.MerkleizeProgressiveWithMixin(subIdx, (ulong)'' @ len @ '');'') in
      if elem_is info SszUint8 then
        csharp_sub_tree indent (line (indent @ sp4) (''hh.AppendBytes32('' @ var @ '');'')) (mixin (var @ ''.Length''))
      else if elem_is info SszContainer then
        csharp_sub_tree indent (csharp_hash_containers var (indent @ sp4)) (mixin (var @ ''.Count''))
      else if elem_info info \<noteq> None then
        csharp_sub_tree indent
          (csharp_GenHashPrimitiveSlice info var (indent @ sp4) @ line (indent @ sp4) ''hh.FillUpTo32();'')
          (mixin (var @ ''.Length''))
      else [])"

definition csharp_GenHashField :: "SszFieldInfo \<Rightarrow> string \<Rightarrow> string \<Rightarrow> string" where
  "csharp_GenHashField info var indent =
     (case ssz_type info of
        SszBool \<Rightarrow> line indent (''hh.PutBool('' @ var @ '');'')
      | SszUint8 \<Rightarrow> line indent (''hh.PutUint8('' @ var @ '');'')
      | SszUint16 \<Rightarrow> line indent (''hh.PutUint16('' @ var @ '');'')
      | SszUint32 \<Rightarrow> line indent (''hh.PutUint32('' @ var @ '');'')
      | SszUint64 \<Rightarrow> line indent (''hh.PutUint64('' @ var @ '');'')
      | SszUint128 \<Rightarrow> line indent (''hh.PutBytes('' @ var @ '');'')
      | SszUint256 \<Rightarrow> line indent (''hh.PutBytes('' @ var @ '');'')
      | SszVector \<Rightarrow> csharp_hash_vector info var indent
      | SszList \<Rightarrow> csharp_hash_list info var indent
      | SszBitlist \<Rightarrow> line indent (''hh.PutBitlist('' @ var @ '', '' @ num64 (info_limit info) @ '');'')
      | SszBitvector \<Rightarrow> line indent (''hh.PutBytes('' @ var @ '');'')
      | SszContainer \<Rightarrow> line indent (var @ ''.HashTreeRootWith(hh);'')
      | SszProgressiveContainer \<Rightarrow> line indent (var @ ''.HashTreeRootWith(hh);'')
      | SszProgressiveList \<Rightarrow> csharp_hash_progressive_list info var indent
      | SszUnion \<Rightarrow> [])"

definition csharp_hash_index :: "SszGenerator \<Rightarrow> SszContainerInfo \<Rightarrow> u32 \<Rightarrow> string" where
  "csharp_hash_index G container i =
     (case map_of (index_to_field container) i of
        Some p \<Rightarrow>
          (case field_infos container p of
             None \<Rightarrow> []
           | Some info \<Rightarrow>
               line sp12 (''// Index '' @ num32 i @ '': '' @ fd_name (field_at (gen_parser G) p)) @
               csharp_GenHashField info (csharp_Field G p) sp12)
      | None \<Rightarrow>
          line sp12 (''// Index '' @ num32 i @ '': gap (inactive)'') @ line sp12 ''hh.PutUint8(0);'')"

definition csharp_GenHashTreeRoot :: "SszGenerator \<Rightarrow> SszContainerInfo \<Rightarrow> string" where
  "csharp_GenHashTreeRoot G container =
     line sp8 ''public byte[] HashTreeRoot()'' @
     line sp8 ''{'' @
     line sp12 ''var hh = Hasher.New();'' @
     line sp12 ''int idx = hh.Index();'' @ nl @
     (if is_progressive container then
        concat (map (\<lambda>i. csharp_hash_index G container (of_nat i)) [0..<Suc (unat (max_ssz_index container))]) @ nl @
        line sp12 (''hh.MerkleizeProgressiveWithActiveFields(idx, new byte[] { '' @
          comma_list (map hex_byte (active_fields_bitvector container)) @ '' });'')
      else
        each_field container (all_fields container) (\<lambda>p info.
          line sp12 (''// Field '' @ sq @ fd_name (field_at (gen_parser G) p) @ sq) @
          csharp_GenHashField info (csharp_Field G p) sp12 @ nl) @
        line sp12 ''hh.Merkleize(idx);'') @
     line sp12 ''return hh.HashRoot();'' @
     line sp8 ''}''"

section \<open>The file\<close>

definition csharp_GenerateType :: "SszGenerator \<Rightarrow> StructDef \<Rightarrow> SszContainerInfo \<Rightarrow> string" where
  "csharp_GenerateType G struct_def container =
     line sp4 (''public class '' @ sd_name struct_def) @
     line sp4 ''{'' @
     csharp_GenCSharpFields G container @ nl @
     csharp_GenCSharpConstructor G struct_def container @ nl @
     csharp_GenSszBytesLen G container @ nl @
     csharp_GenMarshalSSZ @ nl @
     csharp_GenMarshalSSZTo G container @ nl @
     csharp_GenFromSSZBytes G struct_def container @ nl @
     csharp_GenHashTreeRoot G container @
     line sp4 ''}''"

definition csharp_ns_name :: "Parser \<Rightarrow> string" where
  "csharp_ns_name P =
     (case structs_vec P of
        [] \<Rightarrow> ''SszGenerated''
      | s # _ \<Rightarrow>
          if sd_namespace (struct_at P s) = [] then ''SszGenerated''
          else FullNamespace ''.'' (sd_namespace (struct_at P s)))"

definition csharp_header :: "Parser \<Rightarrow> string" where
  "csharp_header P =
     line [] ''// Code generated by the FlatBuffers compiler. DO NOT EDIT.'' @ nl @
     line [] ''using System;'' @
     line [] ''using System.Buffers.Binary;'' @
     line [] ''using System.Collections.Generic;'' @
     line [] ''using SszFlatbuffers;'' @ nl @
     line [] (''namespace '' @ csharp_ns_name P) @
     line [] ''{''"

definition csharp_add_type :: "nat \<Rightarrow> SszGenerator \<Rightarrow> StructPtr \<Rightarrow> string \<Rightarrow> string res" where
  "csharp_add_type depth G s all_code =
     (let struct_def = struct_at (gen_parser G) s in
      if sd_generated struct_def then Inr all_code
      else bind_res (csharp_AnalyzeContainer depth (gen_parser G) s)
        (\<lambda>container. Inr (all_code @ csharp_GenerateType G struct_def container @ nl)))"

text \<open>The file is written even if no type goes into it.\<close>

definition csharp_generate :: "(string \<Rightarrow> string \<Rightarrow> bool) \<Rightarrow> nat \<Rightarrow> SszGenerator \<Rightarrow> string \<Rightarrow> files res" where
  "csharp_generate save depth G file_name =
     bind_res (fold_res (csharp_add_type depth G) (structs_vec (gen_parser G)) (csharp_header (gen_parser G))) (\<lambda>all_code.
       let code = all_code @ line [] ''}'';
           filename = gen_path G @ csharp_ToSnakeCase file_name @ ''_ssz.cs''
       in if save filename code then Inr [(filename, code)] else Inl (SaveFailed filename))"

end
