(* ===== verification/Csharp_Program.thy ===== *)
theory Csharp_Program
  imports Csharp_Generator Pos_Program Go_Hash_Root
begin

text \<open>
  The dialect and the style of the C# back end, the C# text of the statements of \<open>Pos_Lang\<close>,
  \<open>Emit_Program\<close> and \<open>Emit_Hash\<close>, and the proofs that the emitted text is theirs.  Hashing is in the
  style of the Go back end.
\<close>

section \<open>The dialect and the style\<close>

definition csharp_dialect :: "SszGenerator \<Rightarrow> dialect" where
  "csharp_dialect G =
     \<lparr>dl_member = csharp_Field G, dl_label = (\<lambda>p. fd_name (field_at (gen_parser G) p)), dl_index_loops = True,
      dl_size_progressive = False, dl_size_bytes = True\<rparr>"

lemma csharp_dialect_simps [simp]:
  "dl_member (csharp_dialect G) p = csharp_Field G p"
  "dl_label (csharp_dialect G) p = fd_name (field_at (gen_parser G) p)"
  "dl_index_loops (csharp_dialect G)" "\<not> dl_size_progressive (csharp_dialect G)" "dl_size_bytes (csharp_dialect G)"
  by (simp_all add: csharp_dialect_def)

text \<open>
  Nested encoders get the part of the array behind the position, which then moves by the fixed size in
  the info of the nested object; that is 0 for an object of variable size.
\<close>

definition csharp_pstyle :: "SszGenerator \<Rightarrow> pstyle" where
  "csharp_pstyle G =
     \<lparr>ps_member = csharp_Field G, ps_label = (\<lambda>p. fd_name (field_at (gen_parser G) p)), ps_base = ''fixedStart'',
      ps_enter = False, ps_get = False, ps_value_loops = False, ps_skip_loop = True, ps_slice = True,
      ps_adv_vector = (\<lambda>i. AConst (unat (elem_fixed_size i))), ps_adv_list = (\<lambda>i. AConst (unat (elem_fixed_size i))),
      ps_adv_elem = ASize, ps_adv_field = (\<lambda>i. AConst (unat (fixed_size i))), ps_adv_progressive = ASize,
      ps_elem_type = (\<lambda>i. '''')\<rparr>"

lemma csharp_pstyle_simps [simp]:
  "ps_member (csharp_pstyle G) p = csharp_Field G p"
  "ps_label (csharp_pstyle G) p = fd_name (field_at (gen_parser G) p)"
  "ps_base (csharp_pstyle G) = ''fixedStart''" "\<not> ps_enter (csharp_pstyle G)" "\<not> ps_get (csharp_pstyle G)"
  "\<not> ps_value_loops (csharp_pstyle G)" "ps_skip_loop (csharp_pstyle G)" "ps_slice (csharp_pstyle G)"
  "ps_adv_vector (csharp_pstyle G) i = AConst (unat (elem_fixed_size i))"
  "ps_adv_list (csharp_pstyle G) i = AConst (unat (elem_fixed_size i))"
  "ps_adv_elem (csharp_pstyle G) = ASize" "ps_adv_field (csharp_pstyle G) i = AConst (unat (fixed_size i))"
  "ps_adv_progressive (csharp_pstyle G) = ASize"
  by (simp_all add: csharp_pstyle_def)

lemma csharp_members: "dl_member (csharp_dialect G) = ps_member (csharp_pstyle G)"
  by (simp add: fun_eq_iff)

interpretation csharp_pos: pos_style "csharp_pstyle G" False True for G
  by unfold_locales (simp_all add: elem_fixed_size_def)

section \<open>C# text of the encoder\<close>

text \<open>Reading by \<open>get\<close>, \<open>PEnter\<close>, \<open>PSkipList\<close> and \<open>PLet\<close> do not occur in this style.\<close>

fun cs_expr :: "pexpr \<Rightarrow> string" where
  "cs_expr (XMember f) = f"
| "cs_expr (XLocal x) = x"
| "cs_expr (XIndex e i) = cs_expr e @ ''['' @ i @ '']''"
| "cs_expr (XGet e i) = []"

fun cs_pos :: "gpos \<Rightarrow> string" where
  "cs_pos (PAt x) = x"
| "cs_pos (PElem x i k) = x @ '' + '' @ i @ '' * '' @ NumToString k"

fun cs_adv :: "padv \<Rightarrow> string \<Rightarrow> string" where
  "cs_adv AReturned var = []"
| "cs_adv ASize var = var @ ''.SszBytesLen()''"
| "cs_adv (AConst n) var = NumToString n"

fun cs_copy :: "pcopy \<Rightarrow> string \<Rightarrow> string \<Rightarrow> string" where
  "cs_copy (CBasic n) var ind = csharp_copy_fixed (NumToString n) var ind"
| "cs_copy (CArray n) var ind = csharp_copy_fixed (NumToString n) var ind"
| "cs_copy CAll var ind = csharp_copy_all var ind"
| "cs_copy CItem var ind = csharp_copy_all var ind"

fun cs_stmt :: "string \<Rightarrow> pstmt \<Rightarrow> string"
  and cs_stmts :: "string \<Rightarrow> pstmt list \<Rightarrow> string" where
  "cs_stmt ind (PNote s) = line ind (''// '' @ s)"
| "cs_stmt ind PBlank = nl"
| "cs_stmt ind (PEnter x) = []"
| "cs_stmt ind (PMark x) = line ind (''int '' @ x @ '' = offset;'')"
| "cs_stmt ind PSkip = line ind ''offset += 4;''"
| "cs_stmt ind (PSkipList e) = []"
| "cs_stmt ind (PBool e) = csharp_put_bool (cs_expr e) ind"
| "cs_stmt ind (PByte e) = csharp_write (''buf[offset] = '' @ cs_expr e) ''1'' ind"
| "cs_stmt ind (PUint w e) = csharp_put_uint (NumToString w) (NumToString (w div 8)) (cs_expr e) ind"
| "cs_stmt ind (PCopy k e) = cs_copy k (cs_expr e) ind"
| "cs_stmt ind (PLet ty x e) = []"
| "cs_stmt ind (PPutLen p base) = csharp_put_offset (cs_pos p) base ind"
| "cs_stmt ind (PForIndex is_list i e b) =
     line ind (''for (int '' @ i @ '' = 0; '' @ i @ '' < '' @ cs_expr e @ (if is_list then ''.Count'' else ''.Length'') @
       ''; '' @ i @ ''++)'') @
     (if b = [PSkip] then cs_stmts (ind @ sp4) b
      else line ind ''{'' @ cs_stmts (ind @ sp4) b @ line ind ''}'')"
| "cs_stmt ind (PForValue ty x e b) =
     line ind (''foreach (var '' @ x @ '' in '' @ cs_expr e @ '')'') @
     line ind ''{'' @ cs_stmts (ind @ sp4) b @ line ind ''}''"
| "cs_stmt ind (PBlock b) = line ind ''{'' @ cs_stmts (ind @ sp4) b @ line ind ''}''"
| "cs_stmt ind (PCall is_slice adv e) = csharp_nested (cs_adv adv (cs_expr e)) (cs_expr e) ind"
| "cs_stmts ind [] = []"
| "cs_stmts ind (s # ss) = cs_stmt ind s @ cs_stmts ind ss"

lemma cs_stmts_append [simp]: "cs_stmts ind (xs @ ys) = cs_stmts ind xs @ cs_stmts ind ys"
  by (induction xs) auto

lemma print_csharp_prims: "csharp_marshal_primitive t (cs_expr e) ind = cs_stmts ind (pprim_stmts t e)"
  by (cases t) (simp_all add: csharp_marshal_primitive_def pprim_stmts_def num_literals digit_2 digit_8)

lemma prims_not_skip: "pprim_stmts t e \<noteq> [PSkip]"
  by (cases t) (simp_all add: pprim_stmts_def)

lemma print_csharp_offset_list:
  "csharp_offset_list (cs_expr e) ind (cs_stmts (ind @ sp8) b) = cs_stmts ind (poffset_list (csharp_pstyle G) e b)"
  by (simp add: csharp_offset_list_def poffset_list_def csharp_put_offset_def num_literals)

lemma print_csharp_loop:
  "csharp_GenMarshalPrimitiveArray info (cs_expr e) ind =
     cs_stmt ind (PForIndex False ''i'' e (pprim_stmts (elem_ssz_type info) (XIndex e ''i'')))"
  "csharp_GenMarshalPrimitiveSlice info (cs_expr e) ind =
     cs_stmt ind (PForIndex False ''i'' e (pprim_stmts (elem_ssz_type info) (XIndex e ''i'')))"
  by (simp_all add: csharp_GenMarshalPrimitiveArray_def csharp_GenMarshalPrimitiveSlice_def prims_not_skip
      print_csharp_prims [of _ "XIndex e ''i''", simplified])

lemma print_csharp_vector:
  "csharp_marshal_vector info (cs_expr e) ind = cs_stmts ind (pvector_stmts (csharp_pstyle G) info e)"
  by (simp add: csharp_marshal_vector_def pvector_stmts_def print_csharp_loop del: cs_stmt.simps(13))
    (simp add: csharp_nested_def)

lemma print_csharp_list:
  "csharp_marshal_list info (cs_expr e) ind = cs_stmts ind (plist_stmts (csharp_pstyle G) info e)"
  using print_csharp_offset_list [of e ind "[PCopy CItem (XIndex e ''i'')]" G]
    print_csharp_offset_list [of e ind "[PCall True ASize (XIndex e ''i'')]" G]
  by (simp add: csharp_marshal_list_def plist_stmts_def pbytes_elem_def pelem_def print_csharp_loop
      del: cs_stmt.simps(13))

lemma print_csharp_field:
  "csharp_GenMarshalField info f ind = cs_stmts ind (pfield_stmts (csharp_pstyle G) info (XMember f))"
  using print_csharp_vector [of info "XMember f" ind G] print_csharp_list [of info "XMember f" ind G]
  by (cases "ssz_type info") (simp_all add: csharp_GenMarshalField_def pfield_stmts_def num_literals digit_2 digit_8)

lemma print_csharp_static:
  "csharp_static_fields G c idx ps = cs_stmts sp12 (pstatic_stmts (csharp_pstyle G) idx (infos_of c ps))"
  by (induction ps arbitrary: idx) (auto simp: print_csharp_field [where G = G] Let_def split: option.splits)

lemma print_csharp_dynamic:
  "csharp_dynamic_fields G c idx ps = cs_stmts sp12 (pdynamic_stmts (csharp_pstyle G) idx (infos_of c ps))"
  by (induction ps arbitrary: idx) (auto simp: print_csharp_field [where G = G] split: option.splits)

lemma print_csharp_marshal:
  "csharp_GenMarshalSSZTo G c =
     line sp8 ''public void MarshalSSZTo(Span<byte> buf)'' @
     line sp8 ''{'' @
     line sp12 ''int offset = 0;'' @
     cs_stmts sp12 (pmarshal_body (csharp_pstyle G) c) @
     line sp8 ''}''"
proof -
  have "each_field c ps (\<lambda>p info. csharp_GenMarshalField info (csharp_Field G p) sp12) =
      cs_stmts sp12 (concat (map (ps_field_stmts (csharp_pstyle G)) (infos_of c ps)))" for ps
    by (induction ps) (auto simp: print_csharp_field [where G = G] split: option.splits)
  then show ?thesis
    by (simp add: csharp_GenMarshalSSZTo_def pmarshal_body_def print_csharp_static print_csharp_dynamic)
qed

section \<open>C# text of the size\<close>

text \<open>A loop over the elements of a list can be written with an index; \<open>env\<close> says so.\<close>

fun cs_gexpr :: "(string \<times> string) list \<Rightarrow> gexpr \<Rightarrow> string" where
  "cs_gexpr env (GMember f) = f"
| "cs_gexpr env (GLocal x) = (case map_of env x of None \<Rightarrow> x | Some s \<Rightarrow> s)"
| "cs_gexpr env (GIndex e i) = cs_gexpr env e @ ''['' @ i @ '']''"

text \<open>
  The info of a field says whether a list is an array.  Of the statements of \<open>Go_Lang\<close> only those of a
  size occur here.
\<close>

definition cs_is_list :: "SszFieldInfo \<Rightarrow> bool" where
  "cs_is_list info \<longleftrightarrow> elem_is info SszList \<or> elem_is info SszContainer"

fun cs_size_stmt :: "SszFieldInfo \<Rightarrow> string \<Rightarrow> gstmt \<Rightarrow> string"
  and cs_size_stmts :: "SszFieldInfo \<Rightarrow> string \<Rightarrow> gstmt list \<Rightarrow> string" where
  "cs_size_stmt info ind (SizeAddMul e k) =
     line ind (''size += '' @ cs_gexpr [] e @ (if cs_is_list info then ''.Count'' else ''.Length'') @ '' * '' @
       NumToString k @ '';'')"
| "cs_size_stmt info ind (SizeAddLen e) = line ind (''size += '' @ cs_gexpr [] e @ ''.Length;'')"
| "cs_size_stmt info ind (SizeAddCall e) = line ind (''size += '' @ cs_gexpr [] e @ ''.SszBytesLen();'')"
| "cs_size_stmt info ind (ForValue x e b) =
     line ind (''foreach (var '' @ x @ '' in '' @ cs_gexpr [] e @ '')'') @ cs_size_stmts info (ind @ sp4) b"
| "cs_size_stmt info ind _ = []"
| "cs_size_stmts info ind [] = []"
| "cs_size_stmts info ind (s # ss) = cs_size_stmt info ind s @ cs_size_stmts info ind ss"

lemma print_csharp_size:
  "csharp_GenSizeField info (cs_gexpr [] e) ind = cs_size_stmts info ind (size_stmts False True info e)"
  by (cases "ssz_type info"; cases "elem_info info")
    (simp_all add: csharp_GenSizeField_def size_stmts_def Let_def num_literals cs_is_list_def
      elem_is_def elem_dynamic_def elem_fixed_size_def)

definition cs_size_fields :: "SszGenerator \<Rightarrow> SszContainerInfo \<Rightarrow> string" where
  "cs_size_fields G c =
     concat (map (\<lambda>(p, i). cs_size_stmts i sp12 (dl_size_stmts (csharp_dialect G) (p, i)))
       (infos_of c (dynamic_fields c)))"

lemma print_csharp_size_body:
  "csharp_GenSszBytesLen G c =
     line sp8 ''public int SszBytesLen()'' @
     line sp8 ''{'' @
     (if is_fixed c then line sp12 (''return '' @ num32 (static_size c) @ '';'')
      else
        line sp12 (''int size = '' @ num32 (static_size c) @ '';'') @
        cs_size_fields G c @ line sp12 ''return size;'') @
     line sp8 ''}''"
proof -
  have "each_field c ps (\<lambda>p info. csharp_GenSizeField info (csharp_Field G p) sp12) =
      concat (map (\<lambda>(p, i). cs_size_stmts i sp12 (dl_size_stmts (csharp_dialect G) (p, i))) (infos_of c ps))" for ps
    by (induction ps) (auto simp: print_csharp_size [of _ "GMember f" for f, simplified] split: option.splits)
  then show ?thesis by (simp add: csharp_GenSszBytesLen_def cs_size_fields_def)
qed

section \<open>C# text of hashing\<close>

text \<open>
  The loop over basic elements, with the variable \<open>v\<close>, is written with an index, and loops over one
  statement without braces.  Where the elements are byte lists of a progressive list, the loop over
  them is left without a body, and C# takes the statement that follows for it.
\<close>

definition cs_len :: "SszFieldInfo option \<Rightarrow> gexpr \<Rightarrow> string" where
  "cs_len I e =
     cs_gexpr [] e @
     (case (I, e) of
        (Some i, GMember f) \<Rightarrow>
          if elem_is i SszContainer \<or> elem_is i SszList \<and> ssz_type i = SszList then ''.Count'' else ''.Length''
      | _ \<Rightarrow> ''.Length'')"

fun cs_hstmt :: "SszFieldInfo option \<Rightarrow> (string \<times> string) list \<Rightarrow> string \<Rightarrow> hstmt \<Rightarrow> string"
  and cs_hstmts :: "SszFieldInfo option \<Rightarrow> (string \<times> string) list \<Rightarrow> string \<Rightarrow> hstmt list \<Rightarrow> string" where
  "cs_hstmt I env ind (HNote s) = line ind (''// '' @ s)"
| "cs_hstmt I env ind HBlank = nl"
| "cs_hstmt I env ind (HIndex x) = line ind (''int '' @ x @ '' = hh.Index();'')"
| "cs_hstmt I env ind (HPutBool e) = line ind (''hh.PutBool('' @ cs_gexpr env e @ '');'')"
| "cs_hstmt I env ind (HPutUint w e) = line ind (''hh.PutUint'' @ NumToString w @ ''('' @ cs_gexpr env e @ '');'')"
| "cs_hstmt I env ind HPutZero = line ind ''hh.PutUint8(0);''"
| "cs_hstmt I env ind (HPutArray e) = line ind (''hh.PutBytes('' @ cs_gexpr env e @ '');'')"
| "cs_hstmt I env ind (HPutBitlist e l) = line ind (''hh.PutBitlist('' @ cs_gexpr env e @ '', '' @ num64 l @ '');'')"
| "cs_hstmt I env ind (HAppendBool e) = line ind (''hh.AppendBool('' @ cs_gexpr env e @ '');'')"
| "cs_hstmt I env ind (HAppendUint w e) =
     line ind (''hh.AppendUint'' @ NumToString w @ ''('' @ cs_gexpr env e @ '');'')"
| "cs_hstmt I env ind (HAppendBytes32 e) = line ind (''hh.AppendBytes32('' @ cs_gexpr env e @ '');'')"
| "cs_hstmt I env ind HFill = line ind ''hh.FillUpTo32();''"
| "cs_hstmt I env ind (HMerkleize x) = line ind (''hh.Merkleize('' @ x @ '');'')"
| "cs_hstmt I env ind (HMixin x e l) =
     line ind (''hh.MerkleizeWithMixin('' @ x @ '', (ulong)'' @ cs_len I e @ '', '' @ num64 l @ '');'')"
| "cs_hstmt I env ind (HProgMixin x e) =
     line ind (''hh.MerkleizeProgressiveWithMixin('' @ x @ '', (ulong)'' @ cs_len I e @ '');'')"
| "cs_hstmt I env ind (HProgActive x bs) =
     line ind (''hh.MerkleizeProgressiveWithActiveFields('' @ x @ '', new byte[] { '' @
       comma_list (map hex_byte bs) @ '' });'')"
| "cs_hstmt I env ind (HFor i e b) =
     line ind (''for (int '' @ i @ '' = 0; '' @ i @ '' < '' @ cs_gexpr env e @ ''.Length; '' @ i @ ''++)'') @
     cs_hstmts I env (ind @ sp4) b"
| "cs_hstmt I env ind (HForVal x e b) =
     (if x = ''v'' then
        line ind (''for (int i = 0; i < '' @ cs_gexpr env e @ ''.Length; i++)'') @
        cs_hstmts I ((x, cs_gexpr env e @ ''[i]'') # env) (ind @ sp4) b
      else
        line ind (''foreach (var '' @ x @ '' in '' @ cs_gexpr env e @ '')'') @
        (case b of
           [s] \<Rightarrow> cs_hstmts I env (ind @ sp4) b
         | _ \<Rightarrow> line ind ''{'' @ cs_hstmts I env (ind @ sp4) b @ line ind ''}''))"
| "cs_hstmt I env ind (HBlk b) = line ind ''{'' @ cs_hstmts I env (ind @ sp4) b @ line ind ''}''"
| "cs_hstmt I env ind (HCall e) = line ind (cs_gexpr env e @ ''.HashTreeRootWith(hh);'')"
| "cs_hstmt I env ind HPutZeroHash = []"
| "cs_hstmts I env ind [] = []"
| "cs_hstmts I env ind (s # ss) = cs_hstmt I env ind s @ cs_hstmts I env ind ss"

lemma cs_hstmts_append [simp]: "cs_hstmts I env ind (xs @ ys) = cs_hstmts I env ind xs @ cs_hstmts I env ind ys"
  by (induction xs) auto

lemma csharp_limits:
  "csharp_ssz_limit_for_bytes = go_ssz_limit_for_bytes" "csharp_ssz_limit_for_elements = go_ssz_limit_for_elements"
  "csharp_inner_chunk_limit = go_inner_chunk_limit"
  by (intro ext; simp add: csharp_ssz_limit_for_bytes_def go_ssz_limit_for_bytes_def csharp_ssz_limit_for_elements_def
      go_ssz_limit_for_elements_def csharp_inner_chunk_limit_def go_inner_chunk_limit_def Let_def)+

lemma print_csharp_append:
  "csharp_GenHashPrimitive t (cs_gexpr env e) ind True = cs_hstmts I env ind (append_stmts t e)"
  by (cases t) (simp_all add: csharp_GenHashPrimitive_def append_stmts_def num_literals digit_8)

lemma print_csharp_hash_loops:
  "csharp_GenHashPrimitiveArray info (cs_gexpr env e) ind =
     cs_hstmt I env ind (HFor ''i'' e (append_stmts (elem_ssz_type info) (GIndex e ''i'')))"
  "csharp_GenHashPrimitiveSlice info (cs_gexpr env e) ind =
     cs_hstmt I env ind (HForVal ''v'' e (append_stmts (elem_ssz_type info) (GLocal ''v'')))"
  using print_csharp_append [of "elem_ssz_type info" env "GIndex e ''i''" "ind @ sp4" I]
    print_csharp_append [of "elem_ssz_type info" "(''v'', cs_gexpr env e @ ''[i]'') # env" "GLocal ''v''" "ind @ sp4" I]
  by (simp_all add: csharp_GenHashPrimitiveArray_def csharp_GenHashPrimitiveSlice_def)

lemmas csharp_loops =
  print_csharp_hash_loops(1) [of _ "[]" "GMember f" for f, unfolded cs_gexpr.simps]
  print_csharp_hash_loops(2) [of _ "[]" "GMember f" for f, unfolded cs_gexpr.simps]

lemma print_csharp_hash_vector:
  "csharp_hash_vector info f ind = cs_hstmts I [] ind (hash_vector_stmts True info (GMember f))"
  by (simp add: csharp_hash_vector_def hash_vector_stmts_def sub_tree_def csharp_sub_tree_def
      csharp_loops(1) [where I = I])

lemma print_csharp_hash_list:
  "ssz_type info = SszList \<Longrightarrow>
   csharp_hash_list info f ind = cs_hstmts (Some info) [] ind (hash_list_stmts list_limit info (GMember f))"
  by (cases "elem_info info")
    (simp_all add: elem_is_def csharp_hash_list_def hash_list_stmts_def hash_elems_stmts_def list_limit_def
      sub_tree_def csharp_sub_tree_def csharp_hash_containers_def csharp_mixin_def
      csharp_limits csharp_loops(2) [where I = "Some info"] cs_len_def Let_def)

lemma print_csharp_hash_progressive:
  "ssz_type info = SszProgressiveList \<Longrightarrow>
   csharp_hash_progressive_list info f ind = cs_hstmts (Some info) [] ind (hash_progressive_stmts info (GMember f))"
  by (cases "elem_info info")
    (simp_all add: elem_is_def csharp_hash_progressive_list_def hash_progressive_stmts_def hash_elems_stmts_def
      sub_tree_def csharp_sub_tree_def csharp_hash_containers_def csharp_loops(2) [where I = "Some info"]
      cs_len_def Let_def)

lemma print_csharp_hash:
  "csharp_GenHashField info f ind = cs_hstmts (Some info) [] ind (hash_stmts go_style info (GMember f))"
  using print_csharp_hash_vector [of info f ind "Some info"]
  by (cases "ssz_type info")
    (simp_all add: csharp_GenHashField_def hash_stmts_def print_csharp_hash_list print_csharp_hash_progressive
      num_literals digit_8)

lemma print_csharp_hash_index:
  "csharp_hash_index G c i = cs_hstmts (index_info c i) [] sp12 (index_stmts go_style (csharp_dialect G) c i)"
  by (simp add: csharp_hash_index_def index_stmts_def index_info_def print_csharp_hash split: option.split)

lemma print_csharp_hash_body:
  "csharp_GenHashTreeRoot G c =
     line sp8 ''public byte[] HashTreeRoot()'' @
     line sp8 ''{'' @
     line sp12 ''var hh = Hasher.New();'' @
     print_pieces (\<lambda>i. cs_hstmts i [] sp12) (hash_pieces go_style (csharp_dialect G) c) @
     line sp12 ''return hh.HashRoot();'' @
     line sp8 ''}''"
proof -
  have "each_field c ps (\<lambda>p info. line sp12 (''// Field '' @ sq @ fd_name (field_at (gen_parser G) p) @ sq) @
      csharp_GenHashField info (csharp_Field G p) sp12 @ nl) =
      concat (map (\<lambda>f. cs_hstmts (Some (snd f)) [] sp12 (field_hash_stmts go_style (csharp_dialect G) f)) (infos_of c ps))"
    for ps
    by (induction ps) (auto simp: field_hash_stmts_def print_csharp_hash split: option.splits)
  moreover have "concat (map (\<lambda>i. csharp_hash_index G c (of_nat i)) is) =
      concat (map (\<lambda>i. cs_hstmts (index_info c (of_nat i)) [] sp12
        (index_stmts go_style (csharp_dialect G) c (of_nat i))) is)" for "is" :: "nat list"
    by (induction "is") (auto simp: print_csharp_hash_index)
  ultimately show ?thesis
    by (simp only: csharp_GenHashTreeRoot_def hash_pieces_def) (simp del: upt_Suc)
qed

section \<open>The emitted programs\<close>

definition csharp_decl :: "SszGenerator \<Rightarrow> SszContainerInfo \<Rightarrow> pdecl" where
  "csharp_decl G = emit_pdecl (csharp_pstyle G)"

definition csharp_program :: "nat \<Rightarrow> SszGenerator \<Rightarrow> pprogram" where
  "csharp_program depth G = emit_pprogram csharp_AnalyzeContainer (csharp_pstyle G) depth (gen_parser G)"

definition csharp_sizes :: "nat \<Rightarrow> SszGenerator \<Rightarrow> gprogram" where
  "csharp_sizes depth G = emit_program csharp_AnalyzeContainer (csharp_dialect G) depth (gen_parser G)"

text \<open>
  No class declares the \<open>HashTreeRootWith\<close> that the hashing of a nested container calls, so the
  program has no other methods to call.
\<close>

definition csharp_HashTreeRoot :: "'s walker \<Rightarrow> nat \<Rightarrow> SszGenerator \<Rightarrow> string \<Rightarrow> val list \<Rightarrow> 's \<Rightarrow> 's option" where
  "csharp_HashTreeRoot W depth G nm vs hh =
     HashTreeRootWith W (emit_hprogram csharp_AnalyzeContainer go_style (csharp_dialect G) depth (gen_parser G)) 1 nm vs hh"

lemma csharp_program_eq:
  "csharp_program depth G = emit_pprogram go_AnalyzeContainer (csharp_pstyle G) depth (gen_parser G)"
  "csharp_sizes depth G = emit_program go_AnalyzeContainer (csharp_dialect G) depth (gen_parser G)"
  "csharp_HashTreeRoot W depth G nm vs hh =
     HashTreeRootWith W (emit_hprogram go_AnalyzeContainer go_style (csharp_dialect G) depth (gen_parser G)) 1 nm vs hh"
  by (simp_all only: csharp_program_def csharp_sizes_def csharp_HashTreeRoot_def
      go_copy.emit_pprogram_eq [OF csharp.go_copy_axioms] go_copy.emit_program_eq [OF csharp.go_copy_axioms]
      go_copy.emit_hprogram_eq [OF csharp.go_copy_axioms])

text \<open>
  What C# checks of the names: types and members are distinct, and a member is an identifier and neither
  a method nor the class itself; the code of the methods takes it for granted that no member has the
  name of a local.
\<close>

definition csharp_methods :: "string list" where
  "csharp_methods = [''SszBytesLen'', ''MarshalSSZ'', ''MarshalSSZTo'', ''FromSSZBytes'', ''HashTreeRoot'']"

definition csharp_locals :: "string list" where
  "csharp_locals = [''size'', ''item'', ''buf'', ''offset'', ''fixedStart'', ''listStart'', ''i'', ''hh'', ''idx'', ''subIdx'', ''inner'']"

definition csharp_member_ok :: "SszGenerator \<Rightarrow> StructPtr \<Rightarrow> FieldPtr \<Rightarrow> bool" where
  "csharp_member_ok G s p \<longleftrightarrow>
     (let m = csharp_Field G p in
      m \<noteq> [] \<and> \<not> is_digit (hd m) \<and> m \<noteq> sd_name (struct_at (gen_parser G) s) \<and>
      m \<notin> set csharp_methods \<and> m \<notin> set csharp_locals \<and> take 9 m \<noteq> ''offsetPos'')"

definition csharp_names_ok :: "SszGenerator \<Rightarrow> bool" where
  "csharp_names_ok G \<longleftrightarrow>
     names_ok (csharp_dialect G) (gen_parser G) \<and>
     list_all (\<lambda>s. list_all (csharp_member_ok G s) (live_fields (gen_parser G) s))
       [0..<length (struct_store (gen_parser G))]"

end
