(* ===== verification/Zig_Text.thy ===== *)
theory Zig_Text
  imports Zig_Analysis Go_Names
begin

text \<open>
  The text that the Zig back end emits, \<open>src/idl_gen_ssz_zig.cpp\<close>, first half: names and types,
  \<open>sszBytesLen\<close>, \<open>sszAppend\<close>, which writes to a stream and computes every offset before it writes
  it, and \<open>toSszBytes\<close>.
\<close>

section \<open>Names\<close>

definition ZigKeywords :: "string list" where
  "ZigKeywords =
     [''addrspace'', ''align'', ''allowzero'', ''and'', ''anyframe'',
      ''anytype'', ''asm'', ''async'', ''await'', ''break'',
      ''catch'', ''comptime'', ''const'', ''continue'', ''defer'',
      ''else'', ''enum'', ''errdefer'', ''error'', ''export'',
      ''extern'', ''false'', ''fn'', ''for'', ''if'',
      ''inline'', ''linksection'', ''noalias'', ''nosuspend'', ''null'',
      ''opaque'', ''or'', ''orelse'', ''packed'', ''pub'',
      ''resume'', ''return'', ''struct'', ''suspend'', ''switch'',
      ''test'', ''threadlocal'', ''true'', ''try'', ''undefined'',
      ''union'', ''unreachable'', ''var'', ''volatile'', ''while'']"

definition SszZigDefaultConfig :: Config where
  "SszZigDefaultConfig =
     \<lparr>cfg_types = kKeep,
      cfg_constants = kUnknown,
      cfg_methods = kSnake,
      cfg_functions = kSnake,
      cfg_fields = kSnake,
      cfg_variables = kSnake,
      cfg_variants = kKeep,
      enum_variant_seperator = '''',
      escape_keywords = AfterConvertingCase,
      cfg_namespaces = kKeep,
      namespace_seperator = ''__'',
      object_prefix = '''',
      object_suffix = '''',
      keyword_prefix = '''',
      keyword_suffix = ''_'',
      keywords_casing = CaseSensitive,
      cfg_filenames = kSnake,
      cfg_directories = kSnake,
      output_path = '''',
      filename_suffix = ''_ssz'',
      filename_extension = ''.zig''\<rparr>"

text \<open>\<open>p\<close> is the character before, if there is one.\<close>

fun zig_snake_from :: "char option \<Rightarrow> string \<Rightarrow> string" where
  "zig_snake_from p [] = []"
| "zig_snake_from p (c # r) =
     (if isupper c then
        (case p of
           None \<Rightarrow> []
         | Some q \<Rightarrow>
             if \<not> isupper q then ''_''
             else if r \<noteq> [] \<and> isupper q \<and> \<not> isupper (hd r) then ''_''
             else []) @ [CharToLower c]
      else [c]) @ zig_snake_from (Some c) r"

definition zig_ToSnakeCase :: "string \<Rightarrow> string" where
  "zig_ToSnakeCase input = zig_snake_from None input"

text \<open>The member of a field; the namer, and with it the keywords, is not asked.\<close>

definition zig_member :: "Parser \<Rightarrow> FieldPtr \<Rightarrow> string" where
  "zig_member P p = zig_ToSnakeCase (fd_name (field_at P p))"

section \<open>Types\<close>

definition ZigElemTypeName :: "Parser \<Rightarrow> SszFieldInfo \<Rightarrow> string" where
  "ZigElemTypeName P info =
     (case ssz_type info of
        SszBool \<Rightarrow> ''bool''
      | SszUint8 \<Rightarrow> ''u8''
      | SszUint16 \<Rightarrow> ''u16''
      | SszUint32 \<Rightarrow> ''u32''
      | SszUint64 \<Rightarrow> ''u64''
      | SszContainer \<Rightarrow> info_struct_name P ''void'' info
      | SszProgressiveList \<Rightarrow> ''[]u8''
      | SszList \<Rightarrow> ''[]u8''
      | _ \<Rightarrow> ''void'')"

definition zig_list_type :: "Parser \<Rightarrow> SszFieldInfo \<Rightarrow> string" where
  "zig_list_type P info =
     (case elem_info info of
        None \<Rightarrow> ''[]u8''
      | Some e \<Rightarrow>
          if ssz_type e = SszUint8 then ''[]u8''
          else if ssz_type e = SszList then ''[][]u8''
          else ''[]'' @ ZigElemTypeName P e)"

definition ZigTypeName :: "Parser \<Rightarrow> SszFieldInfo \<Rightarrow> string" where
  "ZigTypeName P info =
     (case ssz_type info of
        SszBool \<Rightarrow> ''bool''
      | SszUint8 \<Rightarrow> ''u8''
      | SszUint16 \<Rightarrow> ''u16''
      | SszUint32 \<Rightarrow> ''u32''
      | SszUint64 \<Rightarrow> ''u64''
      | SszUint128 \<Rightarrow> ''[16]u8''
      | SszUint256 \<Rightarrow> ''[32]u8''
      | SszContainer \<Rightarrow> info_struct_name P ''void'' info
      | SszVector \<Rightarrow>
          (case elem_info info of
             None \<Rightarrow> ''void''
           | Some e \<Rightarrow>
               if ssz_type e = SszUint8 then ''['' @ num64 (info_limit info) @ '']u8''
               else ''['' @ num64 (info_limit info) @ '']'' @ ZigElemTypeName P e)
      | SszProgressiveList \<Rightarrow> zig_list_type P info
      | SszList \<Rightarrow> zig_list_type P info
      | SszBitlist \<Rightarrow> ''[]u8''
      | SszBitvector \<Rightarrow> ''['' @ num32 ((bitsize info + 7) div 8) @ '']u8''
      | SszProgressiveContainer \<Rightarrow> info_struct_name P ''void'' info
      | SszUnion \<Rightarrow> ''void'')"

section \<open>sszBytesLen\<close>

definition zig_GenSizeField :: "SszFieldInfo \<Rightarrow> string \<Rightarrow> string" where
  "zig_GenSizeField info var =
     (let list_size =
        (if elem_is info SszList then
           line sp8 (''size += '' @ var @ ''.len * 4;'') @
           line sp8 (''for ('' @ var @ '') |item| {'') @
           line sp12 ''size += item.len;'' @
           line sp8 ''}''
         else if elem_is info SszContainer \<and> elem_dynamic info then
           line sp8 (''size += '' @ var @ ''.len * 4;'') @
           line sp8 (''for ('' @ var @ '') |*item| {'') @
           line sp12 ''size += item.sszBytesLen();'' @
           line sp8 ''}''
         else if elem_info info \<noteq> None then
           line sp8 (''size += '' @ var @ ''.len * '' @ num32 (elem_fixed_size info) @ '';'')
         else line sp8 (''size += '' @ var @ ''.len;''))
      in case ssz_type info of
           SszProgressiveList \<Rightarrow> list_size
         | SszList \<Rightarrow> list_size
         | SszBitlist \<Rightarrow> line sp8 (''size += '' @ var @ ''.len;'')
         | SszProgressiveContainer \<Rightarrow> line sp8 (''size += '' @ var @ ''.sszBytesLen();'')
         | SszContainer \<Rightarrow> line sp8 (''size += '' @ var @ ''.sszBytesLen();'')
         | _ \<Rightarrow> [])"

definition zig_GenSizeMethod :: "Parser \<Rightarrow> SszContainerInfo \<Rightarrow> string" where
  "zig_GenSizeMethod P container =
     line sp4 ''pub fn sszBytesLen(self: *const Self) usize {'' @
     (if is_fixed container then line sp8 (''return '' @ num32 (static_size container) @ '';'')
      else
        line sp8 (''var size: usize = '' @ num32 (static_size container) @ '';'') @
        each_field container (dynamic_fields container) (\<lambda>p info.
          zig_GenSizeField info (''self.'' @ zig_member P p)) @
        line sp8 ''return size;'') @
     line sp4 ''}''"

section \<open>sszAppend\<close>

text \<open>The line that writes an integer of \<open>w\<close> bits, little endian.\<close>

definition zig_write_int :: "string \<Rightarrow> string \<Rightarrow> string \<Rightarrow> string" where
  "zig_write_int w var ind =
     line ind (''try writer.writeAll(std.mem.asBytes(&std.mem.nativeToLittle(u'' @ w @ '', '' @ var @ '')));'')"

definition zig_write_bool :: "string \<Rightarrow> string \<Rightarrow> string" where
  "zig_write_bool var ind = line ind (''try writer.writeByte(if ('' @ var @ '') @as(u8, 1) else @as(u8, 0));'')"

definition zig_write_array :: "string \<Rightarrow> string \<Rightarrow> string" where
  "zig_write_array var ind = line ind (''try writer.writeAll(&'' @ var @ '');'')"

definition zig_write_slice :: "string \<Rightarrow> string \<Rightarrow> string" where
  "zig_write_slice var ind = line ind (''try writer.writeAll('' @ var @ '');'')"

definition zig_write_nested :: "string \<Rightarrow> string \<Rightarrow> string" where
  "zig_write_nested var ind = line ind (''try '' @ var @ ''.sszAppend(writer);'')"

definition zig_write_containers :: "string \<Rightarrow> string \<Rightarrow> string" where
  "zig_write_containers var ind =
     line ind (''for ('' @ var @ '') |*item| {'') @
     zig_write_nested ''item'' (ind @ sp4) @
     line ind ''}''"

text \<open>What a dynamic field adds to the variable \<open>offset\<close>.\<close>

definition zig_GenOffsetIncrement :: "SszFieldInfo \<Rightarrow> string \<Rightarrow> string" where
  "zig_GenOffsetIncrement info var =
     (let list_offset =
        (if elem_is info SszList then
           line sp8 (''offset += @intCast('' @ var @ ''.len * 4);'') @
           line sp8 (''for ('' @ var @ '') |item| {'') @
           line sp12 ''offset += @intCast(item.len);'' @
           line sp8 ''}''
         else if elem_is info SszContainer \<and> elem_dynamic info then
           line sp8 (''offset += @intCast('' @ var @ ''.len * 4);'') @
           line sp8 (''for ('' @ var @ '') |*item| {'') @
           line sp12 ''offset += @intCast(item.sszBytesLen());'' @
           line sp8 ''}''
         else if elem_info info \<noteq> None then
           line sp8 (''offset += @intCast('' @ var @ ''.len * '' @ num32 (elem_fixed_size info) @ '');'')
         else line sp8 (''offset += @intCast('' @ var @ ''.len);''))
      in case ssz_type info of
           SszProgressiveList \<Rightarrow> list_offset
         | SszList \<Rightarrow> list_offset
         | SszBitlist \<Rightarrow> line sp8 (''offset += @intCast('' @ var @ ''.len);'')
         | SszProgressiveContainer \<Rightarrow> line sp8 (''offset += @intCast('' @ var @ ''.sszBytesLen());'')
         | SszContainer \<Rightarrow> line sp8 (''offset += @intCast('' @ var @ ''.sszBytesLen());'')
         | _ \<Rightarrow> [])"

definition zig_GenMarshalPrimitiveArray :: "SszFieldInfo \<Rightarrow> string \<Rightarrow> string \<Rightarrow> string" where
  "zig_GenMarshalPrimitiveArray info var ind =
     line ind (''for ('' @ var @ '') |v| {'') @
     (case elem_ssz_type info of
        SszBool \<Rightarrow> zig_write_bool ''v'' (ind @ sp4)
      | SszUint16 \<Rightarrow> zig_write_int ''16'' ''v'' (ind @ sp4)
      | SszUint32 \<Rightarrow> zig_write_int ''32'' ''v'' (ind @ sp4)
      | SszUint64 \<Rightarrow> zig_write_int ''64'' ''v'' (ind @ sp4)
      | _ \<Rightarrow> []) @
     line ind ''}''"

definition zig_GenMarshalPrimitiveSlice :: "SszFieldInfo \<Rightarrow> string \<Rightarrow> string \<Rightarrow> string" where
  "zig_GenMarshalPrimitiveSlice info var ind = zig_GenMarshalPrimitiveArray info var ind"

text \<open>
  The block for a list of variable-size elements, which the code has twice: the offsets of all
  elements, then the elements.  \<open>x\<close> is the loop variable, \<open>len\<close> its size.
\<close>

definition zig_offset_list :: "string \<Rightarrow> string \<Rightarrow> string \<Rightarrow> string \<Rightarrow> (string \<Rightarrow> string) \<Rightarrow> string" where
  "zig_offset_list var ind x len item =
     line ind ''{'' @
     line (ind @ sp4) (''var inner_offset: u32 = @intCast('' @ var @ ''.len * 4);'') @
     line (ind @ sp4) (''for ('' @ var @ '') |'' @ x @ ''| {'') @
     zig_write_int ''32'' ''inner_offset'' (ind @ sp8) @
     line (ind @ sp8) (''inner_offset += @intCast('' @ len @ '');'') @
     line (ind @ sp4) ''}'' @
     line (ind @ sp4) (''for ('' @ var @ '') |'' @ x @ ''| {'') @
     item (ind @ sp8) @
     line (ind @ sp4) ''}'' @
     line ind ''}''"

definition zig_marshal_vector :: "SszFieldInfo \<Rightarrow> string \<Rightarrow> string \<Rightarrow> string" where
  "zig_marshal_vector info var ind =
     (if elem_is info SszUint8 then zig_write_array var ind
      else if elem_is info SszContainer then zig_write_containers var ind
      else if elem_info info \<noteq> None then zig_GenMarshalPrimitiveArray info var ind
      else [])"

definition zig_marshal_list :: "SszFieldInfo \<Rightarrow> string \<Rightarrow> string \<Rightarrow> string" where
  "zig_marshal_list info var ind =
     (if elem_is info SszList then
        zig_offset_list var ind ''item'' ''item.len'' (zig_write_slice ''item'')
      else if elem_is info SszUint8 then zig_write_slice var ind
      else if elem_is info SszContainer then
        (if elem_dynamic info then
           zig_offset_list var ind ''*item'' ''item.sszBytesLen()'' (zig_write_nested ''item'')
         else zig_write_containers var ind)
      else if elem_info info \<noteq> None then zig_GenMarshalPrimitiveSlice info var ind
      else zig_write_slice var ind)"

definition zig_GenMarshalField :: "SszFieldInfo \<Rightarrow> string \<Rightarrow> string \<Rightarrow> string" where
  "zig_GenMarshalField info var ind =
     (case ssz_type info of
        SszBool \<Rightarrow> zig_write_bool var ind
      | SszUint8 \<Rightarrow> line ind (''try writer.writeByte('' @ var @ '');'')
      | SszUint16 \<Rightarrow> zig_write_int ''16'' var ind
      | SszUint32 \<Rightarrow> zig_write_int ''32'' var ind
      | SszUint64 \<Rightarrow> zig_write_int ''64'' var ind
      | SszUint128 \<Rightarrow> zig_write_array var ind
      | SszUint256 \<Rightarrow> zig_write_array var ind
      | SszVector \<Rightarrow> zig_marshal_vector info var ind
      | SszProgressiveList \<Rightarrow> zig_marshal_list info var ind
      | SszList \<Rightarrow> zig_marshal_list info var ind
      | SszBitlist \<Rightarrow> zig_write_slice var ind
      | SszBitvector \<Rightarrow> zig_write_array var ind
      | SszProgressiveContainer \<Rightarrow> zig_write_nested var ind
      | SszContainer \<Rightarrow> zig_write_nested var ind
      | SszUnion \<Rightarrow> [])"

text \<open>The two loops over the fields of a dynamic container.\<close>

definition zig_static_fields :: "Parser \<Rightarrow> SszContainerInfo \<Rightarrow> FieldPtr list \<Rightarrow> string" where
  "zig_static_fields P container ps =
     each_field container ps (\<lambda>p info.
       if is_dynamic info then
         zig_write_int ''32'' ''offset'' sp8 @ zig_GenOffsetIncrement info (''self.'' @ zig_member P p)
       else zig_GenMarshalField info (''self.'' @ zig_member P p) sp8)"

definition zig_dynamic_fields :: "Parser \<Rightarrow> SszContainerInfo \<Rightarrow> FieldPtr list \<Rightarrow> string" where
  "zig_dynamic_fields P container ps =
     each_field container ps (\<lambda>p info.
       if is_dynamic info then zig_GenMarshalField info (''self.'' @ zig_member P p) sp8 else [])"

definition zig_GenMarshalMethod :: "Parser \<Rightarrow> SszContainerInfo \<Rightarrow> string" where
  "zig_GenMarshalMethod P container =
     line sp4 ''pub fn sszAppend(self: *const Self, writer: anytype) !void {'' @
     (if dynamic_fields container = [] then
        each_field container (all_fields container) (\<lambda>p info.
          zig_GenMarshalField info (''self.'' @ zig_member P p) sp8)
      else
        line sp8 ''// Static section'' @
        line sp8 (''var offset: u32 = '' @ num32 (static_size container) @ '';'') @
        zig_static_fields P container (all_fields container) @ nl @
        line sp8 ''// Dynamic section'' @
        zig_dynamic_fields P container (all_fields container)) @
     line sp4 ''}''"

section \<open>toSszBytes\<close>

definition zig_GenToSszBytes :: string where
  "zig_GenToSszBytes =
     line sp4 ''pub fn toSszBytes(self: *const Self, allocator: std.mem.Allocator) ![]u8 {'' @
     line sp8 ''var buf = std.ArrayList(u8).init(allocator);'' @
     line sp8 ''errdefer buf.deinit();'' @
     line sp8 ''try self.sszAppend(buf.writer());'' @
     line sp8 ''return buf.toOwnedSlice();'' @
     line sp4 ''}''"

end
