(* ===== verification/Zig_Generator.thy ===== *)
theory Zig_Generator
  imports Zig_Text Go_Hash_Text Go_Generator
begin

text \<open>
  The text that the Zig back end emits, second half: \<open>fromSszBytes\<close>, \<open>treeHashWith\<close>, the struct
  around the methods, and the one file that \<open>generate\<close> writes.
\<close>

section \<open>fromSszBytes\<close>

text \<open>Reading an integer of \<open>w\<close> bits and \<open>k\<close> bytes from a slice with the given bounds.\<close>

definition zig_read_int :: "string \<Rightarrow> string \<Rightarrow> string \<Rightarrow> string \<Rightarrow> string" where
  "zig_read_int w k buf bounds =
     ''std.mem.readInt(u'' @ w @ '', '' @ buf @ ''['' @ bounds @ ''][0..'' @ k @ ''], .little)''"

definition zig_GenReadPrimitive :: "SszType \<Rightarrow> string \<Rightarrow> string \<Rightarrow> string" where
  "zig_GenReadPrimitive t buf off =
     (case t of
        SszBool \<Rightarrow> buf @ ''['' @ off @ ''] == 1''
      | SszUint8 \<Rightarrow> buf @ ''['' @ off @ '']''
      | SszUint16 \<Rightarrow> zig_read_int ''16'' ''2'' buf (off @ ''..'')
      | SszUint32 \<Rightarrow> zig_read_int ''32'' ''4'' buf (off @ ''..'')
      | SszUint64 \<Rightarrow> zig_read_int ''64'' ''8'' buf (off @ ''..'')
      | _ \<Rightarrow> ''undefined'')"

text \<open>A block expression that fills an array of \<open>limit\<close> elements of \<open>esize\<close> bytes each.\<close>

definition zig_array_block :: "u64 \<Rightarrow> string \<Rightarrow> string \<Rightarrow> u32 \<Rightarrow> string \<Rightarrow> string" where
  "zig_array_block limit ety start esize read =
     line [] ''blk: {'' @
     line sp12 (''var arr: ['' @ num64 limit @ '']'' @ ety @ '' = undefined;'') @
     line sp12 ''var idx: usize = 0;'' @
     line sp12 (''while (idx < '' @ num64 limit @ '') : (idx += 1) {'') @
     line sp16 (''const start = '' @ start @ '' + idx * '' @ num32 esize @ '';'') @
     line sp16 (''arr[idx] = '' @ read @ '';'') @
     line sp12 ''}'' @
     line sp12 ''break :blk arr;'' @
     sp8 @ ''}''"

definition zig_bytes_at :: "string \<Rightarrow> string \<Rightarrow> string \<Rightarrow> u32 \<Rightarrow> string" where
  "zig_bytes_at buf s e k = buf @ ''['' @ s @ ''..'' @ e @ ''][0..'' @ num32 k @ ''].*''"

definition zig_vector_expr :: "Parser \<Rightarrow> SszFieldInfo \<Rightarrow> string \<Rightarrow> string \<Rightarrow> string \<Rightarrow> string" where
  "zig_vector_expr P info buf s e =
     (case elem_info info of
        None \<Rightarrow> ''undefined''
      | Some ei \<Rightarrow>
          let esize = fixed_size ei;
            primitives = zig_array_block (info_limit info) (ZigElemTypeName P ei) s esize
              (zig_GenReadPrimitive (ssz_type ei) buf ''start'') in
          if ssz_type ei = SszUint8 then zig_bytes_at buf s e (fixed_size info)
          else if ssz_type ei = SszContainer then
            (case info_struct ei of
               None \<Rightarrow> primitives
             | Some sd \<Rightarrow>
                 let sname = sd_name (struct_at P sd) in
                 zig_array_block (info_limit info) sname s esize
                   (''try '' @ sname @ ''.fromSszBytes('' @ buf @ ''[start..start + '' @ num32 esize @ ''])''))
          else primitives)"

definition zig_GenUnmarshalExpr :: "Parser \<Rightarrow> SszFieldInfo \<Rightarrow> string \<Rightarrow> u32 \<Rightarrow> string" where
  "zig_GenUnmarshalExpr P info buf offset =
     (let s = num32 offset; e = num32 (offset + fixed_size info) in
      case ssz_type info of
        SszBool \<Rightarrow> buf @ ''['' @ s @ ''] == 1''
      | SszUint8 \<Rightarrow> buf @ ''['' @ s @ '']''
      | SszUint16 \<Rightarrow> zig_read_int ''16'' ''2'' buf (s @ ''..'' @ e)
      | SszUint32 \<Rightarrow> zig_read_int ''32'' ''4'' buf (s @ ''..'' @ e)
      | SszUint64 \<Rightarrow> zig_read_int ''64'' ''8'' buf (s @ ''..'' @ e)
      | SszUint128 \<Rightarrow> zig_bytes_at buf s e (fixed_size info)
      | SszUint256 \<Rightarrow> zig_bytes_at buf s e (fixed_size info)
      | SszVector \<Rightarrow> zig_vector_expr P info buf s e
      | SszBitvector \<Rightarrow> zig_bytes_at buf s e (fixed_size info)
      | SszProgressiveContainer \<Rightarrow>
          ''try '' @ info_struct_name P ''void'' info @ ''.fromSszBytes('' @ buf @ ''['' @ s @ ''..'' @ e @ ''])''
      | SszContainer \<Rightarrow>
          ''try '' @ info_struct_name P ''void'' info @ ''.fromSszBytes('' @ buf @ ''['' @ s @ ''..'' @ e @ ''])''
      | _ \<Rightarrow> ''undefined'')"

text \<open>The four branches of the code for lists, which differ in their comments, give the same text.\<close>

definition zig_GenUnmarshalDynExpr :: "Parser \<Rightarrow> SszFieldInfo \<Rightarrow> string \<Rightarrow> string \<Rightarrow> string \<Rightarrow> string" where
  "zig_GenUnmarshalDynExpr P info buf start fin =
     (let slice = buf @ ''['' @ start @ ''..'' @ fin @ '']'';
        raw = ''@constCast('' @ slice @ '')'';
        nested =
          (case info_struct info of
             None \<Rightarrow> ''undefined''
           | Some s \<Rightarrow> ''try '' @ sd_name (struct_at P s) @ ''.fromSszBytes('' @ slice @ '')'')
      in case ssz_type info of
           SszProgressiveList \<Rightarrow> raw
         | SszList \<Rightarrow> raw
         | SszBitlist \<Rightarrow> raw
         | SszProgressiveContainer \<Rightarrow> nested
         | SszContainer \<Rightarrow> nested
         | _ \<Rightarrow> ''undefined'')"

fun zig_unmarshal_fixed :: "Parser \<Rightarrow> SszContainerInfo \<Rightarrow> u32 \<Rightarrow> FieldPtr list \<Rightarrow> string" where
  "zig_unmarshal_fixed P container offset [] = []"
| "zig_unmarshal_fixed P container offset (p # ps) =
     (case field_infos container p of
        None \<Rightarrow> zig_unmarshal_fixed P container offset ps
      | Some info \<Rightarrow>
          line sp12 (''.'' @ zig_member P p @ '' = '' @ zig_GenUnmarshalExpr P info ''bytes'' offset @ '','') @
          zig_unmarshal_fixed P container (offset + fixed_size info) ps)"

definition zig_read_offset :: "SszContainerInfo \<Rightarrow> u32 \<Rightarrow> nat \<Rightarrow> string" where
  "zig_read_offset container offset dyn_idx =
     line sp8 (''const offset'' @ NumToString dyn_idx @ '' = '' @
       zig_read_int ''32'' ''4'' ''bytes'' (num32 offset @ ''..'' @ num32 (offset + 4)) @ '';'') @
     (if dyn_idx = 0 then
        line sp8 (''if (offset0 != '' @ num32 (static_size container) @ '') return error.InvalidOffset;'')
      else
        line sp8 (''if (offset'' @ NumToString dyn_idx @ '' < offset'' @ NumToString (dyn_idx - 1) @
          '' or offset'' @ NumToString dyn_idx @ '' > bytes.len) return error.InvalidOffset;''))"

fun zig_unmarshal_offsets :: "SszContainerInfo \<Rightarrow> u32 \<Rightarrow> nat \<Rightarrow> FieldPtr list \<Rightarrow> string" where
  "zig_unmarshal_offsets container offset dyn_idx [] = []"
| "zig_unmarshal_offsets container offset dyn_idx (p # ps) =
     (case field_infos container p of
        None \<Rightarrow> zig_unmarshal_offsets container offset dyn_idx ps
      | Some info \<Rightarrow>
          if is_dynamic info then
            zig_read_offset container offset dyn_idx @
            zig_unmarshal_offsets container (offset + 4) (dyn_idx + 1) ps
          else zig_unmarshal_offsets container (offset + fixed_size info) dyn_idx ps)"

fun zig_unmarshal_static :: "Parser \<Rightarrow> SszContainerInfo \<Rightarrow> u32 \<Rightarrow> FieldPtr list \<Rightarrow> string" where
  "zig_unmarshal_static P container offset [] = []"
| "zig_unmarshal_static P container offset (p # ps) =
     (case field_infos container p of
        None \<Rightarrow> zig_unmarshal_static P container offset ps
      | Some info \<Rightarrow>
          if is_dynamic info then zig_unmarshal_static P container (offset + 4) ps
          else
            line sp8 (''result.'' @ zig_member P p @ '' = '' @ zig_GenUnmarshalExpr P info ''bytes'' offset @ '';'') @
            zig_unmarshal_static P container (offset + fixed_size info) ps)"

text \<open>The vector \<open>dyn_fields\<close>; its \<open>i\<close>-th entry has the index \<open>i\<close>.\<close>

definition zig_dyn_fields :: "SszContainerInfo \<Rightarrow> (FieldPtr \<times> SszFieldInfo) list" where
  "zig_dyn_fields container =
     concat (map (\<lambda>p. case field_infos container p of
         None \<Rightarrow> []
       | Some info \<Rightarrow> if is_dynamic info then [(p, info)] else []) (all_fields container))"

fun zig_unmarshal_dynamic :: "Parser \<Rightarrow> nat \<Rightarrow> (FieldPtr \<times> SszFieldInfo) list \<Rightarrow> string" where
  "zig_unmarshal_dynamic P i [] = []"
| "zig_unmarshal_dynamic P i ((p, info) # ps) =
     (let start = ''offset'' @ NumToString i;
        fin = (if ps \<noteq> [] then ''offset'' @ NumToString (i + 1) else ''bytes.len'') in
      line sp8 (''result.'' @ zig_member P p @ '' = '' @
        zig_GenUnmarshalDynExpr P info ''bytes'' start fin @ '';'') @
      zig_unmarshal_dynamic P (i + 1) ps)"

definition zig_GenUnmarshalMethod :: "Parser \<Rightarrow> SszContainerInfo \<Rightarrow> string" where
  "zig_GenUnmarshalMethod P container =
     line sp4 ''pub fn fromSszBytes(bytes: []const u8) !Self {'' @
     line sp8 (''if (bytes.len < '' @ num32 (static_size container) @ '') return error.BufferTooSmall;'') @
     (if dynamic_fields container = [] then
        line sp8 ''return Self{'' @
        zig_unmarshal_fixed P container 0 (all_fields container) @
        line sp8 ''};''
      else
        zig_unmarshal_offsets container 0 0 (all_fields container) @
        line sp8 ''var result: Self = undefined;'' @
        zig_unmarshal_static P container 0 (all_fields container) @
        zig_unmarshal_dynamic P 0 (zig_dyn_fields container) @
        line sp8 ''return result;'') @
     line sp4 ''}''"

section \<open>treeHashWith\<close>

definition zig_ssz_limit_for_bytes :: "u64 \<Rightarrow> u64" where
  "zig_ssz_limit_for_bytes max_bytes = (max_bytes + 31) div 32"

definition zig_ssz_limit_for_elements :: "u64 \<Rightarrow> u32 \<Rightarrow> u64" where
  "zig_ssz_limit_for_elements max_elements elem_size =
     (if elem_size \<ge> 32 then max_elements
      else
        let elems_per_chunk = ucast (32 div elem_size) in
        (max_elements + elems_per_chunk - 1) div elems_per_chunk)"

definition zig_GenAppendPrimitive :: "SszType \<Rightarrow> string \<Rightarrow> string \<Rightarrow> string" where
  "zig_GenAppendPrimitive t var ind =
     (case t of
        SszBool \<Rightarrow> line ind (''h.appendBool('' @ var @ '');'')
      | SszUint8 \<Rightarrow> line ind (''h.appendUint8('' @ var @ '');'')
      | SszUint16 \<Rightarrow> line ind (''h.appendUint16('' @ var @ '');'')
      | SszUint32 \<Rightarrow> line ind (''h.appendUint32('' @ var @ '');'')
      | SszUint64 \<Rightarrow> line ind (''h.appendUint64('' @ var @ '');'')
      | _ \<Rightarrow> [])"

text \<open>A block that remembers the index, hashes a body and merkleizes it with the last line.\<close>

definition zig_sub_tree :: "string \<Rightarrow> string \<Rightarrow> string \<Rightarrow> string" where
  "zig_sub_tree ind body mixin =
     line ind ''{'' @
     line (ind @ sp4) ''const sub_idx = h.index();'' @
     body @
     line (ind @ sp4) mixin @
     line ind ''}''"

definition zig_hash_containers :: "string \<Rightarrow> string \<Rightarrow> string" where
  "zig_hash_containers var ind =
     line ind (''for ('' @ var @ '') |*item| {'') @
     line (ind @ sp4) ''item.treeHashWith(h);'' @
     line ind ''}''"

definition zig_hash_primitives :: "SszFieldInfo \<Rightarrow> string \<Rightarrow> string \<Rightarrow> string" where
  "zig_hash_primitives info var ind =
     line ind (''for ('' @ var @ '') |v| {'') @
     zig_GenAppendPrimitive (elem_ssz_type info) ''v'' (ind @ sp4) @
     line ind ''}'' @
     line ind ''h.fillUpTo32();''"

definition zig_hash_vector :: "SszFieldInfo \<Rightarrow> string \<Rightarrow> string \<Rightarrow> string" where
  "zig_hash_vector info var ind =
     (if elem_is info SszUint8 then line ind (''h.putBytes(&'' @ var @ '');'')
      else if elem_is info SszContainer then
        zig_sub_tree ind (zig_hash_containers var (ind @ sp4)) ''h.merkleize(sub_idx);''
      else if elem_info info \<noteq> None then
        zig_sub_tree ind (zig_hash_primitives info var (ind @ sp4)) ''h.merkleize(sub_idx);''
      else [])"

definition zig_mixin :: "string \<Rightarrow> string \<Rightarrow> u64 \<Rightarrow> string" where
  "zig_mixin idx var limit = ''h.merkleizeWithMixin('' @ idx @ '', '' @ var @ ''.len, '' @ num64 limit @ '');''"

definition zig_inner_chunk_limit :: "SszFieldInfo \<Rightarrow> u64" where
  "zig_inner_chunk_limit info =
     (let inner_limit = (case elem_info info of None \<Rightarrow> 0 | Some e \<Rightarrow> info_limit e)
      in if inner_limit > 0 then zig_ssz_limit_for_bytes inner_limit else 0)"

definition zig_hash_list :: "SszFieldInfo \<Rightarrow> string \<Rightarrow> string \<Rightarrow> string" where
  "zig_hash_list info var ind =
     (let limit = info_limit info in
      if elem_is info SszList then
        let inner_chunk_limit = zig_inner_chunk_limit info in
        zig_sub_tree ind
          (line (ind @ sp4) (''for ('' @ var @ '') |item| {'') @
           line (ind @ sp8) ''const inner = h.index();'' @
           line (ind @ sp8) ''h.appendBytes32(item);'' @
           line (ind @ sp8)
             (if inner_chunk_limit > 0 then zig_mixin ''inner'' ''item'' inner_chunk_limit
              else ''h.merkleize(inner);'') @
           line (ind @ sp4) ''}'')
          (zig_mixin ''sub_idx'' var limit)
      else if elem_is info SszUint8 then
        zig_sub_tree ind (line (ind @ sp4) (''h.appendBytes32('' @ var @ '');''))
          (zig_mixin ''sub_idx'' var (zig_ssz_limit_for_bytes limit))
      else if elem_is info SszContainer then
        zig_sub_tree ind (zig_hash_containers var (ind @ sp4)) (zig_mixin ''sub_idx'' var limit)
      else if elem_info info \<noteq> None then
        zig_sub_tree ind (zig_hash_primitives info var (ind @ sp4))
          (zig_mixin ''sub_idx'' var (zig_ssz_limit_for_elements limit (elem_fixed_size info)))
      else [])"

definition zig_hash_progressive_list :: "SszFieldInfo \<Rightarrow> string \<Rightarrow> string \<Rightarrow> string" where
  "zig_hash_progressive_list info var ind =
     (let mixin = ''h.merkleizeProgressiveWithMixin(sub_idx, '' @ var @ ''.len);'' in
      if elem_is info SszUint8 then
        zig_sub_tree ind (line (ind @ sp4) (''h.appendBytes32('' @ var @ '');'')) mixin
      else if elem_is info SszContainer then
        zig_sub_tree ind (zig_hash_containers var (ind @ sp4)) mixin
      else if elem_info info \<noteq> None then
        zig_sub_tree ind (zig_hash_primitives info var (ind @ sp4)) mixin
      else [])"

definition zig_GenHashField :: "SszFieldInfo \<Rightarrow> string \<Rightarrow> string \<Rightarrow> string" where
  "zig_GenHashField info var ind =
     (case ssz_type info of
        SszBool \<Rightarrow> line ind (''h.putBool('' @ var @ '');'')
      | SszUint8 \<Rightarrow> line ind (''h.putUint8('' @ var @ '');'')
      | SszUint16 \<Rightarrow> line ind (''h.putUint16('' @ var @ '');'')
      | SszUint32 \<Rightarrow> line ind (''h.putUint32('' @ var @ '');'')
      | SszUint64 \<Rightarrow> line ind (''h.putUint64('' @ var @ '');'')
      | SszUint128 \<Rightarrow> line ind (''h.putBytes(&'' @ var @ '');'')
      | SszUint256 \<Rightarrow> line ind (''h.putBytes(&'' @ var @ '');'')
      | SszVector \<Rightarrow> zig_hash_vector info var ind
      | SszList \<Rightarrow> zig_hash_list info var ind
      | SszBitlist \<Rightarrow> line ind (''h.putBitlist('' @ var @ '', '' @ num64 (info_limit info) @ '');'')
      | SszBitvector \<Rightarrow> line ind (''h.putBytes(&'' @ var @ '');'')
      | SszContainer \<Rightarrow> line ind (var @ ''.treeHashWith(h);'')
      | SszProgressiveContainer \<Rightarrow> line ind (var @ ''.treeHashWith(h);'')
      | SszProgressiveList \<Rightarrow> zig_hash_progressive_list info var ind
      | SszUnion \<Rightarrow> [])"

text \<open>One step of the loop over the indices of a progressive container.\<close>

definition zig_hash_index :: "Parser \<Rightarrow> SszContainerInfo \<Rightarrow> u32 \<Rightarrow> string" where
  "zig_hash_index P container i =
     (case map_of (index_to_field container) i of
        Some p \<Rightarrow>
          (case field_infos container p of
             None \<Rightarrow> []
           | Some info \<Rightarrow> zig_GenHashField info (''self.'' @ zig_member P p) sp8)
      | None \<Rightarrow> line sp8 ''h.putUint8(0);'')"

definition zig_GenHashMethod :: "Parser \<Rightarrow> SszContainerInfo \<Rightarrow> string" where
  "zig_GenHashMethod P container =
     line sp4 ''pub fn treeHashWith(self: *const Self, h: *Hasher) void {'' @
     line sp8 ''const idx = h.index();'' @
     (if is_progressive container then
        concat (map (\<lambda>i. zig_hash_index P container (of_nat i)) [0..<Suc (unat (max_ssz_index container))]) @
        line sp8 (''h.merkleizeProgressiveWithActiveFields(idx, &[_]u8{'' @
          comma_list (map hex_byte (active_fields_bitvector container)) @ ''});'')
      else
        each_field container (all_fields container) (\<lambda>p info.
          zig_GenHashField info (''self.'' @ zig_member P p) sp8) @
        line sp8 ''h.merkleize(idx);'') @
     line sp4 ''}''"

definition zig_GenTreeHashRoot :: string where
  "zig_GenTreeHashRoot =
     line sp4 ''pub fn treeHashRoot(self: *const Self) [32]u8 {'' @
     line sp8 ''var h = Hasher.init();'' @
     line sp8 ''self.treeHashWith(&h);'' @
     line sp8 ''return h.finish();'' @
     line sp4 ''}''"

section \<open>The struct and the file\<close>

definition zig_GenZigStruct :: "Parser \<Rightarrow> StructDef \<Rightarrow> SszContainerInfo \<Rightarrow> string" where
  "zig_GenZigStruct P struct_def container =
     line [] (''pub const '' @ sd_name struct_def @ '' = struct {'') @
     each_field container (all_fields container) (\<lambda>p info.
       line sp4 (zig_member P p @ '': '' @ ZigTypeName P info @ '','')) @ nl @
     line sp4 ''const Self = @This();'' @ nl @
     zig_GenSizeMethod P container @ nl @
     zig_GenMarshalMethod P container @ nl @
     zig_GenToSszBytes @ nl @
     zig_GenUnmarshalMethod P container @ nl @
     zig_GenTreeHashRoot @ nl @
     zig_GenHashMethod P container @
     line [] ''};''"

definition zig_GenerateType :: "Parser \<Rightarrow> StructDef \<Rightarrow> SszContainerInfo \<Rightarrow> string" where
  "zig_GenerateType P struct_def container = zig_GenZigStruct P struct_def container @ nl"

definition zig_file_header :: string where
  "zig_file_header =
     line [] ''// Code generated by the FlatBuffers compiler. DO NOT EDIT.'' @ nl @
     line [] (''const std = @import('' @ dq @ ''std'' @ dq @ '');'') @
     line [] (''const ssz = @import('' @ dq @ ''ssz_runtime'' @ dq @ '');'') @
     line [] ''const Hasher = ssz.Hasher;'' @ nl"

text \<open>The loop over the structs of the schema; \<open>all_code\<close> is the text so far.\<close>

definition zig_generate_struct :: "nat \<Rightarrow> Parser \<Rightarrow> StructPtr \<Rightarrow> string \<Rightarrow> string res" where
  "zig_generate_struct depth P s all_code =
     (let struct_def = struct_at P s in
      if sd_generated struct_def then Inr all_code
      else bind_res (zig_AnalyzeContainer depth P s)
        (\<lambda>container. Inr (all_code @ zig_GenerateType P struct_def container @ nl)))"

definition zig_generate ::
  "(string \<Rightarrow> string \<Rightarrow> bool) \<Rightarrow> nat \<Rightarrow> Parser \<Rightarrow> string \<Rightarrow> string \<Rightarrow> files res" where
  "zig_generate save depth P path file_name =
     bind_res (fold_res (zig_generate_struct depth P) (structs_vec P) zig_file_header)
       (\<lambda>all_code.
          let filename = path @ zig_ToSnakeCase file_name @ ''_ssz.zig''
          in if save filename all_code then Inr [(filename, all_code)] else Inl (SaveFailed filename))"

end
