(* ===== verification/Zig_Program.thy ===== *)
theory Zig_Program
  imports Zig_Generator Ts_Program
begin

text \<open>
  The Zig back end: the syntax of the emitted \<open>sszAppend\<close> and what it does, the statements that the
  generator emits, and the proofs that the emitted text of the encoder, the size and the hashing
  method is the text of such statements.  The encoder writes to a stream and never goes back, so it
  computes the offsets before it writes them, in the 32-bit variables \<open>offset\<close> and
  \<open>inner_offset\<close>.
\<close>

section \<open>The dialect\<close>

definition zig_dialect :: "Parser \<Rightarrow> dialect" where
  "zig_dialect P =
     \<lparr>dl_member = zig_member P, dl_label = (\<lambda>p. fd_name (field_at P p)),
      dl_index_loops = False, dl_size_progressive = True, dl_size_bytes = False\<rparr>"

lemma zig_dialect_simps [simp]:
  "dl_member (zig_dialect P) p = zig_member P p" "dl_label (zig_dialect P) p = fd_name (field_at P p)"
  "\<not> dl_index_loops (zig_dialect P)" "dl_size_progressive (zig_dialect P)" "\<not> dl_size_bytes (zig_dialect P)"
  by (simp_all add: zig_dialect_def)

section \<open>Syntax of the encoder\<close>

text \<open>
  A loop binds its variable to the elements or to pointers to them.  Zig refuses pointers to the
  elements of an array that is not itself given by a pointer (\<open>ByRefArray\<close>), which the generator
  asks for where it walks over a vector of containers; slices have them.
\<close>

datatype capture = ByValue | ByRef | ByRefArray

text \<open>\<open>ZOffset\<close> are statements of \<open>Go_Lang\<close> for a size, here of the variable \<open>offset\<close>.\<close>

datatype zstmt =
    ZNote string
  | ZBlank
  | ZOffset "gstmt list"
  | ZWriteOffset
  | ZWriteBool gexpr
  | ZWriteByte gexpr
  | ZWriteUint nat gexpr
  | ZWriteArray gexpr
  | ZWriteSlice gexpr
  | ZInner gexpr
  | ZWriteInner
  | ZInnerAddLen gexpr
  | ZInnerAddCall gexpr
  | ZFor capture string gexpr "zstmt list"
  | ZBlock "zstmt list"
  | ZCall gexpr

section \<open>Execution\<close>

text \<open>
  A state is a frame, in which \<open>gf_dst\<close> is what has been written and \<open>gf_size\<close> the variable
  \<open>offset\<close>, and the variable \<open>inner_offset\<close> where it is declared.  \<open>@intCast\<close> and additions
  that leave 32 bits are \<open>None\<close>, and so is what Zig does not compile.  The sums only grow, so the one
  check at the end of a \<open>ZOffset\<close> stands for those of its additions.
\<close>

type_synonym zstate = "gframe \<times> nat option"

definition zfits :: "nat \<Rightarrow> bool" where
  "zfits n \<longleftrightarrow> n < 2 ^ 32"

definition zinner_add :: "nat \<Rightarrow> zstate \<Rightarrow> zstate option" where
  "zinner_add n st =
     (case snd st of
        None \<Rightarrow> None
      | Some k \<Rightarrow> if zfits (k + n) then Some (fst st, Some (k + n)) else None)"

fun zexec :: "gcalls \<Rightarrow> zstmt \<Rightarrow> zstate \<Rightarrow> zstate option"
  and zexecs :: "gcalls \<Rightarrow> zstmt list \<Rightarrow> zstate \<Rightarrow> zstate option" where
  "zexec C (ZNote s) (fr, k) = Some (fr, k)"
| "zexec C ZBlank (fr, k) = Some (fr, k)"
| "zexec C (ZOffset ss) (fr, k) =
     Option.bind (execs C ss fr) (\<lambda>fr'. if zfits (gf_size fr') then Some (fr', k) else None)"
| "zexec C ZWriteOffset (fr, k) = Some (append_dst (le_bytes 4 (gf_size fr)) fr, k)"
| "zexec C (ZWriteBool e) (fr, k) =
     (case eval fr e of Some (VBool b) \<Rightarrow> Some (append_dst [if b then 1 else 0] fr, k) | _ \<Rightarrow> None)"
| "zexec C (ZWriteByte e) (fr, k) =
     (case eval fr e of Some (VUint n) \<Rightarrow> Some (append_dst (le_bytes 1 n) fr, k) | _ \<Rightarrow> None)"
| "zexec C (ZWriteUint w e) (fr, k) =
     (case eval fr e of Some (VUint n) \<Rightarrow> Some (append_dst (le_bytes (w div 8) n) fr, k) | _ \<Rightarrow> None)"
| "zexec C (ZWriteArray e) (fr, k) =
     (case eval fr e of Some (VBytes bs) \<Rightarrow> Some (append_dst bs fr, k) | _ \<Rightarrow> None)"
| "zexec C (ZWriteSlice e) (fr, k) =
     (case eval fr e of Some (VBytes bs) \<Rightarrow> Some (append_dst bs fr, k) | _ \<Rightarrow> None)"
| "zexec C (ZInner e) (fr, k) =
     Option.bind (eval_len fr e) (\<lambda>n. if zfits (n * 4) then Some (fr, Some (n * 4)) else None)"
| "zexec C ZWriteInner (fr, k) =
     (case k of None \<Rightarrow> None | Some j \<Rightarrow> Some (append_dst (le_bytes 4 j) fr, k))"
| "zexec C (ZInnerAddLen e) (fr, k) = Option.bind (eval_len fr e) (\<lambda>n. zinner_add n (fr, k))"
| "zexec C (ZInnerAddCall e) (fr, k) =
     (case eval fr e of
        Some (VStruct s vs) \<Rightarrow> Option.bind (call_size C s vs) (\<lambda>n. zinner_add n (fr, k))
      | _ \<Rightarrow> None)"
| "zexec C (ZFor c x e b) (fr, k) =
     (if c = ByRefArray then None
      else Option.bind (eval_elems fr e) (\<lambda>xs.
        fold_opt (\<lambda>v (f, j). map_option (\<lambda>(f', j'). (leave f f', j')) (zexecs C b (bind_val x v f, j))) xs (fr, k)))"
| "zexec C (ZBlock b) (fr, k) = map_option (\<lambda>(fr', k'). (leave fr fr', k)) (zexecs C b (fr, k))"
| "zexec C (ZCall e) (fr, k) =
     (case eval fr e of
        Some (VStruct s vs) \<Rightarrow>
          map_option (\<lambda>d. (fr\<lparr>gf_dst := d\<rparr>, k)) (call_marshal C s vs (gf_dst fr))
      | _ \<Rightarrow> None)"
| "zexecs C [] st = Some st"
| "zexecs C (s # ss) st = Option.bind (zexec C s st) (zexecs C ss)"

lemma zexecs_append [simp]:
  "zexecs C (xs @ ys) st = Option.bind (zexecs C xs st) (zexecs C ys)"
proof (induction xs arbitrary: st)
  case (Cons x xs)
  then show ?case by (cases "zexec C x st") auto
qed simp

text \<open>What is emitted for one struct, and calls: the first number bounds their nesting.\<close>

record zdecl =
  zd_members :: "string list"
  zd_append :: "zstmt list"

type_synonym zprogram = "string \<rightharpoonup> zdecl"

definition zig_frame :: "string list \<Rightarrow> val list \<Rightarrow> byte list \<Rightarrow> gframe" where
  "zig_frame ms vs out =
     \<lparr>gf_members = ms, gf_recv = vs, gf_vals = Map.empty, gf_ints = Map.empty, gf_buf = [],
      gf_dst = out, gf_size = 0\<rparr>"

fun sszAppend :: "zprogram \<Rightarrow> gprogram \<Rightarrow> nat \<Rightarrow> string \<Rightarrow> val list \<Rightarrow> byte list \<Rightarrow> byte list option" where
  "sszAppend prog sizes 0 nm vs out = None"
| "sszAppend prog sizes (Suc n) nm vs out =
     (case prog nm of
        None \<Rightarrow> None
      | Some d \<Rightarrow>
          map_option (\<lambda>(fr, k). gf_dst fr)
            (zexecs \<lparr>call_marshal = sszAppend prog sizes n, call_size = SizeSSZ sizes n\<rparr>
              (zd_append d) (zig_frame (zd_members d) vs out, None)))"

section \<open>Statements\<close>

definition zprim_stmts :: "SszType \<Rightarrow> gexpr \<Rightarrow> zstmt list" where
  "zprim_stmts t e =
     (case t of
        SszBool \<Rightarrow> [ZWriteBool e]
      | SszUint16 \<Rightarrow> [ZWriteUint 16 e]
      | SszUint32 \<Rightarrow> [ZWriteUint 32 e]
      | SszUint64 \<Rightarrow> [ZWriteUint 64 e]
      | _ \<Rightarrow> [])"

definition zoffset_list :: "capture \<Rightarrow> gexpr \<Rightarrow> zstmt \<Rightarrow> zstmt \<Rightarrow> zstmt list" where
  "zoffset_list c e add item =
     [ZBlock [ZInner e, ZFor c ''item'' e [ZWriteInner, add], ZFor c ''item'' e [item]]]"

definition zvector_stmts :: "SszFieldInfo \<Rightarrow> gexpr \<Rightarrow> zstmt list" where
  "zvector_stmts info e =
     (if elem_is info SszUint8 then [ZWriteArray e]
      else if elem_is info SszContainer then [ZFor ByRefArray ''item'' e [ZCall (GLocal ''item'')]]
      else if elem_info info \<noteq> None then
        [ZFor ByValue ''v'' e (zprim_stmts (elem_ssz_type info) (GLocal ''v''))]
      else [])"

definition zlist_stmts :: "SszFieldInfo \<Rightarrow> gexpr \<Rightarrow> zstmt list" where
  "zlist_stmts info e =
     (if elem_is info SszList then
        zoffset_list ByValue e (ZInnerAddLen (GLocal ''item'')) (ZWriteSlice (GLocal ''item''))
      else if elem_is info SszUint8 then [ZWriteSlice e]
      else if elem_is info SszContainer then
        (if elem_dynamic info then
           zoffset_list ByRef e (ZInnerAddCall (GLocal ''item'')) (ZCall (GLocal ''item''))
         else [ZFor ByRef ''item'' e [ZCall (GLocal ''item'')]])
      else if elem_info info \<noteq> None then
        [ZFor ByValue ''v'' e (zprim_stmts (elem_ssz_type info) (GLocal ''v''))]
      else [ZWriteSlice e])"

definition zfield_stmts :: "SszFieldInfo \<Rightarrow> gexpr \<Rightarrow> zstmt list" where
  "zfield_stmts info e =
     (case ssz_type info of
        SszBool \<Rightarrow> [ZWriteBool e]
      | SszUint8 \<Rightarrow> [ZWriteByte e]
      | SszUint16 \<Rightarrow> [ZWriteUint 16 e]
      | SszUint32 \<Rightarrow> [ZWriteUint 32 e]
      | SszUint64 \<Rightarrow> [ZWriteUint 64 e]
      | SszUint128 \<Rightarrow> [ZWriteArray e]
      | SszUint256 \<Rightarrow> [ZWriteArray e]
      | SszVector \<Rightarrow> zvector_stmts info e
      | SszProgressiveList \<Rightarrow> zlist_stmts info e
      | SszList \<Rightarrow> zlist_stmts info e
      | SszBitlist \<Rightarrow> [ZWriteSlice e]
      | SszBitvector \<Rightarrow> [ZWriteArray e]
      | SszProgressiveContainer \<Rightarrow> [ZCall e]
      | SszContainer \<Rightarrow> [ZCall e]
      | SszUnion \<Rightarrow> [])"

abbreviation dl_zfield_stmts :: "dialect \<Rightarrow> FieldPtr \<times> SszFieldInfo \<Rightarrow> zstmt list" where
  "dl_zfield_stmts D f \<equiv> zfield_stmts (snd f) (member_expr D (fst f))"

definition zstatic_field :: "dialect \<Rightarrow> FieldPtr \<times> SszFieldInfo \<Rightarrow> zstmt list" where
  "zstatic_field D f =
     (if is_dynamic (snd f) then [ZWriteOffset, ZOffset (dl_size_stmts D f)] else dl_zfield_stmts D f)"

definition zdynamic_field :: "dialect \<Rightarrow> FieldPtr \<times> SszFieldInfo \<Rightarrow> zstmt list" where
  "zdynamic_field D f = (if is_dynamic (snd f) then dl_zfield_stmts D f else [])"

definition zappend_body :: "dialect \<Rightarrow> SszContainerInfo \<Rightarrow> zstmt list" where
  "zappend_body D c =
     (if dynamic_fields c = [] then
        concat (map (dl_zfield_stmts D) (infos_of c (all_fields c)))
      else
        [ZNote ''Static section'', ZOffset [SizeInit (unat (static_size c))]] @
        concat (map (zstatic_field D) (infos_of c (all_fields c))) @
        [ZBlank, ZNote ''Dynamic section''] @
        concat (map (zdynamic_field D) (infos_of c (all_fields c))))"

section \<open>Text\<close>

text \<open>The receiver is called \<open>self\<close>; elements by index do not occur.\<close>

fun zg_expr :: "gexpr \<Rightarrow> string" where
  "zg_expr (GMember f) = ''self.'' @ f"
| "zg_expr (GLocal x) = x"
| "zg_expr (GIndex e i) = []"

text \<open>The statements of a size, for the variable \<open>offset\<close> or \<open>size\<close>.\<close>

definition zg_add :: "bool \<Rightarrow> string \<Rightarrow> string \<Rightarrow> string" where
  "zg_add off n ind =
     line ind (if off then ''offset += @intCast('' @ n @ '');'' else ''size += '' @ n @ '';'')"

definition zg_calls :: "gstmt list \<Rightarrow> bool" where
  "zg_calls b = (case b of [SizeAddCall e] \<Rightarrow> True | _ \<Rightarrow> False)"

fun zg_size_stmt :: "bool \<Rightarrow> string \<Rightarrow> gstmt \<Rightarrow> string"
  and zg_size_stmts :: "bool \<Rightarrow> string \<Rightarrow> gstmt list \<Rightarrow> string" where
  "zg_size_stmt off ind (SizeInit n) =
     line ind (''var '' @ (if off then ''offset: u32'' else ''size: usize'') @ '' = '' @ NumToString n @ '';'')"
| "zg_size_stmt off ind (SizeAddMul e k) = zg_add off (zg_expr e @ ''.len * '' @ NumToString k) ind"
| "zg_size_stmt off ind (SizeAddLen e) = zg_add off (zg_expr e @ ''.len'') ind"
| "zg_size_stmt off ind (SizeAddCall e) = zg_add off (zg_expr e @ ''.sszBytesLen()'') ind"
| "zg_size_stmt off ind (ForValue x e b) =
     line ind (''for ('' @ zg_expr e @ '') |'' @ (if zg_calls b then ''*'' else []) @ x @ ''| {'') @
     zg_size_stmts off (ind @ sp4) b @ line ind ''}''"
| "zg_size_stmt off ind _ = []"
| "zg_size_stmts off ind [] = []"
| "zg_size_stmts off ind (s # ss) = zg_size_stmt off ind s @ zg_size_stmts off ind ss"

lemma zg_size_stmts_append [simp]:
  "zg_size_stmts off ind (xs @ ys) = zg_size_stmts off ind xs @ zg_size_stmts off ind ys"
  by (induction xs) auto

fun zg_stmt :: "string \<Rightarrow> zstmt \<Rightarrow> string"
  and zg_stmts :: "string \<Rightarrow> zstmt list \<Rightarrow> string" where
  "zg_stmt ind (ZNote s) = line ind (''// '' @ s)"
| "zg_stmt ind ZBlank = nl"
| "zg_stmt ind (ZOffset ss) = zg_size_stmts True ind ss"
| "zg_stmt ind ZWriteOffset = zig_write_int ''32'' ''offset'' ind"
| "zg_stmt ind (ZWriteBool e) = zig_write_bool (zg_expr e) ind"
| "zg_stmt ind (ZWriteByte e) = line ind (''try writer.writeByte('' @ zg_expr e @ '');'')"
| "zg_stmt ind (ZWriteUint w e) = zig_write_int (NumToString w) (zg_expr e) ind"
| "zg_stmt ind (ZWriteArray e) = zig_write_array (zg_expr e) ind"
| "zg_stmt ind (ZWriteSlice e) = zig_write_slice (zg_expr e) ind"
| "zg_stmt ind (ZInner e) = line ind (''var inner_offset: u32 = @intCast('' @ zg_expr e @ ''.len * 4);'')"
| "zg_stmt ind ZWriteInner = zig_write_int ''32'' ''inner_offset'' ind"
| "zg_stmt ind (ZInnerAddLen e) = line ind (''inner_offset += @intCast('' @ zg_expr e @ ''.len);'')"
| "zg_stmt ind (ZInnerAddCall e) =
     line ind (''inner_offset += @intCast('' @ zg_expr e @ ''.sszBytesLen());'')"
| "zg_stmt ind (ZFor c x e b) =
     line ind (''for ('' @ zg_expr e @ '') |'' @ (if c = ByValue then [] else ''*'') @ x @ ''| {'') @
     zg_stmts (ind @ sp4) b @ line ind ''}''"
| "zg_stmt ind (ZBlock b) = line ind ''{'' @ zg_stmts (ind @ sp4) b @ line ind ''}''"
| "zg_stmt ind (ZCall e) = zig_write_nested (zg_expr e) ind"
| "zg_stmts ind [] = []"
| "zg_stmts ind (s # ss) = zg_stmt ind s @ zg_stmts ind ss"

lemma zg_stmts_append [simp]: "zg_stmts ind (xs @ ys) = zg_stmts ind xs @ zg_stmts ind ys"
  by (induction xs) auto

section \<open>The emitted text is the text of the statements\<close>

text \<open>Sizes, of \<open>sszBytesLen\<close> and of the variable \<open>offset\<close>.\<close>

lemma print_zig_size: "zig_GenSizeField info (zg_expr e) = zg_size_stmts False sp8 (size_stmts True False info e)"
  by (cases "ssz_type info")
    (simp_all add: zig_GenSizeField_def size_stmts_def zg_add_def zg_calls_def Let_def num_literals)

lemma print_zig_offset:
  "zig_GenOffsetIncrement info (zg_expr e) = zg_size_stmts True sp8 (size_stmts True False info e)"
  by (cases "ssz_type info")
    (simp_all add: zig_GenOffsetIncrement_def size_stmts_def zg_add_def zg_calls_def Let_def num_literals)

lemma print_zig_size_body:
  "zig_GenSizeMethod P c =
     line sp4 ''pub fn sszBytesLen(self: *const Self) usize {'' @
     (if is_fixed c then line sp8 (''return '' @ num32 (static_size c) @ '';'')
      else zg_size_stmts False sp8 (size_body (zig_dialect P) c) @ line sp8 ''return size;'') @
     line sp4 ''}''"
proof -
  have "each_field c ps (\<lambda>p info. zig_GenSizeField info (''self.'' @ zig_member P p)) =
      zg_size_stmts False sp8 (concat (map (dl_size_stmts (zig_dialect P)) (infos_of c ps)))" for ps
    by (induction ps) (auto simp: print_zig_size [of _ "GMember f" for f, simplified] split: option.splits)
  then show ?thesis by (simp add: zig_GenSizeMethod_def size_body_def)
qed

lemma print_zig_primitives:
  "zig_GenMarshalPrimitiveArray info (zg_expr e) ind =
   zg_stmts ind [ZFor ByValue ''v'' e (zprim_stmts (elem_ssz_type info) (GLocal ''v''))]"
  by (cases "elem_ssz_type info")
    (simp_all add: zig_GenMarshalPrimitiveArray_def zprim_stmts_def num_literals)

lemma print_zig_vector: "zig_marshal_vector info (zg_expr e) ind = zg_stmts ind (zvector_stmts info e)"
  by (simp add: zig_marshal_vector_def zvector_stmts_def zig_write_containers_def
      print_zig_primitives del: zg_stmts.simps(2)) simp

lemma print_zig_list: "zig_marshal_list info (zg_expr e) ind = zg_stmts ind (zlist_stmts info e)"
  by (simp add: zig_marshal_list_def zlist_stmts_def zig_write_containers_def zig_offset_list_def zoffset_list_def
      zig_GenMarshalPrimitiveSlice_def print_zig_primitives)

lemma print_zig_field:
  "zig_GenMarshalField info (''self.'' @ f) ind = zg_stmts ind (zfield_stmts info (GMember f))"
  using print_zig_vector [of info "GMember f" ind] print_zig_list [of info "GMember f" ind]
  by (cases "ssz_type info") (simp_all add: zig_GenMarshalField_def zfield_stmts_def num_literals)

lemma zig_each:
  "(\<And>p i. body p i = zg_stmts ind (stmts (p, i))) \<Longrightarrow>
   each_field c ps body = zg_stmts ind (concat (map stmts (infos_of c ps)))"
  by (induction ps) (auto split: option.splits)

lemma print_zig_static:
  "zig_static_fields P c ps = zg_stmts sp8 (concat (map (zstatic_field (zig_dialect P)) (infos_of c ps)))"
  unfolding zig_static_fields_def
  by (rule zig_each)
    (simp add: zstatic_field_def print_zig_field [simplified] print_zig_offset [of _ "GMember f" for f, simplified])

lemma print_zig_dynamic:
  "zig_dynamic_fields P c ps = zg_stmts sp8 (concat (map (zdynamic_field (zig_dialect P)) (infos_of c ps)))"
  unfolding zig_dynamic_fields_def by (rule zig_each) (simp add: zdynamic_field_def print_zig_field [simplified])

lemma print_zig_append:
  "zig_GenMarshalMethod P c =
     line sp4 ''pub fn sszAppend(self: *const Self, writer: anytype) !void {'' @
     zg_stmts sp8 (zappend_body (zig_dialect P) c) @ line sp4 ''}''"
proof -
  have "each_field c ps (\<lambda>p info. zig_GenMarshalField info (''self.'' @ zig_member P p) sp8) =
      zg_stmts sp8 (concat (map (dl_zfield_stmts (zig_dialect P)) (infos_of c ps)))" for ps
    by (rule zig_each) (simp add: print_zig_field [simplified])
  then show ?thesis
    by (simp add: zig_GenMarshalMethod_def zappend_body_def print_zig_static print_zig_dynamic)
qed

section \<open>Hashing\<close>

text \<open>
  The style is that of the TypeScript back end, which walks over vectors by value too; Zig writes no
  comments, takes pointers to elements that have a method called, and has its own name for the index
  of a subtree.
\<close>

definition zg_name :: "string \<Rightarrow> string" where
  "zg_name x = (if x = ''subIdx'' then ''sub_idx'' else x)"

lemma zg_name_simps [simp]:
  "zg_name ''subIdx'' = ''sub_idx''" "zg_name ''inner'' = ''inner''" "zg_name ''idx'' = ''idx''"
  by (simp_all add: zg_name_def)

definition zg_hcalls :: "hstmt list \<Rightarrow> bool" where
  "zg_hcalls b = (case b of [HCall e] \<Rightarrow> True | _ \<Rightarrow> False)"

lemma zg_hcalls_simps [simp]:
  "\<not> zg_hcalls []" "zg_hcalls [HCall e]" "\<not> zg_hcalls (HIndex x # b)" "\<not> zg_hcalls (append_stmts t e)"
  by (cases t; simp add: zg_hcalls_def append_stmts_def; fail)+

fun zg_hstmt :: "string \<Rightarrow> hstmt \<Rightarrow> string"
  and zg_hstmts :: "string \<Rightarrow> hstmt list \<Rightarrow> string" where
  "zg_hstmt ind (HNote s) = []"
| "zg_hstmt ind HBlank = []"
| "zg_hstmt ind (HIndex x) = line ind (''const '' @ zg_name x @ '' = h.index();'')"
| "zg_hstmt ind (HPutBool e) = line ind (''h.putBool('' @ zg_expr e @ '');'')"
| "zg_hstmt ind (HPutUint w e) = line ind (''h.putUint'' @ NumToString w @ ''('' @ zg_expr e @ '');'')"
| "zg_hstmt ind HPutZero = line ind ''h.putUint8(0);''"
| "zg_hstmt ind (HPutArray e) = line ind (''h.putBytes(&'' @ zg_expr e @ '');'')"
| "zg_hstmt ind (HPutBitlist e l) = line ind (''h.putBitlist('' @ zg_expr e @ '', '' @ num64 l @ '');'')"
| "zg_hstmt ind (HAppendBool e) = line ind (''h.appendBool('' @ zg_expr e @ '');'')"
| "zg_hstmt ind (HAppendUint w e) = line ind (''h.appendUint'' @ NumToString w @ ''('' @ zg_expr e @ '');'')"
| "zg_hstmt ind (HAppendBytes32 e) = line ind (''h.appendBytes32('' @ zg_expr e @ '');'')"
| "zg_hstmt ind HFill = line ind ''h.fillUpTo32();''"
| "zg_hstmt ind (HMerkleize x) = line ind (''h.merkleize('' @ zg_name x @ '');'')"
| "zg_hstmt ind (HMixin x e l) = line ind (zig_mixin (zg_name x) (zg_expr e) l)"
| "zg_hstmt ind (HProgMixin x e) =
     line ind (''h.merkleizeProgressiveWithMixin('' @ zg_name x @ '', '' @ zg_expr e @ ''.len);'')"
| "zg_hstmt ind (HProgActive x bs) =
     line ind (''h.merkleizeProgressiveWithActiveFields('' @ zg_name x @ '', &[_]u8{'' @
       comma_list (map hex_byte bs) @ ''});'')"
| "zg_hstmt ind (HFor i e b) = []"
| "zg_hstmt ind (HForVal x e b) =
     line ind (''for ('' @ zg_expr e @ '') |'' @ (if zg_hcalls b then ''*'' else []) @ x @ ''| {'') @
     zg_hstmts (ind @ sp4) b @ line ind ''}''"
| "zg_hstmt ind (HBlk b) = line ind ''{'' @ zg_hstmts (ind @ sp4) b @ line ind ''}''"
| "zg_hstmt ind (HCall e) = line ind (zg_expr e @ ''.treeHashWith(h);'')"
| "zg_hstmt ind HPutZeroHash = []"
| "zg_hstmts ind [] = []"
| "zg_hstmts ind (s # ss) = zg_hstmt ind s @ zg_hstmts ind ss"

lemma zg_hstmts_append [simp]: "zg_hstmts ind (xs @ ys) = zg_hstmts ind xs @ zg_hstmts ind ys"
  by (induction xs) auto

lemma zig_limits:
  "zig_ssz_limit_for_bytes = go_ssz_limit_for_bytes" "zig_ssz_limit_for_elements = go_ssz_limit_for_elements"
  "zig_inner_chunk_limit = go_inner_chunk_limit"
  by (intro ext; simp add: zig_ssz_limit_for_bytes_def go_ssz_limit_for_bytes_def zig_ssz_limit_for_elements_def
      go_ssz_limit_for_elements_def zig_inner_chunk_limit_def go_inner_chunk_limit_def Let_def)+

lemma print_zig_append_v: "zig_GenAppendPrimitive t ''v'' ind = zg_hstmts ind (append_stmts t (GLocal ''v''))"
  by (cases t) (simp_all add: zig_GenAppendPrimitive_def append_stmts_def num_literals digit_8)

lemma print_zig_hash_vector: "zig_hash_vector info (zg_expr e) ind = zg_hstmts ind (hash_vector_stmts False info e)"
  by (simp add: zig_hash_vector_def hash_vector_stmts_def sub_tree_def zig_sub_tree_def zig_hash_containers_def
      zig_hash_primitives_def print_zig_append_v)

lemma print_zig_hash_list: "zig_hash_list info (zg_expr e) ind = zg_hstmts ind (hash_list_stmts list_limit info e)"
  by (cases "elem_info info = None")
    (simp_all add: elem_is_none zig_hash_list_def hash_list_stmts_def hash_elems_stmts_def list_limit_def
      sub_tree_def zig_sub_tree_def zig_hash_containers_def zig_hash_primitives_def zig_mixin_def
      zig_limits print_zig_append_v Let_def)

lemma print_zig_hash_progressive:
  "zig_hash_progressive_list info (zg_expr e) ind = zg_hstmts ind (hash_progressive_stmts info e)"
  by (cases "elem_info info = None")
    (simp_all add: elem_is_none zig_hash_progressive_list_def hash_progressive_stmts_def hash_elems_stmts_def
      sub_tree_def zig_sub_tree_def zig_hash_containers_def zig_hash_primitives_def print_zig_append_v Let_def)

lemma print_zig_hash: "zig_GenHashField info (zg_expr e) ind = zg_hstmts ind (hash_stmts ts_style info e)"
  by (cases "ssz_type info")
    (simp_all add: zig_GenHashField_def hash_stmts_def print_zig_hash_vector print_zig_hash_list
      print_zig_hash_progressive num_literals digit_8)

lemmas print_zig_hash_member = print_zig_hash [of _ "GMember f" for f, simplified]

lemma print_zig_hash_index: "zig_hash_index P c i = zg_hstmts sp8 (index_stmts ts_style (zig_dialect P) c i)"
  by (simp add: zig_hash_index_def index_stmts_def print_zig_hash_member split: option.split)

lemma print_zig_hash_body:
  "zig_GenHashMethod P c =
     line sp4 ''pub fn treeHashWith(self: *const Self, h: *Hasher) void {'' @
     zg_hstmts sp8 (hash_body ts_style (zig_dialect P) c) @ line sp4 ''}''"
proof -
  have "each_field c ps (\<lambda>p info. zig_GenHashField info (''self.'' @ zig_member P p) sp8) =
      zg_hstmts sp8 (concat (map (field_hash_stmts ts_style (zig_dialect P)) (infos_of c ps)))" for ps
    by (induction ps) (auto simp: field_hash_stmts_def print_zig_hash_member split: option.splits)
  moreover have "concat (map (\<lambda>i. zig_hash_index P c (of_nat i)) is) =
      zg_hstmts sp8 (concat (map (\<lambda>i. index_stmts ts_style (zig_dialect P) c (of_nat i)) is))" for "is" :: "nat list"
    by (induction "is") (auto simp: print_zig_hash_index)
  ultimately show ?thesis
    by (simp only: zig_GenHashMethod_def hash_body_def) (simp del: upt_Suc)
qed

section \<open>The emitted programs\<close>

definition emit_zdecl :: "dialect \<Rightarrow> SszContainerInfo \<Rightarrow> zdecl" where
  "emit_zdecl D c = \<lparr>zd_members = map (dl_member D) (all_fields c), zd_append = zappend_body D c\<rparr>"

definition zig_decl :: "Parser \<Rightarrow> SszContainerInfo \<Rightarrow> zdecl" where
  "zig_decl P = emit_zdecl (zig_dialect P)"

definition zig_hdecl :: "Parser \<Rightarrow> SszContainerInfo \<Rightarrow> hdecl" where
  "zig_hdecl P = emit_hdecl ts_style (zig_dialect P)"

definition zig_program :: "nat \<Rightarrow> Parser \<Rightarrow> zprogram" where
  "zig_program depth P nm = map_option (zig_decl P) (container_named zig_AnalyzeContainer depth P nm)"

definition zig_sizes :: "nat \<Rightarrow> Parser \<Rightarrow> gprogram" where
  "zig_sizes depth P = emit_program zig_AnalyzeContainer (zig_dialect P) depth P"

definition zig_hprogram :: "nat \<Rightarrow> Parser \<Rightarrow> hprogram" where
  "zig_hprogram depth P = emit_hprogram zig_AnalyzeContainer ts_style (zig_dialect P) depth P"

lemma zig_program_eq:
  "zig_program depth P nm = map_option (zig_decl P) (container_named go_AnalyzeContainer depth P nm)"
  "zig_sizes depth P = emit_program go_AnalyzeContainer (zig_dialect P) depth P"
  "zig_hprogram depth P = emit_hprogram go_AnalyzeContainer ts_style (zig_dialect P) depth P"
  by (simp_all only: zig_program_def zig_sizes_def zig_hprogram_def go_copy.container_named_eq [OF zig.go_copy_axioms]
      go_copy.emit_program_eq [OF zig.go_copy_axioms] go_copy.emit_hprogram_eq [OF zig.go_copy_axioms])

text \<open>
  What Zig checks of the names: types and members are distinct, and a member is an identifier and not
  a keyword.
\<close>

definition zig_names_ok :: "Parser \<Rightarrow> bool" where
  "zig_names_ok P \<longleftrightarrow>
     names_ok (zig_dialect P) P \<and>
     list_all (\<lambda>s. list_all (\<lambda>p. ts_identifier (zig_member P p) \<and> zig_member P p \<notin> set ZigKeywords) (live_fields P s))
       [0..<length (struct_store P)]"

end
