(* ===== verification/Zig_Serialize.thy ===== *)
theory Zig_Serialize
  imports Zig_Program
begin

text \<open>
  The emitted Zig encoder writes the serialization of its receiver: the offsets that it computes from
  sizes before it writes are those of the specification, as long as the serialization is shorter
  than \<open>2 ^ 32\<close> bytes.
\<close>

declare eval.simps(1) [simp del]

section \<open>The contract of nested calls\<close>

text \<open>Types without vectors of containers, over which the emitted loops do not compile.\<close>

fun slices_only :: "ssz_ty \<Rightarrow> bool"
  and fields_slices_only :: "(string \<times> ssz_ty) list \<Rightarrow> bool" where
  "slices_only (TVector t n) = (slices_only t \<and> (\<forall>nm fs. t \<noteq> TContainer nm fs))"
| "slices_only (TList t l) = slices_only t"
| "slices_only (TProgressiveList t) = slices_only t"
| "slices_only (TContainer s fs) = fields_slices_only fs"
| "slices_only t = True"
| "fields_slices_only [] = True"
| "fields_slices_only ((n, t) # fs) = (slices_only t \<and> fields_slices_only fs)"

definition zmarshals :: "struct_types \<Rightarrow> gcalls \<Rightarrow> bool" where
  "zmarshals st C \<longleftrightarrow>
     measures st C \<and>
     (\<forall>q nm fs vs out. st q = Some (TContainer nm fs) \<longrightarrow> fields_bits_ok fs \<longrightarrow>
        size_ok (TContainer nm fs) \<longrightarrow> fields_slices_only fs \<longrightarrow> vals_ok fs vs \<longrightarrow>
        zfits (length (serialize (TContainer nm fs) (VStruct nm vs))) \<longrightarrow>
        call_marshal C nm vs out = Some (out @ serialize (TContainer nm fs) (VStruct nm vs)))"

lemma zfits_le: "zfits n \<Longrightarrow> m \<le> n \<Longrightarrow> zfits m"
  by (simp add: zfits_def)

lemma zcall_exec:
  assumes "zmarshals st C" and "info_rep st i (TContainer nm fs)" and "fields_bits_ok fs"
    and "size_ok (TContainer nm fs)" and "fields_slices_only fs" and "val_ok (TContainer nm fs) v"
    and "zfits (length (serialize (TContainer nm fs) v))" and "eval fr e = Some v"
  shows "zexec C (ZCall e) (fr, k) = Some (append_dst (serialize (TContainer nm fs) v) fr, k)"
proof -
  from assms(6) obtain vs where v: "v = VStruct nm vs" "vals_ok fs vs" by auto
  from assms(2) obtain q where "st q = Some (TContainer nm fs)" by auto
  with assms(1,3-5,7) v have "call_marshal C nm vs (gf_dst fr) =
      Some (gf_dst fr @ serialize (TContainer nm fs) (VStruct nm vs))"
    unfolding zmarshals_def by blast
  with assms(8) v show ?thesis by (simp add: append_dst_def)
qed

section \<open>Loops\<close>

lemma zprim_exec:
  assumes "info_rep st i t" and "flat_elem t" and "\<not> is_byte_ty t"
    and "t = TBool \<or> (\<exists>k. t = TUint k)" and "val_ok t v" and "eval fr e = Some v"
  shows "zexecs C (zprim_stmts (ssz_type i) e) (fr, k) = Some (append_dst (serialize t v) fr, k)"
  using assms by (auto simp: zprim_stmts_def is_byte_ty_def split: if_splits)

lemma zfor_exec:
  assumes v: "member fr f = Some (VSeq xs)" and c: "c \<noteq> ByRefArray"
    and step: "\<And>w fr'. w \<in> set xs \<Longrightarrow> eval fr' (GLocal x) = Some w \<Longrightarrow>
      zexecs C body (fr', k) = Some (append_dst (g w) fr', k)"
  shows "zexec C (ZFor c x (GMember f) body) (fr, k) = Some (append_dst (concat (map g xs)) fr, k)"
proof -
  let ?step = "\<lambda>v (f, j). map_option (\<lambda>(f', j'). (leave f f', j')) (zexecs C body (bind_val x v f, j))"
  have "fold_opt ?step ys (append_dst bs fr, k) = Some (append_dst (bs @ concat (map g ys)) fr, k)"
    if "set ys \<subseteq> set xs" for ys bs
    using that
  proof (induction ys arbitrary: bs)
    case (Cons w ys)
    have "zexecs C body (bind_val x w (append_dst bs fr), k) =
        Some (append_dst (g w) (bind_val x w (append_dst bs fr)), k)"
      by (rule step) (use Cons.prems in \<open>auto simp: frame_simps\<close>)
    with Cons show ?case by (simp add: frame_simps)
  qed simp
  from this [of xs "[]"] v c show ?thesis by (simp add: frame_simps)
qed

text \<open>The first loop over a list of variable-size elements writes the offsets.\<close>

lemma zoffsets_exec:
  assumes v: "member fr f = Some (VSeq xs)" and c: "c \<noteq> ByRefArray"
    and step: "\<And>w fr' j. w \<in> set xs \<Longrightarrow> eval fr' (GLocal ''item'') = Some w \<Longrightarrow>
      zexec C add (fr', Some j) = zinner_add (length (g w)) (fr', Some j)"
    and fits: "zfits (j + sum_list (map (\<lambda>x. length (g x)) xs))"
  shows "zexec C (ZFor c ''item'' (GMember f) [ZWriteInner, add]) (fr, Some j) =
    Some (append_dst (heads j (map (\<lambda>x. (True, g x)) xs)) fr,
      Some (j + sum_list (map (\<lambda>x. length (g x)) xs)))"
proof -
  let ?step = "\<lambda>v (f, j). map_option (\<lambda>(f', j'). (leave f f', j'))
    (zexecs C [ZWriteInner, add] (bind_val ''item'' v f, j))"
  have "fold_opt ?step ys (append_dst bs fr, Some j) =
      Some (append_dst (bs @ heads j (map (\<lambda>x. (True, g x)) ys)) fr,
        Some (j + sum_list (map (\<lambda>x. length (g x)) ys)))"
    if "set ys \<subseteq> set xs" "zfits (j + sum_list (map (\<lambda>x. length (g x)) ys))" for ys bs j
    using that
  proof (induction ys arbitrary: bs j)
    case (Cons w ys)
    let ?fr = "append_dst (le_bytes 4 j) (bind_val ''item'' w (append_dst bs fr))"
    have "zexec C add (?fr, Some j) = zinner_add (length (g w)) (?fr, Some j)"
      by (rule step) (use Cons.prems(1) in \<open>auto simp: frame_simps\<close>)
    moreover have "zfits (j + length (g w))"
      by (rule zfits_le [OF Cons.prems(2)]) simp
    ultimately have "?step w (append_dst bs fr, Some j) =
        Some (append_dst (bs @ le_bytes 4 j) fr, Some (j + length (g w)))"
      by (simp add: zinner_add_def frame_simps)
    with Cons show ?case by (simp add: add.assoc del: zexecs.simps map_option_eq_Some)
  qed simp
  from this [of xs j "[]"] v c fits show ?thesis by (simp add: frame_simps del: zexecs.simps)
qed

lemma zoffset_list_exec:
  assumes v: "member fr f = Some (VSeq xs)" and c: "c \<noteq> ByRefArray"
    and add: "\<And>w fr' j. w \<in> set xs \<Longrightarrow> eval fr' (GLocal ''item'') = Some w \<Longrightarrow>
      zexec C add (fr', Some j) = zinner_add (length (g w)) (fr', Some j)"
    and item: "\<And>w fr' k. w \<in> set xs \<Longrightarrow> eval fr' (GLocal ''item'') = Some w \<Longrightarrow>
      zexec C item (fr', k) = Some (append_dst (g w) fr', k)"
    and fits: "zfits (length (ser_parts (map (\<lambda>x. (True, g x)) xs)))"
  shows "zexecs C (zoffset_list c (GMember f) add item) (fr, k) =
    Some (append_dst (ser_parts (map (\<lambda>x. (True, g x)) xs)) fr, k)"
proof -
  let ?ps = "map (\<lambda>x. (True, g x)) xs" and ?n = "length xs * 4"
  let ?fr = "append_dst (heads ?n ?ps) fr"
  from fits have fits': "zfits (?n + sum_list (map (\<lambda>x. length (g x)) xs))" by (simp add: length_ser_list)
  with zfits_le have n: "zfits ?n" by auto
  note zoffsets_exec [where j = ?n, OF v c add fits']
  moreover have "zexec C (ZFor c ''item'' (GMember f) [item]) (?fr, k') =
      Some (append_dst (concat (map g xs)) ?fr, k')" for k'
    by (rule zfor_exec [OF _ c]) (use v item in \<open>simp_all add: frame_simps\<close>)
  moreover have "heads_len ?ps = ?n" by (simp add: heads_all_True mult.commute)
  ultimately show ?thesis
    using v n by (simp add: zoffset_list_def ser_parts_def tails_all_True frame_simps del: zexec.simps(14))
qed

section \<open>Fields\<close>

lemma zfits_elem:
  assumes "zfits (length (ser_parts (map (\<lambda>x. (b, g x)) xs)))" and "w \<in> set xs"
  shows "zfits (length (g w))"
proof (rule zfits_le [OF assms(1)])
  have "length (g w) \<le> sum_list (map (\<lambda>x. length (g x)) xs)"
    using assms(2) by (simp add: member_le_sum_list)
  then show "length (g w) \<le> length (ser_parts (map (\<lambda>x. (b, g x)) xs))"
    by (cases b) (simp_all add: length_ser_list length_concat comp_def)
qed

lemma zvector_exec:
  assumes rep: "info_rep st i (TVector t n)" and flat: "flat_ty (TVector t n)" and sl: "slices_only (TVector t n)"
    and ok: "val_ok (TVector t n) v" and v: "member fr f = Some v"
  shows "zexecs C (zvector_stmts i (GMember f)) (fr, k) = Some (append_dst (serialize (TVector t n) v) fr, k)"
proof -
  from rep obtain e where e: "elem_info i = Some e" "info_rep st e t" by auto
  from flat rep have fl: "flat_elem t" "\<not> is_variable t" by auto
  from e(2) fl(1) show ?thesis
  proof (cases rule: flat_elem_cases)
    case byte
    with ok obtain bs where "v = VBytes bs" by auto
    with byte v e show ?thesis by (simp add: zvector_stmts_def elem_rep_simps eval_member)
  next
    case prim
    with ok obtain xs where xs: "v = VSeq xs" "\<forall>x \<in> set xs. val_ok t x" by auto
    have "zexec C (ZFor ByValue ''v'' (GMember f) (zprim_stmts (ssz_type e) (GLocal ''v''))) (fr, k) =
        Some (append_dst (concat (map (serialize t) xs)) fr, k)"
      by (rule zfor_exec) (use v xs prim zprim_exec [OF e(2) fl(1)] in auto)
    with prim(3) e fl xs show ?thesis by (simp add: zvector_stmts_def elem_rep_simps del: zexec.simps)
  next
    case (cont nm fs)
    with sl show ?thesis by simp
  next
    case (bytes l)
    with fl show ?thesis by simp
  qed
qed

lemma zlist_exec:
  assumes C: "zmarshals st C" and e: "elem_info i = Some e" "info_rep st e t" and fl: "flat_elem t"
    and bits: "bits_ok t" "size_ok t" "slices_only t" and v: "member fr f = Some v"
    and ok: "if is_byte_ty t then \<exists>bs. v = VBytes bs
      else \<exists>xs. v = VSeq xs \<and> (\<forall>x \<in> set xs. val_ok t x)"
    and fits: "zfits (length (case v of VBytes bs \<Rightarrow> bs
      | VSeq xs \<Rightarrow> ser_parts (map (\<lambda>x. (is_variable t, serialize t x)) xs) | _ \<Rightarrow> []))"
  shows "zexecs C (zlist_stmts i (GMember f)) (fr, k) =
    Some (append_dst (case v of VBytes bs \<Rightarrow> bs
      | VSeq xs \<Rightarrow> ser_parts (map (\<lambda>x. (is_variable t, serialize t x)) xs) | _ \<Rightarrow> []) fr, k)"
  using e(2) fl
proof (cases rule: flat_elem_cases)
  case byte
  with ok obtain bs where "v = VBytes bs" by auto
  with byte v e show ?thesis by (simp add: zlist_stmts_def elem_rep_simps eval_member)
next
  case prim
  then have fixed: "\<not> is_variable t" by auto
  from prim ok obtain xs where xs: "v = VSeq xs" "\<forall>x \<in> set xs. val_ok t x" by auto
  have "zexec C (ZFor ByValue ''v'' (GMember f) (zprim_stmts (ssz_type e) (GLocal ''v''))) (fr, k) =
      Some (append_dst (concat (map (serialize t) xs)) fr, k)"
    by (rule zfor_exec) (use v xs prim zprim_exec [OF e(2) fl] in auto)
  with prim(3) e fixed xs show ?thesis
    by (simp add: zlist_stmts_def elem_rep_simps del: zexec.simps serialize.simps)
next
  case (cont nm fs)
  with ok obtain xs where xs: "v = VSeq xs" "\<forall>x \<in> set xs. val_ok t x"
    by (auto simp: is_byte_ty_def)
  have fit: "zfits (length (serialize t w))" if "w \<in> set xs" for w
    using zfits_elem [of "is_variable t" "serialize t" xs w] fits that xs by simp
  have item: "zexec C (ZCall (GLocal ''item'')) (fr', k') = Some (append_dst (serialize t w) fr', k')"
    if "w \<in> set xs" "eval fr' (GLocal ''item'') = Some w" for w fr' k'
    using zcall_exec [OF C e(2) [unfolded cont(1)], of w fr' "GLocal ''item''" k'] that bits fit xs cont
    by (simp del: zexec.simps serialize.simps)
  show ?thesis
  proof (cases "is_variable t")
    case True
    have "zexecs C (zoffset_list ByRef (GMember f) (ZInnerAddCall (GLocal ''item'')) (ZCall (GLocal ''item''))) (fr, k) =
        Some (append_dst (ser_parts (map (\<lambda>x. (True, serialize t x)) xs)) fr, k)"
    proof (rule zoffset_list_exec [OF _ _ _ item])
      show "member fr f = Some (VSeq xs)" using v xs by simp
      fix w fr' j assume w: "w \<in> set xs" "eval fr' (GLocal ''item'') = Some w"
      from w xs cont obtain ws where ws: "w = VStruct nm ws" "vals_ok fs ws" by auto
      from e(2) cont obtain q where "st q = Some (TContainer nm fs)" by auto
      with C bits ws cont have "call_size C nm ws = Some (length (serialize t w))"
        unfolding zmarshals_def measures_def by auto
      with w ws show "zexec C (ZInnerAddCall (GLocal ''item'')) (fr', Some j) =
          zinner_add (length (serialize t w)) (fr', Some j)" by simp
    qed (use fits xs True in simp_all)
    with True cont(2) e xs info_rep_dynamic [OF e(2)] show ?thesis
      by (simp add: zlist_stmts_def elem_rep_simps del: zexec.simps)
  next
    case False
    have "zexec C (ZFor ByRef ''item'' (GMember f) [ZCall (GLocal ''item'')]) (fr, k) =
        Some (append_dst (concat (map (serialize t) xs)) fr, k)"
      by (rule zfor_exec) (use v xs item in \<open>simp_all del: zexec.simps\<close>)
    with False cont(2) e xs info_rep_dynamic [OF e(2)] show ?thesis
      by (simp add: zlist_stmts_def elem_rep_simps del: zexec.simps)
  qed
next
  case (bytes l)
  with ok obtain xs where xs: "v = VSeq xs" "\<forall>x \<in> set xs. val_ok t x"
    by (auto simp: is_byte_ty_def)
  have bs: "\<exists>bs. w = VBytes bs" if "w \<in> set xs" for w
    using xs bytes that by (auto simp: is_byte_ty_def)
  have "zexecs C (zoffset_list ByValue (GMember f) (ZInnerAddLen (GLocal ''item'')) (ZWriteSlice (GLocal ''item''))) (fr, k) =
      Some (append_dst (ser_parts (map (\<lambda>x. (True, serialize t x)) xs)) fr, k)"
  proof (rule zoffset_list_exec)
    show "member fr f = Some (VSeq xs)" using v xs by simp
    fix w fr' assume w: "w \<in> set xs" "eval fr' (GLocal ''item'') = Some w"
    with bs obtain b where b: "w = VBytes b" by blast
    with w bytes show "zexec C (ZWriteSlice (GLocal ''item'')) (fr', k') =
        Some (append_dst (serialize t w) fr', k')" for k' by simp
    from w b bytes show "zexec C (ZInnerAddLen (GLocal ''item'')) (fr', Some j) =
        zinner_add (length (serialize t w)) (fr', Some j)" for j by simp
  qed (use fits xs bytes in simp_all)
  with bytes(2) e xs show ?thesis
    by (simp add: zlist_stmts_def elem_rep_simps bytes(1) del: zexec.simps zexecs.simps)
qed

lemma zfield_exec:
  assumes C: "zmarshals st C" and rep: "info_rep st i t" and flat: "flat_ty t"
    and bits: "bits_ok t" "size_ok t" "slices_only t" and ok: "val_ok t v" and v: "member fr f = Some v"
    and fits: "zfits (length (serialize t v))"
  shows "zexecs C (zfield_stmts i (GMember f)) (fr, k) = Some (append_dst (serialize t v) fr, k)"
proof (cases t)
  case (TVector t' n)
  with zvector_exec [of st i t' n v fr f C k] assms show ?thesis by (simp add: zfield_stmts_def)
next
  case (TList t' l)
  with rep obtain e where "elem_info i = Some e" "info_rep st e t'" by auto
  from zlist_exec [OF C this, of fr f v k] TList assms show ?thesis
    by (auto simp: zfield_stmts_def is_byte_ty_def split: if_splits)
next
  case (TProgressiveList t')
  with rep obtain e where "elem_info i = Some e" "info_rep st e t'" by auto
  from zlist_exec [OF C this, of fr f v k] TProgressiveList assms show ?thesis
    by (auto simp: zfield_stmts_def is_byte_ty_def split: if_splits)
next
  case (TContainer nm fs)
  with zcall_exec [OF C, of i nm fs v fr "GMember f" k] assms show ?thesis
    by (auto simp: zfield_stmts_def eval_member simp del: zexec.simps serialize.simps size_ok.simps val_ok.simps)
qed (use assms in \<open>auto simp: zfield_stmts_def eval_member split: if_splits\<close>)

section \<open>Containers\<close>

lemma append_size [frame_simps]:
  "append_dst bs (add_size n fr) = add_size n (append_dst bs fr)" "gf_dst (add_size n fr) = gf_dst fr"
  by (simp_all add: append_dst_def add_size_def)

text \<open>A field is not longer than its container.\<close>

lemma part_len: "p \<in> set ps \<Longrightarrow> length (snd p) \<le> length (ser_parts ps)"
proof -
  assume "p \<in> set ps"
  then have "length (snd p) \<le> heads_len ps + length (tails ps)"
    by (induction ps rule: heads_len.induct) auto
  then show ?thesis by (simp add: length_ser_parts)
qed

definition parts_fit :: "(bool \<times> byte list) list \<Rightarrow> bool" where
  "parts_fit ps \<longleftrightarrow> (\<forall>p \<in> set ps. zfits (length (snd p)))"

lemma parts_fit_simps [simp]: "parts_fit (p # ps) \<longleftrightarrow> zfits (length (snd p)) \<and> parts_fit ps"
  by (simp add: parts_fit_def)

lemma parts_fit: "zfits (length (ser_parts ps)) \<Longrightarrow> parts_fit ps"
  unfolding parts_fit_def using zfits_le part_len by blast

lemma zfixed_fields_exec:
  "fields_match D st mem ps fs vs \<Longrightarrow> zmarshals st C \<Longrightarrow> mem = member fr \<Longrightarrow> fields_size_ok fs \<Longrightarrow>
    fields_slices_only fs \<Longrightarrow> parts_fit (serialize_fields fs vs) \<Longrightarrow>
    zexecs C (concat (map (dl_zfield_stmts D) ps)) (fr, k) =
    Some (append_dst (concat (map snd (serialize_fields fs vs))) fr, k)"
proof (induction D st mem ps fs vs arbitrary: fr rule: fields_match.induct)
  case (2 D st mem p i ps n t fs v vs)
  have "zexecs C (dl_zfield_stmts D (p, i)) (fr, k) = Some (append_dst (serialize t v) fr, k)"
    by (rule zfield_exec) (use 2 in auto)
  with 2 show ?case by (simp add: frame_simps)
qed (auto simp: frame_simps)

text \<open>The static section; \<open>offset\<close> goes up by the lengths of the dynamic fields.\<close>

lemma zstatic_exec:
  "fields_match D st mem ps fs vs \<Longrightarrow> zmarshals st C \<Longrightarrow> mem = member fr \<Longrightarrow> fields_size_ok fs \<Longrightarrow>
    fields_slices_only fs \<Longrightarrow> parts_fit (serialize_fields fs vs) \<Longrightarrow>
    zfits (gf_size fr + length (tails (serialize_fields fs vs))) \<Longrightarrow>
    zexecs C (concat (map (zstatic_field D) ps)) (fr, k) =
    Some (add_size (length (tails (serialize_fields fs vs)))
      (append_dst (heads (gf_size fr) (serialize_fields fs vs)) fr), k)"
proof (induction D st mem ps fs vs arbitrary: fr rule: fields_match.induct)
  case (2 D st mem p i ps n t fs v vs)
  let ?parts = "serialize_fields fs vs" and ?b = "serialize t v"
  from 2 have dyn: "is_dynamic i = is_variable t" by (auto simp: info_rep_dynamic)
  show ?case
  proof (cases "is_variable t")
    case True
    let ?fr1 = "append_dst (le_bytes 4 (gf_size fr)) fr"
    let ?fr2 = "add_size (length ?b) ?fr1"
    have "execs C (dl_size_stmts D (p, i)) ?fr1 = Some ?fr2"
      using field_size_exec [where fr = ?fr1] 2 True by (auto simp: zmarshals_def frame_simps)
    moreover have "zfits (gf_size fr + length ?b)"
      by (rule zfits_le [OF "2.prems"(7)]) (use True in simp)
    moreover have "zexecs C (concat (map (zstatic_field D) ps)) (?fr2, k) =
        Some (add_size (length (tails ?parts)) (append_dst (heads (gf_size ?fr2) ?parts) ?fr2), k)"
      by (rule "2.IH") (use 2 True in \<open>auto simp: frame_simps add.assoc\<close>)
    moreover have "zstatic_field D (p, i) = [ZWriteOffset, ZOffset (dl_size_stmts D (p, i))]"
      using True dyn by (simp add: zstatic_field_def)
    ultimately show ?thesis using True by (simp add: frame_simps add.commute)
  next
    case False
    have "zexecs C (dl_zfield_stmts D (p, i)) (fr, k) = Some (append_dst ?b fr, k)"
      by (rule zfield_exec) (use 2 in auto)
    moreover have "zexecs C (concat (map (zstatic_field D) ps)) (append_dst ?b fr, k) =
        Some (add_size (length (tails ?parts)) (append_dst (heads (gf_size (append_dst ?b fr)) ?parts)
          (append_dst ?b fr)), k)"
      by (rule "2.IH") (use 2 False in \<open>auto simp: frame_simps\<close>)
    moreover have "zstatic_field D (p, i) = dl_zfield_stmts D (p, i)"
      using False dyn by (simp add: zstatic_field_def)
    ultimately show ?thesis using False by (simp add: frame_simps)
  qed
qed (auto simp: frame_simps)

lemma zdynamic_exec:
  "fields_match D st mem ps fs vs \<Longrightarrow> zmarshals st C \<Longrightarrow> mem = member fr \<Longrightarrow> fields_size_ok fs \<Longrightarrow>
    fields_slices_only fs \<Longrightarrow> parts_fit (serialize_fields fs vs) \<Longrightarrow>
    zexecs C (concat (map (zdynamic_field D) ps)) (fr, k) =
    Some (append_dst (tails (serialize_fields fs vs)) fr, k)"
proof (induction D st mem ps fs vs arbitrary: fr rule: fields_match.induct)
  case (2 D st mem p i ps n t fs v vs)
  from 2 have dyn: "is_dynamic i = is_variable t" by (auto simp: info_rep_dynamic)
  have "zexecs C (dl_zfield_stmts D (p, i)) (fr, k) = Some (append_dst (serialize t v) fr, k)"
    by (rule zfield_exec) (use 2 in auto)
  with 2 dyn show ?case by (simp add: zdynamic_field_def frame_simps)
qed (auto simp: frame_simps)

lemma zappend_body_exec:
  assumes C: "zmarshals st C" and m: "fields_match D st (member fr) (infos_of c (all_fields c)) fs vs"
    and ok: "fields_size_ok fs" "fields_slices_only fs" "vals_ok fs vs"
    and dyn: "dynamic_fields c = [] \<longleftrightarrow> \<not> any_variable fs" and static: "unat (static_size c) = static_len fs"
    and fits: "zfits (length (ser_parts (serialize_fields fs vs)))"
  shows "map_option (\<lambda>(fr, k). gf_dst fr) (zexecs C (zappend_body D c) (fr, k)) =
    Some (gf_dst fr @ ser_parts (serialize_fields fs vs))"
proof -
  let ?ps = "infos_of c (all_fields c)" and ?parts = "serialize_fields fs vs"
  note fit = parts_fit [OF fits]
  show ?thesis
  proof (cases "any_variable fs")
    case False
    then have "ser_parts ?parts = concat (map snd ?parts)"
      using parts_variable ser_parts_fixed by blast
    with zfixed_fields_exec [OF m C refl ok(1,2) fit, of k] False dyn show ?thesis
      by (simp add: zappend_body_def frame_simps)
  next
    case True
    have len: "length (ser_parts ?parts) = static_len fs + length (tails ?parts)"
      by (rule length_serialize_fields [OF ok(3)])
    then have heads: "heads_len ?parts = static_len fs" by (simp add: length_ser_parts)
    let ?fr1 = "fr\<lparr>gf_size := static_len fs\<rparr>"
    let ?fr2 = "add_size (length (tails ?parts)) (append_dst (heads (static_len fs) ?parts) ?fr1)"
    have mem: "member fr = member ?fr1" "member fr = member ?fr2"
      by (simp_all add: member_def [abs_def] add_size_def append_dst_def)
    have "zfits (static_len fs)" by (rule zfits_le [OF fits]) (simp add: len)
    moreover have "zexecs C (concat (map (zstatic_field D) ?ps)) (?fr1, k) = Some (?fr2, k)"
      using zstatic_exec [OF m C mem(1) ok(1,2) fit, of k] fits len by simp
    moreover have "zexecs C (concat (map (zdynamic_field D) ?ps)) (?fr2, k) =
        Some (append_dst (tails ?parts) ?fr2, k)"
      by (rule zdynamic_exec [OF m C mem(2) ok(1,2) fit])
    ultimately show ?thesis
      using True dyn static heads by (simp add: zappend_body_def ser_parts_def frame_simps)
  qed
qed

section \<open>The program\<close>

lemma zframe_match:
  assumes rep: "container_rep P st c fs" and flat: "\<forall>f \<in> set fs. flat_ty (snd f)"
    and bits: "fields_bits_ok fs" and ok: "vals_ok fs vs" and dist: "distinct (map (dl_member D) (all_fields c))"
  shows "fields_match D st (member (zig_frame (zd_members (emit_zdecl D c)) vs out)) (infos_of c (all_fields c)) fs vs"
proof -
  let ?fr = "zig_frame (zd_members (emit_zdecl D c)) vs out"
  from rep have l2: "list_all2 (field_rep P st c) (all_fields c) fs"
    by (simp add: container_rep_def)
  have "length vs = length (all_fields c)"
    using vals_ok_length [OF ok] list_all2_lengthD [OF l2] by simp
  from members_at [OF dist this]
  have mem: "list_all2 (\<lambda>f v. member ?fr (dl_member D f) = Some v) (all_fields c) vs"
    by (simp add: member_def zig_frame_def emit_zdecl_def)
  show ?thesis by (rule match_fields [OF l2 flat bits ok mem])
qed

lemma zappend_program:
  assumes wf: "wf_schema P" and small: "small_ids P" and names: "names_ok (zig_dialect P) P"
  shows "n \<le> depth \<Longrightarrow> struct_ty n P s = Some (TContainer nm fs) \<Longrightarrow> fields_bits_ok fs \<Longrightarrow>
    size_ok (TContainer nm fs) \<Longrightarrow> fields_slices_only fs \<Longrightarrow> vals_ok fs vs \<Longrightarrow>
    zfits (length (serialize (TContainer nm fs) (VStruct nm vs))) \<Longrightarrow>
    sszAppend (zig_program depth P) (zig_sizes depth P) n nm vs out =
      Some (out @ serialize (TContainer nm fs) (VStruct nm vs))"
proof (induction n arbitrary: s nm fs vs out)
  case 0
  then show ?case by simp
next
  case (Suc m)
  let ?D = "zig_dialect P" and ?prog = "zig_program depth P" and ?sizes = "zig_sizes depth P"
  let ?C = "\<lparr>call_marshal = sszAppend ?prog ?sizes m, call_size = SizeSSZ ?sizes m\<rparr>"
  have s: "s < length (struct_store P)" using Suc.prems(2) by (rule struct_ty_in_range)
  have dn: "distinct (map sd_name (struct_store P))" using names by (simp add: names_ok_def)
  from go_struct_decl [OF wf small dn Suc.prems(1) s Suc.prems(2,3)] obtain c where
    c: "container_named go_AnalyzeContainer depth P nm = Some c"
    and rep: "container_rep P (struct_ty m P) c fs" and live: "all_fields c = live_fields P s"
    and ty: "fields_ty P (struct_ty m P) (sd_fields (struct_at P s)) = Some fs" by (metis nat.inject)
  have flat: "\<forall>f \<in> set fs. flat_ty (snd f)" using fields_flat [OF containers_struct_ty ty] by blast
  have dist: "distinct (map (dl_member ?D) (all_fields c))"
    using names s live by (simp add: names_ok_def list_all_iff)
  have C: "zmarshals (struct_ty m P) ?C"
    unfolding zmarshals_def measures_def
    using Suc.IH size_program [OF wf small names] Suc.prems(1)
    by (simp add: zig_program_eq(2) del: serialize.simps size_ok.simps)
  note m = zframe_match [OF rep flat Suc.prems(3,6) dist, of out]
  have "fields_size_ok fs" "unat (static_size c) = static_len fs"
    using rep Suc.prems(4) by (simp_all add: container_rep_def unat_of_nat)
  with zappend_body_exec [OF C m _ Suc.prems(5,6) dynamic_fields_empty [OF rep]] Suc.prems(7)
  have "map_option (\<lambda>(fr, k). gf_dst fr)
      (zexecs ?C (zd_append (emit_zdecl ?D c)) (zig_frame (zd_members (emit_zdecl ?D c)) vs out, None)) =
      Some (out @ serialize (TContainer nm fs) (VStruct nm vs))"
    by (simp add: emit_zdecl_def zig_frame_def)
  moreover have "?prog nm = Some (emit_zdecl ?D c)" using c by (simp add: zig_program_eq zig_decl_def)
  ultimately show ?case by simp
qed

end
