(* ===== verification/Ssz_Example.thy ===== *)
theory Ssz_Example
  imports Rust_View_Reads Nim_Program Ts_Program Java_Program Csharp_Program Zig_Serialize
begin

text \<open>
  A small schema that the witnesses of the properties evaluate: a fixed struct, a table with
  fixed and dynamic fields over it, a progressive table, and a table that refers to
  itself, a table with a union, and one with a progressive list.
  \<^verbatim>\<open>
    struct Checkpoint { epoch: ulong; root: [ubyte:4]; }
    table Block { slot: ushort; source: Checkpoint; body: [ubyte] (ssz_max: "100");
                  votes: [Checkpoint] (ssz_max: "4"); txs: [string] (ssz_max: "16,32");
                  flag: bool; heights: [uint] (ssz_max: "8"); }
    table Profile (ssz_progressive) { age: ubyte (id: 0); tags: [ubyte] (ssz_max: "9", id: 2); }
    table Node { next: Node; }
    table Choice { alt: Alt; }   (a union, so the parser adds alt_type)
    table Stream { items: [uint] (ssz_progressive_list); }
  \<close>
\<close>

section \<open>Example schema\<close>

definition mk_type :: "BaseType \<Rightarrow> Type" where
  "mk_type b = \<lparr>base_type = b, element = BASE_TYPE_NONE, type_struct = None, type_enum = None,
     fixed_length = 0\<rparr>"

definition mk_vector :: "BaseType \<Rightarrow> StructPtr option \<Rightarrow> Type" where
  "mk_vector e s = (mk_type BASE_TYPE_VECTOR)\<lparr>element := e, type_struct := s\<rparr>"

definition mk_array :: "BaseType \<Rightarrow> u16 \<Rightarrow> Type" where
  "mk_array e n = (mk_type BASE_TYPE_ARRAY)\<lparr>element := e, fixed_length := n\<rparr>"

definition mk_struct :: "StructPtr \<Rightarrow> Type" where
  "mk_struct s = (mk_type BASE_TYPE_STRUCT)\<lparr>type_struct := Some s\<rparr>"

definition mk_attr :: "string \<Rightarrow> Value" where
  "mk_attr s = \<lparr>vtype = mk_type BASE_TYPE_STRING, v_constant = s, voffset = 0\<rparr>"

definition mk_field :: "string \<Rightarrow> Type \<Rightarrow> (string \<times> string) list \<Rightarrow> FieldDef" where
  "mk_field n t attrs = \<lparr>fd_name = n, fd_attributes = map (\<lambda>(k, v). (k, mk_attr v)) attrs,
     fd_value = \<lparr>vtype = t, v_constant = ''0'', voffset = 0\<rparr>, fd_deprecated = False\<rparr>"

definition mk_def :: "string \<Rightarrow> bool \<Rightarrow> string list \<Rightarrow> FieldPtr list \<Rightarrow> StructDef" where
  "mk_def n fixed attrs fs = \<lparr>sd_name = n, sd_attributes = map (\<lambda>k. (k, mk_attr ''0'')) attrs,
     sd_fields = fs, sd_fixed = fixed, sd_predecl = False, sd_generated = False, sd_namespace = []\<rparr>"

definition example_fields :: "FieldDef list" where
  "example_fields =
     [mk_field ''epoch'' (mk_type BASE_TYPE_ULONG) [],
      mk_field ''root'' (mk_array BASE_TYPE_UCHAR 4) [],
      mk_field ''slot'' (mk_type BASE_TYPE_USHORT) [],
      mk_field ''source'' (mk_struct 0) [],
      mk_field ''body'' (mk_vector BASE_TYPE_UCHAR None) [(''ssz_max'', ''100'')],
      mk_field ''votes'' (mk_vector BASE_TYPE_STRUCT (Some 0)) [(''ssz_max'', ''4'')],
      mk_field ''txs'' (mk_vector BASE_TYPE_STRING None) [(''ssz_max'', ''16,32'')],
      mk_field ''flag'' (mk_type BASE_TYPE_BOOL) [],
      mk_field ''heights'' (mk_vector BASE_TYPE_UINT None) [(''ssz_max'', ''8'')],
      mk_field ''age'' (mk_type BASE_TYPE_UCHAR) [(''id'', ''0'')],
      mk_field ''tags'' (mk_vector BASE_TYPE_UCHAR None) [(''ssz_max'', ''9''), (''id'', ''2'')],
      mk_field ''next'' (mk_struct 3) [],
      mk_field ''alt_type'' (mk_type BASE_TYPE_UTYPE) [],
      mk_field ''alt'' (mk_type BASE_TYPE_UNION) [],
      mk_field ''items'' (mk_vector BASE_TYPE_UINT None) [(''ssz_progressive_list'', ''0'')]]"

definition example :: Parser where
  "example =
     \<lparr>struct_store =
        [mk_def ''Checkpoint'' True [] [0, 1],
         mk_def ''Block'' False [] [2, 3, 4, 5, 6, 7, 8],
         mk_def ''Profile'' False [''ssz_progressive''] [9, 10],
         mk_def ''Node'' False [] [11],
         mk_def ''Choice'' False [] [12, 13],
         mk_def ''Stream'' False [] [14]],
      field_store = example_fields,
      structs_vec = [0, 1, 2]\<rparr>"

lemma wf_example: "wf_schema example"
  by code_simp

lemma small_example: "small_ids example"
  by code_simp

definition example_gen :: SszGenerator where
  "example_gen =
     \<lparr>gen_parser = example,
      gen_opts = \<lparr>opt_object_prefix = [], opt_object_suffix = ''T'', opt_filename_suffix = []\<rparr>,
      gen_path = ''out/''\<rparr>"

lemma names_example: "go_names_ok example_gen"
  by code_simp

text \<open>The types of the schema and a value of the table.\<close>

abbreviation checkpoint_ty :: ssz_ty where
  "checkpoint_ty \<equiv> TContainer ''Checkpoint'' [(''epoch'', TUint 8), (''root'', TVector (TUint 1) 4)]"

definition block_ty :: ssz_ty where
  "block_ty =
     TContainer ''Block''
       [(''slot'', TUint 2), (''source'', checkpoint_ty), (''body'', TList (TUint 1) 100),
        (''votes'', TList checkpoint_ty 4), (''txs'', TList (TList (TUint 1) 32) 16),
        (''flag'', TBool), (''heights'', TList (TUint 4) 8)]"

definition block_vals :: "val list" where
  "block_vals =
     [VUint 7, VStruct ''Checkpoint'' [VUint 9, VBytes [1, 2, 3, 4]], VBytes [5, 6],
      VSeq [VStruct ''Checkpoint'' [VUint 300, VBytes [8, 8, 8, 8]]],
      VSeq [VBytes [10], VBytes [], VBytes [11, 12]], VBool True, VSeq [VUint 1, VUint 65536]]"

lemma block_ty_example: "struct_ty 3 example 1 = Some block_ty"
  by code_simp

lemma checkpoint_ty_example: "struct_ty 2 example 0 = Some checkpoint_ty"
  by code_simp

lemma block_bits: "bits_ok block_ty"
  by (simp add: block_ty_def)

lemma block_sizes: "size_ok block_ty"
  by (simp add: block_ty_def slot_len_def)

lemma block_val_ok: "val_ok block_ty (VStruct ''Block'' block_vals)"
  by (auto simp: block_ty_def block_vals_def is_byte_ty_def)

lemma block_decodable: "decodable block_ty"
  by (simp add: block_ty_def)

lemma block_length: "length (serialize block_ty (VStruct ''Block'' block_vals)) < 2 ^ 32"
proof -
  have "length (serialize block_ty (VStruct ''Block'' block_vals)) < 200" by code_simp
  then show ?thesis by simp
qed

section \<open>Hashing\<close>

lemma progressive_example: "progressive_ok example"
  by code_simp

lemma block_hashable: "hashable block_ty"
  by (simp add: block_ty_def)

lemma block_within: "within block_ty (VStruct ''Block'' block_vals)"
  by (simp add: block_ty_def block_vals_def)

definition profile_ty :: ssz_ty where
  "profile_ty = TContainer ''Profile'' [(''age'', TUint 1), (''tags'', TList (TUint 1) 9)]"

lemma profile_ty_example: "struct_ty 2 example 2 = Some profile_ty"
  by code_simp

lemma profile_facts:
  "bits_ok profile_ty" "hashable profile_ty" "val_ok profile_ty (VStruct ''Profile'' [VUint 3, VBytes [1, 2]])"
  "within profile_ty (VStruct ''Profile'' [VUint 3, VBytes [1, 2]])"
  by (simp_all add: profile_ty_def is_byte_ty_def)

section \<open>The Rust back end\<close>

lemma rust_names_example: "rust_names_ok example"
  by code_simp

lemma nim_names_example: "nim_names_ok example_gen"
  by code_simp

lemma ts_names_example: "ts_names_ok example"
  by code_simp

lemma zig_names_example: "zig_names_ok example"
  by code_simp

lemma java_names_example: "java_names_ok example"
  by code_simp

lemma csharp_names_example: "csharp_names_ok example_gen"
  by code_simp

lemma block_advances: "advances b block_ty"
  by (simp add: block_ty_def)

lemma block_slices: "slices_only block_ty"
  by (simp add: block_ty_def)

lemma block_short: "length (serialize block_ty (VStruct ''Block'' block_vals)) \<le> 200"
  by code_simp

text \<open>
  A table behind which another field follows.
  \<^verbatim>\<open>
    table Inner { data: [ubyte] (ssz_max: "8"); }
    table Outer { inner: Inner; more: [ubyte] (ssz_max: "8"); }
  \<close>
\<close>

definition nested_schema :: Parser where
  "nested_schema =
     \<lparr>struct_store = [mk_def ''Inner'' False [] [0], mk_def ''Outer'' False [] [1, 2]],
      field_store =
        [mk_field ''data'' (mk_vector BASE_TYPE_UCHAR None) [(''ssz_max'', ''8'')],
         mk_field ''inner'' (mk_struct 0) [],
         mk_field ''more'' (mk_vector BASE_TYPE_UCHAR None) [(''ssz_max'', ''8'')]],
      structs_vec = [0, 1]\<rparr>"

definition nested_gen :: SszGenerator where
  "nested_gen = example_gen\<lparr>gen_parser := nested_schema\<rparr>"

definition outer_ty :: ssz_ty where
  "outer_ty =
     TContainer ''Outer''
       [(''inner'', TContainer ''Inner'' [(''data'', TList (TUint 1) 8)]), (''more'', TList (TUint 1) 8)]"

lemma outer_ty_nested: "struct_ty 2 nested_schema 1 = Some outer_ty"
  by code_simp

lemma outer_facts: "bits_ok outer_ty" "size_ok outer_ty" "\<not> advances True outer_ty"
    "val_ok outer_ty (VStruct ''Outer'' [VStruct ''Inner'' [VBytes [1, 2]], VBytes [3, 4]])"
  by (simp_all add: outer_ty_def slot_len_def is_byte_ty_def)

lemma nested_facts: "wf_schema nested_schema" "small_ids nested_schema" "csharp_names_ok nested_gen"
  by (code_simp, code_simp, code_simp)

lemma csharp_outer:
  "to_ssz_bytes 100 (csharp_program 2 nested_gen) (csharp_sizes 2 nested_gen) 2 ''Outer''
     [VStruct ''Inner'' [VBytes [1, 2]], VBytes [3, 4]] =
   Some [8, 0, 0, 0, 8, 0, 0, 0, 3, 4, 0, 0, 1, 2, 0, 0]"
  by code_simp

lemma block_fits: "limits_ok rust_fits block_ty"
  by (simp add: block_ty_def rust_fits_def)

lemma block_readable: "readable block_ty"
  by (simp add: block_ty_def is_byte_ty_def)

lemma profile_type: "struct_ty 2 example 2 = Some (TContainer ''Profile'' [(''age'', TUint 1), (''tags'', TList (TUint 1) 9)])"
  using profile_ty_example by (simp only: profile_ty_def)

lemma profile_conditions:
  "bits_ok (TContainer ''Profile'' [(''age'', TUint 1), (''tags'', TList (TUint 1) 9)])"
  "size_ok (TContainer ''Profile'' [(''age'', TUint 1), (''tags'', TList (TUint 1) 9)])"
  "readable (TContainer ''Profile'' [(''age'', TUint 1), (''tags'', TList (TUint 1) 9)])"
  "panic_free (TContainer ''Profile'' [(''age'', TUint 1), (''tags'', TList (TUint 1) 9)])"
  by (simp_all add: slot_len_def)

lemma profile_view:
  "view_from (rust_vprogram 2 example) 2 ''Profile'' [3, 5, 0, 0, 0, 7, 8] = Done [3, 5, 0, 0, 0, 7, 8]"
  by code_simp

lemma block_view_panics:
  "view_from (rust_vprogram 3 example) 3 ''Block''
     (replicate 14 0 @ [31, 0, 0, 0] @ [31, 0, 0, 0] @ [31, 0, 0, 0] @ [0] @ [35, 0, 0, 0] @ [8, 0, 0, 0]) =
   Done (replicate 14 0 @ [31, 0, 0, 0] @ [31, 0, 0, 0] @ [31, 0, 0, 0] @ [0] @ [35, 0, 0, 0] @ [8, 0, 0, 0])"
  "to_owned_type (rust_rprogram 3 example) 3 ''Block''
     (replicate 14 0 @ [31, 0, 0, 0] @ [31, 0, 0, 0] @ [31, 0, 0, 0] @ [0] @ [35, 0, 0, 0] @ [8, 0, 0, 0]) = Panics"
  by code_simp+

end
