(* ===== verification/Lean_Text.thy ===== *)
theory Lean_Text
  imports Lean_Analysis Go_Generator
begin

text \<open>
  What the Lean back end (\<open>src/idl_gen_ssz_lean.cpp\<close>) emits: one \<open>structure\<close> or \<open>abbrev\<close> for
  every type of the schema, all in one file, or an error for a type the target library lacks.
\<close>

section \<open>Identifiers\<close>

text \<open>The first letters of three of the keywords are written apart.\<close>

definition LeanKeywords :: "string list" where
  "LeanKeywords =
     [''abbrev'', ''at'', ''attribute'', ''axiom'', ''begin'',
      ''by'', ''calc'', ''class'', ''deriving'', ''def'',
      ''do'', ''else'', ''end'', ''example'', ''extends'',
      ''extern'', ''from'', ''fun'', ''have'', ''if'',
      ''import'', ''in'', ''inductive'', ''in'' @ ''fix'', ''in'' @ ''fixl'',
      ''in'' @ ''fixr'', ''instance'', ''let'', ''macro'', ''match'',
      ''mutual'', ''namespace'', ''noncomputable'', ''notation'', ''open'',
      ''opaque'', ''partial'', ''prefix'', ''private'', ''prop'',
      ''protected'', ''rec'', ''section'', ''set_option'', ''show'',
      ''sor'' @ ''ry'', ''structure'', ''then'', ''theorem'', ''this'',
      ''type'', ''universe'', ''unsafe'', ''variable'', ''where'',
      ''with'']"

text \<open>The loop of \<open>ToLowerCamel\<close>: \<open>first\<close> while nothing has been written, \<open>up\<close> its flag.\<close>

fun lower_camel_from :: "bool \<Rightarrow> bool \<Rightarrow> string \<Rightarrow> string" where
  "lower_camel_from first up [] = []"
| "lower_camel_from first up (c # r) =
     (if c = CHR ''_'' then lower_camel_from first True r
      else if first then CharToLower c # lower_camel_from False up r
      else if up then CharToUpper c # lower_camel_from False False r
      else c # lower_camel_from False up r)"

definition lean_ToLowerCamel :: "string \<Rightarrow> string" where
  "lean_ToLowerCamel input = lower_camel_from True False input"

text \<open>The guillemets in UTF-8.\<close>

definition lean_EscapeIdent :: "string \<Rightarrow> string" where
  "lean_EscapeIdent name =
     (if name \<in> set LeanKeywords
      then [CHR 0xC2, CHR 0xAB] @ name @ [CHR 0xC2, CHR 0xBB] else name)"

section \<open>Types\<close>

definition IsByteVectorStruct :: "Parser \<Rightarrow> StructDef \<Rightarrow> u32 option" where
  "IsByteVectorStruct P sd =
     (if \<not> sd_fixed sd then None
      else if length (sd_fields sd) \<noteq> 1 then None
      else
        (let f = field_at P (sd_fields sd ! 0); t = field_type f; elem = VectorType t in
         if fd_deprecated f then None
         else if base_type t \<noteq> BASE_TYPE_ARRAY then None
         else if Lookup (fd_attributes f) ''ssz_bitvector'' \<noteq> None then None
         else if base_type elem \<noteq> BASE_TYPE_UCHAR \<and> base_type elem \<noteq> BASE_TYPE_CHAR then None
         else Some (ucast (fixed_length t))))"

definition parenthesize :: "string \<Rightarrow> string" where
  "parenthesize t = (if CHR '' '' \<in> set t then ''('' @ t @ '')'' else t)"

text \<open>
  \<open>LeanTypeName\<close> returns the empty string for a type it rejects, after logging; \<open>LeanElemType\<close>
  passes an empty string on, so that the type around a rejected element is not itself empty.
\<close>

fun LeanTypeName :: "Parser \<Rightarrow> SszFieldInfo \<Rightarrow> string"
  and LeanElemType :: "Parser \<Rightarrow> SszFieldInfo option \<Rightarrow> string" where
  "LeanTypeName P (SszFieldInfo t n l b d s e) =
     (case t of
        SszBool \<Rightarrow> ''Bool''
      | SszUint8 \<Rightarrow> ''UInt8''
      | SszUint16 \<Rightarrow> ''UInt16''
      | SszUint32 \<Rightarrow> ''UInt32''
      | SszUint64 \<Rightarrow> ''UInt64''
      | SszUint128 \<Rightarrow> ''BitVec 128''
      | SszUint256 \<Rightarrow> ''BitVec 256''
      | SszContainer \<Rightarrow> (case s of Some q \<Rightarrow> sd_name (struct_at P q) | None \<Rightarrow> '''')
      | SszVector \<Rightarrow> ''Vector '' @ LeanElemType P e @ '' '' @ num64 l
      | SszList \<Rightarrow> ''SSZList '' @ LeanElemType P e @ '' '' @ num64 l
      | SszBitlist \<Rightarrow> ''Bitlist '' @ num64 l
      | SszBitvector \<Rightarrow> ''Bitvector '' @ num32 b
      | SszUnion \<Rightarrow> ''''
      | SszProgressiveContainer \<Rightarrow> ''''
      | SszProgressiveList \<Rightarrow> '''')"
| "LeanElemType P (Some e) = parenthesize (LeanTypeName P e)"
| "LeanElemType P None = ''''"

text \<open>The message that goes with an empty type name.\<close>

definition lean_type_error :: "SszFieldInfo \<Rightarrow> Error" where
  "lean_type_error info =
     CompilerError
       (case ssz_type info of
          SszUnion \<Rightarrow> ''SSZ unions are not supported by --ssz-lean (SizzLean omits unions)''
        | SszProgressiveContainer \<Rightarrow>
            ''progressive types (EIP-7495/7916) are not supported by --ssz-lean (SizzLean omits them)''
        | SszProgressiveList \<Rightarrow>
            ''progressive types (EIP-7495/7916) are not supported by --ssz-lean (SizzLean omits them)''
        | _ \<Rightarrow> ''internal: container without struct_def'')"

section \<open>Declarations\<close>

fun lean_rows :: "Parser \<Rightarrow> SszContainerInfo \<Rightarrow> FieldPtr list \<Rightarrow> (string \<times> string) list res" where
  "lean_rows P c [] = Inr []"
| "lean_rows P c (p # ps) =
     (case field_infos c p of
        None \<Rightarrow> Inl OutOfBounds
      | Some info \<Rightarrow>
          (let fname = lean_EscapeIdent (lean_ToLowerCamel (fd_name (field_at P p)));
               ftype = LeanTypeName P info
           in if ftype = '''' then Inl (lean_type_error info)
              else bind_res (lean_rows P c ps) (\<lambda>rows. Inr ((fname, ftype) # rows))))"

definition lean_progressive_error :: "StructDef \<Rightarrow> Error" where
  "lean_progressive_error sd =
     CompilerError (''type '' @ sq @ sd_name sd @ sq @
       '': ssz_progressive (EIP-7495) is not supported by --ssz-lean (SizzLean omits progressive containers)'')"

definition lean_row :: "nat \<Rightarrow> string \<times> string \<Rightarrow> string" where
  "lean_row name_w row =
     ''  '' @ fst row @ replicate (name_w - length (fst row)) CHR '' '' @ '' : '' @ snd row @ nl"

definition lean_GenerateType :: "Parser \<Rightarrow> StructDef \<Rightarrow> SszContainerInfo \<Rightarrow> string res" where
  "lean_GenerateType P sd container =
     (case IsByteVectorStruct P sd of
        Some blen \<Rightarrow>
          Inr (''abbrev '' @ sd_name sd @ '' : Type := Vector UInt8 '' @ num32 blen @ nl)
      | None \<Rightarrow>
          if is_progressive container then Inl (lean_progressive_error sd)
          else bind_res (lean_rows P container (all_fields container))
            (\<lambda>rows.
               let name_w = fold max (map (\<lambda>row. length (fst row)) rows) 0
               in Inr (''structure '' @ sd_name sd @ '' where'' @ nl @
                    concat (map (lean_row name_w) rows) @ ''  deriving SSZRepr'' @ nl)))"

section \<open>The file\<close>

fun lean_ns_name :: "string list \<Rightarrow> string" where
  "lean_ns_name [] = []"
| "lean_ns_name [c] = c"
| "lean_ns_name (c # d # r) = c @ ''.'' @ lean_ns_name (d # r)"

text \<open>The loop that pops a character while the text ends in two newlines, on the reversed text.\<close>

fun pop_blank_lines :: "string \<Rightarrow> string" where
  "pop_blank_lines (a # b # r) =
     (if a = CHR 0x0A \<and> b = CHR 0x0A then pop_blank_lines (b # r) else a # b # r)"
| "pop_blank_lines s = s"

definition strip_blank_lines :: "string \<Rightarrow> string" where
  "strip_blank_lines code = rev (pop_blank_lines (rev code))"

definition lean_file_text :: "string list \<Rightarrow> string \<Rightarrow> string" where
  "lean_file_text ns types =
     (let ns_name = lean_ns_name ns in
      strip_blank_lines
        (line [] ''-- Code generated by the FlatBuffers compiler. DO NOT EDIT.'' @ nl @
         line [] ''import SizzLean.Repr.Class'' @
         line [] ''import SizzLean.Repr.Instances'' @
         line [] ''import SizzLean.Repr.Deriving'' @ nl @
         line [] ''set_option autoImplicit false'' @ nl @
         line [] ''open SizzLean'' @
         line [] ''open SizzLean.Repr'' @ nl @
         (if ns = [] then [] else line [] (''namespace '' @ ns_name) @ nl) @
         types @
         (if ns_name = [] then [] else line [] (''end '' @ ns_name))))"

text \<open>
  The first loop of \<open>generate\<close> analyses every type, the second prints them; nothing is written
  unless both succeed for all types.
\<close>

fun lean_containers ::
  "nat \<Rightarrow> Parser \<Rightarrow> StructPtr list \<Rightarrow> (StructPtr \<times> SszContainerInfo) list res" where
  "lean_containers depth P [] = Inr []"
| "lean_containers depth P (s # ss) =
     (if sd_generated (struct_at P s) then lean_containers depth P ss
      else bind_res (lean_AnalyzeContainer depth P s)
        (\<lambda>c. bind_res (lean_containers depth P ss) (\<lambda>cs. Inr ((s, c) # cs))))"

fun lean_types :: "Parser \<Rightarrow> (StructPtr \<times> SszContainerInfo) list \<Rightarrow> string res" where
  "lean_types P [] = Inr []"
| "lean_types P ((s, c) # cs) =
     bind_res (lean_GenerateType P (struct_at P s) c)
       (\<lambda>code. bind_res (lean_types P cs) (\<lambda>rest. Inr (code @ nl @ rest)))"

definition lean_generate ::
  "(string \<Rightarrow> string \<Rightarrow> bool) \<Rightarrow> nat \<Rightarrow> Parser \<Rightarrow> string \<Rightarrow> string \<Rightarrow> files res" where
  "lean_generate save depth P path file_name =
     bind_res (lean_containers depth P (structs_vec P))
       (\<lambda>cs. case cs of
          [] \<Rightarrow> Inr []
        | (s, c) # _ \<Rightarrow>
            bind_res (lean_types P cs)
              (\<lambda>types.
                 let code = lean_file_text (sd_namespace (struct_at P s)) types;
                     filename = path @ file_name @ ''_ssz.lean''
                 in if save filename code then Inr [(filename, code)]
                    else Inl (SaveFailed filename)))"

end
