(* ===== verification/Lean_Facts.thy ===== *)
theory Lean_Facts
  imports Lean_Text
begin

text \<open>
  The Lean types that the Lean back end prints are the SSZ types of the schema: \<open>lean_ty\<close> reads
  the Lean type off an SSZ type, and the declaration of a container lists its fields with those
  types, or is an error when one of them has no counterpart.
\<close>

section \<open>Lean types of SSZ types\<close>

fun lean_ty :: "ssz_ty \<Rightarrow> string" where
  "lean_ty TBool = ''Bool''"
| "lean_ty (TUint k) = ''UInt'' @ NumToString (8 * k)"
| "lean_ty (TVector t n) = ''Vector '' @ parenthesize (lean_ty t) @ '' '' @ NumToString n"
| "lean_ty (TList t l) = ''SSZList '' @ parenthesize (lean_ty t) @ '' '' @ NumToString l"
| "lean_ty (TBitvector n) = ''Bitvector '' @ NumToString n"
| "lean_ty (TBitlist l) = ''Bitlist '' @ NumToString l"
| "lean_ty (TContainer s fs) = s"
| "lean_ty (TProgressiveList t) = ''''"
| "lean_ty TUnion = ''''"

text \<open>The field types that the target library has.\<close>

fun lean_supported :: "ssz_ty \<Rightarrow> bool" where
  "lean_supported (TContainer s fs) \<longleftrightarrow> s \<noteq> ''''"
| "lean_supported (TProgressiveList t) \<longleftrightarrow> False"
| "lean_supported TUnion \<longleftrightarrow> False"
| "lean_supported _ \<longleftrightarrow> True"

lemma lean_ty_empty: "lean_ty t = '''' \<longleftrightarrow> \<not> lean_supported t"
  by (cases t) auto

lemma uint_ssz_cases:
  "uint_ssz k = Some t \<Longrightarrow> (k = 1 \<and> t = SszUint8) \<or> (k = 2 \<and> t = SszUint16) \<or>
     (k = 4 \<and> t = SszUint32) \<or> (k = 8 \<and> t = SszUint64)"
  by (auto split: if_splits)

lemma lean_uint_names:
  "NumToString 8 = ''8''" "NumToString 16 = ''16''" "NumToString 32 = ''32''" "NumToString 64 = ''64''"
  by code_simp+

lemma LeanTypeName_cases:
  "ssz_type i = SszBool \<Longrightarrow> LeanTypeName P i = ''Bool''"
  "ssz_type i = SszContainer \<Longrightarrow> info_struct i = Some q \<Longrightarrow> LeanTypeName P i = sd_name (struct_at P q)"
  "ssz_type i = SszVector \<Longrightarrow> LeanTypeName P i =
     ''Vector '' @ LeanElemType P (elem_info i) @ '' '' @ num64 (info_limit i)"
  "ssz_type i = SszList \<Longrightarrow> LeanTypeName P i =
     ''SSZList '' @ LeanElemType P (elem_info i) @ '' '' @ num64 (info_limit i)"
  "ssz_type i = SszBitlist \<Longrightarrow> LeanTypeName P i = ''Bitlist '' @ num64 (info_limit i)"
  "ssz_type i = SszBitvector \<Longrightarrow> LeanTypeName P i = ''Bitvector '' @ num32 (bitsize i)"
  "ssz_type i = SszProgressiveList \<Longrightarrow> LeanTypeName P i = ''''"
  "ssz_type i = SszUnion \<Longrightarrow> LeanTypeName P i = ''''"
  by (cases i; simp)+

lemma lean_uint_type:
  "uint_ssz k = Some (ssz_type i) \<Longrightarrow> LeanTypeName P i = ''UInt'' @ NumToString (8 * k)"
  by (cases i) (drule uint_ssz_cases, auto simp: lean_uint_names)

lemma lean_type_name:
  "info_rep (struct_ty n P) i t \<Longrightarrow> LeanTypeName P i = lean_ty t"
proof (induction t arbitrary: i)
  case (TContainer nm fs)
  then obtain q where "ssz_type i = SszContainer" "info_struct i = Some q"
    "struct_ty n P q = Some (TContainer nm fs)" by auto
  with struct_ty_name show ?case by (auto simp: LeanTypeName_cases)
qed (auto simp: LeanTypeName_cases lean_uint_type unat_of_nat simp del: uint_ssz.simps LeanTypeName.simps)

section \<open>Declarations\<close>

text \<open>The row of a field: its name in lower camel case, escaped, and its type.\<close>

definition lean_field_row :: "string \<times> ssz_ty \<Rightarrow> string \<times> string" where
  "lean_field_row f = (lean_EscapeIdent (lean_ToLowerCamel (fst f)), lean_ty (snd f))"

text \<open>A field whose type the target lacks makes the whole declaration an error.\<close>

lemma lean_rows_eq:
  assumes "list_all2 (field_rep P (struct_ty n P) c) ps fs"
  shows "(\<forall>f \<in> set fs. lean_supported (snd f)) \<longrightarrow> lean_rows P c ps = Inr (map lean_field_row fs)"
    and "(\<exists>f \<in> set fs. \<not> lean_supported (snd f)) \<longrightarrow> \<not> is_ok (lean_rows P c ps)"
proof -
  have row: "(\<exists>i. field_infos c p = Some i \<and> LeanTypeName P i = lean_ty (snd f)) \<and>
    fst f = fd_name (field_at P p)" if "field_rep P (struct_ty n P) c p f" for p f
    using that lean_type_name by (auto simp: field_rep_def)
  show "(\<forall>f \<in> set fs. lean_supported (snd f)) \<longrightarrow> lean_rows P c ps = Inr (map lean_field_row fs)"
    using assms by (induction rule: list_all2_induct)
      (auto dest!: row simp: Let_def lean_field_row_def lean_ty_empty)
  show "(\<exists>f \<in> set fs. \<not> lean_supported (snd f)) \<longrightarrow> \<not> is_ok (lean_rows P c ps)"
    using assms by (induction rule: list_all2_induct)
      (auto dest!: row simp: Let_def lean_ty_empty is_ok_iff bind_res_Inr_iff split: if_splits)
qed

text \<open>The declaration of a container with an SSZ type.\<close>

definition lean_structure :: "string \<Rightarrow> (string \<times> ssz_ty) list \<Rightarrow> string" where
  "lean_structure nm fs =
     (let rows = map lean_field_row fs;
          name_w = fold max (map (\<lambda>row. length (fst row)) rows) 0
      in ''structure '' @ nm @ '' where'' @ nl @ concat (map (lean_row name_w) rows) @
         ''  deriving SSZRepr'' @ nl)"

lemma lean_declares:
  assumes wf: "wf_schema P" and ty: "struct_ty n P s = Some (TContainer nm fs)"
    and bits: "fields_bits_ok fs" and ok: "lean_AnalyzeContainer n P s = Inr c"
    and plain: "IsByteVectorStruct P (struct_at P s) = None" "\<not> is_progressive c"
  shows "(\<forall>f \<in> set fs. lean_supported (snd f)) \<Longrightarrow>
      lean_GenerateType P (struct_at P s) c = Inr (lean_structure nm fs)"
    and "(\<exists>f \<in> set fs. \<not> lean_supported (snd f)) \<Longrightarrow> \<not> is_ok (lean_GenerateType P (struct_at P s) c)"
proof -
  obtain m where n: "n = Suc m" using ok lean.depth_0 by (cases n) auto
  from ty n have s: "s < length (struct_store P)"
    and fs: "fields_ty P (struct_ty m P) (sd_fields (struct_at P s)) = Some fs"
    by (auto split: if_splits)
  from lean.sound [OF wf s ok [unfolded n]] fs bits have "container_rep P (struct_ty m P) c fs"
    by auto
  then have rep: "list_all2 (field_rep P (struct_ty m P) c) (all_fields c) fs"
    by (simp add: container_rep_def)
  show "(\<forall>f \<in> set fs. lean_supported (snd f)) \<Longrightarrow>
      lean_GenerateType P (struct_at P s) c = Inr (lean_structure nm fs)"
    using lean_rows_eq(1) [OF rep] struct_ty_name [OF ty] plain
    by (simp add: lean_GenerateType_def lean_structure_def Let_def)
  show "(\<exists>f \<in> set fs. \<not> lean_supported (snd f)) \<Longrightarrow> \<not> is_ok (lean_GenerateType P (struct_at P s) c)"
    using lean_rows_eq(2) [OF rep] plain
    by (auto simp: lean_GenerateType_def is_ok_iff bind_res_Inr_iff)
qed

text \<open>Progressive containers are rejected by name.\<close>

lemma lean_progressive_flag:
  assumes "lean_AnalyzeContainer n P s = Inr c"
    and "Lookup (sd_attributes (struct_at P s)) ''ssz_progressive'' \<noteq> None"
  shows "is_progressive c"
proof -
  obtain m where n: "n = Suc m" using assms(1) lean.depth_0 by (cases n) auto
  with assms show ?thesis
    by (auto simp: lean_AnalyzeContainer.simps lean_analyze_body_def Let_def bind_res_Inr_iff)
qed

lemma lean_not_progressive:
  assumes "lean_AnalyzeContainer n P s = Inr c"
    and "Lookup (sd_attributes (struct_at P s)) ''ssz_progressive'' = None"
  shows "\<not> is_progressive c"
proof -
  obtain m where n: "n = Suc m" using assms(1) lean.depth_0 by (cases n) auto
  with assms have "fold_res (go_add_field P (lean_AnalyzeContainer m P)) (sd_fields (struct_at P s))
      (new_container\<lparr>static_size := 0, is_fixed := True\<rparr>) = Inr c"
    by (auto simp: lean_AnalyzeContainer.simps lean_analyze_body_def Let_def bind_res_Inr_iff
        lean_add_field_eq)
  then show ?thesis
    by (rule fold_res_invariant)
      (auto simp: new_container_def go_add_field_def Let_def bind_res_Inr_iff split: if_splits)
qed

section \<open>Termination\<close>

lemma lean_body_overflow:
  "lean_analyze_body P an s = Inl StackOverflow \<Longrightarrow> go_analyze_body P an s = Inl StackOverflow"
  by (auto simp: lean_analyze_body_def go_analyze_body_def Let_def bind_res_Inl_iff lean_add_field_eq
      split: if_splits)

lemma lean_rank_terminates:
  assumes "\<And>s s'. s \<in> S \<Longrightarrow> refers P s s' \<Longrightarrow> s' \<in> S \<and> rank s' < (rank s :: nat)"
    and "s \<in> S" and "rank s < n"
  shows "lean_AnalyzeContainer n P s \<noteq> Inl StackOverflow"
  using assms(2,3)
proof (induction n arbitrary: s)
  case (Suc n)
  show ?case
  proof
    assume "lean_AnalyzeContainer (Suc n) P s = Inl StackOverflow"
    then obtain s' where s': "refers P s s'" "lean_AnalyzeContainer n P s' = Inl StackOverflow"
      using lean_body_overflow go_body_overflow by (metis lean_AnalyzeContainer.simps(2))
    from assms(1) [OF Suc.prems(1) s'(1)] Suc.prems(2) have "s' \<in> S" "rank s' < n" by simp_all
    with Suc.IH s'(2) show False by blast
  qed
qed simp

end
