(* ===== verification/Parser_Ids.thy ===== *)
theory Parser_Ids
  imports Go_Progress "HOL-Library.Multiset"
begin

text \<open>
  What the parser's check of manual field ids guarantees to the generators: the order of the
  fields, the range of the ids, and the bound on the tree indices that the generators read from
  the same attribute.
\<close>

section \<open>The loop over the sorted fields\<close>

abbreviation parsed_id :: "FieldDef \<Rightarrow> u16" where
  "parsed_id f \<equiv> snd (StringToNumber_u16 (c_str (id_constant f)))"

lemma check_field_id_ok:
  assumes "check_field_id prog i f = Inr g"
  shows "fst (StringToNumber_u16 (c_str (id_constant f)))"
    and "prog \<Longrightarrow> parsed_id f \<le> 255" and "\<not> prog \<Longrightarrow> parsed_id f = i"
    and "g = f\<lparr>fd_value := (fd_value f)\<lparr>voffset := FieldIndexToOffset i\<rparr>\<rparr>"
  using assms
  by (auto simp: check_field_id_def Let_def not_less split: prod.splits if_splits)

lemma id_constant_offset [simp]:
  "id_constant (f\<lparr>fd_value := v\<rparr>) = id_constant f"
  by (simp add: id_constant_def)

lemma check_ids_from_ok:
  assumes "check_ids_from prog k ps store = Inr store'" and "distinct ps"
    and "\<forall>p \<in> set ps. p < length store"
  shows "length store' = length store \<and>
    (\<forall>p. p \<notin> set ps \<longrightarrow> store' ! p = store ! p) \<and>
    (\<forall>j < length ps.
       check_field_id prog (of_nat (k + j)) (store ! (ps ! j)) = Inr (store' ! (ps ! j)))"
  using assms
proof (induction prog k ps store rule: check_ids_from.induct)
  case (2 prog k p ps store)
  from "2.prems"(1) obtain g where g: "check_field_id prog (of_nat k) (store ! p) = Inr g"
    and rest: "check_ids_from prog (Suc k) ps (store[p := g]) = Inr store'"
    by (auto simp: bind_res_Inr_iff)
  have IH: "length store' = length (store[p := g]) \<and>
    (\<forall>q. q \<notin> set ps \<longrightarrow> store' ! q = store[p := g] ! q) \<and>
    (\<forall>j < length ps. check_field_id prog (of_nat (Suc k + j)) (store[p := g] ! (ps ! j)) =
      Inr (store' ! (ps ! j)))"
    by (rule "2.IH" [OF rest]) (use "2.prems" in auto)
  have head: "store' ! p = g" using IH "2.prems" by simp
  have tail: "store[p := g] ! (ps ! j) = store ! (ps ! j)" if "j < length ps" for j
  proof -
    from that "2.prems"(2) have "ps ! j \<noteq> p" using nth_mem by force
    then show ?thesis by simp
  qed
  have "check_field_id prog (of_nat (k + j)) (store ! ((p # ps) ! j)) = Inr (store' ! ((p # ps) ! j))"
    if "j < length (p # ps)" for j
  proof (cases j)
    case 0
    with g head show ?thesis by simp
  next
    case (Suc i)
    with that have i: "i < length ps" by simp
    with IH have "check_field_id prog (of_nat (Suc k + i)) (store[p := g] ! (ps ! i)) =
        Inr (store' ! (ps ! i))" by blast
    with tail [OF i] Suc show ?thesis by simp
  qed
  moreover have "\<forall>q. q \<notin> set (p # ps) \<longrightarrow> store' ! q = store ! q" using IH by simp
  ultimately show ?case using IH by simp
qed simp

section \<open>Accepted declarations\<close>

text \<open>
  The fields of an accepted table with manual ids are the declared ones, sorted; every id is a
  number, at most 255 in a progressive table and equal to the position in any other; the vtable
  offsets are dense.
\<close>

lemma manual_ids_ok:
  assumes ok: "check_manual_ids require sd store = Inr (sd', store')"
    and ids: "\<not> sd_fixed sd" "sd_fields sd \<noteq> []"
      "require \<or> (\<exists>p \<in> set (sd_fields sd). Lookup (fd_attributes (store ! p)) ''id'' \<noteq> None)"
    and fields: "distinct (sd_fields sd)" "\<forall>p \<in> set (sd_fields sd). p < length store"
  shows "mset (sd_fields sd') = mset (sd_fields sd) \<and>
    (\<forall>j < length (sd_fields sd'). \<exists>f. f = store ! (sd_fields sd' ! j) \<and>
       fst (StringToNumber_u16 (c_str (id_constant f))) \<and>
       (if Lookup (sd_attributes sd) ''ssz_progressive'' \<noteq> None then parsed_id f \<le> 255
        else parsed_id f = of_nat j) \<and>
       voffset (fd_value (store' ! (sd_fields sd' ! j))) = FieldIndexToOffset (of_nat j))"
proof -
  let ?sorted = "sort_key (\<lambda>p. atoi (c_str (id_constant (store ! p)))) (sd_fields sd)"
  let ?prog = "Lookup (sd_attributes sd) ''ssz_progressive'' \<noteq> None"
  have num: "length (filter (\<lambda>p. Lookup (fd_attributes (store ! p)) ''id'' \<noteq> None) (sd_fields sd)) = 0
      \<longrightarrow> require"
    using ids(3) by (auto simp: filter_empty_conv)
  from ok ids(1,2) num have loop: "check_ids_from ?prog 0 ?sorted store = Inr store'"
    and sd': "sd_fields sd' = ?sorted"
    by (auto simp: check_manual_ids_def Let_def bind_res_Inr_iff split: if_splits)
  have "\<forall>j < length ?sorted. check_field_id ?prog (of_nat (0 + j)) (store ! (?sorted ! j)) =
      Inr (store' ! (?sorted ! j))"
    using check_ids_from_ok [OF loop] fields by simp
  then have "\<forall>j < length ?sorted. check_field_id ?prog (of_nat j) (store ! (?sorted ! j)) =
      Inr (store' ! (?sorted ! j))" by simp
  then have chk: "check_field_id ?prog (of_nat j) (store ! (?sorted ! j)) = Inr (store' ! (?sorted ! j))"
    if "j < length ?sorted" for j using that by blast
  have "fst (StringToNumber_u16 (c_str (id_constant (store ! (?sorted ! j))))) \<and>
      (if ?prog then parsed_id (store ! (?sorted ! j)) \<le> 255
       else parsed_id (store ! (?sorted ! j)) = of_nat j) \<and>
      voffset (fd_value (store' ! (?sorted ! j))) = FieldIndexToOffset (of_nat j)"
    if "j < length ?sorted" for j
  proof (intro conjI)
    show "voffset (fd_value (store' ! (?sorted ! j))) = FieldIndexToOffset (of_nat j)"
      unfolding check_field_id_ok(4) [OF chk [OF that]] by simp
  qed (use check_field_id_ok(1,2,3) [OF chk [OF that]] in \<open>simp_all split: if_split\<close>)
  then show ?thesis unfolding sd' by (simp del: length_sort)
qed

section \<open>The generators' reading of an id\<close>

text \<open>
  Where the parser reads a number, the generators read the same number, or 0 when the number is
  written in hexadecimal; in both cases at most the parser's number.
\<close>

lemma isspace_not_X: "isspace x \<Longrightarrow> \<not> is_alpha_char x CHR ''X''"
proof -
  assume "isspace x"
  then have "of_char x = (32::nat) \<or> of_char x = (9::nat) \<or> of_char x = (10::nat) \<or>
      of_char x = (11::nat) \<or> of_char x = (12::nat) \<or> of_char x = (13::nat)"
    unfolding isspace_def by arith
  then show "\<not> is_alpha_char x CHR ''X''"
    by (elim disjE) (simp_all add: is_alpha_char_def and_DF_def)
qed

lemma strip_sign_keeps:
  assumes "x \<in> set s" and "\<not> isspace x" and "x \<noteq> CHR ''-''" and "x \<noteq> CHR ''+''"
    and "strip_sign (dropWhile isspace s) = (neg, r)"
  shows "x \<in> set r"
proof -
  have "x \<in> set d \<Longrightarrow> strip_sign d = (neg, r) \<Longrightarrow> x \<in> set r" for d
    using assms(3,4) by (cases d) (auto split: if_splits)
  moreover have "x \<in> set (dropWhile isspace s)" using assms(1,2) by (induction s) auto
  ultimately show ?thesis using assms(5) by blast
qed

lemma decimal_rejects_hex:
  assumes "detect_base s = 16"
  shows "StringToUInt s = 0"
proof -
  obtain z x r where d: "dropWhile (\<lambda>c. \<not> is_digit c) s = z # x # r" and x: "is_alpha_char x CHR ''X''"
    using assms by (auto simp: detect_base_def split: list.splits if_splits)
  obtain neg ds rest where scan: "scan_number 10 s = (neg, ds, rest)" by (metis prod_cases3)
  have "x \<in> set s" using d set_dropWhileD by (metis list.set_intros)
  moreover have "\<not> is_base_digit 10 x"
  proof
    assume "is_base_digit 10 x"
    then have "isdigit x"
      by (auto simp: is_base_digit_def digit_val_def islower_def isupper_def split: if_splits option.splits)
    with x isdigit_not_X show False by blast
  qed
  moreover have "\<not> isspace x \<and> x \<noteq> CHR ''-'' \<and> x \<noteq> CHR ''+''"
  proof (intro conjI notI)
    assume "isspace x"
    with x isspace_not_X show False by blast
  qed (use x in \<open>auto simp: is_alpha_char_def and_DF_def\<close>)
  moreover obtain r where "strip_sign (dropWhile isspace s) = (neg, r)"
    and rest: "rest = dropWhile (is_base_digit 10) r"
    using scan by (auto simp: scan_number_def Let_def split: prod.splits)
  ultimately have "rest \<noteq> []"
    using strip_sign_keeps by (fastforce simp: dropWhile_eq_Nil_conv)
  then show ?thesis
    using scan
    by (auto simp: StringToUInt_def StringToIntegerImpl_u64_def strtoull_def Let_def split: if_splits)
qed

lemma detect_base_cases: "detect_base s = 10 \<or> detect_base s = 16"
  by (auto simp: detect_base_def split: list.splits)

lemma generator_reads_id:
  assumes "StringToNumber_u16 s = (True, k)"
  shows "StringToUInt s = (if detect_base s = 16 then 0 else of_nat (unat k))"
  using detect_base_cases [of s] decimal_rejects_hex [of s] id_readers_agree [OF assms] by auto

text \<open>So the ids of a schema that the parser accepts are small for the generators.\<close>

lemma accepted_ids_small:
  assumes "\<forall>p < length (field_store P). \<forall>v.
      Lookup (fd_attributes (field_at P p)) ''id'' = Some v \<longrightarrow>
      fst (StringToNumber_u16 (c_str (v_constant v)))"
  shows "small_ids P"
  unfolding small_ids_def list_all_iff
proof
  fix p
  assume "p \<in> set [0..<length (field_store P)]"
  then have p: "p < length (field_store P)" by simp
  show "case ssz_index P p of None \<Rightarrow> True | Some idx \<Rightarrow> unat idx < 2 ^ 32 - 8"
  proof (cases "Lookup (fd_attributes (field_at P p)) ''id''")
    case None
    then show ?thesis by (simp add: ssz_index_def)
  next
    case (Some v)
    with assms p obtain k where "StringToNumber_u16 (c_str (v_constant v)) = (True, k)"
      by (metis prod.collapse)
    from generator_reads_id [OF this] have "attr_uint v = 0 \<or> attr_uint v = of_nat (unat k)" by auto
    moreover have "unat (of_nat (unat k) :: u64) = unat k"
      using unat_bound [of k] by (intro unat_of_nat_small) simp
    ultimately have "unat (attr_uint v) < 2 ^ 16"
      using unat_bound [of k] by (elim disjE) (simp_all del: of_nat_unat)
    then have "unat (ucast (attr_uint v) :: u32) < 2 ^ 32 - 8"
      by (simp add: unsigned_ucast_eq take_bit_eq_mod)
    with Some show ?thesis by (simp add: ssz_index_def)
  qed
qed

end
