(* ===== verification/Spec2Isabelle.thy ===== *)
theory Spec2Isabelle
  imports Ssz_Example Rust_Analysis Zig_Analysis Ts_Analysis Java_Analysis Csharp_Analysis
    Nim_Analysis Lean_Facts Parser_Ids Go_Facts Go_Decode_Safe Go_Hash_Root
    Rust_Hasher_Facts Rust_Serialize Rust_Decode_Safe Rust_View_Reads Rust_View_Text
    Nim_Program Ts_Program Java_Program Csharp_Program Zig_Serialize
begin

text \<open>
  Flat-ssz is a fork of FlatBuffers whose compiler \<open>flatc\<close> gets eight more code generators:
  from a FlatBuffers schema they emit code that encodes, decodes and hashes values in SSZ, the
  serialization of the Ethereum consensus layer.  This development models the generators, the
  parts of the parser and of the libraries they rest on, and the code that the generators
  emit.

  The program.  The parser (\<open>src/idl_parser.cpp\<close>) leaves a schema as structs and fields with
  attributes (\<open>include/flatbuffers/idl.h\<close>).  Every generator \<open>src/idl_gen_ssz_*.cpp\<close> first
  analyses each container: \<open>ResolveSszFieldInfo\<close> and its helpers give a field an SSZ type, a fixed
  size and a flag for dynamic size, \<open>AnalyzeContainer\<close> collects them, recursively through the
  structs that a field names.  Then it prints, per container, a type and its methods, and writes
  one file per container (Go, Java) or per schema (the others).  Names go through \<open>IdlNamer\<close>
  (\<open>include/codegen/\<close>), numbers and cases through \<open>util.h\<close> and \<open>util.cpp\<close>.

  The theories.
  \<^item> \<open>Ssz_Prelude\<close>: outcomes with errors as values, the C++ map and vector operations, the
    collections of facts.  \<open>Fb_Util\<close>, \<open>Fb_Idl\<close>, \<open>Fb_Namer\<close>: the helpers, the schema as
    the generators see it with the parser's check of field types and ids, and the namer.
  \<^item> \<open>Ssz_Info\<close>: the info structures that the generators share.  \<open>Go_Analysis\<close>,
    \<open>Rust_Analysis\<close>, \<open>Zig_Analysis\<close>, \<open>Ts_Analysis\<close>, \<open>Java_Analysis\<close>,
    \<open>Csharp_Analysis\<close>, \<open>Nim_Analysis\<close>, \<open>Lean_Analysis\<close>: the analysis of each generator.
    A nested analysis is a call of the whole, so \<open>AnalyzeContainer\<close> has a depth as its fuel;
    an exhausted depth is the stack overflow that the recursion of the code runs into.
    \<open>go_accepts_iff_typed\<close> and \<open>analysis_terminates\<close> say which depth is enough.
  \<^item> \<open>Go_Names\<close>, \<open>Go_Marshal_Text\<close>, \<open>Go_Hash_Text\<close>,
    \<open>Go_Generator\<close>: the text that the Go generator emits, character by character, and the
    files it writes.  \<open>Lean_Text\<close>: the same for the Lean generator.  The function that saves a
    file is a parameter.
  \<^item> \<open>Ssz_Spec\<close>, \<open>Ssz_Schema\<close>: the abstract side, SSZ types, values, lengths and
    serialization after the consensus specification, and the SSZ type a schema denotes.
    At its end is the contract of an analysis, a locale; \<open>Go_Layout\<close> proves it of the Go
    analysis.  \<open>Go_Progress\<close>: when the analysis returns, and what carries it to the generators
    that differ from it in messages only.
  \<^item> \<open>Go_Lang\<close>: the abstract syntax of the emitted encoders and what it does.
    \<open>Emit_Program\<close>: the statements that the generators emit, over a \<^emph>\<open>dialect\<close>, which holds where
    the back ends differ; \<open>Go_Program\<close>, \<open>Rust_Program\<close> and \<open>Nim_Program\<close> are dialects, each with a printer and
    the proof that the emitted text is the printed statements.  \<open>Go_Exec\<close>, \<open>Go_Marshal\<close>,
    \<open>Go_Size\<close>, \<open>Go_Serialize\<close>: what the statements do, and their correctness in every dialect.
  \<^item> \<open>Go_Decode_Lang\<close>, \<open>Go_Decode_Program\<close>, \<open>Go_Decode_Fields\<close>,
    \<open>Go_Decode_Lists\<close>, \<open>Go_Decode\<close>: the same for \<open>UnmarshalSSZ\<close>, with slices that
    have a capacity and outcomes that are an error or a panic; \<open>Go_Decode_Safe\<close> runs it on bytes
    that nobody has checked.
  \<^item> \<open>Ssz_Merkle\<close>: chunks, trees and hash tree roots after the
    specification, and the contract of a hasher, a locale.  \<open>Rust_Hasher\<close> models the hasher of the
    runtime crate (\<open>rust/ssz_flatbuffers/src/lib.rs\<close>), \<open>Rust_Hasher_Facts\<close> proves the contract of
    it.  \<open>Go_Hash_Lang\<close>, \<open>Emit_Hash\<close>, \<open>Go_Hash_Program\<close>, \<open>Rust_Serialize\<close>: the
    statements behind the emitted hashing methods, over a style that holds the differences, and the
    two styles with their printers.  \<open>Go_Hash_Exec\<close>, \<open>Go_Hash_Root\<close>: what the statements do with
    a hasher that keeps the contract, and the root they compute.  The hash function is a parameter.
  \<^item> \<open>Rust_Text\<close>, \<open>Rust_Hash_Text\<close>, \<open>Rust_View_Text\<close>: the text that the Rust generator
    emits for a struct, its methods and its view, and the file it writes.  \<open>Rust_Serialize\<close>: the emitted encoder and hasher as programs, the latter on the
    runtime's hasher.  \<open>Rust_Decode_Program\<close>, \<open>Rust_Decode\<close>: the emitted
    \<open>from_ssz_bytes\<close>, its syntax, text, meaning, and what it reads; \<open>Rust_Decode_Safe\<close> runs it on
    bytes that nobody has checked.
  \<^item> \<open>Rust_View\<close>: the checks and accessors of the emitted views as programs, with
    their text.  \<open>Rust_View_Safe\<close>: the accessors behind passed checks.  \<open>Rust_To_Owned\<close>: when
    unwrapping the decoded bytes of a view is safe.  \<open>Rust_View_Accepts\<close>, \<open>Rust_View_Reads\<close>: views
    of serializations, which pass the checks and show the fields.
  \<^item> \<open>Nim_Text\<close>, \<open>Nim_Generator\<close>: the text that the Nim generator emits and the file it writes.
    \<open>Nim_Program\<close>: its dialect, with the printers for the encoder and the hasher.
  \<^item> \<open>Ts_Text\<close>, \<open>Ts_Generator\<close>, \<open>Java_Text\<close>, \<open>Java_Generator\<close>, \<open>Csharp_Text\<close>,
    \<open>Csharp_Generator\<close>: the text that the TypeScript, Java and C# generators emit, for every method
    of a class, and the files they write.  \<open>Pos_Lang\<close>: the syntax and meaning of encoders that fill an
    array of a size computed before, from position to position, as these three do, and
    the statements they emit, over a dialect.  \<open>Pos_Exec\<close>, \<open>Pos_Program\<close>:
    what the statements write, and that it is the serialization.  \<open>Emit_Hash\<close> also has a hashing
    method as its fields and calls in order, which the Java and C# printers indent on their own.
    \<open>Ts_Program\<close>, \<open>Java_Program\<close>, \<open>Csharp_Program\<close>: the dialects with their printers.
  \<^item> \<open>Zig_Text\<close>, \<open>Zig_Generator\<close>: the text that the Zig generator emits and the file it writes.
    \<open>Zig_Program\<close>: the encoder that writes to a stream, with offsets computed before they are
    written, its syntax, meaning, statements and text.  \<open>Zig_Serialize\<close>: what it writes.
  \<^item> \<open>Go_Facts\<close>, \<open>Lean_Facts\<close>, \<open>Parser_Ids\<close>: chunk limits, names, files,
    leaves of progressive containers, Lean declarations, and the parser's check of manual ids.
  \<^item> \<open>Ssz_Example\<close>: the schema on which the witnesses evaluate.

  What the lemmas show.  The analyses compute the layout of the SSZ type of the schema, agree
  with each other, reject what has no type and never return on a cycle.  The statements behind
  the emitted Go, Rust and Nim text serialize, measure, hash and, in Go and Rust, decode; the emitted text
  is theirs.  The encoders of TypeScript and Java and, for types in which nothing of variable size
  follows a nested object of variable size, of C# fill their array with the serialization; the Zig
  encoder writes it to a stream, with offsets computed in advance, for types without vectors of
  containers.  Hashing in TypeScript and Zig gives the root, in Java and C# for containers without
  nested ones.  On malformed
  bytes the decoders do not panic for most types, and do for some.  The checks of a Rust view protect its
  accessors always and its conversion to an owned value for most types.  The runtime's hasher computes
  the trees of the specification.

  Widths.  Sizes are 32-bit words and limits 64-bit words as in the code, and wrap; the theorems
  carry the conditions under which they do not (\<open>bits_ok\<close>, \<open>size_ok\<close>, \<open>decodable\<close>,
  \<open>hashable\<close>).
  The depth of the emitted methods in the model is the depth of the nesting of containers, which is finite for every type.

  Not modelled.  The lexer and the rest of the parser; SHA-256 and the Go libraries that the
  emitted code calls, which are parameters (the hash walker) or their meaning
  (\<open>binary.LittleEndian\<close>); what
  the hashing methods of the Rust views and the decoders of Nim, TypeScript, Java, C# and Zig do, whose text
  is modelled; FlatBuffers itself with its own generators, builder and verifier, which the SSZ generators
  do not use.
\<close>

section \<open>The emitted serializer\<close>

text \<open>
  C1. Every \<open>MarshalSSZTo\<close> that the Go back end emits appends exactly the SSZ serialization
  of its receiver to the buffer it is given, for every schema the parser accepts, every struct
  or table with an SSZ type and every value of that type: fixed fields inline, offsets of the
  dynamic fields relative to the start of the container, payloads behind them, recursively.
\<close>

theorem emitted_marshal_serializes:
  assumes "wf_schema (gen_parser G)" and "small_ids (gen_parser G)" and "go_names_ok G"
    and "struct_ty depth (gen_parser G) s = Some t" and "bits_ok t" and "val_ok t (VStruct nm vs)"
  shows "MarshalSSZTo (go_program depth G) depth nm vs buf = Some (buf @ serialize t (VStruct nm vs))"
proof -
  from containers_struct_ty assms(4,6) obtain fs where t: "t = TContainer nm fs" and "vals_ok fs vs"
    unfolding containers_def by fastforce
  with marshal_program [OF assms(1,2) assms(3) [unfolded go_names_ok_def] order_refl] assms(4,5)
  show ?thesis unfolding go_program_def by simp
qed

theorem emitted_marshal_serializes_witness:
  "MarshalSSZTo (go_program 3 example_gen) 3 ''Block'' block_vals [1, 2] =
     Some ([1, 2] @ serialize block_ty (VStruct ''Block'' block_vals))"
  by (rule emitted_marshal_serializes [of example_gen 3 1])
    (simp_all add: example_gen_def wf_example small_example block_ty_example [simplified] block_bits
      block_val_ok names_example [unfolded example_gen_def])

text \<open>
  C2. The bytes that \<open>SizeSSZ\<close> announces are the bytes that \<open>MarshalSSZTo\<close> appends: the
  emitted \<open>SizeSSZ\<close> returns the length of the serialization wherever the sizes it prints fit
  in 32 bits.
\<close>

theorem emitted_size_exact:
  assumes "wf_schema (gen_parser G)" and "small_ids (gen_parser G)" and "go_names_ok G"
    and "struct_ty depth (gen_parser G) s = Some t" and "bits_ok t" and "size_ok t"
    and "val_ok t (VStruct nm vs)"
  shows "SizeSSZ (go_program depth G) depth nm vs = Some (length (serialize t (VStruct nm vs)))"
proof -
  from containers_struct_ty assms(4,7) obtain fs where t: "t = TContainer nm fs" and "vals_ok fs vs"
    unfolding containers_def by fastforce
  with size_program [OF assms(1,2) assms(3) [unfolded go_names_ok_def] order_refl] assms(4-6)
  show ?thesis unfolding go_program_def by simp
qed

theorem emitted_size_exact_witness:
  "SizeSSZ (go_program 3 example_gen) 3 ''Block'' block_vals =
     Some (length (serialize block_ty (VStruct ''Block'' block_vals)))"
  by (rule emitted_size_exact [of example_gen 3 1])
    (simp_all add: example_gen_def wf_example small_example block_ty_example [simplified] block_bits
      block_sizes block_val_ok names_example [unfolded example_gen_def])

text \<open>
  C6. The text that the generator writes for the two methods is the text of the statements that
  \<open>emitted_marshal_serializes\<close> and \<open>emitted_size_exact\<close> execute, framed by the signature and the return statement.
\<close>

theorem emitted_text:
  "go_GenMarshalSSZTo G sd c =
     line [] (''func (t *'' @ sd_name sd @ '') MarshalSSZTo(buf []byte) (dst []byte, err error) {'') @
     pp_stmts tab (gd_marshal (go_decl G c)) @ line tab ''return dst, err'' @ line [] ''}'' \<and>
   go_GenSizeSSZ G sd c =
     line [] (''func (t *'' @ sd_name sd @ '') SizeSSZ() int {'') @
     (if is_fixed c then line tab (''return '' @ NumToString (unat (static_size c)))
      else pp_stmts tab (gd_size (go_decl G c)) @ line tab ''return size'') @ line [] ''}''"
proof (cases "is_fixed c")
  case True
  then show ?thesis by (simp add: print_marshal go_decl_def emit_decl_def go_GenSizeSSZ_def)
next
  case False
  then show ?thesis by (simp add: print_marshal print_size_body go_decl_def emit_decl_def)
qed

section \<open>Schema analysis\<close>

text \<open>
  C11. The layout that any of the eight back ends computes for a struct or table is the layout of
  its SSZ type: the container is fixed exactly when the type is, and its static size is the sum
  of the fixed sizes and of four bytes for every dynamic field, in 32 bits.
\<close>

theorem backends_layout:
  assumes "analyze \<in> {go_AnalyzeContainer, rust_AnalyzeContainer, zig_AnalyzeContainer,
      ts_AnalyzeContainer, java_AnalyzeContainer, csharp_AnalyzeContainer, nim_AnalyzeContainer,
      lean_AnalyzeContainer}"
    and "wf_schema P" and "struct_ty n P s = Some t" and "bits_ok t" and "analyze n P s = Inr c"
  shows "is_fixed c = (\<not> is_variable t) \<and>
    (\<exists>nm fs. t = TContainer nm fs \<and> static_size c = of_nat (static_len fs))"
  using assms(1)
    go.layout [OF assms(2) struct_ty_in_range [OF assms(3)] _ assms(3,4)]
    rust.layout [OF assms(2) struct_ty_in_range [OF assms(3)] _ assms(3,4)]
    zig.layout [OF assms(2) struct_ty_in_range [OF assms(3)] _ assms(3,4)]
    ts.layout [OF assms(2) struct_ty_in_range [OF assms(3)] _ assms(3,4)]
    java.layout [OF assms(2) struct_ty_in_range [OF assms(3)] _ assms(3,4)]
    csharp.layout [OF assms(2) struct_ty_in_range [OF assms(3)] _ assms(3,4)]
    nim.layout [OF assms(2) struct_ty_in_range [OF assms(3)] _ assms(3,4)]
    lean.layout [OF assms(2) struct_ty_in_range [OF assms(3)] _ assms(3,4)]
    assms(5) by blast

theorem backends_layout_witness:
  "is_ok (lean_AnalyzeContainer 3 example 1) \<and>
   \<not> is_fixed (projr (lean_AnalyzeContainer 3 example 1))"
proof -
  have ok: "is_ok (lean_AnalyzeContainer 3 example 1)" by code_simp
  then have "lean_AnalyzeContainer 3 example 1 = Inr (projr (lean_AnalyzeContainer 3 example 1))"
    by (cases "lean_AnalyzeContainer 3 example 1") auto
  from backends_layout [of lean_AnalyzeContainer, OF _ wf_example block_ty_example block_bits this] ok
  show ?thesis by (simp add: block_ty_def)
qed

text \<open>
  C12. The Go back end accepts a struct or table, to any nesting depth, exactly when the schema
  gives it an SSZ type: nothing without a type gets through, and nothing with one is rejected.
\<close>

theorem go_accepts_iff_typed:
  assumes "wf_schema P" and "small_ids P" and "s < length (struct_store P)"
  shows "is_ok (go_AnalyzeContainer n P s) \<longleftrightarrow> struct_ty n P s \<noteq> None"
proof
  assume "is_ok (go_AnalyzeContainer n P s)"
  then show "struct_ty n P s \<noteq> None" using go.typed [OF assms(1,3)] by (auto simp: is_ok_iff)
next
  assume "struct_ty n P s \<noteq> None"
  then show "is_ok (go_AnalyzeContainer n P s)" using go_complete [OF assms] by blast
qed

theorem go_accepts_iff_typed_witness:
  "is_ok (go_AnalyzeContainer 3 example 1) \<and> \<not> is_ok (go_AnalyzeContainer 3 example 3)"
proof -
  have "1 < length (struct_store example)" "3 < length (struct_store example)"
    by (simp_all add: example_def)
  moreover have "struct_ty 3 example 3 = None" by code_simp
  ultimately show ?thesis
    using go_accepts_iff_typed [OF wf_example small_example] block_ty_example by simp
qed

text \<open>
  C13. The Rust, Zig, TypeScript, Java, C# and Nim back ends agree with the Go back end on every
  schema: they accept the same containers with the same analysis, and where one reports an error
  so do the others, at most in other words.
\<close>

theorem backends_agree:
  "same_outcome (rust_AnalyzeContainer n P s) (go_AnalyzeContainer n P s) \<and>
   same_outcome (zig_AnalyzeContainer n P s) (go_AnalyzeContainer n P s) \<and>
   same_outcome (ts_AnalyzeContainer n P s) (go_AnalyzeContainer n P s) \<and>
   same_outcome (java_AnalyzeContainer n P s) (go_AnalyzeContainer n P s) \<and>
   same_outcome (csharp_AnalyzeContainer n P s) (go_AnalyzeContainer n P s) \<and>
   same_outcome (nim_AnalyzeContainer n P s) (go_AnalyzeContainer n P s)"
  by (intro conjI rust.copy zig.copy ts.copy java.copy csharp.copy nim.copy)

text \<open>
  What the Go back end accepts, the Lean back end accepts with the same fields, infos and
  sizes.
\<close>

theorem lean_accepts:
  assumes "go_AnalyzeContainer n P s = Inr c"
  shows "\<exists>d. lean_AnalyzeContainer n P s = Inr d \<and> same_layout d c"
  using lean_covers [of n P] assms by (simp add: covers_def)

theorem lean_accepts_witness:
  "\<exists>d. lean_AnalyzeContainer 3 example 2 = Inr d"
proof -
  have "is_ok (go_AnalyzeContainer 3 example 2)" by code_simp
  then have "go_AnalyzeContainer 3 example 2 = Inr (projr (go_AnalyzeContainer 3 example 2))"
    by (cases "go_AnalyzeContainer 3 example 2") auto
  from lean_accepts [OF this] show ?thesis by blast
qed



text \<open>
  C15. The active-fields bit vector of a progressive container has its bit \<open>j\<close> set exactly when
  some live field has the tree index \<open>j\<close>, and it ends with the byte of the highest index.
\<close>

theorem active_fields_bits:
  assumes "go_AnalyzeContainer n P s = Inr c" and "wf_schema P" and "s < length (struct_store P)"
    and "Lookup (sd_attributes (struct_at P s)) ''ssz_progressive'' \<noteq> None"
  shows "is_progressive c \<and>
    length (active_fields_bitvector c) = unat ((max_ssz_index c + 8) div 8) \<and>
    (\<forall>j. active_bit (active_fields_bitvector c) j \<longleftrightarrow>
       (\<exists>p \<in> set (live_fields P s). \<exists>idx. ssz_index P p = Some idx \<and> unat idx = j))"
  using go_active_bits [OF assms] by blast

theorem active_fields_bits_witness:
  "active_bit (active_fields_bitvector (projr (go_AnalyzeContainer 3 example 2))) 2 \<and>
   \<not> active_bit (active_fields_bitvector (projr (go_AnalyzeContainer 3 example 2))) 1"
proof -
  have "is_ok (go_AnalyzeContainer 3 example 2)" by code_simp
  then have ok: "go_AnalyzeContainer 3 example 2 = Inr (projr (go_AnalyzeContainer 3 example 2))"
    by (cases "go_AnalyzeContainer 3 example 2") auto
  have s: "2 < length (struct_store example)" by (simp add: example_def)
  have prog: "Lookup (sd_attributes (struct_at example 2)) ''ssz_progressive'' \<noteq> None" by code_simp
  have ids: "map (ssz_index example) (live_fields example 2) = [Some 0, Some 2]" by code_simp
  then have "\<exists>p \<in> set (live_fields example 2). ssz_index example p = Some 2"
    and "\<forall>p \<in> set (live_fields example 2). ssz_index example p \<in> {Some 0, Some 2}"
    by (auto simp: map_eq_Cons_conv)
  with active_fields_bits [OF ok wf_example s prog] show ?thesis by fastforce
qed

section \<open>Attribute values\<close>

text \<open>
  A number printed into an attribute is the number the generators read back, for every
  value of 64 bits.
\<close>

theorem uint_round_trip: "StringToUInt (NumToString (unat w)) = w"
  using StringToUInt_NumToString [of "unat w"] unat_bound [of w] by simp






section \<open>Merkleization\<close>

text \<open>
  C18. The chunk limits that the Go back end prints into \<open>HashTreeRoot\<close> are the numbers of
  32-byte chunks that a full list takes, rounded up, for every limit below \<open>2^64 - 32\<close> and the
  element sizes that reach the code.
\<close>

theorem chunk_limits:
  assumes "unat l < 2 ^ 64 - 32" and "n \<in> {1, 2, 4, 8, 16}"
  shows "unat (go_ssz_limit_for_bytes l) = (unat l + 31) div 32 \<and>
    unat (go_ssz_limit_for_elements l n) = (unat l * unat n + 31) div 32"
  using limit_for_bytes [OF assms(1)] limit_for_elements [OF assms(2,1)] by simp

theorem chunk_limits_witness:
  "unat (go_ssz_limit_for_bytes 100) = 4 \<and> unat (go_ssz_limit_for_elements 9 8) = 3"
  using chunk_limits [of 100 8] chunk_limits [of 9 8] by simp

text \<open>
  The emitted \<open>HashTreeRootWith\<close> of a progressive table puts one leaf per tree index: the
  live field that has the index, hashed by the code for its type, or a zero where no live field
  has it.  Of several live fields with one index, which the parser accepts, only the one with
  the highest address is hashed.
\<close>

theorem progressive_leaves:
  assumes "go_AnalyzeContainer n (gen_parser G) s = Inr c" and "wf_schema (gen_parser G)"
    and "s < length (struct_store (gen_parser G))"
    and "Lookup (sd_attributes (struct_at (gen_parser G) s)) ''ssz_progressive'' \<noteq> None"
  shows "((\<forall>q \<in> set (live_fields (gen_parser G) s). ssz_index (gen_parser G) q \<noteq> Some i) \<longrightarrow>
      go_hash_index G c i = index_line i ''gap (inactive)'' @ line tab ''hh.PutUint8(0)'') \<and>
    (\<forall>p \<in> set (live_fields (gen_parser G) s). ssz_index (gen_parser G) p = Some i \<longrightarrow>
      (\<forall>q \<in> set (live_fields (gen_parser G) s). ssz_index (gen_parser G) q = Some i \<longrightarrow> q \<le> p) \<longrightarrow>
      (\<exists>info. field_infos c p = Some info \<and> go_hash_index G c i =
         index_line i (fd_name (field_at (gen_parser G) p)) @
         go_GenHashField info (go_member G (field_at (gen_parser G) p)) tab))"
  using go_leaf [OF assms refl] by blast

theorem progressive_leaves_witness:
  "go_hash_index example_gen (projr (go_AnalyzeContainer 3 example 2)) 1 =
     index_line 1 ''gap (inactive)'' @ line tab ''hh.PutUint8(0)''"
proof -
  have P: "gen_parser example_gen = example" by (simp add: example_gen_def)
  have "is_ok (go_AnalyzeContainer 3 example 2)" by code_simp
  then have ok: "go_AnalyzeContainer 3 (gen_parser example_gen) 2 =
      Inr (projr (go_AnalyzeContainer 3 example 2))"
    by (cases "go_AnalyzeContainer 3 example 2") (auto simp: P)
  have s: "2 < length (struct_store (gen_parser example_gen))" by (simp add: P example_def)
  have prog: "Lookup (sd_attributes (struct_at (gen_parser example_gen) 2)) ''ssz_progressive'' \<noteq> None"
    by code_simp
  have wf: "wf_schema (gen_parser example_gen)" by (simp add: P wf_example)
  have "\<forall>q \<in> set (live_fields (gen_parser example_gen) 2). ssz_index (gen_parser example_gen) q \<noteq> Some 1"
    by code_simp
  with progressive_leaves [OF ok wf s prog, of 1] show ?thesis by blast
qed

section \<open>Rejected schemas and termination\<close>





section \<open>Names and files\<close>

text \<open>The name of a member of an emitted Go struct is never a Go keyword.\<close>

theorem members_no_keywords: "go_Field G f \<notin> set GoKeywords"
  by (rule go_field_not_keyword)

text \<open>
  A run of the Go generator that succeeds has written exactly one file for every definition
  that is not marked as generated, in the order of the schema, under the definition's name and
  with the text of its analysis; every write succeeded.
\<close>

theorem generate_writes:
  assumes "go_generate save depth G = Inr files"
  shows "list_all2 (\<lambda>s file. \<exists>c. go_AnalyzeContainer depth (gen_parser G) s = Inr c \<and>
        file = (go_file_name G (struct_at (gen_parser G) s),
          go_file_text (struct_at (gen_parser G) s)
            (go_GenerateType G (struct_at (gen_parser G) s) c)))
      (filter (\<lambda>s. \<not> sd_generated (struct_at (gen_parser G) s)) (structs_vec (gen_parser G))) files \<and>
    list_all (\<lambda>(name, text). save name text) files"
  using go_generate_files [OF assms] by (simp add: go_file_def [abs_def] prod_eq_iff)

theorem generate_writes_witness:
  "map fst (projr (go_generate (\<lambda>name text. True) 3 example_gen)) =
     map (\<lambda>s. go_file_name example_gen (struct_at example s)) [0, 1, 2]"
proof -
  have "\<forall>s \<in> set (structs_vec (gen_parser example_gen)).
      sd_generated (struct_at (gen_parser example_gen) s) \<or>
      is_ok (go_AnalyzeContainer 3 (gen_parser example_gen) s)" by code_simp
  then obtain files where ok: "go_generate (\<lambda>name text. True) 3 example_gen = Inr files"
    using go_generate_total [of example_gen 3 "\<lambda>name text. True"] by blast
  have "filter (\<lambda>s. \<not> sd_generated (struct_at (gen_parser example_gen) s))
      (structs_vec (gen_parser example_gen)) = [0, 1, 2]" by code_simp
  moreover have "gen_parser example_gen = example" by (simp add: example_gen_def)
  ultimately have "list_all2 (\<lambda>s file. fst file = go_file_name example_gen (struct_at example s))
      [0, 1, 2] files"
    using generate_writes [OF ok] by (auto elim!: list_all2_mono)
  then have "map fst files = map (\<lambda>s. go_file_name example_gen (struct_at example s)) [0, 1, 2]"
    by (induction rule: list_all2_induct) (simp_all del: One_nat_def)
  with ok show ?thesis by simp
qed

section \<open>The Lean back end\<close>

text \<open>
  The declaration that the Lean back end prints for a container lists the live fields with
  the Lean types that their SSZ types denote, when the target library has all of them; a
  progressive list or a union among them is an error.
\<close>

theorem lean_declaration:
  assumes "wf_schema P" and "struct_ty n P s = Some (TContainer nm fs)" and "fields_bits_ok fs"
    and "lean_AnalyzeContainer n P s = Inr c" and "IsByteVectorStruct P (struct_at P s) = None"
    and "Lookup (sd_attributes (struct_at P s)) ''ssz_progressive'' = None"
  shows "if \<forall>f \<in> set fs. lean_supported (snd f)
    then lean_GenerateType P (struct_at P s) c = Inr (lean_structure nm fs)
    else \<not> is_ok (lean_GenerateType P (struct_at P s) c)"
  using lean_declares [OF assms(1-5) lean_not_progressive [OF assms(4,6)]] by auto

theorem lean_declaration_witness:
  "lean_GenerateType example (struct_at example 1) (projr (lean_AnalyzeContainer 3 example 1)) =
     Inr (case block_ty of TContainer nm fs \<Rightarrow> lean_structure nm fs) \<and>
   \<not> is_ok (lean_GenerateType example (struct_at example 5) (projr (lean_AnalyzeContainer 3 example 5)))"
proof -
  have ok: "lean_AnalyzeContainer 3 example s = Inr (projr (lean_AnalyzeContainer 3 example s))"
    if "s \<in> {1, 5}" for s
  proof -
    have "is_ok (lean_AnalyzeContainer 3 example 1)" "is_ok (lean_AnalyzeContainer 3 example 5)"
      by code_simp+
    with that show ?thesis by (cases "lean_AnalyzeContainer 3 example s") auto
  qed
  have plain: "IsByteVectorStruct example (struct_at example 1) = None"
    "IsByteVectorStruct example (struct_at example 5) = None"
    "Lookup (sd_attributes (struct_at example 1)) ''ssz_progressive'' = None"
    "Lookup (sd_attributes (struct_at example 5)) ''ssz_progressive'' = None" by code_simp+
  have five: "struct_ty 3 example 5 = Some (TContainer ''Stream'' [(''items'', TProgressiveList (TUint 4))])"
    by code_simp
  from lean_declaration [OF wf_example block_ty_example [unfolded block_ty_def] _ ok plain(1,3)]
    lean_declaration [OF wf_example five _ ok plain(2,4)]
  show ?thesis by (simp add: block_ty_def)
qed

text \<open>The Lean back end rejects every progressive container it analyses.\<close>

theorem lean_rejects_progressive:
  assumes "lean_AnalyzeContainer n P s = Inr c"
    and "Lookup (sd_attributes (struct_at P s)) ''ssz_progressive'' \<noteq> None"
    and "IsByteVectorStruct P (struct_at P s) = None"
  shows "lean_GenerateType P (struct_at P s) c = Inl (lean_progressive_error (struct_at P s))"
  using lean_progressive_flag [OF assms(1,2)] assms(3) by (simp add: lean_GenerateType_def)

theorem lean_rejects_progressive_witness:
  "lean_GenerateType example (struct_at example 2) (projr (lean_AnalyzeContainer 3 example 2)) =
     Inl (lean_progressive_error (struct_at example 2))"
proof -
  have "is_ok (lean_AnalyzeContainer 3 example 2)" by code_simp
  then have ok: "lean_AnalyzeContainer 3 example 2 = Inr (projr (lean_AnalyzeContainer 3 example 2))"
    by (cases "lean_AnalyzeContainer 3 example 2") auto
  have "IsByteVectorStruct example (struct_at example 2) = None"
    "Lookup (sd_attributes (struct_at example 2)) ''ssz_progressive'' \<noteq> None" by code_simp+
  with lean_rejects_progressive [OF ok] show ?thesis by blast
qed

section \<open>The emitted deserializer\<close>

text \<open>
  C3. Decoding gives back what was encoded: for every schema the parser accepts and every value
  of a type without vectors of containers and without lists of empty elements, the emitted
  \<open>UnmarshalSSZ\<close>, called on a new object with the bytes that the emitted \<open>MarshalSSZTo\<close>
  appended to an empty buffer, returns no error and leaves the original value in the object,
  whatever bytes follow in the buffer's capacity.
\<close>

theorem emitted_round_trip:
  assumes "wf_schema (gen_parser G)" and "small_ids (gen_parser G)" and "go_names_ok G"
    and "struct_ty depth (gen_parser G) s = Some t" and "bits_ok t" and "size_ok t" and "decodable t"
    and "val_ok t (VStruct nm vs)" and "length (serialize t (VStruct nm vs)) < 2 ^ 32"
  shows "\<exists>bs. MarshalSSZTo (go_program depth G) depth nm vs [] = Some bs \<and>
    UnmarshalSSZ (go_dprogram depth G) depth nm (zero_of (go_dprogram depth G) depth nm)
      (bs @ rest, length bs) = Done (VStruct nm vs)"
proof -
  from containers_struct_ty assms(4,8) obtain fs where t: "t = TContainer nm fs" and v: "vals_ok fs vs"
    unfolding containers_def by fastforce
  let ?bs = "serialize (TContainer nm fs) (VStruct nm vs)"
  have "MarshalSSZTo (go_program depth G) depth nm vs [] = Some ([] @ ?bs)"
    unfolding go_program_def
    by (rule marshal_program [OF assms(1,2) assms(3) [unfolded go_names_ok_def] order_refl])
      (use assms(4,5) t v in simp_all)
  moreover have "fresh (TContainer nm fs) (zero_of (go_dprogram depth G) depth nm)"
    by (rule zero_of_fresh [OF assms(1-3) refl order_refl]) (use assms(4,5) t in simp_all)
  then have "UnmarshalSSZ (go_dprogram depth G) depth nm (zero_of (go_dprogram depth G) depth nm)
      (?bs @ rest, length ?bs) = Done (VStruct nm vs)"
    by (intro unmarshal_program [OF assms(1-3) refl order_refl])
      (use assms(4-9) t v in \<open>simp_all add: slice_ok_def slice_bytes_def\<close>)
  ultimately show ?thesis by simp
qed

theorem emitted_round_trip_witness:
  "\<exists>bs. MarshalSSZTo (go_program 3 example_gen) 3 ''Block'' block_vals [] = Some bs \<and>
     UnmarshalSSZ (go_dprogram 3 example_gen) 3 ''Block'' (zero_of (go_dprogram 3 example_gen) 3 ''Block'')
       (bs @ [255], length bs) = Done (VStruct ''Block'' block_vals)"
  by (rule emitted_round_trip [of example_gen 3 1 block_ty])
    (simp_all add: example_gen_def wf_example small_example block_ty_example [simplified] block_bits
      block_sizes block_val_ok block_decodable block_length [simplified] names_example [unfolded example_gen_def])

text \<open>
  C7. The text that the generator writes for \<open>UnmarshalSSZ\<close> and for the struct is the text of
  the statements and types that \<open>emitted_round_trip\<close> executes.
\<close>

theorem emitted_unmarshal_text:
  "go_GenUnmarshalSSZ G sd c =
     line [] (''func (t *'' @ sd_name sd @ '') UnmarshalSSZ(buf []byte) error {'') @
     pp_dstmts tab (dd_unmarshal (go_ddecl G c)) @ line tab ''return nil'' @ line [] ''}'' \<and>
   go_GenGoStruct G sd c =
     line [] (''type '' @ sd_name sd @ '' struct {'') @
     concat (map (\<lambda>(p, f, ty). tab @ f @ '' '' @ pp_ty ty @
         line [] ('' `ssz:'' @ dq @ fd_name (field_at (gen_parser G) p) @ dq @ ''`''))
       (zip (map fst (infos_of c (all_fields c))) (dd_fields (go_ddecl G c)))) @
     line [] ''}''"
  by (simp add: print_unmarshal print_struct go_ddecl_def)

text \<open>
  C4. The emitted \<open>UnmarshalSSZ\<close> never panics on untrusted bytes when the type has no list of
  variable-size elements and no vector of containers: on every buffer, of any length and capacity,
  and every receiver of the right type it returns an error or leaves a value of the type in the
  receiver.
\<close>

theorem unmarshal_never_panics:
  assumes "wf_schema (gen_parser G)" and "small_ids (gen_parser G)" and "go_names_ok G"
    and "struct_ty depth (gen_parser G) s = Some (TContainer nm fs)" and "bits_ok (TContainer nm fs)"
    and "size_ok (TContainer nm fs)" and "panic_free (TContainer nm fs)"
    and "shaped (TContainer nm fs) v" and "n \<le> length bytes"
  shows "(\<exists>e. UnmarshalSSZ (go_dprogram depth G) depth nm v (bytes, n) = Fails e) \<or>
    (\<exists>w. UnmarshalSSZ (go_dprogram depth G) depth nm v (bytes, n) = Done w \<and> shaped (TContainer nm fs) w)"
proof -
  have "ok_res (shaped (TContainer nm fs)) (UnmarshalSSZ (go_dprogram depth G) depth nm v (bytes, n))"
    by (rule unmarshal_safe [OF assms(1-3) refl order_refl assms(4) _ assms(6) _ assms(8)])
      (use assms(5,7,9) in \<open>simp_all add: slice_ok_def\<close>)
  then show ?thesis
    by (cases "UnmarshalSSZ (go_dprogram depth G) depth nm v (bytes, n)") (simp_all del: shaped.simps)
qed

theorem unmarshal_never_panics_witness:
  "(\<exists>e. UnmarshalSSZ (go_dprogram 2 example_gen) 2 ''Checkpoint''
      (VStruct ''Checkpoint'' [VUint 0, VBytes [0, 0, 0, 0]]) ([1, 2, 3], 2) = Fails e) \<or>
   (\<exists>w. UnmarshalSSZ (go_dprogram 2 example_gen) 2 ''Checkpoint''
      (VStruct ''Checkpoint'' [VUint 0, VBytes [0, 0, 0, 0]]) ([1, 2, 3], 2) = Done w \<and> shaped checkpoint_ty w)"
  by (rule unmarshal_never_panics [of example_gen 2 0])
    (simp_all add: example_gen_def wf_example small_example names_example [unfolded example_gen_def]
      checkpoint_ty_example [simplified] is_byte_ty_def slot_len_def)


section \<open>Hash tree roots\<close>

text \<open>
  C5. The emitted \<open>HashTreeRootWith\<close> computes the hash tree root of the consensus specification:
  with any hasher that keeps the contract \<open>hash_walker\<close>, for every schema the parser accepts whose
  progressive tables have distinct ids, every struct or table with a \<open>hashable\<close> type and every value
  within the limits of the type, the method succeeds and appends exactly the root to the hasher's
  content, through nested containers, lists, vectors, bit fields and progressive containers.
\<close>

theorem emitted_hash_tree_root:
  assumes "wf_schema (gen_parser G)" and "small_ids (gen_parser G)" and "go_names_ok G"
    and "progressive_ok (gen_parser G)" and "struct_ty depth (gen_parser G) s = Some t" and "bits_ok t"
    and "hashable t" and "val_ok t (VStruct nm vs)" and "within t (VStruct nm vs)"
    and "hash_walker W content H PR" and "32 dvd length (content hh)"
  shows "\<exists>hh'. HashTreeRootWith W (go_hprogram depth G) depth nm vs hh = Some hh' \<and>
    content hh' = content hh @ hash_tree_root H PR (tree_indices (gen_parser G)) t (VStruct nm vs)"
proof -
  from containers_struct_ty assms(5,8) obtain fs where t: "t = TContainer nm fs" and "vals_ok fs vs"
    unfolding containers_def by fastforce
  with hash_walker.go_hash_program [OF assms(10,1,2) assms(3) [unfolded go_names_ok_def] assms(4) order_refl,
      where s = hh and vs = vs] assms(5-11)
  show ?thesis by (simp add: go_hprogram_def leaves_def del: hash_tree_root.simps)
qed

text \<open>With the Rust hasher, for the table of all kinds of fields and for the progressive one.\<close>

theorem emitted_hash_tree_root_witness:
  "(\<exists>hh'. HashTreeRootWith (rust_walker (sized rev)) (go_hprogram 3 example_gen) 3 ''Block'' block_vals new_hasher = Some hh' \<and>
     h_buf hh' = hash_tree_root (sized rev) (rust_progressive (sized rev)) (tree_indices example) block_ty
       (VStruct ''Block'' block_vals)) \<and>
   (\<exists>hh'. HashTreeRootWith (rust_walker (sized rev)) (go_hprogram 2 example_gen) 2 ''Profile''
       [VUint 3, VBytes [1, 2]] new_hasher = Some hh' \<and>
     h_buf hh' = hash_tree_root (sized rev) (rust_progressive (sized rev)) (tree_indices example) profile_ty
       (VStruct ''Profile'' [VUint 3, VBytes [1, 2]]))"
  using emitted_hash_tree_root [of example_gen 3 1 block_ty "''Block''" block_vals "rust_walker (sized rev)" h_buf
      "sized rev" "rust_progressive (sized rev)" new_hasher]
    emitted_hash_tree_root [of example_gen 2 2 profile_ty "''Profile''" "[VUint 3, VBytes [1, 2]]"
      "rust_walker (sized rev)" h_buf "sized rev" "rust_progressive (sized rev)" new_hasher]
  by (simp add: example_gen_def wf_example small_example names_example [unfolded example_gen_def] progressive_example
      block_ty_example [simplified] block_bits block_hashable block_val_ok block_within profile_ty_example [simplified]
      profile_facts rust.hash_walker_axioms new_hasher_def del: hash_tree_root.simps val_ok.simps within.simps
      hashable.simps bits_ok.simps HashTreeRootWith.simps)

text \<open>
  C8. The text that the generator writes for \<open>HashTreeRootWith\<close> is the text of the statements that
  \<open>emitted_hash_tree_root\<close> executes, framed by the signature and the return statement.
\<close>

theorem emitted_hash_text:
  "go_GenHashTreeRootWith G sd c =
     line [] (''func (t *'' @ sd_name sd @ '') HashTreeRootWith(hh sszutils.HashWalker) error {'') @
     pp_hstmts tab (hd_hash (go_hdecl G c)) @ line tab ''return nil'' @ line [] ''}''"
  by (simp add: print_hash_body go_hdecl_def emit_hdecl_def)

section \<open>The hasher of the Rust runtime\<close>

text \<open>
  C9. Merkleization layer by layer in the buffer is the tree of the specification: the Rust
  \<open>merkleize_with_mixin\<close> replaces the chunks from an index on by the root of the tree over the chunk
  limit, padded with zero chunks that are never written out, with the length mixed in.
\<close>

theorem rust_hasher_merkleizes:
  assumes "\<forall>x. length (H x) = 32" and "32 dvd i" and "i \<le> length (h_buf h)" and "32 dvd length (h_buf h)"
    and "length (chunks (drop i (h_buf h))) \<le> limit" and "limit \<le> 2 ^ 63" and "n < 2 ^ 64"
  shows "merkleize_mixin H i n limit h = Some (h\<lparr>h_buf := take i (h_buf h) @
    mix_in_length H (merkle_tree H (depth_of limit) (chunks (drop i (h_buf h)))) n\<rparr>)"
  using rust_mixin [where H = H, OF _ assms(2-7)] assms(1) by (simp add: rooted_def merkleize_def)

theorem rust_hasher_merkleizes_witness:
  "merkleize_mixin (sized rev) 0 2 5 \<lparr>h_buf = replicate 64 7\<rparr> =
     Some \<lparr>h_buf = mix_in_length (sized rev) (merkle_tree (sized rev) (depth_of 5) (chunks (replicate 64 7))) 2\<rparr>"
  using rust_hasher_merkleizes [of "sized rev" 0 "\<lparr>h_buf = replicate 64 7\<rparr>" 5 2]
  by (simp add: length_sized length_chunks)

text \<open>
  A chunk limit above \<open>2 ^ 63\<close>, which the generators print for a list of containers with such an
  \<open>ssz_max\<close>, makes the Rust hasher panic on every buffer: its depth is not representable.
\<close>

theorem rust_hasher_limit_panics:
  assumes "2 ^ 63 < limit"
  shows "merkleize_mixin H i n limit h = None"
  using assms by (simp add: merkleize_mixin_def merkleize_inner_def get_depth_def Let_def)

theorem rust_hasher_limit_panics_witness: "merkleize_mixin (sized rev) 0 0 (2 ^ 64 - 1) new_hasher = None"
  by (rule rust_hasher_limit_panics) simp

text \<open>
  C21. \<open>put_bitlist\<close> finds the terminating bit of a bit list, clears it, and appends the root of the
  remaining bits over the limit with their number mixed in, although it drops zero bytes at the end.
\<close>

theorem rust_hasher_bitlist:
  assumes "\<forall>x. length (H x) = 32" and "bitlist_ok limit bs" and "limit < 2 ^ 64 - 255"
    and "bitlist_len bs < 2 ^ 64" and "32 dvd length (h_buf h)"
  shows "put_bitlist_chunk H bs limit h = Some (h\<lparr>h_buf := h_buf h @ bitlist_root H limit bs\<rparr>)"
proof -
  obtain h' where "put_bitlist_chunk H bs limit h = Some h'" "h_buf h' = h_buf h @ bitlist_root H limit bs"
    using rust_put_bitlist [where H = H, OF _ assms(2-5)] assms(1) by blast
  then show ?thesis by (cases h; cases h') simp
qed

theorem rust_hasher_bitlist_witness:
  "put_bitlist_chunk (sized rev) [5, 1] 20 new_hasher = Some \<lparr>h_buf = bitlist_root (sized rev) 20 [5, 1]\<rparr>"
  using rust_hasher_bitlist [of "sized rev" 20 "[5, 1]" new_hasher]
  by (simp add: length_sized bitlist_ok_def bitlist_len_def top_bit_def bit_length.simps new_hasher_def)

text \<open>
  Progressive merkleization folds the roots of subtrees of 1, 4, 16, \<open>\<dots>\<close> chunks as EIP-7916
  says, \<open>prog_tree\<close>, except over a single chunk: there the root is the chunk itself, without the hash
  with the zero chunk that the comment in the code describes.
\<close>

theorem rust_hasher_progressive:
  assumes "\<forall>x. length (H x) = 32" and "32 dvd i" and "i \<le> length (h_buf h)" and "32 dvd length (h_buf h)"
  shows "merkleize_progressive_at H i h = Some (h\<lparr>h_buf := take i (h_buf h) @
      (let cs = chunks (drop i (h_buf h)) in if length cs = 1 then hd cs else prog_tree H 1 cs)\<rparr>) \<and>
    prog_tree H 1 [c] = H (c @ zero_chunk)"
proof -
  have "prog_tree H 4 [] = zero_chunk" by (subst prog_tree.simps) simp
  then have "prog_tree H 1 [c] = H (c @ zero_chunk)"
    by (subst prog_tree.simps) (simp add: merkleize_def depth_of.simps)
  then show ?thesis
    using rust_progressive_at [where H = H, OF _ assms(2-4)] assms(1) by (simp add: rooted_def rust_progressive_def Let_def)
qed

theorem rust_hasher_progressive_witness:
  "merkleize_progressive_at (sized rev) 0 \<lparr>h_buf = replicate 32 7\<rparr> = Some \<lparr>h_buf = replicate 32 7\<rparr>"
  using rust_hasher_progressive [of "sized rev" 0 "\<lparr>h_buf = replicate 32 7\<rparr>"]
  by (simp add: length_sized chunks_whole)

section \<open>The Rust back end\<close>

text \<open>
  C22. The Rust back end emits the same encoding: for every schema, \<open>as_ssz_bytes\<close> of a struct or table
  allocates exactly the length of the serialization and returns it, although the text differs from
  that of the Go back end in the loops over vectors and in the size of progressive containers.
\<close>

theorem rust_emitted_serializes:
  assumes "wf_schema P" and "small_ids P" and "rust_names_ok P"
    and "struct_ty depth P s = Some t" and "bits_ok t" and "size_ok t" and "val_ok t (VStruct nm vs)"
  shows "rust_as_ssz_bytes (rust_program depth P) depth nm vs =
    Some (length (serialize t (VStruct nm vs)), serialize t (VStruct nm vs))"
proof -
  from struct_value [OF assms(4,7)] obtain fs where t: "t = TContainer nm fs" "vals_ok fs vs" .
  have names: "names_ok (rust_dialect P) P" using assms(3) by (simp add: rust_names_ok_def)
  from t size_program [OF assms(1,2) names order_refl] marshal_program [OF assms(1,2) names order_refl] assms(4-6)
  show ?thesis by (simp add: rust_as_ssz_bytes_def rust_program_eq)
qed

theorem rust_emitted_serializes_witness:
  "rust_as_ssz_bytes (rust_program 3 example) 3 ''Block'' block_vals =
     Some (length (serialize block_ty (VStruct ''Block'' block_vals)),
       serialize block_ty (VStruct ''Block'' block_vals))"
  by (rule rust_emitted_serializes [of example 3 1])
    (simp_all add: wf_example small_example rust_names_example block_ty_example [simplified] block_bits
      block_sizes block_val_ok)




text \<open>
  The Rust back end computes the chunk limit of a list of plain elements in 64 bits without a
  check: where the elements at the limit take \<open>2 ^ 64\<close> bytes or more, it emits a smaller limit than
  the specification's, and than the one the Go back end emits for the same list.
\<close>

theorem rust_limit_wraps:
  assumes "fixed_size e \<in> {1, 2, 4, 8, 16}" and "unat (info_limit i) < 2 ^ 64 - 32" and "elem_info i = Some e"
    and "2 ^ 64 \<le> unat (info_limit i) * unat (fixed_size e) + 31"
  shows "unat (rust_hash_limit i) < unat (go_ssz_limit_for_elements (info_limit i) (fixed_size e))"
proof -
  let ?n = "unat (info_limit i) * unat (fixed_size e) + 31"
  have "unat (ucast (fixed_size e) :: u64) = unat (fixed_size e)" using assms(1) by auto
  then have "unat (rust_hash_limit i) = ?n mod 2 ^ 64 div 32"
    using assms(3) by (simp add: rust_hash_limit_def elem_fixed_size_def unat_div unat_word_ariths mod_add_left_eq)
  also have "\<dots> < ?n div 32"
    using assms(4) by (rule wrapped_chunks)
  also have "\<dots> = unat (go_ssz_limit_for_elements (info_limit i) (fixed_size e))"
    by (rule limit_for_elements [OF assms(1,2), symmetric])
  finally show ?thesis .
qed

theorem rust_limit_wraps_witness:
  "unat (rust_hash_limit (SszFieldInfo SszList 0 (2 ^ 62) 0 True None (Some (SszFieldInfo SszUint64 8 0 0 False None None)))) <
   unat (go_ssz_limit_for_elements (2 ^ 62) 8)"
  using rust_limit_wraps [of "SszFieldInfo SszUint64 8 0 0 False None None"
      "SszFieldInfo SszList 0 (2 ^ 62) 0 True None (Some (SszFieldInfo SszUint64 8 0 0 False None None))"] by simp

text \<open>
  C25. What the emitted \<open>as_ssz_bytes\<close> returns, the emitted \<open>from_ssz_bytes\<close> reads back without an error
  and without a panic: the vectors of the type are vectors of bytes, the only ones whose decoding
  Rust compiles, and the bytes fit in 32-bit offsets.
\<close>

theorem rust_emitted_round_trip:
  assumes "wf_schema P" and "small_ids P" and "rust_names_ok P"
    and "struct_ty depth P s = Some t" and "bits_ok t" and "size_ok t" and "readable t"
    and "val_ok t (VStruct nm vs)" and "length (serialize t (VStruct nm vs)) < 2 ^ 32"
  shows "\<exists>cap bs. rust_as_ssz_bytes (rust_program depth P) depth nm vs = Some (cap, bs) \<and>
    from_ssz_bytes (rust_rprogram depth P) depth nm bs = Done (VStruct nm vs)"
proof -
  from struct_value [OF assms(4,8)] obtain fs where t: "t = TContainer nm fs" "vals_ok fs vs" .
  have names: "names_ok (rust_dialect P) P" using assms(3) by (simp add: rust_names_ok_def)
  have "rust_as_ssz_bytes (rust_program depth P) depth nm vs =
      Some (length (serialize t (VStruct nm vs)), serialize t (VStruct nm vs))"
    using t size_program [OF assms(1,2) names order_refl] marshal_program [OF assms(1,2) names order_refl] assms(4-6)
    by (simp add: rust_as_ssz_bytes_def rust_program_eq)
  moreover have "from_ssz_bytes (rust_rprogram depth P) depth nm (serialize t (VStruct nm vs)) = Done (VStruct nm vs)"
    unfolding t(1)
    by (rule from_program [OF assms(1,2) names order_refl]) (use t assms(4-7,9) in simp_all)
  ultimately show ?thesis by blast
qed

theorem rust_emitted_round_trip_witness:
  "\<exists>cap bs. rust_as_ssz_bytes (rust_program 3 example) 3 ''Block'' block_vals = Some (cap, bs) \<and>
     from_ssz_bytes (rust_rprogram 3 example) 3 ''Block'' bs = Done (VStruct ''Block'' block_vals)"
  by (rule rust_emitted_round_trip [of example 3 1 block_ty])
    (use block_ty_example block_length in \<open>simp_all add: wf_example small_example rust_names_example block_bits
      block_sizes block_readable block_val_ok\<close>)



section \<open>The Rust views\<close>







text \<open>
  C30. A run of the Rust generator reports the first error of an analysis, or saves one file: the
  header, then, in the order of the schema, for every definition that is not marked as generated its
  struct, its \<open>impl\<close> block, the struct of its view and the \<open>impl\<close> block of the view.
\<close>

theorem rust_generate_file:
  "rust_generate save depth P path file_name =
     (let live = filter (\<lambda>s. \<not> sd_generated (struct_at P s)) (structs_vec P);
          filename = path @ rust_ToSnakeCase file_name @ ''_ssz.rs'' in
      bind_res (collect_res (rust_AnalyzeContainer depth P) live) (\<lambda>cs.
        let text = rust_file_header @ concat (map2 (\<lambda>s c.
              rust_GenRustStruct P (struct_at P s) c @ nl @
              rust_GenImpl P (struct_at P s) c @ nl @
              rust_GenViewStruct (struct_at P s) @ nl @
              rust_GenViewImpl P (struct_at P s) c @ nl) live cs)
        in if save filename text then Inr [(filename, text)] else Inl (SaveFailed filename)))"
proof (cases "collect_res (rust_AnalyzeContainer depth P)
    (filter (\<lambda>s. \<not> sd_generated (struct_at P s)) (structs_vec P))")
  case (Inl e)
  then show ?thesis by (simp add: rust_generate_def rust_generate_text Let_def)
next
  case (Inr cs)
  then show ?thesis
    by (simp only: rust_generate_def rust_generate_text Let_def bind_res.simps rust_GenerateType_def append_assoc)
qed

section \<open>The Nim back end\<close>

text \<open>
  C31. The Nim back end emits the same encoding: for every schema, \<open>sszBytesLen\<close> of a struct or table
  returns the length of the serialization and \<open>marshalSSZTo\<close> appends the serialization to the
  sequence it is given, although its loops walk over numbers of elements and copy each number to a
  local first.
\<close>

theorem nim_emitted_serializes:
  assumes "wf_schema (gen_parser G)" and "small_ids (gen_parser G)" and "nim_names_ok G"
    and "struct_ty depth (gen_parser G) s = Some t" and "bits_ok t" and "size_ok t" and "val_ok t (VStruct nm vs)"
  shows "SizeSSZ (nim_program depth G) depth nm vs = Some (length (serialize t (VStruct nm vs))) \<and>
    MarshalSSZTo (nim_program depth G) depth nm vs buf = Some (buf @ serialize t (VStruct nm vs))"
proof -
  from struct_value [OF assms(4,7)] obtain fs where t: "t = TContainer nm fs" "vals_ok fs vs" .
  have names: "names_ok (nim_dialect G) (gen_parser G)" using assms(3) by (simp add: nim_names_ok_def)
  from t size_program [OF assms(1,2) names order_refl] marshal_program [OF assms(1,2) names order_refl] assms(4-6)
  show ?thesis by (simp add: nim_program_eq)
qed

theorem nim_emitted_serializes_witness:
  "SizeSSZ (nim_program 3 example_gen) 3 ''Block'' block_vals =
     Some (length (serialize block_ty (VStruct ''Block'' block_vals))) \<and>
   MarshalSSZTo (nim_program 3 example_gen) 3 ''Block'' block_vals [7] =
     Some ([7] @ serialize block_ty (VStruct ''Block'' block_vals))"
  by (rule nim_emitted_serializes [of example_gen 3 1])
    (simp_all add: example_gen_def wf_example small_example nim_names_example [unfolded example_gen_def]
      block_ty_example [simplified] block_bits block_sizes block_val_ok)

text \<open>
  The \<open>hashTreeRootWith\<close> that the Nim back end emits appends the hash tree root of its receiver,
  with any hasher that keeps the contract \<open>hash_walker\<close>, under the same conditions as that of the Go
  back end.
\<close>

theorem nim_emitted_root:
  assumes "wf_schema (gen_parser G)" and "small_ids (gen_parser G)" and "nim_names_ok G"
    and "progressive_ok (gen_parser G)" and "struct_ty depth (gen_parser G) s = Some t" and "bits_ok t"
    and "hashable t" and "val_ok t (VStruct nm vs)" and "within t (VStruct nm vs)"
    and "hash_walker W content H PR" and "32 dvd length (content hh)"
  shows "\<exists>hh'. HashTreeRootWith W (nim_hprogram depth G) depth nm vs hh = Some hh' \<and>
    content hh' = content hh @ hash_tree_root H PR (tree_indices (gen_parser G)) t (VStruct nm vs)"
proof -
  from struct_value [OF assms(5,8)] obtain fs where t: "t = TContainer nm fs" "vals_ok fs vs" .
  have names: "names_ok (nim_dialect G) (gen_parser G)" using assms(3) by (simp add: nim_names_ok_def)
  from t hash_walker.go_hash_program [OF assms(10,1,2) names assms(4) order_refl, where s = hh and vs = vs] assms(5-11)
  show ?thesis by (simp add: nim_program_eq leaves_def del: hash_tree_root.simps)
qed

text \<open>With the hasher of the Rust runtime, which keeps the contract.\<close>

theorem nim_emitted_root_witness:
  "\<exists>hh'. HashTreeRootWith (rust_walker (sized rev)) (nim_hprogram 3 example_gen) 3 ''Block'' block_vals new_hasher = Some hh' \<and>
     h_buf hh' = hash_tree_root (sized rev) (rust_progressive (sized rev)) (tree_indices example) block_ty
       (VStruct ''Block'' block_vals)"
  using nim_emitted_root [of example_gen 3 1 block_ty "''Block''" block_vals "rust_walker (sized rev)" h_buf
      "sized rev" "rust_progressive (sized rev)" new_hasher]
  by (simp add: example_gen_def wf_example small_example nim_names_example [unfolded example_gen_def] progressive_example
      block_ty_example [simplified] block_bits block_hashable block_val_ok block_within
      rust.hash_walker_axioms new_hasher_def del: hash_tree_root.simps val_ok.simps within.simps
      hashable.simps bits_ok.simps HashTreeRootWith.simps)


text \<open>
  The Nim namer escapes a keyword with an underscore behind it, which no Nim identifier may have: a
  field whose name in camel case is a keyword gets a member that the Nim compiler rejects.
\<close>

theorem nim_keyword_member:
  assumes "ConvertCase (fd_name f) kLowerCamel kLowerCamel \<in> set NimKeywords"
  shows "\<not> nim_identifier (NimFieldName G f)"
  using nim_keyword_field [OF assms] nim_identifier_trailing by metis

theorem nim_keyword_member_example: "fd_name f = ''type'' \<Longrightarrow> \<not> nim_identifier (NimFieldName G f)"
proof (rule nim_keyword_member)
  have "ConvertCase ''type'' kLowerCamel kLowerCamel \<in> set NimKeywords" by code_simp
  then show "fd_name f = ''type'' \<Longrightarrow> ConvertCase (fd_name f) kLowerCamel kLowerCamel \<in> set NimKeywords" by simp
qed


section \<open>The TypeScript, Java and C# back ends\<close>

text \<open>
  C33. The TypeScript back end emits the same encoding: for every schema, \<open>toSszBytes\<close> of a struct or
  table allocates an array of the length of the serialization, its \<open>sszAppend\<close> and those of the nested
  objects fill it from position to position, and the array is the serialization, unless it is longer
  than arrays can be.
\<close>

theorem ts_emitted_serializes:
  assumes "wf_schema P" and "small_ids P" and "ts_names_ok P"
    and "struct_ty depth P s = Some t" and "bits_ok t" and "size_ok t" and "val_ok t (VStruct nm vs)"
    and "length (serialize t (VStruct nm vs)) \<le> lim"
  shows "to_ssz_bytes lim (ts_program depth P) (ts_sizes depth P) depth nm vs = Some (serialize t (VStruct nm vs))"
  unfolding ts_program_eq
  by (rule ts_pos.to_ssz_bytes_program [OF assms(1,2) _ ts_members assms(4-6) _ assms(7,8)])
    (use assms(3) in \<open>simp_all add: ts_names_ok_def advances_trivial\<close>)

theorem ts_emitted_serializes_witness:
  "to_ssz_bytes 200 (ts_program 3 example) (ts_sizes 3 example) 3 ''Block'' block_vals =
     Some (serialize block_ty (VStruct ''Block'' block_vals))"
  by (rule ts_emitted_serializes [of example 3 1])
    (simp_all add: wf_example small_example ts_names_example block_ty_example [simplified] block_bits
      block_sizes block_val_ok block_short)



text \<open>
  C35. The Java back end emits the same encoding: \<open>marshalSSZ\<close> of a struct or table allocates an array of
  the length of the serialization and fills it; where a nested object has been written, the position
  moves by the size that the object announces.
\<close>

theorem java_emitted_serializes:
  assumes "wf_schema P" and "small_ids P" and "java_names_ok P"
    and "struct_ty depth P s = Some t" and "bits_ok t" and "size_ok t" and "val_ok t (VStruct nm vs)"
    and "length (serialize t (VStruct nm vs)) \<le> lim"
  shows "to_ssz_bytes lim (java_program depth P) (java_sizes depth P) depth nm vs = Some (serialize t (VStruct nm vs))"
  unfolding java_program_eq
  by (rule java_pos.to_ssz_bytes_program [OF assms(1,2) _ java_members assms(4-6) _ assms(7,8)])
    (use assms(3) in \<open>simp_all add: java_names_ok_def advances_trivial\<close>)

theorem java_emitted_serializes_witness:
  "to_ssz_bytes 200 (java_program 3 example) (java_sizes 3 example) 3 ''Block'' block_vals =
     Some (serialize block_ty (VStruct ''Block'' block_vals))"
  by (rule java_emitted_serializes [of example 3 1])
    (simp_all add: wf_example small_example java_names_example block_ty_example [simplified] block_bits
      block_sizes block_val_ok block_short)

text \<open>
  C36. The C# back end emits the same encoding for types in which no field of variable size follows a
  nested object of variable size (\<open>advances True\<close>): \<open>MarshalSSZ\<close> of such a struct or table returns the
  serialization.
\<close>

theorem csharp_emitted_serializes:
  assumes "wf_schema (gen_parser G)" and "small_ids (gen_parser G)" and "csharp_names_ok G"
    and "struct_ty depth (gen_parser G) s = Some t" and "bits_ok t" and "size_ok t" and "advances True t"
    and "val_ok t (VStruct nm vs)" and "length (serialize t (VStruct nm vs)) \<le> lim"
  shows "to_ssz_bytes lim (csharp_program depth G) (csharp_sizes depth G) depth nm vs =
    Some (serialize t (VStruct nm vs))"
  unfolding csharp_program_eq
  by (rule csharp_pos.to_ssz_bytes_program [OF assms(1,2) _ csharp_members assms(4-9)])
    (use assms(3) in \<open>simp add: csharp_names_ok_def\<close>)

theorem csharp_emitted_serializes_witness:
  "to_ssz_bytes 200 (csharp_program 3 example_gen) (csharp_sizes 3 example_gen) 3 ''Block'' block_vals =
     Some (serialize block_ty (VStruct ''Block'' block_vals))"
  by (rule csharp_emitted_serializes [of example_gen 3 1])
    (simp_all add: example_gen_def wf_example small_example csharp_names_example [unfolded example_gen_def]
      block_ty_example [simplified] block_bits block_sizes block_val_ok block_short block_advances)



text \<open>
  The hashing methods of the Java and C# back ends compute the root of structs and tables without nested
  containers; they hash a nested one by \<open>hashTreeRootWith\<close>, which no emitted class declares.
\<close>

theorem java_csharp_flat_root:
  assumes "wf_schema P" and "small_ids P" and "gen_parser G = P" and "java_names_ok P" and "csharp_names_ok G"
    and "progressive_ok P" and "1 \<le> depth" and "struct_ty 1 P s = Some t" and "bits_ok t" and "hashable t"
    and "val_ok t (VStruct nm vs)" and "within t (VStruct nm vs)"
    and "hash_walker W content H PR" and "32 dvd length (content hh)"
  shows "leaves content (java_hashTreeRoot W depth P nm vs hh)
      (content hh @ hash_tree_root H PR (tree_indices P) t (VStruct nm vs)) \<and>
    leaves content (csharp_HashTreeRoot W depth G nm vs hh)
      (content hh @ hash_tree_root H PR (tree_indices P) t (VStruct nm vs))"
proof -
  from struct_value [OF assms(8,11)] obtain fs where t: "t = TContainer nm fs" "vals_ok fs vs" .
  have names: "names_ok (java_dialect P) P" "names_ok (csharp_dialect G) P"
    using assms(3-5) by (simp_all add: java_names_ok_def csharp_names_ok_def)
  from t hash_walker.go_hash_program [OF assms(13,1,2) names(1) assms(6,7), where s = hh and vs = vs]
    hash_walker.go_hash_program [OF assms(13,1,2) names(2) assms(6,7), where s = hh and vs = vs] assms(3,8-14)
  show ?thesis
    by (simp add: java_program_eq csharp_program_eq del: hash_tree_root.simps HashTreeRootWith.simps One_nat_def)
qed


section \<open>The Zig back end\<close>

text \<open>
  C38. The Zig back end emits the same encoding: for every schema, the \<open>sszAppend\<close> of a struct or table
  writes the serialization to its writer, with offsets computed in advance by the emitted
  \<open>sszBytesLen\<close> of the nested objects and sums in 32 bits, for types without vectors of containers,
  over which the emitted loops do not compile, and serializations shorter than \<open>2 ^ 32\<close> bytes.
\<close>

theorem zig_emitted_serializes:
  assumes "wf_schema P" and "small_ids P" and "zig_names_ok P"
    and "struct_ty depth P s = Some t" and "bits_ok t" and "size_ok t" and "slices_only t"
    and "val_ok t (VStruct nm vs)" and "length (serialize t (VStruct nm vs)) < 2 ^ 32"
  shows "sszAppend (zig_program depth P) (zig_sizes depth P) depth nm vs out =
    Some (out @ serialize t (VStruct nm vs))"
proof -
  from struct_value [OF assms(4,8)] obtain fs where t: "t = TContainer nm fs" "vals_ok fs vs" .
  have "names_ok (zig_dialect P) P" using assms(3) by (simp add: zig_names_ok_def)
  from zappend_program [OF assms(1,2) this order_refl, where s = s and nm = nm and fs = fs and vs = vs]
    t assms(4-9)
  show ?thesis by (simp add: zfits_def del: serialize.simps size_ok.simps)
qed

theorem zig_emitted_serializes_witness:
  "sszAppend (zig_program 3 example) (zig_sizes 3 example) 3 ''Block'' block_vals [1, 2] =
     Some ([1, 2] @ serialize block_ty (VStruct ''Block'' block_vals))"
proof (rule zig_emitted_serializes [of example 3 1])
  show "length (serialize block_ty (VStruct ''Block'' block_vals)) < 2 ^ 32"
    using block_short by simp
qed (simp_all add: wf_example small_example zig_names_example block_ty_example [simplified] block_bits
    block_sizes block_slices block_val_ok)


text \<open>
  The statements of \<open>treeHashWith\<close> compute the root under the conditions of the other back ends, again
  for types over which the emitted loops compile.
\<close>

theorem zig_emitted_root:
  assumes "wf_schema P" and "small_ids P" and "zig_names_ok P" and "progressive_ok P"
    and "struct_ty depth P s = Some t" and "bits_ok t" and "slices_only t"
    and "hashable t" and "val_ok t (VStruct nm vs)" and "within t (VStruct nm vs)"
    and "hash_walker W content H PR" and "32 dvd length (content hh)"
  shows "leaves content (HashTreeRootWith W (zig_hprogram depth P) depth nm vs hh)
    (content hh @ hash_tree_root H PR (tree_indices P) t (VStruct nm vs))"
proof -
  from struct_value [OF assms(5,9)] obtain fs where t: "t = TContainer nm fs" "vals_ok fs vs" .
  have names: "names_ok (zig_dialect P) P" using assms(3) by (simp add: zig_names_ok_def)
  from t hash_walker.by_value_hash_program [OF assms(11,1,2) names assms(4) order_refl, where s = hh and vs = vs] assms(5-12)
  show ?thesis by (simp add: zig_program_eq del: hash_tree_root.simps HashTreeRootWith.simps)
qed

end
